(* ===== verification/Kiosk_Prelude.thy ===== *)
theory Kiosk_Prelude
  imports Main "HOL-Library.Word" "HOL-Library.AList"
begin

text \<open>
  What every component of the development shares: the sequencing of computations that may
  fail, JavaScript's array slice, objects as association lists, decimal numerals, and the
  collections of rewrite rules the component proofs use.

  A fallible computation is a value of a sum type: \<^theory_text>\<open>Inl\<close> carries the error
  (a returned failure or a thrown exception), \<^theory_text>\<open>Inr\<close> the result.
\<close>

named_theorems res_simps \<open>sequencing of fallible computations\<close>
named_theorems text_simps \<open>texts, digits and bytes\<close>
named_theorems slice_simps \<open>array slices\<close>

section \<open>Sequencing fallible computations\<close>

definition rbind :: "'e + 'a \<Rightarrow> ('a \<Rightarrow> 'e + 'b) \<Rightarrow> 'e + 'b" where
  "rbind m f = (case m of Inl e \<Rightarrow> Inl e | Inr x \<Rightarrow> f x)"

lemma rbind_Inl [simp, res_simps]: "rbind (Inl e) f = Inl e"
  by (simp add: rbind_def)

lemma rbind_Inr [simp, res_simps]: "rbind (Inr x) f = f x"
  by (simp add: rbind_def)

lemma rbind_eq_Inr [res_simps]:
  "rbind m f = Inr y \<longleftrightarrow> (\<exists>x. m = Inr x \<and> f x = Inr y)"
  by (cases m) auto

lemma rbind_eq_Inl [res_simps]:
  "rbind m f = Inl e \<longleftrightarrow> m = Inl e \<or> (\<exists>x. m = Inr x \<and> f x = Inl e)"
  by (cases m) auto

lemma rbind_cong [fundef_cong]:
  assumes "m = n" and "\<And>x. n = Inr x \<Longrightarrow> f x = g x"
  shows "rbind m f = rbind n g"
  using assms by (cases n) auto

definition guard_res :: "bool \<Rightarrow> 'e \<Rightarrow> 'e + unit" where
  "guard_res ok e = (if ok then Inr () else Inl e)"

lemma guard_res_eq_Inr [simp, res_simps]: "guard_res ok e = Inr u \<longleftrightarrow> ok"
  by (simp add: guard_res_def)

lemma guard_res_eq_Inl [simp, res_simps]: "guard_res ok e = Inl e' \<longleftrightarrow> \<not> ok \<and> e' = e"
  by (auto simp: guard_res_def)

section \<open>Array slices\<close>

text \<open>
  \<^verbatim>\<open>xs.slice(a, b)\<close> of JavaScript: a negative bound counts from the end, a bound out
  of range is clipped, a missing upper bound is the length.
\<close>

definition slice_index :: "nat \<Rightarrow> int \<Rightarrow> nat" where
  "slice_index n i = (if i < 0 then nat (int n + i) else min (nat i) n)"

definition js_slice :: "int \<Rightarrow> int option \<Rightarrow> 'a list \<Rightarrow> 'a list" where
  "js_slice a b xs =
     (let n = length xs;
          lo = slice_index n a;
          hi = (case b of None \<Rightarrow> n | Some i \<Rightarrow> slice_index n i)
      in take (hi - lo) (drop lo xs))"

lemma js_slice_from [simp, slice_simps]: "js_slice (int k) None xs = drop k xs"
  by (cases "k \<le> length xs") (auto simp: js_slice_def slice_index_def)

lemma js_slice_to [simp, slice_simps]: "js_slice 0 (Some (int k)) xs = take k xs"
  by (cases "k \<le> length xs") (auto simp: js_slice_def slice_index_def)

lemma js_slice_last [simp, slice_simps]:
  "0 < k \<Longrightarrow> js_slice (- int k) None xs = drop (length xs - k) xs"
  by (cases "k \<le> length xs") (auto simp: js_slice_def slice_index_def nat_diff_distrib)

lemma js_slice_range [slice_simps]:
  "j \<le> k \<Longrightarrow> k \<le> length xs \<Longrightarrow> js_slice (int j) (Some (int k)) xs = take (k - j) (drop j xs)"
  by (auto simp: js_slice_def slice_index_def)

lemma set_js_slice: "set (js_slice a b xs) \<subseteq> set xs"
  by (auto simp: js_slice_def Let_def dest!: in_set_takeD in_set_dropD)

section \<open>Objects\<close>

text \<open>
  A plain object or a Map is an association list in the order of insertion: assigning to a
  key that is present keeps its place, a new key goes to the end. That is
  \<^const>\<open>AList.update\<close> of the library; reading a property is \<^const>\<open>map_of\<close>.
\<close>

abbreviation put :: "'k \<Rightarrow> 'v \<Rightarrow> ('k \<times> 'v) list \<Rightarrow> ('k \<times> 'v) list" where
  "put k v ob \<equiv> AList.update k v ob"

lemma map_of_put [simp]: "map_of (put k v ob) = (map_of ob)(k \<mapsto> v)"
  by (rule update_conv')

lemma put_new: "k \<notin> fst ` set ob \<Longrightarrow> put k v ob = ob @ [(k, v)]"
  by (induction ob) auto

lemma set_put: "set (put k v m) \<subseteq> insert (k, v) (set m)"
  by (induction m) auto

lemma distinct_put: "distinct (map fst ob) \<Longrightarrow> distinct (map fst (put k v ob))"
  by (rule distinct_update)

section \<open>Decimal numerals\<close>

fun dec_digits :: "nat \<Rightarrow> nat list" where
  "dec_digits n = (if n < 10 then [n] else dec_digits (n div 10) @ [n mod 10])"

declare dec_digits.simps [simp del]

definition dec_value :: "nat list \<Rightarrow> nat" where
  "dec_value ds = foldl (\<lambda>v d. 10 * v + d) 0 ds"

definition pad_start :: "nat \<Rightarrow> 'a \<Rightarrow> 'a list \<Rightarrow> 'a list" where
  "pad_start w x xs = replicate (w - length xs) x @ xs"

lemma dec_value_snoc [simp]: "dec_value (ds @ [d]) = 10 * dec_value ds + d"
  by (simp add: dec_value_def)

lemma dec_value_Nil [simp]: "dec_value [] = 0"
  by (simp add: dec_value_def)

lemma dec_value_digits [simp]: "dec_value (dec_digits n) = n"
proof (induction n rule: dec_digits.induct)
  case (1 n)
  then show ?case
    by (subst dec_digits.simps) (auto simp: dec_value_def)
qed

lemma dec_digits_bound: "d \<in> set (dec_digits n) \<Longrightarrow> d < 10"
proof (induction n rule: dec_digits.induct)
  case (1 n)
  then show ?case
    by (subst (asm) (2) dec_digits.simps) (auto split: if_splits)
qed

lemma dec_digits_nonempty [simp]: "dec_digits n \<noteq> []"
  by (subst dec_digits.simps) simp

lemma length_dec_digits: "n < 10 ^ w \<Longrightarrow> 0 < w \<Longrightarrow> length (dec_digits n) \<le> w"
proof (induction w arbitrary: n)
  case 0
  then show ?case by simp
next
  case (Suc w)
  show ?case
  proof (cases "n < 10")
    case True
    then show ?thesis by (subst dec_digits.simps) simp
  next
    case False
    with Suc.prems have "n div 10 < 10 ^ w" and "0 < w"
      by (auto intro: Suc_leI simp: less_mult_imp_div_less gr0I) (cases w, auto)
    with Suc.IH have "length (dec_digits (n div 10)) \<le> w" by blast
    with False show ?thesis by (subst dec_digits.simps) simp
  qed
qed

lemma dec_value_bound: "\<forall>d \<in> set ds. d < 10 \<Longrightarrow> dec_value ds < 10 ^ length ds"
  by (induction ds rule: rev_induct) auto

lemma dec_digits_length_iff: "0 < w \<Longrightarrow> length (dec_digits n) \<le> w \<longleftrightarrow> n < 10 ^ w"
proof
  assume w: "0 < w" and l: "length (dec_digits n) \<le> w"
  have "dec_value (dec_digits n) < 10 ^ length (dec_digits n)"
    by (rule dec_value_bound) (simp add: dec_digits_bound)
  also have "\<dots> \<le> 10 ^ w"
    using l by (simp add: power_increasing)
  finally show "n < 10 ^ w" by simp
qed (rule length_dec_digits)

lemma dec_value_zeros [simp]: "dec_value (replicate k 0 @ ds) = dec_value ds"
  by (induction ds rule: rev_induct)
    (simp_all flip: append_assoc, induction k, simp_all add: dec_value_def)

lemma dec_value_pad [simp]: "dec_value (pad_start w 0 ds) = dec_value ds"
  by (simp add: pad_start_def)

lemma length_pad_start [simp]: "length (pad_start w x xs) = max w (length xs)"
  by (simp add: pad_start_def)

lemma set_pad_start: "set (pad_start w x xs) \<subseteq> insert x (set xs)"
  by (auto simp: pad_start_def)

lemma pad_start_id [simp]: "w \<le> length xs \<Longrightarrow> pad_start w x xs = xs"
  by (simp add: pad_start_def)

lemma map_pad_start: "map f (pad_start w x xs) = pad_start w (f x) (map f xs)"
  by (simp add: pad_start_def)

end
