(* ===== verification/Js_Text.thy ===== *)
theory Js_Text
  imports Kiosk_Prelude
begin

text \<open>
  JavaScript strings as sequences of UTF-16 code units and byte arrays (\<^verbatim>\<open>Uint8Array\<close>)
  as lists of 8-bit words, with what the program uses of the language's library on them:
  \<^verbatim>\<open>String(n)\<close>, \<^verbatim>\<open>toString(16)\<close>, \<^verbatim>\<open>parseInt\<close>,
  \<^verbatim>\<open>String.fromCharCode\<close>. The UTF-8 codec is in the theory Js\_Utf8.
  The lemmas say what a digit, a hexadecimal pair and a byte stand for.
\<close>

type_synonym byte = "8 word"
type_synonym code_unit = "16 word"
type_synonym jstext = "16 word list"

definition js :: "string \<Rightarrow> jstext" where
  "js s = map (\<lambda>c. of_nat (of_char c)) s"

definition bytes_of :: "string \<Rightarrow> byte list" where
  "bytes_of s = map (\<lambda>c. of_nat (of_char c)) s"

text \<open>\<^verbatim>\<open>!s.trim()\<close> on an identifier: nothing but white space.\<close>

definition is_space :: "char \<Rightarrow> bool" where
  "is_space c \<longleftrightarrow> of_char c \<in> {9, 10, 11, 12, 13, 32, 160 :: nat}"

definition blank :: "string \<Rightarrow> bool" where
  "blank s \<longleftrightarrow> list_all is_space s"

text \<open>\<^verbatim>\<open>x ?? d\<close>.\<close>

definition or_else :: "'a option \<Rightarrow> 'a \<Rightarrow> 'a" where
  "or_else x d = (case x of None \<Rightarrow> d | Some y \<Rightarrow> y)"

text \<open>A search that ignores case, \<^verbatim>\<open>/word/i\<close>.\<close>

definition lower :: "char \<Rightarrow> nat" where
  "lower c = (let n = of_char c in if 65 \<le> n \<and> n \<le> 90 then n + 32 else n)"

fun contains_from :: "(nat list \<Rightarrow> bool) \<Rightarrow> nat list \<Rightarrow> bool" where
  "contains_from P [] = P []"
| "contains_from P (c # t) \<longleftrightarrow> P (c # t) \<or> contains_from P t"

definition starts :: "nat list \<Rightarrow> nat list \<Rightarrow> bool" where
  "starts p t \<longleftrightarrow> take (length p) t = p"

section \<open>Digits\<close>

definition digit_unit :: "nat \<Rightarrow> code_unit" where
  "digit_unit d = of_nat (48 + d)"

definition is_digit :: "code_unit \<Rightarrow> bool" where
  "is_digit u \<longleftrightarrow> 48 \<le> unat u \<and> unat u \<le> 57"

definition digit_value :: "code_unit \<Rightarrow> nat" where
  "digit_value u = unat u - 48"

lemma unat_digit_unit [simp, text_simps]: "d < 10 \<Longrightarrow> unat (digit_unit d) = 48 + d"
  by (simp add: digit_unit_def unat_of_nat take_bit_eq_mod del: of_nat_add)

lemma is_digit_digit_unit [simp, text_simps]: "d < 10 \<Longrightarrow> is_digit (digit_unit d)"
  by (simp add: is_digit_def)

lemma digit_value_digit_unit [simp, text_simps]: "d < 10 \<Longrightarrow> digit_value (digit_unit d) = d"
  by (simp add: digit_value_def)

lemma digit_value_bound: "is_digit u \<Longrightarrow> digit_value u < 10"
  unfolding is_digit_def digit_value_def by linarith

lemma digit_unit_value: "is_digit u \<Longrightarrow> digit_unit (digit_value u) = u"
  by (simp add: is_digit_def digit_value_def digit_unit_def del: of_nat_add)

text \<open>\<^verbatim>\<open>/^\d*$/\<close> and \<^verbatim>\<open>/^\d+$/\<close> on a text.\<close>

definition all_digits :: "jstext \<Rightarrow> bool" where
  "all_digits t \<longleftrightarrow> list_all is_digit t"

definition some_digits :: "jstext \<Rightarrow> bool" where
  "some_digits t \<longleftrightarrow> t \<noteq> [] \<and> list_all is_digit t"

text \<open>\<^verbatim>\<open>String(n)\<close> for a natural number, \<^verbatim>\<open>parseInt(t, 10)\<close> on a text of digits.\<close>

definition dec_text :: "nat \<Rightarrow> jstext" where
  "dec_text n = map digit_unit (dec_digits n)"

definition parse_dec :: "jstext \<Rightarrow> nat" where
  "parse_dec t = dec_value (map digit_value t)"

lemma all_digits_map [simp, text_simps]: "\<forall>d \<in> set ds. d < 10 \<Longrightarrow> all_digits (map digit_unit ds)"
  by (simp add: all_digits_def list_all_iff)

lemma parse_dec_map [simp, text_simps]:
  "\<forall>d \<in> set ds. d < 10 \<Longrightarrow> parse_dec (map digit_unit ds) = dec_value ds"
  by (simp add: parse_dec_def o_def cong: map_cong)

lemma all_digits_dec_text [simp, text_simps]: "all_digits (dec_text n)"
  by (simp add: dec_text_def dec_digits_bound)

lemma parse_dec_text [simp, text_simps]: "parse_dec (dec_text n) = n"
  by (simp add: dec_text_def dec_digits_bound)

lemma dec_text_nonempty [simp]: "dec_text n \<noteq> []"
  by (simp add: dec_text_def)

lemma length_dec_text [simp]: "length (dec_text n) = length (dec_digits n)"
  by (simp add: dec_text_def)

section \<open>Characters and bytes\<close>

text \<open>\<^verbatim>\<open>charCodeAt\<close> stored in a byte array keeps the low eight bits;
  \<^verbatim>\<open>String.fromCharCode\<close> of a byte is the code unit of the same value.\<close>

definition byte_of_unit :: "code_unit \<Rightarrow> byte" where
  "byte_of_unit u = ucast u"

definition unit_of_byte :: "byte \<Rightarrow> code_unit" where
  "unit_of_byte b = ucast b"

lemma unat_byte_less [simp]: "unat (b :: byte) < 256"
  using unsigned_less [of b] by simp

lemma unat_unit_of_byte [simp, text_simps]: "unat (unit_of_byte b) = unat b"
proof -
  have "unat b < 65536" using unat_byte_less [of b] by linarith
  then show ?thesis
    by (simp add: unit_of_byte_def unsigned_ucast_eq take_bit_eq_mod)
qed

lemma unat_byte_of_unit: "unat u < 256 \<Longrightarrow> unat (byte_of_unit u) = unat u"
  by (simp add: byte_of_unit_def unsigned_ucast_eq take_bit_eq_mod)

lemma byte_of_unit_of_byte [simp, text_simps]: "byte_of_unit (unit_of_byte b) = b"
  by (rule word_unat_eq_iff [THEN iffD2]) (simp add: unat_byte_of_unit)

lemma unit_of_byte_of_unit [text_simps]: "unat u < 256 \<Longrightarrow> unit_of_byte (byte_of_unit u) = u"
  by (rule word_unat_eq_iff [THEN iffD2]) (simp add: unat_byte_of_unit)

section \<open>Hexadecimal\<close>

text \<open>\<^verbatim>\<open>n.toString(16)\<close> writes lower-case digits; \<^verbatim>\<open>toUpperCase\<close> is
  needed on its output only.\<close>

fun hex_digits :: "nat \<Rightarrow> nat list" where
  "hex_digits n = (if n < 16 then [n] else hex_digits (n div 16) @ [n mod 16])"

declare hex_digits.simps [simp del]

definition hex_unit :: "nat \<Rightarrow> code_unit" where
  "hex_unit d = of_nat (if d < 10 then 48 + d else 87 + d)"

definition hex_text :: "nat \<Rightarrow> jstext" where
  "hex_text n = map hex_unit (hex_digits n)"

definition int_hex_text :: "int \<Rightarrow> jstext" where
  "int_hex_text i = (if i < 0 then 45 # hex_text (nat (- i)) else hex_text (nat i))"

definition upper_unit :: "code_unit \<Rightarrow> code_unit" where
  "upper_unit u = (if 97 \<le> unat u \<and> unat u \<le> 122 then of_nat (unat u - 32) else u)"

text \<open>A character of \<^verbatim>\<open>[0-9a-f]\<close> with the \<^verbatim>\<open>i\<close> flag, and its value.\<close>

definition is_hex :: "code_unit \<Rightarrow> bool" where
  "is_hex u \<longleftrightarrow> is_digit u \<or> (97 \<le> unat u \<and> unat u \<le> 102) \<or> (65 \<le> unat u \<and> unat u \<le> 70)"

definition hex_value :: "code_unit \<Rightarrow> nat" where
  "hex_value u =
     (if 97 \<le> unat u then unat u - 87 else if 65 \<le> unat u then unat u - 55 else unat u - 48)"

fun hex_pairs :: "jstext \<Rightarrow> byte list" where
  "hex_pairs (a # b # t) = of_nat (16 * hex_value a + hex_value b) # hex_pairs t"
| "hex_pairs _ = []"

lemma small_unit: "n < 65536 \<Longrightarrow> unat (of_nat n :: code_unit) = n"
  by (simp add: unat_of_nat take_bit_eq_mod)

lemma small_byte: "n < 256 \<Longrightarrow> unat (of_nat n :: byte) = n"
  by (simp add: unat_of_nat take_bit_eq_mod)

lemma unat_hex_unit: "d < 16 \<Longrightarrow> unat (hex_unit d) = (if d < 10 then 48 + d else 87 + d)"
  unfolding hex_unit_def by (subst small_unit) auto

lemma unat_upper_hex_unit:
  "d < 16 \<Longrightarrow> unat (upper_unit (hex_unit d)) = (if d < 10 then 48 + d else 55 + d)"
  unfolding upper_unit_def by (auto simp: unat_hex_unit small_unit simp del: of_nat_diff of_nat_add)

lemma hex_unit_props [simp, text_simps]:
  assumes "d < 16"
  shows "is_hex (hex_unit d)" and "hex_value (hex_unit d) = d"
    and "is_hex (upper_unit (hex_unit d))" and "hex_value (upper_unit (hex_unit d)) = d"
  using assms
  by (auto simp: is_hex_def hex_value_def is_digit_def unat_hex_unit unat_upper_hex_unit)

lemma is_hex_is_digit: "is_digit u \<Longrightarrow> is_hex u"
  by (simp add: is_hex_def)

lemma hex_value_is_digit: "is_digit u \<Longrightarrow> hex_value u = digit_value u"
  by (simp add: is_digit_def hex_value_def digit_value_def)

lemma hex_value_bound: "is_hex u \<Longrightarrow> hex_value u < 16"
  unfolding is_hex_def hex_value_def is_digit_def by (auto split: if_splits)

lemma pad_hex_digits: "n < 256 \<Longrightarrow> pad_start 2 0 (hex_digits n) = [n div 16, n mod 16]"
  by (subst hex_digits.simps, subst hex_digits.simps) (auto simp: pad_start_def)

lemma hex_unit_0: "hex_unit 0 = 48"
  by (simp add: hex_unit_def)

lemma pad_hex_text:
  "n < 256 \<Longrightarrow> pad_start 2 48 (hex_text n) = [hex_unit (n div 16), hex_unit (n mod 16)]"
  using map_pad_start [of hex_unit 2 0 "hex_digits n"]
  by (simp add: hex_text_def hex_unit_0 pad_hex_digits)

lemma length_hex_pairs [simp]: "length (hex_pairs t) = length t div 2"
  by (induction t rule: hex_pairs.induct) auto

section \<open>JSON texts\<close>

text \<open>
  What the program uses of \<^verbatim>\<open>JSON.stringify\<close>: the text of strings, integers and
  arrays of them; and the hexadecimal digits of a 32-bit number, which its hashes end with.
\<close>

text \<open>\<^verbatim>\<open>JSON.stringify\<close> of texts and integers; an undefined element of an array is
  \<^verbatim>\<open>null\<close>.\<close>

definition json_char :: "code_unit \<Rightarrow> jstext" where
  "json_char u =
     (if u = 34 then js [CHR 0x5C, CHR 0x22]
      else if u = 92 then js [CHR 0x5C, CHR 0x5C]
      else if u = 8 then js [CHR 0x5C, CHR ''b'']
      else if u = 12 then js [CHR 0x5C, CHR ''f'']
      else if u = 10 then js [CHR 0x5C, CHR ''n'']
      else if u = 13 then js [CHR 0x5C, CHR ''r'']
      else if u = 9 then js [CHR 0x5C, CHR ''t'']
      else if unat u < 32 then js [CHR 0x5C, CHR ''u''] @ pad_start 4 48 (hex_text (unat u))
      else [u])"

definition json_text :: "string \<Rightarrow> jstext" where
  "json_text t = js [CHR 0x22] @ concat (map json_char (js t)) @ js [CHR 0x22]"

definition json_int :: "int \<Rightarrow> jstext" where
  "json_int i = (if i < 0 then 45 # dec_text (nat (- i)) else dec_text (nat i))"

definition json_option :: "string option \<Rightarrow> jstext" where
  "json_option t = (case t of None \<Rightarrow> js ''null'' | Some x \<Rightarrow> json_text x)"

fun join_comma :: "jstext list \<Rightarrow> jstext" where
  "join_comma [] = []"
| "join_comma [t] = t"
| "join_comma (t # u # ts) = t @ 44 # join_comma (u # ts)"

definition json_array :: "jstext list \<Rightarrow> jstext" where
  "json_array ts = js ''['' @ join_comma ts @ js '']''"

definition nibbles :: "32 word \<Rightarrow> nat list" where
  "nibbles h = map (\<lambda>i. unat (and (drop_bit (4 * i) h) 15)) [7, 6, 5, 4, 3, 2, 1, 0]"

end
