(* ===== verification/Registry.thy ===== *)
theory Registry
  imports Js_Text
begin

text \<open>
  The registries of the program: a map from keys to values that a start-up phase fills and
  that is frozen before it serves. Every registry class (field codecs, message codecs,
  withdrawal policies and gates, delivery policies, session supervisors) is an instance of the
  interface below; what its clients rely on is proved here once.
\<close>

record 'v registry =
  rg_entries :: "(string \<times> 'v) list"
  rg_frozen :: bool

definition new_registry :: "'v registry" where
  "new_registry = \<lparr>rg_entries = [], rg_frozen = False\<rparr>"

definition freeze :: "'v registry \<Rightarrow> 'v registry" where
  "freeze r = r\<lparr>rg_frozen := True\<rparr>"

definition lookup :: "'v registry \<Rightarrow> string \<Rightarrow> 'v option" where
  "lookup r k = map_of (rg_entries r) k"

definition insert_entry :: "string \<Rightarrow> 'v \<Rightarrow> 'v registry \<Rightarrow> 'v registry" where
  "insert_entry k v r = r\<lparr>rg_entries := put k v (rg_entries r)\<rparr>"

lemma lookup_simps [simp]:
  "lookup new_registry k = None"
  "lookup (freeze r) = lookup r"
  "lookup (insert_entry k v r) = (lookup r)(k \<mapsto> v)"
  by (simp_all add: lookup_def new_registry_def freeze_def insert_entry_def fun_eq_iff)

lemma frozen_simps [simp]:
  "\<not> rg_frozen new_registry" "rg_frozen (freeze r)"
  "rg_frozen (insert_entry k v r) = rg_frozen r"
  by (simp_all add: new_registry_def freeze_def insert_entry_def)

text \<open>Registrations in a row, and any use of a registry: a refused registration changes nothing.\<close>

fun register_all :: "('v \<Rightarrow> 's \<Rightarrow> 'e + 's) \<Rightarrow> 'v list \<Rightarrow> 's \<Rightarrow> 'e + 's" where
  "register_all reg [] s = Inr s"
| "register_all reg (v # vs) s = rbind (reg v s) (register_all reg vs)"

datatype 'v registry_use = Register 'v | Freeze

fun use_registry :: "('v \<Rightarrow> 's \<Rightarrow> 'e + 's) \<Rightarrow> ('s \<Rightarrow> 's) \<Rightarrow> 'v registry_use list \<Rightarrow> 's \<Rightarrow> 's" where
  "use_registry reg frz [] s = s"
| "use_registry reg frz (Freeze # us) s = use_registry reg frz us (frz s)"
| "use_registry reg frz (Register v # us) s =
     use_registry reg frz us (case reg v s of Inl e \<Rightarrow> s | Inr s' \<Rightarrow> s')"

section \<open>The interface\<close>

locale freezable_registry =
  fixes reg :: "'v \<Rightarrow> 's \<Rightarrow> 'e + 's"
    and frz :: "'s \<Rightarrow> 's"
    and get :: "'s \<Rightarrow> 'k \<Rightarrow> 'v option"
    and frozen :: "'s \<Rightarrow> bool"
    and key :: "'v \<Rightarrow> 'k"
    and valid :: "'v \<Rightarrow> bool"
  assumes reg_ok: "reg v s = Inr s' \<Longrightarrow>
      \<not> frozen s \<and> get s (key v) = None \<and> valid v \<and> get s' = (get s)(key v \<mapsto> v) \<and> \<not> frozen s'"
    and reg_admits: "\<not> frozen s \<Longrightarrow> get s (key v) = None \<Longrightarrow> valid v \<Longrightarrow> \<exists>s'. reg v s = Inr s'"
    and frz_frozen: "frozen (frz s)"
    and frz_get: "get (frz s) = get s"
begin

lemma frozen_refuses: "frozen s \<Longrightarrow> \<exists>e. reg v s = Inl e"
  using reg_ok by (cases "reg v s") auto

lemma duplicate_refused: "get s (key v) \<noteq> None \<Longrightarrow> \<exists>e. reg v s = Inl e"
  using reg_ok by (cases "reg v s") auto

lemma reg_keeps: "reg v s = Inr s' \<Longrightarrow> get s k = Some w \<Longrightarrow> get s' k = Some w"
  using reg_ok [of v s s'] by auto

lemma use_keeps: "get s k = Some v \<Longrightarrow> get (use_registry reg frz us s) k = Some v"
proof (induction us arbitrary: s)
  case (Cons u us)
  then show ?case
    by (cases u) (auto simp: frz_get intro: reg_keeps split: sum.splits)
qed simp

lemma frozen_constant: "frozen s \<Longrightarrow> get (use_registry reg frz us s) = get s"
proof (induction us arbitrary: s)
  case (Cons u us)
  show ?case
  proof (cases u)
    case (Register v)
    obtain e where "reg v s = Inl e" using frozen_refuses [OF Cons.prems] by blast
    then show ?thesis using Cons by (simp add: Register)
  next
    case Freeze
    then show ?thesis using Cons by (simp add: frz_frozen frz_get)
  qed
qed simp

lemma use_valid:
  assumes "get (use_registry reg frz us s) k = Some v" and "\<forall>k v. get s k = Some v \<longrightarrow> valid v \<and> key v = k"
  shows "valid v \<and> key v = k"
  using assms
proof (induction us arbitrary: s)
  case (Cons u us)
  then show ?case
    using reg_ok by (cases u) (auto simp: frz_get split: sum.splits if_splits)
qed simp

lemma register_all_get:
  "register_all reg vs s = Inr s' \<Longrightarrow>
   get s' = get s ++ map_of (map (\<lambda>v. (key v, v)) vs) \<and> distinct (map key vs)
   \<and> (\<forall>v \<in> set vs. get s (key v) = None \<and> valid v) \<and> (frozen s' \<longrightarrow> frozen s)"
proof (induction vs arbitrary: s)
  case (Cons v vs)
  then obtain s1 where s1: "reg v s = Inr s1" and rest: "register_all reg vs s1 = Inr s'"
    by (auto simp: rbind_eq_Inr)
  note r = reg_ok [OF s1] and IH = Cons.IH [OF rest]
  have "key v \<notin> key ` set vs" using r IH by auto
  then have new: "map_of (map (\<lambda>v. (key v, v)) vs) (key v) = None"
    by (auto simp: map_of_eq_None_iff)
  have eq: "get s' = get s ++ map_of (map (\<lambda>v. (key v, v)) (v # vs))"
  proof
    fix k show "get s' k = (get s ++ map_of (map (\<lambda>v. (key v, v)) (v # vs))) k"
      using r IH new by (cases "k = key v") (simp_all add: map_add_def)
  qed
  have "\<forall>w \<in> set vs. get s (key w) = None"
    using r IH by (metis fun_upd_apply option.distinct(1))
  then show ?case
    using r IH \<open>key v \<notin> key ` set vs\<close> by (intro conjI eq) auto
qed simp

lemma register_all_admits:
  "\<not> frozen s \<Longrightarrow> distinct (map key vs) \<Longrightarrow> \<forall>v \<in> set vs. get s (key v) = None \<and> valid v \<Longrightarrow>
   \<exists>s'. register_all reg vs s = Inr s'"
proof (induction vs arbitrary: s)
  case (Cons v vs)
  then obtain s1 where s1: "reg v s = Inr s1" using reg_admits [of s v] by auto
  have "\<exists>s'. register_all reg vs s1 = Inr s'"
    using reg_ok [OF s1] Cons.prems by (intro Cons.IH) (auto simp: image_iff)
  with s1 show ?case by simp
qed simp

end

end
