(* ===== verification/Js_Utf8.thy ===== *)
theory Js_Utf8
  imports Js_Text
begin

text \<open>
  \<^verbatim>\<open>TextEncoder\<close> and \<^verbatim>\<open>TextDecoder\<close>: the UTF-8 codec of the WHATWG
  Encoding Standard on UTF-16 code units, byte order mark and replacement characters
  included. The laws: a text without lone surrogates that does not start with a byte order
  mark decodes from its own encoding, by the strict and by the lenient decoder, and on ASCII
  both directions keep every character.
\<close>

section \<open>UTF-16 and UTF-8\<close>

text \<open>
  A text is a sequence of UTF-16 code units; \<^verbatim>\<open>TextEncoder\<close> first turns it into
  Unicode scalar values, a lone surrogate becoming the replacement character.
\<close>

definition replacement :: nat where
  "replacement = 65533"

definition is_high :: "code_unit \<Rightarrow> bool" where
  "is_high u \<longleftrightarrow> 55296 \<le> unat u \<and> unat u \<le> 56319"

definition is_low :: "code_unit \<Rightarrow> bool" where
  "is_low u \<longleftrightarrow> 56320 \<le> unat u \<and> unat u \<le> 57343"

fun scalars :: "jstext \<Rightarrow> nat list" where
  "scalars [] = []"
| "scalars [u] = [if is_high u \<or> is_low u then replacement else unat u]"
| "scalars (u # v # t) =
     (if is_high u then
        (if is_low v then (65536 + (unat u - 55296) * 1024 + (unat v - 56320)) # scalars t
         else replacement # scalars (v # t))
      else (if is_low u then replacement else unat u) # scalars (v # t))"

definition utf16_units :: "nat \<Rightarrow> jstext" where
  "utf16_units n =
     (if n < 65536 then [of_nat n]
      else [of_nat (55296 + (n - 65536) div 1024), of_nat (56320 + (n - 65536) mod 1024)])"

text \<open>A text without lone surrogates.\<close>

fun well_formed :: "jstext \<Rightarrow> bool" where
  "well_formed [] \<longleftrightarrow> True"
| "well_formed [u] \<longleftrightarrow> \<not> is_high u \<and> \<not> is_low u"
| "well_formed (u # v # t) \<longleftrightarrow>
     (if is_high u then is_low v \<and> well_formed t else \<not> is_low u \<and> well_formed (v # t))"

definition is_scalar :: "nat \<Rightarrow> bool" where
  "is_scalar n \<longleftrightarrow> n < 55296 \<or> (57344 \<le> n \<and> n < 1114112)"

text \<open>The UTF-8 encoding of one scalar value.\<close>

definition utf8_bytes :: "nat \<Rightarrow> byte list" where
  "utf8_bytes n =
     (if n < 128 then [of_nat n]
      else if n < 2048 then [of_nat (192 + n div 64), of_nat (128 + n mod 64)]
      else if n < 65536 then
        [of_nat (224 + n div 4096), of_nat (128 + n div 64 mod 64), of_nat (128 + n mod 64)]
      else
        [of_nat (240 + n div 262144), of_nat (128 + n div 4096 mod 64),
         of_nat (128 + n div 64 mod 64), of_nat (128 + n mod 64)])"

definition text_encode :: "jstext \<Rightarrow> byte list" where
  "text_encode t = concat (map utf8_bytes (scalars t))"

text \<open>
  The UTF-8 decoder of the standard: after a lead byte it takes the continuation bytes it
  needs, the first of them within bounds that exclude overlong forms and surrogates; a byte
  that does not fit ends the sequence with an error and is read again as a lead byte.
  \<^term>\<open>None\<close> is an error.
\<close>

fun utf8_cont :: "nat \<Rightarrow> nat \<Rightarrow> nat \<Rightarrow> nat \<Rightarrow> byte list \<Rightarrow> nat option \<times> byte list" where
  "utf8_cont 0 lo hi cp bs = (Some cp, bs)"
| "utf8_cont (Suc n) lo hi cp [] = (None, [])"
| "utf8_cont (Suc n) lo hi cp (b # bs) =
     (if lo \<le> unat b \<and> unat b \<le> hi
      then utf8_cont n 128 191 (cp * 64 + (unat b - 128)) bs
      else (None, b # bs))"

definition utf8_sequence :: "byte \<Rightarrow> byte list \<Rightarrow> nat option \<times> byte list" where
  "utf8_sequence b bs =
     (let n = unat b in
      if n < 128 then (Some n, bs)
      else if 194 \<le> n \<and> n \<le> 223 then utf8_cont 1 128 191 (n - 192) bs
      else if 224 \<le> n \<and> n \<le> 239 then
        utf8_cont 2 (if n = 224 then 160 else 128) (if n = 237 then 159 else 191) (n - 224) bs
      else if 240 \<le> n \<and> n \<le> 244 then
        utf8_cont 3 (if n = 240 then 144 else 128) (if n = 244 then 143 else 191) (n - 240) bs
      else (None, bs))"

lemma utf8_cont_length: "length (snd (utf8_cont n lo hi cp bs)) \<le> length bs"
  by (induction n lo hi cp bs rule: utf8_cont.induct) auto

lemma utf8_sequence_length: "length (snd (utf8_sequence b bs)) \<le> length bs"
  by (simp add: utf8_sequence_def Let_def utf8_cont_length)

function utf8_decode :: "byte list \<Rightarrow> nat option list" where
  "utf8_decode [] = []"
| "utf8_decode (b # bs) = fst (utf8_sequence b bs) # utf8_decode (snd (utf8_sequence b bs))"
  by pat_completeness auto
termination
  by (relation "measure length") (auto simp: less_Suc_eq_le utf8_sequence_length)

text \<open>
  \<^verbatim>\<open>new TextDecoder().decode(bytes)\<close> replaces errors,
  \<^verbatim>\<open>new TextDecoder("utf-8", { fatal: true })\<close> throws on the first; both drop a
  leading byte order mark.
\<close>

definition drop_bom :: "nat option list \<Rightarrow> nat option list" where
  "drop_bom xs = (case xs of Some n # ys \<Rightarrow> if n = 65279 then ys else xs | _ \<Rightarrow> xs)"

definition text_decode :: "byte list \<Rightarrow> jstext" where
  "text_decode bs =
     concat (map (\<lambda>x. utf16_units (case x of None \<Rightarrow> replacement | Some n \<Rightarrow> n))
       (drop_bom (utf8_decode bs)))"

definition text_decode_fatal :: "byte list \<Rightarrow> jstext option" where
  "text_decode_fatal bs =
     (let xs = utf8_decode bs in
      if None \<in> set xs then None
      else Some (concat (map (\<lambda>x. utf16_units (the x)) (drop_bom xs))))"

section \<open>Laws\<close>

lemma surrogate_pair:
  assumes "is_high u" and "is_low v"
  defines "n \<equiv> 65536 + (unat u - 55296) * 1024 + (unat v - 56320)"
  shows "65536 \<le> n" and "n < 1114112" and "utf16_units n = [u, v]"
proof -
  define a where "a = unat u - 55296"
  define b where "b = unat v - 56320"
  have a: "unat u = 55296 + a" "a < 1024" and b: "unat v = 56320 + b" "b < 1024"
    using assms(1,2) unfolding is_high_def is_low_def a_def b_def by linarith+
  show "65536 \<le> n" and "n < 1114112"
    using a b by (simp_all add: n_def)
  have "utf16_units n = [of_nat (unat u), of_nat (unat v)]"
    using a(2) b(2) by (simp only: utf16_units_def n_def a(1) b(1)) simp
  then show "utf16_units n = [u, v]" by simp
qed

lemma plain_unit: "\<not> is_high u \<Longrightarrow> \<not> is_low u \<Longrightarrow> is_scalar (unat u) \<and> utf16_units (unat u) = [u]"
  using unsigned_less [of u] by (auto simp: is_high_def is_low_def is_scalar_def utf16_units_def)

lemma scalars_units:
  "well_formed t \<Longrightarrow> concat (map utf16_units (scalars t)) = t"
  by (induction t rule: scalars.induct) (auto simp: plain_unit surrogate_pair split: if_splits)

lemma replacement_scalar: "is_scalar replacement"
  by (simp add: is_scalar_def replacement_def)

lemma scalars_scalar: "n \<in> set (scalars t) \<Longrightarrow> is_scalar n"
proof (induction t rule: scalars.induct)
  case (2 u)
  then show ?case using plain_unit [of u] by (auto simp: replacement_scalar split: if_splits)
next
  case (3 u v t)
  then show ?case
    using surrogate_pair(1,2) [of u v] plain_unit [of u]
    by (auto simp: replacement_scalar split: if_splits) (auto simp: is_scalar_def)
qed simp

lemma utf8_sequence_2:
  assumes "unat p = 192 + a" "unat q = 128 + b" "2 \<le> a" "a < 32" "b < 64"
  shows "utf8_sequence p (q # rest) = (Some (a * 64 + b), rest)"
  using assms by (simp add: utf8_sequence_def Let_def)

lemma utf8_sequence_3:
  assumes "unat p = 224 + a" "unat q = 128 + b" "unat r = 128 + c" "a < 16" "b < 64" "c < 64"
    and "a = 0 \<Longrightarrow> 32 \<le> b" and "a = 13 \<Longrightarrow> b < 32"
  shows "utf8_sequence p (q # r # rest) = (Some ((a * 64 + b) * 64 + c), rest)"
  using assms by (auto simp: utf8_sequence_def Let_def numeral_2_eq_2)

lemma utf8_sequence_4:
  assumes "unat p = 240 + a" "unat q = 128 + b" "unat r = 128 + c" "unat s = 128 + d"
    and "a \<le> 4" "b < 64" "c < 64" "d < 64"
    and "a = 0 \<Longrightarrow> 16 \<le> b" and "a = 4 \<Longrightarrow> b < 16"
  shows "utf8_sequence p (q # r # s # rest) = (Some (((a * 64 + b) * 64 + c) * 64 + d), rest)"
  using assms by (auto simp: utf8_sequence_def Let_def numeral_3_eq_3)

lemma sextets_3: "n = (n div 4096 * 64 + n div 64 mod 64) * 64 + n mod 64" for n :: nat
  using div_mult2_eq [of n 64 64] by simp

lemma sextets_4:
  "n = ((n div 262144 * 64 + n div 4096 mod 64) * 64 + n div 64 mod 64) * 64 + n mod 64" for n :: nat
  using div_mult2_eq [of n 64 64] div_mult2_eq [of n 4096 64] by simp

lemma utf8_bytes_sequence:
  assumes "is_scalar n"
  shows "\<exists>b bs. utf8_bytes n = b # bs \<and> (\<forall>rest. utf8_sequence b (bs @ rest) = (Some n, rest))"
proof -
  consider "n < 128" | "128 \<le> n" "n < 2048" | "2048 \<le> n" "n < 65536" | "65536 \<le> n" "n < 1114112"
    using assms unfolding is_scalar_def by linarith
  then show ?thesis
  proof cases
    case 1
    then show ?thesis by (simp add: utf8_bytes_def utf8_sequence_def small_byte)
  next
    case 2
    have "utf8_sequence (of_nat (192 + n div 64)) (of_nat (128 + n mod 64) # rest)
        = (Some (n div 64 * 64 + n mod 64), rest)" for rest
      by (rule utf8_sequence_2; (rule small_byte)?) (use 2 in auto)
    with 2 show ?thesis by (simp add: utf8_bytes_def del: of_nat_add)
  next
    case 3
    define a b c where "a = n div 4096" and "b = n div 64 mod 64" and "c = n mod 64"
    have n: "n = (a * 64 + b) * 64 + c"
      unfolding a_def b_def c_def by (rule sextets_3)
    have lim: "b < 64" "c < 64" by (simp_all add: b_def c_def)
    have "utf8_sequence (of_nat (224 + a)) (of_nat (128 + b) # of_nat (128 + c) # rest)
        = (Some n, rest)" for rest
      unfolding n
      by (rule utf8_sequence_3; (rule small_byte)?) (use 3 [unfolded n] lim assms [unfolded n is_scalar_def] in auto)
    with 3 show ?thesis by (simp add: utf8_bytes_def a_def b_def c_def del: of_nat_add)
  next
    case 4
    define a b c d where "a = n div 262144" and "b = n div 4096 mod 64"
      and "c = n div 64 mod 64" and "d = n mod 64"
    have n: "n = ((a * 64 + b) * 64 + c) * 64 + d"
      unfolding a_def b_def c_def d_def by (rule sextets_4)
    have lim: "b < 64" "c < 64" "d < 64" by (simp_all add: b_def c_def d_def)
    have "utf8_sequence (of_nat (240 + a)) (of_nat (128 + b) # of_nat (128 + c) # of_nat (128 + d) # rest)
        = (Some n, rest)" for rest
      unfolding n
      by (rule utf8_sequence_4; (rule small_byte)?) (use 4 [unfolded n] lim assms [unfolded n is_scalar_def] in auto)
    with 4 show ?thesis by (simp add: utf8_bytes_def a_def b_def c_def d_def del: of_nat_add)
  qed
qed

lemma utf8_decode_bytes [simp]:
  "is_scalar n \<Longrightarrow> utf8_decode (utf8_bytes n @ rest) = Some n # utf8_decode rest"
  using utf8_bytes_sequence [of n] by fastforce

lemma utf8_decode_encode: "utf8_decode (text_encode t) = map Some (scalars t)"
proof -
  have "\<forall>n \<in> set ns. is_scalar n \<Longrightarrow> utf8_decode (concat (map utf8_bytes ns)) = map Some ns" for ns
    by (induction ns) auto
  then show ?thesis by (simp add: text_encode_def scalars_scalar)
qed

definition starts_with_bom :: "jstext \<Rightarrow> bool" where
  "starts_with_bom t \<longleftrightarrow> (case t of [] \<Rightarrow> False | u # _ \<Rightarrow> u = 65279)"

lemma drop_bom_scalars:
  assumes "well_formed t" and "\<not> starts_with_bom t"
  shows "drop_bom (map Some (scalars t)) = map Some (scalars t)"
proof (cases t rule: scalars.cases)
  case (3 u v r)
  have "unat u = 65279 \<Longrightarrow> u = 65279" by (simp add: word_unat_eq_iff)
  then show ?thesis
    using assms surrogate_pair(1) [of u v] 3
    by (auto simp: drop_bom_def starts_with_bom_def)
next
  case (2 u)
  have "unat u = 65279 \<Longrightarrow> u = 65279" by (simp add: word_unat_eq_iff)
  then show ?thesis using assms 2 by (auto simp: drop_bom_def starts_with_bom_def)
qed (simp add: drop_bom_def)

lemma text_decode_fatal_encode:
  assumes "well_formed t" and "\<not> starts_with_bom t"
  shows "text_decode_fatal (text_encode t) = Some t"
  using assms
  by (simp add: text_decode_fatal_def utf8_decode_encode drop_bom_scalars image_iff o_def
      scalars_units)

lemma text_decode_encode:
  assumes "well_formed t" and "\<not> starts_with_bom t"
  shows "text_decode (text_encode t) = t"
  using assms
  by (simp add: text_decode_def utf8_decode_encode drop_bom_scalars o_def scalars_units)

section \<open>ASCII\<close>

definition ascii :: "jstext \<Rightarrow> bool" where
  "ascii t \<longleftrightarrow> list_all (\<lambda>u. unat u < 128) t"

lemma ascii_scalars: "ascii t \<Longrightarrow> scalars t = map unat t"
  by (induction t rule: scalars.induct) (auto simp: ascii_def is_high_def is_low_def)

lemma ascii_well_formed: "ascii t \<Longrightarrow> well_formed t"
  by (induction t rule: well_formed.induct) (auto simp: ascii_def is_high_def is_low_def)

lemma ascii_no_bom: "ascii t \<Longrightarrow> \<not> starts_with_bom t"
  by (cases t) (auto simp: ascii_def starts_with_bom_def)

lemma ascii_encode: "ascii t \<Longrightarrow> text_encode t = map byte_of_unit t"
proof -
  assume a: "ascii t"
  have "utf8_bytes (unat u) = [byte_of_unit u]" if "u \<in> set t" for u
    using a that by (auto simp: ascii_def list_all_iff utf8_bytes_def byte_of_unit_def)
  then have "concat (map utf8_bytes (map unat t)) = concat (map (\<lambda>u. [byte_of_unit u]) t)"
    by (simp add: o_def cong: map_cong)
  then show ?thesis using a by (simp add: text_encode_def ascii_scalars)
qed

lemma ascii_decode: "ascii t \<Longrightarrow> text_decode (map byte_of_unit t) = t"
  by (metis ascii_encode ascii_no_bom ascii_well_formed text_decode_encode)

lemma digits_ascii: "all_digits t \<Longrightarrow> ascii t"
  by (auto simp: all_digits_def ascii_def is_digit_def list_all_iff)

end
