(* ===== verification/Host_Contracts.thy ===== *)
theory Host_Contracts
  imports Js_Utf8
begin

text \<open>
  The data of the Host Message Service: \<^verbatim>\<open>packages/host-message/src/contracts.ts\<close>
  and \<^verbatim>\<open>failures.ts\<close>. Objects are records, unions are datatypes, an optional property
  is an \<^typ>\<open>'a option\<close>; a numeric setting a profile author writes is an \<^typ>\<open>int\<close>, so
  that the range checks of the registry mean something. Field values are UTF-16 texts or byte
  arrays; identifiers are plain strings.

  Code that is not part of the repository is a parameter: the regular expression engine of
  the host language (\<open>rx_valid\<close>, \<open>rx_test\<close>) and the custom field codecs a project registers.
\<close>

section \<open>Failures\<close>

record failure_details =
  hd_profileId :: "string option"
  hd_profileVersion :: "string option"
  hd_messageId :: "string option"
  hd_fieldId :: "string option"
  hd_dataElement :: "int option"
  hd_fieldIndex :: "nat option"
  hd_groupId :: "string option"
  hd_itemIndex :: "nat option"
  hd_itemFieldId :: "string option"
  hd_byteOffset :: "nat option"
  hd_expectedBytes :: "int option"
  hd_receivedBytes :: "nat option"
  hd_phase :: "string option"
  hd_limit :: "int option"
  hd_actual :: "int option"

record host_failure =
  hf_code :: string
  hf_message :: string
  hf_details :: failure_details

definition no_details :: failure_details where
  "no_details =
     \<lparr>hd_profileId = None, hd_profileVersion = None, hd_messageId = None, hd_fieldId = None,
      hd_dataElement = None, hd_fieldIndex = None, hd_groupId = None, hd_itemIndex = None,
      hd_itemFieldId = None, hd_byteOffset = None, hd_expectedBytes = None,
      hd_receivedBytes = None, hd_phase = None, hd_limit = None, hd_actual = None\<rparr>"

definition over :: "'a option \<Rightarrow> 'a option \<Rightarrow> 'a option" where
  "over new old = (case new of None \<Rightarrow> old | Some v \<Rightarrow> Some v)"

text \<open>\<^verbatim>\<open>{ ...old, ...new }\<close>\<close>

definition merge_details :: "failure_details \<Rightarrow> failure_details \<Rightarrow> failure_details" where
  "merge_details old new =
     \<lparr>hd_profileId = over (hd_profileId new) (hd_profileId old),
      hd_profileVersion = over (hd_profileVersion new) (hd_profileVersion old),
      hd_messageId = over (hd_messageId new) (hd_messageId old),
      hd_fieldId = over (hd_fieldId new) (hd_fieldId old),
      hd_dataElement = over (hd_dataElement new) (hd_dataElement old),
      hd_fieldIndex = over (hd_fieldIndex new) (hd_fieldIndex old),
      hd_groupId = over (hd_groupId new) (hd_groupId old),
      hd_itemIndex = over (hd_itemIndex new) (hd_itemIndex old),
      hd_itemFieldId = over (hd_itemFieldId new) (hd_itemFieldId old),
      hd_byteOffset = over (hd_byteOffset new) (hd_byteOffset old),
      hd_expectedBytes = over (hd_expectedBytes new) (hd_expectedBytes old),
      hd_receivedBytes = over (hd_receivedBytes new) (hd_receivedBytes old),
      hd_phase = over (hd_phase new) (hd_phase old),
      hd_limit = over (hd_limit new) (hd_limit old),
      hd_actual = over (hd_actual new) (hd_actual old)\<rparr>"

definition hostMessageFailure :: "string \<Rightarrow> string \<Rightarrow> failure_details \<Rightarrow> host_failure" where
  "hostMessageFailure code msg details =
     \<lparr>hf_code = code, hf_message = msg, hf_details = details\<rparr>"

record host_reference =
  ref_profileId :: string
  ref_profileVersion :: string
  ref_messageId :: string

definition referenceDetails :: "host_reference \<Rightarrow> failure_details" where
  "referenceDetails ref =
     no_details\<lparr>hd_messageId := Some (ref_messageId ref), hd_profileId := Some (ref_profileId ref),
       hd_profileVersion := Some (ref_profileVersion ref)\<rparr>"

definition addFailureDetails :: "host_failure \<Rightarrow> failure_details \<Rightarrow> host_failure" where
  "addFailureDetails f details = f\<lparr>hf_details := merge_details (hf_details f) details\<rparr>"

definition partialCodes :: "string list" where
  "partialCodes =
     [''hostMessage.message.truncated'', ''hostMessage.field.decodeFailed'',
      ''hostMessage.field.validationFailed'', ''hostMessage.field.invalidLengthPrefix'']"

definition canReturnPartial :: "host_failure \<Rightarrow> bool" where
  "canReturnPartial f \<longleftrightarrow> hf_code f \<in> set partialCodes"

text \<open>
  A codec operation ends with a value, with a failure it returns, or with an exception that
  leaves it.
\<close>

datatype fault = Fails host_failure | Throws string

type_synonym 'a wire = "fault + 'a"

section \<open>Field definitions\<close>

datatype data_classification = Public | Internal | Sensitive | Secret
datatype message_direction = Request | Response | Advice
datatype field_presence = Required | Optional | OptionalTrailing | Forbidden
datatype length_encoding = LenAscii | LenBcd
datatype length_unit = UnitBytes | UnitDigits
datatype pad_direction = PadLeft | PadRight
datatype var_kind = LLVAR | LLLVAR

datatype scalar = SText jstext | SBytes "byte list"

datatype field_value = Scalar scalar | Items "(string \<times> field_value) list list"

type_synonym field_set = "(string \<times> field_value) list"

datatype field_encoding =
    EncAscii
  | EncUtf8
  | EncBinary
  | EncAsciiHex
  | EncBcd (bcd_digitCount: "int option") (bcd_padDirection: "pad_direction option")
      (bcd_padNibble: "int option")
  | EncCustom (custom_id: string) (custom_version: string)

datatype field_length =
    Fixed (fixed_bytes: int)
  | Var (var_kind: var_kind) (var_max: int) (var_encoding: length_encoding)
      (var_unit: "length_unit option")

record field_padding =
  pad_byte :: int
  pad_direction :: pad_direction
  pad_strip :: bool

record field_validation =
  val_allowed :: "jstext list option"
  val_max :: "int option"
  val_min :: "int option"
  val_pattern :: "string option"

datatype summary_policy =
    SumOmit
  | SumPresence
  | SumValue
  | SumMasked (mask_first: "int option") (mask_last: "int option")

record field_definition =
  fd_id :: string
  fd_class :: data_classification
  fd_dataElement :: "int option"
  fd_encoding :: field_encoding
  fd_length :: field_length
  fd_allowBlank :: bool
  fd_padding :: "field_padding option"
  fd_summary :: "summary_policy option"
  fd_validation :: "field_validation option"

section \<open>Messages and profiles\<close>

record scalar_use =
  su_fieldId :: string
  su_presence :: "field_presence option"

record group_use =
  gu_id :: string
  gu_countFieldId :: string
  gu_itemFieldIds :: "string list"
  gu_maxItems :: int
  gu_fixedAreaBytes :: "int option"
  gu_padByte :: "int option"
  gu_presence :: "field_presence option"

datatype field_use = FieldUse scalar_use | GroupUse group_use

datatype bitmap_encoding = BitmapBinary | BitmapAsciiHex
datatype mti_encoding = MtiAscii | MtiBcd

record message_definition =
  md_id :: string
  md_direction :: message_direction
  md_fields :: "field_use list"
  md_bitmapEncoding :: "bitmap_encoding option"
  md_mti :: "jstext option"
  md_mtiEncoding :: "mti_encoding option"

record host_profile =
  pf_id :: string
  pf_version :: string
  pf_codecId :: string
  pf_maxMessageBytes :: int
  pf_fieldDefinitions :: "field_definition list"
  pf_messages :: "message_definition list"

record service_limits =
  lim_maxMessageBytes :: int
  lim_maxFixedFields :: int
  lim_maxRepeatItems :: int
  lim_maxRepeatDepth :: int

section \<open>Codecs\<close>

record encoded_value =
  ev_bytes :: "byte list"
  ev_logicalLength :: nat

text \<open>
  A field codec of the project: each of its two functions returns a result or throws
  (\<^term>\<open>None\<close>).
\<close>

record field_codec =
  fc_id :: string
  fc_version :: string
  fc_encode :: "scalar \<Rightarrow> field_definition \<Rightarrow> (host_failure + encoded_value) option"
  fc_decode :: "byte list \<Rightarrow> field_definition \<Rightarrow> int option \<Rightarrow> (host_failure + scalar) option"

type_synonym field_codecs = "string \<Rightarrow> string \<Rightarrow> field_codec option"

text \<open>The regular expressions of the host language, as far as a validation pattern uses them.\<close>

record regexps =
  rx_valid :: "string \<Rightarrow> bool"
  rx_test :: "string \<Rightarrow> jstext \<Rightarrow> bool"

record resolved_message =
  rs_profile :: host_profile
  rs_message :: message_definition
  rs_fieldsById :: "string \<rightharpoonup> field_definition"

record codec_context =
  cx_resolved :: resolved_message
  cx_reference :: host_reference
  cx_fieldCodecs :: field_codecs
  cx_limits :: service_limits
  cx_regexps :: regexps

record pack_context = codec_context +
  px_fields :: field_set

record unpack_context = codec_context +
  ux_bytes :: "byte list"
  ux_allowPartial :: bool

section \<open>Results\<close>

record packed_message =
  pm_reference :: host_reference
  pm_bytes :: "byte list"

record unpacked_message =
  um_reference :: host_reference
  um_fields :: field_set
  um_wireLength :: nat

text \<open>
  \<^verbatim>\<open>HostMessagePackResult\<close> is a \<^typ>\<open>packed_message wire\<close> (status \<^verbatim>\<open>failed\<close> is
  \<^term>\<open>Inl (Fails e)\<close>); \<^verbatim>\<open>HostMessageDecodeResult\<close> is a \<open>decoded wire\<close>.
\<close>

datatype decoded =
    Complete unpacked_message
  | Partial (par_reference: host_reference) (par_fields: field_set) (par_failure: host_failure)
      (par_consumed: nat) (par_received: nat)

record message_codec =
  mc_id :: string
  mc_builtIn :: bool
  mc_pack :: "pack_context \<Rightarrow> packed_message wire"
  mc_unpack :: "unpack_context \<Rightarrow> decoded wire"

record pack_input =
  pi_reference :: host_reference
  pi_fields :: field_set

record unpack_input =
  ui_reference :: host_reference
  ui_bytes :: "byte list"
  ui_allowPartial :: "bool option"

section \<open>Laws of failure details\<close>

lemma over_simps [simp]:
  "over None y = y" "over (Some v) y = Some v" "over x None = x"
  by (simp_all add: over_def split: option.splits)

lemma over_assoc: "over c (over b a) = over (over c b) a"
  by (cases c; cases b) auto

lemma merge_no_details [simp]: "merge_details d no_details = d"
  by (simp add: merge_details_def no_details_def)

lemma merge_details_assoc:
  "merge_details (merge_details a b) c = merge_details a (merge_details b c)"
  by (simp add: merge_details_def over_assoc)

lemma addFailureDetails_code [simp]:
  "hf_code (addFailureDetails f d) = hf_code f"
  "hf_message (addFailureDetails f d) = hf_message f"
  by (simp_all add: addFailureDetails_def)

lemma addFailureDetails_twice:
  "addFailureDetails (addFailureDetails f a) b = addFailureDetails f (merge_details a b)"
  by (simp add: addFailureDetails_def merge_details_assoc)

lemma canReturnPartial_add [simp]: "canReturnPartial (addFailureDetails f d) = canReturnPartial f"
  by (simp add: canReturnPartial_def)

end
