(* ===== verification/Host_Bytes.thy ===== *)
theory Host_Bytes
  imports Host_Contracts
begin

text \<open>
  \<^verbatim>\<open>packages/host-message/src/bytes.ts\<close>: the byte cursor, concatenation, hexadecimal
  and the decimal length prefixes. The laws: hexadecimal is a bijection between byte arrays
  and upper-case hexadecimal texts, a length that fits its prefix is read back, and a cursor
  read hands out exactly the next bytes.
\<close>

section \<open>The byte cursor\<close>

record byte_cursor =
  cur_source :: "byte list"
  cur_position :: nat

definition new_cursor :: "byte list \<Rightarrow> byte_cursor" where
  "new_cursor source = \<lparr>cur_source = source, cur_position = 0\<rparr>"

definition cursor_offset :: "byte_cursor \<Rightarrow> nat" where
  "cursor_offset c = cur_position c"

definition cursor_remaining :: "byte_cursor \<Rightarrow> nat" where
  "cursor_remaining c = length (cur_source c) - cur_position c"

definition cursor_read :: "int \<Rightarrow> byte_cursor \<Rightarrow> byte list option \<times> byte_cursor" where
  "cursor_read n c =
     (if n < 0 \<or> int (cursor_remaining c) < n then (None, c)
      else (Some (js_slice (int (cur_position c)) (Some (int (cur_position c) + n)) (cur_source c)),
            c\<lparr>cur_position := cur_position c + nat n\<rparr>))"

definition concatBytes :: "byte list list \<Rightarrow> byte list" where
  "concatBytes parts = concat parts"

section \<open>Hexadecimal\<close>

definition bytesToHex :: "byte list \<Rightarrow> jstext" where
  "bytesToHex bs = map upper_unit (concat (map (\<lambda>b. pad_start 2 48 (hex_text (unat b))) bs))"

definition hexToBytes :: "jstext \<Rightarrow> byte list option" where
  "hexToBytes t =
     (if length t mod 2 \<noteq> 0 \<or> \<not> list_all is_hex t then None else Some (hex_pairs t))"

section \<open>Length prefixes\<close>

definition encodeDecimalLength :: "nat \<Rightarrow> nat \<Rightarrow> length_encoding \<Rightarrow> byte list wire" where
  "encodeDecimalLength v width enc =
     (let digits = pad_start width 48 (dec_text v) in
      if length digits > width then
        Inl (Fails (hostMessageFailure ''hostMessage.limit.exceeded''
          ''Field length exceeds prefix capacity''
          (no_details\<lparr>hd_actual := Some (int v), hd_limit := Some (10 ^ width - 1),
             hd_phase := Some ''lengthPrefix''\<rparr>)))
      else if enc = LenAscii then Inr (map byte_of_unit digits)
      else
        (let padded = (if length digits mod 2 = 0 then digits else 48 # digits)
         in Inr (hex_pairs padded)))"

definition decodeDecimalLength :: "byte list \<Rightarrow> nat \<Rightarrow> length_encoding \<Rightarrow> nat wire" where
  "decodeDecimalLength bs width enc =
     (let digits = (if enc = LenAscii then map unit_of_byte bs
                    else js_slice (- int width) None (bytesToHex bs)) in
      if \<not> some_digits digits then
        Inl (Fails (hostMessageFailure ''hostMessage.field.invalidLengthPrefix''
          ''Field length prefix is invalid'' (no_details\<lparr>hd_phase := Some ''lengthPrefix''\<rparr>)))
      else Inr (parse_dec digits))"

section \<open>Laws of the cursor\<close>

definition cursor_ok :: "byte_cursor \<Rightarrow> bool" where
  "cursor_ok c \<longleftrightarrow> cur_position c \<le> length (cur_source c)"

definition cursor_rest :: "byte_cursor \<Rightarrow> byte list" where
  "cursor_rest c = drop (cur_position c) (cur_source c)"

lemma cursor_ok_new [simp]: "cursor_ok (new_cursor bs)"
  by (simp add: cursor_ok_def new_cursor_def)

lemma cursor_rest_new [simp]: "cursor_rest (new_cursor bs) = bs"
  by (simp add: cursor_rest_def new_cursor_def)

lemma cursor_remaining_rest: "cursor_remaining c = length (cursor_rest c)"
  by (simp add: cursor_remaining_def cursor_rest_def)

lemma cursor_read_bytes:
  assumes "cursor_ok c" and "0 \<le> n" and "n \<le> int (cursor_remaining c)"
  shows "cursor_read n c =
    (Some (take (nat n) (cursor_rest c)), c\<lparr>cur_position := cur_position c + nat n\<rparr>)"
proof -
  have "js_slice (int (cur_position c)) (Some (int (cur_position c + nat n))) (cur_source c)
      = take (nat n) (drop (cur_position c) (cur_source c))"
    using assms by (subst js_slice_range) (auto simp: cursor_ok_def cursor_remaining_def)
  with assms(2,3) show ?thesis by (simp add: cursor_read_def cursor_rest_def)
qed

text \<open>A read from a cursor whose rest starts with the wanted bytes, in the form the decoders use.\<close>

lemma cursor_read_append:
  assumes "cursor_ok c" and "cursor_rest c = bs @ rest" and "n = int (length bs)"
  obtains c' where "cursor_read n c = (Some bs, c')" and "cursor_ok c'" and "cursor_rest c' = rest"
    and "cur_source c' = cur_source c" and "cur_position c' = cur_position c + length bs"
proof -
  let ?c' = "c\<lparr>cur_position := cur_position c + length bs\<rparr>"
  have len: "cursor_remaining c = length bs + length rest"
    using assms(2) by (simp add: cursor_remaining_rest)
  then have "cursor_read n c = (Some bs, ?c')"
    using assms by (simp add: cursor_read_bytes)
  moreover have "cursor_rest ?c' = rest"
    using arg_cong [OF assms(2), of "drop (length bs)"]
    by (simp add: cursor_rest_def add.commute)
  moreover have "cursor_ok ?c'"
    using len assms(1) by (simp add: cursor_ok_def cursor_remaining_def)
  ultimately show thesis using that by simp
qed

lemma cursor_read_source [simp]: "cur_source (snd (cursor_read n c)) = cur_source c"
  by (simp add: cursor_read_def)

lemma cursor_read_ok: "cursor_ok c \<Longrightarrow> cursor_ok (snd (cursor_read n c))"
  by (auto simp: cursor_read_def cursor_ok_def cursor_remaining_def)

lemma cursor_read_mono: "cur_position c \<le> cur_position (snd (cursor_read n c))"
  by (simp add: cursor_read_def)

section \<open>Laws of hexadecimal\<close>

lemma bytesToHex_Nil [simp]: "bytesToHex [] = []"
  by (simp add: bytesToHex_def)

lemma bytesToHex_Cons:
  "bytesToHex (b # bs) =
    upper_unit (hex_unit (unat b div 16)) # upper_unit (hex_unit (unat b mod 16)) # bytesToHex bs"
  by (simp add: bytesToHex_def pad_hex_text)

lemma length_bytesToHex [simp]: "length (bytesToHex bs) = 2 * length bs"
  by (induction bs) (simp_all add: bytesToHex_Cons)

lemma byte_high_nibble [simp]: "unat (b :: byte) div 16 < 16"
  by (simp add: less_mult_imp_div_less)

lemma is_hex_bytesToHex: "list_all is_hex (bytesToHex bs)"
  by (induction bs) (simp_all add: bytesToHex_Cons)

lemma hex_pairs_bytesToHex: "hex_pairs (bytesToHex bs) = bs"
proof (induction bs)
  case (Cons b bs)
  have "16 * (unat b div 16) + unat b mod 16 = unat b" by simp
  then show ?case using Cons by (simp add: bytesToHex_Cons del: of_nat_add)
qed simp

lemma hexToBytes_bytesToHex [simp]: "hexToBytes (bytesToHex bs) = Some bs"
  by (simp add: hexToBytes_def is_hex_bytesToHex hex_pairs_bytesToHex)

lemma unat_upper_unit:
  "unat (upper_unit u) = (if 97 \<le> unat u \<and> unat u \<le> 122 then unat u - 32 else unat u)"
proof -
  have "unat u < 65536" using unsigned_less [of u, where 'a = nat] by simp
  then have "unat u - 32 < 65536" by simp
  then show ?thesis by (simp add: upper_unit_def small_unit del: of_nat_diff)
qed

lemma upper_hex_value:
  assumes "is_hex u"
  shows "upper_unit (hex_unit (hex_value u)) = upper_unit u"
proof (rule word_unat_eq_iff [THEN iffD2])
  have "unat (upper_unit (hex_unit (hex_value u)))
      = (if hex_value u < 10 then 48 + hex_value u else 55 + hex_value u)"
    by (rule unat_upper_hex_unit [OF hex_value_bound [OF assms]])
  also have "\<dots> = unat (upper_unit u)"
    using assms by (auto simp: unat_upper_unit is_hex_def is_digit_def hex_value_def)
  finally show "unat (upper_unit (hex_unit (hex_value u))) = unat (upper_unit u)" .
qed

lemma bytesToHex_hex_pairs:
  "list_all is_hex t \<Longrightarrow> even (length t) \<Longrightarrow> bytesToHex (hex_pairs t) = map upper_unit t"
proof (induction t rule: hex_pairs.induct)
  case (1 a b t)
  then have "hex_value a < 16" and "hex_value b < 16" by (auto intro: hex_value_bound)
  then have "unat (of_nat (16 * hex_value a + hex_value b) :: byte) = 16 * hex_value a + hex_value b"
    by (intro small_byte) linarith
  with 1 \<open>hex_value b < 16\<close> show ?case
    by (simp add: bytesToHex_Cons upper_hex_value del: of_nat_add)
qed auto

lemma bytesToHex_hexToBytes: "hexToBytes t = Some bs \<Longrightarrow> bytesToHex bs = map upper_unit t"
  by (auto simp: hexToBytes_def bytesToHex_hex_pairs split: if_splits)

lemma upper_unit_digit: "is_digit u \<Longrightarrow> upper_unit u = u"
  by (simp add: is_digit_def upper_unit_def)

lemma map_upper_digits: "all_digits t \<Longrightarrow> map upper_unit t = t"
  by (simp add: all_digits_def list_all_iff map_idI upper_unit_digit)

lemma bytesToHex_digits:
  assumes "all_digits t" and "even (length t)"
  shows "bytesToHex (hex_pairs t) = t"
proof -
  have "list_all is_hex t"
    using assms(1) by (auto simp: all_digits_def list_all_iff is_hex_is_digit)
  then show ?thesis
    using assms by (simp add: bytesToHex_hex_pairs map_upper_digits)
qed

section \<open>Laws of the length prefixes\<close>

definition prefix_bytes :: "nat \<Rightarrow> length_encoding \<Rightarrow> nat" where
  "prefix_bytes width enc = (if enc = LenAscii then width else (width + 1) div 2)"

lemma digit_unit_0: "digit_unit 0 = 48"
  by (simp add: digit_unit_def)

lemma padded_dec_text:
  "pad_start w 48 (dec_text v) = map digit_unit (pad_start w 0 (dec_digits v))"
  by (simp add: dec_text_def map_pad_start digit_unit_0)

lemma padded_digits_bound: "\<forall>d \<in> set (pad_start w 0 (dec_digits v)). d < 10"
  using set_pad_start [of w 0 "dec_digits v"] dec_digits_bound by fastforce

lemma all_digits_padded: "all_digits (pad_start w 48 (dec_text v))"
  by (simp only: padded_dec_text) (rule all_digits_map [OF padded_digits_bound])

lemma parse_dec_padded [simp]: "parse_dec (pad_start w 48 (dec_text v)) = v"
  by (simp only: padded_dec_text parse_dec_map [OF padded_digits_bound]) simp

lemma parse_dec_zero_Cons: "parse_dec (48 # t) = parse_dec t"
  using dec_value_zeros [of 1] by (simp add: parse_dec_def digit_value_def)

lemma encodeDecimalLength_ok:
  "0 < w \<Longrightarrow> (\<exists>bs. encodeDecimalLength v w enc = Inr bs) \<longleftrightarrow> v < 10 ^ w"
  using dec_digits_length_iff [of w v] by (auto simp: encodeDecimalLength_def Let_def)

lemma encodeDecimalLength_length:
  assumes "encodeDecimalLength v w enc = Inr bs"
  shows "length bs = prefix_bytes w enc"
  using assms
  by (auto simp: encodeDecimalLength_def Let_def prefix_bytes_def max_def split: if_splits)

lemma decode_encodeDecimalLength:
  assumes e: "encodeDecimalLength v w enc = Inr bs" and w: "0 < w"
  shows "decodeDecimalLength bs w enc = Inr v"
proof -
  let ?d = "pad_start w 48 (dec_text v)"
  have len: "length ?d = w" and ad: "all_digits ?d"
    using e all_digits_padded by (auto simp: encodeDecimalLength_def Let_def max_def split: if_splits)
  then have ne: "some_digits ?d"
    using w by (cases "?d = []") (auto simp: some_digits_def all_digits_def)
  show ?thesis
  proof (cases enc)
    case LenAscii
    have "map unit_of_byte (map byte_of_unit ?d) = ?d"
      using ad by (fastforce simp: all_digits_def list_all_iff is_digit_def
          intro!: map_idI unit_of_byte_of_unit)
    with e ne LenAscii len show ?thesis
      by (auto simp: encodeDecimalLength_def decodeDecimalLength_def Let_def simp del: map_map)
  next
    case LenBcd
    let ?p = "if length ?d mod 2 = 0 then ?d else 48 # ?d"
    have p: "all_digits ?p" "even (length ?p)" "drop (length ?p - w) ?p = ?d"
      using ad len by (auto simp: all_digits_def is_digit_def mod2_eq_if)
    then have "bytesToHex (hex_pairs ?p) = ?p"
      by (intro bytesToHex_digits)
    then have "js_slice (- int w) None (bytesToHex bs) = ?d"
      using e LenBcd len p w by (auto simp: encodeDecimalLength_def Let_def)
    with ne LenBcd show ?thesis by (simp add: decodeDecimalLength_def)
  qed
qed

end
