(* ===== verification/Host_Fields.thy ===== *)
theory Host_Fields
  imports Host_Bytes
begin

text \<open>
  \<^verbatim>\<open>packages/host-message/src/field-codecs.ts\<close>: from a field's value to the bytes of its
  body and back, for the five built-in encodings and for custom codecs. The law is the round
  trip of a body under the conditions that make each encoding faithful.
\<close>

definition fieldFailure :: "field_definition \<Rightarrow> string \<Rightarrow> string \<Rightarrow> host_failure" where
  "fieldFailure field code msg =
     hostMessageFailure code msg
       (no_details\<lparr>hd_dataElement := fd_dataElement field, hd_fieldId := Some (fd_id field),
          hd_phase := Some ''fieldDecode''\<rparr>)"

definition encodeAscii :: "jstext \<Rightarrow> field_definition \<Rightarrow> encoded_value wire" where
  "encodeAscii v field =
     (if list_ex (\<lambda>u. 127 < unat u) v then
        Inl (Fails (fieldFailure field ''hostMessage.field.decodeFailed'' ''ASCII field is invalid''))
      else Inr \<lparr>ev_bytes = map byte_of_unit v, ev_logicalLength = length v\<rparr>)"

text \<open>The BCD settings of a field; a field of another kind has none.\<close>

definition bcd_settings ::
  "field_definition \<Rightarrow> int option \<times> pad_direction option \<times> int option" where
  "bcd_settings field =
     (case fd_encoding field of EncBcd dc pd pn \<Rightarrow> (dc, pd, pn) | _ \<Rightarrow> (None, None, None))"

definition encodeBcd :: "jstext \<Rightarrow> field_definition \<Rightarrow> encoded_value wire" where
  "encodeBcd v field =
     (case bcd_settings field of (digitCount, padDirection, padNibble) \<Rightarrow>
        if \<not> all_digits v then
          Inl (Fails (fieldFailure field ''hostMessage.field.decodeFailed'' ''BCD field is invalid''))
        else if digitCount \<noteq> None \<and> digitCount \<noteq> Some (int (length v)) then
          Inl (Fails (fieldFailure field ''hostMessage.field.validationFailed''
            ''BCD digit count is invalid''))
        else
          (let pad = int_hex_text (case padNibble of None \<Rightarrow> 0 | Some n \<Rightarrow> n);
               padded = (if length v mod 2 = 0 then v
                         else if padDirection = Some PadRight then v @ pad else pad @ v)
           in case hexToBytes padded of
                Some bs \<Rightarrow> Inr \<lparr>ev_bytes = bs, ev_logicalLength = length v\<rparr>
              | None \<Rightarrow> Inl (Fails (fieldFailure field ''hostMessage.field.decodeFailed''
                  ''BCD field is invalid''))))"

definition decodeBcd :: "byte list \<Rightarrow> field_definition \<Rightarrow> int option \<Rightarrow> jstext wire" where
  "decodeBcd bs field logicalLength =
     (case bcd_settings field of (digitCount, padDirection, padNibble) \<Rightarrow>
        let len = (case over logicalLength digitCount of
                     Some n \<Rightarrow> n | None \<Rightarrow> int (length bs) * 2);
            digits = bytesToHex bs;
            digits' = (if len mod 2 = 0 then digits
                       else if padDirection = Some PadRight then js_slice 0 (Some len) digits
                       else js_slice (- len) None digits)
        in if all_digits digits' then Inr digits'
           else Inl (Fails (fieldFailure field ''hostMessage.field.decodeFailed''
             ''BCD field is invalid'')))"

definition codec_missing :: "field_definition \<Rightarrow> fault" where
  "codec_missing field =
     Fails (fieldFailure field ''hostMessage.field.codecMissing'' ''Field codec is unavailable'')"

text \<open>A custom codec's reply: an exception becomes a failure of the field.\<close>

definition codec_reply :: "field_definition \<Rightarrow> (host_failure + 'a) option \<Rightarrow> 'a wire" where
  "codec_reply field r =
     (case r of
        None \<Rightarrow> Inl (Fails (fieldFailure field ''hostMessage.field.codecFailed'' ''Field codec failed''))
      | Some (Inl e) \<Rightarrow> Inl (Fails e)
      | Some (Inr x) \<Rightarrow> Inr x)"

definition requires :: "field_definition \<Rightarrow> string \<Rightarrow> 'a wire" where
  "requires field msg = Inl (Fails (fieldFailure field ''hostMessage.field.validationFailed'' msg))"

definition encodeFieldValue ::
  "field_definition \<Rightarrow> field_value \<Rightarrow> field_codecs \<Rightarrow> encoded_value wire" where
  "encodeFieldValue field val codecs =
     (case val of
        Items _ \<Rightarrow> requires field ''Scalar field value is invalid''
      | Scalar sc \<Rightarrow>
         (case fd_encoding field of
            EncAscii \<Rightarrow>
              (case sc of SText v \<Rightarrow> encodeAscii v field
               | SBytes _ \<Rightarrow> requires field ''ASCII field requires a string'')
          | EncUtf8 \<Rightarrow>
              (case sc of SText v \<Rightarrow> Inr \<lparr>ev_bytes = text_encode v, ev_logicalLength = length v\<rparr>
               | SBytes _ \<Rightarrow> requires field ''UTF-8 field requires a string'')
          | EncBinary \<Rightarrow>
              (case sc of SBytes v \<Rightarrow> Inr \<lparr>ev_bytes = v, ev_logicalLength = length v\<rparr>
               | SText _ \<Rightarrow> requires field ''Binary field requires bytes'')
          | EncAsciiHex \<Rightarrow>
              (case sc of
                 SText v \<Rightarrow>
                   (case hexToBytes v of
                      Some bs \<Rightarrow> Inr \<lparr>ev_bytes = bs, ev_logicalLength = length v\<rparr>
                    | None \<Rightarrow> Inl (Fails (fieldFailure field ''hostMessage.field.decodeFailed''
                        ''Hex field is invalid'')))
               | SBytes _ \<Rightarrow> requires field ''Hex field requires a string'')
          | EncBcd _ _ _ \<Rightarrow>
              (case sc of SText v \<Rightarrow> encodeBcd v field
               | SBytes _ \<Rightarrow> requires field ''BCD field requires a string'')
          | EncCustom cid ver \<Rightarrow>
              (case codecs cid ver of
                 None \<Rightarrow> Inl (codec_missing field)
               | Some codec \<Rightarrow> codec_reply field (fc_encode codec sc field))))"

definition decodeFieldValue ::
  "field_definition \<Rightarrow> byte list \<Rightarrow> field_codecs \<Rightarrow> int option \<Rightarrow> scalar wire" where
  "decodeFieldValue field bs codecs logicalLength =
     (case fd_encoding field of
        EncAscii \<Rightarrow>
          (if list_ex (\<lambda>b. 127 < unat b) bs then
             Inl (Fails (fieldFailure field ''hostMessage.field.decodeFailed''
               ''ASCII field is invalid''))
           else Inr (SText (map unit_of_byte bs)))
      | EncUtf8 \<Rightarrow>
          (case text_decode_fatal bs of
             Some t \<Rightarrow> Inr (SText t)
           | None \<Rightarrow> Inl (Fails (fieldFailure field ''hostMessage.field.decodeFailed''
               ''UTF-8 field is invalid'')))
      | EncBinary \<Rightarrow> Inr (SBytes bs)
      | EncAsciiHex \<Rightarrow> Inr (SText (bytesToHex bs))
      | EncBcd _ _ _ \<Rightarrow> rbind (decodeBcd bs field logicalLength) (\<lambda>t. Inr (SText t))
      | EncCustom cid ver \<Rightarrow>
          (case codecs cid ver of
             None \<Rightarrow> Inl (codec_missing field)
           | Some codec \<Rightarrow> codec_reply field (fc_decode codec bs field logicalLength)))"

section \<open>Round trip of a field body\<close>

text \<open>
  The conditions under which a built-in encoding keeps a value: the UTF-8 decoder drops a
  byte order mark and cannot represent a lone surrogate; hexadecimal comes back in upper
  case; an odd number of BCD digits comes back without its pad nibble only where the reader
  knows the number of digits.
\<close>

definition upper_hex :: "jstext \<Rightarrow> bool" where
  "upper_hex t \<longleftrightarrow> map upper_unit t = t"

definition faithful_value :: "field_definition \<Rightarrow> scalar \<Rightarrow> int option \<Rightarrow> bool" where
  "faithful_value field v logicalLength =
     (case (fd_encoding field, v) of
        (EncUtf8, SText t) \<Rightarrow> well_formed t \<and> \<not> starts_with_bom t
      | (EncAsciiHex, SText t) \<Rightarrow> upper_hex t
      | (EncBcd dc _ _, SText t) \<Rightarrow>
          (case over logicalLength dc of Some n \<Rightarrow> n = int (length t) | None \<Rightarrow> even (length t))
      | (EncCustom _ _, _) \<Rightarrow> False
      | _ \<Rightarrow> True)"

lemma bytesToHex_padded_left:
  assumes "hexToBytes (pad @ v) = Some bs" and "all_digits v" and "0 < length v"
  shows "js_slice (- int (length v)) None (bytesToHex bs) = v"
proof -
  have "bytesToHex bs = map upper_unit pad @ v"
    using bytesToHex_hexToBytes [OF assms(1)] assms(2) by (simp add: map_upper_digits)
  then show ?thesis using assms(3) by simp
qed

lemma bytesToHex_padded_right:
  assumes "hexToBytes (v @ pad) = Some bs" and "all_digits v"
  shows "js_slice 0 (Some (int (length v))) (bytesToHex bs) = v"
  using bytesToHex_hexToBytes [OF assms(1)] assms(2) by (simp add: map_upper_digits)

lemma hexToBytes_digits:
  "all_digits v \<Longrightarrow> hexToBytes v = Some bs \<Longrightarrow> bytesToHex bs = v"
  using bytesToHex_hexToBytes [of v bs] by (simp add: map_upper_digits)

lemma decode_encodeBcd:
  assumes enc: "encodeBcd v field = Inr e"
    and len: "case over logicalLength (fst (bcd_settings field)) of
      Some n \<Rightarrow> n = int (length v) | None \<Rightarrow> even (length v)"
  shows "decodeBcd (ev_bytes e) field logicalLength = Inr v"
proof -
  obtain dc pd pn where s: "bcd_settings field = (dc, pd, pn)" by (cases "bcd_settings field")
  have ad: "all_digits v" using enc s by (auto simp: encodeBcd_def split: if_splits)
  show ?thesis
  proof (cases "even (length v)")
    case True
    then have "bytesToHex (ev_bytes e) = v" and "even (length (bytesToHex (ev_bytes e)))"
      using enc s ad by (auto simp: encodeBcd_def Let_def mod2_eq_if hexToBytes_digits
          split: if_splits option.splits)
    with True len s ad show ?thesis
      by (auto simp: decodeBcd_def Let_def split: option.splits)
  next
    case False
    with len s have n: "over logicalLength dc = Some (int (length v))"
      by (auto split: option.splits)
    from False have "0 < length v" by (cases v) auto
    with False enc s ad have
      "(if pd = Some PadRight then js_slice 0 (Some (int (length v))) (bytesToHex (ev_bytes e))
        else js_slice (- int (length v)) None (bytesToHex (ev_bytes e))) = v"
      by (auto simp: encodeBcd_def Let_def bytesToHex_padded_left bytesToHex_padded_right
          simp del: js_slice_to js_slice_last split: if_splits option.splits)
    moreover have "int (length v) mod 2 \<noteq> 0" using False by presburger
    ultimately show ?thesis using n s ad
      by (auto simp: decodeBcd_def Let_def simp del: js_slice_to js_slice_last split: if_splits)
  qed
qed

lemma decode_encodeFieldValue:
  assumes enc: "encodeFieldValue field (Scalar v) codecs = Inr e"
    and ok: "faithful_value field v logicalLength"
  shows "decodeFieldValue field (ev_bytes e) codecs logicalLength = Inr v"
proof (cases "fd_encoding field")
  case EncAscii
  then obtain t where t: "v = SText t" using enc
    by (auto simp: encodeFieldValue_def requires_def split: scalar.splits)
  with EncAscii enc have small: "\<forall>u \<in> set t. unat u \<le> 127" and e: "ev_bytes e = map byte_of_unit t"
    by (auto simp: encodeFieldValue_def encodeAscii_def list_ex_iff not_less split: if_splits)
  then have "map unit_of_byte (ev_bytes e) = t"
    by (fastforce intro!: map_idI unit_of_byte_of_unit)
  moreover have "\<not> list_ex (\<lambda>b. 127 < unat b) (ev_bytes e)"
    using small e by (fastforce simp: list_ex_iff unat_byte_of_unit)
  ultimately show ?thesis using EncAscii t by (simp add: decodeFieldValue_def)
next
  case (EncBcd dc pd pn)
  then show ?thesis using enc ok
    by (auto simp: encodeFieldValue_def decodeFieldValue_def faithful_value_def requires_def
        bcd_settings_def intro!: decode_encodeBcd [THEN arg_cong [of _ _ "\<lambda>m. rbind m _"], THEN trans]
        split: scalar.splits)
qed (use enc ok in \<open>auto simp: encodeFieldValue_def decodeFieldValue_def faithful_value_def
    requires_def text_decode_fatal_encode upper_hex_def bytesToHex_hexToBytes
    split: scalar.splits option.splits\<close>)

end
