(* ===== verification/Host_Wire.thy ===== *)
theory Host_Wire
  imports Host_Fields Host_Bytes
begin

text \<open>
  \<^verbatim>\<open>packages/host-message/src/field-wire.ts\<close>: a field on the wire, that is its validation,
  its padding or length prefix and its body. Reading threads the byte cursor through every
  step, failures included, because a partial decode reports the offset it reached.
\<close>

section \<open>The interface of a codec\<close>

text \<open>
  The interface between the message codecs and the field layer: a field is packed into bytes,
  unpacked through the byte cursor, and comes back where it is \<open>good\<close>. Both message codecs
  write and read sequences of fields; that a sequence comes back is proved here once, from the
  law of a single field.
\<close>

fun write_fields ::
  "('f \<Rightarrow> 'v \<Rightarrow> 'e + byte list) \<Rightarrow> ('k \<times> 'f \<times> 'v) list \<Rightarrow> 'e + byte list" where
  "write_fields pack [] = Inr []"
| "write_fields pack ((k, f, v) # ps) =
     rbind (pack f v) (\<lambda>bs. rbind (write_fields pack ps) (\<lambda>rest. Inr (bs @ rest)))"

fun read_fields ::
  "('f \<Rightarrow> byte_cursor \<Rightarrow> ('e + 'v) \<times> byte_cursor) \<Rightarrow> ('k \<times> 'f) list \<Rightarrow> ('k \<times> 'v) list
     \<Rightarrow> byte_cursor \<Rightarrow> 'e + (('k \<times> 'v) list \<times> byte_cursor)" where
  "read_fields unpack [] acc cur = Inr (acc, cur)"
| "read_fields unpack ((k, f) # ps) acc cur =
     (case unpack f cur of
        (Inl e, cur') \<Rightarrow> Inl e
      | (Inr v, cur') \<Rightarrow> read_fields unpack ps (put k v acc) cur')"

locale field_wire =
  fixes pack :: "'f \<Rightarrow> 'v \<Rightarrow> 'e + byte list"
    and unpack :: "'f \<Rightarrow> byte_cursor \<Rightarrow> ('e + 'v) \<times> byte_cursor"
    and good :: "'f \<Rightarrow> 'v \<Rightarrow> bool"
  assumes roundtrip:
    "pack f v = Inr bs \<Longrightarrow> good f v \<Longrightarrow> cursor_ok cur \<Longrightarrow> cursor_rest cur = bs @ rest \<Longrightarrow>
     \<exists>cur'. unpack f cur = (Inr v, cur') \<and> cursor_ok cur' \<and> cursor_rest cur' = rest"
    and frame:
    "unpack f cur = (r, cur') \<Longrightarrow>
     cur_source cur' = cur_source cur \<and> (cursor_ok cur \<longrightarrow> cursor_ok cur')
       \<and> cur_position cur \<le> cur_position cur'"
begin

lemma read_write_fields:
  assumes "write_fields pack ps = Inr bs" and "\<forall>(k, f, v) \<in> set ps. good f v"
    and "cursor_ok cur" and "cursor_rest cur = bs @ rest"
    and "distinct (map fst ps)" and "fst ` set ps \<inter> fst ` set acc = {}"
  shows "\<exists>cur'. read_fields unpack (map (\<lambda>(k, f, v). (k, f)) ps) acc cur
      = Inr (acc @ map (\<lambda>(k, f, v). (k, v)) ps, cur')
    \<and> cursor_ok cur' \<and> cursor_rest cur' = rest"
  using assms
proof (induction ps arbitrary: bs acc cur)
  case Nil
  then show ?case by simp
next
  case (Cons p ps)
  obtain k f v where p: "p = (k, f, v)" by (cases p)
  obtain b1 b2 where b1: "pack f v = Inr b1" and b2: "write_fields pack ps = Inr b2"
    and bs: "bs = b1 @ b2"
    using Cons.prems(1) by (auto simp: p res_simps)
  obtain cur1 where c1: "unpack f cur = (Inr v, cur1)" "cursor_ok cur1"
    "cursor_rest cur1 = b2 @ rest"
    using roundtrip [OF b1 _ Cons.prems(3), of "b2 @ rest"] Cons.prems(2,4) by (auto simp: p bs)
  have new: "k \<notin> fst ` set acc" and disj: "fst ` set ps \<inter> fst ` set (acc @ [(k, v)]) = {}"
    using Cons.prems(5,6) by (auto simp: p rev_image_eqI)
  obtain cur' where "read_fields unpack (map (\<lambda>(k, f, v). (k, f)) ps) (acc @ [(k, v)]) cur1
      = Inr ((acc @ [(k, v)]) @ map (\<lambda>(k, f, v). (k, v)) ps, cur')
    \<and> cursor_ok cur' \<and> cursor_rest cur' = rest"
    using Cons.IH [OF b2 _ c1(2,3) _ disj] Cons.prems(2,5) by (auto simp: p)
  with c1(1) new show ?case by (simp add: p put_new)
qed

lemma read_fields_position:
  "read_fields unpack ps acc cur = Inr (acc', cur') \<Longrightarrow> cursor_ok cur \<Longrightarrow>
   cur_source cur' = cur_source cur \<and> cursor_ok cur' \<and> cur_position cur \<le> cur_position cur'"
proof (induction ps arbitrary: acc cur)
  case (Cons p ps)
  obtain k f where p: "p = (k, f)" by (cases p)
  obtain r cur1 where u: "unpack f cur = (r, cur1)" by (cases "unpack f cur")
  with Cons.prems p obtain v where r: "r = Inr v" by (cases r) auto
  have "cur_source cur' = cur_source cur1 \<and> cursor_ok cur' \<and> cur_position cur1 \<le> cur_position cur'"
    using Cons.IH [of "put k v acc" cur1] Cons.prems frame [OF u] u p r by auto
  then show ?case using frame [OF u] by auto
qed simp

text \<open>The keys read are exactly the keys asked for, in order, after those read before.\<close>

lemma read_fields_keys:
  "read_fields unpack ps acc cur = Inr (acc', cur') \<Longrightarrow>
   fst ` set acc' = fst ` set acc \<union> fst ` set ps"
proof (induction ps arbitrary: acc cur)
  case (Cons p ps)
  obtain k f where p: "p = (k, f)" by (cases p)
  with Cons show ?case
    by (auto simp: dom_update split: prod.splits sum.splits) 
qed simp

end


definition fail ::
  "field_definition \<Rightarrow> string \<Rightarrow> string \<Rightarrow> nat option \<Rightarrow> host_failure" where
  "fail field code msg offset =
     hostMessageFailure code msg
       (no_details\<lparr>hd_dataElement := fd_dataElement field, hd_byteOffset := offset,
          hd_fieldId := Some (fd_id field), hd_phase := Some ''fieldValue''\<rparr>)"

definition invalid :: "field_definition \<Rightarrow> string \<Rightarrow> fault" where
  "invalid field msg = Fails (fail field ''hostMessage.field.validationFailed'' msg None)"

fun scalar_length :: "scalar \<Rightarrow> nat" where
  "scalar_length (SText t) = length t"
| "scalar_length (SBytes bs) = length bs"

text \<open>
  The checks run in the code's order; an invalid pattern makes \<^verbatim>\<open>new RegExp\<close> throw.
\<close>

definition validateText ::
  "regexps \<Rightarrow> field_definition \<Rightarrow> field_validation \<Rightarrow> jstext \<Rightarrow> unit wire" where
  "validateText rx field va t =
     rbind (guard_res (case val_allowed va of None \<Rightarrow> True | Some vs \<Rightarrow> t \<in> set vs)
       (invalid field ''Field value is not allowed'')) (\<lambda>_.
     case val_pattern va of
       None \<Rightarrow> Inr ()
     | Some p \<Rightarrow>
        if p = [] then Inr ()
        else if \<not> rx_valid rx p then Inl (Throws ''SyntaxError'')
        else guard_res (rx_test rx p t) (invalid field ''Field format is invalid''))"

definition validateValue :: "regexps \<Rightarrow> field_definition \<Rightarrow> scalar \<Rightarrow> unit wire" where
  "validateValue rx field v =
     (let logicalLength = int (scalar_length v) in
      rbind (guard_res (fd_allowBlank field \<or> (case v of SText t \<Rightarrow> t \<noteq> [] | SBytes _ \<Rightarrow> True))
        (invalid field ''Field cannot be blank'')) (\<lambda>_.
      case fd_validation field of
        None \<Rightarrow> Inr ()
      | Some va \<Rightarrow>
          rbind (guard_res (case val_min va of None \<Rightarrow> True | Some n \<Rightarrow> n \<le> logicalLength)
            (invalid field ''Field is shorter than allowed'')) (\<lambda>_.
          rbind (guard_res (case val_max va of None \<Rightarrow> True | Some n \<Rightarrow> logicalLength \<le> n)
            (invalid field ''Field is longer than allowed'')) (\<lambda>_.
          case v of SText t \<Rightarrow> validateText rx field va t | SBytes _ \<Rightarrow> Inr ()))))"

definition padBytes :: "byte list \<Rightarrow> field_definition \<Rightarrow> int \<Rightarrow> byte list wire" where
  "padBytes bs field len =
     (if int (length bs) = len then Inr bs
      else if int (length bs) > len then
        Inl (Fails (fail field ''hostMessage.field.overflow''
          ''Field exceeds its fixed wire length'' None))
      else case fd_padding field of
        None \<Rightarrow> Inl (Fails (fail field ''hostMessage.field.lengthMismatch''
          ''Field does not fill its fixed wire length'' None))
      | Some p \<Rightarrow>
          (let padding = replicate (nat (len - int (length bs))) (word_of_int (pad_byte p))
           in Inr (if pad_direction p = PadLeft then concatBytes [padding, bs]
                   else concatBytes [bs, padding])))"

text \<open>
  A byte is compared with the setting as a number, so a setting outside a byte's range strips
  nothing.
\<close>

definition stripPadding :: "byte list \<Rightarrow> field_definition \<Rightarrow> byte list" where
  "stripPadding bs field =
     (case fd_padding field of
        None \<Rightarrow> bs
      | Some p \<Rightarrow>
          if \<not> pad_strip p then bs
          else if pad_direction p = PadLeft then dropWhile (\<lambda>b. uint b = pad_byte p) bs
          else rev (dropWhile (\<lambda>b. uint b = pad_byte p) (rev bs)))"

definition var_width :: "var_kind \<Rightarrow> nat" where
  "var_width k = (if k = LLVAR then 2 else 3)"

text \<open>The variable-length part of \<^verbatim>\<open>packWireField\<close>: the limit and the length prefix.\<close>

definition packPrefixed ::
  "field_definition \<Rightarrow> var_kind \<Rightarrow> int \<Rightarrow> length_encoding \<Rightarrow> nat \<Rightarrow> byte list \<Rightarrow> byte list wire" where
  "packPrefixed field kind maxLength lengthEncoding logicalLength body =
     (if int logicalLength > maxLength then
        Inl (Fails (fail field ''hostMessage.limit.exceeded''
          ''Field exceeds its variable wire limit'' None))
      else
        (case encodeDecimalLength logicalLength (var_width kind) lengthEncoding of
           Inr prefix \<Rightarrow> Inr (concatBytes [prefix, body])
         | Inl (Fails f) \<Rightarrow>
             Inl (Fails (addFailureDetails f (no_details\<lparr>hd_fieldId := Some (fd_id field)\<rparr>)))
         | Inl (Throws x) \<Rightarrow> Inl (Throws x)))"

definition packWireField ::
  "regexps \<Rightarrow> field_definition \<Rightarrow> field_value \<Rightarrow> field_codecs \<Rightarrow> byte list wire" where
  "packWireField rx field val codecs =
     (case val of
        Items _ \<Rightarrow> Inl (invalid field ''Field requires a scalar value'')
      | Scalar v \<Rightarrow>
          rbind (validateValue rx field v) (\<lambda>_.
          rbind (encodeFieldValue field val codecs) (\<lambda>e.
          case fd_length field of
            Fixed n \<Rightarrow> padBytes (ev_bytes e) field n
          | Var kind maxLength lengthEncoding lengthUnit \<Rightarrow>
              packPrefixed field kind maxLength lengthEncoding
                (if lengthUnit = Some UnitDigits then ev_logicalLength e else length (ev_bytes e))
                (ev_bytes e))))"

text \<open>The part of \<^verbatim>\<open>unpackWireField\<close> after the lengths are known.\<close>

definition unpackBody ::
  "regexps \<Rightarrow> field_definition \<Rightarrow> field_codecs \<Rightarrow> int option \<Rightarrow> int \<Rightarrow> byte_cursor
     \<Rightarrow> scalar wire \<times> byte_cursor" where
  "unpackBody rx field codecs logicalLength wireLength cur =
     (let available = cursor_remaining cur in
      case cursor_read wireLength cur of
        (None, cur') \<Rightarrow>
          (Inl (Fails (hostMessageFailure ''hostMessage.message.truncated'' ''Field body is incomplete''
             (no_details\<lparr>hd_dataElement := fd_dataElement field,
                hd_byteOffset := Some (cursor_offset cur'), hd_expectedBytes := Some wireLength,
                hd_fieldId := Some (fd_id field), hd_phase := Some ''fieldValue'',
                hd_receivedBytes := Some available\<rparr>))), cur')
      | (Some raw, cur') \<Rightarrow>
          (rbind (decodeFieldValue field (stripPadding raw field) codecs logicalLength) (\<lambda>v.
             rbind (validateValue rx field v) (\<lambda>_. Inr v)), cur'))"

definition ceil_half :: "nat \<Rightarrow> nat" where
  "ceil_half n = (n + 1) div 2"

definition is_bcd :: "field_definition \<Rightarrow> bool" where
  "is_bcd field = (case fd_encoding field of EncBcd _ _ _ \<Rightarrow> True | _ \<Rightarrow> False)"

definition unpackWireField ::
  "regexps \<Rightarrow> byte_cursor \<Rightarrow> field_definition \<Rightarrow> field_codecs \<Rightarrow> scalar wire \<times> byte_cursor" where
  "unpackWireField rx cur field codecs =
     (let start = cursor_offset cur in
      case fd_length field of
        Fixed n \<Rightarrow>
          unpackBody rx field codecs (if is_bcd field then fst (bcd_settings field) else None) n cur
      | Var kind maxLength lengthEncoding lengthUnit \<Rightarrow>
          (let width = var_width kind;
               prefixBytes = (if lengthEncoding = LenAscii then width else ceil_half width) in
           case cursor_read (int prefixBytes) cur of
             (None, cur') \<Rightarrow>
               (Inl (Fails (fail field ''hostMessage.message.truncated''
                  ''Field length prefix is incomplete'' (Some start))), cur')
           | (Some prefix, cur') \<Rightarrow>
               (case decodeDecimalLength prefix width lengthEncoding of
                  Inl (Fails f) \<Rightarrow>
                    (Inl (Fails (addFailureDetails f
                       (no_details\<lparr>hd_fieldId := Some (fd_id field), hd_byteOffset := Some start\<rparr>))),
                     cur')
                | Inl (Throws x) \<Rightarrow> (Inl (Throws x), cur')
                | Inr decodedLength \<Rightarrow>
                    if int decodedLength > maxLength then
                      (Inl (Fails (hostMessageFailure ''hostMessage.limit.exceeded''
                         ''Field length exceeds its profile limit''
                         (no_details\<lparr>hd_actual := Some (int decodedLength), hd_byteOffset := Some start,
                            hd_fieldId := Some (fd_id field), hd_limit := Some maxLength,
                            hd_phase := Some ''lengthPrefix''\<rparr>))), cur')
                    else
                      unpackBody rx field codecs
                        (if lengthUnit = Some UnitDigits then Some (int decodedLength) else None)
                        (int (if lengthUnit = Some UnitDigits \<and> is_bcd field
                              then ceil_half decodedLength else decodedLength)) cur')))"

section \<open>The cursor under a read\<close>

lemma unpackBody_cursor:
  assumes "unpackBody rx field codecs ll wl cur = (r, cur')"
  shows "cur_source cur' = cur_source cur" and "cursor_ok cur \<Longrightarrow> cursor_ok cur'"
    and "cur_position cur \<le> cur_position cur'"
proof -
  have "cur' = snd (cursor_read wl cur)"
    using assms by (auto simp: unpackBody_def Let_def split: prod.splits option.splits)
  then show "cur_source cur' = cur_source cur" and "cursor_ok cur \<Longrightarrow> cursor_ok cur'"
    and "cur_position cur \<le> cur_position cur'"
    by (simp_all add: cursor_read_ok cursor_read_mono)
qed

lemma unpackWireField_cursor:
  assumes u: "unpackWireField rx cur field codecs = (r, cur')"
  shows "cur_source cur' = cur_source cur \<and> (cursor_ok cur \<longrightarrow> cursor_ok cur')
    \<and> cur_position cur \<le> cur_position cur'"
proof (cases "fd_length field")
  case (Fixed n)
  with u show ?thesis by (auto simp: unpackWireField_def dest: unpackBody_cursor)
next
  case (Var kind mx le lu)
  define pb where "pb = int (if le = LenAscii then var_width kind else ceil_half (var_width kind))"
  obtain p c1 where rd: "cursor_read pb cur = (p, c1)" by (cases "cursor_read pb cur")
  have c1: "cur_source c1 = cur_source cur" "cursor_ok cur \<longrightarrow> cursor_ok c1"
    "cur_position cur \<le> cur_position c1"
    using rd cursor_read_source [of pb cur] cursor_read_ok [of cur pb] cursor_read_mono [of cur pb]
    by auto
  have "cur' = c1 \<or> (\<exists>ll wl. unpackBody rx field codecs ll wl c1 = (r, cur'))"
    using u Var rd by (auto simp: unpackWireField_def Let_def pb_def
        split: option.splits sum.splits fault.splits if_splits)
  with c1 show ?thesis by (auto dest: unpackBody_cursor)
qed

section \<open>Round trip of a field\<close>

text \<open>
  Reading a body strips padding whatever the length kind: the body must not start (or end)
  with the padding byte itself. A body shorter than a fixed field comes back only where the
  padding is stripped. With lengths in digits the reader expects half a byte per digit of a
  BCD body and a byte per digit of any other.
\<close>

definition strips :: "field_definition \<Rightarrow> bool" where
  "strips field = (case fd_padding field of None \<Rightarrow> False | Some p \<Rightarrow> pad_strip p)"

definition wire_faithful :: "field_definition \<Rightarrow> scalar \<Rightarrow> field_codecs \<Rightarrow> bool" where
  "wire_faithful field v codecs =
     (case encodeFieldValue field (Scalar v) codecs of
        Inl _ \<Rightarrow> True
      | Inr e \<Rightarrow>
          stripPadding (ev_bytes e) field = ev_bytes e \<and>
          (case fd_length field of
             Fixed n \<Rightarrow>
               faithful_value field v (if is_bcd field then fst (bcd_settings field) else None) \<and>
               (n = int (length (ev_bytes e))
                \<or> strips field \<and> (case fd_padding field of None \<Rightarrow> False | Some p \<Rightarrow> 0 \<le> pad_byte p \<and> pad_byte p < 256))
           | Var kind mx le lu \<Rightarrow>
               faithful_value field v (if lu = Some UnitDigits then Some (int (ev_logicalLength e)) else None) \<and>
               (lu = Some UnitDigits \<longrightarrow>
                  length (ev_bytes e) =
                    (if is_bcd field then ceil_half (ev_logicalLength e) else ev_logicalLength e))))"

lemma dropWhile_replicate_append:
  "P x \<Longrightarrow> dropWhile P (replicate n x @ xs) = dropWhile P xs"
  by (induction n) auto

lemma uint_pad_byte: "0 \<le> i \<Longrightarrow> i < 256 \<Longrightarrow> uint (word_of_int i :: byte) = i"
  by (simp add: unsigned_of_int take_bit_eq_mod)

lemma stripPadding_padBytes:
  assumes pad: "padBytes body field n = Inr bs"
    and keeps: "stripPadding body field = body"
    and ok: "n = int (length body)
      \<or> strips field \<and> (case fd_padding field of None \<Rightarrow> False | Some p \<Rightarrow> 0 \<le> pad_byte p \<and> pad_byte p < 256)"
  shows "stripPadding bs field = body" and "int (length bs) = n"
proof -
  show "int (length bs) = n"
    using pad by (auto simp: padBytes_def concatBytes_def Let_def split: if_splits option.splits)
  show "stripPadding bs field = body"
  proof (cases "n = int (length body)")
    case True
    then show ?thesis using pad keeps by (simp add: padBytes_def)
  next
    case False
    with ok obtain p where p: "fd_padding field = Some p" "pad_strip p" "0 \<le> pad_byte p" "pad_byte p < 256"
      by (auto simp: strips_def split: option.splits)
    then show ?thesis using pad keeps False
      by (auto simp: padBytes_def concatBytes_def Let_def stripPadding_def uint_pad_byte
          dropWhile_replicate_append split: if_splits)
  qed
qed

lemma unpackBody_append:
  assumes "cursor_ok cur" and "cursor_rest cur = raw @ rest" and "wl = int (length raw)"
    and "decodeFieldValue field (stripPadding raw field) codecs ll = Inr v"
    and "validateValue rx field v = Inr ()"
  obtains cur' where "unpackBody rx field codecs ll wl cur = (Inr v, cur')"
    and "cursor_ok cur'" and "cursor_rest cur' = rest"
proof -
  obtain c' where "cursor_read wl cur = (Some raw, c')" "cursor_ok c'" "cursor_rest c' = rest"
    using cursor_read_append [OF assms(1-3)] by blast
  with assms(4,5) that show thesis by (simp add: unpackBody_def Let_def)
qed

lemma packWireField_Inr:
  "packWireField rx field (Scalar v) codecs = Inr bs \<Longrightarrow>
   \<exists>e. validateValue rx field v = Inr () \<and> encodeFieldValue field (Scalar v) codecs = Inr e"
  by (auto simp: packWireField_def res_simps)

lemma packWireField_fixed:
  assumes "validateValue rx field v = Inr ()" and "encodeFieldValue field (Scalar v) codecs = Inr e"
    and "fd_length field = Fixed n"
  shows "packWireField rx field (Scalar v) codecs = padBytes (ev_bytes e) field n"
  using assms by (simp add: packWireField_def)

lemma packWireField_var:
  assumes pack: "packWireField rx field (Scalar v) codecs = Inr bs"
    and "validateValue rx field v = Inr ()" and "encodeFieldValue field (Scalar v) codecs = Inr e"
    and "fd_length field = Var kind mx le lu"
    and len: "len = (if lu = Some UnitDigits then ev_logicalLength e else length (ev_bytes e))"
  obtains pre where "int len \<le> mx" and "encodeDecimalLength len (var_width kind) le = Inr pre"
    and "bs = pre @ ev_bytes e"
proof -
  have "packPrefixed field kind mx le len (ev_bytes e) = Inr bs"
    using pack by (simp add: packWireField_def assms(2-4) len)
  then show thesis
    using that by (auto simp: packPrefixed_def concatBytes_def split: if_splits sum.splits fault.splits)
qed

lemma unpack_fixed:
  assumes pack: "padBytes (ev_bytes e) field n = Inr bs" and f: "fd_length field = Fixed n"
    and val: "validateValue rx field v = Inr ()"
    and enc: "encodeFieldValue field (Scalar v) codecs = Inr e"
    and ok: "wire_faithful field v codecs"
    and cur: "cursor_ok cur" "cursor_rest cur = bs @ rest"
  shows "\<exists>cur'. unpackWireField rx cur field codecs = (Inr v, cur')
    \<and> cursor_ok cur' \<and> cursor_rest cur' = rest"
proof -
  let ?ll = "if is_bcd field then fst (bcd_settings field) else None"
  have strip: "stripPadding bs field = ev_bytes e" and len: "int (length bs) = n"
    and fv: "faithful_value field v ?ll"
    using ok f enc stripPadding_padBytes [OF pack] by (auto simp: wire_faithful_def)
  have "decodeFieldValue field (stripPadding bs field) codecs ?ll = Inr v"
    unfolding strip by (rule decode_encodeFieldValue [OF enc fv])
  then obtain cur' where "unpackBody rx field codecs ?ll n cur = (Inr v, cur')"
    "cursor_ok cur'" "cursor_rest cur' = rest"
    using unpackBody_append [OF cur len [symmetric] _ val] by blast
  then show ?thesis using f by (simp add: unpackWireField_def Let_def)
qed

lemma unpack_var:
  assumes mx: "int len \<le> mx" and pre: "encodeDecimalLength len (var_width kind) le = Inr pre"
    and f: "fd_length field = Var kind mx le lu"
    and len: "len = (if lu = Some UnitDigits then ev_logicalLength e else length (ev_bytes e))"
    and val: "validateValue rx field v = Inr ()"
    and enc: "encodeFieldValue field (Scalar v) codecs = Inr e"
    and ok: "wire_faithful field v codecs"
    and cur: "cursor_ok cur" "cursor_rest cur = (pre @ ev_bytes e) @ rest"
  shows "\<exists>cur'. unpackWireField rx cur field codecs = (Inr v, cur')
    \<and> cursor_ok cur' \<and> cursor_rest cur' = rest"
proof -
  have w: "0 < var_width kind" by (simp add: var_width_def)
  let ?pb = "int (if le = LenAscii then var_width kind else ceil_half (var_width kind))"
  have "?pb = int (length pre)"
    using encodeDecimalLength_length [OF pre] by (simp add: prefix_bytes_def ceil_half_def)
  then obtain c1 where c1: "cursor_read ?pb cur = (Some pre, c1)" "cursor_ok c1"
    "cursor_rest c1 = ev_bytes e @ rest"
    using cursor_read_append [of cur pre "ev_bytes e @ rest" ?pb] cur by auto
  let ?ll = "if lu = Some UnitDigits then Some (int len) else None"
  let ?wl = "int (if lu = Some UnitDigits \<and> is_bcd field then ceil_half len else len)"
  have strip: "stripPadding (ev_bytes e) field = ev_bytes e" and fv: "faithful_value field v ?ll"
    and wl: "?wl = int (length (ev_bytes e))"
    using ok f enc len by (auto simp: wire_faithful_def)
  have "decodeFieldValue field (stripPadding (ev_bytes e) field) codecs ?ll = Inr v"
    unfolding strip by (rule decode_encodeFieldValue [OF enc fv])
  then obtain cur' where "unpackBody rx field codecs ?ll ?wl c1 = (Inr v, cur')"
    "cursor_ok cur'" "cursor_rest cur' = rest"
    using unpackBody_append [OF c1(2,3) wl _ val] by blast
  then show ?thesis
    using f c1(1) decode_encodeDecimalLength [OF pre w] mx
    by (simp add: unpackWireField_def Let_def)
qed

lemma unpack_packWireField:
  assumes pack: "packWireField rx field (Scalar v) codecs = Inr bs"
    and ok: "wire_faithful field v codecs"
    and cur: "cursor_ok cur" "cursor_rest cur = bs @ rest"
  shows "\<exists>cur'. unpackWireField rx cur field codecs = (Inr v, cur')
    \<and> cursor_ok cur' \<and> cursor_rest cur' = rest"
proof -
  obtain e where val: "validateValue rx field v = Inr ()"
    and enc: "encodeFieldValue field (Scalar v) codecs = Inr e"
    using packWireField_Inr [OF pack] by blast
  show ?thesis
  proof (cases "fd_length field")
    case (Fixed n)
    with pack have "padBytes (ev_bytes e) field n = Inr bs"
      by (simp add: packWireField_fixed [OF val enc])
    then show ?thesis using Fixed val enc ok cur by (rule unpack_fixed)
  next
    case (Var kind mx le lu)
    obtain pre where "int (if lu = Some UnitDigits then ev_logicalLength e else length (ev_bytes e)) \<le> mx"
      and "encodeDecimalLength (if lu = Some UnitDigits then ev_logicalLength e
             else length (ev_bytes e)) (var_width kind) le = Inr pre"
      and "bs = pre @ ev_bytes e"
      using packWireField_var [OF pack val enc Var refl] .
    then show ?thesis using Var val enc ok cur by (intro unpack_var [OF _ _ Var refl val enc ok]) auto
  qed
qed

section \<open>The field layer as an interface\<close>

interpretation wire: field_wire
  "\<lambda>field v. packWireField rx field (Scalar v) codecs"
  "\<lambda>field cur. unpackWireField rx cur field codecs"
  "\<lambda>field v. wire_faithful field v codecs"
  for rx codecs
  by unfold_locales (blast intro: unpack_packWireField, rule unpackWireField_cursor)

end
