(* ===== verification/Host_Fixed.thy ===== *)
theory Host_Fixed
  imports Host_Wire
begin

text \<open>
  \<^verbatim>\<open>packages/host-message/src/fixed-field-codec.ts\<close>: messages of consecutive fields and
  repeating groups. A loop of the source that may return early is a recursion whose result is
  \<^term>\<open>Inl\<close> of the value returned or \<^term>\<open>Inr\<close> of the loop's state.
\<close>

section \<open>Failures\<close>

definition packFailure ::
  "host_reference \<Rightarrow> string \<Rightarrow> string \<Rightarrow> string option \<Rightarrow> fault" where
  "packFailure ref code msg fieldId =
     Fails (hostMessageFailure code msg ((referenceDetails ref)\<lparr>hd_fieldId := fieldId\<rparr>))"

definition hardFailure ::
  "host_reference \<Rightarrow> string \<Rightarrow> string \<Rightarrow> failure_details \<Rightarrow> decoded wire" where
  "hardFailure ref code msg details =
     Inl (Fails (hostMessageFailure code msg (merge_details (referenceDetails ref) details)))"

definition decodeFailure ::
  "unpack_context \<Rightarrow> field_set \<Rightarrow> host_failure \<Rightarrow> byte_cursor \<Rightarrow> nat \<Rightarrow> decoded wire" where
  "decodeFailure ctx flds f cur fieldIndex =
     (let error = addFailureDetails f
            ((referenceDetails (cx_reference ctx))\<lparr>hd_fieldIndex := Some fieldIndex\<rparr>)
      in if ux_allowPartial ctx \<and> canReturnPartial error
         then Inr (Partial (cx_reference ctx) flds error (cursor_offset cur) (length (ux_bytes ctx)))
         else Inl (Fails error))"

definition exceeds_limit :: "('a) codec_context_scheme \<Rightarrow> byte list \<Rightarrow> bool" where
  "exceeds_limit ctx bs \<longleftrightarrow>
     int (length bs) > pf_maxMessageBytes (rs_profile (cx_resolved ctx)) \<or>
     int (length bs) > lim_maxMessageBytes (cx_limits ctx)"

section \<open>Packing\<close>

fun packItemFields ::
  "pack_context \<Rightarrow> group_use \<Rightarrow> nat \<Rightarrow> field_set \<Rightarrow> string list \<Rightarrow> byte list wire" where
  "packItemFields ctx use itemIndex item [] = Inr []"
| "packItemFields ctx use itemIndex item (fid # fids) =
     (case (rs_fieldsById (cx_resolved ctx) fid, map_of item fid) of
        (Some field, Some val) \<Rightarrow>
          (case packWireField (cx_regexps ctx) field val (cx_fieldCodecs ctx) of
             Inl (Fails f) \<Rightarrow>
               Inl (Fails (addFailureDetails f
                 (no_details\<lparr>hd_groupId := Some (gu_id use), hd_itemFieldId := Some fid,
                    hd_itemIndex := Some itemIndex\<rparr>)))
           | Inl (Throws x) \<Rightarrow> Inl (Throws x)
           | Inr bs \<Rightarrow>
               rbind (packItemFields ctx use itemIndex item fids) (\<lambda>rest. Inr (concatBytes [bs, rest])))
      | _ \<Rightarrow>
          Inl (Fails (hostMessageFailure ''hostMessage.field.missing''
            ''Repeating item field is missing''
            ((referenceDetails (cx_reference ctx))\<lparr>hd_groupId := Some (gu_id use),
               hd_itemFieldId := Some fid, hd_itemIndex := Some itemIndex\<rparr>))))"

fun packItems ::
  "pack_context \<Rightarrow> group_use \<Rightarrow> nat \<Rightarrow> field_set list \<Rightarrow> byte list wire" where
  "packItems ctx use itemIndex [] = Inr []"
| "packItems ctx use itemIndex (item # items) =
     rbind (packItemFields ctx use itemIndex item (gu_itemFieldIds use)) (\<lambda>bs.
     rbind (packItems ctx use (Suc itemIndex) items) (\<lambda>rest. Inr (concatBytes [bs, rest])))"

definition packArea :: "pack_context \<Rightarrow> group_use \<Rightarrow> byte list \<Rightarrow> byte list wire" where
  "packArea ctx use itemBytes =
     (case gu_fixedAreaBytes use of
        None \<Rightarrow> Inr itemBytes
      | Some area \<Rightarrow>
          if int (length itemBytes) > area then
            Inl (Fails (hostMessageFailure ''hostMessage.limit.exceeded''
              ''Repeating group exceeds its fixed area''
              ((referenceDetails (cx_reference ctx))\<lparr>hd_actual := Some (int (length itemBytes)),
                 hd_groupId := Some (gu_id use), hd_limit := Some area\<rparr>)))
          else
            Inr (concatBytes [itemBytes,
              replicate (nat (area - int (length itemBytes)))
                (word_of_int (case gu_padByte use of None \<Rightarrow> 32 | Some b \<Rightarrow> b))]))"

definition packGroupItems :: "pack_context \<Rightarrow> group_use \<Rightarrow> field_set list \<Rightarrow> byte list wire" where
  "packGroupItems ctx use items =
     (let ref = referenceDetails (cx_reference ctx) in
      case rs_fieldsById (cx_resolved ctx) (gu_countFieldId use) of
        None \<Rightarrow>
          Inl (Fails (hostMessageFailure ''hostMessage.profile.invalid''
            ''Count field is missing'' ref))
      | Some countField \<Rightarrow>
          (case packWireField (cx_regexps ctx) countField
                  (Scalar (SText (dec_text (length items)))) (cx_fieldCodecs ctx) of
             Inl (Fails f) \<Rightarrow>
               Inl (Fails (addFailureDetails f (ref\<lparr>hd_groupId := Some (gu_id use)\<rparr>)))
           | Inl (Throws x) \<Rightarrow> Inl (Throws x)
           | Inr count \<Rightarrow>
               rbind (packItems ctx use 0 items) (\<lambda>itemBytes.
               rbind (packArea ctx use itemBytes) (\<lambda>area.
               Inr (concatBytes [count, area])))))"

definition packGroup :: "pack_context \<Rightarrow> group_use \<Rightarrow> byte list wire" where
  "packGroup ctx use =
     (let ref = referenceDetails (cx_reference ctx);
          val = map_of (px_fields ctx) (gu_id use) in
      if val = None \<and> gu_presence use = Some OptionalTrailing then Inr []
      else case val of
        Some (Items items) \<Rightarrow>
          if int (length items) > gu_maxItems use
             \<or> int (length items) > lim_maxRepeatItems (cx_limits ctx) then
            Inl (Fails (hostMessageFailure ''hostMessage.limit.exceeded''
              ''Repeating group exceeds its item limit''
              (ref\<lparr>hd_actual := Some (int (length items)), hd_groupId := Some (gu_id use),
                 hd_limit := Some (gu_maxItems use)\<rparr>)))
          else packGroupItems ctx use items
      | _ \<Rightarrow>
          Inl (Fails (hostMessageFailure ''hostMessage.field.validationFailed''
            ''Repeating group requires an item array'' (ref\<lparr>hd_groupId := Some (gu_id use)\<rparr>))))"

definition packUse :: "pack_context \<Rightarrow> field_use \<Rightarrow> byte list wire" where
  "packUse ctx fu =
     (case fu of
        GroupUse gu \<Rightarrow> packGroup ctx gu
      | FieldUse use \<Rightarrow>
          if su_presence use = Some Forbidden then Inr []
          else case map_of (px_fields ctx) (su_fieldId use) of
            None \<Rightarrow>
              if su_presence use = Some Optional \<or> su_presence use = Some OptionalTrailing then Inr []
              else Inl (packFailure (cx_reference ctx) ''hostMessage.field.missing''
                     ''Required field is missing'' (Some (su_fieldId use)))
          | Some val \<Rightarrow>
              (case rs_fieldsById (cx_resolved ctx) (su_fieldId use) of
                 None \<Rightarrow>
                   Inl (packFailure (cx_reference ctx) ''hostMessage.profile.invalid''
                     ''Field definition is missing'' (Some (su_fieldId use)))
               | Some field \<Rightarrow>
                   (case packWireField (cx_regexps ctx) field val (cx_fieldCodecs ctx) of
                      Inl (Fails f) \<Rightarrow>
                        Inl (Fails (addFailureDetails f (referenceDetails (cx_reference ctx))))
                    | Inl (Throws x) \<Rightarrow> Inl (Throws x)
                    | Inr bs \<Rightarrow> Inr bs)))"

fun packUses :: "pack_context \<Rightarrow> field_use list \<Rightarrow> byte list wire" where
  "packUses ctx [] = Inr []"
| "packUses ctx (u # us) =
     rbind (packUse ctx u) (\<lambda>bs. rbind (packUses ctx us) (\<lambda>rest. Inr (concatBytes [bs, rest])))"

definition fixed_pack :: "pack_context \<Rightarrow> packed_message wire" where
  "fixed_pack ctx =
     rbind (packUses ctx (md_fields (rs_message (cx_resolved ctx)))) (\<lambda>bs.
       if exceeds_limit ctx bs then
         Inl (packFailure (cx_reference ctx) ''hostMessage.limit.exceeded''
           ''Packed message exceeds its wire limit'' None)
       else Inr \<lparr>pm_reference = cx_reference ctx, pm_bytes = bs\<rparr>)"

section \<open>Unpacking\<close>

fun unpackItemFields ::
  "unpack_context \<Rightarrow> group_use \<Rightarrow> nat \<Rightarrow> field_set \<Rightarrow> nat \<Rightarrow> string list \<Rightarrow> field_set \<Rightarrow> byte_cursor
     \<Rightarrow> decoded wire + (field_set \<times> byte_cursor)" where
  "unpackItemFields ctx use fieldIndex output itemIndex [] item cur = Inr (item, cur)"
| "unpackItemFields ctx use fieldIndex output itemIndex (fid # fids) item cur =
     (case rs_fieldsById (cx_resolved ctx) fid of
        None \<Rightarrow>
          Inl (hardFailure (cx_reference ctx) ''hostMessage.profile.invalid''
            ''Repeating field is missing'' no_details)
      | Some field \<Rightarrow>
          (case unpackWireField (cx_regexps ctx) cur field (cx_fieldCodecs ctx) of
             (Inl (Fails f), cur') \<Rightarrow>
               Inl (decodeFailure ctx output
                 (addFailureDetails f
                   (no_details\<lparr>hd_groupId := Some (gu_id use), hd_itemFieldId := Some fid,
                      hd_itemIndex := Some itemIndex\<rparr>)) cur' fieldIndex)
           | (Inl (Throws x), cur') \<Rightarrow> Inl (Inl (Throws x))
           | (Inr v, cur') \<Rightarrow>
               unpackItemFields ctx use fieldIndex output itemIndex fids (put fid (Scalar v) item) cur'))"

text \<open>\<^term>\<open>n\<close> items are left to read; \<^term>\<open>items\<close> are the items read so far.\<close>

fun unpackItems ::
  "unpack_context \<Rightarrow> group_use \<Rightarrow> nat \<Rightarrow> field_set \<Rightarrow> nat \<Rightarrow> field_set list \<Rightarrow> byte_cursor
     \<Rightarrow> decoded wire + (field_set list \<times> byte_cursor)" where
  "unpackItems ctx use fieldIndex output 0 items cur = Inr (items, cur)"
| "unpackItems ctx use fieldIndex output (Suc n) items cur =
     rbind (unpackItemFields ctx use fieldIndex output (length items) (gu_itemFieldIds use) [] cur)
       (\<lambda>(item, cur'). unpackItems ctx use fieldIndex output n (items @ [item]) cur')"

text \<open>The padding of a fixed area, skipped without a look at its bytes.\<close>

definition skipArea ::
  "unpack_context \<Rightarrow> group_use \<Rightarrow> nat \<Rightarrow> field_set \<Rightarrow> nat \<Rightarrow> byte_cursor \<Rightarrow> decoded wire + byte_cursor"
where
  "skipArea ctx use fieldIndex output areaStart cur =
     (case gu_fixedAreaBytes use of
        None \<Rightarrow> Inr cur
      | Some area \<Rightarrow>
          (let padding = area - int (cursor_offset cur - areaStart);
               available = cursor_remaining cur in
           if padding < 0 then
             Inl (hardFailure (cx_reference ctx) ''hostMessage.limit.exceeded''
               ''Repeating area is exceeded'' no_details)
           else
             (case cursor_read padding cur of
                (Some _, cur') \<Rightarrow> Inr cur'
              | (None, cur') \<Rightarrow>
                  Inl (decodeFailure ctx output
                    (hostMessageFailure ''hostMessage.message.truncated''
                      ''Repeating fixed area is incomplete''
                      (no_details\<lparr>hd_byteOffset := Some (cursor_offset cur'),
                         hd_expectedBytes := Some padding, hd_groupId := Some (gu_id use),
                         hd_phase := Some ''repeatPadding'', hd_receivedBytes := Some available\<rparr>))
                    cur' fieldIndex))))"

text \<open>\<^verbatim>\<open>typeof value === "string" && /^\d+$/.test(value)\<close>\<close>

definition count_text :: "scalar \<Rightarrow> jstext option" where
  "count_text v = (case v of SText t \<Rightarrow> if some_digits t then Some t else None | SBytes _ \<Rightarrow> None)"

definition unpackGroup ::
  "unpack_context \<Rightarrow> group_use \<Rightarrow> byte_cursor \<Rightarrow> field_set \<Rightarrow> nat
     \<Rightarrow> decoded wire + (field_set \<times> byte_cursor)" where
  "unpackGroup ctx use cur output fieldIndex =
     (case rs_fieldsById (cx_resolved ctx) (gu_countFieldId use) of
        None \<Rightarrow>
          Inl (hardFailure (cx_reference ctx) ''hostMessage.profile.invalid''
            ''Count field is missing'' no_details)
      | Some countField \<Rightarrow>
          (case unpackWireField (cx_regexps ctx) cur countField (cx_fieldCodecs ctx) of
             (Inl (Fails f), cur1) \<Rightarrow>
               Inl (decodeFailure ctx output
                 (addFailureDetails f (no_details\<lparr>hd_groupId := Some (gu_id use)\<rparr>)) cur1 fieldIndex)
           | (Inl (Throws x), cur1) \<Rightarrow> Inl (Inl (Throws x))
           | (Inr v, cur1) \<Rightarrow>
               (case count_text v of
                  None \<Rightarrow>
                    Inl (decodeFailure ctx output
                      (hostMessageFailure ''hostMessage.field.validationFailed''
                        ''Repeating count is invalid''
                        (no_details\<lparr>hd_byteOffset := Some (cursor_offset cur),
                           hd_fieldId := Some (fd_id countField), hd_groupId := Some (gu_id use),
                           hd_phase := Some ''repeatCount''\<rparr>)) cur1 fieldIndex)
                | Some t \<Rightarrow>
                    (let countValue = parse_dec t in
                     if int countValue > gu_maxItems use
                        \<or> int countValue > lim_maxRepeatItems (cx_limits ctx) then
                       Inl (hardFailure (cx_reference ctx) ''hostMessage.limit.exceeded''
                         ''Repeating count exceeds its limit''
                         (no_details\<lparr>hd_actual := Some (int countValue),
                            hd_groupId := Some (gu_id use), hd_limit := Some (gu_maxItems use)\<rparr>))
                     else
                       (let output1 = put (gu_countFieldId use) (Scalar v) output in
                        rbind (unpackItems ctx use fieldIndex output1 countValue [] cur1)
                          (\<lambda>(items, cur2).
                        rbind (skipArea ctx use fieldIndex output1 (cursor_offset cur1) cur2)
                          (\<lambda>cur3.
                        Inr (put (gu_id use) (Items items) output1, cur3))))))))"

definition unpackUse ::
  "unpack_context \<Rightarrow> nat \<Rightarrow> field_use \<Rightarrow> field_set \<Rightarrow> byte_cursor
     \<Rightarrow> decoded wire + (field_set \<times> byte_cursor)" where
  "unpackUse ctx fieldIndex fu flds cur =
     (case fu of
        FieldUse use \<Rightarrow>
          if su_presence use = Some Forbidden then Inr (flds, cur)
          else if cursor_remaining cur = 0 \<and> su_presence use = Some OptionalTrailing then Inr (flds, cur)
          else
            (case rs_fieldsById (cx_resolved ctx) (su_fieldId use) of
               None \<Rightarrow>
                 Inl (hardFailure (cx_reference ctx) ''hostMessage.profile.invalid''
                   ''Field definition is missing'' no_details)
             | Some field \<Rightarrow>
                 (case unpackWireField (cx_regexps ctx) cur field (cx_fieldCodecs ctx) of
                    (Inl (Fails f), cur') \<Rightarrow> Inl (decodeFailure ctx flds f cur' fieldIndex)
                  | (Inl (Throws x), cur') \<Rightarrow> Inl (Inl (Throws x))
                  | (Inr v, cur') \<Rightarrow> Inr (put (su_fieldId use) (Scalar v) flds, cur')))
      | GroupUse use \<Rightarrow>
          if cursor_remaining cur = 0 \<and> gu_presence use = Some OptionalTrailing then Inr (flds, cur)
          else unpackGroup ctx use cur flds fieldIndex)"

fun unpackUses ::
  "unpack_context \<Rightarrow> nat \<Rightarrow> field_use list \<Rightarrow> field_set \<Rightarrow> byte_cursor
     \<Rightarrow> decoded wire + (field_set \<times> byte_cursor)" where
  "unpackUses ctx fieldIndex [] flds cur = Inr (flds, cur)"
| "unpackUses ctx fieldIndex (u # us) flds cur =
     rbind (unpackUse ctx fieldIndex u flds cur)
       (\<lambda>(flds', cur'). unpackUses ctx (Suc fieldIndex) us flds' cur')"

text \<open>The end of both codecs: nothing may be left of the message.\<close>

definition finishUnpack ::
  "unpack_context \<Rightarrow> string \<Rightarrow> field_set \<Rightarrow> byte_cursor \<Rightarrow> decoded wire" where
  "finishUnpack ctx msg flds cur =
     (if cursor_remaining cur \<noteq> 0 then
        hardFailure (cx_reference ctx) ''hostMessage.message.trailingBytes'' msg
          (no_details\<lparr>hd_actual := Some (int (cursor_remaining cur)),
             hd_byteOffset := Some (cursor_offset cur)\<rparr>)
      else Inr (Complete \<lparr>um_reference = cx_reference ctx, um_fields = flds,
             um_wireLength = length (ux_bytes ctx)\<rparr>))"

definition fixed_unpack :: "unpack_context \<Rightarrow> decoded wire" where
  "fixed_unpack ctx =
     (case unpackUses ctx 0 (md_fields (rs_message (cx_resolved ctx))) [] (new_cursor (ux_bytes ctx)) of
        Inl r \<Rightarrow> r
      | Inr (flds, cur) \<Rightarrow> finishUnpack ctx ''Message contains trailing bytes'' flds cur)"

end
