(* ===== verification/Host_Fixed_Laws.thy ===== *)
theory Host_Fixed_Laws
  imports Host_Fixed
begin

text \<open>
  What the fixed-field codec guarantees: the shape of every decode result, and that a packed
  message, repeating groups included, is unpacked to the fields it was packed from.
\<close>

section \<open>The shape of decode results\<close>

text \<open>
  A complete result reports the whole message; a partial one is returned only where partial
  results are allowed and the failure is one the service may recover from, and never reports
  more bytes consumed than received.
\<close>

definition decode_ok :: "unpack_context \<Rightarrow> decoded wire \<Rightarrow> bool" where
  "decode_ok ctx r =
     (case r of
        Inl _ \<Rightarrow> True
      | Inr (Complete m) \<Rightarrow>
          um_wireLength m = length (ux_bytes ctx) \<and> um_reference m = cx_reference ctx
      | Inr (Partial ref flds f consumed received) \<Rightarrow>
          ux_allowPartial ctx \<and> canReturnPartial f \<and> ref = cx_reference ctx
          \<and> consumed \<le> received \<and> received = length (ux_bytes ctx))"

definition cursor_in :: "unpack_context \<Rightarrow> byte_cursor \<Rightarrow> bool" where
  "cursor_in ctx cur \<longleftrightarrow> cursor_ok cur \<and> cur_source cur = ux_bytes ctx"

lemma cursor_in_new [simp]: "cursor_in ctx (new_cursor (ux_bytes ctx))"
  by (simp add: cursor_in_def) (simp add: new_cursor_def)

lemma cursor_in_offset: "cursor_in ctx cur \<Longrightarrow> cursor_offset cur \<le> length (ux_bytes ctx)"
  by (auto simp: cursor_in_def cursor_ok_def cursor_offset_def)

lemma cursor_in_read: "cursor_in ctx cur \<Longrightarrow> cursor_read n cur = (x, cur') \<Longrightarrow> cursor_in ctx cur'"
  using cursor_read_ok [of cur n] cursor_read_source [of n cur] by (simp add: cursor_in_def)

lemma cursor_in_unpack:
  "cursor_in ctx cur \<Longrightarrow> unpackWireField rx cur field codecs = (x, cur') \<Longrightarrow> cursor_in ctx cur'"
  using unpackWireField_cursor [of rx cur field codecs x cur'] by (auto simp: cursor_in_def)

lemma decode_ok_hard [simp]: "decode_ok ctx (hardFailure ref code msg d)"
  by (simp add: decode_ok_def hardFailure_def)

lemma decode_ok_throw [simp]: "decode_ok ctx (Inl f)"
  by (simp add: decode_ok_def)

lemma decode_ok_failure [simp]:
  "cursor_in ctx cur \<Longrightarrow> decode_ok ctx (decodeFailure ctx flds f cur i)"
  by (simp add: decode_ok_def decodeFailure_def Let_def cursor_in_offset)

text \<open>A loop's result is fine if an early return is, and its cursor stays in the message.\<close>

definition step_ok :: "unpack_context \<Rightarrow> decoded wire + ('a \<times> byte_cursor) \<Rightarrow> bool" where
  "step_ok ctx m = (case m of Inl r \<Rightarrow> decode_ok ctx r | Inr (x, cur) \<Rightarrow> cursor_in ctx cur)"

lemma step_ok_simps [simp]:
  "step_ok ctx (Inl r) = decode_ok ctx r" "step_ok ctx (Inr (x, cur)) = cursor_in ctx cur"
  by (simp_all add: step_ok_def)

lemma step_ok_rbind:
  "step_ok ctx m \<Longrightarrow> (\<And>x cur. m = Inr (x, cur) \<Longrightarrow> cursor_in ctx cur \<Longrightarrow> step_ok ctx (f (x, cur)))
   \<Longrightarrow> step_ok ctx (rbind m f)"
  by (cases m) auto

lemma unpackItemFields_ok:
  "cursor_in ctx cur \<Longrightarrow> step_ok ctx (unpackItemFields ctx use fi out i fids item cur)"
  by (induction ctx use fi out i fids item cur rule: unpackItemFields.induct)
    (auto split: option.splits prod.splits sum.splits fault.splits dest: cursor_in_unpack)

lemma unpackItems_ok:
  "cursor_in ctx cur \<Longrightarrow> step_ok ctx (unpackItems ctx use fi out n items cur)"
  by (induction ctx use fi out n items cur rule: unpackItems.induct)
    (auto intro!: step_ok_rbind unpackItemFields_ok)

lemma skipArea_ok:
  assumes "cursor_in ctx cur"
  shows "case skipArea ctx use fi out st cur of Inl r \<Rightarrow> decode_ok ctx r | Inr cur' \<Rightarrow> cursor_in ctx cur'"
  using assms by (auto simp: skipArea_def Let_def split: option.splits prod.splits dest: cursor_in_read)

lemma unpackGroup_ok:
  assumes "cursor_in ctx cur"
  shows "step_ok ctx (unpackGroup ctx use cur out fi)"
proof -
  have area: "step_ok ctx (rbind (skipArea ctx use fi o1 st c) (\<lambda>c'. Inr (x, c')))"
    if "cursor_in ctx c" for o1 st c and x :: field_set
    using skipArea_ok [OF that, of use fi o1 st] by (cases "skipArea ctx use fi o1 st c") auto
  show ?thesis
    using assms
    by (auto simp: unpackGroup_def Let_def split: option.splits prod.splits sum.splits fault.splits
        intro!: step_ok_rbind unpackItems_ok area dest: cursor_in_unpack)
qed

lemma unpackUse_ok: "cursor_in ctx cur \<Longrightarrow> step_ok ctx (unpackUse ctx fi fu flds cur)"
  by (auto simp: unpackUse_def unpackGroup_ok
      split: field_use.splits option.splits prod.splits sum.splits fault.splits
      dest: cursor_in_unpack)

lemma unpackUses_ok: "cursor_in ctx cur \<Longrightarrow> step_ok ctx (unpackUses ctx fi us flds cur)"
  by (induction ctx fi us flds cur rule: unpackUses.induct)
    (auto intro!: step_ok_rbind unpackUse_ok)

lemma finishUnpack_ok: "decode_ok ctx (finishUnpack ctx msg flds cur)"
  by (simp add: finishUnpack_def) (simp add: decode_ok_def)

lemma fixed_unpack_ok: "decode_ok ctx (fixed_unpack ctx)"
  using unpackUses_ok [of ctx "new_cursor (ux_bytes ctx)" 0 "md_fields (rs_message (cx_resolved ctx))" "[]"]
  by (auto simp: fixed_unpack_def finishUnpack_ok split: sum.splits)

section \<open>The items of a repeating group\<close>

text \<open>The fields of one item, as the item layout names them.\<close>

fun item_entries ::
  "(string \<rightharpoonup> field_definition) \<Rightarrow> field_set \<Rightarrow> (string \<times> field_definition \<times> scalar) list option" where
  "item_entries fdefs [] = Some []"
| "item_entries fdefs ((fid, val) # rest) =
     (case (fdefs fid, val, item_entries fdefs rest) of
        (Some field, Scalar v, Some es) \<Rightarrow> Some ((fid, field, v) # es)
      | _ \<Rightarrow> None)"

definition item_ok ::
  "(string \<rightharpoonup> field_definition) \<Rightarrow> field_codecs \<Rightarrow> string list \<Rightarrow> field_set \<Rightarrow> bool" where
  "item_ok fdefs codecs fids item \<longleftrightarrow>
     map fst item = fids \<and> distinct fids \<and>
     (case item_entries fdefs item of
        None \<Rightarrow> False
      | Some es \<Rightarrow> list_all (\<lambda>(fid, field, v). wire_faithful field v codecs) es)"

lemma item_entries_maps:
  "item_entries fdefs item = Some es \<Longrightarrow>
   item = map (\<lambda>(fid, field, v). (fid, Scalar v)) es \<and> (\<forall>(fid, field, v) \<in> set es. fdefs fid = Some field)"
  by (induction fdefs item arbitrary: es rule: item_entries.induct)
    (auto split: option.splits field_value.splits)

abbreviation wire_pack :: "'a codec_context_scheme \<Rightarrow> field_definition \<Rightarrow> scalar \<Rightarrow> byte list wire" where
  "wire_pack ctx \<equiv> \<lambda>field v. packWireField (cx_regexps ctx) field (Scalar v) (cx_fieldCodecs ctx)"

abbreviation wire_unpack ::
  "'a codec_context_scheme \<Rightarrow> field_definition \<Rightarrow> byte_cursor \<Rightarrow> scalar wire \<times> byte_cursor" where
  "wire_unpack ctx \<equiv> \<lambda>field cur. unpackWireField (cx_regexps ctx) cur field (cx_fieldCodecs ctx)"

text \<open>Where every field of an item is defined, its loops are the interface's.\<close>

lemma packItemFields_write:
  assumes "packItemFields ctx use i item (map fst es) = Inr bs"
    and "\<forall>(fid, field, v) \<in> set es.
      rs_fieldsById (cx_resolved ctx) fid = Some field \<and> map_of item fid = Some (Scalar v)"
  shows "write_fields (wire_pack ctx) es = Inr bs"
  using assms
  by (induction es arbitrary: bs)
    (auto simp: res_simps concatBytes_def split: sum.splits fault.splits)

lemma read_unpackItemFields:
  assumes "read_fields (wire_unpack ctx) (map (\<lambda>(fid, field, v). (fid, field)) es) acc cur
      = Inr (acc', cur')"
    and "\<forall>(fid, field, v) \<in> set es. rs_fieldsById (cx_resolved ctx) fid = Some field"
  shows "unpackItemFields ctx use fi out i (map fst es) (map (\<lambda>(k, v). (k, Scalar v)) acc) cur
      = Inr (map (\<lambda>(k, v). (k, Scalar v)) acc', cur')"
  using assms
proof (induction es arbitrary: acc cur)
  case (Cons e es)
  have put: "put k (Scalar v) (map (\<lambda>(k, v). (k, Scalar v)) a) = map (\<lambda>(k, v). (k, Scalar v)) (put k v a)"
    for k v and a :: "(string \<times> scalar) list"
    by (induction a) auto
  show ?case using Cons by (auto simp: put split: prod.splits sum.splits)
qed simp

lemma unpack_packItemFields:
  assumes pack: "packItemFields ctx use i item fids = Inr bs"
    and ok: "item_ok (rs_fieldsById (cx_resolved ctx)) (cx_fieldCodecs ctx) fids item"
    and cur: "cursor_ok cur" "cursor_rest cur = bs @ rest"
    and same: "cx_resolved uctx = cx_resolved ctx" "cx_regexps uctx = cx_regexps ctx"
      "cx_fieldCodecs uctx = cx_fieldCodecs ctx"
  shows "\<exists>cur'. unpackItemFields uctx use' fi out i' fids [] cur = Inr (item, cur')
    \<and> cursor_ok cur' \<and> cursor_rest cur' = rest"
proof -
  obtain es where es: "item_entries (rs_fieldsById (cx_resolved ctx)) item = Some es"
    and good: "\<forall>(fid, field, v) \<in> set es. wire_faithful field v (cx_fieldCodecs ctx)"
    and fids: "map fst item = fids" "distinct fids"
    using ok by (auto simp: item_ok_def list_all_iff split: option.splits)
  note m = item_entries_maps [OF es]
  then have keys: "map fst es = fids" using fids(1) by (auto simp: comp_def case_prod_beta)
  have look: "\<forall>(fid, field, v) \<in> set es.
      rs_fieldsById (cx_resolved ctx) fid = Some field \<and> map_of item fid = Some (Scalar v)"
  proof clarify
    fix fid field v assume e: "(fid, field, v) \<in> set es"
    then have "(fid, Scalar v) \<in> set item" using m by force
    then show "rs_fieldsById (cx_resolved ctx) fid = Some field \<and> map_of item fid = Some (Scalar v)"
      using m e fids by (auto intro: map_of_is_SomeI)
  qed
  have "write_fields (wire_pack ctx) es = Inr bs"
    using packItemFields_write [OF _ look] pack keys by simp
  then obtain cur' where rd: "read_fields (wire_unpack ctx) (map (\<lambda>(k, f, v). (k, f)) es) [] cur
      = Inr (map (\<lambda>(k, f, v). (k, v)) es, cur')" and c': "cursor_ok cur'" "cursor_rest cur' = rest"
    using wire.read_write_fields [OF _ good cur, where acc = "[]"] keys fids(2) by auto
  have "unpackItemFields uctx use' fi out i' (map fst es) [] cur
      = Inr (map (\<lambda>(k, v). (k, Scalar v)) (map (\<lambda>(k, f, v). (k, v)) es), cur')"
    using read_unpackItemFields [of uctx es "[]" cur "map (\<lambda>(k, f, v). (k, v)) es" cur'] rd m same
    by simp
  then show ?thesis using c' m keys by (auto simp: comp_def case_prod_beta)
qed

section \<open>Repeating groups\<close>

definition same_service :: "pack_context \<Rightarrow> unpack_context \<Rightarrow> bool" where
  "same_service ctx uctx \<longleftrightarrow>
     cx_resolved uctx = cx_resolved ctx \<and> cx_reference uctx = cx_reference ctx \<and>
     cx_fieldCodecs uctx = cx_fieldCodecs ctx \<and> cx_limits uctx = cx_limits ctx \<and>
     cx_regexps uctx = cx_regexps ctx"

lemma cursor_in_position:
  "cursor_in ctx cur \<Longrightarrow> cursor_rest cur = r \<Longrightarrow> cur_position cur + length r = length (ux_bytes ctx)"
  by (auto simp: cursor_in_def cursor_ok_def cursor_rest_def)

lemma cursor_in_ok: "cursor_in ctx cur \<Longrightarrow> cursor_ok cur"
  by (simp add: cursor_in_def)

lemma unpack_packItems:
  assumes "packItems ctx use i items = Inr bs"
    and "\<forall>item \<in> set items.
      item_ok (rs_fieldsById (cx_resolved ctx)) (cx_fieldCodecs ctx) (gu_itemFieldIds use) item"
    and "cursor_in uctx cur" and "cursor_rest cur = bs @ rest" and "same_service ctx uctx"
  shows "\<exists>cur'. unpackItems uctx use fi out (length items) acc cur = Inr (acc @ items, cur')
    \<and> cursor_in uctx cur' \<and> cursor_rest cur' = rest"
  using assms
proof (induction items arbitrary: i bs acc cur)
  case (Cons item items)
  obtain b1 b2 where b1: "packItemFields ctx use i item (gu_itemFieldIds use) = Inr b1"
    and b2: "packItems ctx use (Suc i) items = Inr b2" and bs: "bs = b1 @ b2"
    using Cons.prems(1) by (auto simp: res_simps concatBytes_def)
  have "cursor_rest cur = b1 @ b2 @ rest" using Cons.prems(4) bs by simp
  then obtain c1 where u1: "unpackItemFields uctx use fi out (length acc) (gu_itemFieldIds use) [] cur
      = Inr (item, c1)" and r1: "cursor_rest c1 = b2 @ rest"
    using unpack_packItemFields [OF b1 _ cursor_in_ok [OF Cons.prems(3)], of "b2 @ rest" uctx]
      Cons.prems(2,5) by (fastforce simp: same_service_def)
  have "cursor_in uctx c1"
    using unpackItemFields_ok [OF Cons.prems(3), of use fi out "length acc" "gu_itemFieldIds use" "[]"] u1
    by simp
  then show ?case
    using Cons.IH [OF b2 _ _ r1 Cons.prems(5), of "acc @ [item]"] Cons.prems(2) u1 by simp
qed simp

lemma skip_packArea:
  assumes "packArea ctx use itemBytes = Inr bs"
    and "cursor_in uctx c1" and "cursor_rest c1 = bs @ rest"
  shows "\<exists>pad. bs = itemBytes @ pad \<and>
    (\<forall>c2. cursor_in uctx c2 \<longrightarrow> cursor_rest c2 = pad @ rest \<longrightarrow>
      (\<exists>c3. skipArea uctx use fi out (cursor_offset c1) c2 = Inr c3
        \<and> cursor_in uctx c3 \<and> cursor_rest c3 = rest))"
proof (cases "gu_fixedAreaBytes use")
  case None
  with assms(1) show ?thesis by (simp add: packArea_def skipArea_def)
next
  case (Some area)
  define pad where "pad = (replicate (nat (area - int (length itemBytes)))
    (word_of_int (case gu_padByte use of None \<Rightarrow> 32 | Some b \<Rightarrow> b)) :: byte list)"
  have bs: "bs = itemBytes @ pad" and le: "int (length itemBytes) \<le> area"
    using assms(1) Some by (auto simp: packArea_def concatBytes_def pad_def split: if_splits)
  have "\<exists>c3. skipArea uctx use fi out (cursor_offset c1) c2 = Inr c3
      \<and> cursor_in uctx c3 \<and> cursor_rest c3 = rest"
    if c2: "cursor_in uctx c2" "cursor_rest c2 = pad @ rest" for c2
  proof -
    have consumed: "cursor_offset c2 - cursor_offset c1 = length itemBytes"
      using cursor_in_position [OF assms(2,3)] cursor_in_position [OF c2] bs
      by (simp add: cursor_offset_def)
    have n: "area - int (length itemBytes) = int (length pad)"
      using le by (simp add: pad_def)
    obtain c3 where c3: "cursor_read (int (length pad)) c2 = (Some pad, c3)" "cursor_rest c3 = rest"
      using cursor_read_append [OF cursor_in_ok [OF c2(1)] c2(2) refl] by blast
    then show ?thesis
      using Some consumed n cursor_in_read [OF c2(1) c3(1)] by (simp add: skipArea_def Let_def)
  qed
  with bs show ?thesis by blast
qed

text \<open>
  The text a count field reads back: a fixed-width field padded with zeros keeps them, and
  still stands for the same number.
\<close>

definition count_form :: "field_definition \<Rightarrow> nat \<Rightarrow> jstext" where
  "count_form field n =
     (case fd_length field of Fixed w \<Rightarrow> pad_start (nat w) 48 (dec_text n) | Var _ _ _ _ \<Rightarrow> dec_text n)"

definition count_ok :: "regexps \<Rightarrow> field_codecs \<Rightarrow> field_definition \<Rightarrow> nat \<Rightarrow> bool" where
  "count_ok rx codecs field n \<longleftrightarrow>
     packWireField rx field (Scalar (SText (count_form field n))) codecs
       = packWireField rx field (Scalar (SText (dec_text n))) codecs \<and>
     wire_faithful field (SText (count_form field n)) codecs"

lemma count_text_form [simp]: "count_text (SText (count_form field n)) = Some (count_form field n)"
proof -
  have "list_all is_digit (count_form field n)" and "count_form field n \<noteq> []"
    using all_digits_padded [of _ n] all_digits_dec_text [of n]
    by (auto simp: count_form_def all_digits_def pad_start_def split: field_length.splits)
  then show ?thesis by (simp add: count_text_def some_digits_def)
qed

lemma parse_count_form [simp]: "parse_dec (count_form field n) = n"
  by (simp add: count_form_def split: field_length.splits)

definition group_ok :: "pack_context \<Rightarrow> group_use \<Rightarrow> field_set list \<Rightarrow> bool" where
  "group_ok ctx use items \<longleftrightarrow>
     (case rs_fieldsById (cx_resolved ctx) (gu_countFieldId use) of
        None \<Rightarrow> False
      | Some cf \<Rightarrow> count_ok (cx_regexps ctx) (cx_fieldCodecs ctx) cf (length items)) \<and>
     list_all (item_ok (rs_fieldsById (cx_resolved ctx)) (cx_fieldCodecs ctx) (gu_itemFieldIds use)) items"

text \<open>What the reader reports for a group: its count as it stands on the wire, and its items.\<close>

definition group_entries :: "pack_context \<Rightarrow> group_use \<Rightarrow> field_set list \<Rightarrow> field_set" where
  "group_entries ctx use items =
     (case rs_fieldsById (cx_resolved ctx) (gu_countFieldId use) of
        None \<Rightarrow> []
      | Some cf \<Rightarrow>
          [(gu_countFieldId use, Scalar (SText (count_form cf (length items)))),
           (gu_id use, Items items)])"

definition put_all :: "field_set \<Rightarrow> field_set \<Rightarrow> field_set" where
  "put_all es out = fold (\<lambda>(k, v). put k v) es out"

lemma packGroupItems_parts:
  assumes p: "packGroupItems ctx use items = Inr bs"
    and cf: "rs_fieldsById (cx_resolved ctx) (gu_countFieldId use) = Some cf"
    and cnt: "packWireField (cx_regexps ctx) cf (Scalar (SText (dec_text (length items))))
      (cx_fieldCodecs ctx) = cr"
  shows "\<exists>cb ib ab. cr = Inr cb \<and> packItems ctx use 0 items = Inr ib
    \<and> packArea ctx use ib = Inr ab \<and> bs = cb @ ab"
proof -
  note eq = p [unfolded packGroupItems_def Let_def cf cnt option.case]
  show ?thesis
  proof (cases cr)
    case (Inl e)
    with eq show ?thesis by (cases e) auto
  next
    case (Inr cb)
    with eq show ?thesis by (auto simp: res_simps concatBytes_def)
  qed
qed

lemma packGroup_parts:
  assumes "packGroup ctx use = Inr bs" and "map_of (px_fields ctx) (gu_id use) = Some (Items items)"
  obtains cf cb ib ab where
    "rs_fieldsById (cx_resolved ctx) (gu_countFieldId use) = Some cf"
    "int (length items) \<le> gu_maxItems use" "int (length items) \<le> lim_maxRepeatItems (cx_limits ctx)"
    "wire_pack ctx cf (SText (dec_text (length items))) = Inr cb"
    "packItems ctx use 0 items = Inr ib" "packArea ctx use ib = Inr ab" "bs = cb @ ab"
proof -
  have lim: "int (length items) \<le> gu_maxItems use" "int (length items) \<le> lim_maxRepeatItems (cx_limits ctx)"
    and p: "packGroupItems ctx use items = Inr bs"
    using assms by (simp_all add: packGroup_def split: if_splits)
  obtain cf where cf: "rs_fieldsById (cx_resolved ctx) (gu_countFieldId use) = Some cf"
    using p by (cases "rs_fieldsById (cx_resolved ctx) (gu_countFieldId use)")
      (simp_all add: packGroupItems_def)
  show thesis
    using packGroupItems_parts [OF p cf refl] that [OF cf lim] by blast
qed

lemma unpack_packGroup:
  assumes pack: "packGroup ctx use = Inr bs"
    and items: "map_of (px_fields ctx) (gu_id use) = Some (Items items)" and ok: "group_ok ctx use items"
    and cur: "cursor_in uctx cur" "cursor_rest cur = bs @ rest" and same: "same_service ctx uctx"
  shows "\<exists>cur'. unpackGroup uctx use cur out fi = Inr (put_all (group_entries ctx use items) out, cur')
    \<and> cursor_in uctx cur' \<and> cursor_rest cur' = rest"
proof -
  obtain cf cb ib ab where cf: "rs_fieldsById (cx_resolved ctx) (gu_countFieldId use) = Some cf"
    and lim: "int (length items) \<le> gu_maxItems use" "int (length items) \<le> lim_maxRepeatItems (cx_limits ctx)"
    and cb: "wire_pack ctx cf (SText (dec_text (length items))) = Inr cb"
    and ib: "packItems ctx use 0 items = Inr ib" and ab: "packArea ctx use ib = Inr ab"
    and bs: "bs = cb @ ab"
    using packGroup_parts [OF pack items] .
  let ?form = "count_form cf (length items)"
  let ?out1 = "put (gu_countFieldId use) (Scalar (SText ?form)) out"
  have form: "wire_pack ctx cf (SText ?form) = Inr cb"
    and fa: "wire_faithful cf (SText ?form) (cx_fieldCodecs ctx)"
    using ok cf cb by (auto simp: group_ok_def count_ok_def)
  have "cursor_rest cur = cb @ ab @ rest" using cur(2) bs by simp
  then obtain c1 where "unpackWireField (cx_regexps ctx) cur cf (cx_fieldCodecs ctx)
      = (Inr (SText ?form), c1)" and r1: "cursor_rest c1 = ab @ rest"
    using unpack_packWireField [OF form fa cursor_in_ok [OF cur(1)]] by blast
  then have u1: "wire_unpack uctx cf cur = (Inr (SText ?form), c1)"
    using same by (simp add: same_service_def)
  have in1: "cursor_in uctx c1" using cursor_in_unpack [OF cur(1) u1] .
  obtain pad where pad: "ab = ib @ pad"
    and skip: "\<And>c2. cursor_in uctx c2 \<Longrightarrow> cursor_rest c2 = pad @ rest \<Longrightarrow>
      \<exists>c3. skipArea uctx use fi ?out1 (cursor_offset c1) c2 = Inr c3
        \<and> cursor_in uctx c3 \<and> cursor_rest c3 = rest"
    using skip_packArea [OF ab in1 r1] by metis
  obtain c2 where u2: "unpackItems uctx use fi ?out1 (length items) [] c1 = Inr (items, c2)"
    and c2: "cursor_in uctx c2" "cursor_rest c2 = pad @ rest"
    using unpack_packItems [OF ib _ in1 _ same, of "pad @ rest" fi ?out1 "[]"] ok r1 pad
    by (auto simp: group_ok_def list_all_iff)
  obtain c3 where "skipArea uctx use fi ?out1 (cursor_offset c1) c2 = Inr c3"
    "cursor_in uctx c3" "cursor_rest c3 = rest"
    using skip [OF c2] by blast
  then show ?thesis
    using u1 u2 cf lim same
    by (simp add: unpackGroup_def group_entries_def put_all_def same_service_def)
qed

section \<open>Whole messages\<close>

text \<open>
  The fields a use contributes to the result, when it is present, and when it may be missing:
  the reader skips an absent use only at the end of the message.
\<close>

definition use_value :: "pack_context \<Rightarrow> field_use \<Rightarrow> field_value option" where
  "use_value ctx u =
     (case u of
        FieldUse use \<Rightarrow>
          if su_presence use = Some Forbidden then None else map_of (px_fields ctx) (su_fieldId use)
      | GroupUse use \<Rightarrow> map_of (px_fields ctx) (gu_id use))"

definition use_entries :: "pack_context \<Rightarrow> field_use \<Rightarrow> field_set" where
  "use_entries ctx u =
     (case (u, use_value ctx u) of
        (FieldUse use, Some val) \<Rightarrow> [(su_fieldId use, val)]
      | (GroupUse use, Some (Items items)) \<Rightarrow> group_entries ctx use items
      | _ \<Rightarrow> [])"

definition use_trailing :: "field_use \<Rightarrow> bool" where
  "use_trailing u =
     (case u of
        FieldUse use \<Rightarrow> su_presence use = Some OptionalTrailing
      | GroupUse use \<Rightarrow> gu_presence use = Some OptionalTrailing)"

definition use_forbidden :: "field_use \<Rightarrow> bool" where
  "use_forbidden u = (case u of FieldUse use \<Rightarrow> su_presence use = Some Forbidden | GroupUse _ \<Rightarrow> False)"

definition use_present :: "pack_context \<Rightarrow> field_use \<Rightarrow> bool" where
  "use_present ctx u \<longleftrightarrow>
     use_forbidden u \<or>
     (case (u, use_value ctx u) of
        (FieldUse use, Some (Scalar v)) \<Rightarrow>
          (case rs_fieldsById (cx_resolved ctx) (su_fieldId use) of
             None \<Rightarrow> False
           | Some field \<Rightarrow> wire_faithful field v (cx_fieldCodecs ctx))
      | (GroupUse use, Some (Items items)) \<Rightarrow> group_ok ctx use items
      | _ \<Rightarrow> False) \<and> (use_trailing u \<longrightarrow> (case packUse ctx u of Inr bs \<Rightarrow> bs \<noteq> [] | Inl _ \<Rightarrow> True))"

definition use_absent :: "pack_context \<Rightarrow> field_use \<Rightarrow> bool" where
  "use_absent ctx u \<longleftrightarrow> use_forbidden u \<or> use_trailing u \<and> use_value ctx u = None"

fun layout_ok :: "pack_context \<Rightarrow> field_use list \<Rightarrow> bool" where
  "layout_ok ctx [] \<longleftrightarrow> True"
| "layout_ok ctx (u # us) \<longleftrightarrow>
     (if use_present ctx u then layout_ok ctx us else list_all (use_absent ctx) (u # us))"

lemma use_absent_pack: "use_absent ctx u \<Longrightarrow> packUse ctx u = Inr [] \<and> use_entries ctx u = []"
  by (auto simp: use_absent_def use_forbidden_def use_trailing_def packUse_def packGroup_def
      use_value_def use_entries_def split: field_use.splits if_splits)

lemma use_absent_unpack:
  "use_absent ctx u \<Longrightarrow> cursor_rest cur = [] \<Longrightarrow> unpackUse uctx fi u out cur = Inr (out, cur)"
  by (auto simp: use_absent_def use_forbidden_def use_trailing_def unpackUse_def cursor_remaining_def
      cursor_rest_def split: field_use.splits)

lemma unpack_absent:
  "list_all (use_absent ctx) us \<Longrightarrow> cursor_rest cur = [] \<Longrightarrow>
   packUses ctx us = Inr [] \<and> unpackUses uctx fi us out cur = Inr (out, cur)
     \<and> concat (map (use_entries ctx) us) = []"
  by (induction us arbitrary: fi)
    (auto simp: use_absent_pack use_absent_unpack concatBytes_def)

lemma put_all_append: "put_all (es @ es') out = put_all es' (put_all es out)"
  by (simp add: put_all_def)

lemma put_all_distinct:
  "distinct (map fst es) \<Longrightarrow> fst ` set es \<inter> fst ` set out = {} \<Longrightarrow> put_all es out = out @ es"
proof (induction es arbitrary: out)
  case (Cons e es)
  obtain k v where e: "e = (k, v)" by (cases e)
  have "put k v out = out @ [(k, v)]" using Cons.prems by (intro put_new) (auto simp: e)
  then have "put_all (e # es) out = put_all es (out @ [(k, v)])" by (simp add: put_all_def e)
  also have "\<dots> = (out @ [(k, v)]) @ es"
    using Cons.prems by (intro Cons.IH) (auto simp: e rev_image_eqI)
  finally show ?case by (simp add: e)
qed (simp add: put_all_def)

lemma cursor_in_more:
  "cursor_in ctx cur \<Longrightarrow> cursor_rest cur = bs @ rest \<Longrightarrow> bs \<noteq> [] \<Longrightarrow> cursor_remaining cur \<noteq> 0"
  by (auto simp: cursor_in_def cursor_remaining_def cursor_rest_def)

lemma unpack_packScalar:
  assumes pack: "packUse ctx (FieldUse use) = Inr bs" and present: "use_present ctx (FieldUse use)"
    and allowed: "su_presence use \<noteq> Some Forbidden"
    and cur: "cursor_in uctx cur" "cursor_rest cur = bs @ rest" and same: "same_service ctx uctx"
  shows "\<exists>cur'. unpackUse uctx fi (FieldUse use) out cur
      = Inr (put_all (use_entries ctx (FieldUse use)) out, cur')
    \<and> cursor_in uctx cur' \<and> cursor_rest cur' = rest"
proof -
  obtain v field where v: "map_of (px_fields ctx) (su_fieldId use) = Some (Scalar v)"
    and field: "rs_fieldsById (cx_resolved ctx) (su_fieldId use) = Some field"
    and faithful: "wire_faithful field v (cx_fieldCodecs ctx)"
    and nonempty: "su_presence use = Some OptionalTrailing \<longrightarrow> bs \<noteq> []"
    using present allowed pack
    by (auto simp: use_present_def use_forbidden_def use_value_def use_trailing_def
        split: option.splits field_value.splits if_splits)
  have "wire_pack ctx field v = Inr bs"
    using pack allowed v field by (simp add: packUse_def split: sum.splits fault.splits)
  then obtain c1 where "unpackWireField (cx_regexps ctx) cur field (cx_fieldCodecs ctx) = (Inr v, c1)"
    and rest: "cursor_rest c1 = rest"
    using unpack_packWireField [OF _ faithful cursor_in_ok [OF cur(1)] cur(2)] by blast
  then have u1: "wire_unpack uctx field cur = (Inr v, c1)"
    using same by (simp add: same_service_def)
  have "(cursor_remaining cur = 0 \<and> su_presence use = Some OptionalTrailing) \<longleftrightarrow> False"
    using nonempty cursor_in_more [OF cur] by blast
  then show ?thesis
    using u1 rest allowed v field same cursor_in_unpack [OF cur(1) u1]
    by (simp only: unpackUse_def field_use.case if_False)
      (simp add: use_entries_def use_value_def put_all_def same_service_def)
qed

lemma unpack_packUse:
  assumes pack: "packUse ctx u = Inr bs" and present: "use_present ctx u"
    and cur: "cursor_in uctx cur" "cursor_rest cur = bs @ rest" and same: "same_service ctx uctx"
  shows "\<exists>cur'. unpackUse uctx fi u out cur = Inr (put_all (use_entries ctx u) out, cur')
    \<and> cursor_in uctx cur' \<and> cursor_rest cur' = rest"
proof (cases u)
  case (FieldUse use)
  show ?thesis
  proof (cases "su_presence use = Some Forbidden")
    case True
    with pack cur show ?thesis
      by (simp add: FieldUse packUse_def unpackUse_def use_entries_def use_value_def put_all_def)
  next
    case False
    with unpack_packScalar [of ctx use bs uctx cur rest fi out] assms show ?thesis
      by (simp add: FieldUse)
  qed
next
  case (GroupUse use)
  obtain items where items: "map_of (px_fields ctx) (gu_id use) = Some (Items items)"
    and ok: "group_ok ctx use items" and nonempty: "gu_presence use = Some OptionalTrailing \<longrightarrow> bs \<noteq> []"
    using present pack
    by (auto simp: GroupUse use_present_def use_forbidden_def use_value_def use_trailing_def
        split: option.splits field_value.splits)
  have "packGroup ctx use = Inr bs" using pack by (simp add: GroupUse packUse_def)
  then have "\<exists>cur'. unpackGroup uctx use cur out fi = Inr (put_all (group_entries ctx use items) out, cur')
      \<and> cursor_in uctx cur' \<and> cursor_rest cur' = rest"
    using unpack_packGroup [OF _ items ok cur same] by blast
  moreover have "(cursor_remaining cur = 0 \<and> gu_presence use = Some OptionalTrailing) \<longleftrightarrow> False"
    using nonempty cursor_in_more [OF cur] by blast
  ultimately show ?thesis
    using items by (simp only: GroupUse unpackUse_def field_use.case if_False)
      (simp add: use_entries_def use_value_def)
qed

lemma unpack_packUses:
  assumes "packUses ctx us = Inr bs" and "layout_ok ctx us"
    and "cursor_in uctx cur" and "cursor_rest cur = bs" and "same_service ctx uctx"
  shows "\<exists>cur'. unpackUses uctx fi us out cur
      = Inr (put_all (concat (map (use_entries ctx) us)) out, cur')
    \<and> cursor_in uctx cur' \<and> cursor_rest cur' = []"
  using assms
proof (induction us arbitrary: bs cur fi out)
  case Nil
  then show ?case by (simp add: put_all_def)
next
  case (Cons u us)
  show ?case
  proof (cases "use_present ctx u")
    case True
    obtain b1 b2 where b1: "packUse ctx u = Inr b1" and b2: "packUses ctx us = Inr b2"
      and bs: "bs = b1 @ b2"
      using Cons.prems(1) by (auto simp: res_simps concatBytes_def)
    obtain c1 where "unpackUse uctx fi u out cur = Inr (put_all (use_entries ctx u) out, c1)"
      and "cursor_in uctx c1" and "cursor_rest c1 = b2"
      using unpack_packUse [OF b1 True Cons.prems(3) _ Cons.prems(5)] Cons.prems(4) bs by blast
    then show ?thesis
      using Cons.IH [OF b2 _ _ _ Cons.prems(5)] True Cons.prems(2) by (simp add: put_all_append)
  next
    case False
    then have absent: "list_all (use_absent ctx) (u # us)" using Cons.prems(2) by simp
    then have "bs = []" using unpack_absent [OF absent, of "new_cursor []"] Cons.prems(1)
      by (simp add: new_cursor_def cursor_rest_def)
    then have "unpackUses uctx fi (u # us) out cur = Inr (out, cur)"
      and "concat (map (use_entries ctx) (u # us)) = []"
      using unpack_absent [OF absent, of cur] Cons.prems(4) by blast+
    then show ?thesis
      using \<open>bs = []\<close> Cons.prems(3,4) by (simp only: put_all_def fold_simps id_apply) simp
  qed
qed

lemma fixed_unpack_pack:
  assumes pack: "fixed_pack ctx = Inr m"
    and ok: "layout_ok ctx (md_fields (rs_message (cx_resolved ctx)))"
    and keys: "distinct (map fst (concat (map (use_entries ctx) (md_fields (rs_message (cx_resolved ctx))))))"
    and same: "same_service ctx uctx" and bytes: "ux_bytes uctx = pm_bytes m"
  shows "fixed_unpack uctx = Inr (Complete \<lparr>um_reference = cx_reference ctx,
    um_fields = concat (map (use_entries ctx) (md_fields (rs_message (cx_resolved ctx)))),
    um_wireLength = length (pm_bytes m)\<rparr>)"
proof -
  let ?us = "md_fields (rs_message (cx_resolved ctx))"
  have "packUses ctx ?us = Inr (pm_bytes m)"
    using pack by (auto simp: fixed_pack_def res_simps split: if_splits)
  then obtain cur where u: "unpackUses uctx 0 ?us [] (new_cursor (pm_bytes m))
      = Inr (put_all (concat (map (use_entries ctx) ?us)) [], cur)"
    and "cursor_in uctx cur" "cursor_rest cur = []"
    using unpack_packUses [OF _ ok _ _ same, of "pm_bytes m" "new_cursor (pm_bytes m)" 0 "[]"]
      cursor_in_new [of uctx] bytes by auto
  then have "cursor_remaining cur = 0"
    by (auto simp: cursor_remaining_def cursor_rest_def)
  then show ?thesis
    using u same bytes put_all_distinct [OF keys, of "[]"]
    by (simp add: fixed_unpack_def finishUnpack_def same_service_def)
qed

end
