(* ===== verification/Host_Iso.thy ===== *)
theory Host_Iso
  imports Host_Fixed_Laws
begin

unbundle bit_operations_syntax

text \<open>
  \<^verbatim>\<open>packages/host-message/src/iso8583-codec.ts\<close>: an ISO 8583 message is its type (MTI), a
  primary and perhaps a secondary bitmap of the data elements present, and these elements in
  ascending order. Its private helpers for failures and for the wire limit are those of the
  fixed-field codec, but for an empty field identifier.
\<close>

section \<open>Bitmaps and the message type\<close>

text \<open>An element outside the bitmap is an assignment outside a typed array: it has no effect.\<close>

definition setBitmapBit :: "byte list \<Rightarrow> int \<Rightarrow> byte list" where
  "setBitmapBit bitmap dataElement =
     (let index = dataElement - 1;
          byteIndex = index div 8;
          mask = drop_bit (nat (index mod 8)) 0x80
      in if 0 \<le> byteIndex \<and> nat byteIndex < length bitmap
         then bitmap[nat byteIndex := (bitmap ! nat byteIndex) OR mask]
         else bitmap)"

definition bitmap_bit :: "byte list \<Rightarrow> int \<Rightarrow> bool" where
  "bitmap_bit bitmap dataElement =
     (let index = dataElement - 1 in
      (bitmap ! nat (index div 8)) AND drop_bit (nat (index mod 8)) 0x80 \<noteq> 0)"

definition readBitmapElements :: "byte list \<Rightarrow> int list" where
  "readBitmapElements bitmap = filter (bitmap_bit bitmap) [2..int (length bitmap) * 8]"

definition encodeMti :: "jstext \<Rightarrow> mti_encoding \<Rightarrow> byte list" where
  "encodeMti mti enc =
     (if enc = MtiAscii then text_encode mti
      else case hexToBytes mti of None \<Rightarrow> [] | Some bs \<Rightarrow> bs)"

definition decodeMti :: "byte list \<Rightarrow> mti_encoding \<Rightarrow> jstext" where
  "decodeMti bs enc = (if enc = MtiAscii then text_decode bs else bytesToHex bs)"

definition mti_encoding_of :: "message_definition \<Rightarrow> mti_encoding" where
  "mti_encoding_of msg = (case md_mtiEncoding msg of None \<Rightarrow> MtiAscii | Some e \<Rightarrow> e)"

definition has_mti :: "message_definition \<Rightarrow> jstext option" where
  "has_mti msg = (case md_mti msg of None \<Rightarrow> None | Some t \<Rightarrow> if t = [] then None else Some t)"

section \<open>The uses of an ISO message\<close>

type_synonym iso_use = "scalar_use \<times> int"

fun isoUses ::
  "host_reference \<Rightarrow> (string \<rightharpoonup> field_definition) \<Rightarrow> field_use list \<Rightarrow> host_failure + iso_use list" where
  "isoUses ref fdefs [] = Inr []"
| "isoUses ref fdefs (GroupUse _ # us) =
     Inl (hostMessageFailure ''hostMessage.profile.invalid''
       ''ISO message contains a repeating group'' (referenceDetails ref))"
| "isoUses ref fdefs (FieldUse use # us) =
     (case (case fdefs (su_fieldId use) of None \<Rightarrow> None | Some f \<Rightarrow> fd_dataElement f) of
        None \<Rightarrow>
          Inl (hostMessageFailure ''hostMessage.profile.invalid''
            ''ISO field lacks a data element'' (referenceDetails ref))
      | Some dataElement \<Rightarrow>
          rbind (isoUses ref fdefs us) (\<lambda>rest. Inr ((use, dataElement) # rest)))"

definition iso_presence :: "scalar_use \<Rightarrow> field_presence" where
  "iso_presence use = (case su_presence use of None \<Rightarrow> Optional | Some p \<Rightarrow> p)"

definition iso_uses_of :: "'a codec_context_scheme \<Rightarrow> host_failure + iso_use list" where
  "iso_uses_of ctx =
     isoUses (cx_reference ctx) (rs_fieldsById (cx_resolved ctx)) (md_fields (rs_message (cx_resolved ctx)))"

section \<open>Packing\<close>

definition isoPackFailure :: "host_reference \<Rightarrow> string \<Rightarrow> string \<Rightarrow> string option \<Rightarrow> fault" where
  "isoPackFailure ref code msg fieldId =
     packFailure ref code msg (if fieldId = Some [] then None else fieldId)"

text \<open>The uses present, in the order of the layout, or the first use whose presence is wrong.\<close>

fun presentUses :: "pack_context \<Rightarrow> iso_use list \<Rightarrow> iso_use list wire" where
  "presentUses ctx [] = Inr []"
| "presentUses ctx ((use, de) # us) =
     (let val = map_of (px_fields ctx) (su_fieldId use);
          presence = iso_presence use in
      if presence = Forbidden \<and> val \<noteq> None then
        Inl (isoPackFailure (cx_reference ctx) ''hostMessage.iso.forbiddenField''
          ''Forbidden ISO field is present'' (Some (su_fieldId use)))
      else if presence = Required \<and> val = None then
        Inl (isoPackFailure (cx_reference ctx) ''hostMessage.field.missing''
          ''Required ISO field is missing'' (Some (su_fieldId use)))
      else
        rbind (presentUses ctx us) (\<lambda>rest.
          Inr (if val \<noteq> None \<and> presence \<noteq> Forbidden then (use, de) # rest else rest)))"

fun packIsoFields :: "pack_context \<Rightarrow> iso_use list \<Rightarrow> byte list wire" where
  "packIsoFields ctx [] = Inr []"
| "packIsoFields ctx ((use, de) # us) =
     (case (rs_fieldsById (cx_resolved ctx) (su_fieldId use), map_of (px_fields ctx) (su_fieldId use)) of
        (Some field, Some val) \<Rightarrow>
          (case packWireField (cx_regexps ctx) field val (cx_fieldCodecs ctx) of
             Inl (Fails f) \<Rightarrow>
               Inl (Fails (addFailureDetails f (referenceDetails (cx_reference ctx))))
           | Inl (Throws x) \<Rightarrow> Inl (Throws x)
           | Inr bs \<Rightarrow>
               rbind (packIsoFields ctx us) (\<lambda>rest. Inr (concatBytes [bs, rest])))
      | _ \<Rightarrow>
          Inl (isoPackFailure (cx_reference ctx) ''hostMessage.profile.invalid''
            ''ISO field is unresolved'' None))"

definition iso_bitmap :: "iso_use list \<Rightarrow> byte list" where
  "iso_bitmap present =
     (let hasSecondary = list_ex (\<lambda>(use, de). 64 < de) present;
          bitmap = replicate (if hasSecondary then 16 else 8) 0;
          marked = (if hasSecondary then bitmap[0 := 0x80] else bitmap)
      in fold (\<lambda>(use, de) b. setBitmapBit b de) present marked)"

definition bitmap_wire :: "message_definition \<Rightarrow> byte list \<Rightarrow> byte list" where
  "bitmap_wire msg bitmap =
     (if md_bitmapEncoding msg = Some BitmapAsciiHex then text_encode (bytesToHex bitmap) else bitmap)"

definition iso_pack :: "pack_context \<Rightarrow> packed_message wire" where
  "iso_pack ctx =
     (let msg = rs_message (cx_resolved ctx) in
      case has_mti msg of
        None \<Rightarrow>
          Inl (isoPackFailure (cx_reference ctx) ''hostMessage.profile.invalid'' ''ISO MTI is missing'' None)
      | Some mti \<Rightarrow>
          (case iso_uses_of ctx of
             Inl f \<Rightarrow> Inl (Fails f)
           | Inr uses \<Rightarrow>
               rbind (presentUses ctx uses) (\<lambda>unsorted.
               let present = sort_key snd unsorted in
               rbind (packIsoFields ctx present) (\<lambda>body.
               let bs = concatBytes [encodeMti mti (mti_encoding_of msg),
                          bitmap_wire msg (iso_bitmap present), body] in
               if exceeds_limit ctx bs then
                 Inl (isoPackFailure (cx_reference ctx) ''hostMessage.limit.exceeded''
                   ''Packed ISO message exceeds its wire limit'' None)
               else Inr \<lparr>pm_reference = cx_reference ctx, pm_bytes = bs\<rparr>))))"

section \<open>Unpacking\<close>

definition headerPartial ::
  "unpack_context \<Rightarrow> field_set \<Rightarrow> byte_cursor \<Rightarrow> string \<Rightarrow> int \<Rightarrow> decoded wire" where
  "headerPartial ctx flds cur phase expectedBytes =
     (let error = hostMessageFailure ''hostMessage.message.truncated'' ''ISO header is incomplete''
            ((referenceDetails (cx_reference ctx))\<lparr>hd_byteOffset := Some (cursor_offset cur),
               hd_expectedBytes := Some expectedBytes, hd_phase := Some phase,
               hd_receivedBytes := Some (cursor_remaining cur)\<rparr>)
      in if ux_allowPartial ctx
         then Inr (Partial (cx_reference ctx) flds error (cursor_offset cur) (length (ux_bytes ctx)))
         else Inl (Fails error))"

definition readBitmapPart ::
  "unpack_context \<Rightarrow> byte_cursor \<Rightarrow> string \<Rightarrow> decoded wire + (byte list \<times> byte_cursor)" where
  "readBitmapPart ctx cur phase =
     (let enc = (case md_bitmapEncoding (rs_message (cx_resolved ctx)) of
                   None \<Rightarrow> BitmapBinary | Some e \<Rightarrow> e);
          wireLength = (if enc = BitmapBinary then 8 else 16) in
      case cursor_read wireLength cur of
        (None, cur') \<Rightarrow> Inl (headerPartial ctx [] cur' phase wireLength)
      | (Some raw, cur') \<Rightarrow>
          if enc = BitmapBinary then Inr (raw, cur')
          else
            (case hexToBytes (text_decode raw) of
               Some bs \<Rightarrow> Inr (bs, cur')
             | None \<Rightarrow>
                 Inl (hardFailure (cx_reference ctx) ''hostMessage.iso.bitmapInvalid''
                   ''ASCII-hex bitmap is invalid'' (no_details\<lparr>hd_phase := Some phase\<rparr>))))"

text \<open>\<^verbatim>\<open>primary[0] & 0x80\<close> announces a secondary bitmap.\<close>

definition readBitmaps :: "unpack_context \<Rightarrow> byte_cursor \<Rightarrow> decoded wire + (byte list \<times> byte_cursor)" where
  "readBitmaps ctx cur =
     rbind (readBitmapPart ctx cur ''primaryBitmap'') (\<lambda>(primary, cur1).
       if (case primary of [] \<Rightarrow> 0 | b # _ \<Rightarrow> b) AND 0x80 = 0 then Inr (concatBytes [primary], cur1)
       else
         rbind (readBitmapPart ctx cur1 ''secondaryBitmap'') (\<lambda>(secondary, cur2).
           Inr (concatBytes [primary, secondary], cur2)))"

fun unpackIsoFields ::
  "unpack_context \<Rightarrow> (int \<rightharpoonup> scalar_use) \<Rightarrow> nat \<Rightarrow> int list \<Rightarrow> field_set \<Rightarrow> byte_cursor
     \<Rightarrow> decoded wire + (field_set \<times> byte_cursor)" where
  "unpackIsoFields ctx byElement fieldIndex [] flds cur = Inr (flds, cur)"
| "unpackIsoFields ctx byElement fieldIndex (de # des) flds cur =
     (case byElement de of
        None \<Rightarrow>
          Inl (hardFailure (cx_reference ctx) ''hostMessage.profile.invalid''
            ''ISO field is unresolved'' no_details)
      | Some use \<Rightarrow>
          (case rs_fieldsById (cx_resolved ctx) (su_fieldId use) of
             None \<Rightarrow>
               Inl (hardFailure (cx_reference ctx) ''hostMessage.profile.invalid''
                 ''ISO field is unresolved'' no_details)
           | Some field \<Rightarrow>
               if su_presence use = Some Forbidden then
                 Inl (hardFailure (cx_reference ctx) ''hostMessage.iso.forbiddenField''
                   ''Bitmap contains a forbidden field''
                   (no_details\<lparr>hd_dataElement := Some de, hd_fieldId := Some (su_fieldId use)\<rparr>))
               else
                 (case unpackWireField (cx_regexps ctx) cur field (cx_fieldCodecs ctx) of
                    (Inl (Fails f), cur') \<Rightarrow>
                      Inl (decodeFailure ctx flds
                        (addFailureDetails f (no_details\<lparr>hd_dataElement := Some de\<rparr>)) cur' fieldIndex)
                  | (Inl (Throws x), cur') \<Rightarrow> Inl (Inl (Throws x))
                  | (Inr v, cur') \<Rightarrow>
                      unpackIsoFields ctx byElement (Suc fieldIndex) des
                        (put (su_fieldId use) (Scalar v) flds) cur')))"

definition by_element :: "iso_use list \<Rightarrow> int \<rightharpoonup> scalar_use" where
  "by_element uses = map_of (rev (map (\<lambda>(use, de). (de, use)) uses))"

definition missing_required :: "int list \<Rightarrow> iso_use \<Rightarrow> bool" where
  "missing_required present = (\<lambda>(use, de). iso_presence use = Required \<and> de \<notin> set present)"

text \<open>The part of \<^verbatim>\<open>unpack\<close> after the bitmaps.\<close>

definition unpackElements ::
  "unpack_context \<Rightarrow> iso_use list \<Rightarrow> byte list \<Rightarrow> byte_cursor \<Rightarrow> decoded wire" where
  "unpackElements ctx uses bitmap cur =
     (let byElement = by_element uses;
          presentElements = readBitmapElements bitmap in
      case find (\<lambda>de. byElement de = None) presentElements of
        Some de \<Rightarrow>
          hardFailure (cx_reference ctx) ''hostMessage.iso.undefinedDataElement''
            ''Bitmap references an undefined data element'' (no_details\<lparr>hd_dataElement := Some de\<rparr>)
      | None \<Rightarrow>
          (case find (missing_required presentElements) uses of
             Some (use, de) \<Rightarrow>
               hardFailure (cx_reference ctx) ''hostMessage.iso.requiredFieldMissing''
                 ''Bitmap omits a required data element''
                 (no_details\<lparr>hd_dataElement := Some de, hd_fieldId := Some (su_fieldId use)\<rparr>)
           | None \<Rightarrow>
               (case unpackIsoFields ctx byElement 0 presentElements [] cur of
                  Inl r \<Rightarrow> r
                | Inr (flds, cur') \<Rightarrow>
                    finishUnpack ctx ''ISO message contains trailing bytes'' flds cur')))"

definition iso_unpack :: "unpack_context \<Rightarrow> decoded wire" where
  "iso_unpack ctx =
     (let msg = rs_message (cx_resolved ctx);
          cur = new_cursor (ux_bytes ctx);
          enc = mti_encoding_of msg;
          mtiLength = (if enc = MtiAscii then 4 else 2) in
      case has_mti msg of
        None \<Rightarrow>
          hardFailure (cx_reference ctx) ''hostMessage.profile.invalid'' ''ISO MTI is missing'' no_details
      | Some mti \<Rightarrow>
          (case cursor_read mtiLength cur of
             (None, cur') \<Rightarrow> headerPartial ctx [] cur' ''mti'' mtiLength
           | (Some rawMti, cur1) \<Rightarrow>
               if decodeMti rawMti enc \<noteq> mti then
                 hardFailure (cx_reference ctx) ''hostMessage.iso.mtiInvalid''
                   ''ISO MTI does not match the message definition'' no_details
               else
                 (case readBitmaps ctx cur1 of
                    Inl r \<Rightarrow> r
                  | Inr (bitmap, cur2) \<Rightarrow>
                      (case iso_uses_of ctx of
                         Inl f \<Rightarrow> Inl (Fails f)
                       | Inr uses \<Rightarrow> unpackElements ctx uses bitmap cur2))))"

end
