(* ===== verification/Host_Iso_Laws.thy ===== *)
theory Host_Iso_Laws
  imports Host_Iso
begin

text \<open>
  The ISO 8583 codec: the shape of its decode results, its bitmap as a set of data elements,
  and that a packed message is unpacked to the fields it was packed from.
\<close>

section \<open>The shape of decode results\<close>

lemma headerPartial_ok [simp]:
  "cursor_in ctx cur \<Longrightarrow> decode_ok ctx (headerPartial ctx flds cur phase n)"
  by (simp add: headerPartial_def Let_def decode_ok_def cursor_in_offset canReturnPartial_def
      partialCodes_def hostMessageFailure_def)

lemma readBitmapPart_ok: "cursor_in ctx cur \<Longrightarrow> step_ok ctx (readBitmapPart ctx cur phase)"
  by (auto simp: readBitmapPart_def Let_def split: option.splits prod.splits dest: cursor_in_read)

lemma readBitmaps_ok: "cursor_in ctx cur \<Longrightarrow> step_ok ctx (readBitmaps ctx cur)"
  by (auto simp: readBitmaps_def intro!: step_ok_rbind readBitmapPart_ok)

lemma unpackIsoFields_ok:
  "cursor_in ctx cur \<Longrightarrow> step_ok ctx (unpackIsoFields ctx byElement fi des flds cur)"
  by (induction ctx byElement fi des flds cur rule: unpackIsoFields.induct)
    (auto split: option.splits prod.splits sum.splits fault.splits dest: cursor_in_unpack)

lemma unpackElements_ok:
  assumes "cursor_in ctx cur"
  shows "decode_ok ctx (unpackElements ctx uses bitmap cur)"
  using unpackIsoFields_ok [OF assms, of "by_element uses" 0 "readBitmapElements bitmap" "[]"]
  by (auto simp: unpackElements_def Let_def finishUnpack_ok split: option.splits sum.splits)

lemma iso_unpack_ok: "decode_ok ctx (iso_unpack ctx)"
proof -
  have bitmaps: "decode_ok ctx (case readBitmaps ctx cur of Inl r \<Rightarrow> r
      | Inr (bitmap, cur2) \<Rightarrow> (case iso_uses_of ctx of Inl f \<Rightarrow> Inl (Fails f)
          | Inr uses \<Rightarrow> unpackElements ctx uses bitmap cur2))" if "cursor_in ctx cur" for cur
    using readBitmaps_ok [OF that] unpackElements_ok by (auto split: sum.splits)
  show ?thesis
    by (auto simp: iso_unpack_def Let_def bitmaps split: option.splits prod.splits
        dest: cursor_in_read [OF cursor_in_new])
qed

section \<open>Bitmaps\<close>

lemma mask_bit:
  assumes "j < 8"
  shows "drop_bit j (0x80 :: byte) = push_bit (7 - j) 1"
proof -
  have "j \<in> {0, 1, 2, 3, 4, 5, 6, 7}" using assms by auto
  then show ?thesis by auto
qed

lemma bit_mask: "k < 8 \<Longrightarrow> bit (push_bit k (1 :: byte)) l \<longleftrightarrow> k = l"
  by (auto simp: bit_push_bit_iff bit_1_iff simp del: push_bit_of_1)

definition element_in :: "byte list \<Rightarrow> int \<Rightarrow> bool" where
  "element_in bitmap e \<longleftrightarrow> 1 \<le> e \<and> e \<le> 8 * int (length bitmap)"

lemma bitmap_bit_bit:
  "bitmap_bit bitmap e \<longleftrightarrow> bit (bitmap ! nat ((e - 1) div 8)) (7 - nat ((e - 1) mod 8))"
proof -
  have "nat ((e - 1) mod 8) < 8" by simp
  then show ?thesis
    by (simp add: bitmap_bit_def Let_def mask_bit bit_iff_and_push_bit_not_eq_0)
qed

lemma element_byte: "element_in bitmap e \<Longrightarrow> 0 \<le> (e - 1) div 8 \<and> nat ((e - 1) div 8) < length bitmap"
  by (auto simp: element_in_def)

lemma length_setBitmapBit [simp]: "length (setBitmapBit bitmap d) = length bitmap"
  by (simp add: setBitmapBit_def Let_def)

lemma element_in_set [simp]: "element_in (setBitmapBit bitmap d) = element_in bitmap"
  by (simp add: element_in_def fun_eq_iff)

lemma same_bit:
  fixes d e :: int
  assumes "1 \<le> d" and "1 \<le> e"
  shows "nat ((d - 1) div 8) = nat ((e - 1) div 8) \<and> 7 - nat ((d - 1) mod 8) = 7 - nat ((e - 1) mod 8)
    \<longleftrightarrow> d = e"
proof
  assume eq: "nat ((d - 1) div 8) = nat ((e - 1) div 8)
    \<and> 7 - nat ((d - 1) mod 8) = 7 - nat ((e - 1) mod 8)"
  have "a = b" if "7 - a = 7 - b" "a < 8" "b < 8" for a b :: nat
    using that by arith
  from this [of "nat ((d - 1) mod 8)" "nat ((e - 1) mod 8)"]
  have "nat ((d - 1) mod 8) = nat ((e - 1) mod 8)" using eq by simp
  then have "(d - 1) div 8 = (e - 1) div 8" and "(d - 1) mod 8 = (e - 1) mod 8"
    using eq assms by (simp_all add: eq_nat_nat_iff pos_imp_zdiv_nonneg_iff)
  then show "d = e" by (metis add_left_cancel diff_add_cancel mult_div_mod_eq)
qed simp

lemma bitmap_bit_set:
  assumes d: "element_in bitmap d" and e: "element_in bitmap e"
  shows "bitmap_bit (setBitmapBit bitmap d) e \<longleftrightarrow> bitmap_bit bitmap e \<or> e = d"
proof -
  have pos: "1 \<le> d" "1 \<le> e" using d e by (auto simp: element_in_def)
  define i j where "i = nat ((d - 1) div 8)" and "j = nat ((e - 1) div 8)"
  define k l where "k = 7 - nat ((d - 1) mod 8)" and "l = 7 - nat ((e - 1) mod 8)"
  have len: "i < length bitmap" "j < length bitmap" "0 \<le> (d - 1) div 8"
    using element_byte [OF d] element_byte [OF e] by (simp_all add: i_def j_def)
  have same: "i = j \<and> k = l \<longleftrightarrow> e = d"
    using same_bit [OF pos] by (auto simp: i_def j_def k_def l_def)
  have "nat ((d - 1) mod 8) < 8" by simp
  then have set: "setBitmapBit bitmap d = bitmap[i := (bitmap ! i) OR push_bit k 1]"
    using len by (simp add: setBitmapBit_def Let_def mask_bit i_def k_def)
  have k: "k < 8" by (simp add: k_def)
  have "bitmap_bit (setBitmapBit bitmap d) e \<longleftrightarrow> bit (bitmap[i := (bitmap ! i) OR push_bit k 1] ! j) l"
    by (simp add: bitmap_bit_bit set j_def l_def)
  also have "\<dots> \<longleftrightarrow> bit (bitmap ! j) l \<or> i = j \<and> k = l"
    using len by (auto simp: nth_list_update bit_or_iff bit_mask [OF k] simp del: push_bit_of_1)
  finally show ?thesis
    by (simp only: same) (simp add: bitmap_bit_bit j_def l_def)
qed

lemma bitmap_bit_fold:
  assumes "\<forall>u \<in> set us. element_in bitmap (snd u)" and "element_in bitmap e"
  shows "bitmap_bit (fold (\<lambda>(use, de) b. setBitmapBit b de) us bitmap) e
    \<longleftrightarrow> bitmap_bit bitmap e \<or> e \<in> snd ` set us"
  using assms
proof (induction us arbitrary: bitmap)
  case (Cons u us)
  obtain use d where u: "u = (use, d)" by (cases u)
  have "bitmap_bit (fold (\<lambda>(use, de) b. setBitmapBit b de) us (setBitmapBit bitmap d)) e
      \<longleftrightarrow> bitmap_bit (setBitmapBit bitmap d) e \<or> e \<in> snd ` set us"
    using Cons.prems by (intro Cons.IH) auto
  then show ?case
    using Cons.prems by (auto simp: u bitmap_bit_set)
qed simp

lemma length_fold_bitmap [simp]:
  "length (fold (\<lambda>(use, de) b. setBitmapBit b de) us bitmap) = length bitmap"
  by (induction us arbitrary: bitmap) auto

text \<open>The announcing bit of a secondary bitmap is the bit of element 1, which is never read.\<close>

definition has_secondary :: "iso_use list \<Rightarrow> bool" where
  "has_secondary present = list_ex (\<lambda>(use, de). 64 < de) present"

definition elements_ok :: "iso_use list \<Rightarrow> bool" where
  "elements_ok present \<longleftrightarrow> (\<forall>u \<in> set present. 2 \<le> snd u \<and> snd u \<le> 128)"

lemma iso_bitmap_marks:
  "iso_bitmap present =
     fold (\<lambda>(use, de) b. setBitmapBit b de) present
       (if has_secondary present then setBitmapBit (replicate 16 0) 1 else replicate 8 0)"
  by (simp add: iso_bitmap_def has_secondary_def setBitmapBit_def)

lemma length_iso_bitmap: "length (iso_bitmap present) = (if has_secondary present then 16 else 8)"
  by (simp add: iso_bitmap_marks)

lemma bitmap_bit_zero: "element_in (replicate n 0) e \<Longrightarrow> \<not> bitmap_bit (replicate n 0) e"
  using element_byte [of "replicate n 0" e] by (simp add: bitmap_bit_bit)

lemma bitmap_bit_iso:
  assumes ok: "elements_ok present" and e: "element_in (iso_bitmap present) e"
  shows "bitmap_bit (iso_bitmap present) e \<longleftrightarrow> e \<in> snd ` set present \<or> e = 1 \<and> has_secondary present"
proof -
  define start :: "byte list" where
    "start = (if has_secondary present then setBitmapBit (replicate 16 0) 1 else replicate 8 0)"
  have "\<forall>u \<in> set present. element_in start (snd u)"
    using ok by (auto simp: start_def elements_ok_def element_in_def has_secondary_def list_ex_iff
        split: prod.splits)
  moreover have in_start: "element_in start e"
    using e by (simp add: start_def element_in_def iso_bitmap_marks)
  ultimately have "bitmap_bit (iso_bitmap present) e \<longleftrightarrow> bitmap_bit start e \<or> e \<in> snd ` set present"
    using bitmap_bit_fold [of present start e] by (simp add: iso_bitmap_marks start_def)
  moreover have "bitmap_bit start e \<longleftrightarrow> e = 1 \<and> has_secondary present"
    using in_start bitmap_bit_set [of "replicate 16 0" 1 e] bitmap_bit_zero [of 16 e] bitmap_bit_zero [of 8 e]
    by (auto simp: start_def element_in_def)
  ultimately show ?thesis by blast
qed

lemma read_iso_bitmap:
  assumes ok: "elements_ok present" and order: "sorted (map snd present)" "distinct (map snd present)"
  shows "readBitmapElements (iso_bitmap present) = map snd present"
proof (rule sorted_distinct_set_unique [OF _ _ order])
  have eq: "bitmap_bit (iso_bitmap present) e \<longleftrightarrow> e \<in> snd ` set present"
    if "2 \<le> e" "e \<le> int (length (iso_bitmap present)) * 8" for e
  proof -
    have "element_in (iso_bitmap present) e" and "e \<noteq> 1"
      using that by (simp_all add: element_in_def)
    with bitmap_bit_iso [OF ok] show ?thesis by blast
  qed
  have "set (readBitmapElements (iso_bitmap present))
      = {e \<in> {2..int (length (iso_bitmap present)) * 8}. e \<in> snd ` set present}"
    unfolding readBitmapElements_def set_filter set_upto atLeastAtMost_iff
    using eq by (intro Collect_cong) blast
  also have "\<dots> = snd ` set present"
    using ok by (auto simp: length_iso_bitmap elements_ok_def has_secondary_def list_ex_iff)
  finally show "set (readBitmapElements (iso_bitmap present)) = set (map snd present)" by simp
qed (simp_all add: readBitmapElements_def sorted_wrt_filter)

lemma announced:
  assumes "elements_ok present"
  shows "(case iso_bitmap present of [] \<Rightarrow> 0 | b # _ \<Rightarrow> b) AND 0x80 \<noteq> 0 \<longleftrightarrow> has_secondary present"
proof -
  have "element_in (iso_bitmap present) 1"
    by (simp add: element_in_def length_iso_bitmap)
  then have "bitmap_bit (iso_bitmap present) 1 \<longleftrightarrow> has_secondary present"
    using bitmap_bit_iso [OF assms] assms by (auto simp: elements_ok_def)
  moreover obtain b bs where "iso_bitmap present = b # bs"
    using length_iso_bitmap [of present] by (cases "iso_bitmap present") (auto split: if_splits)
  ultimately show ?thesis by (simp add: bitmap_bit_def)
qed

section \<open>Reading the header\<close>

lemma ascii_hex: "ascii (bytesToHex bs)"
  using is_hex_bytesToHex [of bs]
  by (auto simp: ascii_def list_all_iff is_hex_def is_digit_def)

lemma readBitmapPart_wire:
  assumes cur: "cursor_in uctx cur" "cursor_rest cur = bitmap_wire (rs_message (cx_resolved uctx)) bs @ rest"
    and len: "length bs = 8"
  shows "\<exists>cur'. readBitmapPart uctx cur phase = Inr (bs, cur') \<and> cursor_in uctx cur'
    \<and> cursor_rest cur' = rest"
proof -
  let ?msg = "rs_message (cx_resolved uctx)"
  let ?wl = "if md_bitmapEncoding ?msg = Some BitmapAsciiHex then 16 else 8 :: int"
  have "?wl = int (length (bitmap_wire ?msg bs))"
    using len by (simp add: bitmap_wire_def ascii_encode [OF ascii_hex])
  then obtain c where c: "cursor_read ?wl cur = (Some (bitmap_wire ?msg bs), c)" "cursor_rest c = rest"
    using cursor_read_append [OF cursor_in_ok [OF cur(1)] cur(2)] by blast
  have hex: "hexToBytes (text_decode (text_encode (bytesToHex bs))) = Some bs"
    by (simp add: ascii_encode [OF ascii_hex] ascii_decode [OF ascii_hex])
  show ?thesis
  proof (cases "md_bitmapEncoding ?msg = Some BitmapAsciiHex")
    case True
    with c hex cursor_in_read [OF cur(1) c(1)] show ?thesis
      by (simp add: readBitmapPart_def bitmap_wire_def)
  next
    case False
    then have "(case md_bitmapEncoding ?msg of None \<Rightarrow> BitmapBinary | Some e \<Rightarrow> e) = BitmapBinary"
      by (auto split: option.splits bitmap_encoding.splits intro: bitmap_encoding.exhaust)
    with False c cursor_in_read [OF cur(1) c(1)] show ?thesis
      by (simp add: readBitmapPart_def bitmap_wire_def)
  qed
qed

lemma bytesToHex_append: "bytesToHex (as @ bs) = bytesToHex as @ bytesToHex bs"
  by (simp add: bytesToHex_def)

lemma bitmap_wire_append: "bitmap_wire msg (as @ bs) = bitmap_wire msg as @ bitmap_wire msg bs"
  by (simp add: bitmap_wire_def bytesToHex_append ascii_encode [OF ascii_hex]
      ascii_encode [OF ascii_hex [of "as @ bs", unfolded bytesToHex_append]])

lemma readBitmaps_wire:
  assumes cur: "cursor_in uctx cur"
    "cursor_rest cur = bitmap_wire (rs_message (cx_resolved uctx)) (iso_bitmap present) @ rest"
    and ok: "elements_ok present"
  shows "\<exists>cur'. readBitmaps uctx cur = Inr (iso_bitmap present, cur') \<and> cursor_in uctx cur'
    \<and> cursor_rest cur' = rest"
proof (cases "has_secondary present")
  case False
  then obtain c where "readBitmapPart uctx cur ''primaryBitmap'' = Inr (iso_bitmap present, c)"
    "cursor_in uctx c" "cursor_rest c = rest"
    using readBitmapPart_wire [OF cur, of "''primaryBitmap''"] by (auto simp: length_iso_bitmap)
  then show ?thesis
    using announced [OF ok] False by (simp add: readBitmaps_def concatBytes_def)
next
  case True
  let ?msg = "rs_message (cx_resolved uctx)"
  let ?p = "take 8 (iso_bitmap present)" and ?s = "drop 8 (iso_bitmap present)"
  have len: "length ?p = 8" "length ?s = 8" using True by (simp_all add: length_iso_bitmap)
  have "cursor_rest cur = bitmap_wire ?msg ?p @ bitmap_wire ?msg ?s @ rest"
    using cur(2) by (simp flip: bitmap_wire_append append_assoc)
  then obtain c1 where c1: "readBitmapPart uctx cur ''primaryBitmap'' = Inr (?p, c1)"
    "cursor_in uctx c1" "cursor_rest c1 = bitmap_wire ?msg ?s @ rest"
    using readBitmapPart_wire [OF cur(1) _ len(1)] by blast
  obtain c2 where c2: "readBitmapPart uctx c1 ''secondaryBitmap'' = Inr (?s, c2)"
    "cursor_in uctx c2" "cursor_rest c2 = rest"
    using readBitmapPart_wire [OF c1(2,3) len(2)] by blast
  have "(case ?p of [] \<Rightarrow> 0 | b # _ \<Rightarrow> b) = (case iso_bitmap present of [] \<Rightarrow> 0 | b # _ \<Rightarrow> b)"
    by (simp split: list.splits)
  then have "(case ?p of [] \<Rightarrow> 0 | b # _ \<Rightarrow> b) AND 0x80 \<noteq> 0"
    using announced [OF ok] True by simp
  then show ?thesis using c1(1) c2 by (simp add: readBitmaps_def concatBytes_def)
qed

definition mti_ok :: "jstext \<Rightarrow> bool" where
  "mti_ok mti \<longleftrightarrow> length mti = 4 \<and> all_digits mti"

lemma mti_roundtrip:
  assumes "mti_ok mti"
  shows "length (encodeMti mti enc) = (if enc = MtiAscii then 4 else 2)"
    and "decodeMti (encodeMti mti enc) enc = mti"
proof -
  have d: "all_digits mti" and l: "length mti = 4" using assms by (simp_all add: mti_ok_def)
  have "list_all is_hex mti" using d by (auto simp: all_digits_def list_all_iff is_hex_is_digit)
  then have hex: "hexToBytes mti = Some (hex_pairs mti)" using l by (simp add: hexToBytes_def)
  note asc = digits_ascii [OF d]
  show "length (encodeMti mti enc) = (if enc = MtiAscii then 4 else 2)"
    using l hex by (simp add: encodeMti_def ascii_encode [OF asc])
  show "decodeMti (encodeMti mti enc) enc = mti"
    using l hex d by (simp add: encodeMti_def decodeMti_def ascii_encode [OF asc] ascii_decode [OF asc]
        bytesToHex_digits)
qed

section \<open>Reading the data elements\<close>

definition iso_use_ok :: "pack_context \<Rightarrow> iso_use \<Rightarrow> bool" where
  "iso_use_ok ctx u =
     (case (rs_fieldsById (cx_resolved ctx) (su_fieldId (fst u)), map_of (px_fields ctx) (su_fieldId (fst u))) of
        (Some field, Some (Scalar v)) \<Rightarrow> wire_faithful field v (cx_fieldCodecs ctx)
      | _ \<Rightarrow> False)"

definition iso_entry :: "pack_context \<Rightarrow> iso_use \<Rightarrow> string \<times> field_value" where
  "iso_entry ctx u = (su_fieldId (fst u), the (map_of (px_fields ctx) (su_fieldId (fst u))))"

lemma packIsoFields_Cons:
  assumes "packIsoFields ctx (u # us) = Inr bs" and "iso_use_ok ctx u"
  obtains field v b1 b2 where "rs_fieldsById (cx_resolved ctx) (su_fieldId (fst u)) = Some field"
    and "map_of (px_fields ctx) (su_fieldId (fst u)) = Some (Scalar v)"
    and "wire_faithful field v (cx_fieldCodecs ctx)"
    and "packWireField (cx_regexps ctx) field (Scalar v) (cx_fieldCodecs ctx) = Inr b1"
    and "packIsoFields ctx us = Inr b2" and "bs = b1 @ b2"
proof -
  obtain use de where u: "u = (use, de)" by (cases u)
  obtain field v where fv: "rs_fieldsById (cx_resolved ctx) (su_fieldId use) = Some field"
    "map_of (px_fields ctx) (su_fieldId use) = Some (Scalar v)"
    "wire_faithful field v (cx_fieldCodecs ctx)"
    using assms(2) by (auto simp: u iso_use_ok_def split: option.splits field_value.splits)
  show thesis
  proof (cases "packWireField (cx_regexps ctx) field (Scalar v) (cx_fieldCodecs ctx)")
    case (Inl e)
    with assms(1) fv show thesis by (cases e) (simp_all add: u)
  next
    case (Inr b1)
    with assms(1) fv that show thesis by (auto simp: u res_simps concatBytes_def)
  qed
qed

lemma unpack_packIsoFields:
  assumes "packIsoFields ctx us = Inr bs" and "\<forall>u \<in> set us. iso_use_ok ctx u"
    and "\<forall>(use, de) \<in> set us. byElement de = Some use \<and> su_presence use \<noteq> Some Forbidden"
    and "cursor_in uctx cur" and "cursor_rest cur = bs" and "same_service ctx uctx"
    and "distinct (map fst acc @ map (su_fieldId \<circ> fst) us)"
  shows "\<exists>cur'. unpackIsoFields uctx byElement fi (map snd us) acc cur
      = Inr (acc @ map (iso_entry ctx) us, cur')
    \<and> cursor_in uctx cur' \<and> cursor_rest cur' = []"
  using assms
proof (induction us arbitrary: bs cur fi acc)
  case (Cons u us)
  obtain use de where u: "u = (use, de)" by (cases u)
  obtain field v b1 b2 where field: "rs_fieldsById (cx_resolved ctx) (su_fieldId use) = Some field"
    and v: "map_of (px_fields ctx) (su_fieldId use) = Some (Scalar v)"
    and faithful: "wire_faithful field v (cx_fieldCodecs ctx)"
    and b1: "packWireField (cx_regexps ctx) field (Scalar v) (cx_fieldCodecs ctx) = Inr b1"
    and b2: "packIsoFields ctx us = Inr b2" and bs: "bs = b1 @ b2"
    using packIsoFields_Cons [OF Cons.prems(1), unfolded u fst_conv] Cons.prems(2)
    unfolding u by (metis list.set_intros(1))
  have "cursor_rest cur = b1 @ b2" using Cons.prems(5) bs by simp
  then obtain c1 where "unpackWireField (cx_regexps ctx) cur field (cx_fieldCodecs ctx) = (Inr v, c1)"
    and r1: "cursor_rest c1 = b2"
    using unpack_packWireField [OF b1 faithful cursor_in_ok [OF Cons.prems(4)]] by blast
  then have u1: "wire_unpack uctx field cur = (Inr v, c1)"
    using Cons.prems(6) by (simp add: same_service_def)
  have new: "put (su_fieldId use) (Scalar v) acc = acc @ [iso_entry ctx u]"
    using Cons.prems(7) v by (simp add: u iso_entry_def put_new)
  have step: "unpackIsoFields uctx byElement fi (map snd (u # us)) acc cur
      = unpackIsoFields uctx byElement (Suc fi) (map snd us) (acc @ [iso_entry ctx u]) c1"
    using u1 field Cons.prems(3,6) new by (simp add: u same_service_def)
  have fresh: "distinct (map fst (acc @ [iso_entry ctx u]) @ map (su_fieldId \<circ> fst) us)"
    using Cons.prems(7) by (auto simp: u iso_entry_def comp_def)
  have "\<exists>cur'. unpackIsoFields uctx byElement (Suc fi) (map snd us) (acc @ [iso_entry ctx u]) c1
      = Inr ((acc @ [iso_entry ctx u]) @ map (iso_entry ctx) us, cur')
    \<and> cursor_in uctx cur' \<and> cursor_rest cur' = []"
    using Cons.IH [OF b2 _ _ cursor_in_unpack [OF Cons.prems(4) u1] r1 Cons.prems(6) fresh]
      Cons.prems(2,3) by simp
  then show ?case by (simp only: step) simp
qed simp

section \<open>Whole messages\<close>

definition iso_present :: "pack_context \<Rightarrow> iso_use list \<Rightarrow> iso_use list" where
  "iso_present ctx uses =
     sort_key snd (filter (\<lambda>u. map_of (px_fields ctx) (su_fieldId (fst u)) \<noteq> None) uses)"

text \<open>
  What the registry checks of an ISO layout: data elements 2 to 128, no two alike, no field
  twice, a message type of four digits.
\<close>

definition iso_layout_ok :: "iso_use list \<Rightarrow> jstext \<Rightarrow> bool" where
  "iso_layout_ok uses mti \<longleftrightarrow>
     mti_ok mti \<and> distinct (map snd uses) \<and> distinct (map (su_fieldId \<circ> fst) uses) \<and>
     list_all (\<lambda>u. 2 \<le> snd u \<and> snd u \<le> 128) uses"

lemma presentUses_Inr:
  "presentUses ctx uses = Inr us \<Longrightarrow>
   us = filter (\<lambda>u. map_of (px_fields ctx) (su_fieldId (fst u)) \<noteq> None) uses
   \<and> (\<forall>u \<in> set uses. iso_presence (fst u) = Required \<longrightarrow> u \<in> set us)
   \<and> (\<forall>u \<in> set us. su_presence (fst u) \<noteq> Some Forbidden)"
proof (induction ctx uses arbitrary: us rule: presentUses.induct)
  case (2 ctx use de uses)
  let ?val = "map_of (px_fields ctx) (su_fieldId use)" and ?p = "iso_presence use"
  have ok1: "\<not> (?p = Forbidden \<and> ?val \<noteq> None)"
    using 2(2) by (auto simp: Let_def split: if_splits)
  have ok2: "\<not> (?p = Required \<and> ?val = None)"
    using 2(2) by (auto simp: Let_def split: if_splits)
  obtain rest where rest: "presentUses ctx uses = Inr rest"
    and us: "us = (if ?val \<noteq> None \<and> ?p \<noteq> Forbidden then (use, de) # rest else rest)"
    using 2(2) ok1 ok2 by (simp add: Let_def res_simps del: not_None_eq) blast
  show ?case
    using 2(1) [OF refl refl ok1 ok2 rest] us ok1 ok2 by (cases "?val = None") (auto simp: iso_presence_def)
qed auto

lemma by_element_use:
  "distinct (map snd uses) \<Longrightarrow> (use, de) \<in> set uses \<Longrightarrow> by_element uses de = Some use"
  by (auto simp: by_element_def comp_def case_prod_beta rev_map intro!: map_of_is_SomeI
      simp flip: rev_map) (force)

lemma distinct_sort_filter:
  "distinct (map f xs) \<Longrightarrow> distinct (map f (sort_key g (filter P xs)))"
  by (auto simp: distinct_map inj_on_def)

lemma iso_present_props:
  assumes lay: "iso_layout_ok uses mti" and present: "presentUses ctx uses = Inr us"
  defines "ps \<equiv> sort_key snd us"
  shows "ps = iso_present ctx uses" and "set ps \<subseteq> set uses" and "elements_ok ps"
    and "sorted (map snd ps)" and "distinct (map snd ps)" and "distinct (map (su_fieldId \<circ> fst) ps)"
    and "\<forall>(use, de) \<in> set ps. by_element uses de = Some use \<and> su_presence use \<noteq> Some Forbidden"
    and "find (\<lambda>de. by_element uses de = None) (map snd ps) = None"
    and "find (missing_required (map snd ps)) uses = None"
proof -
  let ?P = "\<lambda>u. map_of (px_fields ctx) (su_fieldId (fst u)) \<noteq> None"
  have us: "us = filter ?P uses" and req: "\<forall>u \<in> set uses. iso_presence (fst u) = Required \<longrightarrow> u \<in> set us"
    and allowed: "\<forall>u \<in> set us. su_presence (fst u) \<noteq> Some Forbidden"
    using presentUses_Inr [OF present] by blast+
  show "ps = iso_present ctx uses" by (simp add: ps_def iso_present_def us)
  show sub: "set ps \<subseteq> set uses" by (auto simp: ps_def us)
  show "elements_ok ps" using lay sub by (auto simp: elements_ok_def iso_layout_ok_def list_all_iff)
  show "sorted (map snd ps)" by (simp add: ps_def)
  show "distinct (map snd ps)" and "distinct (map (su_fieldId \<circ> fst) ps)"
    using lay by (simp_all add: iso_layout_ok_def ps_def us distinct_sort_filter)
  have d: "distinct (map snd uses)" using lay by (simp add: iso_layout_ok_def)
  show elems: "\<forall>(use, de) \<in> set ps. by_element uses de = Some use \<and> su_presence use \<noteq> Some Forbidden"
    using sub allowed by_element_use [OF d] by (fastforce simp: ps_def)
  show "find (\<lambda>de. by_element uses de = None) (map snd ps) = None"
    using elems by (auto simp: find_None_iff)
  show "find (missing_required (map snd ps)) uses = None"
    using req by (force simp: find_None_iff missing_required_def ps_def)
qed

lemma iso_pack_parts:
  assumes "iso_pack ctx = Inr m"
  obtains mti uses us body where "has_mti (rs_message (cx_resolved ctx)) = Some mti"
    and "iso_uses_of ctx = Inr uses" and "presentUses ctx uses = Inr us"
    and "packIsoFields ctx (sort_key snd us) = Inr body"
    and "pm_bytes m = encodeMti mti (mti_encoding_of (rs_message (cx_resolved ctx)))
      @ bitmap_wire (rs_message (cx_resolved ctx)) (iso_bitmap (sort_key snd us)) @ body"
  using assms
  by (auto simp: iso_pack_def Let_def res_simps concatBytes_def split: option.splits sum.splits if_splits)

lemma iso_unpack_pack:
  assumes pack: "iso_pack ctx = Inr m"
    and uses: "iso_uses_of ctx = Inr uses" and mti: "has_mti (rs_message (cx_resolved ctx)) = Some mti"
    and lay: "iso_layout_ok uses mti"
    and vals: "list_all (iso_use_ok ctx) (iso_present ctx uses)"
    and same: "same_service ctx uctx" and bytes: "ux_bytes uctx = pm_bytes m"
  shows "iso_unpack uctx = Inr (Complete \<lparr>um_reference = cx_reference ctx,
    um_fields = map (iso_entry ctx) (iso_present ctx uses), um_wireLength = length (pm_bytes m)\<rparr>)"
proof -
  let ?msg = "rs_message (cx_resolved ctx)" and ?ps = "iso_present ctx uses"
  let ?enc = "mti_encoding_of ?msg"
  obtain us body where us: "presentUses ctx uses = Inr us"
    and body: "packIsoFields ctx (sort_key snd us) = Inr body"
    and b: "pm_bytes m = encodeMti mti ?enc @ bitmap_wire ?msg (iso_bitmap (sort_key snd us)) @ body"
    using iso_pack_parts [OF pack] uses mti by (metis Inr_inject option.inject)
  note p = iso_present_props [OF lay us]
  have "mti_ok mti" using lay by (simp add: iso_layout_ok_def)
  note mt = mti_roundtrip [OF this, of ?enc]
  have same': "rs_message (cx_resolved uctx) = ?msg" "iso_uses_of uctx = Inr uses"
    using same uses by (simp_all add: same_service_def iso_uses_of_def)
  have rest: "cursor_rest (new_cursor (ux_bytes uctx)) = encodeMti mti ?enc @ bitmap_wire ?msg (iso_bitmap ?ps) @ body"
    using bytes b p(1) by simp
  have len: "(if ?enc = MtiAscii then 4 else 2) = int (length (encodeMti mti ?enc))"
    using mt(1) by simp
  obtain c1 where c1: "cursor_read (if ?enc = MtiAscii then 4 else 2) (new_cursor (ux_bytes uctx))
      = (Some (encodeMti mti ?enc), c1)" "cursor_rest c1 = bitmap_wire ?msg (iso_bitmap ?ps) @ body"
    using cursor_read_append [OF cursor_ok_new rest len] by blast
  obtain c2 where c2: "readBitmaps uctx c1 = Inr (iso_bitmap ?ps, c2)" "cursor_in uctx c2"
    "cursor_rest c2 = body"
    using readBitmaps_wire [of uctx c1 ?ps body] cursor_in_read [OF cursor_in_new c1(1)] c1(2) p(1,3) same'
    by auto
  obtain c3 where c3: "unpackIsoFields uctx (by_element uses) 0 (map snd ?ps) [] c2
      = Inr (map (iso_entry ctx) ?ps, c3)" "cursor_rest c3 = []"
    using unpack_packIsoFields [of ctx ?ps body "by_element uses" uctx c2 "[]" 0]
      body vals p c2(2,3) same by (auto simp: list_all_iff)
  have "cursor_remaining c3 = 0" using c3(2) by (simp add: cursor_remaining_rest)
  then have "unpackElements uctx uses (iso_bitmap ?ps) c2 = Inr (Complete \<lparr>um_reference = cx_reference ctx,
      um_fields = map (iso_entry ctx) ?ps, um_wireLength = length (pm_bytes m)\<rparr>)"
    using c3(1) p(1,3-5,8,9) same bytes read_iso_bitmap [of ?ps]
    by (simp add: unpackElements_def Let_def finishUnpack_def same_service_def)
  then show ?thesis
    using c1(1) c2(1) mt(2) mti same' by (simp add: iso_unpack_def Let_def)
qed

end
