(* ===== verification/Host_Registries.thy ===== *)
theory Host_Registries
  imports Registry Host_Iso_Laws
begin

text \<open>
  \<^verbatim>\<open>packages/host-message/src/registries.ts\<close>: the registries of field codecs, message
  codecs and message profiles, and the validation of a profile when it is registered. A map
  of the source keyed by a text built from two or three identifiers keeps that text as its key.
\<close>

record config_error =
  ce_code :: string
  ce_message :: string
  ce_metadata :: "(string \<times> string) list"

definition configurationError :: "string \<Rightarrow> string \<Rightarrow> (string \<times> string) list \<Rightarrow> config_error" where
  "configurationError code msg metadata =
     \<lparr>ce_code = code, ce_message = msg, ce_metadata = metadata\<rparr>"

definition assertMutable :: "string \<Rightarrow> 'v registry \<Rightarrow> config_error + unit" where
  "assertMutable name r =
     guard_res (\<not> rg_frozen r)
       (configurationError ''hostMessage.registry.frozen'' (name @ '' is frozen'') [(''registry'', name)])"

section \<open>Field codecs and message codecs\<close>

definition field_codec_key :: "string \<Rightarrow> string \<Rightarrow> string" where
  "field_codec_key cid version = cid @ ''@'' @ version"

definition register_field_codec :: "field_codec \<Rightarrow> field_codec registry \<Rightarrow> config_error + field_codec registry" where
  "register_field_codec codec r =
     rbind (assertMutable ''FieldCodecRegistry'' r) (\<lambda>_.
     let key = field_codec_key (fc_id codec) (fc_version codec) in
     rbind (guard_res (lookup r key = None)
       (configurationError ''hostMessage.registry.duplicateFieldCodec''
         ''Field codec is already registered'' [(''key'', key)])) (\<lambda>_.
     Inr (insert_entry key codec r)))"

definition get_field_codec :: "field_codec registry \<Rightarrow> field_codecs" where
  "get_field_codec r cid version = lookup r (field_codec_key cid version)"

definition register_message_codec ::
  "message_codec \<Rightarrow> message_codec registry \<Rightarrow> config_error + message_codec registry" where
  "register_message_codec codec r =
     rbind (assertMutable ''HostMessageCodecRegistry'' r) (\<lambda>_.
     rbind (guard_res (lookup r (mc_id codec) = None)
       (configurationError ''hostMessage.registry.duplicateCodec''
         ''Message codec is already registered'' [(''codecId'', mc_id codec)])) (\<lambda>_.
     Inr (insert_entry (mc_id codec) codec r)))"

definition get_message_codec :: "message_codec registry \<Rightarrow> string \<Rightarrow> message_codec option" where
  "get_message_codec r cid = lookup r cid"

interpretation field_codec_registry: freezable_registry
  register_field_codec freeze lookup rg_frozen
  "\<lambda>codec. field_codec_key (fc_id codec) (fc_version codec)" "\<lambda>_. True"
  by unfold_locales (auto simp: register_field_codec_def assertMutable_def Let_def res_simps)

interpretation message_codec_registry: freezable_registry
  register_message_codec freeze lookup rg_frozen mc_id "\<lambda>_. True"
  by unfold_locales (auto simp: register_message_codec_def assertMutable_def Let_def res_simps)

section \<open>Validation of a profile\<close>

definition length_setting :: "field_length \<Rightarrow> int" where
  "length_setting l = (case l of Fixed n \<Rightarrow> n | Var _ mx _ _ \<Rightarrow> mx)"

definition field_error :: "string \<Rightarrow> string \<Rightarrow> string \<Rightarrow> config_error" where
  "field_error code msg fieldId = configurationError code msg [(''fieldId'', fieldId)]"

definition bcd_valid :: "field_encoding \<Rightarrow> bool" where
  "bcd_valid enc =
     (case enc of
        EncBcd digitCount dir padNibble \<Rightarrow>
          (let nibble = (case padNibble of None \<Rightarrow> 0 | Some n \<Rightarrow> n) in
           0 \<le> nibble \<and> nibble \<le> 15 \<and> (case digitCount of None \<Rightarrow> True | Some n \<Rightarrow> 0 \<le> n))
      | _ \<Rightarrow> True)"

definition custom_available :: "field_codecs \<Rightarrow> field_encoding \<Rightarrow> bool" where
  "custom_available codecs enc =
     (case enc of EncCustom cid version \<Rightarrow> codecs cid version \<noteq> None | _ \<Rightarrow> True)"

definition pattern_valid :: "regexps \<Rightarrow> field_validation option \<Rightarrow> bool" where
  "pattern_valid rx va =
     (case va of
        None \<Rightarrow> True
      | Some v \<Rightarrow> (case val_pattern v of None \<Rightarrow> True | Some p \<Rightarrow> p = [] \<or> rx_valid rx p))"

definition validateField ::
  "service_limits \<Rightarrow> field_codecs \<Rightarrow> regexps \<Rightarrow> field_definition \<Rightarrow> config_error + unit" where
  "validateField lim codecs rx field =
     (let len = length_setting (fd_length field) in
      rbind (guard_res (0 \<le> len \<and> len \<le> lim_maxMessageBytes lim)
        (field_error ''hostMessage.profile.fieldLength'' ''Field length is invalid'' (fd_id field))) (\<lambda>_.
      rbind (guard_res (case fd_padding field of None \<Rightarrow> True | Some p \<Rightarrow> 0 \<le> pad_byte p \<and> pad_byte p \<le> 255)
        (field_error ''hostMessage.profile.padding'' ''Field padding byte is invalid'' (fd_id field))) (\<lambda>_.
      rbind (guard_res (bcd_valid (fd_encoding field))
        (field_error ''hostMessage.profile.bcd'' ''BCD settings are invalid'' (fd_id field))) (\<lambda>_.
      rbind (guard_res (custom_available codecs (fd_encoding field))
        (field_error ''hostMessage.profile.fieldCodecMissing''
          ''Profile field codec is unavailable'' (fd_id field))) (\<lambda>_.
      rbind (guard_res (\<not> (fd_summary field = Some SumValue
          \<and> (fd_class field = Sensitive \<or> fd_class field = Secret)))
        (field_error ''hostMessage.profile.unsafeSummary''
          ''Sensitive field cannot use value summaries'' (fd_id field))) (\<lambda>_.
      guard_res (pattern_valid rx (fd_validation field))
        (field_error ''hostMessage.profile.validation''
          ''Field validation pattern is invalid'' (fd_id field))))))))"

definition or_empty :: "string \<Rightarrow> string" where
  "or_empty s = (if s = [] then ''<empty>'' else s)"

text \<open>The loop over the fields, with the maps and sets filled so far.\<close>

fun validateFields ::
  "service_limits \<Rightarrow> field_codecs \<Rightarrow> regexps \<Rightarrow> (string \<times> field_definition) list \<Rightarrow> int list
     \<Rightarrow> field_definition list \<Rightarrow> config_error + (string \<times> field_definition) list" where
  "validateFields lim codecs rx fdefs des [] = Inr fdefs"
| "validateFields lim codecs rx fdefs des (field # rest) =
     rbind (guard_res (fd_id field \<noteq> [] \<and> map_of fdefs (fd_id field) = None)
       (field_error ''hostMessage.profile.duplicateField''
         ''Profile field ID is invalid or duplicated'' (or_empty (fd_id field)))) (\<lambda>_.
     rbind (guard_res (case fd_dataElement field of
           None \<Rightarrow> True | Some de \<Rightarrow> 2 \<le> de \<and> de \<le> 128 \<and> de \<notin> set des)
       (field_error ''hostMessage.profile.dataElement''
         ''ISO data element is invalid or duplicated'' (fd_id field))) (\<lambda>_.
     rbind (validateField lim codecs rx field) (\<lambda>_.
     validateFields lim codecs rx (put (fd_id field) field fdefs)
       (case fd_dataElement field of None \<Rightarrow> des | Some de \<Rightarrow> de # des) rest)))"

definition message_error :: "string \<Rightarrow> string \<Rightarrow> string \<Rightarrow> config_error" where
  "message_error code msg messageId = configurationError code msg [(''messageId'', messageId)]"

fun validateUses ::
  "service_limits \<Rightarrow> string \<Rightarrow> string \<Rightarrow> (string \<times> field_definition) list \<Rightarrow> string list \<Rightarrow> bool
     \<Rightarrow> field_use list \<Rightarrow> config_error + unit" where
  "validateUses lim codecId messageId fdefs used optionalTail [] = Inr ()"
| "validateUses lim codecId messageId fdefs used optionalTail (FieldUse use # us) =
     rbind (guard_res (map_of fdefs (su_fieldId use) \<noteq> None \<and> su_fieldId use \<notin> set used)
       (message_error ''hostMessage.profile.messageField''
         ''Message field is missing or duplicated'' messageId)) (\<lambda>_.
     let tail = (optionalTail \<or> su_presence use = Some OptionalTrailing) in
     rbind (guard_res (\<not> (codecId = ''fixed-field'' \<and> tail \<and> su_presence use \<noteq> Some OptionalTrailing))
       (message_error ''hostMessage.profile.optionalTail''
         ''Optional trailing fields must remain at the tail'' messageId)) (\<lambda>_.
     validateUses lim codecId messageId fdefs (su_fieldId use # used) tail us))"
| "validateUses lim codecId messageId fdefs used optionalTail (GroupUse use # us) =
     rbind (guard_res (codecId = ''fixed-field'' \<and> 0 < gu_maxItems use
         \<and> gu_maxItems use \<le> lim_maxRepeatItems lim)
       (message_error ''hostMessage.profile.repeatingGroup'' ''Repeating group is invalid'' messageId)) (\<lambda>_.
     rbind (guard_res (list_all (\<lambda>fid. map_of fdefs fid \<noteq> None) (gu_countFieldId use # gu_itemFieldIds use))
       (message_error ''hostMessage.profile.repeatingField''
         ''Repeating group field is missing'' messageId)) (\<lambda>_.
     validateUses lim codecId messageId fdefs used optionalTail us))"

definition is_field_use :: "field_use \<Rightarrow> bool" where
  "is_field_use u = (case u of FieldUse _ \<Rightarrow> True | GroupUse _ \<Rightarrow> False)"

definition lacks_element :: "(string \<times> field_definition) list \<Rightarrow> field_use \<Rightarrow> bool" where
  "lacks_element fdefs u =
     (case u of
        GroupUse _ \<Rightarrow> False
      | FieldUse use \<Rightarrow>
          (case map_of fdefs (su_fieldId use) of None \<Rightarrow> True | Some f \<Rightarrow> fd_dataElement f = None))"

definition use_fieldId :: "field_use \<Rightarrow> string" where
  "use_fieldId u = (case u of FieldUse use \<Rightarrow> su_fieldId use | GroupUse use \<Rightarrow> gu_id use)"

definition four_digits :: "jstext \<Rightarrow> bool" where
  "four_digits t \<longleftrightarrow> length t = 4 \<and> all_digits t"

definition validateMessage ::
  "service_limits \<Rightarrow> string \<Rightarrow> message_definition \<Rightarrow> (string \<times> field_definition) list
     \<Rightarrow> config_error + unit" where
  "validateMessage lim codecId msg fdefs =
     rbind (validateUses lim codecId (md_id msg) fdefs [] False (md_fields msg)) (\<lambda>_.
     if codecId \<noteq> ''iso8583'' then Inr ()
     else
       rbind (guard_res ((case has_mti msg of None \<Rightarrow> False | Some t \<Rightarrow> four_digits t)
           \<and> list_all is_field_use (md_fields msg))
         (message_error ''hostMessage.profile.isoMessage''
           ''ISO message definition is invalid'' (md_id msg))) (\<lambda>_.
       case find (lacks_element fdefs) (md_fields msg) of
         None \<Rightarrow> Inr ()
       | Some u \<Rightarrow>
           Inl (field_error ''hostMessage.profile.isoField''
             ''ISO message field lacks a data element'' (use_fieldId u))))"

fun validateMessages ::
  "service_limits \<Rightarrow> string \<Rightarrow> (string \<times> field_definition) list \<Rightarrow> string list
     \<Rightarrow> message_definition list \<Rightarrow> config_error + unit" where
  "validateMessages lim codecId fdefs ids [] = Inr ()"
| "validateMessages lim codecId fdefs ids (msg # msgs) =
     rbind (guard_res (md_id msg \<noteq> [] \<and> md_id msg \<notin> set ids)
       (message_error ''hostMessage.profile.duplicateMessage''
         ''Message ID is invalid or duplicated'' (or_empty (md_id msg)))) (\<lambda>_.
     rbind (validateMessage lim codecId msg fdefs) (\<lambda>_.
     validateMessages lim codecId fdefs (md_id msg # ids) msgs))"

definition profile_error :: "string \<Rightarrow> string \<Rightarrow> string \<Rightarrow> config_error" where
  "profile_error code msg profileId = configurationError code msg [(''profileId'', profileId)]"

definition validateProfile ::
  "message_codec registry \<Rightarrow> field_codecs \<Rightarrow> service_limits \<Rightarrow> regexps \<Rightarrow> host_profile
     \<Rightarrow> config_error + unit" where
  "validateProfile codecs fieldCodecs lim rx profile =
     rbind (guard_res (pf_id profile \<noteq> [] \<and> pf_version profile \<noteq> []
         \<and> get_message_codec codecs (pf_codecId profile) \<noteq> None)
       (profile_error ''hostMessage.profile.invalid''
         ''Profile identity or codec is invalid'' (or_empty (pf_id profile)))) (\<lambda>_.
     rbind (guard_res (0 < pf_maxMessageBytes profile \<and> pf_maxMessageBytes profile \<le> lim_maxMessageBytes lim)
       (profile_error ''hostMessage.profile.messageLimit''
         ''Profile message limit is invalid'' (pf_id profile))) (\<lambda>_.
     rbind (guard_res (int (length (pf_fieldDefinitions profile)) \<le> lim_maxFixedFields lim)
       (profile_error ''hostMessage.profile.fieldLimit''
         ''Profile has too many fields'' (pf_id profile))) (\<lambda>_.
     rbind (validateFields lim fieldCodecs rx [] [] (pf_fieldDefinitions profile)) (\<lambda>fdefs.
     validateMessages lim (pf_codecId profile) fdefs [] (pf_messages profile)))))"

section \<open>The profile registry\<close>

definition profile_key :: "host_reference \<Rightarrow> string" where
  "profile_key ref = ref_profileId ref @ ''@'' @ ref_profileVersion ref @ '':'' @ ref_messageId ref"

definition message_reference :: "host_profile \<Rightarrow> message_definition \<Rightarrow> host_reference" where
  "message_reference profile msg =
     \<lparr>ref_profileId = pf_id profile, ref_profileVersion = pf_version profile, ref_messageId = md_id msg\<rparr>"

text \<open>A refused message leaves the messages registered before it in place.\<close>

fun register_messages ::
  "host_profile \<Rightarrow> (string \<rightharpoonup> field_definition) \<Rightarrow> message_definition list
     \<Rightarrow> resolved_message registry \<Rightarrow> (config_error + unit) \<times> resolved_message registry" where
  "register_messages profile fieldsById [] r = (Inr (), r)"
| "register_messages profile fieldsById (msg # msgs) r =
     (let key = profile_key (message_reference profile msg) in
      if lookup r key \<noteq> None then
        (Inl (configurationError ''hostMessage.registry.duplicateMessage''
           ''Message definition is already registered'' [(''key'', key)]), r)
      else
        register_messages profile fieldsById msgs
          (insert_entry key
             \<lparr>rs_profile = profile, rs_message = msg, rs_fieldsById = fieldsById\<rparr> r))"

definition fields_by_id :: "field_definition list \<Rightarrow> string \<rightharpoonup> field_definition" where
  "fields_by_id fdefs = map_of (rev (map (\<lambda>f. (fd_id f, f)) fdefs))"

definition register_profile ::
  "message_codec registry \<Rightarrow> field_codecs \<Rightarrow> service_limits \<Rightarrow> regexps \<Rightarrow> host_profile
     \<Rightarrow> resolved_message registry \<Rightarrow> (config_error + unit) \<times> resolved_message registry" where
  "register_profile codecs fieldCodecs lim rx profile r =
     (case rbind (assertMutable ''HostMessageProfileRegistry'' r)
             (\<lambda>_. validateProfile codecs fieldCodecs lim rx profile) of
        Inl e \<Rightarrow> (Inl e, r)
      | Inr _ \<Rightarrow>
          register_messages profile (fields_by_id (pf_fieldDefinitions profile)) (pf_messages profile) r)"

definition get_profile :: "resolved_message registry \<Rightarrow> host_reference \<Rightarrow> resolved_message option" where
  "get_profile r ref = lookup r (profile_key ref)"

end
