(* ===== verification/Host_Registry_Laws.thy ===== *)
theory Host_Registry_Laws
  imports Host_Registries
begin

text \<open>
  What a registered profile guarantees: its fields are found by their identifiers, its
  messages by their references, and the layout of an ISO message is one the ISO codec reads
  back.
\<close>

section \<open>Validated fields\<close>

definition elements_of :: "field_definition list \<Rightarrow> int list" where
  "elements_of fs = concat (map (\<lambda>f. case fd_dataElement f of None \<Rightarrow> [] | Some de \<Rightarrow> [de]) fs)"

definition fields_valid :: "service_limits \<Rightarrow> field_codecs \<Rightarrow> regexps \<Rightarrow> field_definition list \<Rightarrow> bool" where
  "fields_valid lim codecs rx fs \<longleftrightarrow>
     distinct (map fd_id fs) \<and> distinct (elements_of fs) \<and>
     (\<forall>de \<in> set (elements_of fs). 2 \<le> de \<and> de \<le> 128) \<and>
     (\<forall>f \<in> set fs. fd_id f \<noteq> [] \<and> validateField lim codecs rx f = Inr ())"

lemma validateFields_Inr:
  assumes "validateFields lim codecs rx fdefs des fs = Inr fdefs'"
    and "distinct (map fst fdefs)"
  shows "fdefs' = fdefs @ map (\<lambda>f. (fd_id f, f)) fs \<and> distinct (map fst fdefs @ map fd_id fs)
    \<and> fields_valid lim codecs rx fs \<and> set (elements_of fs) \<inter> set des = {}"
  using assms
proof (induction lim codecs rx fdefs des fs rule: validateFields.induct)
  case (2 lim codecs rx fdefs des f fs)
  let ?des = "case fd_dataElement f of None \<Rightarrow> des | Some de \<Rightarrow> de # des"
  have id: "fd_id f \<noteq> []" "map_of fdefs (fd_id f) = None"
    and de: "case fd_dataElement f of None \<Rightarrow> True | Some de \<Rightarrow> 2 \<le> de \<and> de \<le> 128 \<and> de \<notin> set des"
    and vf: "validateField lim codecs rx f = Inr ()"
    and rest: "validateFields lim codecs rx (put (fd_id f) f fdefs) ?des fs = Inr fdefs'"
    using "2.prems"(1) by (auto simp: res_simps)
  have new: "put (fd_id f) f fdefs = fdefs @ [(fd_id f, f)]"
    using id(2) by (simp add: put_new map_of_eq_None_iff)
  have "distinct (map fst (put (fd_id f) f fdefs))" using "2.prems"(2) by (rule distinct_put)
  then have IH: "fdefs' = put (fd_id f) f fdefs @ map (\<lambda>f. (fd_id f, f)) fs
      \<and> distinct (map fst (put (fd_id f) f fdefs) @ map fd_id fs)
      \<and> fields_valid lim codecs rx fs \<and> set (elements_of fs) \<inter> set ?des = {}"
    using "2.IH" rest id de vf by auto
  then have "fd_id f \<notin> fd_id ` set fs" by (auto simp: new)
  then show ?case
    using IH id de vf "2.prems"(2)
    by (cases "fd_dataElement f") (auto simp: new fields_valid_def elements_of_def map_of_eq_None_iff)
qed (simp add: fields_valid_def elements_of_def)

lemma fields_by_id_distinct:
  "distinct (map fd_id fs) \<Longrightarrow> fields_by_id fs = map_of (map (\<lambda>f. (fd_id f, f)) fs)"
  unfolding fields_by_id_def by (intro map_of_inject_set [THEN iffD2]) (simp_all add: rev_map [symmetric] comp_def)

lemma validateProfile_Inr:
  assumes "validateProfile codecs fieldCodecs lim rx profile = Inr ()"
  shows "fields_valid lim fieldCodecs rx (pf_fieldDefinitions profile)"
    and "validateMessages lim (pf_codecId profile)
      (map (\<lambda>f. (fd_id f, f)) (pf_fieldDefinitions profile)) [] (pf_messages profile) = Inr ()"
    and "get_message_codec codecs (pf_codecId profile) \<noteq> None"
    and "0 < pf_maxMessageBytes profile" and "pf_maxMessageBytes profile \<le> lim_maxMessageBytes lim"
  using assms validateFields_Inr [of lim fieldCodecs rx "[]" "[]" "pf_fieldDefinitions profile"]
  by (auto simp: validateProfile_def res_simps)

lemma validateMessages_Inr:
  "validateMessages lim codecId fdefs ids msgs = Inr () \<Longrightarrow>
   distinct (map md_id msgs) \<and> md_id ` set msgs \<inter> set ids = {}
   \<and> (\<forall>msg \<in> set msgs. md_id msg \<noteq> [] \<and> validateMessage lim codecId msg fdefs = Inr ())"
  by (induction lim codecId fdefs ids msgs rule: validateMessages.induct) (auto simp: res_simps)

section \<open>Validated layouts\<close>

lemma validateUses_fields:
  "validateUses lim codecId m fdefs used tail us = Inr () \<Longrightarrow>
   distinct (map use_fieldId (filter is_field_use us))
   \<and> set (map use_fieldId (filter is_field_use us)) \<inter> set used = {}
   \<and> (\<forall>u \<in> set us. is_field_use u \<longrightarrow> map_of fdefs (use_fieldId u) \<noteq> None)"
  by (induction lim codecId m fdefs used tail us rule: validateUses.induct)
    (auto simp: res_simps Let_def is_field_use_def use_fieldId_def)

text \<open>In a fixed-field message an optional trailing field is followed only by such fields.\<close>

definition trailing_field :: "field_use \<Rightarrow> bool" where
  "trailing_field u = (case u of FieldUse use \<Rightarrow> su_presence use = Some OptionalTrailing | GroupUse _ \<Rightarrow> False)"

lemma validateUses_tail:
  "validateUses lim ''fixed-field'' m fdefs used tail us = Inr () \<Longrightarrow>
   (tail \<longrightarrow> (\<forall>u \<in> set us. is_field_use u \<longrightarrow> trailing_field u))
   \<and> (\<forall>i j. i < j \<longrightarrow> j < length us \<longrightarrow> trailing_field (us ! i) \<longrightarrow> is_field_use (us ! j)
        \<longrightarrow> trailing_field (us ! j))"
proof (induction us arbitrary: used tail)
  case (Cons u us)
  define tail' where "tail' = (case u of FieldUse use \<Rightarrow> tail \<or> su_presence use = Some OptionalTrailing
    | GroupUse _ \<Rightarrow> tail)"
  obtain used' where "validateUses lim ''fixed-field'' m fdefs used' tail' us = Inr ()"
    and here: "tail \<longrightarrow> is_field_use u \<longrightarrow> trailing_field u"
    using Cons.prems
    by (cases u) (auto simp: tail'_def res_simps Let_def is_field_use_def trailing_field_def)
  note IH = Cons.IH [OF this(1)]
  have mono: "tail \<longrightarrow> tail'" "trailing_field u \<longrightarrow> tail'"
    by (auto simp: tail'_def trailing_field_def split: field_use.splits)
  show ?case
  proof (intro conjI allI impI)
    fix i j
    assume ij: "i < j" "j < length (u # us)" "trailing_field ((u # us) ! i)" "is_field_use ((u # us) ! j)"
    then obtain j' where j': "j = Suc j'" by (cases j) auto
    show "trailing_field ((u # us) ! j)"
    proof (cases i)
      case 0
      then show ?thesis using ij IH mono j' by auto
    next
      case (Suc i')
      then show ?thesis using ij IH j' by auto
    qed
  qed (use IH here mono in auto)
qed simp

lemma use_fieldId_Field [simp]: "use_fieldId (FieldUse use) = su_fieldId use"
  by (simp add: use_fieldId_def)

lemma isoUses_exist:
  assumes "list_all is_field_use us"
    and "find (lacks_element (map (\<lambda>f. (fd_id f, f)) fs)) us = None" and "distinct (map fd_id fs)"
  shows "\<exists>uses. isoUses ref (fields_by_id fs) us = Inr uses
    \<and> map (su_fieldId \<circ> fst) uses = map use_fieldId us
    \<and> (\<forall>u \<in> set uses. \<exists>f. map_of (map (\<lambda>f. (fd_id f, f)) fs) (su_fieldId (fst u)) = Some f
        \<and> fd_dataElement f = Some (snd u))"
  using assms
proof (induction us)
  case (Cons u us)
  obtain use where u: "u = FieldUse use" using Cons.prems(1) by (cases u) (auto simp: is_field_use_def)
  have rest: "list_all is_field_use us" "find (lacks_element (map (\<lambda>f. (fd_id f, f)) fs)) us = None"
    using Cons.prems(1,2) by (simp_all split: if_splits)
  obtain f de where f: "map_of (map (\<lambda>f. (fd_id f, f)) fs) (su_fieldId use) = Some f"
    "fd_dataElement f = Some de"
    using Cons.prems(2) by (auto simp: u lacks_element_def split: if_splits option.splits)
  obtain uses where "isoUses ref (fields_by_id fs) us = Inr uses"
    "map (su_fieldId \<circ> fst) uses = map use_fieldId us"
    "\<forall>u \<in> set uses. \<exists>f. map_of (map (\<lambda>f. (fd_id f, f)) fs) (su_fieldId (fst u)) = Some f
        \<and> fd_dataElement f = Some (snd u)"
    using Cons.IH [OF rest Cons.prems(3)] by blast
  then show ?case
    using f by (simp add: u fields_by_id_distinct [OF Cons.prems(3)] comp_def)
qed simp

lemma elements_of_inj:
  assumes "distinct (elements_of fs)" and "f \<in> set fs" and "g \<in> set fs"
    and "fd_dataElement f = Some de" and "fd_dataElement g = Some de"
  shows "f = g"
  using assms
proof (induction fs)
  case (Cons h fs)
  have mem: "de \<in> set (elements_of fs)" if "k \<in> set fs" "fd_dataElement k = Some de" for k
    using that by (force simp: elements_of_def)
  have split: "elements_of (h # fs) = (case fd_dataElement h of None \<Rightarrow> [] | Some d \<Rightarrow> [d]) @ elements_of fs"
    by (simp add: elements_of_def)
  show ?case
    using Cons mem [of f] mem [of g] by (auto simp: split)
qed simp

lemma validated_iso_layout:
  assumes v: "validateMessage lim ''iso8583'' msg (map (\<lambda>f. (fd_id f, f)) fs) = Inr ()"
    and fs: "fields_valid lim codecs rx fs"
  shows "\<exists>uses mti. isoUses ref (fields_by_id fs) (md_fields msg) = Inr uses
    \<and> has_mti msg = Some mti \<and> iso_layout_ok uses mti"
proof -
  have val: "validateUses lim ''iso8583'' (md_id msg) (map (\<lambda>f. (fd_id f, f)) fs) [] False (md_fields msg) = Inr ()"
    and fu: "list_all is_field_use (md_fields msg)"
    and el: "find (lacks_element (map (\<lambda>f. (fd_id f, f)) fs)) (md_fields msg) = None"
    using v by (auto simp: validateMessage_def res_simps split: option.splits)
  obtain mti where mti: "has_mti msg = Some mti" "mti_ok mti"
    using v by (auto simp: validateMessage_def res_simps mti_ok_def four_digits_def split: option.splits)
  obtain uses where uses: "isoUses ref (fields_by_id fs) (md_fields msg) = Inr uses"
    and ids: "map (su_fieldId \<circ> fst) uses = map use_fieldId (md_fields msg)"
    and def: "\<forall>u \<in> set uses. \<exists>f. map_of (map (\<lambda>f. (fd_id f, f)) fs) (su_fieldId (fst u)) = Some f
        \<and> fd_dataElement f = Some (snd u)"
    using isoUses_exist [OF fu el, of ref] fs unfolding fields_valid_def by blast
  have "filter is_field_use (md_fields msg) = md_fields msg"
    using fu by (simp add: list_all_iff)
  then have d: "distinct (map (su_fieldId \<circ> fst) uses)"
    using validateUses_fields [OF val] ids by simp
  have field: "\<exists>f \<in> set fs. fd_id f = su_fieldId (fst u) \<and> fd_dataElement f = Some (snd u)"
    if "u \<in> set uses" for u
    using def that by (fastforce dest!: map_of_SomeD)
  have "inj_on snd (set uses)"
  proof (rule inj_onI)
    fix u w assume uw: "u \<in> set uses" "w \<in> set uses" "snd u = snd w"
    obtain f g where "f \<in> set fs" "g \<in> set fs" "fd_id f = su_fieldId (fst u)" "fd_id g = su_fieldId (fst w)"
      "fd_dataElement f = Some (snd u)" "fd_dataElement g = Some (snd u)"
      using field [OF uw(1)] field [OF uw(2)] uw(3) by auto
    then have "su_fieldId (fst u) = su_fieldId (fst w)"
      using elements_of_inj [of fs f g "snd u"] fs by (auto simp: fields_valid_def)
    then show "u = w" using d uw by (auto simp: distinct_map inj_on_def)
  qed
  then have "distinct (map snd uses)" using d by (simp add: distinct_map)
  moreover have "\<forall>u \<in> set uses. 2 \<le> snd u \<and> snd u \<le> 128"
  proof
    fix u assume "u \<in> set uses"
    then obtain f where "f \<in> set fs" "fd_dataElement f = Some (snd u)" using field by blast
    then have "snd u \<in> set (elements_of fs)" by (force simp: elements_of_def)
    then show "2 \<le> snd u \<and> snd u \<le> 128" using fs by (simp add: fields_valid_def)
  qed
  ultimately have "iso_layout_ok uses mti" using d mti(2) by (simp add: iso_layout_ok_def list_all_iff)
  with uses mti(1) show ?thesis by blast
qed

section \<open>Registered profiles\<close>

lemma register_messages_Inr:
  "register_messages profile fbi msgs r = (Inr (), r') \<Longrightarrow>
   (\<forall>msg \<in> set msgs. get_profile r' (message_reference profile msg)
      = Some \<lparr>rs_profile = profile, rs_message = msg, rs_fieldsById = fbi\<rparr>)
   \<and> (\<forall>k v. lookup r k = Some v \<longrightarrow> lookup r' k = Some v)
   \<and> (\<forall>k v. lookup r' k = Some v \<longrightarrow> lookup r k = Some v \<or>
        (\<exists>msg \<in> set msgs. v = \<lparr>rs_profile = profile, rs_message = msg, rs_fieldsById = fbi\<rparr>
           \<and> k = profile_key (message_reference profile msg)))"
proof (induction msgs arbitrary: r)
  case (Cons msg msgs)
  let ?k = "profile_key (message_reference profile msg)"
  let ?v = "\<lparr>rs_profile = profile, rs_message = msg, rs_fieldsById = fbi\<rparr>"
  have new: "lookup r ?k = None"
    and rest: "register_messages profile fbi msgs (insert_entry ?k ?v r) = (Inr (), r')"
    using Cons.prems by (auto simp: Let_def split: if_splits)
  note IH = Cons.IH [OF rest]
  have "lookup r' ?k = Some ?v" using IH by simp
  moreover have "lookup r' k = Some v" if "lookup r k = Some v" for k v
    using IH that new by (metis fun_upd_apply lookup_simps(3) option.distinct(1))
  moreover have "lookup r k = Some v \<or> (\<exists>m \<in> set (msg # msgs).
      v = \<lparr>rs_profile = profile, rs_message = m, rs_fieldsById = fbi\<rparr>
      \<and> k = profile_key (message_reference profile m))" if "lookup r' k = Some v" for k v
  proof (cases "k = ?k")
    case True
    with that \<open>lookup r' ?k = Some ?v\<close> show ?thesis by auto
  next
    case False
    have "lookup (insert_entry ?k ?v r) k = Some v \<or> (\<exists>m \<in> set msgs.
        v = \<lparr>rs_profile = profile, rs_message = m, rs_fieldsById = fbi\<rparr>
        \<and> k = profile_key (message_reference profile m))"
      using IH that by blast
    with False show ?thesis by simp
  qed
  ultimately show ?case
    using IH by (simp add: get_profile_def)
qed simp

lemma register_messages_frozen: "rg_frozen (snd (register_messages profile fbi msgs r)) = rg_frozen r"
  by (induction msgs arbitrary: r) (auto simp: Let_def)

end
