(* ===== verification/Host_Service.thy ===== *)
theory Host_Service
  imports Host_Registry_Laws Host_Contracts
begin

text \<open>
  \<^verbatim>\<open>packages/host-message/src/service.ts\<close>: the service over the three registries, and its
  construction from the options of a project.
\<close>

section \<open>Safe summaries\<close>

text \<open>
  \<^verbatim>\<open>packages/host-message/src/safety.ts\<close>: the summary of a decoded message that may be
  logged. The laws: the summary of a message depends on a field that is only summarised by its
  presence through nothing but that presence, and a masked text shows at most the characters
  its policy names.
\<close>

datatype summary_value = SumText jstext | SumNumber nat | SumBool bool

record safe_summary =
  ss_reference :: host_reference
  ss_wireLength :: nat
  ss_fields :: "(string \<times> summary_value) list"

definition defaultPolicy :: "field_definition \<Rightarrow> summary_policy" where
  "defaultPolicy field =
     (case fd_class field of
        Public \<Rightarrow> SumValue
      | Internal \<Rightarrow> SumPresence
      | Sensitive \<Rightarrow> SumMasked None (Some 4)
      | Secret \<Rightarrow> SumPresence)"

definition at_least_zero :: "int option \<Rightarrow> nat" where
  "at_least_zero n = nat (case n of None \<Rightarrow> 0 | Some i \<Rightarrow> max 0 i)"

definition mask_text :: "nat \<Rightarrow> nat \<Rightarrow> jstext \<Rightarrow> jstext" where
  "mask_text first final t =
     (let visible = min (length t) (first + final) in
      js_slice 0 (Some (int first)) t @ replicate (length t - visible) 42
        @ (if final = 0 then [] else js_slice (- int final) None t))"

definition summarizeScalar :: "scalar \<Rightarrow> summary_policy \<Rightarrow> summary_value option" where
  "summarizeScalar v policy =
     (case policy of
        SumOmit \<Rightarrow> None
      | SumPresence \<Rightarrow>
          Some (SumBool (0 < (case v of SText t \<Rightarrow> length t | SBytes bs \<Rightarrow> length bs)))
      | SumValue \<Rightarrow> Some (case v of SText t \<Rightarrow> SumText t | SBytes bs \<Rightarrow> SumNumber (length bs))
      | SumMasked showFirst showLast \<Rightarrow>
          Some (case v of
            SBytes bs \<Rightarrow> SumNumber (length bs)
          | SText t \<Rightarrow> SumText (mask_text (at_least_zero showFirst) (at_least_zero showLast) t)))"

definition summarize :: "field_value \<Rightarrow> summary_policy \<Rightarrow> summary_value option" where
  "summarize val policy =
     (case val of Items items \<Rightarrow> Some (SumNumber (length items)) | Scalar v \<Rightarrow> summarizeScalar v policy)"

definition policy_of :: "field_definition \<Rightarrow> summary_policy" where
  "policy_of field = (case fd_summary field of None \<Rightarrow> defaultPolicy field | Some p \<Rightarrow> p)"

fun summarizeFields ::
  "(string \<rightharpoonup> field_definition) \<Rightarrow> field_set \<Rightarrow> (string \<times> summary_value) list
     \<Rightarrow> (string \<times> summary_value) list" where
  "summarizeFields fdefs [] out = out"
| "summarizeFields fdefs ((fid, val) # rest) out =
     summarizeFields fdefs rest
       (case val of
          Items items \<Rightarrow> put (fid @ ''.count'') (SumNumber (length items)) out
        | Scalar v \<Rightarrow>
            (case fdefs fid of
               None \<Rightarrow> out
             | Some field \<Rightarrow>
                 (case summarize val (policy_of field) of
                    None \<Rightarrow> out
                  | Some s \<Rightarrow> put fid s out)))"

definition createSafeSummary ::
  "unpacked_message \<Rightarrow> (string \<rightharpoonup> field_definition) \<Rightarrow> safe_summary" where
  "createSafeSummary msg fdefs =
     \<lparr>ss_reference = um_reference msg, ss_wireLength = um_wireLength msg,
      ss_fields = summarizeFields fdefs (um_fields msg) []\<rparr>"

section \<open>Laws\<close>

text \<open>
  Two values look alike to a summary: the same value, or, under a policy that shows presence
  or nothing, two values that are both empty or both not.
\<close>

definition scalar_empty :: "scalar \<Rightarrow> bool" where
  "scalar_empty v = (case v of SText t \<Rightarrow> t = [] | SBytes bs \<Rightarrow> bs = [])"

definition hides :: "summary_policy \<Rightarrow> bool" where
  "hides policy \<longleftrightarrow> policy = SumOmit \<or> policy = SumPresence"

fun looks_alike :: "(string \<rightharpoonup> field_definition) \<Rightarrow> string \<times> field_value \<Rightarrow> string \<times> field_value \<Rightarrow> bool" where
  "looks_alike fdefs (k, Items xs) (k', Items ys) \<longleftrightarrow> k = k' \<and> length xs = length ys"
| "looks_alike fdefs (k, Scalar v) (k', Scalar w) \<longleftrightarrow>
     k = k' \<and> (v = w \<or>
       (case fdefs k of
          None \<Rightarrow> True
        | Some field \<Rightarrow> hides (policy_of field) \<and> scalar_empty v = scalar_empty w))"
| "looks_alike fdefs _ _ \<longleftrightarrow> False"

lemma summarize_hidden:
  "hides p \<Longrightarrow> scalar_empty v = scalar_empty w \<Longrightarrow> summarizeScalar v p = summarizeScalar w p"
  by (cases v; cases w) (auto simp: hides_def summarizeScalar_def scalar_empty_def)

lemma summarizeFields_alike:
  "list_all2 (looks_alike fdefs) xs ys \<Longrightarrow> summarizeFields fdefs xs out = summarizeFields fdefs ys out"
proof (induction xs ys arbitrary: out rule: list_all2_induct)
  case (Cons x xs y ys)
  obtain k v k' w where xy: "x = (k, v)" "y = (k', w)" by (cases x; cases y)
  have "summarizeFields fdefs [x] out = summarizeFields fdefs [y] out" for out
    using Cons.hyps(1)
    by (cases v; cases w) (auto simp: xy summarize_def split: option.splits dest: summarize_hidden)
  with Cons.IH show ?case by (simp add: xy)
qed simp

text \<open>A masked text is the text with stars for what is not shown, where that is not too short.\<close>

lemma mask_text_shape:
  assumes "first + final \<le> length t"
  shows "mask_text first final t
    = take first t @ replicate (length t - first - final) 42 @ drop (length t - final) t"
  using assms by (auto simp: mask_text_def Let_def)

lemma mask_text_hidden:
  assumes "first + final \<le> length t" and "length s = length t"
    and "take first s = take first t" and "drop (length t - final) s = drop (length t - final) t"
  shows "mask_text first final s = mask_text first final t"
  using assms by (simp add: mask_text_shape)


definition ABSOLUTE_MAX_MESSAGE_BYTES :: int where
  "ABSOLUTE_MAX_MESSAGE_BYTES = 16 * 1024 * 1024"

definition DEFAULT_SERVICE_LIMITS :: service_limits where
  "DEFAULT_SERVICE_LIMITS =
     \<lparr>lim_maxMessageBytes = 64 * 1024, lim_maxFixedFields = 512, lim_maxRepeatItems = 256,
      lim_maxRepeatDepth = 1\<rparr>"

record limit_options =
  lo_maxMessageBytes :: "int option"
  lo_maxFixedFields :: "int option"
  lo_maxRepeatItems :: "int option"
  lo_maxRepeatDepth :: "int option"

record service_options =
  so_allowPartial :: "bool option"
  so_fieldCodecs :: "field_codec list"
  so_limits :: limit_options
  so_messageCodecs :: "message_codec list"
  so_profiles :: "host_profile list"

definition value_or :: "'a \<Rightarrow> 'a option \<Rightarrow> 'a" where
  "value_or d x = (case x of None \<Rightarrow> d | Some v \<Rightarrow> v)"

definition resolveLimits :: "limit_options \<Rightarrow> config_error + service_limits" where
  "resolveLimits input =
     (let limits =
            \<lparr>lim_maxMessageBytes = value_or (lim_maxMessageBytes DEFAULT_SERVICE_LIMITS) (lo_maxMessageBytes input),
             lim_maxFixedFields = value_or (lim_maxFixedFields DEFAULT_SERVICE_LIMITS) (lo_maxFixedFields input),
             lim_maxRepeatItems = value_or (lim_maxRepeatItems DEFAULT_SERVICE_LIMITS) (lo_maxRepeatItems input),
             lim_maxRepeatDepth = value_or (lim_maxRepeatDepth DEFAULT_SERVICE_LIMITS) (lo_maxRepeatDepth input)\<rparr>
      in if lim_maxMessageBytes limits \<le> 0 \<or> lim_maxMessageBytes limits > ABSOLUTE_MAX_MESSAGE_BYTES
            \<or> lim_maxFixedFields limits \<le> 0 \<or> lim_maxRepeatItems limits \<le> 0
            \<or> lim_maxRepeatDepth limits < 0 \<or> lim_maxRepeatDepth limits > 1
         then Inl (configurationError ''hostMessage.limit.invalid''
                ''Host Message Service limits are invalid'' [])
         else Inr limits)"

section \<open>The service\<close>

record host_runtime =
  rt_codecs :: "message_codec registry"
  rt_fieldCodecs :: "field_codec registry"
  rt_profiles :: "resolved_message registry"
  rt_limits :: service_limits
  rt_allowPartial :: bool
  rt_regexps :: regexps

definition missingDefinition :: "host_reference \<Rightarrow> fault" where
  "missingDefinition ref =
     Fails (hostMessageFailure ''hostMessage.profile.messageMissing''
       ''Host message definition is unavailable'' (referenceDetails ref))"

definition missingCodec :: "host_reference \<Rightarrow> fault" where
  "missingCodec ref =
     Fails (hostMessageFailure ''hostMessage.codec.missing''
       ''Host message codec is unavailable'' (referenceDetails ref))"

text \<open>An exception of a codec of the project becomes a failure; one of a built-in codec is thrown on.\<close>

definition contain :: "message_codec \<Rightarrow> host_reference \<Rightarrow> 'a wire \<Rightarrow> 'a wire" where
  "contain codec ref r =
     (case r of
        Inl (Throws x) \<Rightarrow>
          if mc_builtIn codec then Inl (Throws x)
          else Inl (Fails (hostMessageFailure ''hostMessage.codec.failed'' ''Message codec failed''
                 (referenceDetails ref)))
      | _ \<Rightarrow> r)"

definition pack_context_of :: "host_runtime \<Rightarrow> resolved_message \<Rightarrow> pack_input \<Rightarrow> pack_context" where
  "pack_context_of rt resolved input =
     \<lparr>cx_resolved = resolved, cx_reference = pi_reference input,
      cx_fieldCodecs = get_field_codec (rt_fieldCodecs rt), cx_limits = rt_limits rt,
      cx_regexps = rt_regexps rt, px_fields = pi_fields input\<rparr>"

definition unpack_context_of :: "host_runtime \<Rightarrow> resolved_message \<Rightarrow> unpack_input \<Rightarrow> unpack_context" where
  "unpack_context_of rt resolved input =
     \<lparr>cx_resolved = resolved, cx_reference = ui_reference input,
      cx_fieldCodecs = get_field_codec (rt_fieldCodecs rt), cx_limits = rt_limits rt,
      cx_regexps = rt_regexps rt, ux_bytes = ui_bytes input,
      ux_allowPartial = value_or (rt_allowPartial rt) (ui_allowPartial input)\<rparr>"

definition service_pack :: "host_runtime \<Rightarrow> pack_input \<Rightarrow> packed_message wire" where
  "service_pack rt input =
     (case get_profile (rt_profiles rt) (pi_reference input) of
        None \<Rightarrow> Inl (missingDefinition (pi_reference input))
      | Some resolved \<Rightarrow>
          (case get_message_codec (rt_codecs rt) (pf_codecId (rs_profile resolved)) of
             None \<Rightarrow> Inl (missingCodec (pi_reference input))
           | Some codec \<Rightarrow>
               contain codec (pi_reference input) (mc_pack codec (pack_context_of rt resolved input))))"

definition service_unpack :: "host_runtime \<Rightarrow> unpack_input \<Rightarrow> decoded wire" where
  "service_unpack rt input =
     (case get_profile (rt_profiles rt) (ui_reference input) of
        None \<Rightarrow> Inl (missingDefinition (ui_reference input))
      | Some resolved \<Rightarrow>
          (let n = int (length (ui_bytes input));
               profileMax = pf_maxMessageBytes (rs_profile resolved);
               serviceMax = lim_maxMessageBytes (rt_limits rt) in
           if n > profileMax \<or> n > serviceMax then
             Inl (Fails (hostMessageFailure ''hostMessage.limit.exceeded''
               ''Message exceeds its wire limit''
               ((referenceDetails (ui_reference input))\<lparr>hd_actual := Some n,
                  hd_limit := Some (min profileMax serviceMax)\<rparr>)))
           else
             (case get_message_codec (rt_codecs rt) (pf_codecId (rs_profile resolved)) of
                None \<Rightarrow> Inl (missingCodec (ui_reference input))
              | Some codec \<Rightarrow>
                  contain codec (ui_reference input)
                    (mc_unpack codec (unpack_context_of rt resolved input)))))"

definition service_safeSummary :: "host_runtime \<Rightarrow> unpacked_message \<Rightarrow> config_error + safe_summary" where
  "service_safeSummary rt msg =
     (let ref = um_reference msg in
      case get_profile (rt_profiles rt) ref of
        None \<Rightarrow>
          Inl (configurationError ''hostMessage.profile.missing''
            ''Cannot summarize an unknown message definition''
            [(''messageId'', ref_messageId ref), (''profileId'', ref_profileId ref),
             (''profileVersion'', ref_profileVersion ref)])
      | Some resolved \<Rightarrow> Inr (createSafeSummary msg (rs_fieldsById resolved)))"

section \<open>Construction\<close>

definition FixedFieldMessageCodec :: message_codec where
  "FixedFieldMessageCodec =
     \<lparr>mc_id = ''fixed-field'', mc_builtIn = True, mc_pack = fixed_pack, mc_unpack = fixed_unpack\<rparr>"

definition Iso8583MessageCodec :: message_codec where
  "Iso8583MessageCodec =
     \<lparr>mc_id = ''iso8583'', mc_builtIn = True, mc_pack = iso_pack, mc_unpack = iso_unpack\<rparr>"

fun register_profiles ::
  "message_codec registry \<Rightarrow> field_codecs \<Rightarrow> service_limits \<Rightarrow> regexps \<Rightarrow> host_profile list
     \<Rightarrow> resolved_message registry \<Rightarrow> config_error + resolved_message registry" where
  "register_profiles codecs fieldCodecs lim rx [] r = Inr r"
| "register_profiles codecs fieldCodecs lim rx (p # ps) r =
     (case register_profile codecs fieldCodecs lim rx p r of
        (Inl e, _) \<Rightarrow> Inl e
      | (Inr _, r') \<Rightarrow> register_profiles codecs fieldCodecs lim rx ps r')"

definition createHostMessageService :: "regexps \<Rightarrow> service_options \<Rightarrow> config_error + host_runtime" where
  "createHostMessageService rx options =
     rbind (resolveLimits (so_limits options)) (\<lambda>limits.
     rbind (register_all register_field_codec (so_fieldCodecs options) new_registry) (\<lambda>fieldCodecs.
     rbind (register_all register_message_codec
       ([FixedFieldMessageCodec, Iso8583MessageCodec] @ so_messageCodecs options) new_registry) (\<lambda>codecs.
     rbind (register_profiles codecs (get_field_codec fieldCodecs) limits rx
       (so_profiles options) new_registry) (\<lambda>profiles.
     Inr \<lparr>rt_codecs = freeze codecs, rt_fieldCodecs = freeze fieldCodecs,
        rt_profiles = freeze profiles, rt_limits = limits,
        rt_allowPartial = value_or False (so_allowPartial options), rt_regexps = rx\<rparr>))))"

section \<open>What a service built from options guarantees\<close>

definition resolved_by :: "service_options \<Rightarrow> resolved_message \<Rightarrow> bool" where
  "resolved_by options r \<longleftrightarrow>
     rs_profile r \<in> set (so_profiles options) \<and> rs_message r \<in> set (pf_messages (rs_profile r)) \<and>
     rs_fieldsById r = fields_by_id (pf_fieldDefinitions (rs_profile r))"

lemma register_profile_Inr:
  assumes "register_profile codecs fieldCodecs lim rx profile r = (Inr u, r')"
  shows "validateProfile codecs fieldCodecs lim rx profile = Inr ()"
    and "register_messages profile (fields_by_id (pf_fieldDefinitions profile)) (pf_messages profile) r
      = (Inr (), r')"
  using assms by (auto simp: register_profile_def res_simps split: sum.splits)

lemma register_profiles_Inr:
  "register_profiles codecs fieldCodecs lim rx ps r = Inr r' \<Longrightarrow>
   (\<forall>p \<in> set ps. validateProfile codecs fieldCodecs lim rx p = Inr () \<and>
      (\<forall>msg \<in> set (pf_messages p). get_profile r' (message_reference p msg) =
         Some \<lparr>rs_profile = p, rs_message = msg, rs_fieldsById = fields_by_id (pf_fieldDefinitions p)\<rparr>))
   \<and> (\<forall>k v. lookup r k = Some v \<longrightarrow> lookup r' k = Some v)
   \<and> (\<forall>k v. lookup r' k = Some v \<longrightarrow> lookup r k = Some v \<or>
        rs_profile v \<in> set ps \<and> rs_message v \<in> set (pf_messages (rs_profile v))
        \<and> rs_fieldsById v = fields_by_id (pf_fieldDefinitions (rs_profile v)))"
proof (induction ps arbitrary: r)
  case (Cons p ps)
  obtain u r1 where step: "register_profile codecs fieldCodecs lim rx p r = (Inr u, r1)"
    and rest: "register_profiles codecs fieldCodecs lim rx ps r1 = Inr r'"
    using Cons.prems by (auto split: prod.splits sum.splits)
  note one = register_profile_Inr [OF step] and IH = Cons.IH [OF rest]
  note msgs = register_messages_Inr [OF one(2)]
  show ?case
  proof (intro conjI ballI allI impI)
    fix q assume "q \<in> set (p # ps)"
    then show "validateProfile codecs fieldCodecs lim rx q = Inr ()" using one(1) IH by auto
  next
    fix q msg assume q: "q \<in> set (p # ps)" and msg: "msg \<in> set (pf_messages q)"
    show "get_profile r' (message_reference q msg) =
      Some \<lparr>rs_profile = q, rs_message = msg, rs_fieldsById = fields_by_id (pf_fieldDefinitions q)\<rparr>"
    proof (cases "q \<in> set ps")
      case True with IH msg show ?thesis by blast
    next
      case False
      with q msg msgs IH show ?thesis by (auto simp: get_profile_def)
    qed
  next
    fix k v assume "lookup r k = Some v"
    then show "lookup r' k = Some v" using msgs IH by blast
  next
    fix k v assume "lookup r' k = Some v"
    then have "lookup r1 k = Some v \<or> rs_profile v \<in> set ps \<and> rs_message v \<in> set (pf_messages (rs_profile v))
        \<and> rs_fieldsById v = fields_by_id (pf_fieldDefinitions (rs_profile v))"
      using IH by blast
    moreover have "lookup r k = Some v \<or> (\<exists>msg \<in> set (pf_messages p).
        v = \<lparr>rs_profile = p, rs_message = msg, rs_fieldsById = fields_by_id (pf_fieldDefinitions p)\<rparr>)"
      if "lookup r1 k = Some v" using msgs that by blast
    ultimately show "lookup r k = Some v \<or> rs_profile v \<in> set (p # ps)
        \<and> rs_message v \<in> set (pf_messages (rs_profile v))
        \<and> rs_fieldsById v = fields_by_id (pf_fieldDefinitions (rs_profile v))"
      by fastforce
  qed
qed simp

lemma createHostMessageService_Inr:
  assumes "createHostMessageService rx options = Inr rt"
  obtains limits fieldCodecs codecs profiles where
    "register_all register_field_codec (so_fieldCodecs options) new_registry = Inr fieldCodecs"
    and "register_all register_message_codec
      ([FixedFieldMessageCodec, Iso8583MessageCodec] @ so_messageCodecs options) new_registry = Inr codecs"
    and "register_profiles codecs (get_field_codec fieldCodecs) limits rx (so_profiles options)
      new_registry = Inr profiles"
    and "rt = \<lparr>rt_codecs = freeze codecs, rt_fieldCodecs = freeze fieldCodecs,
        rt_profiles = freeze profiles, rt_limits = limits,
        rt_allowPartial = value_or False (so_allowPartial options), rt_regexps = rx\<rparr>"
  using assms by (auto simp: createHostMessageService_def res_simps simp del: register_all.simps append.simps)

lemma built_in_codecs:
  assumes "createHostMessageService rx options = Inr rt"
  shows "get_message_codec (rt_codecs rt) ''fixed-field'' = Some FixedFieldMessageCodec"
    and "get_message_codec (rt_codecs rt) ''iso8583'' = Some Iso8583MessageCodec"
proof -
  obtain codecs where reg: "register_all register_message_codec
      ([FixedFieldMessageCodec, Iso8583MessageCodec] @ so_messageCodecs options) new_registry = Inr codecs"
    and rt: "rt_codecs rt = freeze codecs"
    using createHostMessageService_Inr [OF assms] by (metis host_runtime.select_convs(1))
  have look: "lookup codecs = lookup new_registry ++ map_of (map (\<lambda>c. (mc_id c, c))
      ([FixedFieldMessageCodec, Iso8583MessageCodec] @ so_messageCodecs options))"
    using message_codec_registry.register_all_get [OF reg] by blast
  show "get_message_codec (rt_codecs rt) ''fixed-field'' = Some FixedFieldMessageCodec"
    and "get_message_codec (rt_codecs rt) ''iso8583'' = Some Iso8583MessageCodec"
    by (simp_all add: rt get_message_codec_def look FixedFieldMessageCodec_def Iso8583MessageCodec_def map_add_def)
qed

lemma service_profile:
  assumes svc: "createHostMessageService rx options = Inr rt"
    and get: "get_profile (rt_profiles rt) ref = Some resolved"
  shows "resolved_by options resolved"
    and "fields_valid (rt_limits rt) (get_field_codec (rt_fieldCodecs rt)) rx
      (pf_fieldDefinitions (rs_profile resolved))"
    and "validateMessage (rt_limits rt) (pf_codecId (rs_profile resolved)) (rs_message resolved)
      (map (\<lambda>f. (fd_id f, f)) (pf_fieldDefinitions (rs_profile resolved))) = Inr ()"
proof -
  obtain limits fieldCodecs codecs profiles where
    reg: "register_profiles codecs (get_field_codec fieldCodecs) limits rx (so_profiles options)
      new_registry = Inr profiles"
    and rt: "rt_profiles rt = freeze profiles" "rt_limits rt = limits" "rt_fieldCodecs rt = freeze fieldCodecs"
    using createHostMessageService_Inr [OF svc] by (metis host_runtime.select_convs)
  have fc: "get_field_codec (freeze fieldCodecs) = get_field_codec fieldCodecs"
    by (simp add: get_field_codec_def fun_eq_iff)
  have look: "lookup profiles (profile_key ref) = Some resolved"
    using get by (simp add: rt get_profile_def)
  then show r: "resolved_by options resolved"
    using register_profiles_Inr [OF reg] by (auto simp: resolved_by_def)
  then have "validateProfile codecs (get_field_codec fieldCodecs) limits rx (rs_profile resolved) = Inr ()"
    using register_profiles_Inr [OF reg] by (auto simp: resolved_by_def)
  note v = validateProfile_Inr [OF this]
  show "fields_valid (rt_limits rt) (get_field_codec (rt_fieldCodecs rt)) rx
      (pf_fieldDefinitions (rs_profile resolved))"
    using v(1) by (simp add: rt fc)
  show "validateMessage (rt_limits rt) (pf_codecId (rs_profile resolved)) (rs_message resolved)
      (map (\<lambda>f. (fd_id f, f)) (pf_fieldDefinitions (rs_profile resolved))) = Inr ()"
    using validateMessages_Inr [OF v(2)] r by (auto simp: resolved_by_def rt)
qed

text \<open>What both codecs check of the size of a packed message is what the service checks on reading.\<close>

definition reply_of :: "pack_input \<Rightarrow> packed_message \<Rightarrow> unpack_input" where
  "reply_of input m =
     \<lparr>ui_reference = pi_reference input, ui_bytes = pm_bytes m, ui_allowPartial = None\<rparr>"

lemma same_service_contexts [simp]:
  "same_service (pack_context_of rt r input) (unpack_context_of rt r (reply_of input m))"
  by (simp add: same_service_def pack_context_of_def unpack_context_of_def reply_of_def)

lemma within_limit:
  "iso_pack ctx = Inr m \<Longrightarrow> \<not> exceeds_limit ctx (pm_bytes m)"
  "fixed_pack ctx = Inr m \<Longrightarrow> \<not> exceeds_limit ctx (pm_bytes m)"
  by (auto simp: iso_pack_def fixed_pack_def Let_def res_simps split: option.splits sum.splits if_splits)

lemma contain_Inr: "contain codec ref r = Inr x \<longleftrightarrow> r = Inr x"
  by (auto simp: contain_def split: sum.splits fault.splits)

lemma service_pack_Inr:
  assumes "service_pack rt input = Inr m"
    and "get_profile (rt_profiles rt) (pi_reference input) = Some resolved"
    and "get_message_codec (rt_codecs rt) (pf_codecId (rs_profile resolved)) = Some codec"
  shows "mc_pack codec (pack_context_of rt resolved input) = Inr m"
  using assms by (simp add: service_pack_def contain_Inr)

lemma service_unpack_reply:
  assumes "get_profile (rt_profiles rt) (pi_reference input) = Some resolved"
    and "get_message_codec (rt_codecs rt) (pf_codecId (rs_profile resolved)) = Some codec"
    and "\<not> exceeds_limit (pack_context_of rt resolved input) (pm_bytes m)"
  shows "service_unpack rt (reply_of input m)
    = contain codec (pi_reference input) (mc_unpack codec (unpack_context_of rt resolved (reply_of input m)))"
  using assms by (simp add: service_unpack_def exceeds_limit_def pack_context_of_def reply_of_def Let_def)

end
