(* ===== verification/Host_Properties.thy ===== *)
theory Host_Properties
  imports Host_Service
begin

text \<open>
  The properties of the Host Message Service: what its two codecs, its registries and its
  summaries guarantee to a project that uses them.
\<close>

section \<open>A project with a profile of either kind\<close>

text \<open>
  A small project: one ISO 8583 profile and one fixed-field profile, with the values of a
  message of each. The properties are applied to them.
\<close>

definition ex_rx :: regexps where
  "ex_rx = \<lparr>rx_valid = (\<lambda>_. True), rx_test = (\<lambda>_ _. True)\<rparr>"

definition ex_field :: "string \<Rightarrow> data_classification \<Rightarrow> int option \<Rightarrow> field_length \<Rightarrow> field_definition" where
  "ex_field fid cls de len =
     \<lparr>fd_id = fid, fd_class = cls, fd_dataElement = de, fd_encoding = EncAscii, fd_length = len,
      fd_allowBlank = False, fd_padding = None, fd_summary = None, fd_validation = None\<rparr>"

definition ex_use :: "string \<Rightarrow> field_presence \<Rightarrow> field_use" where
  "ex_use fid p = FieldUse \<lparr>su_fieldId = fid, su_presence = Some p\<rparr>"

definition ex_iso_profile :: host_profile where
  "ex_iso_profile =
     \<lparr>pf_id = ''iso'', pf_version = ''1'', pf_codecId = ''iso8583'', pf_maxMessageBytes = 256,
      pf_fieldDefinitions =
        [ex_field ''net'' Public (Some 70) (Fixed 3),
         ex_field ''pan'' Sensitive (Some 2) (Var LLVAR 19 LenAscii None),
         (ex_field ''pin'' Secret (Some 52) (Fixed 2))\<lparr>fd_encoding := EncBinary\<rparr>],
      pf_messages =
        [\<lparr>md_id = ''auth'', md_direction = Request,
          md_fields = [ex_use ''net'' Required, ex_use ''pan'' Required, ex_use ''pin'' Optional],
          md_bitmapEncoding = None, md_mti = Some (js ''0200''), md_mtiEncoding = Some MtiBcd\<rparr>]\<rparr>"

definition ex_group :: group_use where
  "ex_group =
     \<lparr>gu_id = ''notes'', gu_countFieldId = ''count'', gu_itemFieldIds = [''unit''], gu_maxItems = 4,
      gu_fixedAreaBytes = Some 8, gu_padByte = None, gu_presence = None\<rparr>"

definition ex_fixed_profile :: host_profile where
  "ex_fixed_profile =
     \<lparr>pf_id = ''fix'', pf_version = ''1'', pf_codecId = ''fixed-field'', pf_maxMessageBytes = 256,
      pf_fieldDefinitions =
        [ex_field ''kind'' Public None (Fixed 2),
         (ex_field ''count'' Public None (Fixed 2))\<lparr>fd_padding := Some \<lparr>pad_byte = 48,
            pad_direction = PadLeft, pad_strip = False\<rparr>\<rparr>,
         ex_field ''unit'' Public None (Var LLVAR 9 LenAscii None),
         ex_field ''tail'' Public None (Fixed 1)],
      pf_messages =
        [\<lparr>md_id = ''cash'', md_direction = Request,
          md_fields = [ex_use ''kind'' Required, GroupUse ex_group, ex_use ''tail'' OptionalTrailing],
          md_bitmapEncoding = None, md_mti = None, md_mtiEncoding = None\<rparr>]\<rparr>"

definition ex_options :: service_options where
  "ex_options =
     \<lparr>so_allowPartial = None, so_fieldCodecs = [],
      so_limits = \<lparr>lo_maxMessageBytes = None, lo_maxFixedFields = None, lo_maxRepeatItems = None,
        lo_maxRepeatDepth = None\<rparr>,
      so_messageCodecs = [], so_profiles = [ex_iso_profile, ex_fixed_profile]\<rparr>"

definition ex_service :: host_runtime where
  "ex_service = projr (createHostMessageService ex_rx ex_options)"

definition ex_iso_ref :: host_reference where
  "ex_iso_ref = \<lparr>ref_profileId = ''iso'', ref_profileVersion = ''1'', ref_messageId = ''auth''\<rparr>"

definition ex_fixed_ref :: host_reference where
  "ex_fixed_ref = \<lparr>ref_profileId = ''fix'', ref_profileVersion = ''1'', ref_messageId = ''cash''\<rparr>"


definition ex_fixed_input :: pack_input where
  "ex_fixed_input =
     \<lparr>pi_reference = ex_fixed_ref,
      pi_fields = [(''kind'', Scalar (SText (js ''CD''))),
        (''notes'', Items [[(''unit'', Scalar (SText (js ''5'')))], [(''unit'', Scalar (SText (js ''20'')))]])]\<rparr>"

definition is_ok :: "'e + 'a \<Rightarrow> bool" where
  "is_ok r = (case r of Inl _ \<Rightarrow> False | Inr _ \<Rightarrow> True)"

lemma is_ok_projr: "is_ok r \<Longrightarrow> r = Inr (projr r)"
  by (cases r) (simp_all add: is_ok_def)

lemma ex_service_built: "createHostMessageService ex_rx ex_options = Inr ex_service"
  unfolding ex_service_def by (rule is_ok_projr) code_simp


section \<open>Round trips of whole messages\<close>

lemma iso_resolved:
  assumes svc: "createHostMessageService rx options = Inr rt"
    and get: "get_profile (rt_profiles rt) ref = Some resolved"
    and iso: "pf_codecId (rs_profile resolved) = ''iso8583''"
  shows "\<exists>uses mti. isoUses ref' (rs_fieldsById resolved) (md_fields (rs_message resolved)) = Inr uses
    \<and> has_mti (rs_message resolved) = Some mti \<and> iso_layout_ok uses mti"
  using service_profile [OF svc get] iso
    validated_iso_layout [of "rt_limits rt" "rs_message resolved" "pf_fieldDefinitions (rs_profile resolved)"
      "get_field_codec (rt_fieldCodecs rt)" rx ref']
  by (auto simp: resolved_by_def)


definition ex_iso_resolved :: resolved_message where
  "ex_iso_resolved = the (get_profile (rt_profiles ex_service) ex_iso_ref)"



definition is_some :: "'a option \<Rightarrow> bool" where
  "is_some x = (case x of None \<Rightarrow> False | Some _ \<Rightarrow> True)"

lemma is_some_the: "is_some x \<Longrightarrow> x = Some (the x)"
  by (cases x) (simp_all add: is_some_def)



definition ex_fixed_resolved :: resolved_message where
  "ex_fixed_resolved = the (get_profile (rt_profiles ex_service) ex_fixed_ref)"

definition ex_fixed_packed :: packed_message where
  "ex_fixed_packed = projr (service_pack ex_service ex_fixed_input)"


section \<open>Partial results and exceptions\<close>






text \<open>
  A codec a project registers cannot make the service throw: an exception of its pack or
  unpack function becomes the failure \<^verbatim>\<open>hostMessage.codec.failed\<close> of that message.
\<close>

theorem service_contains_exceptions:
  assumes get: "get_profile (rt_profiles rt) ref = Some resolved"
    and codec: "get_message_codec (rt_codecs rt) (pf_codecId (rs_profile resolved)) = Some c"
    and own: "\<not> mc_builtIn c" and "pi_reference pin = ref" and "ui_reference uin = ref"
  shows "service_pack rt pin \<noteq> Inl (Throws x) \<and> service_unpack rt uin \<noteq> Inl (Throws x)"
  using assms
  by (auto simp: service_pack_def service_unpack_def Let_def contain_def split: sum.splits fault.splits)

definition ex_throwing :: message_codec where
  "ex_throwing =
     \<lparr>mc_id = ''own'', mc_builtIn = False, mc_pack = (\<lambda>_. Inl (Throws ''boom'')),
      mc_unpack = (\<lambda>_. Inl (Throws ''boom''))\<rparr>"

definition ex_own_service :: host_runtime where
  "ex_own_service = projr (createHostMessageService ex_rx
     (ex_options\<lparr>so_messageCodecs := [ex_throwing],
        so_profiles := [ex_fixed_profile\<lparr>pf_codecId := ''own'', pf_messages :=
          [\<lparr>md_id = ''cash'', md_direction = Request, md_fields = [], md_bitmapEncoding = None,
            md_mti = None, md_mtiEncoding = None\<rparr>]\<rparr>]\<rparr>))"

theorem service_contains_exceptions_witness:
  "service_pack ex_own_service ex_fixed_input \<noteq> Inl (Throws ''boom'')
   \<and> service_unpack ex_own_service (reply_of ex_fixed_input ex_fixed_packed) \<noteq> Inl (Throws ''boom'')"
proof -
  have get: "get_profile (rt_profiles ex_own_service) ex_fixed_ref
      = Some (the (get_profile (rt_profiles ex_own_service) ex_fixed_ref))"
    by (rule is_some_the) code_simp
  have codec: "get_message_codec (rt_codecs ex_own_service)
      (pf_codecId (rs_profile (the (get_profile (rt_profiles ex_own_service) ex_fixed_ref))))
      = Some (the (get_message_codec (rt_codecs ex_own_service)
      (pf_codecId (rs_profile (the (get_profile (rt_profiles ex_own_service) ex_fixed_ref))))))"
    by (rule is_some_the) code_simp
  have own: "\<not> mc_builtIn (the (get_message_codec (rt_codecs ex_own_service)
      (pf_codecId (rs_profile (the (get_profile (rt_profiles ex_own_service) ex_fixed_ref))))))"
    by code_simp
  show ?thesis
    by (rule service_contains_exceptions [OF get codec own])
      (simp_all add: ex_fixed_input_def reply_of_def)
qed

section \<open>Registries and profiles\<close>

text \<open>
  The registries of a service are frozen: no later registration, of a field codec, a
  message codec or a profile, changes what the service finds.
\<close>

theorem service_registries_frozen:
  assumes "createHostMessageService rx options = Inr rt"
  shows "lookup (use_registry register_message_codec freeze us (rt_codecs rt)) = lookup (rt_codecs rt)
    \<and> lookup (use_registry register_field_codec freeze vs (rt_fieldCodecs rt)) = lookup (rt_fieldCodecs rt)
    \<and> snd (register_profile codecs fieldCodecs lim rx' profile (rt_profiles rt)) = rt_profiles rt"
proof -
  have f: "rg_frozen (rt_codecs rt)" "rg_frozen (rt_fieldCodecs rt)" "rg_frozen (rt_profiles rt)"
    by (rule createHostMessageService_Inr [OF assms], simp)+
  have "snd (register_profile codecs fieldCodecs lim rx' profile (rt_profiles rt)) = rt_profiles rt"
    using f(3) by (simp add: register_profile_def assertMutable_def guard_res_def)
  with f(1,2) show ?thesis
    by (simp add: message_codec_registry.frozen_constant field_codec_registry.frozen_constant)
qed

theorem service_registries_frozen_witness:
  "lookup (use_registry register_message_codec freeze [Register ex_throwing] (rt_codecs ex_service)) ''own''
     = None"
proof -
  have "lookup (rt_codecs ex_service) ''own'' = None" by code_simp
  with service_registries_frozen [OF ex_service_built, of "[Register ex_throwing]"] show ?thesis by simp
qed

text \<open>
  C38. A profile that passes validation has a consistent layout: its field identifiers are
  distinct, its data elements distinct and between 2 and 128, every field setting is valid, and
  every ISO message of a service has a four-digit type and the layout the ISO codec needs.
\<close>

theorem registered_profiles_valid:
  assumes svc: "createHostMessageService rx options = Inr rt"
    and get: "get_profile (rt_profiles rt) ref = Some resolved"
  shows "fields_valid (rt_limits rt) (get_field_codec (rt_fieldCodecs rt)) rx
      (pf_fieldDefinitions (rs_profile resolved))
    \<and> (pf_codecId (rs_profile resolved) = ''iso8583'' \<longrightarrow>
      (\<exists>uses mti. isoUses ref (rs_fieldsById resolved) (md_fields (rs_message resolved)) = Inr uses
        \<and> has_mti (rs_message resolved) = Some mti \<and> iso_layout_ok uses mti))"
  using service_profile [OF svc get] iso_resolved [OF svc get] by blast

theorem registered_profiles_valid_witness:
  "\<exists>uses mti. isoUses ex_iso_ref (rs_fieldsById ex_iso_resolved) (md_fields (rs_message ex_iso_resolved))
      = Inr uses \<and> has_mti (rs_message ex_iso_resolved) = Some mti \<and> iso_layout_ok uses mti"
proof -
  have get: "get_profile (rt_profiles ex_service) ex_iso_ref = Some ex_iso_resolved"
    unfolding ex_iso_resolved_def by (rule is_some_the) code_simp
  have "pf_codecId (rs_profile ex_iso_resolved) = ''iso8583''" by code_simp
  then show ?thesis using registered_profiles_valid [OF ex_service_built get] by blast
qed

section \<open>Bitmaps, prefixes, encodings\<close>

text \<open>
  The bitmap of an ISO message is exactly the set of its data elements: reading it gives
  the elements in ascending order, it has a second half exactly when an element above 64 is
  present, and the bit that announces that half is never taken for an element.
\<close>

theorem bitmap_roundtrip:
  assumes "\<forall>u \<in> set present. 2 \<le> snd u \<and> snd u \<le> 128"
    and "sorted (map snd present)" and "distinct (map snd present)"
  shows "readBitmapElements (iso_bitmap present) = map snd present
    \<and> length (iso_bitmap present) = (if \<exists>u \<in> set present. 64 < snd u then 16 else 8)"
  using read_iso_bitmap [of present] length_iso_bitmap [of present] assms
  by (simp add: elements_ok_def has_secondary_def list_ex_iff case_prod_beta)

theorem bitmap_roundtrip_witness:
  "readBitmapElements (iso_bitmap [(\<lparr>su_fieldId = ''pan'', su_presence = None\<rparr>, 2),
     (\<lparr>su_fieldId = ''net'', su_presence = None\<rparr>, 128)]) = [2, 128]"
  using bitmap_roundtrip [of "[(\<lparr>su_fieldId = ''pan'', su_presence = None\<rparr>, 2),
     (\<lparr>su_fieldId = ''net'', su_presence = None\<rparr>, 128)]"] by simp

text \<open>
  Length prefixes. A length is encoded exactly when it fits the digits of its prefix; the
  prefix then has the width its encoding prescribes and is read back to the same length.
\<close>

theorem length_prefix_roundtrip:
  assumes "0 < width"
  shows "if n < 10 ^ width
    then \<exists>bs. encodeDecimalLength n width enc = Inr bs \<and> length bs = prefix_bytes width enc
      \<and> decodeDecimalLength bs width enc = Inr n
    else \<exists>f. encodeDecimalLength n width enc = Inl (Fails f) \<and> hf_code f = ''hostMessage.limit.exceeded''"
proof (cases "n < 10 ^ width")
  case True
  then obtain bs where bs: "encodeDecimalLength n width enc = Inr bs"
    using encodeDecimalLength_ok [OF assms] by blast
  with True show ?thesis
    using encodeDecimalLength_length [OF bs] decode_encodeDecimalLength [OF bs assms] by simp
next
  case False
  then have "\<nexists>bs. encodeDecimalLength n width enc = Inr bs" using encodeDecimalLength_ok [OF assms] by blast
  with False show ?thesis
    by (auto simp: encodeDecimalLength_def Let_def hostMessageFailure_def split: if_splits)
qed

theorem length_prefix_roundtrip_witness:
  "\<exists>bs. encodeDecimalLength 12 3 LenBcd = Inr bs \<and> decodeDecimalLength bs 3 LenBcd = Inr 12"
  using length_prefix_roundtrip [of 3 12 LenBcd] by auto

text \<open>
  Hexadecimal is a bijection between byte arrays and upper-case texts: what the service
  writes it reads back, and every text it reads stands for its own upper-case form.
\<close>

theorem hexadecimal_roundtrip:
  "hexToBytes (bytesToHex bs) = Some bs
   \<and> (\<forall>t bs'. hexToBytes t = Some bs' \<longrightarrow> bytesToHex bs' = map upper_unit t)"
  by (simp add: bytesToHex_hexToBytes)

theorem hexadecimal_roundtrip_witness:
  "bytesToHex [10, 255] = js ''0AFF''"
  using hexadecimal_roundtrip [of "[10, 255]"]
proof -
  have "hexToBytes (js ''0AFF'') = Some [10, 255]" by code_simp
  then have "bytesToHex [10, 255] = map upper_unit (js ''0AFF'')"
    using hexadecimal_roundtrip [of "[]"] by blast
  also have "\<dots> = js ''0AFF''" by code_simp
  finally show ?thesis .
qed

section \<open>Summaries\<close>

text \<open>
  Secret fields do not reach the log. Two messages that differ only in values whose
  summary policy shows presence or nothing (the default of internal and secret fields) have the
  same summary, whatever these values are.
\<close>

theorem summary_noninterference:
  assumes "list_all2 (looks_alike fdefs) (um_fields m) (um_fields n)"
    and "um_reference m = um_reference n" and "um_wireLength m = um_wireLength n"
  shows "createSafeSummary m fdefs = createSafeSummary n fdefs"
  using assms summarizeFields_alike [of fdefs] by (simp add: createSafeSummary_def)

definition ex_pin_message :: "byte list \<Rightarrow> unpacked_message" where
  "ex_pin_message pin =
     \<lparr>um_reference = ex_iso_ref, um_fields = [(''pin'', Scalar (SBytes pin))], um_wireLength = 2\<rparr>"

theorem summary_noninterference_witness:
  "createSafeSummary (ex_pin_message [1, 2]) (rs_fieldsById ex_iso_resolved)
   = createSafeSummary (ex_pin_message [9, 9]) (rs_fieldsById ex_iso_resolved)"
proof (rule summary_noninterference)
  show "list_all2 (looks_alike (rs_fieldsById ex_iso_resolved))
      (um_fields (ex_pin_message [1, 2])) (um_fields (ex_pin_message [9, 9]))" by code_simp
qed (simp_all add: ex_pin_message_def)

text \<open>
  A masked summary keeps what it hides: the summary of a masked text depends only on its
  length and on the characters its policy shows, where these do not make up the whole text.
\<close>

theorem masked_summary_hides:
  assumes "first + final \<le> length t" and "length s = length t"
    and "take first s = take first t" and "drop (length t - final) s = drop (length t - final) t"
  shows "summarizeScalar (SText s) (SumMasked (Some (int first)) (Some (int final)))
    = summarizeScalar (SText t) (SumMasked (Some (int first)) (Some (int final)))"
  using mask_text_hidden [OF assms] by (simp add: summarizeScalar_def at_least_zero_def)

theorem masked_summary_hides_witness:
  "summarizeScalar (SText (js ''41111111'')) (SumMasked (Some 0) (Some 4))
   = summarizeScalar (SText (js ''99991111'')) (SumMasked (Some 0) (Some 4))"
  using masked_summary_hides [of 0 4 "js ''99991111''" "js ''41111111''"] by (simp add: js_def)

section \<open>Where the code and its intention part\<close>

definition ex_optional_context :: pack_context where
  "ex_optional_context =
     pack_context_of ex_service
       (ex_fixed_resolved\<lparr>rs_message := (rs_message ex_fixed_resolved)\<lparr>md_fields :=
          [ex_use ''tail'' Optional, ex_use ''kind'' Required]\<rparr>\<rparr>)
       \<lparr>pi_reference = ex_fixed_ref, pi_fields = [(''kind'', Scalar (SText (js ''CD'')))]\<rparr>"

text \<open>
  An optional field that is absent is not read back. The fixed-field codec leaves an
  absent \<^verbatim>\<open>optional\<close> field out of the message, but its reader expects every such field
  at its place: the field after it is then read in its stead.
\<close>

theorem optional_field_misread:
  "fixed_pack ex_optional_context = Inr \<lparr>pm_reference = ex_fixed_ref, pm_bytes = bytes_of ''CD''\<rparr>
   \<and> (case fixed_unpack \<lparr>cx_resolved = cx_resolved ex_optional_context, cx_reference = ex_fixed_ref,
        cx_fieldCodecs = cx_fieldCodecs ex_optional_context, cx_limits = cx_limits ex_optional_context,
        cx_regexps = ex_rx, ux_bytes = bytes_of ''CD'', ux_allowPartial = True\<rparr> of
        Inr (Partial ref flds f consumed received) \<Rightarrow>
          flds = [(''tail'', Scalar (SText (js ''C'')))] \<and> hf_code f = ''hostMessage.message.truncated''
      | _ \<Rightarrow> False)"
  by (rule conjI) code_simp+

end
