(* ===== verification/Cash_Contracts.thy ===== *)
theory Cash_Contracts
  imports Js_Text
begin

text \<open>
  The data a withdrawal exchanges with the cash and card devices:
  \<^verbatim>\<open>packages/xfs-device-service/src\<close> (\<^verbatim>\<open>cash-contracts.ts\<close>, \<^verbatim>\<open>cash-policy.ts\<close>,
  \<^verbatim>\<open>cash-delivery.ts\<close>, \<^verbatim>\<open>card-custody-contracts.ts\<close>). A withdrawal sees the devices as
  ports; the services behind them are modelled in the theories Cash\_Delivery and Card\_Custody.
\<close>

datatype cash_custody = Taken | Retracted | NotDispensed | CustodyUnknown

record cash_amount =
  ca_currency :: string
  ca_minorUnits :: int

record cash_unit =
  cu_logicalSlot :: int
  cu_physicalCassetteId :: "string option"
  cu_physicalPosition :: "string option"
  cu_type :: int
  cu_currency :: string
  cu_denomination :: int
  cu_count :: int
  cu_rejectCount :: int
  cu_dispensedCount :: int
  cu_presentedCount :: int
  cu_retractedCount :: int
  cu_status :: int

datatype snapshot_boundary = BeforeBoundary | AfterBoundary | RecoveryBoundary

record cash_snapshot =
  sn_id :: string
  sn_operationId :: string
  sn_cashSessionId :: string
  sn_logicalService :: string
  sn_boundary :: snapshot_boundary
  sn_capturedAt :: string
  sn_revision :: string
  sn_units :: "cash_unit list"

record cash_denomination =
  dn_currencyId :: string
  dn_amount :: int
  dn_values :: "byte list"
  dn_cashBox :: int

record cash_plan =
  pl_id :: string
  pl_operationId :: string
  pl_cashSessionId :: string
  pl_logicalService :: string
  pl_sessionGeneration :: int
  pl_cashUnitRevision :: string
  pl_policyVersion :: string
  pl_expiresAt :: int
  pl_denomination :: cash_denomination

record presentation_policy =
  pp_id :: string
  pp_version :: string
  pp_requiredGates :: "string list"
  pp_authorizationTtlMs :: int
  pp_takeTimeoutMs :: int

record presentation_authorization =
  pa_id :: string
  pa_operationId :: string
  pa_cashSessionId :: string
  pa_policyId :: string
  pa_policyVersion :: string
  pa_satisfiedGates :: "string list"
  pa_expiresAt :: int

record cash_terminal =
  ct_outcome :: cash_custody
  ct_reconciliationRequired :: bool
  ct_after :: "cash_snapshot option"

datatype transfer_state = RecoveryBound | TransferPending

record transfer_receipt =
  tr_leaseId :: string
  tr_state :: transfer_state
  tr_fencingToken :: int

datatype cash_exit = ExitTerminal cash_terminal | ExitTransferred transfer_receipt

section \<open>Cards\<close>

datatype card_status = CardInside | CardPresented | CardReturned | CardRetained | CardCancelled | CardIntervention

datatype card_reason =
    CardTaken | RetainedByPolicy | TakeTimeout | CardUserCancelled | CardOperationTimeout | NodeExit
  | DeviceLoss | EjectFailed | RetainFailed | AuthorityRejected | MediaJammed | RecoveryInside
  | RecoveryPresented | CardCustodyUnknown | EvidenceWriteFailed

datatype interrupt_reason = IntUserCancelled | IntOperationTimeout | IntNodeExit | IntDeviceLoss

datatype media_state = MediaNotPresent | MediaPresented | MediaInside | MediaIsJammed | MediaUnsupported | MediaUnknown

record card_result =
  cr_status :: card_status
  cr_reason :: card_reason
  cr_mediaState :: media_state
  cr_authorityReleased :: bool

end
