(* ===== verification/Withdrawal_Contracts.thy ===== *)
theory Withdrawal_Contracts
  imports Cash_Contracts Registry
begin

text \<open>
  The data of a withdrawal (\<^verbatim>\<open>packages/withdrawal-orchestration/src/contracts.ts\<close>) and the
  way its ports are modelled: a port is a function of what has happened so far, so it may answer
  differently at every call, and a call that throws answers \<^term>\<open>None\<close>. What has happened is
  the list of the calls made, each with its answer; the ports see it and the properties are
  stated over it. What a request only hands on to the ports (its card authority, its signal and
  its metadata) is left out of it.
\<close>

datatype entry_mode = ContactCard | CardlessReservation
datatype card_order = ReturnBeforePresent | ReturnAfterTerminal | ManagedByParent
datatype planning_order = AuthorizationFirst | PlanningFirst
datatype protocol_mode = AuthorizationOnly | AuthorizationThenCompletion

record host_protocol =
  hp_id :: string
  hp_version :: string
  hp_mode :: protocol_mode

record withdrawal_policy =
  wp_id :: string
  wp_version :: string
  wp_allowedEntryModes :: "entry_mode list"
  wp_cardOrder :: card_order
  wp_planningOrder :: "planning_order option"
  wp_cardCustodyPolicyId :: "string option"
  wp_prePresentGateIds :: "string list"
  wp_presentationPolicy :: presentation_policy
  wp_hostProtocol :: host_protocol

record withdrawal_request =
  wq_operationId :: string
  wq_ownerInstanceId :: string
  wq_policyId :: string
  wq_entryMode :: entry_mode
  wq_amount :: cash_amount
  wq_interruptReason :: "interrupt_reason option"

datatype withdrawal_status = Completed | Declined | Cancelled | TimedOut | Failed | Intervention

datatype withdrawal_reason =
    RCompleted | RBarrierBlocked | RUserCancelled | ROperationTimeout | RHostDeclined | RHostUnavailable
  | RVerificationCancelled | RVerificationTimeout | RVerificationRejected | RCashStartFailed
  | RCashDispenseFailed | RCashPresentationNotAuthorized | RCashPresentFailed | RCashTakeTimeout
  | RCashCustodyUnknown | RCardTakeTimeout | RCardCancelled | RCardCustodyUnresolved | RUnexpectedFailure

datatype withdrawal_trigger = TCancel | TTimeout | TInterrupt | TRouteExit | TRuntimeShutdown

section \<open>Facts and outcome\<close>

datatype host_status = HostNotRequested | HostApproved | HostDeclined | HostUnavailable

record host_facts =
  hf_protocolId :: string
  hf_protocolVersion :: string
  hf_protocolMode :: protocol_mode
  hf_status :: host_status
  hf_authorizationReference :: "string option"
  hf_reasonCode :: "string option"

datatype dispense_state = DispenseNotRequested | DispenseCompleted | DispenseFailed | DispenseUnknown
datatype present_state = PresentNotRequested | PresentCompleted | PresentUnknown
datatype custody_fact = CashNotStarted | CashPending | CashTransferred | CashOutcome cash_custody

record cash_facts =
  cf_cashSessionId :: "string option"
  cf_dispense :: dispense_state
  cf_present :: present_state
  cf_custody :: custody_fact
  cf_beforeSnapshotId :: "string option"
  cf_afterSnapshotId :: "string option"
  cf_recoveryTransferId :: "string option"
  cf_reconciliationRequired :: bool
  cf_dispensed :: bool
  cf_presented :: bool
  cf_taken :: bool
  cf_retracted :: bool

datatype card_fact_status = CardNotApplicable | CardPending | CardSessionRetained | CardCustody card_status

record card_facts =
  kf_required :: bool
  kf_status :: card_fact_status
  kf_reason :: "card_reason option"
  kf_mediaState :: "media_state option"
  kf_authorityReleased :: "bool option"

text \<open>The summary that may be logged: a projection of the outcome.\<close>

record withdrawal_summary =
  sm_cardStatus :: card_fact_status
  sm_cashCustody :: custody_fact
  sm_cashDispensed :: bool
  sm_cashPresented :: bool
  sm_cashRetracted :: bool
  sm_cashTaken :: bool
  sm_entryMode :: entry_mode
  sm_hostStatus :: host_status
  sm_operationId :: string
  sm_policyId :: string
  sm_reason :: withdrawal_reason
  sm_status :: withdrawal_status
  sm_trigger :: "withdrawal_trigger option"

record withdrawal_outcome =
  wo_operationId :: string
  wo_policyId :: string
  wo_policyVersion :: string
  wo_entryMode :: entry_mode
  wo_status :: withdrawal_status
  wo_reason :: withdrawal_reason
  wo_trigger :: "withdrawal_trigger option"
  wo_host :: host_facts
  wo_cash :: cash_facts
  wo_card :: card_facts
  wo_safeSummary :: withdrawal_summary

section \<open>Answers of the ports\<close>

datatype authorization_status = Approved | AuthDeclined

record host_authorization =
  ha_status :: authorization_status
  ha_authorizationReference :: "string option"
  ha_reasonCode :: "string option"

record cash_started =
  st_before :: cash_snapshot
  st_plan :: cash_plan
  st_sessionId :: string

datatype gate_status = GateApproved | GateCancelled | GateTimedOut | GateRejected
datatype barrier_status = BarrierReady | BarrierRecovering | BarrierIntervention

text \<open>A call of a port, with its answer.\<close>

datatype wevent =
    Recover "barrier_status option"
  | TxStart bool
  | Audit string bool
  | Authorize "cash_plan option" "host_authorization option"
  | MarkAuthorized bool
  | CashStart "cash_started option"
  | Dispense cash_plan bool
  | Gate string "gate_status option"
  | AuthorizePresent "presentation_authorization option"
  | Present presentation_authorization bool
  | WaitForTake "cash_terminal option"
  | Abort withdrawal_trigger "cash_terminal option"
  | Exit withdrawal_trigger "cash_exit option"
  | ReturnCard bool "card_result option"
  | Finalize withdrawal_outcome "string option"

type_synonym history = "wevent list"

record withdrawal_gate =
  wg_id :: string
  wg_evaluate :: "history \<Rightarrow> gate_status option"

text \<open>The optional ports are options; \<open>we_aborted\<close> is \<^verbatim>\<open>request.signal?.aborted\<close> when it is read.\<close>

record wenv =
  we_policies :: "withdrawal_policy registry"
  we_gates :: "withdrawal_gate registry"
  we_recover :: "(history \<Rightarrow> barrier_status option) option"
  we_txStart :: "history \<Rightarrow> bool"
  we_audit :: "history \<Rightarrow> bool"
  we_authorize :: "history \<Rightarrow> cash_plan option \<Rightarrow> host_authorization option"
  we_markAuthorized :: "history \<Rightarrow> bool"
  we_cashStart :: "history \<Rightarrow> cash_started option"
  we_dispense :: "history \<Rightarrow> cash_plan \<Rightarrow> bool"
  we_authorizePresent :: "history \<Rightarrow> presentation_authorization option"
  we_present :: "history \<Rightarrow> presentation_authorization \<Rightarrow> bool"
  we_waitForTake :: "history \<Rightarrow> cash_terminal option"
  we_abort :: "history \<Rightarrow> withdrawal_trigger \<Rightarrow> cash_terminal option"
  we_exit :: "history \<Rightarrow> withdrawal_trigger \<Rightarrow> cash_exit option"
  we_isTerminal :: "history \<Rightarrow> bool"
  we_card :: "(history \<Rightarrow> bool \<Rightarrow> card_result option) option"
  we_aborted :: "history \<Rightarrow> bool"
  we_finalize :: "history \<Rightarrow> withdrawal_outcome \<Rightarrow> string option"

section \<open>Computations\<close>

text \<open>
  An asynchronous method is a function of the operation's state and its history: it returns a
  value or throws (\<^term>\<open>None\<close>), and leaves the state it reached either way.
\<close>

record wstate =
  ws_host :: host_facts
  ws_cash :: cash_facts
  ws_card :: card_facts
  ws_log :: history

type_synonym 'a proc = "wstate \<Rightarrow> 'a option \<times> wstate"

definition return :: "'a \<Rightarrow> 'a proc" where
  "return x s = (Some x, s)"

definition throw :: "'a proc" where
  "throw s = (None, s)"

definition bind :: "'a proc \<Rightarrow> ('a \<Rightarrow> 'b proc) \<Rightarrow> 'b proc" where
  "bind m f s = (case m s of (None, s') \<Rightarrow> (None, s') | (Some x, s') \<Rightarrow> f x s')"

definition catch :: "'a proc \<Rightarrow> 'a proc \<Rightarrow> 'a proc" where
  "catch m h s = (case m s of (None, s') \<Rightarrow> h s' | (Some x, s') \<Rightarrow> (Some x, s'))"

definition modify :: "(wstate \<Rightarrow> wstate) \<Rightarrow> unit proc" where
  "modify f s = (Some (), f s)"

definition gets :: "(wstate \<Rightarrow> 'a) \<Rightarrow> 'a proc" where
  "gets f s = (Some (f s), s)"

text \<open>A port that answers a value, and one that only succeeds or throws.\<close>

definition call :: "(history \<Rightarrow> 'a option) \<Rightarrow> ('a option \<Rightarrow> wevent) \<Rightarrow> 'a proc" where
  "call port ev s = (let r = port (ws_log s) in (r, s\<lparr>ws_log := ws_log s @ [ev r]\<rparr>))"

definition act :: "(history \<Rightarrow> bool) \<Rightarrow> (bool \<Rightarrow> wevent) \<Rightarrow> unit proc" where
  "act port ev s =
     (let r = port (ws_log s) in (if r then Some () else None, s\<lparr>ws_log := ws_log s @ [ev r]\<rparr>))"

section \<open>Policies and gates of a withdrawal\<close>

text \<open>
  \<^verbatim>\<open>packages/withdrawal-orchestration/src/policy.ts\<close>: the registries of withdrawal policies
  and of the gates evaluated before cash is presented, the validation of a policy, and the
  evaluation of a list of gates. Both registries are instances of the registry interface.
\<close>

section \<open>Policies\<close>

definition validatePolicy :: "withdrawal_policy \<Rightarrow> string + unit" where
  "validatePolicy p =
     rbind (guard_res (\<not> blank (wp_id p) \<and> \<not> blank (wp_version p))
       ''Withdrawal policy identity is required'') (\<lambda>_.
     rbind (guard_res (wp_allowedEntryModes p \<noteq> [])
       ''Withdrawal policy requires an entry mode'') (\<lambda>_.
     rbind (guard_res (distinct (wp_allowedEntryModes p))
       (''Withdrawal policy has duplicate entry modes: '' @ wp_id p)) (\<lambda>_.
     rbind (guard_res (distinct (wp_prePresentGateIds p))
       (''Withdrawal policy has duplicate pre-present gates: '' @ wp_id p)) (\<lambda>_.
     rbind (guard_res (\<not> (ContactCard \<in> set (wp_allowedEntryModes p) \<and> wp_cardOrder p \<noteq> ManagedByParent
         \<and> (case wp_cardCustodyPolicyId p of None \<Rightarrow> True | Some c \<Rightarrow> blank c)))
       (''Contact-card withdrawal policy requires card custody: '' @ wp_id p)) (\<lambda>_.
     guard_res (\<not> blank (hp_id (wp_hostProtocol p)) \<and> \<not> blank (hp_version (wp_hostProtocol p)))
       (''Withdrawal host protocol identity is required: '' @ wp_id p))))))"

definition register_policy ::
  "withdrawal_policy \<Rightarrow> withdrawal_policy registry \<Rightarrow> string + withdrawal_policy registry" where
  "register_policy p r =
     rbind (guard_res (\<not> rg_frozen r) ''Withdrawal policy registry is frozen'') (\<lambda>_.
     rbind (guard_res (lookup r (wp_id p) = None) (''Duplicate withdrawal policy: '' @ wp_id p)) (\<lambda>_.
     rbind (validatePolicy p) (\<lambda>_.
     Inr (insert_entry (wp_id p) p r))))"

definition require_policy :: "withdrawal_policy registry \<Rightarrow> string \<Rightarrow> string + withdrawal_policy" where
  "require_policy r pid =
     (case lookup r pid of
        None \<Rightarrow> Inl (''Withdrawal policy is not registered: '' @ pid)
      | Some p \<Rightarrow> Inr p)"

interpretation policy_registry: freezable_registry
  register_policy freeze lookup rg_frozen wp_id "\<lambda>p. validatePolicy p = Inr ()"
  by unfold_locales (auto simp: register_policy_def res_simps)

section \<open>Gates\<close>

definition register_gate ::
  "withdrawal_gate \<Rightarrow> withdrawal_gate registry \<Rightarrow> string + withdrawal_gate registry" where
  "register_gate g r =
     rbind (guard_res (\<not> rg_frozen r) ''Withdrawal gate registry is frozen'') (\<lambda>_.
     rbind (guard_res (lookup r (wg_id g) = None) (''Duplicate withdrawal gate: '' @ wg_id g)) (\<lambda>_.
     Inr (insert_entry (wg_id g) g r)))"

interpretation gate_registry: freezable_registry
  register_gate freeze lookup rg_frozen wg_id "\<lambda>_. True"
  by unfold_locales (auto simp: register_gate_def res_simps)

text \<open>The first gate that does not approve decides; an unknown gate and a throwing gate throw.\<close>

fun evaluate_gates :: "withdrawal_gate registry \<Rightarrow> string list \<Rightarrow> gate_status proc" where
  "evaluate_gates r [] = return GateApproved"
| "evaluate_gates r (gid # gids) =
     (case lookup r gid of
        None \<Rightarrow> throw
      | Some g \<Rightarrow>
          bind (call (wg_evaluate g) (Gate gid)) (\<lambda>status.
            if status \<noteq> GateApproved then return status else evaluate_gates r gids))"

end
