(* ===== verification/Withdrawal_Orchestrator.thy ===== *)
theory Withdrawal_Orchestrator
  imports Withdrawal_Contracts
begin

text \<open>
  \<^verbatim>\<open>packages/withdrawal-orchestration/src/orchestrator.ts\<close>: one withdrawal, from the
  recovery barrier over the host authorization, the dispense and the gates to the presentation
  and its end, with what is done with the card and the cash session on every other way out.
\<close>

section \<open>Outcomes\<close>

definition initialState :: "withdrawal_request \<Rightarrow> withdrawal_policy \<Rightarrow> wstate" where
  "initialState q p =
     \<lparr>ws_host =
        \<lparr>hf_protocolId = hp_id (wp_hostProtocol p), hf_protocolVersion = hp_version (wp_hostProtocol p),
         hf_protocolMode = hp_mode (wp_hostProtocol p), hf_status = HostNotRequested,
         hf_authorizationReference = None, hf_reasonCode = None\<rparr>,
      ws_cash =
        \<lparr>cf_cashSessionId = None, cf_dispense = DispenseNotRequested, cf_present = PresentNotRequested,
         cf_custody = CashNotStarted, cf_beforeSnapshotId = None, cf_afterSnapshotId = None,
         cf_recoveryTransferId = None, cf_reconciliationRequired = False, cf_dispensed = False,
         cf_presented = False, cf_taken = False, cf_retracted = False\<rparr>,
      ws_card =
        \<lparr>kf_required = (wq_entryMode q = ContactCard),
         kf_status =
           (if wq_entryMode q \<noteq> ContactCard then CardNotApplicable
            else if wp_cardOrder p = ManagedByParent then CardSessionRetained
            else CardPending),
         kf_reason = None, kf_mediaState = None, kf_authorityReleased = None\<rparr>,
      ws_log = []\<rparr>"

definition applyCashTerminal :: "cash_terminal \<Rightarrow> wstate \<Rightarrow> wstate" where
  "applyCashTerminal r s =
     s\<lparr>ws_cash := (ws_cash s)
         \<lparr>cf_custody := CashOutcome (ct_outcome r),
          cf_afterSnapshotId :=
            (case ct_after r of None \<Rightarrow> cf_afterSnapshotId (ws_cash s) | Some a \<Rightarrow> Some (sn_id a)),
          cf_reconciliationRequired := ct_reconciliationRequired r,
          cf_retracted := (ct_outcome r = Retracted),
          cf_taken := (ct_outcome r = Taken)\<rparr>\<rparr>"

definition reconcileDispenseFailure :: "wstate \<Rightarrow> wstate" where
  "reconcileDispenseFailure s =
     (if cf_custody (ws_cash s) = CashOutcome NotDispensed then
        s\<lparr>ws_cash := (ws_cash s)\<lparr>cf_dispense := DispenseFailed, cf_dispensed := False\<rparr>\<rparr>
      else if cf_custody (ws_cash s) = CashOutcome Retracted \<or> cf_custody (ws_cash s) = CashOutcome Taken then
        s\<lparr>ws_cash := (ws_cash s)\<lparr>cf_dispense := DispenseCompleted, cf_dispensed := True\<rparr>\<rparr>
      else s)"

definition buildOutcome ::
  "withdrawal_request \<Rightarrow> withdrawal_policy \<Rightarrow> wstate \<Rightarrow> withdrawal_status \<Rightarrow> withdrawal_reason
     \<Rightarrow> withdrawal_trigger option \<Rightarrow> withdrawal_outcome" where
  "buildOutcome q p s status reason trigger =
     \<lparr>wo_operationId = wq_operationId q, wo_policyId = wp_id p, wo_policyVersion = wp_version p,
      wo_entryMode = wq_entryMode q, wo_status = status, wo_reason = reason, wo_trigger = trigger,
      wo_host = ws_host s, wo_cash = ws_cash s, wo_card = ws_card s,
      wo_safeSummary =
        \<lparr>sm_cardStatus = kf_status (ws_card s), sm_cashCustody = cf_custody (ws_cash s),
         sm_cashDispensed = cf_dispensed (ws_cash s), sm_cashPresented = cf_presented (ws_cash s),
         sm_cashRetracted = cf_retracted (ws_cash s), sm_cashTaken = cf_taken (ws_cash s),
         sm_entryMode = wq_entryMode q, sm_hostStatus = hf_status (ws_host s),
         sm_operationId = wq_operationId q, sm_policyId = wp_id p, sm_reason = reason,
         sm_status = status, sm_trigger = trigger\<rparr>\<rparr>"

definition unsettled_card :: "card_fact_status \<Rightarrow> bool" where
  "unsettled_card st \<longleftrightarrow>
     st \<in> {CardPending, CardCustody CardInside, CardCustody CardPresented, CardCustody CardIntervention}"

definition safetyStatus :: "withdrawal_status \<Rightarrow> wstate \<Rightarrow> withdrawal_status" where
  "safetyStatus requested s =
     (if cf_custody (ws_cash s) = CashOutcome CustodyUnknown \<or> cf_custody (ws_cash s) = CashTransferred
      then Intervention
      else if kf_required (ws_card s) \<and> unsettled_card (kf_status (ws_card s)) then Intervention
      else requested)"

definition safeOutcome ::
  "withdrawal_request \<Rightarrow> withdrawal_policy \<Rightarrow> withdrawal_status \<Rightarrow> withdrawal_reason
     \<Rightarrow> withdrawal_trigger option \<Rightarrow> withdrawal_outcome proc" where
  "safeOutcome q p requested reason trigger =
     gets (\<lambda>s. buildOutcome q p s (safetyStatus requested s) reason trigger)"

definition terminalOutcome :: "withdrawal_request \<Rightarrow> withdrawal_policy \<Rightarrow> withdrawal_outcome proc" where
  "terminalOutcome q p s =
     (if cf_custody (ws_cash s) = CashOutcome Retracted then
        safeOutcome q p TimedOut RCashTakeTimeout (Some TTimeout) s
      else if cf_custody (ws_cash s) \<noteq> CashOutcome Taken then
        safeOutcome q p Intervention RCashCustodyUnknown None s
      else if kf_required (ws_card s) \<and> kf_status (ws_card s) \<noteq> CardCustody CardReturned
              \<and> kf_status (ws_card s) \<noteq> CardSessionRetained then
        safeOutcome q p Intervention
          (if kf_reason (ws_card s) = Some TakeTimeout then RCardTakeTimeout else RCardCustodyUnresolved) None s
      else safeOutcome q p Completed RCompleted None s)"

definition gateFailure :: "gate_status \<Rightarrow> withdrawal_status \<times> withdrawal_reason \<times> withdrawal_trigger" where
  "gateFailure g =
     (if g = GateCancelled then (Cancelled, RVerificationCancelled, TCancel)
      else if g = GateTimedOut then (TimedOut, RVerificationTimeout, TTimeout)
      else (Failed, RVerificationRejected, TInterrupt))"

definition cardFailure ::
  "card_result \<Rightarrow> withdrawal_status \<times> withdrawal_reason \<times> withdrawal_trigger option" where
  "cardFailure r =
     (if cr_reason r = TakeTimeout \<or> cr_reason r = CardOperationTimeout then
        (TimedOut, RCardTakeTimeout, Some TTimeout)
      else if cr_reason r = CardUserCancelled then (Cancelled, RCardCancelled, Some TCancel)
      else (Intervention, RCardCustodyUnresolved, None))"

definition cardTrigger :: "card_result \<Rightarrow> withdrawal_trigger" where
  "cardTrigger r =
     (if cr_reason r = TakeTimeout \<or> cr_reason r = CardOperationTimeout then TTimeout
      else if cr_reason r = CardUserCancelled then TCancel
      else TInterrupt)"

definition requestInterrupt ::
  "withdrawal_request \<Rightarrow> withdrawal_status \<times> withdrawal_reason \<times> withdrawal_trigger" where
  "requestInterrupt q =
     (if wq_interruptReason q = Some IntOperationTimeout then (TimedOut, ROperationTimeout, TTimeout)
      else (Cancelled, RUserCancelled, TCancel))"

definition request_allowed :: "withdrawal_request \<Rightarrow> withdrawal_policy \<Rightarrow> bool" where
  "request_allowed q p \<longleftrightarrow>
     wq_entryMode q \<in> set (wp_allowedEntryModes p) \<and>
     \<not> blank (wq_operationId q) \<and> \<not> blank (wq_ownerInstanceId q)"

definition planningBeforeAuthorization :: "withdrawal_policy \<Rightarrow> bool" where
  "planningBeforeAuthorization p \<longleftrightarrow> wp_planningOrder p = Some PlanningFirst"

section \<open>Steps\<close>

text \<open>\<^verbatim>\<open>...(x ? { field: x } : {})\<close> on an optional text.\<close>

definition over_text :: "string option \<Rightarrow> string option \<Rightarrow> string option" where
  "over_text new old = (case new of None \<Rightarrow> old | Some t \<Rightarrow> if t = [] then old else Some t)"

definition authorizeHost :: "wenv \<Rightarrow> cash_plan option \<Rightarrow> host_authorization option proc" where
  "authorizeHost env plan =
     catch
       (bind (call (\<lambda>h. we_authorize env h plan) (Authorize plan)) (\<lambda>r.
        bind (modify (\<lambda>s. s\<lparr>ws_host := (ws_host s)
          \<lparr>hf_status := (case ha_status r of Approved \<Rightarrow> HostApproved | AuthDeclined \<Rightarrow> HostDeclined),
           hf_authorizationReference :=
             over_text (ha_authorizationReference r) (hf_authorizationReference (ws_host s)),
           hf_reasonCode := over_text (ha_reasonCode r) (hf_reasonCode (ws_host s))\<rparr>\<rparr>)) (\<lambda>_.
        return (if ha_status r = Approved then Some r else None))))
       (bind (modify (\<lambda>s. s\<lparr>ws_host := (ws_host s)\<lparr>hf_status := HostUnavailable\<rparr>\<rparr>)) (\<lambda>_. return None))"

definition startCash :: "wenv \<Rightarrow> cash_started option proc" where
  "startCash env =
     catch
       (bind (call (we_cashStart env) CashStart) (\<lambda>started.
        bind (modify (\<lambda>s. s\<lparr>ws_cash := (ws_cash s)
          \<lparr>cf_beforeSnapshotId := Some (sn_id (st_before started)),
           cf_cashSessionId := Some (st_sessionId started), cf_custody := CashPending\<rparr>\<rparr>)) (\<lambda>_.
        return (Some started))))
       (return None)"

definition resolveCard ::
  "wenv \<Rightarrow> withdrawal_request \<Rightarrow> withdrawal_policy \<Rightarrow> bool \<Rightarrow> card_result option proc" where
  "resolveCard env q p respectSignal =
     (if wp_cardOrder p = ManagedByParent then return None
      else
        bind (gets (\<lambda>s. kf_status (ws_card s))) (\<lambda>status.
        if wq_entryMode q \<noteq> ContactCard \<or> status \<noteq> CardPending then return None
        else
          (case (we_card env, over_text (wp_cardCustodyPolicyId p) None) of
             (Some port, Some policyId) \<Rightarrow>
               bind (call (\<lambda>h. port h respectSignal) (ReturnCard respectSignal)) (\<lambda>r.
               bind (modify (\<lambda>s. s\<lparr>ws_card :=
                 \<lparr>kf_required = True, kf_status = CardCustody (cr_status r),
                  kf_reason = Some (cr_reason r), kf_mediaState = Some (cr_mediaState r),
                  kf_authorityReleased = Some (cr_authorityReleased r)\<rparr>\<rparr>)) (\<lambda>_.
               return (Some r)))
           | _ \<Rightarrow>
               bind (modify (\<lambda>s. s\<lparr>ws_card :=
                 \<lparr>kf_required = True, kf_status = CardCustody CardIntervention,
                  kf_reason = Some CardCustodyUnknown, kf_mediaState = None,
                  kf_authorityReleased = None\<rparr>\<rparr>)) (\<lambda>_.
               return None))))"

definition custody_unknown :: "unit proc" where
  "custody_unknown =
     modify (\<lambda>s. s\<lparr>ws_cash := (ws_cash s)
       \<lparr>cf_custody := CashOutcome CustodyUnknown, cf_reconciliationRequired := True\<rparr>\<rparr>)"

definition abortCash :: "wenv \<Rightarrow> withdrawal_trigger \<Rightarrow> unit proc" where
  "abortCash env trigger =
     catch
       (bind (call (\<lambda>h. we_abort env h trigger) (Abort trigger)) (\<lambda>r. modify (applyCashTerminal r)))
       custody_unknown"

definition transferCash :: "wenv \<Rightarrow> withdrawal_trigger \<Rightarrow> unit proc" where
  "transferCash env trigger =
     catch
       (bind (call (\<lambda>h. we_exit env h trigger) (Exit trigger)) (\<lambda>x.
        case x of
          ExitTerminal r \<Rightarrow> modify (applyCashTerminal r)
        | ExitTransferred receipt \<Rightarrow>
            modify (\<lambda>s. s\<lparr>ws_cash := (ws_cash s)
              \<lparr>cf_custody := CashTransferred, cf_recoveryTransferId := Some (tr_leaseId receipt),
               cf_reconciliationRequired := True\<rparr>\<rparr>)))
       custody_unknown"

section \<open>One withdrawal\<close>

text \<open>
  The body of \<^verbatim>\<open>runAdmitted\<close>, in the order of its text. An early return is a computation
  that ends there; what follows is the rest of the function.
\<close>

definition finishPresented :: "wenv \<Rightarrow> withdrawal_request \<Rightarrow> withdrawal_policy \<Rightarrow> withdrawal_outcome proc" where
  "finishPresented env q p =
     bind (call (we_waitForTake env) WaitForTake) (\<lambda>r.
     bind (modify (applyCashTerminal r)) (\<lambda>_.
     bind (if wp_cardOrder p = ReturnAfterTerminal then resolveCard env q p True else return None) (\<lambda>_.
     terminalOutcome q p)))"

definition presentCash :: "wenv \<Rightarrow> withdrawal_request \<Rightarrow> withdrawal_policy \<Rightarrow> withdrawal_outcome proc" where
  "presentCash env q p =
     bind (catch (bind (call (we_authorizePresent env) AuthorizePresent) (\<lambda>a. return (Some a))) (return None))
       (\<lambda>presentation.
     case presentation of
       None \<Rightarrow>
         bind (abortCash env TInterrupt) (\<lambda>_.
         bind (resolveCard env q p False) (\<lambda>_.
         safeOutcome q p Failed RCashPresentationNotAuthorized None))
     | Some a \<Rightarrow>
         bind (catch
             (bind (act (\<lambda>h. we_present env h a) (Present a)) (\<lambda>_.
              bind (modify (\<lambda>s. s\<lparr>ws_cash := (ws_cash s)
                \<lparr>cf_present := PresentCompleted, cf_presented := True\<rparr>\<rparr>)) (\<lambda>_. return True)))
             (bind (modify (\<lambda>s. s\<lparr>ws_cash := (ws_cash s)
                \<lparr>cf_present := PresentUnknown, cf_reconciliationRequired := True\<rparr>\<rparr>)) (\<lambda>_. return False)))
           (\<lambda>presented.
         if presented then finishPresented env q p
         else
           bind (transferCash env TInterrupt) (\<lambda>_.
           bind (resolveCard env q p False) (\<lambda>_.
           safeOutcome q p Intervention RCashPresentFailed (Some TInterrupt)))))"

text \<open>The card is returned before the presentation where the policy says so.\<close>

definition returnCardFirst :: "wenv \<Rightarrow> withdrawal_request \<Rightarrow> withdrawal_policy \<Rightarrow> withdrawal_outcome proc" where
  "returnCardFirst env q p =
     (if wp_cardOrder p \<noteq> ReturnBeforePresent then presentCash env q p
      else
        bind (resolveCard env q p True) (\<lambda>card.
        bind (gets (\<lambda>s. kf_required (ws_card s) \<and> kf_status (ws_card s) \<noteq> CardCustody CardReturned)) (\<lambda>kept.
        if \<not> kept then presentCash env q p
        else
          bind (abortCash env (case card of None \<Rightarrow> TInterrupt | Some r \<Rightarrow> cardTrigger r)) (\<lambda>_.
          case (case card of None \<Rightarrow> (Intervention, RCardCustodyUnresolved, None) | Some r \<Rightarrow> cardFailure r) of
            (status, reason, trigger) \<Rightarrow> safeOutcome q p status reason trigger))))"

definition dispenseCash ::
  "wenv \<Rightarrow> withdrawal_request \<Rightarrow> withdrawal_policy \<Rightarrow> cash_started \<Rightarrow> withdrawal_outcome proc" where
  "dispenseCash env q p started =
     bind (catch
         (bind (act (\<lambda>h. we_dispense env h (st_plan started)) (Dispense (st_plan started))) (\<lambda>_.
          bind (modify (\<lambda>s. s\<lparr>ws_cash := (ws_cash s)
            \<lparr>cf_dispense := DispenseCompleted, cf_dispensed := True\<rparr>\<rparr>)) (\<lambda>_. return True)))
         (bind (modify (\<lambda>s. s\<lparr>ws_cash := (ws_cash s)
            \<lparr>cf_dispense := DispenseUnknown, cf_reconciliationRequired := True\<rparr>\<rparr>)) (\<lambda>_. return False)))
       (\<lambda>dispensed.
     if \<not> dispensed then
       bind (transferCash env TInterrupt) (\<lambda>_.
       bind (modify reconcileDispenseFailure) (\<lambda>_.
       bind (resolveCard env q p False) (\<lambda>_.
       bind (gets (\<lambda>s. cf_reconciliationRequired (ws_cash s))) (\<lambda>rec.
       safeOutcome q p (if rec then Intervention else Failed) RCashDispenseFailed (Some TInterrupt)))))
     else
       bind (evaluate_gates (we_gates env) (wp_prePresentGateIds p)) (\<lambda>gate.
       if gate \<noteq> GateApproved then
         (case gateFailure gate of
            (status, reason, trigger) \<Rightarrow>
              bind (abortCash env trigger) (\<lambda>_.
              bind (resolveCard env q p False) (\<lambda>_.
              safeOutcome q p status reason (Some trigger))))
       else returnCardFirst env q p))"

definition cashStartFailed :: "wenv \<Rightarrow> withdrawal_request \<Rightarrow> withdrawal_policy \<Rightarrow> withdrawal_outcome proc" where
  "cashStartFailed env q p =
     bind (resolveCard env q p False) (\<lambda>_. safeOutcome q p Failed RCashStartFailed None)"

text \<open>From the authorization on; \<open>planned\<close> is the cash session started before it, if any.\<close>

definition hostRefused ::
  "wenv \<Rightarrow> withdrawal_request \<Rightarrow> withdrawal_policy \<Rightarrow> cash_started option \<Rightarrow> withdrawal_outcome proc" where
  "hostRefused env q p planned =
     bind (if planned \<noteq> None then abortCash env TInterrupt else return ()) (\<lambda>_.
     bind (resolveCard env q p False) (\<lambda>_.
     bind (gets (\<lambda>s. hf_status (ws_host s) = HostDeclined)) (\<lambda>declined.
     safeOutcome q p (if declined then Declined else Failed)
       (if declined then RHostDeclined else RHostUnavailable) None)))"

definition hostAgreed ::
  "wenv \<Rightarrow> withdrawal_request \<Rightarrow> withdrawal_policy \<Rightarrow> cash_started option \<Rightarrow> withdrawal_outcome proc" where
  "hostAgreed env q p planned =
     bind (act (we_markAuthorized env) MarkAuthorized) (\<lambda>_.
     bind (act (we_audit env) (Audit ''withdrawal.authorized'')) (\<lambda>_.
     case planned of
       Some started \<Rightarrow> dispenseCash env q p started
     | None \<Rightarrow>
         bind (startCash env) (\<lambda>st.
         case st of
           None \<Rightarrow> cashStartFailed env q p
         | Some started \<Rightarrow> dispenseCash env q p started)))"

definition authorizeAndDispense ::
  "wenv \<Rightarrow> withdrawal_request \<Rightarrow> withdrawal_policy \<Rightarrow> cash_started option \<Rightarrow> withdrawal_outcome proc" where
  "authorizeAndDispense env q p planned =
     bind (authorizeHost env (map_option st_plan planned)) (\<lambda>authorization.
     case authorization of
       None \<Rightarrow> hostRefused env q p planned
     | Some _ \<Rightarrow> hostAgreed env q p planned)"

definition runBody :: "wenv \<Rightarrow> withdrawal_request \<Rightarrow> withdrawal_policy \<Rightarrow> withdrawal_outcome proc" where
  "runBody env q p =
     bind (gets (\<lambda>s. we_aborted env (ws_log s))) (\<lambda>aborted.
     if aborted then
       bind (resolveCard env q p False) (\<lambda>_.
       case requestInterrupt q of (status, reason, trigger) \<Rightarrow> safeOutcome q p status reason (Some trigger))
     else if planningBeforeAuthorization p then
       bind (startCash env) (\<lambda>st.
       case st of
         None \<Rightarrow> cashStartFailed env q p
       | Some started \<Rightarrow> authorizeAndDispense env q p (Some started))
     else authorizeAndDispense env q p None)"

text \<open>
  The session of the handler is the one the body has started: the cash facts carry its
  identifier from then on.
\<close>

definition unexpected :: "wenv \<Rightarrow> withdrawal_request \<Rightarrow> withdrawal_policy \<Rightarrow> withdrawal_outcome proc" where
  "unexpected env q p =
     bind (gets (\<lambda>s. cf_cashSessionId (ws_cash s) \<noteq> None \<and> \<not> we_isTerminal env (ws_log s))) (\<lambda>open_session.
     bind (if open_session then transferCash env TInterrupt else return ()) (\<lambda>_.
     bind (resolveCard env q p False) (\<lambda>_.
     safeOutcome q p Intervention RUnexpectedFailure (Some TInterrupt))))"

definition runAdmitted :: "wenv \<Rightarrow> withdrawal_request \<Rightarrow> withdrawal_policy \<Rightarrow> withdrawal_outcome proc" where
  "runAdmitted env q p = catch (runBody env q p) (unexpected env q p)"

record withdrawal_result =
  wr_outcome :: withdrawal_outcome
  wr_finalization :: "string option"

definition runAndFinalize :: "wenv \<Rightarrow> withdrawal_request \<Rightarrow> withdrawal_policy \<Rightarrow> withdrawal_result proc" where
  "runAndFinalize env q p =
     bind (act (we_txStart env) TxStart) (\<lambda>_.
     bind (act (we_audit env) (Audit ''withdrawal.started'')) (\<lambda>_.
     bind (runAdmitted env q p) (\<lambda>outcome.
     bind (call (\<lambda>h. we_finalize env h outcome) (Finalize outcome)) (\<lambda>record.
     return \<lparr>wr_outcome = outcome, wr_finalization = Some record\<rparr>))))"

text \<open>The end of \<^verbatim>\<open>execute\<close>: a result or an exception, and the history of the calls made.\<close>

definition execute :: "wenv \<Rightarrow> withdrawal_request \<Rightarrow> withdrawal_result option \<times> history" where
  "execute env q =
     (case require_policy (we_policies env) (wq_policyId q) of
        Inl _ \<Rightarrow> (None, [])
      | Inr p \<Rightarrow>
          if \<not> request_allowed q p then (None, [])
          else
            (case (case we_recover env of
                     None \<Rightarrow> runAndFinalize env q p
                   | Some barrier \<Rightarrow>
                       bind (call barrier Recover) (\<lambda>admission.
                       if admission \<noteq> BarrierReady then
                         gets (\<lambda>s. \<lparr>wr_outcome = buildOutcome q p s Intervention RBarrierBlocked None,
                           wr_finalization = None\<rparr>)
                       else runAndFinalize env q p)) (initialState q p) of
               (r, s) \<Rightarrow> (r, ws_log s)))"

end
