(* ===== verification/Withdrawal_Protocol.thy ===== *)
theory Withdrawal_Protocol
  imports Withdrawal_Orchestrator "HOL-Library.Sublist"
begin

text \<open>
  What a withdrawal may do, as a specification independent of the orchestrator's code: the
  phase a history has reached, and the calls allowed in it. The orchestrator refines it: every
  history it produces follows the protocol, whatever the ports answer and wherever they throw.
\<close>

section \<open>The protocol\<close>

datatype cash_stage =
    NoCash
  | CashOpen cash_plan
  | CashDispensed
  | CashPresented
  | CashUncertain
  | CashEnded
  | CashLost

record phase =
  ph_started :: bool
  ph_asked :: bool
  ph_authorized :: bool
  ph_stage :: cash_stage
  ph_gates :: "string list"
  ph_presentation :: "presentation_authorization option"
  ph_card :: "card_status option"
  ph_final :: bool

definition first_phase :: phase where
  "first_phase =
     \<lparr>ph_started = False, ph_asked = False, ph_authorized = False, ph_stage = NoCash, ph_gates = [],
      ph_presentation = None, ph_card = None, ph_final = False\<rparr>"

fun advance :: "wevent \<Rightarrow> phase \<Rightarrow> phase" where
  "advance (TxStart ok) ph = ph\<lparr>ph_started := True\<rparr>"
| "advance (Authorize plan r) ph =
     ph\<lparr>ph_asked := True,
        ph_authorized := (case r of None \<Rightarrow> False | Some a \<Rightarrow> ha_status a = Approved)\<rparr>"
| "advance (CashStart r) ph =
     (case r of None \<Rightarrow> ph | Some st \<Rightarrow> ph\<lparr>ph_stage := CashOpen (st_plan st)\<rparr>)"
| "advance (Dispense plan ok) ph = ph\<lparr>ph_stage := (if ok then CashDispensed else CashUncertain)\<rparr>"
| "advance (Gate gid r) ph = (if r = Some GateApproved then ph\<lparr>ph_gates := ph_gates ph @ [gid]\<rparr> else ph)"
| "advance (AuthorizePresent r) ph = ph\<lparr>ph_presentation := r\<rparr>"
| "advance (Present a ok) ph = ph\<lparr>ph_stage := (if ok then CashPresented else CashUncertain)\<rparr>"
| "advance (WaitForTake r) ph = (case r of None \<Rightarrow> ph | Some _ \<Rightarrow> ph\<lparr>ph_stage := CashEnded\<rparr>)"
| "advance (Abort t r) ph = ph\<lparr>ph_stage := (case r of None \<Rightarrow> CashLost | Some _ \<Rightarrow> CashEnded)\<rparr>"
| "advance (Exit t r) ph = ph\<lparr>ph_stage := (case r of None \<Rightarrow> CashLost | Some _ \<Rightarrow> CashEnded)\<rparr>"
| "advance (ReturnCard b r) ph = (case r of None \<Rightarrow> ph | Some c \<Rightarrow> ph\<lparr>ph_card := Some (cr_status c)\<rparr>)"
| "advance (Finalize out r) ph = ph\<lparr>ph_final := True\<rparr>"
| "advance _ ph = ph"

definition phase_of :: "history \<Rightarrow> phase" where
  "phase_of h = foldl (\<lambda>ph e. advance e ph) first_phase h"

text \<open>The cash session has ended, by its own account or by the attempt to end it.\<close>

definition cash_over :: "wenv \<Rightarrow> history \<Rightarrow> bool" where
  "cash_over env h \<longleftrightarrow>
     ph_stage (phase_of h) \<in> {NoCash, CashEnded, CashLost} \<or> we_isTerminal env h"

definition card_before :: "withdrawal_request \<Rightarrow> withdrawal_policy \<Rightarrow> phase \<Rightarrow> bool" where
  "card_before q p ph \<longleftrightarrow>
     (wp_cardOrder p = ReturnBeforePresent \<and> wq_entryMode q = ContactCard \<longrightarrow> ph_card ph = Some CardReturned)"

fun allowed_call ::
  "wenv \<Rightarrow> withdrawal_request \<Rightarrow> withdrawal_policy \<Rightarrow> history \<Rightarrow> phase \<Rightarrow> wevent \<Rightarrow> bool" where
  "allowed_call env q p h ph (Recover _) \<longleftrightarrow> h = []"
| "allowed_call env q p h ph (TxStart _) \<longleftrightarrow> h = [] \<or> h = [Recover (Some BarrierReady)]"
| "allowed_call env q p h ph (Audit _ _) \<longleftrightarrow> ph_started ph"
| "allowed_call env q p h ph (Authorize plan _) \<longleftrightarrow> ph_started ph \<and> \<not> ph_asked ph \<and>
     (case plan of None \<Rightarrow> ph_stage ph = NoCash | Some pl \<Rightarrow> ph_stage ph = CashOpen pl)"
| "allowed_call env q p h ph (MarkAuthorized _) \<longleftrightarrow> ph_authorized ph"
| "allowed_call env q p h ph (CashStart _) \<longleftrightarrow>
     ph_started ph \<and> ph_stage ph = NoCash \<and> (ph_authorized ph \<or> planningBeforeAuthorization p)"
| "allowed_call env q p h ph (Dispense plan _) \<longleftrightarrow> ph_authorized ph \<and> ph_stage ph = CashOpen plan"
| "allowed_call env q p h ph (Gate gid _) \<longleftrightarrow>
     ph_stage ph = CashDispensed \<and> prefix (ph_gates ph @ [gid]) (wp_prePresentGateIds p)"
| "allowed_call env q p h ph (AuthorizePresent _) \<longleftrightarrow>
     ph_stage ph = CashDispensed \<and> ph_gates ph = wp_prePresentGateIds p \<and> card_before q p ph"
| "allowed_call env q p h ph (Present a _) \<longleftrightarrow>
     ph_stage ph = CashDispensed \<and> ph_authorized ph \<and> ph_gates ph = wp_prePresentGateIds p \<and>
     ph_presentation ph = Some a \<and> card_before q p ph"
| "allowed_call env q p h ph (WaitForTake _) \<longleftrightarrow> ph_stage ph = CashPresented"
| "allowed_call env q p h ph (Abort _ _) \<longleftrightarrow> ph_stage ph = CashDispensed \<or> (\<exists>pl. ph_stage ph = CashOpen pl)"
| "allowed_call env q p h ph (Exit _ _) \<longleftrightarrow> ph_stage ph \<noteq> NoCash"
| "allowed_call env q p h ph (ReturnCard respect _) \<longleftrightarrow>
     wq_entryMode q = ContactCard \<and> wp_cardOrder p \<noteq> ManagedByParent \<and> ph_card ph = None \<and>
     (if respect then
        (wp_cardOrder p = ReturnBeforePresent \<and> ph_stage ph = CashDispensed \<and> ph_gates ph = wp_prePresentGateIds p)
        \<or> (wp_cardOrder p = ReturnAfterTerminal \<and> ph_stage ph = CashEnded)
      else cash_over env h)"
| "allowed_call env q p h ph (Finalize _ _) \<longleftrightarrow> ph_started ph"

definition allowed :: "wenv \<Rightarrow> withdrawal_request \<Rightarrow> withdrawal_policy \<Rightarrow> history \<Rightarrow> wevent \<Rightarrow> bool" where
  "allowed env q p h e \<longleftrightarrow> \<not> ph_final (phase_of h) \<and> allowed_call env q p h (phase_of h) e"

definition follows :: "wenv \<Rightarrow> withdrawal_request \<Rightarrow> withdrawal_policy \<Rightarrow> history \<Rightarrow> bool" where
  "follows env q p h \<longleftrightarrow> (\<forall>i < length h. allowed env q p (take i h) (h ! i))"

lemma phase_of_Nil [simp]: "phase_of [] = first_phase"
  by (simp add: phase_of_def)

lemma phase_of_snoc [simp]: "phase_of (h @ [e]) = advance e (phase_of h)"
  by (simp add: phase_of_def)

lemma follows_Nil [simp]: "follows env q p []"
  by (simp add: follows_def)

lemma follows_snoc [simp]: "follows env q p (h @ [e]) \<longleftrightarrow> follows env q p h \<and> allowed env q p h e"
  by (auto simp: follows_def nth_append less_Suc_eq)

section \<open>Computations and their postconditions\<close>

definition ends ::
  "'a proc \<Rightarrow> ('a \<Rightarrow> wstate \<Rightarrow> bool) \<Rightarrow> (wstate \<Rightarrow> bool) \<Rightarrow> wstate \<Rightarrow> bool" where
  "ends m Q R s = (case m s of (Some x, s') \<Rightarrow> Q x s' | (None, s') \<Rightarrow> R s')"

named_theorems ends_simps \<open>postconditions of computations\<close>

lemma ends_return [ends_simps]: "ends (return x) Q R s = Q x s"
  by (simp add: ends_def return_def)

lemma ends_throw [ends_simps]: "ends throw Q R s = R s"
  by (simp add: ends_def throw_def)

lemma ends_bind [ends_simps]: "ends (bind m f) Q R s = ends m (\<lambda>x. ends (f x) Q R) R s"
  by (simp add: ends_def bind_def split: prod.splits option.splits)

lemma ends_catch [ends_simps]: "ends (catch m h) Q R s = ends m Q (ends h Q R) s"
  by (simp add: ends_def catch_def split: prod.splits option.splits)

lemma ends_modify [ends_simps]: "ends (modify f) Q R s = Q () (f s)"
  by (simp add: ends_def modify_def)

lemma ends_gets [ends_simps]: "ends (gets f) Q R s = Q (f s) s"
  by (simp add: ends_def gets_def)

lemma ends_call [ends_simps]:
  "ends (call port ev) Q R s \<longleftrightarrow>
     (\<forall>x. port (ws_log s) = Some x \<longrightarrow> Q x (s\<lparr>ws_log := ws_log s @ [ev (Some x)]\<rparr>)) \<and>
     (port (ws_log s) = None \<longrightarrow> R (s\<lparr>ws_log := ws_log s @ [ev None]\<rparr>))"
  by (cases "port (ws_log s)") (simp_all add: ends_def call_def Let_def)

lemma ends_act [ends_simps]:
  "ends (act port ev) Q R s \<longleftrightarrow>
     (port (ws_log s) \<longrightarrow> Q () (s\<lparr>ws_log := ws_log s @ [ev True]\<rparr>)) \<and>
     (\<not> port (ws_log s) \<longrightarrow> R (s\<lparr>ws_log := ws_log s @ [ev False]\<rparr>))"
  by (simp add: ends_def act_def Let_def)

lemma ends_if [ends_simps]: "ends (if b then m else n) Q R s = (if b then ends m Q R s else ends n Q R s)"
  by simp

lemma ends_option [ends_simps]:
  "ends (case x of None \<Rightarrow> m | Some y \<Rightarrow> f y) Q R s
     \<longleftrightarrow> (x = None \<longrightarrow> ends m Q R s) \<and> (\<forall>y. x = Some y \<longrightarrow> ends (f y) Q R s)"
  by (cases x) simp_all

lemma ends_weaken:
  "ends m Q R s \<Longrightarrow> (\<And>x s'. Q x s' \<Longrightarrow> Q' x s') \<Longrightarrow> (\<And>s'. R s' \<Longrightarrow> R' s') \<Longrightarrow> ends m Q' R' s"
  by (auto simp: ends_def split: prod.splits option.splits)

lemma ends_conj: "ends m Q R s \<Longrightarrow> ends m Q' R' s \<Longrightarrow> ends m (\<lambda>x t. Q x t \<and> Q' x t) (\<lambda>t. R t \<and> R' t) s"
  by (auto simp: ends_def split: prod.splits option.splits)

end
