(* ===== verification/Withdrawal_Laws.thy ===== *)
theory Withdrawal_Laws
  imports Withdrawal_Protocol
begin

text \<open>
  The orchestrator keeps the protocol: an invariant that ties the operation's facts to the
  history of its calls, what every step needs of it and leaves, and the simulation for the
  whole withdrawal.
\<close>

section \<open>The invariant\<close>

text \<open>The cash has been put before the customer.\<close>

fun is_shown :: "wevent \<Rightarrow> bool" where
  "is_shown (Present _ ok) = ok"
| "is_shown _ = False"

definition shown :: "history \<Rightarrow> bool" where
  "shown h \<longleftrightarrow> list_ex is_shown h"

lemma shown_Nil [simp]: "\<not> shown []"
  by (simp add: shown_def)

lemma shown_snoc [simp]: "shown (h @ [e]) \<longleftrightarrow> shown h \<or> is_shown e"
  by (simp add: shown_def)

text \<open>The facts tell what happened: the host approved, the cash was shown, the parent kept the card.\<close>

definition honest :: "withdrawal_policy \<Rightarrow> host_status \<Rightarrow> bool \<Rightarrow> card_fact_status \<Rightarrow> history \<Rightarrow> bool" where
  "honest p hs presented ks h \<longleftrightarrow>
     (ks = CardSessionRetained \<longrightarrow> wp_cardOrder p = ManagedByParent) \<and>
     (hs = HostApproved \<longleftrightarrow> ph_authorized (phase_of h)) \<and>
     (presented \<longleftrightarrow> shown h)"

lemma honest_quiet [simp]:
  "\<not> is_shown e \<Longrightarrow> ph_authorized (advance e (phase_of h)) = ph_authorized (phase_of h) \<Longrightarrow>
   honest p hs presented ks (h @ [e]) = honest p hs presented ks h"
  by (simp add: honest_def)

lemma honest_authorize [intro]:
  "honest p hs presented ks h \<Longrightarrow> (hs' = HostApproved) = (case r of None \<Rightarrow> False | Some a \<Rightarrow> ha_status a = Approved) \<Longrightarrow>
   honest p hs' presented ks (h @ [Authorize plan r])"
  by (simp add: honest_def)

lemma honest_present [intro]:
  "honest p hs presented ks h \<Longrightarrow> honest p hs True ks (h @ [Present a True])"
  by (simp add: honest_def)

lemma honest_card [intro]:
  "honest p hs presented ks h \<Longrightarrow> honest p hs presented (CardCustody c) h"
  by (simp add: honest_def)

definition sound :: "wenv \<Rightarrow> withdrawal_request \<Rightarrow> withdrawal_policy \<Rightarrow> wstate \<Rightarrow> bool" where
  "sound env q p s \<longleftrightarrow>
     follows env q p (ws_log s) \<and>
     ph_started (phase_of (ws_log s)) \<and> \<not> ph_final (phase_of (ws_log s)) \<and>
     (ph_stage (phase_of (ws_log s)) = NoCash \<longleftrightarrow> cf_cashSessionId (ws_cash s) = None) \<and>
     kf_required (ws_card s) = (wq_entryMode q = ContactCard) \<and>
     honest p (hf_status (ws_host s)) (cf_presented (ws_cash s)) (kf_status (ws_card s)) (ws_log s) \<and>
     (kf_status (ws_card s) = CardPending \<longrightarrow> ph_card (phase_of (ws_log s)) = None) \<and>
     (kf_status (ws_card s) = CardCustody CardReturned \<longrightarrow> ph_card (phase_of (ws_log s)) = Some CardReturned)"

definition stage_is :: "(cash_stage \<Rightarrow> bool) \<Rightarrow> wstate \<Rightarrow> bool" where
  "stage_is P s \<longleftrightarrow> P (ph_stage (phase_of (ws_log s)))"

definition cash_ended :: "cash_stage \<Rightarrow> bool" where
  "cash_ended c \<longleftrightarrow> c = CashEnded \<or> c = CashLost"

text \<open>What does not change while a card is returned or the cash session is ended.\<close>

definition same_course :: "wstate \<Rightarrow> wstate \<Rightarrow> bool" where
  "same_course s s' \<longleftrightarrow>
     set (ws_log s) \<subseteq> set (ws_log s') \<and>
     ph_asked (phase_of (ws_log s')) = ph_asked (phase_of (ws_log s)) \<and>
     ph_authorized (phase_of (ws_log s')) = ph_authorized (phase_of (ws_log s)) \<and>
     ph_gates (phase_of (ws_log s')) = ph_gates (phase_of (ws_log s))"

lemmas sound_simps = sound_def stage_is_def same_course_def allowed_def cash_over_def cash_ended_def

lemma applyCashTerminal_fields [simp]:
  "cf_presented (ws_cash (applyCashTerminal r s)) = cf_presented (ws_cash s)"
  "ws_log (applyCashTerminal r s) = ws_log s"
  "ws_card (applyCashTerminal r s) = ws_card s"
  "ws_host (applyCashTerminal r s) = ws_host s"
  "cf_cashSessionId (ws_cash (applyCashTerminal r s)) = cf_cashSessionId (ws_cash s)"
  by (simp_all add: applyCashTerminal_def)

lemma reconcileDispenseFailure_fields [simp]:
  "cf_presented (ws_cash (reconcileDispenseFailure s)) = cf_presented (ws_cash s)"
  "ws_log (reconcileDispenseFailure s) = ws_log s"
  "ws_card (reconcileDispenseFailure s) = ws_card s"
  "ws_host (reconcileDispenseFailure s) = ws_host s"
  "cf_cashSessionId (ws_cash (reconcileDispenseFailure s)) = cf_cashSessionId (ws_cash s)"
  by (simp_all add: reconcileDispenseFailure_def)

lemma sound_reconcileDispenseFailure [simp]:
  "sound env q p (reconcileDispenseFailure s) = sound env q p s"
  "stage_is P (reconcileDispenseFailure s) = stage_is P s"
  by (simp_all add: sound_def stage_is_def)

section \<open>Steps\<close>

lemma abortCash_sound:
  assumes "sound env q p s" and "stage_is (\<lambda>c. c = CashDispensed \<or> (\<exists>pl. c = CashOpen pl)) s"
  shows "ends (abortCash env trigger)
    (\<lambda>_ s'. sound env q p s' \<and> stage_is cash_ended s' \<and> ws_card s' = ws_card s
       \<and> ws_host s' = ws_host s)
    (\<lambda>_. False) s"
  using assms by (auto simp: abortCash_def custody_unknown_def ends_simps sound_simps)

lemma transferCash_sound:
  assumes "sound env q p s" and "stage_is (\<lambda>c. c \<noteq> NoCash) s"
  shows "ends (transferCash env trigger)
    (\<lambda>_ s'. sound env q p s' \<and> stage_is cash_ended s' \<and> ws_card s' = ws_card s
       \<and> ws_host s' = ws_host s)
    (\<lambda>_. False) s"
  using assms
  by (auto simp: transferCash_def custody_unknown_def ends_simps sound_simps split: cash_exit.split)

definition card_due :: "wenv \<Rightarrow> withdrawal_policy \<Rightarrow> bool \<Rightarrow> wstate \<Rightarrow> bool" where
  "card_due env p respect s \<longleftrightarrow>
     (if respect then
        (wp_cardOrder p = ReturnBeforePresent \<and> stage_is (\<lambda>c. c = CashDispensed) s
           \<and> ph_gates (phase_of (ws_log s)) = wp_prePresentGateIds p)
        \<or> (wp_cardOrder p = ReturnAfterTerminal \<and> stage_is (\<lambda>c. c = CashEnded) s)
      else cash_over env (ws_log s))"

lemma resolveCard_sound:
  assumes "sound env q p s" and "card_due env p respect s"
  shows "ends (resolveCard env q p respect)
    (\<lambda>_ s'. sound env q p s' \<and> same_course s s' \<and>
       ph_stage (phase_of (ws_log s')) = ph_stage (phase_of (ws_log s)) \<and>
       ws_cash s' = ws_cash s \<and> ws_host s' = ws_host s)
    (\<lambda>s'. sound env q p s' \<and> ws_cash s' = ws_cash s) s"
  using assms
  by (auto simp: resolveCard_def ends_simps sound_simps card_due_def split: option.split)

section \<open>The ways out\<close>

text \<open>
  What every way out of the body guarantees: the invariant; an outcome that is the account of the
  facts reached, with a safe status; and, if it is a completion, that the cash was seen taken.
\<close>

definition judged :: "withdrawal_request \<Rightarrow> withdrawal_policy \<Rightarrow> withdrawal_outcome \<Rightarrow> wstate \<Rightarrow> bool" where
  "judged q p out s \<longleftrightarrow>
     (\<exists>requested reason trigger. out = buildOutcome q p s (safetyStatus requested s) reason trigger)"

definition seen_taken :: "history \<Rightarrow> bool" where
  "seen_taken h \<longleftrightarrow> (\<exists>r. WaitForTake (Some r) \<in> set h \<and> ct_outcome r = Taken)"

lemma seen_taken_mono: "seen_taken h \<Longrightarrow> set h \<subseteq> set k \<Longrightarrow> seen_taken k"
  by (auto simp: seen_taken_def)

definition concluded ::
  "wenv \<Rightarrow> withdrawal_request \<Rightarrow> withdrawal_policy \<Rightarrow> withdrawal_outcome \<Rightarrow> wstate \<Rightarrow> bool" where
  "concluded env q p out s \<longleftrightarrow>
     sound env q p s \<and> judged q p out s \<and>
     (wo_status out = Completed \<longrightarrow>
        seen_taken (ws_log s) \<and> cf_custody (ws_cash s) = CashOutcome Taken \<and>
        (wq_entryMode q = ContactCard \<longrightarrow>
           kf_status (ws_card s) = CardCustody CardReturned \<or> kf_status (ws_card s) = CardSessionRetained))"

abbreviation exits ::
  "wenv \<Rightarrow> withdrawal_request \<Rightarrow> withdrawal_policy \<Rightarrow> withdrawal_outcome proc \<Rightarrow> wstate \<Rightarrow> bool" where
  "exits env q p m \<equiv> ends m (concluded env q p) (sound env q p)"

lemma ends_then:
  "ends m P P' s \<Longrightarrow> (\<And>x t. P x t \<Longrightarrow> ends (f x) Q R t) \<Longrightarrow> (\<And>t. P' t \<Longrightarrow> R t) \<Longrightarrow>
   ends (bind m f) Q R s"
  by (simp add: ends_bind) (rule ends_weaken)

lemma safetyStatus_completed:
  "safetyStatus requested s = Completed \<Longrightarrow> requested = Completed"
  by (simp add: safetyStatus_def split: if_splits)

lemma safeOutcome_exits:
  "sound env q p s \<Longrightarrow> requested \<noteq> Completed \<Longrightarrow> exits env q p (safeOutcome q p requested reason trigger) s"
  by (auto simp: safeOutcome_def ends_simps concluded_def judged_def buildOutcome_def
        dest: safetyStatus_completed)

lemma resolve_and_leave:
  assumes "sound env q p s" and "card_due env p respect s" and "requested \<noteq> Completed"
  shows "exits env q p (bind (resolveCard env q p respect) (\<lambda>_. safeOutcome q p requested reason trigger)) s"
  by (rule ends_then [OF resolveCard_sound [OF assms(1,2)]]) (use assms(3) in \<open>auto intro: safeOutcome_exits\<close>)

lemma card_due_ended:
  "stage_is cash_ended s \<Longrightarrow> card_due env p False s"
  "stage_is (\<lambda>c. c = NoCash) s \<Longrightarrow> card_due env p False s"
  by (auto simp: card_due_def cash_over_def stage_is_def cash_ended_def)

lemma abort_and_leave:
  assumes "sound env q p s" and "stage_is (\<lambda>c. c = CashDispensed \<or> (\<exists>pl. c = CashOpen pl)) s"
    and "requested \<noteq> Completed"
  shows "exits env q p (bind (abortCash env t) (\<lambda>_. bind (resolveCard env q p False)
           (\<lambda>_. safeOutcome q p requested reason trigger))) s"
  by (rule ends_then [OF abortCash_sound [OF assms(1,2)]])
    (use assms(3) in \<open>auto intro: resolve_and_leave card_due_ended\<close>)

lemma transfer_and_leave:
  assumes "sound env q p s" and "stage_is (\<lambda>c. c \<noteq> NoCash) s" and "requested \<noteq> Completed"
  shows "exits env q p (bind (transferCash env t) (\<lambda>_. bind (resolveCard env q p False)
           (\<lambda>_. safeOutcome q p requested reason trigger))) s"
  by (rule ends_then [OF transferCash_sound [OF assms(1,2)]])
    (use assms(3) in \<open>auto intro: resolve_and_leave card_due_ended\<close>)

lemma sound_required: "sound env q p s \<Longrightarrow> kf_required (ws_card s) = (wq_entryMode q = ContactCard)"
  by (simp add: sound_def)

lemma sound_returned:
  "sound env q p s \<Longrightarrow> kf_status (ws_card s) = CardCustody CardReturned \<Longrightarrow>
   ph_card (phase_of (ws_log s)) = Some CardReturned"
  by (simp add: sound_def)

lemma terminalOutcome_exits:
  assumes "sound env q p s" and "cf_custody (ws_cash s) = CashOutcome Taken \<Longrightarrow> seen_taken (ws_log s)"
  shows "exits env q p (terminalOutcome q p) s"
  using assms sound_required [OF assms(1)]
  by (auto simp: terminalOutcome_def ends_def safeOutcome_def gets_def concluded_def judged_def
      buildOutcome_def dest: safetyStatus_completed)

section \<open>The presentation\<close>

definition present_ready :: "wenv \<Rightarrow> withdrawal_request \<Rightarrow> withdrawal_policy \<Rightarrow> wstate \<Rightarrow> bool" where
  "present_ready env q p s \<longleftrightarrow>
     sound env q p s \<and> stage_is (\<lambda>c. c = CashDispensed) s \<and> ph_authorized (phase_of (ws_log s)) \<and>
     ph_gates (phase_of (ws_log s)) = wp_prePresentGateIds p"

lemma finishPresented_exits:
  assumes "sound env q p s" and "stage_is (\<lambda>c. c = CashPresented) s"
  shows "exits env q p (finishPresented env q p) s"
proof -
  have waited: "ends (bind (call (we_waitForTake env) WaitForTake) (\<lambda>r. modify (applyCashTerminal r)))
      (\<lambda>_ t. sound env q p t \<and> stage_is (\<lambda>c. c = CashEnded) t \<and>
         (cf_custody (ws_cash t) = CashOutcome Taken \<longrightarrow> seen_taken (ws_log t)))
      (sound env q p) s"
    using assms by (auto simp: ends_simps sound_simps seen_taken_def applyCashTerminal_def)
  have split: "finishPresented env q p =
      bind (bind (call (we_waitForTake env) WaitForTake) (\<lambda>r. modify (applyCashTerminal r)))
        (\<lambda>_. bind (if wp_cardOrder p = ReturnAfterTerminal then resolveCard env q p True else return None)
           (\<lambda>_. terminalOutcome q p))"
    by (rule ext) (simp add: finishPresented_def bind_def split: option.split prod.split)
  show ?thesis
    unfolding split
  proof (rule ends_then [OF waited])
    fix x t
    assume t: "sound env q p t \<and> stage_is (\<lambda>c. c = CashEnded) t \<and>
      (cf_custody (ws_cash t) = CashOutcome Taken \<longrightarrow> seen_taken (ws_log t))"
    show "exits env q p (bind (if wp_cardOrder p = ReturnAfterTerminal then resolveCard env q p True
        else return None) (\<lambda>_. terminalOutcome q p)) t"
    proof (cases "wp_cardOrder p = ReturnAfterTerminal")
      case True
      then have due: "card_due env p True t" using t by (simp add: card_due_def)
      show ?thesis
        using True t
        by (auto intro!: ends_then [OF resolveCard_sound [OF _ due]] terminalOutcome_exits
            intro: seen_taken_mono simp: same_course_def)
    next
      case False
      then show ?thesis using t by (simp add: ends_simps terminalOutcome_exits)
    qed
  qed simp
qed

lemma presentCash_exits:
  assumes "present_ready env q p s" and "card_before q p (phase_of (ws_log s))"
  shows "exits env q p (presentCash env q p) s"
proof -
  have asked: "ends (catch (bind (call (we_authorizePresent env) AuthorizePresent) (\<lambda>a. return (Some a))) (return None))
      (\<lambda>a t. present_ready env q p t \<and> card_before q p (phase_of (ws_log t)) \<and>
         ph_presentation (phase_of (ws_log t)) = a) (\<lambda>_. False) s"
    using assms by (auto simp: ends_simps present_ready_def sound_simps card_before_def)
  show ?thesis
    unfolding presentCash_def
  proof (rule ends_then [OF asked])
    fix a t
    assume t: "present_ready env q p t \<and> card_before q p (phase_of (ws_log t)) \<and>
      ph_presentation (phase_of (ws_log t)) = a"
    let ?present = "\<lambda>a. catch
        (bind (act (\<lambda>h. we_present env h a) (Present a)) (\<lambda>_.
         bind (modify (\<lambda>s. s\<lparr>ws_cash := (ws_cash s)\<lparr>cf_present := PresentCompleted, cf_presented := True\<rparr>\<rparr>))
           (\<lambda>_. return True)))
        (bind (modify (\<lambda>s. s\<lparr>ws_cash := (ws_cash s)
           \<lparr>cf_present := PresentUnknown, cf_reconciliationRequired := True\<rparr>\<rparr>)) (\<lambda>_. return False))"
    have shown: "a = Some a' \<Longrightarrow> ends (?present a')
        (\<lambda>ok u. sound env q p u \<and> stage_is (\<lambda>c. c = (if ok then CashPresented else CashUncertain)) u)
        (\<lambda>_. False) t" for a'
      using t by (auto simp: ends_simps present_ready_def sound_simps card_before_def)
    show "exits env q p (case a of
          None \<Rightarrow> bind (abortCash env TInterrupt) (\<lambda>_. bind (resolveCard env q p False)
                    (\<lambda>_. safeOutcome q p Failed RCashPresentationNotAuthorized None))
        | Some a \<Rightarrow> bind (?present a) (\<lambda>presented.
            if presented then finishPresented env q p
            else bind (transferCash env TInterrupt) (\<lambda>_. bind (resolveCard env q p False)
                   (\<lambda>_. safeOutcome q p Intervention RCashPresentFailed (Some TInterrupt))))) t"
    proof (cases a)
      case None
      then show ?thesis using t by (auto simp: present_ready_def stage_is_def intro!: abort_and_leave)
    next
      case (Some a')
      then show ?thesis
        using shown [OF Some]
        by (auto intro!: ends_then [OF shown [OF Some]] finishPresented_exits transfer_and_leave
            simp: stage_is_def split: if_splits)
    qed
  qed simp
qed

lemma gateFailure_not_completed: "gateFailure g = (st, r, t) \<Longrightarrow> st \<noteq> Completed"
  by (auto simp: gateFailure_def split: if_splits)

lemma cardFailure_not_completed: "cardFailure c = (st, r, t) \<Longrightarrow> st \<noteq> Completed"
  by (auto simp: cardFailure_def split: if_splits)

lemma requestInterrupt_not_completed: "requestInterrupt q = (st, r, t) \<Longrightarrow> st \<noteq> Completed"
  by (auto simp: requestInterrupt_def split: if_splits)

lemma abort_only_and_leave:
  assumes "sound env q p s" and "stage_is (\<lambda>c. c = CashDispensed) s" and "requested \<noteq> Completed"
  shows "exits env q p (bind (abortCash env t) (\<lambda>_. safeOutcome q p requested reason trigger)) s"
proof -
  have stage: "stage_is (\<lambda>c. c = CashDispensed \<or> (\<exists>pl. c = CashOpen pl)) s"
    using assms(2) by (simp add: stage_is_def)
  show ?thesis
    by (rule ends_then [OF abortCash_sound [OF assms(1) stage]]) (use assms(3) in \<open>auto intro: safeOutcome_exits\<close>)
qed

lemma returnCardFirst_exits:
  assumes "present_ready env q p s"
  shows "exits env q p (returnCardFirst env q p) s"
proof (cases "wp_cardOrder p = ReturnBeforePresent")
  case False
  then show ?thesis using assms by (simp add: returnCardFirst_def card_before_def presentCash_exits)
next
  case True
  have due: "card_due env p True s" and sound: "sound env q p s"
    using assms True by (auto simp: card_due_def present_ready_def)
  show ?thesis
    unfolding returnCardFirst_def using True
  proof (simp, intro ends_then [OF resolveCard_sound [OF sound due]])
    fix card t
    assume t: "sound env q p t \<and> same_course s t \<and>
      ph_stage (phase_of (ws_log t)) = ph_stage (phase_of (ws_log s)) \<and>
      ws_cash t = ws_cash s \<and> ws_host t = ws_host s"
    then have ready: "present_ready env q p t"
      using assms by (simp add: present_ready_def same_course_def stage_is_def)
    show "exits env q p (bind (gets (\<lambda>s. kf_required (ws_card s) \<and> kf_status (ws_card s) \<noteq> CardCustody CardReturned))
        (\<lambda>kept. if \<not> kept then presentCash env q p
          else bind (abortCash env (case card of None \<Rightarrow> TInterrupt | Some r \<Rightarrow> cardTrigger r)) (\<lambda>_.
            case (case card of None \<Rightarrow> (Intervention, RCardCustodyUnresolved, None) | Some r \<Rightarrow> cardFailure r) of
              (status, reason, trigger) \<Rightarrow> safeOutcome q p status reason trigger))) t"
      using ready t sound_required [of env q p t] sound_returned [of env q p t]
      by (auto simp: ends_gets ends_bind [of "gets _"] card_before_def present_ready_def
          split: prod.split option.split dest: cardFailure_not_completed
          intro!: presentCash_exits abort_only_and_leave)
  qed simp
qed

lemma evaluate_gates_ready:
  assumes "sound env q p s" and "stage_is (\<lambda>c. c = CashDispensed) s" and "ph_authorized (phase_of (ws_log s))"
    and "ph_gates (phase_of (ws_log s)) @ gids = wp_prePresentGateIds p"
  shows "ends (evaluate_gates r gids)
    (\<lambda>g t. sound env q p t \<and> stage_is (\<lambda>c. c = CashDispensed) t \<and> (g = GateApproved \<longrightarrow> present_ready env q p t))
    (sound env q p) s"
  using assms
proof (induction gids arbitrary: s)
  case Nil
  then show ?case by (simp add: ends_simps present_ready_def)
next
  case (Cons gid gids)
  show ?case
  proof (cases "lookup r gid")
    case None
    then show ?thesis using Cons.prems by (simp add: ends_simps)
  next
    case (Some g)
    have pre: "prefix (ph_gates (phase_of (ws_log s)) @ [gid]) (wp_prePresentGateIds p)"
      using Cons.prems(4) by (metis append.assoc append_Cons append_Nil prefixI)
    have asked: "ends (call (wg_evaluate g) (Gate gid))
        (\<lambda>status t. sound env q p t \<and> stage_is (\<lambda>c. c = CashDispensed) t \<and> ph_authorized (phase_of (ws_log t)) \<and>
           (status = GateApproved \<longrightarrow> ph_gates (phase_of (ws_log t)) @ gids = wp_prePresentGateIds p))
        (sound env q p) s"
      using Cons.prems pre by (auto simp: ends_simps sound_simps)
    show ?thesis
      using Some by (auto intro!: ends_then [OF asked] Cons.IH simp: ends_return)
  qed
qed

section \<open>The body\<close>

lemma dispenseCash_exits:
  assumes "sound env q p s" and "stage_is (\<lambda>c. c = CashOpen (st_plan started)) s"
    and "ph_authorized (phase_of (ws_log s))" and "ph_gates (phase_of (ws_log s)) = []"
  shows "exits env q p (dispenseCash env q p started) s"
proof -
  have tried: "ends (catch
      (bind (act (\<lambda>h. we_dispense env h (st_plan started)) (Dispense (st_plan started))) (\<lambda>_.
       bind (modify (\<lambda>s. s\<lparr>ws_cash := (ws_cash s)\<lparr>cf_dispense := DispenseCompleted, cf_dispensed := True\<rparr>\<rparr>))
         (\<lambda>_. return True)))
      (bind (modify (\<lambda>s. s\<lparr>ws_cash := (ws_cash s)
         \<lparr>cf_dispense := DispenseUnknown, cf_reconciliationRequired := True\<rparr>\<rparr>)) (\<lambda>_. return False)))
      (\<lambda>ok t. sound env q p t \<and> ph_authorized (phase_of (ws_log t)) \<and> ph_gates (phase_of (ws_log t)) = [] \<and>
         stage_is (\<lambda>c. c = (if ok then CashDispensed else CashUncertain)) t)
      (\<lambda>_. False) s"
    using assms by (auto simp: ends_simps sound_simps)
  have failed: "exits env q p (bind (transferCash env TInterrupt) (\<lambda>_. bind (modify reconcileDispenseFailure) (\<lambda>_.
      bind (resolveCard env q p False) (\<lambda>_. bind (gets (\<lambda>s. cf_reconciliationRequired (ws_cash s))) (\<lambda>rec.
      safeOutcome q p (if rec then Intervention else Failed) RCashDispenseFailed (Some TInterrupt)))))) t"
    if t: "sound env q p t" "stage_is (\<lambda>c. c = CashUncertain) t" for t
  proof (rule ends_then [OF transferCash_sound [OF t(1)]])
    fix x u
    assume u: "sound env q p u \<and> stage_is cash_ended u \<and> ws_card u = ws_card t \<and> ws_host u = ws_host t"
    then have v: "sound env q p (reconcileDispenseFailure u)" "card_due env p False (reconcileDispenseFailure u)"
      by (auto simp: card_due_ended(1))
    show "exits env q p (bind (modify reconcileDispenseFailure) (\<lambda>_.
      bind (resolveCard env q p False) (\<lambda>_. bind (gets (\<lambda>s. cf_reconciliationRequired (ws_cash s))) (\<lambda>rec.
      safeOutcome q p (if rec then Intervention else Failed) RCashDispenseFailed (Some TInterrupt))))) u"
      by (auto simp: ends_modify ends_bind [of "modify _"] ends_bind [of "gets _"] ends_gets
          intro!: ends_then [OF resolveCard_sound [OF v]] safeOutcome_exits)
  qed (use t in \<open>auto simp: stage_is_def\<close>)
  show ?thesis
    unfolding dispenseCash_def
    by (rule ends_then [OF tried])
      (auto simp: failed stage_is_def split: prod.split intro!: ends_then [OF evaluate_gates_ready]
        returnCardFirst_exits abort_and_leave dest: gateFailure_not_completed)
qed

definition planned_stage :: "cash_started option \<Rightarrow> cash_stage \<Rightarrow> bool" where
  "planned_stage planned c \<longleftrightarrow> (case planned of None \<Rightarrow> c = NoCash | Some st \<Rightarrow> c = CashOpen (st_plan st))"

lemma planned_stage_simps [simp]:
  "planned_stage None = (\<lambda>c. c = NoCash)"
  "planned_stage (Some st) = (\<lambda>c. c = CashOpen (st_plan st))"
  by (auto simp: planned_stage_def)

lemma authorizeHost_ready:
  assumes "sound env q p s" and "\<not> ph_asked (phase_of (ws_log s))"
    and "stage_is (planned_stage planned) s"
  shows "ends (authorizeHost env (map_option st_plan planned))
    (\<lambda>a t. sound env q p t \<and> ph_stage (phase_of (ws_log t)) = ph_stage (phase_of (ws_log s)) \<and>
       ph_gates (phase_of (ws_log t)) = ph_gates (phase_of (ws_log s)) \<and>
       (a \<noteq> None \<longrightarrow> ph_authorized (phase_of (ws_log t))))
    (\<lambda>_. False) s"
proof -
  have step: "ends (call (\<lambda>h. we_authorize env h plan) (Authorize plan))
      (\<lambda>r t. t = s\<lparr>ws_log := ws_log s @ [Authorize plan (Some r)]\<rparr>)
      (\<lambda>t. t = s\<lparr>ws_log := ws_log s @ [Authorize plan None]\<rparr>) s" for plan
    by (simp add: ends_call)
  have may: "allowed env q p (ws_log s) (Authorize (map_option st_plan planned) r)" for r
    using assms by (cases planned) (simp_all add: allowed_def sound_def stage_is_def)
  have told: "sound env q p (t\<lparr>ws_host := host\<rparr>)"
    if "t = s\<lparr>ws_log := ws_log s @ [Authorize (map_option st_plan planned) r]\<rparr>"
      and "(hf_status host = HostApproved) = (case r of None \<Rightarrow> False | Some a \<Rightarrow> ha_status a = Approved)" for t r host
    using assms(1) may that by (auto simp: sound_def)
  show ?thesis
    unfolding authorizeHost_def ends_catch
    by (rule ends_then [OF step])
      (auto simp: ends_simps told split: authorization_status.split)
qed

lemma startCash_ready:
  assumes "sound env q p s" and "stage_is (\<lambda>c. c = NoCash) s"
    and "ph_authorized (phase_of (ws_log s)) \<or> planningBeforeAuthorization p"
  shows "ends (startCash env)
    (\<lambda>st t. sound env q p t \<and> same_course s t \<and>
       stage_is (planned_stage st) t)
    (\<lambda>_. False) s"
  using assms by (simp add: startCash_def ends_simps sound_simps subset_insertI)

lemma cashStartFailed_exits:
  "sound env q p s \<Longrightarrow> stage_is (\<lambda>c. c = NoCash) s \<Longrightarrow> exits env q p (cashStartFailed env q p) s"
  by (simp add: cashStartFailed_def resolve_and_leave card_due_ended(2))

lemma act_quiet:
  assumes "sound env q p s" and "\<And>ok. allowed env q p (ws_log s) (ev ok)"
    and "\<And>ok. advance (ev ok) (phase_of (ws_log s)) = phase_of (ws_log s)" and "\<And>ok. \<not> is_shown (ev ok)"
  shows "ends (act port ev) (\<lambda>_ t. sound env q p t \<and> phase_of (ws_log t) = phase_of (ws_log s)) (sound env q p) s"
  using assms by (simp add: ends_act sound_def)

lemma hostRefused_exits:
  assumes "sound env q p s" and "stage_is (planned_stage planned) s"
  shows "exits env q p (hostRefused env q p planned) s"
proof -
  have leave: "exits env q p (bind (resolveCard env q p False) (\<lambda>_.
     bind (gets (\<lambda>s. hf_status (ws_host s) = HostDeclined)) (\<lambda>declined.
     safeOutcome q p (if declined then Declined else Failed)
       (if declined then RHostDeclined else RHostUnavailable) None))) t"
    if "sound env q p t" "card_due env p False t" for t
    by (auto simp: ends_bind [of "gets _"] ends_gets intro!: ends_then [OF resolveCard_sound [OF that]]
        safeOutcome_exits)
  have ended: "ends (if planned \<noteq> None then abortCash env TInterrupt else return ())
      (\<lambda>_ t. sound env q p t \<and> card_due env p False t) (\<lambda>_. False) s"
  proof (cases planned)
    case None
    then show ?thesis using assms by (simp add: ends_return card_due_ended(2))
  next
    case (Some st)
    then have stage: "stage_is (\<lambda>c. c = CashDispensed \<or> (\<exists>pl. c = CashOpen pl)) s"
      using assms(2) by (simp add: stage_is_def)
    show ?thesis
      using Some by (auto intro!: ends_weaken [OF abortCash_sound [OF assms(1) stage]] simp: card_due_ended(1))
  qed
  show ?thesis
    unfolding hostRefused_def by (rule ends_then [OF ended]) (simp_all add: leave)
qed

lemma hostAgreed_exits:
  assumes "sound env q p s" and "ph_authorized (phase_of (ws_log s))" and "ph_gates (phase_of (ws_log s)) = []"
    and "stage_is (planned_stage planned) s"
  shows "exits env q p (hostAgreed env q p planned) s"
proof -
  have may: "allowed env q p (ws_log t) (MarkAuthorized ok)" "allowed env q p (ws_log t) (Audit e ok)"
    if "sound env q p t" "phase_of (ws_log t) = phase_of (ws_log s)" for t ok e
    using that assms(2) by (simp_all add: allowed_def sound_def)
  have quiet: "ends (bind (act (we_markAuthorized env) MarkAuthorized)
      (\<lambda>_. act (we_audit env) (Audit ''withdrawal.authorized'')))
      (\<lambda>_ t. sound env q p t \<and> phase_of (ws_log t) = phase_of (ws_log s)) (sound env q p) s"
    by (rule ends_then [OF act_quiet])
      (auto simp: assms(1) may intro!: ends_weaken [OF act_quiet])
  have split: "hostAgreed env q p planned =
      bind (bind (act (we_markAuthorized env) MarkAuthorized) (\<lambda>_. act (we_audit env) (Audit ''withdrawal.authorized'')))
      (\<lambda>_. case planned of
           Some started \<Rightarrow> dispenseCash env q p started
         | None \<Rightarrow> bind (startCash env) (\<lambda>st. case st of
               None \<Rightarrow> cashStartFailed env q p
             | Some started \<Rightarrow> dispenseCash env q p started))"
    by (rule ext) (simp add: hostAgreed_def bind_def split: option.split prod.split)
  show ?thesis
    unfolding split
  proof (rule ends_then [OF quiet])
    fix x t
    assume t: "sound env q p t \<and> phase_of (ws_log t) = phase_of (ws_log s)"
    show "exits env q p (case planned of
           Some started \<Rightarrow> dispenseCash env q p started
         | None \<Rightarrow> bind (startCash env) (\<lambda>st. case st of
               None \<Rightarrow> cashStartFailed env q p
             | Some started \<Rightarrow> dispenseCash env q p started)) t"
    proof (cases planned)
      case None
      then have "stage_is (\<lambda>c. c = NoCash) t" using assms(4) t by (simp add: stage_is_def)
      with t assms(2) have "ends (startCash env)
          (\<lambda>st u. sound env q p u \<and> same_course t u \<and> stage_is (planned_stage st) u) (\<lambda>_. False) t"
        by (intro startCash_ready) simp_all
      then show ?thesis
        unfolding None option.case
      proof (rule ends_then)
        fix st u
        assume "sound env q p u \<and> same_course t u \<and> stage_is (planned_stage st) u"
        then show "exits env q p (case st of None \<Rightarrow> cashStartFailed env q p
            | Some started \<Rightarrow> dispenseCash env q p started) u"
          using t assms(2,3) by (cases st) (simp_all add: same_course_def cashStartFailed_exits dispenseCash_exits)
      qed simp
    next
      case (Some st)
      then show ?thesis
        using t assms by (auto simp: stage_is_def intro!: dispenseCash_exits)
    qed
  qed simp
qed

lemma authorizeAndDispense_exits:
  assumes "sound env q p s" and "\<not> ph_asked (phase_of (ws_log s))" and "ph_gates (phase_of (ws_log s)) = []"
    and "stage_is (planned_stage planned) s"
  shows "exits env q p (authorizeAndDispense env q p planned) s"
  unfolding authorizeAndDispense_def
  by (rule ends_then [OF authorizeHost_ready [OF assms(1,2,4)]])
    (use assms in \<open>auto simp: stage_is_def split: option.split intro!: hostRefused_exits hostAgreed_exits\<close>)

section \<open>The withdrawal\<close>

lemma runBody_exits:
  assumes "sound env q p s" and "\<not> ph_asked (phase_of (ws_log s))" and "ph_gates (phase_of (ws_log s)) = []"
    and "stage_is (\<lambda>c. c = NoCash) s"
  shows "exits env q p (runBody env q p) s"
  unfolding runBody_def
  using assms
  by (auto simp: ends_bind [of "gets _"] ends_gets planned_stage_def stage_is_def same_course_def split: prod.split option.split
      dest: requestInterrupt_not_completed intro!: resolve_and_leave card_due_ended ends_then [OF startCash_ready]
        cashStartFailed_exits authorizeAndDispense_exits)

lemma unexpected_exits:
  assumes "sound env q p s"
  shows "exits env q p (unexpected env q p) s"
proof (cases "cf_cashSessionId (ws_cash s) \<noteq> None \<and> \<not> we_isTerminal env (ws_log s)")
  case True
  then have "stage_is (\<lambda>c. c \<noteq> NoCash) s" using assms by (simp add: sound_def stage_is_def)
  with True assms show ?thesis
    by (simp add: unexpected_def ends_bind [of "gets _"] ends_gets transfer_and_leave)
next
  case False
  then have "card_due env p False s"
    using assms by (auto simp: sound_def card_due_def cash_over_def)
  moreover have "ends (unexpected env q p) Q R s = ends (bind (resolveCard env q p False)
      (\<lambda>_. safeOutcome q p Intervention RUnexpectedFailure (Some TInterrupt))) Q R s" for Q R
    using False by (auto simp: unexpected_def ends_bind [of "gets _"] ends_gets ends_bind [of "return _"] ends_return)
  ultimately show ?thesis
    using assms by (simp add: resolve_and_leave)
qed

lemma runAdmitted_exits:
  assumes "sound env q p s" and "\<not> ph_asked (phase_of (ws_log s))" and "ph_gates (phase_of (ws_log s)) = []"
    and "stage_is (\<lambda>c. c = NoCash) s"
  shows "exits env q p (runAdmitted env q p) s"
  unfolding runAdmitted_def ends_catch
  by (rule ends_weaken [OF runBody_exits [OF assms]]) (simp_all add: unexpected_exits)

text \<open>What holds when \<^verbatim>\<open>execute\<close> returns: the last call was the finalization of its outcome.\<close>

definition finished ::
  "wenv \<Rightarrow> withdrawal_request \<Rightarrow> withdrawal_policy \<Rightarrow> withdrawal_result \<Rightarrow> wstate \<Rightarrow> bool" where
  "finished env q p res s \<longleftrightarrow>
     (\<exists>t r. concluded env q p (wr_outcome res) t \<and> wr_finalization res = Some r \<and>
        ws_log s = ws_log t @ [Finalize (wr_outcome res) (Some r)])"

definition fresh :: "wenv \<Rightarrow> withdrawal_request \<Rightarrow> withdrawal_policy \<Rightarrow> wstate \<Rightarrow> bool" where
  "fresh env q p s \<longleftrightarrow>
     (ws_log s = [] \<or> ws_log s = [Recover (Some BarrierReady)]) \<and>
     ws_card s = ws_card (initialState q p) \<and> ws_cash s = ws_cash (initialState q p) \<and>
     ws_host s = ws_host (initialState q p)"

definition admitted_start :: "wenv \<Rightarrow> withdrawal_request \<Rightarrow> withdrawal_policy \<Rightarrow> wstate \<Rightarrow> bool" where
  "admitted_start env q p s \<longleftrightarrow>
     sound env q p s \<and> \<not> ph_asked (phase_of (ws_log s)) \<and> ph_gates (phase_of (ws_log s)) = [] \<and>
     stage_is (\<lambda>c. c = NoCash) s"

lemma sound_follows: "sound env q p s \<Longrightarrow> follows env q p (ws_log s)"
  by (simp add: sound_def)

lemma fresh_follows: "fresh env q p s \<Longrightarrow> follows env q p (ws_log s)"
  using follows_snoc [of env q p "[]" "Recover (Some BarrierReady)"]
  by (auto simp: fresh_def allowed_def first_phase_def)

lemma txStart_ready:
  assumes "fresh env q p s"
  shows "ends (act (we_txStart env) TxStart) (\<lambda>_ t. admitted_start env q p t)
    (\<lambda>t. follows env q p (ws_log t)) s"
proof -
  have same: "ws_card s = ws_card (initialState q p)" "ws_host s = ws_host (initialState q p)" "ws_cash s = ws_cash (initialState q p)"
    using assms by (simp_all add: fresh_def)
  have start: "phase_of (ws_log s) = first_phase" "\<not> shown (ws_log s)"
    using assms phase_of_snoc [of "[]" "Recover (Some BarrierReady)"] shown_snoc [of "[]" "Recover (Some BarrierReady)"]
    by (auto simp: fresh_def)
  then have "honest p (hf_status (ws_host s)) (cf_presented (ws_cash s)) (kf_status (ws_card s)) (ws_log s)"
    using same by (simp add: honest_def first_phase_def initialState_def)
  with assms fresh_follows [OF assms] start show ?thesis
    by (auto simp: ends_act admitted_start_def sound_simps same initialState_def first_phase_def fresh_def)
qed

lemma audit_start_ready:
  assumes "admitted_start env q p s"
  shows "ends (act (we_audit env) (Audit e)) (\<lambda>_ t. admitted_start env q p t) (\<lambda>t. follows env q p (ws_log t)) s"
  using assms
  by (intro ends_weaken [OF act_quiet [where q = q and p = p]])
    (auto simp: admitted_start_def sound_def allowed_def stage_is_def)

lemma runAndFinalize_ends:
  assumes "fresh env q p s"
  shows "ends (runAndFinalize env q p)
    (\<lambda>res t. follows env q p (ws_log t) \<and> finished env q p res t) (\<lambda>t. follows env q p (ws_log t)) s"
  unfolding runAndFinalize_def
proof (rule ends_then [OF txStart_ready [OF assms]], rule ends_then [OF audit_start_ready])
  fix x y t u
  assume "admitted_start env q p u"
  then have "exits env q p (runAdmitted env q p) u"
    by (simp add: admitted_start_def runAdmitted_exits)
  then show "ends (bind (runAdmitted env q p) (\<lambda>outcome.
       bind (call (\<lambda>h. we_finalize env h outcome) (Finalize outcome)) (\<lambda>record.
       return \<lparr>wr_outcome = outcome, wr_finalization = Some record\<rparr>)))
     (\<lambda>res t. follows env q p (ws_log t) \<and> finished env q p res t) (\<lambda>t. follows env q p (ws_log t)) u"
  proof (rule ends_then)
    fix outcome v
    assume v: "concluded env q p outcome v"
    then have "follows env q p (ws_log v)" "allowed env q p (ws_log v) (Finalize outcome r)" for r
      by (simp_all add: concluded_def sound_def allowed_def)
    with v show "ends (bind (call (\<lambda>h. we_finalize env h outcome) (Finalize outcome)) (\<lambda>record.
        return \<lparr>wr_outcome = outcome, wr_finalization = Some record\<rparr>))
        (\<lambda>res t. follows env q p (ws_log t) \<and> finished env q p res t) (\<lambda>t. follows env q p (ws_log t)) v"
      by (auto simp: ends_simps finished_def)
  qed (rule sound_follows)
qed

section \<open>Execution\<close>

definition barred :: "withdrawal_request \<Rightarrow> withdrawal_policy \<Rightarrow> withdrawal_result \<Rightarrow> history \<Rightarrow> bool" where
  "barred q p res h \<longleftrightarrow>
     wr_finalization res = None \<and>
     wr_outcome res = buildOutcome q p (initialState q p) Intervention RBarrierBlocked None \<and>
     (\<exists>b. h = [Recover (Some b)] \<and> b \<noteq> BarrierReady)"

definition admitted_or_barred :: "wenv \<Rightarrow> withdrawal_request \<Rightarrow> withdrawal_policy \<Rightarrow> withdrawal_result proc" where
  "admitted_or_barred env q p =
     (case we_recover env of
        None \<Rightarrow> runAndFinalize env q p
      | Some barrier \<Rightarrow>
          bind (call barrier Recover) (\<lambda>admission.
          if admission \<noteq> BarrierReady then
            gets (\<lambda>s. \<lparr>wr_outcome = buildOutcome q p s Intervention RBarrierBlocked None,
              wr_finalization = None\<rparr>)
          else runAndFinalize env q p))"

lemma execute_admitted:
  "require_policy (we_policies env) (wq_policyId q) = Inr p \<Longrightarrow> request_allowed q p \<Longrightarrow>
   execute env q = (case admitted_or_barred env q p (initialState q p) of (r, s) \<Rightarrow> (r, ws_log s))"
  by (simp add: execute_def admitted_or_barred_def)

lemma buildOutcome_log [simp]: "buildOutcome q p (s\<lparr>ws_log := h\<rparr>) = buildOutcome q p s"
  by (intro ext) (simp add: buildOutcome_def)

lemma initialState_log [simp]: "ws_log (initialState q p) = []"
  by (simp add: initialState_def)

lemma admitted_or_barred_ends:
  "ends (admitted_or_barred env q p)
     (\<lambda>res t. follows env q p (ws_log t) \<and> (finished env q p res t \<or> barred q p res (ws_log t)))
     (\<lambda>t. follows env q p (ws_log t)) (initialState q p)"
proof (cases "we_recover env")
  case None
  have "fresh env q p (initialState q p)" by (simp add: fresh_def)
  from ends_weaken [OF runAndFinalize_ends [OF this]] None show ?thesis
    by (simp add: admitted_or_barred_def)
next
  case (Some barrier)
  let ?s = "\<lambda>b. (initialState q p)\<lparr>ws_log := [Recover b]\<rparr>"
  have one: "follows env q p [Recover b]" for b
    using follows_snoc [of env q p "[]" "Recover b"] by (simp add: allowed_def first_phase_def)
  have asked: "ends (call barrier Recover) (\<lambda>b t. t = ?s (Some b)) (\<lambda>t. t = ?s None) (initialState q p)"
    by (simp add: ends_call)
  show ?thesis
    unfolding admitted_or_barred_def Some option.case
  proof (rule ends_then [OF asked])
    fix b t
    assume t: "t = ?s (Some b)"
    show "ends (if b \<noteq> BarrierReady then
            gets (\<lambda>s. \<lparr>wr_outcome = buildOutcome q p s Intervention RBarrierBlocked None, wr_finalization = None\<rparr>)
          else runAndFinalize env q p)
        (\<lambda>res t. follows env q p (ws_log t) \<and> (finished env q p res t \<or> barred q p res (ws_log t)))
        (\<lambda>t. follows env q p (ws_log t)) t"
    proof (cases "b = BarrierReady")
      case True
      then have "fresh env q p t" using t by (simp add: fresh_def)
      from ends_weaken [OF runAndFinalize_ends [OF this]] True show ?thesis by simp
    next
      case False
      then show ?thesis using t by (simp add: ends_gets one barred_def)
    qed
  qed (simp add: one)
qed

end
