(* ===== verification/Withdrawal_Returns.thy ===== *)
theory Withdrawal_Returns
  imports Withdrawal_Laws
begin

text \<open>
  When a withdrawal returns at all: the cleanup of the handler can only fail at the card port, so
  a card port that answers the cleanup is enough; and a card port that never answers is fatal,
  since no way through the body avoids it.
\<close>

section \<open>A card port that answers the cleanup\<close>

definition card_answers :: "wenv \<Rightarrow> bool" where
  "card_answers env \<longleftrightarrow> (\<forall>port h. we_card env = Some port \<longrightarrow> port h False \<noteq> None)"

abbreviation returns :: "'a proc \<Rightarrow> wstate \<Rightarrow> bool" where
  "returns m \<equiv> ends m (\<lambda>_ _. True) (\<lambda>_. False)"

lemma resolveCard_returns: "card_answers env \<Longrightarrow> returns (resolveCard env q p False) s"
  by (auto simp: resolveCard_def ends_simps card_answers_def split: option.split)

lemma transferCash_returns: "returns (transferCash env trigger) s"
  by (auto simp: transferCash_def custody_unknown_def ends_simps split: cash_exit.split)

lemma unexpected_returns:
  assumes "card_answers env" shows "returns (unexpected env q p) s"
proof -
  have leave: "returns (bind (resolveCard env q p False)
      (\<lambda>_. safeOutcome q p Intervention RUnexpectedFailure (Some TInterrupt))) t" for t
    by (rule ends_then [OF resolveCard_returns [OF assms]]) (simp_all add: safeOutcome_def ends_gets)
  show ?thesis
    unfolding unexpected_def ends_bind [of "gets _"] ends_gets
    by (rule ends_then [where P = "\<lambda>_ _. True" and P' = "\<lambda>_. False"])
      (simp_all add: transferCash_returns leave ends_return)
qed

lemma runAdmitted_returns: "card_answers env \<Longrightarrow> returns (runAdmitted env q p) s"
  unfolding runAdmitted_def ends_catch
  using unexpected_returns [of env q p] by (simp add: ends_def split: prod.split option.split)

lemma runAndFinalize_returns:
  assumes "card_answers env" and "\<And>h. we_txStart env h" and "\<And>h. we_audit env h"
    and "\<And>h out. we_finalize env h out \<noteq> None"
  shows "returns (runAndFinalize env q p) s"
  unfolding runAndFinalize_def
  using assms
  by (auto simp: ends_bind [of "act _ _"] ends_act intro!: ends_then [OF runAdmitted_returns])
    (auto simp: ends_simps)

lemma admitted_or_barred_returns:
  assumes "card_answers env" and "\<And>h. we_txStart env h" and "\<And>h. we_audit env h"
    and "\<And>h out. we_finalize env h out \<noteq> None"
    and "\<And>barrier h. we_recover env = Some barrier \<Longrightarrow> barrier h \<noteq> None"
  shows "returns (admitted_or_barred env q p) s"
  using assms
  by (auto simp: admitted_or_barred_def ends_bind [of "call _ _"] ends_call ends_gets
      intro!: runAndFinalize_returns split: option.split)

section \<open>A card port that never answers\<close>

definition card_dead :: "wenv \<Rightarrow> withdrawal_request \<Rightarrow> withdrawal_policy \<Rightarrow> bool" where
  "card_dead env q p \<longleftrightarrow>
     wq_entryMode q = ContactCard \<and> wp_cardOrder p \<noteq> ManagedByParent \<and>
     over_text (wp_cardCustodyPolicyId p) None \<noteq> None \<and> we_card env = Some (\<lambda>_ _. None)"

definition stuck :: "wstate \<Rightarrow> bool" where
  "stuck s \<longleftrightarrow> kf_status (ws_card s) = CardPending \<and> (\<forall>out r. Finalize out r \<notin> set (ws_log s))"

abbreviation fails :: "'a proc \<Rightarrow> wstate \<Rightarrow> bool" where
  "fails m \<equiv> ends m (\<lambda>_ _. False) stuck"

abbreviation stays :: "'a proc \<Rightarrow> wstate \<Rightarrow> bool" where
  "stays m \<equiv> ends m (\<lambda>_. stuck) stuck"

lemma resolveCard_fails: "card_dead env q p \<Longrightarrow> stuck s \<Longrightarrow> fails (resolveCard env q p b) s"
  by (auto simp: card_dead_def stuck_def resolveCard_def ends_simps split: option.split)

lemma resolve_then_fails: "card_dead env q p \<Longrightarrow> stuck s \<Longrightarrow> fails (bind (resolveCard env q p b) f) s"
  by (rule ends_then [OF resolveCard_fails]) simp_all

lemma stays_then: "stays m s \<Longrightarrow> (\<And>x t. stuck t \<Longrightarrow> fails (f x) t) \<Longrightarrow> fails (bind m f) s"
  by (rule ends_then [where P = "\<lambda>_. stuck" and P' = stuck]) simp_all

lemma call_stays: "stuck s \<Longrightarrow> (\<And>r out x. ev r \<noteq> Finalize out x) \<Longrightarrow> stays (call port ev) s"
  by (auto simp: ends_call stuck_def) metis+

lemma act_stays: "stuck s \<Longrightarrow> (\<And>r out x. ev r \<noteq> Finalize out x) \<Longrightarrow> stays (act port ev) s"
  by (auto simp: ends_act stuck_def) metis+

lemma cash_steps_stay:
  assumes "stuck s"
  shows "stays (abortCash env t) s" "stays (transferCash env t) s" "stays (startCash env) s"
    "stays (authorizeHost env plan) s" "stays (modify reconcileDispenseFailure) s"
    "stays (modify (applyCashTerminal r)) s"
  using assms
  by (auto simp: abortCash_def transferCash_def startCash_def authorizeHost_def custody_unknown_def ends_simps
      stuck_def split: cash_exit.split)

lemma evaluate_gates_stay: "stuck s \<Longrightarrow> stays (evaluate_gates r gids) s"
proof (induction gids arbitrary: s)
  case (Cons gid gids)
  then show ?case
    by (auto simp: ends_simps stuck_def split: option.split)
qed (simp add: ends_return)

lemma finishPresented_fails:
  assumes "card_dead env q p" and "stuck s" and "wp_cardOrder p = ReturnAfterTerminal"
  shows "fails (finishPresented env q p) s"
  unfolding finishPresented_def using assms
  by (auto intro!: stays_then call_stays cash_steps_stay resolve_then_fails)

lemma attempts_stay:
  assumes "stuck s"
  shows "stays (catch (bind (call (we_authorizePresent env) AuthorizePresent) (\<lambda>a. return (Some a))) (return None)) s"
    "stays (catch
        (bind (act (\<lambda>h. we_present env h a) (Present a)) (\<lambda>_.
         bind (modify (\<lambda>s. s\<lparr>ws_cash := (ws_cash s)\<lparr>cf_present := PresentCompleted, cf_presented := True\<rparr>\<rparr>))
           (\<lambda>_. return True)))
        (bind (modify (\<lambda>s. s\<lparr>ws_cash := (ws_cash s)
           \<lparr>cf_present := PresentUnknown, cf_reconciliationRequired := True\<rparr>\<rparr>)) (\<lambda>_. return False))) s"
    "stays (catch
        (bind (act (\<lambda>h. we_dispense env h plan) (Dispense plan)) (\<lambda>_.
         bind (modify (\<lambda>s. s\<lparr>ws_cash := (ws_cash s)\<lparr>cf_dispense := DispenseCompleted, cf_dispensed := True\<rparr>\<rparr>))
           (\<lambda>_. return True)))
        (bind (modify (\<lambda>s. s\<lparr>ws_cash := (ws_cash s)
           \<lparr>cf_dispense := DispenseUnknown, cf_reconciliationRequired := True\<rparr>\<rparr>)) (\<lambda>_. return False))) s"
  using assms by (auto simp: ends_simps stuck_def)

lemma presentCash_fails:
  assumes "card_dead env q p" and "stuck s" and "wp_cardOrder p = ReturnAfterTerminal"
  shows "fails (presentCash env q p) s"
  unfolding presentCash_def using assms
  by (auto intro!: stays_then [OF attempts_stay(1)] stays_then [OF attempts_stay(2)]
      stays_then [OF cash_steps_stay(1)] stays_then [OF cash_steps_stay(2)]
      resolve_then_fails finishPresented_fails split: option.split)

lemma returnCardFirst_fails:
  assumes "card_dead env q p" and "stuck s"
  shows "fails (returnCardFirst env q p) s"
proof (cases "wp_cardOrder p")
  case ReturnAfterTerminal
  then show ?thesis using assms by (simp add: returnCardFirst_def presentCash_fails)
qed (use assms in \<open>auto simp: returnCardFirst_def card_dead_def resolve_then_fails\<close>)

lemma dispenseCash_fails:
  assumes "card_dead env q p" and "stuck s"
  shows "fails (dispenseCash env q p started) s"
  unfolding dispenseCash_def using assms
  by (auto intro!: stays_then [OF attempts_stay(3)] stays_then [OF cash_steps_stay(1)]
      stays_then [OF cash_steps_stay(2)] stays_then [OF cash_steps_stay(5)] stays_then [OF evaluate_gates_stay]
      resolve_then_fails returnCardFirst_fails split: prod.split)

lemma authorizeAndDispense_fails:
  assumes "card_dead env q p" and "stuck s"
  shows "fails (authorizeAndDispense env q p planned) s"
proof -
  have refused: "fails (hostRefused env q p planned) t" if "stuck t" for t
    unfolding hostRefused_def using that assms(1)
    by (cases planned) (auto intro!: stays_then [OF cash_steps_stay(1)] resolve_then_fails
        simp: ends_bind [of "return _"] ends_return)
  have agreed: "fails (hostAgreed env q p planned) t" if "stuck t" for t
    unfolding hostAgreed_def using that assms(1)
    by (auto intro!: stays_then [OF act_stays] stays_then [OF cash_steps_stay(3)] dispenseCash_fails
        resolve_then_fails split: option.split simp: cashStartFailed_def)
  show ?thesis
    unfolding authorizeAndDispense_def
    by (rule stays_then [OF cash_steps_stay(4) [OF assms(2)]]) (auto simp: refused agreed split: option.split)
qed

lemma runBody_fails:
  assumes "card_dead env q p" and "stuck s"
  shows "fails (runBody env q p) s"
  unfolding runBody_def ends_bind [of "gets _"] ends_gets using assms
  by (auto intro!: stays_then [OF cash_steps_stay(3)] authorizeAndDispense_fails resolve_then_fails
      split: option.split prod.split simp: cashStartFailed_def)

lemma unexpected_fails:
  assumes "card_dead env q p" and "stuck s"
  shows "fails (unexpected env q p) s"
  unfolding unexpected_def ends_bind [of "gets _"] ends_gets using assms
  by (auto intro!: stays_then [OF cash_steps_stay(2)] resolve_then_fails simp: ends_bind [of "return _"] ends_return)

lemma runAdmitted_fails:
  assumes "card_dead env q p" and "stuck s"
  shows "fails (runAdmitted env q p) s"
  unfolding runAdmitted_def ends_catch
  by (rule ends_weaken [OF runBody_fails [OF assms]]) (simp_all add: unexpected_fails assms(1))

lemma initialState_stuck:
  "card_dead env q p \<Longrightarrow> stuck (initialState q p)"
  by (simp add: card_dead_def stuck_def initialState_def)

lemma runAndFinalize_fails:
  assumes "card_dead env q p" and "stuck s"
  shows "fails (runAndFinalize env q p) s"
proof -
  have "fails (bind (runAdmitted env q p) f) t" if "stuck t" for f :: "withdrawal_outcome \<Rightarrow> withdrawal_result proc" and t
    by (rule ends_then [OF runAdmitted_fails [OF assms(1) that]]) simp_all
  then show ?thesis
    unfolding runAndFinalize_def using assms(2) by (auto intro!: stays_then [OF act_stays])
qed

end
