(* ===== verification/Withdrawal_Properties.thy ===== *)
theory Withdrawal_Properties
  imports Withdrawal_Returns Withdrawal_Laws
begin

text \<open>
  The properties of a withdrawal, over the model of \<^verbatim>\<open>WithdrawalOrchestrator.execute\<close> and
  whatever its ports answer, with a concrete withdrawal for each of them.
\<close>

section \<open>What every history of the protocol has in it\<close>

text \<open>
  What a history that follows the protocol has in it: the evidence behind every phase, and the
  calls that are made once at most.
\<close>

section \<open>Evidence\<close>

definition host_approved :: "history \<Rightarrow> bool" where
  "host_approved h \<longleftrightarrow> (\<exists>plan a. Authorize plan (Some a) \<in> set h \<and> ha_status a = Approved)"

definition gates_approved :: "string list \<Rightarrow> history \<Rightarrow> bool" where
  "gates_approved gids h \<longleftrightarrow> (\<forall>g \<in> set gids. Gate g (Some GateApproved) \<in> set h)"

definition card_back :: "history \<Rightarrow> bool" where
  "card_back h \<longleftrightarrow> (\<exists>b c. ReturnCard b (Some c) \<in> set h \<and> cr_status c = CardReturned)"

definition evidence :: "history \<Rightarrow> bool" where
  "evidence h \<longleftrightarrow>
     (ph_authorized (phase_of h) \<longrightarrow> host_approved h) \<and>
     gates_approved (ph_gates (phase_of h)) h \<and>
     (\<forall>a. ph_presentation (phase_of h) = Some a \<longrightarrow> AuthorizePresent (Some a) \<in> set h) \<and>
     (ph_card (phase_of h) = Some CardReturned \<longrightarrow> card_back h) \<and>
     (\<forall>pl. ph_stage (phase_of h) = CashOpen pl \<longrightarrow> (\<exists>st. CashStart (Some st) \<in> set h \<and> st_plan st = pl)) \<and>
     (ph_stage (phase_of h) = CashDispensed \<longrightarrow> (\<exists>pl. Dispense pl True \<in> set h)) \<and>
     (ph_stage (phase_of h) = CashPresented \<longrightarrow> (\<exists>a. Present a True \<in> set h)) \<and>
     (ph_started (phase_of h) \<longrightarrow> TxStart True \<in> set h \<or> TxStart False \<in> set h)"

lemmas evidence_simps = evidence_def host_approved_def gates_approved_def card_back_def

lemma evidence_step:
  assumes "evidence h" shows "evidence (h @ [e])"
  using assms by (cases e) (auto simp: evidence_simps split: option.splits if_splits)

lemma evidence_all: "evidence h"
proof (induction h rule: rev_induct)
  case Nil
  show ?case by (simp add: evidence_simps first_phase_def)
next
  case (snoc e h)
  then show ?case by (rule evidence_step)
qed

section \<open>Cutting a history\<close>

lemma follows_append: "follows env q p (h @ k) \<Longrightarrow> follows env q p h"
  by (induction k rule: rev_induct) (simp_all flip: append_assoc)

lemma follows_at: "follows env q p (h @ e # k) \<Longrightarrow> allowed env q p h e"
  using follows_append [of env q p "h @ [e]" k] by simp

lemma follows_event:
  assumes "follows env q p h" and "e \<in> set h"
  obtains i k where "h = i @ e # k" and "allowed env q p i e"
  using assms follows_at by (metis split_list)

text \<open>The host is asked once, so its approval is still that of the phase.\<close>

lemma approval_stands:
  "follows env q p h \<Longrightarrow>
     (\<forall>plan r. Authorize plan r \<in> set h \<longrightarrow> ph_asked (phase_of h)) \<and>
     (host_approved h \<longrightarrow> ph_authorized (phase_of h))"
proof (induction h rule: rev_induct)
  case (snoc e h)
  then show ?case
    by (cases e) (auto simp: host_approved_def allowed_def split: option.splits if_splits)
qed (simp add: host_approved_def)

section \<open>Calls made once\<close>

fun is_dispense :: "wevent \<Rightarrow> bool" where
  "is_dispense (Dispense _ _) = True"
| "is_dispense _ = False"

fun is_present :: "wevent \<Rightarrow> bool" where
  "is_present (Present _ _) = True"
| "is_present _ = False"

fun is_authorize :: "wevent \<Rightarrow> bool" where
  "is_authorize (Authorize _ _) = True"
| "is_authorize _ = False"

fun is_card_return :: "wevent \<Rightarrow> bool" where
  "is_card_return (ReturnCard _ r) = (r \<noteq> None)"
| "is_card_return _ = False"

fun is_finalize :: "wevent \<Rightarrow> bool" where
  "is_finalize (Finalize _ _) = True"
| "is_finalize _ = False"

abbreviation calls :: "(wevent \<Rightarrow> bool) \<Rightarrow> history \<Rightarrow> nat" where
  "calls P h \<equiv> length (filter P h)"

definition counted :: "history \<Rightarrow> bool" where
  "counted h \<longleftrightarrow>
     (case ph_stage (phase_of h) of
        NoCash \<Rightarrow> calls is_dispense h = 0 \<and> calls is_present h = 0
      | CashOpen _ \<Rightarrow> calls is_dispense h = 0 \<and> calls is_present h = 0
      | CashDispensed \<Rightarrow> calls is_dispense h \<le> 1 \<and> calls is_present h = 0
      | _ \<Rightarrow> calls is_dispense h \<le> 1 \<and> calls is_present h \<le> 1) \<and>
     calls is_authorize h \<le> (if ph_asked (phase_of h) then 1 else 0) \<and>
     calls is_card_return h \<le> (if ph_card (phase_of h) = None then 0 else 1) \<and>
     calls is_finalize h \<le> (if ph_final (phase_of h) then 1 else 0)"

lemma counted_step:
  assumes "counted h" and "allowed env q p h e"
  shows "counted (h @ [e])"
  using assms
  by (cases e) (auto simp: counted_def allowed_def cash_over_def split: option.splits if_splits cash_stage.splits)

lemma counted_all: "follows env q p h \<Longrightarrow> counted h"
proof (induction h rule: rev_induct)
  case Nil
  show ?case by (simp add: counted_def first_phase_def)
next
  case (snoc e h)
  then show ?case by (auto intro: counted_step)
qed

lemma times_once:
  assumes "counted h"
  shows "calls is_dispense h \<le> 1" "calls is_present h \<le> 1" "calls is_authorize h \<le> 1"
    "calls is_card_return h \<le> 1" "calls is_finalize h \<le> 1"
  using assms by (auto simp: counted_def split: cash_stage.splits if_splits)


section \<open>What an execution is\<close>

lemma execute_unfold:
  assumes "require_policy (we_policies env) (wq_policyId q) = Inr p"
  obtains "snd (execute env q) = []" and "fst (execute env q) = None"
  | r s where "execute env q = (r, ws_log s)" and "admitted_or_barred env q p (initialState q p) = (r, s)"
      and "request_allowed q p"
proof (cases "request_allowed q p")
  case False
  with that(1) assms show ?thesis by (simp add: execute_def)
next
  case True
  obtain r s where "admitted_or_barred env q p (initialState q p) = (r, s)" by fastforce
  with that(2) [of r s] True execute_admitted [OF assms True] show ?thesis by simp
qed

lemma execute_follows:
  assumes "require_policy (we_policies env) (wq_policyId q) = Inr p"
  shows "follows env q p (snd (execute env q))"
  using assms
proof (cases rule: execute_unfold)
  case 1
  then show ?thesis by simp
next
  case (2 r s)
  with admitted_or_barred_ends [of env q p] show ?thesis by (simp add: ends_def split: option.splits)
qed

lemma execute_result:
  assumes "require_policy (we_policies env) (wq_policyId q) = Inr p" and "fst (execute env q) = Some res"
  obtains (finished) t r where "concluded env q p (wr_outcome res) t" and "wr_finalization res = Some r"
      and "snd (execute env q) = ws_log t @ [Finalize (wr_outcome res) (Some r)]"
  | (barred) "barred q p res (snd (execute env q))"
  using assms(1)
proof (cases rule: execute_unfold)
  case 1
  then show ?thesis using assms(2) by simp
next
  case (2 r s)
  with admitted_or_barred_ends [of env q p] assms(2)
  have "finished env q p res s \<or> barred q p res (ws_log s)" by (simp add: ends_def split: option.splits)
  then show ?thesis using that 2 by (auto simp: finished_def)
qed

lemma no_policy: "require_policy (we_policies env) (wq_policyId q) = Inl e \<Longrightarrow> execute env q = (None, [])"
  by (simp add: execute_def)

lemma some_the: "x \<noteq> None \<Longrightarrow> x = Some (the x)"
  by simp

section \<open>A withdrawal to look at\<close>

definition ex_amount :: cash_amount where
  "ex_amount = \<lparr>ca_currency = ''EUR'', ca_minorUnits = 5000\<rparr>"

definition ex_presentation :: presentation_policy where
  "ex_presentation = \<lparr>pp_id = ''present'', pp_version = ''1'', pp_requiredGates = [''host''],
     pp_authorizationTtlMs = 5000, pp_takeTimeoutMs = 30000\<rparr>"

definition ex_policy :: withdrawal_policy where
  "ex_policy = \<lparr>wp_id = ''standard'', wp_version = ''1'', wp_allowedEntryModes = [ContactCard],
     wp_cardOrder = ReturnBeforePresent, wp_planningOrder = None,
     wp_cardCustodyPolicyId = Some ''return'', wp_prePresentGateIds = [''face''],
     wp_presentationPolicy = ex_presentation,
     wp_hostProtocol = \<lparr>hp_id = ''host'', hp_version = ''1'', hp_mode = AuthorizationThenCompletion\<rparr>\<rparr>"

definition ex_request :: withdrawal_request where
  "ex_request = \<lparr>wq_operationId = ''op'', wq_ownerInstanceId = ''kiosk'', wq_policyId = ''standard'',
     wq_entryMode = ContactCard, wq_amount = ex_amount, wq_interruptReason = None\<rparr>"

definition ex_snapshot :: "string \<Rightarrow> cash_snapshot" where
  "ex_snapshot sid = \<lparr>sn_id = sid, sn_operationId = ''op'', sn_cashSessionId = ''cash'',
     sn_logicalService = ''cdm'', sn_boundary = BeforeBoundary, sn_capturedAt = ''now'',
     sn_revision = ''1'', sn_units = []\<rparr>"

definition ex_plan :: cash_plan where
  "ex_plan = \<lparr>pl_id = ''plan'', pl_operationId = ''op'', pl_cashSessionId = ''cash'',
     pl_logicalService = ''cdm'', pl_sessionGeneration = 1, pl_cashUnitRevision = ''1'',
     pl_policyVersion = ''1'', pl_expiresAt = 10,
     pl_denomination = \<lparr>dn_currencyId = ''EUR'', dn_amount = 50, dn_values = [], dn_cashBox = 0\<rparr>\<rparr>"

definition ex_permit :: presentation_authorization where
  "ex_permit = \<lparr>pa_id = ''permit'', pa_operationId = ''op'', pa_cashSessionId = ''cash'',
     pa_policyId = ''present'', pa_policyVersion = ''1'', pa_satisfiedGates = [''host''], pa_expiresAt = 10\<rparr>"

definition ex_env :: "(history \<Rightarrow> bool \<Rightarrow> card_result option) option \<Rightarrow> cash_terminal option \<Rightarrow> wenv" where
  "ex_env cardPort taken =
     \<lparr>we_policies = insert_entry ''standard'' ex_policy new_registry,
      we_gates = insert_entry ''face'' \<lparr>wg_id = ''face'', wg_evaluate = (\<lambda>_. Some GateApproved)\<rparr> new_registry,
      we_recover = Some (\<lambda>_. Some BarrierReady),
      we_txStart = (\<lambda>_. True), we_audit = (\<lambda>_. True),
      we_authorize = (\<lambda>_ _. Some \<lparr>ha_status = Approved, ha_authorizationReference = Some ''ref'', ha_reasonCode = None\<rparr>),
      we_markAuthorized = (\<lambda>_. True),
      we_cashStart = (\<lambda>_. Some \<lparr>st_before = ex_snapshot ''b'', st_plan = ex_plan, st_sessionId = ''cash''\<rparr>),
      we_dispense = (\<lambda>_ _. True), we_authorizePresent = (\<lambda>_. Some ex_permit), we_present = (\<lambda>_ _. True),
      we_waitForTake = (\<lambda>_. taken), we_abort = (\<lambda>_ _. None), we_exit = (\<lambda>_ _. None),
      we_isTerminal = (\<lambda>_. False), we_card = cardPort, we_aborted = (\<lambda>_. False),
      we_finalize = (\<lambda>_ _. Some ''done'')\<rparr>"

definition ex_card :: "history \<Rightarrow> bool \<Rightarrow> card_result option" where
  "ex_card = (\<lambda>_ _. Some \<lparr>cr_status = CardReturned, cr_reason = CardTaken, cr_mediaState = MediaNotPresent,
     cr_authorityReleased = True\<rparr>)"

definition ex_taken :: cash_terminal where
  "ex_taken = \<lparr>ct_outcome = Taken, ct_reconciliationRequired = False, ct_after = Some (ex_snapshot ''a'')\<rparr>"

definition good_run :: "withdrawal_result option \<times> history" where
  "good_run = execute (ex_env (Some ex_card) (Some ex_taken)) ex_request"

lemma ex_policy_found:
  "require_policy (we_policies (ex_env c t)) (wq_policyId ex_request) = Inr ex_policy"
  by code_simp

definition good_history :: history where
  "good_history = snd good_run"

lemma ex_good_run:
  "map_option (\<lambda>r. wo_status (wr_outcome r)) (fst good_run) = Some Completed"
  "map is_present good_history = replicate 11 False @ [True, False, False]"
  by code_simp+

lemma in_history: "follows env q p (h @ e # k) \<Longrightarrow> allowed_call env q p h (phase_of h) e"
  using follows_at by (auto simp: allowed_def)

lemma execute_at:
  assumes "require_policy (we_policies env) (wq_policyId q) = Inr p" and "snd (execute env q) = h @ e # k"
  shows "allowed_call env q p h (phase_of h) e"
  using execute_follows [OF assms(1)] assms(2) by (auto intro: in_history)

lemma good_split:
  "snd good_run = take 7 good_history @ Dispense ex_plan True # drop 8 good_history"
  "snd good_run = take 9 good_history @ ReturnCard True (ex_card [] True) # drop 10 good_history"
  "snd good_run = take 11 good_history @ Present ex_permit True # drop 12 good_history"
  by code_simp+

lemma good_policy: "require_policy (we_policies (ex_env (Some ex_card) (Some ex_taken))) (wq_policyId ex_request) = Inr ex_policy"
  by (rule ex_policy_found)

section \<open>The protocol\<close>

text \<open>
  C1. Whatever the ports answer and wherever they throw, the calls a withdrawal makes follow the
  protocol: each of them is allowed in the phase its history has reached.
\<close>

theorem withdrawal_follows_protocol:
  assumes "require_policy (we_policies env) (wq_policyId q) = Inr p"
  shows "follows env q p (snd (execute env q))"
  using assms by (rule execute_follows)

theorem withdrawal_follows_protocol_witness:
  "follows (ex_env (Some ex_card) (Some ex_taken)) ex_request ex_policy
     (snd (execute (ex_env (Some ex_card) (Some ex_taken)) ex_request))"
  by (rule withdrawal_follows_protocol [OF good_policy])

lemma presented_guarded:
  assumes "require_policy (we_policies env) (wq_policyId q) = Inr p"
    and "snd (execute env q) = h @ Present a ok # k"
  shows "host_approved h" "\<exists>plan. Dispense plan True \<in> set h" "gates_approved (wp_prePresentGateIds p) h"
    "AuthorizePresent (Some a) \<in> set h"
    "wp_cardOrder p = ReturnBeforePresent \<Longrightarrow> wq_entryMode q = ContactCard \<Longrightarrow> card_back h"
  using execute_at [OF assms] evidence_all [of h]
  by (auto simp: evidence_def card_before_def)

text \<open>
  C11. Cash is presented only after the host approved, the dispense was done, every gate of the policy
  approved and the presentation itself was authorized; and, for a contact card whose policy
  returns it first, only after the card has been returned.
\<close>

theorem presentation_guarded:
  assumes "require_policy (we_policies env) (wq_policyId q) = Inr p"
    and "snd (execute env q) = h @ Present a ok # k"
  shows "host_approved h \<and> (\<exists>plan. Dispense plan True \<in> set h) \<and> gates_approved (wp_prePresentGateIds p) h \<and>
    AuthorizePresent (Some a) \<in> set h \<and>
    (wp_cardOrder p = ReturnBeforePresent \<and> wq_entryMode q = ContactCard \<longrightarrow> card_back h)"
  using presented_guarded [OF assms] by simp

theorem presentation_guarded_witness:
  "card_back (take 11 good_history) \<and> gates_approved [''face''] (take 11 good_history)"
  using presentation_guarded [OF good_policy good_split(3) [unfolded good_run_def]]
  by (simp add: ex_policy_def ex_request_def)

text \<open>
  C13. Cash is dispensed only after the host approved the withdrawal, and the plan dispensed is the
  plan of the cash session that was started.
\<close>

theorem dispense_guarded:
  assumes "require_policy (we_policies env) (wq_policyId q) = Inr p"
    and "snd (execute env q) = h @ Dispense plan ok # k"
  shows "host_approved h \<and> (\<exists>st. CashStart (Some st) \<in> set h \<and> st_plan st = plan)"
  using execute_at [OF assms] evidence_all [of h] by (auto simp: evidence_def)

theorem dispense_guarded_witness: "host_approved (take 7 good_history)"
  using dispense_guarded [OF good_policy good_split(1) [unfolded good_run_def]] by (rule conjunct1)

text \<open>
  C14. One withdrawal asks the host at most once, dispenses at most once, presents at most once,
  gets at most one answer about its card and is finalized at most once.
\<close>

theorem withdrawal_acts_once:
  assumes "require_policy (we_policies env) (wq_policyId q) = Inr p"
  shows "\<forall>act \<in> {is_authorize, is_dispense, is_present, is_card_return, is_finalize}.
    calls act (snd (execute env q)) \<le> 1"
  using times_once [OF counted_all [OF execute_follows [OF assms]]] by simp

theorem withdrawal_acts_once_witness:
  "calls is_dispense (snd (execute (ex_env (Some ex_card) (Some ex_taken)) ex_request)) \<le> 1"
  using withdrawal_acts_once [OF good_policy] by simp

text \<open>
  The card port is called only for a contact card that the parent does not manage, never after
  the card has been returned, and in a cleanup only once the cash session is over: not
  started, ended, lost, or terminal by its own account.
\<close>

theorem card_return_guarded:
  assumes "require_policy (we_policies env) (wq_policyId q) = Inr p"
    and "snd (execute env q) = h @ ReturnCard respect r # k"
  shows "wq_entryMode q = ContactCard \<and> wp_cardOrder p \<noteq> ManagedByParent \<and> ph_card (phase_of h) = None \<and>
    (respect \<or> cash_over env h)"
  using execute_at [OF assms] by (auto split: if_splits)

theorem card_return_guarded_witness: "ph_card (phase_of (take 9 good_history)) = None"
  using card_return_guarded [OF good_policy good_split(2) [unfolded good_run_def]] by simp

section \<open>Outcomes\<close>

lemma shown_present: "shown h \<longleftrightarrow> (\<exists>a. Present a True \<in> set h)"
proof -
  have "is_shown e \<longleftrightarrow> (\<exists>a. e = Present a True)" for e by (cases e) auto
  then show ?thesis by (auto simp: shown_def list_ex_iff)
qed

lemma wait_needs_present:
  assumes "follows env q p h" and "WaitForTake r \<in> set h"
  obtains i a k where "h = i @ Present a True # k"
proof -
  obtain i k where h: "h = i @ WaitForTake r # k" and "allowed env q p i (WaitForTake r)"
    using follows_event [OF assms] .
  then have "\<exists>a. Present a True \<in> set i"
    using evidence_all [of i] by (simp add: allowed_def evidence_def)
  then show ?thesis using h that by (metis append.assoc append_Cons split_list)
qed

text \<open>
  C12. A withdrawal reported as completed was approved by the host, dispensed, approved by every
  gate and presented, its cash was seen taken, and a contact card that the parent does not
  manage has been returned: the calls that say so are in its history.
\<close>

theorem completion_is_earned:
  assumes "require_policy (we_policies env) (wq_policyId q) = Inr p"
    and "fst (execute env q) = Some res" and "wo_status (wr_outcome res) = Completed"
    and "snd (execute env q) = h"
  shows "host_approved h \<and> (\<exists>plan. Dispense plan True \<in> set h) \<and> gates_approved (wp_prePresentGateIds p) h \<and>
    (\<exists>a. Present a True \<in> set h) \<and> seen_taken h \<and>
    (wq_entryMode q = ContactCard \<and> wp_cardOrder p \<noteq> ManagedByParent \<longrightarrow> card_back h)"
  using assms(1,2)
proof (cases rule: execute_result)
  case barred
  then show ?thesis using assms(3) by (simp add: barred_def buildOutcome_def)
next
  case (finished t r)
  then have t: "seen_taken (ws_log t)" "sound env q p t"
    "wq_entryMode q = ContactCard \<Longrightarrow>
       kf_status (ws_card t) = CardCustody CardReturned \<or> kf_status (ws_card t) = CardSessionRetained"
    and h: "set (ws_log t) \<subseteq> set h"
    using assms(3,4) by (auto simp: concluded_def)
  have returned: "wq_entryMode q = ContactCard \<and> wp_cardOrder p \<noteq> ManagedByParent \<Longrightarrow> card_back (ws_log t)"
    using t evidence_all [of "ws_log t"] by (auto simp: sound_def honest_def evidence_def)
  obtain r' where "WaitForTake r' \<in> set h" using t(1) h by (auto simp: seen_taken_def)
  from wait_needs_present [OF _ this] obtain i a k where i: "h = i @ Present a True # k"
    using execute_follows [OF assms(1)] assms(4) by metis
  note guarded = presented_guarded [OF assms(1) assms(4) [unfolded i]]
  have "set i \<subseteq> set h" using i by auto
  with guarded i t(1) h returned show ?thesis
    by (auto simp: host_approved_def gates_approved_def seen_taken_def card_back_def)
qed

theorem completion_is_earned_witness:
  "seen_taken good_history \<and> card_back good_history"
proof -
  have "fst good_run = Some (the (fst good_run))"
    by (rule some_the) code_simp
  moreover have "wo_status (wr_outcome (the (fst good_run))) = Completed" by code_simp
  ultimately show ?thesis
    using completion_is_earned [OF good_policy _ _ refl, folded good_run_def good_history_def]
    by (simp add: ex_policy_def ex_request_def)
qed

text \<open>
  C28. The outcome of a withdrawal that ran says what happened: the host status is approved exactly if
  the host approved, and cash counts as presented exactly if a presentation succeeded.
\<close>

theorem outcome_is_honest:
  assumes "require_policy (we_policies env) (wq_policyId q) = Inr p"
    and "fst (execute env q) = Some res" and "snd (execute env q) = h"
  shows "(hf_status (wo_host (wr_outcome res)) = HostApproved \<longleftrightarrow> host_approved h) \<and>
    (cf_presented (wo_cash (wr_outcome res)) \<longleftrightarrow> (\<exists>a. Present a True \<in> set h))"
  using assms(1,2)
proof (cases rule: execute_result)
  case barred
  then show ?thesis using assms(3) by (auto simp: barred_def buildOutcome_def initialState_def host_approved_def)
next
  case (finished t r)
  then have t: "sound env q p t" "wo_host (wr_outcome res) = ws_host t" "wo_cash (wr_outcome res) = ws_cash t"
    by (auto simp: concluded_def judged_def buildOutcome_def)
  then have "host_approved (ws_log t) \<longleftrightarrow> ph_authorized (phase_of (ws_log t))"
    using approval_stands [of env q p "ws_log t"] evidence_all [of "ws_log t"]
    by (auto simp: sound_def evidence_def)
  then show ?thesis
    using t finished(3) assms(3)
    by (auto simp: sound_def honest_def host_approved_def shown_present)
qed

theorem outcome_is_honest_witness: "\<exists>a. Present a True \<in> set good_history"
proof -
  have "fst good_run = Some (the (fst good_run))"
    by (rule some_the) code_simp
  moreover have "cf_presented (wo_cash (wr_outcome (the (fst good_run))))" by code_simp
  ultimately show ?thesis
    using outcome_is_honest [OF good_policy _ refl, folded good_run_def good_history_def] by blast
qed

text \<open>
  A withdrawal whose cash may be anywhere, or was handed over to recovery, or whose required card
  is not settled, is reported as an intervention, whatever status was going to be reported.
\<close>

theorem doubt_is_reported:
  assumes "require_policy (we_policies env) (wq_policyId q) = Inr p"
    and "fst (execute env q) = Some res"
    and "cf_custody (wo_cash (wr_outcome res)) \<in> {CashOutcome CustodyUnknown, CashTransferred} \<or>
         kf_required (wo_card (wr_outcome res)) \<and> unsettled_card (kf_status (wo_card (wr_outcome res)))"
  shows "wo_status (wr_outcome res) = Intervention"
  using assms(1,2)
proof (cases rule: execute_result)
  case barred
  then show ?thesis by (simp add: barred_def buildOutcome_def)
next
  case (finished t r)
  then show ?thesis using assms(3) by (auto simp: concluded_def judged_def buildOutcome_def safetyStatus_def)
qed

definition lost_run :: "withdrawal_result option \<times> history" where
  "lost_run = execute (ex_env (Some ex_card) None) ex_request"

theorem doubt_is_reported_witness: "wo_status (wr_outcome (the (fst lost_run))) = Intervention"
proof -
  have "fst lost_run = Some (the (fst lost_run))"
    by (rule some_the) code_simp
  moreover have "cf_custody (wo_cash (wr_outcome (the (fst lost_run)))) = CashOutcome CustodyUnknown" by code_simp
  ultimately show ?thesis
    by (intro doubt_is_reported [OF ex_policy_found [of "Some ex_card" None]] disjI1)
      (simp_all add: lost_run_def)
qed

section \<open>Finalization\<close>

text \<open>
  A withdrawal that returns with a finalization has been finalized once, as its last call, with
  the very outcome it returns; one that returns without was kept out by the recovery barrier
  before any other call.
\<close>

theorem finalized_with_its_outcome:
  assumes "require_policy (we_policies env) (wq_policyId q) = Inr p" and "fst (execute env q) = Some res"
  shows "case wr_finalization res of
      Some r \<Rightarrow> \<exists>h. snd (execute env q) = h @ [Finalize (wr_outcome res) (Some r)] \<and> calls is_finalize h = 0
    | None \<Rightarrow> \<exists>b. snd (execute env q) = [Recover (Some b)] \<and> b \<noteq> BarrierReady
        \<and> wo_status (wr_outcome res) = Intervention"
  using assms
proof (cases rule: execute_result)
  case barred
  then show ?thesis by (auto simp: barred_def buildOutcome_def)
next
  case (finished t r)
  then have "\<not> ph_final (phase_of (ws_log t))" "follows env q p (ws_log t)"
    by (auto simp: concluded_def sound_def)
  then have "calls is_finalize (ws_log t) = 0"
    using counted_all [of env q p "ws_log t"] by (simp add: counted_def)
  then show ?thesis using finished by simp
qed

theorem finalized_with_its_outcome_witness:
  "\<exists>h. good_history = h @ [Finalize (wr_outcome (the (fst good_run))) (Some ''done'')] \<and> calls is_finalize h = 0"
proof -
  have "fst good_run = Some (the (fst good_run))"
    by (rule some_the) code_simp
  moreover have "wr_finalization (the (fst good_run)) = Some ''done''" by code_simp
  ultimately show ?thesis
    using finalized_with_its_outcome [OF good_policy, folded good_run_def good_history_def] by fastforce
qed

text \<open>
  C37. A withdrawal returns: if its policy is registered and its request allowed, the transaction, audit and
  finalization ports and the recovery barrier answer, and the card port answers the cleanup,
  then it ends with a result, whatever the host, the gates and the cash device do or throw.
\<close>

theorem withdrawal_returns:
  assumes "require_policy (we_policies env) (wq_policyId q) = Inr p" and "request_allowed q p"
    and "card_answers env" and "\<And>h. we_txStart env h" and "\<And>h. we_audit env h"
    and "\<And>h out. we_finalize env h out \<noteq> None"
    and "\<And>barrier h. we_recover env = Some barrier \<Longrightarrow> barrier h \<noteq> None"
  shows "\<exists>res h. execute env q = (Some res, h)"
proof -
  have "returns (admitted_or_barred env q p) (initialState q p)"
    by (rule admitted_or_barred_returns) (use assms in auto)
  then show ?thesis
    using execute_admitted [OF assms(1,2)] by (auto simp: ends_def split: prod.splits option.splits)
qed

theorem withdrawal_returns_witness: "\<exists>res h. lost_run = (Some res, h)"
  unfolding lost_run_def
proof (rule withdrawal_returns [OF ex_policy_found])
  show "request_allowed ex_request ex_policy" by code_simp
  show "card_answers (ex_env (Some ex_card) None)" by (simp add: card_answers_def ex_env_def ex_card_def)
qed (auto simp: ex_env_def)

text \<open>
  C40. A card port that only ever throws defeats the withdrawal of a contact card that the parent does
  not manage and whose policy names a custody policy: if the recovery barrier, where there is one,
  lets it start, then whatever the host, the gates, the cash device and the other ports answer, no
  result is returned and nothing is finalized, although cash may have been dispensed. The cleanup of
  the handler calls the card port outside any handler of its own.
\<close>

theorem dead_card_port_never_finalized:
  assumes "require_policy (we_policies env) (wq_policyId q) = Inr p"
    and "wq_entryMode q = ContactCard" and "wp_cardOrder p \<noteq> ManagedByParent"
    and "over_text (wp_cardCustodyPolicyId p) None \<noteq> None" and "we_card env = Some (\<lambda>_ _. None)"
    and "\<And>barrier h. we_recover env = Some barrier \<Longrightarrow> barrier h = Some BarrierReady"
  shows "fst (execute env q) = None \<and> (\<forall>out r. Finalize out r \<notin> set (snd (execute env q)))"
proof -
  have dead: "card_dead env q p" using assms(2-5) by (simp add: card_dead_def)
  from assms(1) show ?thesis
  proof (cases rule: execute_unfold)
    case 1
    then show ?thesis by simp
  next
    case (2 r s)
    have "fails (admitted_or_barred env q p) (initialState q p)"
    proof (cases "we_recover env")
      case None
      then show ?thesis
        using runAndFinalize_fails [OF dead initialState_stuck [OF dead]] by (simp add: admitted_or_barred_def)
    next
      case (Some barrier)
      then have "barrier [] = Some BarrierReady" using assms(6) by blast
      moreover have "stuck ((initialState q p)\<lparr>ws_log := [Recover (Some BarrierReady)]\<rparr>)"
        using initialState_stuck [OF dead] by (simp add: stuck_def)
      ultimately show ?thesis
        using Some runAndFinalize_fails [OF dead]
        by (simp add: admitted_or_barred_def ends_bind [of "call _ _"] ends_call)
    qed
    then show ?thesis using 2 by (auto simp: ends_def stuck_def split: option.splits)
  qed
qed

definition dead_run :: "withdrawal_result option \<times> history" where
  "dead_run = execute (ex_env (Some (\<lambda>_ _. None)) (Some ex_taken)) ex_request"

theorem dead_card_port_never_finalized_witness:
  "fst dead_run = None \<and> Dispense ex_plan True \<in> set (snd dead_run)"
proof -
  have "fst dead_run = None"
    unfolding dead_run_def
    by (rule dead_card_port_never_finalized [OF ex_policy_found, THEN conjunct1])
      (auto simp: ex_env_def ex_request_def ex_policy_def over_text_def)
  moreover have "Dispense ex_plan True \<in> set (snd dead_run)" by code_simp
  ultimately show ?thesis ..
qed

end
