(* ===== verification/Finalization_Plan.thy ===== *)
theory Finalization_Plan
  imports Registry
begin

text \<open>
  \<^verbatim>\<open>packages/kiosk-runtime/src\<close>: the contracts of operation finalization
  (\<^verbatim>\<open>finalization-contracts.ts\<close>) and the registry of finalizers with the dependency order
  it freezes (\<^verbatim>\<open>finalization-runner.ts\<close>). A finalizer acts on a world that is a parameter
  of the model and may throw.
\<close>

section \<open>Contracts\<close>

datatype finalization_status = FinPending | FinRunning | FinCompleted | FinFailed

text \<open>A recovery context is a context without its error.\<close>

record 'r finalization_context =
  fc_operationId :: string
  fc_flowId :: "string option"
  fc_result :: "'r option"
  fc_error :: "string option"
  fc_metadata :: "(string \<times> string) list option"

text \<open>What is thrown: an \<^verbatim>\<open>Error\<close> with its name and message, or any other value.\<close>

datatype thrown = ErrorThrown string string | OtherThrown

record ('r, 'w) finalizer =
  fz_id :: string
  fz_version :: string
  fz_after :: "string list option"
  fz_execute :: "'r finalization_context \<Rightarrow> 'w \<Rightarrow> (thrown + unit) \<times> 'w"

record finalization_step =
  fs_id :: string
  fs_version :: string
  fs_status :: finalization_status
  fs_attempts :: nat
  fs_lastError :: "string option"

record 'r finalization_record =
  fr_operationId :: string
  fr_planVersion :: string
  fr_status :: finalization_status
  fr_steps :: "finalization_step list"
  fr_recoveryContext :: "'r finalization_context option"
  fr_updatedAt :: string

section \<open>Dependency order\<close>

definition dependencies :: "('r, 'w) finalizer \<Rightarrow> string list" where
  "dependencies f = (case fz_after f of None \<Rightarrow> [] | Some ds \<Rightarrow> ds)"

type_synonym ('r, 'w) sort_state = "string list \<times> ('r, 'w) finalizer list"

text \<open>
  The depth-first visit: \<open>visiting\<close> is the path from the root of the visit, which every call
  leaves as it was; the visited names and the result are threaded through.
\<close>

function visit :: "('r, 'w) finalizer registry \<Rightarrow> string list \<Rightarrow> string \<Rightarrow> ('r, 'w) sort_state
    \<Rightarrow> string + ('r, 'w) sort_state"
  and visit_all :: "('r, 'w) finalizer registry \<Rightarrow> string list \<Rightarrow> string list \<Rightarrow> ('r, 'w) sort_state
    \<Rightarrow> string + ('r, 'w) sort_state" where
  "visit source visiting i st =
     (if i \<in> set (fst st) then Inr st
      else if i \<in> set visiting then Inl (''Finalizer dependency cycle at '' @ i)
      else
        (case lookup source i of
           None \<Rightarrow> Inl (''Unknown finalizer dependency: '' @ i)
         | Some item \<Rightarrow>
             rbind (visit_all source (i # visiting) (dependencies item) st) (\<lambda>st'.
               Inr (i # fst st', snd st' @ [item]))))"
| "visit_all source visiting [] st = Inr st"
| "visit_all source visiting (d # ds) st =
     rbind (visit source visiting d st) (\<lambda>st'. visit_all source visiting ds st')"
  by pat_completeness auto

termination
proof (relation "measures
    [\<lambda>x. case x of Inl (r, vis, _, _) \<Rightarrow> card (fst ` set (rg_entries r) - set vis)
               | Inr (r, vis, _, _) \<Rightarrow> card (fst ` set (rg_entries r) - set vis),
     \<lambda>x. case x of Inl _ \<Rightarrow> 0 | Inr (_, _, ds, _) \<Rightarrow> Suc (length ds)]", goal_cases)
  case (2 source visiting i st item)
  then have i: "i \<in> fst ` set (rg_entries source) - set visiting"
    by (auto simp: lookup_def dest: map_of_SomeD intro: rev_image_eqI)
  then have "fst ` set (rg_entries source) - set (i # visiting) = fst ` set (rg_entries source) - set visiting - {i}"
    by auto
  with i show ?case by (simp add: card_Diff1_less del: card_Diff_insert)
qed auto

definition topologicalSort :: "('r, 'w) finalizer registry \<Rightarrow> string + ('r, 'w) finalizer list" where
  "topologicalSort source =
     rbind (visit_all source [] (map fst (rg_entries source)) ([], [])) (\<lambda>st. Inr (snd st))"

section \<open>The registry\<close>

definition register_finalizer ::
  "('r, 'w) finalizer \<Rightarrow> ('r, 'w) finalizer registry \<Rightarrow> string + ('r, 'w) finalizer registry" where
  "register_finalizer f r =
     rbind (guard_res (\<not> rg_frozen r) ''Operation finalizer registry is frozen'') (\<lambda>_.
     rbind (guard_res (lookup r (fz_id f) = None) (''Duplicate finalizer: '' @ fz_id f)) (\<lambda>_.
     Inr (insert_entry (fz_id f) f r)))"

definition freeze_finalizers ::
  "('r, 'w) finalizer registry \<Rightarrow> (string + ('r, 'w) finalizer list) \<times> ('r, 'w) finalizer registry" where
  "freeze_finalizers r = (topologicalSort r, freeze r)"

interpretation finalizer_registry: freezable_registry
  register_finalizer freeze lookup rg_frozen fz_id "\<lambda>_. True"
  by unfold_locales (auto simp: register_finalizer_def res_simps)

section \<open>The order is a dependency order\<close>

text \<open>Every finalizer of the list comes after the finalizers it depends on.\<close>

definition dependency_ordered :: "('r, 'w) finalizer list \<Rightarrow> bool" where
  "dependency_ordered fs \<longleftrightarrow>
     (\<forall>ys f zs. fs = ys @ f # zs \<longrightarrow> set (dependencies f) \<subseteq> fz_id ` set ys)"

definition well_keyed :: "('r, 'w) finalizer registry \<Rightarrow> bool" where
  "well_keyed r \<longleftrightarrow> (\<forall>i f. lookup r i = Some f \<longrightarrow> fz_id f = i)"

definition sorted_so_far :: "('r, 'w) finalizer registry \<Rightarrow> ('r, 'w) sort_state \<Rightarrow> bool" where
  "sorted_so_far r st \<longleftrightarrow>
     set (fst st) = fz_id ` set (snd st) \<and> distinct (map fz_id (snd st)) \<and>
     (\<forall>f \<in> set (snd st). lookup r (fz_id f) = Some f) \<and> dependency_ordered (snd st)"

lemma dependency_ordered_Nil [simp]: "dependency_ordered []"
  by (simp add: dependency_ordered_def)

lemma dependency_ordered_snoc:
  "dependency_ordered fs \<Longrightarrow> set (dependencies f) \<subseteq> fz_id ` set fs \<Longrightarrow> dependency_ordered (fs @ [f])"
  by (auto simp: dependency_ordered_def append_eq_append_conv2 append_eq_Cons_conv Cons_eq_append_conv)

lemma visit_sorted:
  shows "well_keyed r \<Longrightarrow> visit r vis i st = Inr st' \<Longrightarrow> sorted_so_far r st \<Longrightarrow>
      sorted_so_far r st' \<and> set (fst st) \<union> {i} \<subseteq> set (fst st') \<and> set (fst st') \<inter> set vis \<subseteq> set (fst st)"
    and "well_keyed r \<Longrightarrow> visit_all r vis ds st = Inr st' \<Longrightarrow> sorted_so_far r st \<Longrightarrow>
      sorted_so_far r st' \<and> set (fst st) \<union> set ds \<subseteq> set (fst st') \<and> set (fst st') \<inter> set vis \<subseteq> set (fst st)"
proof (induction r vis i st and r vis ds st arbitrary: st' and st' rule: visit_visit_all.induct)
  case (1 source visiting i st)
  show ?case
  proof (cases "i \<in> set (fst st)")
    case True
    then show ?thesis using "1.prems" by auto
  next
    case False
    then obtain item st1 where item: "lookup source i = Some item" and new: "i \<notin> set visiting"
      and st1: "visit_all source (i # visiting) (dependencies item) st = Inr st1"
      and st': "st' = (i # fst st1, snd st1 @ [item])"
      using "1.prems"(2) by (auto simp: rbind_eq_Inr split: option.splits if_splits)
    note IH = "1.IH" [OF False new item "1.prems"(1) st1 "1.prems"(3)]
    have key: "fz_id item = i" using "1.prems"(1) item by (simp add: well_keyed_def)
    have s1: "sorted_so_far source st1" "set (dependencies item) \<subseteq> set (fst st1)" "i \<notin> set (fst st1)"
      using IH False by auto
    then have "dependency_ordered (snd st1 @ [item])"
      by (intro dependency_ordered_snoc) (simp_all add: sorted_so_far_def)
    then have "sorted_so_far source st'"
      using s1 item key unfolding sorted_so_far_def st' fst_conv snd_conv
      by (intro conjI ballI) auto
    moreover have "set (fst st) \<union> {i} \<subseteq> set (fst st')" "set (fst st') \<inter> set visiting \<subseteq> set (fst st)"
      using IH new unfolding st' by auto
    ultimately show ?thesis by blast
  qed
next
  case (2 source visiting st)
  then show ?case by simp
next
  case (3 source visiting d ds st)
  obtain st1 where st1: "visit source visiting d st = Inr st1" "visit_all source visiting ds st1 = Inr st'"
    using "3.prems"(2) by (auto simp: rbind_eq_Inr)
  note a = "3.IH"(1) [OF "3.prems"(1) st1(1) "3.prems"(3)]
  note b = "3.IH"(2) [OF st1(1) "3.prems"(1) st1(2) conjunct1 [OF a]]
  show ?case using a b by auto
qed

section \<open>A dependency order exists exactly if there is no unknown name and no cycle\<close>

definition dependencies_known :: "('r, 'w) finalizer registry \<Rightarrow> bool" where
  "dependencies_known r \<longleftrightarrow>
     (\<forall>i f. lookup r i = Some f \<longrightarrow> (\<forall>d \<in> set (dependencies f). lookup r d \<noteq> None))"

text \<open>Names can be ranked so that every finalizer is above its dependencies.\<close>

definition ranked :: "('r, 'w) finalizer registry \<Rightarrow> (string \<Rightarrow> nat) \<Rightarrow> bool" where
  "ranked r rank \<longleftrightarrow> (\<forall>i f. lookup r i = Some f \<longrightarrow> (\<forall>d \<in> set (dependencies f). rank d < rank i))"

lemma visit_succeeds:
  shows "dependencies_known r \<Longrightarrow> ranked r rank \<Longrightarrow> lookup r i \<noteq> None \<Longrightarrow> \<forall>v \<in> set vis. rank i < rank v \<Longrightarrow>
      \<exists>st'. visit r vis i st = Inr st'"
    and "dependencies_known r \<Longrightarrow> ranked r rank \<Longrightarrow>
      \<forall>d \<in> set ds. lookup r d \<noteq> None \<and> (\<forall>v \<in> set vis. rank d < rank v) \<Longrightarrow>
      \<exists>st'. visit_all r vis ds st = Inr st'"
proof (induction r vis i st and r vis ds st rule: visit_visit_all.induct)
  case (1 source visiting i st)
  show ?case
  proof (cases "i \<in> set (fst st)")
    case False
    obtain item where item: "lookup source i = Some item" using "1.prems"(3) by auto
    have new: "i \<notin> set visiting" using "1.prems"(4) by auto
    have below: "lookup source d \<noteq> None \<and> (\<forall>v \<in> set (i # visiting). rank d < rank v)"
      if "d \<in> set (dependencies item)" for d
    proof -
      have "rank d < rank i" using that item "1.prems"(2) by (auto simp: ranked_def)
      then show ?thesis
        using that item "1.prems"(1,4) by (fastforce simp: dependencies_known_def)
    qed
    then have "\<exists>st1. visit_all source (i # visiting) (dependencies item) st = Inr st1"
      using "1.IH" [OF False new item "1.prems"(1,2)] by blast
    then show ?thesis using item new by auto
  qed simp
next
  case (3 source visiting d ds st)
  then obtain st1 where "visit source visiting d st = Inr st1" by (metis list.set_intros(1))
  moreover from "3.IH"(2) [OF this "3.prems"(1,2)] "3.prems"(3)
  have "\<exists>st2. visit_all source visiting ds st1 = Inr st2" by simp
  ultimately show ?case by simp
qed simp

lemma topologicalSort_sorted:
  assumes "well_keyed r" and "topologicalSort r = Inr plan"
  shows "distinct (map fz_id plan)" "dependency_ordered plan"
    "\<And>f. f \<in> set plan \<longleftrightarrow> lookup r (fz_id f) = Some f"
proof -
  obtain ids where st: "visit_all r [] (map fst (rg_entries r)) ([], []) = Inr (ids, plan)"
    using assms(2) by (auto simp: topologicalSort_def rbind_eq_Inr)
  have "sorted_so_far r ([], [])" by (simp add: sorted_so_far_def)
  from visit_sorted(2) [OF assms(1) st this]
  have s: "sorted_so_far r (ids, plan)" and all: "fst ` set (rg_entries r) \<subseteq> set ids" by auto
  show "distinct (map fz_id plan)" "dependency_ordered plan" using s by (auto simp: sorted_so_far_def)
  fix f
  show "f \<in> set plan \<longleftrightarrow> lookup r (fz_id f) = Some f"
  proof
    assume f: "lookup r (fz_id f) = Some f"
    then have "fz_id f \<in> fst ` set (rg_entries r)" by (force simp: lookup_def dest: map_of_SomeD)
    then obtain g where "g \<in> set plan" "fz_id g = fz_id f" using s all by (auto simp: sorted_so_far_def)
    then show "f \<in> set plan" using s f by (auto simp: sorted_so_far_def)
  qed (use s in \<open>auto simp: sorted_so_far_def\<close>)
qed

lemma topologicalSort_exists:
  assumes "dependencies_known r" and "ranked r rank"
  shows "\<exists>plan. topologicalSort r = Inr plan"
proof -
  have "lookup r d \<noteq> None" if "d \<in> fst ` set (rg_entries r)" for d
    using that by (auto simp: lookup_def map_of_eq_None_iff)
  then have "\<exists>st. visit_all r [] (map fst (rg_entries r)) ([], []) = Inr st"
    by (intro visit_succeeds(2) [OF assms]) auto
  then show ?thesis by (auto simp: topologicalSort_def)
qed

text \<open>The position in a dependency order is such a ranking.\<close>

definition position :: "('r, 'w) finalizer list \<Rightarrow> string \<Rightarrow> nat" where
  "position plan i = length (takeWhile (\<lambda>f. fz_id f \<noteq> i) plan)"

lemma takeWhile_shorter: "y \<in> set ys \<Longrightarrow> \<not> P y \<Longrightarrow> length (takeWhile P ys) < length ys"
  by (induction ys) auto

lemma ordered_ranked:
  assumes "dependency_ordered plan" and "\<And>f. f \<in> set plan \<longleftrightarrow> lookup r (fz_id f) = Some f" and "well_keyed r"
  shows "dependencies_known r" "ranked r (position plan)"
proof -
  have before: "lookup r d \<noteq> None \<and> position plan d < position plan i"
    if f: "lookup r i = Some f" and d: "d \<in> set (dependencies f)" for i f d
  proof -
    have key: "fz_id f = i" using f assms(3) by (simp add: well_keyed_def)
    then have "f \<in> set plan" using f assms(2) by simp
    then obtain ys g zs where plan: "plan = ys @ g # zs" and g: "fz_id g = i" and none: "\<forall>y \<in> set ys. fz_id y \<noteq> i"
      using split_list_first_prop [of plan "\<lambda>f. fz_id f = i"] key by blast
    have "g = f" using plan g f key assms(2) [of g] by auto
    then have "d \<in> fz_id ` set ys" using assms(1) plan d by (auto simp: dependency_ordered_def)
    then obtain y where y: "y \<in> set ys" "fz_id y = d" by auto
    have "position plan i = length ys"
      unfolding position_def plan using none g by (simp add: takeWhile_append2)
    moreover have "position plan d < length ys"
      unfolding position_def plan using y
      by (subst takeWhile_append1 [of y]) (auto intro: takeWhile_shorter)
    ultimately show ?thesis using y plan assms(2) [of y] by auto
  qed
  show "dependencies_known r" using before by (auto simp: dependencies_known_def)
  show "ranked r (position plan)" using before by (auto simp: ranked_def)
qed

end
