(* ===== verification/Effects.thy ===== *)
theory Effects
  imports Main
begin

text \<open>
  Computations with a state and exceptions, shared by the components that thread one through
  many calls: an asynchronous method is a function of the state that returns a value or throws,
  and leaves the state it reached either way; and the postconditions of such computations.
\<close>

type_synonym ('s, 'e, 'a) io = "'s \<Rightarrow> ('e + 'a) \<times> 's"

definition ret :: "'a \<Rightarrow> ('s, 'e, 'a) io" where
  "ret x s = (Inr x, s)"

definition raise :: "'e \<Rightarrow> ('s, 'e, 'a) io" where
  "raise e s = (Inl e, s)"

definition seq :: "('s, 'e, 'a) io \<Rightarrow> ('a \<Rightarrow> ('s, 'e, 'b) io) \<Rightarrow> ('s, 'e, 'b) io" where
  "seq m f s = (case m s of (Inl e, s') \<Rightarrow> (Inl e, s') | (Inr x, s') \<Rightarrow> f x s')"

definition handle :: "('s, 'e, 'a) io \<Rightarrow> ('e \<Rightarrow> ('s, 'e, 'a) io) \<Rightarrow> ('s, 'e, 'a) io" where
  "handle m h s = (case m s of (Inl e, s') \<Rightarrow> h e s' | (Inr x, s') \<Rightarrow> (Inr x, s'))"

definition change :: "('s \<Rightarrow> 's) \<Rightarrow> ('s, 'e, unit) io" where
  "change f s = (Inr (), f s)"

definition ask :: "('s \<Rightarrow> 'a) \<Rightarrow> ('s, 'e, 'a) io" where
  "ask f s = (Inr (f s), s)"

definition require :: "bool \<Rightarrow> 'e \<Rightarrow> ('s, 'e, unit) io" where
  "require b e = (if b then ret () else raise e)"

text \<open>\<^verbatim>\<open>finally\<close>: the second computation runs either way, and its own exception wins.\<close>

definition finally_do :: "('s, 'e, 'a) io \<Rightarrow> ('s, 'e, unit) io \<Rightarrow> ('s, 'e, 'a) io" where
  "finally_do m n s =
     (case m s of (r, s') \<Rightarrow> (case n s' of (Inl e, t) \<Rightarrow> (Inl e, t) | (Inr _, t) \<Rightarrow> (r, t)))"

text \<open>For evaluation: what follows a computation is looked at once its result is known.\<close>

fun proceed :: "('a \<Rightarrow> ('s, 'e, 'b) io) \<Rightarrow> ('e + 'a) \<times> 's \<Rightarrow> ('e + 'b) \<times> 's" where
  "proceed f (Inl e, s) = (Inl e, s)" | "proceed f (Inr x, s) = f x s"

fun recover :: "('e \<Rightarrow> ('s, 'e, 'a) io) \<Rightarrow> ('e + 'a) \<times> 's \<Rightarrow> ('e + 'a) \<times> 's" where
  "recover h (Inl e, s) = h e s" | "recover h (Inr x, s) = (Inr x, s)"

lemma seq_code [code]: "seq m f s = proceed f (m s)"
  by (simp add: seq_def split: prod.split sum.split)

lemma handle_code [code]: "handle m h s = recover h (m s)"
  by (simp add: handle_def split: prod.split sum.split)

section \<open>Postconditions\<close>

definition wp :: "('s, 'e, 'a) io \<Rightarrow> ('a \<Rightarrow> 's \<Rightarrow> bool) \<Rightarrow> ('e \<Rightarrow> 's \<Rightarrow> bool) \<Rightarrow> 's \<Rightarrow> bool" where
  "wp m Q R s = (case m s of (Inr x, s') \<Rightarrow> Q x s' | (Inl e, s') \<Rightarrow> R e s')"

named_theorems wp_simps \<open>postconditions of computations with state and exceptions\<close>

lemma wp_ret [wp_simps]: "wp (ret x) Q R s = Q x s"
  by (simp add: wp_def ret_def)

lemma wp_raise [wp_simps]: "wp (raise e) Q R s = R e s"
  by (simp add: wp_def raise_def)

lemma wp_seq [wp_simps]: "wp (seq m f) Q R s = wp m (\<lambda>x. wp (f x) Q R) R s"
  by (simp add: wp_def seq_def split: prod.splits sum.splits)

lemma wp_handle [wp_simps]: "wp (handle m h) Q R s = wp m Q (\<lambda>e. wp (h e) Q R) s"
  by (simp add: wp_def handle_def split: prod.splits sum.splits)

lemma wp_change [wp_simps]: "wp (change f) Q R s = Q () (f s)"
  by (simp add: wp_def change_def)

lemma wp_ask [wp_simps]: "wp (ask f) Q R s = Q (f s) s"
  by (simp add: wp_def ask_def)

lemma wp_require [wp_simps]: "wp (require b e) Q R s = (if b then Q () s else R e s)"
  by (simp add: require_def wp_ret wp_raise)

lemma wp_finally_do [wp_simps]:
  "wp (finally_do m n) Q R s \<longleftrightarrow>
     wp m (\<lambda>x. wp n (\<lambda>_. Q x) R) (\<lambda>e. wp n (\<lambda>_. R e) R) s"
  by (auto simp: wp_def finally_do_def split: prod.splits sum.splits)

lemma wp_option [wp_simps]:
  "wp (case x of None \<Rightarrow> m | Some y \<Rightarrow> f y) Q R s
     \<longleftrightarrow> (x = None \<longrightarrow> wp m Q R s) \<and> (\<forall>y. x = Some y \<longrightarrow> wp (f y) Q R s)"
  by (cases x) simp_all

lemmas wp_funs = wp_ret [abs_def] wp_raise [abs_def] wp_seq [abs_def] wp_handle [abs_def]
  wp_change [abs_def] wp_ask [abs_def] wp_require [abs_def]

lemma wp_weaken:
  "wp m Q R s \<Longrightarrow> (\<And>x t. Q x t \<Longrightarrow> Q' x t) \<Longrightarrow> (\<And>e t. R e t \<Longrightarrow> R' e t) \<Longrightarrow> wp m Q' R' s"
  by (auto simp: wp_def split: prod.splits sum.splits)

lemma wp_then:
  "wp m P P' s \<Longrightarrow> (\<And>x t. P x t \<Longrightarrow> wp (f x) Q R t) \<Longrightarrow> (\<And>e t. P' e t \<Longrightarrow> R e t) \<Longrightarrow> wp (seq m f) Q R s"
  by (simp add: wp_seq) (rule wp_weaken)

lemma wp_result: "wp m Q R s \<Longrightarrow> m s = (Inr x, t) \<Longrightarrow> Q x t"
  by (simp add: wp_def)

lemma wp_error: "wp m Q R s \<Longrightarrow> m s = (Inl e, t) \<Longrightarrow> R e t"
  by (simp add: wp_def)

text \<open>A property every outcome has.\<close>

lemma wp_always: "wp m (\<lambda>_. P) (\<lambda>_. P) s \<longleftrightarrow> P (snd (m s))"
  by (simp add: wp_def split: prod.splits sum.splits)

section \<open>What a computation leaves as it was\<close>

text \<open>
  A computation stays within a relation between the state before and after if it does so
  whatever it returns or throws. For a reflexive and transitive relation this is closed under
  sequencing and handling, so a component shows it for its primitive calls only.
\<close>

definition stays :: "('s \<Rightarrow> 's \<Rightarrow> bool) \<Rightarrow> ('s, 'e, 'a) io \<Rightarrow> bool" where
  "stays step m \<longleftrightarrow> (\<forall>s. step s (snd (m s)))"

lemma stays_conj:
  assumes "stays step m" and "wp m Q R s"
  shows "wp m (\<lambda>x t. Q x t \<and> step s t) (\<lambda>e t. R e t \<and> step s t) s"
proof -
  obtain r t where m: "m s = (r, t)" by (cases "m s")
  have "step s t" using assms(1) m by (metis snd_conv stays_def)
  with assms(2) m show ?thesis by (cases r) (simp_all add: wp_def)
qed

locale state_frame =
  fixes step :: "'s \<Rightarrow> 's \<Rightarrow> bool"
  assumes step_refl: "step s s"
    and step_trans: "step s t \<Longrightarrow> step t u \<Longrightarrow> step s u"
begin

lemma stays_wp:
  assumes "stays step m" and "\<And>x t. step s t \<Longrightarrow> Q x t" and "\<And>e t. step s t \<Longrightarrow> R e t"
  shows "wp m Q R s"
proof -
  obtain r t where m: "m s = (r, t)" by (cases "m s")
  have "step s t" using assms(1) m by (metis snd_conv stays_def)
  with assms(2,3) m show ?thesis by (cases r) (simp_all add: wp_def)
qed

lemma stays_iff: "stays step m \<longleftrightarrow> (\<forall>s. wp m (\<lambda>_. step s) (\<lambda>_. step s) s)"
  by (simp add: stays_def wp_always)

lemma stays_after: "stays step m \<Longrightarrow> step s t \<Longrightarrow> wp m (\<lambda>_. step s) (\<lambda>_. step s) t"
  by (rule stays_wp) (blast intro: step_trans)+

lemma stays_ret: "stays step (ret x)"
  and stays_raise: "stays step (raise e)"
  and stays_ask: "stays step (ask f)"
  and stays_require: "stays step (require b e)"
  by (simp_all add: stays_iff wp_simps step_refl)

lemma stays_seq: "stays step m \<Longrightarrow> (\<And>x. stays step (f x)) \<Longrightarrow> stays step (seq m f)"
  by (subst stays_iff) (auto simp: wp_seq intro!: stays_wp [of m] stays_after)

lemma stays_handle: "stays step m \<Longrightarrow> (\<And>e. stays step (h e)) \<Longrightarrow> stays step (handle m h)"
  by (subst stays_iff) (auto simp: wp_handle intro!: stays_wp [of m] stays_after)

lemmas stays_rules = stays_ret stays_raise stays_ask stays_require stays_seq stays_handle

end

section \<open>Logs\<close>

text \<open>Whether a log has a call of some kind, and whether each of its calls was allowed.\<close>

definition has :: "('c \<Rightarrow> bool) \<Rightarrow> 'c list \<Rightarrow> bool" where
  "has P l \<longleftrightarrow> list_ex P l"

lemma has_simps [simp]:
  "has P [] = False" "has P (c # l) = (P c \<or> has P l)" "has P (l @ k) = (has P l \<or> has P k)"
  by (simp_all add: has_def)

lemma has_set: "has P l \<longleftrightarrow> (\<exists>c \<in> set l. P c)"
  by (simp add: has_def list_ex_iff)

fun lawful_from :: "('c list \<Rightarrow> 'c \<Rightarrow> bool) \<Rightarrow> 'c list \<Rightarrow> 'c list \<Rightarrow> bool" where
  "lawful_from law l [] = True"
| "lawful_from law l (c # k) \<longleftrightarrow> law l c \<and> lawful_from law (l @ [c]) k"

lemma lawful_from_append:
  "lawful_from law l (k @ m) \<longleftrightarrow> lawful_from law l k \<and> lawful_from law (l @ k) m"
  by (induction k arbitrary: l) auto

lemma lawful_split: "lawful_from law [] (i @ c # k) \<Longrightarrow> law i c"
  by (simp add: lawful_from_append)

end
