(* ===== verification/Finalization_Runner.thy ===== *)
theory Finalization_Runner
  imports Finalization_Plan Effects
begin

text \<open>
  \<^verbatim>\<open>OperationFinalizationRunner\<close> (\<^verbatim>\<open>finalization-runner.ts\<close>): the finalizers of an
  operation run in dependency order against a durable record, from which a later run resumes; the
  in-memory store (\<^verbatim>\<open>finalization-store.ts\<close>); and the recovery of records by their plan
  (\<^verbatim>\<open>finalization-recovery.ts\<close>). The store is behind an interface, the finalizers act on a
  world, and \<open>rs_calls\<close> records which finalizer was executed for which operation and whether
  it succeeded; no code reads it.
\<close>

record ('r, 's) finalization_store =
  so_load :: "string \<Rightarrow> 's \<Rightarrow> thrown + 'r finalization_record option"
  so_save :: "'r finalization_record \<Rightarrow> 's \<Rightarrow> (thrown + unit) \<times> 's"
  so_listIncomplete :: "'s \<Rightarrow> thrown + 'r finalization_record list"

record ('s, 'w) run_state =
  rs_store :: 's
  rs_world :: 'w
  rs_tick :: nat
  rs_calls :: "(string \<times> string \<times> bool) list"

text \<open>\<open>rn_now\<close> gives the text of each reading of the clock.\<close>

record ('r, 's, 'w) runner =
  rn_plan :: "('r, 'w) finalizer list"
  rn_planVersion :: string
  rn_store :: "('r, 's) finalization_store"
  rn_now :: "nat \<Rightarrow> string"
  rn_project :: "('r finalization_context \<Rightarrow> 'r finalization_context) option"

type_synonym ('s, 'w, 'a) run = "(('s, 'w) run_state, thrown, 'a) io"

section \<open>Construction\<close>

fun joined :: "string \<Rightarrow> string list \<Rightarrow> string" where
  "joined sep [] = []"
| "joined sep [t] = t"
| "joined sep (t # ts) = t @ sep @ joined sep ts"

definition planVersion :: "('r, 'w) finalizer list \<Rightarrow> string" where
  "planVersion plan = joined ''|'' (map (\<lambda>f. fz_id f @ ''@'' @ fz_version f) plan)"

definition new_runner ::
  "('r, 'w) finalizer registry \<Rightarrow> ('r, 's) finalization_store \<Rightarrow> (nat \<Rightarrow> string)
     \<Rightarrow> ('r finalization_context \<Rightarrow> 'r finalization_context) option
     \<Rightarrow> (string + ('r, 's, 'w) runner) \<times> ('r, 'w) finalizer registry" where
  "new_runner reg store now project =
     (case freeze_finalizers reg of
        (plan, reg') \<Rightarrow>
          (rbind plan (\<lambda>p. Inr \<lparr>rn_plan = p, rn_planVersion = planVersion p, rn_store = store,
             rn_now = now, rn_project = project\<rparr>), reg'))"

definition canResume :: "('r, 's, 'w) runner \<Rightarrow> 'r finalization_record \<Rightarrow> bool" where
  "canResume rn r \<longleftrightarrow> fr_planVersion r = rn_planVersion rn"

section \<open>Records\<close>

definition safeError :: "thrown \<Rightarrow> string" where
  "safeError e =
     (case e of ErrorThrown name message \<Rightarrow> name @ '': '' @ message
      | OtherThrown \<Rightarrow> ''Unknown finalization error'')"

definition plain_error :: "string \<Rightarrow> thrown" where
  "plain_error message = ErrorThrown ''Error'' message"

definition read_clock :: "('r, 's, 'w) runner \<Rightarrow> ('s, 'w, string) run" where
  "read_clock rn s = (Inr (rn_now rn (rs_tick s)), s\<lparr>rs_tick := Suc (rs_tick s)\<rparr>)"

definition load_record :: "('r, 's, 'w) runner \<Rightarrow> string \<Rightarrow> ('s, 'w, 'r finalization_record option) run" where
  "load_record rn operationId s = (so_load (rn_store rn) operationId (rs_store s), s)"

definition store_record :: "('r, 's, 'w) runner \<Rightarrow> 'r finalization_record \<Rightarrow> ('s, 'w, unit) run" where
  "store_record rn r s = (case so_save (rn_store rn) r (rs_store s) of (x, st) \<Rightarrow> (x, s\<lparr>rs_store := st\<rparr>))"

definition save_record ::
  "('r, 's, 'w) runner \<Rightarrow> 'r finalization_record \<Rightarrow> ('s, 'w, 'r finalization_record) run" where
  "save_record rn r =
     seq (read_clock rn) (\<lambda>now.
     seq (store_record rn (r\<lparr>fr_updatedAt := now\<rparr>)) (\<lambda>_.
     ret (r\<lparr>fr_updatedAt := now\<rparr>)))"

definition change_step ::
  "string \<Rightarrow> (finalization_step \<Rightarrow> finalization_step) \<Rightarrow> 'r finalization_record \<Rightarrow> 'r finalization_record" where
  "change_step i f r = r\<lparr>fr_steps := map (\<lambda>s. if fs_id s = i then f s else s) (fr_steps r)\<rparr>"

definition replaceStep ::
  "('r, 's, 'w) runner \<Rightarrow> 'r finalization_record \<Rightarrow> string \<Rightarrow> (finalization_step \<Rightarrow> finalization_step)
     \<Rightarrow> ('s, 'w, 'r finalization_record) run" where
  "replaceStep rn r i f = save_record rn (change_step i f r)"

definition newRecord :: "('r, 's, 'w) runner \<Rightarrow> string \<Rightarrow> ('s, 'w, 'r finalization_record) run" where
  "newRecord rn operationId =
     seq (read_clock rn) (\<lambda>now.
     ret \<lparr>fr_operationId = operationId, fr_planVersion = rn_planVersion rn, fr_status = FinPending,
       fr_steps = map (\<lambda>f. \<lparr>fs_id = fz_id f, fs_version = fz_version f, fs_status = FinPending,
         fs_attempts = 0, fs_lastError = None\<rparr>) (rn_plan rn),
       fr_recoveryContext = None, fr_updatedAt = now\<rparr>)"

definition assertCompatible :: "('r, 's, 'w) runner \<Rightarrow> 'r finalization_record \<Rightarrow> ('s, 'w, unit) run" where
  "assertCompatible rn r =
     require (fr_planVersion r = rn_planVersion rn)
       (plain_error (''Finalization plan mismatch for '' @ fr_operationId r))"

section \<open>Execution\<close>

definition call_finalizer ::
  "('r, 'w) finalizer \<Rightarrow> string \<Rightarrow> 'r finalization_context \<Rightarrow> ('s, 'w, unit) run" where
  "call_finalizer f operationId ctx s =
     (case fz_execute f ctx (rs_world s) of
        (r, w) \<Rightarrow>
          (r, s\<lparr>rs_world := w, rs_calls := rs_calls s @ [(operationId, fz_id f, \<not> isl r)]\<rparr>))"

definition attempt_step ::
  "('r, 's, 'w) runner \<Rightarrow> 'r finalization_context \<Rightarrow> ('r, 'w) finalizer \<Rightarrow> 'r finalization_record
     \<Rightarrow> ('s, 'w, 'r finalization_record) run" where
  "attempt_step rn ctx f r =
     handle
       (seq (call_finalizer f (fr_operationId r) ctx) (\<lambda>_.
        replaceStep rn r (fz_id f) (\<lambda>s. s\<lparr>fs_status := FinCompleted\<rparr>)))
       (\<lambda>e.
        seq (replaceStep rn r (fz_id f) (\<lambda>s. s\<lparr>fs_status := FinFailed, fs_lastError := Some (safeError e)\<rparr>)) (\<lambda>r'.
        seq (save_record rn (r'\<lparr>fr_status := FinFailed\<rparr>)) (\<lambda>_.
        raise e)))"

fun run_steps ::
  "('r, 's, 'w) runner \<Rightarrow> 'r finalization_context \<Rightarrow> ('r, 'w) finalizer list \<Rightarrow> 'r finalization_record
     \<Rightarrow> ('s, 'w, 'r finalization_record) run" where
  "run_steps rn ctx [] r = ret r"
| "run_steps rn ctx (f # fs) r =
     (case find (\<lambda>s. fs_id s = fz_id f) (fr_steps r) of
        None \<Rightarrow> run_steps rn ctx fs r
      | Some step \<Rightarrow>
          if fs_status step = FinCompleted then run_steps rn ctx fs r
          else
            seq (replaceStep rn r (fz_id f)
                (\<lambda>s. s\<lparr>fs_status := FinRunning, fs_attempts := Suc (fs_attempts step), fs_lastError := None\<rparr>))
              (\<lambda>r1.
            seq (attempt_step rn ctx f r1) (\<lambda>r2.
            run_steps rn ctx fs r2)))"

definition execute_record ::
  "('r, 's, 'w) runner \<Rightarrow> 'r finalization_record \<Rightarrow> 'r finalization_context
     \<Rightarrow> ('s, 'w, 'r finalization_record) run" where
  "execute_record rn source ctx =
     seq (save_record rn (source\<lparr>fr_status := FinRunning\<rparr>)) (\<lambda>r.
     seq (run_steps rn ctx (rn_plan rn) r) (\<lambda>r.
     save_record rn (r\<lparr>fr_status := FinCompleted\<rparr>)))"

definition add_recovery ::
  "('r, 's, 'w) runner \<Rightarrow> 'r finalization_context \<Rightarrow> 'r finalization_record
     \<Rightarrow> ('s, 'w, 'r finalization_record) run" where
  "add_recovery rn ctx r =
     (case (fr_recoveryContext r, rn_project rn) of
        (None, Some project) \<Rightarrow> save_record rn (r\<lparr>fr_recoveryContext := Some (project ctx)\<rparr>)
      | _ \<Rightarrow> ret r)"

definition run_finalization ::
  "('r, 's, 'w) runner \<Rightarrow> 'r finalization_context \<Rightarrow> ('s, 'w, 'r finalization_record) run" where
  "run_finalization rn ctx =
     seq (load_record rn (fc_operationId ctx)) (\<lambda>found.
     seq (case found of Some r \<Rightarrow> ret r | None \<Rightarrow> newRecord rn (fc_operationId ctx)) (\<lambda>r.
     seq (assertCompatible rn r) (\<lambda>_.
     seq (add_recovery rn ctx r) (\<lambda>r.
     execute_record rn r ctx))))"

definition resume_finalization ::
  "('r, 's, 'w) runner \<Rightarrow> 'r finalization_record \<Rightarrow> ('s, 'w, 'r finalization_record) run" where
  "resume_finalization rn r =
     seq (assertCompatible rn r) (\<lambda>_.
     seq (load_record rn (fr_operationId r)) (\<lambda>found.
     let latest = (case found of Some l \<Rightarrow> l | None \<Rightarrow> r) in
     seq (assertCompatible rn latest) (\<lambda>_.
     case fr_recoveryContext latest of
       None \<Rightarrow> raise (plain_error (''Finalization recovery context is unavailable for '' @ fr_operationId r))
     | Some ctx \<Rightarrow> execute_record rn latest ctx)))"

section \<open>The finalizers of the runtime\<close>

definition createPromptCancelFinalizer :: "(string \<Rightarrow> ('w, thrown, unit) io) \<Rightarrow> ('r, 'w) finalizer" where
  "createPromptCancelFinalizer cancel =
     \<lparr>fz_id = ''runtime.prompt.cancel'', fz_version = ''1'', fz_after = None,
      fz_execute = (\<lambda>ctx. cancel (fc_operationId ctx))\<rparr>"

definition createScopedStoreResetFinalizer :: "(string \<Rightarrow> ('w, thrown, unit) io) \<Rightarrow> ('r, 'w) finalizer" where
  "createScopedStoreResetFinalizer reset =
     \<lparr>fz_id = ''runtime.scoped-store.reset'', fz_version = ''1'', fz_after = Some [''runtime.prompt.cancel''],
      fz_execute = (\<lambda>ctx. reset (fc_operationId ctx))\<rparr>"

section \<open>The in-memory store\<close>

type_synonym 'r memory = "(string \<times> 'r finalization_record) list"

definition memory_store :: "('r, 'r memory) finalization_store" where
  "memory_store =
     \<lparr>so_load = (\<lambda>operationId m. Inr (map_of m operationId)),
      so_save = (\<lambda>r m. (Inr (), put (fr_operationId r) r m)),
      so_listIncomplete = (\<lambda>m. Inr (filter (\<lambda>r. fr_status r \<noteq> FinCompleted) (map snd m)))\<rparr>"

section \<open>Recovery\<close>

datatype recovery_status = RecoveryReady | RecoveryIntervention

definition register_recovery ::
  "('r, 's, 'w) runner \<Rightarrow> ('r, 's, 'w) runner registry \<Rightarrow> string + ('r, 's, 'w) runner registry" where
  "register_recovery rn reg =
     rbind (guard_res (lookup reg (rn_planVersion rn) = None)
       (''Duplicate finalization recovery plan: '' @ rn_planVersion rn)) (\<lambda>_.
     Inr (insert_entry (rn_planVersion rn) rn reg))"

fun resume_all ::
  "('r, 's, 'w) runner registry \<Rightarrow> 'r finalization_record list
     \<Rightarrow> ('s, 'w, recovery_status \<times> string option) run" where
  "resume_all reg [] = ret (RecoveryReady, None)"
| "resume_all reg (r # rs) =
     (case lookup reg (fr_planVersion r) of
        None \<Rightarrow> ret (RecoveryIntervention, Some ''finalization.recovery.plan-unavailable'')
      | Some rn \<Rightarrow>
          seq (handle (seq (resume_finalization rn r) (\<lambda>_. ret True)) (\<lambda>_. ret False)) (\<lambda>ok.
          if ok then resume_all reg rs
          else ret (RecoveryIntervention, Some ''finalization.recovery.failed'')))"

end
