(* ===== verification/Withdrawal_Investigation.thy ===== *)
theory Withdrawal_Investigation
  imports Withdrawal_Orchestrator Finalization_Runner
begin

text \<open>
  What is made of a withdrawal's outcome afterwards: the investigation record
  (\<^verbatim>\<open>packages/withdrawal-orchestration/src/investigation.ts\<close>) and the finalizers that
  close the transaction, audit it, reset the scoped state and complete it at the host
  (\<^verbatim>\<open>finalizers.ts\<close>).
\<close>

section \<open>Investigation\<close>

datatype failure_reason =
    FCompleted | FCancelled | FTimeout | FHostDeclined | FHostUnavailable | FDispenseFailed
  | FCashPresentationFailed | FCardNotTaken | FCashNotTaken | FCustodyUnknown | FRecoveryBlocked | FFailed

record investigation_inventory =
  in_id :: string
  in_boundary :: snapshot_boundary
  in_capturedAt :: string
  in_logicalService :: string
  in_revision :: string
  in_units :: "cash_unit list"

record investigation_evidence =
  ev_before :: "cash_snapshot option"
  ev_after :: "cash_snapshot option"

record investigation_summary =
  iv_summary :: withdrawal_summary
  iv_failureReason :: failure_reason
  iv_requiresManualReconciliation :: bool
  iv_cashBeforeSnapshotId :: "string option"
  iv_cashAfterSnapshotId :: "string option"

record investigation_record =
  ir_operationId :: string
  ir_failureReason :: failure_reason
  ir_outcomeReason :: withdrawal_reason
  ir_outcomeStatus :: withdrawal_status
  ir_trigger :: "withdrawal_trigger option"
  ir_host :: host_facts
  ir_card :: card_facts
  ir_cash :: cash_facts
  ir_before :: "investigation_inventory option"
  ir_after :: "investigation_inventory option"
  ir_requiresManualReconciliation :: bool
  ir_safeSummary :: investigation_summary

fun classifyWithdrawalFailure :: "withdrawal_reason \<Rightarrow> failure_reason" where
  "classifyWithdrawalFailure RCompleted = FCompleted"
| "classifyWithdrawalFailure RUserCancelled = FCancelled"
| "classifyWithdrawalFailure RVerificationCancelled = FCancelled"
| "classifyWithdrawalFailure RCardCancelled = FCancelled"
| "classifyWithdrawalFailure ROperationTimeout = FTimeout"
| "classifyWithdrawalFailure RVerificationTimeout = FTimeout"
| "classifyWithdrawalFailure RHostDeclined = FHostDeclined"
| "classifyWithdrawalFailure RHostUnavailable = FHostUnavailable"
| "classifyWithdrawalFailure RCashStartFailed = FDispenseFailed"
| "classifyWithdrawalFailure RCashDispenseFailed = FDispenseFailed"
| "classifyWithdrawalFailure RCashPresentationNotAuthorized = FCashPresentationFailed"
| "classifyWithdrawalFailure RCashPresentFailed = FCashPresentationFailed"
| "classifyWithdrawalFailure RCardTakeTimeout = FCardNotTaken"
| "classifyWithdrawalFailure RCashTakeTimeout = FCashNotTaken"
| "classifyWithdrawalFailure RCashCustodyUnknown = FCustodyUnknown"
| "classifyWithdrawalFailure RCardCustodyUnresolved = FCustodyUnknown"
| "classifyWithdrawalFailure RBarrierBlocked = FRecoveryBlocked"
| "classifyWithdrawalFailure RVerificationRejected = FFailed"
| "classifyWithdrawalFailure RUnexpectedFailure = FFailed"

definition assertSnapshot :: "string option \<Rightarrow> cash_snapshot option \<Rightarrow> snapshot_boundary \<Rightarrow> string \<Rightarrow> string + unit" where
  "assertSnapshot expectedId sn boundary name =
     (case sn of
        None \<Rightarrow> Inr ()
      | Some s \<Rightarrow>
          guard_res (over_text expectedId None = Some (sn_id s) \<and> sn_boundary s = boundary)
            (''Withdrawal '' @ name @ '' inventory does not match outcome evidence''))"

definition projectInventory :: "cash_snapshot \<Rightarrow> investigation_inventory" where
  "projectInventory s =
     \<lparr>in_id = sn_id s, in_boundary = sn_boundary s, in_capturedAt = sn_capturedAt s,
      in_logicalService = sn_logicalService s, in_revision = sn_revision s, in_units = sn_units s\<rparr>"

definition manual_reconciliation :: "withdrawal_outcome \<Rightarrow> bool" where
  "manual_reconciliation out \<longleftrightarrow>
     cf_reconciliationRequired (wo_cash out) \<or> classifyWithdrawalFailure (wo_reason out) = FCustodyUnknown \<or>
     kf_status (wo_card out) = CardCustody CardIntervention"

definition createWithdrawalInvestigationRecord ::
  "withdrawal_outcome \<Rightarrow> investigation_evidence \<Rightarrow> string + investigation_record" where
  "createWithdrawalInvestigationRecord out evidence =
     rbind (assertSnapshot (cf_beforeSnapshotId (wo_cash out)) (ev_before evidence) BeforeBoundary ''before'') (\<lambda>_.
     rbind (assertSnapshot (cf_afterSnapshotId (wo_cash out)) (ev_after evidence) AfterBoundary ''after'') (\<lambda>_.
     let failureReason = classifyWithdrawalFailure (wo_reason out) in
     Inr \<lparr>ir_operationId = wo_operationId out, ir_failureReason = failureReason,
       ir_outcomeReason = wo_reason out, ir_outcomeStatus = wo_status out, ir_trigger = wo_trigger out,
       ir_host = wo_host out, ir_card = wo_card out, ir_cash = wo_cash out,
       ir_before = map_option projectInventory (ev_before evidence),
       ir_after = map_option projectInventory (ev_after evidence),
       ir_requiresManualReconciliation = manual_reconciliation out,
       ir_safeSummary =
         \<lparr>iv_summary = wo_safeSummary out, iv_failureReason = failureReason,
          iv_requiresManualReconciliation = manual_reconciliation out,
          iv_cashBeforeSnapshotId = over_text (cf_beforeSnapshotId (wo_cash out)) None,
          iv_cashAfterSnapshotId = over_text (cf_afterSnapshotId (wo_cash out)) None\<rparr>\<rparr>))"

section \<open>Finalizers\<close>

text \<open>What an operation hands to its finalization: a withdrawal's outcome, or the result of another flow.\<close>

datatype operation_result = WithdrawalResult withdrawal_outcome | OtherResult

record terminal_event =
  te_data :: investigation_summary
  te_eventId :: string
  te_message :: string
  te_operationId :: string

record 'w local_ports =
  lp_finish :: "withdrawal_outcome \<Rightarrow> ('w, thrown, unit) io"
  lp_append :: "terminal_event \<Rightarrow> ('w, thrown, unit) io"
  lp_reset :: "string \<Rightarrow> string \<Rightarrow> ('w, thrown, unit) io"

record completion_request =
  cq_operationId :: string
  cq_authorizationReference :: "string option"
  cq_outcome :: withdrawal_outcome
  cq_protocol :: host_protocol

type_synonym 'w withdrawal_finalizer = "(operation_result, 'w) finalizer"

definition requireOutcome :: "operation_result finalization_context \<Rightarrow> ('w, thrown, withdrawal_outcome) io" where
  "requireOutcome ctx =
     (case fc_result ctx of
        Some (WithdrawalResult out) \<Rightarrow> ret out
      | _ \<Rightarrow> raise (plain_error (''Withdrawal finalization context is invalid: '' @ fc_operationId ctx)))"

definition createTransactionFinalizer :: "'w local_ports \<Rightarrow> 'w withdrawal_finalizer" where
  "createTransactionFinalizer ports =
     \<lparr>fz_id = ''withdrawal.transaction.finalize'', fz_version = ''1'', fz_after = None,
      fz_execute = (\<lambda>ctx. seq (requireOutcome ctx) (lp_finish ports))\<rparr>"

definition createAuditFinalizer :: "'w local_ports \<Rightarrow> 'w withdrawal_finalizer" where
  "createAuditFinalizer ports =
     \<lparr>fz_id = ''withdrawal.audit.finalize'', fz_version = ''1'',
      fz_after = Some [''withdrawal.transaction.finalize''],
      fz_execute = (\<lambda>ctx. seq (requireOutcome ctx) (\<lambda>out.
        case createWithdrawalInvestigationRecord out \<lparr>ev_before = None, ev_after = None\<rparr> of
          Inl e \<Rightarrow> raise (plain_error e)
        | Inr r \<Rightarrow> lp_append ports
            \<lparr>te_data = ir_safeSummary r, te_eventId = ''withdrawal.terminal'',
             te_message = ''Withdrawal reached a terminal application outcome'',
             te_operationId = wo_operationId out\<rparr>))\<rparr>"

definition createScopedStateFinalizer :: "'w local_ports \<Rightarrow> 'w withdrawal_finalizer" where
  "createScopedStateFinalizer ports =
     \<lparr>fz_id = ''withdrawal.scope.reset'', fz_version = ''1'',
      fz_after = Some [''withdrawal.audit.finalize''],
      fz_execute = (\<lambda>ctx. seq (requireOutcome ctx) (\<lambda>out.
        lp_reset ports (wo_operationId out) ''withdrawal.operation.finalization''))\<rparr>"

definition completion_of :: "withdrawal_outcome \<Rightarrow> completion_request" where
  "completion_of out =
     \<lparr>cq_operationId = wo_operationId out,
      cq_authorizationReference = over_text (hf_authorizationReference (wo_host out)) None,
      cq_outcome = out,
      cq_protocol = \<lparr>hp_id = hf_protocolId (wo_host out), hp_version = hf_protocolVersion (wo_host out),
        hp_mode = hf_protocolMode (wo_host out)\<rparr>\<rparr>"

definition createHostFinancialCompletionFinalizer ::
  "(completion_request \<Rightarrow> ('w, thrown, unit) io) option \<Rightarrow> 'w withdrawal_finalizer" where
  "createHostFinancialCompletionFinalizer complete =
     \<lparr>fz_id = ''project.host.financial-completion'', fz_version = ''1'',
      fz_after = Some [''withdrawal.scope.reset''],
      fz_execute = (\<lambda>ctx. seq (requireOutcome ctx) (\<lambda>out.
        if hf_protocolMode (wo_host out) \<noteq> AuthorizationThenCompletion then ret ()
        else if hf_status (wo_host out) \<noteq> HostApproved then ret ()
        else
          (case complete of
             None \<Rightarrow> raise (plain_error ''Host Financial Completion port is not configured'')
           | Some send \<Rightarrow> send (completion_of out))))\<rparr>"

definition registerWithdrawalLocalFinalizers ::
  "'w local_ports \<Rightarrow> 'w withdrawal_finalizer registry \<Rightarrow> string + 'w withdrawal_finalizer registry" where
  "registerWithdrawalLocalFinalizers ports r =
     rbind (register_finalizer (createTransactionFinalizer ports) r) (\<lambda>r.
     rbind (register_finalizer (createAuditFinalizer ports) r) (\<lambda>r.
     register_finalizer (createScopedStateFinalizer ports) r))"

end
