(* ===== verification/Finalization_Laws.thy ===== *)
theory Finalization_Laws
  imports Finalization_Runner
begin

text \<open>
  What the runner guarantees over any number of runs and resumptions: the interface of the
  store, the invariant that ties the stored records to the executions made, and its
  preservation by every method.
\<close>

section \<open>The interface of the store\<close>

locale finalization_store =
  fixes st :: "('r, 's) finalization_store"
  assumes saved: "so_save st r s = (Inr (), s') \<Longrightarrow>
      so_load st i s' = (if i = fr_operationId r then Inr (Some r) else so_load st i s)"
    and refused: "so_save st r s = (Inl e, s') \<Longrightarrow> so_load st i s' = so_load st i s"

locale reliable_store = finalization_store st for st :: "('r, 's) finalization_store" +
  assumes accepts: "\<exists>s'. so_save st r s = (Inr (), s')"

interpretation memory: reliable_store "memory_store :: ('r, 'r memory) finalization_store"
  by unfold_locales (auto simp: memory_store_def)

section \<open>The invariant\<close>

definition sound_plan :: "('r, 'w) finalizer list \<Rightarrow> bool" where
  "sound_plan plan \<longleftrightarrow> distinct (map fz_id plan) \<and> dependency_ordered plan"

text \<open>A record of this plan that says of every step whether it has succeeded.\<close>

definition true_record ::
  "('r, 's, 'w) runner \<Rightarrow> (string \<times> string \<times> bool) list \<Rightarrow> 'r finalization_record \<Rightarrow> bool" where
  "true_record rn calls r \<longleftrightarrow>
     map fs_id (fr_steps r) = map fz_id (rn_plan rn) \<and>
     (\<forall>step \<in> set (fr_steps r).
        fs_status step = FinCompleted \<longleftrightarrow> (fr_operationId r, fs_id step, True) \<in> set calls)"

text \<open>Executions: no success twice, and dependencies first.\<close>

definition orderly :: "('r, 'w) finalizer list \<Rightarrow> (string \<times> string \<times> bool) list \<Rightarrow> bool" where
  "orderly plan calls \<longleftrightarrow>
     distinct (filter (\<lambda>c. snd (snd c)) calls) \<and>
     (\<forall>before op i ok after. calls = before @ (op, i, ok) # after \<longrightarrow>
        (\<forall>f \<in> set plan. fz_id f = i \<longrightarrow> (\<forall>d \<in> set (dependencies f). (op, d, True) \<in> set before)))"

definition told ::
  "('r, 's, 'w) runner \<Rightarrow> (string \<times> string \<times> bool) list \<Rightarrow> string
     \<Rightarrow> thrown + 'r finalization_record option \<Rightarrow> bool" where
  "told rn calls op found \<longleftrightarrow>
     (case found of
        Inl _ \<Rightarrow> False
      | Inr None \<Rightarrow> \<forall>i ok. (op, i, ok) \<notin> set calls
      | Inr (Some r) \<Rightarrow> fr_operationId r = op \<and> true_record rn calls r)"

lemma told_simps [simp]:
  "told rn calls op (Inr None) \<longleftrightarrow> (\<forall>i ok. (op, i, ok) \<notin> set calls)"
  "told rn calls op (Inr (Some r)) \<longleftrightarrow> fr_operationId r = op \<and> true_record rn calls r"
  by (simp_all add: told_def)

definition accounted_but ::
  "('r, 's, 'w) runner \<Rightarrow> string option \<Rightarrow> ('s, 'w) run_state \<Rightarrow> bool" where
  "accounted_but rn skip s \<longleftrightarrow>
     orderly (rn_plan rn) (rs_calls s) \<and>
     (\<forall>op. skip \<noteq> Some op \<longrightarrow>
        told rn (rs_calls s) op (so_load (rn_store rn) op (rs_store s)))"

definition accounted :: "('r, 's, 'w) runner \<Rightarrow> ('s, 'w) run_state \<Rightarrow> bool" where
  "accounted rn s \<longleftrightarrow> accounted_but rn None s"

definition held :: "('r, 's, 'w) runner \<Rightarrow> 'r finalization_record \<Rightarrow> ('s, 'w) run_state \<Rightarrow> bool" where
  "held rn r s \<longleftrightarrow> so_load (rn_store rn) (fr_operationId r) (rs_store s) = Inr (Some r)"

text \<open>The record in hand is the truth about its operation, whatever is stored of it.\<close>

definition working ::
  "('r, 's, 'w) runner \<Rightarrow> 'r finalization_record \<Rightarrow> ('s, 'w) run_state \<Rightarrow> bool" where
  "working rn r s \<longleftrightarrow> accounted_but rn (Some (fr_operationId r)) s \<and> true_record rn (rs_calls s) r"

lemma accounted_working: "accounted rn s \<Longrightarrow> held rn r s \<Longrightarrow> working rn r s"
  unfolding accounted_def accounted_but_def working_def held_def
  by (metis option.distinct(1) told_simps(2))

lemma true_record_updated [simp]:
  "true_record rn c (r\<lparr>fr_updatedAt := t\<rparr>) = true_record rn c r"
  "true_record rn c (r\<lparr>fr_status := st\<rparr>) = true_record rn c r"
  "true_record rn c (r\<lparr>fr_recoveryContext := x\<rparr>) = true_record rn c r"
  by (simp_all add: true_record_def)

definition finished_steps :: "string set \<Rightarrow> 'r finalization_record \<Rightarrow> bool" where
  "finished_steps ids r \<longleftrightarrow> (\<forall>step \<in> set (fr_steps r). fs_id step \<in> ids \<longrightarrow> fs_status step = FinCompleted)"

lemma finished_steps_updated [simp]:
  "finished_steps ids (r\<lparr>fr_updatedAt := t\<rparr>) = finished_steps ids r"
  "finished_steps ids (r\<lparr>fr_status := st\<rparr>) = finished_steps ids r"
  by (simp_all add: finished_steps_def)

definition finalized :: "('r, 's, 'w) runner \<Rightarrow> string \<Rightarrow> 'r finalization_record \<Rightarrow> ('s, 'w) run_state \<Rightarrow> bool" where
  "finalized rn op r t \<longleftrightarrow>
     accounted rn t \<and> held rn r t \<and> fr_operationId r = op \<and> fr_status r = FinCompleted \<and>
     (\<forall>g \<in> set (rn_plan rn). (op, fz_id g, True) \<in> set (rs_calls t))"

section \<open>Methods\<close>

context reliable_store
begin

lemma save_record_holds:
  assumes "rn_store rn = st" and "working rn r s"
  shows "wp (save_record rn r)
    (\<lambda>r' t. accounted rn t \<and> held rn r' t \<and> (\<exists>now. r' = r\<lparr>fr_updatedAt := now\<rparr>)
       \<and> rs_calls t = rs_calls s \<and> rs_world t = rs_world s)
    (\<lambda>_ _. False) s"
proof -
  let ?r = "r\<lparr>fr_updatedAt := rn_now rn (rs_tick s)\<rparr>"
  obtain s' where save: "so_save st ?r (rs_store s) = (Inr (), s')" using accepts by blast
  have load: "so_load st i s' = (if i = fr_operationId r then Inr (Some ?r) else so_load st i (rs_store s))" for i
    using saved [OF save] by simp
  show ?thesis
    using assms save load
    by (auto simp: wp_def save_record_def seq_def read_clock_def store_record_def ret_def held_def accounted_def
        accounted_but_def working_def)
qed

lemma replaceStep_holds:
  assumes "rn_store rn = st" and "working rn (change_step i f r) s"
  shows "wp (replaceStep rn r i f)
    (\<lambda>r' t. accounted rn t \<and> held rn r' t \<and> (\<exists>now. r' = (change_step i f r)\<lparr>fr_updatedAt := now\<rparr>)
       \<and> rs_calls t = rs_calls s \<and> rs_world t = rs_world s)
    (\<lambda>_ _. False) s"
  unfolding replaceStep_def by (rule save_record_holds [OF assms])

end

section \<open>One finalizer\<close>

lemma change_step_operation [simp]: "fr_operationId (change_step i f r) = fr_operationId r"
  by (simp add: change_step_def)

lemma change_step_ids:
  "(\<And>s. fs_id (f s) = fs_id s) \<Longrightarrow> map fs_id (fr_steps (change_step i f r)) = map fs_id (fr_steps r)"
  by (simp add: change_step_def comp_def)

lemma change_step_steps:
  "step \<in> set (fr_steps (change_step i f r)) \<longleftrightarrow>
     (\<exists>s \<in> set (fr_steps r). step = (if fs_id s = i then f s else s))"
proof -
  have "fr_steps (change_step i f r) = map (\<lambda>s. if fs_id s = i then f s else s) (fr_steps r)"
    by (simp add: change_step_def)
  then show ?thesis by (simp only: set_map image_iff)
qed

text \<open>Changing a step to a status other than completed, when it has not succeeded.\<close>

lemma true_record_change:
  assumes "true_record rn calls r" and "(fr_operationId r, i, True) \<notin> set calls"
    and "\<And>s. fs_id (f s) = fs_id s" and "\<And>s. fs_status (f s) \<noteq> FinCompleted"
  shows "true_record rn calls (change_step i f r)"
  unfolding true_record_def change_step_operation
proof (intro conjI ballI)
  fix step
  assume "step \<in> set (fr_steps (change_step i f r))"
  then obtain x where x: "x \<in> set (fr_steps r)" "step = (if fs_id x = i then f x else x)"
    by (auto simp: change_step_steps)
  then show "fs_status step = FinCompleted \<longleftrightarrow> (fr_operationId r, fs_id step, True) \<in> set calls"
    using assms by (cases "fs_id x = i") (simp_all add: true_record_def)
qed (use assms change_step_ids [of f i r] in \<open>simp add: true_record_def\<close>)

text \<open>A success and its step.\<close>

lemma true_record_success:
  assumes "true_record rn calls r" and "\<And>s. fs_id (f s) = fs_id s" and "\<And>s. fs_status (f s) = FinCompleted"
  shows "true_record rn (calls @ [(fr_operationId r, i, True)]) (change_step i f r)"
  unfolding true_record_def change_step_operation
proof (intro conjI ballI)
  fix step
  assume "step \<in> set (fr_steps (change_step i f r))"
  then obtain x where x: "x \<in> set (fr_steps r)" "step = (if fs_id x = i then f x else x)"
    by (auto simp: change_step_steps)
  then show "fs_status step = FinCompleted \<longleftrightarrow>
      (fr_operationId r, fs_id step, True) \<in> set (calls @ [(fr_operationId r, i, True)])"
    using assms by (cases "fs_id x = i") (simp_all add: true_record_def)
qed (use assms change_step_ids [of f i r] in \<open>simp add: true_record_def\<close>)

lemma true_record_other:
  "op \<noteq> fr_operationId r \<or> \<not> ok \<Longrightarrow> true_record rn (calls @ [(op, i, ok)]) r = true_record rn calls r"
  by (auto simp: true_record_def)

lemma told_other:
  "op' \<noteq> op \<Longrightarrow> told rn (calls @ [(op', i, ok)]) op x = told rn calls op x"
  by (auto simp: told_def true_record_other split: sum.splits option.splits)

lemma snoc_split:
  assumes "xs @ [x] = before @ y # after"
  obtains "before = xs" "y = x" | rest where "xs = before @ y # rest"
  using assms by (cases after rule: rev_cases) (auto simp flip: append_Cons append_assoc)

lemma orderly_snoc:
  assumes "orderly plan calls" and "ok \<Longrightarrow> (op, i, True) \<notin> set calls"
    and "\<And>f d. f \<in> set plan \<Longrightarrow> fz_id f = i \<Longrightarrow> d \<in> set (dependencies f) \<Longrightarrow> (op, d, True) \<in> set calls"
  shows "orderly plan (calls @ [(op, i, ok)])"
  unfolding orderly_def
proof (intro conjI allI impI)
  show "distinct (filter (\<lambda>c. snd (snd c)) (calls @ [(op, i, ok)]))"
    using assms(1,2) by (auto simp: orderly_def)
next
  fix before op' i' ok' after
  assume "calls @ [(op, i, ok)] = before @ (op', i', ok') # after"
  then show "\<forall>f \<in> set plan. fz_id f = i' \<longrightarrow> (\<forall>d \<in> set (dependencies f). (op', d, True) \<in> set before)"
    using assms(1,3) by (elim snoc_split) (auto simp: orderly_def)
qed

lemma working_called:
  assumes "working rn r s" and "f \<in> set (rn_plan rn)" and "distinct (map fz_id (rn_plan rn))"
    and "(fr_operationId r, fz_id f, True) \<notin> set (rs_calls s)"
    and "\<forall>d \<in> set (dependencies f). (fr_operationId r, d, True) \<in> set (rs_calls s)"
  shows "accounted_but rn (Some (fr_operationId r))
    (s\<lparr>rs_world := w, rs_calls := rs_calls s @ [(fr_operationId r, fz_id f, ok)]\<rparr>)"
proof -
  have "g = f" if "g \<in> set (rn_plan rn)" "fz_id g = fz_id f" for g
    using that assms(2,3) by (simp add: distinct_map inj_on_def)
  then show ?thesis
    using assms by (auto simp: working_def accounted_but_def told_other intro!: orderly_snoc)
qed

context reliable_store
begin

lemma attempt_step_holds:
  assumes rn: "rn_store rn = st" and plan: "sound_plan (rn_plan rn)" and f: "f \<in> set (rn_plan rn)"
    and r: "accounted rn s" "held rn r s" and new: "(fr_operationId r, fz_id f, True) \<notin> set (rs_calls s)"
    and deps: "\<forall>d \<in> set (dependencies f). (fr_operationId r, d, True) \<in> set (rs_calls s)"
  shows "wp (attempt_step rn ctx f r)
    (\<lambda>r' t. accounted rn t \<and> held rn r' t \<and> fr_operationId r' = fr_operationId r \<and>
       rs_calls t = rs_calls s @ [(fr_operationId r, fz_id f, True)])
    (\<lambda>_ t. accounted rn t) s"
proof -
  obtain x w where x: "fz_execute f ctx (rs_world s) = (x, w)" by fastforce
  let ?t = "s\<lparr>rs_world := w, rs_calls := rs_calls s @ [(fr_operationId r, fz_id f, \<not> isl x)]\<rparr>"
  have true: "true_record rn (rs_calls s) r"
    using accounted_working [OF r] by (simp add: working_def)
  have called: "accounted_but rn (Some (fr_operationId r)) ?t"
    using working_called [OF accounted_working [OF r] f _ new deps] plan by (simp add: sound_plan_def)
  have call: "wp (call_finalizer f (fr_operationId r) ctx) P Q s =
      (case x of Inl e \<Rightarrow> Q e ?t | Inr u \<Rightarrow> P u ?t)" for P Q
    by (simp add: wp_def call_finalizer_def x split: sum.splits)
  show ?thesis
  proof (cases x)
    case (Inl e)
    let ?fail = "\<lambda>s. s\<lparr>fs_status := FinFailed, fs_lastError := Some (safeError e)\<rparr>"
    have "true_record rn (rs_calls ?t) (change_step (fz_id f) ?fail r)"
      using true new Inl by (intro true_record_change) (auto simp: true_record_other)
    with called have w: "working rn (change_step (fz_id f) ?fail r) ?t" by (simp add: working_def)
    have "wp (seq (replaceStep rn r (fz_id f) ?fail) (\<lambda>r'. seq (save_record rn (r'\<lparr>fr_status := FinFailed\<rparr>)) (\<lambda>_. raise e)))
        Q (\<lambda>_ t. accounted rn t) ?t" for Q
    proof (rule wp_then [OF replaceStep_holds [OF rn w]])
      fix r' u
      assume u: "accounted rn u \<and> held rn r' u \<and> (\<exists>now. r' = (change_step (fz_id f) ?fail r)\<lparr>fr_updatedAt := now\<rparr>)
        \<and> rs_calls u = rs_calls ?t \<and> rs_world u = rs_world ?t"
      then have "working rn r' u" by (intro accounted_working) simp_all
      then have "working rn (r'\<lparr>fr_status := FinFailed\<rparr>) u" by (simp add: working_def)
      then show "wp (seq (save_record rn (r'\<lparr>fr_status := FinFailed\<rparr>)) (\<lambda>_. raise e)) Q (\<lambda>_ t. accounted rn t) u"
        by (rule wp_then [OF save_record_holds [OF rn]]) (simp_all add: wp_raise)
    qed simp
    then show ?thesis using Inl by (simp add: attempt_step_def wp_handle wp_seq [of "call_finalizer _ _ _"] call)
  next
    case (Inr u)
    let ?done = "\<lambda>s. s\<lparr>fs_status := FinCompleted\<rparr>"
    have "working rn (change_step (fz_id f) ?done r) ?t"
      using called true_record_success [OF true, of ?done "fz_id f"] Inr by (simp add: working_def)
    from replaceStep_holds [OF rn this] have "wp (replaceStep rn r (fz_id f) ?done)
      (\<lambda>r' t. accounted rn t \<and> held rn r' t \<and> fr_operationId r' = fr_operationId r \<and>
         rs_calls t = rs_calls s @ [(fr_operationId r, fz_id f, True)]) (\<lambda>_ _. False) ?t"
      using Inr by (auto elim!: wp_weaken)
    then show ?thesis
      using Inr by (auto simp: attempt_step_def wp_handle wp_seq [of "call_finalizer _ _ _"] call elim!: wp_weaken)
  qed
qed

lemma run_steps_holds:
  assumes rn: "rn_store rn = st" and plan: "sound_plan (rn_plan rn)" and "rn_plan rn = before @ fs"
    and "accounted rn s" "held rn r s"
    and "\<forall>g \<in> set before. (fr_operationId r, fz_id g, True) \<in> set (rs_calls s)"
  shows "wp (run_steps rn ctx fs r)
    (\<lambda>r' t. accounted rn t \<and> held rn r' t \<and> fr_operationId r' = fr_operationId r \<and>
       (\<forall>g \<in> set (rn_plan rn). (fr_operationId r, fz_id g, True) \<in> set (rs_calls t)))
    (\<lambda>_ t. accounted rn t) s"
  using assms(3-)
proof (induction fs arbitrary: before r s)
  case Nil
  then show ?case by (simp add: wp_ret)
next
  case (Cons f fs)
  have w: "working rn r s" using Cons.prems by (intro accounted_working)
  then have true: "true_record rn (rs_calls s) r" by (simp add: working_def)
  have ids: "fz_id f \<in> fs_id ` set (fr_steps r)"
    using true Cons.prems(1) by (metis true_record_def list.set_map in_set_conv_decomp image_eqI)
  then obtain step where found: "find (\<lambda>s. fs_id s = fz_id f) (fr_steps r) = Some step"
    by (cases "find (\<lambda>s. fs_id s = fz_id f) (fr_steps r)") (auto simp: find_None_iff)
  then have step: "step \<in> set (fr_steps r)" "fs_id step = fz_id f"
    by (auto simp: find_Some_iff)
  have known: "fs_status step = FinCompleted \<longleftrightarrow> (fr_operationId r, fz_id f, True) \<in> set (rs_calls s)"
    using true step by (simp add: true_record_def)
  show ?case
  proof (cases "fs_status step = FinCompleted")
    case True
    then show ?thesis
      using found known Cons.IH [of "before @ [f]" s r] Cons.prems by simp
  next
    case False
    have deps: "\<forall>d \<in> set (dependencies f). (fr_operationId r, d, True) \<in> set (rs_calls s)"
    proof -
      have "set (dependencies f) \<subseteq> fz_id ` set before"
        using plan Cons.prems(1) by (simp add: sound_plan_def dependency_ordered_def)
      then show ?thesis using Cons.prems(4) by blast
    qed
    let ?run = "\<lambda>s. s\<lparr>fs_status := FinRunning, fs_attempts := Suc (fs_attempts step), fs_lastError := None\<rparr>"
    have "working rn (change_step (fz_id f) ?run r) s"
      using w known False true by (auto simp: working_def intro!: true_record_change)
    from replaceStep_holds [OF rn this] have started: "wp (replaceStep rn r (fz_id f) ?run)
      (\<lambda>r' t. accounted rn t \<and> held rn r' t \<and> fr_operationId r' = fr_operationId r \<and> rs_calls t = rs_calls s)
      (\<lambda>_ _. False) s"
      by (auto elim!: wp_weaken)
    have "wp (seq (replaceStep rn r (fz_id f) ?run) (\<lambda>r1. seq (attempt_step rn ctx f r1) (\<lambda>r2. run_steps rn ctx fs r2)))
      (\<lambda>r' t. accounted rn t \<and> held rn r' t \<and> fr_operationId r' = fr_operationId r \<and>
         (\<forall>g \<in> set (rn_plan rn). (fr_operationId r, fz_id g, True) \<in> set (rs_calls t)))
      (\<lambda>_ t. accounted rn t) s"
    proof (rule wp_then [OF started], rule wp_then [OF attempt_step_holds [OF rn plan]])
      fix r1 t r2 u
      assume "accounted rn t \<and> held rn r1 t \<and> fr_operationId r1 = fr_operationId r \<and> rs_calls t = rs_calls s"
        and "accounted rn u \<and> held rn r2 u \<and> fr_operationId r2 = fr_operationId r1 \<and>
          rs_calls u = rs_calls t @ [(fr_operationId r1, fz_id f, True)]"
      then show "wp (run_steps rn ctx fs r2)
        (\<lambda>r' t. accounted rn t \<and> held rn r' t \<and> fr_operationId r' = fr_operationId r \<and>
          (\<forall>g \<in> set (rn_plan rn). (fr_operationId r, fz_id g, True) \<in> set (rs_calls t)))
        (\<lambda>_ t. accounted rn t) u"
        using Cons.IH [of "before @ [f]" u r2] Cons.prems by simp
    qed (use Cons.prems known False deps in auto)
    with found False show ?thesis by simp
  qed
qed

lemma execute_record_holds:
  assumes rn: "rn_store rn = st" and plan: "sound_plan (rn_plan rn)" and w: "working rn source s"
  shows "wp (execute_record rn source ctx)
    (\<lambda>r' t. accounted rn t \<and> held rn r' t \<and> fr_operationId r' = fr_operationId source \<and>
       fr_status r' = FinCompleted \<and>
       (\<forall>g \<in> set (rn_plan rn). (fr_operationId source, fz_id g, True) \<in> set (rs_calls t)))
    (\<lambda>_ t. accounted rn t) s"
proof -
  have start: "working rn (source\<lparr>fr_status := FinRunning\<rparr>) s" using w by (simp add: working_def)
  show ?thesis
    unfolding execute_record_def
  proof (rule wp_then [OF save_record_holds [OF rn start]], rule wp_then [OF run_steps_holds [OF rn plan, of "[]"]])
    fix r t r1 u
    assume "accounted rn u \<and> held rn r1 u \<and> fr_operationId r1 = fr_operationId r \<and>
      (\<forall>g \<in> set (rn_plan rn). (fr_operationId r, fz_id g, True) \<in> set (rs_calls u))"
      and t: "accounted rn t \<and> held rn r t \<and> (\<exists>now. r = source\<lparr>fr_status := FinRunning, fr_updatedAt := now\<rparr>)
        \<and> rs_calls t = rs_calls s \<and> rs_world t = rs_world s"
    moreover from this have "working rn r1 u" by (intro accounted_working) simp_all
    then have "working rn (r1\<lparr>fr_status := FinCompleted\<rparr>) u" by (simp add: working_def)
    ultimately show "wp (save_record rn (r1\<lparr>fr_status := FinCompleted\<rparr>))
      (\<lambda>r' t. accounted rn t \<and> held rn r' t \<and> fr_operationId r' = fr_operationId source \<and>
         fr_status r' = FinCompleted \<and>
         (\<forall>g \<in> set (rn_plan rn). (fr_operationId source, fz_id g, True) \<in> set (rs_calls t)))
      (\<lambda>_ t. accounted rn t) u"
      by (intro wp_weaken [OF save_record_holds [OF rn]]) auto
  qed auto
qed

lemma execute_found:
  assumes rn: "rn_store rn = st" and plan: "sound_plan (rn_plan rn)" and "working rn r s" "fr_operationId r = op"
  shows "wp (seq (add_recovery rn ctx r) (\<lambda>r. execute_record rn r ctx)) (finalized rn op) (\<lambda>_ t. accounted rn t) s"
proof -
  have run: "wp (execute_record rn r' ctx) (finalized rn op) (\<lambda>_ t. accounted rn t) t"
    if "working rn r' t" "fr_operationId r' = op" for r' t
    using wp_weaken [OF execute_record_holds [OF rn plan that(1)]] that(2) by (auto simp: finalized_def)
  have ready: "working rn (r\<lparr>fr_recoveryContext := c\<rparr>) s" for c
    using assms(3) by (simp add: working_def)
  show ?thesis
  proof (cases "fr_recoveryContext r = None \<and> rn_project rn \<noteq> None")
    case True
    then obtain project where "rn_project rn = Some project" by auto
    moreover have "wp (seq (save_record rn (r\<lparr>fr_recoveryContext := c\<rparr>)) (\<lambda>r. execute_record rn r ctx))
        (finalized rn op) (\<lambda>_ t. accounted rn t) s" for c
      by (rule wp_then [OF save_record_holds [OF rn ready]], rule run)
        (use assms(4) in \<open>auto intro: accounted_working\<close>)
    ultimately show ?thesis using True by (simp add: add_recovery_def)
  next
    case False
    then have "add_recovery rn ctx r = ret r"
      by (auto simp: add_recovery_def split: option.splits)
    then show ?thesis using run assms(3,4) by (simp add: wp_seq wp_ret)
  qed
qed

lemma working_new:
  assumes "accounted rn s" and "so_load (rn_store rn) op (rs_store s) = Inr None"
    and "fr_operationId r = op" "map fs_id (fr_steps r) = map fz_id (rn_plan rn)"
    and "\<forall>step \<in> set (fr_steps r). fs_status step = FinPending"
  shows "working rn r s"
proof -
  have "told rn (rs_calls s) op (so_load (rn_store rn) op (rs_store s))"
    using assms(1) by (simp add: accounted_def accounted_but_def)
  then have "(op, i, True) \<notin> set (rs_calls s)" for i using assms(2) by simp
  with assms show ?thesis by (auto simp: working_def accounted_def accounted_but_def true_record_def)
qed

lemma working_found:
  assumes "accounted rn s" and "so_load (rn_store rn) op (rs_store s) = Inr (Some r)"
  shows "working rn r s" "fr_operationId r = op"
proof -
  have "told rn (rs_calls s) op (so_load (rn_store rn) op (rs_store s))"
    using assms(1) by (simp add: accounted_def accounted_but_def)
  with assms show "working rn r s" "fr_operationId r = op"
    by (auto simp: working_def accounted_def accounted_but_def)
qed

lemma newRecord_working:
  assumes "accounted rn s" and "so_load (rn_store rn) op (rs_store s) = Inr None"
  shows "wp (newRecord rn op) (\<lambda>r t. working rn r t \<and> fr_operationId r = op \<and> accounted rn t) (\<lambda>_ _. False) s"
proof -
  have "accounted rn (s\<lparr>rs_tick := n\<rparr>)" for n
    using assms(1) by (simp add: accounted_def accounted_but_def)
  then show ?thesis
    using assms by (auto simp: wp_def newRecord_def seq_def read_clock_def ret_def comp_def intro!: working_new [where op = op])
qed

lemma run_finalization_holds:
  assumes rn: "rn_store rn = st" and plan: "sound_plan (rn_plan rn)" and s: "accounted rn s"
  shows "wp (run_finalization rn ctx) (finalized rn (fc_operationId ctx)) (\<lambda>_ t. accounted rn t) s"
proof -
  let ?op = "fc_operationId ctx"
  have rest: "wp (seq (assertCompatible rn r) (\<lambda>_. seq (add_recovery rn ctx r) (\<lambda>r. execute_record rn r ctx)))
      (finalized rn ?op) (\<lambda>_ t. accounted rn t) t"
    if "working rn r t" "fr_operationId r = ?op" "accounted rn t" for r t
    using execute_found [OF rn plan that(1,2)] that(3) by (simp add: assertCompatible_def wp_seq [of "require _ _"] wp_require)
  have load: "wp (load_record rn ?op) P Q s = (case so_load (rn_store rn) ?op (rs_store s) of Inl e \<Rightarrow> Q e s | Inr x \<Rightarrow> P x s)"
    for P Q by (simp add: wp_def load_record_def split: sum.splits)
  show ?thesis
  proof (cases "so_load (rn_store rn) ?op (rs_store s)")
    case (Inl e)
    then show ?thesis using s by (simp add: run_finalization_def wp_seq [of "load_record _ _"] load)
  next
    case (Inr found)
    show ?thesis
    proof (cases found)
      case None
      then show ?thesis
        using Inr s by (auto simp: run_finalization_def wp_seq [of "load_record _ _"] load
            intro!: wp_then [OF newRecord_working] rest)
    next
      case (Some r)
      then show ?thesis
        using Inr s working_found [OF s, of ?op r]
        by (auto simp: run_finalization_def wp_seq [of "load_record _ _"] load wp_seq [of "ret _"] wp_ret intro!: rest)
    qed
  qed
qed

lemma resume_finalization_holds:
  assumes rn: "rn_store rn = st" and plan: "sound_plan (rn_plan rn)" and s: "accounted rn s"
    and known: "so_load (rn_store rn) (fr_operationId r) (rs_store s) = Inr (Some latest)"
  shows "wp (resume_finalization rn r) (finalized rn (fr_operationId r)) (\<lambda>_ t. accounted rn t) s"
proof -
  have load: "wp (load_record rn (fr_operationId r)) P Q s = P (Some latest) s" for P Q
    using known by (simp add: wp_def load_record_def)
  have run: "wp (execute_record rn latest ctx) (finalized rn (fr_operationId r)) (\<lambda>_ t. accounted rn t) s" for ctx
    using wp_weaken [OF execute_record_holds [OF rn plan working_found(1) [OF s known]]] working_found(2) [OF s known]
    by (auto simp: finalized_def)
  show ?thesis
    using s run
    by (auto simp: resume_finalization_def Let_def assertCompatible_def wp_seq [of "require _ _"] wp_require
        wp_seq [of "load_record _ _"] load wp_raise split: option.split)
qed

end

section \<open>Any number of runs\<close>

text \<open>
  The states a runner and its store reach from an empty store, with the world free to change in
  between; a record is resumed as the store has it.
\<close>

inductive reachable_run :: "('r, 's, 'w) runner \<Rightarrow> ('s, 'w) run_state \<Rightarrow> bool" for rn where
  start: "(\<And>op. so_load (rn_store rn) op (rs_store s) = Inr None) \<Longrightarrow> rs_calls s = [] \<Longrightarrow> reachable_run rn s"
| run: "reachable_run rn s \<Longrightarrow> reachable_run rn (snd (run_finalization rn ctx s))"
| resume: "reachable_run rn s \<Longrightarrow> so_load (rn_store rn) (fr_operationId r) (rs_store s) = Inr (Some r) \<Longrightarrow>
     reachable_run rn (snd (resume_finalization rn r s))"
| other: "reachable_run rn s \<Longrightarrow> reachable_run rn (s\<lparr>rs_world := w\<rparr>)"

context reliable_store
begin

lemma reachable_accounted:
  assumes "reachable_run rn s" and rn: "rn_store rn = st" and plan: "sound_plan (rn_plan rn)"
  shows "accounted rn s"
  using assms(1)
proof (induction rule: reachable_run.induct)
  case (start s)
  then show ?case by (simp add: accounted_def accounted_but_def orderly_def)
next
  case (run s ctx)
  then show ?case
    using wp_weaken [OF run_finalization_holds [OF rn plan run.IH], where Q' = "\<lambda>_. accounted rn" and R' = "\<lambda>_. accounted rn"]
    by (simp add: wp_always finalized_def)
next
  case (resume s r)
  then show ?case
    using wp_weaken [OF resume_finalization_holds [OF rn plan resume.IH], where Q' = "\<lambda>_. accounted rn" and R' = "\<lambda>_. accounted rn"]
    by (simp add: wp_always finalized_def)
qed (simp add: accounted_def accounted_but_def)

end

end
