(* ===== verification/Finalization_Properties.thy ===== *)
theory Finalization_Properties
  imports Finalization_Laws "HOL-Library.Multiset"
begin

text \<open>
  The properties of operation finalization: the dependency order of the finalizers, and what
  holds over any number of runs and resumptions against the in-memory store.
\<close>

section \<open>Registries as they are built\<close>

lemma built_registry:
  assumes "register_all register_finalizer fs new_registry = Inr reg"
  shows "well_keyed reg" "distinct (map fz_id fs)" "f \<in> set fs \<longleftrightarrow> lookup reg (fz_id f) = Some f"
proof -
  have get: "lookup reg = map_of (map (\<lambda>f. (fz_id f, f)) fs)" and d: "distinct (map fz_id fs)"
    using finalizer_registry.register_all_get [OF assms] by (simp_all add: empty_map_add fun_eq_iff map_add_def split: option.split)
  have in_fs: "lookup reg i = Some g \<Longrightarrow> g \<in> set fs \<and> fz_id g = i" for i g
    unfolding get by (drule map_of_SomeD) auto
  then show "well_keyed reg" by (simp add: well_keyed_def)
  show "distinct (map fz_id fs)" by (rule d)
  show "f \<in> set fs \<longleftrightarrow> lookup reg (fz_id f) = Some f"
  proof
    assume "f \<in> set fs"
    moreover have "distinct (map fst (map (\<lambda>f. (fz_id f, f)) fs))" using d by (simp add: comp_def)
    ultimately show "lookup reg (fz_id f) = Some f" unfolding get by (intro map_of_is_SomeI) auto
  qed (use in_fs in blast)
qed

lemma runner_plan:
  "fst (new_runner reg store now project) = Inr rn \<Longrightarrow> topologicalSort reg = Inr (rn_plan rn)"
  by (auto simp: new_runner_def freeze_finalizers_def rbind_eq_Inr)

lemma orderly_before:
  assumes "orderly plan calls" and "f \<in> set plan" and "d \<in> set (dependencies f)"
    and "(op, fz_id f, ok) \<in> set calls"
  obtains before after where "calls = before @ (op, fz_id f, ok) # after" and "(op, d, True) \<in> set before"
proof -
  obtain before after where "calls = before @ (op, fz_id f, ok) # after"
    using assms(4) by (meson split_list)
  with assms that show ?thesis unfolding orderly_def by blast
qed

lemma orderly_prefix: "orderly plan (before @ after) \<Longrightarrow> orderly plan before"
  by (auto simp: orderly_def)

text \<open>A chain of finalizers, each of which runs after the next one listed.\<close>

fun linked :: "('r, 'w) finalizer list \<Rightarrow> ('r, 'w) finalizer list \<Rightarrow> bool" where
  "linked plan (f # g # fs) \<longleftrightarrow> f \<in> set plan \<and> fz_id g \<in> set (dependencies f) \<and> linked plan (g # fs)"
| "linked plan fs \<longleftrightarrow> set fs \<subseteq> set plan"

lemma chain_before:
  assumes "orderly plan calls" and "calls = before @ (op, fz_id f, ok) # after" and "linked plan (f # fs)"
  shows "\<forall>g \<in> set fs. (op, fz_id g, True) \<in> set before"
  using assms
proof (induction fs arbitrary: f before after ok calls)
  case (Cons g fs)
  then have f: "f \<in> set plan" "fz_id g \<in> set (dependencies f)" and rest: "linked plan (g # fs)" by simp_all
  have g: "(op, fz_id g, True) \<in> set before"
    using Cons.prems(1,2) f unfolding orderly_def by blast
  then obtain b c where b: "before = b @ (op, fz_id g, True) # c" by (meson split_list)
  have "orderly plan before" using Cons.prems(1) unfolding Cons.prems(2) by (rule orderly_prefix)
  from Cons.IH [OF this b rest] have "\<forall>h \<in> set fs. (op, fz_id h, True) \<in> set b" .
  with g show ?case by (auto simp: b)
qed simp

lemma built_runner:
  assumes "register_all register_finalizer fs new_registry = Inr reg"
    and "fst (new_runner reg store now project) = Inr rn"
  shows "sound_plan (rn_plan rn)" "rn_store rn = store" "set (rn_plan rn) = set fs"
proof -
  have sorted: "topologicalSort reg = Inr (rn_plan rn)" and "rn_store rn = store"
    using assms(2) by (auto simp: new_runner_def freeze_finalizers_def rbind_eq_Inr)
  then show "rn_store rn = store" by simp
  show "sound_plan (rn_plan rn)"
    using topologicalSort_sorted [OF built_registry(1) [OF assms(1)] sorted] by (simp add: sound_plan_def)
  show "set (rn_plan rn) = set fs"
    using topologicalSort_sorted(3) [OF built_registry(1) [OF assms(1)] sorted] built_registry(3) [OF assms(1)] by auto
qed

section \<open>An example\<close>

definition ex_finalizer :: "string \<Rightarrow> string list \<Rightarrow> (string, string list) finalizer" where
  "ex_finalizer i after =
     \<lparr>fz_id = i, fz_version = ''1'', fz_after = Some after,
      fz_execute = (\<lambda>_ w. if i \<in> set w then (Inl OtherThrown, w) else (Inr (), w))\<rparr>"

definition ex_finalizers :: "(string, string list) finalizer list" where
  "ex_finalizers = [ex_finalizer ''reset'' [''prompt''], ex_finalizer ''prompt'' []]"

definition ex_registry :: "(string, string list) finalizer registry" where
  "ex_registry = projr (register_all register_finalizer ex_finalizers new_registry)"

definition ex_runner :: "(string, string memory, string list) runner" where
  "ex_runner = projr (fst (new_runner ex_registry memory_store (\<lambda>_. ''now'') None))"

definition ex_context :: "string finalization_context" where
  "ex_context = \<lparr>fc_operationId = ''op'', fc_flowId = None, fc_result = Some ''result'', fc_error = None, fc_metadata = None\<rparr>"

definition ex_start :: "(string memory, string list) run_state" where
  "ex_start = \<lparr>rs_store = [], rs_world = [''reset''], rs_tick = 0, rs_calls = []\<rparr>"

text \<open>The first run fails at the second finalizer; after that the world lets it pass.\<close>

definition ex_failed :: "(string memory, string list) run_state" where
  "ex_failed = snd (run_finalization ex_runner ex_context ex_start)"

lemma projr_ok: "\<not> isl x \<Longrightarrow> x = Inr (projr x)"
  by (cases x) simp_all

lemma ex_registry_built: "register_all register_finalizer ex_finalizers new_registry = Inr ex_registry"
  unfolding ex_registry_def by (rule projr_ok) code_simp

lemma ex_runner_built: "fst (new_runner ex_registry memory_store (\<lambda>_. ''now'') None) = Inr ex_runner"
  unfolding ex_runner_def by (rule projr_ok) code_simp

lemma ex_failed_reachable: "reachable_run ex_runner (ex_failed\<lparr>rs_world := []\<rparr>)"
  unfolding ex_failed_def
  by (intro reachable_run.other reachable_run.run reachable_run.start)
    (simp_all add: ex_start_def built_runner(2) [OF ex_registry_built ex_runner_built] memory_store_def)

section \<open>The dependency order\<close>

text \<open>
  The plan a finalizer registry freezes holds every registered finalizer once, each of them after all
  the finalizers it depends on.
\<close>

theorem plan_is_dependency_order:
  assumes "register_all register_finalizer fs new_registry = Inr reg" and "topologicalSort reg = Inr plan"
  shows "mset plan = mset fs \<and> dependency_ordered plan"
proof -
  note s = topologicalSort_sorted [OF built_registry(1) [OF assms(1)] assms(2)]
  have "set plan = set fs" using s(3) built_registry(3) [OF assms(1)] by auto
  moreover have "distinct plan" "distinct fs"
    using s(1) built_registry(2) [OF assms(1)] by (auto simp: distinct_map)
  ultimately show ?thesis using s(2) by (simp add: set_eq_iff_mset_eq_distinct)
qed

theorem plan_is_dependency_order_witness:
  "dependency_ordered (rn_plan ex_runner)"
proof -
  from plan_is_dependency_order [OF ex_registry_built runner_plan [OF ex_runner_built]] show ?thesis by (rule conjunct2)
qed

text \<open>
  The registry has such a plan exactly if every dependency is registered and there is no cycle,
  that is, if the finalizers can be ranked above what they depend on; otherwise freezing it throws.
\<close>

theorem plan_exists_iff_acyclic:
  assumes "register_all register_finalizer fs new_registry = Inr reg"
  shows "(\<exists>plan. topologicalSort reg = Inr plan) \<longleftrightarrow> dependencies_known reg \<and> (\<exists>rank. ranked reg rank)"
  using topologicalSort_exists ordered_ranked topologicalSort_sorted [OF built_registry(1) [OF assms]]
    built_registry(1) [OF assms] by metis

theorem plan_exists_iff_acyclic_witness:
  "\<exists>plan. topologicalSort ex_registry = Inr plan"
proof -
  have "lookup ex_registry = [''prompt'' \<mapsto> ex_finalizer ''prompt'' [], ''reset'' \<mapsto> ex_finalizer ''reset'' [''prompt'']]"
    unfolding ex_registry_def
    by (rule ext) (simp add: ex_finalizers_def register_finalizer_def guard_res_def ex_finalizer_def)
  then have "dependencies_known ex_registry \<and> ranked ex_registry (\<lambda>i. if i = ''reset'' then 1 else 0)"
    by (auto simp: dependencies_known_def ranked_def dependencies_def ex_finalizer_def split: if_splits)
  then show ?thesis using plan_exists_iff_acyclic [OF ex_registry_built] by blast
qed

section \<open>Runs\<close>

text \<open>
  On the in-memory store, which never fails, and with one runner: over any number of runs and
  resumptions, with any finalizers failing in between, no finalizer succeeds twice for an
  operation, and none is executed before all it depends on has succeeded.
\<close>

theorem finalizers_succeed_once_in_order:
  assumes "register_all register_finalizer fs new_registry = Inr reg"
    and "fst (new_runner reg memory_store now project) = Inr rn" and "reachable_run rn s"
  shows "orderly (rn_plan rn) (rs_calls s)"
proof -
  note b = built_runner [OF assms(1,2)]
  show ?thesis
    using memory.reachable_accounted [OF assms(3) b(2,1)] by (simp add: accounted_def accounted_but_def)
qed

theorem finalizers_succeed_once_in_order_witness:
  "orderly (rn_plan ex_runner) [(''op'', ''prompt'', True), (''op'', ''reset'', False)]"
proof -
  have "rs_calls (ex_failed\<lparr>rs_world := []\<rparr>) = [(''op'', ''prompt'', True), (''op'', ''reset'', False)]"
    by code_simp
  with finalizers_succeed_once_in_order [OF ex_registry_built ex_runner_built ex_failed_reachable]
  show ?thesis by simp
qed

text \<open>
  A run that returns, from any state reached, returns the record as it is stored, completed, and by then
  every registered finalizer has succeeded for the operation.
\<close>

theorem run_completes_everything:
  assumes "register_all register_finalizer fs new_registry = Inr reg"
    and "fst (new_runner reg memory_store now project) = Inr rn" and "reachable_run rn s"
    and "run_finalization rn ctx s = (Inr r, t)"
  shows "map_of (rs_store t) (fc_operationId ctx) = Some r \<and> fr_status r = FinCompleted \<and>
    (\<forall>f \<in> set fs. (fc_operationId ctx, fz_id f, True) \<in> set (rs_calls t))"
proof -
  note b = built_runner [OF assms(1,2)]
  from memory.reachable_accounted [OF assms(3) b(2,1)]
  have "finalized rn (fc_operationId ctx) r t"
    by (rule wp_result [OF memory.run_finalization_holds [OF b(2,1)] assms(4)])
  then show ?thesis by (auto simp: finalized_def held_def b(2,3) memory_store_def)
qed

theorem run_completes_everything_witness:
  "(''op'', ''reset'', True) \<in> set (rs_calls (snd (run_finalization ex_runner ex_context (ex_failed\<lparr>rs_world := []\<rparr>))))"
proof -
  let ?x = "run_finalization ex_runner ex_context (ex_failed\<lparr>rs_world := []\<rparr>)"
  have "fst ?x = Inr (projr (fst ?x))" by (rule projr_ok) code_simp
  then have "?x = (Inr (projr (fst ?x)), snd ?x)" by (metis prod.collapse)
  from run_completes_everything [OF ex_registry_built ex_runner_built ex_failed_reachable this]
  show ?thesis by (simp add: ex_finalizers_def ex_finalizer_def ex_context_def)
qed

end
