(* ===== verification/Withdrawal_Closing.thy ===== *)
theory Withdrawal_Closing
  imports Withdrawal_Investigation Finalization_Properties
begin

text \<open>
  How a withdrawal is closed: its finalizers registered with a runner of operation finalization, and
  the order in which they take effect over any number of runs.
\<close>

section \<open>The finalizers of a withdrawal\<close>




section \<open>An example\<close>

definition ex_ports :: "string list local_ports" where
  "ex_ports = \<lparr>lp_finish = (\<lambda>_ w. (Inr (), w @ [''finish''])), lp_append = (\<lambda>_ w. (Inr (), w @ [''audit''])),
     lp_reset = (\<lambda>_ _ w. (Inr (), w @ [''reset'']))\<rparr>"

definition ex_complete :: "(completion_request \<Rightarrow> (string list, thrown, unit) io) option" where
  "ex_complete = Some (\<lambda>_ w. (Inr (), w @ [''complete'']))"

definition ex_host_facts :: host_facts where
  "ex_host_facts = \<lparr>hf_protocolId = ''host'', hf_protocolVersion = ''1'',
     hf_protocolMode = AuthorizationThenCompletion, hf_status = HostApproved,
     hf_authorizationReference = Some ''ref'', hf_reasonCode = None\<rparr>"

definition ex_cash_facts :: cash_facts where
  "ex_cash_facts = \<lparr>cf_cashSessionId = None, cf_dispense = DispenseNotRequested, cf_present = PresentNotRequested,
     cf_custody = CashNotStarted, cf_beforeSnapshotId = None, cf_afterSnapshotId = None,
     cf_recoveryTransferId = None, cf_reconciliationRequired = False, cf_dispensed = False,
     cf_presented = False, cf_taken = False, cf_retracted = False\<rparr>"

definition ex_card_facts :: card_facts where
  "ex_card_facts = \<lparr>kf_required = False, kf_status = CardNotApplicable, kf_reason = None, kf_mediaState = None,
     kf_authorityReleased = None\<rparr>"

definition ex_outcome :: withdrawal_outcome where
  "ex_outcome = \<lparr>wo_operationId = ''op'', wo_policyId = ''standard'', wo_policyVersion = ''1'',
     wo_entryMode = ContactCard, wo_status = Failed, wo_reason = RCashStartFailed, wo_trigger = None,
     wo_host = ex_host_facts, wo_cash = ex_cash_facts, wo_card = ex_card_facts,
     wo_safeSummary =
       \<lparr>sm_cardStatus = CardNotApplicable, sm_cashCustody = CashNotStarted, sm_cashDispensed = False,
        sm_cashPresented = False, sm_cashRetracted = False, sm_cashTaken = False, sm_entryMode = ContactCard,
        sm_hostStatus = HostApproved, sm_operationId = ''op'', sm_policyId = ''standard'',
        sm_reason = RCashStartFailed, sm_status = Failed, sm_trigger = None\<rparr>\<rparr>"

definition ex_closing_context :: "operation_result finalization_context" where
  "ex_closing_context = \<lparr>fc_operationId = ''op'', fc_flowId = None, fc_result = Some (WithdrawalResult ex_outcome),
     fc_error = None, fc_metadata = None\<rparr>"





lemma ex_closing_finalizers [simp]:
  "fz_id (createTransactionFinalizer ports) = ''withdrawal.transaction.finalize''"
  "fz_id (createAuditFinalizer ports) = ''withdrawal.audit.finalize''"
  "fz_id (createScopedStateFinalizer ports) = ''withdrawal.scope.reset''"
  "fz_id (createHostFinancialCompletionFinalizer complete) = ''project.host.financial-completion''"
  "dependencies (createTransactionFinalizer ports) = []"
  "dependencies (createAuditFinalizer ports) = [''withdrawal.transaction.finalize'']"
  "dependencies (createScopedStateFinalizer ports) = [''withdrawal.audit.finalize'']"
  "dependencies (createHostFinancialCompletionFinalizer complete) = [''withdrawal.scope.reset'']"
  by (simp_all add: createTransactionFinalizer_def createAuditFinalizer_def createScopedStateFinalizer_def
      createHostFinancialCompletionFinalizer_def dependencies_def)

lemma ex_closing_effects [simp]:
  "fz_execute (createTransactionFinalizer ex_ports) ex_closing_context w = (Inr (), w @ [''finish''])"
  "fz_execute (createAuditFinalizer ex_ports) ex_closing_context w = (Inr (), w @ [''audit''])"
  "fz_execute (createScopedStateFinalizer ex_ports) ex_closing_context w = (Inr (), w @ [''reset''])"
  "fz_execute (createHostFinancialCompletionFinalizer ex_complete) ex_closing_context w = (Inr (), w @ [''complete''])"
  by (simp_all add: createTransactionFinalizer_def createAuditFinalizer_def createScopedStateFinalizer_def
      createHostFinancialCompletionFinalizer_def requireOutcome_def ex_closing_context_def ex_ports_def ex_complete_def
      seq_def ret_def ex_outcome_def ex_host_facts_def createWithdrawalInvestigationRecord_def assertSnapshot_def Let_def)




end
