(* ===== verification/Transaction_Startup.thy ===== *)
theory Transaction_Startup
  imports Finalization_Laws
begin

text \<open>
  Recovery when the transaction runtime starts (\<^verbatim>\<open>packages/kiosk-runtime/src\<close>):
  \<^verbatim>\<open>TransactionStartupCoordinator\<close> (\<^verbatim>\<open>transaction-startup.ts\<close>) runs the pending
  migrations, the recovery of protected devices and the incomplete finalizations, and admits
  operations only when all of them are done; and what the resumption of the incomplete records
  (\<^verbatim>\<open>resume_all\<close>) leaves behind.
\<close>

section \<open>The coordinator\<close>

datatype startup_status = StIdle | StMigrating | StRecovering | StFinalizing | StReady | StIntervention | StFailed

record startup_snapshot =
  ss_status :: startup_status
  ss_appliedMigrationIds :: "string list"
  ss_incompleteFinalizationCount :: nat
  ss_reason :: "string option"

datatype protection_status = ProtectionReady | ProtectionRecovering | ProtectionIntervention

text \<open>The ports act on the world \<^typ>\<open>'w\<close>; a migration port answers the identifiers it applied.\<close>

record ('r, 'w) startup_ports =
  sp_runPending :: "('w, thrown, string list) io"
  sp_recover :: "('w, thrown, protection_status) io"
  sp_listIncomplete :: "('w, thrown, 'r finalization_record list) io"
  sp_resume :: "'r finalization_record list \<Rightarrow> ('w, thrown, recovery_status \<times> string option) io"

text \<open>
  \<open>st_initialization\<close> is the promise of the one initialization, once settled; \<open>st_published\<close> are
  the snapshots the listeners were given.
\<close>

record 'w startup_state =
  st_current :: startup_snapshot
  st_initialization :: "(thrown + startup_snapshot) option"
  st_published :: "startup_snapshot list"
  st_world :: 'w

definition snapshot_of :: "startup_status \<Rightarrow> startup_snapshot" where
  "snapshot_of status =
     \<lparr>ss_status = status, ss_appliedMigrationIds = [], ss_incompleteFinalizationCount = 0, ss_reason = None\<rparr>"

definition new_coordinator :: "'w \<Rightarrow> 'w startup_state" where
  "new_coordinator w =
     \<lparr>st_current = snapshot_of StIdle, st_initialization = None, st_published = [], st_world = w\<rparr>"

definition canExecute :: "'w startup_state \<Rightarrow> bool" where
  "canExecute s \<longleftrightarrow> ss_status (st_current s) = StReady"

definition status_text :: "startup_status \<Rightarrow> string" where
  "status_text st =
     (case st of StIdle \<Rightarrow> ''idle'' | StMigrating \<Rightarrow> ''migrating'' | StRecovering \<Rightarrow> ''recovering''
      | StFinalizing \<Rightarrow> ''finalizing'' | StReady \<Rightarrow> ''ready'' | StIntervention \<Rightarrow> ''intervention''
      | StFailed \<Rightarrow> ''failed'')"

definition assertReady :: "('w startup_state, thrown, unit) io" where
  "assertReady =
     seq (ask id) (\<lambda>s.
     require (canExecute s)
       (plain_error (''Transaction runtime is not ready: '' @ status_text (ss_status (st_current s)) @ ''.'')))"

definition startup_error :: "thrown \<Rightarrow> string" where
  "startup_error e =
     (case e of ErrorThrown _ message \<Rightarrow> message | OtherThrown \<Rightarrow> ''transaction-startup.failed'')"

definition set_snapshot ::
  "(startup_snapshot \<Rightarrow> startup_snapshot) \<Rightarrow> ('w startup_state, thrown, startup_snapshot) io" where
  "set_snapshot f =
     seq (change (\<lambda>s. s\<lparr>st_current := f (st_current s), st_published := st_published s @ [f (st_current s)]\<rparr>)) (\<lambda>_.
     ask st_current)"

definition port :: "('w, thrown, 'a) io \<Rightarrow> ('w startup_state, thrown, 'a) io" where
  "port m s = (case m (st_world s) of (r, w) \<Rightarrow> (r, s\<lparr>st_world := w\<rparr>))"

definition protection_reason :: "protection_status \<Rightarrow> string" where
  "protection_reason p =
     ''protection.'' @ (case p of ProtectionReady \<Rightarrow> ''ready'' | ProtectionRecovering \<Rightarrow> ''recovering''
       | ProtectionIntervention \<Rightarrow> ''intervention'')"

definition finalizeIncomplete :: "('r, 'w) startup_ports \<Rightarrow> ('w startup_state, thrown, startup_snapshot) io" where
  "finalizeIncomplete ports =
     seq (port (sp_listIncomplete ports)) (\<lambda>records.
     seq (set_snapshot (\<lambda>c. c\<lparr>ss_incompleteFinalizationCount := length records, ss_status := StFinalizing\<rparr>)) (\<lambda>_.
     seq (port (sp_resume ports records)) (\<lambda>finalization.
     if fst finalization \<noteq> RecoveryReady then
       set_snapshot (\<lambda>c. c\<lparr>ss_reason :=
           Some (case snd finalization of Some r \<Rightarrow> r | None \<Rightarrow> ''finalization.intervention''),
         ss_status := StIntervention\<rparr>)
     else set_snapshot (\<lambda>c. c\<lparr>ss_status := StReady\<rparr>))))"

definition run_startup :: "('r, 'w) startup_ports \<Rightarrow> ('w startup_state, thrown, startup_snapshot) io" where
  "run_startup ports =
     handle
       (seq (set_snapshot (\<lambda>_. snapshot_of StMigrating)) (\<lambda>_.
        seq (port (sp_runPending ports)) (\<lambda>applied.
        seq (set_snapshot (\<lambda>_. (snapshot_of StRecovering)\<lparr>ss_appliedMigrationIds := applied\<rparr>)) (\<lambda>_.
        seq (port (sp_recover ports)) (\<lambda>recovery.
        if recovery \<noteq> ProtectionReady then
          set_snapshot (\<lambda>c. c\<lparr>ss_reason := Some (protection_reason recovery), ss_status := StIntervention\<rparr>)
        else finalizeIncomplete ports)))))
       (\<lambda>e.
        seq (set_snapshot (\<lambda>c. c\<lparr>ss_reason := Some (startup_error e), ss_status := StFailed\<rparr>)) (\<lambda>_.
        raise e))"

text \<open>\<^verbatim>\<open>initialization ??= run()\<close>: every later call has the outcome of the first.\<close>

definition initialize :: "('r, 'w) startup_ports \<Rightarrow> ('w startup_state, thrown, startup_snapshot) io" where
  "initialize ports s =
     (case st_initialization s of
        Some r \<Rightarrow> (r, s)
      | None \<Rightarrow> (case run_startup ports s of (r, t) \<Rightarrow> (r, t\<lparr>st_initialization := Some r\<rparr>)))"

section \<open>What every save keeps, every run keeps\<close>

definition saves_keep :: "('r, 's) finalization_store \<Rightarrow> string \<Rightarrow> ('s \<Rightarrow> bool) \<Rightarrow> bool" where
  "saves_keep st op kept \<longleftrightarrow> (\<forall>r s. fr_operationId r = op \<longrightarrow> kept s \<longrightarrow> kept (snd (so_save st r s)))"

lemma save_keeps:
  assumes "saves_keep (rn_store rn) op kept" and "fr_operationId r = op" and "kept (rs_store s)"
  shows "wp (save_record rn r) (\<lambda>r' t. kept (rs_store t) \<and> fr_operationId r' = op) (\<lambda>_ t. kept (rs_store t)) s"
proof -
  obtain x s' where save: "so_save (rn_store rn) (r\<lparr>fr_updatedAt := rn_now rn (rs_tick s)\<rparr>) (rs_store s) = (x, s')"
    by fastforce
  then have "kept s'"
    using assms unfolding saves_keep_def
    by (metis finalization_record.ext_inject finalization_record.surjective finalization_record.update_convs(6) snd_conv)
  then show ?thesis
    using assms save
    by (auto simp: wp_def save_record_def seq_def read_clock_def store_record_def ret_def split: sum.splits)
qed

lemma replaceStep_keeps:
  assumes "saves_keep (rn_store rn) op kept" and "fr_operationId r = op" and "kept (rs_store s)"
  shows "wp (replaceStep rn r i f) (\<lambda>r' t. kept (rs_store t) \<and> fr_operationId r' = op) (\<lambda>_ t. kept (rs_store t)) s"
  unfolding replaceStep_def by (rule save_keeps) (simp_all add: assms)

lemma call_keeps:
  "kept (rs_store s) \<Longrightarrow> wp (call_finalizer f i ctx) (\<lambda>_ t. kept (rs_store t)) (\<lambda>_ t. kept (rs_store t)) s"
  by (simp add: wp_def call_finalizer_def split: prod.splits sum.splits)

lemma attempt_keeps:
  assumes keep: "saves_keep (rn_store rn) op kept" and "fr_operationId r = op" and "kept (rs_store s)"
  shows "wp (attempt_step rn ctx f r) (\<lambda>r' t. kept (rs_store t) \<and> fr_operationId r' = op) (\<lambda>_ t. kept (rs_store t)) s"
proof -
  have failed: "wp (seq (replaceStep rn r i g) (\<lambda>r'. seq (save_record rn (r'\<lparr>fr_status := FinFailed\<rparr>)) (\<lambda>_. raise e)))
      (\<lambda>r' t. kept (rs_store t) \<and> fr_operationId r' = op) (\<lambda>_ t. kept (rs_store t)) t" if "kept (rs_store t)" for i g e t
    by (rule wp_then [OF replaceStep_keeps [OF keep assms(2) that]], rule wp_then [OF save_keeps [OF keep]])
      (auto simp: wp_raise)
  show ?thesis
    unfolding attempt_step_def wp_handle
    by (rule wp_then [OF call_keeps [of kept, OF assms(3)]], rule wp_weaken [OF replaceStep_keeps [OF keep assms(2)]])
      (auto intro: failed)
qed

lemma run_steps_keeps:
  assumes keep: "saves_keep (rn_store rn) op kept" and "fr_operationId r = op" and "kept (rs_store s)"
  shows "wp (run_steps rn ctx fs r) (\<lambda>r' t. kept (rs_store t) \<and> fr_operationId r' = op) (\<lambda>_ t. kept (rs_store t)) s"
  using assms(2,3)
proof (induction fs arbitrary: r s)
  case (Cons f fs)
  have "wp (seq (replaceStep rn r (fz_id f) g) (\<lambda>r1. seq (attempt_step rn ctx f r1) (\<lambda>r2. run_steps rn ctx fs r2)))
      (\<lambda>r' t. kept (rs_store t) \<and> fr_operationId r' = op) (\<lambda>_ t. kept (rs_store t)) s" for g
    by (rule wp_then [OF replaceStep_keeps [OF keep Cons.prems]], rule wp_then [OF attempt_keeps [OF keep]])
      (simp_all add: Cons.IH)
  then show ?case using Cons by (auto split: option.split)
qed (simp add: wp_ret)

lemma execute_keeps:
  assumes keep: "saves_keep (rn_store rn) (fr_operationId r) kept" and "kept (rs_store s)"
  shows "wp (execute_record rn r ctx) (\<lambda>_ t. kept (rs_store t)) (\<lambda>_ t. kept (rs_store t)) s"
  unfolding execute_record_def
  by (intro wp_then [OF save_keeps [OF keep]] wp_then [OF run_steps_keeps [OF keep]] wp_weaken [OF save_keeps [OF keep]])
    (auto simp: assms(2))

lemma add_recovery_keeps:
  assumes keep: "saves_keep (rn_store rn) op kept" and "fr_operationId r = op" and "kept (rs_store s)"
  shows "wp (add_recovery rn ctx r) (\<lambda>r' t. kept (rs_store t) \<and> fr_operationId r' = op) (\<lambda>_ t. kept (rs_store t)) s"
proof (cases "fr_recoveryContext r = None \<and> rn_project rn \<noteq> None")
  case True
  then obtain project where "rn_project rn = Some project" by auto
  with True show ?thesis
    using save_keeps [OF keep, of "r\<lparr>fr_recoveryContext := Some (project ctx)\<rparr>"] assms(2,3)
    by (simp add: add_recovery_def)
next
  case False
  then have "add_recovery rn ctx r = ret r"
    by (auto simp: add_recovery_def split: option.splits)
  then show ?thesis using assms(2,3) by (simp add: wp_ret)
qed

text \<open>Any run, and any resumption, whatever the store answers.\<close>

lemma run_keeps:
  assumes keep: "\<And>op. saves_keep (rn_store rn) op kept" and "kept (rs_store s)"
  shows "kept (rs_store (snd (run_finalization rn ctx s)))"
proof -
  have run: "wp (seq (assertCompatible rn r) (\<lambda>_. seq (add_recovery rn ctx r) (\<lambda>r. execute_record rn r ctx)))
      (\<lambda>_ t. kept (rs_store t)) (\<lambda>_ t. kept (rs_store t)) t" if "kept (rs_store t)" for r t
    using that by (auto simp: assertCompatible_def wp_seq [of "require _ _"] wp_require
        intro!: wp_then [OF add_recovery_keeps [OF keep refl]] execute_keeps [OF keep])
  have "wp (case found of Some r \<Rightarrow> ret r | None \<Rightarrow> newRecord rn i) (\<lambda>_ t. kept (rs_store t)) (\<lambda>_ t. kept (rs_store t)) s" for found i
    using assms(2) by (cases found) (auto simp: wp_def newRecord_def seq_def read_clock_def ret_def)
  then have "wp (run_finalization rn ctx) (\<lambda>_ t. kept (rs_store t)) (\<lambda>_ t. kept (rs_store t)) s"
    unfolding run_finalization_def wp_seq [of "load_record _ _"]
    using assms(2) by (auto simp: wp_def [of "load_record _ _"] load_record_def split: sum.split intro!: wp_then run)
  then show ?thesis by (simp add: wp_always)
qed

lemma resume_keeps:
  assumes keep: "\<And>op. saves_keep (rn_store rn) op kept" and "kept (rs_store s)"
  shows "kept (rs_store (snd (resume_finalization rn r s)))"
proof -
  have "wp (resume_finalization rn r) (\<lambda>_ t. kept (rs_store t)) (\<lambda>_ t. kept (rs_store t)) s"
    unfolding resume_finalization_def assertCompatible_def
    using assms(2) execute_keeps [OF keep assms(2)]
    by (auto simp: wp_seq [of "require _ _"] wp_require wp_seq [of "load_record _ _"] wp_def [of "load_record _ _"]
        load_record_def Let_def wp_raise split: sum.split option.split)
  then show ?thesis by (simp add: wp_always)
qed

lemma resume_all_keeps:
  assumes keep: "\<And>v rn op. lookup reg v = Some rn \<Longrightarrow> saves_keep (rn_store rn) op kept"
  shows "kept (rs_store s) \<Longrightarrow> wp (resume_all reg rs) (\<lambda>_ t. kept (rs_store t)) (\<lambda>_ _. False) s"
proof (induction rs arbitrary: s)
  case (Cons r rs)
  have one: "wp (resume_finalization rn r) (\<lambda>_ t. kept (rs_store t)) (\<lambda>_ t. kept (rs_store t)) s"
    if "lookup reg v = Some rn" for v rn
    using resume_keeps [where kept = kept, OF keep [OF that] Cons.prems] by (simp add: wp_always)
  have "wp (handle (seq (resume_finalization rn r) (\<lambda>_. ret True)) (\<lambda>_. ret False))
      (\<lambda>_ t. kept (rs_store t)) (\<lambda>_ _. False) s" if "lookup reg v = Some rn" for v rn
    unfolding wp_handle wp_seq by (rule wp_weaken [OF one [OF that]]) (simp_all add: wp_ret)
  then show ?case
    using Cons by (auto simp: wp_ret intro!: wp_then split: option.split)
qed (simp add: wp_ret)

end
