(* ===== verification/Finalization_Sql.thy ===== *)
theory Finalization_Sql
  imports Finalization_Runner "HOL-Library.List_Lexorder" "HOL-Library.Char_ord"
begin

text \<open>
  The durable store of finalization records (\<^verbatim>\<open>finalization-sql-store.ts\<close>) on a connection
  that may fail: a statement is done, refused, or done without its answer coming back, and a query
  may throw. A process that stops is a connection that refuses everything from then on. The column
  \<^verbatim>\<open>record_json\<close> holds what its text stands for: a record, another JSON value, or no JSON. The
  interface of a durable store is given by the stored records and the number of saves that threw.
\<close>

section \<open>The table and its connection\<close>

datatype 'r record_text = NotJson thrown | NotRecord | RecordText "'r finalization_record"

record 'r finalization_row =
  fx_plan_version :: string
  fx_status :: finalization_status
  fx_record_json :: "'r record_text"
  fx_updated_at :: string

datatype sql_answer = SqlDone | SqlRefused thrown | SqlUnanswered thrown

text \<open>
  The rows by their primary key \<^verbatim>\<open>operation_id\<close>; what queries throw, if they do; the answers to
  the next statements (those after the last one are done); how many statements have thrown.
\<close>

record 'r sql_database =
  db_rows :: "(string \<times> 'r finalization_row) list"
  db_reads :: "thrown option"
  db_writes :: "sql_answer list"
  db_lost :: nat

definition row_of :: "'r finalization_record \<Rightarrow> 'r finalization_row" where
  "row_of r =
     \<lparr>fx_plan_version = fr_planVersion r, fx_status = fr_status r, fx_record_json = RecordText r,
      fx_updated_at = fr_updatedAt r\<rparr>"

definition invalid_record :: "string \<Rightarrow> thrown" where
  "invalid_record operationId =
     plain_error (''Invalid operation finalization record for '' @ [CHR 0x27] @ operationId @ [CHR 0x27, CHR ''.''])"

definition decodeRecord :: "string \<Rightarrow> 'r finalization_row \<Rightarrow> thrown + 'r finalization_record" where
  "decodeRecord operationId row =
     (case fx_record_json row of
        NotJson e \<Rightarrow> Inl e
      | NotRecord \<Rightarrow> Inl (invalid_record operationId)
      | RecordText r \<Rightarrow> if fr_operationId r = operationId then Inr r else Inl (invalid_record operationId))"

definition sql_load :: "string \<Rightarrow> 'r sql_database \<Rightarrow> thrown + 'r finalization_record option" where
  "sql_load operationId db =
     (case db_reads db of
        Some e \<Rightarrow> Inl e
      | None \<Rightarrow>
          (case map_of (db_rows db) operationId of
             None \<Rightarrow> Inr None
           | Some row \<Rightarrow>
               (case decodeRecord operationId row of Inl e \<Rightarrow> Inl e | Inr r \<Rightarrow> Inr (Some r))))"

definition upsert :: "'r finalization_record \<Rightarrow> 'r sql_database \<Rightarrow> 'r sql_database" where
  "upsert r db = db\<lparr>db_rows := put (fr_operationId r) (row_of r) (db_rows db)\<rparr>"

definition next_statement :: "'r sql_database \<Rightarrow> 'r sql_database" where
  "next_statement db = db\<lparr>db_writes := tl (db_writes db)\<rparr>"

definition lose :: "'r sql_database \<Rightarrow> 'r sql_database" where
  "lose db = db\<lparr>db_lost := Suc (db_lost db)\<rparr>"

definition sql_save :: "'r finalization_record \<Rightarrow> 'r sql_database \<Rightarrow> (thrown + unit) \<times> 'r sql_database" where
  "sql_save r db =
     (case db_writes db of
        SqlRefused e # _ \<Rightarrow> (Inl e, lose (next_statement db))
      | SqlUnanswered e # _ \<Rightarrow> (Inl e, lose (next_statement (upsert r db)))
      | _ \<Rightarrow> (Inr (), next_statement (upsert r db)))"

fun decode_rows :: "(string \<times> 'r finalization_row) list \<Rightarrow> thrown + 'r finalization_record list" where
  "decode_rows [] = Inr []"
| "decode_rows ((operationId, row) # rows) =
     (case decodeRecord operationId row of
        Inl e \<Rightarrow> Inl e
      | Inr r \<Rightarrow> map_sum (\<lambda>e. e) (\<lambda>rs. r # rs) (decode_rows rows))"

text \<open>\<^verbatim>\<open>ORDER BY updated_at, operation_id\<close>.\<close>

definition sql_listIncomplete :: "'r sql_database \<Rightarrow> thrown + 'r finalization_record list" where
  "sql_listIncomplete db =
     (case db_reads db of
        Some e \<Rightarrow> Inl e
      | None \<Rightarrow>
          decode_rows (sort_key (\<lambda>x. fx_updated_at (snd x)) (sort_key fst
            (filter (\<lambda>x. fx_status (snd x) \<noteq> FinCompleted) (db_rows db)))))"

definition sql_store :: "('r, 'r sql_database) finalization_store" where
  "sql_store = \<lparr>so_load = sql_load, so_save = sql_save, so_listIncomplete = sql_listIncomplete\<rparr>"

definition empty_database :: "'r sql_database" where
  "empty_database = \<lparr>db_rows = [], db_reads = None, db_writes = [], db_lost = 0\<rparr>"

text \<open>The record stored for an operation, if there is one.\<close>

fun record_in :: "'r record_text \<Rightarrow> 'r finalization_record option" where
  "record_in (RecordText r) = Some r" | "record_in _ = None"

definition sql_stored :: "'r sql_database \<Rightarrow> string \<Rightarrow> 'r finalization_record option" where
  "sql_stored db operationId = Option.bind (map_of (db_rows db) operationId) (\<lambda>row. record_in (fx_record_json row))"

section \<open>The interface\<close>

locale durable_store =
  fixes st :: "('r, 's) finalization_store"
    and stored :: "'s \<Rightarrow> string \<Rightarrow> 'r finalization_record option"
    and lost :: "'s \<Rightarrow> nat"
  assumes loaded: "so_load st i s = Inr x \<Longrightarrow> x = stored s i"
    and kept: "so_save st r s = (Inr (), s') \<Longrightarrow>
      stored s' = (stored s)(fr_operationId r \<mapsto> r) \<and> lost s' = lost s"
    and threw: "so_save st r s = (Inl e, s') \<Longrightarrow>
      (stored s' = stored s \<or> stored s' = (stored s)(fr_operationId r \<mapsto> r)) \<and> lost s' = Suc (lost s)"

lemma decodeRecord_ok: "decodeRecord i row = Inr r \<Longrightarrow> fx_record_json row = RecordText r \<and> fr_operationId r = i"
  by (auto simp: decodeRecord_def split: record_text.splits if_splits)

lemma sql_stored_simps [simp]:
  "sql_stored (upsert r db) = (sql_stored db)(fr_operationId r \<mapsto> r)"
  "sql_stored (next_statement db) = sql_stored db"
  "sql_stored (lose db) = sql_stored db"
  "sql_stored empty_database i = None"
  by (auto simp: sql_stored_def upsert_def next_statement_def lose_def row_of_def empty_database_def)

lemma db_lost_simps [simp]:
  "db_lost (upsert r db) = db_lost db"
  "db_lost (next_statement db) = db_lost db"
  "db_lost (lose db) = Suc (db_lost db)"
  "db_lost empty_database = 0"
  by (simp_all add: upsert_def next_statement_def lose_def empty_database_def)

interpretation sql: durable_store sql_store sql_stored db_lost
proof
  show "x = sql_stored s i" if "so_load sql_store i s = Inr x" for i s and x :: "'r finalization_record option"
    using that
    by (auto simp: sql_store_def sql_load_def sql_stored_def dest!: decodeRecord_ok split: option.splits sum.splits)
next
  show "sql_stored s' = (sql_stored s)(fr_operationId r \<mapsto> r) \<and> db_lost s' = db_lost s"
    if "so_save sql_store r s = (Inr (), s')" for r :: "'r finalization_record" and s s'
    using that by (auto simp: sql_store_def sql_save_def split: list.splits sql_answer.splits)
next
  show "(sql_stored s' = sql_stored s \<or> sql_stored s' = (sql_stored s)(fr_operationId r \<mapsto> r)) \<and>
      db_lost s' = Suc (db_lost s)"
    if "so_save sql_store r s = (Inl e, s')" for r :: "'r finalization_record" and s s' e
    using that by (auto simp: sql_store_def sql_save_def split: list.splits sql_answer.splits)
qed

text \<open>The in-memory store never throws.\<close>

interpretation unfailing: durable_store memory_store map_of "\<lambda>_. 0"
  by unfold_locales (auto simp: memory_store_def)

section \<open>The rows\<close>

text \<open>Every row is that of a record of its operation; what is listed is what is stored and incomplete.\<close>

definition rows_ok :: "'r sql_database \<Rightarrow> bool" where
  "rows_ok db \<longleftrightarrow>
     distinct (map fst (db_rows db)) \<and>
     (\<forall>(i, row) \<in> set (db_rows db). \<exists>r. row = row_of r \<and> fr_operationId r = i)"

lemma rows_ok_save: "rows_ok db \<Longrightarrow> rows_ok (snd (sql_save r db))"
proof -
  assume ok: "rows_ok db"
  have "rows_ok (upsert r db)"
    using ok set_put [of "fr_operationId r" "row_of r" "db_rows db"] distinct_put [of "db_rows db"]
    by (fastforce simp: rows_ok_def upsert_def)
  with ok show ?thesis
    by (auto simp: sql_save_def rows_ok_def next_statement_def lose_def split: list.split sql_answer.split)
qed

lemma rows_ok_stored:
  assumes "rows_ok db"
  shows "(i, row) \<in> set (db_rows db) \<longleftrightarrow> (\<exists>r. row = row_of r \<and> fr_operationId r = i \<and> sql_stored db i = Some r)"
proof
  assume row: "(i, row) \<in> set (db_rows db)"
  then have "map_of (db_rows db) i = Some row" using assms by (simp add: rows_ok_def)
  with assms row show "\<exists>r. row = row_of r \<and> fr_operationId r = i \<and> sql_stored db i = Some r"
    by (auto simp: rows_ok_def sql_stored_def row_of_def)
next
  assume "\<exists>r. row = row_of r \<and> fr_operationId r = i \<and> sql_stored db i = Some r"
  then obtain r x where r: "row = row_of r" "map_of (db_rows db) i = Some x" "fx_record_json x = RecordText r"
    by (auto simp: sql_stored_def split: Option.bind_splits elim: record_in.elims)
  then have "(i, x) \<in> set (db_rows db)" by (simp add: map_of_SomeD)
  moreover from this have "x = row_of r" using assms r(3) by (auto simp: rows_ok_def row_of_def)
  ultimately show "(i, row) \<in> set (db_rows db)" using r(1) by simp
qed

lemma decode_rows_ok:
  "\<forall>(i, row) \<in> set rows. \<exists>r. row = row_of r \<and> fr_operationId r = i \<Longrightarrow>
   \<exists>rs. decode_rows rows = Inr rs \<and> set rs = {r. (fr_operationId r, row_of r) \<in> set rows}"
proof (induction rows)
  case (Cons x rows)
  then obtain r where x: "x = (fr_operationId r, row_of r)" by (cases x) auto
  have inj: "row_of a = row_of b \<longleftrightarrow> a = b" for a b :: "'a finalization_record"
    by (auto simp: row_of_def)
  from Cons obtain rs where "decode_rows rows = Inr rs" "set rs = {r. (fr_operationId r, row_of r) \<in> set rows}"
    by auto
  then show ?case by (auto simp: x decodeRecord_def inj) (auto simp: row_of_def)
qed simp

lemma listed_rows:
  assumes "rows_ok db" and "db_reads db = None"
  shows "\<exists>rs. sql_listIncomplete db = Inr rs \<and>
    set rs = {r. sql_stored db (fr_operationId r) = Some r \<and> fr_status r \<noteq> FinCompleted}"
proof -
  let ?rows = "sort_key (\<lambda>x. fx_updated_at (snd x)) (sort_key fst
    (filter (\<lambda>x. fx_status (snd x) \<noteq> FinCompleted) (db_rows db)))"
  have "\<forall>(i, row) \<in> set ?rows. \<exists>r. row = row_of r \<and> fr_operationId r = i"
    using assms(1) by (auto simp: rows_ok_def)
  from decode_rows_ok [OF this] obtain rs where rs: "decode_rows ?rows = Inr rs"
    "set rs = {r. (fr_operationId r, row_of r) \<in> set ?rows}" by blast
  moreover have "(fr_operationId r, row_of r) \<in> set ?rows \<longleftrightarrow>
      sql_stored db (fr_operationId r) = Some r \<and> fr_status r \<noteq> FinCompleted" for r
    using rows_ok_stored [OF assms(1), of "fr_operationId r" "row_of r"] by (auto simp: row_of_def)
  ultimately show ?thesis using assms(2) by (simp add: sql_listIncomplete_def)
qed


lemma decode_rows_keys: "decode_rows rows = Inr rs \<Longrightarrow> map fr_operationId rs = map fst rows"
proof (induction rows arbitrary: rs)
  case (Cons x rows)
  then show ?case
    by (cases x) (auto dest!: decodeRecord_ok split: sum.splits simp: map_sum_def)
qed simp

lemma listed_distinct:
  assumes "rows_ok db" and "sql_listIncomplete db = Inr rs"
  shows "distinct (map fr_operationId rs)"
proof -
  have sorted: "distinct (map fst (sort_key f xs)) = distinct (map fst xs)" for f :: "'b \<times> 'c \<Rightarrow> 'd :: linorder" and xs
    by (simp add: distinct_map)
  have "distinct (map fst (filter P (db_rows db)))" for P
    using assms(1) by (simp add: rows_ok_def distinct_map_filter)
  then show ?thesis
    using assms(2) by (auto simp: sql_listIncomplete_def sorted dest!: decode_rows_keys split: option.splits)
qed

end
