(* ===== verification/Finalization_Durable.thy ===== *)
theory Finalization_Durable
  imports Finalization_Sql Finalization_Properties
begin

text \<open>
  What finalization guarantees when its store and the process may fail: the order of the finalizers,
  and that a success can be repeated only as often as saves have thrown.
\<close>

section \<open>Executions\<close>

type_synonym finalizer_calls = "(string \<times> string \<times> bool) list"

definition wins :: "string \<Rightarrow> string \<Rightarrow> finalizer_calls \<Rightarrow> nat" where
  "wins op i calls = count_list calls (op, i, True)"

lemma wins_simps [simp]:
  "wins op i [] = 0"
  "wins op i (calls @ [c]) = wins op i calls + (if c = (op, i, True) then 1 else 0)"
  by (simp_all add: wins_def)

lemma wins_pos: "0 < wins op i calls \<longleftrightarrow> (op, i, True) \<in> set calls"
  by (simp add: wins_def count_list_0_iff flip: neq0_conv)

text \<open>A finalizer is executed by a runner whose plan has it, after all that it depends on has succeeded.\<close>

definition in_order :: "('r, 's, 'w) runner set \<Rightarrow> finalizer_calls \<Rightarrow> bool" where
  "in_order rns calls \<longleftrightarrow>
     (\<forall>before op i ok after. calls = before @ (op, i, ok) # after \<longrightarrow>
        (\<exists>rn \<in> rns. \<exists>f \<in> set (rn_plan rn).
           fz_id f = i \<and> (\<forall>d \<in> set (dependencies f). (op, d, True) \<in> set before)))"

lemma in_order_Nil: "in_order rns []"
  by (simp add: in_order_def)

lemma in_order_snoc:
  assumes "in_order rns calls" and "rn \<in> rns" and "f \<in> set (rn_plan rn)"
    and "\<forall>d \<in> set (dependencies f). (op, d, True) \<in> set calls"
  shows "in_order rns (calls @ [(op, fz_id f, ok)])"
  unfolding in_order_def
proof (intro allI impI)
  fix before op' i ok' after
  assume "calls @ [(op, fz_id f, ok)] = before @ (op', i, ok') # after"
  then show "\<exists>rn \<in> rns. \<exists>g \<in> set (rn_plan rn). fz_id g = i \<and> (\<forall>d \<in> set (dependencies g). (op', d, True) \<in> set before)"
  proof (elim snoc_split)
    fix rest assume "calls = before @ (op', i, ok') # rest"
    with assms(1) show ?thesis unfolding in_order_def by blast
  qed (use assms(2-4) in auto)
qed

section \<open>Records that tell the truth\<close>

definition done_in :: "'r finalization_record \<Rightarrow> string \<Rightarrow> bool" where
  "done_in r i \<longleftrightarrow> (\<exists>step \<in> set (fr_steps r). fs_id step = i \<and> fs_status step = FinCompleted)"

text \<open>
  A record of the plan of a runner: what it says is completed has succeeded, and every finalizer
  succeeded at most \<open>n\<close> times more than it says.
\<close>

definition record_ok ::
  "('r, 's, 'w) runner set \<Rightarrow> nat \<Rightarrow> finalizer_calls \<Rightarrow> 'r finalization_record \<Rightarrow> bool" where
  "record_ok rns n calls r \<longleftrightarrow>
     (\<exists>rn \<in> rns. fr_planVersion r = rn_planVersion rn \<and> map fs_id (fr_steps r) = map fz_id (rn_plan rn)) \<and>
     (\<forall>i. (done_in r i \<longrightarrow> (fr_operationId r, i, True) \<in> set calls) \<and>
        wins (fr_operationId r) i calls \<le> n + (if done_in r i then 1 else 0))"

fun told_ok ::
  "('r, 's, 'w) runner set \<Rightarrow> nat \<Rightarrow> finalizer_calls \<Rightarrow> string \<Rightarrow> 'r finalization_record option \<Rightarrow> bool" where
  "told_ok rns n calls op None \<longleftrightarrow> (\<forall>i. wins op i calls \<le> n)"
| "told_ok rns n calls op (Some r) \<longleftrightarrow> fr_operationId r = op \<and> record_ok rns n calls r"

lemma record_ok_mono: "record_ok rns n calls r \<Longrightarrow> n \<le> m \<Longrightarrow> record_ok rns m calls r"
  unfolding record_ok_def by (meson add_le_mono1 order_trans)

lemma told_ok_mono: "told_ok rns n calls op x \<Longrightarrow> n \<le> m \<Longrightarrow> told_ok rns m calls op x"
  by (cases x) (auto intro: record_ok_mono order_trans)

lemma record_ok_updated [simp]:
  "record_ok rns n c (r\<lparr>fr_updatedAt := t\<rparr>) = record_ok rns n c r"
  "record_ok rns n c (r\<lparr>fr_status := st\<rparr>) = record_ok rns n c r"
  "record_ok rns n c (r\<lparr>fr_recoveryContext := x\<rparr>) = record_ok rns n c r"
  by (simp_all add: record_ok_def done_in_def)

lemma record_ok_other:
  "op \<noteq> fr_operationId r \<or> \<not> ok \<Longrightarrow> record_ok rns n (calls @ [(op, i, ok)]) r = record_ok rns n calls r"
  by (auto simp: record_ok_def)

lemma told_ok_other:
  "op' \<noteq> op \<or> \<not> ok \<Longrightarrow> told_ok rns n (calls @ [(op', i, ok)]) op x = told_ok rns n calls op x"
  by (cases x) (auto simp: record_ok_other)

lemma told_ok_more:
  assumes "told_ok rns n calls op x"
  shows "told_ok rns (Suc n) (calls @ [(op, i, True)]) op x"
proof (cases x)
  case None
  then show ?thesis using assms by (simp add: le_SucI)
next
  case (Some r)
  then have r: "fr_operationId r = op" "record_ok rns n calls r" using assms by simp_all
  then have all: "wins op j calls \<le> n + (if done_in r j then 1 else 0)" for j
    unfolding record_ok_def by blast
  have "wins op j (calls @ [(op, i, True)]) \<le> Suc n + (if done_in r j then 1 else 0)" for j
    using all [of j] by simp
  then show ?thesis using r Some by (auto simp: record_ok_def simp del: wins_simps)
qed

lemma done_in_change:
  assumes "\<And>s. fs_id (f s) = fs_id s"
  shows "done_in (change_step i f r) j \<longleftrightarrow>
    (\<exists>s \<in> set (fr_steps r). fs_id s = j \<and> fs_status (if fs_id s = i then f s else s) = FinCompleted)"
proof -
  let ?g = "\<lambda>s. if fs_id s = i then f s else s"
  have steps: "set (fr_steps (change_step i f r)) = ?g ` set (fr_steps r)" by (simp add: change_step_def)
  have "fs_id (?g s) = fs_id s" for s using assms by simp
  then show ?thesis unfolding done_in_def steps by (simp only: bex_simps)
qed

text \<open>A step that was not completed and still is not.\<close>

lemma record_ok_change:
  assumes "record_ok rns n calls r" and "\<not> done_in r i"
    and "\<And>s. fs_id (f s) = fs_id s" and "\<And>s. fs_status (f s) \<noteq> FinCompleted"
  shows "record_ok rns n calls (change_step i f r)"
proof -
  have "done_in (change_step i f r) j = done_in r j" for j
    using assms(2-4) by (auto simp: done_in_change [OF assms(3)]) (auto simp: done_in_def)
  then show ?thesis
    using assms(1) change_step_ids [of f i r, OF assms(3)] by (simp add: record_ok_def) (simp add: change_step_def)
qed

text \<open>A step that has just succeeded.\<close>

lemma record_ok_success:
  assumes "record_ok rns n calls r" and "\<not> done_in r i" and "i \<in> fs_id ` set (fr_steps r)"
    and "\<And>s. fs_id (f s) = fs_id s" and "\<And>s. fs_status (f s) = FinCompleted"
  shows "record_ok rns n (calls @ [(fr_operationId r, i, True)]) (change_step i f r)"
proof -
  have eq: "fs_status (if fs_id s = i then f s else s) = FinCompleted \<longleftrightarrow> fs_id s = i \<or> fs_status s = FinCompleted" for s
    using assms(5) by simp
  have all: "done_in (change_step i f r) j \<longleftrightarrow> j = i \<or> done_in r j" for j
    unfolding done_in_change [OF assms(4)] eq using assms(3) by (auto simp: done_in_def)
  have bound: "done_in r j \<longrightarrow> (fr_operationId r, j, True) \<in> set calls"
    "wins (fr_operationId r) j calls \<le> n + (if done_in r j then 1 else 0)" for j
    using assms(1) unfolding record_ok_def by blast+
  have "wins (fr_operationId r) j (calls @ [(fr_operationId r, i, True)]) \<le> n + (if j = i \<or> done_in r j then 1 else 0)" for j
    using bound(2) [of j] assms(2) by (cases "j = i") simp_all
  moreover have "fr_planVersion (change_step i f r) = fr_planVersion r" by (simp add: change_step_def)
  ultimately show ?thesis
    using assms(1) bound(1) change_step_ids [of f i r, OF assms(4)]
    by (auto simp: record_ok_def all simp del: wins_simps)
qed

section \<open>The methods\<close>

text \<open>Runners of the same version have the same finalizers.\<close>

definition same_ids :: "('r, 's, 'w) runner set \<Rightarrow> bool" where
  "same_ids rns \<longleftrightarrow>
     (\<forall>a \<in> rns. \<forall>b \<in> rns. rn_planVersion a = rn_planVersion b \<longrightarrow> map fz_id (rn_plan a) = map fz_id (rn_plan b))"

lemma record_ok_ids:
  "record_ok rns n calls r \<Longrightarrow> same_ids rns \<Longrightarrow> rn \<in> rns \<Longrightarrow> fr_planVersion r = rn_planVersion rn \<Longrightarrow>
   map fs_id (fr_steps r) = map fz_id (rn_plan rn)"
  unfolding record_ok_def same_ids_def by metis

context durable_store
begin

definition durable :: "('r, 's, 'w) runner set \<Rightarrow> ('s, 'w) run_state \<Rightarrow> bool" where
  "durable rns s \<longleftrightarrow>
     in_order rns (rs_calls s) \<and>
     (\<forall>op. told_ok rns (lost (rs_store s)) (rs_calls s) op (stored (rs_store s) op))"

text \<open>The record in hand is as good as the stored ones.\<close>

definition in_hand :: "('r, 's, 'w) runner set \<Rightarrow> 'r finalization_record \<Rightarrow> ('s, 'w) run_state \<Rightarrow> bool" where
  "in_hand rns r s \<longleftrightarrow> durable rns s \<and> record_ok rns (lost (rs_store s)) (rs_calls s) r"

text \<open>What a call leaves of the records of other operations, and that it executed only finalizers of its own.\<close>

definition apart :: "string \<Rightarrow> ('s, 'w) run_state \<Rightarrow> ('s, 'w) run_state \<Rightarrow> bool" where
  "apart op s t \<longleftrightarrow>
     (\<forall>i. i \<noteq> op \<longrightarrow> stored (rs_store t) i = stored (rs_store s) i) \<and>
     (\<exists>k. rs_calls t = rs_calls s @ k \<and> (\<forall>c \<in> set k. fst c = op))"

lemma apart_refl: "apart op s s"
  by (simp add: apart_def)

lemma apart_trans: "apart op s t \<Longrightarrow> apart op t u \<Longrightarrow> apart op s u"
  by (auto simp: apart_def)

text \<open>Saving, also right after a success that the stored record does not know of yet.\<close>

lemma save_durable:
  assumes rn: "rn_store rn = st" and calls: "in_order rns (rs_calls s)"
    and others: "\<And>op. op \<noteq> fr_operationId r \<Longrightarrow>
      told_ok rns (lost (rs_store s)) (rs_calls s) op (stored (rs_store s) op)"
    and own: "told_ok rns (Suc (lost (rs_store s))) (rs_calls s) (fr_operationId r)
      (stored (rs_store s) (fr_operationId r))"
    and r: "record_ok rns (lost (rs_store s)) (rs_calls s) r"
  shows "wp (save_record rn r)
    (\<lambda>r' t. in_hand rns r' t \<and> stored (rs_store t) (fr_operationId r) = Some r' \<and>
       (\<exists>now. r' = r\<lparr>fr_updatedAt := now\<rparr>) \<and> rs_calls t = rs_calls s \<and> lost (rs_store t) = lost (rs_store s) \<and>
       apart (fr_operationId r) s t)
    (\<lambda>_ t. durable rns t \<and> rs_calls t = rs_calls s \<and> lost (rs_store t) = Suc (lost (rs_store s)) \<and>
       apart (fr_operationId r) s t) s"
proof -
  define r' where "r' = r\<lparr>fr_updatedAt := rn_now rn (rs_tick s)\<rparr>"
  have op: "fr_operationId r' = fr_operationId r" and ok: "record_ok rns (lost (rs_store s)) (rs_calls s) r'"
    using r by (simp_all add: r'_def)
  obtain x s' where save: "so_save st r' (rs_store s) = (x, s')" by fastforce
  let ?t = "s\<lparr>rs_tick := Suc (rs_tick s), rs_store := s'\<rparr>"
  have run: "save_record rn r s = (case x of Inl e \<Rightarrow> (Inl e, ?t) | Inr _ \<Rightarrow> (Inr r', ?t))"
    using save rn
    by (simp add: save_record_def seq_def read_clock_def store_record_def ret_def r'_def split: sum.splits)
  show ?thesis
  proof (cases x)
    case (Inr u)
    then have k: "stored s' = (stored (rs_store s))(fr_operationId r \<mapsto> r')" "lost s' = lost (rs_store s)"
      using kept [of r' "rs_store s" s'] save op by auto
    have "in_hand rns r' ?t" using calls others ok k op by (simp add: in_hand_def durable_def)
    then show ?thesis using run Inr k by (auto simp: wp_def r'_def apart_def)
  next
    case (Inl e)
    then have k: "stored s' = stored (rs_store s) \<or> stored s' = (stored (rs_store s))(fr_operationId r \<mapsto> r')"
      "lost s' = Suc (lost (rs_store s))"
      using threw [of r' "rs_store s" e s'] save op by auto
    have "told_ok rns (Suc (lost (rs_store s))) (rs_calls s) i (stored (rs_store s) i)" for i
      using told_ok_mono [OF others le_SucI [OF order_refl]] own by (cases "i = fr_operationId r") auto
    moreover have "record_ok rns (Suc (lost (rs_store s))) (rs_calls s) r'"
      by (rule record_ok_mono [OF ok]) simp
    ultimately have "durable rns ?t" using calls k op by (auto simp: durable_def)
    then show ?thesis using run Inl k by (auto simp: wp_def apart_def)
  qed
qed

lemma save_in_hand:
  assumes "rn_store rn = st" and "in_hand rns r s"
  shows "wp (save_record rn r)
    (\<lambda>r' t. in_hand rns r' t \<and> stored (rs_store t) (fr_operationId r) = Some r' \<and>
       (\<exists>now. r' = r\<lparr>fr_updatedAt := now\<rparr>) \<and> rs_calls t = rs_calls s \<and> lost (rs_store t) = lost (rs_store s) \<and>
       apart (fr_operationId r) s t)
    (\<lambda>_ t. durable rns t \<and> rs_calls t = rs_calls s \<and> lost (rs_store t) = Suc (lost (rs_store s)) \<and>
       apart (fr_operationId r) s t) s"
  by (rule save_durable)
    (use assms in \<open>auto simp: in_hand_def durable_def intro: told_ok_mono [OF _ le_SucI [OF order_refl]]\<close>)

text \<open>After a failure, be it of the finalizer or of the save of its success.\<close>

lemma record_failure:
  assumes rn: "rn_store rn = st" and r: "in_hand rns r s" and new: "\<not> done_in r i"
  shows "wp (seq (replaceStep rn r i (\<lambda>s. s\<lparr>fs_status := FinFailed, fs_lastError := Some e'\<rparr>)) (\<lambda>r'.
        seq (save_record rn (r'\<lparr>fr_status := FinFailed\<rparr>)) (\<lambda>_. raise e)))
      (\<lambda>_ _. False) (\<lambda>_ t. durable rns t \<and> apart (fr_operationId r) s t) s"
proof -
  let ?fail = "\<lambda>s. s\<lparr>fs_status := FinFailed, fs_lastError := Some e'\<rparr>"
  have first: "in_hand rns (change_step i ?fail r) s"
    using r new by (auto simp: in_hand_def intro!: record_ok_change)
  show ?thesis
    unfolding replaceStep_def
  proof (rule wp_then [OF save_in_hand [OF rn first]], elim conjE exE)
    fix r' t now
    assume t: "in_hand rns r' t" "r' = (change_step i ?fail r)\<lparr>fr_updatedAt := now\<rparr>"
      "apart (fr_operationId (change_step i ?fail r)) s t"
    then have again: "in_hand rns (r'\<lparr>fr_status := FinFailed\<rparr>) t" by (simp add: in_hand_def)
    show "wp (seq (save_record rn (r'\<lparr>fr_status := FinFailed\<rparr>)) (\<lambda>_. raise e))
        (\<lambda>_ _. False) (\<lambda>_ t. durable rns t \<and> apart (fr_operationId r) s t) t"
      by (rule wp_then [OF save_in_hand [OF rn again]])
        (use t in \<open>auto simp: wp_raise in_hand_def intro: apart_trans\<close>)
  qed simp
qed

lemma attempt_durable:
  assumes rn: "rn_store rn = st" "rn \<in> rns" and f: "f \<in> set (rn_plan rn)"
    and r: "in_hand rns r s" and new: "\<not> done_in r (fz_id f)" and step: "fz_id f \<in> fs_id ` set (fr_steps r)"
    and deps: "\<forall>d \<in> set (dependencies f). (fr_operationId r, d, True) \<in> set (rs_calls s)"
  shows "wp (attempt_step rn ctx f r)
    (\<lambda>r' t. in_hand rns r' t \<and> stored (rs_store t) (fr_operationId r) = Some r' \<and>
       fr_operationId r' = fr_operationId r \<and> fr_planVersion r' = fr_planVersion r \<and>
       (fr_operationId r, fz_id f, True) \<in> set (rs_calls t) \<and> apart (fr_operationId r) s t)
    (\<lambda>_ t. durable rns t \<and> apart (fr_operationId r) s t) s"
proof -
  obtain x w where x: "fz_execute f ctx (rs_world s) = (x, w)" by fastforce
  let ?op = "fr_operationId r"
  let ?t = "s\<lparr>rs_world := w, rs_calls := rs_calls s @ [(?op, fz_id f, \<not> isl x)]\<rparr>"
  let ?done = "\<lambda>s. s\<lparr>fs_status := FinCompleted\<rparr>"
  have call: "wp (call_finalizer f ?op ctx) P Q s = (case x of Inl e \<Rightarrow> Q e ?t | Inr u \<Rightarrow> P u ?t)" for P Q
    by (simp add: wp_def call_finalizer_def x split: sum.splits)
  have order: "in_order rns (rs_calls ?t)"
    using in_order_snoc [OF _ rn(2) f deps] r by (simp add: in_hand_def durable_def)
  have to_t: "apart ?op s ?t" by (simp add: apart_def)
  show ?thesis
  proof (cases x)
    case (Inl e)
    have "in_hand rns r ?t"
      using r order Inl by (simp add: in_hand_def durable_def told_ok_other record_ok_other)
    note failure = record_failure [OF rn(1) this new, of "safeError e" e]
    have "wp (seq (replaceStep rn r (fz_id f) (\<lambda>s. s\<lparr>fs_status := FinFailed, fs_lastError := Some (safeError e)\<rparr>)) (\<lambda>r'.
        seq (save_record rn (r'\<lparr>fr_status := FinFailed\<rparr>)) (\<lambda>_. raise e)))
      Q (\<lambda>_ t. durable rns t \<and> apart ?op s t) ?t" for Q
      by (rule wp_weaken [OF failure]) (auto intro: apart_trans [OF to_t])
    then show ?thesis
      using Inl by (simp add: attempt_step_def wp_handle wp_seq [of "call_finalizer _ _ _"] call)
  next
    case (Inr u)
    have others: "told_ok rns (lost (rs_store ?t)) (rs_calls ?t) op (stored (rs_store ?t) op)" if "op \<noteq> ?op" for op
      using r that by (simp add: in_hand_def durable_def told_ok_other)
    have own: "told_ok rns (Suc (lost (rs_store ?t))) (rs_calls ?t) ?op (stored (rs_store ?t) ?op)"
      using r Inr by (auto simp: in_hand_def durable_def intro: told_ok_more)
    have good: "record_ok rns (lost (rs_store ?t)) (rs_calls ?t) (change_step (fz_id f) ?done r)"
      using record_ok_success [of rns "lost (rs_store s)" "rs_calls s" r "fz_id f" ?done] r new step Inr
      by (simp add: in_hand_def)
    have "told_ok rns (Suc (lost (rs_store s))) (rs_calls ?t) ?op (Some r)"
      using r Inr told_ok_more [of rns "lost (rs_store s)" "rs_calls s" ?op "Some r"] by (simp add: in_hand_def)
    then have late: "in_hand rns r v" if "durable rns v" "rs_calls v = rs_calls ?t"
        "lost (rs_store v) = Suc (lost (rs_store ?t))" for v
      using that by (simp add: in_hand_def)
    have "wp (replaceStep rn r (fz_id f) ?done)
        (\<lambda>r' t. in_hand rns r' t \<and> stored (rs_store t) ?op = Some r' \<and> fr_operationId r' = ?op \<and>
           fr_planVersion r' = fr_planVersion r \<and> (?op, fz_id f, True) \<in> set (rs_calls t) \<and> apart ?op s t)
        (\<lambda>e t. in_hand rns r t \<and> apart ?op s t) ?t"
      unfolding replaceStep_def
      by (rule wp_weaken [OF save_durable [OF rn(1) order, of "change_step (fz_id f) ?done r"]])
        (use others own good Inr late in \<open>auto simp: change_step_def intro: apart_trans [OF to_t]\<close>)
    then show ?thesis
      unfolding attempt_step_def wp_handle wp_seq [of "call_finalizer _ _ _"] call Inr sum.case
      by (rule wp_weaken) (auto intro!: wp_weaken [OF record_failure [OF rn(1) _ new]] intro: apart_trans)
  qed
qed

end


section \<open>Runs\<close>

lemma find_step:
  assumes "map fs_id (fr_steps r) = map fz_id plan" and "distinct (map fz_id plan)" and "f \<in> set plan"
  obtains step where "find (\<lambda>s. fs_id s = fz_id f) (fr_steps r) = Some step" and "step \<in> set (fr_steps r)"
    and "fs_id step = fz_id f" and "done_in r (fz_id f) \<longleftrightarrow> fs_status step = FinCompleted"
proof -
  have d: "distinct (map fs_id (fr_steps r))" using assms(1,2) by simp
  have "fs_id ` set (fr_steps r) = fz_id ` set plan" using assms(1) by (metis list.set_map)
  then have "fz_id f \<in> fs_id ` set (fr_steps r)" using assms(3) by simp
  then obtain step where found: "find (\<lambda>s. fs_id s = fz_id f) (fr_steps r) = Some step"
    by (cases "find (\<lambda>s. fs_id s = fz_id f) (fr_steps r)") (auto simp: find_None_iff)
  then have step: "step \<in> set (fr_steps r)" "fs_id step = fz_id f" by (auto simp: find_Some_iff)
  have "x = step" if "x \<in> set (fr_steps r)" "fs_id x = fz_id f" for x
    using inj_onD [of fs_id "set (fr_steps r)" x step] d that step by (simp add: distinct_map)
  then have "done_in r (fz_id f) \<longleftrightarrow> fs_status step = FinCompleted"
    unfolding done_in_def using step by blast
  then show ?thesis by (rule that [OF found step])
qed

context durable_store
begin

lemma run_steps_durable:
  assumes rn: "rn_store rn = st" "rn \<in> rns" "same_ids rns" "sound_plan (rn_plan rn)" "rn_plan rn = before @ fs"
    and r: "in_hand rns r s" "fr_planVersion r = rn_planVersion rn"
    and earlier: "\<forall>g \<in> set before. (fr_operationId r, fz_id g, True) \<in> set (rs_calls s)"
  shows "wp (run_steps rn ctx fs r)
    (\<lambda>r' t. in_hand rns r' t \<and> fr_operationId r' = fr_operationId r \<and> fr_planVersion r' = rn_planVersion rn \<and>
       (\<forall>g \<in> set (rn_plan rn). (fr_operationId r, fz_id g, True) \<in> set (rs_calls t)) \<and> apart (fr_operationId r) s t)
    (\<lambda>_ t. durable rns t \<and> apart (fr_operationId r) s t) s"
  using rn(5) r earlier
proof (induction fs arbitrary: before r s)
  case Nil
  then show ?case by (simp add: wp_ret apart_refl)
next
  case (Cons f fs)
  let ?op = "fr_operationId r"
  let ?Q = "\<lambda>r' t. in_hand rns r' t \<and> fr_operationId r' = ?op \<and> fr_planVersion r' = rn_planVersion rn \<and>
       (\<forall>g \<in> set (rn_plan rn). (?op, fz_id g, True) \<in> set (rs_calls t)) \<and> apart ?op s t"
  let ?R = "\<lambda>_ t. durable rns t \<and> apart ?op s t"
  have f: "f \<in> set (rn_plan rn)" using Cons.prems(1) by simp
  have "record_ok rns (lost (rs_store s)) (rs_calls s) r" using Cons.prems(2) by (simp add: in_hand_def)
  from record_ok_ids [OF this rn(3,2) Cons.prems(3)]
  have ids: "map fs_id (fr_steps r) = map fz_id (rn_plan rn)" .
  obtain step where step: "find (\<lambda>s. fs_id s = fz_id f) (fr_steps r) = Some step" "step \<in> set (fr_steps r)"
    "fs_id step = fz_id f" "done_in r (fz_id f) \<longleftrightarrow> fs_status step = FinCompleted"
    using find_step [OF ids _ f] rn(4) by (auto simp: sound_plan_def)
  have go_on: "wp (run_steps rn ctx fs r') ?Q ?R t"
    if t: "in_hand rns r' t" "fr_operationId r' = ?op" "fr_planVersion r' = rn_planVersion rn"
      "(?op, fz_id f, True) \<in> set (rs_calls t)" "apart ?op s t" for r' t
  proof (rule wp_weaken [OF Cons.IH [of "before @ [f]" r' t]])
    show "\<forall>g \<in> set (before @ [f]). (fr_operationId r', fz_id g, True) \<in> set (rs_calls t)"
      using Cons.prems(4) t by (auto simp: apart_def)
  qed (use Cons.prems(1) t in \<open>auto intro: apart_trans\<close>)
  show ?case
  proof (cases "fs_status step = FinCompleted")
    case True
    then have "(?op, fz_id f, True) \<in> set (rs_calls s)"
      using step(4) Cons.prems(2) unfolding in_hand_def record_ok_def by blast
    then show ?thesis using go_on [OF Cons.prems(2) refl Cons.prems(3) _ apart_refl] step True by simp
  next
    case False
    let ?run = "\<lambda>s. s\<lparr>fs_status := FinRunning, fs_attempts := Suc (fs_attempts step), fs_lastError := None\<rparr>"
    have new: "\<not> done_in r (fz_id f)" using step(4) False by simp
    have deps: "\<forall>d \<in> set (dependencies f). (?op, d, True) \<in> set (rs_calls s)"
    proof -
      have "set (dependencies f) \<subseteq> fz_id ` set before"
        using rn(4) Cons.prems(1) by (simp add: sound_plan_def dependency_ordered_def)
      then show ?thesis using Cons.prems(4) by blast
    qed
    have started: "in_hand rns (change_step (fz_id f) ?run r) s"
      using Cons.prems(2) new by (auto simp: in_hand_def intro!: record_ok_change)
    have "map fs_id (fr_steps (change_step (fz_id f) ?run r)) = map fs_id (fr_steps r)"
      by (rule change_step_ids) simp
    then have "fs_id ` set (fr_steps (change_step (fz_id f) ?run r)) = fs_id ` set (fr_steps r)"
      by (metis list.set_map)
    moreover have "fz_id f \<in> fs_id ` set (fr_steps r)" using step(2,3) by force
    ultimately have still: "fz_id f \<in> fs_id ` set (fr_steps ((change_step (fz_id f) ?run r)\<lparr>fr_updatedAt := now\<rparr>))"
      "\<not> done_in ((change_step (fz_id f) ?run r)\<lparr>fr_updatedAt := now\<rparr>) (fz_id f)" for now
      by simp_all (auto simp: done_in_def change_step_def)
    have "wp (seq (replaceStep rn r (fz_id f) ?run) (\<lambda>r1. seq (attempt_step rn ctx f r1) (\<lambda>r2. run_steps rn ctx fs r2)))
      ?Q ?R s"
      unfolding replaceStep_def
    proof (rule wp_then [OF save_in_hand [OF rn(1) started]], elim conjE exE)
      fix r1 t now
      assume t: "in_hand rns r1 t" "r1 = (change_step (fz_id f) ?run r)\<lparr>fr_updatedAt := now\<rparr>"
        "rs_calls t = rs_calls s" "apart (fr_operationId (change_step (fz_id f) ?run r)) s t"
      have same: "fr_operationId r1 = ?op" "fr_planVersion r1 = rn_planVersion rn"
        using t(2) Cons.prems(3) by (simp_all add: change_step_def)
      have "\<forall>d \<in> set (dependencies f). (fr_operationId r1, d, True) \<in> set (rs_calls t)"
        using deps t(3) same(1) by simp
      from attempt_durable [OF rn(1,2) f t(1) still(2,1) [of now, folded t(2)] this, of ctx]
      show "wp (seq (attempt_step rn ctx f r1) (\<lambda>r2. run_steps rn ctx fs r2)) ?Q ?R t"
        by (rule wp_then)
          (use same t(4) in \<open>auto intro!: go_on intro: apart_trans\<close>)
    qed simp
    with step(1) False show ?thesis by simp
  qed
qed

text \<open>A finalization that has ended: its record is stored as completed and every finalizer has succeeded.\<close>

definition finished ::
  "('r, 's, 'w) runner set \<Rightarrow> ('r, 's, 'w) runner \<Rightarrow> string \<Rightarrow> ('s, 'w) run_state \<Rightarrow> 'r finalization_record
     \<Rightarrow> ('s, 'w) run_state \<Rightarrow> bool" where
  "finished rns rn op s r t \<longleftrightarrow>
     durable rns t \<and> stored (rs_store t) op = Some r \<and> fr_status r = FinCompleted \<and>
     (\<forall>g \<in> set (rn_plan rn). (op, fz_id g, True) \<in> set (rs_calls t)) \<and> apart op s t"

lemma execute_durable:
  assumes rn: "rn_store rn = st" "rn \<in> rns" "same_ids rns" "sound_plan (rn_plan rn)"
    and r: "in_hand rns r s" "fr_planVersion r = rn_planVersion rn"
  shows "wp (execute_record rn r ctx) (finished rns rn (fr_operationId r) s)
    (\<lambda>_ t. durable rns t \<and> apart (fr_operationId r) s t) s"
proof -
  let ?op = "fr_operationId r"
  have start: "in_hand rns (r\<lparr>fr_status := FinRunning\<rparr>) s" using r(1) by (simp add: in_hand_def)
  show ?thesis
    unfolding execute_record_def
  proof (rule wp_then [OF save_in_hand [OF rn(1) start]], elim conjE exE)
    fix r1 t now
    assume t: "in_hand rns r1 t" "r1 = r\<lparr>fr_status := FinRunning, fr_updatedAt := now\<rparr>"
      "apart (fr_operationId (r\<lparr>fr_status := FinRunning\<rparr>)) s t"
    then have same: "fr_operationId r1 = ?op" "fr_planVersion r1 = rn_planVersion rn" using r(2) by simp_all
    have final_save: "wp (save_record rn (r2\<lparr>fr_status := FinCompleted\<rparr>)) (finished rns rn ?op s)
        (\<lambda>_ v. durable rns v \<and> apart ?op s v) u"
      if u: "in_hand rns r2 u" "fr_operationId r2 = ?op" "apart ?op s u"
        "\<forall>g \<in> set (rn_plan rn). (?op, fz_id g, True) \<in> set (rs_calls u)" for r2 u
    proof (rule wp_weaken [OF save_in_hand [OF rn(1)]])
      show "in_hand rns (r2\<lparr>fr_status := FinCompleted\<rparr>) u" using u(1) by (simp add: in_hand_def)
    qed (use u in \<open>auto simp: finished_def in_hand_def intro: apart_trans\<close>)
    show "wp (seq (run_steps rn ctx (rn_plan rn) r1) (\<lambda>r2. save_record rn (r2\<lparr>fr_status := FinCompleted\<rparr>)))
        (finished rns rn ?op s) (\<lambda>_ v. durable rns v \<and> apart ?op s v) t"
      by (rule wp_then [OF run_steps_durable [OF rn, of "[]"]])
        (use t same in \<open>auto intro!: final_save intro: apart_trans\<close>)
  qed simp
qed

lemma load_found:
  "rn_store rn = st \<Longrightarrow>
   (\<And>e. R e s) \<Longrightarrow> P (stored (rs_store s) i) s \<Longrightarrow> wp (load_record rn i) P R s"
  using loaded by (auto simp: wp_def load_record_def split: sum.split)

lemma told_in_hand:
  assumes "durable rns s" and "stored (rs_store s) op = Some r"
  shows "in_hand rns r s" "fr_operationId r = op"
proof -
  have "told_ok rns (lost (rs_store s)) (rs_calls s) op (stored (rs_store s) op)"
    using assms(1) by (simp add: durable_def)
  with assms show "in_hand rns r s" "fr_operationId r = op" by (simp_all add: in_hand_def)
qed

lemma new_in_hand:
  assumes "durable rns s" and "stored (rs_store s) op = None" and "rn \<in> rns"
  shows "wp (newRecord rn op)
    (\<lambda>r t. in_hand rns r t \<and> fr_operationId r = op \<and> fr_planVersion r = rn_planVersion rn \<and> apart op s t) (\<lambda>_ _. False) s"
proof -
  have told: "told_ok rns (lost (rs_store s)) (rs_calls s) op (stored (rs_store s) op)"
    using assms(1) by (simp add: durable_def)
  have "durable rns (s\<lparr>rs_tick := n\<rparr>)" for n using assms(1) by (simp add: durable_def)
  then show ?thesis
    using told assms(2,3)
    by (auto simp: wp_def newRecord_def seq_def read_clock_def ret_def in_hand_def record_ok_def done_in_def comp_def apart_def
        intro!: bexI [of _ rn])
qed

lemma run_durable:
  assumes rn: "rn_store rn = st" "rn \<in> rns" "same_ids rns" "sound_plan (rn_plan rn)" and s: "durable rns s"
  shows "wp (run_finalization rn ctx) (finished rns rn (fc_operationId ctx) s)
    (\<lambda>_ t. durable rns t \<and> apart (fc_operationId ctx) s t) s"
proof -
  let ?op = "fc_operationId ctx"
  let ?Q = "finished rns rn ?op s" and ?R = "\<lambda>_ t. durable rns t \<and> apart ?op s t"
  have execute: "wp (execute_record rn r ctx) ?Q ?R t"
    if "in_hand rns r t" "fr_operationId r = ?op" "fr_planVersion r = rn_planVersion rn" "apart ?op s t" for r t
    by (rule wp_weaken [OF execute_durable [OF rn that(1,3)]])
      (use that in \<open>auto simp: finished_def intro: apart_trans\<close>)
  have rest: "wp (seq (assertCompatible rn r) (\<lambda>_. seq (add_recovery rn ctx r) (\<lambda>r. execute_record rn r ctx))) ?Q ?R t"
    if r: "in_hand rns r t" "fr_operationId r = ?op" "apart ?op s t" for r t
  proof (cases "fr_planVersion r = rn_planVersion rn")
    case False
    then show ?thesis
      using r by (simp add: assertCompatible_def wp_seq [of "require _ _"] wp_require in_hand_def)
  next
    case True
    have "wp (seq (save_record rn (r\<lparr>fr_recoveryContext := c\<rparr>)) (\<lambda>r. execute_record rn r ctx)) ?Q ?R t" for c
    proof (rule wp_then [OF save_in_hand [OF rn(1)]])
      show "in_hand rns (r\<lparr>fr_recoveryContext := c\<rparr>) t" using r(1) by (simp add: in_hand_def)
    qed (use True r in \<open>auto intro!: execute intro: apart_trans\<close>)
    moreover have "wp (execute_record rn r ctx) ?Q ?R t" using True r by (intro execute)
    ultimately show ?thesis
      using True by (simp add: assertCompatible_def wp_seq [of "require _ _"] wp_require add_recovery_def wp_seq [of "ret _"] wp_ret
          split: option.split)
  qed
  show ?thesis
    unfolding run_finalization_def wp_seq [of "load_record _ _"]
  proof (rule load_found [OF rn(1)])
    show "wp (seq (case stored (rs_store s) ?op of Some r \<Rightarrow> ret r | None \<Rightarrow> newRecord rn ?op)
        (\<lambda>r. seq (assertCompatible rn r) (\<lambda>_. seq (add_recovery rn ctx r) (\<lambda>r. execute_record rn r ctx)))) ?Q ?R s"
    proof (cases "stored (rs_store s) ?op")
      case None
      then show ?thesis by (auto intro!: wp_then [OF new_in_hand [OF s None rn(2)]] rest)
    next
      case (Some r)
      then show ?thesis
        using told_in_hand [OF s Some] by (simp add: wp_seq [of "ret _"] wp_ret rest apart_refl)
    qed
  qed (use s in \<open>simp add: apart_refl\<close>)
qed

lemma resume_durable:
  assumes rn: "rn_store rn = st" "rn \<in> rns" "same_ids rns" "sound_plan (rn_plan rn)" and s: "durable rns s"
    and known: "stored (rs_store s) (fr_operationId r) \<noteq> None"
  shows "wp (resume_finalization rn r)
    (\<lambda>r' t. finished rns rn (fr_operationId r) s r' t \<and> fr_planVersion r = rn_planVersion rn)
    (\<lambda>_ t. durable rns t \<and> apart (fr_operationId r) s t) s"
proof -
  obtain latest where latest: "stored (rs_store s) (fr_operationId r) = Some latest" using known by auto
  note hand = told_in_hand [OF s latest]
  have run: "wp (execute_record rn latest ctx) (finished rns rn (fr_operationId r) s)
      (\<lambda>_ t. durable rns t \<and> apart (fr_operationId r) s t) s" if "fr_planVersion latest = rn_planVersion rn" for ctx
    using execute_durable [OF rn hand(1) that] hand(2) by simp
  show ?thesis
    unfolding resume_finalization_def assertCompatible_def
    by (auto simp: wp_seq [of "require _ _"] wp_require wp_seq [of "load_record _ _"] Let_def latest s apart_refl wp_raise
        intro!: load_found [OF rn(1)] wp_weaken [OF run] split: option.split)
qed

end


section \<open>Any number of runs, with failures\<close>

text \<open>
  The runners that share a store over time: each built from a registry, on the SQL store, those of
  the same version with the same finalizers.
\<close>

definition deployed :: "('r, 'r sql_database, 'w) runner set \<Rightarrow> bool" where
  "deployed rns \<longleftrightarrow>
     (\<forall>rn \<in> rns. \<exists>fs reg now project. register_all register_finalizer fs new_registry = Inr reg \<and>
        fst (new_runner reg sql_store now project) = Inr rn) \<and>
     same_ids rns"

lemma deployed_runner:
  "deployed rns \<Longrightarrow> rn \<in> rns \<Longrightarrow> rn_store rn = sql_store \<and> sound_plan (rn_plan rn)"
  unfolding deployed_def using built_runner(1,2) by blast

text \<open>
  From an empty table, one run or resumption after another, by any of the runners; in between the
  world changes as it likes, and so does what the connection answers from then on. A process that
  stops is a connection that refuses all it is asked until the next run.
\<close>

inductive served ::
  "('r, 'r sql_database, 'w) runner set \<Rightarrow> ('r sql_database, 'w) run_state \<Rightarrow> bool" for rns where
  start: "rs_store s = empty_database \<Longrightarrow> rs_calls s = [] \<Longrightarrow> served rns s"
| run: "served rns s \<Longrightarrow> rn \<in> rns \<Longrightarrow> served rns (snd (run_finalization rn ctx s))"
| resume: "served rns s \<Longrightarrow> rn \<in> rns \<Longrightarrow> sql_stored (rs_store s) (fr_operationId r) \<noteq> None \<Longrightarrow>
     served rns (snd (resume_finalization rn r s))"
| world: "served rns s \<Longrightarrow> served rns (s\<lparr>rs_world := w\<rparr>)"
| connection: "served rns s \<Longrightarrow> served rns (s\<lparr>rs_store := (rs_store s)\<lparr>db_reads := q, db_writes := ws\<rparr>\<rparr>)"

lemma served_durable:
  assumes "served rns s" and "deployed rns"
  shows "sql.durable rns s"
  using assms(1)
proof (induction rule: served.induct)
  case (start s)
  then show ?case by (simp add: sql.durable_def in_order_Nil)
next
  case (run s rn ctx)
  note rn = deployed_runner [OF assms(2) run.hyps(2)]
  have "wp (run_finalization rn ctx) (\<lambda>_. sql.durable rns) (\<lambda>_. sql.durable rns) s"
    by (rule wp_weaken [OF sql.run_durable [OF _ run.hyps(2) _ _ run.IH]])
      (use rn assms(2) in \<open>auto simp: deployed_def sql.finished_def\<close>)
  then show ?case by (simp add: wp_always)
next
  case (resume s rn r)
  note rn = deployed_runner [OF assms(2) resume.hyps(2)]
  have "wp (resume_finalization rn r) (\<lambda>_. sql.durable rns) (\<lambda>_. sql.durable rns) s"
    by (rule wp_weaken [OF sql.resume_durable [OF _ resume.hyps(2) _ _ resume.IH resume.hyps(3)]])
      (use rn assms(2) in \<open>auto simp: deployed_def sql.finished_def\<close>)
  then show ?case by (simp add: wp_always)
next
  case (connection s ws q)
  have "sql_stored ((rs_store s)\<lparr>db_reads := q, db_writes := ws\<rparr>) = sql_stored (rs_store s)"
    by (simp add: sql_stored_def fun_eq_iff)
  with connection.IH show ?case by (simp add: sql.durable_def)
qed (simp add: sql.durable_def)

text \<open>
  C10. Over any number of runs and resumptions, one after the other, by any runners on the SQL store (those
  of the same version having the same finalizers) - with finalizers failing, statements refused or done
  without an answer, queries throwing, and the process stopping and starting again in between - a
  finalizer is executed only after all that it depends on, in the plan of the runner, have succeeded
  for the operation; and it succeeds at most once more than saves have thrown, so only once where
  none has.
\<close>

theorem finalizers_ordered_despite_failures:
  assumes "deployed rns" and "served rns s"
  shows "in_order rns (rs_calls s) \<and>
    (\<forall>op i. count_list (rs_calls s) (op, i, True) \<le> 1 + db_lost (rs_store s))"
proof -
  have s: "sql.durable rns s" by (rule served_durable [OF assms(2,1)])
  have "wins op i (rs_calls s) \<le> 1 + db_lost (rs_store s)" for op i
  proof (cases "sql_stored (rs_store s) op")
    case None
    have "told_ok rns (db_lost (rs_store s)) (rs_calls s) op (sql_stored (rs_store s) op)"
      using s by (simp add: sql.durable_def)
    then show ?thesis using None by (simp add: le_SucI)
  next
    case (Some r)
    from sql.told_in_hand [OF s this]
    have "wins op i (rs_calls s) \<le> db_lost (rs_store s) + (if done_in r i then 1 else 0)"
      unfolding sql.in_hand_def record_ok_def by blast
    then show ?thesis by (auto split: if_splits)
  qed
  with s show ?thesis by (simp add: sql.durable_def wins_def)
qed

text \<open>The save of a success is refused; the next run executes the finalizer again.\<close>

definition ex_sql_runner :: "(string, string sql_database, string list) runner" where
  "ex_sql_runner = projr (fst (new_runner ex_registry sql_store (\<lambda>_. ''now'') (Some (\<lambda>c. c))))"

definition ex_refusing :: "(string sql_database, string list) run_state" where
  "ex_refusing = \<lparr>rs_store = empty_database\<lparr>db_writes := [SqlDone, SqlDone, SqlDone, SqlRefused OtherThrown]\<rparr>,
     rs_world = [], rs_tick = 0, rs_calls = []\<rparr>"

definition ex_refused :: "(string sql_database, string list) run_state" where
  "ex_refused = snd (run_finalization ex_sql_runner ex_context ex_refusing)"

definition ex_repeated :: "(string sql_database, string list) run_state" where
  "ex_repeated = snd (run_finalization ex_sql_runner ex_context ex_refused)"

lemma ex_sql_runner_built: "fst (new_runner ex_registry sql_store (\<lambda>_. ''now'') (Some (\<lambda>c. c))) = Inr ex_sql_runner"
  unfolding ex_sql_runner_def by (rule projr_ok) code_simp

lemma ex_deployed: "deployed {ex_sql_runner}"
  unfolding deployed_def same_ids_def using ex_registry_built ex_sql_runner_built by blast

lemma ex_refused_served: "served {ex_sql_runner} ex_refused"
proof -
  have "served {ex_sql_runner} \<lparr>rs_store = empty_database, rs_world = [], rs_tick = 0, rs_calls = []\<rparr>"
    by (rule served.start) simp_all
  from served.connection [OF this, of "[SqlDone, SqlDone, SqlDone, SqlRefused OtherThrown]" None]
  have "served {ex_sql_runner} ex_refusing" by (simp add: ex_refusing_def empty_database_def)
  then show ?thesis unfolding ex_refused_def by (rule served.run) simp
qed

lemma ex_repeated_served: "served {ex_sql_runner} ex_repeated"
  unfolding ex_repeated_def by (rule served.run [OF ex_refused_served]) simp

theorem finalizers_ordered_despite_failures_witness:
  "count_list (rs_calls ex_repeated) (''op'', ''prompt'', True) = 2 \<and> db_lost (rs_store ex_repeated) = 1 \<and>
   in_order {ex_sql_runner} (rs_calls ex_repeated)"
proof (intro conjI)
  show "count_list (rs_calls ex_repeated) (''op'', ''prompt'', True) = 2"
    and "db_lost (rs_store ex_repeated) = 1" by code_simp+
  show "in_order {ex_sql_runner} (rs_calls ex_repeated)"
    using finalizers_ordered_despite_failures [OF ex_deployed ex_repeated_served] by (rule conjunct1)
qed

end
