(* ===== verification/Startup_Properties.thy ===== *)
theory Startup_Properties
  imports Transaction_Startup Finalization_Durable
begin

text \<open>
  The properties of the transaction start-up: when operations are admitted, and that a recovery
  that reports ready has completed every finalization left behind.
\<close>

section \<open>The table as it is kept\<close>

lemma sql_keeps: "saves_keep sql_store op (\<lambda>db. rows_ok db \<and> db_reads db = q)"
proof -
  have "db_reads (snd (sql_save r db)) = db_reads db" for r and db :: "'a sql_database"
    by (auto simp: sql_save_def lose_def next_statement_def upsert_def split: list.split sql_answer.split)
  then show ?thesis by (simp add: saves_keep_def sql_store_def rows_ok_save)
qed

lemma sql_keeps_rows: "saves_keep sql_store op rows_ok"
  by (simp add: saves_keep_def sql_store_def rows_ok_save)

lemma served_rows:
  assumes "served rns s" and "deployed rns"
  shows "rows_ok (rs_store s)"
  using assms(1)
proof (induction rule: served.induct)
  case (start s)
  then show ?case by (simp add: rows_ok_def empty_database_def)
next
  case (run s rn ctx)
  show ?case
    by (rule run_keeps [where kept = rows_ok, OF _ run.IH])
      (simp add: deployed_runner [OF assms(2) run.hyps(2)] sql_keeps_rows)
next
  case (resume s rn r)
  show ?case
    by (rule resume_keeps [where kept = rows_ok, OF _ resume.IH])
      (simp add: deployed_runner [OF assms(2) resume.hyps(2)] sql_keeps_rows)
qed (simp_all add: rows_ok_def)

section \<open>Recovery\<close>

lemma registered_recovery:
  assumes "register_all register_recovery runners reg = Inr recovery" and "lookup recovery v = Some rn"
    and "\<And>rn. lookup reg v = Some rn \<Longrightarrow> rn \<in> A"
  shows "rn \<in> A \<union> set runners"
  using assms
proof (induction runners arbitrary: reg A)
  case (Cons x runners)
  then obtain reg' where reg': "register_recovery x reg = Inr reg'" "register_all register_recovery runners reg' = Inr recovery"
    by (auto simp: rbind_eq_Inr)
  then have "lookup reg' = (lookup reg)(rn_planVersion x \<mapsto> x)"
    by (auto simp: register_recovery_def res_simps split: if_splits)
  then have "rn \<in> insert x A" if "lookup reg' v = Some rn" for rn
    using that Cons.prems(3) by (auto split: if_splits)
  from Cons.IH [OF reg'(2) Cons.prems(2) this] show ?case by auto
qed auto

context durable_store
begin

text \<open>The calls so far were of these operations, and of the records only theirs have changed.\<close>

definition apart_from :: "string set \<Rightarrow> ('s, 'w) run_state \<Rightarrow> ('s, 'w) run_state \<Rightarrow> bool" where
  "apart_from ops s t \<longleftrightarrow>
     (\<forall>i. i \<notin> ops \<longrightarrow> stored (rs_store t) i = stored (rs_store s) i) \<and>
     (\<exists>k. rs_calls t = rs_calls s @ k \<and> fst ` set k \<subseteq> ops)"

definition recovered ::
  "('r, 's, 'w) runner registry \<Rightarrow> 'r finalization_record \<Rightarrow> ('s, 'w) run_state \<Rightarrow> bool" where
  "recovered reg r t \<longleftrightarrow>
     (\<exists>rn l. lookup reg (fr_planVersion r) = Some rn \<and> stored (rs_store t) (fr_operationId r) = Some l \<and>
        fr_status l = FinCompleted \<and> (\<forall>f \<in> set (rn_plan rn). (fr_operationId r, fz_id f, True) \<in> set (rs_calls t)))"

lemma apart_from_one: "apart op s t \<Longrightarrow> apart_from ops t u \<Longrightarrow> apart_from (insert op ops) s u"
  unfolding apart_def apart_from_def by fastforce

lemma recovered_later:
  "recovered reg r t \<Longrightarrow> apart_from ops t u \<Longrightarrow> fr_operationId r \<notin> ops \<Longrightarrow> recovered reg r u"
  unfolding recovered_def apart_from_def by fastforce

lemma resume_all_durable:
  assumes reg: "\<And>v rn. lookup reg v = Some rn \<Longrightarrow> rn \<in> rns"
    and rns: "\<And>rn. rn \<in> rns \<Longrightarrow> rn_store rn = st \<and> sound_plan (rn_plan rn)" "same_ids rns"
    and s: "durable rns s" "\<forall>r \<in> set rs. stored (rs_store s) (fr_operationId r) \<noteq> None"
      "distinct (map fr_operationId rs)"
  shows "wp (resume_all reg rs)
    (\<lambda>res t. fst res = RecoveryReady \<longrightarrow>
       (\<forall>r \<in> set rs. recovered reg r t) \<and> apart_from (fr_operationId ` set rs) s t)
    (\<lambda>_ _. False) s"
  using s
proof (induction rs arbitrary: s)
  case Nil
  then show ?case by (simp add: wp_ret apart_from_def)
next
  case (Cons r rs)
  show ?case
  proof (cases "lookup reg (fr_planVersion r)")
    case None
    then show ?thesis by (simp add: wp_ret)
  next
    case (Some rn)
    note rn = rns(1) [OF reg [OF Some]] reg [OF Some]
    have known: "stored (rs_store s) (fr_operationId r) \<noteq> None" using Cons.prems(2) by simp
    have tried: "wp (handle (seq (resume_finalization rn r) (\<lambda>_. ret True)) (\<lambda>_. ret False))
      (\<lambda>ok t. ok \<longrightarrow> durable rns t \<and> recovered reg r t \<and> apart (fr_operationId r) s t) (\<lambda>_ _. False) s"
      unfolding wp_handle wp_seq wp_ret
      by (rule wp_weaken [OF resume_durable [OF _ rn(2) rns(2) _ Cons.prems(1) known]])
        (use rn(1) Some in \<open>auto simp: finished_def recovered_def\<close>)
    show ?thesis
      unfolding resume_all.simps Some option.case
    proof (rule wp_then [OF tried])
      fix ok t
      assume t: "ok \<longrightarrow> durable rns t \<and> recovered reg r t \<and> apart (fr_operationId r) s t"
      show "wp (if ok then resume_all reg rs else ret (RecoveryIntervention, Some ''finalization.recovery.failed''))
        (\<lambda>res u. fst res = RecoveryReady \<longrightarrow>
           (\<forall>r' \<in> set (r # rs). recovered reg r' u) \<and> apart_from (fr_operationId ` set (r # rs)) s u)
        (\<lambda>_ _. False) t"
      proof (cases ok)
        case True
        with t have t': "durable rns t" "recovered reg r t" "apart (fr_operationId r) s t" by simp_all
        have "\<forall>r' \<in> set rs. stored (rs_store t) (fr_operationId r') \<noteq> None"
        proof
          fix r' assume "r' \<in> set rs"
          then have "fr_operationId r' \<noteq> fr_operationId r" using Cons.prems(3) by (auto simp: image_iff)
          then show "stored (rs_store t) (fr_operationId r') \<noteq> None"
            using t'(3) Cons.prems(2) \<open>r' \<in> set rs\<close> by (simp add: apart_def)
        qed
        moreover have "distinct (map fr_operationId rs)" "fr_operationId r \<notin> fr_operationId ` set rs"
          using Cons.prems(3) by simp_all
        ultimately show ?thesis
          unfolding if_P [OF True] using t'
          by (intro wp_weaken [OF Cons.IH [of t]]) (auto intro: recovered_later apart_from_one)
      qed (simp add: wp_ret)
    qed simp
  qed
qed

end

text \<open>
  C36. When the recovery of finalizations reports ready - for the incomplete records the SQL store lists, in any
  state that runs, resumptions and failures have led to, with any of the runners registered - then for
  every record it was given its operation is stored as completed and every finalizer of the runner of
  its plan has succeeded for it; no other operation's record was changed and none of its finalizers
  executed; and the store lists no incomplete record any more.
\<close>

theorem recovery_completes_everything:
  assumes "deployed rns" and "served rns s" and "set runners \<subseteq> rns"
    and "register_all register_recovery runners new_registry = Inr recovery"
    and "sql_listIncomplete (rs_store s) = Inr records"
    and "resume_all recovery records s = (Inr (RecoveryReady, reason), t)"
  shows "(\<forall>r \<in> set records. \<exists>rn l. lookup recovery (fr_planVersion r) = Some rn \<and>
      sql_stored (rs_store t) (fr_operationId r) = Some l \<and> fr_status l = FinCompleted \<and>
      (\<forall>f \<in> set (rn_plan rn). (fr_operationId r, fz_id f, True) \<in> set (rs_calls t))) \<and>
    (\<forall>op. op \<notin> fr_operationId ` set records \<longrightarrow> sql_stored (rs_store t) op = sql_stored (rs_store s) op) \<and>
    (\<exists>k. rs_calls t = rs_calls s @ k \<and> fst ` set k \<subseteq> fr_operationId ` set records) \<and>
    sql_listIncomplete (rs_store t) = Inr []"
proof -
  have from_runners: "rn \<in> rns" if "lookup recovery v = Some rn" for v rn
    using registered_recovery [OF assms(4) that, of "{}"] assms(3) by auto
  have ok: "rows_ok (rs_store s)" by (rule served_rows [OF assms(2,1)])
  have reads: "db_reads (rs_store s) = None"
    using assms(5) by (auto simp: sql_listIncomplete_def split: option.splits)
  have listed: "r \<in> set records \<longleftrightarrow> sql_stored (rs_store s) (fr_operationId r) = Some r \<and> fr_status r \<noteq> FinCompleted" for r
    using listed_rows [OF ok reads] assms(5) by auto
  have "distinct (map fr_operationId records)" by (rule listed_distinct [OF ok assms(5)])
  moreover have "\<forall>r \<in> set records. sql_stored (rs_store s) (fr_operationId r) \<noteq> None" using listed by simp
  ultimately have wp: "wp (resume_all recovery records)
    (\<lambda>res t. fst res = RecoveryReady \<longrightarrow>
       (\<forall>r \<in> set records. sql.recovered recovery r t) \<and> sql.apart_from (fr_operationId ` set records) s t)
    (\<lambda>_ _. False) s"
    using from_runners deployed_runner [OF assms(1)] assms(1)
    by (intro sql.resume_all_durable [OF _ _ _ served_durable [OF assms(2,1)]]) (auto simp: deployed_def)
  from wp_result [OF this assms(6)]
  have t: "\<forall>r \<in> set records. sql.recovered recovery r t" "sql.apart_from (fr_operationId ` set records) s t" by simp_all
  have "rows_ok (rs_store t) \<and> db_reads (rs_store t) = None"
    using wp_result [OF resume_all_keeps [where kept = "\<lambda>db. rows_ok db \<and> db_reads db = None"] assms(6)]
      from_runners deployed_runner [OF assms(1)] ok reads sql_keeps by metis
  then obtain rest where rest: "sql_listIncomplete (rs_store t) = Inr rest"
    "set rest = {r. sql_stored (rs_store t) (fr_operationId r) = Some r \<and> fr_status r \<noteq> FinCompleted}"
    using listed_rows by blast
  have "r \<notin> set rest" for r
  proof (cases "fr_operationId r \<in> fr_operationId ` set records")
    case True
    then obtain r' where r': "r' \<in> set records" "fr_operationId r' = fr_operationId r" by force
    with t(1) have "sql.recovered recovery r' t" by blast
    then show ?thesis using rest(2) r'(2) by (auto simp: sql.recovered_def)
  next
    case False
    then have "sql_stored (rs_store t) (fr_operationId r) = sql_stored (rs_store s) (fr_operationId r)"
      using t(2) by (simp add: sql.apart_from_def)
    then show ?thesis using rest(2) listed [of r] False by auto
  qed
  then have "rest = []" by (cases rest) auto
  then show ?thesis using t rest(1) unfolding sql.recovered_def sql.apart_from_def by blast
qed

text \<open>After the refused save, the connection answers again and the process recovers.\<close>

definition ex_records :: "string finalization_record list" where
  "ex_records = projr (sql_listIncomplete (rs_store ex_refused))"

theorem recovery_completes_everything_witness:
  "\<exists>recovery. map fr_operationId ex_records = [''op''] \<and>
     sql_listIncomplete (rs_store (snd (resume_all recovery ex_records ex_refused))) = Inr []"
proof -
  let ?recovery = "projr (register_all register_recovery [ex_sql_runner] new_registry)"
  let ?x = "resume_all ?recovery ex_records ex_refused"
  have recovery: "register_all register_recovery [ex_sql_runner] new_registry = Inr ?recovery"
    by (rule projr_ok) code_simp
  have listed: "sql_listIncomplete (rs_store ex_refused) = Inr ex_records"
    unfolding ex_records_def by (rule projr_ok) code_simp
  have "case fst ?x of Inr (RecoveryReady, _) \<Rightarrow> True | _ \<Rightarrow> False" by code_simp
  then obtain reason where "?x = (Inr (RecoveryReady, reason), snd ?x)"
    by (cases ?x) (auto split: sum.splits prod.splits recovery_status.splits)
  from recovery_completes_everything [OF ex_deployed ex_refused_served _ recovery listed this]
  have "sql_listIncomplete (rs_store (snd ?x)) = Inr []" by simp
  moreover have "map fr_operationId ex_records = [''op'']" by code_simp
  ultimately show ?thesis by (intro exI conjI)
qed

section \<open>Admission\<close>

lemma admitted_iff:
  "canExecute (snd (initialize ports (new_coordinator w))) \<longleftrightarrow>
     (\<exists>applied w1 w2 records w3 reason w4.
        sp_runPending ports w = (Inr applied, w1) \<and> sp_recover ports w1 = (Inr ProtectionReady, w2) \<and>
        sp_listIncomplete ports w2 = (Inr records, w3) \<and>
        sp_resume ports records w3 = (Inr (RecoveryReady, reason), w4))"
proof -
  note run = initialize_def run_startup_def finalizeIncomplete_def new_coordinator_def canExecute_def snapshot_of_def
    seq_def handle_def port_def set_snapshot_def change_def ask_def raise_def
  obtain a w1 where a: "sp_runPending ports w = (a, w1)" by fastforce
  obtain b w2 where b: "sp_recover ports w1 = (b, w2)" by fastforce
  obtain c w3 where c: "sp_listIncomplete ports w2 = (c, w3)" by fastforce
  obtain d w4 where d: "sp_resume ports (projr c) w3 = (d, w4)" by fastforce
  show ?thesis
  proof (cases "\<not> isl a \<and> b = Inr ProtectionReady \<and> \<not> isl c \<and> \<not> isl d")
    case True
    then obtain applied records x where "a = Inr applied" "c = Inr records" "d = Inr x"
      by (cases a; cases c; cases d) auto
    then show ?thesis using True a b c d by (cases x; cases "fst x") (simp_all add: run)
  next
    case False
    show ?thesis
    proof (cases a)
      case (Inl e)
      then show ?thesis using a by (simp add: run)
    next
      case a': (Inr applied)
      show ?thesis
      proof (cases b)
        case (Inl e)
        then show ?thesis using a b a' by (simp add: run)
      next
        case b': (Inr p)
        show ?thesis
          using False a b c d a' b' by (cases c; cases d; cases p) (auto simp: run split: if_splits)
      qed
    qed
  qed
qed

text \<open>
  C39. The transaction runtime admits operations after its initialization exactly if the migrations ran, the
  protected devices were recovered as ready and the resumption of the incomplete finalizations
  reported ready, each after the other; any other answer and any exception keep it closed. Asking
  again runs nothing again and gives the first answer again.
\<close>

theorem startup_admits_only_recovered:
  "(canExecute (snd (initialize ports (new_coordinator w))) \<longleftrightarrow>
     (\<exists>applied w1 w2 records w3 reason w4.
        sp_runPending ports w = (Inr applied, w1) \<and> sp_recover ports w1 = (Inr ProtectionReady, w2) \<and>
        sp_listIncomplete ports w2 = (Inr records, w3) \<and>
        sp_resume ports records w3 = (Inr (RecoveryReady, reason), w4))) \<and>
   initialize ports (snd (initialize ports (new_coordinator w))) = initialize ports (new_coordinator w)"
proof
  obtain r t where "run_startup ports (new_coordinator w) = (r, t)" by fastforce
  then show "initialize ports (snd (initialize ports (new_coordinator w))) = initialize ports (new_coordinator w)"
    by (simp add: initialize_def new_coordinator_def)
qed (rule admitted_iff)

end
