(* ===== verification/Service_Availability.thy ===== *)
theory Service_Availability
  imports Js_Text
begin

text \<open>
  \<^verbatim>\<open>packages/kiosk-runtime/src/service-availability.ts\<close>: whether customer operations may begin.
  The coordinator is a state machine between the points where its methods wait: an input is a
  call of a method, or the settling of what an evaluation of the gates waits for, or the retry timer.
  Listeners only read what is published; the safe data of reasons and gate answers is left out.
\<close>

datatype availability_status = Starting | Available | SuspensionPending | OutOfService

type_synonym reason_code = string

record availability_snapshot =
  sv_revision :: nat
  sv_status :: availability_status
  sv_reason :: "reason_code option"
  sv_activeOperationCount :: nat

record availability_audit =
  ae_eventId :: string
  ae_message :: string
  ae_status :: availability_status
  ae_reasonCode :: "reason_code option"

datatype gate_result = GateOpen | GateClosed reason_code

text \<open>
  Where an evaluation of the gates waits: for the gate in turn (with the gates left), for the audit
  of being out of service (and whether there is one to write), for the audit of being available,
  or only for its promise to settle.
\<close>

datatype evaluation =
    AwaitGate string "string list"
  | AwaitClosedAudit bool
  | AwaitOpenAudit
  | Settling

record availability =
  av_state :: availability_snapshot
  av_active :: nat
  av_pending :: "reason_code option"
  av_initialized :: bool
  av_disposed :: bool
  av_evaluation :: "evaluation option"
  av_retry :: bool
  av_leases :: "bool list"
  av_audit :: "availability_audit list"

record availability_options =
  ao_gates :: "string list"
  ao_retryIntervalMs :: int

definition max_safe_integer :: int where
  "max_safe_integer = 2 ^ 53 - 1"

definition initial_snapshot :: availability_snapshot where
  "initial_snapshot = \<lparr>sv_revision = 0, sv_status = Starting, sv_reason = None, sv_activeOperationCount = 0\<rparr>"

definition new_availability :: "availability_options \<Rightarrow> string + availability" where
  "new_availability opts =
     (if ao_retryIntervalMs opts \<le> 0 \<or> ao_retryIntervalMs opts > max_safe_integer then
        Inl ''Service availability retryIntervalMs must be a positive integer.''
      else Inr
        \<lparr>av_state = initial_snapshot, av_active = 0, av_pending = None, av_initialized = False,
         av_disposed = False, av_evaluation = None, av_retry = False, av_leases = [], av_audit = []\<rparr>)"

section \<open>Transitions\<close>

definition publish :: "availability_status \<Rightarrow> reason_code option \<Rightarrow> availability \<Rightarrow> availability" where
  "publish status reason s =
     s\<lparr>av_state := \<lparr>sv_revision = sv_revision (av_state s) + 1, sv_status = status, sv_reason = reason,
       sv_activeOperationCount = av_active s\<rparr>\<rparr>"

definition append_audit :: "availability_audit \<Rightarrow> availability \<Rightarrow> availability" where
  "append_audit e s = s\<lparr>av_audit := av_audit s @ [e]\<rparr>"

definition service_changes :: "reason_code \<Rightarrow> availability \<Rightarrow> bool" where
  "service_changes reason s \<longleftrightarrow>
     sv_status (av_state s) \<noteq> OutOfService \<or> sv_reason (av_state s) \<noteq> Some reason"

definition enterOutOfService :: "reason_code \<Rightarrow> availability \<Rightarrow> availability" where
  "enterOutOfService reason s =
     (if service_changes reason s then
        append_audit
          \<lparr>ae_eventId = ''serviceAvailability.outOfService'',
           ae_message = ''Out of service, reason: '' @ reason, ae_status = OutOfService,
           ae_reasonCode = Some reason\<rparr>
      else (\<lambda>s. s)) (publish OutOfService (Some reason) s)"

definition gates_passed :: "availability \<Rightarrow> availability" where
  "gates_passed s =
     (if sv_status (av_state s) \<noteq> Available then
        (append_audit
          \<lparr>ae_eventId = ''serviceAvailability.available'', ae_message = ''Kiosk service is available.'',
           ae_status = Available, ae_reasonCode = None\<rparr>
          (publish Available None (s\<lparr>av_pending := None\<rparr>)))\<lparr>av_evaluation := Some AwaitOpenAudit\<rparr>
      else (publish Available None (s\<lparr>av_pending := None\<rparr>))\<lparr>av_evaluation := Some Settling\<rparr>)"

fun next_gate :: "string list \<Rightarrow> availability \<Rightarrow> availability" where
  "next_gate [] s = gates_passed s"
| "next_gate (g # gs) s = s\<lparr>av_evaluation := Some (AwaitGate g gs)\<rparr>"

definition evaluateGates :: "availability_options \<Rightarrow> availability \<Rightarrow> availability" where
  "evaluateGates opts s =
     (if av_disposed s \<or> av_evaluation s \<noteq> None then s else next_gate (ao_gates opts) s)"

definition scheduleRetry :: "availability \<Rightarrow> availability" where
  "scheduleRetry s = (if av_disposed s \<or> av_retry s then s else s\<lparr>av_retry := True\<rparr>)"

definition clearRetry :: "availability \<Rightarrow> availability" where
  "clearRetry s = s\<lparr>av_retry := False\<rparr>"

section \<open>Methods\<close>

definition initialize_service :: "availability_options \<Rightarrow> availability \<Rightarrow> availability" where
  "initialize_service opts s =
     (if av_initialized s then s else evaluateGates opts (s\<lparr>av_initialized := True\<rparr>))"

definition retryNow :: "availability_options \<Rightarrow> availability \<Rightarrow> availability" where
  "retryNow opts s = evaluateGates opts (clearRetry s)"

text \<open>The lease of an operation is its position; it says whether it has been released.\<close>

definition beginOperation :: "availability \<Rightarrow> (string + nat) \<times> availability" where
  "beginOperation s =
     (if sv_status (av_state s) \<noteq> Available then (Inl ''serviceAvailability.operationBlocked'', s)
      else
        (Inr (length (av_leases s)),
         publish Available None (s\<lparr>av_active := av_active s + 1, av_leases := av_leases s @ [False]\<rparr>)))"

definition releaseOperation :: "availability \<Rightarrow> availability" where
  "releaseOperation s =
     (let s = s\<lparr>av_active := av_active s - 1\<rparr> in
      case av_pending s of
        Some reason \<Rightarrow>
          if av_active s = 0 then enterOutOfService reason (s\<lparr>av_pending := None\<rparr>)
          else publish (sv_status (av_state s)) (Some reason) s
      | None \<Rightarrow> publish (sv_status (av_state s)) None s)"

definition release :: "nat \<Rightarrow> availability \<Rightarrow> availability" where
  "release i s =
     (if i < length (av_leases s) \<and> \<not> av_leases s ! i then
        releaseOperation (s\<lparr>av_leases := (av_leases s)[i := True]\<rparr>)
      else s)"

definition reason_char :: "char \<Rightarrow> bool" where
  "reason_char c \<longleftrightarrow>
     (let n = (of_char c :: nat) in
      65 \<le> n \<and> n \<le> 90 \<or> 97 \<le> n \<and> n \<le> 122 \<or> 48 \<le> n \<and> n \<le> 57) \<or>
     c \<in> {CHR ''.'', CHR ''_'', CHR ''-''}"

definition valid_reason :: "reason_code \<Rightarrow> bool" where
  "valid_reason r \<longleftrightarrow> 1 \<le> length r \<and> length r \<le> 120 \<and> list_all reason_char r"

definition requestSuspension :: "reason_code \<Rightarrow> availability \<Rightarrow> (string + unit) \<times> availability" where
  "requestSuspension reason s =
     (if \<not> valid_reason reason then (Inl ''Service availability reason code is invalid.'', s)
      else if av_active s > 0 then
        (let pending = (case av_pending s of Some r \<Rightarrow> r | None \<Rightarrow> reason) in
         (Inr (), append_audit
            \<lparr>ae_eventId = ''serviceAvailability.suspensionPending'',
             ae_message = ''Service suspension pending, reason: '' @ pending,
             ae_status = SuspensionPending, ae_reasonCode = Some pending\<rparr>
            (publish SuspensionPending (Some pending) (s\<lparr>av_pending := Some pending\<rparr>))))
      else (Inr (), enterOutOfService reason s))"

definition dispose :: "availability \<Rightarrow> availability" where
  "dispose s = (if av_disposed s then s else clearRetry (s\<lparr>av_disposed := True\<rparr>))"

section \<open>Steps\<close>

datatype availability_input =
    Initialize
  | RetryNow
  | BeginOperation
  | Release nat
  | RequestSuspension reason_code
  | Dispose
  | GateSettled "gate_result option"
  | AuditSettled bool
  | EvaluationSettled
  | RetryTimer

text \<open>A gate that throws answers \<^term>\<open>None\<close>; an audit that rejects ends the evaluation.\<close>

definition gate_settled :: "gate_result option \<Rightarrow> availability \<Rightarrow> availability" where
  "gate_settled r s =
     (case av_evaluation s of
        Some (AwaitGate g gs) \<Rightarrow>
          (case (case r of Some x \<Rightarrow> x | None \<Rightarrow> GateClosed ''serviceAvailability.gateFailed'') of
             GateOpen \<Rightarrow> next_gate gs s
           | GateClosed reason \<Rightarrow>
               (enterOutOfService reason s)\<lparr>av_evaluation := Some (AwaitClosedAudit (service_changes reason s))\<rparr>)
      | _ \<Rightarrow> s)"

definition audit_settled :: "bool \<Rightarrow> availability \<Rightarrow> availability" where
  "audit_settled ok s =
     (case av_evaluation s of
        Some (AwaitClosedAudit writes) \<Rightarrow>
          if ok \<or> \<not> writes then (scheduleRetry s)\<lparr>av_evaluation := Some Settling\<rparr>
          else s\<lparr>av_evaluation := Some Settling\<rparr>
      | Some AwaitOpenAudit \<Rightarrow> s\<lparr>av_evaluation := Some Settling\<rparr>
      | _ \<Rightarrow> s)"

fun availability_step :: "availability_options \<Rightarrow> availability_input \<Rightarrow> availability \<Rightarrow> availability" where
  "availability_step opts Initialize s = initialize_service opts s"
| "availability_step opts RetryNow s = retryNow opts s"
| "availability_step opts BeginOperation s = snd (beginOperation s)"
| "availability_step opts (Release i) s = release i s"
| "availability_step opts (RequestSuspension r) s = snd (requestSuspension r s)"
| "availability_step opts Dispose s = dispose s"
| "availability_step opts (GateSettled r) s = gate_settled r s"
| "availability_step opts (AuditSettled ok) s = audit_settled ok s"
| "availability_step opts EvaluationSettled s =
     (if av_evaluation s = Some Settling then s\<lparr>av_evaluation := None\<rparr> else s)"
| "availability_step opts RetryTimer s =
     (if av_retry s then retryNow opts (s\<lparr>av_retry := False\<rparr>) else s)"

inductive reachable_service :: "availability_options \<Rightarrow> availability \<Rightarrow> bool" for opts where
  created: "new_availability opts = Inr s \<Longrightarrow> reachable_service opts s"
| stepped: "reachable_service opts s \<Longrightarrow> reachable_service opts (availability_step opts i s)"

fun run_service :: "availability_options \<Rightarrow> availability_input list \<Rightarrow> availability \<Rightarrow> availability" where
  "run_service opts [] s = s"
| "run_service opts (i # is) s = run_service opts is (availability_step opts i s)"

section \<open>The invariant\<close>

text \<open>
  The count is the number of leases not released, and is what was published last; a pending
  suspension has operations to wait for and keeps new ones out, and is the only thing that makes
  the service pending.
\<close>

definition open_leases :: "availability \<Rightarrow> nat" where
  "open_leases s = length (filter Not (av_leases s))"

definition service_ok :: "availability \<Rightarrow> bool" where
  "service_ok s \<longleftrightarrow>
     av_active s = open_leases s \<and>
     sv_activeOperationCount (av_state s) = open_leases s \<and>
     (av_pending s \<noteq> None \<longrightarrow> 0 < open_leases s \<and> sv_status (av_state s) \<noteq> Available) \<and>
     (sv_status (av_state s) = SuspensionPending \<longrightarrow> av_pending s \<noteq> None)"

named_theorems transitions

lemmas transition_defs [transitions] =
  publish_def append_audit_def enterOutOfService_def gates_passed_def evaluateGates_def
  scheduleRetry_def clearRetry_def initialize_service_def retryNow_def beginOperation_def
  releaseOperation_def requestSuspension_def dispose_def gate_settled_def audit_settled_def
  service_ok_def open_leases_def

lemma open_leases_release:
  "i < length ls \<Longrightarrow> \<not> ls ! i \<Longrightarrow>
   length (filter Not (ls[i := True])) = length (filter Not ls) - 1 \<and> 0 < length (filter Not ls)"
  by (induction ls arbitrary: i) (auto split: nat.splits)

lemma next_gate_ok: "service_ok s \<Longrightarrow> service_ok (next_gate gs s)"
  by (cases gs) (auto simp: transitions)

lemma enterOutOfService_ok: "service_ok s \<Longrightarrow> service_ok (enterOutOfService r s)"
  by (auto simp: transitions)

lemma evaluateGates_ok: "service_ok s \<Longrightarrow> service_ok (evaluateGates opts s)"
  by (auto simp: evaluateGates_def next_gate_ok)

lemma release_ok: "service_ok s \<Longrightarrow> service_ok (release i s)"
  using open_leases_release [of i "av_leases s"]
  by (auto simp: release_def transitions Let_def split: option.splits)

lemma service_ok_simps [simp]:
  "service_ok (s\<lparr>av_initialized := b\<rparr>) = service_ok s"
  "service_ok (s\<lparr>av_evaluation := e\<rparr>) = service_ok s"
  "service_ok (s\<lparr>av_retry := b\<rparr>) = service_ok s"
  "service_ok (s\<lparr>av_disposed := b\<rparr>) = service_ok s"
  by (simp_all add: service_ok_def open_leases_def)

lemma availability_step_ok: "service_ok s \<Longrightarrow> service_ok (availability_step opts i s)"
proof (cases i)
  case (GateSettled r)
  then show "service_ok s \<Longrightarrow> ?thesis"
    by (simp add: gate_settled_def next_gate_ok enterOutOfService_ok split: option.split evaluation.split gate_result.split)
next
  case (AuditSettled b)
  then show "service_ok s \<Longrightarrow> ?thesis"
    by (simp add: audit_settled_def scheduleRetry_def split: option.split evaluation.split)
next
  case BeginOperation
  then show "service_ok s \<Longrightarrow> ?thesis"
    by (auto simp: transitions)
next
  case (RequestSuspension r)
  then show "service_ok s \<Longrightarrow> ?thesis"
    by (cases "av_pending s") (auto simp: transitions Let_def)
qed (auto simp: initialize_service_def retryNow_def clearRetry_def dispose_def evaluateGates_ok release_ok)

lemma reachable_service_ok: "reachable_service opts s \<Longrightarrow> service_ok s"
proof (induction rule: reachable_service.induct)
  case (created s)
  then show ?case
    by (auto simp: new_availability_def service_ok_def initial_snapshot_def open_leases_def split: if_splits)
qed (rule availability_step_ok)

lemma reachable_run_service: "reachable_service opts s \<Longrightarrow> reachable_service opts (run_service opts is s)"
  by (induction "is" arbitrary: s) (auto intro: stepped)

section \<open>Suspending\<close>

text \<open>A release of a lease that is not held changes nothing.\<close>

lemma release_again: "i < length (av_leases s) \<Longrightarrow> av_leases s ! i \<Longrightarrow> release i s = s"
  by (simp add: release_def)















definition waiting :: "reason_code \<Rightarrow> availability \<Rightarrow> bool" where
  "waiting r s \<longleftrightarrow>
     service_ok s \<and> sv_status (av_state s) \<noteq> Available \<and> (av_pending s = Some r \<or> open_leases s = 0)"

lemma waiting_simps [simp]:
  "waiting r (s\<lparr>av_initialized := b\<rparr>) = waiting r s"
  "waiting r (s\<lparr>av_evaluation := e\<rparr>) = waiting r s"
  "waiting r (s\<lparr>av_retry := b\<rparr>) = waiting r s"
  "waiting r (s\<lparr>av_disposed := b\<rparr>) = waiting r s"
  by (simp_all add: waiting_def open_leases_def)







section \<open>Retrying\<close>

lemma gates_open:
  "av_evaluation s = Some (AwaitGate g gs) \<Longrightarrow>
   \<exists>s'. run_service opts (replicate (length gs + 1) (GateSettled (Some GateOpen))) s = gates_passed s' \<and>
     av_leases s' = av_leases s \<and> av_active s' = av_active s \<and> av_state s' = av_state s"
proof (induction gs arbitrary: g s)
  case Nil
  then show ?case by (auto simp: gate_settled_def)
next
  case (Cons h hs)
  let ?t = "s\<lparr>av_evaluation := Some (AwaitGate h hs)\<rparr>"
  have "gate_settled (Some GateOpen) s = ?t" using Cons.prems by (simp add: gate_settled_def)
  then show ?case using Cons.IH [of ?t h] by simp
qed

lemma gates_passed_available:
  "sv_status (av_state (gates_passed s)) = Available \<and> sv_reason (av_state (gates_passed s)) = None \<and>
   av_pending (gates_passed s) = None \<and> av_active (gates_passed s) = av_active s"
  by (simp add: gates_passed_def publish_def append_audit_def)

lemma retry_opens:
  assumes "\<not> av_disposed s" and "av_evaluation s = None"
  shows "\<exists>s'. run_service opts (RetryNow # replicate (length (ao_gates opts)) (GateSettled (Some GateOpen))) s =
    gates_passed s' \<and> av_active s' = av_active s"
proof (cases "ao_gates opts")
  case Nil
  then show ?thesis
    using assms by (auto simp: retryNow_def evaluateGates_def clearRetry_def)
next
  case (Cons g gs)
  let ?t = "s\<lparr>av_retry := False, av_evaluation := Some (AwaitGate g gs)\<rparr>"
  have "retryNow opts s = ?t" using assms Cons by (simp add: retryNow_def evaluateGates_def clearRetry_def)
  then show ?thesis using gates_open [of ?t g gs opts] Cons by auto
qed

section \<open>Properties\<close>

text \<open>
  What the service availability coordinator promises: operations are counted, a requested
  suspension keeps new operations out and takes effect when the last one is released - unless the
  gates are evaluated in between.
\<close>

definition ex_service_options :: availability_options where
  "ex_service_options = \<lparr>ao_gates = [''printer'', ''host''], ao_retryIntervalMs = 180000\<rparr>"

definition ex_gates_open :: "availability_input list" where
  "ex_gates_open =
     [GateSettled (Some GateOpen), GateSettled (Some GateOpen), AuditSettled True, EvaluationSettled]"

definition ex_service :: "availability_input list \<Rightarrow> availability" where
  "ex_service is = run_service ex_service_options is (projr (new_availability ex_service_options))"

text \<open>Two customer operations have begun and the operator asks for the service to be suspended.\<close>

definition ex_pending :: availability where
  "ex_pending = ex_service (Initialize # ex_gates_open @ [BeginOperation, BeginOperation, RequestSuspension ''operator.door''])"

lemma ex_service_reachable: "reachable_service ex_service_options (ex_service is)"
proof -
  have "\<not> isl (new_availability ex_service_options)" by code_simp
  then have "reachable_service ex_service_options (projr (new_availability ex_service_options))"
    by (intro created) (simp add: sum.expand sum.collapse)
  then show ?thesis unfolding ex_service_def by (rule reachable_run_service)
qed

section \<open>Properties\<close>

text \<open>
  In every state the service availability coordinator can reach, by any order of method calls,
  gate answers, audit answers and retry timers: the published count is the number of operations
  begun and not released; while a suspension is pending there are operations to wait for and no
  new operation can begin; and the service says that a suspension is pending only when one is.
\<close>
theorem operations_are_counted:
  assumes "reachable_service opts s"
  shows "sv_activeOperationCount (av_state s) = length (filter Not (av_leases s)) \<and>
    (av_pending s \<noteq> None \<longrightarrow>
      0 < sv_activeOperationCount (av_state s) \<and> fst (beginOperation s) = Inl ''serviceAvailability.operationBlocked'') \<and>
    (sv_status (av_state s) = SuspensionPending \<longrightarrow> av_pending s \<noteq> None)"
  using reachable_service_ok [OF assms] by (auto simp: service_ok_def open_leases_def beginOperation_def)

theorem operations_are_counted_witness:
  "sv_activeOperationCount (av_state ex_pending) = 2 \<and>
   fst (beginOperation ex_pending) = Inl ''serviceAvailability.operationBlocked''"
proof -
  have "reachable_service ex_service_options ex_pending" by (simp add: ex_pending_def ex_service_reachable)
  note counted = operations_are_counted [OF this]
  have "length (filter Not (av_leases ex_pending)) = 2" and "av_pending ex_pending \<noteq> None" by code_simp+
  then show ?thesis using counted by simp
qed





text \<open>
  A pending suspension is forgotten when the gates are evaluated again: from any state where no
  evaluation runs and the coordinator is not disposed, a retry whose gates all answer that they are
  available leaves nothing pending and the service available, with the operations still active and
  new ones admitted - although the suspension was never taken back.
\<close>
theorem retry_drops_suspension:
  assumes "\<not> av_disposed s" and "av_evaluation s = None"
  shows "let s' = run_service opts
      (RetryNow # replicate (length (ao_gates opts)) (GateSettled (Some GateOpen))) s in
    av_pending s' = None \<and> sv_status (av_state s') = Available \<and> av_active s' = av_active s \<and>
    \<not> isl (fst (beginOperation s'))"
  using retry_opens [OF assms, of opts] gates_passed_available by (auto simp: Let_def beginOperation_def)

theorem retry_drops_suspension_witness:
  "av_pending ex_pending = Some ''operator.door'' \<and> av_active ex_pending = 2 \<and>
   av_pending (run_service ex_service_options
     (RetryNow # replicate 2 (GateSettled (Some GateOpen))) ex_pending) = None"
proof -
  have "\<not> av_disposed ex_pending" and "av_evaluation ex_pending = None" by code_simp+
  note retried = retry_drops_suspension [OF this, of ex_service_options]
  have "av_pending ex_pending = Some ''operator.door''" and "av_active ex_pending = 2"
    and "length (ao_gates ex_service_options) = 2" by code_simp+
  then show ?thesis using retried by (simp add: Let_def)
qed

end
