(* ===== verification/Frame_Codec.thy ===== *)
theory Frame_Codec
  imports Js_Utf8 Host_Contracts
begin

text \<open>
  \<^verbatim>\<open>packages/kiosk-host-native-channel/src/framing.ts\<close>: messages on a byte stream, each
  behind an optional fixed header and a decimal length. The interface \<open>frame_codec\<close> states
  what the readers of a stream rely on: a frame is recognised whatever follows it, a strict
  prefix of a frame is incomplete, and a recognised frame consumes some of the bytes received.
\<close>

datatype frame_result =
    Incomplete
  | CompleteFrame (frame_payload: "byte list") (frame_consumed: nat)
  | InvalidFrame (frame_error: string)

record frame_options =
  fo_fixedHeader :: "byte list option"
  fo_lengthBytes :: int
  fo_lengthEncoding :: length_encoding
  fo_includesHeader :: "bool option"
  fo_includesLength :: bool
  fo_maxFrameBytes :: int

record ascii_frame_options =
  ao_prefixBytes :: int
  ao_includesPrefix :: bool
  ao_maxFrameBytes :: int

record normal_options =
  nf_fixedHeader :: "byte list"
  nf_lengthBytes :: nat
  nf_lengthEncoding :: length_encoding
  nf_includesHeader :: bool
  nf_includesLength :: bool
  nf_maxFrameBytes :: nat

definition normalizeOptions :: "frame_options \<Rightarrow> string + normal_options" where
  "normalizeOptions o' =
     (let fixedHeader = (case fo_fixedHeader o' of None \<Rightarrow> [] | Some h \<Rightarrow> h);
          maxLengthBytes = (if fo_lengthEncoding o' = LenAscii then 9 else 6) in
      if fo_lengthBytes o' < 1 \<or> fo_lengthBytes o' > maxLengthBytes
         \<or> fo_maxFrameBytes o' \<le> int (length fixedHeader) + fo_lengthBytes o'
      then Inl ''host.channel.frame-config-invalid''
      else Inr
        \<lparr>nf_fixedHeader = fixedHeader, nf_lengthBytes = nat (fo_lengthBytes o'),
         nf_lengthEncoding = fo_lengthEncoding o',
         nf_includesHeader = (case fo_includesHeader o' of None \<Rightarrow> False | Some b \<Rightarrow> b),
         nf_includesLength = fo_includesLength o', nf_maxFrameBytes = nat (fo_maxFrameBytes o')\<rparr>)"

definition includedOverhead :: "normal_options \<Rightarrow> nat" where
  "includedOverhead o' =
     (if nf_includesHeader o' then length (nf_fixedHeader o') else 0) +
     (if nf_includesLength o' then nf_lengthBytes o' else 0)"

definition length_digits :: "normal_options \<Rightarrow> nat" where
  "length_digits o' =
     (if nf_lengthEncoding o' = LenAscii then nf_lengthBytes o' else nf_lengthBytes o' * 2)"

fun bcd_pairs :: "jstext \<Rightarrow> byte list" where
  "bcd_pairs (a # b # t) = of_nat (digit_value a * 16 + digit_value b) # bcd_pairs t"
| "bcd_pairs _ = []"

definition encodeLength :: "nat \<Rightarrow> normal_options \<Rightarrow> string + byte list" where
  "encodeLength v o' =
     (let encoded = pad_start (length_digits o') 48 (dec_text v) in
      if length encoded \<noteq> length_digits o' then Inl ''host.channel.frame-length-overflow''
      else if nf_lengthEncoding o' = LenAscii then Inr (text_encode encoded)
      else Inr (bcd_pairs encoded))"

fun bcd_value :: "nat \<Rightarrow> byte list \<Rightarrow> nat option" where
  "bcd_value v [] = Some v"
| "bcd_value v (b # bs) =
     (let high = unat b div 16; low = unat b mod 16 in
      if 9 < high \<or> 9 < low then None else bcd_value (v * 100 + high * 10 + low) bs)"

definition decodeLength :: "byte list \<Rightarrow> length_encoding \<Rightarrow> nat option" where
  "decodeLength bs enc =
     (if enc = LenAscii then
        (let t = text_decode bs in if some_digits t then Some (parse_dec t) else None)
      else bcd_value 0 bs)"

definition prefix_length :: "normal_options \<Rightarrow> nat" where
  "prefix_length o' = length (nf_fixedHeader o') + nf_lengthBytes o'"

definition encodeFrame :: "byte list \<Rightarrow> normal_options \<Rightarrow> string + byte list" where
  "encodeFrame payload o' =
     (if prefix_length o' + length payload > nf_maxFrameBytes o' then Inl ''host.channel.frame-too-large''
      else
        rbind (encodeLength (length payload + includedOverhead o') o') (\<lambda>len.
          Inr (nf_fixedHeader o' @ len @ payload)))"

definition decodeFrame :: "byte list \<Rightarrow> normal_options \<Rightarrow> frame_result" where
  "decodeFrame bs o' =
     (if length bs < prefix_length o' then Incomplete
      else if take (length (nf_fixedHeader o')) bs \<noteq> nf_fixedHeader o' then
        InvalidFrame ''host.channel.frame-header-invalid''
      else
        (case decodeLength (js_slice (int (length (nf_fixedHeader o'))) (Some (int (prefix_length o'))) bs)
                (nf_lengthEncoding o') of
           None \<Rightarrow> InvalidFrame ''host.channel.frame-prefix-invalid''
         | Some declaredLength \<Rightarrow>
             (let payloadBytes = int declaredLength - int (includedOverhead o');
                  totalBytes = int (prefix_length o') + payloadBytes in
              if payloadBytes < 0 \<or> totalBytes > int (nf_maxFrameBytes o') then
                InvalidFrame ''host.channel.frame-length-invalid''
              else if int (length bs) < totalBytes then Incomplete
              else CompleteFrame (js_slice (int (prefix_length o')) (Some totalBytes) bs) (nat totalBytes))))"

record frame_codec_fns =
  ff_encode :: "byte list \<Rightarrow> string + byte list"
  ff_decode :: "byte list \<Rightarrow> frame_result"

definition createLengthPrefixFrameCodec :: "frame_options \<Rightarrow> string + frame_codec_fns" where
  "createLengthPrefixFrameCodec o' =
     rbind (normalizeOptions o') (\<lambda>n.
       Inr \<lparr>ff_encode = (\<lambda>payload. encodeFrame payload n), ff_decode = (\<lambda>bs. decodeFrame bs n)\<rparr>)"

definition createAsciiLengthPrefixFrameCodec :: "ascii_frame_options \<Rightarrow> string + frame_codec_fns" where
  "createAsciiLengthPrefixFrameCodec o' =
     createLengthPrefixFrameCodec
       \<lparr>fo_fixedHeader = None, fo_lengthBytes = ao_prefixBytes o', fo_lengthEncoding = LenAscii,
        fo_includesHeader = None, fo_includesLength = ao_includesPrefix o',
        fo_maxFrameBytes = ao_maxFrameBytes o'\<rparr>"

section \<open>Lengths\<close>

lemma bcd_pairs_value:
  "\<forall>d \<in> set ds. d < 10 \<Longrightarrow> even (length ds) \<Longrightarrow>
   bcd_value v (bcd_pairs (map digit_unit ds)) = Some (foldl (\<lambda>v d. 10 * v + d) v ds)"
proof (induction "length ds" arbitrary: ds v rule: less_induct)
  case less
  show ?case
  proof (cases ds)
    case (Cons a t)
    then obtain b t' where ds: "ds = a # b # t'" using less.prems(2) by (cases t) auto
    have ab: "a < 10" "b < 10" using less.prems(1) ds by auto
    then have byte: "unat (of_nat (a * 16 + b) :: byte) = a * 16 + b" by (intro small_byte) simp
    define w where "w = v * 100 + a * 10 + b"
    have "bcd_value w (bcd_pairs (map digit_unit t')) = Some (foldl (\<lambda>v d. 10 * v + d) w t')"
      using less.prems ds by (intro less.hyps) auto
    moreover have "10 * (10 * v + a) + b = w" by (simp add: w_def)
    then have "foldl (\<lambda>v d. 10 * v + d) v ds = foldl (\<lambda>v d. 10 * v + d) w t'"
      by (simp only: ds foldl.simps)
    moreover have "bcd_value v (bcd_pairs (map digit_unit ds)) = bcd_value w (bcd_pairs (map digit_unit t'))"
      using ab byte by (simp add: ds Let_def w_def del: of_nat_add of_nat_mult)
    ultimately show ?thesis by (simp only:)
  qed simp
qed

lemma length_bcd_pairs [simp]: "length (bcd_pairs t) = length t div 2"
  by (induction t rule: bcd_pairs.induct) auto

lemma padded_digits: "all_digits (pad_start w 48 (dec_text v))"
  using all_digits_dec_text [of v] by (auto simp: all_digits_def list_all_iff pad_start_def is_digit_def)

lemma padded_text: "pad_start w 48 (dec_text v) = map digit_unit (pad_start w 0 (dec_digits v))"
  by (simp add: dec_text_def map_pad_start digit_unit_def)

lemma padded_bound: "\<forall>d \<in> set (pad_start w 0 (dec_digits v)). d < 10"
  using set_pad_start [of w 0 "dec_digits v"] dec_digits_bound [of _ v] by fastforce

lemma parse_padded: "parse_dec (pad_start w 48 (dec_text v)) = v"
  by (simp only: padded_text parse_dec_map [OF padded_bound]) simp

lemma bcd_value_padded:
  assumes "even (length (pad_start w 48 (dec_text v)))"
  shows "bcd_value 0 (bcd_pairs (pad_start w 48 (dec_text v))) = Some v"
proof -
  have "foldl (\<lambda>v d. 10 * v + d) 0 (pad_start w 0 (dec_digits v)) = v"
    using dec_value_pad [of w "dec_digits v"] dec_value_digits [of v] by (simp only: dec_value_def)
  then show ?thesis
    using bcd_pairs_value [OF padded_bound, of w v 0] assms by (simp add: padded_text)
qed

lemma encodeLength_Inr:
  assumes enc: "encodeLength v o' = Inr len" and pos: "0 < nf_lengthBytes o'"
  shows "length len = nf_lengthBytes o'" and "decodeLength len (nf_lengthEncoding o') = Some v"
proof -
  let ?e = "pad_start (length_digits o') 48 (dec_text v)"
  have digits: "length ?e = length_digits o'"
    and len: "len = (if nf_lengthEncoding o' = LenAscii then text_encode ?e else bcd_pairs ?e)"
    using enc by (auto simp: encodeLength_def Let_def split: if_splits)
  note asc = digits_ascii [OF padded_digits [of "length_digits o'" v]]
  have some: "some_digits ?e"
    using padded_digits [of "length_digits o'" v] by (simp add: some_digits_def all_digits_def pad_start_def)
  show "length len = nf_lengthBytes o'"
    using len digits ascii_encode [OF asc] by (simp add: length_digits_def split: if_splits)
  show "decodeLength len (nf_lengthEncoding o') = Some v"
  proof (cases "nf_lengthEncoding o' = LenAscii")
    case True
    then show ?thesis
      using len some ascii_encode [OF asc] ascii_decode [OF asc]
      by (simp add: decodeLength_def Let_def parse_padded)
  next
    case False
    then have "even (length ?e)" using digits by (simp add: length_digits_def del: length_pad_start)
    with False len show ?thesis by (simp add: decodeLength_def bcd_value_padded del: length_pad_start)
  qed
qed

section \<open>Frames\<close>

lemma encodeFrame_Inr:
  assumes "encodeFrame p o' = Inr bs"
  obtains len where "encodeLength (length p + includedOverhead o') o' = Inr len"
    and "bs = nf_fixedHeader o' @ len @ p" and "prefix_length o' + length p \<le> nf_maxFrameBytes o'"
  using assms by (auto simp: encodeFrame_def res_simps split: if_splits)

lemma decodeFrame_encode:
  assumes enc: "encodeFrame p o' = Inr bs" and pos: "0 < nf_lengthBytes o'"
  shows "decodeFrame (bs @ rest) o' = CompleteFrame p (length bs)"
proof -
  obtain len where len: "encodeLength (length p + includedOverhead o') o' = Inr len"
    and bs: "bs = nf_fixedHeader o' @ len @ p" and mx: "prefix_length o' + length p \<le> nf_maxFrameBytes o'"
    using encodeFrame_Inr [OF enc] .
  note l = encodeLength_Inr [OF len pos]
  have slice1: "js_slice (int (length (nf_fixedHeader o'))) (Some (int (prefix_length o'))) (bs @ rest) = len"
    by (subst js_slice_range) (auto simp: bs prefix_length_def l(1))
  have slice2: "js_slice (int (prefix_length o')) (Some (int (prefix_length o') + int (length p))) (bs @ rest) = p"
    using js_slice_range [of "prefix_length o'" "prefix_length o' + length p" "bs @ rest"]
    by (simp add: bs prefix_length_def l(1))
  show ?thesis
    using mx l slice2 by (simp add: decodeFrame_def slice1 Let_def) (simp add: bs prefix_length_def)
qed

lemma decodeFrame_prefix:
  assumes enc: "encodeFrame p o' = Inr bs" and pos: "0 < nf_lengthBytes o'"
    and split: "bs = a @ b" and b: "b \<noteq> []"
  shows "decodeFrame a o' = Incomplete"
proof (cases "length a < prefix_length o'")
  case False
  obtain len where len: "encodeLength (length p + includedOverhead o') o' = Inr len"
    and bs: "bs = nf_fixedHeader o' @ len @ p" and mx: "prefix_length o' + length p \<le> nf_maxFrameBytes o'"
    using encodeFrame_Inr [OF enc] .
  note l = encodeLength_Inr [OF len pos]
  have a: "take (prefix_length o') a = nf_fixedHeader o' @ len"
    using False arg_cong [OF split, of "take (prefix_length o')"]
    by (simp add: bs prefix_length_def l(1))
  have header: "take (length (nf_fixedHeader o')) a = nf_fixedHeader o'"
    using arg_cong [OF a, of "take (length (nf_fixedHeader o'))"] by (simp add: prefix_length_def)
  have "drop (length (nf_fixedHeader o')) (take (prefix_length o') a) = len" by (simp add: a)
  then have slice: "js_slice (int (length (nf_fixedHeader o'))) (Some (int (prefix_length o'))) a = len"
    using False by (subst js_slice_range) (auto simp: prefix_length_def drop_take)
  have "length a + length b = prefix_length o' + length p"
    using arg_cong [OF split, of length] by (simp add: bs prefix_length_def l(1))
  moreover have "0 < length b" using b by simp
  ultimately have "length a < prefix_length o' + length p" by linarith
  then show ?thesis
    using False header mx l(2) by (simp add: decodeFrame_def slice)
qed (simp add: decodeFrame_def)

lemma slice_prefix:
  assumes "\<not> length bs < prefix_length o'"
  shows "js_slice (int (length (nf_fixedHeader o'))) (Some (int (prefix_length o'))) (bs @ tail)
      = js_slice (int (length (nf_fixedHeader o'))) (Some (int (prefix_length o'))) bs"
    and "take (length (nf_fixedHeader o')) (bs @ tail) = take (length (nf_fixedHeader o')) bs"
proof -
  have "length (nf_fixedHeader o') \<le> prefix_length o'" by (simp add: prefix_length_def)
  then show "js_slice (int (length (nf_fixedHeader o'))) (Some (int (prefix_length o'))) (bs @ tail)
      = js_slice (int (length (nf_fixedHeader o'))) (Some (int (prefix_length o'))) bs"
    using assms by (simp add: js_slice_range)
  show "take (length (nf_fixedHeader o')) (bs @ tail) = take (length (nf_fixedHeader o')) bs"
    using assms by (simp add: prefix_length_def)
qed

lemma decodeFrame_complete:
  assumes "decodeFrame bs o' = CompleteFrame p n"
  shows "n \<le> length bs" and "prefix_length o' \<le> n" and "decodeFrame (bs @ tail) o' = CompleteFrame p n"
proof -
  define L where "L = decodeLength
    (js_slice (int (length (nf_fixedHeader o'))) (Some (int (prefix_length o'))) bs) (nf_lengthEncoding o')"
  have h: "\<not> length bs < prefix_length o'" "take (length (nf_fixedHeader o')) bs = nf_fixedHeader o'"
    using assms by (simp_all add: decodeFrame_def split: if_splits)
  obtain d where d: "L = Some d"
    using assms h by (cases L) (simp_all add: decodeFrame_def L_def)
  define t where "t = int (prefix_length o') + (int d - int (includedOverhead o'))"
  have t: "0 \<le> int d - int (includedOverhead o')" "t \<le> int (nf_maxFrameBytes o')" "t \<le> int (length bs)"
    and pn: "p = js_slice (int (prefix_length o')) (Some t) bs" "n = nat t"
    using assms h d by (auto simp: decodeFrame_def L_def [symmetric] Let_def t_def split: if_splits)
  show "n \<le> length bs" and "prefix_length o' \<le> n" using t pn(2) by (auto simp: t_def)
  note pre = slice_prefix(1) [OF h(1), of tail]
  have body: "js_slice (int (prefix_length o')) (Some t) (bs @ tail) = p"
    using t js_slice_range [of "prefix_length o'" "nat t" bs] js_slice_range [of "prefix_length o'" "nat t" "bs @ tail"]
    by (simp add: pn(1) t_def)
  have tk: "take (length (nf_fixedHeader o')) (bs @ tail) = nf_fixedHeader o'"
    using slice_prefix(2) [OF h(1), of tail] h(2) by simp
  have "\<not> length (bs @ tail) < prefix_length o'" "\<not> int (length (bs @ tail)) < t" using h(1) t(3) by auto
  then show "decodeFrame (bs @ tail) o' = CompleteFrame p n"
    using d t body tk pn(2)
    by (simp add: decodeFrame_def pre L_def [symmetric] Let_def t_def [symmetric])
qed

lemma decodeFrame_invalid:
  assumes "decodeFrame bs o' = InvalidFrame e"
  shows "decodeFrame (bs @ tail) o' = InvalidFrame e"
proof -
  have h: "\<not> length bs < prefix_length o'"
    using assms by (auto simp: decodeFrame_def split: if_splits)
  note pre = slice_prefix(1) [OF h, of tail] and tk = slice_prefix(2) [OF h, of tail]
  have "\<not> length (bs @ tail) < prefix_length o'" using h by simp
  then show ?thesis
    using assms h unfolding decodeFrame_def pre tk
    by (auto simp: Let_def split: if_splits option.splits)
qed

section \<open>The interface\<close>

locale frame_codec =
  fixes encode :: "byte list \<Rightarrow> 'e + byte list"
    and decode :: "byte list \<Rightarrow> frame_result"
  assumes whole: "encode p = Inr bs \<Longrightarrow> decode (bs @ rest) = CompleteFrame p (length bs)"
    and partial: "encode p = Inr (a @ b) \<Longrightarrow> b \<noteq> [] \<Longrightarrow> decode a = Incomplete"
    and stable: "decode bs = CompleteFrame p n \<Longrightarrow> decode (bs @ tail) = CompleteFrame p n"
    and invalid: "decode bs = InvalidFrame e \<Longrightarrow> decode (bs @ tail) = InvalidFrame e"
    and progress: "decode bs = CompleteFrame p n \<Longrightarrow> 0 < n \<and> n \<le> length bs"

lemma normalizeOptions_Inr: "normalizeOptions opts = Inr o' \<Longrightarrow> 0 < nf_lengthBytes o'"
  by (auto simp: normalizeOptions_def Let_def split: if_splits)

lemma decodeFrame_progress:
  "0 < nf_lengthBytes o' \<Longrightarrow> decodeFrame bs o' = CompleteFrame p n \<Longrightarrow> 0 < n \<and> n \<le> length bs"
  using decodeFrame_complete(1,2) [of bs o' p n] by (auto simp: prefix_length_def)

text \<open>The functions of the codec a configuration creates; a refused one neither writes nor reads.\<close>

definition created_encode :: "frame_options \<Rightarrow> byte list \<Rightarrow> string + byte list" where
  "created_encode opts p =
     rbind (createLengthPrefixFrameCodec opts) (\<lambda>c. ff_encode c p)"

definition created_decode :: "frame_options \<Rightarrow> byte list \<Rightarrow> frame_result" where
  "created_decode opts bs =
     (case createLengthPrefixFrameCodec opts of Inl _ \<Rightarrow> Incomplete | Inr c \<Rightarrow> ff_decode c bs)"

interpretation created: frame_codec "created_encode opts" "created_decode opts" for opts
  by unfold_locales
    (auto simp: created_encode_def created_decode_def createLengthPrefixFrameCodec_def res_simps
      decodeFrame_encode decodeFrame_invalid normalizeOptions_Inr
      split: sum.splits intro: decodeFrame_prefix [OF _ normalizeOptions_Inr refl] decodeFrame_complete(3)
      dest: decodeFrame_progress [OF normalizeOptions_Inr])

section \<open>Streams of frames\<close>

text \<open>
  What a reader of a stream makes of the bytes it has: the payloads of the frames recognised,
  and the bytes left, or the error that ends the stream.
\<close>

context frame_codec
begin

function frames_of :: "byte list \<Rightarrow> byte list list \<times> (string + byte list)" where
  "frames_of bs =
     (if bs = [] then ([], Inr [])
      else case decode bs of
        Incomplete \<Rightarrow> ([], Inr bs)
      | InvalidFrame e \<Rightarrow> ([], Inl e)
      | CompleteFrame p n \<Rightarrow> (p # fst (frames_of (drop n bs)), snd (frames_of (drop n bs))))"
  by pat_completeness auto
termination
  by (relation "measure length") (auto dest: progress)

declare frames_of.simps [simp del]

lemma frames_of_Nil [simp]: "frames_of [] = ([], Inr [])"
  by (simp add: frames_of.simps)

lemma frames_of_whole:
  assumes "encode p = Inr bs"
  shows "frames_of (bs @ rest) = (p # fst (frames_of rest), snd (frames_of rest))"
proof -
  have d: "decode (bs @ rest) = CompleteFrame p (length bs)" using whole [OF assms] .
  then have "bs @ rest \<noteq> []" using progress [OF d] by auto
  with d show ?thesis by (subst frames_of.simps) simp
qed

lemma frames_of_frames:
  "list_all2 (\<lambda>p f. encode p = Inr f) ps fs \<Longrightarrow> frames_of (concat fs) = (ps, Inr [])"
  by (induction ps fs rule: list_all2_induct) (simp_all add: frames_of_whole)

lemma frames_of_append:
  "frames_of a = (ps, Inr r) \<Longrightarrow> frames_of (a @ b) = (ps @ fst (frames_of (r @ b)), snd (frames_of (r @ b)))"
proof (induction a arbitrary: ps rule: frames_of.induct)
  case (1 a)
  show ?case
  proof (cases "a = []")
    case False
    show ?thesis
    proof (cases "decode a")
      case Incomplete
      then show ?thesis using "1.prems" False by (simp add: frames_of.simps [of a])
    next
      case (CompleteFrame p n)
      obtain qs where qs: "frames_of (drop n a) = (qs, Inr r)" "ps = p # qs"
        using "1.prems" CompleteFrame False
        by (cases "frames_of (drop n a)") (auto simp: frames_of.simps [of a])
      have "drop n (a @ b) = drop n a @ b" using progress [OF CompleteFrame] by simp
      then show ?thesis
        using "1.IH" [OF False CompleteFrame qs(1)] qs stable [OF CompleteFrame] False
        by (simp add: frames_of.simps [of "a @ b"])
    next
      case (InvalidFrame e)
      then show ?thesis using "1.prems" False by (simp add: frames_of.simps [of a])
    qed
  qed (use "1.prems" in simp)
qed

lemma frames_of_rest: "frames_of a = (ps, Inr r) \<Longrightarrow> frames_of r = ([], Inr r)"
proof (induction a arbitrary: ps rule: frames_of.induct)
  case (1 a)
  then show ?case
    by (cases "a = []"; cases "decode a") (auto simp: frames_of.simps [of a] prod_eq_iff)
qed

text \<open>A stream that is well framed as a whole is never refused part-way.\<close>

lemma frames_of_cut:
  "frames_of (a @ b) = (ps, Inr z) \<Longrightarrow> \<exists>qs r. frames_of a = (qs, Inr r)"
proof (induction a arbitrary: ps rule: frames_of.induct)
  case (1 a)
  show ?case
  proof (cases "a = []")
    case False
    show ?thesis
    proof (cases "decode a")
      case Incomplete
      then show ?thesis using False by (simp add: frames_of.simps [of a])
    next
      case (CompleteFrame p n)
      have "drop n (a @ b) = drop n a @ b" using progress [OF CompleteFrame] by simp
      then have "frames_of (drop n a @ b) = (fst (frames_of (drop n a @ b)), Inr z)"
        using "1.prems" stable [OF CompleteFrame] False
        by (simp add: frames_of.simps [of "a @ b"] prod_eq_iff)
      from "1.IH" [OF False CompleteFrame this] show ?thesis
        using CompleteFrame False by (auto simp: frames_of.simps [of a])
    next
      case (InvalidFrame e)
      then show ?thesis using "1.prems" False invalid [OF InvalidFrame]
        by (simp add: frames_of.simps [of "a @ b"])
    qed
  qed simp
qed

fun read_chunks :: "byte list \<Rightarrow> byte list list \<Rightarrow> byte list list \<times> (string + byte list)" where
  "read_chunks received [] = ([], Inr received)"
| "read_chunks received (c # cs) =
     (case frames_of (received @ c) of
        (ps, Inl e) \<Rightarrow> (ps, Inl e)
      | (ps, Inr r) \<Rightarrow> (ps @ fst (read_chunks r cs), snd (read_chunks r cs)))"

text \<open>How the stream is cut into chunks does not matter.\<close>

lemma read_chunks_concat:
  "frames_of (r @ concat cs) = (ps, Inr z) \<Longrightarrow> frames_of r = ([], Inr r) \<Longrightarrow>
   read_chunks r cs = (ps, Inr z)"
proof (induction cs arbitrary: r ps)
  case (Cons c cs)
  have whole': "frames_of ((r @ c) @ concat cs) = (ps, Inr z)" using Cons.prems(1) by simp
  then obtain qs r' where q: "frames_of (r @ c) = (qs, Inr r')" using frames_of_cut by blast
  have "ps = qs @ fst (frames_of (r' @ concat cs))" and "snd (frames_of (r' @ concat cs)) = Inr z"
    using frames_of_append [OF q, of "concat cs"] whole' by simp_all
  moreover from this have "read_chunks r' cs = (fst (frames_of (r' @ concat cs)), Inr z)"
    by (intro Cons.IH frames_of_rest [OF q]) (simp add: prod_eq_iff)
  ultimately show ?case by (simp add: q)
qed simp

lemma read_chunks_frames:
  assumes "list_all2 (\<lambda>p f. encode p = Inr f) ps fs" and "concat cs = concat fs"
  shows "read_chunks [] cs = (ps, Inr [])"
  using read_chunks_concat [of "[]" cs ps "[]"] frames_of_frames [OF assms(1)] assms(2) by simp

end

end
