(* ===== verification/Host_Session.thy ===== *)
theory Host_Session
  imports Complex_Main Frame_Codec
begin

text \<open>
  \<^verbatim>\<open>packages/kiosk-host-native-channel/src/persistent-session.ts\<close> with
  \<^verbatim>\<open>persistent-inbound.ts\<close>, \<^verbatim>\<open>persistent-session-support.ts\<close>, \<^verbatim>\<open>persistent-lifecycle.ts\<close>,
  \<^verbatim>\<open>async-tools.ts\<close> and the types of \<^verbatim>\<open>persistent-contracts.ts\<close>: one TCP connection to a host
  that is kept open, over which exchanges run one after the other while the host may send messages
  of its own. The session is a state machine: an input is a call of a method, an event of the
  socket, a timer, or the settling of a promise some method waits for. Every call the session
  makes of its ports, and every event it emits, is in its log.
\<close>

section \<open>Contracts\<close>

record exchange_request =
  rq_channel :: string
  rq_idempotencyKey :: string
  rq_payload :: "byte list"

datatype wire_result =
    WireResponse string "byte list"
  | WireNotSent string
  | WireUnknown string

datatype frame_route =
    ToResponse "string option"
  | ToInbound string "string option"
  | Ignored string

record inbound_message =
  in_generation :: nat
  in_messageId :: "string option"
  in_payload :: "byte list"
  in_type :: string

datatype inbound_result = InboundHandled string | InboundUnhandled | InboundFailed string string

datatype reply_result = ReplySent | ReplyNotSent string | ReplyUnknown string

datatype session_state = Idle | Connecting | Connected | Reconnecting | Disposed

datatype lifecycle_event =
    EvConnecting
  | EvConnected
  | EvDisconnected string
  | EvReconnectScheduled rat
  | EvProtocolError string
  | EvOrphanResponse
  | EvInboundUnhandled string
  | EvInboundFailed string string
  | EvDisposed

datatype tcp_event_kind = TcpConnection | TcpData | TcpClose | TcpError

record tcp_event =
  te_kind :: tcp_event_kind
  te_id :: string
  te_data :: "byte list option"

text \<open>
  The configuration. A router that throws answers \<^term>\<open>None\<close>; an encoder that throws answers an
  error. The delays are exact numbers here (the code computes them as doubles).
\<close>

record session_config =
  pc_id :: string
  pc_host :: string
  pc_port :: rat
  pc_connectTimeoutMs :: rat
  pc_writeTimeoutMs :: rat
  pc_responseTimeoutMs :: rat
  pc_frame :: frame_codec_fns
  pc_tls :: bool
  pc_initialDelayMs :: rat
  pc_maxDelayMs :: rat
  pc_multiplier :: rat
  pc_routeFrame :: "byte list \<Rightarrow> (string \<times> string) option \<Rightarrow> frame_route option"

definition validatePersistentSessionConfig :: "bool \<Rightarrow> session_config \<Rightarrow> string + unit" where
  "validatePersistentSessionConfig canTls c =
     (if pc_id c = [] \<or> pc_host c = [] \<or> of_int \<lfloor>pc_port c\<rfloor> \<noteq> pc_port c \<or> pc_port c < 1 \<or> 65535 < pc_port c
         \<or> pc_connectTimeoutMs c \<le> 0 \<or> pc_writeTimeoutMs c \<le> 0 \<or> pc_responseTimeoutMs c \<le> 0
         \<or> pc_initialDelayMs c \<le> 0 \<or> pc_maxDelayMs c < pc_initialDelayMs c \<or> pc_multiplier c < 1
      then Inl ''host.session.tcp-config-invalid''
      else if pc_tls c \<and> \<not> canTls then Inl ''host.session.tls-capability-required''
      else Inr ())"

section \<open>State\<close>

text \<open>
  An exchange waits in the queue, for the connection (with its frame), for its frame to be written
  or for its answer, or it has its result. The answer is what the promise of the exchange was resolved with,
  which it may be before the write is over.
\<close>

datatype exchange_phase =
  Queued | AwaitsConnection "byte list" | AwaitsWrite | AwaitsAnswer | Settled wire_result

record exchange =
  ex_request :: exchange_request
  ex_phase :: exchange_phase
  ex_generation :: "nat option"
  ex_answer :: "wire_result option"

datatype write_owner = OfExchange nat | OfReply nat

record queued_write =
  qw_owner :: write_owner
  qw_socket :: string
  qw_bytes :: "byte list"

text \<open>A connection is being made, or one that is not to be used is being closed.\<close>

datatype connecting = Dialing | Retiring

datatype session_act =
    Emit session_state nat lifecycle_event
  | TcpConnect bool
  | TcpWrite write_owner nat string "byte list"
  | TcpCloses string
  | Routed nat "byte list"
  | InboundReply nat reply_result

record session =
  ss_state :: session_state
  ss_generation :: nat
  ss_socket :: "string option"
  ss_received :: "byte list"
  ss_retired :: "string list"
  ss_connecting :: "connecting option"
  ss_late :: nat
  ss_reconnectAttempt :: nat
  ss_timer :: bool
  ss_started :: bool
  ss_disposed :: bool
  ss_closing :: bool
  ss_pending :: "nat option"
  ss_exchanges :: "exchange list"
  ss_writes :: "queued_write list"
  ss_writing :: bool
  ss_inbound :: "inbound_message list"
  ss_log :: "session_act list"

definition new_session :: session where
  "new_session =
     \<lparr>ss_state = Idle, ss_generation = 0, ss_socket = None, ss_received = [], ss_retired = [],
      ss_connecting = None, ss_late = 0, ss_reconnectAttempt = 0, ss_timer = False, ss_started = False,
      ss_disposed = False, ss_closing = False, ss_pending = None, ss_exchanges = [], ss_writes = [],
      ss_writing = False, ss_inbound = [], ss_log = []\<rparr>"

definition create_session :: "bool \<Rightarrow> session_config \<Rightarrow> string + session" where
  "create_session canTls c = rbind (validatePersistentSessionConfig canTls c) (\<lambda>_. Inr new_session)"

definition note_act :: "session_act \<Rightarrow> session \<Rightarrow> session" where
  "note_act a s = s\<lparr>ss_log := ss_log s @ [a]\<rparr>"

definition emit_at :: "nat \<Rightarrow> lifecycle_event \<Rightarrow> session \<Rightarrow> session" where
  "emit_at generation e s = note_act (Emit (ss_state s) generation e) s"

definition emit :: "lifecycle_event \<Rightarrow> session \<Rightarrow> session" where
  "emit e s = emit_at (ss_generation s) e s"

definition change_exchange :: "nat \<Rightarrow> (exchange \<Rightarrow> exchange) \<Rightarrow> session \<Rightarrow> session" where
  "change_exchange i f s = s\<lparr>ss_exchanges := (ss_exchanges s)[i := f (ss_exchanges s ! i)]\<rparr>"

definition exchange_done :: "exchange \<Rightarrow> bool" where
  "exchange_done x \<longleftrightarrow> (case ex_phase x of Settled _ \<Rightarrow> True | _ \<Rightarrow> False)"

text \<open>The queue runs one exchange at a time: the first that has no result.\<close>

definition current_exchange :: "session \<Rightarrow> nat" where
  "current_exchange s = length (takeWhile exchange_done (ss_exchanges s))"

definition current_phase :: "session \<Rightarrow> exchange_phase option" where
  "current_phase s =
     (if current_exchange s < length (ss_exchanges s)
      then Some (ex_phase (ss_exchanges s ! current_exchange s)) else None)"

section \<open>Losing the connection\<close>

definition reconnect_delay :: "session_config \<Rightarrow> nat \<Rightarrow> rat" where
  "reconnect_delay c attempt = min (pc_maxDelayMs c) (pc_initialDelayMs c * pc_multiplier c ^ attempt)"

definition scheduleReconnect :: "session_config \<Rightarrow> session \<Rightarrow> session" where
  "scheduleReconnect c s =
     (if \<not> ss_started s \<or> ss_disposed s \<or> ss_socket s \<noteq> None \<or> ss_timer s then s
      else (emit (EvReconnectScheduled (reconnect_delay c (ss_reconnectAttempt s)))
              (s\<lparr>ss_reconnectAttempt := ss_reconnectAttempt s + 1\<rparr>))\<lparr>ss_timer := True\<rparr>)"

text \<open>Only the first resolution of the promise of an exchange counts.\<close>

definition resolve_exchange :: "nat \<Rightarrow> wire_result \<Rightarrow> session \<Rightarrow> session" where
  "resolve_exchange i r s =
     change_exchange i (\<lambda>x. if ex_answer x = None then x\<lparr>ex_answer := Some r\<rparr> else x) s"

definition resolve_pending :: "wire_result \<Rightarrow> session \<Rightarrow> session" where
  "resolve_pending r s =
     (case ss_pending s of None \<Rightarrow> s | Some i \<Rightarrow> (resolve_exchange i r s)\<lparr>ss_pending := None\<rparr>)"

definition dropConnection :: "session_config \<Rightarrow> string \<Rightarrow> bool \<Rightarrow> session \<Rightarrow> session" where
  "dropConnection c code closeSocket s =
     (case ss_socket s of
        None \<Rightarrow> s
      | Some socket \<Rightarrow>
          scheduleReconnect c
            ((if closeSocket then note_act (TcpCloses socket) else (\<lambda>s. s))
              (emit (EvDisconnected code)
                (resolve_pending (WireUnknown code)
                  (s\<lparr>ss_retired := socket # ss_retired s, ss_socket := None, ss_received := [],
                    ss_state := Idle\<rparr>)))))"

datatype disconnect_reason = RemoteClose | RemoteError | ProtocolError

definition handleDisconnect :: "session_config \<Rightarrow> disconnect_reason \<Rightarrow> session \<Rightarrow> session" where
  "handleDisconnect c reason s =
     dropConnection c
       (case reason of
          ProtocolError \<Rightarrow> ''host.session.protocol-error''
        | RemoteClose \<Rightarrow> ''host.session.remote-close''
        | RemoteError \<Rightarrow> ''host.session.remote-error'')
       (reason \<noteq> RemoteClose) s"

section \<open>Connecting\<close>

definition establishConnection :: "session_config \<Rightarrow> bool \<Rightarrow> session \<Rightarrow> session" where
  "establishConnection c reconnecting s =
     (if ss_socket s \<noteq> None \<or> ss_connecting s \<noteq> None then s
      else
        (note_act (TcpConnect (pc_tls c))
          (emit EvConnecting (s\<lparr>ss_state := if reconnecting then Reconnecting else Connecting\<rparr>)))
        \<lparr>ss_connecting := Some Dialing\<rparr>)"

definition start :: "session_config \<Rightarrow> session \<Rightarrow> session" where
  "start c s = (if ss_disposed s then s else establishConnection c False (s\<lparr>ss_started := True\<rparr>))"

text \<open>An exchange is over: it has its result, and is not the one the next answer is for.\<close>

definition settle_exchange :: "nat \<Rightarrow> wire_result \<Rightarrow> session \<Rightarrow> session" where
  "settle_exchange i r s =
     (change_exchange i (\<lambda>x. x\<lparr>ex_phase := Settled r\<rparr>) s)
       \<lparr>ss_pending := (if ss_pending s = Some i then None else ss_pending s)\<rparr>"

definition dispatch_exchange :: "nat \<Rightarrow> byte list \<Rightarrow> session \<Rightarrow> session" where
  "dispatch_exchange i framed s =
     (case ss_socket s of
        None \<Rightarrow> settle_exchange i (WireNotSent ''host.session.not-connected'') s
      | Some socket \<Rightarrow>
          (change_exchange i (\<lambda>x. x\<lparr>ex_phase := AwaitsWrite, ex_generation := Some (ss_generation s)\<rparr>) s)
            \<lparr>ss_pending := Some i,
             ss_writes := ss_writes s @ [\<lparr>qw_owner = OfExchange i, qw_socket = socket, qw_bytes = framed\<rparr>]\<rparr>)"

text \<open>The exchange that waits for the connection goes on when the connection is there or failed.\<close>

definition connection_settled :: "string option \<Rightarrow> session \<Rightarrow> session" where
  "connection_settled failure s =
     (case current_phase s of
        Some (AwaitsConnection framed) \<Rightarrow>
          (case failure of
             Some code \<Rightarrow> settle_exchange (current_exchange s) (WireNotSent code) s
           | None \<Rightarrow> dispatch_exchange (current_exchange s) framed s)
      | _ \<Rightarrow> s)"

definition connection_failed :: "session_config \<Rightarrow> string \<Rightarrow> session \<Rightarrow> session" where
  "connection_failed c code s =
     connection_settled (Some code)
       ((if ss_disposed s then s
         else scheduleReconnect c (emit (EvDisconnected code) (s\<lparr>ss_state := Idle\<rparr>)))
        \<lparr>ss_connecting := None\<rparr>)"

datatype connect_outcome = Socket string | ConnectFailed | ConnectTimedOut

definition finishConnection :: "session_config \<Rightarrow> connect_outcome \<Rightarrow> session \<Rightarrow> session" where
  "finishConnection c outcome s =
     (case outcome of
        ConnectFailed \<Rightarrow> connection_failed c ''host.session.connect-failed'' s
      | ConnectTimedOut \<Rightarrow> connection_failed c ''host.session.connect-timeout'' (s\<lparr>ss_late := ss_late s + 1\<rparr>)
      | Socket socket \<Rightarrow>
          if ss_disposed s \<or> socket \<in> set (ss_retired s) then
            (note_act (TcpCloses socket) s)\<lparr>ss_connecting := Some Retiring\<rparr>
          else
            connection_settled None
              ((emit EvConnected
                 (s\<lparr>ss_socket := Some socket, ss_generation := ss_generation s + 1, ss_reconnectAttempt := 0,
                   ss_received := [], ss_state := Connected\<rparr>))\<lparr>ss_connecting := None\<rparr>))"

section \<open>Receiving\<close>

definition routePayload :: "session_config \<Rightarrow> byte list \<Rightarrow> session \<Rightarrow> session" where
  "routePayload c payload s =
     (let pending = map_option (\<lambda>i. ex_request (ss_exchanges s ! i)) (ss_pending s);
          t = note_act (Routed (ss_generation s) payload) s in
      case pc_routeFrame c payload (map_option (\<lambda>r. (rq_channel r, rq_idempotencyKey r)) pending) of
        None \<Rightarrow> handleDisconnect c ProtocolError (emit (EvProtocolError ''host.session.frame-router-failed'') t)
      | Some (ToResponse responseId) \<Rightarrow>
          (case ss_pending s of
             Some i \<Rightarrow>
               if ex_generation (ss_exchanges s ! i) \<noteq> Some (ss_generation s) then emit EvOrphanResponse t
               else
                 resolve_exchange i
                   (WireResponse
                     (case responseId of
                        Some r \<Rightarrow> r
                      | None \<Rightarrow> rq_idempotencyKey (ex_request (ss_exchanges s ! i)) @ '':response'')
                     payload)
                   (t\<lparr>ss_pending := None\<rparr>)
           | None \<Rightarrow> emit EvOrphanResponse t)
      | Some (ToInbound type messageId) \<Rightarrow>
          t\<lparr>ss_inbound := ss_inbound t @
             [\<lparr>in_generation = ss_generation s, in_messageId = messageId, in_payload = payload, in_type = type\<rparr>]\<rparr>
      | Some (Ignored _) \<Rightarrow> t)"

definition protocol_error :: "session_config \<Rightarrow> string \<Rightarrow> session \<Rightarrow> session" where
  "protocol_error c code s = handleDisconnect c ProtocolError (emit (EvProtocolError code) s)"

lemma ss_received_routePayload:
  "ss_received (routePayload c p s) = ss_received s \<or> ss_received (routePayload c p s) = []"
  by (auto simp: routePayload_def Let_def note_act_def emit_def emit_at_def handleDisconnect_def dropConnection_def
      scheduleReconnect_def resolve_pending_def resolve_exchange_def change_exchange_def
      split: option.splits frame_route.splits)

function drainFrames :: "session_config \<Rightarrow> session \<Rightarrow> session" where
  "drainFrames c s =
     (if ss_received s = [] then s
      else
        (case ff_decode (pc_frame c) (ss_received s) of
           Incomplete \<Rightarrow> s
         | InvalidFrame code \<Rightarrow> protocol_error c code s
         | CompleteFrame payload consumed \<Rightarrow>
             if consumed = 0 \<or> length (ss_received s) < consumed then
               protocol_error c ''host.session.frame-consumption-invalid'' s
             else
               (let t = routePayload c payload (s\<lparr>ss_received := drop consumed (ss_received s)\<rparr>) in
                if ss_socket t = None then t else drainFrames c t)))"
  by pat_completeness auto
termination
proof (relation "measure (\<lambda>(c, s). length (ss_received s))", goal_cases)
  case (2 c s payload consumed t)
  then show ?case
    using ss_received_routePayload [of c payload "s\<lparr>ss_received := drop consumed (ss_received s)\<rparr>"] by auto
qed simp

declare drainFrames.simps [simp del]

definition handleEvent :: "session_config \<Rightarrow> tcp_event \<Rightarrow> session \<Rightarrow> session" where
  "handleEvent c e s =
     (if ss_socket s \<noteq> Some (te_id e) then s
      else case te_kind e of
        TcpClose \<Rightarrow> handleDisconnect c RemoteClose s
      | TcpError \<Rightarrow> handleDisconnect c RemoteError s
      | TcpConnection \<Rightarrow> s
      | TcpData \<Rightarrow>
          (case te_data e of
             None \<Rightarrow> s
           | Some bs \<Rightarrow> drainFrames c (s\<lparr>ss_received := ss_received s @ bs\<rparr>)))"

section \<open>Exchanging\<close>

definition exchange_call :: "exchange_request \<Rightarrow> session \<Rightarrow> session" where
  "exchange_call r s =
     s\<lparr>ss_exchanges := ss_exchanges s @
       [\<lparr>ex_request = r, ex_phase = Queued, ex_generation = None, ex_answer = None\<rparr>]\<rparr>"

definition performExchange :: "session_config \<Rightarrow> nat \<Rightarrow> session \<Rightarrow> session" where
  "performExchange c i s =
     (if ss_disposed s then settle_exchange i (WireNotSent ''host.session.disposed'') s
      else case ff_encode (pc_frame c) (rq_payload (ex_request (ss_exchanges s ! i))) of
        Inl _ \<Rightarrow> settle_exchange i (WireNotSent ''host.session.request-frame-invalid'') s
      | Inr framed \<Rightarrow>
          if ss_socket s = None then
            start c (change_exchange i (\<lambda>x. x\<lparr>ex_phase := AwaitsConnection framed\<rparr>) s)
          else dispatch_exchange i framed s)"

definition next_exchange :: "session_config \<Rightarrow> session \<Rightarrow> session" where
  "next_exchange c s =
     (if current_phase s = Some Queued then performExchange c (current_exchange s) s else s)"

text \<open>What a dispatched exchange does when its write fails, or a timeout ends it.\<close>

definition exchange_failed :: "session_config \<Rightarrow> nat \<Rightarrow> string \<Rightarrow> session \<Rightarrow> session" where
  "exchange_failed c i code s =
     settle_exchange i (WireUnknown code)
       (if ex_generation (ss_exchanges s ! i) = Some (ss_generation s) then dropConnection c code True s else s)"

definition exchange_resumes :: "session \<Rightarrow> session" where
  "exchange_resumes s =
     (let i = current_exchange s in
      if current_phase s = Some AwaitsAnswer then
        (case ex_answer (ss_exchanges s ! i) of None \<Rightarrow> s | Some r \<Rightarrow> settle_exchange i r s)
      else s)"

definition response_timeout :: "session_config \<Rightarrow> session \<Rightarrow> session" where
  "response_timeout c s =
     (let i = current_exchange s in
      if current_phase s = Some AwaitsAnswer \<and> ex_answer (ss_exchanges s ! i) = None then
        exchange_failed c i ''host.session.response-timeout'' s
      else s)"

section \<open>Writing\<close>

text \<open>Writes run one after the other; the next one starts when the one before has settled.\<close>

definition start_write :: "session \<Rightarrow> session" where
  "start_write s =
     (case ss_writes s of
        w # _ \<Rightarrow>
          if ss_writing s then s
          else
            (note_act (TcpWrite (qw_owner w)
                (case qw_owner w of
                   OfExchange i \<Rightarrow> the (ex_generation (ss_exchanges s ! i))
                 | OfReply k \<Rightarrow> in_generation (ss_inbound s ! k))
                (qw_socket w) (qw_bytes w)) s)
              \<lparr>ss_writing := True\<rparr>
      | [] \<Rightarrow> s)"

datatype write_outcome = Written | WriteFailed | WriteTimedOut

definition write_settled :: "session_config \<Rightarrow> write_outcome \<Rightarrow> session \<Rightarrow> session" where
  "write_settled c outcome s =
     (case ss_writes s of
        w # ws \<Rightarrow>
          if \<not> ss_writing s then s
          else
            (let t = s\<lparr>ss_writes := ws, ss_writing := False\<rparr> in
             case qw_owner w of
               OfReply k \<Rightarrow>
                 note_act
                   (InboundReply k
                     (if outcome = Written then ReplySent else ReplyUnknown ''host.session.inbound-reply-failed'')) t
             | OfExchange i \<Rightarrow>
                 (case outcome of
                    Written \<Rightarrow> change_exchange i (\<lambda>x. x\<lparr>ex_phase := AwaitsAnswer\<rparr>) t
                  | WriteFailed \<Rightarrow> exchange_failed c i ''host.session.write-failed'' t
                  | WriteTimedOut \<Rightarrow> exchange_failed c i ''host.session.write-timeout'' t))
      | [] \<Rightarrow> s)"

section \<open>Inbound messages\<close>

definition respond :: "session_config \<Rightarrow> nat \<Rightarrow> byte list \<Rightarrow> session \<Rightarrow> session" where
  "respond c k payload s =
     (case ss_socket s of
        None \<Rightarrow> note_act (InboundReply k (ReplyNotSent ''host.session.inbound-reply-stale'')) s
      | Some socket \<Rightarrow>
          if in_generation (ss_inbound s ! k) \<noteq> ss_generation s then
            note_act (InboundReply k (ReplyNotSent ''host.session.inbound-reply-stale'')) s
          else
            (case ff_encode (pc_frame c) payload of
               Inl _ \<Rightarrow> note_act (InboundReply k (ReplyNotSent ''host.session.inbound-reply-frame-invalid'')) s
             | Inr framed \<Rightarrow>
                 s\<lparr>ss_writes := ss_writes s @ [\<lparr>qw_owner = OfReply k, qw_socket = socket, qw_bytes = framed\<rparr>]\<rparr>))"

text \<open>A dispatcher that rejects answers \<^term>\<open>None\<close>.\<close>

definition inbound_settled :: "nat \<Rightarrow> inbound_result option \<Rightarrow> session \<Rightarrow> session" where
  "inbound_settled k result s =
     (let m = ss_inbound s ! k in
      case result of
        Some InboundUnhandled \<Rightarrow> emit_at (in_generation m) (EvInboundUnhandled (in_type m)) s
      | Some (InboundFailed _ code) \<Rightarrow> emit_at (in_generation m) (EvInboundFailed (in_type m) code) s
      | Some (InboundHandled _) \<Rightarrow> s
      | None \<Rightarrow>
          emit_at (in_generation m) (EvInboundFailed (in_type m) ''host.session.inbound-dispatch-failed'') s)"

section \<open>Disposing\<close>

definition dispose_session :: "session \<Rightarrow> session" where
  "dispose_session s =
     (if ss_disposed s then s
      else
        (let t = resolve_pending (WireUnknown ''host.session.disposed-after-dispatch'')
                   (s\<lparr>ss_disposed := True, ss_started := False, ss_timer := False, ss_state := Disposed\<rparr>) in
         case ss_socket s of
           None \<Rightarrow> emit EvDisposed t
         | Some socket \<Rightarrow>
             (note_act (TcpCloses socket) (t\<lparr>ss_socket := None, ss_retired := socket # ss_retired t\<rparr>))
               \<lparr>ss_closing := True\<rparr>))"

section \<open>Steps\<close>

datatype session_input =
    Start
  | Exchange exchange_request
  | Dispose
  | NextExchange
  | ExchangeResumes
  | ConnectSettles connect_outcome
  | RetiredCloses
  | LateSocket string
  | TcpEvent tcp_event
  | StartWrite
  | WriteSettles write_outcome
  | ResponseTimeout
  | ReconnectTimer
  | InboundResponds nat "byte list"
  | InboundSettles nat "inbound_result option"
  | DisposeCloses

text \<open>
  \<open>NextExchange\<close>, \<open>ExchangeResumes\<close> and \<open>StartWrite\<close> are what the promises do once the running
  code has returned. They are inputs of their own: the model has every run of the code, and those
  in which such a step is late as well.
\<close>

fun session_step :: "session_config \<Rightarrow> session_input \<Rightarrow> session \<Rightarrow> session" where
  "session_step c Start s = start c s"
| "session_step c (Exchange r) s = exchange_call r s"
| "session_step c Dispose s = dispose_session s"
| "session_step c NextExchange s = next_exchange c s"
| "session_step c ExchangeResumes s = exchange_resumes s"
| "session_step c (ConnectSettles outcome) s =
     (if ss_connecting s = Some Dialing then finishConnection c outcome s else s)"
| "session_step c RetiredCloses s =
     (if ss_connecting s = Some Retiring then connection_failed c ''host.session.connect-failed'' s else s)"
| "session_step c (LateSocket socket) s =
     (if 0 < ss_late s then
        note_act (TcpCloses socket) (s\<lparr>ss_late := ss_late s - 1, ss_retired := socket # ss_retired s\<rparr>)
      else s)"
| "session_step c (TcpEvent e) s = handleEvent c e s"
| "session_step c StartWrite s = start_write s"
| "session_step c (WriteSettles outcome) s = write_settled c outcome s"
| "session_step c ResponseTimeout s = response_timeout c s"
| "session_step c ReconnectTimer s =
     (if ss_timer s then establishConnection c True (s\<lparr>ss_timer := False\<rparr>) else s)"
| "session_step c (InboundResponds k payload) s = (if k < length (ss_inbound s) then respond c k payload s else s)"
| "session_step c (InboundSettles k result) s = (if k < length (ss_inbound s) then inbound_settled k result s else s)"
| "session_step c DisposeCloses s =
     (if ss_closing s then emit EvDisposed (s\<lparr>ss_closing := False\<rparr>) else s)"

inductive reachable_session :: "session_config \<Rightarrow> session \<Rightarrow> bool" for c where
  created: "reachable_session c new_session"
| stepped: "reachable_session c s \<Longrightarrow> reachable_session c (session_step c i s)"

fun run_session :: "session_config \<Rightarrow> session_input list \<Rightarrow> session \<Rightarrow> session" where
  "run_session c [] s = s"
| "run_session c (i # is) s = run_session c is (session_step c i s)"

lemma reachable_run_session: "reachable_session c s \<Longrightarrow> reachable_session c (run_session c is s)"
  by (induction "is" arbitrary: s) (auto intro: stepped)

end
