(* ===== verification/Session_Laws.thy ===== *)
theory Session_Laws
  imports Host_Session
begin

text \<open>
  What holds in every state a host session can reach: the invariant of the connection, the queue
  of exchanges and the promise of the pending one, and that every step keeps it.
\<close>

section \<open>The invariant\<close>

definition not_sent :: "wire_result \<Rightarrow> bool" where
  "not_sent r \<longleftrightarrow> (\<exists>code. r = WireNotSent code)"

definition is_response :: "wire_result \<Rightarrow> bool" where
  "is_response r \<longleftrightarrow> (\<exists>k p. r = WireResponse k p)"

lemma result_kinds [simp]:
  "not_sent (WireNotSent code)" "\<not> not_sent (WireUnknown code)" "\<not> not_sent (WireResponse k p)"
  "is_response (WireResponse k p)" "\<not> is_response (WireUnknown code)" "\<not> is_response (WireNotSent code)"
  by (simp_all add: not_sent_def is_response_def)

definition settled_with :: "exchange \<Rightarrow> wire_result option" where
  "settled_with x = (case ex_phase x of Settled r \<Rightarrow> Some r | _ \<Rightarrow> None)"

lemma exchange_done_settled: "exchange_done x \<longleftrightarrow> settled_with x \<noteq> None"
  by (simp add: exchange_done_def settled_with_def split: exchange_phase.split)

definition awaits_connection :: "exchange_phase \<Rightarrow> bool" where
  "awaits_connection p \<longleftrightarrow> (\<exists>f. p = AwaitsConnection f)"

lemma awaits_connection_simps [simp]:
  "awaits_connection (AwaitsConnection f)" "\<not> awaits_connection Queued" "\<not> awaits_connection AwaitsWrite"
  "\<not> awaits_connection AwaitsAnswer" "\<not> awaits_connection (Settled r)"
  by (simp_all add: awaits_connection_def)

text \<open>
  An exchange has a generation from when its frame is handed over to be written; only then can it
  have an answer, and a result other than that it was not sent.
\<close>

definition exchange_ok :: "nat \<Rightarrow> exchange \<Rightarrow> bool" where
  "exchange_ok generation x \<longleftrightarrow>
     (case ex_generation x of
        None \<Rightarrow> ex_answer x = None \<and> ex_phase x \<noteq> AwaitsWrite \<and> ex_phase x \<noteq> AwaitsAnswer \<and>
          (\<forall>r. settled_with x = Some r \<longrightarrow> not_sent r)
      | Some g \<Rightarrow> g \<le> generation \<and> ex_phase x \<noteq> Queued \<and> \<not> awaits_connection (ex_phase x) \<and>
          (\<forall>r. ex_answer x = Some r \<or> settled_with x = Some r \<longrightarrow> \<not> not_sent r))"

definition live :: "session \<Rightarrow> exchange \<Rightarrow> bool" where
  "live s x \<longleftrightarrow> ex_generation x = Some (ss_generation s) \<and> ss_socket s \<noteq> None"

definition answered :: "exchange \<Rightarrow> bool" where
  "answered x \<longleftrightarrow> (\<exists>r. ex_answer x = Some r \<and> is_response r) \<and> (\<forall>r. settled_with x = Some r \<longrightarrow> is_response r)"

definition connection_ok :: "session \<Rightarrow> bool" where
  "connection_ok s \<longleftrightarrow>
     (ss_connecting s \<noteq> None \<longrightarrow> ss_socket s = None) \<and>
     (ss_disposed s \<longrightarrow> ss_socket s = None \<and> \<not> ss_timer s \<and> \<not> ss_started s)"

definition queue_ok :: "exchange list \<Rightarrow> bool" where
  "queue_ok xs \<longleftrightarrow>
     (\<forall>i j. i < j \<longrightarrow> j < length xs \<longrightarrow> \<not> exchange_done (xs ! i) \<longrightarrow> ex_phase (xs ! j) = Queued)"

definition pending_ok :: "session \<Rightarrow> bool" where
  "pending_ok s \<longleftrightarrow>
     (\<forall>i. ss_pending s = Some i \<longrightarrow>
        i < length (ss_exchanges s) \<and> live s (ss_exchanges s ! i) \<and> ex_answer (ss_exchanges s ! i) = None \<and>
        \<not> exchange_done (ss_exchanges s ! i))"

definition live_ok :: "session \<Rightarrow> bool" where
  "live_ok s \<longleftrightarrow>
     (\<forall>i < length (ss_exchanges s). live s (ss_exchanges s ! i) \<longrightarrow>
        ss_pending s = Some i \<or> answered (ss_exchanges s ! i))"

definition paired :: "exchange list \<Rightarrow> bool" where
  "paired xs \<longleftrightarrow>
     (\<forall>i j. i < j \<longrightarrow> j < length xs \<longrightarrow> ex_generation (xs ! j) \<noteq> None \<longrightarrow>
        ex_generation (xs ! i) = ex_generation (xs ! j) \<longrightarrow>
        (\<exists>r. settled_with (xs ! i) = Some r \<and> is_response r))"

definition exchanges_ok :: "session \<Rightarrow> bool" where
  "exchanges_ok s \<longleftrightarrow> (\<forall>x \<in> set (ss_exchanges s). exchange_ok (ss_generation s) x)"

definition session_ok :: "session \<Rightarrow> bool" where
  "session_ok s \<longleftrightarrow>
     connection_ok s \<and> exchanges_ok s \<and> queue_ok (ss_exchanges s) \<and> pending_ok s \<and> live_ok s \<and>
     paired (ss_exchanges s)"

lemma session_okI:
  "connection_ok s \<Longrightarrow> exchanges_ok s \<Longrightarrow> queue_ok (ss_exchanges s) \<Longrightarrow> pending_ok s \<Longrightarrow> live_ok s \<Longrightarrow>
   paired (ss_exchanges s) \<Longrightarrow> session_ok s"
  by (simp add: session_ok_def)

lemma session_okD:
  assumes "session_ok s"
  shows "connection_ok s" "exchanges_ok s" "queue_ok (ss_exchanges s)" "pending_ok s" "live_ok s"
    "paired (ss_exchanges s)"
  using assms by (simp_all add: session_ok_def)

section \<open>What the invariant does not see\<close>

definition same_core :: "session \<Rightarrow> session \<Rightarrow> bool" where
  "same_core s t \<longleftrightarrow>
     ss_exchanges s = ss_exchanges t \<and> ss_generation s = ss_generation t \<and> ss_socket s = ss_socket t \<and>
     ss_pending s = ss_pending t"

lemma session_ok_core:
  "same_core s t \<Longrightarrow> connection_ok t \<Longrightarrow> session_ok s \<Longrightarrow> session_ok t"
  unfolding same_core_def session_ok_def exchanges_ok_def pending_ok_def live_ok_def live_def by (elim conjE) simp

lemma session_ok_log [simp]:
  "session_ok (note_act a s) = session_ok s" "session_ok (emit e s) = session_ok s"
  "session_ok (emit_at g e s) = session_ok s"
  by (simp_all add: note_act_def emit_def emit_at_def session_ok_def connection_ok_def exchanges_ok_def
      pending_ok_def live_ok_def live_def)

lemma session_ok_simps [simp]:
  "session_ok (s\<lparr>ss_writes := ws\<rparr>) = session_ok s" "session_ok (s\<lparr>ss_writing := b\<rparr>) = session_ok s"
  "session_ok (s\<lparr>ss_inbound := ms\<rparr>) = session_ok s" "session_ok (s\<lparr>ss_closing := b\<rparr>) = session_ok s"
  "session_ok (s\<lparr>ss_late := n\<rparr>) = session_ok s" "session_ok (s\<lparr>ss_retired := r\<rparr>) = session_ok s"
  "session_ok (s\<lparr>ss_received := bs\<rparr>) = session_ok s" "session_ok (s\<lparr>ss_state := st\<rparr>) = session_ok s"
  "session_ok (s\<lparr>ss_reconnectAttempt := n\<rparr>) = session_ok s" "session_ok (s\<lparr>ss_log := l\<rparr>) = session_ok s"
  by (simp_all add: session_ok_def connection_ok_def exchanges_ok_def pending_ok_def live_ok_def live_def)

lemma session_ok_quiet:
  "session_ok s \<Longrightarrow> session_ok (s\<lparr>ss_connecting := None\<rparr>)"
  "session_ok s \<Longrightarrow> session_ok (s\<lparr>ss_timer := False\<rparr>)"
  "session_ok s \<Longrightarrow> \<not> ss_disposed s \<Longrightarrow> session_ok (s\<lparr>ss_timer := True\<rparr>)"
  "session_ok s \<Longrightarrow> \<not> ss_disposed s \<Longrightarrow> session_ok (s\<lparr>ss_started := True\<rparr>)"
  "session_ok s \<Longrightarrow> ss_socket s = None \<Longrightarrow> session_ok (s\<lparr>ss_connecting := Some k\<rparr>)"
  by (simp_all add: session_ok_def connection_ok_def exchanges_ok_def pending_ok_def live_ok_def live_def)

lemma session_ok_reconnect: "session_ok s \<Longrightarrow> session_ok (scheduleReconnect c s)"
  by (simp add: scheduleReconnect_def session_ok_quiet emit_def emit_at_def note_act_def)

lemma session_ok_establish: "session_ok s \<Longrightarrow> session_ok (establishConnection c b s)"
  by (simp add: establishConnection_def session_ok_quiet emit_def emit_at_def note_act_def)

lemma session_ok_start: "session_ok s \<Longrightarrow> session_ok (start c s)"
  by (simp add: start_def session_ok_quiet session_ok_establish)

section \<open>The queue\<close>

lemma takeWhile_current:
  "length (takeWhile P xs) < length xs \<Longrightarrow> \<not> P (xs ! length (takeWhile P xs))"
  by (induction xs) auto

lemma takeWhile_before: "i < length (takeWhile P xs) \<Longrightarrow> P (xs ! i)"
  by (metis nth_mem set_takeWhileD takeWhile_nth)

lemma current_phaseD:
  assumes "current_phase s = Some p"
  shows "current_exchange s < length (ss_exchanges s)"
    and "ex_phase (ss_exchanges s ! current_exchange s) = p"
    and "\<not> exchange_done (ss_exchanges s ! current_exchange s)"
    and "\<And>j. j < current_exchange s \<Longrightarrow> exchange_done (ss_exchanges s ! j)"
  using assms takeWhile_current [of exchange_done "ss_exchanges s"]
  by (auto simp: current_phase_def current_exchange_def dest: takeWhile_before split: if_splits)

lemma exchanges_okD: "exchanges_ok s \<Longrightarrow> i < length (ss_exchanges s) \<Longrightarrow> exchange_ok (ss_generation s) (ss_exchanges s ! i)"
  by (simp add: exchanges_ok_def)

lemma queue_okD:
  "queue_ok xs \<Longrightarrow> i < j \<Longrightarrow> j < length xs \<Longrightarrow> \<not> exchange_done (xs ! i) \<Longrightarrow> ex_phase (xs ! j) = Queued"
  by (simp add: queue_ok_def)

text \<open>Before an exchange that has begun, every exchange is done.\<close>

lemma begun_before:
  "queue_ok xs \<Longrightarrow> j < length xs \<Longrightarrow> ex_phase (xs ! j) \<noteq> Queued \<Longrightarrow> i < j \<Longrightarrow> exchange_done (xs ! i)"
  using queue_okD by blast

lemma queue_ok_update:
  assumes "queue_ok xs" and "i < length xs"
    and "ex_phase x = Queued \<or> (\<forall>j < i. exchange_done (xs ! j))"
    and "exchange_done x \<or> \<not> exchange_done (xs ! i)"
  shows "queue_ok (xs[i := x])"
  unfolding queue_ok_def
proof (intro allI impI)
  fix j k assume jk: "j < k" "k < length (xs[i := x])" and open': "\<not> exchange_done (xs[i := x] ! j)"
  show "ex_phase (xs[i := x] ! k) = Queued"
  proof (cases "k = i")
    case True
    then show ?thesis using assms(2,3) jk open' by auto
  next
    case False
    have "\<not> exchange_done (xs ! j)" using open' assms(2,4) jk by (cases "j = i") auto
    then show ?thesis using queue_okD [OF assms(1) jk(1)] jk(2) False by simp
  qed
qed

section \<open>Changing one exchange\<close>

lemma paired_update:
  assumes "paired xs" and "i < length xs" and "ex_generation x = ex_generation (xs ! i)"
    and "\<And>r. settled_with (xs ! i) = Some r \<Longrightarrow> settled_with x = Some r"
  shows "paired (xs[i := x])"
  unfolding paired_def
proof (intro allI impI)
  fix j k
  assume jk: "j < k" "k < length (xs[i := x])" and g: "ex_generation (xs[i := x] ! k) \<noteq> None"
    and eq: "ex_generation (xs[i := x] ! j) = ex_generation (xs[i := x] ! k)"
  have gen: "ex_generation (xs[i := x] ! n) = ex_generation (xs ! n)" for n
    using assms(2,3) by (cases "n = i") auto
  obtain r where r: "settled_with (xs ! j) = Some r" "is_response r"
    using assms(1) jk g eq unfolding gen paired_def by auto
  then have "settled_with (xs[i := x] ! j) = Some r"
    using assms(2,4) by (cases "j = i") auto
  then show "\<exists>r. settled_with (xs[i := x] ! j) = Some r \<and> is_response r" using r by blast
qed

lemma exchanges_ok_update:
  assumes "exchanges_ok s" and "exchange_ok (ss_generation s) x"
    and "ss_exchanges t = (ss_exchanges s)[i := x]" and "ss_generation t = ss_generation s"
  shows "exchanges_ok t"
  using assms set_update_subset_insert [of "ss_exchanges s" i x] by (auto simp: exchanges_ok_def)

lemma settle_ok:
  assumes ok: "session_ok s" and i: "i < length (ss_exchanges s)" "\<not> exchange_done (ss_exchanges s ! i)"
    and before: "\<forall>j < i. exchange_done (ss_exchanges s ! j)"
    and sent: "not_sent r \<longleftrightarrow> ex_generation (ss_exchanges s ! i) = None"
    and live: "live s (ss_exchanges s ! i) \<Longrightarrow> ss_pending s \<noteq> Some i \<and> is_response r"
  shows "session_ok (settle_exchange i r s)"
proof (rule session_okI)
  note ok = session_okD [OF ok]
  let ?x = "(ss_exchanges s ! i)\<lparr>ex_phase := Settled r\<rparr>" and ?t = "settle_exchange i r s"
  have xs: "ss_exchanges ?t = (ss_exchanges s)[i := ?x]"
    by (simp add: settle_exchange_def change_exchange_def)
  have same: "ss_generation ?t = ss_generation s" "ss_socket ?t = ss_socket s"
    by (simp_all add: settle_exchange_def change_exchange_def)
  have pending: "ss_pending ?t = (if ss_pending s = Some i then None else ss_pending s)"
    by (simp add: settle_exchange_def change_exchange_def)
  have settled: "settled_with ?x = Some r" "exchange_done ?x"
    by (simp_all add: settled_with_def exchange_done_def)
  show "connection_ok ?t" using ok(1) by (simp add: connection_ok_def settle_exchange_def change_exchange_def)
  have "exchange_ok (ss_generation s) ?x"
    using exchanges_okD [OF ok(2) i(1)] sent settled by (auto simp: exchange_ok_def split: option.splits)
  then show "exchanges_ok ?t" by (rule exchanges_ok_update [OF ok(2) _ xs same(1)])
  show "queue_ok (ss_exchanges ?t)"
    unfolding xs by (intro queue_ok_update ok(3) i(1)) (use before settled in auto)
  show "pending_ok ?t"
    using ok(4) unfolding pending_ok_def pending live_def xs same
    by (auto simp: nth_list_update)
  show "live_ok ?t"
    using ok(5) live settled i(1) unfolding live_ok_def live_def pending xs same
    by (auto simp: nth_list_update answered_def)
  show "paired (ss_exchanges ?t)"
    unfolding xs using i(2) by (intro paired_update ok(6) i(1)) (auto simp: exchange_done_settled)
qed

text \<open>An exchange goes on to its next wait.\<close>

lemma change_phase_ok:
  assumes ok: "session_ok s" and i: "i < length (ss_exchanges s)" "\<not> exchange_done (ss_exchanges s ! i)"
    and before: "\<forall>j < i. exchange_done (ss_exchanges s ! j)"
    and x: "exchange_ok (ss_generation s) ((ss_exchanges s ! i)\<lparr>ex_phase := p\<rparr>)" "\<And>r. p \<noteq> Settled r"
  shows "session_ok (change_exchange i (\<lambda>x. x\<lparr>ex_phase := p\<rparr>) s)"
proof (rule session_okI)
  note ok = session_okD [OF ok]
  let ?x = "(ss_exchanges s ! i)\<lparr>ex_phase := p\<rparr>" and ?t = "change_exchange i (\<lambda>x. x\<lparr>ex_phase := p\<rparr>) s"
  have xs: "ss_exchanges ?t = (ss_exchanges s)[i := ?x]" by (simp add: change_exchange_def)
  have same: "ss_generation ?t = ss_generation s" "ss_socket ?t = ss_socket s" "ss_pending ?t = ss_pending s"
    by (simp_all add: change_exchange_def)
  have unsettled: "settled_with (ss_exchanges s ! i) = None"
    using i(2) by (simp add: exchange_done_settled)
  have settled: "settled_with ?x = None" "\<not> exchange_done ?x"
    using x(2) by (auto simp: settled_with_def exchange_done_def split: exchange_phase.split)
  show "connection_ok ?t" using ok(1) by (simp add: connection_ok_def change_exchange_def)
  show "exchanges_ok ?t" using ok(2) x(1) xs same(1) by (rule exchanges_ok_update)
  show "queue_ok (ss_exchanges ?t)"
    unfolding xs by (intro queue_ok_update ok(3) i(1)) (use before i(2) in auto)
  show "pending_ok ?t"
    using ok(4) settled i(1) unfolding pending_ok_def live_def xs same by (auto simp: nth_list_update)
  show "live_ok ?t"
    using ok(5) settled unsettled i(1) unfolding live_ok_def live_def xs same by (auto simp: nth_list_update answered_def)
  show "paired (ss_exchanges ?t)"
    unfolding xs using unsettled by (intro paired_update ok(6) i(1)) auto
qed

text \<open>
  The promise of the pending exchange is resolved: with an answer, or with that its answer will not
  come because the connection has been given up.
\<close>

lemma resolve_ok:
  assumes ok: "session_ok s" and p: "ss_pending s = Some i"
    and t: "ss_exchanges t = ss_exchanges s" "ss_generation t = ss_generation s" "connection_ok t"
    and r: "\<not> not_sent r" "ss_socket t = None \<or> ss_socket t = ss_socket s \<and> is_response r"
  shows "session_ok (resolve_exchange i r (t\<lparr>ss_pending := None\<rparr>))"
proof (rule session_okI)
  note ok = session_okD [OF ok]
  have i: "i < length (ss_exchanges s)" "live s (ss_exchanges s ! i)" "ex_answer (ss_exchanges s ! i) = None"
    "\<not> exchange_done (ss_exchanges s ! i)" using ok(4) p by (simp_all add: pending_ok_def)
  let ?x = "(ss_exchanges s ! i)\<lparr>ex_answer := Some r\<rparr>" and ?t = "resolve_exchange i r (t\<lparr>ss_pending := None\<rparr>)"
  have xs: "ss_exchanges ?t = (ss_exchanges s)[i := ?x]"
    using t i(3) by (simp add: resolve_exchange_def change_exchange_def)
  have same: "ss_generation ?t = ss_generation s" "ss_socket ?t = ss_socket t" "ss_pending ?t = None"
    using t by (simp_all add: resolve_exchange_def change_exchange_def)
  have settled: "settled_with ?x = settled_with (ss_exchanges s ! i)" "settled_with ?x = None"
    "ex_phase ?x = ex_phase (ss_exchanges s ! i)"
    using i(4) by (simp_all add: settled_with_def exchange_done_def split: exchange_phase.splits)
  show "connection_ok ?t" using t(3) by (simp add: connection_ok_def resolve_exchange_def change_exchange_def)
  have "exchange_ok (ss_generation s) ?x"
    using exchanges_okD [OF ok(2) i(1)] settled i(2) r(1)
    by (auto simp: exchange_ok_def live_def split: option.splits)
  then show "exchanges_ok ?t" by (rule exchanges_ok_update [OF ok(2) _ xs same(1)])
  show "queue_ok (ss_exchanges ?t)"
    unfolding xs
  proof (intro queue_ok_update ok(3) i(1))
    have "exchange_ok (ss_generation s) (ss_exchanges s ! i)" using ok(2) i(1) by (rule exchanges_okD)
    then have "ex_phase (ss_exchanges s ! i) \<noteq> Queued" using i(2) by (auto simp: exchange_ok_def live_def)
    then show "ex_phase ?x = Queued \<or> (\<forall>j < i. exchange_done (ss_exchanges s ! j))"
      using begun_before [OF ok(3) i(1)] by blast
    show "exchange_done ?x \<or> \<not> exchange_done (ss_exchanges s ! i)" using i(4) by simp
  qed
  show "pending_ok ?t" by (simp add: pending_ok_def same)
  show "live_ok ?t"
  proof (cases "ss_socket t = None")
    case False
    then have "is_response r" "ss_socket s \<noteq> None" using r(2) by auto
    then show ?thesis
      using ok(5) p settled(2) i(1) False unfolding live_ok_def live_def xs same
      by (auto simp: nth_list_update answered_def)
  qed (simp add: live_ok_def live_def same)
  show "paired (ss_exchanges ?t)"
    unfolding xs using settled(1) by (intro paired_update ok(6) i(1)) auto
qed

lemma no_pending_ok:
  assumes ok: "session_ok s" and p: "ss_pending s = None"
    and t: "ss_exchanges t = ss_exchanges s" "ss_generation t = ss_generation s" "ss_pending t = None"
      "connection_ok t" "ss_socket t = None"
  shows "session_ok t"
  using session_okD [OF ok] t
  by (intro session_okI) (simp_all add: exchanges_ok_def pending_ok_def live_ok_def live_def)

lemma resolve_pending_ok:
  assumes ok: "session_ok s"
    and t: "ss_exchanges t = ss_exchanges s" "ss_generation t = ss_generation s" "ss_pending t = ss_pending s"
      "connection_ok t" "ss_socket t = None"
    and r: "\<not> not_sent r"
  shows "session_ok (resolve_pending r t)"
proof (cases "ss_pending s")
  case None
  then show ?thesis using no_pending_ok [OF ok None, of t] t by (simp add: resolve_pending_def)
next
  case (Some i)
  have "(resolve_exchange i r t)\<lparr>ss_pending := None\<rparr> = resolve_exchange i r (t\<lparr>ss_pending := None\<rparr>)"
    by (simp add: resolve_exchange_def change_exchange_def)
  then show ?thesis
    using resolve_ok [OF ok Some t(1,2,4) r] t(3,5) Some by (simp add: resolve_pending_def)
qed

section \<open>Steps\<close>

lemma resolve_pending_fields [simp]:
  "ss_socket (resolve_pending r s) = ss_socket s" "ss_generation (resolve_pending r s) = ss_generation s"
  "ss_connecting (resolve_pending r s) = ss_connecting s" "ss_disposed (resolve_pending r s) = ss_disposed s"
  "ss_timer (resolve_pending r s) = ss_timer s" "ss_started (resolve_pending r s) = ss_started s"
  "length (ss_exchanges (resolve_pending r s)) = length (ss_exchanges s)"
  "ss_pending (resolve_pending r s) = None"
  by (auto simp: resolve_pending_def resolve_exchange_def change_exchange_def split: option.split)

lemma drop_ok:
  assumes "session_ok s"
  shows "session_ok (dropConnection c code b s)"
proof (cases "ss_socket s")
  case (Some socket)
  let ?t = "s\<lparr>ss_retired := socket # ss_retired s, ss_socket := None, ss_received := [], ss_state := Idle\<rparr>"
  have "connection_ok ?t" using session_okD(1) [OF assms] by (simp add: connection_ok_def)
  then have "session_ok (resolve_pending (WireUnknown code) ?t)"
    by (intro resolve_pending_ok [OF assms]) simp_all
  then show ?thesis using Some by (simp add: dropConnection_def session_ok_reconnect)
qed (use assms in \<open>simp add: dropConnection_def\<close>)

lemma drop_live: "ss_socket (dropConnection c code b s) = None"
  by (simp add: dropConnection_def scheduleReconnect_def emit_def emit_at_def note_act_def split: option.split)

lemma protocol_error_ok: "session_ok s \<Longrightarrow> session_ok (protocol_error c code s)"
  by (simp add: protocol_error_def handleDisconnect_def drop_ok)

lemma route_ok:
  assumes ok: "session_ok s"
  shows "session_ok (routePayload c p s)"
proof -
  let ?t = "note_act (Routed (ss_generation s) p) s"
  have answer: "session_ok (resolve_exchange i (WireResponse k p) (?t\<lparr>ss_pending := None\<rparr>))"
    if "ss_pending s = Some i" for i k
    using session_okD(1) [OF ok]
    by (intro resolve_ok [OF ok that]) (simp_all add: note_act_def connection_ok_def)
  show ?thesis
    using ok answer
    by (simp add: routePayload_def Let_def handleDisconnect_def drop_ok split: option.split frame_route.split)
qed

lemma drain_ok: "session_ok s \<Longrightarrow> session_ok (drainFrames c s)"
proof (induction c s rule: drainFrames.induct)
  case (1 c s)
  show ?case
  proof (cases "ss_received s = []")
    case False
    show ?thesis
    proof (cases "ff_decode (pc_frame c) (ss_received s)")
      case (CompleteFrame p n)
      then show ?thesis
        using False "1.prems" "1.IH" [OF False CompleteFrame _ refl]
          route_ok [of "s\<lparr>ss_received := drop n (ss_received s)\<rparr>" c p]
        by (subst drainFrames.simps) (simp add: Let_def protocol_error_ok)
    qed (use "1.prems" False in \<open>simp_all add: drainFrames.simps [of c s] protocol_error_ok\<close>)
  qed (use "1.prems" in \<open>simp add: drainFrames.simps [of c s]\<close>)
qed

lemma event_ok: "session_ok s \<Longrightarrow> session_ok (handleEvent c e s)"
  by (simp add: handleEvent_def handleDisconnect_def drop_ok drain_ok split: tcp_event_kind.split option.split)

lemma dispatch_ok:
  assumes ok: "session_ok s" and i: "i < length (ss_exchanges s)"
    and phase: "ex_phase (ss_exchanges s ! i) = Queued \<or> awaits_connection (ex_phase (ss_exchanges s ! i))"
    and before: "\<forall>j < i. exchange_done (ss_exchanges s ! j)"
  shows "session_ok (dispatch_exchange i framed s)"
proof (cases "ss_socket s")
  have open': "\<not> exchange_done (ss_exchanges s ! i)"
    using phase by (auto simp: exchange_done_def awaits_connection_def)
  have generation: "ex_generation (ss_exchanges s ! i) = None"
    using exchanges_okD [OF session_okD(2) [OF ok] i] phase by (auto simp: exchange_ok_def split: option.splits)
  {
    case None
    then show ?thesis
      using settle_ok [OF ok i open' before] generation by (simp add: dispatch_exchange_def live_def)
  next
    case (Some socket)
    show ?thesis
    proof (rule session_okI)
      note ok = session_okD [OF ok]
      let ?x = "(ss_exchanges s ! i)\<lparr>ex_phase := AwaitsWrite, ex_generation := Some (ss_generation s)\<rparr>"
      let ?t = "dispatch_exchange i framed s"
      have xs: "ss_exchanges ?t = (ss_exchanges s)[i := ?x]"
        using Some by (simp add: dispatch_exchange_def change_exchange_def)
      have same: "ss_generation ?t = ss_generation s" "ss_socket ?t = ss_socket s" "ss_pending ?t = Some i"
        using Some by (simp_all add: dispatch_exchange_def change_exchange_def)
      have x: "exchange_ok (ss_generation s) (ss_exchanges s ! i)" using ok(2) i by (rule exchanges_okD)
      have answer: "ex_answer (ss_exchanges s ! i) = None" using x generation by (simp add: exchange_ok_def)
      have settled: "settled_with ?x = None" "\<not> exchange_done ?x"
        by (simp_all add: settled_with_def exchange_done_def)
      show "connection_ok ?t"
        using ok(1) Some by (simp add: connection_ok_def dispatch_exchange_def change_exchange_def)
      have "exchange_ok (ss_generation s) ?x"
        using answer settled by (simp add: exchange_ok_def)
      then show "exchanges_ok ?t" by (rule exchanges_ok_update [OF ok(2) _ xs same(1)])
      show "queue_ok (ss_exchanges ?t)"
        unfolding xs by (intro queue_ok_update ok(3) i) (use before open' in auto)
      show "pending_ok ?t"
        using answer settled i Some unfolding pending_ok_def live_def xs same by auto
      have no_pending: "ss_pending s = Some j \<Longrightarrow> j = i" for j
      proof (rule ccontr)
        assume p: "ss_pending s = Some j" and "j \<noteq> i"
        then have j: "j < length (ss_exchanges s)" "\<not> exchange_done (ss_exchanges s ! j)"
          "ex_generation (ss_exchanges s ! j) = Some (ss_generation s)"
          using ok(4) by (simp_all add: pending_ok_def live_def)
        then have "ex_phase (ss_exchanges s ! j) \<noteq> Queued"
          using exchanges_okD [OF ok(2) j(1)] by (auto simp: exchange_ok_def)
        then show False
          using before queue_okD [OF ok(3) _ j(1) open'] j(2) \<open>j \<noteq> i\<close> by (cases "j < i") auto
      qed
      show "live_ok ?t"
        using ok(5) no_pending i unfolding live_ok_def live_def xs same
        by (auto simp: nth_list_update answered_def)
      show "paired (ss_exchanges ?t)"
        unfolding paired_def xs
      proof (intro allI impI)
        fix j k
        assume jk: "j < k" "k < length ((ss_exchanges s)[i := ?x])"
          and g: "ex_generation ((ss_exchanges s)[i := ?x] ! k) \<noteq> None"
          and eq: "ex_generation ((ss_exchanges s)[i := ?x] ! j) = ex_generation ((ss_exchanges s)[i := ?x] ! k)"
        have later: "ex_generation (ss_exchanges s ! k) = None" if "i < k"
          using queue_okD [OF ok(3) that _ open'] exchanges_okD [OF ok(2), of k] jk
          by (auto simp: exchange_ok_def split: option.splits)
        show "\<exists>r. settled_with ((ss_exchanges s)[i := ?x] ! j) = Some r \<and> is_response r"
        proof (cases "k = i")
          case True
          then have j: "j < i" "ex_generation (ss_exchanges s ! j) = Some (ss_generation s)"
            using jk eq i by auto
          then have "live s (ss_exchanges s ! j)" and "ss_pending s \<noteq> Some j"
            using no_pending [of j] Some by (auto simp: live_def)
          then have "answered (ss_exchanges s ! j)"
            using ok(5) less_trans [OF j(1) i] unfolding live_ok_def by blast
          moreover have "exchange_done (ss_exchanges s ! j)" using before j(1) by blast
          ultimately show ?thesis
            using j(1) by (auto simp: answered_def exchange_done_settled)
        next
          case False
          then have "j \<noteq> i" using later jk g by auto
          then show ?thesis using ok(6) jk g eq False by (simp add: paired_def)
        qed
      qed
    qed
  }
qed

lemma exchange_not_awaiting:
  "exchange_ok g x \<Longrightarrow> ex_phase x = Queued \<or> awaits_connection (ex_phase x) \<Longrightarrow> ex_generation x = None"
  by (auto simp: exchange_ok_def split: option.splits)

lemma perform_ok:
  assumes ok: "session_ok s" and phase: "current_phase s = Some Queued"
  shows "session_ok (performExchange c (current_exchange s) s)"
proof -
  note cur = current_phaseD [OF phase]
  have before: "\<forall>j < current_exchange s. exchange_done (ss_exchanges s ! j)" using cur(4) by blast
  have x: "exchange_ok (ss_generation s) (ss_exchanges s ! current_exchange s)"
    using session_okD(2) [OF ok] cur(1) by (rule exchanges_okD)
  then have gen: "ex_generation (ss_exchanges s ! current_exchange s) = None"
    using cur(2) by (simp add: exchange_not_awaiting)
  have settle: "session_ok (settle_exchange (current_exchange s) (WireNotSent e) s)" for e
    using settle_ok [OF ok cur(1,3) before] gen by (simp add: live_def)
  have wait: "session_ok (start c (change_exchange (current_exchange s) (\<lambda>x. x\<lparr>ex_phase := AwaitsConnection f\<rparr>) s))" for f
    using x gen by (intro session_ok_start change_phase_ok [OF ok cur(1,3) before])
      (simp_all add: exchange_ok_def settled_with_def)
  show ?thesis
    using settle wait dispatch_ok [OF ok cur(1) _ before] cur(2)
    by (simp add: performExchange_def split: sum.split)
qed

lemma connection_settled_ok:
  assumes ok: "session_ok s"
  shows "session_ok (connection_settled failure s)"
proof (cases "\<exists>f. current_phase s = Some (AwaitsConnection f)")
  case True
  then obtain f where phase: "current_phase s = Some (AwaitsConnection f)" by blast
  note cur = current_phaseD [OF phase]
  have before: "\<forall>j < current_exchange s. exchange_done (ss_exchanges s ! j)" using cur(4) by blast
  have "ex_generation (ss_exchanges s ! current_exchange s) = None"
    using exchange_not_awaiting [OF exchanges_okD [OF session_okD(2) [OF ok] cur(1)]] cur(2) by simp
  then show ?thesis
    using settle_ok [OF ok cur(1,3) before] dispatch_ok [OF ok cur(1) _ before] cur(2) phase
    by (simp add: connection_settled_def live_def split: option.split)
next
  case False
  then show ?thesis using ok by (simp add: connection_settled_def split: option.split exchange_phase.split)
qed

lemma connection_failed_ok: "session_ok s \<Longrightarrow> session_ok (connection_failed c code s)"
  unfolding connection_failed_def
  by (intro connection_settled_ok session_ok_quiet(1)) (simp add: session_ok_reconnect)

lemma fresh_connection_ok:
  assumes ok: "session_ok s" and free: "ss_socket s = None" "\<not> ss_disposed s" and "ss_connecting t = None"
    and t: "ss_exchanges t = ss_exchanges s" "ss_generation t = ss_generation s + 1"
      "ss_pending t = ss_pending s" "ss_disposed t = ss_disposed s"
  shows "session_ok t"
proof (rule session_okI)
  note ok = session_okD [OF ok]
  have "ss_pending s = None" using ok(4) free(1) by (auto simp: pending_ok_def live_def)
  then show "pending_ok t" using t by (simp add: pending_ok_def)
  show "connection_ok t" using assms by (simp add: connection_ok_def)
  show "exchanges_ok t" using ok(2) t by (auto simp: exchanges_ok_def exchange_ok_def split: option.splits)
  show "queue_ok (ss_exchanges t)" "paired (ss_exchanges t)" using ok(3,6) t by simp_all
  have "\<not> live t (ss_exchanges s ! i)" if "i < length (ss_exchanges s)" for i
    using exchanges_okD [OF ok(2) that] t by (auto simp: exchange_ok_def live_def)
  then show "live_ok t" using t by (simp add: live_ok_def)
qed

lemma finish_ok:
  assumes ok: "session_ok s" and dialing: "ss_connecting s = Some Dialing"
  shows "session_ok (finishConnection c outcome s)"
proof (cases outcome)
  case (Socket socket)
  have free: "ss_socket s = None" using session_okD(1) [OF ok] dialing by (simp add: connection_ok_def)
  show ?thesis
  proof (cases "ss_disposed s \<or> socket \<in> set (ss_retired s)")
    case True
    then show ?thesis
      using Socket ok free by (simp add: finishConnection_def session_ok_quiet note_act_def)
  next
    case False
    then show ?thesis
      using Socket free
      by (auto simp: finishConnection_def emit_def emit_at_def note_act_def
          intro!: connection_settled_ok fresh_connection_ok [OF ok])
  qed
qed (use ok in \<open>simp_all add: finishConnection_def connection_failed_ok\<close>)

end
