(* ===== verification/Session_Sending.thy ===== *)
theory Session_Sending
  imports Session_Laws
begin

text \<open>
  The remaining steps of a host session keep its invariant, and what it writes: every exchange's
  frame is handed over at most once, on the connection the exchange was given, and never for an
  exchange that is reported as not sent.
\<close>

section \<open>What is sent\<close>

text \<open>
  What the writing of frames sees of the session: the waits and generations of the exchanges, the
  queue of writes, and the writes of the log.
\<close>

definition write_of :: "nat \<Rightarrow> session_act \<Rightarrow> bool" where
  "write_of i a \<longleftrightarrow> (case a of TcpWrite k _ _ _ \<Rightarrow> k = OfExchange i | _ \<Rightarrow> False)"

definition is_write :: "session_act \<Rightarrow> bool" where
  "is_write a \<longleftrightarrow> (case a of TcpWrite _ _ _ _ \<Rightarrow> True | _ \<Rightarrow> False)"

lemma write_kinds [simp]:
  "is_write (TcpWrite k g a b)" "\<not> is_write (Emit st g e)" "\<not> is_write (TcpConnect t)"
  "\<not> is_write (TcpCloses a)" "\<not> is_write (Routed g b)" "\<not> is_write (InboundReply n r)"
  "write_of i (TcpWrite k g a b) \<longleftrightarrow> k = OfExchange i"
  by (simp_all add: is_write_def write_of_def)

type_synonym sending = "(exchange_phase \<times> nat option) list \<times> queued_write list \<times> bool \<times> session_act list"

definition sending :: "session \<Rightarrow> sending" where
  "sending s =
     (map (\<lambda>x. (ex_phase x, ex_generation x)) (ss_exchanges s), ss_writes s, ss_writing s,
      filter is_write (ss_log s))"

definition owned :: "nat \<Rightarrow> queued_write list \<Rightarrow> nat" where
  "owned i ws = length (filter (\<lambda>w. qw_owner w = OfExchange i) ws)"

definition written :: "nat \<Rightarrow> session_act list \<Rightarrow> nat" where
  "written i acts = length (filter (write_of i) acts)"

lemma counts [simp]:
  "owned i [] = 0" "owned i (w # ws) = (if qw_owner w = OfExchange i then 1 else 0) + owned i ws"
  "owned i (ws @ vs) = owned i ws + owned i vs"
  "written i [] = 0" "written i (acts @ [a]) = written i acts + (if write_of i a then 1 else 0)"
  by (simp_all add: owned_def written_def)

lemma owned_zero: "owned i ws = 0 \<longleftrightarrow> (\<forall>w \<in> set ws. qw_owner w \<noteq> OfExchange i)"
  by (simp add: owned_def filter_empty_conv)

text \<open>
  A queued write is of an exchange that awaits it; a frame is handed over once, and only when its
  exchange has a generation.
\<close>

definition sending_ok :: "sending \<Rightarrow> bool" where
  "sending_ok = (\<lambda>(xs, ws, writing, acts).
     (writing \<longrightarrow> ws \<noteq> []) \<and>
     (\<forall>i. owned i ws \<le> 1 \<and> (0 < owned i ws \<longrightarrow> i < length xs \<and> fst (xs ! i) = AwaitsWrite)) \<and>
     (\<forall>i. written i acts + owned i (if writing then tl ws else ws) \<le>
        (if i < length xs \<and> snd (xs ! i) \<noteq> None then 1 else 0)) \<and>
     (\<forall>i g socket bs. TcpWrite (OfExchange i) g socket bs \<in> set acts \<longrightarrow> snd (xs ! i) = Some g))"

lemma sending_log [simp]:
  "\<not> is_write a \<Longrightarrow> sending (note_act a s) = sending s"
  "sending (emit e s) = sending s" "sending (emit_at g e s) = sending s"
  by (simp_all add: sending_def emit_def emit_at_def note_act_def)

lemma sending_quiet [simp]:
  "sending (s\<lparr>ss_inbound := ms\<rparr>) = sending s" "sending (s\<lparr>ss_closing := b\<rparr>) = sending s"
  "sending (s\<lparr>ss_late := n\<rparr>) = sending s" "sending (s\<lparr>ss_retired := r\<rparr>) = sending s"
  "sending (s\<lparr>ss_received := bs\<rparr>) = sending s" "sending (s\<lparr>ss_state := st\<rparr>) = sending s"
  "sending (s\<lparr>ss_reconnectAttempt := n\<rparr>) = sending s" "sending (s\<lparr>ss_connecting := k\<rparr>) = sending s"
  "sending (s\<lparr>ss_pending := p\<rparr>) = sending s" "sending (s\<lparr>ss_socket := so\<rparr>) = sending s"
  "sending (s\<lparr>ss_generation := g\<rparr>) = sending s" "sending (s\<lparr>ss_timer := b\<rparr>) = sending s"
  "sending (s\<lparr>ss_started := b\<rparr>) = sending s" "sending (s\<lparr>ss_disposed := b\<rparr>) = sending s"
  by (simp_all add: sending_def)

lemma sending_resolve [simp]: "sending (resolve_exchange i r s) = sending s"
proof -
  have "map f (xs[i := x]) = map f xs" if "f x = f (xs ! i)" for f :: "exchange \<Rightarrow> exchange_phase \<times> nat option" and xs x
    using that by (metis list_update_id map_update)
  then show ?thesis by (simp add: sending_def resolve_exchange_def change_exchange_def)
qed

lemma sending_resolve_pending [simp]: "sending (resolve_pending r s) = sending s"
  by (simp add: resolve_pending_def split: option.split)

lemma sending_reconnect [simp]: "sending (scheduleReconnect c s) = sending s"
  by (simp add: scheduleReconnect_def)

lemma sending_drop [simp]: "sending (dropConnection c code b s) = sending s"
  by (simp add: dropConnection_def split: option.split)

lemma sending_disconnect [simp]:
  "sending (handleDisconnect c reason s) = sending s" "sending (protocol_error c code s) = sending s"
  by (simp_all add: handleDisconnect_def protocol_error_def)

lemma sending_route [simp]: "sending (routePayload c p s) = sending s"
  by (simp add: routePayload_def Let_def split: option.split frame_route.split)

lemma sending_drain [simp]: "sending (drainFrames c s) = sending s"
proof (induction c s rule: drainFrames.induct)
  case (1 c s)
  then show ?case
    by (subst drainFrames.simps) (simp add: Let_def split: frame_result.split)
qed

lemma sending_event [simp]: "sending (handleEvent c e s) = sending s"
  by (simp add: handleEvent_def split: tcp_event_kind.split option.split)

lemma sending_connect [simp]:
  "sending (establishConnection c b s) = sending s" "sending (start c s) = sending s"
  by (simp_all add: establishConnection_def start_def)

lemma sending_dispose [simp]: "sending (dispose_session s) = sending s"
  by (simp add: dispose_session_def Let_def split: option.split)

section \<open>Steps of what is sent\<close>

lemma sending_okD:
  assumes "sending_ok (xs, ws, writing, acts)"
  shows "writing \<Longrightarrow> ws \<noteq> []" "owned i ws \<le> 1" "0 < owned i ws \<Longrightarrow> i < length xs \<and> fst (xs ! i) = AwaitsWrite"
    "written i acts + owned i (if writing then tl ws else ws) \<le> (if i < length xs \<and> snd (xs ! i) \<noteq> None then 1 else 0)"
    "TcpWrite (OfExchange i) g socket bs \<in> set acts \<Longrightarrow> snd (xs ! i) = Some g"
  using assms unfolding sending_ok_def by (simp, blast, blast, simp, blast)

lemma sending_okI:
  assumes "writing \<Longrightarrow> ws \<noteq> []" "\<And>i. owned i ws \<le> 1"
    "\<And>i. 0 < owned i ws \<Longrightarrow> i < length xs \<and> fst (xs ! i) = AwaitsWrite"
    "\<And>i. written i acts + owned i (if writing then tl ws else ws) \<le> (if i < length xs \<and> snd (xs ! i) \<noteq> None then 1 else 0)"
    "\<And>i g socket bs. TcpWrite (OfExchange i) g socket bs \<in> set acts \<Longrightarrow> snd (xs ! i) = Some g"
  shows "sending_ok (xs, ws, writing, acts)"
  unfolding sending_ok_def prod.case using assms by blast

lemma written_zero: "written i acts = 0 \<Longrightarrow> TcpWrite (OfExchange i) g socket bs \<notin> set acts"
  by (auto simp: written_def filter_empty_conv)

lemma move_ok:
  assumes "sending_ok (xs, ws, b, acts)" and "owned i ws = 0" and "snd x = snd (xs ! i)"
  shows "sending_ok (xs[i := x], ws, b, acts)"
proof -
  have gen: "snd (xs[i := x] ! j) = snd (xs ! j)" if "j < length xs" for j
    using that assms(3) by (cases "j = i") auto
  have same: "xs[i := x] ! j = xs ! j" if "\<not> j < length xs" for j
    using that by (cases "i = j") (simp_all add: list_update_beyond)
  show ?thesis
  proof (rule sending_okI)
    fix j
    show "0 < owned j ws \<Longrightarrow> j < length (xs[i := x]) \<and> fst (xs[i := x] ! j) = AwaitsWrite"
      using sending_okD(3) [OF assms(1), of j] assms(2) by (cases "j = i") auto
    show "written j acts + owned j (if b then tl ws else ws) \<le>
        (if j < length (xs[i := x]) \<and> snd (xs[i := x] ! j) \<noteq> None then 1 else 0)"
      using sending_okD(4) [OF assms(1), of j] gen [of j] by (cases "j < length xs") simp_all
    fix g socket bs
    show "TcpWrite (OfExchange j) g socket bs \<in> set acts \<Longrightarrow> snd (xs[i := x] ! j) = Some g"
      using sending_okD(5) [OF assms(1), of j] gen [of j] same [of j] by (cases "j < length xs") auto
  qed (use sending_okD(1,2) [OF assms(1)] in auto)
qed

lemma queue_reply_ok:
  assumes "sending_ok (xs, ws, b, acts)" and "qw_owner w = OfReply k"
  shows "sending_ok (xs, ws @ [w], b, acts)"
proof (rule sending_okI)
  note ok = sending_okD [OF assms(1)]
  fix i
  have "owned i (if b then tl (ws @ [w]) else ws @ [w]) = owned i (if b then tl ws else ws)"
    using ok(1) assms(2) by auto
  then show "written i acts + owned i (if b then tl (ws @ [w]) else ws @ [w]) \<le>
      (if i < length xs \<and> snd (xs ! i) \<noteq> None then 1 else 0)" using ok(4) by simp
qed (use sending_okD [OF assms(1)] assms(2) in auto)

lemma queue_exchange_ok:
  assumes "sending_ok (xs, ws, b, acts)" and w: "qw_owner w = OfExchange i"
    and i: "i < length xs" "fst (xs ! i) \<noteq> AwaitsWrite" "snd (xs ! i) = None"
  shows "sending_ok (xs[i := (AwaitsWrite, Some g)], ws @ [w], b, acts)"
proof -
  note ok = sending_okD [OF assms(1)]
  have none: "owned i ws = 0" using ok(3) [of i] i(2) by auto
  have unwritten: "written i acts = 0" "owned i (if b then tl ws else ws) = 0" using ok(4) [of i] i(3) by auto
  show ?thesis
  proof (rule sending_okI)
    fix j
    show "owned j (ws @ [w]) \<le> 1" using ok(2) [of j] none w by (cases "j = i") auto
    show "0 < owned j (ws @ [w]) \<Longrightarrow>
        j < length (xs[i := (AwaitsWrite, Some g)]) \<and> fst (xs[i := (AwaitsWrite, Some g)] ! j) = AwaitsWrite"
      using ok(3) [of j] i w by (cases "j = i") auto
    have left: "owned j (if b then tl (ws @ [w]) else ws @ [w]) =
        owned j (if b then tl ws else ws) + (if j = i then 1 else 0)"
      using ok(1) w by auto
    show "written j acts + owned j (if b then tl (ws @ [w]) else ws @ [w]) \<le>
        (if j < length (xs[i := (AwaitsWrite, Some g)]) \<and> snd (xs[i := (AwaitsWrite, Some g)] ! j) \<noteq> None then 1 else 0)"
      using ok(4) [of j] i unwritten unfolding left by (cases "j = i") auto
    fix h socket bs
    show "TcpWrite (OfExchange j) h socket bs \<in> set acts \<Longrightarrow> snd (xs[i := (AwaitsWrite, Some g)] ! j) = Some h"
      using ok(5) [of j h socket bs] written_zero [OF unwritten(1), of h socket bs] by (cases "j = i") auto
  qed auto
qed

lemma start_ok:
  assumes "sending_ok (xs, w # ws, False, acts)"
    and "\<And>i. qw_owner w = OfExchange i \<Longrightarrow> snd (xs ! i) = Some g"
  shows "sending_ok (xs, w # ws, True, acts @ [TcpWrite (qw_owner w) g socket bs])"
proof (rule sending_okI)
  note ok = sending_okD [OF assms(1)]
  fix i
  show "written i (acts @ [TcpWrite (qw_owner w) g socket bs]) + owned i (if True then tl (w # ws) else w # ws) \<le>
      (if i < length xs \<and> snd (xs ! i) \<noteq> None then 1 else 0)"
    using ok(4) [of i] by auto
  fix h so b
  show "TcpWrite (OfExchange i) h so b \<in> set (acts @ [TcpWrite (qw_owner w) g socket bs]) \<Longrightarrow> snd (xs ! i) = Some h"
    using ok(5) [of i h so b] assms(2) by (cases "qw_owner w = OfExchange i") auto
qed (use sending_okD [OF assms(1)] in auto)

lemma pop_ok:
  assumes "sending_ok (xs, w # ws, True, acts)"
  shows "sending_ok (xs, ws, False, acts)"
proof (rule sending_okI)
  note ok = sending_okD [OF assms(1)]
  fix i
  show "owned i ws \<le> 1" using ok(2) [of i] by simp
  show "0 < owned i ws \<Longrightarrow> i < length xs \<and> fst (xs ! i) = AwaitsWrite" using ok(3) [of i] by simp
  show "written i acts + owned i (if False then tl ws else ws) \<le> (if i < length xs \<and> snd (xs ! i) \<noteq> None then 1 else 0)"
    using ok(4) [of i] by simp
qed (use sending_okD [OF assms(1)] in auto)

section \<open>Every step\<close>

definition sends_ok :: "session \<Rightarrow> bool" where
  "sends_ok s \<longleftrightarrow> session_ok s \<and> sending_ok (sending s)"

lemma sending_change_phase:
  "i < length (ss_exchanges s) \<Longrightarrow>
   sending (change_exchange i (\<lambda>x. x\<lparr>ex_phase := p\<rparr>) s) =
     ((fst (sending s))[i := (p, ex_generation (ss_exchanges s ! i))], snd (sending s))"
  by (simp add: sending_def change_exchange_def map_update)

lemma sending_settle:
  "i < length (ss_exchanges s) \<Longrightarrow>
   sending (settle_exchange i r s) =
     ((fst (sending s))[i := (Settled r, ex_generation (ss_exchanges s ! i))], snd (sending s))"
  by (simp add: settle_exchange_def sending_change_phase)

lemma move_phase_ok:
  assumes "sending_ok (sending s)" and "i < length (ss_exchanges s)" and "owned i (ss_writes s) = 0"
  shows "sending_ok ((fst (sending s))[i := (p, ex_generation (ss_exchanges s ! i))], snd (sending s))"
  using move_ok [of "fst (sending s)" "ss_writes s" "ss_writing s" "filter is_write (ss_log s)" i
      "(p, ex_generation (ss_exchanges s ! i))"] assms
  by (simp add: sending_def)

lemma not_owned:
  assumes "sending_ok (sending s)" and "i < length (ss_exchanges s) \<Longrightarrow> ex_phase (ss_exchanges s ! i) \<noteq> AwaitsWrite"
  shows "owned i (ss_writes s) = 0"
proof (rule ccontr)
  assume "owned i (ss_writes s) \<noteq> 0"
  then have "i < length (ss_exchanges s)" and "ex_phase (ss_exchanges s ! i) = AwaitsWrite"
    using sending_okD(3) [OF assms(1) [unfolded sending_def], of i] by auto
  then show False using assms(2) by blast
qed

lemma settle_sending:
  assumes "sending_ok (sending s)" and "i < length (ss_exchanges s)" and "owned i (ss_writes s) = 0"
  shows "sending_ok (sending (settle_exchange i r s))"
  using move_phase_ok [OF assms] sending_settle [OF assms(2)] by simp

lemma phase_sending:
  assumes "sending_ok (sending s)" and "i < length (ss_exchanges s)" and "owned i (ss_writes s) = 0"
  shows "sending_ok (sending (change_exchange i (\<lambda>x. x\<lparr>ex_phase := p\<rparr>) s))"
  using move_phase_ok [OF assms] sending_change_phase [OF assms(2)] by simp

lemma dispatch_sending:
  assumes ok: "sends_ok s" and i: "i < length (ss_exchanges s)"
    and phase: "ex_phase (ss_exchanges s ! i) = Queued \<or> awaits_connection (ex_phase (ss_exchanges s ! i))"
  shows "sending_ok (sending (dispatch_exchange i framed s))"
proof -
  have s: "session_ok s" "sending_ok (sending s)" using ok by (simp_all add: sends_ok_def)
  have none: "ex_generation (ss_exchanges s ! i) = None"
    using exchange_not_awaiting [OF exchanges_okD [OF session_okD(2) [OF s(1)] i] phase] .
  have away: "ex_phase (ss_exchanges s ! i) \<noteq> AwaitsWrite" using phase by auto
  show ?thesis
  proof (cases "ss_socket s")
    case None
    then show ?thesis
      using settle_sending [OF s(2) i] not_owned [OF s(2), of i] away by (simp add: dispatch_exchange_def)
  next
    case (Some socket)
    let ?w = "\<lparr>qw_owner = OfExchange i, qw_socket = socket, qw_bytes = framed\<rparr>"
    have "sending (dispatch_exchange i framed s) =
        ((fst (sending s))[i := (AwaitsWrite, Some (ss_generation s))], ss_writes s @ [?w], ss_writing s,
         filter is_write (ss_log s))"
      using Some i by (simp add: dispatch_exchange_def sending_def change_exchange_def map_update)
    then show ?thesis
      using queue_exchange_ok [OF s(2) [unfolded sending_def], of ?w i] i none away
      by (simp add: sending_def)
  qed
qed

lemma perform_sending:
  assumes ok: "sends_ok s" and phase: "current_phase s = Some Queued"
  shows "sending_ok (sending (performExchange c (current_exchange s) s))"
proof -
  note cur = current_phaseD [OF phase]
  have s: "sending_ok (sending s)" using ok by (simp add: sends_ok_def)
  have none: "owned (current_exchange s) (ss_writes s) = 0" using cur(2) by (intro not_owned [OF s]) simp
  show ?thesis
    using settle_sending [OF s cur(1) none] phase_sending [OF s cur(1) none] dispatch_sending [OF ok cur(1)] cur(2)
    by (simp add: performExchange_def split: sum.split)
qed

lemma connection_settled_sending:
  assumes ok: "sends_ok s"
  shows "sending_ok (sending (connection_settled failure s))"
proof (cases "\<exists>f. current_phase s = Some (AwaitsConnection f)")
  case True
  then obtain f where phase: "current_phase s = Some (AwaitsConnection f)" by blast
  note cur = current_phaseD [OF phase]
  have s: "sending_ok (sending s)" using ok by (simp add: sends_ok_def)
  have "owned (current_exchange s) (ss_writes s) = 0" using cur(2) by (intro not_owned [OF s]) simp
  then show ?thesis
    using settle_sending [OF s cur(1)] dispatch_sending [OF ok cur(1)] cur(2) phase
    by (simp add: connection_settled_def split: option.split)
next
  case False
  then show ?thesis using ok by (simp add: connection_settled_def sends_ok_def split: option.split exchange_phase.split)
qed

lemma connection_failed_sends: "sends_ok s \<Longrightarrow> sends_ok (connection_failed c code s)"
proof -
  assume s: "sends_ok s"
  then have "sends_ok ((if ss_disposed s then s
         else scheduleReconnect c (emit (EvDisconnected code) (s\<lparr>ss_state := Idle\<rparr>)))\<lparr>ss_connecting := None\<rparr>)"
    by (simp add: sends_ok_def session_ok_quiet session_ok_reconnect)
  then show ?thesis
    using connection_settled_sending connection_settled_ok unfolding connection_failed_def sends_ok_def by blast
qed

lemma finish_sends:
  assumes ok: "sends_ok s" and dialing: "ss_connecting s = Some Dialing"
  shows "sends_ok (finishConnection c outcome s)"
proof (cases outcome)
  case (Socket socket)
  have s: "session_ok s" "sending_ok (sending s)" using ok by (simp_all add: sends_ok_def)
  have free: "ss_socket s = None" using session_okD(1) [OF s(1)] dialing by (simp add: connection_ok_def)
  show ?thesis
  proof (cases "ss_disposed s \<or> socket \<in> set (ss_retired s)")
    case True
    then show ?thesis
      using finish_ok [OF s(1) dialing, of c outcome] s(2) Socket by (simp add: finishConnection_def sends_ok_def)
  next
    case False
    let ?t = "(emit EvConnected
                 (s\<lparr>ss_socket := Some socket, ss_generation := ss_generation s + 1, ss_reconnectAttempt := 0,
                   ss_received := [], ss_state := Connected\<rparr>))\<lparr>ss_connecting := None\<rparr>"
    have "session_ok ?t"
      using False free by (intro fresh_connection_ok [OF s(1)]) (simp_all add: emit_def emit_at_def note_act_def)
    moreover have "sending_ok (sending ?t)" using s(2) by simp
    ultimately have "sends_ok ?t" by (simp add: sends_ok_def)
    then show ?thesis
      using connection_settled_sending connection_settled_ok False Socket
      by (simp add: finishConnection_def sends_ok_def)
  qed
qed (use ok in \<open>simp_all add: finishConnection_def connection_failed_sends sends_ok_def [of "s\<lparr>ss_late := _\<rparr>"]
    sends_ok_def [of s]\<close>)

lemma same_sending:
  assumes "sending t = sending s"
  shows "length (ss_exchanges t) = length (ss_exchanges s)" and "ss_writes t = ss_writes s"
    and "i < length (ss_exchanges s) \<Longrightarrow> ex_phase (ss_exchanges t ! i) = ex_phase (ss_exchanges s ! i) \<and>
      ex_generation (ss_exchanges t ! i) = ex_generation (ss_exchanges s ! i) \<and>
      (exchange_done (ss_exchanges t ! i) \<longleftrightarrow> exchange_done (ss_exchanges s ! i))"
proof -
  have xs: "map (\<lambda>x. (ex_phase x, ex_generation x)) (ss_exchanges t) =
      map (\<lambda>x. (ex_phase x, ex_generation x)) (ss_exchanges s)"
    using assms by (simp add: sending_def)
  then show "length (ss_exchanges t) = length (ss_exchanges s)" by (rule map_eq_imp_length_eq)
  then show "i < length (ss_exchanges s) \<Longrightarrow> ex_phase (ss_exchanges t ! i) = ex_phase (ss_exchanges s ! i) \<and>
      ex_generation (ss_exchanges t ! i) = ex_generation (ss_exchanges s ! i) \<and>
      (exchange_done (ss_exchanges t ! i) \<longleftrightarrow> exchange_done (ss_exchanges s ! i))"
    using arg_cong [OF xs, of "\<lambda>l. l ! i"] by (simp add: exchange_done_def)
  show "ss_writes t = ss_writes s" using assms by (simp add: sending_def)
qed

lemma exchange_failed_sends:
  assumes ok: "sends_ok s" and i: "i < length (ss_exchanges s)" "owned i (ss_writes s) = 0"
    and phase: "ex_phase (ss_exchanges s ! i) = AwaitsWrite \<or> ex_phase (ss_exchanges s ! i) = AwaitsAnswer"
  shows "sends_ok (exchange_failed c i code s)"
proof -
  have s: "session_ok s" "sending_ok (sending s)" using ok by (simp_all add: sends_ok_def)
  let ?t = "if ex_generation (ss_exchanges s ! i) = Some (ss_generation s) then dropConnection c code True s else s"
  have t: "session_ok ?t" "sending ?t = sending s" using s(1) by (simp_all add: drop_ok)
  note same = same_sending [OF t(2)]
  have gen: "ex_generation (ss_exchanges s ! i) \<noteq> None"
    using exchanges_okD [OF session_okD(2) [OF s(1)] i(1)] phase by (auto simp: exchange_ok_def split: option.splits)
  have open': "\<not> exchange_done (ss_exchanges s ! i)" using phase by (auto simp: exchange_done_def)
  have "\<forall>j < i. exchange_done (ss_exchanges s ! j)"
    using begun_before [OF session_okD(3) [OF s(1)] i(1)] phase by auto
  then have before: "\<forall>j < i. exchange_done (ss_exchanges ?t ! j)"
    using same(3) i(1) by (meson less_trans)
  have generation: "ss_generation (dropConnection c code True s) = ss_generation s"
    by (simp add: dropConnection_def scheduleReconnect_def emit_def emit_at_def note_act_def split: option.split)
  have "session_ok (settle_exchange i (WireUnknown code) ?t)"
  proof (rule settle_ok [OF t(1)])
    show "\<not> exchange_done (ss_exchanges ?t ! i)" and "i < length (ss_exchanges ?t)"
      and "not_sent (WireUnknown code) \<longleftrightarrow> ex_generation (ss_exchanges ?t ! i) = None"
      using same(1,3) i(1) open' gen by simp_all
    have dead: "\<not> live ?t (ss_exchanges ?t ! i)"
    proof (cases "ex_generation (ss_exchanges s ! i) = Some (ss_generation s)")
      case True
      then show ?thesis by (simp add: live_def drop_live)
    next
      case False
      then show ?thesis using same(3) i(1) by (simp add: live_def)
    qed
    then show "live ?t (ss_exchanges ?t ! i) \<Longrightarrow> ss_pending ?t \<noteq> Some i \<and> is_response (WireUnknown code)" by blast
  qed (rule before)
  moreover have "sending_ok (sending (settle_exchange i (WireUnknown code) ?t))"
    using t(2) s(2) same(1,2) i by (intro settle_sending) (simp_all only:)
  ultimately show ?thesis by (simp only: exchange_failed_def sends_ok_def)
qed

lemma awaits_answer_unwritten:
  "sends_ok s \<Longrightarrow> current_phase s = Some AwaitsAnswer \<Longrightarrow> owned (current_exchange s) (ss_writes s) = 0"
  by (rule not_owned) (auto simp: sends_ok_def dest: current_phaseD(2))

lemma timeout_sends: "sends_ok s \<Longrightarrow> sends_ok (response_timeout c s)"
  using exchange_failed_sends awaits_answer_unwritten current_phaseD(1,2)
  by (simp add: response_timeout_def Let_def)

lemma resumes_sends:
  assumes ok: "sends_ok s"
  shows "sends_ok (exchange_resumes s)"
proof (cases "current_phase s = Some AwaitsAnswer \<and> ex_answer (ss_exchanges s ! current_exchange s) \<noteq> None")
  case True
  have s: "session_ok s" "sending_ok (sending s)" using ok by (simp_all add: sends_ok_def)
  from True obtain r where r: "ex_answer (ss_exchanges s ! current_exchange s) = Some r" by blast
  have phase: "current_phase s = Some AwaitsAnswer" using True by blast
  note cur = current_phaseD [OF phase]
  have x: "exchange_ok (ss_generation s) (ss_exchanges s ! current_exchange s)"
    using session_okD(2) [OF s(1)] cur(1) by (rule exchanges_okD)
  have "session_ok (settle_exchange (current_exchange s) r s)"
  proof (rule settle_ok [OF s(1) cur(1,3)])
    show "\<forall>j < current_exchange s. exchange_done (ss_exchanges s ! j)" using cur(4) by blast
    show "not_sent r \<longleftrightarrow> ex_generation (ss_exchanges s ! current_exchange s) = None"
      using x r cur(2) by (auto simp: exchange_ok_def split: option.splits)
    assume live: "live s (ss_exchanges s ! current_exchange s)"
    have "ss_pending s \<noteq> Some (current_exchange s)"
      using session_okD(4) [OF s(1)] r by (auto simp: pending_ok_def)
    then show "ss_pending s \<noteq> Some (current_exchange s) \<and> is_response r"
      using session_okD(5) [OF s(1)] live cur(1) r by (auto simp: live_ok_def answered_def)
  qed
  then show ?thesis
    using True r settle_sending [OF s(2) cur(1) awaits_answer_unwritten [OF ok phase]]
    by (simp add: exchange_resumes_def sends_ok_def)
next
  case False
  then show ?thesis using ok by (auto simp: exchange_resumes_def Let_def split: option.split)
qed

lemma next_sends: "sends_ok s \<Longrightarrow> sends_ok (next_exchange c s)"
  using perform_ok perform_sending by (simp add: next_exchange_def sends_ok_def)

lemma call_sends:
  assumes ok: "sends_ok s"
  shows "sends_ok (exchange_call r s)"
proof -
  have s: "session_ok s" "sending_ok (sending s)" using ok by (simp_all add: sends_ok_def)
  note k = session_okD [OF s(1)]
  let ?x = "\<lparr>ex_request = r, ex_phase = Queued, ex_generation = None, ex_answer = None\<rparr>"
  let ?t = "exchange_call r s"
  have xs: "ss_exchanges ?t = ss_exchanges s @ [?x]" by (simp add: exchange_call_def)
  have same: "ss_generation ?t = ss_generation s" "ss_socket ?t = ss_socket s" "ss_pending ?t = ss_pending s"
    by (simp_all add: exchange_call_def)
  have "session_ok ?t"
  proof (rule session_okI)
    show "connection_ok ?t" using k(1) by (simp add: connection_ok_def exchange_call_def)
    show "exchanges_ok ?t" using k(2) by (simp add: exchanges_ok_def xs same exchange_ok_def settled_with_def)
    show "queue_ok (ss_exchanges ?t)" using k(3) unfolding queue_ok_def xs by (auto simp: nth_append less_Suc_eq)
    show "pending_ok ?t" using k(4) unfolding pending_ok_def live_def xs same by (auto simp: nth_append)
    show "live_ok ?t" using k(5) unfolding live_ok_def live_def xs same by (auto simp: nth_append less_Suc_eq)
    show "paired (ss_exchanges ?t)" using k(6) unfolding paired_def xs by (auto simp: nth_append less_Suc_eq)
  qed
  moreover have "sending_ok (sending ?t)"
  proof -
    note d = sending_okD [OF s(2) [unfolded sending_def]]
    let ?e = "map (\<lambda>x. (ex_phase x, ex_generation x)) (ss_exchanges s)"
    have "sending_ok (?e @ [(Queued, None)], ss_writes s, ss_writing s, filter is_write (ss_log s))"
    proof (rule sending_okI)
      fix i
      show "0 < owned i (ss_writes s) \<Longrightarrow>
          i < length (?e @ [(Queued, None)]) \<and> fst ((?e @ [(Queued, None)]) ! i) = AwaitsWrite"
        using d(3) [of i] by (auto simp: nth_append)
      have low: "i < length ?e" if "0 < written i (filter is_write (ss_log s)) + owned i (if ss_writing s then tl (ss_writes s) else ss_writes s)"
        using d(4) [of i] that by (simp split: if_splits)
      show "written i (filter is_write (ss_log s)) + owned i (if ss_writing s then tl (ss_writes s) else ss_writes s) \<le>
          (if i < length (?e @ [(Queued, None)]) \<and> snd ((?e @ [(Queued, None)]) ! i) \<noteq> None then 1 else 0)"
        using d(4) [of i] low by (cases "i < length ?e") (simp_all add: nth_append)
      fix g socket bs
      assume w: "TcpWrite (OfExchange i) g socket bs \<in> set (filter is_write (ss_log s))"
      then have "written i (filter is_write (ss_log s)) \<noteq> 0" using written_zero by blast
      then have "i < length ?e" using low by simp
      then show "snd ((?e @ [(Queued, None)]) ! i) = Some g" using d(5) [OF w] by (simp add: nth_append)
    qed (use d(1,2) in auto)
    then show ?thesis by (simp add: sending_def exchange_call_def)
  qed
  ultimately show ?thesis by (simp add: sends_ok_def)
qed

lemma start_write_sends:
  assumes ok: "sends_ok s"
  shows "sends_ok (start_write s)"
proof (cases "ss_writes s")
  case (Cons w ws)
  have s: "session_ok s" "sending_ok (sending s)" using ok by (simp_all add: sends_ok_def)
  show ?thesis
  proof (cases "ss_writing s")
    case False
    have own: "i < length (ss_exchanges s) \<and> ex_phase (ss_exchanges s ! i) = AwaitsWrite"
      if "qw_owner w = OfExchange i" for i
      using sending_okD(3) [OF s(2) [unfolded sending_def], of i] Cons that by auto
    then have gen: "ex_generation (ss_exchanges s ! i) \<noteq> None" if "qw_owner w = OfExchange i" for i
      using exchanges_okD [OF session_okD(2) [OF s(1)], of i] that
      by (auto simp: exchange_ok_def split: option.splits)
    have "sending_ok (sending (start_write s))"
      using start_ok [of "map (\<lambda>x. (ex_phase x, ex_generation x)) (ss_exchanges s)" w ws "filter is_write (ss_log s)"
          "case qw_owner w of OfExchange i \<Rightarrow> the (ex_generation (ss_exchanges s ! i)) | OfReply k \<Rightarrow> in_generation (ss_inbound s ! k)"
          "qw_socket w" "qw_bytes w"] s(2) Cons False own gen
      by (simp add: sending_def start_write_def note_act_def)
    moreover have "session_ok (start_write s)" using s(1) Cons False by (simp add: start_write_def)
    ultimately show ?thesis by (simp add: sends_ok_def)
  qed (use ok Cons in \<open>simp add: start_write_def\<close>)
qed (use ok in \<open>simp add: start_write_def\<close>)

lemma pop_write_sends:
  assumes ok: "sends_ok s" and w: "ss_writes s = w # ws" "ss_writing s"
  shows "sends_ok (s\<lparr>ss_writes := ws, ss_writing := False\<rparr>)"
proof -
  have "session_ok s" "sending_ok (sending s)" using ok by (simp_all add: sends_ok_def)
  then show ?thesis
    using w pop_ok [of "map (\<lambda>x. (ex_phase x, ex_generation x)) (ss_exchanges s)" w ws "filter is_write (ss_log s)"]
    by (simp add: sends_ok_def sending_def)
qed

lemma write_settled_sends:
  assumes ok: "sends_ok s"
  shows "sends_ok (write_settled c outcome s)"
proof (cases "\<exists>w ws. ss_writes s = w # ws \<and> ss_writing s")
  case True
  then obtain w ws where w: "ss_writes s = w # ws" "ss_writing s" by blast
  let ?t = "s\<lparr>ss_writes := ws, ss_writing := False\<rparr>"
  have t: "sends_ok ?t" by (rule pop_write_sends [OF ok w])
  show ?thesis
  proof (cases "qw_owner w")
    case (OfReply k)
    then show ?thesis using t w by (simp add: write_settled_def sends_ok_def Let_def)
  next
    case (OfExchange i)
    note d = sending_okD [of _ "ss_writes s" "ss_writing s" "filter is_write (ss_log s)"]
    have s: "sending_ok (sending s)" using ok by (simp add: sends_ok_def)
    have here: "i < length (ss_exchanges s)" "ex_phase (ss_exchanges s ! i) = AwaitsWrite" "owned i ws = 0"
      using d(2,3) [OF s [unfolded sending_def], of i] w OfExchange by auto
    have failed: "sends_ok (exchange_failed c i code ?t)" for code
      by (rule exchange_failed_sends [OF t]) (use here in simp_all)
    have t': "session_ok ?t" "sending_ok (sending ?t)" using t by (simp_all add: sends_ok_def)
    have "session_ok (change_exchange i (\<lambda>x. x\<lparr>ex_phase := AwaitsAnswer\<rparr>) ?t)"
    proof (rule change_phase_ok [OF t'(1)])
      show "i < length (ss_exchanges ?t)" and "\<not> exchange_done (ss_exchanges ?t ! i)"
        using here by (simp_all add: exchange_done_def)
      show "\<forall>j < i. exchange_done (ss_exchanges ?t ! j)"
        using begun_before [OF session_okD(3) [OF t'(1)], of i] here by simp
      show "exchange_ok (ss_generation ?t) ((ss_exchanges ?t ! i)\<lparr>ex_phase := AwaitsAnswer\<rparr>)"
        using exchanges_okD [OF session_okD(2) [OF t'(1)], of i] here
        by (auto simp: exchange_ok_def settled_with_def split: option.splits)
    qed simp
    moreover have "sending_ok (sending (change_exchange i (\<lambda>x. x\<lparr>ex_phase := AwaitsAnswer\<rparr>) ?t))"
      by (rule phase_sending [OF t'(2)]) (use here in simp_all)
    ultimately show ?thesis
      using failed w OfExchange by (cases outcome) (simp_all add: write_settled_def sends_ok_def Let_def)
  qed
next
  case False
  then show ?thesis using ok by (auto simp: write_settled_def split: list.split)
qed

lemma respond_sends: "sends_ok s \<Longrightarrow> sends_ok (respond c k payload s)"
  using queue_reply_ok [of "map (\<lambda>x. (ex_phase x, ex_generation x)) (ss_exchanges s)" "ss_writes s" "ss_writing s"
      "filter is_write (ss_log s)"]
  by (simp add: respond_def sends_ok_def sending_def note_act_def split: option.split sum.split)

lemma inbound_settled_sends: "sends_ok s \<Longrightarrow> sends_ok (inbound_settled k result s)"
  by (simp add: inbound_settled_def sends_ok_def Let_def split: option.split inbound_result.split)

lemma dispose_sends:
  assumes ok: "sends_ok s"
  shows "sends_ok (dispose_session s)"
proof -
  have s: "session_ok s" "sending_ok (sending s)" using ok by (simp_all add: sends_ok_def)
  let ?r = "WireUnknown ''host.session.disposed-after-dispatch''"
  let ?t = "s\<lparr>ss_disposed := True, ss_started := False, ss_timer := False, ss_state := Disposed\<rparr>"
  have gone: "session_ok (resolve_pending ?r (?t\<lparr>ss_socket := None\<rparr>))"
    by (rule resolve_pending_ok [OF s(1)]) (use session_okD(1) [OF s(1)] in \<open>simp_all add: connection_ok_def\<close>)
  have move: "(resolve_pending ?r ?t)\<lparr>ss_socket := None\<rparr> = resolve_pending ?r (?t\<lparr>ss_socket := None\<rparr>)"
    by (simp add: resolve_pending_def resolve_exchange_def change_exchange_def split: option.split)
  have "session_ok (dispose_session s)"
  proof (cases "ss_socket s")
    case None
    then have same: "?t\<lparr>ss_socket := None\<rparr> = ?t" by simp
    have "session_ok (resolve_pending ?r ?t)" using gone by (simp only: same)
    then show ?thesis using None s(1) by (simp add: dispose_session_def Let_def)
  next
    case (Some socket)
    have "session_ok ((resolve_pending ?r ?t)\<lparr>ss_socket := None\<rparr>)" using gone move by simp
    then have "session_ok ((resolve_pending ?r ?t)\<lparr>ss_socket := None, ss_retired := socket # ss_retired (resolve_pending ?r ?t)\<rparr>)"
      by simp
    then show ?thesis using Some s(1) by (simp add: dispose_session_def Let_def)
  qed
  then show ?thesis using s(2) by (simp add: sends_ok_def)
qed

lemma session_step_sends: "sends_ok s \<Longrightarrow> sends_ok (session_step c i s)"
proof (cases i)
  case Start
  then show "sends_ok s \<Longrightarrow> ?thesis" by (simp add: sends_ok_def session_ok_start)
next
  case (TcpEvent e)
  then show "sends_ok s \<Longrightarrow> ?thesis" by (simp add: sends_ok_def event_ok)
next
  case (LateSocket socket)
  then show "sends_ok s \<Longrightarrow> ?thesis" by (simp add: sends_ok_def)
next
  case ReconnectTimer
  then show "sends_ok s \<Longrightarrow> ?thesis" by (simp add: sends_ok_def session_ok_establish session_ok_quiet)
next
  case DisposeCloses
  then show "sends_ok s \<Longrightarrow> ?thesis" by (simp add: sends_ok_def)
qed (simp_all add: call_sends dispose_sends next_sends resumes_sends finish_sends connection_failed_sends
    start_write_sends write_settled_sends timeout_sends respond_sends inbound_settled_sends)

lemma new_session_sends: "sends_ok new_session"
  by (simp add: sends_ok_def new_session_def session_ok_def connection_ok_def exchanges_ok_def queue_ok_def
      pending_ok_def live_ok_def paired_def sending_def sending_ok_def)

lemma reachable_sends: "reachable_session c s \<Longrightarrow> sends_ok s"
  by (induction rule: reachable_session.induct) (auto intro: new_session_sends session_step_sends)

end
