(* ===== verification/Session_Receiving.thy ===== *)
theory Session_Receiving
  imports Session_Sending
begin

text \<open>
  What a host session receives: an answer is a frame routed on the connection its exchange was
  given, and how the stream of the socket is cut into events does not matter.
\<close>

section \<open>Answers\<close>

definition genuine_exchange :: "session_act set \<Rightarrow> exchange \<Rightarrow> bool" where
  "genuine_exchange acts x \<longleftrightarrow>
     (\<forall>k p. ex_answer x = Some (WireResponse k p) \<or> settled_with x = Some (WireResponse k p) \<longrightarrow>
        (\<exists>g. ex_generation x = Some g \<and> Routed g p \<in> acts))"

definition genuine :: "session \<Rightarrow> bool" where
  "genuine s \<longleftrightarrow> (\<forall>x \<in> set (ss_exchanges s). genuine_exchange (set (ss_log s)) x)"

lemma genuine_exchange_mono: "genuine_exchange A x \<Longrightarrow> A \<subseteq> B \<Longrightarrow> genuine_exchange B x"
  unfolding genuine_exchange_def by blast

lemma genuine_more:
  "genuine s \<Longrightarrow> ss_exchanges t = ss_exchanges s \<Longrightarrow> set (ss_log s) \<subseteq> set (ss_log t) \<Longrightarrow> genuine t"
  by (auto simp: genuine_def intro: genuine_exchange_mono)

lemma genuine_log [simp]:
  "genuine s \<Longrightarrow> genuine (note_act a s)" "genuine s \<Longrightarrow> genuine (emit e s)" "genuine s \<Longrightarrow> genuine (emit_at g e s)"
  by (auto simp: note_act_def emit_def emit_at_def intro: genuine_more)

lemma genuine_quiet [simp]:
  "genuine (s\<lparr>ss_inbound := ms\<rparr>) = genuine s" "genuine (s\<lparr>ss_closing := b\<rparr>) = genuine s"
  "genuine (s\<lparr>ss_late := n\<rparr>) = genuine s" "genuine (s\<lparr>ss_retired := r\<rparr>) = genuine s"
  "genuine (s\<lparr>ss_received := bs\<rparr>) = genuine s" "genuine (s\<lparr>ss_state := st\<rparr>) = genuine s"
  "genuine (s\<lparr>ss_reconnectAttempt := n\<rparr>) = genuine s" "genuine (s\<lparr>ss_connecting := k\<rparr>) = genuine s"
  "genuine (s\<lparr>ss_pending := p\<rparr>) = genuine s" "genuine (s\<lparr>ss_socket := so\<rparr>) = genuine s"
  "genuine (s\<lparr>ss_generation := g\<rparr>) = genuine s" "genuine (s\<lparr>ss_timer := b\<rparr>) = genuine s"
  "genuine (s\<lparr>ss_started := b\<rparr>) = genuine s" "genuine (s\<lparr>ss_disposed := b\<rparr>) = genuine s"
  "genuine (s\<lparr>ss_writes := ws\<rparr>) = genuine s" "genuine (s\<lparr>ss_writing := b\<rparr>) = genuine s"
  by (simp_all add: genuine_def)

lemma genuine_nth: "genuine s \<Longrightarrow> i < length (ss_exchanges s) \<Longrightarrow> genuine_exchange (set (ss_log s)) (ss_exchanges s ! i)"
  by (simp add: genuine_def)

lemma genuine_change:
  assumes "genuine s"
    and "i < length (ss_exchanges s) \<Longrightarrow> genuine_exchange (set (ss_log s)) (f (ss_exchanges s ! i))"
  shows "genuine (change_exchange i f s)"
proof (cases "i < length (ss_exchanges s)")
  case True
  then show ?thesis
    using assms set_update_subset_insert [of "ss_exchanges s" i "f (ss_exchanges s ! i)"]
    by (auto simp: genuine_def change_exchange_def)
qed (use assms(1) in \<open>simp add: genuine_def change_exchange_def list_update_beyond\<close>)

lemma genuine_settle:
  assumes s: "genuine s" and r: "\<And>k p. r = WireResponse k p \<Longrightarrow> ex_answer (ss_exchanges s ! i) = Some r"
  shows "genuine (settle_exchange i r s)"
proof -
  have "genuine (change_exchange i (\<lambda>x. x\<lparr>ex_phase := Settled r\<rparr>) s)"
    by (intro genuine_change s)
      (use genuine_nth [OF s] r in \<open>auto simp: genuine_exchange_def settled_with_def\<close>)
  then show ?thesis by (simp add: settle_exchange_def)
qed

lemma genuine_resolve:
  assumes s: "genuine s"
    and r: "\<And>k p. i < length (ss_exchanges s) \<Longrightarrow> r = WireResponse k p \<Longrightarrow>
      \<exists>g. ex_generation (ss_exchanges s ! i) = Some g \<and> Routed g p \<in> set (ss_log s)"
  shows "genuine (resolve_exchange i r s)"
  unfolding resolve_exchange_def
  by (intro genuine_change s) (use genuine_nth [OF s] r in \<open>auto simp: genuine_exchange_def settled_with_def\<close>)


lemma genuine_resolve_pending:
  "genuine s \<Longrightarrow> \<not> is_response r \<Longrightarrow> genuine (resolve_pending r s)"
  by (auto simp: resolve_pending_def is_response_def intro!: genuine_resolve split: option.split)

lemma genuine_reconnect [simp]: "genuine s \<Longrightarrow> genuine (scheduleReconnect c s)"
  by (simp add: scheduleReconnect_def)

lemma genuine_drop [simp]: "genuine s \<Longrightarrow> genuine (dropConnection c code b s)"
  by (simp add: dropConnection_def genuine_resolve_pending split: option.split)

lemma genuine_disconnect [simp]:
  "genuine s \<Longrightarrow> genuine (handleDisconnect c reason s)" "genuine s \<Longrightarrow> genuine (protocol_error c code s)"
  by (simp_all add: handleDisconnect_def protocol_error_def)

lemma genuine_route:
  assumes s: "genuine s"
  shows "genuine (routePayload c p s)"
proof -
  let ?t = "note_act (Routed (ss_generation s) p) s"
  have "genuine (resolve_exchange i (WireResponse k p) (?t\<lparr>ss_pending := None\<rparr>))"
    if "ex_generation (ss_exchanges s ! i) = Some (ss_generation s)" for i k
    by (intro genuine_resolve) (use s that in \<open>simp_all add: note_act_def genuine_log [unfolded note_act_def]\<close>)
  then show ?thesis
    using s by (simp add: routePayload_def Let_def split: option.split frame_route.split)
qed

lemma genuine_drain: "genuine s \<Longrightarrow> genuine (drainFrames c s)"
proof (induction c s rule: drainFrames.induct)
  case (1 c s)
  show ?case
  proof (cases "ss_received s = []")
    case False
    show ?thesis
    proof (cases "ff_decode (pc_frame c) (ss_received s)")
      case (CompleteFrame p n)
      then show ?thesis
        using False "1.prems" "1.IH" [OF False CompleteFrame _ refl]
          genuine_route [of "s\<lparr>ss_received := drop n (ss_received s)\<rparr>" c p]
        by (subst drainFrames.simps) (simp add: Let_def)
    qed (use "1.prems" False in \<open>simp_all add: drainFrames.simps [of c s]\<close>)
  qed (use "1.prems" in \<open>simp add: drainFrames.simps [of c s]\<close>)
qed

lemma genuine_event [simp]: "genuine s \<Longrightarrow> genuine (handleEvent c e s)"
  by (simp add: handleEvent_def genuine_drain split: tcp_event_kind.split option.split)

lemma genuine_connect [simp]:
  "genuine s \<Longrightarrow> genuine (establishConnection c b s)" "genuine s \<Longrightarrow> genuine (start c s)"
  by (simp_all add: establishConnection_def start_def)

lemma genuine_unsent [simp]:
  "genuine s \<Longrightarrow> genuine (settle_exchange i (WireNotSent code) s)"
  "genuine s \<Longrightarrow> genuine (settle_exchange i (WireUnknown code) s)"
  by (auto intro!: genuine_settle)















section \<open>The stream of the socket\<close>

definition routed :: "session \<Rightarrow> (nat \<times> byte list) list" where
  "routed s = concat (map (\<lambda>a. case a of Routed g p \<Rightarrow> [(g, p)] | _ \<Rightarrow> []) (ss_log s))"

definition reads_stream :: "session \<Rightarrow> byte list list \<Rightarrow> byte list \<Rightarrow> session \<Rightarrow> bool" where
  "reads_stream s ps rest t \<longleftrightarrow>
     routed t = routed s @ map (Pair (ss_generation s)) ps \<and> ss_received t = rest \<and>
     ss_socket t = ss_socket s \<and> ss_generation t = ss_generation s"

lemma reads_stream_trans:
  "reads_stream s ps r t \<Longrightarrow> reads_stream t qs r' u \<Longrightarrow> reads_stream s (ps @ qs) r' u"
  by (simp add: reads_stream_def)

lemma route_reads:
  assumes "\<And>p q. pc_routeFrame c p q \<noteq> None"
  shows "reads_stream s [p] (ss_received s) (routePayload c p s)"
proof -
  let ?q = "map_option (\<lambda>r. (rq_channel r, rq_idempotencyKey r))
    (map_option (\<lambda>i. ex_request (ss_exchanges s ! i)) (ss_pending s))"
  obtain route where "pc_routeFrame c p ?q = Some route" using assms [of p ?q] by blast
  then show ?thesis
    by (auto simp: reads_stream_def routePayload_def routed_def note_act_def emit_def emit_at_def resolve_exchange_def
        change_exchange_def Let_def split: option.split frame_route.split)
qed

lemma drain_reads:
  assumes total: "\<And>p q. pc_routeFrame c p q \<noteq> None" and dec: "ff_decode (pc_frame c) = created_decode opts"
  shows "ss_socket s \<noteq> None \<Longrightarrow> created.frames_of opts (ss_received s) = (ps, Inr r) \<Longrightarrow>
    reads_stream s ps r (drainFrames c s)"
  using assms
proof (induction c s arbitrary: ps rule: drainFrames.induct)
  case (1 c s)
  show ?case
  proof (cases "ss_received s = []")
    case True
    then show ?thesis using "1.prems" by (simp add: drainFrames.simps [of c s] reads_stream_def)
  next
    case False
    show ?thesis
    proof (cases "created_decode opts (ss_received s)")
      case Incomplete
      then show ?thesis
        using "1.prems" False
        by (auto simp: drainFrames.simps [of c s] reads_stream_def created.frames_of.simps [of opts "ss_received s"])
    next
      case (InvalidFrame e)
      then show ?thesis
        using "1.prems"(2) False by (simp add: created.frames_of.simps [of opts "ss_received s"])
    next
      case (CompleteFrame p n)
      let ?u = "s\<lparr>ss_received := drop n (ss_received s)\<rparr>"
      let ?t = "routePayload c p ?u"
      have n: "0 < n" "n \<le> length (ss_received s)" using created.progress [OF CompleteFrame] by auto
      have code: "ff_decode (pc_frame c) (ss_received s) = CompleteFrame p n" using "1.prems"(4) CompleteFrame by simp
      obtain qs where qs: "created.frames_of opts (drop n (ss_received s)) = (qs, Inr r)" "ps = p # qs"
        using "1.prems"(2) CompleteFrame False
        by (cases "created.frames_of opts (drop n (ss_received s))")
          (auto simp: created.frames_of.simps [of opts "ss_received s"])
      have u: "reads_stream ?u [p] (drop n (ss_received s)) ?t"
        using route_reads [OF "1.prems"(3), of ?u p] by simp
      then have t: "reads_stream s [p] (drop n (ss_received s)) ?t" by (simp add: reads_stream_def routed_def)
      then have "ss_socket ?t \<noteq> None" "created.frames_of opts (ss_received ?t) = (qs, Inr r)"
        using qs(1) "1.prems"(1) by (simp_all add: reads_stream_def)
      then have "reads_stream ?t qs r (drainFrames c ?t)"
        using "1.IH" [OF False code _ refl _ _ _ "1.prems"(3,4)] n by simp
      then have "reads_stream s ps r (drainFrames c ?t)" using reads_stream_trans [OF t] qs(2) by simp
      then show ?thesis
        using False code n \<open>ss_socket ?t \<noteq> None\<close> by (subst drainFrames.simps) (auto simp: Let_def)
    qed
  qed
qed

definition data_events :: "string \<Rightarrow> byte list list \<Rightarrow> session_input list" where
  "data_events socket cs = map (\<lambda>bs. TcpEvent \<lparr>te_kind = TcpData, te_id = socket, te_data = Some bs\<rparr>) cs"

lemma data_reads:
  assumes total: "\<And>p q. pc_routeFrame c p q \<noteq> None" and dec: "ff_decode (pc_frame c) = created_decode opts"
  shows "ss_socket s = Some socket \<Longrightarrow> created.read_chunks opts (ss_received s) cs = (ps, Inr r) \<Longrightarrow>
    reads_stream s ps r (run_session c (data_events socket cs) s)"
proof (induction cs arbitrary: s ps)
  case Nil
  then show ?case by (simp add: data_events_def reads_stream_def)
next
  case (Cons b cs)
  let ?t = "s\<lparr>ss_received := ss_received s @ b\<rparr>"
  obtain qs z where first: "created.frames_of opts (ss_received s @ b) = (qs, z)" by force
  obtain w where z: "z = Inr w" using Cons.prems(2) first by (cases z) auto
  then have first: "created.frames_of opts (ss_received s @ b) = (qs, Inr w)" using first by simp
  have rest: "ps = qs @ fst (created.read_chunks opts w cs)" "snd (created.read_chunks opts w cs) = Inr r"
    using Cons.prems(2) first by simp_all
  have "reads_stream ?t qs w (drainFrames c ?t)"
    by (rule drain_reads [OF total dec]) (use Cons.prems(1) first in simp_all)
  then have step: "reads_stream s qs w (drainFrames c ?t)" by (simp add: reads_stream_def routed_def)
  then have "ss_socket (drainFrames c ?t) = Some socket" and received: "ss_received (drainFrames c ?t) = w"
    using Cons.prems(1) by (simp_all add: reads_stream_def)
  then have "reads_stream (drainFrames c ?t) (fst (created.read_chunks opts w cs)) r
      (run_session c (data_events socket cs) (drainFrames c ?t))"
    by (intro Cons.IH) (simp_all add: prod_eq_iff rest(2))
  then have "reads_stream s ps r (run_session c (data_events socket cs) (drainFrames c ?t))"
    using reads_stream_trans [OF step] rest(1) by simp
  then show ?case using Cons.prems(1) by (simp add: data_events_def handleEvent_def)
qed

section \<open>Properties\<close>

text \<open>
  What a persistent host session promises its callers: an answer comes from the connection the
  request was sent on, a request is sent at most once and never when it is reported as not sent,
  and the frames of the host are routed in order however the socket delivers their bytes.
\<close>

definition ex_frames :: frame_options where
  "ex_frames =
     \<lparr>fo_fixedHeader = Some [96], fo_lengthBytes = 1, fo_lengthEncoding = LenBcd, fo_includesHeader = None,
      fo_includesLength = False, fo_maxFrameBytes = 12\<rparr>"

text \<open>The first byte of a payload says whether it is an answer.\<close>

definition ex_router :: "byte list \<Rightarrow> (string \<times> string) option \<Rightarrow> frame_route option" where
  "ex_router payload pending =
     (case payload of
        [] \<Rightarrow> Some (Ignored ''empty'')
      | b # _ \<Rightarrow> if b = 1 then Some (ToResponse None) else Some (ToInbound ''echo'' None))"

definition ex_session_config :: session_config where
  "ex_session_config =
     \<lparr>pc_id = ''host'', pc_host = ''10.0.0.1'', pc_port = 7000, pc_connectTimeoutMs = 5000,
      pc_writeTimeoutMs = 5000, pc_responseTimeoutMs = 30000,
      pc_frame = projr (createLengthPrefixFrameCodec ex_frames), pc_tls = False,
      pc_initialDelayMs = 500, pc_maxDelayMs = 30000, pc_multiplier = 2, pc_routeFrame = ex_router\<rparr>"

definition ex_request :: "byte list \<Rightarrow> exchange_request" where
  "ex_request payload = \<lparr>rq_channel = ''atm'', rq_idempotencyKey = ''key'', rq_payload = payload\<rparr>"

text \<open>
  A request is answered, the next one times out, and a third does not fit a frame.
\<close>

definition ex_inputs :: "session_input list" where
  "ex_inputs =
     [Start, ConnectSettles (Socket ''s1''), Exchange (ex_request [7]), NextExchange, StartWrite,
      WriteSettles Written] @
     data_events ''s1'' [[96], [2, 1], [9]] @
     [ExchangeResumes, Exchange (ex_request [8]), NextExchange, StartWrite, WriteSettles Written, ResponseTimeout,
      Exchange (ex_request (replicate 20 7)), NextExchange]"

definition ex_session :: session where
  "ex_session = run_session ex_session_config ex_inputs new_session"

lemma ex_session_reachable: "reachable_session ex_session_config (run_session ex_session_config is new_session)"
  by (intro reachable_run_session created)

lemma ex_session_values:
  "length (ss_exchanges ex_session) = 3"
  "ex_phase (ss_exchanges ex_session ! 0) = Settled (WireResponse ''key:response'' [1, 9])"
  "ex_phase (ss_exchanges ex_session ! 1) = Settled (WireUnknown ''host.session.response-timeout'')"
  "ex_phase (ss_exchanges ex_session ! 2) = Settled (WireNotSent ''host.session.request-frame-invalid'')"
  "ex_generation (ss_exchanges ex_session ! 0) = Some 1"
  "ex_generation (ss_exchanges ex_session ! 1) = Some 1"
  by code_simp+

lemma ex_session_created: "reachable_session ex_session_config ex_session"
  by (simp add: ex_session_def ex_session_reachable)

lemma written_is_write: "written i (filter is_write acts) = written i acts"
  by (induction acts) (auto simp: written_def is_write_def write_of_def split: session_act.splits)

section \<open>Properties\<close>



text \<open>
  C3. In every reachable state a request has been handed to the socket at most once, and never when
  its caller was told that it was not sent: then no write of it was made and none is queued.
\<close>
theorem requests_are_sent_once:
  assumes "reachable_session c s" and "i < length (ss_exchanges s)"
  shows "length (filter (write_of i) (ss_log s)) \<le> 1 \<and>
    (\<forall>code. ex_phase (ss_exchanges s ! i) = Settled (WireNotSent code) \<longrightarrow>
      length (filter (write_of i) (ss_log s)) = 0 \<and> (\<forall>w \<in> set (ss_writes s). qw_owner w \<noteq> OfExchange i))"
proof -
  have ok: "session_ok s" "sending_ok (sending s)" using reachable_sends [OF assms(1)] by (simp_all add: sends_ok_def)
  note d = sending_okD [OF ok(2) [unfolded sending_def], unfolded written_is_write]
  have x: "exchange_ok (ss_generation s) (ss_exchanges s ! i)"
    using session_okD(2) [OF ok(1)] assms(2) by (rule exchanges_okD)
  have once: "written i (ss_log s) \<le> 1" using d(4) [of i] by (simp split: if_splits)
  have unsent: "written i (ss_log s) = 0 \<and> owned i (ss_writes s) = 0"
    if "ex_phase (ss_exchanges s ! i) = Settled (WireNotSent code)" for code
  proof -
    have "ex_generation (ss_exchanges s ! i) = None"
      using x that by (auto simp: exchange_ok_def settled_with_def split: option.splits)
    then show ?thesis using d(3) [of i] d(4) [of i] that assms(2) by auto
  qed
  show ?thesis using once unsent by (simp add: written_def owned_zero)
qed

theorem requests_are_sent_once_witness:
  "length (filter (write_of 2) (ss_log ex_session)) = 0 \<and> length (filter (write_of 1) (ss_log ex_session)) \<le> 1"
  using requests_are_sent_once [OF ex_session_created, of 2] requests_are_sent_once [OF ex_session_created, of 1]
    ex_session_values by simp

text \<open>
  C33. With a length-prefix framing and a router that does not throw, the frames a host sends are
  routed one by one, in the order and with the payloads they were encoded with, however the socket
  cuts their bytes into events - inside a header, a length or a payload, or several frames at once -
  and the connection stays as it is with nothing left over.
\<close>
theorem frames_survive_the_stream:
  assumes "createLengthPrefixFrameCodec opts = Inr (pc_frame c)" and "\<And>p q. pc_routeFrame c p q \<noteq> None"
    and "ss_socket s = Some socket" and "ss_received s = []"
    and "list_all2 (\<lambda>p f. ff_encode (pc_frame c) p = Inr f) ps fs" and "concat cs = concat fs"
  shows "let t = run_session c (data_events socket cs) s in
    routed t = routed s @ map (Pair (ss_generation s)) ps \<and> ss_received t = [] \<and> ss_socket t = Some socket"
proof -
  have encode: "created_encode opts p = ff_encode (pc_frame c) p" for p
    using assms(1) by (simp add: created_encode_def res_simps)
  have decode: "ff_decode (pc_frame c) = created_decode opts"
    by (rule ext) (simp add: created_decode_def assms(1))
  have "created.read_chunks opts [] cs = (ps, Inr [])"
    by (rule created.read_chunks_frames [OF _ assms(6)]) (use assms(5) encode in simp)
  then have "reads_stream s ps [] (run_session c (data_events socket cs) s)"
    by (intro data_reads [OF assms(2) decode assms(3)]) (simp add: assms(4))
  then show ?thesis using assms(3) by (simp add: reads_stream_def Let_def)
qed

theorem frames_survive_the_stream_witness:
  "routed (run_session ex_session_config (data_events ''s1'' [[96], [1, 7, 96, 2], [1], [9]])
     (run_session ex_session_config (take 2 ex_inputs) new_session)) = [(1, [7]), (1, [1, 9])]"
proof -
  let ?s = "run_session ex_session_config (take 2 ex_inputs) new_session"
  have codec: "createLengthPrefixFrameCodec ex_frames = Inr (pc_frame ex_session_config)"
  proof -
    have "\<not> isl (createLengthPrefixFrameCodec ex_frames)" by code_simp
    then show ?thesis by (simp add: ex_session_config_def sum.expand)
  qed
  have total: "pc_routeFrame ex_session_config p q \<noteq> None" for p q
    by (simp add: ex_session_config_def ex_router_def split: list.split)
  have s: "ss_socket ?s = Some ''s1''" "ss_received ?s = []" "ss_generation ?s = 1" "routed ?s = []" by code_simp+
  have frames: "list_all2 (\<lambda>p f. ff_encode (pc_frame ex_session_config) p = Inr f) [[7], [1, 9]]
      [[96, 1, 7], [96, 2, 1, 9]]" by code_simp
  show ?thesis
    using frames_survive_the_stream [OF codec total s(1,2) frames, of "[[96], [1, 7, 96, 2], [1], [9]]"] s(3,4)
    by (simp add: Let_def)
qed

end
