(* ===== verification/Host_Delivery.thy ===== *)
theory Host_Delivery
  imports Complex_Main Registry
begin

text \<open>
  \<^verbatim>\<open>packages/kiosk-host-delivery\<close>: messages to the host are first written to an outbox, then
  claimed under a lease, sent and reconciled with the answer (\<^verbatim>\<open>contracts.ts\<close>, \<^verbatim>\<open>policy.ts\<close>,
  \<^verbatim>\<open>sqlite-store.ts\<close>, \<^verbatim>\<open>sqlite-codec.ts\<close>, \<^verbatim>\<open>sqlite-reconciliation.ts\<close>, \<^verbatim>\<open>payload-vault.ts\<close>,
  \<^verbatim>\<open>queue.ts\<close>, \<^verbatim>\<open>migration.ts\<close>). The tables of the database are lists of rows; each statement
  of the code is an operation on them, the keys declared by the migration are checked on insertion,
  and a transaction that fails leaves the tables as they were. Times are milliseconds (the code
  compares their ISO texts, which have one width and the same order); a summary is kept as a value
  (the code stores its JSON text).
\<close>

section \<open>Contracts\<close>

datatype delivery_status = DPending | DLeased | DRetryScheduled | DUncertain | DReconciled | DFailed | DCancelled

datatype summary_value = SummaryText string | SummaryNumber rat | SummaryFlag bool

type_synonym host_summary = "(string \<times> summary_value) list"

type_synonym timestamp = int

record delivery_record =
  dr_id :: string
  dr_transactionId :: string
  dr_messageId :: string
  dr_idempotencyKey :: string
  dr_messageType :: string
  dr_channel :: string
  dr_payloadRef :: string
  dr_safeSummary :: host_summary
  dr_policyId :: string
  dr_policyVersion :: string
  dr_status :: delivery_status
  dr_attemptCount :: nat
  dr_nextAttemptAt :: "timestamp option"
  dr_leaseOwner :: "string option"
  dr_leaseUntil :: "timestamp option"
  dr_lastErrorCode :: "string option"
  dr_responseId :: "string option"
  dr_resolution :: "string option"
  dr_createdAt :: timestamp
  dr_updatedAt :: timestamp

record enqueue_input =
  en_id :: string
  en_transactionId :: string
  en_messageId :: string
  en_idempotencyKey :: string
  en_messageType :: string
  en_channel :: string
  en_payload :: "byte list"
  en_safeSummary :: host_summary
  en_policyId :: string

datatype uncertain_strategy = ByInquiry | ByHand

datatype inquiry_not_found = RetryNotFound | ManualNotFound

record delivery_policy =
  dp_id :: string
  dp_version :: string
  dp_leaseMs :: int
  dp_maxAttempts :: int
  dp_retryDelaysMs :: "int list"
  dp_uncertainStrategy :: uncertain_strategy
  dp_inquiryNotFound :: inquiry_not_found

datatype transport_result =
    HostAnswered string "byte list" host_summary
  | HostNotSent string
  | HostUnknown string

datatype inquiry_result =
    InquiryFound string "byte list" host_summary
  | InquiryNotFound
  | InquiryUnavailable string

datatype response_source = FromTransport | FromInquiry

record response_input =
  ri_outboxId :: string
  ri_responseId :: string
  ri_payload :: "byte list"
  ri_safeSummary :: host_summary
  ri_source :: response_source

datatype projection = Reconciled | DuplicateResponse | ConflictingResponse

datatype manual_resolution = ConfirmedDelivered | ConfirmedNotSent | Cancelled

text \<open>The cipher of payloads is a port; a ciphertext it refuses answers \<^term>\<open>None\<close>.\<close>

record payload_cipher =
  cipher_encrypt :: "string \<Rightarrow> byte list \<Rightarrow> string"
  cipher_decrypt :: "string \<Rightarrow> string \<Rightarrow> byte list option"

section \<open>Times\<close>

text \<open>
  \<^verbatim>\<open>Date.toISOString\<close>, for the years 0 to 9999: the date of a day count since 1970-01-01 in
  the Gregorian calendar, counted in eras of 400 years that begin on the first of March.
\<close>

definition digits_text :: "nat \<Rightarrow> int \<Rightarrow> string" where
  "digits_text w n = map (\<lambda>d. char_of (48 + d)) (pad_start w 0 (dec_digits (nat n)))"

definition civil_date :: "int \<Rightarrow> int \<times> int \<times> int" where
  "civil_date days =
     (let z = days + 719468;
          doe = z mod 146097;
          yoe = (doe - doe div 1460 + doe div 36524 - doe div 146096) div 365;
          doy = doe - (365 * yoe + yoe div 4 - yoe div 100);
          mp = (5 * doy + 2) div 153;
          d = doy - (153 * mp + 2) div 5 + 1;
          m = (if mp < 10 then mp + 3 else mp - 9) in
      (z div 146097 * 400 + yoe + (if m \<le> 2 then 1 else 0), m, d))"

definition iso_text :: "timestamp \<Rightarrow> string" where
  "iso_text t =
     (case civil_date (t div 86400000) of
        (y, m, d) \<Rightarrow>
          digits_text 4 y @ ''-'' @ digits_text 2 m @ ''-'' @ digits_text 2 d @ ''T'' @
          digits_text 2 (t div 3600000 mod 24) @ '':'' @ digits_text 2 (t div 60000 mod 60) @ '':'' @
          digits_text 2 (t div 1000 mod 60) @ ''.'' @ digits_text 3 (t mod 1000) @ ''Z'')"

lemma iso_text_example: "iso_text 1784592000123 = ''2026-07-21T00:00:00.123Z''"
  by code_simp

section \<open>Policies\<close>

definition max_safe_integer :: int where
  "max_safe_integer = 2 ^ 53 - 1"

definition safe_from :: "int \<Rightarrow> int \<Rightarrow> bool" where
  "safe_from low n \<longleftrightarrow> low \<le> n \<and> n \<le> max_safe_integer"

definition validate_delivery_policy :: "delivery_policy \<Rightarrow> string + unit" where
  "validate_delivery_policy p =
     rbind (guard_res (\<not> blank (dp_id p) \<and> \<not> blank (dp_version p))
       ''Host delivery policy identity is required'') (\<lambda>_.
     rbind (guard_res (safe_from 1 (dp_leaseMs p)) (''Invalid lease duration: '' @ dp_id p)) (\<lambda>_.
     rbind (guard_res (safe_from 1 (dp_maxAttempts p)) (''Invalid max attempts: '' @ dp_id p)) (\<lambda>_.
     guard_res (dp_retryDelaysMs p \<noteq> [] \<and> list_all (safe_from 0) (dp_retryDelaysMs p))
       (''Invalid retry delays: '' @ dp_id p))))"

definition register_delivery_policy ::
  "delivery_policy \<Rightarrow> delivery_policy registry \<Rightarrow> string + delivery_policy registry" where
  "register_delivery_policy p r =
     rbind (guard_res (\<not> rg_frozen r) ''Host delivery policy registry is frozen'') (\<lambda>_.
     rbind (guard_res (lookup r (dp_id p) = None) (''Duplicate host delivery policy: '' @ dp_id p)) (\<lambda>_.
     rbind (validate_delivery_policy p) (\<lambda>_.
     Inr (insert_entry (dp_id p) p r))))"

definition require_delivery_policy :: "delivery_policy registry \<Rightarrow> string \<Rightarrow> string + delivery_policy" where
  "require_delivery_policy r pid =
     (case lookup r pid of
        None \<Rightarrow> Inl (''Host delivery policy is not registered: '' @ pid)
      | Some p \<Rightarrow> Inr p)"

interpretation delivery_policies: freezable_registry
  register_delivery_policy freeze lookup rg_frozen dp_id "\<lambda>p. validate_delivery_policy p = Inr ()"
  by unfold_locales (auto simp: register_delivery_policy_def res_simps)

section \<open>Tables\<close>

datatype message_direction = Outbound | Inbound

record message_row =
  mr_id :: string
  mr_transactionId :: string
  mr_seq :: nat
  mr_direction :: message_direction
  mr_messageType :: string
  mr_channel :: string
  mr_status :: string
  mr_requestId :: string
  mr_payload :: host_summary
  mr_createdAt :: timestamp

record response_row =
  rr_responseId :: string
  rr_outboxId :: string
  rr_payloadRef :: string
  rr_safeSummary :: host_summary
  rr_source :: response_source
  rr_createdAt :: timestamp

record audit_row =
  ar_id :: string
  ar_eventId :: string
  ar_transactionId :: string
  ar_message :: string
  ar_data :: "(string \<times> string) list"
  ar_createdAt :: timestamp

record host_db =
  db_transactions :: "string list"
  db_outbox :: "delivery_record list"
  db_messages :: "message_row list"
  db_responses :: "response_row list"
  db_audit :: "audit_row list"
  db_payloads :: "(string \<times> string) list"

definition get_delivery :: "string \<Rightarrow> host_db \<Rightarrow> delivery_record option" where
  "get_delivery k db = find (\<lambda>r. dr_id r = k) (db_outbox db)"

definition update_outbox :: "(delivery_record \<Rightarrow> bool) \<Rightarrow> (delivery_record \<Rightarrow> delivery_record) \<Rightarrow> host_db \<Rightarrow> host_db" where
  "update_outbox P f db = db\<lparr>db_outbox := map (\<lambda>r. if P r then f r else r) (db_outbox db)\<rparr>"

definition constraint_failed :: string where
  "constraint_failed = ''constraint failed''"

text \<open>The keys and references of the schema: a row that breaks one is refused.\<close>

definition insert_outbox :: "delivery_record \<Rightarrow> host_db \<Rightarrow> string + host_db" where
  "insert_outbox r db =
     (if dr_transactionId r \<in> set (db_transactions db) \<and>
         list_all (\<lambda>q. dr_id q \<noteq> dr_id r \<and> dr_messageId q \<noteq> dr_messageId r \<and>
           dr_idempotencyKey q \<noteq> dr_idempotencyKey r \<and> dr_payloadRef q \<noteq> dr_payloadRef r) (db_outbox db)
      then Inr (db\<lparr>db_outbox := db_outbox db @ [r]\<rparr>) else Inl constraint_failed)"

definition next_seq :: "string \<Rightarrow> host_db \<Rightarrow> nat" where
  "next_seq transactionId db =
     foldl max 0 (map mr_seq (filter (\<lambda>m. mr_transactionId m = transactionId) (db_messages db))) + 1"

definition insert_message :: "message_row \<Rightarrow> host_db \<Rightarrow> string + host_db" where
  "insert_message m db =
     (if mr_transactionId m \<in> set (db_transactions db) \<and>
         list_all (\<lambda>n. mr_id n \<noteq> mr_id m \<and> (mr_transactionId n = mr_transactionId m \<longrightarrow> mr_seq n \<noteq> mr_seq m))
           (db_messages db)
      then Inr (db\<lparr>db_messages := db_messages db @ [m]\<rparr>) else Inl constraint_failed)"

definition insert_response :: "response_row \<Rightarrow> host_db \<Rightarrow> string + host_db" where
  "insert_response r db =
     (if get_delivery (rr_outboxId r) db \<noteq> None \<and>
         list_all (\<lambda>q. rr_responseId q \<noteq> rr_responseId r) (db_responses db)
      then Inr (db\<lparr>db_responses := db_responses db @ [r]\<rparr>) else Inl constraint_failed)"

definition insert_audit :: "audit_row \<Rightarrow> host_db \<Rightarrow> string + host_db" where
  "insert_audit a db =
     (if list_all (\<lambda>b. ar_id b \<noteq> ar_id a) (db_audit db)
      then Inr (db\<lparr>db_audit := db_audit db @ [a]\<rparr>) else Inl constraint_failed)"

section \<open>The payload vault\<close>

definition vault_put :: "payload_cipher \<Rightarrow> string \<Rightarrow> byte list \<Rightarrow> host_db \<Rightarrow> host_db" where
  "vault_put cipher ref payload db =
     (if map_of (db_payloads db) ref = None
      then db\<lparr>db_payloads := db_payloads db @ [(ref, cipher_encrypt cipher ref payload)]\<rparr> else db)"

definition vault_get :: "payload_cipher \<Rightarrow> string \<Rightarrow> host_db \<Rightarrow> string + byte list option" where
  "vault_get cipher ref db =
     (case map_of (db_payloads db) ref of
        None \<Rightarrow> Inr None
      | Some ciphertext \<Rightarrow>
          (case cipher_decrypt cipher ref ciphertext of
             None \<Rightarrow> Inl ''payload cannot be decrypted''
           | Some payload \<Rightarrow> Inr (Some payload)))"

definition vault_delete :: "string \<Rightarrow> host_db \<Rightarrow> host_db" where
  "vault_delete ref db = db\<lparr>db_payloads := filter (\<lambda>(k, _). k \<noteq> ref) (db_payloads db)\<rparr>"

section \<open>The outbox\<close>

definition store_enqueue ::
  "timestamp \<Rightarrow> enqueue_input \<Rightarrow> string \<Rightarrow> delivery_policy \<Rightarrow> host_db \<Rightarrow> string + delivery_record \<times> host_db" where
  "store_enqueue now i payloadRef policy db =
     (case find (\<lambda>r. dr_idempotencyKey r = en_idempotencyKey i) (db_outbox db) of
        Some existing \<Rightarrow>
          if dr_id existing \<noteq> en_id i \<or> dr_transactionId existing \<noteq> en_transactionId i
          then Inl (''Host delivery idempotency conflict: '' @ en_idempotencyKey i)
          else Inr (existing, db)
      | None \<Rightarrow>
          (let row =
             \<lparr>dr_id = en_id i, dr_transactionId = en_transactionId i, dr_messageId = en_messageId i,
              dr_idempotencyKey = en_idempotencyKey i, dr_messageType = en_messageType i,
              dr_channel = en_channel i, dr_payloadRef = payloadRef, dr_safeSummary = en_safeSummary i,
              dr_policyId = dp_id policy, dr_policyVersion = dp_version policy, dr_status = DPending,
              dr_attemptCount = 0, dr_nextAttemptAt = Some now, dr_leaseOwner = None, dr_leaseUntil = None,
              dr_lastErrorCode = None, dr_responseId = None, dr_resolution = None,
              dr_createdAt = now, dr_updatedAt = now\<rparr> in
           rbind (insert_outbox row db) (\<lambda>db1.
           rbind (insert_message
             \<lparr>mr_id = en_messageId i, mr_transactionId = en_transactionId i,
              mr_seq = next_seq (en_transactionId i) db1, mr_direction = Outbound,
              mr_messageType = en_messageType i, mr_channel = en_channel i, mr_status = ''queued'',
              mr_requestId = en_id i, mr_payload = en_safeSummary i, mr_createdAt = now\<rparr> db1) (\<lambda>db2.
           Inr (row, db2)))))"

text \<open>The queue: the payload is put in the vault first, and taken out again when the record is refused.\<close>

definition enqueue ::
  "payload_cipher \<Rightarrow> delivery_policy registry \<Rightarrow> timestamp \<Rightarrow> enqueue_input \<Rightarrow> host_db \<Rightarrow>
   (string + delivery_record) \<times> host_db" where
  "enqueue cipher policies now i db =
     (case require_delivery_policy policies (en_policyId i) of
        Inl e \<Rightarrow> (Inl e, db)
      | Inr policy \<Rightarrow>
          (let payloadRef = ''host-request:'' @ en_id i;
               stored = vault_put cipher payloadRef (en_payload i) db in
           case store_enqueue now i payloadRef policy stored of
             Inr (row, db') \<Rightarrow> (Inr row, db')
           | Inl e \<Rightarrow> (Inl e, vault_delete payloadRef stored)))"

definition sweep_expired :: "timestamp \<Rightarrow> host_db \<Rightarrow> host_db" where
  "sweep_expired now =
     update_outbox
       (\<lambda>r. dr_status r = DLeased \<and> (case dr_leaseUntil r of None \<Rightarrow> False | Some t \<Rightarrow> t \<le> now))
       (\<lambda>r. r\<lparr>dr_status := DUncertain, dr_leaseOwner := None, dr_leaseUntil := None,
         dr_lastErrorCode := Some ''host.delivery.lease-expired'', dr_updatedAt := now\<rparr>)"

definition waiting :: "delivery_record \<Rightarrow> bool" where
  "waiting r \<longleftrightarrow> dr_status r = DPending \<or> dr_status r = DRetryScheduled"

definition due :: "timestamp \<Rightarrow> delivery_record \<Rightarrow> bool" where
  "due now r \<longleftrightarrow> waiting r \<and> (case dr_nextAttemptAt r of None \<Rightarrow> False | Some t \<Rightarrow> t \<le> now)"

fun text_before :: "string \<Rightarrow> string \<Rightarrow> bool" where
  "text_before [] t = (t \<noteq> [])"
| "text_before (a # s) [] = False"
| "text_before (a # s) (b # t) = (of_char a < (of_char b :: nat) \<or> a = b \<and> text_before s t)"

definition due_before :: "delivery_record \<Rightarrow> delivery_record \<Rightarrow> bool" where
  "due_before a b \<longleftrightarrow>
     (let ta = the (dr_nextAttemptAt a); tb = the (dr_nextAttemptAt b) in
      ta < tb \<or> ta = tb \<and>
        (dr_createdAt a < dr_createdAt b \<or> dr_createdAt a = dr_createdAt b \<and> text_before (dr_id a) (dr_id b)))"

fun first_due :: "delivery_record list \<Rightarrow> delivery_record option" where
  "first_due [] = None"
| "first_due (r # rs) =
     (case first_due rs of None \<Rightarrow> Some r | Some q \<Rightarrow> Some (if due_before q r then q else r))"

text \<open>
  Claiming the selected row: a policy of another version leaves the record uncertain, otherwise it
  is leased to the owner and its attempts are counted.
\<close>

definition claim_row ::
  "delivery_policy registry \<Rightarrow> string \<Rightarrow> timestamp \<Rightarrow> delivery_record \<Rightarrow> host_db \<Rightarrow>
   string + delivery_record option \<times> host_db" where
  "claim_row policies owner now row db =
     rbind (require_delivery_policy policies (dr_policyId row)) (\<lambda>policy.
       if dp_version policy \<noteq> dr_policyVersion row then
         Inr (None,
           update_outbox (\<lambda>r. dr_id r = dr_id row)
             (\<lambda>r. r\<lparr>dr_status := DUncertain,
               dr_lastErrorCode := Some ''host.delivery.policy-version-mismatch'', dr_updatedAt := now\<rparr>) db)
       else
         (let db' = update_outbox (\<lambda>r. dr_id r = dr_id row \<and> waiting r)
             (\<lambda>r. r\<lparr>dr_status := DLeased, dr_attemptCount := dr_attemptCount r + 1, dr_leaseOwner := Some owner,
               dr_leaseUntil := Some (now + dp_leaseMs policy), dr_updatedAt := now\<rparr>) db in
          Inr (get_delivery (dr_id row) db', db')))"

definition claimNext ::
  "delivery_policy registry \<Rightarrow> string \<Rightarrow> timestamp \<Rightarrow> host_db \<Rightarrow> string + delivery_record option \<times> host_db" where
  "claimNext policies owner now db =
     (let swept = sweep_expired now db in
      case first_due (filter (due now) (db_outbox swept)) of
        None \<Rightarrow> Inr (None, swept)
      | Some row \<Rightarrow> claim_row policies owner now row swept)"

definition claim ::
  "delivery_policy registry \<Rightarrow> string \<Rightarrow> string \<Rightarrow> timestamp \<Rightarrow> host_db \<Rightarrow>
   string + delivery_record option \<times> host_db" where
  "claim policies k owner now db =
     (let swept = sweep_expired now db in
      case find (\<lambda>r. dr_id r = k \<and> due now r) (db_outbox swept) of
        None \<Rightarrow> Inr (None, swept)
      | Some row \<Rightarrow> claim_row policies owner now row swept)"

definition updateState ::
  "timestamp \<Rightarrow> string \<Rightarrow> delivery_status \<Rightarrow> string \<Rightarrow> timestamp option \<Rightarrow> host_db \<Rightarrow> string + host_db" where
  "updateState now k status errorCode nextAttemptAt db =
     (if get_delivery k db = None then Inl (''Host delivery record not found: '' @ k)
      else Inr (update_outbox (\<lambda>r. dr_id r = k)
        (\<lambda>r. r\<lparr>dr_status := status, dr_nextAttemptAt := nextAttemptAt, dr_leaseOwner := None, dr_leaseUntil := None,
          dr_lastErrorCode := Some errorCode, dr_updatedAt := now\<rparr>) db))"

definition scheduleRetry :: "timestamp \<Rightarrow> string \<Rightarrow> timestamp \<Rightarrow> string \<Rightarrow> host_db \<Rightarrow> string + host_db" where
  "scheduleRetry now k nextAttemptAt errorCode = updateState now k DRetryScheduled errorCode (Some nextAttemptAt)"

definition markUncertain :: "timestamp \<Rightarrow> string \<Rightarrow> string \<Rightarrow> host_db \<Rightarrow> string + host_db" where
  "markUncertain now k errorCode = updateState now k DUncertain errorCode None"

definition markFailed :: "timestamp \<Rightarrow> string \<Rightarrow> string \<Rightarrow> host_db \<Rightarrow> string + host_db" where
  "markFailed now k errorCode = updateState now k DFailed errorCode None"

section \<open>Reconciliation\<close>

definition source_text :: "response_source \<Rightarrow> string" where
  "source_text s = (case s of FromTransport \<Rightarrow> ''transport'' | FromInquiry \<Rightarrow> ''inquiry'')"

definition require_outbox :: "string \<Rightarrow> host_db \<Rightarrow> string + delivery_record" where
  "require_outbox k db =
     (case get_delivery k db of
        None \<Rightarrow> Inl (''Host delivery record not found: '' @ k) | Some r \<Rightarrow> Inr r)"

definition appendInboundMessage ::
  "delivery_record \<Rightarrow> response_input \<Rightarrow> timestamp \<Rightarrow> host_db \<Rightarrow> string + host_db" where
  "appendInboundMessage outbox i now db =
     insert_message
       \<lparr>mr_id = ''host-response:'' @ ri_responseId i, mr_transactionId = dr_transactionId outbox,
        mr_seq = next_seq (dr_transactionId outbox) db, mr_direction = Inbound,
        mr_messageType = dr_messageType outbox @ ''.response'', mr_channel = dr_channel outbox,
        mr_status = ''received'', mr_requestId = dr_id outbox, mr_payload = ri_safeSummary i,
        mr_createdAt = now\<rparr> db"

definition applyResponse ::
  "timestamp \<Rightarrow> response_input \<Rightarrow> string \<Rightarrow> host_db \<Rightarrow> string + projection \<times> host_db" where
  "applyResponse now i payloadRef db =
     (case find (\<lambda>r. rr_responseId r = ri_responseId i) (db_responses db) of
        Some duplicate \<Rightarrow>
          Inr (if rr_outboxId duplicate = ri_outboxId i then DuplicateResponse else ConflictingResponse, db)
      | None \<Rightarrow>
          rbind (require_outbox (ri_outboxId i) db) (\<lambda>outbox.
          rbind (insert_response
            \<lparr>rr_responseId = ri_responseId i, rr_outboxId = ri_outboxId i, rr_payloadRef = payloadRef,
             rr_safeSummary = ri_safeSummary i, rr_source = ri_source i, rr_createdAt = now\<rparr> db) (\<lambda>db1.
          rbind (appendInboundMessage outbox i now db1) (\<lambda>db2.
          rbind (insert_audit
            \<lparr>ar_id = ''host-reconciliation:'' @ ri_responseId i, ar_eventId = ''host.delivery.reconciled'',
             ar_transactionId = dr_transactionId outbox, ar_message = ''Host delivery response reconciled'',
             ar_data = [(''responseId'', ri_responseId i), (''source'', source_text (ri_source i))],
             ar_createdAt = now\<rparr> db2) (\<lambda>db3.
          Inr (Reconciled,
            update_outbox (\<lambda>r. dr_id r = ri_outboxId i)
              (\<lambda>r. r\<lparr>dr_status := DReconciled, dr_responseId := Some (ri_responseId i),
                dr_resolution := Some (source_text (ri_source i)), dr_leaseOwner := None, dr_leaseUntil := None,
                dr_updatedAt := now\<rparr>) db3))))))"

definition getResponse :: "string \<Rightarrow> host_db \<Rightarrow> response_row option" where
  "getResponse outboxId db = find (\<lambda>r. rr_outboxId r = outboxId) (db_responses db)"

definition manualStatus :: "manual_resolution \<Rightarrow> delivery_status" where
  "manualStatus r =
     (case r of ConfirmedDelivered \<Rightarrow> DReconciled | ConfirmedNotSent \<Rightarrow> DRetryScheduled | Cancelled \<Rightarrow> DCancelled)"

definition resolution_text :: "manual_resolution \<Rightarrow> string" where
  "resolution_text r =
     (case r of
        ConfirmedDelivered \<Rightarrow> ''confirmedDelivered''
      | ConfirmedNotSent \<Rightarrow> ''confirmedNotSent''
      | Cancelled \<Rightarrow> ''cancelled'')"

definition status_text :: "delivery_status \<Rightarrow> string" where
  "status_text s =
     (case s of
        DPending \<Rightarrow> ''pending'' | DLeased \<Rightarrow> ''leased'' | DRetryScheduled \<Rightarrow> ''retryScheduled''
      | DUncertain \<Rightarrow> ''uncertain'' | DReconciled \<Rightarrow> ''reconciled'' | DFailed \<Rightarrow> ''failed''
      | DCancelled \<Rightarrow> ''cancelled'')"

record manual_input =
  mi_outboxId :: string
  mi_resolution :: manual_resolution
  mi_operatorId :: string
  mi_reasonCode :: string
  mi_retryAt :: "timestamp option"

definition applyManualResolution ::
  "timestamp \<Rightarrow> manual_input \<Rightarrow> host_db \<Rightarrow> string + host_db" where
  "applyManualResolution now i db =
     rbind (guard_res (\<not> blank (mi_operatorId i) \<and> \<not> blank (mi_reasonCode i))
       ''Manual host resolution requires operator and reason code'') (\<lambda>_.
     rbind (require_outbox (mi_outboxId i) db) (\<lambda>outbox.
     rbind (guard_res (dr_status outbox = DUncertain \<or> dr_status outbox = DFailed)
       (''Host delivery cannot be manually resolved from '' @ status_text (dr_status outbox))) (\<lambda>_.
     rbind (guard_res (manualStatus (mi_resolution i) = DRetryScheduled \<longrightarrow> mi_retryAt i \<noteq> None)
       ''Confirmed-not-sent resolution requires a retry time'') (\<lambda>_.
     insert_audit
       \<lparr>ar_id = ''host-manual:'' @ mi_outboxId i @ '':'' @ iso_text now, ar_eventId = ''host.delivery.manual-resolution'',
        ar_transactionId = dr_transactionId outbox, ar_message = ''Host delivery manually resolved'',
        ar_data = [(''operatorId'', mi_operatorId i), (''reasonCode'', mi_reasonCode i),
          (''resolution'', resolution_text (mi_resolution i))],
        ar_createdAt = now\<rparr>
       (update_outbox (\<lambda>r. dr_id r = mi_outboxId i)
         (\<lambda>r. r\<lparr>dr_status := manualStatus (mi_resolution i),
           dr_resolution := Some (''manual:'' @ resolution_text (mi_resolution i)),
           dr_nextAttemptAt := mi_retryAt i, dr_leaseOwner := None, dr_leaseUntil := None,
           dr_lastErrorCode := None, dr_updatedAt := now\<rparr>) db)))))"

end
