(* ===== verification/Delivery_Worker.thy ===== *)
theory Delivery_Worker
  imports Host_Delivery
begin

text \<open>
  \<^verbatim>\<open>worker.ts\<close> and \<^verbatim>\<open>reconciliation.ts\<close> of \<^verbatim>\<open>packages/kiosk-host-delivery\<close>: workers that claim
  and send the records of the outbox, inquiries about records whose outcome is unknown, and the
  resolutions of operators. Any number of them run at the same time on one database: a call runs as
  a job that stops wherever the code waits, and an input is the call of a method, the settling of
  what a job waits for, or the clock.
\<close>

section \<open>The runtime\<close>

record delivery_config =
  dc_cipher :: payload_cipher
  dc_policies :: "delivery_policy registry"

datatype work_result = WorkIdle | WorkReconciled string | WorkRetryScheduled string | WorkUncertain string | WorkFailed string

datatype worker_job =
    JobClaimed delivery_record
  | JobUnreadable delivery_record
  | JobSending delivery_record "byte list"
  | JobAnswered delivery_record response_input
  | JobConflict delivery_record
  | JobDone "string + work_result"

datatype reconcile_result = AskReconciled | AskRetryScheduled | AskManualRequired | AskUnavailable

datatype inquiry_job =
    AskInquiring delivery_record delivery_policy
  | AskFound response_input
  | AskRetry string
  | AskDone "string + reconcile_result"

record delivery_runtime =
  dv_db :: host_db
  dv_now :: timestamp
  dv_jobs :: "worker_job list"
  dv_asks :: "inquiry_job list"
  dv_sent :: "(string \<times> nat) list"

definition new_runtime :: "host_db \<Rightarrow> delivery_runtime" where
  "new_runtime db = \<lparr>dv_db = db, dv_now = 0, dv_jobs = [], dv_asks = [], dv_sent = []\<rparr>"

definition set_job :: "nat \<Rightarrow> worker_job \<Rightarrow> delivery_runtime \<Rightarrow> delivery_runtime" where
  "set_job k j s = s\<lparr>dv_jobs := (dv_jobs s)[k := j]\<rparr>"

definition set_ask :: "nat \<Rightarrow> inquiry_job \<Rightarrow> delivery_runtime \<Rightarrow> delivery_runtime" where
  "set_ask k a s = s\<lparr>dv_asks := (dv_asks s)[k := a]\<rparr>"

text \<open>A statement on the database ends the job: with its result, or with the error it raised.\<close>

definition finish_job :: "nat \<Rightarrow> string + host_db \<Rightarrow> work_result \<Rightarrow> delivery_runtime \<Rightarrow> delivery_runtime" where
  "finish_job k m result s =
     (case m of
        Inl e \<Rightarrow> set_job k (JobDone (Inl e)) s
      | Inr db \<Rightarrow> set_job k (JobDone (Inr result)) (s\<lparr>dv_db := db\<rparr>))"

section \<open>The worker\<close>

definition response_ref :: "response_input \<Rightarrow> string" where
  "response_ref i = ''host-response:'' @ ri_responseId i"

definition work :: "delivery_config \<Rightarrow> string \<Rightarrow> string option \<Rightarrow> delivery_runtime \<Rightarrow> delivery_runtime" where
  "work c owner target s =
     (case (case target of
              Some k \<Rightarrow> claim (dc_policies c) k owner (dv_now s) (dv_db s)
            | None \<Rightarrow> claimNext (dc_policies c) owner (dv_now s) (dv_db s)) of
        Inl e \<Rightarrow> s\<lparr>dv_jobs := dv_jobs s @ [JobDone (Inl e)]\<rparr>
      | Inr (None, db) \<Rightarrow> s\<lparr>dv_db := db, dv_jobs := dv_jobs s @ [JobDone (Inr WorkIdle)]\<rparr>
      | Inr (Some r, db) \<Rightarrow> s\<lparr>dv_db := db, dv_jobs := dv_jobs s @ [JobClaimed r]\<rparr>)"

definition load_payload :: "delivery_config \<Rightarrow> nat \<Rightarrow> delivery_runtime \<Rightarrow> delivery_runtime" where
  "load_payload c k s =
     (case dv_jobs s ! k of
        JobClaimed r \<Rightarrow>
          (case vault_get (dc_cipher c) (dr_payloadRef r) (dv_db s) of
             Inl e \<Rightarrow> set_job k (JobDone (Inl e)) s
           | Inr None \<Rightarrow> set_job k (JobUnreadable r) s
           | Inr (Some payload) \<Rightarrow>
               (set_job k (JobSending r payload) s)\<lparr>dv_sent := dv_sent s @ [(dr_id r, dr_attemptCount r)]\<rparr>)
      | _ \<Rightarrow> s)"

definition fail_unreadable :: "nat \<Rightarrow> delivery_runtime \<Rightarrow> delivery_runtime" where
  "fail_unreadable k s =
     (case dv_jobs s ! k of
        JobUnreadable r \<Rightarrow>
          finish_job k (markFailed (dv_now s) (dr_id r) ''host.payload.unavailable'' (dv_db s)) (WorkFailed (dr_id r)) s
      | _ \<Rightarrow> s)"

definition retry_delay :: "delivery_policy \<Rightarrow> nat \<Rightarrow> int" where
  "retry_delay p attempt = dp_retryDelaysMs p ! min (attempt - 1) (length (dp_retryDelaysMs p) - 1)"

definition not_sent_result :: "delivery_config \<Rightarrow> nat \<Rightarrow> delivery_record \<Rightarrow> string \<Rightarrow> delivery_runtime \<Rightarrow> delivery_runtime" where
  "not_sent_result c k r errorCode s =
     (case require_delivery_policy (dc_policies c) (dr_policyId r) of
        Inl e \<Rightarrow> set_job k (JobDone (Inl e)) s
      | Inr policy \<Rightarrow>
          if int (dr_attemptCount r) \<ge> dp_maxAttempts policy then
            finish_job k (markFailed (dv_now s) (dr_id r) errorCode (dv_db s)) (WorkFailed (dr_id r)) s
          else
            finish_job k
              (scheduleRetry (dv_now s) (dr_id r) (dv_now s + retry_delay policy (dr_attemptCount r)) errorCode (dv_db s))
              (WorkRetryScheduled (dr_id r)) s)"

text \<open>A transport that throws answers \<^term>\<open>None\<close>.\<close>

definition send_settled :: "delivery_config \<Rightarrow> nat \<Rightarrow> transport_result option \<Rightarrow> delivery_runtime \<Rightarrow> delivery_runtime" where
  "send_settled c k result s =
     (case dv_jobs s ! k of
        JobSending r _ \<Rightarrow>
          (case result of
             None \<Rightarrow>
               finish_job k (markUncertain (dv_now s) (dr_id r) ''host.transport.exception'' (dv_db s))
                 (WorkUncertain (dr_id r)) s
           | Some (HostUnknown errorCode) \<Rightarrow>
               finish_job k (markUncertain (dv_now s) (dr_id r) errorCode (dv_db s)) (WorkUncertain (dr_id r)) s
           | Some (HostNotSent errorCode) \<Rightarrow> not_sent_result c k r errorCode s
           | Some (HostAnswered responseId payload summary) \<Rightarrow>
               (let i = \<lparr>ri_outboxId = dr_id r, ri_responseId = responseId, ri_payload = payload,
                         ri_safeSummary = summary, ri_source = FromTransport\<rparr> in
                set_job k (JobAnswered r i)
                  (s\<lparr>dv_db := vault_put (dc_cipher c) (response_ref i) payload (dv_db s)\<rparr>)))
      | _ \<Rightarrow> s)"

definition project_answer :: "nat \<Rightarrow> delivery_runtime \<Rightarrow> delivery_runtime" where
  "project_answer k s =
     (case dv_jobs s ! k of
        JobAnswered r i \<Rightarrow>
          (case applyResponse (dv_now s) i (response_ref i) (dv_db s) of
             Inl e \<Rightarrow> set_job k (JobDone (Inl e)) s
           | Inr (ConflictingResponse, db) \<Rightarrow> set_job k (JobConflict r) (s\<lparr>dv_db := db\<rparr>)
           | Inr (_, db) \<Rightarrow> set_job k (JobDone (Inr (WorkReconciled (dr_id r)))) (s\<lparr>dv_db := db\<rparr>))
      | _ \<Rightarrow> s)"

definition mark_conflict :: "nat \<Rightarrow> delivery_runtime \<Rightarrow> delivery_runtime" where
  "mark_conflict k s =
     (case dv_jobs s ! k of
        JobConflict r \<Rightarrow>
          finish_job k (markUncertain (dv_now s) (dr_id r) ''host.response.id-conflict'' (dv_db s))
            (WorkUncertain (dr_id r)) s
      | _ \<Rightarrow> s)"

section \<open>Inquiries\<close>

definition begin_reconcile :: "delivery_config \<Rightarrow> string \<Rightarrow> host_db \<Rightarrow> inquiry_job" where
  "begin_reconcile c outboxId db =
     (case get_delivery outboxId db of
        None \<Rightarrow> AskDone (Inl (''Host delivery record not found: '' @ outboxId))
      | Some r \<Rightarrow>
          if dr_status r \<noteq> DUncertain then AskDone (Inl (''Host delivery is not uncertain: '' @ outboxId))
          else
            (case require_delivery_policy (dc_policies c) (dr_policyId r) of
               Inl e \<Rightarrow> AskDone (Inl e)
             | Inr policy \<Rightarrow>
                 if dp_version policy \<noteq> dr_policyVersion r \<or> dp_uncertainStrategy policy = ByHand
                 then AskDone (Inr AskManualRequired)
                 else AskInquiring r policy))"

definition inquiry_settled ::
  "delivery_config \<Rightarrow> nat \<Rightarrow> inquiry_result option \<Rightarrow> delivery_runtime \<Rightarrow> delivery_runtime" where
  "inquiry_settled c k result s =
     (case dv_asks s ! k of
        AskInquiring r policy \<Rightarrow>
          (case result of
             None \<Rightarrow> set_ask k (AskDone (Inr AskUnavailable)) s
           | Some (InquiryUnavailable _) \<Rightarrow> set_ask k (AskDone (Inr AskUnavailable)) s
           | Some (InquiryFound responseId payload summary) \<Rightarrow>
               (let i = \<lparr>ri_outboxId = dr_id r, ri_responseId = responseId, ri_payload = payload,
                         ri_safeSummary = summary, ri_source = FromInquiry\<rparr> in
                set_ask k (AskFound i) (s\<lparr>dv_db := vault_put (dc_cipher c) (response_ref i) payload (dv_db s)\<rparr>))
           | Some InquiryNotFound \<Rightarrow>
               if dp_inquiryNotFound policy = ManualNotFound then set_ask k (AskDone (Inr AskManualRequired)) s
               else set_ask k (AskRetry (dr_id r)) s)
      | _ \<Rightarrow> s)"

definition project_found :: "nat \<Rightarrow> delivery_runtime \<Rightarrow> delivery_runtime" where
  "project_found k s =
     (case dv_asks s ! k of
        AskFound i \<Rightarrow>
          (case applyResponse (dv_now s) i (response_ref i) (dv_db s) of
             Inl e \<Rightarrow> set_ask k (AskDone (Inl e)) s
           | Inr (_, db) \<Rightarrow> set_ask k (AskDone (Inr AskReconciled)) (s\<lparr>dv_db := db\<rparr>))
      | _ \<Rightarrow> s)"

definition retry_not_found :: "nat \<Rightarrow> delivery_runtime \<Rightarrow> delivery_runtime" where
  "retry_not_found k s =
     (case dv_asks s ! k of
        AskRetry outboxId \<Rightarrow>
          (case scheduleRetry (dv_now s) outboxId (dv_now s) ''host.inquiry.not-found'' (dv_db s) of
             Inl e \<Rightarrow> set_ask k (AskDone (Inl e)) s
           | Inr db \<Rightarrow> set_ask k (AskDone (Inr AskRetryScheduled)) (s\<lparr>dv_db := db\<rparr>))
      | _ \<Rightarrow> s)"

section \<open>Operators\<close>

definition resolve_manually :: "string \<Rightarrow> manual_resolution \<Rightarrow> string \<Rightarrow> string \<Rightarrow> delivery_runtime \<Rightarrow> delivery_runtime" where
  "resolve_manually outboxId resolution operatorId reasonCode s =
     (case applyManualResolution (dv_now s)
         \<lparr>mi_outboxId = outboxId, mi_resolution = resolution, mi_operatorId = operatorId, mi_reasonCode = reasonCode,
          mi_retryAt = (if resolution = ConfirmedNotSent then Some (dv_now s) else None)\<rparr> (dv_db s) of
        Inl e \<Rightarrow> s
      | Inr db \<Rightarrow> s\<lparr>dv_db := db\<rparr>)"

section \<open>Answers read back\<close>

definition read_response :: "payload_cipher \<Rightarrow> string \<Rightarrow> host_db \<Rightarrow> string + (response_row \<times> byte list) option" where
  "read_response cipher outboxId db =
     (case getResponse outboxId db of
        None \<Rightarrow> Inr None
      | Some response \<Rightarrow>
          rbind (vault_get cipher (rr_payloadRef response) db) (\<lambda>payload.
            Inr (map_option (Pair response) payload)))"

section \<open>Steps\<close>

datatype delivery_input =
    Clock timestamp
  | Enqueue enqueue_input
  | Work string "string option"
  | Load nat
  | FailUnreadable nat
  | SendSettles nat "transport_result option"
  | ProjectAnswer nat
  | MarkConflict nat
  | Reconcile string
  | InquirySettles nat "inquiry_result option"
  | ProjectFound nat
  | RetryNotFound nat
  | ResolveManually string manual_resolution string string

fun delivery_step :: "delivery_config \<Rightarrow> delivery_input \<Rightarrow> delivery_runtime \<Rightarrow> delivery_runtime" where
  "delivery_step c (Clock t) s = s\<lparr>dv_now := t\<rparr>"
| "delivery_step c (Enqueue i) s = s\<lparr>dv_db := snd (enqueue (dc_cipher c) (dc_policies c) (dv_now s) i (dv_db s))\<rparr>"
| "delivery_step c (Work owner target) s = work c owner target s"
| "delivery_step c (Load k) s = (if k < length (dv_jobs s) then load_payload c k s else s)"
| "delivery_step c (FailUnreadable k) s = (if k < length (dv_jobs s) then fail_unreadable k s else s)"
| "delivery_step c (SendSettles k r) s = (if k < length (dv_jobs s) then send_settled c k r s else s)"
| "delivery_step c (ProjectAnswer k) s = (if k < length (dv_jobs s) then project_answer k s else s)"
| "delivery_step c (MarkConflict k) s = (if k < length (dv_jobs s) then mark_conflict k s else s)"
| "delivery_step c (Reconcile outboxId) s = s\<lparr>dv_asks := dv_asks s @ [begin_reconcile c outboxId (dv_db s)]\<rparr>"
| "delivery_step c (InquirySettles k r) s = (if k < length (dv_asks s) then inquiry_settled c k r s else s)"
| "delivery_step c (ProjectFound k) s = (if k < length (dv_asks s) then project_found k s else s)"
| "delivery_step c (RetryNotFound k) s = (if k < length (dv_asks s) then retry_not_found k s else s)"
| "delivery_step c (ResolveManually k r op' reason) s = resolve_manually k r op' reason s"

text \<open>The inputs of a runtime whose records nobody reconciles.\<close>

fun automatic :: "delivery_input \<Rightarrow> bool" where
  "automatic (Reconcile _) = False"
| "automatic (InquirySettles _ _) = False"
| "automatic (ProjectFound _) = False"
| "automatic (RetryNotFound _) = False"
| "automatic (ResolveManually _ _ _ _) = False"
| "automatic _ = True"

fun run_delivery :: "delivery_config \<Rightarrow> delivery_input list \<Rightarrow> delivery_runtime \<Rightarrow> delivery_runtime" where
  "run_delivery c [] s = s"
| "run_delivery c (i # is) s = run_delivery c is (delivery_step c i s)"

lemma run_delivery_append: "run_delivery c (is @ ks) s = run_delivery c ks (run_delivery c is s)"
  by (induction "is" arbitrary: s) auto

text \<open>The states a runtime can reach from an empty outbox.\<close>

definition empty_db :: "string list \<Rightarrow> host_db" where
  "empty_db transactions =
     \<lparr>db_transactions = transactions, db_outbox = [], db_messages = [], db_responses = [], db_audit = [],
      db_payloads = []\<rparr>"

section \<open>Laws of the store and the workers\<close>

text \<open>
  What holds of the outbox and of the jobs working on it: the rows as a map by their identity, the
  attempts of a record, and the answers behind reconciled records.
\<close>

section \<open>Rows\<close>

lemma get_delivery_id: "get_delivery k db = Some r \<Longrightarrow> dr_id r = k"
  by (auto simp: get_delivery_def find_Some_iff)

lemma find_map_same: "(\<And>r. P (f r) = P r) \<Longrightarrow> find P (map f xs) = map_option f (find P xs)"
  by (induction xs) auto

lemma get_update:
  "(\<And>r. dr_id (f r) = dr_id r) \<Longrightarrow>
   get_delivery k (update_outbox P f db) = map_option (\<lambda>r. if P r then f r else r) (get_delivery k db)"
  by (simp add: get_delivery_def update_outbox_def find_map_same)

definition delivery_ids :: "host_db \<Rightarrow> string list" where
  "delivery_ids db = map dr_id (db_outbox db)"

lemma ids_update: "(\<And>r. dr_id (f r) = dr_id r) \<Longrightarrow> delivery_ids (update_outbox P f db) = delivery_ids db"
  by (simp add: delivery_ids_def update_outbox_def)

lemma get_delivery_mem:
  assumes "distinct (delivery_ids db)" and "r \<in> set (db_outbox db)"
  shows "get_delivery (dr_id r) db = Some r"
proof -
  have "distinct (map dr_id xs) \<Longrightarrow> r \<in> set xs \<Longrightarrow> find (\<lambda>q. dr_id q = dr_id r) xs = Some r" for xs
    by (induction xs) (auto simp: image_iff)
  then show ?thesis using assms by (simp add: delivery_ids_def get_delivery_def)
qed

lemma get_delivery_None: "get_delivery k db = None \<longleftrightarrow> k \<notin> set (delivery_ids db)"
  by (auto simp: get_delivery_def delivery_ids_def find_None_iff)

lemma update_outbox_fields [simp]:
  "db_payloads (update_outbox P f db) = db_payloads db" "db_responses (update_outbox P f db) = db_responses db"
  "db_messages (update_outbox P f db) = db_messages db" "db_audit (update_outbox P f db) = db_audit db"
  "db_transactions (update_outbox P f db) = db_transactions db"
  by (simp_all add: update_outbox_def)

lemma insert_outbox_Inr:
  assumes "insert_outbox r db = Inr db'"
  shows "get_delivery (dr_id r) db = None" and "get_delivery k db' = (if k = dr_id r then Some r else get_delivery k db)"
    and "distinct (delivery_ids db) \<Longrightarrow> distinct (delivery_ids db')"
    and "db_payloads db' = db_payloads db" and "db_responses db' = db_responses db"
proof -
  have db': "db' = db\<lparr>db_outbox := db_outbox db @ [r]\<rparr>" and new: "\<forall>q \<in> set (db_outbox db). dr_id q \<noteq> dr_id r"
    using assms by (auto simp: insert_outbox_def list_all_iff split: if_splits)
  show none: "get_delivery (dr_id r) db = None" using new by (simp add: get_delivery_def find_None_iff)
  have "find P (xs @ [x]) = (case find P xs of None \<Rightarrow> if P x then Some x else None | Some y \<Rightarrow> Some y)" for P :: "delivery_record \<Rightarrow> bool" and xs x
    by (induction xs) auto
  then show "get_delivery k db' = (if k = dr_id r then Some r else get_delivery k db)"
    using none by (auto simp: db' get_delivery_def split: option.splits)
  show "distinct (delivery_ids db) \<Longrightarrow> distinct (delivery_ids db')"
    using new by (auto simp: db' delivery_ids_def)
  show "db_payloads db' = db_payloads db" "db_responses db' = db_responses db" by (simp_all add: db')
qed

lemma insert_message_Inr:
  "insert_message m db = Inr db' \<Longrightarrow>
   db_outbox db' = db_outbox db \<and> db_payloads db' = db_payloads db \<and> db_responses db' = db_responses db"
  by (auto simp: insert_message_def split: if_splits)

lemma insert_audit_Inr:
  "insert_audit a db = Inr db' \<Longrightarrow>
   db_outbox db' = db_outbox db \<and> db_payloads db' = db_payloads db \<and> db_responses db' = db_responses db"
  by (auto simp: insert_audit_def split: if_splits)

lemma insert_response_Inr:
  "insert_response r db = Inr db' \<Longrightarrow>
   db_outbox db' = db_outbox db \<and> db_payloads db' = db_payloads db \<and> db_responses db' = db_responses db @ [r] \<and>
   (\<forall>q \<in> set (db_responses db). rr_responseId q \<noteq> rr_responseId r)"
  by (auto simp: insert_response_def list_all_iff split: if_splits)

lemma same_outbox: "db_outbox db' = db_outbox db \<Longrightarrow> get_delivery k db' = get_delivery k db \<and> delivery_ids db' = delivery_ids db"
  by (simp add: get_delivery_def delivery_ids_def)

section \<open>Operations on rows\<close>

text \<open>What an operation leaves as it is: the attempts, and what the record is about.\<close>

definition same_record :: "delivery_record \<Rightarrow> delivery_record \<Rightarrow> bool" where
  "same_record q r \<longleftrightarrow>
     dr_id q = dr_id r \<and> dr_attemptCount q = dr_attemptCount r \<and> dr_policyId q = dr_policyId r \<and>
     dr_policyVersion q = dr_policyVersion r"

lemma get_sweep:
  "get_delivery k (sweep_expired now db) = map_option
     (\<lambda>r. if dr_status r = DLeased \<and> (case dr_leaseUntil r of None \<Rightarrow> False | Some t \<Rightarrow> t \<le> now)
       then r\<lparr>dr_status := DUncertain, dr_leaseOwner := None, dr_leaseUntil := None,
         dr_lastErrorCode := Some ''host.delivery.lease-expired'', dr_updatedAt := now\<rparr> else r) (get_delivery k db)"
  unfolding sweep_expired_def by (rule get_update) simp

lemma sweep_fields [simp]:
  "db_payloads (sweep_expired now db) = db_payloads db" "db_responses (sweep_expired now db) = db_responses db"
  "delivery_ids (sweep_expired now db) = delivery_ids db"
  by (simp_all add: sweep_expired_def ids_update)

text \<open>A row after the sweep waits exactly if it did before, and is the same record.\<close>

lemma sweep_rows:
  "(\<exists>q. get_delivery k db = Some q \<and> same_record r q \<and> waiting r = waiting q \<and>
      dr_responseId r = dr_responseId q \<and> dr_resolution r = dr_resolution q \<and>
      (dr_status r = DReconciled \<longrightarrow> dr_status q = DReconciled)) "
  if "get_delivery k (sweep_expired now db) = Some r"
  using that by (auto simp: get_sweep same_record_def waiting_def split: if_splits)

lemma first_due_mem: "first_due rs = Some r \<Longrightarrow> r \<in> set rs"
  by (induction rs arbitrary: r) (auto split: option.splits if_splits)

lemma updateState_Inr:
  assumes "updateState now k status errorCode nxt db = Inr db'"
  shows "\<exists>q. get_delivery k db = Some q \<and>
      get_delivery k db' = Some (q\<lparr>dr_status := status, dr_nextAttemptAt := nxt, dr_leaseOwner := None,
        dr_leaseUntil := None, dr_lastErrorCode := Some errorCode, dr_updatedAt := now\<rparr>)"
    and "k' \<noteq> k \<Longrightarrow> get_delivery k' db' = get_delivery k' db"
    and "delivery_ids db' = delivery_ids db" "db_payloads db' = db_payloads db" "db_responses db' = db_responses db"
proof -
  let ?f = "\<lambda>r. r\<lparr>dr_status := status, dr_nextAttemptAt := nxt, dr_leaseOwner := None, dr_leaseUntil := None,
          dr_lastErrorCode := Some errorCode, dr_updatedAt := now\<rparr>"
  have db': "db' = update_outbox (\<lambda>r. dr_id r = k) ?f db" and some: "get_delivery k db \<noteq> None"
    using assms by (auto simp: updateState_def split: if_splits)
  note rows = get_update [of ?f _ "\<lambda>r. dr_id r = k" db, folded db', simplified]
  from some obtain q where q: "get_delivery k db = Some q" by blast
  then show "\<exists>q. get_delivery k db = Some q \<and> get_delivery k db' = Some (?f q)"
    using get_delivery_id [OF q] by (simp add: rows)
  show "k' \<noteq> k \<Longrightarrow> get_delivery k' db' = get_delivery k' db"
    by (cases "get_delivery k' db") (auto simp: rows dest: get_delivery_id)
  show "delivery_ids db' = delivery_ids db" by (simp add: db' ids_update)
  show "db_payloads db' = db_payloads db" "db_responses db' = db_responses db" by (simp_all add: db')
qed

text \<open>What applying a response does: nothing, or all of it.\<close>

lemma applyResponse_Inr:
  assumes "applyResponse now i ref db = Inr (p, db')"
  shows "db' = db \<and> p \<noteq> Reconciled \<and> (\<exists>d \<in> set (db_responses db). rr_responseId d = ri_responseId i \<and>
        (p = DuplicateResponse \<longleftrightarrow> rr_outboxId d = ri_outboxId i)) \<or>
    p = Reconciled \<and> db_payloads db' = db_payloads db \<and> delivery_ids db' = delivery_ids db \<and>
      db_responses db' = db_responses db @
        [\<lparr>rr_responseId = ri_responseId i, rr_outboxId = ri_outboxId i, rr_payloadRef = ref,
          rr_safeSummary = ri_safeSummary i, rr_source = ri_source i, rr_createdAt = now\<rparr>] \<and>
      (\<forall>q \<in> set (db_responses db). rr_responseId q \<noteq> ri_responseId i) \<and>
      (\<forall>k. get_delivery k db' = (if k = ri_outboxId i
        then map_option (\<lambda>r. r\<lparr>dr_status := DReconciled, dr_responseId := Some (ri_responseId i),
          dr_resolution := Some (source_text (ri_source i)), dr_leaseOwner := None, dr_leaseUntil := None,
          dr_updatedAt := now\<rparr>) (get_delivery k db) else get_delivery k db))"
proof (cases "find (\<lambda>r. rr_responseId r = ri_responseId i) (db_responses db)")
  case (Some d)
  then have "d \<in> set (db_responses db)" "rr_responseId d = ri_responseId i" by (auto simp: find_Some_iff)
  then show ?thesis using assms Some by (auto simp: applyResponse_def split: if_splits)
next
  case None
  let ?row = "\<lparr>rr_responseId = ri_responseId i, rr_outboxId = ri_outboxId i, rr_payloadRef = ref,
          rr_safeSummary = ri_safeSummary i, rr_source = ri_source i, rr_createdAt = now\<rparr>"
  let ?f = "\<lambda>r. r\<lparr>dr_status := DReconciled, dr_responseId := Some (ri_responseId i),
          dr_resolution := Some (source_text (ri_source i)), dr_leaseOwner := None, dr_leaseUntil := None,
          dr_updatedAt := now\<rparr>"
  obtain db1 db2 db3 outbox a where one: "insert_response ?row db = Inr db1"
    and two: "appendInboundMessage outbox i now db1 = Inr db2" and three: "insert_audit a db2 = Inr db3"
    and db': "db' = update_outbox (\<lambda>r. dr_id r = ri_outboxId i) ?f db3" and p: "p = Reconciled"
    using assms None by (auto simp: applyResponse_def res_simps)
  have out: "db_outbox db3 = db_outbox db" and pay: "db_payloads db3 = db_payloads db"
    and res: "db_responses db3 = db_responses db @ [?row]"
    and fresh: "\<forall>q \<in> set (db_responses db). rr_responseId q \<noteq> ri_responseId i"
    using insert_response_Inr [OF one] insert_message_Inr [OF two [unfolded appendInboundMessage_def]]
      insert_audit_Inr [OF three] by auto
  have rows: "get_delivery k db' = (if k = ri_outboxId i then map_option ?f (get_delivery k db) else get_delivery k db)" for k
  proof -
    have "get_delivery k db' = map_option (\<lambda>r. if dr_id r = ri_outboxId i then ?f r else r) (get_delivery k db)"
      using get_update [of ?f k "\<lambda>r. dr_id r = ri_outboxId i" db3] same_outbox [OF out, of k] by (simp add: db')
    then show ?thesis by (cases "get_delivery k db") (auto dest: get_delivery_id)
  qed
  have "delivery_ids db' = delivery_ids db" using same_outbox [OF out] by (simp add: db' ids_update)
  then show ?thesis using p pay res fresh rows by (simp add: db')
qed

end
