(* ===== verification/Delivery_Answers.thy ===== *)
theory Delivery_Answers
  imports Delivery_Worker
begin

text \<open>
  Behind every record that is reconciled without an operator there is an answer that can be read:
  the invariant of the responses and of the payloads in the vault.
\<close>

section \<open>The vault\<close>

definition stored :: "string \<Rightarrow> host_db \<Rightarrow> bool" where
  "stored ref db \<longleftrightarrow> map_of (db_payloads db) ref \<noteq> None"

lemma payload_after_put: "map_of (db_payloads (vault_put c ref p db)) k =
    (if k = ref \<and> map_of (db_payloads db) ref = None then Some (cipher_encrypt c ref p)
     else map_of (db_payloads db) k)"
  by (auto simp: vault_put_def map_add_def split: option.split)

lemma payload_after_delete: "map_of (db_payloads (vault_delete ref db)) k = (if k = ref then None else map_of (db_payloads db) k)"
proof -
  have "map_of (filter (\<lambda>(k, _). k \<noteq> ref) xs) k = (if k = ref then None else map_of xs k)" for xs :: "(string \<times> string) list"
    by (induction xs) auto
  then show ?thesis by (simp add: vault_delete_def)
qed

lemma vault_fields [simp]:
  "get_delivery k (vault_put c ref p db) = get_delivery k db" "db_responses (vault_put c ref p db) = db_responses db"
  "delivery_ids (vault_put c ref p db) = delivery_ids db"
  "get_delivery k (vault_delete ref db) = get_delivery k db" "db_responses (vault_delete ref db) = db_responses db"
  "delivery_ids (vault_delete ref db) = delivery_ids db"
  by (simp_all add: vault_put_def vault_delete_def get_delivery_def delivery_ids_def)

lemma stored_put [simp]: "stored ref (vault_put c ref p db)" "stored k db \<Longrightarrow> stored k (vault_put c ref p db)"
  by (auto simp: stored_def payload_after_put)

lemma stored_delete: "stored k db \<Longrightarrow> k \<noteq> ref \<Longrightarrow> stored k (vault_delete ref db)"
  by (simp add: stored_def payload_after_delete)

section \<open>The invariant\<close>

definition encrypted :: "payload_cipher \<Rightarrow> host_db \<Rightarrow> bool" where
  "encrypted c db \<longleftrightarrow> (\<forall>ref ct. map_of (db_payloads db) ref = Some ct \<longrightarrow> (\<exists>p. ct = cipher_encrypt c ref p))"

definition confirmed_by_hand :: "string option" where
  "confirmed_by_hand = Some ''manual:confirmedDelivered''"

definition answers_ok :: "payload_cipher \<Rightarrow> host_db \<Rightarrow> bool" where
  "answers_ok c db \<longleftrightarrow>
     (\<forall>k r. get_delivery k db = Some r \<longrightarrow> dr_status r = DReconciled \<longrightarrow>
        dr_resolution r = confirmed_by_hand \<or> (\<exists>q \<in> set (db_responses db). rr_outboxId q = k)) \<and>
     (\<forall>q \<in> set (db_responses db). (\<exists>rid. rr_payloadRef q = ''host-response:'' @ rid) \<and> stored (rr_payloadRef q) db) \<and>
     encrypted c db"

lemma answers_ok_rows:
  assumes ok: "answers_ok c db"
    and rows: "\<And>k r. get_delivery k db' = Some r \<Longrightarrow> dr_status r = DReconciled \<Longrightarrow> dr_resolution r \<noteq> confirmed_by_hand \<Longrightarrow>
      (\<exists>q. get_delivery k db = Some q \<and> dr_status q = DReconciled \<and> dr_resolution q \<noteq> confirmed_by_hand) \<or>
      (\<exists>q \<in> set (db_responses db'). rr_outboxId q = k)"
    and responses: "set (db_responses db) \<subseteq> set (db_responses db')"
    and new: "\<And>q. q \<in> set (db_responses db') \<Longrightarrow> q \<notin> set (db_responses db) \<Longrightarrow>
      (\<exists>rid. rr_payloadRef q = ''host-response:'' @ rid) \<and> stored (rr_payloadRef q) db'"
    and payloads: "\<And>rid. stored (''host-response:'' @ rid) db \<Longrightarrow> stored (''host-response:'' @ rid) db'" "encrypted c db'"
  shows "answers_ok c db'"
proof -
  have "dr_resolution r = confirmed_by_hand \<or> (\<exists>q \<in> set (db_responses db'). rr_outboxId q = k)"
    if "get_delivery k db' = Some r" "dr_status r = DReconciled" for k r
    using rows [OF that] ok responses unfolding answers_ok_def by blast
  moreover have "(\<exists>rid. rr_payloadRef q = ''host-response:'' @ rid) \<and> stored (rr_payloadRef q) db'"
    if "q \<in> set (db_responses db')" for q
    using new [OF that] ok payloads(1) unfolding answers_ok_def by (cases "q \<in> set (db_responses db)") auto
  ultimately show ?thesis using payloads(2) unfolding answers_ok_def by blast
qed

lemma answers_ok_encrypted: "answers_ok c db \<Longrightarrow> encrypted c db"
  by (simp add: answers_ok_def)

lemma answers_ok_sweep:
  assumes "answers_ok c db"
  shows "answers_ok c (sweep_expired now db)"
  by (rule answers_ok_rows [OF assms])
    (use answers_ok_encrypted [OF assms] in \<open>auto simp: stored_def encrypted_def dest!: sweep_rows\<close>)

lemma answers_ok_update:
  assumes ok: "answers_ok c db" and f: "\<And>r. dr_id (f r) = dr_id r" "\<And>r. dr_status (f r) \<noteq> DReconciled"
  shows "answers_ok c (update_outbox P f db)"
proof (rule answers_ok_rows [OF ok])
  fix k r
  assume "get_delivery k (update_outbox P f db) = Some r" "dr_status r = DReconciled" "dr_resolution r \<noteq> confirmed_by_hand"
  then show "(\<exists>q. get_delivery k db = Some q \<and> dr_status q = DReconciled \<and> dr_resolution q \<noteq> confirmed_by_hand) \<or>
      (\<exists>q \<in> set (db_responses (update_outbox P f db)). rr_outboxId q = k)"
    using f(2) by (auto simp: get_update [OF f(1)] split: if_splits)
qed (use answers_ok_encrypted [OF ok] in \<open>simp_all add: stored_def encrypted_def\<close>)

lemma answers_ok_claim_row:
  "answers_ok c db \<Longrightarrow> claim_row policies owner now row db = Inr (r, db') \<Longrightarrow> answers_ok c db'"
  by (auto simp: claim_row_def Let_def res_simps intro!: answers_ok_update split: if_splits)

lemma answers_ok_claim:
  "answers_ok c db \<Longrightarrow> claim policies k owner now db = Inr (r, db') \<Longrightarrow> answers_ok c db'"
  "answers_ok c db \<Longrightarrow> claimNext policies owner now db = Inr (r, db') \<Longrightarrow> answers_ok c db'"
  by (auto simp: claim_def claimNext_def Let_def answers_ok_sweep
      intro: answers_ok_claim_row [OF answers_ok_sweep] split: option.splits)

lemma answers_ok_updateState:
  "answers_ok c db \<Longrightarrow> updateState now k status code nxt db = Inr db' \<Longrightarrow> status \<noteq> DReconciled \<Longrightarrow> answers_ok c db'"
  by (auto simp: updateState_def intro!: answers_ok_update split: if_splits)

lemma answers_ok_put:
  assumes "answers_ok c db"
  shows "answers_ok c (vault_put c ref p db)"
proof -
  have "encrypted c (vault_put c ref p db)"
    using answers_ok_encrypted [OF assms] by (auto simp: encrypted_def payload_after_put)
  then show ?thesis by (intro answers_ok_rows [OF assms]) auto
qed

lemma host_refs: "''host-request:'' @ a \<noteq> ''host-response:'' @ b"
  by simp

lemma answers_ok_enqueue:
  assumes ok: "answers_ok c db"
  shows "answers_ok c (snd (enqueue c policies now i db))"
proof (cases "require_delivery_policy policies (en_policyId i)")
  case (Inr policy)
  let ?ref = "''host-request:'' @ en_id i"
  let ?db = "vault_put c ?ref (en_payload i) db"
  have put: "answers_ok c ?db" using ok by (rule answers_ok_put)
  show ?thesis
  proof (cases "store_enqueue now i ?ref policy ?db")
    case (Inl e)
    have "answers_ok c (vault_delete ?ref ?db)"
      by (rule answers_ok_rows [OF put])
        (use put in \<open>auto simp: encrypted_def payload_after_delete stored_delete dest: answers_ok_encrypted split: if_splits\<close>)
    then show ?thesis using Inl Inr by (simp add: enqueue_def Let_def)
  next
    case (Inr res)
    obtain row db' where res: "res = (row, db')" by force
    have "answers_ok c db'"
    proof (cases "find (\<lambda>r. dr_idempotencyKey r = en_idempotencyKey i) (db_outbox ?db)")
      case None
      then obtain r db1 m where one: "insert_outbox r ?db = Inr db1" and two: "insert_message m db1 = Inr db'"
        and r: "dr_status r = DPending"
        using Inr res by (auto simp: store_enqueue_def Let_def res_simps)
      note o1 = insert_outbox_Inr [OF one] and o2 = insert_message_Inr [OF two]
      have rows: "get_delivery k db' = (if k = dr_id r then Some r else get_delivery k ?db)" for k
        using o1(2) o2 same_outbox [of db' db1 k] by simp
      show ?thesis
        by (rule answers_ok_rows [OF put])
          (use put r o1 o2 in \<open>auto simp: rows encrypted_def answers_ok_def stored_def split: if_splits\<close>)
    next
      case (Some e)
      then show ?thesis using Inr res put by (auto simp: store_enqueue_def split: if_splits)
    qed
    then show ?thesis using Inr res \<open>require_delivery_policy policies (en_policyId i) = Inr policy\<close>
      by (simp add: enqueue_def Let_def)
  qed
qed (use ok in \<open>simp add: enqueue_def\<close>)

lemma answers_ok_apply:
  assumes ok: "answers_ok c db" and apply': "applyResponse now i (response_ref i) db = Inr (p, db')"
    and st: "stored (response_ref i) db"
  shows "answers_ok c db'"
proof -
  consider "db' = db" | "p = Reconciled" "db' \<noteq> db" using applyResponse_Inr [OF apply'] by blast
  then show ?thesis
  proof cases
    case 2
    note d = applyResponse_Inr [OF apply']
    have responses: "db_responses db' = db_responses db @
        [\<lparr>rr_responseId = ri_responseId i, rr_outboxId = ri_outboxId i, rr_payloadRef = response_ref i,
          rr_safeSummary = ri_safeSummary i, rr_source = ri_source i, rr_createdAt = now\<rparr>]"
      and payloads: "db_payloads db' = db_payloads db"
      and others: "k \<noteq> ri_outboxId i \<Longrightarrow> get_delivery k db' = get_delivery k db" for k
      using d 2(2) by auto
    show ?thesis
    proof (rule answers_ok_rows [OF ok])
      fix k r
      assume "get_delivery k db' = Some r" "dr_status r = DReconciled" "dr_resolution r \<noteq> confirmed_by_hand"
      then show "(\<exists>q. get_delivery k db = Some q \<and> dr_status q = DReconciled \<and> dr_resolution q \<noteq> confirmed_by_hand) \<or>
          (\<exists>q \<in> set (db_responses db'). rr_outboxId q = k)"
        using others [of k] by (cases "k = ri_outboxId i") (simp_all add: responses)
    next
      fix q
      assume "q \<in> set (db_responses db')" "q \<notin> set (db_responses db)"
      then show "(\<exists>rid. rr_payloadRef q = ''host-response:'' @ rid) \<and> stored (rr_payloadRef q) db'"
        using st by (auto simp: responses response_ref_def stored_def payloads)
    qed (use answers_ok_encrypted [OF ok] in \<open>auto simp: responses payloads stored_def encrypted_def\<close>)
  qed (use ok in simp)
qed

lemma answers_ok_manual:
  assumes ok: "answers_ok c db" and manual: "applyManualResolution now i db = Inr db'"
  shows "answers_ok c db'"
proof -
  let ?f = "\<lambda>r. r\<lparr>dr_status := manualStatus (mi_resolution i),
           dr_resolution := Some (''manual:'' @ resolution_text (mi_resolution i)),
           dr_nextAttemptAt := mi_retryAt i, dr_leaseOwner := None, dr_leaseUntil := None,
           dr_lastErrorCode := None, dr_updatedAt := now\<rparr>"
  obtain a where a: "insert_audit a (update_outbox (\<lambda>r. dr_id r = mi_outboxId i) ?f db) = Inr db'"
    using manual by (auto simp: applyManualResolution_def res_simps)
  note same = insert_audit_Inr [OF a]
  have upd: "get_delivery k (update_outbox (\<lambda>r. dr_id r = mi_outboxId i) ?f db) =
      map_option (\<lambda>r. if dr_id r = mi_outboxId i then ?f r else r) (get_delivery k db)" for k
    by (rule get_update) simp
  have rows: "get_delivery k db' = map_option (\<lambda>r. if dr_id r = mi_outboxId i then ?f r else r) (get_delivery k db)" for k
    using same_outbox [of db' "update_outbox (\<lambda>r. dr_id r = mi_outboxId i) ?f db" k] same by (simp only: upd)
  have hand: "dr_resolution (?f r) = confirmed_by_hand" if "dr_status (?f r) = DReconciled" for r
    using that by (cases "mi_resolution i") (simp_all add: manualStatus_def resolution_text_def confirmed_by_hand_def)
  have payloads: "db_payloads db' = db_payloads db" "db_responses db' = db_responses db" using same by simp_all
  show ?thesis
  proof (rule answers_ok_rows [OF ok])
    fix k r
    assume r: "get_delivery k db' = Some r" "dr_status r = DReconciled" "dr_resolution r \<noteq> confirmed_by_hand"
    then obtain q where q: "get_delivery k db = Some q" "r = (if dr_id q = mi_outboxId i then ?f q else q)"
      unfolding rows by (cases "get_delivery k db") auto
    then have "r = q" using r(2,3) hand [of q] by (cases "dr_id q = mi_outboxId i") metis+
    then show "(\<exists>q. get_delivery k db = Some q \<and> dr_status q = DReconciled \<and> dr_resolution q \<noteq> confirmed_by_hand) \<or>
        (\<exists>q \<in> set (db_responses db'). rr_outboxId q = k)" using q(1) r by blast
  qed (use answers_ok_encrypted [OF ok] in \<open>simp_all add: payloads stored_def encrypted_def\<close>)
qed

section \<open>Steps\<close>

definition awaited :: "delivery_runtime \<Rightarrow> bool" where
  "awaited s \<longleftrightarrow>
     (\<forall>r i. JobAnswered r i \<in> set (dv_jobs s) \<longrightarrow> stored (response_ref i) (dv_db s)) \<and>
     (\<forall>i. AskFound i \<in> set (dv_asks s) \<longrightarrow> stored (response_ref i) (dv_db s))"

definition runtime_answers :: "delivery_config \<Rightarrow> delivery_runtime \<Rightarrow> bool" where
  "runtime_answers c s \<longleftrightarrow> answers_ok (dc_cipher c) (dv_db s) \<and> awaited s"

text \<open>No step takes an answer out of the vault.\<close>

definition keeps_answers :: "host_db \<Rightarrow> host_db \<Rightarrow> bool" where
  "keeps_answers db db' \<longleftrightarrow> (\<forall>rid. stored (''host-response:'' @ rid) db \<longrightarrow> stored (''host-response:'' @ rid) db')"

lemma keeps_answers_same: "db_payloads db' = db_payloads db \<Longrightarrow> keeps_answers db db'"
  by (simp add: keeps_answers_def stored_def)

lemma keeps_answers_put [simp]: "keeps_answers db (vault_put c ref p db)"
  by (simp add: keeps_answers_def)

lemma claim_payloads:
  "claim policies k owner now db = Inr (r, db') \<Longrightarrow> db_payloads db' = db_payloads db"
  "claimNext policies owner now db = Inr (r, db') \<Longrightarrow> db_payloads db' = db_payloads db"
  by (auto simp: claim_def claimNext_def claim_row_def Let_def res_simps split: option.splits if_splits)

lemma keeps_answers_enqueue: "keeps_answers db (snd (enqueue c policies now i db))"
proof -
  have same: "db_payloads db' = db_payloads (vault_put c ref p db)"
    if "store_enqueue now i ref policy (vault_put c ref p db) = Inr (row, db')" for ref p policy row db'
    using that by (auto simp: store_enqueue_def Let_def res_simps insert_outbox_Inr(4)
        dest!: insert_message_Inr split: option.splits if_splits)
  show ?thesis
    by (auto simp: enqueue_def Let_def keeps_answers_def stored_delete split: sum.split prod.split)
      (metis same stored_def stored_put(2))
qed

lemma awaited_step:
  assumes "awaited s" and "keeps_answers (dv_db s) (dv_db t)"
    and "\<And>r i. JobAnswered r i \<in> set (dv_jobs t) \<Longrightarrow> JobAnswered r i \<in> set (dv_jobs s) \<or> stored (response_ref i) (dv_db t)"
    and "\<And>i. AskFound i \<in> set (dv_asks t) \<Longrightarrow> AskFound i \<in> set (dv_asks s) \<or> stored (response_ref i) (dv_db t)"
  shows "awaited t"
  using assms unfolding awaited_def keeps_answers_def response_ref_def by blast

lemma in_update: "x \<in> set (xs[k := y]) \<Longrightarrow> x = y \<or> x \<in> set xs"
  using set_update_subset_insert [of xs k y] by auto

lemma finish_job_answers:
  assumes s: "runtime_answers c s"
    and m: "\<And>db. m = Inr db \<Longrightarrow> answers_ok (dc_cipher c) db \<and> db_payloads db = db_payloads (dv_db s)"
  shows "runtime_answers c (finish_job k m res s)"
proof -
  have "awaited (finish_job k m res s)"
  proof (rule awaited_step [of s])
    show "keeps_answers (dv_db s) (dv_db (finish_job k m res s))"
      using m by (auto simp: finish_job_def set_job_def intro!: keeps_answers_same split: sum.split)
  qed (use s in \<open>auto simp: runtime_answers_def finish_job_def set_job_def split: sum.splits dest!: in_update\<close>)
  moreover have "answers_ok (dc_cipher c) (dv_db (finish_job k m res s))"
    using s m by (auto simp: runtime_answers_def finish_job_def set_job_def split: sum.split)
  ultimately show ?thesis by (simp add: runtime_answers_def)
qed

lemma set_job_answers:
  "runtime_answers c s \<Longrightarrow> (\<And>r i. j \<noteq> JobAnswered r i) \<Longrightarrow> runtime_answers c (set_job k j s)"
  by (auto simp: runtime_answers_def set_job_def awaited_def dest!: in_update)

lemma set_ask_answers:
  "runtime_answers c s \<Longrightarrow> (\<And>i. a \<noteq> AskFound i) \<Longrightarrow> runtime_answers c (set_ask k a s)"
  by (auto simp: runtime_answers_def set_ask_def awaited_def dest!: in_update)

lemma db_answers:
  assumes "runtime_answers c s" and "answers_ok (dc_cipher c) db" and "keeps_answers (dv_db s) db"
  shows "runtime_answers c (s\<lparr>dv_db := db\<rparr>)"
proof -
  have "awaited (s\<lparr>dv_db := db\<rparr>)" by (rule awaited_step [of s]) (use assms in \<open>auto simp: runtime_answers_def\<close>)
  then show ?thesis using assms(2) by (simp add: runtime_answers_def)
qed

lemma update_answers:
  assumes s: "runtime_answers c s" and r: "status \<noteq> DReconciled"
  shows "runtime_answers c (finish_job k (updateState now i status code nxt (dv_db s)) res s)"
  by (rule finish_job_answers [OF s])
    (use s r in \<open>auto simp: runtime_answers_def updateState_Inr(4) intro: answers_ok_updateState\<close>)

lemma mark_answers:
  "runtime_answers c s \<Longrightarrow> runtime_answers c (finish_job k (markFailed (dv_now s) i code (dv_db s)) res s)"
  "runtime_answers c s \<Longrightarrow> runtime_answers c (finish_job k (markUncertain (dv_now s) i code (dv_db s)) res s)"
  by (simp_all add: markFailed_def markUncertain_def update_answers)

lemma work_answers:
  assumes s: "runtime_answers c s"
  shows "runtime_answers c (work c owner target s)"
proof -
  have claimed: "answers_ok (dc_cipher c) db \<and> keeps_answers (dv_db s) db"
    if "(case target of Some k \<Rightarrow> claim (dc_policies c) k owner (dv_now s) (dv_db s)
      | None \<Rightarrow> claimNext (dc_policies c) owner (dv_now s) (dv_db s)) = Inr (r, db)" for r db
    using s that
    by (auto simp: runtime_answers_def claim_payloads intro!: keeps_answers_same
        dest: answers_ok_claim split: option.splits)
  have job: "runtime_answers c (t\<lparr>dv_jobs := dv_jobs t @ [j]\<rparr>)" if "runtime_answers c t" "\<And>r i. j \<noteq> JobAnswered r i" for t j
    using that by (auto simp: runtime_answers_def awaited_def)
  show ?thesis
    unfolding work_def
  proof (split sum.split, intro conjI allI impI)
    fix res
    assume res: "(case target of None \<Rightarrow> claimNext (dc_policies c) owner (dv_now s) (dv_db s)
      | Some k \<Rightarrow> claim (dc_policies c) k owner (dv_now s) (dv_db s)) = Inr res"
    obtain r db where p: "res = (r, db)" by force
    have "runtime_answers c (s\<lparr>dv_db := db\<rparr>)" using claimed [of r db] res p by (intro db_answers s) auto
    from job [OF this, of "JobDone (Inr WorkIdle)"] job [OF this, of "JobClaimed _"]
    show "runtime_answers c (case res of (None, db) \<Rightarrow> s\<lparr>dv_db := db, dv_jobs := dv_jobs s @ [JobDone (Inr WorkIdle)]\<rparr>
        | (Some r, db) \<Rightarrow> s\<lparr>dv_db := db, dv_jobs := dv_jobs s @ [JobClaimed r]\<rparr>)"
      by (cases r) (simp_all add: p)
  qed (use job [OF s] in simp)
qed

lemma load_answers: "runtime_answers c s \<Longrightarrow> runtime_answers c (load_payload c k s)"
proof -
  assume s: "runtime_answers c s"
  have sent: "runtime_answers c (t\<lparr>dv_sent := l\<rparr>)" if "runtime_answers c t" for t l
    using that by (simp add: runtime_answers_def awaited_def)
  show ?thesis
    using s by (simp add: load_payload_def set_job_answers sent split: worker_job.split sum.split option.split)
qed

lemma not_sent_answers: "runtime_answers c s \<Longrightarrow> runtime_answers c (not_sent_result c k r e s)"
  by (simp add: not_sent_result_def set_job_answers markFailed_def scheduleRetry_def update_answers split: sum.split)

lemma stored_answer_answers:
  assumes s: "runtime_answers c s"
  shows "runtime_answers c (set_job k (JobAnswered r i)
      (s\<lparr>dv_db := vault_put (dc_cipher c) (response_ref i) payload (dv_db s)\<rparr>))"
    and "runtime_answers c (set_ask k (AskFound i)
      (s\<lparr>dv_db := vault_put (dc_cipher c) (response_ref i) payload (dv_db s)\<rparr>))"
proof -
  let ?t = "s\<lparr>dv_db := vault_put (dc_cipher c) (response_ref i) payload (dv_db s)\<rparr>"
  have t: "runtime_answers c ?t"
    using s by (intro db_answers s) (simp_all add: runtime_answers_def answers_ok_put)
  moreover have "stored (response_ref i) (dv_db ?t)" by simp
  ultimately show "runtime_answers c (set_job k (JobAnswered r i) ?t)" "runtime_answers c (set_ask k (AskFound i) ?t)"
    unfolding runtime_answers_def set_job_def set_ask_def awaited_def by (auto dest!: in_update)
qed

lemma send_settled_answers: "runtime_answers c s \<Longrightarrow> runtime_answers c (send_settled c k r s)"
  by (simp add: send_settled_def Let_def mark_answers not_sent_answers stored_answer_answers
      split: worker_job.split option.split transport_result.split)

lemma apply_runtime:
  assumes s: "runtime_answers c s" and a: "applyResponse (dv_now s) i (response_ref i) (dv_db s) = Inr (p, db)"
    and st: "stored (response_ref i) (dv_db s)"
  shows "runtime_answers c (s\<lparr>dv_db := db\<rparr>)"
proof -
  have "db_payloads db = db_payloads (dv_db s)" using applyResponse_Inr [OF a] by auto
  moreover have "answers_ok (dc_cipher c) db"
    using s a st by (auto simp: runtime_answers_def intro: answers_ok_apply)
  ultimately show ?thesis by (intro db_answers s keeps_answers_same)
qed

lemma project_answers:
  assumes s: "runtime_answers c s" and k: "k < length (dv_jobs s)"
  shows "runtime_answers c (project_answer k s)"
proof (cases "dv_jobs s ! k")
  case (JobAnswered r i)
  then have "JobAnswered r i \<in> set (dv_jobs s)" using k nth_mem by metis
  then have "stored (response_ref i) (dv_db s)" using s by (auto simp: runtime_answers_def awaited_def)
  then have "runtime_answers c (s\<lparr>dv_db := db\<rparr>)"
    if "applyResponse (dv_now s) i (response_ref i) (dv_db s) = Inr (p, db)" for p db
    using apply_runtime [OF s that] by simp
  then show ?thesis
    using s JobAnswered
    by (auto simp: project_answer_def set_job_answers split: sum.split prod.split projection.split)
qed (use s in \<open>simp_all add: project_answer_def\<close>)

lemma found_answers:
  assumes s: "runtime_answers c s" and k: "k < length (dv_asks s)"
  shows "runtime_answers c (project_found k s)"
proof (cases "dv_asks s ! k")
  case (AskFound i)
  then have "AskFound i \<in> set (dv_asks s)" using k nth_mem by metis
  then have "stored (response_ref i) (dv_db s)" using s by (auto simp: runtime_answers_def awaited_def)
  then have "runtime_answers c (s\<lparr>dv_db := db\<rparr>)"
    if "applyResponse (dv_now s) i (response_ref i) (dv_db s) = Inr (p, db)" for p db
    using apply_runtime [OF s that] by simp
  then show ?thesis
    using s AskFound by (auto simp: project_found_def set_ask_answers split: sum.split prod.split)
qed (use s in \<open>simp_all add: project_found_def\<close>)

lemma begin_reconcile_not_found: "AskFound i \<noteq> begin_reconcile c k db"
  by (simp add: begin_reconcile_def split: option.split sum.split)

lemma inquiry_answers: "runtime_answers c s \<Longrightarrow> runtime_answers c (inquiry_settled c k r s)"
  by (simp add: inquiry_settled_def Let_def set_ask_answers stored_answer_answers
      split: inquiry_job.split option.split inquiry_result.split)

lemma retry_answers:
  assumes s: "runtime_answers c s"
  shows "runtime_answers c (retry_not_found k s)"
proof -
  have "runtime_answers c (s\<lparr>dv_db := db\<rparr>)"
    if "scheduleRetry (dv_now s) x t e (dv_db s) = Inr db" for x t e db
    using that s
    by (intro db_answers s) (auto simp: scheduleRetry_def runtime_answers_def updateState_Inr(4)
        intro: answers_ok_updateState intro!: keeps_answers_same)
  then show ?thesis
    using s by (auto simp: retry_not_found_def set_ask_answers split: inquiry_job.split sum.split)
qed

lemma manual_answers:
  assumes s: "runtime_answers c s"
  shows "runtime_answers c (resolve_manually k r op' reason s)"
proof -
  have "runtime_answers c (s\<lparr>dv_db := db\<rparr>)" if m: "applyManualResolution (dv_now s) i (dv_db s) = Inr db" for i db
  proof (intro db_answers s)
    show "answers_ok (dc_cipher c) db" using s m by (auto simp: runtime_answers_def intro: answers_ok_manual)
    show "keeps_answers (dv_db s) db"
      using m by (auto simp: applyManualResolution_def res_simps dest!: insert_audit_Inr intro!: keeps_answers_same)
  qed
  then show ?thesis using s by (auto simp: resolve_manually_def split: sum.split)
qed

lemma delivery_step_answers: "runtime_answers c s \<Longrightarrow> runtime_answers c (delivery_step c i s)"
proof (cases i)
  case (Clock t)
  then show "runtime_answers c s \<Longrightarrow> ?thesis" by (simp add: runtime_answers_def awaited_def)
next
  case (Enqueue e)
  then show "runtime_answers c s \<Longrightarrow> ?thesis"
    by (simp add: db_answers keeps_answers_enqueue answers_ok_enqueue runtime_answers_def [of c s])
next
  case (FailUnreadable k)
  then show "runtime_answers c s \<Longrightarrow> ?thesis"
    by (simp add: fail_unreadable_def mark_answers split: worker_job.split)
next
  case (MarkConflict k)
  then show "runtime_answers c s \<Longrightarrow> ?thesis"
    by (simp add: mark_conflict_def mark_answers split: worker_job.split)
next
  case (Reconcile k)
  then show "runtime_answers c s \<Longrightarrow> ?thesis"
    by (auto simp: runtime_answers_def awaited_def begin_reconcile_not_found)
qed (simp_all add: work_answers load_answers send_settled_answers project_answers found_answers inquiry_answers
    retry_answers manual_answers)

lemma new_runtime_answers: "runtime_answers c (new_runtime (empty_db ts))"
  by (simp add: runtime_answers_def answers_ok_def awaited_def encrypted_def new_runtime_def empty_db_def
      get_delivery_def)

lemma run_delivery_answers: "runtime_answers c s \<Longrightarrow> runtime_answers c (run_delivery c is s)"
  by (induction "is" arbitrary: s) (simp_all add: delivery_step_answers)

end
