(* ===== verification/Delivery_Attempts.thy ===== *)
theory Delivery_Attempts
  imports Delivery_Worker
begin

text \<open>
  Without reconciliation a record is sent by one worker at a time and no more often than its policy
  allows, whatever the number of workers, the expiry of leases and the order of their steps.
\<close>

section \<open>The invariant\<close>

definition job_record :: "worker_job \<Rightarrow> delivery_record option" where
  "job_record j =
     (case j of
        JobClaimed r \<Rightarrow> Some r | JobUnreadable r \<Rightarrow> Some r | JobSending r _ \<Rightarrow> Some r
      | JobAnswered r _ \<Rightarrow> Some r | JobConflict r \<Rightarrow> Some r | JobDone _ \<Rightarrow> None)"

lemma job_record_simps [simp]:
  "job_record (JobClaimed r) = Some r" "job_record (JobUnreadable r) = Some r" "job_record (JobSending r p) = Some r"
  "job_record (JobAnswered r i) = Some r" "job_record (JobConflict r) = Some r" "job_record (JobDone d) = None"
  by (simp_all add: job_record_def)

definition sends :: "string \<Rightarrow> delivery_runtime \<Rightarrow> nat" where
  "sends k s = length (filter (\<lambda>(k', n). k' = k) (dv_sent s))"

definition unsent :: "string \<Rightarrow> worker_job \<Rightarrow> bool" where
  "unsent k j \<longleftrightarrow> (case j of JobClaimed r \<Rightarrow> dr_id r = k | _ \<Rightarrow> False)"

lemma unsent_simps [simp]:
  "unsent k (JobClaimed r) \<longleftrightarrow> dr_id r = k" "\<not> unsent k (JobUnreadable r)" "\<not> unsent k (JobSending r p)"
  "\<not> unsent k (JobAnswered r i)" "\<not> unsent k (JobConflict r)" "\<not> unsent k (JobDone d)"
  by (simp_all add: unsent_def)

definition policies_ok :: "delivery_policy registry \<Rightarrow> bool" where
  "policies_ok policies \<longleftrightarrow> (\<forall>k p. lookup policies k = Some p \<longrightarrow> validate_delivery_policy p = Inr () \<and> dp_id p = k)"

definition row_ok :: "delivery_policy registry \<Rightarrow> delivery_record \<Rightarrow> bool" where
  "row_ok policies r \<longleftrightarrow>
     (\<exists>p. lookup policies (dr_policyId r) = Some p \<and> int (dr_attemptCount r) \<le> dp_maxAttempts p \<and>
        (waiting r \<longrightarrow> int (dr_attemptCount r) < dp_maxAttempts p))"

definition job_ok :: "host_db \<Rightarrow> worker_job \<Rightarrow> bool" where
  "job_ok db j \<longleftrightarrow>
     (\<forall>r. job_record j = Some r \<longrightarrow>
        (\<exists>q. get_delivery (dr_id r) db = Some q \<and> same_record q r \<and> \<not> waiting q))"

definition alone :: "worker_job list \<Rightarrow> bool" where
  "alone jobs \<longleftrightarrow>
     (\<forall>i j r q. i < j \<longrightarrow> j < length jobs \<longrightarrow> job_record (jobs ! i) = Some r \<longrightarrow> job_record (jobs ! j) = Some q \<longrightarrow>
        dr_id r \<noteq> dr_id q)"

definition attempts :: "string \<Rightarrow> host_db \<Rightarrow> nat" where
  "attempts k db = (case get_delivery k db of None \<Rightarrow> 0 | Some r \<Rightarrow> dr_attemptCount r)"

definition unsent_jobs :: "string \<Rightarrow> worker_job list \<Rightarrow> nat" where
  "unsent_jobs k jobs = (if \<exists>j \<in> set jobs. unsent k j then 1 else 0)"

definition sends_bounded :: "delivery_runtime \<Rightarrow> bool" where
  "sends_bounded s \<longleftrightarrow>
     (\<forall>k. sends k s + unsent_jobs k (dv_jobs s) \<le> attempts k (dv_db s))"

lemma sends_bounded_mono:
  assumes "sends_bounded s" and "\<And>k. attempts k (dv_db s) \<le> attempts k (dv_db t)"
    and "\<And>k. sends k t + unsent_jobs k (dv_jobs t) \<le> sends k s + unsent_jobs k (dv_jobs s)"
  shows "sends_bounded t"
  using assms unfolding sends_bounded_def by (meson le_trans)

lemma unsent_jobs_mono: "(\<And>j. j \<in> set ms \<Longrightarrow> unsent k j \<Longrightarrow> j \<in> set ks) \<Longrightarrow> unsent_jobs k ms \<le> unsent_jobs k ks"
  by (auto simp: unsent_jobs_def)

definition fair :: "delivery_policy registry \<Rightarrow> delivery_runtime \<Rightarrow> bool" where
  "fair policies s \<longleftrightarrow>
     distinct (delivery_ids (dv_db s)) \<and>
     (\<forall>k r. get_delivery k (dv_db s) = Some r \<longrightarrow> row_ok policies r) \<and>
     (\<forall>j \<in> set (dv_jobs s). job_ok (dv_db s) j) \<and> alone (dv_jobs s) \<and> sends_bounded s"

lemma fairI:
  assumes "distinct (delivery_ids (dv_db s))"
    and "\<And>k r. get_delivery k (dv_db s) = Some r \<Longrightarrow> row_ok policies r"
    and "\<And>j. j \<in> set (dv_jobs s) \<Longrightarrow> job_ok (dv_db s) j" and "alone (dv_jobs s)" and "sends_bounded s"
  shows "fair policies s"
  using assms by (simp add: fair_def)

lemma fairD:
  assumes "fair policies s"
  shows "distinct (delivery_ids (dv_db s))"
    and "get_delivery k (dv_db s) = Some r \<Longrightarrow> row_ok policies r"
    and "j \<in> set (dv_jobs s) \<Longrightarrow> job_ok (dv_db s) j" and "alone (dv_jobs s)" and "sends_bounded s"
  using assms by (simp_all add: fair_def)

section \<open>Steps\<close>

text \<open>Rows that change without a job: none begins to wait, and none is counted anew.\<close>

lemma fair_rows:
  assumes f: "fair policies s" and ids: "distinct (delivery_ids db)"
    and old: "\<And>k q. get_delivery k (dv_db s) = Some q \<Longrightarrow>
      \<exists>r. get_delivery k db = Some r \<and> same_record r q \<and> (waiting r \<longrightarrow> waiting q)"
    and new: "\<And>k r. get_delivery k db = Some r \<Longrightarrow> get_delivery k (dv_db s) = None \<Longrightarrow> row_ok policies r"
  shows "fair policies (s\<lparr>dv_db := db\<rparr>)"
proof (rule fairI)
  let ?t = "s\<lparr>dv_db := db\<rparr>"
  show "distinct (delivery_ids (dv_db ?t))" using ids by simp
  fix k r
  assume r: "get_delivery k (dv_db ?t) = Some r"
  show "row_ok policies r"
  proof (cases "get_delivery k (dv_db s)")
    case None
    then show ?thesis using new r by simp
  next
    case (Some q)
    then have "same_record r q" "waiting r \<longrightarrow> waiting q" using old [OF Some] r by auto
    then show ?thesis using fairD(2) [OF f Some] by (auto simp: row_ok_def same_record_def)
  qed
next
  fix j
  assume "j \<in> set (dv_jobs (s\<lparr>dv_db := db\<rparr>))"
  then have "job_ok (dv_db s) j" using fairD(3) [OF f] by simp
  then show "job_ok (dv_db (s\<lparr>dv_db := db\<rparr>)) j"
    unfolding job_ok_def same_record_def using old by (fastforce simp: same_record_def)
next
  have "attempts k (dv_db s) \<le> attempts k db" for k
    using old [of k] by (cases "get_delivery k (dv_db s)") (auto simp: attempts_def same_record_def)
  then show "sends_bounded (s\<lparr>dv_db := db\<rparr>)"
    by (intro sends_bounded_mono [OF fairD(5) [OF f]]) (simp_all add: sends_def)
qed (use fairD(4) [OF f] in simp)

text \<open>A job ends and leaves its row in some state; only a row with attempts left may wait again.\<close>

lemma set_update_sub: "y \<in> set (xs[i := x]) \<Longrightarrow> y = x \<or> y \<in> set xs"
  using set_update_subset_insert [of xs i x] by auto

lemma alone_update:
  assumes "alone jobs" and "\<And>r. job_record j = Some r \<Longrightarrow> i < length jobs \<Longrightarrow> \<exists>q. job_record (jobs ! i) = Some q \<and> dr_id q = dr_id r"
  shows "alone (jobs[i := j])"
  unfolding alone_def
proof (intro allI impI)
  fix a b r q
  assume ab: "a < b" "b < length (jobs[i := j])" and r: "job_record (jobs[i := j] ! a) = Some r"
    and q: "job_record (jobs[i := j] ! b) = Some q"
  have old: "\<exists>r'. job_record (jobs ! n) = Some r' \<and> dr_id r' = dr_id x"
    if "job_record (jobs[i := j] ! n) = Some x" "n < length jobs" for n x
    using that assms(2) [of x] by (cases "n = i") auto
  obtain r' q' where "job_record (jobs ! a) = Some r'" "dr_id r' = dr_id r" "job_record (jobs ! b) = Some q'" "dr_id q' = dr_id q"
    using old [OF r] old [OF q] ab by auto
  then show "dr_id r \<noteq> dr_id q" using assms(1) ab unfolding alone_def by (metis length_list_update)
qed

lemma alone_append:
  assumes "alone jobs" and "\<And>j x y. j \<in> set jobs \<Longrightarrow> job_record j = Some x \<Longrightarrow> job_record n = Some y \<Longrightarrow> dr_id x \<noteq> dr_id y"
  shows "alone (jobs @ [n])"
  unfolding alone_def
proof (intro allI impI)
  fix i j r q
  assume ij: "i < j" "j < length (jobs @ [n])" and r: "job_record ((jobs @ [n]) ! i) = Some r"
    and q: "job_record ((jobs @ [n]) ! j) = Some q"
  have i: "i < length jobs" "job_record (jobs ! i) = Some r" using ij r by (simp_all add: nth_append)
  show "dr_id r \<noteq> dr_id q"
  proof (cases "j < length jobs")
    case True
    then have "job_record (jobs ! j) = Some q" using q by (simp add: nth_append)
    then show ?thesis using assms(1) ij(1) True i(2) unfolding alone_def by blast
  next
    case False
    then have "job_record n = Some q" using q ij(2) by (simp add: nth_append)
    then show ?thesis using assms(2) [of "jobs ! i" r q] i by simp
  qed
qed

lemma other_jobs:
  assumes a: "alone jobs" and i: "i < length jobs" "job_record (jobs ! i) = Some r"
    and j: "j < length jobs" "j \<noteq> i" "job_record (jobs ! j) = Some q"
  shows "dr_id q \<noteq> dr_id r"
proof (cases "j < i")
  case True
  then show ?thesis using a i j unfolding alone_def by blast
next
  case False
  then have "i < j" using j(2) by simp
  then show ?thesis using a i j unfolding alone_def by metis
qed

lemma job_end_fair:
  assumes f: "fair policies s" and i: "i < length (dv_jobs s)" "job_record (dv_jobs s ! i) = Some r"
    and ids: "delivery_ids db = delivery_ids (dv_db s)"
    and row: "\<And>q. get_delivery (dr_id r) (dv_db s) = Some q \<Longrightarrow>
      \<exists>q'. get_delivery (dr_id r) db = Some q' \<and> same_record q' q \<and> (waiting q' \<longrightarrow> row_ok policies q')"
    and others: "\<And>k. k \<noteq> dr_id r \<Longrightarrow> get_delivery k db = get_delivery k (dv_db s)"
  shows "fair policies (set_job i (JobDone d) (s\<lparr>dv_db := db\<rparr>))"
proof -
  let ?t = "set_job i (JobDone d) (s\<lparr>dv_db := db\<rparr>)"
  have jobs: "dv_jobs ?t = (dv_jobs s)[i := JobDone d]" and db: "dv_db ?t = db" and sent: "dv_sent ?t = dv_sent s"
    by (simp_all add: set_job_def)
  have mem: "dv_jobs s ! i \<in> set (dv_jobs s)" using i(1) by simp
  obtain q where q: "get_delivery (dr_id r) (dv_db s) = Some q" "same_record q r"
    using fairD(3) [OF f mem] i(2) by (auto simp: job_ok_def)
  obtain q' where q': "get_delivery (dr_id r) db = Some q'" "same_record q' q" "waiting q' \<longrightarrow> row_ok policies q'"
    using row [OF q(1)] by blast
  show ?thesis
  proof (rule fairI)
    show "distinct (delivery_ids (dv_db ?t))" using fairD(1) [OF f] ids db by simp
    show "row_ok policies x" if "get_delivery k (dv_db ?t) = Some x" for k x
    proof (cases "k = dr_id r")
      case True
      then have "x = q'" using that q'(1) db by simp
      then show ?thesis
        using fairD(2) [OF f q(1)] q'(2,3) by (auto simp: row_ok_def same_record_def)
    next
      case False
      then show ?thesis using that others [OF False] fairD(2) [OF f] db by simp
    qed
    show "job_ok (dv_db ?t) j" if j: "j \<in> set (dv_jobs ?t)" for j
    proof -
      obtain n where n: "n < length (dv_jobs s)" "(dv_jobs s)[i := JobDone d] ! n = j"
        using j by (auto simp: jobs in_set_conv_nth)
      show ?thesis
      proof (cases "n = i")
        case True
        then show ?thesis using n by (auto simp: job_ok_def)
      next
        case False
        then have jn: "dv_jobs s ! n = j" using n by simp
        have "dr_id x \<noteq> dr_id r" if "job_record j = Some x" for x
          using other_jobs [OF fairD(4) [OF f] i n(1) False] jn that by simp
        moreover have "job_ok (dv_db s) j" using fairD(3) [OF f] n(1) jn nth_mem by metis
        ultimately show ?thesis using others by (auto simp: job_ok_def db)
      qed
    qed
    show "alone (dv_jobs ?t)" unfolding jobs by (rule alone_update [OF fairD(4) [OF f]]) simp
    have "attempts k db = attempts k (dv_db s)" for k
      using others [of k] q(1) q'(1,2) by (cases "k = dr_id r") (auto simp: attempts_def same_record_def)
    moreover have "unsent_jobs k (dv_jobs ?t) \<le> unsent_jobs k (dv_jobs s)" for k
      by (rule unsent_jobs_mono) (auto simp: jobs dest!: set_update_sub)
    moreover have "sends k ?t = sends k s" for k by (simp add: sends_def sent)
    ultimately show "sends_bounded ?t" by (intro sends_bounded_mono [OF fairD(5) [OF f]]) (simp_all add: db)
  qed
qed

text \<open>A job goes on with its record, the rows as they are.\<close>

lemma job_move_fair:
  assumes f: "fair policies s" and i: "i < length (dv_jobs s)" "job_record (dv_jobs s ! i) = Some r"
    and j: "job_record j = Some r" "\<And>k. \<not> unsent k j"
    and rows: "\<And>k. get_delivery k db = get_delivery k (dv_db s)" "delivery_ids db = delivery_ids (dv_db s)"
  shows "fair policies (set_job i j (s\<lparr>dv_db := db\<rparr>))"
proof (rule fairI)
  let ?t = "set_job i j (s\<lparr>dv_db := db\<rparr>)"
  have jobs: "dv_jobs ?t = (dv_jobs s)[i := j]" and db: "dv_db ?t = db" and sent: "dv_sent ?t = dv_sent s"
    by (simp_all add: set_job_def)
  have mem: "dv_jobs s ! i \<in> set (dv_jobs s)" using i(1) by simp
  show "distinct (delivery_ids (dv_db ?t))" using fairD(1) [OF f] rows(2) db by simp
  show "row_ok policies x" if "get_delivery k (dv_db ?t) = Some x" for k x
    using that fairD(2) [OF f] rows(1) db by simp
  show "job_ok (dv_db ?t) x" if "x \<in> set (dv_jobs ?t)" for x
  proof -
    have "job_ok (dv_db s) x"
      using that fairD(3) [OF f] fairD(3) [OF f mem] i(2) j(1) by (auto simp: jobs job_ok_def dest!: set_update_sub)
    then show ?thesis using rows(1) by (simp add: job_ok_def db)
  qed
  show "alone (dv_jobs ?t)" unfolding jobs by (rule alone_update [OF fairD(4) [OF f]]) (use i(2) j(1) in simp)
  have "unsent_jobs k (dv_jobs ?t) \<le> unsent_jobs k (dv_jobs s)" for k
    by (rule unsent_jobs_mono) (use j(2) in \<open>auto simp: jobs dest!: set_update_sub\<close>)
  then show "sends_bounded ?t"
    by (intro sends_bounded_mono [OF fairD(5) [OF f]]) (simp_all add: db rows(1) attempts_def sends_def sent)
qed

text \<open>A claimed record is sent.\<close>

lemma job_sent_fair:
  assumes f: "fair policies s" and i: "i < length (dv_jobs s)" "dv_jobs s ! i = JobClaimed r"
  shows "fair policies ((set_job i (JobSending r p) s)\<lparr>dv_sent := dv_sent s @ [(dr_id r, n)]\<rparr>)"
proof -
  let ?u = "set_job i (JobSending r p) (s\<lparr>dv_db := dv_db s\<rparr>)"
  let ?t = "(set_job i (JobSending r p) s)\<lparr>dv_sent := dv_sent s @ [(dr_id r, n)]\<rparr>"
  have u: "fair policies ?u"
    by (rule job_move_fair [OF f i(1)]) (use i(2) in \<open>simp_all add: unsent_def\<close>)
  have jobs: "dv_jobs ?t = (dv_jobs s)[i := JobSending r p]" and db: "dv_db ?t = dv_db s" by (simp_all add: set_job_def)
  have "sends_bounded ?t"
  proof (rule sends_bounded_mono [OF fairD(5) [OF f]])
    fix k
    show "attempts k (dv_db s) \<le> attempts k (dv_db ?t)" by (simp add: db)
    show "sends k ?t + unsent_jobs k (dv_jobs ?t) \<le> sends k s + unsent_jobs k (dv_jobs s)"
    proof (cases "k = dr_id r")
      case True
      have mem: "JobClaimed r \<in> set (dv_jobs s)" using i nth_mem by metis
      have "\<not> unsent k j" if j: "j \<in> set (dv_jobs ?t)" for j
      proof
        assume "unsent k j"
        then obtain q where q: "j = JobClaimed q" "dr_id q = k" by (auto simp: unsent_def split: worker_job.splits)
        obtain m where m: "m < length (dv_jobs s)" "(dv_jobs s)[i := JobSending r p] ! m = j"
          using j by (auto simp: jobs in_set_conv_nth)
        then have "m \<noteq> i" using q(1) by auto
        then have "dv_jobs s ! m = JobClaimed q" using m q(1) by simp
        then show False
          using other_jobs [OF fairD(4) [OF f] i(1) _ m(1) \<open>m \<noteq> i\<close>, of r q] i(2) q(2) True by simp
      qed
      then have "unsent_jobs k (dv_jobs ?t) = 0" by (auto simp: unsent_jobs_def)
      moreover have "\<exists>j \<in> set (dv_jobs s). unsent k j" using mem True by (intro bexI [of _ "JobClaimed r"]) simp_all
      then have "unsent_jobs k (dv_jobs s) = 1" by (simp add: unsent_jobs_def)
      ultimately show ?thesis using True by (simp add: sends_def)
    next
      case False
      have "unsent_jobs k (dv_jobs ?t) \<le> unsent_jobs k (dv_jobs s)"
        by (rule unsent_jobs_mono) (auto simp: jobs dest!: set_update_sub)
      then show ?thesis using False by (simp add: sends_def)
    qed
  qed
  then show ?thesis
    using u by (simp add: fair_def set_job_def)
qed

section \<open>The steps of the runtime\<close>

lemma fair_sweep: "fair policies s \<Longrightarrow> fair policies (s\<lparr>dv_db := sweep_expired now (dv_db s)\<rparr>)"
proof (rule fair_rows)
  fix k q
  assume "get_delivery k (dv_db s) = Some q"
  then show "\<exists>r. get_delivery k (sweep_expired now (dv_db s)) = Some r \<and> same_record r q \<and> (waiting r \<longrightarrow> waiting q)"
    by (auto simp: get_sweep same_record_def waiting_def)
qed (auto simp: get_sweep fairD(1))

lemma get_update_one:
  assumes "\<And>r. dr_id (f r) = dr_id r"
  shows "get_delivery k (update_outbox (\<lambda>r. dr_id r = i \<and> P r) f db) =
    (if k = i then map_option (\<lambda>r. if P r then f r else r) (get_delivery k db) else get_delivery k db)"
  by (cases "get_delivery k db") (auto simp: get_update [OF assms] dest: get_delivery_id)

text \<open>Claiming a row that waits: nobody works on it, and it has an attempt left.\<close>

lemma claim_row_fair:
  assumes f: "fair policies s" and row: "row \<in> set (db_outbox (dv_db s))" "waiting row"
    and claimed: "claim_row policies owner now row (dv_db s) = Inr (r, db)"
  shows "fair policies (s\<lparr>dv_db := db, dv_jobs := dv_jobs s @ [case r of None \<Rightarrow> JobDone (Inr WorkIdle) | Some x \<Rightarrow> JobClaimed x]\<rparr>)"
proof -
  have here: "get_delivery (dr_id row) (dv_db s) = Some row"
    using get_delivery_mem [OF fairD(1) [OF f] row(1)] .
  obtain policy where policy: "lookup policies (dr_policyId row) = Some policy"
    "int (dr_attemptCount row) < dp_maxAttempts policy"
    using fairD(2) [OF f here] row(2) by (auto simp: row_ok_def)
  have idle: "dr_id x \<noteq> dr_id row" if "j \<in> set (dv_jobs s)" "job_record j = Some x" for j x
    using fairD(3) [OF f that(1)] that(2) here row(2) by (auto simp: job_ok_def)
  have jobless: "fair policies (t\<lparr>dv_jobs := dv_jobs t @ [JobDone d]\<rparr>)" if "fair policies t" for t d
    using that by (auto simp: fair_def job_ok_def alone_def sends_bounded_def sends_def unsent_jobs_def nth_append)
  show ?thesis
  proof (cases "dp_version policy \<noteq> dr_policyVersion row")
    case True
    let ?f = "\<lambda>r. r\<lparr>dr_status := DUncertain, dr_lastErrorCode := Some ''host.delivery.policy-version-mismatch'', dr_updatedAt := now\<rparr>"
    have db: "r = None" "db = update_outbox (\<lambda>r. dr_id r = dr_id row) ?f (dv_db s)"
      using claimed policy True by (auto simp: claim_row_def require_delivery_policy_def)
    have rows: "get_delivery k db = map_option (\<lambda>r. if dr_id r = dr_id row then ?f r else r) (get_delivery k (dv_db s))" for k
      unfolding db(2) by (rule get_update) simp
    have "fair policies (s\<lparr>dv_db := db\<rparr>)"
    proof (rule fair_rows [OF f])
      show "distinct (delivery_ids db)" using fairD(1) [OF f] by (simp add: db(2) ids_update)
    qed (auto simp: rows same_record_def waiting_def)
    from jobless [OF this] show ?thesis by (simp add: db(1))
  next
    case False
    let ?f = "\<lambda>r. r\<lparr>dr_status := DLeased, dr_attemptCount := dr_attemptCount r + 1, dr_leaseOwner := Some owner,
                dr_leaseUntil := Some (now + dp_leaseMs policy), dr_updatedAt := now\<rparr>"
    have db: "r = get_delivery (dr_id row) db" "db = update_outbox (\<lambda>r. dr_id r = dr_id row \<and> waiting r) ?f (dv_db s)"
      using claimed policy False by (auto simp: claim_row_def require_delivery_policy_def Let_def)
    have rows: "get_delivery k db =
        (if k = dr_id row then map_option (\<lambda>r. if waiting r then ?f r else r) (get_delivery k (dv_db s))
         else get_delivery k (dv_db s))" for k
      unfolding db(2) by (rule get_update_one) simp
    have new: "r = Some (?f row)" using db(1) here row(2) by (simp add: rows)
    let ?t = "s\<lparr>dv_db := db, dv_jobs := dv_jobs s @ [JobClaimed (?f row)]\<rparr>"
    have "fair policies ?t"
    proof (rule fairI)
      show "distinct (delivery_ids (dv_db ?t))" using fairD(1) [OF f] by (simp add: db(2) ids_update)
      show "row_ok policies x" if "get_delivery k (dv_db ?t) = Some x" for k x
      proof (cases "k = dr_id row")
        case True
        then have "x = ?f row" using that here row(2) by (simp add: rows)
        then show ?thesis using policy by (simp add: row_ok_def waiting_def)
      next
        case False
        then show ?thesis using that fairD(2) [OF f] by (simp add: rows)
      qed
      show "job_ok (dv_db ?t) j" if j: "j \<in> set (dv_jobs ?t)" for j
      proof (cases "j = JobClaimed (?f row)")
        case True
        then show ?thesis using here row(2) by (simp add: job_ok_def rows same_record_def waiting_def)
      next
        case False
        then have "j \<in> set (dv_jobs s)" using j by simp
        then show ?thesis using fairD(3) [OF f] idle by (auto simp: job_ok_def rows)
      qed
      have "alone (dv_jobs s @ [JobClaimed (?f row)])"
        by (rule alone_append [OF fairD(4) [OF f]]) (use idle in auto)
      then show "alone (dv_jobs ?t)" by simp
      show "sends_bounded ?t"
        unfolding sends_bounded_def
      proof
        fix k
        have old: "sends k s + unsent_jobs k (dv_jobs s) \<le> attempts k (dv_db s)"
          using fairD(5) [OF f] by (simp add: sends_bounded_def)
        show "sends k ?t + unsent_jobs k (dv_jobs ?t) \<le> attempts k (dv_db ?t)"
        proof (cases "k = dr_id row")
          case True
          have "\<not> unsent k j" if "j \<in> set (dv_jobs s)" for j
            using idle [OF that] True by (auto simp: unsent_def split: worker_job.split)
          then have "unsent_jobs k (dv_jobs s) = 0" by (auto simp: unsent_jobs_def)
          moreover have "attempts k db = attempts k (dv_db s) + 1"
            using True here row(2) by (simp add: attempts_def rows)
          moreover have "unsent_jobs k (dv_jobs ?t) \<le> 1" by (simp add: unsent_jobs_def)
          ultimately show ?thesis using old by (simp add: sends_def)
        next
          case False
          then have "unsent_jobs k (dv_jobs ?t) = unsent_jobs k (dv_jobs s)"
            by (auto simp: unsent_jobs_def)
          then show ?thesis using old False by (simp add: sends_def attempts_def rows)
        qed
      qed
    qed
    then show ?thesis by (simp add: new)
  qed
qed

lemma work_fair:
  assumes f: "fair (dc_policies c) s"
  shows "fair (dc_policies c) (work c owner target s)"
proof -
  let ?s = "s\<lparr>dv_db := sweep_expired (dv_now s) (dv_db s)\<rparr>"
  have sw: "fair (dc_policies c) ?s" by (rule fair_sweep [OF f])
  have jobless: "fair (dc_policies c) (t\<lparr>dv_jobs := dv_jobs t @ [JobDone d]\<rparr>)" if "fair (dc_policies c) t" for t d
    using that by (auto simp: fair_def job_ok_def alone_def sends_bounded_def sends_def unsent_jobs_def nth_append)
  let ?claim = "case target of Some k \<Rightarrow> claim (dc_policies c) k owner (dv_now s) (dv_db s)
            | None \<Rightarrow> claimNext (dc_policies c) owner (dv_now s) (dv_db s)"
  let ?sel = "case target of Some k \<Rightarrow> find (\<lambda>r. dr_id r = k \<and> due (dv_now s) r) (db_outbox (dv_db ?s))
      | None \<Rightarrow> first_due (filter (due (dv_now s)) (db_outbox (dv_db ?s)))"
  have claims: "?claim = (case ?sel of None \<Rightarrow> Inr (None, dv_db ?s)
      | Some row \<Rightarrow> claim_row (dc_policies c) owner (dv_now s) row (dv_db ?s))"
    by (cases target) (simp_all add: claim_def claimNext_def Let_def split: option.split)
  have selected: "row \<in> set (db_outbox (dv_db ?s)) \<and> waiting row" if "?sel = Some row" for row
    using that by (cases target) (auto simp: find_Some_iff due_def dest!: first_due_mem)
  consider (idle) "?claim = Inr (None, dv_db ?s)"
    | (row) row where "row \<in> set (db_outbox (dv_db ?s))" "waiting row"
        "?claim = claim_row (dc_policies c) owner (dv_now s) row (dv_db ?s)"
    using claims selected by (cases ?sel) auto
  then show ?thesis
  proof cases
    case idle
    then show ?thesis using jobless [OF sw] by (simp add: work_def)
  next
    case row
    show ?thesis
    proof (cases "claim_row (dc_policies c) owner (dv_now s) row (dv_db ?s)")
      case (Inl e)
      then show ?thesis using jobless [OF f] row(3) by (simp add: work_def)
    next
      case (Inr res)
      obtain r db where res: "res = (r, db)" by force
      have "claim_row (dc_policies c) owner (dv_now s) row (dv_db ?s) = Inr (r, db)" using Inr res by simp
      from claim_row_fair [OF sw row(1,2) this] show ?thesis
        using Inr res row(3) by (cases r) (simp_all add: work_def)
    qed
  qed
qed

lemma job_over_fair:
  assumes f: "fair policies s" and i: "i < length (dv_jobs s)" "job_record (dv_jobs s ! i) = Some r"
  shows "fair policies (set_job i (JobDone d) s)"
proof -
  have "fair policies (set_job i (JobDone d) (s\<lparr>dv_db := dv_db s\<rparr>))"
    by (rule job_end_fair [OF f i]) (use fairD(2) [OF f] in \<open>auto simp: same_record_def\<close>)
  then show ?thesis by simp
qed

lemma finish_fair:
  assumes f: "fair policies s" and i: "i < length (dv_jobs s)" "job_record (dv_jobs s ! i) = Some r"
    and wait: "status = DPending \<or> status = DRetryScheduled \<Longrightarrow>
      \<exists>p. lookup policies (dr_policyId r) = Some p \<and> int (dr_attemptCount r) < dp_maxAttempts p"
  shows "fair policies (finish_job i (updateState now (dr_id r) status code nxt (dv_db s)) res s)"
proof (cases "updateState now (dr_id r) status code nxt (dv_db s)")
  case (Inl e)
  then show ?thesis using job_over_fair [OF f i] by (simp add: finish_job_def)
next
  case (Inr db)
  note u = updateState_Inr [OF Inr]
  have mem: "dv_jobs s ! i \<in> set (dv_jobs s)" using i(1) by simp
  have "fair policies (set_job i (JobDone (Inr res)) (s\<lparr>dv_db := db\<rparr>))"
  proof (rule job_end_fair [OF f i])
    fix q
    assume q: "get_delivery (dr_id r) (dv_db s) = Some q"
    then have same: "same_record q r" using fairD(3) [OF f mem] i(2) by (auto simp: job_ok_def)
    let ?q = "q\<lparr>dr_status := status, dr_nextAttemptAt := nxt, dr_leaseOwner := None,
        dr_leaseUntil := None, dr_lastErrorCode := Some code, dr_updatedAt := now\<rparr>"
    have "get_delivery (dr_id r) db = Some ?q" using u(1) q by auto
    moreover have "same_record ?q q" by (simp add: same_record_def)
    moreover have "waiting ?q \<longrightarrow> row_ok policies ?q"
      using wait same by (auto simp: waiting_def row_ok_def same_record_def)
    ultimately show "\<exists>q'. get_delivery (dr_id r) db = Some q' \<and> same_record q' q \<and> (waiting q' \<longrightarrow> row_ok policies q')"
      by blast
  qed (use u in auto)
  then show ?thesis using Inr by (simp add: finish_job_def)
qed

lemma mark_fair:
  assumes f: "fair policies s" and i: "i < length (dv_jobs s)" "job_record (dv_jobs s ! i) = Some r"
  shows "fair policies (finish_job i (markFailed now (dr_id r) code (dv_db s)) res s)"
    and "fair policies (finish_job i (markUncertain now (dr_id r) code (dv_db s)) res s)"
  unfolding markFailed_def markUncertain_def by (rule finish_fair [OF f i]; simp)+

lemma not_sent_fair:
  assumes f: "fair (dc_policies c) s" and i: "i < length (dv_jobs s)" "job_record (dv_jobs s ! i) = Some r"
  shows "fair (dc_policies c) (not_sent_result c i r e s)"
  using mark_fair [OF f i] finish_fair [OF f i] job_over_fair [OF f i]
  by (auto simp: not_sent_result_def require_delivery_policy_def scheduleRetry_def split: option.split)

lemma send_settled_fair:
  assumes f: "fair (dc_policies c) s" and i: "i < length (dv_jobs s)"
  shows "fair (dc_policies c) (send_settled c i result s)"
proof (cases "dv_jobs s ! i")
  case (JobSending r p)
  then have r: "job_record (dv_jobs s ! i) = Some r" by simp
  have "fair (dc_policies c) (set_job i (JobAnswered r x)
      (s\<lparr>dv_db := vault_put (dc_cipher c) ref payload (dv_db s)\<rparr>))" for x ref payload
    by (rule job_move_fair [OF f i r]) (simp_all add: vault_put_def get_delivery_def delivery_ids_def)
  then show ?thesis
    using mark_fair [OF f i r] not_sent_fair [OF f i r] JobSending
    by (simp add: send_settled_def Let_def split: option.split transport_result.split)
qed (use f in \<open>simp_all add: send_settled_def\<close>)

lemma project_fair:
  assumes f: "fair policies s" and i: "i < length (dv_jobs s)"
  shows "fair policies (project_answer i s)"
proof (cases "dv_jobs s ! i")
  case (JobAnswered r x)
  then have r: "job_record (dv_jobs s ! i) = Some r" by simp
  show ?thesis
  proof (cases "applyResponse (dv_now s) x (response_ref x) (dv_db s)")
    case (Inl e)
    then show ?thesis using job_over_fair [OF f i r] JobAnswered by (simp add: project_answer_def)
  next
    case (Inr res)
    obtain p db where res: "res = (p, db)" by force
    have applied: "applyResponse (dv_now s) x (response_ref x) (dv_db s) = Inr (p, db)" using Inr res by simp
    note d = applyResponse_Inr [OF applied]
    have fdb: "fair policies (s\<lparr>dv_db := db\<rparr>)"
    proof (rule fair_rows [OF f])
      show "distinct (delivery_ids db)" using d fairD(1) [OF f] by auto
      fix k q
      assume q: "get_delivery k (dv_db s) = Some q"
      show "\<exists>r. get_delivery k db = Some r \<and> same_record r q \<and> (waiting r \<longrightarrow> waiting q)"
        using d q by (cases "k = ri_outboxId x") (auto simp: same_record_def waiting_def)
    next
      fix k q
      assume "get_delivery k db = Some q" "get_delivery k (dv_db s) = None"
      then show "row_ok policies q" using d by (cases "k = ri_outboxId x") auto
    qed
    have over: "fair policies (set_job i (JobDone w) (s\<lparr>dv_db := db\<rparr>))" for w
      by (rule job_over_fair [OF fdb]) (use i r in simp_all)
    have "fair policies (set_job i (JobConflict r) (s\<lparr>dv_db := db\<rparr>))" if "p = ConflictingResponse"
    proof -
      have "db = dv_db s" using d that by auto
      then show ?thesis by (intro job_move_fair [OF f i r]) simp_all
    qed
    then show ?thesis
      using over JobAnswered applied by (cases p) (simp_all add: project_answer_def)
  qed
qed (use f in \<open>simp_all add: project_answer_def\<close>)

lemma load_fair:
  assumes f: "fair policies s" and i: "i < length (dv_jobs s)"
  shows "fair policies (load_payload c i s)"
proof (cases "dv_jobs s ! i")
  case (JobClaimed r)
  then have r: "job_record (dv_jobs s ! i) = Some r" by simp
  have "fair policies (set_job i (JobUnreadable r) (s\<lparr>dv_db := dv_db s\<rparr>))"
    by (rule job_move_fair [OF f i r]) simp_all
  then show ?thesis
    using job_sent_fair [OF f i JobClaimed] job_over_fair [OF f i r] JobClaimed
    by (simp add: load_payload_def split: sum.split option.split)
qed (use f in \<open>simp_all add: load_payload_def\<close>)

lemma fail_fair:
  assumes f: "fair policies s" and i: "i < length (dv_jobs s)"
  shows "fair policies (fail_unreadable i s)" and "fair policies (mark_conflict i s)"
  using f mark_fair [OF f i] by (simp_all add: fail_unreadable_def mark_conflict_def split: worker_job.split)

lemma policy_attempts: "validate_delivery_policy p = Inr () \<Longrightarrow> 1 \<le> dp_maxAttempts p"
  by (auto simp: validate_delivery_policy_def res_simps safe_from_def)

lemma enqueue_fair:
  assumes f: "fair policies s" and ok: "policies_ok policies"
  shows "fair policies (s\<lparr>dv_db := snd (enqueue c policies now i (dv_db s))\<rparr>)"
proof -
  have same: "fair policies (s\<lparr>dv_db := db\<rparr>)" if "db_outbox db = db_outbox (dv_db s)" for db
    by (rule fair_rows [OF f]) (use that fairD(1) [OF f] in \<open>auto simp: get_delivery_def delivery_ids_def same_record_def\<close>)
  show ?thesis
  proof (cases "require_delivery_policy policies (en_policyId i)")
    case (Inl e)
    then show ?thesis using f by (simp add: enqueue_def)
  next
    case (Inr policy)
    then have policy: "lookup policies (dp_id policy) = Some policy" "1 \<le> dp_maxAttempts policy"
      using ok policy_attempts by (auto simp: require_delivery_policy_def policies_ok_def split: option.splits)
    let ?ref = "''host-request:'' @ en_id i"
    let ?db = "vault_put c ?ref (en_payload i) (dv_db s)"
    have out: "db_outbox ?db = db_outbox (dv_db s)" "db_outbox (vault_delete ?ref ?db) = db_outbox (dv_db s)"
      by (simp_all add: vault_put_def vault_delete_def)
    show ?thesis
    proof (cases "store_enqueue now i ?ref policy ?db")
      case (Inl e)
      then show ?thesis using same [OF out(2)] Inr by (simp add: enqueue_def Let_def)
    next
      case (Inr res)
      obtain row db' where res: "res = (row, db')" by force
      have "fair policies (s\<lparr>dv_db := db'\<rparr>)"
      proof (cases "find (\<lambda>r. dr_idempotencyKey r = en_idempotencyKey i) (db_outbox ?db)")
        case None
        then obtain r db1 m where one: "insert_outbox r ?db = Inr db1" and two: "insert_message m db1 = Inr db'"
          and r: "dr_status r = DPending" "dr_attemptCount r = 0" "dr_policyId r = dp_id policy"
          using Inr res by (auto simp: store_enqueue_def Let_def res_simps)
        note o1 = insert_outbox_Inr [OF one] and o2 = insert_message_Inr [OF two]
        have rows: "get_delivery k db' = (if k = dr_id r then Some r else get_delivery k (dv_db s))" for k
          using o1(2) o2 same_outbox [of db' db1 k] same_outbox [OF out(1), of k] by simp
        have fresh: "get_delivery (dr_id r) (dv_db s) = None" using o1(1) same_outbox [OF out(1)] by simp
        show ?thesis
        proof (rule fair_rows [OF f])
          show "distinct (delivery_ids db')"
            using o1(3) fairD(1) [OF f] same_outbox [OF out(1)] same_outbox [of db' db1] o2 by simp
          show "\<exists>r'. get_delivery k db' = Some r' \<and> same_record r' q \<and> (waiting r' \<longrightarrow> waiting q)"
            if "get_delivery k (dv_db s) = Some q" for k q
            using that fresh by (cases "k = dr_id r") (simp_all add: rows same_record_def)
          show "row_ok policies q" if "get_delivery k db' = Some q" "get_delivery k (dv_db s) = None" for k q
            using that r policy by (auto simp: rows row_ok_def split: if_splits)
        qed
      next
        case (Some e)
        then have "db' = ?db" using Inr res by (auto simp: store_enqueue_def split: if_splits)
        then show ?thesis using same [OF out(1)] by simp
      qed
      then show ?thesis
        using Inr res \<open>require_delivery_policy policies (en_policyId i) = Inr policy\<close> by (simp add: enqueue_def Let_def)
    qed
  qed
qed

lemma delivery_step_fair:
  assumes f: "fair (dc_policies c) s" and ok: "policies_ok (dc_policies c)" and auto': "automatic i"
  shows "fair (dc_policies c) (delivery_step c i s)"
proof (cases i)
  case (Clock t)
  then show ?thesis using f by (simp add: fair_def sends_bounded_def sends_def)
next
  case (Enqueue e)
  then show ?thesis using enqueue_fair [OF f ok] by simp
qed (use f auto' in \<open>simp_all add: work_fair load_fair fail_fair send_settled_fair project_fair\<close>)

lemma new_runtime_fair: "fair policies (new_runtime (empty_db ts))"
  by (simp add: fair_def new_runtime_def empty_db_def delivery_ids_def get_delivery_def alone_def sends_bounded_def
      sends_def unsent_jobs_def)

lemma run_delivery_fair:
  "fair (dc_policies c) s \<Longrightarrow> policies_ok (dc_policies c) \<Longrightarrow> list_all automatic is \<Longrightarrow>
   fair (dc_policies c) (run_delivery c is s)"
  by (induction "is" arbitrary: s) (simp_all add: delivery_step_fair)

end
