(* ===== verification/Delivery_Properties.thy ===== *)
theory Delivery_Properties
  imports Delivery_Answers Delivery_Attempts
begin

text \<open>
  What the durable delivery of host messages promises - bounded attempts by one worker at a time,
  an answer behind every reconciled record - and two places where it does not keep what it has.
\<close>

definition ex_delivery_policy :: delivery_policy where
  "ex_delivery_policy =
     \<lparr>dp_id = ''financial'', dp_version = ''1'', dp_leaseMs = 30000, dp_maxAttempts = 2, dp_retryDelaysMs = [1000],
      dp_uncertainStrategy = ByInquiry, dp_inquiryNotFound = ManualNotFound\<rparr>"

definition ex_cipher :: payload_cipher where
  "ex_cipher =
     \<lparr>cipher_encrypt = (\<lambda>_ payload. map (\<lambda>b. char_of (unat b)) payload),
      cipher_decrypt = (\<lambda>_ text. Some (map (\<lambda>ch. of_nat (of_char ch)) text))\<rparr>"

definition ex_delivery :: delivery_config where
  "ex_delivery =
     \<lparr>dc_cipher = ex_cipher,
      dc_policies = use_registry register_delivery_policy freeze [Register ex_delivery_policy, Freeze] new_registry\<rparr>"

lemma ex_cipher_decrypts: "cipher_decrypt ex_cipher ref (cipher_encrypt ex_cipher ref payload) = Some payload"
proof -
  have "of_nat (of_char (char_of (unat b) :: char)) = b" for b :: byte
    using unat_byte_less [of b] by (simp add: of_char_of)
  then show ?thesis by (simp add: ex_cipher_def o_def)
qed

definition ex_message :: "string \<Rightarrow> string \<Rightarrow> enqueue_input" where
  "ex_message k key =
     \<lparr>en_id = k, en_transactionId = ''tx'', en_messageId = key @ '':request'', en_idempotencyKey = key,
      en_messageType = ''withdrawal'', en_channel = ''host'', en_payload = [1, 2], en_safeSummary = [],
      en_policyId = ''financial''\<rparr>"

definition ex_runtime :: "delivery_input list \<Rightarrow> delivery_runtime" where
  "ex_runtime is = run_delivery ex_delivery is (new_runtime (empty_db [''tx'']))"

text \<open>Two workers; the first attempt is not sent, the second one is answered.\<close>

definition ex_deliveries :: "delivery_input list" where
  "ex_deliveries =
     [Enqueue (ex_message ''m1'' ''m1''), Work ''w1'' None, Work ''w2'' None, Load 0,
      SendSettles 0 (Some (HostNotSent ''host.down'')), Clock 5000, Work ''w2'' (Some ''m1''), Load 2,
      SendSettles 2 (Some (HostAnswered ''r1'' [9] [])), ProjectAnswer 2]"

text \<open>
  A worker is slow: its lease expires, an inquiry finds the answer, and then the worker's transport
  reports that nothing was sent.
\<close>

definition ex_late :: "delivery_input list" where
  "ex_late =
     [Enqueue (ex_message ''m1'' ''m1''), Work ''w1'' None, Load 0, Clock 40000, Work ''w2'' None,
      Reconcile ''m1'', InquirySettles 0 (Some (InquiryFound ''r1'' [9] [])), ProjectFound 0]"

lemma policies_ok_registry:
  assumes "policies = use_registry register_delivery_policy freeze us new_registry"
  shows "policies_ok policies"
  using delivery_policies.use_valid [of us new_registry] unfolding policies_ok_def assms by simp

lemma one_job:
  "alone jobs \<Longrightarrow> length (filter (\<lambda>j. \<exists>x. job_record j = Some x \<and> dr_id x = k) jobs) \<le> 1"
proof (induction jobs)
  case (Cons j jobs)
  have rest: "alone jobs" using Cons.prems unfolding alone_def by (metis Suc_mono length_Cons nth_Cons_Suc)
  have "filter (\<lambda>j. \<exists>x. job_record j = Some x \<and> dr_id x = k) jobs = []" if j: "job_record j = Some y" "dr_id y = k" for y
  proof -
    have "dr_id x \<noteq> k" if z: "z \<in> set jobs" "job_record z = Some x" for z x
    proof -
      obtain n where "n < length jobs" "jobs ! n = z" using z(1) in_set_conv_nth [of z jobs] by blast
      then have "0 < Suc n" "Suc n < length (j # jobs)" "job_record ((j # jobs) ! Suc n) = Some x"
        using z(2) by simp_all
      moreover have "job_record ((j # jobs) ! 0) = Some y" using j by simp
      ultimately have "dr_id y \<noteq> dr_id x" using Cons.prems unfolding alone_def by blast
      then show ?thesis using j(2) by simp
    qed
    then show ?thesis by (auto simp: filter_empty_conv)
  qed
  then show ?case using Cons.IH [OF rest] by auto
qed simp

section \<open>Properties\<close>

text \<open>
  C9. Without reconciliation, whatever the workers, the expiry of leases, the results of the
  transport and the order of all their steps: a record is handed to the transport no more often
  than its policy allows, and at any moment by one worker at most.
\<close>
theorem attempts_are_bounded:
  assumes "dc_policies c = use_registry register_delivery_policy freeze us new_registry"
    and "list_all automatic is" and "s = run_delivery c is (new_runtime (empty_db ts))"
    and "get_delivery k (dv_db s) = Some r" and "lookup (dc_policies c) (dr_policyId r) = Some p"
  shows "int (length (filter (\<lambda>(k', n). k' = k) (dv_sent s))) \<le> dp_maxAttempts p \<and>
    length (filter (\<lambda>j. \<exists>x. job_record j = Some x \<and> dr_id x = k) (dv_jobs s)) \<le> 1"
proof -
  have f: "fair (dc_policies c) s"
    unfolding assms(3) by (rule run_delivery_fair [OF new_runtime_fair policies_ok_registry [OF assms(1)] assms(2)])
  have "sends k s \<le> attempts k (dv_db s)" using fairD(5) [OF f] by (auto simp: sends_bounded_def intro: add_leD1)
  moreover have "int (dr_attemptCount r) \<le> dp_maxAttempts p"
    using fairD(2) [OF f assms(4)] assms(5) by (auto simp: row_ok_def)
  ultimately show ?thesis
    using one_job [OF fairD(4) [OF f]] assms(4) by (simp add: attempts_def sends_def)
qed

theorem attempts_are_bounded_witness:
  "dv_sent (ex_runtime ex_deliveries) = [(''m1'', 1), (''m1'', 2)] \<and>
   int (length (filter (\<lambda>(k', n). k' = ''m1'') (dv_sent (ex_runtime ex_deliveries)))) \<le> 2"
proof -
  let ?s = "ex_runtime ex_deliveries"
  let ?r = "the (get_delivery ''m1'' (dv_db ?s))"
  have "get_delivery ''m1'' (dv_db ?s) \<noteq> None" by code_simp
  then have row: "get_delivery ''m1'' (dv_db ?s) = Some ?r" by simp
  have auto': "list_all automatic ex_deliveries" by code_simp
  have "lookup (dc_policies ex_delivery) (dr_policyId ?r) = Some ex_delivery_policy" by code_simp
  from attempts_are_bounded [OF _ auto' _ row this, of "[Register ex_delivery_policy, Freeze]" "[''tx'']"]
  have "int (length (filter (\<lambda>(k', n). k' = ''m1'') (dv_sent ?s))) \<le> dp_maxAttempts ex_delivery_policy"
    by (simp add: ex_runtime_def ex_delivery_def)
  moreover have "dv_sent ?s = [(''m1'', 1), (''m1'', 2)]" by code_simp
  ultimately show ?thesis by (simp add: ex_delivery_policy_def)
qed

text \<open>
  C21. In every state the delivery runtime can reach from an empty outbox - with inquiries and
  operators as well - a record that is reconciled was either confirmed by an operator, or an answer
  to it is recorded and its payload can be read from the vault; no refused request, conflict or
  crash between the steps loses it.
\<close>
theorem reconciled_is_answered:
  assumes "\<And>ref payload. cipher_decrypt (dc_cipher c) ref (cipher_encrypt (dc_cipher c) ref payload) = Some payload"
    and "s = run_delivery c is (new_runtime (empty_db ts))"
    and "get_delivery k (dv_db s) = Some r" and "dr_status r = DReconciled"
  shows "dr_resolution r = Some ''manual:confirmedDelivered'' \<or>
    (\<exists>q payload. read_response (dc_cipher c) k (dv_db s) = Inr (Some (q, payload)) \<and> rr_outboxId q = k)"
proof -
  let ?db = "dv_db s"
  have ok: "answers_ok (dc_cipher c) ?db"
    using run_delivery_answers [OF new_runtime_answers, of c "is" ts] by (simp add: runtime_answers_def assms(2))
  show ?thesis
  proof (cases "dr_resolution r = confirmed_by_hand")
    case False
    then have "\<exists>q \<in> set (db_responses ?db). rr_outboxId q = k"
      using ok assms(3,4) unfolding answers_ok_def by blast
    then obtain q where q: "getResponse k ?db = Some q"
      by (cases "getResponse k ?db") (auto simp: getResponse_def find_None_iff)
    then have mem: "q \<in> set (db_responses ?db)" "rr_outboxId q = k" by (auto simp: getResponse_def find_Some_iff)
    then obtain ct where ct: "map_of (db_payloads ?db) (rr_payloadRef q) = Some ct"
      using ok by (auto simp: answers_ok_def stored_def)
    then obtain p where "ct = cipher_encrypt (dc_cipher c) (rr_payloadRef q) p"
      using ok unfolding answers_ok_def encrypted_def by blast
    then show ?thesis using q mem ct by (simp add: read_response_def vault_get_def assms(1))
  qed (simp add: confirmed_by_hand_def)
qed

theorem reconciled_is_answered_witness:
  "\<exists>q payload. read_response (dc_cipher ex_delivery) ''m1'' (dv_db (ex_runtime ex_late)) = Inr (Some (q, payload)) \<and>
    rr_outboxId q = ''m1''"
proof -
  let ?s = "ex_runtime ex_late"
  let ?r = "the (get_delivery ''m1'' (dv_db ?s))"
  have "get_delivery ''m1'' (dv_db ?s) \<noteq> None" by code_simp
  then have row: "get_delivery ''m1'' (dv_db ?s) = Some ?r" by simp
  have r: "dr_status ?r = DReconciled" "dr_resolution ?r \<noteq> Some ''manual:confirmedDelivered''" by code_simp+
  have "cipher_decrypt (dc_cipher ex_delivery) ref (cipher_encrypt (dc_cipher ex_delivery) ref payload) = Some payload"
    for ref payload using ex_cipher_decrypts by (simp add: ex_delivery_def)
  from reconciled_is_answered [OF this _ row r(1), of ex_late "[''tx'']"] r(2)
  show ?thesis by (simp add: ex_runtime_def)
qed

text \<open>
  The result of a worker is written without looking at the record: when the record has been
  reconciled in the meantime (its lease expired and an inquiry or an operator settled it), a late
  result that nothing was sent schedules it to be sent again, and a late unknown result makes it
  uncertain again, although its answer is recorded.
\<close>
theorem late_result_reopens_reconciled:
  assumes "j < length (dv_jobs s)" and "dv_jobs s ! j = JobSending r payload"
    and "get_delivery (dr_id r) (dv_db s) = Some q" and "dr_status q = DReconciled"
    and "lookup (dc_policies c) (dr_policyId r) = Some p" and "int (dr_attemptCount r) < dp_maxAttempts p"
  shows "map_option dr_status (get_delivery (dr_id r) (dv_db (delivery_step c (SendSettles j (Some (HostNotSent e))) s))) =
      Some DRetryScheduled \<and>
    map_option dr_status (get_delivery (dr_id r) (dv_db (delivery_step c (SendSettles j (Some (HostUnknown e))) s))) =
      Some DUncertain"
proof -
  have state: "\<exists>db. updateState now (dr_id r) status code nxt (dv_db s) = Inr db \<and>
      map_option dr_status (get_delivery (dr_id r) db) = Some status" for now status code nxt
  proof -
    obtain db where "updateState now (dr_id r) status code nxt (dv_db s) = Inr db"
      using assms(3) by (auto simp: updateState_def)
    then show ?thesis using updateState_Inr(1) by fastforce
  qed
  obtain db1 where one: "scheduleRetry (dv_now s) (dr_id r) (dv_now s + retry_delay p (dr_attemptCount r)) e (dv_db s) = Inr db1"
    "map_option dr_status (get_delivery (dr_id r) db1) = Some DRetryScheduled"
    using state unfolding scheduleRetry_def by blast
  obtain db2 where two: "markUncertain (dv_now s) (dr_id r) e (dv_db s) = Inr db2"
    "map_option dr_status (get_delivery (dr_id r) db2) = Some DUncertain"
    using state unfolding markUncertain_def by blast
  show ?thesis
    using assms(1,2,5,6) one two
    by (simp add: send_settled_def not_sent_result_def require_delivery_policy_def finish_job_def set_job_def)
qed

theorem late_result_reopens_reconciled_witness:
  "map_option dr_status (get_delivery ''m1'' (dv_db (ex_runtime ex_late))) = Some DReconciled \<and>
   map_option dr_status (get_delivery ''m1''
     (dv_db (delivery_step ex_delivery (SendSettles 0 (Some (HostNotSent ''late''))) (ex_runtime ex_late)))) =
     Some DRetryScheduled"
proof -
  let ?s = "ex_runtime ex_late"
  let ?r = "the (job_record (dv_jobs ?s ! 0))" and ?q = "the (get_delivery ''m1'' (dv_db ?s))"
  have "case dv_jobs ?s ! 0 of JobSending x y \<Rightarrow> y = [1, 2] | _ \<Rightarrow> False" by code_simp
  then have job: "dv_jobs ?s ! 0 = JobSending ?r [1, 2]" by (auto split: worker_job.splits)
  have "get_delivery ''m1'' (dv_db ?s) \<noteq> None" by code_simp
  then have row: "get_delivery ''m1'' (dv_db ?s) = Some ?q" by simp
  have r: "0 < length (dv_jobs ?s)" "dr_id ?r = ''m1''" "dr_status ?q = DReconciled"
    "lookup (dc_policies ex_delivery) (dr_policyId ?r) = Some ex_delivery_policy"
    "int (dr_attemptCount ?r) < dp_maxAttempts ex_delivery_policy" by code_simp+
  have row': "get_delivery (dr_id ?r) (dv_db ?s) = Some ?q" unfolding r(2) by (rule row)
  have "map_option dr_status (get_delivery ''m1'' (dv_db ?s)) = Some DReconciled" by (subst row) (simp add: r(3))
  then show ?thesis
    using late_result_reopens_reconciled [OF r(1) job row' r(3) r(4,5), of "''late''"] unfolding r(2) by simp
qed

text \<open>
  A refused request to enqueue takes the payload of an accepted one with it: when a request is
  refused (its key belongs to another record, or its identity is taken) and its identity is that of
  a record already in the outbox, the record stays and its payload is gone from the vault.
\<close>
theorem refused_enqueue_destroys_payload:
  assumes "fst (enqueue cipher policies now i db) = Inl e"
    and "lookup policies (en_policyId i) = Some policy"
    and "get_delivery (en_id i) db = Some r" and "dr_payloadRef r = ''host-request:'' @ en_id i"
  shows "get_delivery (en_id i) (snd (enqueue cipher policies now i db)) = Some r \<and>
    vault_get cipher (dr_payloadRef r) (snd (enqueue cipher policies now i db)) = Inr None"
proof -
  let ?ref = "''host-request:'' @ en_id i"
  obtain e' where "store_enqueue now i ?ref policy (vault_put cipher ?ref (en_payload i) db) = Inl e'"
    using assms(1,2) by (auto simp: enqueue_def require_delivery_policy_def Let_def split: sum.splits)
  then have "snd (enqueue cipher policies now i db) = vault_delete ?ref (vault_put cipher ?ref (en_payload i) db)"
    using assms(2) by (simp add: enqueue_def require_delivery_policy_def Let_def)
  then show ?thesis using assms(3,4) by (simp add: vault_get_def payload_after_delete)
qed

theorem refused_enqueue_destroys_payload_witness:
  "let db = dv_db (ex_runtime [Enqueue (ex_message ''m1'' ''m1'')]) in
   vault_get ex_cipher ''host-request:m1'' db = Inr (Some [1, 2]) \<and>
   vault_get ex_cipher ''host-request:m1''
     (snd (enqueue ex_cipher (dc_policies ex_delivery) 7 (ex_message ''m1'' ''other'') db)) = Inr None"
proof -
  let ?db = "dv_db (ex_runtime [Enqueue (ex_message ''m1'' ''m1'')])"
  let ?r = "the (get_delivery ''m1'' ?db)"
  have refused: "fst (enqueue ex_cipher (dc_policies ex_delivery) 7 (ex_message ''m1'' ''other'') ?db) = Inl constraint_failed"
    by code_simp
  have policy: "lookup (dc_policies ex_delivery) (en_policyId (ex_message ''m1'' ''other'')) = Some ex_delivery_policy"
    by code_simp
  have "get_delivery ''m1'' ?db \<noteq> None" by code_simp
  then have row: "get_delivery (en_id (ex_message ''m1'' ''other'')) ?db = Some ?r" by (simp add: ex_message_def)
  have ref: "dr_payloadRef ?r = ''host-request:'' @ en_id (ex_message ''m1'' ''other'')" by code_simp
  have before: "vault_get ex_cipher ''host-request:m1'' ?db = Inr (Some [1, 2])" by code_simp
  show ?thesis
    using refused_enqueue_destroys_payload [OF refused policy row ref] before ref by (simp add: Let_def ex_message_def)
qed

end
