(* ===== verification/Cash_Device.thy ===== *)
theory Cash_Device
  imports Cash_Contracts Registry Effects Js_Text
begin

text \<open>
  What a cash session of \<^verbatim>\<open>packages/xfs-device-service/src\<close> works with: the gates before a
  presentation (\<^verbatim>\<open>cash-policy.ts\<close>), the results of XFS commands (\<^verbatim>\<open>utils.ts\<close>), the
  evidence and the leases (\<^verbatim>\<open>cash-contracts.ts\<close>), the ports, and the snapshots of the cash
  units (\<^verbatim>\<open>cash-inventory-snapshot.ts\<close>). A port is a function of the log: the calls made so
  far, each with its answer, and the events of the dispenser. While a call is pending the
  dispenser may report events. Requests leave out the XFS session and the time limits, which are
  the same for every command.
\<close>

section \<open>Policies and gates of the presentation\<close>

datatype cash_error =
    CashError string                 \<comment> \<open>an error of this component, with its code\<close>
  | XfsCommandFailed string int      \<comment> \<open>\<^verbatim>\<open>xfs.command.failed\<close>: the action and its result\<close>
  | PortError string                 \<comment> \<open>whatever a port throws\<close>

record presentation_gate =
  pg_id :: string
  pg_evaluate :: "nat \<Rightarrow> string + bool"

definition register_presentation_gate ::
  "presentation_gate \<Rightarrow> presentation_gate registry \<Rightarrow> cash_error + presentation_gate registry" where
  "register_presentation_gate g r =
     (if rg_frozen r \<or> lookup r (pg_id g) \<noteq> None
      then Inl (CashError ''cash.presentationGate.registrationRejected'')
      else Inr (insert_entry (pg_id g) g r))"

definition require_presentation_gate ::
  "presentation_gate registry \<Rightarrow> string \<Rightarrow> cash_error + presentation_gate" where
  "require_presentation_gate r k =
     (case lookup r k of None \<Rightarrow> Inl (CashError ''cash.presentationGate.missing'') | Some g \<Rightarrow> Inr g)"

definition register_presentation_policy ::
  "presentation_policy \<Rightarrow> presentation_policy registry \<Rightarrow> cash_error + presentation_policy registry" where
  "register_presentation_policy p r =
     (if rg_frozen r \<or> lookup r (pp_id p) \<noteq> None
      then Inl (CashError ''cash.presentationPolicy.registrationRejected'')
      else Inr (insert_entry (pp_id p) p r))"

definition require_presentation_policy ::
  "presentation_policy registry \<Rightarrow> string \<Rightarrow> cash_error + presentation_policy" where
  "require_presentation_policy r k =
     (case lookup r k of None \<Rightarrow> Inl (CashError ''cash.presentationPolicy.missing'') | Some p \<Rightarrow> Inr p)"

interpretation presentation_gates: freezable_registry
  register_presentation_gate freeze lookup rg_frozen pg_id "\<lambda>_. True"
  by unfold_locales (auto simp: register_presentation_gate_def split: if_splits)

interpretation presentation_policies: freezable_registry
  register_presentation_policy freeze lookup rg_frozen pp_id "\<lambda>_. True"
  by unfold_locales (auto simp: register_presentation_policy_def split: if_splits)

text \<open>\<^verbatim>\<open>CashPresentationAuthorizer.authorize\<close>: every gate in turn, the first that does not
  pass throws. A gate's answer may depend on how many were evaluated before it.\<close>

fun evaluate_presentation_gates ::
  "presentation_gate registry \<Rightarrow> nat \<Rightarrow> string list \<Rightarrow> cash_error + string list" where
  "evaluate_presentation_gates r n [] = Inr []"
| "evaluate_presentation_gates r n (gid # gids) =
     rbind (require_presentation_gate r gid) (\<lambda>g.
       case pg_evaluate g n of
         Inl e \<Rightarrow> Inl (PortError e)
       | Inr passed \<Rightarrow>
           if passed then
             rbind (evaluate_presentation_gates r (Suc n) gids) (\<lambda>satisfied. Inr (gid # satisfied))
           else Inl (CashError ''cash.presentationGate.failed''))"

definition authorize_presentation ::
  "presentation_gate registry \<Rightarrow> int \<Rightarrow> string \<Rightarrow> string \<Rightarrow> string \<Rightarrow> presentation_policy
     \<Rightarrow> cash_error + presentation_authorization" where
  "authorize_presentation r now newId operationId cashSessionId p =
     rbind (evaluate_presentation_gates r 0 (pp_requiredGates p)) (\<lambda>satisfied.
       Inr \<lparr>pa_id = newId, pa_operationId = operationId, pa_cashSessionId = cashSessionId,
            pa_policyId = pp_id p, pa_policyVersion = pp_version p,
            pa_satisfiedGates = satisfied, pa_expiresAt = now + pp_authorizationTtlMs p\<rparr>)"

section \<open>Results of XFS commands\<close>

datatype xfs_envelope =
  XfsEnvelope (xe_hResult: "int option") (xe_hresult: "int option") (xe_native: "xfs_envelope option")

fun hResultOf :: "xfs_envelope \<Rightarrow> int" where
  "hResultOf (XfsEnvelope (Some h) _ _) = h"
| "hResultOf (XfsEnvelope None (Some h) _) = h"
| "hResultOf (XfsEnvelope None None (Some n)) = hResultOf n"
| "hResultOf (XfsEnvelope None None None) = 0"

definition hResultFromXfsCommandFailure :: "cash_error \<Rightarrow> int option" where
  "hResultFromXfsCommandFailure e = (case e of XfsCommandFailed _ h \<Rightarrow> Some h | _ \<Rightarrow> None)"

record native_cash_unit =
  nu_number :: int
  nu_unitId :: string
  nu_physicalPositions :: "string list"
  nu_cashUnitType :: int
  nu_currencyId :: string
  nu_values :: int
  nu_count :: int
  nu_rejectCount :: int
  nu_dispensedCount :: int
  nu_presentedCount :: int
  nu_retractedCount :: int
  nu_status :: int

record cdm_status =
  st_envelope :: xfs_envelope
  st_positions :: "(int \<times> int) list option"

record cdm_event =
  de_kind :: "string option"
  de_position :: "int option"

section \<open>Phases, evidence and leases\<close>

datatype cash_phase =
    PhPlanning | PhPlanned | PhDispensing | PhStaged | PhPresenting | PhAwaitingTake
  | PhRetracting | PhReconciling | PhTerminal

datatype cash_certainty = Observed | DeviceReported | Inferred | CertaintyUnknown
datatype cash_source = FromFlow | FromDevice | FromRecovery | FromPolicy
datatype cash_trigger = CashCancel | CashTimeout | CashInterrupt | CashRouteExit | CashShutdown
datatype safe_code = CodeText string | CodeNumber int

record cash_evidence =
  ev_operationId :: string
  ev_cashSessionId :: string
  ev_sequence :: int
  ev_wallTime :: string
  ev_monotonicTime :: int
  ev_phase :: cash_phase
  ev_kind :: string
  ev_source :: cash_source
  ev_certainty :: cash_certainty
  ev_trigger :: "cash_trigger option"
  ev_safeResultCode :: "safe_code option"

record recovery_lease =
  rl_id :: string
  rl_operationId :: string
  rl_cashSessionId :: string
  rl_ownerInstanceId :: string
  rl_fencingToken :: int

record command_lease =
  cl_hostEpoch :: string
  cl_logicalService :: string
  cl_operationId :: string
  cl_fencingToken :: int

record command_lease_request =
  cq_fencingToken :: int
  cq_hostEpoch :: string
  cq_logicalService :: string
  cq_operationId :: string
  cq_ttlMs :: int
  cq_resourceGroup :: string
  cq_ownerInstanceId :: string
  cq_protectionPolicyProfileId :: string

text \<open>The resources of a session; the lock of the device has no data of its own.\<close>

record held_resources =
  hr_recoveryLease :: recovery_lease
  hr_hostCommandLease :: command_lease

record protection_status =
  ps_state :: string
  ps_operationId :: "string option"
  ps_custodyOutcome :: "string option"

record cdm_policy =
  cdp_policyVersion :: string
  cdp_configurationRevision :: string
  cdp_outputPosition :: "int option"
  cdp_retractArea :: "int option"
  cdp_retractIndex :: "int option"
  cdp_tellerId :: "int option"
  cdp_mixNumber :: "int option"
  cdp_planTtlMs :: "int option"
  cdp_commandLeaseTtlMs :: "int option"
  cdp_statusPollMs :: "int option"
  cdp_resourceGroup :: "string option"
  cdp_protectionPolicyProfileId :: "string option"

section \<open>The ports\<close>

text \<open>The log: every call with its answer, and what the dispenser reported meanwhile.\<close>

datatype cash_call =
    AskUnresolved string "string + bool"
  | AcquireDevice string "string + unit"
  | AcquireRecovery string string string "string + recovery_lease"
  | AskHostEpoch "string + string"
  | AcquireCommand command_lease_request "string + command_lease"
  | ReadUnits "cash_error + xfs_envelope \<times> native_cash_unit list option"
  | RecordBefore cash_evidence cash_snapshot "string + unit"
  | AskDenomination cash_denomination int int "cash_error + xfs_envelope \<times> cash_denomination option"
  | AppendEvidence cash_evidence "string + unit"
  | SpoolEvidence cash_evidence "string + unit"
  | RecordAfter cash_snapshot "string + unit"
  | DispenseNotes cash_denomination int int int "cash_error + xfs_envelope"
  | PresentNotes int "cash_error + xfs_envelope"
  | RetractNotes int int int "cash_error + xfs_envelope"
  | ReadStatus "cash_error + cdm_status"
  | SubscribeEvents "string + unit"
  | UnsubscribeEvents "string + unit"
  | PollDelay int
  | UpdateRecovery recovery_lease cash_phase int "string + unit"
  | CloseRecovery recovery_lease cash_custody "string + unit"
  | TransferRecovery cash_phase int cash_trigger "string + transfer_receipt"
  | TransitionCommand command_lease int int "string + command_lease"
  | ReleaseCommand command_lease "string + unit"
  | AskProtection string "string + protection_status"
  | AcknowledgeProtection string string string "string + unit"
  | ReleaseDevice "string + unit"
  | DeviceEvent cdm_event

type_synonym cash_log = "cash_call list"

record cash_env =
  ce_deviceId :: string
  ce_logicalName :: string
  ce_policy :: cdm_policy
  ce_sessionGeneration :: int
  ce_timeoutMs :: int
  ce_now :: "cash_log \<Rightarrow> int"
  ce_wallTime :: "cash_log \<Rightarrow> string"
  ce_monotonicNow :: "cash_log \<Rightarrow> int"
  ce_id :: "cash_log \<Rightarrow> string"
  ce_events :: "cash_log \<Rightarrow> cdm_event list"
  ce_hasUnresolved :: "cash_log \<Rightarrow> string + bool"
  ce_lockDevice :: "cash_log \<Rightarrow> string + unit"
  ce_releaseDevice :: "cash_log \<Rightarrow> string + unit"
  ce_acquireRecovery :: "cash_log \<Rightarrow> string + recovery_lease"
  ce_updateRecovery :: "cash_log \<Rightarrow> string + unit"
  ce_closeRecovery :: "cash_log \<Rightarrow> string + unit"
  ce_hostEpoch :: "cash_log \<Rightarrow> string + string"
  ce_acquireCommand :: "cash_log \<Rightarrow> command_lease_request \<Rightarrow> string + command_lease"
  ce_transitionCommand :: "cash_log \<Rightarrow> string + command_lease"
  ce_releaseCommand :: "cash_log \<Rightarrow> string + unit"
  ce_protectionStatus :: "(cash_log \<Rightarrow> string + protection_status) option"
  ce_acknowledgeProtection :: "(cash_log \<Rightarrow> string + unit) option"
  ce_recordBefore :: "cash_log \<Rightarrow> string + unit"
  ce_append :: "cash_log \<Rightarrow> cash_evidence \<Rightarrow> string + unit"
  ce_recordAfter :: "cash_log \<Rightarrow> string + unit"
  ce_spool :: "cash_log \<Rightarrow> string + unit"
  ce_transfer :: "(cash_log \<Rightarrow> string + transfer_receipt) option"
  ce_cashUnits :: "cash_log \<Rightarrow> cash_error + xfs_envelope \<times> native_cash_unit list option"
  ce_denominate :: "cash_log \<Rightarrow> cash_denomination \<Rightarrow> cash_error + xfs_envelope \<times> cash_denomination option"
  ce_dispense :: "cash_log \<Rightarrow> cash_denomination \<Rightarrow> cash_error + xfs_envelope"
  ce_present :: "cash_log \<Rightarrow> cash_error + xfs_envelope"
  ce_retract :: "cash_log \<Rightarrow> cash_error + xfs_envelope"
  ce_status :: "cash_log \<Rightarrow> cash_error + cdm_status"
  ce_subscribe :: "(cash_log \<Rightarrow> string + unit) option"
  ce_unsubscribe :: "cash_log \<Rightarrow> string + unit"

definition output_position :: "cash_env \<Rightarrow> int" where
  "output_position env = (case cdp_outputPosition (ce_policy env) of None \<Rightarrow> 2 | Some p \<Rightarrow> p)"

section \<open>The state of a session\<close>

record cash_state =
  cs_takeEventObserved :: bool
  cs_subscribed :: bool
  cs_phase :: cash_phase
  cs_sequence :: int
  cs_planConsumed :: bool
  cs_movementPossible :: bool
  cs_retractDispatched :: bool
  cs_reconciliationRequired :: bool
  cs_recoveryTransferred :: bool
  cs_terminal :: "cash_terminal option"
  cs_consumedAuthorizations :: "string list"
  cs_log :: cash_log

definition new_cash_state :: cash_state where
  "new_cash_state =
     \<lparr>cs_takeEventObserved = False, cs_subscribed = False, cs_phase = PhPlanned, cs_sequence = 1,
      cs_planConsumed = False, cs_movementPossible = False, cs_retractDispatched = False,
      cs_reconciliationRequired = False, cs_recoveryTransferred = False, cs_terminal = None,
      cs_consumedAuthorizations = [], cs_log = []\<rparr>"

type_synonym 'a cash_io = "(cash_state, cash_error, 'a) io"

text \<open>The handler of the subscription: items taken at the output position.\<close>

definition items_taken :: "cash_env \<Rightarrow> cdm_event \<Rightarrow> bool" where
  "items_taken env e \<longleftrightarrow> de_kind e = Some ''itemsTaken'' \<and> de_position e = Some (output_position env)"

definition observe :: "cash_env \<Rightarrow> cdm_event list \<Rightarrow> cash_state \<Rightarrow> cash_state" where
  "observe env es s =
     s\<lparr>cs_takeEventObserved := cs_takeEventObserved s \<or> cs_subscribed s \<and> list_ex (items_taken env) es,
       cs_log := cs_log s @ map DeviceEvent es\<rparr>"

definition after_call :: "cash_env \<Rightarrow> cash_call \<Rightarrow> cash_state \<Rightarrow> cash_state" where
  "after_call env c s =
     (let l = cs_log s @ [c] in observe env (ce_events env l) (s\<lparr>cs_log := l\<rparr>))"

definition device_call ::
  "cash_env \<Rightarrow> (cash_log \<Rightarrow> cash_error + 'a) \<Rightarrow> (cash_error + 'a \<Rightarrow> cash_call) \<Rightarrow> 'a cash_io" where
  "device_call env f c s = (let r = f (cs_log s) in (r, after_call env (c r) s))"

definition port_call ::
  "cash_env \<Rightarrow> (cash_log \<Rightarrow> string + 'a) \<Rightarrow> (string + 'a \<Rightarrow> cash_call) \<Rightarrow> 'a cash_io" where
  "port_call env f c s =
     (let r = f (cs_log s) in (map_sum PortError (\<lambda>x. x) r, after_call env (c r) s))"

definition assertXfsOk :: "xfs_envelope \<Rightarrow> string \<Rightarrow> unit cash_io" where
  "assertXfsOk e action = require (hResultOf e = 0) (XfsCommandFailed action (hResultOf e))"

section \<open>Snapshots\<close>

fun readWithRetry :: "'a cash_io \<Rightarrow> nat \<Rightarrow> 'a cash_io" where
  "readWithRetry m 0 = raise (PortError ''undefined'')"
| "readWithRetry m (Suc 0) = m"
| "readWithRetry m (Suc n) = handle m (\<lambda>_. readWithRetry m n)"

definition unit_identity :: "cash_unit \<Rightarrow> jstext" where
  "unit_identity u =
     json_array [json_int (cu_logicalSlot u), json_option (cu_physicalCassetteId u),
       json_option (cu_physicalPosition u), json_int (cu_type u), json_text (cu_currency u),
       json_int (cu_denomination u)]"

definition revision_hash :: "jstext \<Rightarrow> 32 word" where
  "revision_hash t = fold (\<lambda>u h. xor h (ucast u) * 16777619) t 2166136261"

text \<open>\<^verbatim>\<open>(hash >>> 0).toString(16)\<close>: the hexadecimal digits without leading zeros.\<close>

definition hash_text :: "32 word \<Rightarrow> string" where
  "hash_text h =
     (let ds = dropWhile (\<lambda>d. d = 0) (nibbles h) in
      if ds = [] then ''0'' else map (\<lambda>d. ''0123456789abcdef'' ! d) ds)"

definition revisionOf :: "string \<Rightarrow> cash_unit list \<Rightarrow> string" where
  "revisionOf configurationRevision us =
     configurationRevision @ '':'' @
       hash_text (revision_hash
         (json_array [json_text configurationRevision, json_array (map unit_identity us)]))"

definition observe_unit :: "native_cash_unit \<Rightarrow> cash_unit" where
  "observe_unit u =
     \<lparr>cu_logicalSlot = nu_number u,
      cu_physicalCassetteId = (if nu_unitId u = '''' then None else Some (nu_unitId u)),
      cu_physicalPosition = (case nu_physicalPositions u of [] \<Rightarrow> None | p # _ \<Rightarrow> Some p),
      cu_type = nu_cashUnitType u, cu_currency = nu_currencyId u, cu_denomination = nu_values u,
      cu_count = nu_count u, cu_rejectCount = nu_rejectCount u,
      cu_dispensedCount = nu_dispensedCount u, cu_presentedCount = nu_presentedCount u,
      cu_retractedCount = nu_retractedCount u, cu_status = nu_status u\<rparr>"

definition captureSnapshot ::
  "cash_env \<Rightarrow> string \<Rightarrow> string \<Rightarrow> snapshot_boundary \<Rightarrow> string \<Rightarrow> cash_snapshot cash_io" where
  "captureSnapshot env operationId cashSessionId boundary snapshotId =
     seq (readWithRetry (device_call env (ce_cashUnits env) ReadUnits) 2) (\<lambda>(e, units).
     seq (assertXfsOk e ''cdm.getCashUnitInfo'') (\<lambda>_.
     ask (\<lambda>s.
       let us = map observe_unit (or_else units []) in
       \<lparr>sn_id = snapshotId, sn_operationId = operationId, sn_cashSessionId = cashSessionId,
        sn_logicalService = ce_logicalName env, sn_boundary = boundary,
        sn_capturedAt = ce_wallTime env (cs_log s),
        sn_revision = revisionOf (cdp_configurationRevision (ce_policy env)) us, sn_units = us\<rparr>)))"

end
