(* ===== verification/Cash_Delivery.thy ===== *)
theory Cash_Delivery
  imports Cash_Device
begin

text \<open>
  One dispense of cash: \<^verbatim>\<open>XfsCashDeliveryPort\<close> and \<^verbatim>\<open>CashDeliverySession\<close> of
  \<^verbatim>\<open>packages/xfs-device-service/src/cash-delivery.ts\<close>, with the release of the protection
  (\<^verbatim>\<open>cash-protection-release.ts\<close>). Each method is a computation on the session's state;
  the calls of one session follow one another, as its callers make them, and whatever the
  dispenser reports while a call is pending arrives as an event. The polling loop of
  \<^verbatim>\<open>waitForTake\<close> ends by the clock: its model takes a bound on the number of polls, and
  \<^term>\<open>None\<close> stands for a bound that was too small.
\<close>

section \<open>Evidence\<close>

record cash_request =
  sq_operationId :: string
  sq_ownerInstanceId :: string
  sq_amount :: cash_amount
  sq_presentationPolicy :: presentation_policy

record cash_session =
  se_amount :: cash_amount
  se_before :: cash_snapshot
  se_cashSessionId :: string
  se_operationId :: string
  se_plan :: cash_plan
  se_presentationPolicy :: presentation_policy
  se_resources :: held_resources

definition evidenceRecord ::
  "cash_env \<Rightarrow> string \<Rightarrow> string \<Rightarrow> cash_phase \<Rightarrow> int \<Rightarrow> string \<Rightarrow> cash_source \<Rightarrow> cash_certainty
     \<Rightarrow> safe_code option \<Rightarrow> cash_trigger option \<Rightarrow> cash_log \<Rightarrow> cash_evidence" where
  "evidenceRecord env operationId cashSessionId phase n kind source certainty code trigger l =
     \<lparr>ev_operationId = operationId, ev_cashSessionId = cashSessionId, ev_sequence = n,
      ev_wallTime = ce_wallTime env l, ev_monotonicTime = ce_monotonicNow env l, ev_phase = phase,
      ev_kind = kind, ev_source = source, ev_certainty = certainty, ev_trigger = trigger,
      ev_safeResultCode = code\<rparr>"

definition nextEvidence ::
  "cash_env \<Rightarrow> cash_session \<Rightarrow> string \<Rightarrow> cash_source \<Rightarrow> cash_certainty \<Rightarrow> safe_code option
     \<Rightarrow> cash_trigger option \<Rightarrow> cash_evidence cash_io" where
  "nextEvidence env se kind source certainty code trigger =
     seq (change (\<lambda>s. s\<lparr>cs_sequence := cs_sequence s + 1\<rparr>)) (\<lambda>_.
     ask (\<lambda>s. evidenceRecord env (se_operationId se) (se_cashSessionId se) (cs_phase s)
       (cs_sequence s) kind source certainty code trigger (cs_log s)))"

definition recordEvidence ::
  "cash_env \<Rightarrow> cash_session \<Rightarrow> string \<Rightarrow> cash_source \<Rightarrow> cash_certainty \<Rightarrow> safe_code option
     \<Rightarrow> cash_trigger option \<Rightarrow> unit cash_io" where
  "recordEvidence env se kind source certainty code trigger =
     seq (nextEvidence env se kind source certainty code trigger) (\<lambda>e.
     port_call env (\<lambda>l. ce_append env l e) (AppendEvidence e))"

definition recordSafely ::
  "cash_env \<Rightarrow> cash_session \<Rightarrow> string \<Rightarrow> cash_source \<Rightarrow> cash_certainty \<Rightarrow> safe_code option
     \<Rightarrow> cash_trigger option \<Rightarrow> unit cash_io" where
  "recordSafely env se kind source certainty code trigger =
     seq (nextEvidence env se kind source certainty code trigger) (\<lambda>e.
     handle (port_call env (\<lambda>l. ce_append env l e) (AppendEvidence e)) (\<lambda>_.
       seq (change (\<lambda>s. s\<lparr>cs_reconciliationRequired := True\<rparr>)) (\<lambda>_.
       handle (port_call env (ce_spool env) (SpoolEvidence e)) (\<lambda>_. ret ()))))"

section \<open>Release of the protection\<close>

definition resourceGroup :: "cash_env \<Rightarrow> string" where
  "resourceGroup env = or_else (cdp_resourceGroup (ce_policy env)) (ce_logicalName env)"

definition commandLeaseTtl :: "cash_env \<Rightarrow> int" where
  "commandLeaseTtl env = or_else (cdp_commandLeaseTtlMs (ce_policy env)) (ce_timeoutMs env * 2)"

definition expectedCustodyOutcome :: "cash_custody \<Rightarrow> string option" where
  "expectedCustodyOutcome c =
     (case c of NotDispensed \<Rightarrow> Some ''notMoved'' | Retracted \<Rightarrow> Some ''retracted''
              | Taken \<Rightarrow> Some ''taken'' | CustodyUnknown \<Rightarrow> None)"

text \<open>Whether a computation ends without throwing.\<close>

definition succeeds :: "'a cash_io \<Rightarrow> 'a option cash_io" where
  "succeeds m = handle (seq m (\<lambda>x. ret (Some x))) (\<lambda>_. ret None)"

definition acknowledge :: "cash_env \<Rightarrow> held_resources \<Rightarrow> command_lease \<Rightarrow> string \<Rightarrow> bool cash_io" where
  "acknowledge env r hostLease expected =
     seq (case ce_protectionStatus env of
            None \<Rightarrow> ret None
          | Some f \<Rightarrow> seq (port_call env f (AskProtection (resourceGroup env))) (\<lambda>st. ret (Some st)))
       (\<lambda>status.
     case status of
       None \<Rightarrow> ret False
     | Some st \<Rightarrow>
         if ps_state st = ''idle'' then ret True
         else if ps_state st = ''terminal''
             \<and> ps_operationId st = Some (cl_operationId (hr_hostCommandLease r))
             \<and> ps_custodyOutcome st = Some expected then
           (case ce_acknowledgeProtection env of
              None \<Rightarrow> ret False
            | Some f \<Rightarrow>
                seq (port_call env f (AcknowledgeProtection (cl_hostEpoch hostLease)
                      (cl_operationId hostLease) (resourceGroup env))) (\<lambda>_. ret True))
         else ret False)"

definition releaseHost :: "cash_env \<Rightarrow> command_lease \<Rightarrow> command_lease cash_io" where
  "releaseHost env l =
     seq (port_call env (ce_transitionCommand env)
           (TransitionCommand l (cl_fencingToken l + 1) (commandLeaseTtl env))) (\<lambda>hostLease.
     seq (port_call env (ce_releaseCommand env) (ReleaseCommand hostLease)) (\<lambda>_. ret hostLease))"

definition acknowledgeRelease ::
  "cash_env \<Rightarrow> held_resources \<Rightarrow> cash_custody \<Rightarrow> command_lease option \<Rightarrow> bool cash_io" where
  "acknowledgeRelease env r outcome released =
     (case (released, expectedCustodyOutcome outcome) of
        (Some hostLease, Some expected) \<Rightarrow>
          seq (succeeds (acknowledge env r hostLease expected)) (\<lambda>a. ret (a = Some True))
      | _ \<Rightarrow> ret (outcome = CustodyUnknown))"

definition freeDevice :: "cash_env \<Rightarrow> bool \<Rightarrow> bool cash_io" where
  "freeDevice env required =
     seq (succeeds (port_call env (ce_releaseDevice env) ReleaseDevice)) (\<lambda>freed.
     ret (required \<or> freed = None))"

definition releaseCashProtection :: "cash_env \<Rightarrow> held_resources \<Rightarrow> cash_custody \<Rightarrow> bool cash_io" where
  "releaseCashProtection env r outcome =
     seq (succeeds (port_call env (ce_closeRecovery env) (CloseRecovery (hr_recoveryLease r) outcome)))
       (\<lambda>closed.
     seq (if closed = None then ret None else succeeds (releaseHost env (hr_hostCommandLease r)))
       (\<lambda>released.
     seq (acknowledgeRelease env r outcome released) (\<lambda>acknowledged.
     freeDevice env (closed = None \<or> released = None \<or> \<not> acknowledged))))"

section \<open>Starting\<close>

text \<open>\<^verbatim>\<open>Number.isSafeInteger\<close> bounds what an amount may be.\<close>

definition safe_integer :: "int \<Rightarrow> bool" where
  "safe_integer n \<longleftrightarrow> \<bar>n\<bar> < 2 ^ 53"

definition validateAmount :: "cash_amount \<Rightarrow> unit cash_io" where
  "validateAmount a =
     require (ca_currency a \<noteq> '''' \<and> safe_integer (ca_minorUnits a) \<and> 0 < ca_minorUnits a)
       (CashError ''cash.amount.invalid'')"

definition acquireResources :: "cash_env \<Rightarrow> cash_request \<Rightarrow> string \<Rightarrow> held_resources cash_io" where
  "acquireResources env q cashSessionId =
     seq (port_call env (ce_lockDevice env) (AcquireDevice (sq_operationId q))) (\<lambda>_.
     handle
       (seq (port_call env (ce_acquireRecovery env)
              (AcquireRecovery (sq_operationId q) cashSessionId (sq_ownerInstanceId q))) (\<lambda>recoveryLease.
        seq (port_call env (ce_hostEpoch env) AskHostEpoch) (\<lambda>hostEpoch.
        let request =
          \<lparr>cq_fencingToken = rl_fencingToken recoveryLease, cq_hostEpoch = hostEpoch,
           cq_logicalService = ce_logicalName env, cq_operationId = sq_operationId q,
           cq_ttlMs = commandLeaseTtl env, cq_resourceGroup = resourceGroup env,
           cq_ownerInstanceId = sq_ownerInstanceId q,
           cq_protectionPolicyProfileId =
             or_else (cdp_protectionPolicyProfileId (ce_policy env)) ''standard''\<rparr> in
        seq (port_call env (\<lambda>l. ce_acquireCommand env l request) (AcquireCommand request))
          (\<lambda>hostCommandLease.
        ret \<lparr>hr_recoveryLease = recoveryLease, hr_hostCommandLease = hostCommandLease\<rparr>))))
       (\<lambda>e. seq (port_call env (ce_releaseDevice env) ReleaseDevice) (\<lambda>_. raise e)))"

definition denominate :: "cash_env \<Rightarrow> cash_amount \<Rightarrow> cash_denomination cash_io" where
  "denominate env a =
     (let requested = \<lparr>dn_currencyId = ca_currency a, dn_amount = ca_minorUnits a,
                       dn_values = [], dn_cashBox = 0\<rparr> in
      seq (device_call env (\<lambda>l. ce_denominate env l requested)
            (AskDenomination requested (or_else (cdp_mixNumber (ce_policy env)) 1)
              (or_else (cdp_tellerId (ce_policy env)) 0))) (\<lambda>(e, d).
      seq (assertXfsOk e ''cdm.denominate'') (\<lambda>_. ret (or_else d requested))))"

definition planSession :: "cash_env \<Rightarrow> cash_request \<Rightarrow> string \<Rightarrow> held_resources \<Rightarrow> cash_session cash_io" where
  "planSession env q cashSessionId resources =
     seq (seq (ask (\<lambda>s. ce_id env (cs_log s)))
           (captureSnapshot env (sq_operationId q) cashSessionId BeforeBoundary)) (\<lambda>before.
     seq (ask (\<lambda>s. evidenceRecord env (sq_operationId q) cashSessionId PhPlanning 1
                ''cash.before.persisted'' FromDevice Observed None None (cs_log s))) (\<lambda>evidence.
     seq (port_call env (ce_recordBefore env) (RecordBefore evidence before)) (\<lambda>_.
     seq (denominate env (sq_amount q)) (\<lambda>denomination.
     ask (\<lambda>s.
       \<lparr>se_amount = sq_amount q, se_before = before, se_cashSessionId = cashSessionId,
        se_operationId = sq_operationId q,
        se_plan = \<lparr>pl_id = ce_id env (cs_log s), pl_operationId = sq_operationId q,
          pl_cashSessionId = cashSessionId, pl_logicalService = ce_logicalName env,
          pl_sessionGeneration = ce_sessionGeneration env, pl_cashUnitRevision = sn_revision before,
          pl_policyVersion = cdp_policyVersion (ce_policy env),
          pl_expiresAt = ce_now env (cs_log s) + or_else (cdp_planTtlMs (ce_policy env)) 30000,
          pl_denomination = denomination\<rparr>,
        se_presentationPolicy = sq_presentationPolicy q, se_resources = resources\<rparr>)))))"

definition start_cash :: "cash_env \<Rightarrow> cash_request \<Rightarrow> cash_session cash_io" where
  "start_cash env q =
     seq (validateAmount (sq_amount q)) (\<lambda>_.
     seq (port_call env (ce_hasUnresolved env) (AskUnresolved (ce_logicalName env))) (\<lambda>unresolved.
     seq (require (\<not> unresolved) (CashError ''cash.recovery.unresolved'')) (\<lambda>_.
     seq (ask (\<lambda>s. ce_id env (cs_log s))) (\<lambda>cashSessionId.
     seq (acquireResources env q cashSessionId) (\<lambda>resources.
     handle (planSession env q cashSessionId resources) (\<lambda>e.
       seq (releaseCashProtection env resources NotDispensed) (\<lambda>_. raise e)))))))"

section \<open>The session\<close>

definition requireForegroundOwnership :: "unit cash_io" where
  "requireForegroundOwnership =
     seq (ask cs_recoveryTransferred) (\<lambda>transferred.
     require (\<not> transferred) (CashError ''cash.recoveryTransfer.foregroundOwnerStale''))"

definition requirePhase :: "cash_phase \<Rightarrow> unit cash_io" where
  "requirePhase expected =
     seq (ask cs_phase) (\<lambda>phase. require (phase = expected) (CashError ''cash.session.phase''))"

definition plan_valid :: "cash_env \<Rightarrow> cash_session \<Rightarrow> cash_plan \<Rightarrow> cash_state \<Rightarrow> bool" where
  "plan_valid env se p s \<longleftrightarrow>
     \<not> cs_planConsumed s \<and> pl_id p = pl_id (se_plan se) \<and> pl_operationId p = se_operationId se \<and>
     pl_cashSessionId p = se_cashSessionId se \<and> pl_logicalService p = ce_logicalName env \<and>
     pl_sessionGeneration p = ce_sessionGeneration env \<and>
     pl_cashUnitRevision p = sn_revision (se_before se) \<and>
     pl_policyVersion p = cdp_policyVersion (ce_policy env) \<and> ce_now env (cs_log s) < pl_expiresAt p"

definition validatePlan :: "cash_env \<Rightarrow> cash_session \<Rightarrow> cash_plan \<Rightarrow> unit cash_io" where
  "validatePlan env se p =
     seq (ask (plan_valid env se p)) (\<lambda>valid. require valid (CashError ''cash.dispensePlan.invalid''))"

definition authorization_valid ::
  "cash_env \<Rightarrow> cash_session \<Rightarrow> presentation_authorization \<Rightarrow> cash_state \<Rightarrow> bool" where
  "authorization_valid env se a s \<longleftrightarrow>
     pa_id a \<notin> set (cs_consumedAuthorizations s) \<and> pa_operationId a = se_operationId se \<and>
     pa_cashSessionId a = se_cashSessionId se \<and> pa_policyId a = pp_id (se_presentationPolicy se) \<and>
     pa_policyVersion a = pp_version (se_presentationPolicy se) \<and>
     ce_now env (cs_log s) < pa_expiresAt a \<and>
     (\<forall>g \<in> set (pp_requiredGates (se_presentationPolicy se)). g \<in> set (pa_satisfiedGates a))"

definition validateAuthorization ::
  "cash_env \<Rightarrow> cash_session \<Rightarrow> presentation_authorization \<Rightarrow> unit cash_io" where
  "validateAuthorization env se a =
     seq (ask (authorization_valid env se a)) (\<lambda>valid.
     require valid (CashError ''cash.presentationAuthorization.invalid''))"

definition updateRecovery :: "cash_env \<Rightarrow> cash_session \<Rightarrow> unit cash_io" where
  "updateRecovery env se =
     seq (ask (\<lambda>s. (cs_phase s, cs_sequence s))) (\<lambda>(phase, n).
     port_call env (ce_updateRecovery env)
       (UpdateRecovery (hr_recoveryLease (se_resources se)) phase n))"

definition startTakeObservation :: "cash_env \<Rightarrow> unit cash_io" where
  "startTakeObservation env =
     seq (ask cs_subscribed) (\<lambda>subscribed.
     case ce_subscribe env of
       None \<Rightarrow> ret ()
     | Some f \<Rightarrow>
         if subscribed then ret ()
         else
           handle
             (seq (port_call env f SubscribeEvents) (\<lambda>_. change (\<lambda>s. s\<lparr>cs_subscribed := True\<rparr>)))
             (\<lambda>_. ret ()))"

definition stopTakeObservation :: "cash_env \<Rightarrow> unit cash_io" where
  "stopTakeObservation env =
     seq (ask cs_subscribed) (\<lambda>subscribed.
     seq (if subscribed then port_call env (ce_unsubscribe env) UnsubscribeEvents else ret ()) (\<lambda>_.
     change (\<lambda>s. s\<lparr>cs_subscribed := False\<rparr>)))"

definition snapshotFailed :: "cash_env \<Rightarrow> cash_session \<Rightarrow> unit cash_io" where
  "snapshotFailed env se =
     seq (change (\<lambda>s. s\<lparr>cs_reconciliationRequired := True\<rparr>)) (\<lambda>_.
     recordSafely env se ''cash.afterSnapshot.failed'' FromDevice CertaintyUnknown None None)"

definition custody_code :: "cash_custody \<Rightarrow> string" where
  "custody_code c =
     (case c of Taken \<Rightarrow> ''taken'' | Retracted \<Rightarrow> ''retracted'' | NotDispensed \<Rightarrow> ''notDispensed''
              | CustodyUnknown \<Rightarrow> ''custodyUnknown'')"

definition captureAfter :: "cash_env \<Rightarrow> cash_session \<Rightarrow> cash_snapshot option cash_io" where
  "captureAfter env se =
     seq (succeeds (seq (ask (\<lambda>s. ce_id env (cs_log s)))
           (captureSnapshot env (se_operationId se) (se_cashSessionId se) AfterBoundary))) (\<lambda>after.
     seq (case after of
            None \<Rightarrow> snapshotFailed env se
          | Some a \<Rightarrow>
              handle (port_call env (ce_recordAfter env) (RecordAfter a)) (\<lambda>_. snapshotFailed env se))
       (\<lambda>_. ret after))"

definition close_session ::
  "cash_env \<Rightarrow> cash_session \<Rightarrow> cash_custody \<Rightarrow> cash_snapshot option \<Rightarrow> cash_terminal cash_io" where
  "close_session env se outcome after =
     seq (change (\<lambda>s. s\<lparr>cs_phase := PhTerminal\<rparr>)) (\<lambda>_.
     seq (recordSafely env se ''cash.custody.terminal'' FromDevice Observed
           (Some (CodeText (custody_code outcome))) None) (\<lambda>_.
     seq (releaseCashProtection env (se_resources se) outcome) (\<lambda>required.
     seq (change (\<lambda>s. s\<lparr>cs_reconciliationRequired := cs_reconciliationRequired s \<or> required\<rparr>)) (\<lambda>_.
     seq (ask (\<lambda>s. \<lparr>ct_outcome = outcome, ct_reconciliationRequired = cs_reconciliationRequired s,
                     ct_after = after\<rparr>)) (\<lambda>t.
     seq (change (\<lambda>s. s\<lparr>cs_terminal := Some t\<rparr>)) (\<lambda>_. ret t))))))"

definition finish_cash :: "cash_env \<Rightarrow> cash_session \<Rightarrow> cash_custody \<Rightarrow> cash_terminal cash_io" where
  "finish_cash env se outcome =
     seq (ask cs_terminal) (\<lambda>terminal.
     case terminal of
       Some t \<Rightarrow> ret t
     | None \<Rightarrow>
         seq (stopTakeObservation env) (\<lambda>_.
         seq (captureAfter env se) (close_session env se outcome)))"

definition retract_command :: "cash_env \<Rightarrow> cash_session \<Rightarrow> cash_custody cash_io" where
  "retract_command env se =
     handle
       (seq (device_call env (ce_retract env)
              (RetractNotes (or_else (cdp_retractIndex (ce_policy env)) 0) (output_position env)
                (or_else (cdp_retractArea (ce_policy env)) 1))) (\<lambda>e.
        seq (assertXfsOk e ''cdm.retract'') (\<lambda>_.
        seq (recordSafely env se ''cash.retract.completed'' FromDevice DeviceReported
               (Some (CodeNumber (hResultOf e))) None) (\<lambda>_. ret Retracted))))
       (\<lambda>_.
        seq (change (\<lambda>s. s\<lparr>cs_reconciliationRequired := True\<rparr>)) (\<lambda>_.
        seq (recordSafely env se ''cash.retract.executionUnknown'' FromDevice CertaintyUnknown
               None None) (\<lambda>_. ret CustodyUnknown)))"

definition retract_cash :: "cash_env \<Rightarrow> cash_session \<Rightarrow> cash_trigger \<Rightarrow> cash_terminal cash_io" where
  "retract_cash env se trigger =
     seq (ask cs_retractDispatched) (\<lambda>dispatched.
     if dispatched then finish_cash env se CustodyUnknown
     else
       seq (change (\<lambda>s. s\<lparr>cs_retractDispatched := True, cs_phase := PhRetracting\<rparr>)) (\<lambda>_.
       seq (recordSafely env se ''cash.retract.intent'' FromFlow Observed None (Some trigger)) (\<lambda>_.
       seq (retract_command env se) (finish_cash env se))))"

definition dispense_failed :: "cash_env \<Rightarrow> cash_session \<Rightarrow> cash_error \<Rightarrow> unit cash_io" where
  "dispense_failed env se e =
     seq (change (\<lambda>s. s\<lparr>cs_phase := PhReconciling\<rparr>)) (\<lambda>_.
     seq (case hResultFromXfsCommandFailure e of
            Some h \<Rightarrow>
              seq (change (\<lambda>s. s\<lparr>cs_movementPossible := False\<rparr>)) (\<lambda>_.
              recordSafely env se ''cash.dispense.failed'' FromDevice DeviceReported
                (Some (CodeNumber h)) None)
          | None \<Rightarrow>
              seq (change (\<lambda>s. s\<lparr>cs_reconciliationRequired := True\<rparr>)) (\<lambda>_.
              recordSafely env se ''cash.dispense.executionUnknown'' FromDevice CertaintyUnknown
                None None))
       (\<lambda>_. raise e))"

definition dispense_command :: "cash_env \<Rightarrow> cash_session \<Rightarrow> cash_plan \<Rightarrow> unit cash_io" where
  "dispense_command env se p =
     seq (device_call env (\<lambda>l. ce_dispense env l (pl_denomination p))
           (DispenseNotes (pl_denomination p) (or_else (cdp_mixNumber (ce_policy env)) 1)
             (output_position env) (or_else (cdp_tellerId (ce_policy env)) 0))) (\<lambda>e.
     seq (assertXfsOk e ''cdm.dispense'') (\<lambda>_.
     seq (change (\<lambda>s. s\<lparr>cs_phase := PhStaged\<rparr>)) (\<lambda>_.
     seq (recordSafely env se ''cash.dispense.completed'' FromDevice DeviceReported
            (Some (CodeNumber (hResultOf e))) None) (\<lambda>_.
     updateRecovery env se))))"

definition dispense_cash :: "cash_env \<Rightarrow> cash_session \<Rightarrow> cash_plan \<Rightarrow> unit cash_io" where
  "dispense_cash env se p =
     seq requireForegroundOwnership (\<lambda>_.
     seq (requirePhase PhPlanned) (\<lambda>_.
     seq (validatePlan env se p) (\<lambda>_.
     seq (change (\<lambda>s. s\<lparr>cs_planConsumed := True, cs_phase := PhDispensing\<rparr>)) (\<lambda>_.
     seq (recordEvidence env se ''cash.dispense.intent'' FromFlow Observed None None) (\<lambda>_.
     seq (change (\<lambda>s. s\<lparr>cs_movementPossible := True\<rparr>)) (\<lambda>_.
     handle (dispense_command env se p) (dispense_failed env se)))))))"

definition present_command :: "cash_env \<Rightarrow> cash_session \<Rightarrow> unit cash_io" where
  "present_command env se =
     seq (device_call env (ce_present env) (PresentNotes (output_position env))) (\<lambda>e.
     seq (assertXfsOk e ''cdm.present'') (\<lambda>_.
     seq (change (\<lambda>s. s\<lparr>cs_phase := PhAwaitingTake\<rparr>)) (\<lambda>_.
     seq (recordSafely env se ''cash.present.completed'' FromDevice DeviceReported
            (Some (CodeNumber (hResultOf e))) None) (\<lambda>_.
     updateRecovery env se))))"

definition present_failed :: "cash_env \<Rightarrow> cash_session \<Rightarrow> cash_error \<Rightarrow> unit cash_io" where
  "present_failed env se e =
     seq (stopTakeObservation env) (\<lambda>_.
     seq (change (\<lambda>s. s\<lparr>cs_phase := PhReconciling, cs_reconciliationRequired := True\<rparr>)) (\<lambda>_.
     seq (recordSafely env se ''cash.present.executionUnknown'' FromDevice CertaintyUnknown None None)
       (\<lambda>_. raise e)))"

definition present_cash ::
  "cash_env \<Rightarrow> cash_session \<Rightarrow> presentation_authorization \<Rightarrow> unit cash_io" where
  "present_cash env se a =
     seq requireForegroundOwnership (\<lambda>_.
     seq (requirePhase PhStaged) (\<lambda>_.
     seq (validateAuthorization env se a) (\<lambda>_.
     seq (change (\<lambda>s. s\<lparr>cs_consumedAuthorizations := cs_consumedAuthorizations s @ [pa_id a],
                       cs_phase := PhPresenting\<rparr>)) (\<lambda>_.
     seq (recordSafely env se ''cash.present.intent'' FromPolicy Observed None None) (\<lambda>_.
     seq (startTakeObservation env) (\<lambda>_.
     handle (present_command env se) (present_failed env se)))))))"

definition confirmTake :: "cash_env \<Rightarrow> cash_session \<Rightarrow> safe_code \<Rightarrow> cash_terminal cash_io" where
  "confirmTake env se code =
     seq (recordSafely env se ''cash.take.confirmed'' FromDevice Observed (Some code) None)
       (\<lambda>_. finish_cash env se Taken)"

text \<open>The status of the output position, if the dispenser reports it; \<^verbatim>\<open>WFS_CDM_PSEMPTY\<close> is 0.\<close>

definition output_status :: "cash_env \<Rightarrow> cdm_status \<Rightarrow> int option" where
  "output_status env st =
     map_option snd (find (\<lambda>(position, _). position = output_position env) (or_else (st_positions st) []))"

fun wait_loop :: "cash_env \<Rightarrow> cash_session \<Rightarrow> int \<Rightarrow> nat \<Rightarrow> cash_terminal option cash_io" where
  "wait_loop env se deadline 0 = ret None"
| "wait_loop env se deadline (Suc n) =
     seq (ask (\<lambda>s. (ce_now env (cs_log s), cs_takeEventObserved s))) (\<lambda>(now, taken).
     if deadline \<le> now then
       seq (recordSafely env se ''cash.take.timeout'' FromFlow Observed None (Some CashTimeout)) (\<lambda>_.
       seq (retract_cash env se CashTimeout) (\<lambda>t. ret (Some t)))
     else if taken then
       seq (confirmTake env se (CodeText ''itemsTakenEvent'')) (\<lambda>t. ret (Some t))
     else
       seq (readWithRetry (device_call env (ce_status env) ReadStatus) 2) (\<lambda>status.
       seq (assertXfsOk (st_envelope status) ''cdm.getStatus'') (\<lambda>_.
       if output_status env status = Some 0 then
         seq (confirmTake env se (CodeNumber 0)) (\<lambda>t. ret (Some t))
       else
         seq (port_call env (\<lambda>_. Inr ())
               (\<lambda>_. PollDelay (or_else (cdp_statusPollMs (ce_policy env)) 100)))
           (\<lambda>_. wait_loop env se deadline n))))"

definition waitForTake :: "cash_env \<Rightarrow> cash_session \<Rightarrow> nat \<Rightarrow> cash_terminal option cash_io" where
  "waitForTake env se polls =
     seq requireForegroundOwnership (\<lambda>_.
     seq (requirePhase PhAwaitingTake) (\<lambda>_.
     seq (ask (\<lambda>s. ce_now env (cs_log s) + pp_takeTimeoutMs (se_presentationPolicy se))) (\<lambda>deadline.
     wait_loop env se deadline polls)))"

definition abort_cash :: "cash_env \<Rightarrow> cash_session \<Rightarrow> cash_trigger \<Rightarrow> cash_terminal cash_io" where
  "abort_cash env se trigger =
     seq requireForegroundOwnership (\<lambda>_.
     seq (ask (\<lambda>s. (cs_terminal s, cs_movementPossible s))) (\<lambda>(terminal, moved).
     case terminal of
       Some t \<Rightarrow> ret t
     | None \<Rightarrow>
         if moved then
           seq (recordSafely env se ''cash.abort.requested'' FromFlow Observed None (Some trigger))
             (\<lambda>_. retract_cash env se trigger)
         else
           seq (recordEvidence env se ''cash.abort.requested'' FromFlow Observed None (Some trigger))
             (\<lambda>_. finish_cash env se NotDispensed)))"

definition exit_cash :: "cash_env \<Rightarrow> cash_session \<Rightarrow> cash_trigger \<Rightarrow> cash_exit cash_io" where
  "exit_cash env se trigger =
     seq requireForegroundOwnership (\<lambda>_.
     seq (ask (\<lambda>s. (cs_terminal s, cs_movementPossible s))) (\<lambda>(terminal, moved).
     case terminal of
       Some t \<Rightarrow> ret (ExitTerminal t)
     | None \<Rightarrow>
         if \<not> moved then seq (abort_cash env se trigger) (\<lambda>t. ret (ExitTerminal t))
         else
           (case ce_transfer env of
              None \<Rightarrow> raise (CashError ''cash.recoveryTransfer.unavailable'')
            | Some f \<Rightarrow>
                seq (recordSafely env se ''cash.abort.requested'' FromFlow Observed None (Some trigger)) (\<lambda>_.
                seq (updateRecovery env se) (\<lambda>_.
                seq (ask (\<lambda>s. (cs_phase s, cs_sequence s))) (\<lambda>(phase, n).
                seq (port_call env f (TransferRecovery phase n trigger)) (\<lambda>receipt.
                seq (change (\<lambda>s. s\<lparr>cs_recoveryTransferred := True\<rparr>)) (\<lambda>_.
                ret (ExitTransferred receipt)))))))))"

section \<open>A session in use\<close>

datatype cash_method =
    CallDispense cash_plan
  | CallPresent presentation_authorization
  | CallWaitForTake nat
  | CallAbort cash_trigger
  | CallExit cash_trigger

definition cash_method :: "cash_env \<Rightarrow> cash_session \<Rightarrow> cash_method \<Rightarrow> cash_exit option cash_io" where
  "cash_method env se m =
     (case m of
        CallDispense p \<Rightarrow> seq (dispense_cash env se p) (\<lambda>_. ret None)
      | CallPresent a \<Rightarrow> seq (present_cash env se a) (\<lambda>_. ret None)
      | CallWaitForTake n \<Rightarrow> seq (waitForTake env se n) (\<lambda>t. ret (map_option ExitTerminal t))
      | CallAbort t \<Rightarrow> seq (abort_cash env se t) (\<lambda>t. ret (Some (ExitTerminal t)))
      | CallExit t \<Rightarrow> seq (exit_cash env se t) (\<lambda>x. ret (Some x)))"

inductive cash_reachable :: "cash_env \<Rightarrow> cash_request \<Rightarrow> cash_session \<Rightarrow> cash_state \<Rightarrow> bool"
  for env q where
  started: "start_cash env q new_cash_state = (Inr se, s) \<Longrightarrow> cash_reachable env q se s"
| called: "cash_reachable env q se s \<Longrightarrow> cash_reachable env q se (snd (cash_method env se m s))"

section \<open>Evaluation\<close>

text \<open>For evaluation a computation is unfolded only where it is applied to a state.\<close>

definition answer_call :: "cash_env \<Rightarrow> ('r \<Rightarrow> cash_call) \<Rightarrow> cash_state \<Rightarrow> 'x \<Rightarrow> 'r \<Rightarrow> 'x \<times> cash_state" where
  "answer_call env c s x r = (x, after_call env (c r) s)"

definition answer_port ::
  "cash_env \<Rightarrow> (string + 'a \<Rightarrow> cash_call) \<Rightarrow> cash_state \<Rightarrow> string + 'a \<Rightarrow> (cash_error + 'a) \<times> cash_state" where
  "answer_port env c s r = answer_call env c s (map_sum PortError (\<lambda>x. x) r) r"

definition answer_device ::
  "cash_env \<Rightarrow> (cash_error + 'a \<Rightarrow> cash_call) \<Rightarrow> cash_state \<Rightarrow> cash_error + 'a \<Rightarrow> (cash_error + 'a) \<times> cash_state" where
  "answer_device env c s r = answer_call env c s r r"

lemma call_code [code]:
  "port_call env f c s = answer_port env c s (f (cs_log s))"
  "device_call env g d s = answer_device env d s (g (cs_log s))"
  by (simp_all add: port_call_def device_call_def answer_port_def answer_device_def answer_call_def Let_def)

lemmas cash_code [code] =
  assertXfsOk_def [THEN fun_cong]
  captureSnapshot_def [THEN fun_cong]
  nextEvidence_def [THEN fun_cong]
  recordEvidence_def [THEN fun_cong]
  recordSafely_def [THEN fun_cong]
  succeeds_def [THEN fun_cong]
  acknowledge_def [THEN fun_cong]
  releaseHost_def [THEN fun_cong]
  acknowledgeRelease_def [THEN fun_cong]
  freeDevice_def [THEN fun_cong]
  releaseCashProtection_def [THEN fun_cong]
  validateAmount_def [THEN fun_cong]
  acquireResources_def [THEN fun_cong]
  denominate_def [THEN fun_cong]
  planSession_def [THEN fun_cong]
  start_cash_def [THEN fun_cong]
  requireForegroundOwnership_def [THEN fun_cong]
  requirePhase_def [THEN fun_cong]
  validatePlan_def [THEN fun_cong]
  validateAuthorization_def [THEN fun_cong]
  updateRecovery_def [THEN fun_cong]
  startTakeObservation_def [THEN fun_cong]
  stopTakeObservation_def [THEN fun_cong]
  snapshotFailed_def [THEN fun_cong]
  captureAfter_def [THEN fun_cong]
  close_session_def [THEN fun_cong]
  finish_cash_def [THEN fun_cong]
  retract_command_def [THEN fun_cong]
  retract_cash_def [THEN fun_cong]
  dispense_failed_def [THEN fun_cong]
  dispense_command_def [THEN fun_cong]
  dispense_cash_def [THEN fun_cong]
  present_command_def [THEN fun_cong]
  present_failed_def [THEN fun_cong]
  present_cash_def [THEN fun_cong]
  confirmTake_def [THEN fun_cong]
  waitForTake_def [THEN fun_cong]
  abort_cash_def [THEN fun_cong]
  exit_cash_def [THEN fun_cong]
  cash_method_def [THEN fun_cong]
  readWithRetry.simps [THEN fun_cong] wait_loop.simps [THEN fun_cong]

end
