(* ===== verification/Cash_Laws.thy ===== *)
theory Cash_Laws
  imports Cash_Delivery
begin

text \<open>
  The rules a cash session keeps, whatever its ports answer and whichever methods are called:
  which commands may follow what, stated over the log, and the invariant that ties the
  session's fields to the log.
\<close>

section \<open>What the log says\<close>

fun is_dispense :: "cash_call \<Rightarrow> bool" where
  "is_dispense (DispenseNotes _ _ _ _ _) = True" | "is_dispense _ = False"

fun is_present :: "cash_call \<Rightarrow> bool" where
  "is_present (PresentNotes _ _) = True" | "is_present _ = False"

fun is_retract :: "cash_call \<Rightarrow> bool" where
  "is_retract (RetractNotes _ _ _ _) = True" | "is_retract _ = False"

fun is_close :: "cash_call \<Rightarrow> bool" where
  "is_close (CloseRecovery _ _ _) = True" | "is_close _ = False"

fun is_freeing :: "cash_call \<Rightarrow> bool" where
  "is_freeing (ReleaseDevice _) = True" | "is_freeing _ = False"

fun hands_over :: "cash_call \<Rightarrow> bool" where
  "hands_over (TransferRecovery _ _ _ (Inr _)) = True" | "hands_over _ = False"

text \<open>A command succeeded if its result says so; the device refused it if it reported a failure.\<close>

fun done_well :: "cash_error + xfs_envelope \<Rightarrow> bool" where
  "done_well (Inr e) \<longleftrightarrow> hResultOf e = 0" | "done_well (Inl _) \<longleftrightarrow> False"

fun device_refused :: "cash_error + xfs_envelope \<Rightarrow> bool" where
  "device_refused (Inr e) \<longleftrightarrow> hResultOf e \<noteq> 0"
| "device_refused (Inl e) \<longleftrightarrow> hResultFromXfsCommandFailure e \<noteq> None"

fun dispensed_ok :: "cash_call \<Rightarrow> bool" where
  "dispensed_ok (DispenseNotes _ _ _ _ r) = done_well r" | "dispensed_ok _ = False"

fun may_have_moved :: "cash_call \<Rightarrow> bool" where
  "may_have_moved (DispenseNotes _ _ _ _ r) \<longleftrightarrow> \<not> device_refused r" | "may_have_moved _ \<longleftrightarrow> False"

fun presented_ok :: "cash_call \<Rightarrow> bool" where
  "presented_ok (PresentNotes _ r) = done_well r" | "presented_ok _ = False"

fun retracted_ok :: "cash_call \<Rightarrow> bool" where
  "retracted_ok (RetractNotes _ _ _ r) = done_well r" | "retracted_ok _ = False"

fun intent_stored :: "cash_call \<Rightarrow> bool" where
  "intent_stored (AppendEvidence e (Inr _)) \<longleftrightarrow> ev_kind e = ''cash.dispense.intent''"
| "intent_stored _ \<longleftrightarrow> False"

fun before_stored :: "cash_call \<Rightarrow> bool" where
  "before_stored (RecordBefore _ _ (Inr _)) = True" | "before_stored _ = False"

fun taken_report :: "cash_env \<Rightarrow> cash_call \<Rightarrow> bool" where
  "taken_report env (DeviceEvent e) \<longleftrightarrow> items_taken env e"
| "taken_report env (ReadStatus (Inr st)) \<longleftrightarrow> output_status env st = Some 0"
| "taken_report env _ \<longleftrightarrow> False"

text \<open>Items were reported taken after a presentation was commanded.\<close>

fun taken_seen :: "cash_env \<Rightarrow> cash_log \<Rightarrow> bool" where
  "taken_seen env [] = False"
| "taken_seen env (c # l) \<longleftrightarrow> taken_seen env l \<or> is_present c \<and> has (taken_report env) l"

lemma taken_seen_append:
  "taken_seen env (l @ k) \<longleftrightarrow>
     taken_seen env l \<or> taken_seen env k \<or> has is_present l \<and> has (taken_report env) k"
  by (induction l) auto

lemma taken_seen_iff:
  "taken_seen env l \<longleftrightarrow> (\<exists>i c k. l = i @ c # k \<and> is_present c \<and> has (taken_report env) k)"
proof
  assume "taken_seen env l"
  then show "\<exists>i c k. l = i @ c # k \<and> is_present c \<and> has (taken_report env) k"
  proof (induction l)
    case (Cons c l)
    show ?case
    proof (cases "taken_seen env l")
      case True
      with Cons.IH obtain i d k where "l = i @ d # k" "is_present d" "has (taken_report env) k" by blast
      then show ?thesis by (intro exI [of _ "c # i"]) auto
    next
      case False
      with Cons.prems show ?thesis by (intro exI [of _ "[]"]) auto
    qed
  qed simp
qed (auto simp: taken_seen_append)

text \<open>What may follow what.\<close>

definition released :: "cash_log \<Rightarrow> bool" where
  "released l \<longleftrightarrow> has is_close l \<or> has is_freeing l \<or> has hands_over l"

definition cash_law :: "cash_log \<Rightarrow> cash_call \<Rightarrow> bool" where
  "cash_law l c \<longleftrightarrow>
     (is_dispense c \<longrightarrow> \<not> has is_dispense l \<and> \<not> has is_present l \<and> \<not> has is_retract l \<and>
        has before_stored l \<and> has intent_stored l \<and> \<not> released l) \<and>
     (is_present c \<longrightarrow> has dispensed_ok l \<and> \<not> has is_present l \<and> \<not> has is_retract l \<and> \<not> released l) \<and>
     (is_retract c \<longrightarrow> has is_dispense l \<and> \<not> has is_retract l \<and> \<not> released l) \<and>
     (is_close c \<longrightarrow> \<not> released l) \<and>
     (is_freeing c \<longrightarrow> \<not> has is_freeing l \<and> \<not> has hands_over l)"

abbreviation lawful :: "cash_log \<Rightarrow> bool" where
  "lawful \<equiv> lawful_from cash_law []"

lemma lawful_append [simp]: "lawful (l @ k) \<longleftrightarrow> lawful l \<and> lawful_from cash_law l k"
  by (simp add: lawful_from_append)

section \<open>Quiet steps\<close>

text \<open>A call that moves nothing and releases nothing.\<close>

definition loud :: "cash_call \<Rightarrow> bool" where
  "loud c \<longleftrightarrow> is_dispense c \<or> is_present c \<or> is_retract c \<or> is_close c \<or> is_freeing c \<or> hands_over c"

lemma quiet_entries:
  assumes "\<not> loud c"
  shows "\<not> is_dispense c" "\<not> is_present c" "\<not> is_retract c" "\<not> is_close c" "\<not> is_freeing c"
    "\<not> hands_over c" "\<not> dispensed_ok c" "\<not> may_have_moved c" "\<not> presented_ok c" "\<not> retracted_ok c"
  using assms by (cases c; simp add: loud_def)+

lemma quiet_list:
  assumes "\<not> has loud k"
  shows "\<not> has is_dispense k" "\<not> has is_present k" "\<not> has is_retract k" "\<not> has is_close k"
    "\<not> has is_freeing k" "\<not> has hands_over k" "\<not> has dispensed_ok k" "\<not> has may_have_moved k"
    "\<not> has presented_ok k" "\<not> has retracted_ok k"
  using assms quiet_entries unfolding has_set by blast+

lemma quiet_lawful: "\<not> has loud k \<Longrightarrow> lawful_from cash_law l k"
  by (induction k arbitrary: l) (auto simp: cash_law_def loud_def)

definition quiet_step :: "cash_env \<Rightarrow> cash_state \<Rightarrow> cash_state \<Rightarrow> bool" where
  "quiet_step env s t \<longleftrightarrow>
     (\<exists>k. cs_log t = cs_log s @ k \<and> \<not> has loud k \<and>
        (cs_takeEventObserved t \<longrightarrow>
           cs_takeEventObserved s \<or> cs_subscribed s \<and> has (taken_report env) k)) \<and>
     cs_subscribed t = cs_subscribed s \<and> cs_phase t = cs_phase s \<and>
     cs_planConsumed t = cs_planConsumed s \<and> cs_movementPossible t = cs_movementPossible s \<and>
     cs_retractDispatched t = cs_retractDispatched s \<and>
     cs_recoveryTransferred t = cs_recoveryTransferred s \<and> cs_terminal t = cs_terminal s \<and>
     cs_consumedAuthorizations t = cs_consumedAuthorizations s \<and>
     (cs_reconciliationRequired s \<longrightarrow> cs_reconciliationRequired t)"

lemma quiet_refl [simp]: "quiet_step env s s"
  unfolding quiet_step_def by (intro conjI exI [of _ "[]"]) auto

lemma quiet_trans:
  assumes "quiet_step env s t" and "quiet_step env t u" shows "quiet_step env s u"
proof -
  from assms(1) obtain k where k: "cs_log t = cs_log s @ k" "\<not> has loud k"
    "cs_takeEventObserved t \<Longrightarrow> cs_takeEventObserved s \<or> cs_subscribed s \<and> has (taken_report env) k"
    unfolding quiet_step_def by blast
  from assms(2) obtain m where m: "cs_log u = cs_log t @ m" "\<not> has loud m"
    "cs_takeEventObserved u \<Longrightarrow> cs_takeEventObserved t \<or> cs_subscribed t \<and> has (taken_report env) m"
    unfolding quiet_step_def by blast
  have "cs_subscribed t = cs_subscribed s" using assms(1) by (simp add: quiet_step_def)
  then have "cs_log u = cs_log s @ (k @ m) \<and> \<not> has loud (k @ m) \<and>
    (cs_takeEventObserved u \<longrightarrow> cs_takeEventObserved s \<or> cs_subscribed s \<and> has (taken_report env) (k @ m))"
    using k m by auto
  then show ?thesis using assms unfolding quiet_step_def by auto
qed

lemma quiet_events: "\<not> has loud (map DeviceEvent es)"
  by (induction es) (auto simp: loud_def)

lemma events_taken: "has (taken_report env) (map DeviceEvent es) = list_ex (items_taken env) es"
  by (induction es) auto

lemma after_call_fields [simp]:
  "cs_log (after_call env c s) = cs_log s @ c # map DeviceEvent (ce_events env (cs_log s @ [c]))"
  "cs_subscribed (after_call env c s) = cs_subscribed s"
  "cs_phase (after_call env c s) = cs_phase s"
  "cs_sequence (after_call env c s) = cs_sequence s"
  "cs_planConsumed (after_call env c s) = cs_planConsumed s"
  "cs_movementPossible (after_call env c s) = cs_movementPossible s"
  "cs_retractDispatched (after_call env c s) = cs_retractDispatched s"
  "cs_reconciliationRequired (after_call env c s) = cs_reconciliationRequired s"
  "cs_recoveryTransferred (after_call env c s) = cs_recoveryTransferred s"
  "cs_terminal (after_call env c s) = cs_terminal s"
  "cs_consumedAuthorizations (after_call env c s) = cs_consumedAuthorizations s"
  "cs_takeEventObserved (after_call env c s) \<longleftrightarrow> cs_takeEventObserved s \<or>
     cs_subscribed s \<and> list_ex (items_taken env) (ce_events env (cs_log s @ [c]))"
  by (simp_all add: after_call_def observe_def Let_def)

lemma quiet_after_call: "\<not> loud c \<Longrightarrow> quiet_step env s (after_call env c s)"
  using quiet_events [of "ce_events env (cs_log s @ [c])"]
  by (auto simp: quiet_step_def events_taken)

lemma wp_device_call [wp_simps]:
  "wp (device_call env f c) Q R s =
     (case f (cs_log s) of Inr x \<Rightarrow> Q x (after_call env (c (Inr x)) s)
                         | Inl e \<Rightarrow> R e (after_call env (c (Inl e)) s))"
  by (simp add: wp_def device_call_def Let_def split: sum.splits)

lemma wp_port_call [wp_simps]:
  "wp (port_call env f c) Q R s =
     (case f (cs_log s) of Inr x \<Rightarrow> Q x (after_call env (c (Inr x)) s)
                         | Inl e \<Rightarrow> R (PortError e) (after_call env (c (Inl e)) s))"
  by (simp add: wp_def port_call_def Let_def split: sum.splits)

interpretation quiet: state_frame "quiet_step env" for env
  by unfold_locales (rule quiet_refl, rule quiet_trans)

abbreviation stays_quiet :: "cash_env \<Rightarrow> 'a cash_io \<Rightarrow> bool" where
  "stays_quiet env \<equiv> stays (quiet_step env)"

named_theorems quiet_rules \<open>computations whose steps are all quiet\<close>

lemmas [quiet_rules] = quiet.stays_rules

lemmas stays_quiet_wp = quiet.stays_wp
lemmas stays_quiet_iff = quiet.stays_iff

lemma quiet_port [quiet_rules]: "(\<And>r. \<not> loud (c r)) \<Longrightarrow> stays_quiet env (port_call env f c)"
  and quiet_device [quiet_rules]: "(\<And>r. \<not> loud (d r)) \<Longrightarrow> stays_quiet env (device_call env g d)"
  by (simp_all add: stays_quiet_iff wp_simps quiet_after_call split: sum.splits)

lemma quiet_sequence [quiet_rules]: "stays_quiet env (change (\<lambda>s. s\<lparr>cs_sequence := cs_sequence s + 1\<rparr>))"
  and quiet_reconciliation [quiet_rules]:
    "stays_quiet env (change (\<lambda>s. s\<lparr>cs_reconciliationRequired := True\<rparr>))"
  by (simp_all add: stays_quiet_iff wp_simps quiet_step_def)

lemma quiet_retry [quiet_rules]: "stays_quiet env m \<Longrightarrow> stays_quiet env (readWithRetry m n)"
  by (induction m n rule: readWithRetry.induct) (auto intro: quiet_rules)

lemma quiet_recordEvidence [quiet_rules]: "stays_quiet env (recordEvidence env se k src c code tr)"
  and quiet_recordSafely [quiet_rules]: "stays_quiet env (recordSafely env se k src c code tr)"
  unfolding recordEvidence_def recordSafely_def nextEvidence_def
  by (auto intro!: quiet_rules simp: loud_def)

lemma quiet_snapshot [quiet_rules]: "stays_quiet env (captureSnapshot env q i b n)"
  unfolding captureSnapshot_def assertXfsOk_def
  by (auto intro!: quiet_rules simp: loud_def split: prod.splits)

lemma quiet_updateRecovery [quiet_rules]: "stays_quiet env (updateRecovery env se)"
  unfolding updateRecovery_def by (auto intro!: quiet_rules simp: loud_def split: prod.splits)

lemma quiet_succeeds [quiet_rules]: "stays_quiet env m \<Longrightarrow> stays_quiet env (succeeds m)"
  unfolding succeeds_def by (intro quiet_rules)

lemma quiet_captureAfter [quiet_rules]: "stays_quiet env (captureAfter env se)"
  unfolding captureAfter_def snapshotFailed_def
  by (auto intro!: quiet_rules simp: loud_def split: option.splits)

lemma recordSafely_succeeds:
  "wp (recordSafely env se k src c code tr) Q R s \<longleftrightarrow> wp (recordSafely env se k src c code tr) Q R' s"
  by (simp add: recordSafely_def nextEvidence_def wp_simps split: sum.splits)

lemma wp_recordSafely:
  "(\<And>t. quiet_step env s t \<Longrightarrow> Q () t) \<Longrightarrow> wp (recordSafely env se k src c code tr) Q R s"
  using stays_quiet_wp [OF quiet_recordSafely, of env s Q "\<lambda>_ _. True"] recordSafely_succeeds by fastforce

end
