(* ===== verification/Cash_Invariant.thy ===== *)
theory Cash_Invariant
  imports Cash_Laws
begin

text \<open>
  The invariant of a cash session and its preservation by every method, whatever the ports
  answer and wherever they throw.
\<close>

section \<open>The invariant\<close>

fun earned :: "cash_env \<Rightarrow> cash_custody \<Rightarrow> cash_log \<Rightarrow> bool" where
  "earned env Taken l = taken_seen env l"
| "earned env Retracted l = has retracted_ok l"
| "earned env NotDispensed l = (\<not> has may_have_moved l)"
| "earned env CustodyUnknown l = True"

fun closed_as :: "cash_custody \<Rightarrow> cash_call \<Rightarrow> bool" where
  "closed_as outcome (CloseRecovery _ c (Inr _)) \<longleftrightarrow> c = outcome" | "closed_as outcome _ \<longleftrightarrow> False"

fun host_released :: "cash_call \<Rightarrow> bool" where
  "host_released (ReleaseCommand _ (Inr _)) = True" | "host_released _ = False"

fun device_freed :: "cash_call \<Rightarrow> bool" where
  "device_freed (ReleaseDevice (Inr _)) = True" | "device_freed _ = False"

definition cleaned :: "cash_custody \<Rightarrow> cash_log \<Rightarrow> bool" where
  "cleaned outcome l \<longleftrightarrow> has (closed_as outcome) l \<and> has host_released l \<and> has device_freed l"

definition ending :: "cash_env \<Rightarrow> cash_terminal \<Rightarrow> cash_log \<Rightarrow> bool" where
  "ending env t l \<longleftrightarrow>
     earned env (ct_outcome t) l \<and> (\<not> ct_reconciliationRequired t \<longrightarrow> cleaned (ct_outcome t) l)"

definition before_movement :: "cash_log \<Rightarrow> bool" where
  "before_movement l \<longleftrightarrow> \<not> has is_dispense l \<and> \<not> has is_present l \<and> \<not> has is_retract l"

definition phase_ok :: "cash_state \<Rightarrow> bool" where
  "phase_ok s \<longleftrightarrow>
     (cs_phase s \<in> {PhPlanned, PhDispensing} \<longrightarrow>
        before_movement (cs_log s) \<and> \<not> cs_movementPossible s) \<and>
     (cs_phase s = PhStaged \<longrightarrow> has dispensed_ok (cs_log s) \<and> \<not> has is_present (cs_log s)) \<and>
     (cs_phase s = PhAwaitingTake \<longrightarrow> has dispensed_ok (cs_log s) \<and> has presented_ok (cs_log s)) \<and>
     (cs_retractDispatched s \<longrightarrow> cs_phase s \<in> {PhRetracting, PhTerminal})"

definition movement_ok :: "cash_state \<Rightarrow> bool" where
  "movement_ok s \<longleftrightarrow>
     (if cs_movementPossible s then has is_dispense (cs_log s) else \<not> has may_have_moved (cs_log s)) \<and>
     (\<not> cs_retractDispatched s \<longrightarrow> \<not> has is_retract (cs_log s))"

definition taking_ok :: "cash_env \<Rightarrow> cash_state \<Rightarrow> bool" where
  "taking_ok env s \<longleftrightarrow>
     (cs_takeEventObserved s \<longrightarrow> taken_seen env (cs_log s)) \<and>
     (cs_subscribed s \<longrightarrow> has is_present (cs_log s))"

definition closing_ok :: "cash_env \<Rightarrow> cash_state \<Rightarrow> bool" where
  "closing_ok env s \<longleftrightarrow>
     (cs_recoveryTransferred s \<longleftrightarrow> has hands_over (cs_log s)) \<and>
     (case cs_terminal s of
        None \<Rightarrow> \<not> has is_close (cs_log s) \<and> \<not> has is_freeing (cs_log s) \<and> cs_phase s \<noteq> PhTerminal
      | Some t \<Rightarrow> cs_phase s = PhTerminal \<and> ending env t (cs_log s))"

definition cash_ok :: "cash_env \<Rightarrow> cash_state \<Rightarrow> bool" where
  "cash_ok env s \<longleftrightarrow>
     lawful (cs_log s) \<and> has before_stored (cs_log s) \<and> phase_ok s \<and> movement_ok s \<and>
     taking_ok env s \<and> closing_ok env s"

lemma quiet_earned: "\<not> has loud k \<Longrightarrow> earned env c l \<Longrightarrow> earned env c (l @ k)"
  by (cases c) (auto simp: quiet_list taken_seen_append)

lemma quiet_stepE:
  assumes "quiet_step env s t"
  obtains k where "cs_log t = cs_log s @ k" "\<not> has loud k"
    "cs_takeEventObserved t \<Longrightarrow> cs_takeEventObserved s \<or> cs_subscribed s \<and> has (taken_report env) k"
    "cs_subscribed t = cs_subscribed s" "cs_phase t = cs_phase s"
    "cs_planConsumed t = cs_planConsumed s" "cs_movementPossible t = cs_movementPossible s"
    "cs_retractDispatched t = cs_retractDispatched s"
    "cs_recoveryTransferred t = cs_recoveryTransferred s" "cs_terminal t = cs_terminal s"
    "cs_consumedAuthorizations t = cs_consumedAuthorizations s"
    "cs_reconciliationRequired s \<Longrightarrow> cs_reconciliationRequired t"
  using assms unfolding quiet_step_def by blast

lemma cash_ok_quiet:
  assumes "cash_ok env s" and "quiet_step env s t" shows "cash_ok env t"
  using assms(2)
proof (cases rule: quiet_stepE)
  case (1 k)
  note q = quiet_list [OF \<open>\<not> has loud k\<close>]
  have "phase_ok t" "movement_ok t"
    using assms(1) 1 q by (auto simp: cash_ok_def phase_ok_def movement_ok_def before_movement_def)
  moreover have "taking_ok env t"
    using assms(1) 1 by (auto simp: cash_ok_def taking_ok_def taken_seen_append)
  moreover have "closing_ok env t"
    using assms(1) 1 q quiet_earned [OF \<open>\<not> has loud k\<close>]
    by (auto simp: cash_ok_def closing_ok_def ending_def cleaned_def split: option.splits)
  ultimately show ?thesis
    using assms(1) 1 quiet_lawful [OF \<open>\<not> has loud k\<close>] by (simp add: cash_ok_def)
qed

lemma quiet_keeps_earned: "quiet_step env s t \<Longrightarrow> earned env c (cs_log s) \<Longrightarrow> earned env c (cs_log t)"
  by (erule quiet_stepE) (simp add: quiet_earned)

lemma quiet_released: "quiet_step env s t \<Longrightarrow> released (cs_log t) = released (cs_log s)"
  by (erule quiet_stepE) (simp add: released_def quiet_list)

text \<open>A session nobody has closed, ready to end in a given way.\<close>

definition live :: "cash_env \<Rightarrow> cash_state \<Rightarrow> bool" where
  "live env s \<longleftrightarrow> cash_ok env s \<and> \<not> cs_recoveryTransferred s \<and> cs_terminal s = None"

lemma live_quiet: "live env s \<Longrightarrow> quiet_step env s t \<Longrightarrow> live env t"
  using cash_ok_quiet [of env s t] by (simp add: live_def quiet_step_def)

lemma live_ok: "live env s \<Longrightarrow> cash_ok env s"
  by (simp add: live_def)

lemma live_unreleased: "live env s \<Longrightarrow> \<not> released (cs_log s)"
  by (auto simp: live_def cash_ok_def closing_ok_def released_def)

section \<open>The release of the protection\<close>

lemma wp_succeeds [wp_simps]: "wp (succeeds m) Q R s = wp m (\<lambda>x. Q (Some x)) (\<lambda>_. Q None) s"
  by (simp add: succeeds_def wp_def handle_def seq_def ret_def split: sum.splits prod.splits)

lemma wp_seq_fun: "wp (seq m f) Q R = wp m (\<lambda>x. wp (f x) Q R) R"
  by (rule ext) (rule wp_seq)

lemma wp_assertXfsOk [wp_simps]:
  "wp (assertXfsOk e a) Q R s =
     (if hResultOf e = 0 then Q () s else R (XfsCommandFailed a (hResultOf e)) s)"
  by (simp add: assertXfsOk_def wp_simps)

lemma quiet_releaseHost [quiet_rules]: "stays_quiet env (releaseHost env l)"
  and quiet_acknowledge [quiet_rules]: "stays_quiet env (acknowledge env r l x)"
  unfolding releaseHost_def acknowledge_def
  by (auto intro!: quiet_rules simp: loud_def split: option.splits)

lemma wp_releaseHost:
  "wp (releaseHost env l) (\<lambda>_ t. quiet_step env s t \<and> has host_released (cs_log t)) (\<lambda>_. quiet_step env s) s"
  unfolding releaseHost_def
  by (auto simp: wp_simps loud_def split: sum.splits
      intro!: quiet_after_call intro: quiet_trans [OF quiet_after_call quiet_after_call])

definition closing_step :: "cash_env \<Rightarrow> cash_custody \<Rightarrow> cash_state \<Rightarrow> bool \<Rightarrow> cash_state \<Rightarrow> bool" where
  "closing_step env outcome s required t \<longleftrightarrow>
     (\<exists>k. cs_log t = cs_log s @ k \<and> lawful_from cash_law (cs_log s) k \<and>
        \<not> has is_dispense k \<and> \<not> has is_present k \<and> \<not> has is_retract k \<and> \<not> has hands_over k \<and>
        \<not> has may_have_moved k \<and> (\<not> required \<longrightarrow> cleaned outcome (cs_log t)) \<and>
        (cs_takeEventObserved t \<longrightarrow>
           cs_takeEventObserved s \<or> cs_subscribed s \<and> has (taken_report env) k)) \<and>
     cs_subscribed t = cs_subscribed s \<and> cs_phase t = cs_phase s \<and>
     cs_movementPossible t = cs_movementPossible s \<and>
     cs_retractDispatched t = cs_retractDispatched s \<and>
     cs_recoveryTransferred t = cs_recoveryTransferred s"

lemma close_then_quiet_then_free:
  assumes "\<not> released (cs_log s)"
    and "quiet_step env (after_call env (CloseRecovery l outcome r) s) t"
    and "\<not> required \<Longrightarrow> (\<exists>x. r = Inr x) \<and> has host_released (cs_log t) \<and> (\<exists>x. d = Inr x)"
  shows "closing_step env outcome s required (after_call env (ReleaseDevice d) t)"
proof -
  let ?es = "map DeviceEvent (ce_events env (cs_log s @ [CloseRecovery l outcome r]))"
  let ?fs = "map DeviceEvent (ce_events env (cs_log t @ [ReleaseDevice d]))"
  from assms(2) obtain k where k: "cs_log t = (cs_log s @ CloseRecovery l outcome r # ?es) @ k" "\<not> has loud k"
    "cs_takeEventObserved t \<Longrightarrow>
       cs_takeEventObserved (after_call env (CloseRecovery l outcome r) s) \<or>
       cs_subscribed s \<and> has (taken_report env) k"
    by (auto elim!: quiet_stepE)
  let ?m = "CloseRecovery l outcome r # ?es @ k @ ReleaseDevice d # ?fs"
  note q = quiet_list [OF k(2)] quiet_list [OF quiet_events, of "ce_events env (cs_log s @ [CloseRecovery l outcome r])"]
    quiet_list [OF quiet_events, of "ce_events env (cs_log t @ [ReleaseDevice d])"]
  have "lawful_from cash_law (cs_log s) ?m"
    using assms(1) q
    by (simp add: lawful_from_append cash_law_def released_def quiet_lawful k(2) quiet_events)
  moreover have "cs_log (after_call env (ReleaseDevice d) t) = cs_log s @ ?m" using k(1) by simp
  moreover have "\<not> required \<longrightarrow> cleaned outcome (cs_log s @ ?m)"
    using assms(3) k(1) by (auto simp: cleaned_def)
  ultimately show ?thesis
    using assms(2) k(3) q
    by (auto simp: closing_step_def quiet_step_def events_taken intro!: exI [of _ ?m])
qed

lemma wp_acknowledgeRelease:
  "(\<And>a t. quiet_step env s t \<Longrightarrow> Q a t) \<Longrightarrow> wp (acknowledgeRelease env r c x) Q R s"
  by (cases x; cases "expectedCustodyOutcome c")
    (simp_all add: acknowledgeRelease_def wp_seq wp_ret wp_succeeds stays_quiet_wp [OF quiet_acknowledge])

lemma wp_freeDevice:
  assumes "\<not> released (cs_log s)"
    and "quiet_step env (after_call env (CloseRecovery l outcome r) s) t"
    and "\<not> required \<Longrightarrow> (\<exists>x. r = Inr x) \<and> has host_released (cs_log t)"
    and "\<And>b t. closing_step env outcome s b t \<Longrightarrow> Q b t"
  shows "wp (freeDevice env required) Q R t"
proof -
  note close = close_then_quiet_then_free [OF assms(1,2)]
  have "closing_step env outcome s True (after_call env (ReleaseDevice (Inl e)) t)" for e
    by (rule close) simp
  moreover have "closing_step env outcome s required (after_call env (ReleaseDevice (Inr ())) t)"
    using assms(3) by (intro close) auto
  ultimately show ?thesis
    using assms(4) by (auto simp: freeDevice_def wp_simps split: sum.splits)
qed

lemma quiet_has: "quiet_step env s t \<Longrightarrow> has P (cs_log s) \<Longrightarrow> has P (cs_log t)"
  by (auto elim: quiet_stepE)

lemma wp_releaseCashProtection:
  assumes "\<not> released (cs_log s)" and "\<And>b t. closing_step env outcome s b t \<Longrightarrow> Q b t"
  shows "wp (releaseCashProtection env r outcome) Q R s"
proof -
  let ?c = "\<lambda>x. after_call env (CloseRecovery (hr_recoveryLease r) outcome x) s"
  have rest: "wp (seq (acknowledgeRelease env r outcome x)
      (\<lambda>a. freeDevice env (closed = None \<or> x = None \<or> \<not> a))) Q R t"
    if t: "quiet_step env (?c y) t" "closed \<noteq> None \<Longrightarrow> \<exists>z. y = Inr z"
      "x \<noteq> None \<Longrightarrow> has host_released (cs_log t)" for closed :: "unit option" and x t y
    unfolding wp_seq
  proof (rule wp_acknowledgeRelease)
    fix a u assume u: "quiet_step env t u"
    show "wp (freeDevice env (closed = None \<or> x = None \<or> \<not> a)) Q R u"
      by (rule wp_freeDevice [OF assms(1) quiet_trans [OF t(1) u] _ assms(2)])
        (use t(2,3) quiet_has [OF u] in auto)
  qed
  show ?thesis
  proof (cases "ce_closeRecovery env (cs_log s)")
    case (Inl e)
    with rest [of "Inl e" "?c (Inl e)" None None] show ?thesis
      by (simp add: releaseCashProtection_def wp_simps)
  next
    case (Inr u)
    have "wp (releaseHost env (hr_hostCommandLease r))
        (\<lambda>x t. wp (seq (acknowledgeRelease env r outcome (Some x)) (\<lambda>a. freeDevice env (\<not> a))) Q R t)
        (\<lambda>_ t. wp (seq (acknowledgeRelease env r outcome None) (\<lambda>a. freeDevice env True)) Q R t) (?c (Inr u))"
      using rest [of "Inr u" _ "Some ()" "Some x" for x] rest [of "Inr u" _ "Some ()" None]
      by (intro wp_weaken [OF wp_releaseHost]) simp_all
    with Inr show ?thesis by (simp add: releaseCashProtection_def wp_seq_fun wp_succeeds wp_port_call wp_ret)
  qed
qed


section \<open>The methods\<close>

lemma unsubscribed_ok: "cash_ok env s \<Longrightarrow> cash_ok env (s\<lparr>cs_subscribed := False\<rparr>)"
  by (simp add: cash_ok_def phase_ok_def movement_ok_def taking_ok_def closing_ok_def split: option.splits)

lemma unsubscribed_live: "live env s \<Longrightarrow> live env (s\<lparr>cs_subscribed := False\<rparr>)"
  by (simp add: live_def unsubscribed_ok)

lemma wp_stop:
  assumes "\<And>t. quiet_step env s t \<Longrightarrow> Q () (t\<lparr>cs_subscribed := False\<rparr>)"
    and "\<And>e t. quiet_step env s t \<Longrightarrow> R e t"
  shows "wp (stopTakeObservation env) Q R s"
  using assms by (auto simp: stopTakeObservation_def wp_simps quiet_after_call loud_def split: sum.splits)

lemma closing_ends:
  assumes "live env s" and "earned env outcome (cs_log s)"
    and "closing_step env outcome (s\<lparr>cs_phase := PhTerminal\<rparr>) b t"
    and "b \<Longrightarrow> ct_reconciliationRequired r" and "ct_outcome r = outcome"
  shows "cash_ok env (t\<lparr>cs_reconciliationRequired := c, cs_terminal := Some r\<rparr>)"
proof -
  from assms(3) obtain k where k: "cs_log t = cs_log s @ k" "lawful_from cash_law (cs_log s) k"
    "\<not> has is_dispense k" "\<not> has is_present k" "\<not> has is_retract k" "\<not> has hands_over k"
    "\<not> has may_have_moved k" "b \<or> cleaned outcome (cs_log t)"
    "cs_takeEventObserved t \<Longrightarrow> cs_takeEventObserved s \<or> cs_subscribed s \<and> has (taken_report env) k"
    and f: "cs_subscribed t = cs_subscribed s" "cs_phase t = PhTerminal"
    "cs_movementPossible t = cs_movementPossible s" "cs_retractDispatched t = cs_retractDispatched s"
    "cs_recoveryTransferred t = cs_recoveryTransferred s"
    by (auto simp: closing_step_def)
  have "earned env outcome (cs_log s @ k)"
    using assms(2) k by (cases outcome) (auto simp: taken_seen_append)
  moreover have "phase_ok t" using f(2) by (simp add: phase_ok_def)
  moreover have "movement_ok t"
    using assms(1) k(1,3-7) f(3,4) by (simp add: live_def cash_ok_def movement_ok_def)
  moreover have "taking_ok env t"
    using assms(1) k(1,9) f(1) by (simp add: live_def cash_ok_def taking_ok_def taken_seen_append) blast
  moreover have "has hands_over (cs_log t) = cs_recoveryTransferred t" "lawful (cs_log t)"
    "has before_stored (cs_log t)"
    using assms(1) k(1,2,6) f(5) by (simp_all add: live_def cash_ok_def closing_ok_def)
  ultimately show ?thesis
    using assms(4,5) k(1,8) f(2)
    by (simp add: cash_ok_def phase_ok_def movement_ok_def taking_ok_def closing_ok_def ending_def)
      (auto split: if_splits)
qed

lemma wp_finish:
  assumes s: "live env s" and "earned env outcome (cs_log s)"
  shows "wp (finish_cash env se outcome) (\<lambda>t u. cash_ok env u \<and> cs_terminal u = Some t) (\<lambda>_. cash_ok env) s"
proof -
  have close: "wp (close_session env se outcome after)
      (\<lambda>t u. cash_ok env u \<and> cs_terminal u = Some t) (\<lambda>_. cash_ok env) t"
    if t: "live env t" "earned env outcome (cs_log t)" for after t
  proof -
    have "wp (releaseCashProtection env (se_resources se) outcome)
        (\<lambda>b u. wp (seq (change (\<lambda>s. s\<lparr>cs_reconciliationRequired := cs_reconciliationRequired s \<or> b\<rparr>)) (\<lambda>_.
           seq (ask (\<lambda>s. \<lparr>ct_outcome = outcome, ct_reconciliationRequired = cs_reconciliationRequired s,
                     ct_after = after\<rparr>)) (\<lambda>t. seq (change (\<lambda>s. s\<lparr>cs_terminal := Some t\<rparr>)) (\<lambda>_. ret t))))
          (\<lambda>t u. cash_ok env u \<and> cs_terminal u = Some t) (\<lambda>_. cash_ok env) u)
        (\<lambda>_. cash_ok env) u"
      if q: "quiet_step env (t\<lparr>cs_phase := PhTerminal\<rparr>) u" for u
    proof (rule wp_releaseCashProtection)
      let ?v = "u\<lparr>cs_phase := cs_phase t\<rparr>"
      have v: "quiet_step env t ?v" using q by (simp add: quiet_step_def)
      have eq: "u = ?v\<lparr>cs_phase := PhTerminal\<rparr>" using q by (cases u) (simp add: quiet_step_def)
      show "\<not> released (cs_log u)"
        using live_unreleased [OF live_quiet [OF t(1) v]] by simp
      show "wp (seq (change (\<lambda>s. s\<lparr>cs_reconciliationRequired := cs_reconciliationRequired s \<or> b\<rparr>)) (\<lambda>_.
           seq (ask (\<lambda>s. \<lparr>ct_outcome = outcome, ct_reconciliationRequired = cs_reconciliationRequired s,
                     ct_after = after\<rparr>)) (\<lambda>t. seq (change (\<lambda>s. s\<lparr>cs_terminal := Some t\<rparr>)) (\<lambda>_. ret t))))
          (\<lambda>t u. cash_ok env u \<and> cs_terminal u = Some t) (\<lambda>_. cash_ok env) w"
        if "closing_step env outcome u b w" for b w
        by (simp add: wp_simps)
          (rule closing_ends [OF live_quiet [OF t(1) v] quiet_keeps_earned [OF v t(2)], folded eq, OF that];
            simp)
    qed
    then show ?thesis
      unfolding close_session_def
      by (subst wp_seq, subst wp_change, subst wp_seq, intro wp_recordSafely, subst wp_seq)
  qed
  have s': "cs_terminal s = None" using s by (simp add: live_def)
  show ?thesis
    unfolding finish_cash_def wp_seq wp_ask s' option.case
  proof (rule wp_stop)
    fix t assume q: "quiet_step env s t"
    let ?t = "t\<lparr>cs_subscribed := False\<rparr>"
    have t: "live env ?t" "earned env outcome (cs_log ?t)"
      using unsubscribed_live [OF live_quiet [OF s q]] quiet_keeps_earned [OF q assms(2)] by simp_all
    show "wp (captureAfter env se)
        (\<lambda>x. wp (close_session env se outcome x)
          (\<lambda>t u. cash_ok env u \<and> cs_terminal u = Some t) (\<lambda>_. cash_ok env)) (\<lambda>_. cash_ok env) ?t"
      by (rule stays_quiet_wp [OF quiet_captureAfter])
        (use t live_quiet quiet_keeps_earned live_ok close in blast)+
  qed (use s live_quiet live_ok in blast)
qed

end
