(* ===== verification/Cash_Methods.thy ===== *)
theory Cash_Methods
  imports Cash_Invariant
begin

text \<open>
  Every method of a cash session keeps the invariant, and so does a start that succeeds: the
  invariant of every state a session can reach.
\<close>

lemma after_call_step: "quiet_step env (s\<lparr>cs_log := cs_log s @ [c]\<rparr>) (after_call env c s)"
  using quiet_events [of "ce_events env (cs_log s @ [c])"]
  by (auto simp: quiet_step_def events_taken)

lemma dispensed_is_dispense: "has dispensed_ok l \<Longrightarrow> has is_dispense l"
  and presented_is_present: "has presented_ok l \<Longrightarrow> has is_present l"
proof -
  have "dispensed_ok c \<Longrightarrow> is_dispense c" "presented_ok c \<Longrightarrow> is_present c" for c by (cases c; simp)+
  then show "has dispensed_ok l \<Longrightarrow> has is_dispense l" "has presented_ok l \<Longrightarrow> has is_present l"
    unfolding has_set by blast+
qed

lemmas cash_ok_defs = cash_ok_def phase_ok_def movement_ok_def taking_ok_def closing_ok_def

lemma live_fields:
  assumes "live env s"
  shows "cs_terminal s = None" "\<not> cs_recoveryTransferred s" "\<not> released (cs_log s)"
    "\<not> has is_close (cs_log s)" "\<not> has is_freeing (cs_log s)" "\<not> has hands_over (cs_log s)"
    "lawful (cs_log s)" "has before_stored (cs_log s)" "cs_phase s \<noteq> PhTerminal"
  using assms by (auto simp: live_def cash_ok_def closing_ok_def released_def)

lemma live_iff:
  "live env s \<longleftrightarrow>
     lawful (cs_log s) \<and> has before_stored (cs_log s) \<and> phase_ok s \<and> movement_ok s \<and> taking_ok env s \<and>
     \<not> cs_recoveryTransferred s \<and> cs_terminal s = None \<and> \<not> has is_close (cs_log s) \<and>
     \<not> has is_freeing (cs_log s) \<and> \<not> has hands_over (cs_log s) \<and> cs_phase s \<noteq> PhTerminal"
  by (auto simp: live_def cash_ok_def closing_ok_def)

lemma live_phase:
  assumes "live env s" and "p \<notin> {PhPlanned, PhDispensing, PhStaged, PhAwaitingTake, PhTerminal}"
    and "p = PhRetracting \<or> \<not> cs_retractDispatched s"
  shows "live env (s\<lparr>cs_phase := p\<rparr>)"
proof -
  have "phase_ok (s\<lparr>cs_phase := p\<rparr>)" using assms(2,3) by (auto simp: phase_ok_def)
  with assms(1,2) show ?thesis
    by (simp add: live_iff movement_ok_def taking_ok_def)
qed

lemma reconcile_quiet: "quiet_step env s (s\<lparr>cs_reconciliationRequired := True\<rparr>)"
  by (simp add: quiet_step_def)

lemma undispatched: "live env s \<Longrightarrow> cs_phase s \<noteq> PhRetracting \<Longrightarrow> \<not> cs_retractDispatched s"
  using live_fields(9) by (auto simp: live_def cash_ok_def phase_ok_def)

lemma unretracted: "live env s \<Longrightarrow> \<not> cs_retractDispatched s \<Longrightarrow> \<not> has is_retract (cs_log s)"
  by (simp add: live_def cash_ok_def movement_ok_def)

section \<open>Retracting\<close>

lemma taking_log: "taking_ok env s \<Longrightarrow> taking_ok env (s\<lparr>cs_log := cs_log s @ [c]\<rparr>)"
  by (auto simp: taking_ok_def taken_seen_append)

lemma retract_live:
  assumes "live env s" and "\<not> has is_retract (cs_log s)" and "has is_dispense (cs_log s)"
    and "cs_retractDispatched s"
  shows "live env (after_call env (RetractNotes i p a r) s)"
proof (rule live_quiet [OF _ after_call_step])
  let ?t = "s\<lparr>cs_log := cs_log s @ [RetractNotes i p a r]\<rparr>"
  have "cs_phase s = PhRetracting"
    using assms(1,4) by (auto simp: live_iff phase_ok_def)
  then have "phase_ok ?t" by (simp add: phase_ok_def)
  moreover have "movement_ok ?t"
    using assms by (simp add: live_iff movement_ok_def)
  ultimately show "live env ?t"
    using assms(1-3) live_fields(3) [OF assms(1)] by (simp add: live_iff taking_log cash_law_def)
qed

definition ends_well :: "cash_env \<Rightarrow> cash_terminal \<Rightarrow> cash_state \<Rightarrow> bool" where
  "ends_well env t u \<longleftrightarrow> cash_ok env u \<and> cs_terminal u = Some t"

lemma wp_ends:
  "live env s \<Longrightarrow> earned env outcome (cs_log s) \<Longrightarrow>
   wp (finish_cash env se outcome) (ends_well env) (\<lambda>_. cash_ok env) s"
  using wp_finish [of env s outcome se] by (simp add: ends_well_def [abs_def])

lemma wp_retract_command:
  assumes "live env s" and "\<not> has is_retract (cs_log s)" and "has is_dispense (cs_log s)"
    and "cs_retractDispatched s" and "\<And>x t. live env t \<Longrightarrow> earned env x (cs_log t) \<Longrightarrow> Q x t"
  shows "wp (retract_command env se) Q R s"
proof -
  let ?w = "\<lambda>r. after_call env (RetractNotes (or_else (cdp_retractIndex (ce_policy env)) 0)
    (output_position env) (or_else (cdp_retractArea (ce_policy env)) 1) r) s"
  have w: "live env (?w r)" for r by (rule retract_live [OF assms(1-4)])
  have unknown: "wp (recordSafely env se k src c code tr) (\<lambda>_. Q CustodyUnknown) R
      (?w r\<lparr>cs_reconciliationRequired := True\<rparr>)" for r k src c code tr
    using live_quiet [OF live_quiet [OF w reconcile_quiet]] assms(5) by (intro wp_recordSafely) simp
  have "wp (recordSafely env se k src c code tr) (\<lambda>_. Q Retracted) R' (?w (Inr e))"
    if "hResultOf e = 0" for e k src c code tr R'
    using live_quiet [OF w] assms(5) quiet_has [of env "?w (Inr e)" _ retracted_ok] that
    by (intro wp_recordSafely) simp
  with unknown show ?thesis
    by (simp add: retract_command_def wp_funs wp_assertXfsOk [abs_def] wp_device_call split: sum.splits)
qed

lemma wp_cash_retract:
  assumes s: "live env s" and "cs_retractDispatched s \<or> has is_dispense (cs_log s)"
  shows "wp (retract_cash env se trigger) (ends_well env) (\<lambda>_. cash_ok env) s"
proof (cases "cs_retractDispatched s")
  case True
  with s show ?thesis by (simp add: retract_cash_def wp_seq wp_ask wp_ends)
next
  case False
  let ?s = "s\<lparr>cs_retractDispatched := True, cs_phase := PhRetracting\<rparr>"
  have s': "live env ?s"
    using s by (simp add: live_iff phase_ok_def movement_ok_def taking_ok_def)
  have "wp (retract_command env se) (\<lambda>x. wp (finish_cash env se x) (ends_well env) (\<lambda>_. cash_ok env))
      (\<lambda>_. cash_ok env) t" if t: "quiet_step env ?s t" for t
  proof (rule wp_retract_command [OF live_quiet [OF s' t]])
    show "\<not> has is_retract (cs_log t)" "has is_dispense (cs_log t)" "cs_retractDispatched t"
      using t unretracted [OF s False] assms(2) False by (auto elim!: quiet_stepE simp: quiet_list)
  qed (rule wp_ends)
  then show ?thesis
    by (simp add: retract_cash_def wp_funs False) (rule wp_recordSafely)
qed

section \<open>Aborting and handing over\<close>

lemma wp_foreground [wp_simps]:
  "wp requireForegroundOwnership Q R s =
     (if cs_recoveryTransferred s
      then R (CashError ''cash.recoveryTransfer.foregroundOwnerStale'') s else Q () s)"
  by (simp add: requireForegroundOwnership_def wp_simps)

lemma wp_requirePhase [wp_simps]:
  "wp (requirePhase p) Q R s =
     (if cs_phase s = p then Q () s else R (CashError ''cash.session.phase'') s)"
  by (simp add: requirePhase_def wp_simps)

lemma live_movement:
  "live env s \<Longrightarrow> if cs_movementPossible s then has is_dispense (cs_log s) else \<not> has may_have_moved (cs_log s)"
  by (simp add: live_iff movement_ok_def)

lemma wp_cash_abort:
  assumes "cash_ok env s"
  shows "wp (abort_cash env se trigger) (ends_well env) (\<lambda>_. cash_ok env) s"
proof (cases "cs_recoveryTransferred s \<or> cs_terminal s \<noteq> None")
  case True
  with assms show ?thesis
    by (auto simp: abort_cash_def wp_simps ends_well_def split: option.splits)
next
  case False
  with assms have s: "live env s" by (simp add: live_def)
  have "wp (retract_cash env se trigger) (ends_well env) (\<lambda>_. cash_ok env) t"
    if "quiet_step env s t" "cs_movementPossible s" for t
    using that live_movement [OF s] quiet_has [OF that(1)] live_quiet [OF s] by (intro wp_cash_retract) auto
  moreover have "wp (finish_cash env se NotDispensed) (ends_well env) (\<lambda>_. cash_ok env) t"
    if "quiet_step env s t" "\<not> cs_movementPossible s" for t
    using that live_movement [OF s] quiet_keeps_earned [OF that(1), of NotDispensed] live_quiet [OF s]
    by (intro wp_ends) auto
  ultimately show ?thesis
    using False cash_ok_quiet [OF assms]
    by (simp add: abort_cash_def wp_simps)
      (auto intro!: wp_recordSafely stays_quiet_wp [OF quiet_recordEvidence])
qed

lemma transfer_ok:
  assumes "live env s"
  shows "cash_ok env ((after_call env (TransferRecovery p n t (Inr x)) s)\<lparr>cs_recoveryTransferred := True\<rparr>)"
proof -
  let ?u = "s\<lparr>cs_log := cs_log s @ [TransferRecovery p n t (Inr x)], cs_recoveryTransferred := True\<rparr>"
  have "phase_ok ?u" using assms by (auto simp: live_iff phase_ok_def before_movement_def)
  moreover have "movement_ok ?u" using assms by (simp add: live_iff movement_ok_def)
  moreover have "taking_ok env ?u"
    using taking_log [of env s "TransferRecovery p n t (Inr x)"] assms by (simp add: live_iff taking_ok_def)
  ultimately have "cash_ok env ?u"
    using assms by (simp add: live_iff cash_ok_def closing_ok_def cash_law_def)
  moreover have "quiet_step env ?u ((after_call env (TransferRecovery p n t (Inr x)) s)\<lparr>cs_recoveryTransferred := True\<rparr>)"
    using after_call_step [of env s "TransferRecovery p n t (Inr x)"] by (simp add: quiet_step_def)
  ultimately show ?thesis by (rule cash_ok_quiet)
qed

definition exits_well :: "cash_env \<Rightarrow> cash_exit \<Rightarrow> cash_state \<Rightarrow> bool" where
  "exits_well env x u \<longleftrightarrow>
     (case x of ExitTerminal t \<Rightarrow> ends_well env t u
              | ExitTransferred _ \<Rightarrow> cash_ok env u \<and> cs_recoveryTransferred u)"

lemma exits_well_terminal [simp]: "exits_well env (ExitTerminal t) = ends_well env t"
  by (rule ext) (simp add: exits_well_def)

lemma wp_exit:
  assumes "cash_ok env s"
  shows "wp (exit_cash env se trigger) (exits_well env) (\<lambda>_. cash_ok env) s"
proof (cases "cs_recoveryTransferred s \<or> cs_terminal s \<noteq> None")
  case True
  with assms show ?thesis
    by (auto simp: exit_cash_def wp_simps exits_well_def ends_well_def split: option.splits)
next
  case False
  with assms have s: "live env s" by (simp add: live_def)
  define hand_over where "hand_over f = seq (ask (\<lambda>s. (cs_phase s, cs_sequence s))) (\<lambda>(phase, n).
      seq (port_call env f (TransferRecovery phase n trigger)) (\<lambda>receipt.
      seq (change (\<lambda>s. s\<lparr>cs_recoveryTransferred := True\<rparr>)) (\<lambda>_. ret (ExitTransferred receipt))))" for f
  have over: "wp (hand_over f) (exits_well env) (\<lambda>_. cash_ok env) u" if u: "live env u" for f u
    using transfer_ok [OF u] live_ok [OF live_quiet [OF u quiet_after_call]]
    by (auto simp: hand_over_def wp_simps exits_well_def loud_def split: sum.splits)
  have "wp (seq (updateRecovery env se) (\<lambda>_. hand_over f)) (exits_well env) (\<lambda>_. cash_ok env) t"
    if t: "quiet_step env s t" for f t
    by (subst wp_seq, rule stays_quiet_wp [OF quiet_updateRecovery])
      (use live_quiet [OF live_quiet [OF s t]] over live_ok in blast)+
  moreover have "wp (abort_cash env se trigger) (\<lambda>t. exits_well env (ExitTerminal t)) (\<lambda>_. cash_ok env) s"
    using wp_cash_abort [OF assms] by simp
  ultimately show ?thesis
    using False live_quiet [OF s] assms
    by (auto simp: exit_cash_def wp_seq wp_ask wp_foreground wp_ret [abs_def] wp_raise hand_over_def [symmetric]
        split: option.splits intro!: wp_recordSafely)
qed

section \<open>Dispensing\<close>

lemma dispense_live:
  assumes "live env s" and "cs_phase s = PhDispensing" and "has intent_stored (cs_log s)"
    and "p = PhReconciling \<or> p = PhStaged \<and> done_well r" and "m \<or> device_refused r"
  shows "live env ((after_call env (DispenseNotes d x y z r) (s\<lparr>cs_movementPossible := b\<rparr>))
    \<lparr>cs_phase := p, cs_movementPossible := m\<rparr>)"
proof -
  let ?c = "DispenseNotes d x y z r"
  let ?t = "s\<lparr>cs_log := cs_log s @ [?c], cs_phase := p, cs_movementPossible := m\<rparr>"
  have none: "before_movement (cs_log s)" "\<not> cs_movementPossible s" "\<not> cs_retractDispatched s"
    using assms(1,2) by (auto simp: live_iff phase_ok_def)
  have "phase_ok ?t" using assms(4) none by (auto simp: phase_ok_def before_movement_def)
  moreover have "movement_ok ?t"
    using assms(1,5) none by (auto simp: live_iff movement_ok_def before_movement_def)
  moreover have "taking_ok env ?t"
    using taking_log [of env s ?c] assms(1) by (simp add: live_iff taking_ok_def)
  ultimately have "live env ?t"
    using assms(1,3,4) none(1) live_fields(3) [OF assms(1)]
    by (auto simp: live_iff cash_law_def before_movement_def)
  moreover have "quiet_step env ?t ((after_call env ?c (s\<lparr>cs_movementPossible := b\<rparr>))
      \<lparr>cs_phase := p, cs_movementPossible := m\<rparr>)"
    using after_call_step [of env "s\<lparr>cs_movementPossible := b\<rparr>" ?c] by (simp add: quiet_step_def)
  ultimately show ?thesis by (rule live_quiet)
qed

lemma wp_intent:
  assumes "\<And>t. quiet_step env s t \<Longrightarrow> has intent_stored (cs_log t) \<Longrightarrow> Q () t"
    and "\<And>e t. quiet_step env s t \<Longrightarrow> R e t"
  shows "wp (recordEvidence env se ''cash.dispense.intent'' src c code tr) Q R s"
proof -
  let ?s = "s\<lparr>cs_sequence := cs_sequence s + 1\<rparr>"
  have "quiet_step env s (after_call env (AppendEvidence e r) ?s)" for e r
    by (rule quiet_trans [OF _ quiet_after_call]) (simp_all add: quiet_step_def loud_def)
  then show ?thesis
    using assms by (auto simp: recordEvidence_def nextEvidence_def wp_simps evidenceRecord_def split: sum.splits)
qed

lemma wp_updateRecovery:
  "(\<And>t. quiet_step env s t \<Longrightarrow> Q () t) \<Longrightarrow> (\<And>m t. quiet_step env s t \<Longrightarrow> R (PortError m) t) \<Longrightarrow>
   wp (updateRecovery env se) Q R s"
  by (auto simp: updateRecovery_def wp_simps quiet_after_call loud_def split: sum.splits)

lemma wp_dispense_command:
  assumes s: "live env s" "cs_phase s = PhDispensing" "has intent_stored (cs_log s)"
  shows "wp (handle (dispense_command env se p) (dispense_failed env se))
    (\<lambda>_. cash_ok env) (\<lambda>_. cash_ok env) (s\<lparr>cs_movementPossible := True\<rparr>)"
proof -
  let ?w = "\<lambda>r. after_call env (DispenseNotes (pl_denomination p) (or_else (cdp_mixNumber (ce_policy env)) 1)
             (output_position env) (or_else (cdp_tellerId (ce_policy env)) 0) r)
       (s\<lparr>cs_movementPossible := True\<rparr>)"
  note live = dispense_live [OF s, of _ _ _ "pl_denomination p" "or_else (cdp_mixNumber (ce_policy env)) 1"
      "output_position env" "or_else (cdp_tellerId (ce_policy env)) 0" True]
  have failed: "wp (dispense_failed env se e) (\<lambda>_. cash_ok env) (\<lambda>_. cash_ok env) t"
    if t: "live env (t\<lparr>cs_phase := PhReconciling, cs_movementPossible := m\<rparr>)" and
      m: "m = (hResultFromXfsCommandFailure e = None \<and> cs_movementPossible t)" for t e m
  proof (cases "hResultFromXfsCommandFailure e")
    case None
    then have "live env (t\<lparr>cs_phase := PhReconciling\<rparr>)" using t m by simp
    with None show ?thesis
      by (simp add: dispense_failed_def wp_funs)
        (rule wp_recordSafely, rule live_ok, erule live_quiet [OF live_quiet [OF _ reconcile_quiet]])
  next
    case (Some h)
    then have "live env (t\<lparr>cs_phase := PhReconciling, cs_movementPossible := False\<rparr>)" using t m by simp
    with Some show ?thesis
      by (simp add: dispense_failed_def wp_funs) (rule wp_recordSafely, rule live_ok, erule live_quiet)
  qed
  have refused: "wp (dispense_failed env se e) (\<lambda>_. cash_ok env) (\<lambda>_. cash_ok env) (?w r)"
    if "device_refused r = (hResultFromXfsCommandFailure e \<noteq> None)" for e r
    by (rule failed [OF live refl]) (use that in auto)
  have staged: "wp (updateRecovery env se) (\<lambda>_. cash_ok env)
      (\<lambda>e. wp (dispense_failed env se e) (\<lambda>_. cash_ok env) (\<lambda>_. cash_ok env)) t"
    if t: "live env t" "cs_phase t = PhStaged" "cs_movementPossible t" for t
  proof (rule wp_updateRecovery)
    fix u m assume u: "quiet_step env t u"
    have "live env (u\<lparr>cs_phase := PhReconciling\<rparr>)"
      using live_quiet [OF t(1) u] u t(2) undispatched [of env u]
      by (intro live_phase) (auto simp: quiet_step_def)
    moreover have eq: "u\<lparr>cs_phase := PhReconciling, cs_movementPossible := True\<rparr> = u\<lparr>cs_phase := PhReconciling\<rparr>"
      using u t(3) by (cases u) (simp add: quiet_step_def)
    ultimately have "live env (u\<lparr>cs_phase := PhReconciling, cs_movementPossible := True\<rparr>)"
      by (simp only:)
    then show "wp (dispense_failed env se (PortError m)) (\<lambda>_. cash_ok env) (\<lambda>_. cash_ok env) u"
      by (rule failed) (use u t(3) in \<open>simp add: hResultFromXfsCommandFailure_def quiet_step_def\<close>)
  qed (use live_quiet [OF t(1)] live_ok in blast)
  have well: "wp (recordSafely env se k src c code tr)
      (\<lambda>_. wp (updateRecovery env se) (\<lambda>_. cash_ok env)
         (\<lambda>e. wp (dispense_failed env se e) (\<lambda>_. cash_ok env) (\<lambda>_. cash_ok env))) R
      (?w (Inr e)\<lparr>cs_phase := PhStaged\<rparr>)" if "hResultOf e = 0" for e k src c code tr R
  proof (rule wp_recordSafely, rule staged)
    fix u assume u: "quiet_step env (?w (Inr e)\<lparr>cs_phase := PhStaged\<rparr>) u"
    have eq: "?w (Inr e)\<lparr>cs_phase := PhStaged, cs_movementPossible := True\<rparr> = ?w (Inr e)\<lparr>cs_phase := PhStaged\<rparr>"
      by (simp add: after_call_def observe_def Let_def)
    have "live env (?w (Inr e)\<lparr>cs_phase := PhStaged, cs_movementPossible := True\<rparr>)"
      by (rule live) (use that in simp_all)
    then have "live env (?w (Inr e)\<lparr>cs_phase := PhStaged\<rparr>)" by (simp only: eq)
    then show "live env u" using u by (rule live_quiet)
    show "cs_phase u = PhStaged" "cs_movementPossible u" using u by (simp_all add: quiet_step_def)
  qed
  show ?thesis
    using refused [of "Inl e" e for e] refused [of "Inr e" "XfsCommandFailed a (hResultOf e)" for a e] well
    by (simp add: dispense_command_def wp_funs wp_device_call [abs_def] wp_assertXfsOk [abs_def]
        hResultFromXfsCommandFailure_def split: sum.splits)
qed

lemma wp_dispense:
  assumes "cash_ok env s"
  shows "wp (dispense_cash env se p) (\<lambda>_. cash_ok env) (\<lambda>_. cash_ok env) s"
proof (cases "cs_recoveryTransferred s \<or> cs_phase s \<noteq> PhPlanned \<or> \<not> plan_valid env se p s")
  case True
  with assms show ?thesis by (auto simp: dispense_cash_def validatePlan_def wp_simps)
next
  case False
  then have s: "live env s" using assms by (auto simp: live_def cash_ok_def closing_ok_def split: option.splits)
  let ?s = "s\<lparr>cs_planConsumed := True, cs_phase := PhDispensing\<rparr>"
  have "phase_ok ?s" using s False by (auto simp: live_iff phase_ok_def)
  then have s': "live env ?s" using s by (simp add: live_iff movement_ok_def taking_ok_def)
  have "wp (recordEvidence env se ''cash.dispense.intent'' FromFlow Observed None None)
      (\<lambda>_ t. wp (handle (dispense_command env se p) (dispense_failed env se)) (\<lambda>_. cash_ok env)
         (\<lambda>_. cash_ok env) (t\<lparr>cs_movementPossible := True\<rparr>)) (\<lambda>_. cash_ok env) ?s"
  proof (rule wp_intent)
    fix t assume t: "quiet_step env ?s t" "has intent_stored (cs_log t)"
    show "wp (handle (dispense_command env se p) (dispense_failed env se)) (\<lambda>_. cash_ok env)
         (\<lambda>_. cash_ok env) (t\<lparr>cs_movementPossible := True\<rparr>)"
      using t by (intro wp_dispense_command live_quiet [OF s']) (simp_all add: quiet_step_def)
  qed (use live_quiet [OF s'] live_ok in blast)
  with False show ?thesis
    by (simp add: dispense_cash_def validatePlan_def wp_seq wp_foreground wp_requirePhase wp_ask
        wp_require wp_change wp_seq_fun wp_funs del: wp_handle)
qed

section \<open>Presenting\<close>

lemma present_live:
  assumes "live env s" and "cs_phase s = PhPresenting" and "has dispensed_ok (cs_log s)"
    and "\<not> has is_present (cs_log s)" and "p = PhPresenting \<or> p = PhAwaitingTake \<and> done_well r"
  shows "live env ((after_call env (PresentNotes x r) (s\<lparr>cs_subscribed := b\<rparr>))\<lparr>cs_phase := p\<rparr>)"
proof -
  let ?c = "PresentNotes x r"
  let ?t = "s\<lparr>cs_log := cs_log s @ [?c], cs_subscribed := b, cs_phase := p\<rparr>"
  have inside: "\<not> cs_retractDispatched s" "\<not> has is_retract (cs_log s)"
    using undispatched [OF assms(1)] unretracted [OF assms(1)] assms(2) by auto
  have "phase_ok ?t" using assms(3,5) inside by (auto simp: phase_ok_def)
  moreover have "movement_ok ?t"
    using assms(1) inside by (simp add: live_iff movement_ok_def)
  moreover have "taking_ok env ?t"
    using assms(1) by (simp add: live_iff taking_ok_def taken_seen_append)
  ultimately have "live env ?t"
    using assms(1,3-5) inside(2) live_fields(3) [OF assms(1)] by (auto simp: live_iff cash_law_def)
  moreover have "quiet_step env ?t ((after_call env ?c (s\<lparr>cs_subscribed := b\<rparr>))\<lparr>cs_phase := p\<rparr>)"
    using after_call_step [of env "s\<lparr>cs_subscribed := b\<rparr>" ?c] by (simp add: quiet_step_def)
  ultimately show ?thesis by (rule live_quiet)
qed

lemma wp_present_failed:
  assumes "live env s" and "\<not> cs_retractDispatched s"
  shows "wp (present_failed env se e) (\<lambda>_. cash_ok env) (\<lambda>_. cash_ok env) s"
proof -
  have "wp (stopTakeObservation env)
      (\<lambda>_ t. wp (recordSafely env se k src c code tr) (\<lambda>_. cash_ok env) (\<lambda>_. cash_ok env)
         (t\<lparr>cs_phase := PhReconciling, cs_reconciliationRequired := True\<rparr>)) (\<lambda>_. cash_ok env) s"
    for k src c code tr
  proof (rule wp_stop)
    fix t assume t: "quiet_step env s t"
    have "live env (t\<lparr>cs_subscribed := False, cs_phase := PhReconciling\<rparr>)"
      using unsubscribed_live [OF live_quiet [OF assms(1) t]] assms(2) t
      by (intro live_phase) (auto simp: quiet_step_def)
    from live_quiet [OF this reconcile_quiet]
    show "wp (recordSafely env se k src c code tr) (\<lambda>_. cash_ok env) (\<lambda>_. cash_ok env)
         (t\<lparr>cs_subscribed := False, cs_phase := PhReconciling, cs_reconciliationRequired := True\<rparr>)"
      by (intro wp_recordSafely live_ok) (erule live_quiet)
  qed (use live_quiet [OF assms(1)] live_ok in blast)
  then show ?thesis by (simp add: present_failed_def wp_seq_fun wp_funs)
qed

lemma wp_present_command:
  assumes s: "live env s" "cs_phase s = PhPresenting" "has dispensed_ok (cs_log s)"
    "\<not> has is_present (cs_log s)"
  shows "wp (handle (present_command env se) (present_failed env se)) (\<lambda>_. cash_ok env)
    (\<lambda>_. cash_ok env) (s\<lparr>cs_subscribed := b\<rparr>)"
proof -
  let ?w = "\<lambda>r. after_call env (PresentNotes (output_position env) r) (s\<lparr>cs_subscribed := b\<rparr>)"
  note live = present_live [OF s, of _ _ "output_position env" b]
  have eq: "?w r\<lparr>cs_phase := PhPresenting\<rparr> = ?w r" for r
    using s(2) by (simp add: after_call_def observe_def Let_def)
  have w: "live env (?w r)" for r using live [of PhPresenting r] by (simp only: eq) simp
  have dispatched: "\<not> cs_retractDispatched s" using undispatched [OF s(1)] s(2) by simp
  have failed: "wp (present_failed env se e) (\<lambda>_. cash_ok env) (\<lambda>_. cash_ok env) (?w r)" for e r
    using w dispatched by (intro wp_present_failed) simp_all
  have well: "wp (recordSafely env se k src c code tr)
      (\<lambda>_. wp (updateRecovery env se) (\<lambda>_. cash_ok env)
         (\<lambda>e. wp (present_failed env se e) (\<lambda>_. cash_ok env) (\<lambda>_. cash_ok env))) R
      (?w (Inr e)\<lparr>cs_phase := PhAwaitingTake\<rparr>)" if "hResultOf e = 0" for e k src c code tr R
  proof (rule wp_recordSafely, rule stays_quiet_wp [OF quiet_updateRecovery])
    fix t u assume q: "quiet_step env (?w (Inr e)\<lparr>cs_phase := PhAwaitingTake\<rparr>) t" "quiet_step env t u"
    have "live env (?w (Inr e)\<lparr>cs_phase := PhAwaitingTake\<rparr>)" by (rule live) (use that in simp)
    then have u: "live env u" using live_quiet q by blast
    then show "cash_ok env u" by (rule live_ok)
    show "wp (present_failed env se x) (\<lambda>_. cash_ok env) (\<lambda>_. cash_ok env) u" for x
      using u q dispatched by (intro wp_present_failed) (auto simp: quiet_step_def)
  qed
  show ?thesis
    using failed well
    by (simp add: present_command_def wp_funs wp_device_call [abs_def] wp_assertXfsOk [abs_def] split: sum.splits)
qed

lemma wp_startObservation:
  assumes "\<And>t b. quiet_step env s t \<Longrightarrow> Q () (t\<lparr>cs_subscribed := b\<rparr>)"
  shows "wp (startTakeObservation env) Q R s"
proof -
  have "t\<lparr>cs_subscribed := cs_subscribed t\<rparr> = t" for t :: cash_state by simp
  then have "Q () t" if "quiet_step env s t" for t using assms [OF that, of "cs_subscribed t"] by simp
  then show ?thesis
    using assms by (auto simp: startTakeObservation_def wp_simps quiet_after_call loud_def split: sum.splits)
qed

lemma wp_present:
  assumes "cash_ok env s"
  shows "wp (present_cash env se a) (\<lambda>_. cash_ok env) (\<lambda>_. cash_ok env) s"
proof (cases "cs_recoveryTransferred s \<or> cs_phase s \<noteq> PhStaged \<or> \<not> authorization_valid env se a s")
  case True
  with assms show ?thesis by (auto simp: present_cash_def validateAuthorization_def wp_simps)
next
  case False
  then have s: "live env s" using assms by (auto simp: live_def cash_ok_def closing_ok_def split: option.splits)
  let ?s = "s\<lparr>cs_consumedAuthorizations := cs_consumedAuthorizations s @ [pa_id a], cs_phase := PhPresenting\<rparr>"
  have "phase_ok ?s" using s False by (auto simp: live_iff phase_ok_def)
  then have s': "live env ?s" using s by (simp add: live_iff movement_ok_def taking_ok_def)
  have staged: "has dispensed_ok (cs_log s)" "\<not> has is_present (cs_log s)"
    using s False by (auto simp: live_iff phase_ok_def)
  have "wp (startTakeObservation env)
      (\<lambda>_ u. wp (handle (present_command env se) (present_failed env se)) (\<lambda>_. cash_ok env) (\<lambda>_. cash_ok env) u)
      (\<lambda>_. cash_ok env) t" if t: "quiet_step env ?s t" for t
  proof (rule wp_startObservation, rule wp_present_command)
    fix u assume u: "quiet_step env t u"
    have q: "quiet_step env ?s u" using quiet_trans [OF t u] .
    show "live env u" using live_quiet [OF s' q] .
    show "cs_phase u = PhPresenting" using q by (simp add: quiet_step_def)
    show "has dispensed_ok (cs_log u)" "\<not> has is_present (cs_log u)"
      using q staged by (auto elim!: quiet_stepE simp: quiet_list)
  qed
  with False show ?thesis
    by (simp add: present_cash_def validateAuthorization_def wp_seq wp_foreground wp_requirePhase wp_ask
        wp_require wp_change wp_seq_fun) (rule wp_recordSafely)
qed

section \<open>Waiting\<close>

lemma wp_readStatus:
  assumes "\<And>st t. quiet_step env s t \<Longrightarrow> has is_present (cs_log s) \<Longrightarrow>
      output_status env st = Some 0 \<Longrightarrow> taken_seen env (cs_log t) \<Longrightarrow> Q st t"
    and "\<And>st t. quiet_step env s t \<Longrightarrow> output_status env st \<noteq> Some 0 \<Longrightarrow> Q st t"
    and "\<And>e t. quiet_step env s t \<Longrightarrow> R e t" and "has is_present (cs_log s)"
  shows "wp (readWithRetry (device_call env (ce_status env) ReadStatus) 2) Q R s"
proof -
  have call: "wp (device_call env (ce_status env) ReadStatus) Q R' t"
    if t: "quiet_step env s t" and R': "\<And>e u. quiet_step env s u \<Longrightarrow> R' e u" for t R'
  proof (cases "ce_status env (cs_log t)")
    case (Inl e)
    then show ?thesis
      using R' quiet_trans [OF t quiet_after_call, of "ReadStatus (Inl e)"]
      by (simp add: wp_device_call loud_def)
  next
    case (Inr st)
    let ?u = "after_call env (ReadStatus (Inr st)) t"
    have u: "quiet_step env s ?u" using quiet_trans [OF t quiet_after_call] by (simp add: loud_def)
    have "taken_seen env (cs_log ?u)" if "output_status env st = Some 0"
      using quiet_has [OF t assms(4)] that by (simp add: taken_seen_append)
    with Inr assms(1,2,4) u show ?thesis by (cases "output_status env st = Some 0") (simp_all add: wp_device_call)
  qed
  have "wp (device_call env (ce_status env) ReadStatus) Q
     (\<lambda>_. wp (device_call env (ce_status env) ReadStatus) Q R) s"
    by (rule call [OF quiet_refl], rule call, assumption, rule assms(3))
  then show ?thesis by (simp add: numeral_2_eq_2 wp_handle)
qed

lemma wp_confirmTake:
  "live env s \<Longrightarrow> taken_seen env (cs_log s) \<Longrightarrow>
   wp (confirmTake env se code) (ends_well env) (\<lambda>_. cash_ok env) s"
  unfolding confirmTake_def wp_seq
  using live_quiet quiet_keeps_earned [of env s _ Taken] by (intro wp_recordSafely wp_ends) auto

definition waits_well :: "cash_env \<Rightarrow> cash_terminal option \<Rightarrow> cash_state \<Rightarrow> bool" where
  "waits_well env x u \<longleftrightarrow> (case x of None \<Rightarrow> cash_ok env u | Some t \<Rightarrow> ends_well env t u)"

lemma wp_some:
  "wp m (ends_well env) (\<lambda>_. cash_ok env) s \<Longrightarrow>
   wp (seq m (\<lambda>t. ret (Some t))) (waits_well env) (\<lambda>_. cash_ok env) s"
  by (simp add: wp_def seq_def ret_def waits_well_def split: prod.splits sum.splits)

lemma wp_wait_loop:
  assumes "live env s" and "cs_phase s = PhAwaitingTake"
  shows "wp (wait_loop env se deadline n) (waits_well env) (\<lambda>_. cash_ok env) s"
  using assms
proof (induction n arbitrary: s)
  case 0
  then show ?case by (simp add: wp_ret live_ok waits_well_def)
next
  case (Suc n)
  have seen: "has is_dispense (cs_log s)" "has is_present (cs_log s)"
    using Suc.prems by (auto simp: live_iff phase_ok_def dispensed_is_dispense presented_is_present)
  have timeout: "wp (recordSafely env se k src c code tr)
      (\<lambda>_. wp (seq (retract_cash env se CashTimeout) (\<lambda>t. ret (Some t))) (waits_well env) (\<lambda>_. cash_ok env)) R s"
    for k src c code tr R
    using Suc.prems(1) live_quiet quiet_has seen(1) by (intro wp_recordSafely wp_some wp_cash_retract) blast+
  have taken: "wp (seq (confirmTake env se code) (\<lambda>t. ret (Some t))) (waits_well env) (\<lambda>_. cash_ok env) s"
    if "cs_takeEventObserved s" for code
    using that Suc.prems(1) by (intro wp_some wp_confirmTake) (simp_all add: live_iff taking_ok_def)
  have poll: "wp (seq (port_call env (\<lambda>_. Inr ()) (\<lambda>_. PollDelay d)) (\<lambda>_. wait_loop env se deadline n))
      (waits_well env) (\<lambda>_. cash_ok env) t" if t: "quiet_step env s t" for t d
    using Suc.IH [OF live_quiet [OF Suc.prems(1) quiet_trans [OF t quiet_after_call]]] Suc.prems(2) t
    by (simp add: wp_simps loud_def quiet_step_def)
  have "wp (readWithRetry (device_call env (ce_status env) ReadStatus) 2)
      (\<lambda>status. wp (seq (assertXfsOk (st_envelope status) a) (\<lambda>_.
         if output_status env status = Some 0
         then seq (confirmTake env se (CodeNumber 0)) (\<lambda>t. ret (Some t))
         else seq (port_call env (\<lambda>_. Inr ()) (\<lambda>_. PollDelay d)) (\<lambda>_. wait_loop env se deadline n)))
         (waits_well env) (\<lambda>_. cash_ok env)) (\<lambda>_. cash_ok env) s" for a d
  proof (rule wp_readStatus)
    fix st t assume t: "quiet_step env s t"
    then have live: "live env t" using live_quiet Suc.prems(1) by blast
    show "wp (seq (assertXfsOk (st_envelope st) a) (\<lambda>_.
         if output_status env st = Some 0
         then seq (confirmTake env se (CodeNumber 0)) (\<lambda>t. ret (Some t))
         else seq (port_call env (\<lambda>_. Inr ()) (\<lambda>_. PollDelay d)) (\<lambda>_. wait_loop env se deadline n)))
         (waits_well env) (\<lambda>_. cash_ok env) t" if "output_status env st = Some 0" "taken_seen env (cs_log t)"
      using that live live_ok wp_some [OF wp_confirmTake [OF live that(2)]]
      by (subst wp_seq) (simp add: wp_assertXfsOk)
    show "wp (seq (assertXfsOk (st_envelope st) a) (\<lambda>_.
         if output_status env st = Some 0
         then seq (confirmTake env se (CodeNumber 0)) (\<lambda>t. ret (Some t))
         else seq (port_call env (\<lambda>_. Inr ()) (\<lambda>_. PollDelay d)) (\<lambda>_. wait_loop env se deadline n)))
         (waits_well env) (\<lambda>_. cash_ok env) t" if "output_status env st \<noteq> Some 0"
      using that live live_ok poll [OF t] by (subst wp_seq) (simp add: wp_assertXfsOk)
  qed (use seen(2) live_quiet [OF Suc.prems(1)] live_ok in blast)+
  with timeout taken show ?case
    unfolding wait_loop.simps
    by (subst wp_seq, subst wp_ask) (simp add: wp_seq [of "recordSafely _ _ _ _ _ _ _"] wp_seq [of "readWithRetry _ _"])
qed

lemma wp_wait:
  assumes "cash_ok env s"
  shows "wp (waitForTake env se n) (waits_well env) (\<lambda>_. cash_ok env) s"
proof (cases "cs_recoveryTransferred s \<or> cs_phase s \<noteq> PhAwaitingTake")
  case True
  with assms show ?thesis by (auto simp: waitForTake_def wp_simps)
next
  case False
  then have "live env s" using assms by (auto simp: live_def cash_ok_def closing_ok_def split: option.splits)
  with False show ?thesis by (simp add: waitForTake_def wp_simps wp_wait_loop)
qed

section \<open>Starting\<close>

lemma wp_any: "wp m (\<lambda>_ _. True) (\<lambda>_ _. True) s"
  by (simp add: wp_def split: prod.splits sum.splits)

lemma wp_only_errors: "wp (seq m (\<lambda>_. raise e)) Q (\<lambda>_ _. True) s"
  by (simp add: wp_seq wp_raise [abs_def] wp_any)

lemma wp_acquire:
  "wp (acquireResources env q i) (\<lambda>_. quiet_step env s) (\<lambda>_ _. True) s"
proof -
  have quiet: "quiet_step env s (after_call env c t)" if "quiet_step env s t" "\<not> loud c" for c t
    using quiet_trans [OF that(1) quiet_after_call [OF that(2)]] .
  show ?thesis
    by (simp add: acquireResources_def wp_seq wp_handle wp_port_call wp_ret wp_raise Let_def quiet
        loud_def split: sum.splits)
qed

lemma wp_plan:
  "wp (planSession env q i r) (\<lambda>_ t. quiet_step env s t \<and> has before_stored (cs_log t)) (\<lambda>_ _. True) s"
proof -
  have snapshot: "stays_quiet env (seq (ask (\<lambda>s. ce_id env (cs_log s))) (captureSnapshot env (sq_operationId q) i b))" for b
    by (intro quiet_rules)
  have denominate: "stays_quiet env (denominate env a)" for a
    unfolding denominate_def assertXfsOk_def Let_def
    by (auto intro!: quiet_rules simp: loud_def split: prod.splits)
  have rest: "wp (seq (denominate env a) (\<lambda>d. ask (f d))) (\<lambda>_ t. quiet_step env s t \<and> has before_stored (cs_log t))
      (\<lambda>_ _. True) t" if "quiet_step env s t" "has before_stored (cs_log t)" for t f a
    unfolding wp_seq
    using that quiet_has quiet_trans by (intro stays_quiet_wp [OF denominate]) (auto simp: wp_ask)
  have "wp (seq (port_call env (ce_recordBefore env) (RecordBefore e b)) (\<lambda>_. seq (denominate env a) (\<lambda>d. ask (f d))))
      (\<lambda>_ t. quiet_step env s t \<and> has before_stored (cs_log t)) (\<lambda>_ _. True) t"
    if "quiet_step env s t" for t f a e b
  proof -
    have "quiet_step env s (after_call env (RecordBefore e b (Inr ())) t)"
      by (rule quiet_trans [OF that quiet_after_call]) (simp add: loud_def)
    then have "wp (seq (denominate env a) (\<lambda>d. ask (f d)))
      (\<lambda>_ t. quiet_step env s t \<and> has before_stored (cs_log t)) (\<lambda>_ _. True)
      (after_call env (RecordBefore e b (Inr ())) t)" by (rule rest) simp
    then show ?thesis by (subst wp_seq) (cases "ce_recordBefore env (cs_log t)"; simp add: wp_port_call)
  qed
  then show ?thesis
    unfolding planSession_def wp_seq [of "seq _ _"]
    by (intro stays_quiet_wp [OF snapshot]) (auto simp: wp_seq wp_ask)
qed

lemma new_quiet_ok:
  assumes "quiet_step env new_cash_state s" and "has before_stored (cs_log s)"
  shows "cash_ok env s"
proof -
  from assms(1) obtain k where "cs_log s = k" "\<not> has loud k"
    "\<not> cs_takeEventObserved s" "\<not> cs_subscribed s" "cs_phase s = PhPlanned" "\<not> cs_movementPossible s"
    "\<not> cs_retractDispatched s" "\<not> cs_recoveryTransferred s" "cs_terminal s = None"
    by (auto simp: quiet_step_def new_cash_state_def)
  with assms(2) quiet_list [of k] quiet_lawful [of k "[]"] show ?thesis
    by (simp add: cash_ok_defs before_movement_def)
qed

lemma wp_cash_start: "wp (start_cash env q) (\<lambda>_. cash_ok env) (\<lambda>_ _. True) new_cash_state"
proof -
  have plan: "wp (handle (planSession env q i r) (\<lambda>e. seq (releaseCashProtection env r c) (\<lambda>_. raise e)))
      (\<lambda>_. cash_ok env) (\<lambda>_ _. True) t" if "quiet_step env new_cash_state t" for i r c t
    unfolding wp_handle
    by (rule wp_weaken [OF wp_plan [of env q i r t]])
      (auto simp: wp_only_errors intro: new_quiet_ok quiet_trans [OF that])
  have "wp (seq (acquireResources env q i) (\<lambda>r. handle (planSession env q i r)
      (\<lambda>e. seq (releaseCashProtection env r NotDispensed) (\<lambda>_. raise e)))) (\<lambda>_. cash_ok env) (\<lambda>_ _. True) t"
    if "quiet_step env new_cash_state t" for i t
    unfolding wp_seq [of "acquireResources env q i"]
    by (rule wp_weaken [OF wp_acquire]) (use plan quiet_trans [OF that] in blast)+
  then show ?thesis
    by (simp add: start_cash_def validateAmount_def wp_seq wp_require wp_port_call wp_ask quiet_after_call
        loud_def split: sum.splits)
qed

section \<open>Every state a session reaches\<close>

lemma cash_method_ok: "cash_ok env s \<Longrightarrow> cash_ok env (snd (cash_method env se m s))"
proof -
  assume s: "cash_ok env s"
  have ends: "ends_well env t u \<Longrightarrow> cash_ok env u" for t u by (simp add: ends_well_def)
  have waits: "waits_well env t u \<Longrightarrow> cash_ok env u" for t u
    by (auto simp: waits_well_def ends split: option.splits)
  have exits: "exits_well env x u \<Longrightarrow> cash_ok env u" for x u
    by (auto simp: exits_well_def ends split: cash_exit.splits)
  have "wp (cash_method env se m) (\<lambda>_. cash_ok env) (\<lambda>_. cash_ok env) s"
    by (cases m; simp add: cash_method_def wp_seq_fun wp_ret [abs_def])
      (blast intro: wp_weaken [OF wp_dispense [OF s]] wp_weaken [OF wp_present [OF s]]
        wp_weaken [OF wp_wait [OF s]] wp_weaken [OF wp_cash_abort [OF s]] wp_weaken [OF wp_exit [OF s]]
        ends waits exits)+
  then show ?thesis by (simp add: wp_always)
qed

lemma reachable_cash_ok: "cash_reachable env q se s \<Longrightarrow> cash_ok env s"
proof (induction rule: cash_reachable.induct)
  case (started se s)
  then show ?case using wp_result [OF wp_cash_start] by blast
qed (rule cash_method_ok)

end
