(* ===== verification/Cash_Properties.thy ===== *)
theory Cash_Properties
  imports Cash_Methods
begin

text \<open>
  The properties of a cash session: the commands it gives the dispenser, what its outcome
  rests on, when it is over, that waiting for the customer ends, and what a start that fails
  leaves behind. Each is applied to a concrete session.
\<close>

section \<open>Waiting by the clock\<close>

definition clock_ok :: "cash_env \<Rightarrow> bool" where
  "clock_ok env \<longleftrightarrow>
     (\<forall>l c. ce_now env l \<le> ce_now env (l @ [c])) \<and>
     (\<forall>l d. ce_now env l + d \<le> ce_now env (l @ [PollDelay d]))"

lemma clock_mono: "clock_ok env \<Longrightarrow> ce_now env l \<le> ce_now env (l @ k)"
proof (induction k rule: rev_induct)
  case (snoc c k)
  then have "ce_now env (l @ k) \<le> ce_now env ((l @ k) @ [c])" unfolding clock_ok_def by blast
  with snoc show ?case by simp
qed simp

lemma clock_quiet: "clock_ok env \<Longrightarrow> quiet_step env s t \<Longrightarrow> ce_now env (cs_log s) \<le> ce_now env (cs_log t)"
  by (auto elim!: quiet_stepE simp: clock_mono)

lemma clock_poll:
  assumes "clock_ok env"
  shows "ce_now env (cs_log s) + d \<le> ce_now env (cs_log (after_call env (PollDelay d) s))"
proof -
  have "ce_now env (cs_log s) + d \<le> ce_now env (cs_log s @ [PollDelay d])"
    using assms unfolding clock_ok_def by blast
  also have "\<dots> \<le> ce_now env (cs_log (after_call env (PollDelay d) s))"
    using clock_mono [OF assms, of "cs_log s @ [PollDelay d]"] by simp
  finally show ?thesis .
qed

definition answered :: "'a option \<Rightarrow> cash_state \<Rightarrow> bool" where
  "answered x s \<longleftrightarrow> x \<noteq> None"

lemma answered_Some: "answered (Some x) = (\<lambda>_. True)"
  by (rule ext) (simp add: answered_def)

lemma wp_gives: "wp (seq m (\<lambda>t. ret (Some t))) answered (\<lambda>_ _. True) s"
  by (simp add: wp_seq wp_ret [abs_def] wp_any answered_Some)

lemma wp_gives_fun: "wp (seq m (\<lambda>t. ret (Some t))) answered (\<lambda>_ _. True) = (\<lambda>_. True)"
  by (rule ext) (simp add: wp_gives)

lemma wait_loop_ends:
  assumes "clock_ok env" and "0 \<le> or_else (cdp_statusPollMs (ce_policy env)) 100"
    and "deadline \<le> ce_now env (cs_log s) + int n * or_else (cdp_statusPollMs (ce_policy env)) 100"
  shows "wp (wait_loop env se deadline (Suc n)) answered (\<lambda>_ _. True) s"
  using assms(3)
proof (induction n arbitrary: s)
  case 0
  then show ?case
    by (simp add: wp_seq [of "ask _"] wp_ask wp_seq [of "recordSafely _ _ _ _ _ _ _"] wp_gives_fun)
      (simp add: wp_any)
next
  case (Suc n)
  define d where "d = or_else (cdp_statusPollMs (ce_policy env)) 100"
  have poll: "wp (seq (port_call env (\<lambda>_. Inr ()) (\<lambda>_. PollDelay d)) (\<lambda>_. wait_loop env se deadline (Suc n)))
      answered (\<lambda>_ _. True) t" if t: "quiet_step env s t" for t
  proof -
    have "deadline \<le> ce_now env (cs_log (after_call env (PollDelay d) t)) + int n * d"
      using Suc.prems clock_quiet [OF assms(1) t] clock_poll [OF assms(1), of t d]
      by (simp add: d_def algebra_simps)
    with Suc.IH show ?thesis by (simp add: wp_seq wp_port_call d_def del: wait_loop.simps)
  qed
  have "wp (readWithRetry (device_call env (ce_status env) ReadStatus) 2)
      (\<lambda>status. wp (seq (assertXfsOk (st_envelope status) a) (\<lambda>_.
         if output_status env status = Some 0
         then seq (confirmTake env se (CodeNumber 0)) (\<lambda>t. ret (Some t))
         else seq (port_call env (\<lambda>_. Inr ()) (\<lambda>_. PollDelay d)) (\<lambda>_. wait_loop env se deadline (Suc n))))
         answered (\<lambda>_ _. True)) (\<lambda>_ _. True) s" for a
    by (rule stays_quiet_wp [of env])
      (use poll wp_gives in \<open>auto intro!: quiet_rules simp: loud_def wp_seq [of "assertXfsOk _ _"] wp_assertXfsOk
        simp del: wait_loop.simps\<close>)
  moreover have "wp m (\<lambda>_. wp (seq m' (\<lambda>t. ret (Some t))) answered (\<lambda>_ _. True)) (\<lambda>_ _. True) s"
    for m :: "unit cash_io" and m' :: "cash_terminal cash_io"
    by (simp add: wp_gives_fun wp_any)
  ultimately show ?case
    unfolding wait_loop.simps(2) [of _ _ _ "Suc n"] d_def
    by (subst wp_seq, subst wp_ask)
      (simp add: wp_seq [of "recordSafely _ _ _ _ _ _ _"] wp_seq [of "readWithRetry _ _"] wp_gives
        del: wait_loop.simps)
qed

section \<open>An example session\<close>

definition ex_elapsed :: "cash_call \<Rightarrow> int" where
  "ex_elapsed c = (case c of PollDelay d \<Rightarrow> max 0 d | _ \<Rightarrow> 0)"

definition ex_taken :: cdm_event where
  "ex_taken = \<lparr>de_kind = Some ''itemsTaken'', de_position = Some 2\<rparr>"

fun after_poll :: "cash_log \<Rightarrow> bool" where
  "after_poll [] = False" | "after_poll [PollDelay _] = True" | "after_poll (c # l) = after_poll l"

definition ex_ok :: xfs_envelope where
  "ex_ok = XfsEnvelope (Some 0) None None"

definition ex_recovery_lease :: recovery_lease where
  "ex_recovery_lease = \<lparr>rl_id = ''r'', rl_operationId = ''o'', rl_cashSessionId = ''i'',
     rl_ownerInstanceId = ''w'', rl_fencingToken = 7\<rparr>"

definition ex_command_lease :: "int \<Rightarrow> command_lease" where
  "ex_command_lease n = \<lparr>cl_hostEpoch = ''e'', cl_logicalService = ''CDM'', cl_operationId = ''o'',
     cl_fencingToken = n\<rparr>"

definition ex_cash_env :: cash_env where
  "ex_cash_env =
     \<lparr>ce_deviceId = ''d'', ce_logicalName = ''CDM'',
      ce_policy = \<lparr>cdp_policyVersion = ''1'', cdp_configurationRevision = ''c'',
        cdp_outputPosition = None, cdp_retractArea = None, cdp_retractIndex = None,
        cdp_tellerId = None, cdp_mixNumber = None, cdp_planTtlMs = None,
        cdp_commandLeaseTtlMs = None, cdp_statusPollMs = None, cdp_resourceGroup = None,
        cdp_protectionPolicyProfileId = None\<rparr>,
      ce_sessionGeneration = 1, ce_timeoutMs = 1000,
      ce_now = (\<lambda>l. sum_list (map ex_elapsed l)), ce_wallTime = (\<lambda>_. ''t''),
      ce_monotonicNow = (\<lambda>_. 0), ce_id = (\<lambda>_. ''i''),
      ce_events = (\<lambda>l. if after_poll l then [ex_taken] else []),
      ce_hasUnresolved = (\<lambda>_. Inr False), ce_lockDevice = (\<lambda>_. Inr ()),
      ce_releaseDevice = (\<lambda>_. Inr ()), ce_acquireRecovery = (\<lambda>_. Inr ex_recovery_lease),
      ce_updateRecovery = (\<lambda>_. Inr ()), ce_closeRecovery = (\<lambda>_. Inr ()),
      ce_hostEpoch = (\<lambda>_. Inr ''e''), ce_acquireCommand = (\<lambda>_ _. Inr (ex_command_lease 7)),
      ce_transitionCommand = (\<lambda>_. Inr (ex_command_lease 8)), ce_releaseCommand = (\<lambda>_. Inr ()),
      ce_protectionStatus = Some (\<lambda>_. Inr \<lparr>ps_state = ''terminal'', ps_operationId = Some ''o'',
        ps_custodyOutcome = Some ''taken''\<rparr>),
      ce_acknowledgeProtection = Some (\<lambda>_. Inr ()),
      ce_recordBefore = (\<lambda>_. Inr ()), ce_append = (\<lambda>_ _. Inr ()), ce_recordAfter = (\<lambda>_. Inr ()),
      ce_spool = (\<lambda>_. Inr ()), ce_transfer = None,
      ce_cashUnits = (\<lambda>_. Inr (ex_ok, None)), ce_denominate = (\<lambda>_ d. Inr (ex_ok, Some d)),
      ce_dispense = (\<lambda>_ _. Inr ex_ok), ce_present = (\<lambda>_. Inr ex_ok), ce_retract = (\<lambda>_. Inr ex_ok),
      ce_status = (\<lambda>_. Inr \<lparr>st_envelope = ex_ok, st_positions = Some [(2, 1)]\<rparr>),
      ce_subscribe = Some (\<lambda>_. Inr ()), ce_unsubscribe = (\<lambda>_. Inr ())\<rparr>"

definition ex_presentation :: presentation_policy where
  "ex_presentation = \<lparr>pp_id = ''p'', pp_version = ''1'', pp_requiredGates = [''pin''],
     pp_authorizationTtlMs = 500, pp_takeTimeoutMs = 300\<rparr>"

definition ex_cash_request :: cash_request where
  "ex_cash_request = \<lparr>sq_operationId = ''o'', sq_ownerInstanceId = ''w'',
     sq_amount = \<lparr>ca_currency = ''TWD'', ca_minorUnits = 100\<rparr>,
     sq_presentationPolicy = ex_presentation\<rparr>"

definition ex_authorization :: presentation_authorization where
  "ex_authorization = \<lparr>pa_id = ''a'', pa_operationId = ''o'', pa_cashSessionId = ''i'',
     pa_policyId = ''p'', pa_policyVersion = ''1'', pa_satisfiedGates = [''pin''], pa_expiresAt = 500\<rparr>"

definition ex_started :: "(cash_error + cash_session) \<times> cash_state" where
  "ex_started = start_cash ex_cash_env ex_cash_request new_cash_state"

definition ex_session :: cash_session where
  "ex_session = projr (fst ex_started)"

fun run_cash :: "cash_env \<Rightarrow> cash_session \<Rightarrow> cash_method list \<Rightarrow> cash_state \<Rightarrow> cash_state" where
  "run_cash env se [] s = s"
| "run_cash env se (m # ms) s = run_cash env se ms (snd (cash_method env se m s))"

definition ex_taken_state :: cash_state where
  "ex_taken_state = run_cash ex_cash_env ex_session
     [CallDispense (se_plan ex_session), CallPresent ex_authorization, CallWaitForTake 4] (snd ex_started)"

lemma reachable_run: "cash_reachable env q se s \<Longrightarrow> cash_reachable env q se (run_cash env se ms s)"
  by (induction ms arbitrary: s) (auto intro: cash_reachable.called)

lemma ex_started_ok: "isl (fst ex_started) = False"
  by code_simp

lemma ex_terminal: "map_option ct_outcome (cs_terminal ex_taken_state) = Some Taken"
  by code_simp

lemma ex_reachable: "cash_reachable ex_cash_env ex_cash_request ex_session ex_taken_state"
proof -
  have "start_cash ex_cash_env ex_cash_request new_cash_state = (Inr ex_session, snd ex_started)"
    using ex_started_ok unfolding ex_session_def ex_started_def by (cases "fst ex_started"; cases ex_started)
      (simp_all add: ex_started_def)
  then show ?thesis unfolding ex_taken_state_def by (intro reachable_run cash_reachable.started)
qed

section \<open>The properties\<close>

text \<open>
  C8. Whatever the ports answer and whichever methods are called, the commands of a cash session
  follow each other in the safe order: one dispense at most, after the snapshot and the intent
  are stored; one presentation at most, after a dispense that succeeded; one retraction at most,
  after a dispense; and nothing moves once the recovery lease is closed, the device is freed or
  the session is handed over.
\<close>

theorem cash_commands_in_order:
  assumes "cash_reachable env q se s" and "cs_log s = i @ c # k"
  shows "cash_law i c"
  using reachable_cash_ok [OF assms(1)] assms(2) lawful_split by (auto simp: cash_ok_def)

theorem cash_commands_in_order_witness:
  "\<exists>i d x y z r k. cs_log ex_taken_state = i @ DispenseNotes d x y z r # k \<and>
     has before_stored i \<and> has intent_stored i \<and> \<not> has is_dispense i"
proof -
  have "has is_dispense (cs_log ex_taken_state)" by code_simp
  then obtain c where c: "c \<in> set (cs_log ex_taken_state)" "is_dispense c" by (auto simp: has_set)
  then obtain i k where log: "cs_log ex_taken_state = i @ c # k" by (auto dest: split_list)
  obtain d x y z r where "c = DispenseNotes d x y z r" using c(2) by (cases c) auto
  moreover have "has before_stored i" "has intent_stored i" "\<not> has is_dispense i"
    using cash_commands_in_order [OF ex_reachable log] c(2) by (simp_all add: cash_law_def)
  ultimately show ?thesis using log by blast
qed

text \<open>
  C7. The outcome of a cash session rests on evidence: taken, on a report of the dispenser made
  after the presentation was commanded; retracted, on a retraction that succeeded; not
  dispensed, on no dispense command but those the dispenser refused. And a terminal result
  without reconciliation means that the recovery lease was closed with this outcome, the command
  lease released and the device freed.
\<close>

theorem custody_is_evidenced:
  assumes "cash_reachable env q se s" and "cs_terminal s = Some t"
  shows "(ct_outcome t = Taken \<longrightarrow>
            (\<exists>i c k. cs_log s = i @ c # k \<and> is_present c \<and> (\<exists>d \<in> set k. taken_report env d))) \<and>
         (ct_outcome t = Retracted \<longrightarrow> (\<exists>c \<in> set (cs_log s). retracted_ok c)) \<and>
         (ct_outcome t = NotDispensed \<longrightarrow> (\<forall>c \<in> set (cs_log s). \<not> may_have_moved c)) \<and>
         (\<not> ct_reconciliationRequired t \<longrightarrow> cleaned (ct_outcome t) (cs_log s))"
proof -
  have "ending env t (cs_log s)"
    using reachable_cash_ok [OF assms(1)] assms(2) by (simp add: cash_ok_def closing_ok_def)
  then show ?thesis by (cases "ct_outcome t") (auto simp: ending_def taken_seen_iff has_set)
qed

theorem custody_is_evidenced_witness:
  "\<exists>i c k. cs_log ex_taken_state = i @ c # k \<and> is_present c \<and> (\<exists>d \<in> set k. taken_report ex_cash_env d)"
proof -
  obtain t where "cs_terminal ex_taken_state = Some t" "ct_outcome t = Taken" using ex_terminal by auto
  then show ?thesis using custody_is_evidenced [OF ex_reachable] by blast
qed

text \<open>
  A session that has ended or was handed over to recovery does nothing more: every method
  leaves its state and its log as they are, and answers at most with the result it ended with.
\<close>

theorem ended_session_is_over:
  assumes "cash_reachable env q se s" and "cs_terminal s \<noteq> None \<or> cs_recoveryTransferred s"
  shows "snd (cash_method env se m s) = s \<and>
    (\<forall>x. fst (cash_method env se m s) = Inr x \<longrightarrow> (\<exists>t. cs_terminal s = Some t \<and> x = Some (ExitTerminal t)))"
proof -
  have phase: "cs_phase s = PhTerminal" if "cs_terminal s \<noteq> None"
    using reachable_cash_ok [OF assms(1)] that by (auto simp: cash_ok_def closing_ok_def)
  show ?thesis
  proof (cases "cs_recoveryTransferred s")
    case True
    then show ?thesis
      by (cases m) (simp_all add: cash_method_def dispense_cash_def present_cash_def waitForTake_def
          abort_cash_def exit_cash_def requireForegroundOwnership_def seq_def ask_def require_def raise_def)
  next
    case False
    with assms(2) obtain t where "cs_terminal s = Some t" by auto
    with False phase show ?thesis
      by (cases m) (simp_all add: cash_method_def dispense_cash_def present_cash_def waitForTake_def
          abort_cash_def exit_cash_def requireForegroundOwnership_def requirePhase_def seq_def ask_def
          require_def raise_def ret_def)
  qed
qed

theorem ended_session_is_over_witness:
  "snd (cash_method ex_cash_env ex_session (CallAbort CashCancel) ex_taken_state) = ex_taken_state"
proof -
  have "cs_terminal ex_taken_state \<noteq> None" using ex_terminal by auto
  then show ?thesis using ended_session_is_over [OF ex_reachable] by blast
qed

text \<open>
  C29. Waiting for the customer ends: if the clock does not go back and a delay lasts as long as
  it was asked to, then the polls that fit into the time allowed, and one more, are enough -
  the wait gives a result or throws.
\<close>

theorem take_wait_ends:
  assumes "clock_ok env" and "0 \<le> or_else (cdp_statusPollMs (ce_policy env)) 100"
    and "pp_takeTimeoutMs (se_presentationPolicy se)
      \<le> int polls * or_else (cdp_statusPollMs (ce_policy env)) 100"
  shows "fst (waitForTake env se (Suc polls) s) \<noteq> Inr None"
proof -
  have "wp (waitForTake env se (Suc polls)) answered (\<lambda>_ _. True) s"
    unfolding waitForTake_def
    using wait_loop_ends [OF assms(1,2), of _ s polls se] assms(3)
    by (simp add: wp_seq_fun wp_funs wp_foreground wp_requirePhase del: wait_loop.simps)
  then show ?thesis by (cases "waitForTake env se (Suc polls) s") (auto simp: wp_def answered_def)
qed

lemma ex_clock: "clock_ok ex_cash_env"
  by (simp add: clock_ok_def ex_cash_env_def ex_elapsed_def split: cash_call.split)

theorem take_wait_ends_witness:
  "fst (waitForTake ex_cash_env ex_session 4 ex_taken_state) \<noteq> Inr None"
proof -
  have "pp_takeTimeoutMs (se_presentationPolicy ex_session) = 300" by code_simp
  moreover have "or_else (cdp_statusPollMs (ce_policy ex_cash_env)) 100 = 100"
    by (simp add: ex_cash_env_def or_else_def)
  ultimately show ?thesis
    using take_wait_ends [OF ex_clock, of ex_session 3 ex_taken_state] by simp
qed

lemma gates_passed:
  "evaluate_presentation_gates r n gids = Inr satisfied \<Longrightarrow>
   satisfied = gids \<and> (\<forall>g \<in> set gids. \<exists>gate k. lookup r g = Some gate \<and> pg_evaluate gate k = Inr True)"
proof (induction r n gids arbitrary: satisfied rule: evaluate_presentation_gates.induct)
  case (2 r n gid gids)
  then obtain g where g: "lookup r gid = Some g" "pg_evaluate g n = Inr True"
    and rest: "rbind (evaluate_presentation_gates r (Suc n) gids) (\<lambda>s. Inr (gid # s)) = Inr satisfied"
    by (auto simp: rbind_eq_Inr require_presentation_gate_def split: option.splits sum.splits if_splits)
  from rest obtain more where "evaluate_presentation_gates r (Suc n) gids = Inr more" "satisfied = gid # more"
    by (auto simp: rbind_eq_Inr)
  with 2 g show ?case by (auto simp: require_presentation_gate_def)
qed simp

text \<open>
  An authorization opens the presentation only with every gate passed: the authorizer gives
  one only if each required gate is registered and was evaluated to true, and a session of the
  same operation and policy then accepts it exactly until it expires and only once.
\<close>

theorem authorization_needs_gates:
  assumes "authorize_presentation r now i operationId cashSessionId p = Inr a"
    and "se_operationId se = operationId" and "se_cashSessionId se = cashSessionId"
    and "se_presentationPolicy se = p"
  shows "(\<forall>g \<in> set (pp_requiredGates p). \<exists>gate k. lookup r g = Some gate \<and> pg_evaluate gate k = Inr True) \<and>
    (authorization_valid env se a s \<longleftrightarrow>
       i \<notin> set (cs_consumedAuthorizations s) \<and> ce_now env (cs_log s) < now + pp_authorizationTtlMs p)"
proof -
  from assms(1) obtain satisfied where
    "evaluate_presentation_gates r 0 (pp_requiredGates p) = Inr satisfied"
    and a: "a = \<lparr>pa_id = i, pa_operationId = operationId, pa_cashSessionId = cashSessionId,
            pa_policyId = pp_id p, pa_policyVersion = pp_version p,
            pa_satisfiedGates = satisfied, pa_expiresAt = now + pp_authorizationTtlMs p\<rparr>"
    by (auto simp: authorize_presentation_def rbind_eq_Inr)
  with gates_passed show ?thesis
    using assms(2-4) by (fastforce simp: authorization_valid_def)
qed

theorem authorization_needs_gates_witness:
  "authorization_valid ex_cash_env ex_session ex_authorization (snd ex_started)"
proof -
  let ?r = "insert_entry ''pin'' \<lparr>pg_id = ''pin'', pg_evaluate = \<lambda>_. Inr True\<rparr> new_registry"
  have "authorize_presentation ?r 0 ''a'' ''o'' ''i'' ex_presentation = Inr ex_authorization"
    by (simp add: authorize_presentation_def ex_presentation_def ex_authorization_def
        require_presentation_gate_def)
  moreover have "se_operationId ex_session = ''o''" "se_cashSessionId ex_session = ''i''"
    "se_presentationPolicy ex_session = ex_presentation"
    "ce_now ex_cash_env (cs_log (snd ex_started)) = 0" "cs_consumedAuthorizations (snd ex_started) = []"
    by code_simp+
  moreover have "pp_authorizationTtlMs ex_presentation = 500" by (simp add: ex_presentation_def)
  ultimately show ?thesis
    using authorization_needs_gates [of ?r 0 "''a''" "''o''" "''i''" ex_presentation ex_authorization ex_session] by simp
qed

section \<open>Where the code and its intention part\<close>

fun recovery_granted :: "cash_call \<Rightarrow> bool" where
  "recovery_granted (AcquireRecovery _ _ _ (Inr _)) = True" | "recovery_granted _ = False"

fun host_denied :: "cash_call \<Rightarrow> bool" where
  "host_denied (AskHostEpoch (Inl _)) = True"
| "host_denied (AcquireCommand _ (Inl _)) = True"
| "host_denied _ = False"

text \<open>
  A start that was given the recovery lease but then not the host's epoch or the command
  lease throws without ever closing the recovery lease: only the lock of the device is
  released. As the lease stays unresolved, later starts are refused.
\<close>

theorem failed_start_keeps_recovery_lease:
  assumes "acquireResources env q i s = (Inl e, t)" and "cs_log t = cs_log s @ k"
    and "has host_denied k"
  shows "has recovery_granted k \<and> \<not> has is_close k \<and> has is_freeing k"
proof -
  have events: "\<not> has recovery_granted (map DeviceEvent es)" "\<not> has host_denied (map DeviceEvent es)"
    "\<not> has is_close (map DeviceEvent es)" "\<not> has is_freeing (map DeviceEvent es)" for es
    by (induction es) auto
  have "wp (acquireResources env q i) (\<lambda>_ _. True)
      (\<lambda>_ t. \<forall>k. cs_log t = cs_log s @ k \<longrightarrow> has host_denied k \<longrightarrow>
        has recovery_granted k \<and> \<not> has is_close k \<and> has is_freeing k) s"
    by (simp add: acquireResources_def wp_seq wp_handle wp_port_call wp_ret wp_raise Let_def events
        split: sum.splits)
  from wp_error [OF this assms(1)] assms(2,3) show ?thesis by blast
qed

theorem failed_start_keeps_recovery_lease_witness:
  "let env = ex_cash_env\<lparr>ce_acquireCommand := \<lambda>_ _. Inl ''busy''\<rparr>;
       l = cs_log (snd (start_cash env ex_cash_request new_cash_state)) in
   has recovery_granted l \<and> \<not> has is_close l"
proof -
  let ?env = "ex_cash_env\<lparr>ce_acquireCommand := \<lambda>_ _. Inl ''busy''\<rparr>"
  let ?s = "after_call ?env (AskUnresolved ''CDM'' (Inr False)) new_cash_state"
  have "isl (fst (acquireResources ?env ex_cash_request ''i'' ?s))" by code_simp
  then obtain e t where t: "acquireResources ?env ex_cash_request ''i'' ?s = (Inl e, t)"
    by (cases "acquireResources ?env ex_cash_request ''i'' ?s") (auto simp: isl_def)
  have "take 1 (cs_log (snd (acquireResources ?env ex_cash_request ''i'' ?s))) = cs_log ?s"
    "has host_denied (drop 1 (cs_log (snd (acquireResources ?env ex_cash_request ''i'' ?s))))" by code_simp+
  then have k: "cs_log t = cs_log ?s @ drop 1 (cs_log t)" "has host_denied (drop 1 (cs_log t))"
    unfolding t by (metis append_take_drop_id snd_conv, simp)
  have "snd (start_cash ?env ex_cash_request new_cash_state)
      = snd (acquireResources ?env ex_cash_request ''i'' ?s)" by code_simp
  then have "cs_log (snd (start_cash ?env ex_cash_request new_cash_state)) = cs_log ?s @ drop 1 (cs_log t)"
    using t k(1) by simp
  then show ?thesis
    using failed_start_keeps_recovery_lease [OF t k]
    by (simp add: Let_def ex_cash_env_def new_cash_state_def)
qed

end
