(* ===== verification/Card_Custody.thy ===== *)
theory Card_Custody
  imports Cash_Contracts Registry Effects
begin

text \<open>
  What becomes of a card: \<^verbatim>\<open>packages/xfs-device-service/src/card-custody.ts\<close> with the
  policies of \<^verbatim>\<open>card-custody-policy.ts\<close> and the types of
  \<^verbatim>\<open>card-custody-contracts.ts\<close>. The service ejects, retains or observes the card under an
  authority it acquires for the operation, or one the caller hands on. The card reader, the
  leases and the evidence are ports: functions of the log of the calls made so far, each with
  its answer. An error is known by its safe failure code.
\<close>

section \<open>Policies\<close>

datatype resolution_action = ActRetain | ActLeavePresented | ActIntervention

record custody_policy =
  cp_id :: string
  cp_version :: string
  cp_takeTimeoutMs :: int
  cp_pollIntervalMs :: int
  cp_takeTimeoutAction :: resolution_action
  cp_interruptActions :: "interrupt_reason \<Rightarrow> resolution_action option"

definition safe_int :: "int \<Rightarrow> bool" where
  "safe_int n \<longleftrightarrow> \<bar>n\<bar> < 2 ^ 53"

definition validate_custody_policy :: "custody_policy \<Rightarrow> string + unit" where
  "validate_custody_policy p =
     rbind (guard_res (\<not> blank (cp_id p) \<and> \<not> blank (cp_version p)) ''card.custody.policy.invalid'') (\<lambda>_.
     rbind (guard_res (safe_int (cp_takeTimeoutMs p) \<and> 0 < cp_takeTimeoutMs p)
       ''card.custody.policy.invalidTakeTimeout'') (\<lambda>_.
     guard_res (safe_int (cp_pollIntervalMs p) \<and> 0 < cp_pollIntervalMs p)
       ''card.custody.policy.invalidPollInterval''))"

definition register_custody_policy ::
  "custody_policy \<Rightarrow> custody_policy registry \<Rightarrow> string + custody_policy registry" where
  "register_custody_policy p r =
     rbind (validate_custody_policy p) (\<lambda>_.
     rbind (guard_res (\<not> rg_frozen r \<and> lookup r (cp_id p) = None)
       ''card.custody.policy.registrationRejected'') (\<lambda>_.
     Inr (insert_entry (cp_id p) p r)))"

definition require_custody_policy :: "custody_policy registry \<Rightarrow> string \<Rightarrow> string + custody_policy" where
  "require_custody_policy r k =
     (case lookup r k of None \<Rightarrow> Inl ''card.custody.policy.missing'' | Some p \<Rightarrow> Inr p)"

interpretation custody_policies: freezable_registry
  register_custody_policy freeze lookup rg_frozen cp_id "\<lambda>p. validate_custody_policy p = Inr ()"
  by unfold_locales (auto simp: register_custody_policy_def res_simps)

section \<open>Requests, evidence and ports\<close>

datatype authority_mode = TransactionAuthority | RecoveryAuthority | ObservationAuthority

record custody_lease =
  cl_epoch :: string
  cl_token :: int

text \<open>The caller's signal: whether it is aborted may change with every call made.\<close>

record 'l custody_request =
  kr_operationId :: string
  kr_policyId :: string
  kr_authority :: "custody_lease option"
  kr_aborted :: "'l \<Rightarrow> bool"
  kr_signalReason :: "string option"
  kr_interruptReason :: "interrupt_reason option"

datatype evidence_action =
    AuthorityAcquired | AuthorityReleased | AuthorityReleaseFailed | EjectRequested | EjectCompleted
  | RetainRequested | RetainCompleted | MediaObserved | CustodyTerminal

record custody_evidence =
  ke_sequence :: int
  ke_occurredAt :: string
  ke_operationId :: string
  ke_logicalService :: string
  ke_action :: evidence_action
  ke_mediaState :: "media_state option"
  ke_status :: "card_status option"
  ke_reason :: "card_reason option"
  ke_lease :: custody_lease
  ke_failureCode :: "string option"

record custody_result = card_result +
  cr_operationId :: string
  cr_logicalService :: string
  cr_authority :: "custody_lease option"
  cr_failureCode :: "string option"

datatype custody_call =
    AcquireAuthority string string authority_mode "string + custody_lease"
  | TransitionAuthority custody_lease "string + unit"
  | ReleaseAuthority custody_lease bool "string + unit"
  | StoreEvidence custody_evidence "string + unit"
  | EjectCard int "string + unit"
  | AwaitTaken int int "string + bool \<times> media_state"
  | RetainCard "string + unit"
  | ReadMedia "string + media_state"

type_synonym custody_log = "custody_call list"

record custody_env =
  ke_service :: string
  ke_resourceGroup :: "string option"
  ke_policies :: "custody_policy registry"
  ke_now :: "custody_log \<Rightarrow> string"
  ke_acquire :: "custody_log \<Rightarrow> authority_mode \<Rightarrow> string + custody_lease"
  ke_transition :: "custody_log \<Rightarrow> string + unit"
  ke_release :: "custody_log \<Rightarrow> bool \<Rightarrow> string + unit"
  ke_append :: "custody_log \<Rightarrow> custody_evidence \<Rightarrow> string + unit"
  ke_eject :: "custody_log \<Rightarrow> string + unit"
  ke_waitForTaken :: "custody_log \<Rightarrow> string + bool \<times> media_state"
  ke_retain :: "custody_log \<Rightarrow> string + unit"
  ke_media :: "custody_log \<Rightarrow> string + media_state"

record custody_state =
  ks_sequence :: int
  ks_log :: custody_log

type_synonym 'a custody_io = "(custody_state, string, 'a) io"

definition call_port ::
  "(custody_log \<Rightarrow> string + 'a) \<Rightarrow> (string + 'a \<Rightarrow> custody_call) \<Rightarrow> 'a custody_io" where
  "call_port f c s = (let r = f (ks_log s) in (r, s\<lparr>ks_log := ks_log s @ [c r]\<rparr>))"

section \<open>The reason of an interruption\<close>

text \<open>\<^verbatim>\<open>/p.?q/i\<close> at a position: \<^verbatim>\<open>.\<close> is any character but a line end.\<close>

definition gap_match :: "string \<Rightarrow> string \<Rightarrow> nat list \<Rightarrow> bool" where
  "gap_match p q t \<longleftrightarrow>
     starts (map lower p) t \<and>
     (let u = drop (length p) t in
      starts (map lower q) u \<or> u \<noteq> [] \<and> hd u \<notin> {10, 13} \<and> starts (map lower q) (tl u))"

definition reason_text :: "string \<Rightarrow> interrupt_reason option" where
  "reason_text reason =
     (let t = map lower reason in
      if contains_from (starts (map lower ''timeout'')) t then Some IntOperationTimeout
      else if contains_from (gap_match ''node'' ''exit'') t \<or> contains_from (gap_match ''route'' ''exit'') t
        then Some IntNodeExit
      else if contains_from (starts (map lower ''device'')) t then Some IntDeviceLoss
      else None)"

definition interruptReason :: "'l custody_request \<Rightarrow> interrupt_reason" where
  "interruptReason q =
     (case kr_interruptReason q of
        Some r \<Rightarrow> r
      | None \<Rightarrow>
          (case kr_signalReason q of
             None \<Rightarrow> IntUserCancelled
           | Some t \<Rightarrow> (case reason_text t of Some r \<Rightarrow> r | None \<Rightarrow> IntUserCancelled)))"

fun reason_of :: "interrupt_reason \<Rightarrow> card_reason" where
  "reason_of IntUserCancelled = CardUserCancelled"
| "reason_of IntOperationTimeout = CardOperationTimeout"
| "reason_of IntNodeExit = NodeExit"
| "reason_of IntDeviceLoss = DeviceLoss"

section \<open>One operation\<close>

record custody_operation =
  ko_operationId :: string
  ko_lease :: custody_lease

definition result_record ::
  "custody_env \<Rightarrow> string \<Rightarrow> card_status \<Rightarrow> card_reason \<Rightarrow> media_state \<Rightarrow> custody_lease option
     \<Rightarrow> string option \<Rightarrow> custody_result" where
  "result_record env operationId status reason media authority failure =
     \<lparr>cr_status = status, cr_reason = reason, cr_mediaState = media, cr_authorityReleased = False,
      cr_operationId = operationId, cr_logicalService = ke_service env, cr_authority = authority,
      cr_failureCode = (case failure of Some '''' \<Rightarrow> None | _ \<Rightarrow> failure)\<rparr>"

definition operation_result ::
  "custody_env \<Rightarrow> custody_operation \<Rightarrow> card_status \<Rightarrow> card_reason \<Rightarrow> media_state \<Rightarrow> string option
     \<Rightarrow> custody_result" where
  "operation_result env o' status reason media failure =
     result_record env (ko_operationId o') status reason media (Some (ko_lease o')) failure"

definition evidence_entry ::
  "custody_env \<Rightarrow> custody_operation \<Rightarrow> evidence_action \<Rightarrow> media_state option
     \<Rightarrow> card_status option \<Rightarrow> card_reason option \<Rightarrow> string option \<Rightarrow> custody_evidence custody_io" where
  "evidence_entry env o' action media status reason failure =
     seq (change (\<lambda>s. s\<lparr>ks_sequence := ks_sequence s + 1\<rparr>)) (\<lambda>_.
     ask (\<lambda>s. \<lparr>ke_sequence = ks_sequence s, ke_occurredAt = ke_now env (ks_log s),
               ke_operationId = ko_operationId o', ke_logicalService = ke_service env,
               ke_action = action, ke_mediaState = media, ke_status = status, ke_reason = reason,
               ke_lease = ko_lease o', ke_failureCode = failure\<rparr>))"

definition record_evidence ::
  "custody_env \<Rightarrow> custody_operation \<Rightarrow> evidence_action \<Rightarrow> media_state option
     \<Rightarrow> card_status option \<Rightarrow> card_reason option \<Rightarrow> string option \<Rightarrow> unit custody_io" where
  "record_evidence env o' action media status reason failure =
     seq (evidence_entry env o' action media status reason failure) (\<lambda>e.
     call_port (\<lambda>l. ke_append env l e) (StoreEvidence e))"

definition record_best_effort ::
  "custody_env \<Rightarrow> custody_operation \<Rightarrow> evidence_action \<Rightarrow> media_state option
     \<Rightarrow> card_status option \<Rightarrow> card_reason option \<Rightarrow> string option \<Rightarrow> unit custody_io" where
  "record_best_effort env o' action media status reason failure =
     seq (evidence_entry env o' action media status reason failure) (\<lambda>e.
     handle (call_port (\<lambda>l. ke_append env l e) (StoreEvidence e)) (\<lambda>_. ret ()))"

definition finish_custody ::
  "custody_env \<Rightarrow> custody_operation \<Rightarrow> card_status \<Rightarrow> card_reason \<Rightarrow> media_state \<Rightarrow> string option
     \<Rightarrow> custody_result custody_io" where
  "finish_custody env o' status reason media failure =
     seq (record_best_effort env o' CustodyTerminal (Some media) (Some status) (Some reason) failure)
       (\<lambda>_. ret (operation_result env o' status reason media failure))"

definition safeMediaState :: "custody_env \<Rightarrow> media_state custody_io" where
  "safeMediaState env = handle (call_port (ke_media env) ReadMedia) (\<lambda>_. ret MediaUnknown)"

definition retain_card ::
  "custody_env \<Rightarrow> custody_operation \<Rightarrow> card_reason \<Rightarrow> custody_result custody_io" where
  "retain_card env o' reason =
     seq (record_evidence env o' RetainRequested None None None None) (\<lambda>_.
     seq (handle
           (seq (call_port (ke_retain env) RetainCard) (\<lambda>_.
            seq (record_evidence env o' RetainCompleted (Some MediaNotPresent) None None None) (\<lambda>_.
            ret None)))
           (\<lambda>e. ret (Some e))) (\<lambda>failure.
     case failure of
       None \<Rightarrow> finish_custody env o' CardRetained reason MediaNotPresent None
     | Some e \<Rightarrow>
         seq (safeMediaState env) (\<lambda>media.
         finish_custody env o' CardIntervention RetainFailed media (Some e))))"

definition resolve_custody ::
  "custody_env \<Rightarrow> custody_operation \<Rightarrow> resolution_action \<Rightarrow> card_reason \<Rightarrow> media_state
     \<Rightarrow> custody_result custody_io" where
  "resolve_custody env o' action reason media =
     (case action of
        ActRetain \<Rightarrow> retain_card env o' reason
      | ActLeavePresented \<Rightarrow> finish_custody env o' CardPresented reason media None
      | ActIntervention \<Rightarrow> finish_custody env o' CardIntervention reason media None)"

text \<open>The wait and its evidence are inside the \<^verbatim>\<open>try\<close>, what is returned is not: the
  promise of a resolution is handed on before it settles.\<close>

definition observe_take ::
  "custody_env \<Rightarrow> custody_policy \<Rightarrow> custody_operation \<Rightarrow> (string + bool \<times> media_state) custody_io" where
  "observe_take env p o' =
     handle
       (seq (call_port (ke_waitForTaken env) (AwaitTaken (cp_pollIntervalMs p) (cp_takeTimeoutMs p)))
         (\<lambda>(taken, media).
        seq (record_evidence env o' MediaObserved (Some media) None None None) (\<lambda>_.
        ret (Inr (taken, media)))))
       (\<lambda>e. ret (Inl e))"

definition awaitTake ::
  "custody_env \<Rightarrow> custody_log custody_request \<Rightarrow> custody_policy \<Rightarrow> custody_operation
     \<Rightarrow> custody_result custody_io" where
  "awaitTake env q p o' =
     seq (observe_take env p o') (\<lambda>observed.
     case observed of
       Inr (taken, media) \<Rightarrow>
         if taken then finish_custody env o' CardReturned CardTaken media None
         else resolve_custody env o' (cp_takeTimeoutAction p) TakeTimeout media
     | Inl e \<Rightarrow>
         seq (ask (\<lambda>s. kr_aborted q (ks_log s))) (\<lambda>aborted.
         seq (safeMediaState env) (\<lambda>media.
         if \<not> aborted then finish_custody env o' CardIntervention CardCustodyUnknown media (Some e)
         else
           (let reason = interruptReason q in
            resolve_custody env o'
              (case cp_interruptActions p reason of Some a \<Rightarrow> a | None \<Rightarrow> ActIntervention)
              (reason_of reason) media))))"

section \<open>Authority\<close>

definition settle_authority ::
  "custody_env \<Rightarrow> custody_operation \<Rightarrow> custody_result \<Rightarrow> custody_result custody_io" where
  "settle_authority env o' outcome =
     (let acknowledge = (cr_status outcome = CardReturned \<or> cr_status outcome = CardRetained) in
      seq (handle
            (seq (call_port (\<lambda>l. ke_release env l acknowledge) (ReleaseAuthority (ko_lease o') acknowledge))
              (\<lambda>_. ret None))
            (\<lambda>e. ret (Some e))) (\<lambda>failure.
      case failure of
        None \<Rightarrow>
          seq (record_best_effort env o' AuthorityReleased None None None None) (\<lambda>_.
          ret (outcome\<lparr>cr_authorityReleased := True\<rparr>))
      | Some e \<Rightarrow>
          seq (record_best_effort env o' AuthorityReleaseFailed None None None (Some e)) (\<lambda>_.
          ret (outcome\<lparr>cr_authorityReleased := False,
                 cr_failureCode := (case cr_failureCode outcome of None \<Rightarrow> Some e | c \<Rightarrow> c)\<rparr>))))"

text \<open>The constructor's default for the resource group.\<close>

definition resource_group :: "custody_env \<Rightarrow> string" where
  "resource_group env = or_else (ke_resourceGroup env) (''card:'' @ ke_service env)"

text \<open>A new \<^verbatim>\<open>CustodyOperation\<close> counts its evidence from one.\<close>

definition under_authority ::
  "custody_env \<Rightarrow> custody_operation \<Rightarrow> (custody_operation \<Rightarrow> custody_result custody_io)
     \<Rightarrow> custody_result custody_io" where
  "under_authority env o' execute =
     seq (change (\<lambda>s. s\<lparr>ks_sequence := 0\<rparr>)) (\<lambda>_.
     seq (record_evidence env o' AuthorityAcquired None None None None) (\<lambda>_.
     seq (handle (execute o') (\<lambda>e.
           ret (operation_result env o' CardIntervention EvidenceWriteFailed MediaUnknown (Some e))))
       (settle_authority env o')))"

definition withAuthority ::
  "custody_env \<Rightarrow> string \<Rightarrow> authority_mode \<Rightarrow> custody_lease option
     \<Rightarrow> (custody_operation \<Rightarrow> custody_result custody_io) \<Rightarrow> custody_result custody_io" where
  "withAuthority env operationId mode existing execute =
     (case existing of
        Some l \<Rightarrow>
          seq (if mode = RecoveryAuthority
               then call_port (ke_transition env) (TransitionAuthority l) else ret ()) (\<lambda>_.
          under_authority env \<lparr>ko_operationId = operationId, ko_lease = l\<rparr> execute)
      | None \<Rightarrow>
          seq (handle
                (seq (call_port (\<lambda>l. ke_acquire env l mode) (AcquireAuthority operationId (resource_group env) mode))
                  (\<lambda>l. ret (Inr l)))
                (\<lambda>e. ret (Inl e))) (\<lambda>lease.
          case lease of
            Inl e \<Rightarrow>
              ret (result_record env operationId CardIntervention AuthorityRejected MediaUnknown None (Some e))
          | Inr l \<Rightarrow> under_authority env \<lparr>ko_operationId = operationId, ko_lease = l\<rparr> execute))"

section \<open>The service\<close>

definition require_policy_io :: "custody_env \<Rightarrow> string \<Rightarrow> custody_policy custody_io" where
  "require_policy_io env k s = (require_custody_policy (ke_policies env) k, s)"

definition eject ::
  "custody_env \<Rightarrow> custody_log custody_request \<Rightarrow> custody_policy \<Rightarrow> custody_operation
     \<Rightarrow> custody_result custody_io" where
  "eject env q p o' =
     seq (ask (\<lambda>s. kr_aborted q (ks_log s))) (\<lambda>aborted.
     if aborted then finish_custody env o' CardCancelled (reason_of (interruptReason q)) MediaUnknown None
     else
       seq (record_evidence env o' EjectRequested None None None None) (\<lambda>_.
       seq (handle
             (seq (call_port (ke_eject env) (EjectCard (cp_takeTimeoutMs p))) (\<lambda>_. ret None))
             (\<lambda>e. ret (Some e))) (\<lambda>failure.
       case failure of
         Some e \<Rightarrow>
           seq (ask (\<lambda>s. kr_aborted q (ks_log s))) (\<lambda>aborted.
           seq (safeMediaState env) (\<lambda>media.
           finish_custody env o' (if aborted then CardCancelled else CardIntervention)
             (if aborted then reason_of (interruptReason q) else EjectFailed) media (Some e)))
       | None \<Rightarrow>
           seq (record_evidence env o' EjectCompleted (Some MediaPresented) None None None) (\<lambda>_.
           awaitTake env q p o'))))"

definition returnCard :: "custody_env \<Rightarrow> custody_log custody_request \<Rightarrow> custody_result custody_io" where
  "returnCard env q =
     seq (require_policy_io env (kr_policyId q)) (\<lambda>p.
     withAuthority env (kr_operationId q) RecoveryAuthority (kr_authority q) (eject env q p))"

definition retainCard :: "custody_env \<Rightarrow> custody_log custody_request \<Rightarrow> custody_result custody_io" where
  "retainCard env q =
     seq (require_policy_io env (kr_policyId q)) (\<lambda>_.
     withAuthority env (kr_operationId q) RecoveryAuthority (kr_authority q)
       (\<lambda>o'. retain_card env o' RetainedByPolicy))"

definition observe_card :: "custody_env \<Rightarrow> custody_operation \<Rightarrow> custody_result custody_io" where
  "observe_card env o' =
     seq (safeMediaState env) (\<lambda>media.
     seq (record_evidence env o' MediaObserved (Some media) None None None) (\<lambda>_.
     case media of
       MediaPresented \<Rightarrow> finish_custody env o' CardPresented RecoveryPresented media None
     | MediaInside \<Rightarrow> finish_custody env o' CardInside RecoveryInside media None
     | MediaIsJammed \<Rightarrow> finish_custody env o' CardIntervention MediaJammed media None
     | _ \<Rightarrow> finish_custody env o' CardIntervention CardCustodyUnknown media None))"

definition reconcile_card :: "custody_env \<Rightarrow> string \<Rightarrow> custody_result custody_io" where
  "reconcile_card env operationId =
     withAuthority env operationId ObservationAuthority None (observe_card env)"

definition cardCustodyAllowsCashPresentation :: "card_result \<Rightarrow> bool" where
  "cardCustodyAllowsCashPresentation r \<longleftrightarrow> cr_status r = CardReturned"

text \<open>\<^verbatim>\<open>CompositeCardCustodyEvidenceSink\<close>: every sink in turn, until one throws.\<close>

fun append_to_all :: "(custody_evidence \<Rightarrow> 'w \<Rightarrow> (string + unit) \<times> 'w) list \<Rightarrow> custody_evidence
     \<Rightarrow> 'w \<Rightarrow> (string + unit) \<times> 'w" where
  "append_to_all [] e w = (Inr (), w)"
| "append_to_all (f # fs) e w =
     (case f e w of (Inl x, w') \<Rightarrow> (Inl x, w') | (Inr _, w') \<Rightarrow> append_to_all fs e w')"

section \<open>Evaluation\<close>

lemma call_port_code [code]:
  "call_port f c s = (\<lambda>r. (r, s\<lparr>ks_log := ks_log s @ [c r]\<rparr>)) (f (ks_log s))"
  by (simp add: call_port_def Let_def)

lemmas custody_code [code] =
  evidence_entry_def [THEN fun_cong] record_evidence_def [THEN fun_cong]
  record_best_effort_def [THEN fun_cong] finish_custody_def [THEN fun_cong]
  safeMediaState_def [THEN fun_cong] retain_card_def [THEN fun_cong]
  resolve_custody_def [THEN fun_cong] observe_take_def [THEN fun_cong] awaitTake_def [THEN fun_cong]
  settle_authority_def [THEN fun_cong] under_authority_def [THEN fun_cong]
  withAuthority_def [THEN fun_cong] eject_def [THEN fun_cong] returnCard_def [THEN fun_cong]
  retainCard_def [THEN fun_cong] observe_card_def [THEN fun_cong] reconcile_card_def [THEN fun_cong]

end
