(* ===== verification/Card_Laws.thy ===== *)
theory Card_Laws
  imports Card_Custody
begin

text \<open>
  What the log of a card operation obeys, whatever the reader, the leases and the evidence
  answer: which command may follow what, that evidence claims only what the reader confirmed,
  and that the evidence is numbered without gaps. Each step of the operation keeps it.
\<close>

section \<open>What the log says\<close>

fun is_eject :: "custody_call \<Rightarrow> bool" where
  "is_eject (EjectCard _ _) = True" | "is_eject _ = False"

fun is_retain :: "custody_call \<Rightarrow> bool" where
  "is_retain (RetainCard _) = True" | "is_retain _ = False"

fun is_release :: "custody_call \<Rightarrow> bool" where
  "is_release (ReleaseAuthority _ _ _) = True" | "is_release _ = False"

fun acknowledges :: "custody_call \<Rightarrow> bool" where
  "acknowledges (ReleaseAuthority _ a _) = a" | "acknowledges _ = False"

fun ejected_ok :: "custody_call \<Rightarrow> bool" where
  "ejected_ok (EjectCard _ (Inr _)) = True" | "ejected_ok _ = False"

fun taken_ok :: "custody_call \<Rightarrow> bool" where
  "taken_ok (AwaitTaken _ _ (Inr (taken, _))) = taken" | "taken_ok _ = False"

fun retained_ok :: "custody_call \<Rightarrow> bool" where
  "retained_ok (RetainCard (Inr _)) = True" | "retained_ok _ = False"

fun released_ok :: "custody_call \<Rightarrow> bool" where
  "released_ok (ReleaseAuthority _ _ (Inr _)) = True" | "released_ok _ = False"

fun gives_authority :: "custody_call \<Rightarrow> bool" where
  "gives_authority (AcquireAuthority _ _ _ (Inr _)) = True"
| "gives_authority (TransitionAuthority _ (Inr _)) = True"
| "gives_authority _ = False"

fun stored :: "evidence_action \<Rightarrow> custody_call \<Rightarrow> bool" where
  "stored a (StoreEvidence e (Inr _)) \<longleftrightarrow> ke_action e = a" | "stored a _ \<longleftrightarrow> False"

fun quiet :: "custody_call \<Rightarrow> bool" where
  "quiet (StoreEvidence _ _) = True" | "quiet (ReadMedia _) = True" | "quiet _ = False"

definition evidence_of :: "custody_log \<Rightarrow> custody_evidence list" where
  "evidence_of l = concat (map (\<lambda>c. case c of StoreEvidence e _ \<Rightarrow> [e] | _ \<Rightarrow> []) l)"

lemma evidence_of_simps [simp]:
  "evidence_of [] = []" "evidence_of (l @ k) = evidence_of l @ evidence_of k"
  "evidence_of [StoreEvidence e r] = [e]" "\<not> quiet c \<Longrightarrow> evidence_of [c] = []"
  "evidence_of [ReadMedia m] = []"
  by (auto simp: evidence_of_def split: custody_call.splits)

section \<open>The law\<close>

text \<open>What evidence of an action, with a status for the terminal one, may claim.\<close>

definition honest :: "custody_log \<Rightarrow> evidence_action \<Rightarrow> card_status option \<Rightarrow> bool" where
  "honest l a status \<longleftrightarrow>
     (a = EjectCompleted \<longrightarrow> has ejected_ok l) \<and>
     (a = RetainCompleted \<longrightarrow> has retained_ok l) \<and>
     (a = AuthorityReleased \<longrightarrow> has released_ok l) \<and>
     (a = AuthorityReleaseFailed \<longrightarrow> has is_release l \<and> \<not> has released_ok l) \<and>
     (status = Some CardReturned \<longrightarrow> has ejected_ok l \<and> has taken_ok l) \<and>
     (status = Some CardRetained \<longrightarrow> has retained_ok l)"

definition card_law :: "custody_log \<Rightarrow> custody_call \<Rightarrow> bool" where
  "card_law l c \<longleftrightarrow>
     (case c of
        AcquireAuthority _ _ _ _ \<Rightarrow> l = []
      | TransitionAuthority _ _ \<Rightarrow> l = []
      | EjectCard _ _ \<Rightarrow>
          has gives_authority l \<and> has (stored EjectRequested) l \<and> \<not> has is_eject l \<and>
          \<not> has is_retain l \<and> \<not> has is_release l
      | AwaitTaken _ _ _ \<Rightarrow>
          has ejected_ok l \<and> has (stored EjectCompleted) l \<and> \<not> has is_retain l \<and> \<not> has is_release l
      | RetainCard _ \<Rightarrow>
          has gives_authority l \<and> has (stored RetainRequested) l \<and> \<not> has is_retain l \<and>
          \<not> has is_release l
      | ReadMedia _ \<Rightarrow> has gives_authority l \<and> \<not> has is_release l
      | ReleaseAuthority _ acknowledge _ \<Rightarrow>
          has gives_authority l \<and> \<not> has is_release l \<and>
          (acknowledge \<longrightarrow> has ejected_ok l \<and> has taken_ok l \<or> has retained_ok l)
      | StoreEvidence e _ \<Rightarrow> has gives_authority l \<and> honest l (ke_action e) (ke_status e))"

definition numbered :: "custody_state \<Rightarrow> bool" where
  "numbered s \<longleftrightarrow> 0 \<le> ks_sequence s \<and> map ke_sequence (evidence_of (ks_log s)) = [1..ks_sequence s]"

abbreviation card_lawful :: "custody_log \<Rightarrow> bool" where
  "card_lawful \<equiv> lawful_from card_law []"

definition in_custody :: "custody_state \<Rightarrow> bool" where
  "in_custody s \<longleftrightarrow>
     card_lawful (ks_log s) \<and> numbered s \<and> has gives_authority (ks_log s)"

section \<open>Quiet steps\<close>

text \<open>A step that adds calls of some kind only; a quiet one stores evidence and reads the media.\<close>

definition adds :: "(custody_call \<Rightarrow> bool) \<Rightarrow> custody_state \<Rightarrow> custody_state \<Rightarrow> bool" where
  "adds P s t \<longleftrightarrow> (\<exists>k. ks_log t = ks_log s @ k \<and> list_all P k)"

abbreviation grows :: "custody_state \<Rightarrow> custody_state \<Rightarrow> bool" where
  "grows \<equiv> adds quiet"

interpretation adding: state_frame "adds P" for P
  by unfold_locales (auto simp: adds_def)

lemma grows_refl [simp]: "grows s s"
  by (rule adding.step_refl)

lemma grows_has:
  assumes "grows s t" and "\<And>c. quiet c \<Longrightarrow> \<not> P c"
  shows "has P (ks_log t) = has P (ks_log s)"
proof -
  from assms(1) obtain k where k: "ks_log t = ks_log s @ k" "list_all quiet k" by (auto simp: adds_def)
  from k(2) have "\<not> has P k" using assms(2) by (auto simp: has_set list_all_iff)
  with k(1) show ?thesis by simp
qed

lemma quiet_not:
  assumes "quiet c"
  shows "\<not> is_eject c" "\<not> is_retain c" "\<not> is_release c" "\<not> acknowledges c" "\<not> ejected_ok c"
    "\<not> taken_ok c" "\<not> retained_ok c" "\<not> released_ok c" "\<not> gives_authority c"
  using assms by (cases c; simp)+

lemmas grows_same =
  grows_has [OF _ quiet_not(1)] grows_has [OF _ quiet_not(2)] grows_has [OF _ quiet_not(3)]
  grows_has [OF _ quiet_not(4)] grows_has [OF _ quiet_not(5)] grows_has [OF _ quiet_not(6)]
  grows_has [OF _ quiet_not(7)] grows_has [OF _ quiet_not(8)] grows_has [OF _ quiet_not(9)]

lemma grows_stored: "grows s t \<Longrightarrow> has (stored a) (ks_log s) \<Longrightarrow> has (stored a) (ks_log t)"
  by (auto simp: adds_def)

lemma grows_honest: "grows s t \<Longrightarrow> honest (ks_log t) a m = honest (ks_log s) a m"
  by (simp add: honest_def grows_same)

section \<open>Calls\<close>

lemma wp_call_port:
  "wp (call_port f c) Q R s \<longleftrightarrow>
     (case f (ks_log s) of
        Inl e \<Rightarrow> R e (s\<lparr>ks_log := ks_log s @ [c (Inl e)]\<rparr>)
      | Inr x \<Rightarrow> Q x (s\<lparr>ks_log := ks_log s @ [c (Inr x)]\<rparr>))"
  by (simp add: wp_def call_port_def Let_def split: sum.splits)

lemma in_custody_call:
  assumes "in_custody s" and "card_law (ks_log s) c" and "\<not> (\<exists>e r. c = StoreEvidence e r)"
  shows "in_custody (s\<lparr>ks_log := ks_log s @ [c]\<rparr>)"
proof -
  have "evidence_of [c] = []" using assms(3) by (simp add: evidence_of_def split: custody_call.splits)
  with assms(1,2) show ?thesis by (simp add: in_custody_def numbered_def lawful_from_append)
qed

lemma in_custody_store:
  assumes "in_custody s" and "honest (ks_log s) (ke_action e) (ke_status e)"
    and "ke_sequence e = ks_sequence s + 1"
  shows "in_custody (s\<lparr>ks_sequence := ks_sequence s + 1, ks_log := ks_log s @ [StoreEvidence e r]\<rparr>)"
  using assms by (auto simp: in_custody_def numbered_def lawful_from_append card_law_def upto_rec2)

lemma wp_record_evidence:
  assumes "in_custody s" and "honest (ks_log s) a st"
    and "\<And>t. in_custody t \<Longrightarrow> grows s t \<Longrightarrow> has (stored a) (ks_log t) \<Longrightarrow> Q () t"
    and "\<And>e t. in_custody t \<Longrightarrow> grows s t \<Longrightarrow> (\<And>b. has (stored b) (ks_log t) = has (stored b) (ks_log s)) \<Longrightarrow> R e t"
  shows "wp (record_evidence env o' a m st re f) Q R s"
proof -
  define e where "e = \<lparr>ke_sequence = ks_sequence s + 1, ke_occurredAt = ke_now env (ks_log s),
    ke_operationId = ko_operationId o', ke_logicalService = ke_service env,
    ke_action = a, ke_mediaState = m, ke_status = st, ke_reason = re,
    ke_lease = ko_lease o', ke_failureCode = f\<rparr>"
  define t where "t r = s\<lparr>ks_sequence := ks_sequence s + 1, ks_log := ks_log s @ [StoreEvidence e r]\<rparr>" for r
  have "in_custody (t r)" for r
    unfolding t_def by (rule in_custody_store) (use assms(1,2) in \<open>simp_all add: e_def\<close>)
  moreover have "grows s (t r)" for r by (auto simp: adds_def t_def)
  moreover have "has (stored a) (ks_log (t (Inr u)))" for u by (simp add: t_def e_def)
  moreover have "has (stored b) (ks_log (t (Inl x))) = has (stored b) (ks_log s)" for b x by (simp add: t_def)
  ultimately show ?thesis
    using assms(3) [of "t (Inr ())"] assms(4) [of "t (Inl _)"]
    by (simp add: record_evidence_def evidence_entry_def wp_funs wp_call_port e_def [symmetric] t_def
        split: sum.splits)
qed

lemma wp_best_effort:
  assumes "in_custody s" and "honest (ks_log s) a st"
    and "\<And>t. in_custody t \<Longrightarrow> grows s t \<Longrightarrow> Q () t"
  shows "wp (record_best_effort env o' a m st re f) Q R s"
proof -
  have "wp (record_evidence env o' a m st re f) Q (\<lambda>_. Q ()) s"
    by (rule wp_record_evidence [OF assms(1,2)]) (blast intro: assms(3))+
  then show ?thesis
    by (simp add: record_best_effort_def record_evidence_def evidence_entry_def wp_funs wp_call_port)
qed

lemma wp_safeMediaState:
  assumes "in_custody s" and "\<not> has is_release (ks_log s)"
    and "\<And>m t. in_custody t \<Longrightarrow> grows s t \<Longrightarrow> Q m t"
  shows "wp (safeMediaState env) Q R s"
proof -
  have "in_custody (s\<lparr>ks_log := ks_log s @ [ReadMedia r]\<rparr>)" for r
    by (rule in_custody_call) (use assms(1,2) in \<open>simp_all add: card_law_def in_custody_def\<close>)
  moreover have "grows s (s\<lparr>ks_log := ks_log s @ [ReadMedia r]\<rparr>)" for r by (auto simp: adds_def)
  ultimately show ?thesis
    using assms(3) by (simp add: safeMediaState_def wp_funs wp_call_port split: sum.splits)
qed

section \<open>The steps of an operation\<close>

definition busy :: "custody_state \<Rightarrow> bool" where
  "busy s \<longleftrightarrow> in_custody s \<and> \<not> has is_release (ks_log s) \<and> \<not> has released_ok (ks_log s)"

text \<open>What the status of a result rests on.\<close>

definition backed :: "custody_log \<Rightarrow> card_status \<Rightarrow> bool" where
  "backed l status \<longleftrightarrow>
     (status = CardReturned \<longrightarrow> has ejected_ok l \<and> has taken_ok l) \<and>
     (status = CardRetained \<longrightarrow> has retained_ok l)"

definition concluded :: "custody_result \<Rightarrow> custody_state \<Rightarrow> bool" where
  "concluded r s \<longleftrightarrow> busy s \<and> backed (ks_log s) (cr_status r) \<and> \<not> cr_authorityReleased r"

lemma busy_grows: "busy s \<Longrightarrow> in_custody t \<Longrightarrow> grows s t \<Longrightarrow> busy t"
  by (simp add: busy_def grows_same)

lemma busyD: "busy s \<Longrightarrow> in_custody s" "busy s \<Longrightarrow> \<not> has is_release (ks_log s)"
    "busy s \<Longrightarrow> \<not> has released_ok (ks_log s)"
  by (simp_all add: busy_def)

lemma backed_grows: "grows s t \<Longrightarrow> backed (ks_log t) m = backed (ks_log s) m"
  by (simp add: backed_def grows_same)

lemma wp_record:
  assumes "busy s" and "honest (ks_log s) a None"
    and "\<And>t. busy t \<Longrightarrow> grows s t \<Longrightarrow> has (stored a) (ks_log t) \<Longrightarrow> Q () t"
    and "\<And>e t. busy t \<Longrightarrow> grows s t \<Longrightarrow> (\<And>b. has (stored b) (ks_log t) = has (stored b) (ks_log s)) \<Longrightarrow> R e t"
  shows "wp (record_evidence env o' a m None None f) Q R s"
proof (rule wp_record_evidence)
  show "in_custody s" using assms(1) by (rule busyD)
  show "honest (ks_log s) a None" by (rule assms(2))
qed (use busy_grows [OF assms(1)] assms(3,4) in blast)+

lemma wp_media:
  assumes "busy s" and "\<And>m t. busy t \<Longrightarrow> grows s t \<Longrightarrow> Q m t"
  shows "wp (safeMediaState env) Q R s"
proof (rule wp_safeMediaState)
  show "in_custody s" and "\<not> has is_release (ks_log s)" using assms(1) by (simp_all add: busyD)
qed (use busy_grows [OF assms(1)] assms(2) in blast)

lemma busy_call:
  assumes "busy s" and "card_law (ks_log s) c" and "\<not> quiet c" and "\<not> is_release c"
  shows "busy (s\<lparr>ks_log := ks_log s @ [c]\<rparr>)"
proof -
  have "in_custody (s\<lparr>ks_log := ks_log s @ [c]\<rparr>)"
    by (rule in_custody_call) (use assms in \<open>auto simp: busy_def\<close>)
  moreover have "\<not> released_ok c" using assms(4) by (cases c) simp_all
  ultimately show ?thesis using assms by (simp add: busy_def)
qed

lemma wp_finish_custody:
  assumes "busy s" and "backed (ks_log s) st"
  shows "wp (finish_custody env o' st re m f) concluded (\<lambda>_. busy) s"
proof -
  have "wp (record_best_effort env o' CustodyTerminal (Some m) (Some st) (Some re) f)
      (\<lambda>_. concluded (operation_result env o' st re m f)) (\<lambda>_. busy) s"
  proof (rule wp_best_effort)
    show "in_custody s" using assms(1) by (rule busyD)
    show "honest (ks_log s) CustodyTerminal (Some st)" using assms(2) by (simp add: honest_def backed_def)
  next
    fix t assume "in_custody t" and t: "grows s t"
    then have "busy t" by (rule busy_grows [OF assms(1)])
    with t assms(2) show "concluded (operation_result env o' st re m f) t"
      by (simp add: concluded_def operation_result_def result_record_def backed_grows)
  qed
  then show ?thesis by (simp add: finish_custody_def wp_funs)
qed

lemma wp_media_finish:
  assumes "busy s" and "st \<noteq> CardReturned" and "st \<noteq> CardRetained"
  shows "wp (safeMediaState env) (\<lambda>m. wp (finish_custody env o' st re m f) concluded (\<lambda>_. busy)) (\<lambda>_. busy) s"
  by (rule wp_media [OF assms(1)], rule wp_finish_custody) (simp_all add: backed_def assms(2,3))

lemma wp_retain:
  assumes "busy s" and "\<not> has is_retain (ks_log s)"
  shows "wp (retain_card env o' re) concluded (\<lambda>_. busy) s"
  unfolding retain_card_def
proof (subst wp_seq, rule wp_record [OF assms(1)], goal_cases)
  case (2 t)
  have call: "busy (t\<lparr>ks_log := ks_log t @ [RetainCard r]\<rparr>)" for r
    by (rule busy_call [OF 2(1)])
      (use 2 assms(2) in \<open>auto simp: card_law_def busy_def in_custody_def grows_same\<close>)
  show ?case
    by (auto simp: wp_funs wp_call_port call split: sum.splits
        intro!: wp_record wp_finish_custody wp_media_finish)
      (auto simp: honest_def call backed_def grows_same)
qed (simp_all add: honest_def)

lemma wp_resolve:
  assumes "busy s" and "\<not> has is_retain (ks_log s)"
  shows "wp (resolve_custody env o' a re m) concluded (\<lambda>_. busy) s"
  using assms by (cases a) (simp_all add: resolve_custody_def wp_retain wp_finish_custody backed_def)

lemma wp_awaitTake:
  assumes "busy s" and "has ejected_ok (ks_log s)" and "has (stored EjectCompleted) (ks_log s)"
    and "\<not> has is_retain (ks_log s)"
  shows "wp (awaitTake env q p o') concluded (\<lambda>_. busy) s"
proof -
  have call: "busy (s\<lparr>ks_log := ks_log s @ [AwaitTaken i d r]\<rparr>)" for i d r
    by (rule busy_call [OF assms(1)])
      (use assms in \<open>auto simp: card_law_def busy_def in_custody_def\<close>)
  have returned: "wp (finish_custody env o' CardReturned CardTaken m None) concluded (\<lambda>_. busy) t"
    if "busy t" and t: "grows (s\<lparr>ks_log := ks_log s @ [AwaitTaken i d (Inr (True, m))]\<rparr>) t" for i d m t
    by (rule wp_finish_custody [OF that(1)]) (use assms t in \<open>simp add: backed_def grows_same\<close>)
  have waited: "wp (resolve_custody env o' a TakeTimeout m) concluded (\<lambda>_. busy) t"
    if "busy t" and t: "grows (s\<lparr>ks_log := ks_log s @ [AwaitTaken i d r]\<rparr>) t" for i d m a r t
    by (rule wp_resolve [OF that(1)]) (use assms t in \<open>simp add: grows_same\<close>)
  have lost: "wp (safeMediaState env) (\<lambda>m. wp
        (if \<not> aborted then finish_custody env o' CardIntervention CardCustodyUnknown m (Some e)
         else let reason = interruptReason q in resolve_custody env o'
              (case cp_interruptActions p reason of Some a \<Rightarrow> a | None \<Rightarrow> ActIntervention)
              (reason_of reason) m) concluded (\<lambda>_. busy)) (\<lambda>_. busy) t"
    if "busy t" and t: "grows (s\<lparr>ks_log := ks_log s @ [AwaitTaken i d r]\<rparr>) t" for i d r e aborted t
  proof (rule wp_media [OF that(1)])
    fix m u assume u: "busy u" "grows t u"
    then have "\<not> has is_retain (ks_log u)" using assms t by (simp add: grows_same)
    with u(1) show "wp (if \<not> aborted then finish_custody env o' CardIntervention CardCustodyUnknown m (Some e)
         else let reason = interruptReason q in resolve_custody env o'
              (case cp_interruptActions p reason of Some a \<Rightarrow> a | None \<Rightarrow> ActIntervention)
              (reason_of reason) m) concluded (\<lambda>_. busy) u"
      by (simp add: wp_finish_custody wp_resolve backed_def Let_def)
  qed
  show ?thesis
    unfolding awaitTake_def observe_take_def
    by (auto simp: wp_funs wp_call_port call split: sum.splits
        intro!: wp_record lost)
      (auto simp: honest_def call intro: returned waited grows_refl)
qed

lemma wp_eject:
  assumes "busy s" and "\<not> has is_eject (ks_log s)" and "\<not> has is_retain (ks_log s)"
  shows "wp (eject env q p o') concluded (\<lambda>_. busy) s"
proof -
  have ejecting: "wp (handle (seq (call_port (ke_eject env) (EjectCard d)) (\<lambda>_. ret None)) (\<lambda>e. ret (Some e)))
      (\<lambda>failure t. busy t \<and> \<not> has is_retain (ks_log t) \<and>
         (failure = None \<longrightarrow> has ejected_ok (ks_log t))) (\<lambda>_. busy) t"
    if "busy t" and t: "grows s t" and "has (stored EjectRequested) (ks_log t)" for d t
  proof -
    have "busy (t\<lparr>ks_log := ks_log t @ [EjectCard d r]\<rparr>)" for r
      by (rule busy_call [OF that(1)])
        (use that assms in \<open>auto simp: card_law_def busy_def in_custody_def grows_same\<close>)
    with t assms(3) show ?thesis by (simp add: wp_funs wp_call_port grows_same split: sum.splits)
  qed
  have after: "wp (case failure of
         Some e \<Rightarrow>
           seq (ask (\<lambda>s. kr_aborted q (ks_log s))) (\<lambda>aborted.
           seq (safeMediaState env) (\<lambda>media.
           finish_custody env o' (if aborted then CardCancelled else CardIntervention)
             (if aborted then reason_of (interruptReason q) else EjectFailed) media (Some e)))
       | None \<Rightarrow>
           seq (record_evidence env o' EjectCompleted (Some MediaPresented) None None None) (\<lambda>_.
           awaitTake env q p o')) concluded (\<lambda>_. busy) t"
    if t: "busy t" "\<not> has is_retain (ks_log t)" "failure = None \<longrightarrow> has ejected_ok (ks_log t)" for failure t
  proof (cases failure)
    case None
    then show ?thesis using t
      by (auto simp: wp_funs honest_def grows_same intro!: wp_record wp_awaitTake)
  next
    case (Some e)
    then show ?thesis using t by (simp add: wp_funs wp_media_finish)
  qed
  show ?thesis
    unfolding eject_def wp_seq wp_ask
    by (auto simp: wp_finish_custody assms(1) backed_def wp_seq honest_def
        intro!: wp_record [OF assms(1)] wp_weaken [OF ejecting] after)
qed

lemma wp_observe_card:
  assumes "busy s"
  shows "wp (observe_card env o') concluded (\<lambda>_. busy) s"
  unfolding observe_card_def wp_seq
proof (rule wp_media [OF assms])
  fix m t assume "busy t"
  then show "wp (record_evidence env o' MediaObserved (Some m) None None None)
      (\<lambda>_. wp (case m of
         MediaPresented \<Rightarrow> finish_custody env o' CardPresented RecoveryPresented m None
       | MediaInside \<Rightarrow> finish_custody env o' CardInside RecoveryInside m None
       | MediaIsJammed \<Rightarrow> finish_custody env o' CardIntervention MediaJammed m None
       | _ \<Rightarrow> finish_custody env o' CardIntervention CardCustodyUnknown m None) concluded (\<lambda>_. busy))
      (\<lambda>_. busy) t"
    by (cases m) (auto simp: honest_def backed_def intro!: wp_record wp_finish_custody)
qed

section \<open>What a step adds to the log\<close>

abbreviation extends :: "custody_state \<Rightarrow> custody_state \<Rightarrow> bool" where
  "extends \<equiv> adds (\<lambda>_. True)"

lemma adds_has: "adds Q s t \<Longrightarrow> has P (ks_log s) \<Longrightarrow> has P (ks_log t)"
  by (auto simp: adds_def)

lemma adds_call: "(\<And>r. P (c r)) \<Longrightarrow> stays (adds P) (call_port f c)"
  by (simp add: adding.stays_iff wp_call_port adds_def split: sum.splits)

lemma adds_change: "(\<And>s. ks_log (f s) = ks_log s) \<Longrightarrow> stays (adds P) (change f)"
  by (simp add: adding.stays_iff wp_simps adds_def)

lemma adds_evidence: "stays (adds P) (evidence_entry env o' a m st re f)"
  by (simp add: adding.stays_iff evidence_entry_def wp_simps adds_def)

lemmas adds_rules = adding.stays_rules adds_call adds_change adds_evidence

locale covers_quiet =
  fixes P :: "custody_call \<Rightarrow> bool"
  assumes quiet: "quiet c \<Longrightarrow> P c"
begin

lemma adds_best: "stays (adds P) (record_best_effort env o' a m st re f)"
  unfolding record_best_effort_def by (intro adds_rules) (simp add: quiet)

lemma adds_finish: "stays (adds P) (finish_custody env o' st re m f)"
  unfolding finish_custody_def by (intro adds_rules adds_best)

lemma adds_record: "stays (adds P) (record_evidence env o' a m st re f)"
  unfolding record_evidence_def by (intro adds_rules) (simp add: quiet)

lemma adds_media: "stays (adds P) (safeMediaState env)"
  unfolding safeMediaState_def by (intro adds_rules) (simp add: quiet)

lemma adds_observe_card: "stays (adds P) (observe_card env o')"
  unfolding observe_card_def
  by (auto intro!: adds_rules adds_finish adds_record adds_media split: media_state.splits)

end

locale covers_authority = covers_quiet +
  assumes acquires: "P (AcquireAuthority i g m x)"
    and transfers: "P (TransitionAuthority l y)"
    and releases: "P (ReleaseAuthority l a y)"
begin

lemma adds_settle: "stays (adds P) (settle_authority env o' r)"
  unfolding settle_authority_def Let_def
proof (intro adds_rules)
  fix failure
  show "stays (adds P) (case failure of
        None \<Rightarrow>
          seq (record_best_effort env o' AuthorityReleased None None None None) (\<lambda>_.
          ret (r\<lparr>cr_authorityReleased := True\<rparr>))
      | Some e \<Rightarrow>
          seq (record_best_effort env o' AuthorityReleaseFailed None None None (Some e)) (\<lambda>_.
          ret (r\<lparr>cr_authorityReleased := False,
                 cr_failureCode := (case cr_failureCode r of None \<Rightarrow> Some e | c \<Rightarrow> c)\<rparr>)))"
    by (cases failure) (simp_all add: adds_rules adds_best)
qed (rule releases)

lemma adds_under: "stays (adds P) (execute o') \<Longrightarrow> stays (adds P) (under_authority env o' execute)"
  unfolding under_authority_def by (intro adds_rules adds_record adds_settle) simp_all

lemma adds_withAuthority:
  "(\<And>o'. stays (adds P) (execute o')) \<Longrightarrow> stays (adds P) (withAuthority env i m existing execute)"
  unfolding withAuthority_def
  by (cases existing) (auto intro!: adds_rules adds_under acquires transfers split: sum.split)

end

text \<open>Any call, and the calls that give the reader no command.\<close>

fun watching :: "custody_call \<Rightarrow> bool" where
  "watching (EjectCard _ _) = False"
| "watching (RetainCard _) = False"
| "watching (AwaitTaken _ _ _) = False"
| "watching _ = True"

interpretation any_call: covers_quiet "\<lambda>_. True"
  by unfold_locales simp

interpretation watch: covers_authority watching
proof
  show "watching c" if "quiet c" for c using that by (cases c) simp_all
qed simp_all

lemma watching_acknowledges_nothing:
  assumes "list_all watching l" and "card_lawful l"
  shows "\<not> has acknowledges l"
proof
  assume "has acknowledges l"
  then obtain i c k where l: "l = i @ c # k" "acknowledges c" by (metis has_set split_list)
  from assms(2) have "card_law i c" unfolding l(1) by (rule lawful_split)
  with l(2) have "has ejected_ok i \<or> has retained_ok i" by (cases c) (auto simp: card_law_def)
  moreover have "\<not> ejected_ok c \<and> \<not> retained_ok c" if "watching c" for c using that by (cases c) simp_all
  then have "\<not> has ejected_ok i \<and> \<not> has retained_ok i"
    using assms(1) l(1) by (simp add: has_set list_all_iff)
  ultimately show False by blast
qed

lemmas extends_parts = any_call.adds_finish any_call.adds_record any_call.adds_media

lemma extends_retain: "stays extends (retain_card env o' re)"
  unfolding retain_card_def
  by (auto intro!: adds_rules extends_parts split: option.splits)

lemma extends_resolve: "stays extends (resolve_custody env o' a re m)"
  by (cases a) (simp_all add: resolve_custody_def extends_retain extends_parts)

lemma extends_awaitTake: "stays extends (awaitTake env q p o')"
  unfolding awaitTake_def observe_take_def Let_def
  by (auto intro!: adds_rules extends_parts extends_resolve split: sum.splits)

lemma extends_eject: "stays extends (eject env q p o')"
  unfolding eject_def
  by (auto intro!: adds_rules extends_parts extends_awaitTake split: option.splits)

section \<open>The authority\<close>

definition settled :: "custody_result \<Rightarrow> custody_state \<Rightarrow> bool" where
  "settled r s \<longleftrightarrow>
     in_custody s \<and> backed (ks_log s) (cr_status r) \<and> has is_release (ks_log s) \<and>
     has (stored AuthorityAcquired) (ks_log s) \<and> (cr_authorityReleased r \<longleftrightarrow> has released_ok (ks_log s))"

definition unsettled :: "custody_state \<Rightarrow> bool" where
  "unsettled s \<longleftrightarrow>
     card_lawful (ks_log s) \<and> numbered s \<and> \<not> has is_release (ks_log s) \<and>
     \<not> has (stored AuthorityAcquired) (ks_log s)"

lemma wp_settle_authority:
  assumes "concluded r s" and "has (stored AuthorityAcquired) (ks_log s)"
  shows "wp (settle_authority env o' r) settled (\<lambda>_ _. False) s"
proof -
  define a where "a \<longleftrightarrow> cr_status r = CardReturned \<or> cr_status r = CardRetained"
  have s: "in_custody s" "\<not> has is_release (ks_log s)" "\<not> has released_ok (ks_log s)"
    "backed (ks_log s) (cr_status r)"
    using assms(1) by (simp_all add: concluded_def busy_def)
  have call: "in_custody (s\<lparr>ks_log := ks_log s @ [ReleaseAuthority l a x]\<rparr>)" for l x
    by (rule in_custody_call [OF s(1)])
      (use s in \<open>auto simp: card_law_def in_custody_def backed_def a_def\<close>)
  have best: "wp (record_best_effort env o' b None None None f)
      (\<lambda>_. settled r') (\<lambda>_ _. False)
      (s\<lparr>ks_log := ks_log s @ [ReleaseAuthority l a x]\<rparr>)"
    if "cr_status r' = cr_status r" "cr_authorityReleased r' \<longleftrightarrow> \<not> isl x"
      "b = (if isl x then AuthorityReleaseFailed else AuthorityReleased)" for b f l x r'
  proof (rule wp_best_effort [OF call])
    show "honest (ks_log (s\<lparr>ks_log := ks_log s @ [ReleaseAuthority l a x]\<rparr>)) b None"
      using that s(3) by (cases x) (auto simp: honest_def)
  next
    fix t assume t: "in_custody t" "grows (s\<lparr>ks_log := ks_log s @ [ReleaseAuthority l a x]\<rparr>) t"
    have "has (stored AuthorityAcquired) (ks_log t)"
      by (rule grows_stored [OF t(2)]) (use assms(2) in simp)
    with t that s show "settled r' t"
      by (cases x) (auto simp: settled_def grows_same backed_def)
  qed
  show ?thesis
    unfolding settle_authority_def a_def [symmetric] Let_def
    by (auto simp: wp_funs wp_call_port split: sum.splits intro!: best)
qed

lemma wp_under_authority:
  assumes "ks_log s = [c]" and "gives_authority c" and "card_lawful [c]"
    and execute: "\<And>t. busy t \<Longrightarrow> \<not> has is_eject (ks_log t) \<Longrightarrow> \<not> has is_retain (ks_log t) \<Longrightarrow>
      wp (execute o') concluded (\<lambda>_. busy) t"
    and growing: "stays extends (execute o')"
  shows "wp (under_authority env o' execute) settled (\<lambda>_. unsettled) s"
proof -
  define t where "t = s\<lparr>ks_sequence := 0\<rparr>"
  have "evidence_of [c] = []" using assms(2) by (cases c) (simp_all add: evidence_of_def)
  then have t: "busy t" "\<not> has is_eject (ks_log t)" "\<not> has is_retain (ks_log t)"
      "\<not> has (stored AuthorityAcquired) (ks_log t)"
    using assms(1-3) by (cases c; simp add: t_def busy_def in_custody_def numbered_def)+
  have settle: "wp (settle_authority env o' r) settled (\<lambda>_. unsettled) v"
    if "concluded r v" and "has (stored AuthorityAcquired) (ks_log v)" for r v
    by (rule wp_weaken [OF wp_settle_authority [OF that]]) simp_all
  have run: "wp (handle (execute o') (\<lambda>e.
        ret (operation_result env o' CardIntervention EvidenceWriteFailed MediaUnknown (Some e))))
      (\<lambda>r. wp (settle_authority env o' r) settled (\<lambda>_. unsettled)) (\<lambda>_. unsettled) u"
    if u: "busy u" "grows t u" "has (stored AuthorityAcquired) (ks_log u)" for u
  proof -
    have "wp (execute o') concluded (\<lambda>_. busy) u"
      by (rule execute) (use u t in \<open>simp_all add: grows_same\<close>)
    from stays_conj [OF growing this] show ?thesis
      unfolding wp_handle wp_ret
      by (rule wp_weaken)
        (use u in \<open>auto intro!: settle simp: adds_has concluded_def backed_def operation_result_def result_record_def\<close>)
  qed
  have "wp (record_evidence env o' AuthorityAcquired None None None None)
      (\<lambda>_. wp (handle (execute o') (\<lambda>e.
        ret (operation_result env o' CardIntervention EvidenceWriteFailed MediaUnknown (Some e))))
      (\<lambda>r. wp (settle_authority env o' r) settled (\<lambda>_. unsettled)) (\<lambda>_. unsettled)) (\<lambda>_. unsettled) t"
    by (rule wp_record [OF t(1)])
      (use t run in \<open>auto simp: honest_def unsettled_def busy_def in_custody_def\<close>)
  then show ?thesis by (simp add: under_authority_def wp_seq [abs_def] wp_change t_def)
qed

section \<open>The service\<close>

definition custody_start :: custody_state where
  "custody_start = \<lparr>ks_sequence = 0, ks_log = []\<rparr>"

datatype custody_method = ReturnMethod | RetainMethod | ReconcileMethod

fun run_custody :: "custody_env \<Rightarrow> custody_log custody_request \<Rightarrow> custody_method \<Rightarrow> custody_result custody_io" where
  "run_custody env q ReturnMethod = returnCard env q"
| "run_custody env q RetainMethod = retainCard env q"
| "run_custody env q ReconcileMethod = reconcile_card env (kr_operationId q)"

definition served :: "custody_result \<Rightarrow> custody_state \<Rightarrow> bool" where
  "served r s \<longleftrightarrow>
     settled r s \<or>
     unsettled s \<and> \<not> has gives_authority (ks_log s) \<and> \<not> cr_authorityReleased r \<and>
     cr_status r = CardIntervention \<and> cr_reason r = AuthorityRejected"

lemma wp_withAuthority:
  assumes execute: "\<And>o' t. busy t \<Longrightarrow> \<not> has is_eject (ks_log t) \<Longrightarrow> \<not> has is_retain (ks_log t) \<Longrightarrow>
      wp (execute o') concluded (\<lambda>_. busy) t"
    and growing: "\<And>o'. stays extends (execute o')"
    and mode: "existing \<noteq> None \<longrightarrow> mode = RecoveryAuthority"
  shows "wp (withAuthority env i mode existing execute) served (\<lambda>_. unsettled) custody_start"
proof -
  have under: "wp (under_authority env o' execute) served (\<lambda>_. unsettled)
      (custody_start\<lparr>ks_log := ks_log custody_start @ [c]\<rparr>)" if "gives_authority c" for o' c
  proof -
    have "card_lawful [c]" using that by (cases c) (simp_all add: card_law_def)
    then have "wp (under_authority env o' execute) settled (\<lambda>_. unsettled)
        (custody_start\<lparr>ks_log := ks_log custody_start @ [c]\<rparr>)"
      by (intro wp_under_authority [of _ c] that execute growing) (simp_all add: custody_start_def)
    then show ?thesis by (rule wp_weaken) (simp_all add: served_def)
  qed
  have refused: "unsettled (custody_start\<lparr>ks_log := ks_log custody_start @ [c]\<rparr>)"
    if "c = AcquireAuthority i g m (Inl e) \<or> c = TransitionAuthority l (Inl e)" for c i g m l e
    using that by (auto simp: unsettled_def custody_start_def numbered_def card_law_def evidence_of_def)
  show ?thesis
    using mode
    by (auto simp: withAuthority_def wp_funs wp_call_port under refused served_def result_record_def
        split: option.splits sum.splits)
      (auto simp: custody_start_def)
qed

lemma wp_run_custody: "wp (run_custody env q m) served (\<lambda>_. unsettled) custody_start"
proof -
  have policy: "wp (require_policy_io env k) (\<lambda>_ t. t = custody_start) (\<lambda>_. unsettled) custody_start" for k
    by (simp add: wp_def require_policy_io_def unsettled_def custody_start_def numbered_def evidence_of_def
        split: sum.splits)
  show ?thesis
  proof (cases m)
    case ReturnMethod
    have "wp (returnCard env q) served (\<lambda>_. unsettled) custody_start"
      unfolding returnCard_def wp_seq
      by (rule wp_weaken [OF policy]) (auto intro!: wp_withAuthority wp_eject extends_eject)
    with ReturnMethod show ?thesis by simp
  next
    case RetainMethod
    have "wp (retainCard env q) served (\<lambda>_. unsettled) custody_start"
      unfolding retainCard_def wp_seq
      by (rule wp_weaken [OF policy]) (auto intro!: wp_withAuthority wp_retain extends_retain)
    with RetainMethod show ?thesis by simp
  next
    case ReconcileMethod
    have "wp (reconcile_card env i) served (\<lambda>_. unsettled) custody_start" for i
      unfolding reconcile_card_def by (auto intro!: wp_withAuthority wp_observe_card any_call.adds_observe_card)
    with ReconcileMethod show ?thesis by simp
  qed
qed

lemma run_lawful: "card_lawful (ks_log (snd (run_custody env q m custody_start)))"
  and run_numbered: "numbered (snd (run_custody env q m custody_start))"
proof -
  have "wp (run_custody env q m) (\<lambda>_ t. card_lawful (ks_log t) \<and> numbered t)
      (\<lambda>_ t. card_lawful (ks_log t) \<and> numbered t) custody_start"
    by (rule wp_weaken [OF wp_run_custody])
      (auto simp: served_def settled_def unsettled_def in_custody_def)
  then show "card_lawful (ks_log (snd (run_custody env q m custody_start)))"
    and "numbered (snd (run_custody env q m custody_start))"
    by (simp_all add: wp_always)
qed

end
