(* ===== verification/Card_Properties.thy ===== *)
theory Card_Properties
  imports Card_Laws
begin

text \<open>
  The properties of the card custody service: the order of the commands it gives the reader,
  what its results and its evidence rest on, how its authority is settled, and that
  reconciliation commands nothing. Each is applied to a concrete operation.
\<close>

section \<open>A concrete service\<close>

definition card_policy :: custody_policy where
  "card_policy = \<lparr>cp_id = ''std'', cp_version = ''1'', cp_takeTimeoutMs = 30000, cp_pollIntervalMs = 250,
     cp_takeTimeoutAction = ActRetain, cp_interruptActions = (\<lambda>_. None)\<rparr>"

definition card_env :: "bool \<Rightarrow> (custody_log \<Rightarrow> custody_evidence \<Rightarrow> string + unit) \<Rightarrow> custody_env" where
  "card_env taken sink =
     \<lparr>ke_service = ''card'', ke_resourceGroup = None,
      ke_policies = \<lparr>rg_entries = [(''std'', card_policy)], rg_frozen = True\<rparr>,
      ke_now = (\<lambda>_. ''2026-01-01T00:00:00.000Z''),
      ke_acquire = (\<lambda>_ _. Inr \<lparr>cl_epoch = ''e1'', cl_token = 7\<rparr>),
      ke_transition = (\<lambda>_. Inr ()), ke_release = (\<lambda>_ _. Inr ()), ke_append = sink,
      ke_eject = (\<lambda>_. Inr ()), ke_waitForTaken = (\<lambda>_. Inr (taken, if taken then MediaNotPresent else MediaPresented)),
      ke_retain = (\<lambda>_. Inr ()), ke_media = (\<lambda>_. Inr MediaPresented)\<rparr>"

definition card_request :: "custody_log custody_request" where
  "card_request = \<lparr>kr_operationId = ''op1'', kr_policyId = ''std'', kr_authority = None,
     kr_aborted = (\<lambda>_. False), kr_signalReason = None, kr_interruptReason = None\<rparr>"

text \<open>A card taken, one whose customer left it, and one whose first evidence is not stored.\<close>

definition good_env :: custody_env where
  "good_env = card_env True (\<lambda>_ _. Inr ())"

definition left_env :: custody_env where
  "left_env = card_env False (\<lambda>_ _. Inr ())"

definition full_env :: custody_env where
  "full_env = card_env True (\<lambda>_ _. Inl ''ENOSPC'')"

definition result_of :: "(string + custody_result) \<times> custody_state \<Rightarrow> custody_result option" where
  "result_of x = (case fst x of Inr r \<Rightarrow> Some r | Inl _ \<Rightarrow> None)"

lemma result_ofD: "result_of x = Some r \<Longrightarrow> x = (Inr r, snd x)"
  by (cases x) (auto simp: result_of_def split: sum.splits)

lemma good_status: "map_option cr_status (result_of (run_custody good_env card_request ReturnMethod custody_start)) = Some CardReturned"
  by code_simp

lemma left_status: "map_option cr_status (result_of (run_custody left_env card_request ReturnMethod custody_start)) = Some CardRetained"
  by code_simp

section \<open>Commands\<close>

text \<open>
  C31. Whatever the reader, the leases and the evidence answer, and whichever of its methods
  is called, the custody service keeps to its order: a card is ejected at most once, under an
  authority it holds and after the request was stored; its taking is awaited only after an
  ejection that succeeded and was stored; it is retained at most once, after the request was
  stored; nothing is commanded after the authority is released, which happens at most once and
  acknowledges protection only if the card was reported taken or retained; and evidence of an
  ejection, a retention, a release or a final custody is offered only once the call it speaks
  of has succeeded.
\<close>

theorem card_commands_in_order:
  assumes "ks_log (snd (run_custody env q m custody_start)) = i @ c # k"
  shows "card_law i c"
  using run_lawful [of env q m] unfolding assms by (rule lawful_split)

theorem card_commands_in_order_witness:
  "card_law (take 4 (ks_log (snd (run_custody left_env card_request ReturnMethod custody_start))))
     (ks_log (snd (run_custody left_env card_request ReturnMethod custody_start)) ! 4)"
  by (rule card_commands_in_order [OF id_take_nth_drop]) code_simp

text \<open>
  The evidence an operation offers is numbered from one without gaps or repeats, also
  where the sink refused some of it.
\<close>

theorem card_evidence_is_numbered:
  "map ke_sequence (evidence_of (ks_log (snd (run_custody env q m custody_start)))) =
     [1..int (length (evidence_of (ks_log (snd (run_custody env q m custody_start)))))]"
proof -
  define l where "l = evidence_of (ks_log (snd (run_custody env q m custody_start)))"
  obtain n where n: "map ke_sequence l = [1..n]" "0 \<le> n"
    using run_numbered [of env q m] by (auto simp: numbered_def l_def)
  from arg_cong [OF n(1), of length] n(2) have "int (length l) = n" by simp
  with n show ?thesis by (simp add: l_def)
qed

section \<open>Results\<close>

text \<open>
  C30. A result says what the reader confirmed: a card is returned only if its ejection
  succeeded and the reader reported it taken, retained only if the reader retained it; and
  cash may be presented after card custody only for a card so returned.
\<close>

theorem card_result_is_evidenced:
  assumes "run_custody env q m custody_start = (Inr r, t)"
  shows "(cr_status r = CardReturned \<longrightarrow> has ejected_ok (ks_log t) \<and> has taken_ok (ks_log t)) \<and>
    (cr_status r = CardRetained \<longrightarrow> has retained_ok (ks_log t)) \<and>
    (cardCustodyAllowsCashPresentation (card_result.truncate r) \<longrightarrow> has ejected_ok (ks_log t) \<and> has taken_ok (ks_log t))"
  using wp_result [OF wp_run_custody assms]
  by (auto simp: served_def settled_def backed_def cardCustodyAllowsCashPresentation_def card_result.truncate_def)

theorem card_result_is_evidenced_witness:
  "\<exists>r. result_of (run_custody left_env card_request ReturnMethod custody_start) = Some r \<and>
     cr_status r = CardRetained \<and>
     has retained_ok (ks_log (snd (run_custody left_env card_request ReturnMethod custody_start)))"
proof -
  from left_status obtain r where r: "result_of (run_custody left_env card_request ReturnMethod custody_start) = Some r"
    "cr_status r = CardRetained" by auto
  from card_result_is_evidenced [OF result_ofD [OF r(1)]] r show ?thesis by blast
qed

text \<open>
  C32. An operation that returns has settled its authority: it was released if the result
  says so, and only an operation whose authority was refused has tried no release. One that
  throws has released nothing.
\<close>

theorem card_authority_is_settled:
  "wp (run_custody env q m)
     (\<lambda>r t. (cr_authorityReleased r \<longleftrightarrow> has released_ok (ks_log t)) \<and>
        (has is_release (ks_log t) \<or> cr_reason r = AuthorityRejected \<and> \<not> has gives_authority (ks_log t)))
     (\<lambda>_ t. \<not> has is_release (ks_log t) \<and> \<not> has (stored AuthorityAcquired) (ks_log t)) custody_start"
proof (rule wp_weaken [OF wp_run_custody])
  fix r t assume "served r t"
  moreover have "has is_release l" if "has released_ok l" for l
    using that by (auto simp: has_set elim!: released_ok.elims) force
  ultimately show "(cr_authorityReleased r \<longleftrightarrow> has released_ok (ks_log t)) \<and>
      (has is_release (ks_log t) \<or> cr_reason r = AuthorityRejected \<and> \<not> has gives_authority (ks_log t))"
    by (auto simp: served_def settled_def unsettled_def)
qed (simp add: unsettled_def)

text \<open>
  An authority whose acquisition cannot be stored is lost: the service throws the
  error of the evidence sink and never gives the authority back.
\<close>

theorem unrecorded_authority_is_kept:
  assumes "require_custody_policy (ke_policies env) (kr_policyId q) = Inr p" and "kr_authority q = None"
    and "ke_acquire env [] RecoveryAuthority = Inr l" and "\<And>l e. ke_append env l e = Inl x"
  shows "fst (run_custody env q ReturnMethod custody_start) = Inl x \<and>
    \<not> has is_release (ks_log (snd (run_custody env q ReturnMethod custody_start)))"
  using assms
  by (simp add: returnCard_def seq_def require_policy_io_def withAuthority_def handle_def call_port_def
      Let_def custody_start_def ret_def under_authority_def change_def record_evidence_def
      evidence_entry_def ask_def)

theorem unrecorded_authority_is_kept_witness:
  "fst (run_custody full_env card_request ReturnMethod custody_start) = Inl ''ENOSPC'' \<and>
     \<not> has is_release (ks_log (snd (run_custody full_env card_request ReturnMethod custody_start)))"
  by (rule unrecorded_authority_is_kept [where p = card_policy and l = "\<lparr>cl_epoch = ''e1'', cl_token = 7\<rparr>"])
    (simp_all add: full_env_def card_env_def card_request_def require_custody_policy_def lookup_def)

text \<open>
  Reconciling a card only watches: it gives the reader no command, and whatever it finds
  it acknowledges no protection when it releases its authority.
\<close>

theorem reconciliation_only_watches:
  "list_all watching (ks_log (snd (reconcile_card env operationId custody_start))) \<and>
   \<not> has acknowledges (ks_log (snd (reconcile_card env operationId custody_start)))"
proof -
  define l where "l = ks_log (snd (reconcile_card env operationId custody_start))"
  have "stays (adds watching) (reconcile_card env operationId)"
    unfolding reconcile_card_def by (intro watch.adds_withAuthority watch.adds_observe_card)
  then have l: "list_all watching l"
    by (auto simp: stays_def adds_def custody_start_def l_def elim!: allE [of _ custody_start])
  have "card_lawful l"
    using run_lawful [of env "card_request\<lparr>kr_operationId := operationId\<rparr>" ReconcileMethod] by (simp add: l_def)
  then have "\<not> has acknowledges l" by (rule watching_acknowledges_nothing [OF l])
  with l show ?thesis by (simp add: l_def)
qed

end
