(* ===== verification/Acceptance_Policy.thy ===== *)
theory Acceptance_Policy
  imports Js_Text
begin

text \<open>
  The data of a cash acceptance: \<^verbatim>\<open>packages/xfs-device-service/src\<close>
  (\<^verbatim>\<open>cash-acceptance-contracts.ts\<close>), its policy, the snapshots of the escrow with their
  hash, and the check of an authorization against them (\<^verbatim>\<open>cash-acceptance-policy.ts\<close>),
  and what the cash units tell about where the notes went (\<^verbatim>\<open>cim-cash-unit-evidence.ts\<close>).
  Safe summaries and the details of evidence, which repeat the data they are made of, are left out.
\<close>

section \<open>Contracts\<close>

datatype acceptance_phase =
    AccStarting | AccAccepting | AccEscrowed | AccAuthorizing | AccCommitting | AccRollingBack
  | AccRetracting | AccCompleted | AccFailed

datatype note_custody =
    ByCustomer | InTransport | InEscrow | InCashUnit | AtOutput | InRetractUnit | WhereUnknown

datatype acceptance_reason =
    ReCommitted | ReCancelled | ReTimeout | ReAuthorizationDeclined | ReAuthorizationStale
  | ReReturned | ReRetracted | ReRefusedRetracted | ReRefusedIntervention | ReDeviceError
  | ReFenced | ReRecoveryRequired

datatype abort_reason = AbortCancelled | AbortTimeout

record note_count =
  nc_noteId :: int
  nc_count :: int

record escrow_snapshot =
  es_revision :: int
  es_hash :: string
  es_notes :: "note_count list"
  es_refusedCount :: int
  es_capturedAt :: string

record acceptance_authorization =
  aa_operationId :: string
  aa_revision :: int
  aa_snapshotHash :: string
  aa_approved :: bool
  aa_reason :: "string option"

record cim_unit =
  cu_logicalUnit :: int
  cu_physicalPosition :: string
  cu_physicalUnitId :: string
  cu_currency :: string
  cu_denominationMinorUnits :: int
  cu_count :: int
  cu_cashInCount :: int
  cu_rejectCount :: int
  cu_retractedCount :: int
  cu_status :: int

record destination_evidence = cim_unit +
  cu_depositedCount :: int

record note_portion =
  np_portionId :: string
  np_custody :: note_custody
  np_notes :: "note_count list"
  np_reason :: "string option"

record acceptance_result =
  rs_operationId :: string
  rs_phase :: acceptance_phase
  rs_reason :: acceptance_reason
  rs_committed :: bool
  rs_snapshot :: "escrow_snapshot option"
  rs_portions :: "note_portion list"
  rs_destinationEvidence :: "destination_evidence list option"

datatype refused_status = RefusedNotPresent | RefusedTaken | RefusedRetracted | RefusedIntervention

record refused_resolution =
  rr_status :: refused_status
  rr_refusedCount :: int
  rr_terminalResult :: "acceptance_result option"

datatype shutter_control = ApplicationShutter | ProviderShutter

datatype not_taken_action = NotTakenRetract | NotTakenIntervention

record acceptance_policy =
  ap_inputPosition :: int
  ap_outputPosition :: int
  ap_startTimeoutMs :: int
  ap_acceptTimeoutMs :: int
  ap_takeTimeoutMs :: int
  ap_retractTimeoutMs :: int
  ap_notTakenAction :: not_taken_action
  ap_retractArea :: "int option"
  ap_retractIndex :: "int option"
  ap_useRecycleUnits :: "bool option"

text \<open>What is stored of an operation.\<close>

record acceptance_record =
  ar_operationId :: string
  ar_logicalService :: string
  ar_phase :: acceptance_phase
  ar_revision :: int
  ar_snapshotHash :: "string option"
  ar_authorizationRevision :: "int option"
  ar_authorizationHash :: "string option"
  ar_physicalCommitDispatched :: bool
  ar_terminalReason :: "acceptance_reason option"
  ar_updatedAt :: string

section \<open>Policies\<close>

record policy_input =
  pi_inputPosition :: "int option"
  pi_outputPosition :: "int option"
  pi_startTimeoutMs :: "int option"
  pi_acceptTimeoutMs :: "int option"
  pi_takeTimeoutMs :: "int option"
  pi_retractTimeoutMs :: "int option"
  pi_notTakenAction :: "not_taken_action option"
  pi_retractArea :: "int option"
  pi_retractIndex :: "int option"

definition acceptance_timeout :: "int option \<Rightarrow> string \<Rightarrow> string + int" where
  "acceptance_timeout value name =
     (let result = or_else value 30000 in
      if result \<le> 0 then Inl (name @ '' must be positive'') else Inr result)"

text \<open>The recycle units of the input are not handed on.\<close>

definition normalizeCashAcceptancePolicy :: "policy_input \<Rightarrow> string + acceptance_policy" where
  "normalizeCashAcceptancePolicy p =
     rbind (acceptance_timeout (pi_startTimeoutMs p) ''startTimeoutMs'') (\<lambda>start.
     rbind (acceptance_timeout (pi_acceptTimeoutMs p) ''acceptTimeoutMs'') (\<lambda>accept.
     rbind (acceptance_timeout (pi_takeTimeoutMs p) ''takeTimeoutMs'') (\<lambda>take'.
     rbind (acceptance_timeout (pi_retractTimeoutMs p) ''retractTimeoutMs'') (\<lambda>retract.
     Inr \<lparr>ap_inputPosition = or_else (pi_inputPosition p) 1,
          ap_outputPosition = or_else (pi_outputPosition p) 1,
          ap_startTimeoutMs = start, ap_acceptTimeoutMs = accept, ap_takeTimeoutMs = take',
          ap_retractTimeoutMs = retract,
          ap_notTakenAction = or_else (pi_notTakenAction p) NotTakenRetract,
          ap_retractArea = pi_retractArea p, ap_retractIndex = pi_retractIndex p,
          ap_useRecycleUnits = None\<rparr>))))"

section \<open>Snapshots of the escrow\<close>

text \<open>\<^verbatim>\<open>Math.imul\<close> and \<^verbatim>\<open>^\<close> on 32 bits; each half of the hash has eight
  hexadecimal digits.\<close>

definition hash_half :: "32 word \<Rightarrow> 32 word \<Rightarrow> jstext \<Rightarrow> 32 word" where
  "hash_half start factor t = fold (\<lambda>u h. xor h (ucast u) * factor) t start"

definition hex8 :: "32 word \<Rightarrow> string" where
  "hex8 h = map (\<lambda>d. ''0123456789abcdef'' ! d) (nibbles h)"

definition stableHash :: "jstext \<Rightarrow> string" where
  "stableHash t = hex8 (hash_half 2166136261 16777619 t) @ hex8 (hash_half 2654435769 2246822507 t)"

definition note_json :: "note_count \<Rightarrow> jstext" where
  "note_json n =
     js ''{'' @ json_text ''noteId'' @ js '':'' @ json_int (nc_noteId n) @ js '','' @
     json_text ''count'' @ js '':'' @ json_int (nc_count n) @ js ''}''"

definition snapshot_json :: "int \<Rightarrow> note_count list \<Rightarrow> int \<Rightarrow> jstext" where
  "snapshot_json revision notes refused =
     js ''{'' @ json_text ''revision'' @ js '':'' @ json_int revision @ js '','' @
     json_text ''notes'' @ js '':'' @ json_array (map note_json notes) @ js '','' @
     json_text ''refusedCount'' @ js '':'' @ json_int refused @ js ''}''"

definition createEscrowSnapshot ::
  "note_count list \<Rightarrow> int \<Rightarrow> int \<Rightarrow> string \<Rightarrow> escrow_snapshot" where
  "createEscrowSnapshot notesInput refusedCount revision capturedAt =
     (let notes = sort_key nc_noteId (filter (\<lambda>n. 0 < nc_count n) notesInput);
          refused = max 0 refusedCount in
      \<lparr>es_revision = revision, es_hash = stableHash (snapshot_json revision notes refused),
       es_notes = notes, es_refusedCount = refused, es_capturedAt = capturedAt\<rparr>)"

text \<open>The counts by note, in the order in which the notes first appear.\<close>

definition add_note :: "note_count \<Rightarrow> (int \<times> int) list \<Rightarrow> (int \<times> int) list" where
  "add_note n counts = put (nc_noteId n) (or_else (map_of counts (nc_noteId n)) 0 + nc_count n) counts"

definition mergeNotes :: "note_count list \<Rightarrow> note_count list \<Rightarrow> note_count list" where
  "mergeNotes left right =
     map (\<lambda>(i, c). \<lparr>nc_noteId = i, nc_count = c\<rparr>) (fold add_note (left @ right) [])"

definition note_total :: "note_count list \<Rightarrow> int" where
  "note_total notes = sum_list (map nc_count notes)"

section \<open>Authorizations\<close>

definition assertExactAuthorization ::
  "string \<Rightarrow> escrow_snapshot \<Rightarrow> ('a acceptance_authorization_scheme) \<Rightarrow> string + unit" where
  "assertExactAuthorization operationId snapshot authorization =
     guard_res
       (aa_operationId authorization = operationId \<and> aa_revision authorization = es_revision snapshot \<and>
        aa_snapshotHash authorization = es_hash snapshot) ''authorization-stale''"

section \<open>Where the notes went\<close>

definition unit_key :: "'a cim_unit_scheme \<Rightarrow> jstext" where
  "unit_key u =
     json_int (cu_logicalUnit u) @ js '':'' @ js (cu_physicalPosition u) @ js '':'' @ js (cu_physicalUnitId u)"

definition calculateCashUnitDestinationEvidence ::
  "cim_unit list \<Rightarrow> cim_unit list \<Rightarrow> cim_unit list \<Rightarrow> destination_evidence list" where
  "calculateCashUnitDestinationEvidence before after committed =
     (let previous = fold (\<lambda>u m. put (unit_key u) u m) before [];
          committedKeys = map unit_key committed in
      filter (\<lambda>u. 0 < cu_depositedCount u \<or> unit_key u \<in> set committedKeys)
        (map (\<lambda>u. cim_unit.extend u
            \<lparr>cu_depositedCount =
               max 0 (cu_count u - or_else (map_option cu_count (map_of previous (unit_key u))) (cu_count u))\<rparr>)
          after))"

end
