(* ===== verification/Cash_Acceptance.thy ===== *)
theory Cash_Acceptance
  imports Acceptance_Policy Effects
begin

text \<open>
  One acceptance of cash: \<^verbatim>\<open>CashAcceptanceService\<close> and its session
  (\<^verbatim>\<open>packages/xfs-device-service/src/cash-acceptance.ts\<close>). Batches of notes go into the
  escrow, an authorization of exactly that escrow lets them be committed to the cash units, and
  until then they can be rolled back to the customer. The device, the store, the lease, the entry
  gate and the evidence are ports: functions of the log of the calls made so far, each with its
  answer. A session is used by a caller who has ports of its own; what the caller does in between
  is in the log as \<^theory_text>\<open>CallerCall\<close>, and its fields may extend the session's state.
  The calls of one session follow one another.
\<close>

section \<open>Ports\<close>

record cash_in_capabilities =
  ci_maxCashInItems :: int
  ci_positions :: int
  ci_retractAreas :: int
  ci_shutterControl :: shutter_control

record cash_in_status =
  ct_status :: string
  ct_refusedCount :: "int option"
  ct_notes :: "note_count list option"

datatype 'x acceptance_call =
    AcquireLease "string + int"
  | ReleaseLease "string + unit"
  | AssertCanStart "string + unit"
  | CreateRecord acceptance_record "string + unit"
  | UpdateRecord acceptance_record "string + unit"
  | AppendAcceptance acceptance_phase string string "string + unit"
  | GetCapabilities "string + cash_in_capabilities"
  | CaptureUnits "string + cim_unit list"
  | CashInStart bool "string + unit"
  | OpenShutter "string + unit"
  | CloseShutter "string + unit"
  | CashIn "string + cash_in_status"
  | CashInEnd "string + cim_unit list"
  | CashInRollback "string + unit"
  | WaitTaken "string + bool"
  | RetractEscrow "string + unit"
  | CallerCall 'x

type_synonym 'x acceptance_log = "'x acceptance_call list"

text \<open>The signal of the request: it may be aborted at any time, and what it throws then.\<close>

record 'x acceptance_request =
  aq_operationId :: string
  aq_logicalService :: string
  aq_resourceGroup :: string
  aq_policy :: acceptance_policy
  aq_aborted :: "'x acceptance_log \<Rightarrow> bool"
  aq_abortError :: string

record 'x acceptance_env =
  ae_now :: "'x acceptance_log \<Rightarrow> string"
  ae_acquire :: "'x acceptance_log \<Rightarrow> string + int"
  ae_release :: "'x acceptance_log \<Rightarrow> string + unit"
  ae_assertCanStart :: "'x acceptance_log \<Rightarrow> string + unit"
  ae_create :: "'x acceptance_log \<Rightarrow> acceptance_record \<Rightarrow> string + unit"
  ae_update :: "'x acceptance_log \<Rightarrow> acceptance_record \<Rightarrow> string + unit"
  ae_append :: "'x acceptance_log \<Rightarrow> string \<Rightarrow> string + unit"
  ae_capabilities :: "'x acceptance_log \<Rightarrow> string + cash_in_capabilities"
  ae_captureUnits :: "'x acceptance_log \<Rightarrow> string + cim_unit list"
  ae_cashInStart :: "'x acceptance_log \<Rightarrow> string + unit"
  ae_openShutter :: "'x acceptance_log \<Rightarrow> string + unit"
  ae_closeShutter :: "'x acceptance_log \<Rightarrow> string + unit"
  ae_cashIn :: "'x acceptance_log \<Rightarrow> string + cash_in_status"
  ae_cashInEnd :: "'x acceptance_log \<Rightarrow> string + cim_unit list"
  ae_cashInRollback :: "'x acceptance_log \<Rightarrow> string + unit"
  ae_waitTaken :: "'x acceptance_log \<Rightarrow> string + bool"
  ae_retract :: "'x acceptance_log \<Rightarrow> string + unit"

record 'x acceptance_state =
  as_record :: acceptance_record
  as_snapshot :: "escrow_snapshot option"
  as_log :: "'x acceptance_log"

type_synonym ('x, 'z, 'a) acceptance_io = "(('x, 'z) acceptance_state_scheme, string, 'a) io"

text \<open>What a session is made with.\<close>

record 'x acceptance_session =
  an_request :: "'x acceptance_request"
  an_fencingToken :: int
  an_shutterControl :: shutter_control
  an_inventoryBefore :: "cim_unit list"

definition acc_call ::
  "('x acceptance_log \<Rightarrow> string + 'a) \<Rightarrow> (string + 'a \<Rightarrow> 'x acceptance_call) \<Rightarrow> ('x, 'z, 'a) acceptance_io" where
  "acc_call f c s = (let r = f (as_log s) in (r, s\<lparr>as_log := as_log s @ [c r]\<rparr>))"

definition add_evidence :: "'x acceptance_env \<Rightarrow> string \<Rightarrow> ('x, 'z, unit) acceptance_io" where
  "add_evidence env event =
     seq (ask (\<lambda>s. (ar_phase (as_record s), ae_now env (as_log s)))) (\<lambda>(phase, now).
     acc_call (\<lambda>l. ae_append env l event) (AppendAcceptance phase event now))"

definition throwIfAborted :: "'x acceptance_request \<Rightarrow> ('x, 'z, unit) acceptance_io" where
  "throwIfAborted q =
     seq (ask (\<lambda>s. aq_aborted q (as_log s))) (\<lambda>aborted. require (\<not> aborted) (aq_abortError q))"

section \<open>Start\<close>

definition new_record :: "'x acceptance_request \<Rightarrow> string \<Rightarrow> acceptance_record" where
  "new_record q now =
     \<lparr>ar_operationId = aq_operationId q, ar_logicalService = aq_logicalService q,
      ar_phase = AccStarting, ar_revision = 0, ar_snapshotHash = None,
      ar_authorizationRevision = None, ar_authorizationHash = None,
      ar_physicalCommitDispatched = False, ar_terminalReason = None, ar_updatedAt = now\<rparr>"

definition release_lease :: "'x acceptance_env \<Rightarrow> ('x, 'z, unit) acceptance_io" where
  "release_lease env = acc_call (ae_release env) ReleaseLease"

text \<open>Release the lease and throw the exception again; a release that throws wins.\<close>

definition releasing :: "'x acceptance_env \<Rightarrow> ('x, 'z, 'a) acceptance_io \<Rightarrow> ('x, 'z, 'a) acceptance_io" where
  "releasing env m = handle m (\<lambda>e. seq (release_lease env) (\<lambda>_. raise e))"

definition begin_cash_in ::
  "'x acceptance_env \<Rightarrow> 'x acceptance_request \<Rightarrow> int \<Rightarrow> ('x, 'z, 'x acceptance_session) acceptance_io" where
  "begin_cash_in env q token =
     seq (acc_call (ae_capabilities env) GetCapabilities) (\<lambda>capabilities.
     seq (acc_call (ae_captureUnits env) CaptureUnits) (\<lambda>inventoryBefore.
     seq (acc_call (ae_cashInStart env) (CashInStart (or_else (ap_useRecycleUnits (aq_policy q)) True))) (\<lambda>_.
     seq (add_evidence env ''cash-in-started'') (\<lambda>_.
     ret \<lparr>an_request = q, an_fencingToken = token,
          an_shutterControl = ci_shutterControl capabilities,
          an_inventoryBefore = inventoryBefore\<rparr>))))"

definition start_acceptance ::
  "'x acceptance_env \<Rightarrow> 'x acceptance_request \<Rightarrow> ('x, 'z, 'x acceptance_session) acceptance_io" where
  "start_acceptance env q =
     seq (throwIfAborted q) (\<lambda>_.
     seq (acc_call (ae_acquire env) AcquireLease) (\<lambda>token.
     seq (releasing env (acc_call (ae_assertCanStart env) AssertCanStart)) (\<lambda>_.
     seq (change (\<lambda>s. s\<lparr>as_record := new_record q (ae_now env (as_log s)), as_snapshot := None\<rparr>)) (\<lambda>_.
     seq (ask as_record) (\<lambda>r.
     seq (acc_call (\<lambda>l. ae_create env l r) (CreateRecord r)) (\<lambda>_.
     seq (add_evidence env ''entry-gate-passed'') (\<lambda>_.
     releasing env (begin_cash_in env q token))))))))"

section \<open>The steps every method shares\<close>

definition update_record ::
  "'x acceptance_env \<Rightarrow> (acceptance_record \<Rightarrow> acceptance_record) \<Rightarrow> ('x, 'z, unit) acceptance_io" where
  "update_record env f =
     seq (change (\<lambda>s. s\<lparr>as_record := (f (as_record s))\<lparr>ar_updatedAt := ae_now env (as_log s)\<rparr>\<rparr>)) (\<lambda>_.
     seq (ask as_record) (\<lambda>r.
     acc_call (\<lambda>l. ae_update env l r) (UpdateRecord r)))"

definition enter_phase ::
  "'x acceptance_env \<Rightarrow> acceptance_phase \<Rightarrow> string \<Rightarrow> ('x, 'z, unit) acceptance_io" where
  "enter_phase env phase event =
     seq (update_record env (\<lambda>r. r\<lparr>ar_phase := phase\<rparr>)) (\<lambda>_. add_evidence env event)"

definition fail_with ::
  "'x acceptance_env \<Rightarrow> acceptance_reason \<Rightarrow> ('x, 'z, unit) acceptance_io" where
  "fail_with env reason =
     update_record env (\<lambda>r. r\<lparr>ar_phase := AccFailed, ar_terminalReason := Some reason\<rparr>)"

definition assert_phase :: "acceptance_phase list \<Rightarrow> ('x, 'z, unit) acceptance_io" where
  "assert_phase allowed =
     seq (ask (\<lambda>s. ar_phase (as_record s))) (\<lambda>phase.
     require (phase \<in> set allowed) ''Cash acceptance operation is in another phase'')"

definition requireSnapshot :: "('x, 'z, escrow_snapshot) acceptance_io" where
  "requireSnapshot =
     seq (ask as_snapshot) (\<lambda>snapshot.
     case snapshot of None \<Rightarrow> raise ''No escrow snapshot is available'' | Some x \<Rightarrow> ret x)"

definition of_result :: "string + 'a \<Rightarrow> ('x, 'z, 'a) acceptance_io" where
  "of_result r = (case r of Inl e \<Rightarrow> raise e | Inr x \<Rightarrow> ret x)"

definition session_result ::
  "'x acceptance_session \<Rightarrow> acceptance_reason \<Rightarrow> bool \<Rightarrow> note_custody \<Rightarrow> destination_evidence list option
     \<Rightarrow> ('x, 'z, acceptance_result) acceptance_io" where
  "session_result se reason committed custody destination =
     ask (\<lambda>s.
       \<lparr>rs_operationId = aq_operationId (an_request se), rs_phase = ar_phase (as_record s),
        rs_reason = reason, rs_committed = committed, rs_snapshot = as_snapshot s,
        rs_portions =
          [\<lparr>np_portionId = ''escrow'', np_custody = custody,
            np_notes = (case as_snapshot s of None \<Rightarrow> [] | Some x \<Rightarrow> es_notes x), np_reason = None\<rparr>],
        rs_destinationEvidence = destination\<rparr>)"

definition refused_text :: "int \<Rightarrow> string" where
  "refused_text n = ''refused-count:'' @ map (\<lambda>u. char_of (unat u)) (json_int n)"

definition refusedTerminalResult ::
  "'x acceptance_session \<Rightarrow> acceptance_reason \<Rightarrow> note_custody \<Rightarrow> ('x, 'z, acceptance_result) acceptance_io" where
  "refusedTerminalResult se reason refusedCustody =
     seq requireSnapshot (\<lambda>snapshot.
     ask (\<lambda>s.
       \<lparr>rs_operationId = aq_operationId (an_request se), rs_phase = ar_phase (as_record s),
        rs_reason = reason, rs_committed = False, rs_snapshot = Some snapshot,
        rs_portions =
          [\<lparr>np_portionId = ''accepted-escrow'', np_custody = WhereUnknown, np_notes = es_notes snapshot,
            np_reason = Some ''cash-in-terminated-by-refused-media''\<rparr>,
           \<lparr>np_portionId = ''refused-media'', np_custody = refusedCustody, np_notes = [],
            np_reason = Some (refused_text (es_refusedCount snapshot))\<rparr>],
        rs_destinationEvidence = None\<rparr>))"

section \<open>Batches\<close>

definition when_application ::
  "'x acceptance_session \<Rightarrow> ('x, 'z, unit) acceptance_io \<Rightarrow> ('x, 'z, unit) acceptance_io" where
  "when_application se m = (if an_shutterControl se = ApplicationShutter then m else ret ())"

definition take_batch ::
  "'x acceptance_env \<Rightarrow> 'x acceptance_session \<Rightarrow> ('x, 'z, cash_in_status) acceptance_io" where
  "take_batch env se =
     seq (when_application se (acc_call (ae_openShutter env) OpenShutter)) (\<lambda>_.
     finally_do (acc_call (ae_cashIn env) CashIn)
       (when_application se (acc_call (ae_closeShutter env) CloseShutter)))"

definition next_snapshot ::
  "'x acceptance_env \<Rightarrow> cash_in_status \<Rightarrow> ('x, 'z) acceptance_state_scheme \<Rightarrow> escrow_snapshot" where
  "next_snapshot env status s =
     createEscrowSnapshot
       (mergeNotes (case as_snapshot s of None \<Rightarrow> [] | Some x \<Rightarrow> es_notes x) (or_else (ct_notes status) []))
       ((case as_snapshot s of None \<Rightarrow> 0 | Some x \<Rightarrow> es_refusedCount x) + or_else (ct_refusedCount status) 0)
       (ar_revision (as_record s) + 1) (ae_now env (as_log s))"

definition acceptBatch ::
  "'x acceptance_env \<Rightarrow> 'x acceptance_session \<Rightarrow> ('x, 'z, escrow_snapshot) acceptance_io" where
  "acceptBatch env se =
     seq (assert_phase [AccStarting, AccAccepting, AccEscrowed]) (\<lambda>_.
     seq (throwIfAborted (an_request se)) (\<lambda>_.
     seq (enter_phase env AccAccepting ''cash-in-requested'') (\<lambda>_.
     seq (take_batch env se) (\<lambda>status.
     seq (ask (next_snapshot env status)) (\<lambda>snapshot.
     seq (change (\<lambda>s. s\<lparr>as_snapshot := Some snapshot\<rparr>)) (\<lambda>_.
     seq (update_record env (\<lambda>r. r\<lparr>ar_phase := AccEscrowed, ar_revision := es_revision snapshot,
            ar_snapshotHash := Some (es_hash snapshot)\<rparr>)) (\<lambda>_.
     seq (add_evidence env ''escrow-snapshot'') (\<lambda>_.
     ret snapshot))))))))"

definition resolveRefusedMedia ::
  "'x acceptance_env \<Rightarrow> 'x acceptance_session \<Rightarrow> ('x, 'z, refused_resolution) acceptance_io" where
  "resolveRefusedMedia env se =
     seq (assert_phase [AccEscrowed]) (\<lambda>_.
     seq requireSnapshot (\<lambda>snapshot.
     let refused = es_refusedCount snapshot;
         resolution = (\<lambda>status result.
           \<lparr>rr_status = status, rr_refusedCount = refused, rr_terminalResult = result\<rparr>) in
     if refused = 0 then ret (resolution RefusedNotPresent None)
     else
       seq (add_evidence env ''refused-media-presented'') (\<lambda>_.
       seq (acc_call (ae_waitTaken env) WaitTaken) (\<lambda>taken.
       if taken then
         seq (add_evidence env ''refused-media-taken'') (\<lambda>_. ret (resolution RefusedTaken None))
       else if ap_notTakenAction (aq_policy (an_request se)) = NotTakenIntervention then
         seq (fail_with env ReRefusedIntervention) (\<lambda>_.
         seq (add_evidence env ''refused-media-intervention'') (\<lambda>_.
         seq (refusedTerminalResult se ReRefusedIntervention AtOutput) (\<lambda>result.
         ret (resolution RefusedIntervention (Some result)))))
       else
         seq (enter_phase env AccRetracting ''refused-media-retract-requested'') (\<lambda>_.
         seq (acc_call (ae_retract env) RetractEscrow) (\<lambda>_.
         seq (fail_with env ReRefusedRetracted) (\<lambda>_.
         seq (add_evidence env ''refused-media-retracted'') (\<lambda>_.
         seq (release_lease env) (\<lambda>_.
         seq (refusedTerminalResult se ReRefusedRetracted InRetractUnit) (\<lambda>result.
         ret (resolution RefusedRetracted (Some result))))))))))))"

section \<open>Authorization and commit\<close>

type_synonym ('x, 'z, 'b) authorizer =
  "escrow_snapshot \<Rightarrow> ('x, 'z, 'b acceptance_authorization_scheme) acceptance_io"

definition authorize ::
  "'x acceptance_env \<Rightarrow> 'x acceptance_session \<Rightarrow> ('x, 'z, 'b) authorizer
     \<Rightarrow> ('x, 'z, 'b acceptance_authorization_scheme) acceptance_io" where
  "authorize env se authorizer =
     seq (assert_phase [AccEscrowed]) (\<lambda>_.
     seq requireSnapshot (\<lambda>snapshot.
     seq (enter_phase env AccAuthorizing ''authorization-requested'') (\<lambda>_.
     seq (authorizer snapshot) (\<lambda>authorization.
     seq (of_result (assertExactAuthorization (aq_operationId (an_request se)) snapshot authorization)) (\<lambda>_.
     seq (update_record env (\<lambda>r. r\<lparr>ar_phase := AccEscrowed,
            ar_authorizationRevision := Some (aa_revision authorization),
            ar_authorizationHash := Some (aa_snapshotHash authorization)\<rparr>)) (\<lambda>_.
     seq (require (aa_approved authorization) ''authorization-declined'') (\<lambda>_.
     ret authorization)))))))"

definition commit ::
  "'x acceptance_env \<Rightarrow> 'x acceptance_session \<Rightarrow> 'b acceptance_authorization_scheme
     \<Rightarrow> ('x, 'z, acceptance_result) acceptance_io" where
  "commit env se authorization =
     seq (assert_phase [AccEscrowed]) (\<lambda>_.
     seq requireSnapshot (\<lambda>snapshot.
     seq (of_result (assertExactAuthorization (aq_operationId (an_request se)) snapshot authorization)) (\<lambda>_.
     seq (require (aa_approved authorization) ''authorization-declined'') (\<lambda>_.
     seq (update_record env (\<lambda>r. r\<lparr>ar_phase := AccCommitting, ar_physicalCommitDispatched := True\<rparr>)) (\<lambda>_.
     seq (add_evidence env ''physical-commit-dispatched'') (\<lambda>_.
     seq (acc_call (ae_cashInEnd env) CashInEnd) (\<lambda>committedUnits.
     seq (acc_call (ae_captureUnits env) CaptureUnits) (\<lambda>inventoryAfter.
     let destination =
       calculateCashUnitDestinationEvidence (an_inventoryBefore se) inventoryAfter committedUnits in
     seq (add_evidence env ''cash-unit-destination-evidence'') (\<lambda>_.
     seq (update_record env (\<lambda>r. r\<lparr>ar_phase := AccCompleted, ar_terminalReason := Some ReCommitted\<rparr>)) (\<lambda>_.
     seq (release_lease env) (\<lambda>_.
     session_result se ReCommitted True InCashUnit (Some destination))))))))))))"

section \<open>Abort\<close>

definition reason_of_abort :: "abort_reason \<Rightarrow> acceptance_reason" where
  "reason_of_abort reason = (case reason of AbortCancelled \<Rightarrow> ReCancelled | AbortTimeout \<Rightarrow> ReTimeout)"

definition roll_back ::
  "'x acceptance_env \<Rightarrow> 'x acceptance_session \<Rightarrow> abort_reason \<Rightarrow> ('x, 'z, acceptance_result) acceptance_io" where
  "roll_back env se reason =
     seq (assert_phase [AccStarting, AccAccepting, AccEscrowed, AccAuthorizing]) (\<lambda>_.
     seq (enter_phase env AccRollingBack ''rollback-requested'') (\<lambda>_.
     seq (acc_call (ae_cashInRollback env) CashInRollback) (\<lambda>_.
     seq (acc_call (ae_waitTaken env) WaitTaken) (\<lambda>taken.
     if taken then
       seq (fail_with env ReReturned) (\<lambda>_.
       seq (release_lease env) (\<lambda>_.
       session_result se ReReturned False ByCustomer None))
     else if ap_notTakenAction (aq_policy (an_request se)) = NotTakenIntervention then
       seq (fail_with env (reason_of_abort reason)) (\<lambda>_.
       session_result se (reason_of_abort reason) False AtOutput None)
     else
       seq (enter_phase env AccRetracting ''not-taken-retract-requested'') (\<lambda>_.
       seq (acc_call (ae_retract env) RetractEscrow) (\<lambda>_.
       seq (fail_with env ReRetracted) (\<lambda>_.
       seq (release_lease env) (\<lambda>_.
       session_result se ReRetracted False InRetractUnit None))))))))"

definition abort_acceptance ::
  "'x acceptance_env \<Rightarrow> 'x acceptance_session \<Rightarrow> abort_reason \<Rightarrow> ('x, 'z, acceptance_result) acceptance_io" where
  "abort_acceptance env se reason =
     seq (ask (\<lambda>s. ar_physicalCommitDispatched (as_record s))) (\<lambda>dispatched.
     if dispatched then
       seq (fail_with env ReRecoveryRequired) (\<lambda>_.
       session_result se ReRecoveryRequired False WhereUnknown None)
     else roll_back env se reason)"

text \<open>For evaluation.\<close>

lemmas [code] =
  add_evidence_def [THEN fun_cong] throwIfAborted_def [THEN fun_cong]
  release_lease_def [THEN fun_cong] releasing_def [THEN fun_cong]
  begin_cash_in_def [THEN fun_cong] start_acceptance_def [THEN fun_cong]
  update_record_def [THEN fun_cong] enter_phase_def [THEN fun_cong]
  fail_with_def [THEN fun_cong] assert_phase_def [THEN fun_cong]
  requireSnapshot_def [THEN fun_cong] of_result_def [THEN fun_cong]
  session_result_def [THEN fun_cong] refusedTerminalResult_def [THEN fun_cong]
  when_application_def [THEN fun_cong] take_batch_def [THEN fun_cong]
  acceptBatch_def [THEN fun_cong] resolveRefusedMedia_def [THEN fun_cong]
  authorize_def [THEN fun_cong] commit_def [THEN fun_cong] roll_back_def [THEN fun_cong]
  abort_acceptance_def [THEN fun_cong]

end
