(* ===== verification/Acceptance_Store.thy ===== *)
theory Acceptance_Store
  imports Cash_Acceptance
begin

text \<open>
  Where the records of cash acceptances are kept, and what is made of them after a restart:
  \<^verbatim>\<open>packages/xfs-device-service/src\<close> (\<^verbatim>\<open>cash-acceptance-store.ts\<close>,
  \<^verbatim>\<open>cash-acceptance-sql-store.ts\<close>, \<^verbatim>\<open>cash-acceptance-recovery.ts\<close>). The SQL table is a
  list of rows; its statements are operations on it, with the primary key and the unique partial
  index of the migration checked the way the database checks them.
\<close>

definition unresolved :: "acceptance_record \<Rightarrow> bool" where
  "unresolved r \<longleftrightarrow> ar_phase r \<notin> {AccCompleted, AccFailed}"

section \<open>In memory\<close>

type_synonym acceptance_memory = "(string \<times> acceptance_record) list"

definition memory_create :: "acceptance_record \<Rightarrow> acceptance_memory \<Rightarrow> string + acceptance_memory" where
  "memory_create r m =
     (if map_of m (ar_operationId r) \<noteq> None then Inl (''Operation exists: '' @ ar_operationId r)
      else Inr (put (ar_operationId r) r m))"

definition memory_update :: "acceptance_record \<Rightarrow> acceptance_memory \<Rightarrow> string + acceptance_memory" where
  "memory_update r m =
     (if map_of m (ar_operationId r) = None then Inl (''Unknown operation: '' @ ar_operationId r)
      else Inr (put (ar_operationId r) r m))"

definition memory_get :: "string \<Rightarrow> acceptance_memory \<Rightarrow> acceptance_record option" where
  "memory_get k m = map_of m k"

definition memory_listUnresolved :: "acceptance_memory \<Rightarrow> acceptance_record list" where
  "memory_listUnresolved m = filter unresolved (map snd m)"

section \<open>In SQL\<close>

record acceptance_row =
  aw_operation_id :: string
  aw_logical_service :: string
  aw_resource_group :: string
  aw_phase :: acceptance_phase
  aw_revision :: int
  aw_snapshot_hash :: "string option"
  aw_authorization_revision :: "int option"
  aw_authorization_hash :: "string option"
  aw_physical_commit_dispatched :: int
  aw_terminal_reason :: "acceptance_reason option"
  aw_updated_at :: string

type_synonym acceptance_table = "acceptance_row list"

definition row_values :: "acceptance_record \<Rightarrow> string \<Rightarrow> acceptance_row" where
  "row_values r resourceGroup =
     \<lparr>aw_operation_id = ar_operationId r, aw_logical_service = ar_logicalService r,
      aw_resource_group = resourceGroup, aw_phase = ar_phase r, aw_revision = ar_revision r,
      aw_snapshot_hash = ar_snapshotHash r, aw_authorization_revision = ar_authorizationRevision r,
      aw_authorization_hash = ar_authorizationHash r,
      aw_physical_commit_dispatched = (if ar_physicalCommitDispatched r then 1 else 0),
      aw_terminal_reason = ar_terminalReason r, aw_updated_at = ar_updatedAt r\<rparr>"

definition from_row :: "acceptance_row \<Rightarrow> acceptance_record" where
  "from_row w =
     \<lparr>ar_operationId = aw_operation_id w, ar_logicalService = aw_logical_service w,
      ar_phase = aw_phase w, ar_revision = aw_revision w, ar_snapshotHash = aw_snapshot_hash w,
      ar_authorizationRevision = aw_authorization_revision w,
      ar_authorizationHash = aw_authorization_hash w,
      ar_physicalCommitDispatched = (aw_physical_commit_dispatched w = 1),
      ar_terminalReason = aw_terminal_reason w, ar_updatedAt = aw_updated_at w\<rparr>"

definition row_unresolved :: "acceptance_row \<Rightarrow> bool" where
  "row_unresolved w \<longleftrightarrow> aw_phase w \<notin> {AccCompleted, AccFailed}"

text \<open>The keys of the table: one row for an operation, and one unresolved row for a resource group.\<close>

definition keys_ok :: "acceptance_table \<Rightarrow> bool" where
  "keys_ok t \<longleftrightarrow>
     distinct (map aw_operation_id t) \<and>
     distinct (map aw_resource_group (filter row_unresolved t))"

definition sql_create :: "string \<Rightarrow> acceptance_record \<Rightarrow> acceptance_table \<Rightarrow> string + acceptance_table" where
  "sql_create resourceGroup r t =
     (let t' = t @ [row_values r resourceGroup] in
      if keys_ok t' then Inr t' else Inl ''constraint failed'')"

definition sql_update :: "string \<Rightarrow> acceptance_record \<Rightarrow> acceptance_table \<Rightarrow> string + acceptance_table" where
  "sql_update resourceGroup r t =
     (let t' = map (\<lambda>w. if aw_operation_id w = ar_operationId r then row_values r resourceGroup else w) t in
      if keys_ok t' then Inr t' else Inl ''constraint failed'')"

definition sql_get :: "string \<Rightarrow> acceptance_table \<Rightarrow> acceptance_record option" where
  "sql_get k t =
     (case filter (\<lambda>w. aw_operation_id w = k) t of [] \<Rightarrow> None | w # _ \<Rightarrow> Some (from_row w))"

definition sql_listUnresolved :: "acceptance_table \<Rightarrow> acceptance_record list" where
  "sql_listUnresolved t = map from_row (filter row_unresolved t)"

lemma from_row_values [simp]: "from_row (row_values r g) = r"
  by (simp add: from_row_def row_values_def)

lemma row_unresolved_values [simp]: "row_unresolved (row_values r g) = unresolved r"
  by (simp add: row_unresolved_def row_values_def unresolved_def)

section \<open>The interface of the stores\<close>

text \<open>
  What the session and its recovery rely on: a record created or updated is the one that is got
  back, others stay as they are, and the records listed are those that are not resolved.
\<close>

locale acceptance_store =
  fixes create :: "acceptance_record \<Rightarrow> 's \<Rightarrow> string + 's"
    and update :: "acceptance_record \<Rightarrow> 's \<Rightarrow> string + 's"
    and get :: "string \<Rightarrow> 's \<Rightarrow> acceptance_record option"
    and listed :: "'s \<Rightarrow> acceptance_record list"
    and sound :: "'s \<Rightarrow> bool"
  assumes create_get: "sound s \<Longrightarrow> create r s = Inr t \<Longrightarrow>
      sound t \<and> get k t = (if k = ar_operationId r then Some r else get k s)"
    and create_new: "sound s \<Longrightarrow> create r s = Inr t \<Longrightarrow> get (ar_operationId r) s = None"
    and update_get: "sound s \<Longrightarrow> get (ar_operationId r) s \<noteq> None \<Longrightarrow> update r s = Inr t \<Longrightarrow>
      sound t \<and> get k t = (if k = ar_operationId r then Some r else get k s)"
    and listed_get: "sound s \<Longrightarrow>
      r \<in> set (listed s) \<longleftrightarrow> get (ar_operationId r) s = Some r \<and> unresolved r"
begin

text \<open>What the store has of an operation after its record was created and updated.\<close>

fun applied :: "acceptance_record list \<Rightarrow> 's \<Rightarrow> 's" where
  "applied [] s = s"
| "applied (r # rs) s = applied rs (case update r s of Inl _ \<Rightarrow> s | Inr t \<Rightarrow> t)"

lemma applied_get:
  assumes "sound s" and "get k s \<noteq> None" and "\<forall>r \<in> set rs. ar_operationId r = k"
  shows "sound (applied rs s) \<and> get k (applied rs s) \<in> Some ` (insert (the (get k s)) (set rs))"
  using assms
proof (induction rs arbitrary: s)
  case (Cons r rs)
  show ?case
  proof (cases "update r s")
    case (Inl e)
    then show ?thesis using Cons.IH [of s] Cons.prems by auto
  next
    case (Inr t)
    then have "sound t" "get k t = Some r" using update_get [of s r t k] Cons.prems by auto
    then show ?thesis using Cons.IH [of t] Cons.prems(3) Inr by auto
  qed
qed auto

end

definition memory_sound :: "acceptance_memory \<Rightarrow> bool" where
  "memory_sound m \<longleftrightarrow> distinct (map fst m) \<and> (\<forall>(k, r) \<in> set m. ar_operationId r = k)"

lemma memory_sound_put:
  "memory_sound m \<Longrightarrow> memory_sound (put (ar_operationId r) r m)"
  using set_put [of "ar_operationId r" r m]
  by (auto simp: memory_sound_def distinct_put)

interpretation memory_records: acceptance_store
  memory_create memory_update memory_get memory_listUnresolved memory_sound
proof (unfold_locales, goal_cases)
  case (4 s r)
  then show ?case
    by (force simp: memory_listUnresolved_def memory_get_def memory_sound_def dest: map_of_SomeD
        intro: map_of_is_SomeI)
qed (auto simp: memory_create_def memory_update_def memory_get_def memory_sound_put split: if_splits)

lemma keys_okD:
  "keys_ok t \<Longrightarrow> v \<in> set t \<Longrightarrow> w \<in> set t \<Longrightarrow> aw_operation_id v = aw_operation_id w \<Longrightarrow> v = w"
  by (auto simp: keys_ok_def distinct_map dest: inj_onD)

lemma sql_get_iff:
  assumes "keys_ok t"
  shows "sql_get k t = Some r \<longleftrightarrow> (\<exists>w \<in> set t. aw_operation_id w = k \<and> r = from_row w)"
proof (cases "filter (\<lambda>w. aw_operation_id w = k) t")
  case Nil
  then show ?thesis by (auto simp: sql_get_def filter_empty_conv)
next
  case (Cons v vs)
  then have "v \<in> set (filter (\<lambda>w. aw_operation_id w = k) t)" by simp
  then have "v \<in> set t" and "aw_operation_id v = k" by simp_all
  then show ?thesis using Cons keys_okD [OF assms] by (auto simp: sql_get_def)
qed

lemma sql_get_None: "sql_get k t = None \<longleftrightarrow> k \<notin> aw_operation_id ` set t"
proof -
  have "sql_get k t = None \<longleftrightarrow> filter (\<lambda>w. aw_operation_id w = k) t = []"
    by (simp add: sql_get_def split: list.split)
  then show ?thesis by (auto simp: filter_empty_conv)
qed

lemma option_eqI: "(\<And>r. x = Some r \<longleftrightarrow> y = Some r) \<Longrightarrow> x = y"
  by (cases x; cases y) auto

lemma operation_id_values [simp]:
  "aw_operation_id (row_values r g) = ar_operationId r" "ar_operationId (from_row w) = aw_operation_id w"
  "unresolved (from_row w) = row_unresolved w"
  by (simp_all add: row_values_def from_row_def unresolved_def row_unresolved_def)

interpretation sql_records: acceptance_store
  "sql_create g" "sql_update g" sql_get sql_listUnresolved keys_ok for g
proof (unfold_locales, goal_cases)
  case (1 s r t k)
  then have t: "t = s @ [row_values r g]" "keys_ok t" by (auto simp: sql_create_def Let_def split: if_splits)
  then have new: "ar_operationId r \<notin> aw_operation_id ` set s" by (auto simp: keys_ok_def)
  show ?case
  proof (intro conjI t(2), rule option_eqI)
    fix x show "sql_get k t = Some x \<longleftrightarrow>
        (if k = ar_operationId r then Some r else sql_get k s) = Some x"
      using new unfolding sql_get_iff [OF t(2)] if_distrib [of "\<lambda>y. y = Some x"] sql_get_iff [OF 1(1)]
      unfolding t(1) by force
  qed
next
  case (2 s r t)
  then show ?case by (auto simp: sql_get_None sql_create_def keys_ok_def Let_def split: if_splits)
next
  case (3 s r t k)
  then have t: "t = map (\<lambda>w. if aw_operation_id w = ar_operationId r then row_values r g else w) s" "keys_ok t"
    by (auto simp: sql_update_def Let_def split: if_splits)
  have old: "ar_operationId r \<in> aw_operation_id ` set s" using 3(2) by (simp add: sql_get_None)
  show ?case
  proof (intro conjI t(2), rule option_eqI)
    fix x
    note get = sql_get_iff [OF t(2)] sql_get_iff [OF 3(1)]
    show "sql_get k t = Some x \<longleftrightarrow> (if k = ar_operationId r then Some r else sql_get k s) = Some x"
    proof (cases "k = ar_operationId r")
      case True
      then show ?thesis
        using old unfolding get if_P [OF True] unfolding t(1) by (auto intro!: bexI [of _ "row_values r g"])
    next
      case False
      then show ?thesis unfolding get if_not_P [OF False] unfolding t(1) by auto
    qed
  qed
next
  case (4 s r)
  then show ?case by (auto simp: sql_listUnresolved_def sql_get_iff)
qed

section \<open>Recovery\<close>

datatype recovery_decision = ObserveCommit | RollBackEscrow | UnknownDeviceState

record recovery_observation =
  ro_operation :: acceptance_record
  ro_deviceStatus :: string
  ro_decision :: recovery_decision

definition decide :: "acceptance_record \<Rightarrow> string \<Rightarrow> recovery_decision" where
  "decide operation deviceStatus =
     (if ar_physicalCommitDispatched operation then ObserveCommit
      else if deviceStatus \<in> {''active'', ''escrow'', ''cash-in-active''} then RollBackEscrow
      else UnknownDeviceState)"

text \<open>The device is asked for each record; the first rejection rejects the whole inspection.\<close>

fun inspect_records :: "acceptance_record list \<Rightarrow> (string + string) list \<Rightarrow> string + recovery_observation list" where
  "inspect_records (r # rs) (answer # answers) =
     rbind answer (\<lambda>status.
     rbind (inspect_records rs answers) (\<lambda>observed.
     Inr (\<lparr>ro_operation = r, ro_deviceStatus = status, ro_decision = decide r status\<rparr> # observed)))"
| "inspect_records _ _ = Inr []"

definition inspect :: "string + acceptance_record list \<Rightarrow> (string + string) list \<Rightarrow> string + recovery_observation list" where
  "inspect records answers = rbind records (\<lambda>rs. inspect_records rs answers)"

definition executeRollback :: "recovery_observation \<Rightarrow> string + unit \<Rightarrow> string + unit" where
  "executeRollback observation rollback =
     rbind (guard_res (ro_decision observation = RollBackEscrow) ''Recovery action is not rollback'')
       (\<lambda>_. rollback)"

lemma inspected:
  "inspect_records rs answers = Inr os \<Longrightarrow> ob \<in> set os \<Longrightarrow>
   ro_operation ob \<in> set rs \<and> ro_decision ob = decide (ro_operation ob) (ro_deviceStatus ob)"
proof (induction rs answers arbitrary: os rule: inspect_records.induct)
  case (1 r rs answer answers)
  then obtain status os' where "os = \<lparr>ro_operation = r, ro_deviceStatus = status, ro_decision = decide r status\<rparr> # os'"
      and "answer = Inr status" and "inspect_records rs answers = Inr os'"
    by (auto simp: rbind_eq_Inr)
  with 1 show ?case by auto
qed simp_all

end
