(* ===== verification/Acceptance_Laws.thy ===== *)
theory Acceptance_Laws
  imports Acceptance_Store
begin

text \<open>
  What the log of a cash acceptance obeys, whatever the device, the store, the lease and the
  caller answer: which command may follow what, and what is stored before the commit. Every method
  keeps it, and what a method returns rests on what the device confirmed.
\<close>

section \<open>What the log says\<close>

fun is_caller :: "'x acceptance_call \<Rightarrow> bool" where
  "is_caller (CallerCall _) = True" | "is_caller _ = False"

fun is_cash_in :: "'x acceptance_call \<Rightarrow> bool" where
  "is_cash_in (CashIn _) = True" | "is_cash_in _ = False"

fun is_end :: "'x acceptance_call \<Rightarrow> bool" where
  "is_end (CashInEnd _) = True" | "is_end _ = False"

fun is_rollback :: "'x acceptance_call \<Rightarrow> bool" where
  "is_rollback (CashInRollback _) = True" | "is_rollback _ = False"

fun is_retract :: "'x acceptance_call \<Rightarrow> bool" where
  "is_retract (RetractEscrow _) = True" | "is_retract _ = False"

fun is_release :: "'x acceptance_call \<Rightarrow> bool" where
  "is_release (ReleaseLease _) = True" | "is_release _ = False"

fun ended_ok :: "'x acceptance_call \<Rightarrow> bool" where
  "ended_ok (CashInEnd (Inr _)) = True" | "ended_ok _ = False"

fun rolled_back_ok :: "'x acceptance_call \<Rightarrow> bool" where
  "rolled_back_ok (CashInRollback (Inr _)) = True" | "rolled_back_ok _ = False"

fun taken_ok :: "'x acceptance_call \<Rightarrow> bool" where
  "taken_ok (WaitTaken (Inr taken)) = taken" | "taken_ok _ = False"

fun retracted_ok :: "'x acceptance_call \<Rightarrow> bool" where
  "retracted_ok (RetractEscrow (Inr _)) = True" | "retracted_ok _ = False"

fun started_ok :: "'x acceptance_call \<Rightarrow> bool" where
  "started_ok (CashInStart _ (Inr _)) = True" | "started_ok _ = False"

fun leased_ok :: "'x acceptance_call \<Rightarrow> bool" where
  "leased_ok (AcquireLease (Inr _)) = True" | "leased_ok _ = False"

fun entered_ok :: "'x acceptance_call \<Rightarrow> bool" where
  "entered_ok (AssertCanStart (Inr _)) = True" | "entered_ok _ = False"

fun created_ok :: "'x acceptance_call \<Rightarrow> bool" where
  "created_ok (CreateRecord _ (Inr _)) = True" | "created_ok _ = False"

text \<open>An update that says the commit was dispatched, and one of them that was stored.\<close>

fun dispatches :: "'x acceptance_call \<Rightarrow> bool" where
  "dispatches (UpdateRecord r _) = ar_physicalCommitDispatched r" | "dispatches _ = False"

fun stored_dispatch :: "'x acceptance_call \<Rightarrow> bool" where
  "stored_dispatch (UpdateRecord r (Inr _)) = ar_physicalCommitDispatched r" | "stored_dispatch _ = False"

fun quiet :: "'x acceptance_call \<Rightarrow> bool" where
  "quiet (AppendAcceptance _ _ _ _) = True"
| "quiet (CaptureUnits _) = True"
| "quiet (GetCapabilities _) = True"
| "quiet (WaitTaken _) = True"
| "quiet (CallerCall _) = True"
| "quiet _ = False"

section \<open>The law\<close>

text \<open>The device may be commanded: the lease is held and the gate of the entry was passed.\<close>

definition admitted :: "'x acceptance_log \<Rightarrow> bool" where
  "admitted l \<longleftrightarrow> has leased_ok l \<and> has entered_ok l \<and> has created_ok l \<and> \<not> has is_release l"

text \<open>Nothing final has happened.\<close>

definition pristine :: "'x acceptance_log \<Rightarrow> bool" where
  "pristine l \<longleftrightarrow>
     \<not> has dispatches l \<and> \<not> has is_end l \<and> \<not> has is_rollback l \<and> \<not> has is_retract l \<and> \<not> has is_release l"

text \<open>
  A commit rests on a stored record that says it was dispatched; the caller may promise more of
  that record, such as whose authorization it has.
\<close>

definition commit_stored :: "('x acceptance_log \<Rightarrow> acceptance_record \<Rightarrow> bool) \<Rightarrow> 'x acceptance_log \<Rightarrow> bool" where
  "commit_stored permit l \<longleftrightarrow>
     (\<exists>r. UpdateRecord r (Inr ()) \<in> set l \<and> ar_physicalCommitDispatched r \<and> permit l r)"

definition acceptance_law ::
  "('x acceptance_log \<Rightarrow> acceptance_record \<Rightarrow> bool) \<Rightarrow> 'x acceptance_log \<Rightarrow> 'x acceptance_call \<Rightarrow> bool" where
  "acceptance_law permit l c \<longleftrightarrow>
     (case c of
        CreateRecord _ _ \<Rightarrow> pristine l
      | CashInStart _ _ \<Rightarrow> admitted l \<and> pristine l \<and> \<not> has started_ok l
      | OpenShutter _ \<Rightarrow> admitted l \<and> pristine l \<and> has started_ok l
      | CloseShutter _ \<Rightarrow> admitted l \<and> pristine l \<and> has started_ok l
      | CashIn _ \<Rightarrow> admitted l \<and> pristine l \<and> has started_ok l
      | CashInEnd _ \<Rightarrow>
          admitted l \<and> has started_ok l \<and> commit_stored permit l \<and> \<not> has is_end l \<and>
          \<not> has is_rollback l \<and> \<not> has is_retract l
      | CashInRollback _ \<Rightarrow> admitted l \<and> pristine l \<and> has started_ok l
      | RetractEscrow _ \<Rightarrow>
          admitted l \<and> has started_ok l \<and> \<not> has dispatches l \<and> \<not> has is_end l \<and> \<not> has is_retract l
      | UpdateRecord r _ \<Rightarrow> has created_ok l \<and> (has dispatches l \<longrightarrow> ar_physicalCommitDispatched r)
      | _ \<Rightarrow> True)"

abbreviation acceptance_lawful ::
  "('x acceptance_log \<Rightarrow> acceptance_record \<Rightarrow> bool) \<Rightarrow> 'x acceptance_log \<Rightarrow> bool" where
  "acceptance_lawful permit \<equiv> lawful_from (acceptance_law permit) []"

definition open_phases :: "acceptance_phase set" where
  "open_phases = {AccStarting, AccAccepting, AccEscrowed, AccAuthorizing}"

text \<open>What holds of a session inside its methods, and between them.\<close>

definition underway ::
  "('x acceptance_log \<Rightarrow> acceptance_record \<Rightarrow> bool) \<Rightarrow> ('x, 'z) acceptance_state_scheme \<Rightarrow> bool" where
  "underway permit s \<longleftrightarrow>
     acceptance_lawful permit (as_log s) \<and>
     (has dispatches (as_log s) \<longrightarrow> ar_physicalCommitDispatched (as_record s)) \<and>
     has leased_ok (as_log s) \<and> has entered_ok (as_log s) \<and> has created_ok (as_log s) \<and>
     has started_ok (as_log s)"

definition clean ::
  "('x acceptance_log \<Rightarrow> acceptance_record \<Rightarrow> bool) \<Rightarrow> ('x, 'z) acceptance_state_scheme \<Rightarrow> bool" where
  "clean permit s \<longleftrightarrow>
     underway permit s \<and> pristine (as_log s) \<and> \<not> ar_physicalCommitDispatched (as_record s)"

definition closing ::
  "('x acceptance_log \<Rightarrow> acceptance_record \<Rightarrow> bool) \<Rightarrow> ('x, 'z) acceptance_state_scheme \<Rightarrow> bool" where
  "closing permit s \<longleftrightarrow> underway permit s \<and> ar_phase (as_record s) \<notin> open_phases"

text \<open>The record is that of the snapshot.\<close>

definition matched :: "('x, 'z) acceptance_state_scheme \<Rightarrow> bool" where
  "matched s \<longleftrightarrow>
     (\<exists>x. as_snapshot s = Some x \<and> ar_revision (as_record s) = es_revision x \<and>
        ar_snapshotHash (as_record s) = Some (es_hash x))"

definition at_rest ::
  "('x acceptance_log \<Rightarrow> acceptance_record \<Rightarrow> bool) \<Rightarrow> ('x, 'z) acceptance_state_scheme \<Rightarrow> bool" where
  "at_rest permit s \<longleftrightarrow>
     closing permit s \<or> clean permit s \<and> (ar_phase (as_record s) = AccEscrowed \<longrightarrow> matched s)"

section \<open>Calls\<close>

lemma wp_acc_call:
  "wp (acc_call f c) Q R s \<longleftrightarrow>
     (case f (as_log s) of
        Inl e \<Rightarrow> R e (s\<lparr>as_log := as_log s @ [c (Inl e)]\<rparr>)
      | Inr x \<Rightarrow> Q x (s\<lparr>as_log := as_log s @ [c (Inr x)]\<rparr>))"
  by (simp add: wp_def acc_call_def Let_def split: sum.splits)

lemma wp_of_result:
  "wp (of_result r) Q R s \<longleftrightarrow> (case r of Inl e \<Rightarrow> R e s | Inr x \<Rightarrow> Q x s)"
  by (cases r) (simp_all add: of_result_def wp_simps)

lemma quiet_law:
  assumes "quiet c"
  shows "acceptance_law permit l c" "\<not> dispatches c" "\<not> is_end c" "\<not> is_rollback c" "\<not> is_retract c"
    "\<not> is_release c" "\<not> ended_ok c" "\<not> rolled_back_ok c" "\<not> retracted_ok c"
  using assms by (cases c; simp add: acceptance_law_def)+

lemma pristine_call [simp]:
  "\<not> dispatches c \<Longrightarrow> \<not> is_end c \<Longrightarrow> \<not> is_rollback c \<Longrightarrow> \<not> is_retract c \<Longrightarrow> \<not> is_release c \<Longrightarrow>
   pristine (l @ [c]) = pristine l"
  by (simp add: pristine_def)

lemma pristineD:
  "pristine l \<Longrightarrow> \<not> has dispatches l" "pristine l \<Longrightarrow> \<not> has is_end l"
  "pristine l \<Longrightarrow> \<not> has is_rollback l" "pristine l \<Longrightarrow> \<not> has is_retract l"
  "pristine l \<Longrightarrow> \<not> has is_release l"
  by (simp_all add: pristine_def)

lemma underway_call:
  assumes "underway permit s" and "acceptance_law permit (as_log s) c" and "\<not> dispatches c"
  shows "underway permit (s\<lparr>as_log := as_log s @ [c]\<rparr>)"
  using assms by (simp add: underway_def lawful_from_append)

lemma underway_admitted:
  "underway permit s \<Longrightarrow> \<not> has is_release (as_log s) \<Longrightarrow> admitted (as_log s) \<and> has started_ok (as_log s)"
  by (simp add: underway_def admitted_def)

lemma clean_call:
  assumes "clean permit s" and "acceptance_law permit (as_log s) c" and "\<not> dispatches c" and "\<not> is_end c"
    and "\<not> is_rollback c" and "\<not> is_retract c" and "\<not> is_release c"
  shows "clean permit (s\<lparr>as_log := as_log s @ [c]\<rparr>)"
  using assms by (simp add: clean_def underway_call)

lemma closing_call:
  assumes "closing permit s" and "acceptance_law permit (as_log s) c" and "\<not> dispatches c"
  shows "closing permit (s\<lparr>as_log := as_log s @ [c]\<rparr>)"
  using assms by (simp add: closing_def underway_call)

section \<open>Quiet calls\<close>

text \<open>Between two states only quiet calls were made; the session's fields are as they were.\<close>

definition pause :: "('x, 'z) acceptance_state_scheme \<Rightarrow> ('x, 'z) acceptance_state_scheme \<Rightarrow> bool" where
  "pause s t \<longleftrightarrow> (\<exists>k. as_log t = as_log s @ k \<and> list_all quiet k) \<and>
     as_record t = as_record s \<and> as_snapshot t = as_snapshot s"

interpretation pausing: state_frame pause
  by unfold_locales (auto simp: pause_def)

lemma lawful_quiet: "list_all quiet k \<Longrightarrow> lawful_from (acceptance_law permit) l k"
  by (induction k arbitrary: l) (auto intro: quiet_law)

lemma has_not_quiet: "list_all quiet k \<Longrightarrow> (\<And>c. quiet c \<Longrightarrow> \<not> P c) \<Longrightarrow> \<not> has P k"
  by (auto simp: has_set list_all_iff)

lemma pause_has: "pause s t \<Longrightarrow> (\<And>c. quiet c \<Longrightarrow> \<not> P c) \<Longrightarrow> has P (as_log t) = has P (as_log s)"
  using has_not_quiet by (force simp: pause_def)

lemma pause_same:
  assumes "pause s t"
  shows "has dispatches (as_log t) = has dispatches (as_log s)"
    "has is_end (as_log t) = has is_end (as_log s)"
    "has is_rollback (as_log t) = has is_rollback (as_log s)"
    "has is_retract (as_log t) = has is_retract (as_log s)"
    "has is_release (as_log t) = has is_release (as_log s)"
    "has ended_ok (as_log t) = has ended_ok (as_log s)"
    "has rolled_back_ok (as_log t) = has rolled_back_ok (as_log s)"
    "has retracted_ok (as_log t) = has retracted_ok (as_log s)"
  by (intro pause_has [OF assms] quiet_law; assumption)+

lemma pause_fields: "pause s t \<Longrightarrow> as_record t = as_record s" "pause s t \<Longrightarrow> as_snapshot t = as_snapshot s"
  by (simp_all add: pause_def)

lemma pause_pristine: "pause s t \<Longrightarrow> pristine (as_log t) = pristine (as_log s)"
  by (simp add: pristine_def pause_same)

lemma pause_underway: "pause s t \<Longrightarrow> underway permit s \<Longrightarrow> underway permit t"
  using pause_same(1) [of s t] by (auto simp: underway_def pause_def lawful_from_append lawful_quiet)

lemma pause_more: "pause s t \<Longrightarrow> has P (as_log s) \<Longrightarrow> has P (as_log t)"
  by (auto simp: pause_def)

lemma pause_stage:
  "pause s t \<Longrightarrow> clean permit s \<Longrightarrow> clean permit t" "pause s t \<Longrightarrow> closing permit s \<Longrightarrow> closing permit t"
  "pause s t \<Longrightarrow> matched s \<Longrightarrow> matched t" "pause s t \<Longrightarrow> at_rest permit s \<Longrightarrow> at_rest permit t"
  using pause_underway [of s t] pause_pristine [of s t] pause_fields [of s t]
  by (auto simp: clean_def closing_def matched_def at_rest_def)

lemma wp_quiet:
  assumes "\<And>r. quiet (c r)" and "\<And>x t. pause s t \<Longrightarrow> Q x t" and "\<And>e t. pause s t \<Longrightarrow> R e t"
  shows "wp (acc_call f c) Q R s"
  using assms by (simp add: wp_acc_call pause_def split: sum.splits)

lemma wp_add_evidence:
  assumes "\<And>t. pause s t \<Longrightarrow> Q () t" and "\<And>e t. pause s t \<Longrightarrow> R e t"
  shows "wp (add_evidence env ev) Q R s"
  unfolding add_evidence_def wp_seq wp_ask split_conv
  by (rule wp_quiet) (simp_all add: assms)

lemma wp_assert_phase: "wp (assert_phase ps) Q R s \<longleftrightarrow>
    (if ar_phase (as_record s) \<in> set ps then Q () s
     else R ''Cash acceptance operation is in another phase'' s)"
  by (simp add: assert_phase_def wp_funs)

lemma wp_requireSnapshot: "wp requireSnapshot Q R s \<longleftrightarrow>
    (case as_snapshot s of None \<Rightarrow> R ''No escrow snapshot is available'' s | Some x \<Rightarrow> Q x s)"
  by (simp add: requireSnapshot_def wp_funs split: option.split)

section \<open>Updates of the record\<close>

text \<open>The log has only grown.\<close>

definition grown :: "('x, 'z) acceptance_state_scheme \<Rightarrow> ('x, 'z) acceptance_state_scheme \<Rightarrow> bool" where
  "grown s t \<longleftrightarrow> (\<exists>k. as_log t = as_log s @ k)"

interpretation growing: state_frame grown
  by unfold_locales (auto simp: grown_def)

lemma grown_has: "grown s t \<Longrightarrow> has P (as_log s) \<Longrightarrow> has P (as_log t)"
  by (auto simp: grown_def)

lemma pause_grown: "pause s t \<Longrightarrow> grown s t"
  by (auto simp: pause_def grown_def)

definition updated ::
  "(acceptance_record \<Rightarrow> acceptance_record) \<Rightarrow> ('x, 'z) acceptance_state_scheme \<Rightarrow> string + unit
     \<Rightarrow> ('x, 'z) acceptance_state_scheme \<Rightarrow> bool" where
  "updated f s x t \<longleftrightarrow>
     (\<exists>now. as_record t = (f (as_record s))\<lparr>ar_updatedAt := now\<rparr>) \<and> as_snapshot t = as_snapshot s \<and>
     as_log t = as_log s @ [UpdateRecord (as_record t) x]"

lemma wp_update_record:
  assumes "\<And>t. updated f s (Inr ()) t \<Longrightarrow> Q () t" and "\<And>e t. updated f s (Inl e) t \<Longrightarrow> R e t"
  shows "wp (update_record env f) Q R s"
proof -
  define r where "r = (f (as_record s))\<lparr>ar_updatedAt := ae_now env (as_log s)\<rparr>"
  have "updated f s x (s\<lparr>as_record := r, as_log := as_log s @ [UpdateRecord r x]\<rparr>)" for x
    by (auto simp: updated_def r_def)
  with assms show ?thesis
    by (simp add: update_record_def wp_funs wp_acc_call r_def [symmetric] split: sum.split)
qed

lemma updated_grown: "updated f s x t \<Longrightarrow> grown s t"
  by (auto simp: updated_def grown_def)

lemma updated_underway:
  assumes "updated f s x t" and "underway permit s"
    and "ar_physicalCommitDispatched (as_record s) \<Longrightarrow> ar_physicalCommitDispatched (f (as_record s))"
  shows "underway permit t"
  using assms by (auto simp: updated_def underway_def lawful_from_append acceptance_law_def)

lemma updated_closing:
  assumes "updated f s x t" and "underway permit s"
    and "ar_physicalCommitDispatched (as_record s) \<Longrightarrow> ar_physicalCommitDispatched (f (as_record s))"
    and "ar_phase (f (as_record s)) \<notin> open_phases"
  shows "closing permit t"
  using updated_underway [OF assms(1-3)] assms(1,4) by (auto simp: closing_def updated_def)

lemma updated_clean:
  assumes "updated f s x t" and "clean permit s"
    and "\<not> ar_physicalCommitDispatched (f (as_record s))"
  shows "clean permit t"
proof -
  have "\<not> ar_physicalCommitDispatched (as_record t)" using assms(1,3) by (auto simp: updated_def)
  moreover have "underway permit t"
    by (rule updated_underway [OF assms(1)]) (use assms(2) in \<open>simp_all add: clean_def\<close>)
  ultimately show ?thesis using assms(1,2) by (auto simp: clean_def updated_def)
qed

lemma restI: "closing permit s \<Longrightarrow> at_rest permit s"
    "clean permit s \<Longrightarrow> ar_phase (as_record s) \<noteq> AccEscrowed \<Longrightarrow> at_rest permit s"
    "clean permit s \<Longrightarrow> matched s \<Longrightarrow> at_rest permit s"
  by (simp_all add: at_rest_def)

lemma restE:
  assumes "at_rest permit s" and "ar_phase (as_record s) \<in> open_phases"
  shows "clean permit s" and "ar_phase (as_record s) = AccEscrowed \<Longrightarrow> matched s"
  using assms by (auto simp: at_rest_def closing_def)

lemma rest_underway: "at_rest permit s \<Longrightarrow> underway permit s"
  by (auto simp: at_rest_def closing_def clean_def)

lemma stageD:
  "clean permit s \<Longrightarrow> underway permit s" "clean permit s \<Longrightarrow> pristine (as_log s)"
  "clean permit s \<Longrightarrow> \<not> ar_physicalCommitDispatched (as_record s)"
  "closing permit s \<Longrightarrow> underway permit s"
  by (simp_all add: clean_def closing_def)

end
