(* ===== verification/Acceptance_Methods.thy ===== *)
theory Acceptance_Methods
  imports Acceptance_Laws
begin

text \<open>
  Every method of a cash acceptance keeps the law of its log, for any promise the caller makes of
  what it commits, and what a method returns rests on what the device confirmed.
\<close>

text \<open>What the portions of a result claim.\<close>

definition backed_custody :: "'x acceptance_log \<Rightarrow> note_custody \<Rightarrow> bool" where
  "backed_custody l custody \<longleftrightarrow>
     (custody = InCashUnit \<longrightarrow> has ended_ok l) \<and>
     (custody = ByCustomer \<longrightarrow> has rolled_back_ok l \<and> has taken_ok l) \<and>
     (custody = InRetractUnit \<longrightarrow> has retracted_ok l) \<and>
     custody \<noteq> InTransport \<and> custody \<noteq> InEscrow"

definition backed_result :: "acceptance_result \<Rightarrow> ('x, 'z) acceptance_state_scheme \<Rightarrow> bool" where
  "backed_result r s \<longleftrightarrow>
     rs_portions r \<noteq> [] \<and> (\<forall>p \<in> set (rs_portions r). backed_custody (as_log s) (np_custody p)) \<and>
     (rs_committed r \<longleftrightarrow> rs_reason r = ReCommitted) \<and>
     (rs_committed r \<longrightarrow> has ended_ok (as_log s) \<and> (\<forall>p \<in> set (rs_portions r). np_custody p = InCashUnit)) \<and>
     (rs_reason r = ReRecoveryRequired \<longrightarrow> (\<exists>p \<in> set (rs_portions r). np_custody p = WhereUnknown))"

text \<open>The result says that recovery is required and where the notes are is unknown.\<close>

definition undecided :: "acceptance_result \<Rightarrow> bool" where
  "undecided r \<longleftrightarrow>
     rs_reason r = ReRecoveryRequired \<and> (\<forall>p \<in> set (rs_portions r). np_custody p = WhereUnknown)"

lemma wp_session_result: "wp (session_result se reason committed custody destination) Q R s \<longleftrightarrow>
    Q \<lparr>rs_operationId = aq_operationId (an_request se), rs_phase = ar_phase (as_record s),
        rs_reason = reason, rs_committed = committed, rs_snapshot = as_snapshot s,
        rs_portions =
          [\<lparr>np_portionId = ''escrow'', np_custody = custody,
            np_notes = (case as_snapshot s of None \<Rightarrow> [] | Some x \<Rightarrow> es_notes x), np_reason = None\<rparr>],
        rs_destinationEvidence = destination\<rparr> s"
  by (simp add: session_result_def wp_ask)

locale commit_permit =
  fixes permit :: "'x acceptance_log \<Rightarrow> acceptance_record \<Rightarrow> bool"
  assumes permit_grows: "permit l r \<Longrightarrow> permit (l @ k) r"
begin

lemma stored_grows: "commit_stored permit l \<Longrightarrow> commit_stored permit (l @ k)"
  using permit_grows by (fastforce simp: commit_stored_def)

text \<open>After the commit was dispatched: the command to the device is allowed.\<close>

definition armed :: "('x, 'z) acceptance_state_scheme \<Rightarrow> bool" where
  "armed s \<longleftrightarrow>
     closing permit s \<and> commit_stored permit (as_log s) \<and> \<not> has is_end (as_log s) \<and>
     \<not> has is_rollback (as_log s) \<and> \<not> has is_retract (as_log s) \<and> \<not> has is_release (as_log s)"

lemma armed_pause: "pause s t \<Longrightarrow> armed s \<Longrightarrow> armed t"
  using pause_same [of s t] pause_stage(2) [of s t permit] stored_grows
  by (auto simp: armed_def pause_def)

lemma armed_closing: "armed s \<Longrightarrow> closing permit s"
  by (simp add: armed_def)

lemma release_closing: "closing permit s \<Longrightarrow> closing permit (s\<lparr>as_log := as_log s @ [ReleaseLease r]\<rparr>)"
  by (rule closing_call) (simp_all add: acceptance_law_def)

lemma wp_release:
  assumes "closing permit s"
    and "\<And>t. closing permit t \<Longrightarrow> grown s t \<Longrightarrow> as_snapshot t = as_snapshot s \<Longrightarrow> Q () t"
    and "\<And>e t. closing permit t \<Longrightarrow> R e t"
  shows "wp (release_lease env) Q R s"
  using assms by (simp add: release_lease_def wp_acc_call release_closing grown_def split: sum.split)

lemma wp_close:
  assumes "underway permit s"
    and "\<And>r. ar_physicalCommitDispatched r \<Longrightarrow> ar_physicalCommitDispatched (f r)"
    and "\<And>r. ar_phase (f r) \<notin> open_phases"
    and "\<And>t. closing permit t \<Longrightarrow> grown s t \<Longrightarrow> as_snapshot t = as_snapshot s \<Longrightarrow> Q () t"
    and "\<And>e t. closing permit t \<Longrightarrow> R e t"
  shows "wp (update_record env f) Q R s"
proof (rule wp_update_record)
  fix t assume u: "updated f s (Inr ()) t"
  show "Q () t"
    by (rule assms(4) [OF updated_closing [OF u assms(1) assms(2,3)] updated_grown [OF u]])
      (use u in \<open>simp_all add: updated_def\<close>)
next
  fix e t assume u: "updated f s (Inl e) t"
  show "R e t"
    by (rule assms(5) [OF updated_closing [OF u assms(1) assms(2,3)]])
qed

lemma wp_fail:
  assumes "underway permit s"
    and "\<And>t. closing permit t \<Longrightarrow> grown s t \<Longrightarrow> Q () t"
    and "\<And>e t. closing permit t \<Longrightarrow> R e t"
  shows "wp (fail_with env reason) Q R s"
  unfolding fail_with_def by (rule wp_close [OF assms(1)]) (simp_all add: assms open_phases_def)

section \<open>Commit\<close>

lemma wp_end:
  assumes "armed s"
    and "\<And>us t. closing permit t \<Longrightarrow> has ended_ok (as_log t) \<Longrightarrow> Q us t"
    and "\<And>e t. closing permit t \<Longrightarrow> R e t"
  shows "wp (acc_call (ae_cashInEnd env) CashInEnd) Q R s"
proof -
  have "closing permit (s\<lparr>as_log := as_log s @ [CashInEnd r]\<rparr>)" for r
    by (rule closing_call [OF armed_closing [OF assms(1)]])
      (use assms(1) in \<open>auto simp: armed_def acceptance_law_def closing_def underway_def admitted_def\<close>)
  with assms(2,3) show ?thesis by (simp add: wp_acc_call split: sum.split)
qed

lemma wp_arm:
  assumes "clean permit s" and "matched s"
    and "\<And>r. ar_revision r = ar_revision (as_record s) \<Longrightarrow> ar_snapshotHash r = ar_snapshotHash (as_record s)
      \<Longrightarrow> permit (as_log s) r"
    and "\<And>t. armed t \<Longrightarrow> Q () t" and "\<And>e t. closing permit t \<Longrightarrow> R e t"
  shows "wp (update_record env (\<lambda>r. r\<lparr>ar_phase := AccCommitting, ar_physicalCommitDispatched := True\<rparr>)) Q R s"
proof (rule wp_update_record)
  fix t assume u: "updated (\<lambda>r. r\<lparr>ar_phase := AccCommitting, ar_physicalCommitDispatched := True\<rparr>) s (Inr ()) t"
  have "closing permit t"
    by (rule updated_closing [OF u stageD(1) [OF assms(1)]]) (simp_all add: open_phases_def)
  moreover have "commit_stored permit (as_log t)"
  proof -
    have r: "ar_revision (as_record t) = ar_revision (as_record s)"
        "ar_snapshotHash (as_record t) = ar_snapshotHash (as_record s)"
        "ar_physicalCommitDispatched (as_record t)"
      and log: "as_log t = as_log s @ [UpdateRecord (as_record t) (Inr ())]"
      using u by (auto simp: updated_def)
    have "permit (as_log t) (as_record t)" unfolding log by (rule permit_grows [OF assms(3)]) (rule r)+
    moreover have "UpdateRecord (as_record t) (Inr ()) \<in> set (as_log t)" by (subst log) simp
    ultimately show ?thesis using r(3) unfolding commit_stored_def by blast
  qed
  ultimately show "Q () t"
    using u stageD(2) [OF assms(1)] by (intro assms(4)) (auto simp: armed_def updated_def pristine_def)
next
  fix e t assume u: "updated (\<lambda>r. r\<lparr>ar_phase := AccCommitting, ar_physicalCommitDispatched := True\<rparr>) s (Inl e) t"
  show "R e t"
    by (rule assms(5), rule updated_closing [OF u stageD(1) [OF assms(1)]]) (simp_all add: open_phases_def)
qed

lemma wp_commit_rest:
  assumes "closing permit s" and "has ended_ok (as_log s)"
  shows "wp (seq (update_record env (\<lambda>r. r\<lparr>ar_phase := AccCompleted, ar_terminalReason := Some ReCommitted\<rparr>)) (\<lambda>_.
     seq (release_lease env) (\<lambda>_. session_result se ReCommitted True InCashUnit d)))
     (\<lambda>r t. closing permit t \<and> rs_committed r \<and> backed_result r t) (\<lambda>_. closing permit) s"
  unfolding wp_seq wp_session_result
  by (rule wp_close [OF stageD(4) [OF assms(1)]], simp, simp add: open_phases_def, erule wp_release)
    (auto simp: backed_result_def backed_custody_def intro: grown_has [OF growing.step_trans assms(2)])

lemma wp_commit:
  assumes "at_rest permit s"
    and "\<And>r. aa_approved a \<Longrightarrow> ar_revision r = aa_revision a \<Longrightarrow>
      ar_snapshotHash r = Some (aa_snapshotHash a) \<Longrightarrow> permit (as_log s) r"
  shows "wp (commit env se a)
     (\<lambda>r t. closing permit t \<and> rs_committed r \<and> backed_result r t) (\<lambda>_. at_rest permit) s"
proof (cases "ar_phase (as_record s) = AccEscrowed")
  case False
  then show ?thesis by (simp add: commit_def wp_seq wp_assert_phase assms(1))
next
  case True
  then have clean: "clean permit s" and "matched s"
    using restE [OF assms(1)] by (simp_all add: open_phases_def)
  then obtain x where x: "as_snapshot s = Some x" "ar_revision (as_record s) = es_revision x"
      "ar_snapshotHash (as_record s) = Some (es_hash x)" by (auto simp: matched_def)
  have device: "wp (seq (acc_call (ae_cashInEnd env) CashInEnd) (\<lambda>us.
     seq (acc_call (ae_captureUnits env) CaptureUnits) (\<lambda>after.
     seq (add_evidence env ''cash-unit-destination-evidence'') (\<lambda>_.
     seq (update_record env (\<lambda>r. r\<lparr>ar_phase := AccCompleted, ar_terminalReason := Some ReCommitted\<rparr>)) (\<lambda>_.
     seq (release_lease env) (\<lambda>_. session_result se ReCommitted True InCashUnit
       (Some (calculateCashUnitDestinationEvidence (an_inventoryBefore se) after us))))))))
     (\<lambda>r t. closing permit t \<and> rs_committed r \<and> backed_result r t) (\<lambda>_. closing permit) t" if "armed t" for t
    unfolding wp_seq [of "acc_call _ _"] wp_seq [of "add_evidence _ _"]
    by (rule wp_end [OF that], rule wp_quiet, simp, rule wp_add_evidence, rule wp_commit_rest)
      (auto intro: pause_stage pause_more)
  show ?thesis
  proof (cases "aa_approved a \<and> aa_revision a = es_revision x \<and> aa_snapshotHash a = es_hash x")
    case False
    then show ?thesis
      by (auto simp: commit_def wp_seq wp_assert_phase wp_requireSnapshot wp_of_result wp_require x True
          assertExactAuthorization_def guard_res_def assms(1))
  next
    case ok: True
    have arm: "permit (as_log s) r" if "ar_revision r = ar_revision (as_record s)"
        "ar_snapshotHash r = ar_snapshotHash (as_record s)" for r
      using that ok x by (intro assms(2)) auto
    have "wp (seq (update_record env (\<lambda>r. r\<lparr>ar_phase := AccCommitting, ar_physicalCommitDispatched := True\<rparr>)) (\<lambda>_.
       seq (add_evidence env ''physical-commit-dispatched'') (\<lambda>_. m)))
       (\<lambda>r t. closing permit t \<and> rs_committed r \<and> backed_result r t) (\<lambda>_. at_rest permit) s"
      if "\<And>t. armed t \<Longrightarrow> wp m (\<lambda>r t. closing permit t \<and> rs_committed r \<and> backed_result r t) (\<lambda>_. closing permit) t" for m
      unfolding wp_seq
      by (rule wp_arm [OF clean \<open>matched s\<close> arm], assumption, assumption, rule wp_add_evidence,
          rule wp_weaken [OF that])
        (auto intro: armed_pause restI pause_stage(2) dest: armed_closing)
    note this [OF device]
    then show ?thesis
      by (simp add: commit_def wp_seq wp_assert_phase wp_requireSnapshot wp_of_result wp_require x True
          assertExactAuthorization_def guard_res_def assms(1) Let_def ok)
  qed
qed

section \<open>Batches\<close>

lemma wp_throwIfAborted: "wp (throwIfAborted q) Q R s \<longleftrightarrow>
    (if aq_aborted q (as_log s) then R (aq_abortError q) s else Q () s)"
  by (simp add: throwIfAborted_def wp_funs)

lemma wp_enter_clean:
  assumes "clean permit s" and "phase \<in> open_phases" and "phase \<noteq> AccEscrowed"
    and "\<And>t. clean permit t \<Longrightarrow> ar_phase (as_record t) = phase \<Longrightarrow> as_snapshot t = as_snapshot s \<Longrightarrow>
      ar_revision (as_record t) = ar_revision (as_record s) \<Longrightarrow>
      ar_snapshotHash (as_record t) = ar_snapshotHash (as_record s) \<Longrightarrow> Q () t"
    and "\<And>e t. at_rest permit t \<Longrightarrow> R e t"
  shows "wp (enter_phase env phase event) Q R s"
proof -
  have clean: "clean permit t" if "updated (\<lambda>r. r\<lparr>ar_phase := phase\<rparr>) s x t" for x t
    using updated_clean [OF that assms(1)] stageD(3) [OF assms(1)] by simp
  show ?thesis
    unfolding enter_phase_def wp_seq
  proof (rule wp_update_record)
    fix t assume u: "updated (\<lambda>r. r\<lparr>ar_phase := phase\<rparr>) s (Inr ()) t"
    show "wp (add_evidence env event) Q R t"
    proof (rule wp_add_evidence)
      fix v assume v: "pause t v"
      show "Q () v"
        by (rule assms(4)) (use u v clean [OF u] pause_stage(1) in \<open>auto simp: updated_def pause_fields\<close>)
    next
      fix e v assume v: "pause t v"
      have "clean permit v" and "ar_phase (as_record v) = phase"
        using u v clean [OF u] pause_stage(1) by (auto simp: updated_def pause_fields)
      then show "R e v" using assms(3) by (intro assms(5) restI(2)) simp_all
    qed
  next
    fix e t assume u: "updated (\<lambda>r. r\<lparr>ar_phase := phase\<rparr>) s (Inl e) t"
    then have "ar_phase (as_record t) = phase" by (auto simp: updated_def)
    then show "R e t" using clean [OF u] assms(3) by (intro assms(5) restI(2)) simp_all
  qed
qed

lemma clean_device:
  assumes "clean permit s" and "c \<in> {OpenShutter r, CloseShutter r, CashIn w}"
  shows "clean permit (s\<lparr>as_log := as_log s @ [c]\<rparr>)"
proof (rule clean_call [OF assms(1)])
  show "acceptance_law permit (as_log s) c"
    using assms underway_admitted [OF stageD(1) [OF assms(1)]] stageD(2) [OF assms(1)]
    by (auto simp: acceptance_law_def pristineD)
qed (use assms(2) in auto)

lemma wp_take_batch:
  fixes s :: "('x, 'z) acceptance_state_scheme"
  assumes "clean permit s" and "ar_phase (as_record s) = AccAccepting"
  shows "wp (take_batch env se) (\<lambda>_ t. clean permit t \<and> as_record t = as_record s)
      (\<lambda>_. at_rest permit) s"
proof -
  define still where "still t \<longleftrightarrow> clean permit t \<and> as_record t = as_record s" for t :: "('x, 'z) acceptance_state_scheme"
  have call: "wp (acc_call f c) (\<lambda>_. still) (\<lambda>_. still) t"
    if "still t" and "\<And>r. \<exists>v w. c r \<in> {OpenShutter v, CloseShutter v, CashIn w}" for f t and c :: "string + 'b \<Rightarrow> 'x acceptance_call"
  proof -
    have "still (t\<lparr>as_log := as_log t @ [c r]\<rparr>)" for r
      using that(1) that(2) [of r] clean_device [of t "c r"] by (auto simp: still_def)
    then show ?thesis by (simp add: wp_acc_call split: sum.split)
  qed
  have shutter: "wp (when_application se (acc_call f c)) (\<lambda>_. still) (\<lambda>_. still) t"
    if "still t" and "\<And>r. \<exists>v w. c r \<in> {OpenShutter v, CloseShutter v, CashIn w}"
    for f t and c :: "string + unit \<Rightarrow> 'x acceptance_call"
    unfolding when_application_def
    by (cases "an_shutterControl se") (simp_all add: wp_ret that(1), rule call [OF that])
  have "still s" by (simp add: still_def assms(1))
  then have "wp (take_batch env se) (\<lambda>_. still) (\<lambda>_. still) s"
    unfolding take_batch_def wp_seq wp_finally_do
    by (rule wp_weaken [OF shutter]) (auto intro!: wp_weaken [OF call] shutter)
  then show ?thesis
    by (rule wp_weaken) (auto simp: still_def assms(2) intro: restI(2))
qed

lemma wp_acceptBatch:
  assumes "at_rest permit s"
  shows "wp (acceptBatch env se)
     (\<lambda>x t. at_rest permit t \<and> clean permit t \<and> as_snapshot t = Some x) (\<lambda>_. at_rest permit) s"
proof (cases "ar_phase (as_record s) \<in> {AccStarting, AccAccepting, AccEscrowed}")
  case False
  then show ?thesis by (simp add: acceptBatch_def wp_seq wp_assert_phase assms)
next
  case True
  then have clean: "clean permit s" using restE(1) [OF assms] by (auto simp: open_phases_def)
  let ?f = "\<lambda>x r. r\<lparr>ar_phase := AccEscrowed, ar_revision := es_revision x, ar_snapshotHash := Some (es_hash x)\<rparr>"
  have store: "wp (seq (change (\<lambda>s. s\<lparr>as_snapshot := Some x\<rparr>)) (\<lambda>_.
     seq (update_record env (?f x)) (\<lambda>_. seq (add_evidence env ''escrow-snapshot'') (\<lambda>_. ret x))))
     (\<lambda>x t. at_rest permit t \<and> clean permit t \<and> as_snapshot t = Some x) (\<lambda>_. at_rest permit) t"
    if t: "clean permit t" for t x
  proof -
    let ?t = "t\<lparr>as_snapshot := Some x\<rparr>"
    have u: "clean permit v \<and> matched v \<and> as_snapshot v = Some x" if "updated (?f x) ?t y v" for y v
    proof -
      have "clean permit ?t" using t by (auto simp: clean_def underway_def)
      then have "clean permit v" using stageD(3) [OF t] by (intro updated_clean [OF that]) simp_all
      with that show ?thesis by (auto simp: updated_def matched_def)
    qed
    show ?thesis
      unfolding wp_seq wp_change wp_ret
      by (rule wp_update_record, rule wp_add_evidence)
        (auto dest!: u intro: restI(3) pause_stage simp: pause_fields)
  qed
  show ?thesis
    using True unfolding acceptBatch_def wp_seq [of "assert_phase _"] wp_assert_phase
      wp_seq [of "throwIfAborted _"] wp_throwIfAborted
    by (auto simp: assms wp_seq [of "enter_phase _ _ _"] wp_seq [of "take_batch _ _"] wp_seq [of "ask _"]
        wp_ask open_phases_def store
        intro!: wp_enter_clean [OF clean] wp_weaken [OF wp_take_batch])
qed

section \<open>Authorization\<close>

lemma wp_authorize:
  assumes "at_rest permit s"
    and authorizer: "\<And>t x. as_snapshot t = Some x \<Longrightarrow>
      wp (authorizer x) (\<lambda>a u. pause t u \<and> granted x a (as_log u)) (\<lambda>_. pause t) t"
    and granted_grows: "\<And>x a l k. granted x a l \<Longrightarrow> granted x a (l @ k)"
  shows "wp (authorize env se authorizer)
     (\<lambda>a t. at_rest permit t \<and> aa_approved a \<and> (\<exists>x. granted x a (as_log t) \<and>
        assertExactAuthorization (aq_operationId (an_request se)) x a = Inr ())) (\<lambda>_. at_rest permit) s"
proof (cases "ar_phase (as_record s) = AccEscrowed")
  case False
  then show ?thesis by (simp add: authorize_def wp_seq wp_assert_phase assms(1))
next
  case True
  then have clean: "clean permit s" and "matched s"
    using restE [OF assms(1)] by (simp_all add: open_phases_def)
  then obtain x where x: "as_snapshot s = Some x" "ar_revision (as_record s) = es_revision x"
      "ar_snapshotHash (as_record s) = Some (es_hash x)" by (auto simp: matched_def)
  let ?f = "\<lambda>a r. r\<lparr>ar_phase := AccEscrowed, ar_authorizationRevision := Some (aa_revision a),
            ar_authorizationHash := Some (aa_snapshotHash a)\<rparr>"
  let ?exact = "assertExactAuthorization (aq_operationId (an_request se)) x"
  let ?Q = "\<lambda>a t. at_rest permit t \<and> aa_approved a \<and> (\<exists>x. granted x a (as_log t) \<and>
        assertExactAuthorization (aq_operationId (an_request se)) x a = Inr ())"
  have store: "wp (seq (update_record env (?f a)) (\<lambda>_.
       seq (require (aa_approved a) ''authorization-declined'') (\<lambda>_. ret a)))
     ?Q (\<lambda>_. at_rest permit) t"
    if t: "clean permit t" "as_snapshot t = Some x" "ar_revision (as_record t) = es_revision x"
      "ar_snapshotHash (as_record t) = Some (es_hash x)" "granted x a (as_log t)" "?exact a = Inr ()" for t a
  proof -
    have u: "at_rest permit v \<and> granted x a (as_log v)" if "updated (?f a) t y v" for y v
    proof -
      have "clean permit v" using stageD(3) [OF t(1)] by (intro updated_clean [OF that t(1)]) simp
      moreover have "matched v" using that t(2-4) by (auto simp: updated_def matched_def)
      moreover have "granted x a (as_log v)"
        using that granted_grows [OF t(5), of "[UpdateRecord (as_record v) y]"] by (simp add: updated_def)
      ultimately show ?thesis by (simp add: restI(3))
    qed
    show ?thesis
      unfolding wp_seq wp_require wp_ret by (rule wp_update_record) (use t(6) in \<open>auto dest: u\<close>)
  qed
  have ask_it: "wp (seq (authorizer x) (\<lambda>a.
       seq (of_result (assertExactAuthorization (aq_operationId (an_request se)) x a)) (\<lambda>_.
       seq (update_record env (?f a)) (\<lambda>_.
       seq (require (aa_approved a) ''authorization-declined'') (\<lambda>_. ret a))))) ?Q (\<lambda>_. at_rest permit) t"
    if t: "clean permit t" "ar_phase (as_record t) = AccAuthorizing" "as_snapshot t = Some x"
      "ar_revision (as_record t) = es_revision x" "ar_snapshotHash (as_record t) = Some (es_hash x)" for t
  proof (rule wp_then [OF authorizer [OF t(3)]], elim conjE)
    fix a u assume u: "pause t u" "granted x a (as_log u)"
    have "clean permit u" using pause_stage(1) [OF u(1)] t(1) by simp
    with u t show "wp (seq (of_result (assertExactAuthorization (aq_operationId (an_request se)) x a)) (\<lambda>_.
       seq (update_record env (?f a)) (\<lambda>_.
       seq (require (aa_approved a) ''authorization-declined'') (\<lambda>_. ret a)))) ?Q (\<lambda>_. at_rest permit) u"
      unfolding wp_seq [of "of_result _"] wp_of_result
      by (auto simp: pause_fields restI(2) split: sum.split intro: store)
  next
    fix e u assume "pause t u"
    then show "at_rest permit u" using t pause_stage(1) by (auto simp: pause_fields intro!: restI(2))
  qed
  show ?thesis
    unfolding authorize_def wp_seq [of "assert_phase _"] wp_assert_phase wp_seq [of requireSnapshot]
      wp_requireSnapshot wp_seq [of "enter_phase _ _ _"]
    by (simp add: True x) (rule wp_enter_clean [OF clean], auto simp: open_phases_def x intro: ask_it)
qed

section \<open>The way back\<close>

text \<open>The notes may be retracted: nothing was committed and the lease is still held.\<close>

definition returning :: "('x, 'z) acceptance_state_scheme \<Rightarrow> bool" where
  "returning s \<longleftrightarrow>
     closing permit s \<and> \<not> ar_physicalCommitDispatched (as_record s) \<and> \<not> has dispatches (as_log s) \<and>
     \<not> has is_end (as_log s) \<and> \<not> has is_retract (as_log s) \<and> \<not> has is_release (as_log s)"

lemma returning_closing: "returning s \<Longrightarrow> closing permit s"
  by (simp add: returning_def)

lemma returning_pause: "pause s t \<Longrightarrow> returning s \<Longrightarrow> returning t"
  using pause_same [of s t] pause_stage(2) [of s t permit] pause_fields(1) [of s t]
  by (simp add: returning_def)

lemma wp_enter_returning:
  assumes "clean permit s \<or> returning s" and "phase \<notin> open_phases"
    and "\<And>t. returning t \<Longrightarrow> (pristine (as_log s) \<Longrightarrow> pristine (as_log t)) \<Longrightarrow> grown s t \<Longrightarrow>
      as_snapshot t = as_snapshot s \<Longrightarrow> Q () t"
    and "\<And>e t. closing permit t \<Longrightarrow> R e t"
  shows "wp (enter_phase env phase event) Q R s"
proof -
  have s: "underway permit s" "\<not> ar_physicalCommitDispatched (as_record s)" "\<not> has dispatches (as_log s)"
    "\<not> has is_end (as_log s)" "\<not> has is_retract (as_log s)" "\<not> has is_release (as_log s)"
    using assms(1) by (auto simp: clean_def returning_def closing_def pristine_def)
  have u: "returning t" if "updated (\<lambda>r. r\<lparr>ar_phase := phase\<rparr>) s x t" for x t
  proof -
    have "closing permit t" by (rule updated_closing [OF that s(1)]) (simp_all add: assms(2))
    with that s show ?thesis by (auto simp: returning_def updated_def)
  qed
  show ?thesis
    unfolding enter_phase_def wp_seq
  proof (rule wp_update_record)
    fix t assume t: "updated (\<lambda>r. r\<lparr>ar_phase := phase\<rparr>) s (Inr ()) t"
    have same: "pristine (as_log t)" if "pristine (as_log s)"
      using t that s(2) by (auto simp: updated_def)
    show "wp (add_evidence env event) Q R t"
    proof (rule wp_add_evidence)
      fix v assume v: "pause t v"
      show "Q () v"
        using u [OF t] v same t pause_pristine [OF v]
        by (intro assms(3)) (auto simp: updated_def pause_fields
            intro: returning_pause growing.step_trans [OF updated_grown [OF t] pause_grown [OF v]])
    next
      fix e v assume v: "pause t v"
      show "R e v" by (rule assms(4), rule returning_closing, rule returning_pause [OF v u [OF t]])
    qed
  next
    fix e t assume "updated (\<lambda>r. r\<lparr>ar_phase := phase\<rparr>) s (Inl e) t"
    then show "R e t" by (intro assms(4) returning_closing u)
  qed
qed

lemma wp_retract:
  assumes "returning s"
    and "\<And>t. closing permit t \<Longrightarrow> has retracted_ok (as_log t) \<Longrightarrow> grown s t \<Longrightarrow>
      as_snapshot t = as_snapshot s \<Longrightarrow> Q () t"
    and "\<And>e t. closing permit t \<Longrightarrow> R e t"
  shows "wp (acc_call (ae_retract env) RetractEscrow) Q R s"
proof -
  have "closing permit (s\<lparr>as_log := as_log s @ [RetractEscrow r]\<rparr>)" for r
    by (rule closing_call [OF returning_closing [OF assms(1)]])
      (use assms(1) in \<open>auto simp: returning_def acceptance_law_def closing_def underway_def admitted_def\<close>)
  with assms(2,3) show ?thesis by (simp add: wp_acc_call grown_def split: sum.split)
qed

lemma wp_roll:
  assumes "returning s" and "pristine (as_log s)"
    and "\<And>t. returning t \<Longrightarrow> has rolled_back_ok (as_log t) \<Longrightarrow> Q () t"
    and "\<And>e t. closing permit t \<Longrightarrow> R e t"
  shows "wp (acc_call (ae_cashInRollback env) CashInRollback) Q R s"
proof -
  have s: "underway permit s" using assms(1) by (simp add: returning_def closing_def)
  have "returning (s\<lparr>as_log := as_log s @ [CashInRollback r]\<rparr>)" for r
    using assms(1,2) underway_call [OF s, of "CashInRollback r"] underway_admitted [OF s]
    by (simp add: returning_def closing_def acceptance_law_def pristineD)
  then show ?thesis
    using assms(3) by (auto simp: wp_acc_call split: sum.split intro!: assms(4) returning_closing)
qed

lemma wp_wait_taken:
  assumes "\<And>t. pause s t \<Longrightarrow> has taken_ok (as_log t) \<Longrightarrow> Q True t" and "\<And>t. pause s t \<Longrightarrow> Q False t"
    and "\<And>e t. pause s t \<Longrightarrow> R e t"
  shows "wp (acc_call (ae_waitTaken env) WaitTaken) Q R s"
proof -
  have "pause s (s\<lparr>as_log := as_log s @ [WaitTaken r]\<rparr>)" for r by (simp add: pause_def)
  moreover have "Q x (s\<lparr>as_log := as_log s @ [WaitTaken (Inr x)]\<rparr>)" for x
    using assms(1,2) calculation by (cases x) simp_all
  ultimately show ?thesis using assms(3) by (simp add: wp_acc_call split: sum.split)
qed

lemma wp_settled:
  assumes "closing permit s"
    and "\<And>t. closing permit t \<Longrightarrow> grown s t \<Longrightarrow> wp m Q R t" and "\<And>e t. closing permit t \<Longrightarrow> R e t"
  shows "wp (seq (fail_with env reason) (\<lambda>_. seq (release_lease env) (\<lambda>_. m))) Q R s"
  unfolding wp_seq
  by (rule wp_fail [OF stageD(4) [OF assms(1)]], erule wp_release) (auto intro: assms(2,3) growing.step_trans)

text \<open>What is returned is closed, was not committed, and is where it says.\<close>

definition gave_back :: "acceptance_result \<Rightarrow> ('x, 'z) acceptance_state_scheme \<Rightarrow> bool" where
  "gave_back r t \<longleftrightarrow>
     closing permit t \<and> \<not> rs_committed r \<and> backed_result r t \<and>
     (\<forall>p \<in> set (rs_portions r). np_custody p \<noteq> InCashUnit)"

lemma gave_backI:
  assumes "closing permit t" and "backed_custody (as_log t) custody" and "reason \<noteq> ReCommitted"
    and "reason = ReRecoveryRequired \<Longrightarrow> custody = WhereUnknown" and "custody \<noteq> InCashUnit"
  shows "wp (session_result se reason False custody d) gave_back R t"
  using assms by (auto simp: wp_session_result gave_back_def backed_result_def)

lemma wp_roll_back:
  assumes "at_rest permit s"
  shows "wp (roll_back env se reason) gave_back (\<lambda>_. at_rest permit) s"
proof (cases "ar_phase (as_record s) \<in> open_phases")
  case False
  then show ?thesis
    by (simp add: roll_back_def wp_seq [of "assert_phase _"] wp_assert_phase open_phases_def assms)
next
  case True
  let ?reason = "reason_of_abort reason"
  have reason: "?reason \<noteq> ReCommitted" "?reason \<noteq> ReRecoveryRequired"
    by (cases reason; simp add: reason_of_abort_def)+
  have clean: "clean permit s" by (rule restE(1) [OF assms True])
  have came: "wp (seq (fail_with env ReReturned) (\<lambda>_. seq (release_lease env) (\<lambda>_.
       session_result se ReReturned False ByCustomer None))) gave_back (\<lambda>_. at_rest permit) t"
    if "returning t" "has rolled_back_ok (as_log t)" "has taken_ok (as_log t)" for t
    by (rule wp_settled [OF returning_closing [OF that(1)]], rule gave_backI)
      (auto simp: backed_custody_def intro: grown_has that restI(1))
  have stop: "wp (seq (fail_with env ?reason) (\<lambda>_. session_result se ?reason False AtOutput None))
      gave_back (\<lambda>_. at_rest permit) t" if "returning t" for t
    unfolding wp_seq by (rule wp_fail [OF stageD(4) [OF returning_closing [OF that]]], rule gave_backI)
      (auto simp: backed_custody_def reason intro: restI(1))
  have retract: "wp (seq (enter_phase env AccRetracting ''not-taken-retract-requested'') (\<lambda>_.
       seq (acc_call (ae_retract env) RetractEscrow) (\<lambda>_.
       seq (fail_with env ReRetracted) (\<lambda>_.
       seq (release_lease env) (\<lambda>_.
       session_result se ReRetracted False InRetractUnit None))))) gave_back (\<lambda>_. at_rest permit) t"
    if "returning t" for t
    unfolding wp_seq [of "enter_phase _ _ _"] wp_seq [of "acc_call _ _"]
    by (rule wp_enter_returning, rule disjI2 [OF that], simp add: open_phases_def, erule wp_retract,
        erule wp_settled, rule gave_backI)
      (auto simp: backed_custody_def intro: grown_has restI(1))
  have waited: "wp (seq (acc_call (ae_waitTaken env) WaitTaken) (\<lambda>taken.
     if taken then
       seq (fail_with env ReReturned) (\<lambda>_. seq (release_lease env) (\<lambda>_.
       session_result se ReReturned False ByCustomer None))
     else if ap_notTakenAction (aq_policy (an_request se)) = NotTakenIntervention then
       seq (fail_with env ?reason) (\<lambda>_. session_result se ?reason False AtOutput None)
     else
       seq (enter_phase env AccRetracting ''not-taken-retract-requested'') (\<lambda>_.
       seq (acc_call (ae_retract env) RetractEscrow) (\<lambda>_.
       seq (fail_with env ReRetracted) (\<lambda>_.
       seq (release_lease env) (\<lambda>_.
       session_result se ReRetracted False InRetractUnit None)))))) gave_back (\<lambda>_. at_rest permit) t"
    if t: "returning t" "has rolled_back_ok (as_log t)" for t
  proof (subst wp_seq, rule wp_wait_taken, goal_cases)
    case (1 v)
    then show ?case using t by (simp add: came returning_pause pause_more)
  next
    case (2 v)
    then show ?case using t by (simp add: stop retract returning_pause)
  next
    case (3 e v)
    show ?case by (rule restI(1), rule returning_closing, rule returning_pause [OF 3 t(1)])
  qed
  have phases: "ar_phase (as_record s) \<in> set [AccStarting, AccAccepting, AccEscrowed, AccAuthorizing]"
    using True by (auto simp: open_phases_def)
  show ?thesis
    unfolding roll_back_def wp_seq [of "assert_phase _"] wp_assert_phase if_P [OF phases]
      wp_seq [of "enter_phase _ AccRollingBack _"] wp_seq [of "acc_call _ CashInRollback"]
    by (rule wp_enter_returning, rule disjI1 [OF clean], simp add: open_phases_def, erule wp_roll,
        simp add: stageD(2) [OF clean], erule (1) waited, erule restI(1), erule restI(1))
qed

lemma wp_abort:
  assumes "at_rest permit s"
  shows "wp (abort_acceptance env se reason) gave_back (\<lambda>_. at_rest permit) s"
proof (cases "ar_physicalCommitDispatched (as_record s)")
  case False
  then show ?thesis by (simp add: abort_acceptance_def wp_funs wp_roll_back assms)
next
  case True
  have "wp (seq (fail_with env ReRecoveryRequired) (\<lambda>_.
       session_result se ReRecoveryRequired False WhereUnknown None)) gave_back (\<lambda>_. at_rest permit) s"
    unfolding wp_seq by (rule wp_fail [OF rest_underway [OF assms]], intro gave_backI) (auto simp: backed_custody_def intro: restI(1))
  then show ?thesis by (simp add: abort_acceptance_def wp_seq [of "ask _"] wp_ask True)
qed

text \<open>Once a commit may have been dispatched, an abort only says that recovery is required.\<close>

lemma wp_abort_dispatched:
  assumes "at_rest permit s" and "has dispatches (as_log s)"
  shows "wp (abort_acceptance env se reason) (\<lambda>r _. undecided r) (\<lambda>_. at_rest permit) s"
proof -
  have s: "underway permit s" by (rule rest_underway [OF assms(1)])
  then have "ar_physicalCommitDispatched (as_record s)" using assms(2) by (simp add: underway_def)
  moreover have "wp (seq (fail_with env ReRecoveryRequired) (\<lambda>_.
       session_result se ReRecoveryRequired False WhereUnknown None)) (\<lambda>r _. undecided r) (\<lambda>_. at_rest permit) s"
    unfolding wp_seq by (rule wp_fail [OF s]) (simp_all add: wp_session_result undecided_def restI(1))
  ultimately show ?thesis by (simp add: abort_acceptance_def wp_seq [of "ask _"] wp_ask)
qed

section \<open>Refused notes\<close>

lemma wp_refusedTerminalResult:
  assumes "closing permit s" and "backed_custody (as_log s) custody" and "reason \<noteq> ReCommitted"
    and "reason \<noteq> ReRecoveryRequired" and "custody \<noteq> InCashUnit"
  shows "wp (refusedTerminalResult se reason custody) gave_back (\<lambda>_. at_rest permit) s"
  using assms
  by (auto simp: refusedTerminalResult_def wp_seq wp_requireSnapshot wp_ask gave_back_def backed_result_def
      backed_custody_def intro: restI(1) split: option.split)

lemma wp_resolveRefusedMedia:
  assumes "at_rest permit s"
  shows "wp (resolveRefusedMedia env se)
     (\<lambda>r t. at_rest permit t \<and> (\<forall>x. rr_terminalResult r = Some x \<longrightarrow> gave_back x t)) (\<lambda>_. at_rest permit) s"
proof (cases "ar_phase (as_record s) = AccEscrowed")
  case False
  then show ?thesis by (simp add: resolveRefusedMedia_def wp_seq wp_assert_phase assms)
next
  case True
  then have clean: "clean permit s" and "matched s"
    using restE [OF assms] by (simp_all add: open_phases_def)
  then obtain x where x: "as_snapshot s = Some x" by (auto simp: matched_def)
  let ?Q = "\<lambda>r t. at_rest permit t \<and> (\<forall>x. rr_terminalResult r = Some x \<longrightarrow> gave_back x t)"
  let ?r = "\<lambda>status result. \<lparr>rr_status = status, rr_refusedCount = es_refusedCount x, rr_terminalResult = result\<rparr>"
  have ended: "wp (seq (refusedTerminalResult se reason custody) (\<lambda>result. ret (?r status (Some result)))) ?Q (\<lambda>_. at_rest permit) t"
    if "closing permit t" "backed_custody (as_log t) custody" "reason \<noteq> ReCommitted" "reason \<noteq> ReRecoveryRequired"
      "custody \<noteq> InCashUnit" for t status reason custody
    unfolding wp_seq wp_ret
    by (rule wp_weaken [OF wp_refusedTerminalResult [OF that]]) (auto simp: gave_back_def intro: restI(1))
  have stop: "wp (seq (fail_with env ReRefusedIntervention) (\<lambda>_.
         seq (add_evidence env ''refused-media-intervention'') (\<lambda>_.
         seq (refusedTerminalResult se ReRefusedIntervention AtOutput) (\<lambda>result.
         ret (?r RefusedIntervention (Some result)))))) ?Q (\<lambda>_. at_rest permit) t" if "clean permit t" for t
    unfolding wp_seq [of "fail_with _ _"] wp_seq [of "add_evidence _ _"]
    by (rule wp_fail [OF stageD(1) [OF that]], rule wp_add_evidence, rule ended)
      (auto simp: backed_custody_def intro: pause_stage restI(1))
  have retract: "wp (seq (enter_phase env AccRetracting ''refused-media-retract-requested'') (\<lambda>_.
         seq (acc_call (ae_retract env) RetractEscrow) (\<lambda>_.
         seq (fail_with env ReRefusedRetracted) (\<lambda>_.
         seq (add_evidence env ''refused-media-retracted'') (\<lambda>_.
         seq (release_lease env) (\<lambda>_.
         seq (refusedTerminalResult se ReRefusedRetracted InRetractUnit) (\<lambda>result.
         ret (?r RefusedRetracted (Some result))))))))) ?Q (\<lambda>_. at_rest permit) t" if "clean permit t" for t
  proof (unfold wp_seq [of "enter_phase _ _ _"] wp_seq [of "acc_call _ _"] wp_seq [of "fail_with _ _"],
      rule wp_enter_returning, rule disjI1 [OF that], simp add: open_phases_def, erule wp_retract, goal_cases)
    case (1 u v)
    show ?case
    proof (rule wp_fail [OF stageD(4) [OF 1(4)]])
      fix w assume w: "closing permit w" "grown v w"
      have ok: "has retracted_ok (as_log w)" by (rule grown_has [OF w(2) 1(5)])
      show "wp (seq (add_evidence env ''refused-media-retracted'') (\<lambda>_.
         seq (release_lease env) (\<lambda>_.
         seq (refusedTerminalResult se ReRefusedRetracted InRetractUnit) (\<lambda>result.
         ret (?r RefusedRetracted (Some result)))))) ?Q (\<lambda>_. at_rest permit) w"
        unfolding wp_seq [of "add_evidence _ _"] wp_seq [of "release_lease _"]
        by (rule wp_add_evidence, rule wp_release, erule pause_stage(2) [OF _ w(1)], rule ended)
          (auto simp: backed_custody_def
            intro: w(1) pause_stage grown_has [OF growing.step_trans [OF pause_grown] ok] restI(1))
    qed (rule restI(1))
  qed (rule restI(1), assumption)+
  have presented: "wp (seq (add_evidence env ''refused-media-presented'') (\<lambda>_.
       seq (acc_call (ae_waitTaken env) WaitTaken) (\<lambda>taken.
       if taken then
         seq (add_evidence env ''refused-media-taken'') (\<lambda>_. ret (?r RefusedTaken None))
       else if ap_notTakenAction (aq_policy (an_request se)) = NotTakenIntervention then
         seq (fail_with env ReRefusedIntervention) (\<lambda>_.
         seq (add_evidence env ''refused-media-intervention'') (\<lambda>_.
         seq (refusedTerminalResult se ReRefusedIntervention AtOutput) (\<lambda>result.
         ret (?r RefusedIntervention (Some result)))))
       else
         seq (enter_phase env AccRetracting ''refused-media-retract-requested'') (\<lambda>_.
         seq (acc_call (ae_retract env) RetractEscrow) (\<lambda>_.
         seq (fail_with env ReRefusedRetracted) (\<lambda>_.
         seq (add_evidence env ''refused-media-retracted'') (\<lambda>_.
         seq (release_lease env) (\<lambda>_.
         seq (refusedTerminalResult se ReRefusedRetracted InRetractUnit) (\<lambda>result.
         ret (?r RefusedRetracted (Some result))))))))))) ?Q (\<lambda>_. at_rest permit) s"
  proof (unfold wp_seq [of "add_evidence _ ''refused-media-presented''"] wp_seq [of "acc_call _ WaitTaken"],
      rule wp_add_evidence, rule wp_wait_taken, goal_cases)
    case (1 t u)
    then have "at_rest permit u" using assms by (blast intro: pause_stage(4))
    then show ?case
      by (auto simp: wp_seq wp_ret intro!: wp_add_evidence intro: pause_stage(4))
  next
    case (2 t u)
    then have "clean permit u" using clean by (blast intro: pause_stage(1))
    then show ?case by (simp add: stop retract)
  qed (use assms in \<open>blast intro: pause_stage(4)\<close>)+
  show ?thesis
    unfolding resolveRefusedMedia_def wp_seq [of "assert_phase _"] wp_assert_phase wp_seq [of requireSnapshot]
      wp_requireSnapshot Let_def
    using presented by (simp add: True x wp_ret assms)
qed

section \<open>Start\<close>

text \<open>Nothing has been asked of the device, or the start has failed for good.\<close>

definition entering :: "('x, 'z) acceptance_state_scheme \<Rightarrow> bool" where
  "entering s \<longleftrightarrow> acceptance_lawful permit (as_log s) \<and> pristine (as_log s) \<and> \<not> has started_ok (as_log s)"

definition refused_start :: "('x, 'z) acceptance_state_scheme \<Rightarrow> bool" where
  "refused_start s \<longleftrightarrow> acceptance_lawful permit (as_log s) \<and> \<not> has is_end (as_log s)"

lemma entering_refused: "entering s \<Longrightarrow> refused_start s"
  by (simp add: entering_def refused_start_def pristine_def)

lemma entering_pause: "pause s t \<Longrightarrow> entering s \<Longrightarrow> entering t"
  using pause_pristine [of s t] pause_has [of s t started_ok]
  by (force simp: entering_def pause_def lawful_from_append lawful_quiet elim: quiet.elims)

lemma entering_call:
  assumes "entering s" and "acceptance_law permit (as_log s) c" and "\<not> dispatches c" and "\<not> is_end c"
    and "\<not> is_rollback c" and "\<not> is_retract c" and "\<not> is_release c" and "\<not> started_ok c"
  shows "entering (s\<lparr>as_log := as_log s @ [c]\<rparr>)"
  using assms by (simp add: entering_def lawful_from_append)

lemma wp_releasing:
  assumes "wp m Q (\<lambda>_. refused_start) s" and "\<And>e t. refused_start t \<Longrightarrow> R e t"
  shows "wp (releasing env m) Q R s"
proof -
  have "wp (seq (release_lease env) (\<lambda>_. raise e)) Q R t" if "refused_start t" for e t
  proof -
    have "refused_start (t\<lparr>as_log := as_log t @ [ReleaseLease r]\<rparr>)" for r
      using that by (simp add: refused_start_def lawful_from_append acceptance_law_def)
    then show ?thesis
      using assms(2) by (simp add: wp_seq wp_raise release_lease_def wp_acc_call split: sum.split)
  qed
  then show ?thesis
    unfolding releasing_def wp_handle by (intro wp_weaken [OF assms(1)])
qed

text \<open>Everything is in place to open the device.\<close>

definition ready :: "('x, 'z) acceptance_state_scheme \<Rightarrow> bool" where
  "ready s \<longleftrightarrow>
     entering s \<and> has leased_ok (as_log s) \<and> has entered_ok (as_log s) \<and> has created_ok (as_log s) \<and>
     ar_phase (as_record s) = AccStarting \<and> \<not> ar_physicalCommitDispatched (as_record s)"

lemma ready_pause: "pause s t \<Longrightarrow> ready s \<Longrightarrow> ready t"
  using entering_pause [of s t] pause_fields(1) [of s t]
  by (auto simp: ready_def intro: pause_more)

lemma ready_refused: "ready s \<Longrightarrow> refused_start s"
  by (simp add: ready_def entering_refused)

lemma wp_open_device:
  assumes "ready s"
    and "\<And>t. clean permit t \<Longrightarrow> ar_phase (as_record t) = AccStarting \<Longrightarrow> Q () t"
    and "\<And>e t. refused_start t \<Longrightarrow> R e t"
  shows "wp (acc_call (ae_cashInStart env) (CashInStart recycle)) Q R s"
proof -
  have law: "acceptance_law permit (as_log s) (CashInStart recycle r)" for r
    using assms(1) by (auto simp: ready_def entering_def acceptance_law_def admitted_def pristine_def)
  have "clean permit (s\<lparr>as_log := as_log s @ [CashInStart recycle (Inr ())]\<rparr>)"
    using assms(1) law by (auto simp: clean_def underway_def ready_def entering_def lawful_from_append pristine_def)
  moreover have "refused_start (s\<lparr>as_log := as_log s @ [CashInStart recycle r]\<rparr>)" for r
    using ready_refused [OF assms(1)] law by (simp add: refused_start_def lawful_from_append)
  moreover have "ar_phase (as_record s) = AccStarting" using assms(1) by (simp add: ready_def)
  ultimately show ?thesis using assms(2,3) by (simp add: wp_acc_call split: sum.split)
qed

lemma clean_refused: "clean permit s \<Longrightarrow> refused_start s"
  by (auto simp: clean_def underway_def pristine_def refused_start_def)

lemma wp_begin:
  assumes "ready s"
  shows "wp (begin_cash_in env q token)
     (\<lambda>se t. clean permit t \<and> at_rest permit t \<and> an_request se = q) (\<lambda>_. refused_start) s"
proof -
  let ?Q = "\<lambda>se t. clean permit t \<and> at_rest permit t \<and> an_request se = q"
  have started: "wp (seq (add_evidence env ''cash-in-started'') (\<lambda>_. ret
      \<lparr>an_request = q, an_fencingToken = token, an_shutterControl = sc, an_inventoryBefore = inv\<rparr>))
      ?Q (\<lambda>_. refused_start) t"
    if "clean permit t" "ar_phase (as_record t) = AccStarting" for t sc inv
  proof (subst wp_seq, rule wp_add_evidence)
    fix u assume u: "pause t u"
    have "clean permit u" by (rule pause_stage(1) [OF u that(1)])
    then show "wp (ret \<lparr>an_request = q, an_fencingToken = token, an_shutterControl = sc, an_inventoryBefore = inv\<rparr>)
        ?Q (\<lambda>_. refused_start) u"
      using that(2) u by (auto simp: wp_ret pause_fields intro: restI(2))
  next
    fix e u assume "pause t u"
    then show "refused_start u" using that(1) by (blast intro: clean_refused pause_stage(1))
  qed
  have r: "ready u" if "pause s t" "pause t u" for t u
    by (rule ready_pause [OF that(2) ready_pause [OF that(1) assms]])
  show ?thesis
    unfolding begin_cash_in_def wp_seq [of "acc_call _ _"]
    by (rule wp_quiet, simp, rule wp_quiet, simp, rule wp_open_device)
      (auto intro: started ready_refused ready_pause [OF _ assms] r)
qed

lemma wp_start:
  fixes s :: "('x, 'z) acceptance_state_scheme"
  assumes "list_all quiet (as_log s)"
  shows "wp (start_acceptance env q)
     (\<lambda>se t. clean permit t \<and> at_rest permit t \<and> an_request se = q) (\<lambda>_. refused_start) s"
proof -
  let ?Q = "\<lambda>se t. clean permit t \<and> at_rest permit t \<and> an_request se = q"
  have s: "entering s"
  proof -
    have "\<not> has started_ok (as_log s)" by (rule has_not_quiet [OF assms]) (erule quiet.elims; simp)
    moreover have "pristine (as_log s)"
      unfolding pristine_def by (intro conjI has_not_quiet [OF assms] quiet_law; assumption)
    ultimately show ?thesis by (simp add: entering_def lawful_quiet assms)
  qed
  have log: "entering (t\<lparr>as_log := as_log t @ [c]\<rparr>)"
    if "entering t" "c \<in> {AcquireLease r, AssertCanStart v, CreateRecord w v}" for c r v w
      and t :: "('x, 'z) acceptance_state_scheme"
    by (rule entering_call [OF that(1)])
      (use that in \<open>auto simp: acceptance_law_def entering_def\<close>)
  have create: "wp (seq (change (\<lambda>s. s\<lparr>as_record := new_record q (ae_now env (as_log s)), as_snapshot := None\<rparr>)) (\<lambda>_.
     seq (ask as_record) (\<lambda>r.
     seq (acc_call (\<lambda>l. ae_create env l r) (CreateRecord r)) (\<lambda>_.
     seq (add_evidence env ''entry-gate-passed'') (\<lambda>_.
     releasing env (begin_cash_in env q token)))))) ?Q (\<lambda>_. refused_start) t"
    if t: "entering t" "has leased_ok (as_log t)" "has entered_ok (as_log t)"
    for token and t :: "('x, 'z) acceptance_state_scheme"
  proof -
    define r where "r = new_record q (ae_now env (as_log t))"
    define u where "u v = t\<lparr>as_record := r, as_snapshot := None, as_log := as_log t @ [CreateRecord r v]\<rparr>" for v
    have "entering (t\<lparr>as_record := r, as_snapshot := None\<rparr>)" using t(1) by (simp add: entering_def)
    from log [OF this, of "CreateRecord r v" for v] have u: "entering (u v)" for v by (simp add: u_def)
    have "ready (u (Inr ()))"
      using u [of "Inr ()"] t(2,3) by (simp add: ready_def u_def r_def new_record_def)
    then have "wp (seq (add_evidence env ''entry-gate-passed'') (\<lambda>_.
       releasing env (begin_cash_in env q token))) ?Q (\<lambda>_. refused_start) (u (Inr ()))"
      unfolding wp_seq
      by (intro wp_add_evidence wp_releasing wp_begin) (blast intro: ready_pause ready_refused)+
    moreover have "refused_start (u v)" for v by (rule entering_refused [OF u])
    ultimately show ?thesis
      by (simp add: wp_seq wp_change wp_ask wp_acc_call r_def [symmetric] u_def split: sum.split)
  qed
  have "wp (start_acceptance env q) ?Q (\<lambda>_. refused_start) s" if "\<not> aq_aborted q (as_log s)"
  proof -
    have gate: "wp (releasing env (acc_call (ae_assertCanStart env) AssertCanStart))
        (\<lambda>_ u. entering u \<and> has leased_ok (as_log u) \<and> has entered_ok (as_log u)) (\<lambda>_. refused_start) t"
      if "entering t" "has leased_ok (as_log t)" for t :: "('x, 'z) acceptance_state_scheme"
      using that log [OF that(1)]
      by (intro wp_releasing) (auto simp: wp_acc_call intro: entering_refused split: sum.split)
    have lease: "wp (acc_call (ae_acquire env) AcquireLease)
        (\<lambda>_ u. entering u \<and> has leased_ok (as_log u)) (\<lambda>_. refused_start) s"
      using log [OF s] by (auto simp: wp_acc_call intro: entering_refused split: sum.split)
    show ?thesis
      unfolding start_acceptance_def wp_seq [of "throwIfAborted _"] wp_throwIfAborted if_not_P [OF that]
        wp_seq [of "acc_call _ AcquireLease"] wp_seq [of "releasing _ (acc_call _ AssertCanStart)"]
      by (rule wp_weaken [OF lease], elim conjE, rule wp_weaken [OF gate]) (auto intro: create)
  qed
  then show ?thesis
    using entering_refused [OF s]
    by (cases "aq_aborted q (as_log s)") (simp_all add: start_acceptance_def wp_seq wp_throwIfAborted)
qed

end

end
