(* ===== verification/Acceptance_Recovery.thy ===== *)
theory Acceptance_Recovery
  imports Acceptance_Methods
begin

text \<open>
  A session and the store behind it: what the store holds of the operation whenever the process
  stops, and what the recovery makes of it.
\<close>

section \<open>What is asked of the store\<close>

text \<open>The calls to the store are about the session's operation and carry the store's answers.\<close>

definition store_law :: "'x acceptance_env \<Rightarrow> string \<Rightarrow> 'x acceptance_log \<Rightarrow> 'x acceptance_call \<Rightarrow> bool" where
  "store_law env op l c \<longleftrightarrow>
     (case c of
        CreateRecord r x \<Rightarrow> x = ae_create env l r \<and> ar_operationId r = op
      | UpdateRecord r x \<Rightarrow> x = ae_update env l r \<and> ar_operationId r = op
      | _ \<Rightarrow> True)"

definition storing ::
  "'x acceptance_env \<Rightarrow> string \<Rightarrow> ('x, 'z) acceptance_state_scheme \<Rightarrow> ('x, 'z) acceptance_state_scheme \<Rightarrow> bool" where
  "storing env op s t \<longleftrightarrow>
     (ar_operationId (as_record s) = op \<longrightarrow> ar_operationId (as_record t) = op) \<and>
     (ar_operationId (as_record s) = op \<longrightarrow>
       (\<exists>k. as_log t = as_log s @ k \<and> lawful_from (store_law env op) (as_log s) k))"

interpretation storing: state_frame "storing env op" for env op
proof (unfold_locales, goal_cases)
  case (2 s t u)
  then show ?case by (auto simp: storing_def lawful_from_append)
qed (simp add: storing_def)

lemma storing_call:
  "(\<And>l r. store_law env op l (c r)) \<Longrightarrow> stays (storing env op) (acc_call f c)"
  by (simp add: storing.stays_iff wp_acc_call storing_def split: sum.split)

lemma storing_update:
  "(\<And>r. ar_operationId (f r) = ar_operationId r) \<Longrightarrow> stays (storing env op) (update_record env f)"
  by (auto simp: storing.stays_iff update_record_def wp_funs wp_acc_call storing_def store_law_def split: sum.split)

lemma storing_snapshot: "stays (storing env op) (change (as_snapshot_update f))"
  by (simp add: storing.stays_iff wp_change storing_def)

lemma storing_evidence: "stays (storing env op) (add_evidence env' ev)"
  by (simp add: storing.stays_iff add_evidence_def wp_funs wp_acc_call storing_def store_law_def split: sum.split)

lemma storing_finally: "stays (storing env op) m \<Longrightarrow> stays (storing env op) n \<Longrightarrow> stays (storing env op) (finally_do m n)"
  by (subst storing.stays_iff)
    (auto simp: wp_finally_do intro!: storing.stays_wp [where m = m] storing.stays_after)

lemma storing_option: "(\<And>y. stays (storing env op) (f y)) \<Longrightarrow> stays (storing env op) m \<Longrightarrow>
    stays (storing env op) (case x of None \<Rightarrow> m | Some y \<Rightarrow> f y)"
  by (cases x) simp_all

lemma storing_if: "stays (storing env op) m \<Longrightarrow> stays (storing env op) n \<Longrightarrow> stays (storing env op) (if b then m else n)"
  by simp

lemma storing_result: "stays (storing env op) (of_result r)"
  by (cases r) (simp_all add: of_result_def storing.stays_rules)

lemmas storing_rules = storing.stays_rules storing_call storing_update storing_snapshot storing_evidence
  storing_finally storing_option storing_if storing_result

lemma storing_enter: "stays (storing env op) (enter_phase env phase event)"
  unfolding enter_phase_def by (intro storing_rules) simp

lemma storing_fail: "stays (storing env op) (fail_with env reason)"
  unfolding fail_with_def by (intro storing_rules) simp

lemma storing_release: "stays (storing env op) (release_lease env)"
  unfolding release_lease_def by (intro storing_rules) (simp add: store_law_def)

lemma storing_small:
  "stays (storing env op) (assert_phase ps)" "stays (storing env op) (requireSnapshot)"
  "stays (storing env op) (throwIfAborted q)" "stays (storing env op) (session_result se reason b custody d)"
  unfolding assert_phase_def requireSnapshot_def throwIfAborted_def session_result_def
  by (intro storing_rules)+

lemma storing_refused: "stays (storing env op) (refusedTerminalResult se reason custody)"
  unfolding refusedTerminalResult_def by (intro storing_rules storing_small)

lemmas storing_steps = storing_rules storing_enter storing_fail storing_release storing_small storing_refused

lemma storing_acceptBatch: "stays (storing env op) (acceptBatch env se)"
  unfolding acceptBatch_def take_batch_def when_application_def
  by (intro storing_steps; simp add: store_law_def)

lemma storing_resolveRefusedMedia: "stays (storing env op) (resolveRefusedMedia env se)"
  unfolding resolveRefusedMedia_def Let_def
  by (intro storing_steps; simp add: store_law_def)

lemma storing_authorize:
  assumes "\<And>x. stays (storing env op) (authorizer x)"
  shows "stays (storing env op) (authorize env se authorizer)"
  unfolding authorize_def by (intro storing_steps assms; simp)

lemma storing_commit: "stays (storing env op) (commit env se a)"
  unfolding commit_def Let_def by (intro storing_steps; simp add: store_law_def)

lemma storing_abort: "stays (storing env op) (abort_acceptance env se reason)"
  unfolding abort_acceptance_def roll_back_def by (intro storing_steps; simp add: store_law_def)

lemma storing_pause: "stays pause m \<Longrightarrow> stays (storing env op) m"
proof (unfold stays_def, intro allI)
  fix s assume "\<forall>s. pause s (snd (m s))"
  then have p: "pause s (snd (m s))" by blast
  have "lawful_from (store_law env op) l k" if "list_all quiet k" for l k
    using that by (induction k arbitrary: l) (auto simp: store_law_def split: acceptance_call.split)
  with p show "storing env op s (snd (m s))" by (auto simp: storing_def pause_def)
qed

section \<open>The states of a session\<close>

text \<open>
  Any methods in any order, with any authorizer and any authorization; in between the caller may
  make calls of its own.
\<close>

inductive acceptance_reachable ::
  "'x acceptance_env \<Rightarrow> 'x acceptance_session \<Rightarrow> ('x, 'z) acceptance_state_scheme \<Rightarrow> bool"
  for env se where
  begun: "list_all is_caller (as_log s) \<Longrightarrow> start_acceptance env q s = (Inr se, t) \<Longrightarrow>
    acceptance_reachable env se t"
| accepts: "acceptance_reachable env se s \<Longrightarrow> acceptance_reachable env se (snd (acceptBatch env se s))"
| resolves: "acceptance_reachable env se s \<Longrightarrow> acceptance_reachable env se (snd (resolveRefusedMedia env se s))"
| authorizes: "acceptance_reachable env se s \<Longrightarrow> (\<And>x. stays pause (authorizer x)) \<Longrightarrow>
    acceptance_reachable env se (snd (authorize env se (authorizer :: ('x, 'z, unit) authorizer) s))"
| commits: "acceptance_reachable env se s \<Longrightarrow>
    acceptance_reachable env se (snd (commit env se (a :: acceptance_authorization) s))"
| aborts: "acceptance_reachable env se s \<Longrightarrow>
    acceptance_reachable env se (snd (abort_acceptance env se reason s))"
| caller: "acceptance_reachable env se s \<Longrightarrow> pause s t \<Longrightarrow> acceptance_reachable env se t"

text \<open>With nothing promised of what is committed.\<close>

interpretation any_commit: commit_permit "\<lambda>_ _. True"
  by unfold_locales

abbreviation unconditionally :: "'x acceptance_log \<Rightarrow> acceptance_record \<Rightarrow> bool" where
  "unconditionally \<equiv> \<lambda>_ _. True"

lemma caller_quiet: "list_all is_caller l \<Longrightarrow> list_all quiet l"
  by (induction l) (auto elim: is_caller.elims)

lemma wp_keeps: "wp m (\<lambda>_. P) (\<lambda>_. P) s \<Longrightarrow> P (snd (m s))"
  by (simp add: wp_always)

lemma reachable_rest: "acceptance_reachable env se s \<Longrightarrow> at_rest unconditionally s"
proof (induction rule: acceptance_reachable.induct)
  case (begun s q t)
  then show ?case
    using wp_result [OF any_commit.wp_start [OF caller_quiet [OF begun(1)]] begun(2)] by simp
next
  case (accepts s)
  show ?case by (rule wp_keeps, rule wp_weaken [OF any_commit.wp_acceptBatch [OF accepts(2)]]) auto
next
  case (resolves s)
  show ?case by (rule wp_keeps, rule wp_weaken [OF any_commit.wp_resolveRefusedMedia [OF resolves(2)]]) auto
next
  case (authorizes s authorizer)
  have "wp (authorizer x) (\<lambda>a u. pause t u \<and> True) (\<lambda>_. pause t) t" for x t
    using authorizes(2) by (simp add: pausing.stays_iff)
  note a = any_commit.wp_authorize [OF authorizes(3) this]
  show ?case by (rule wp_keeps, rule wp_weaken [OF a]) auto
next
  case (commits s a)
  show ?case
    by (rule wp_keeps, rule wp_weaken [OF any_commit.wp_commit [OF commits(2)]]) (auto intro: restI(1))
next
  case (aborts s reason)
  show ?case
    by (rule wp_keeps, rule wp_weaken [OF any_commit.wp_abort [OF aborts(2)]])
      (auto simp: any_commit.gave_back_def intro: restI(1))
next
  case (caller s t)
  then show ?case by (blast intro: pause_stage(4))
qed

text \<open>The session's record is of the operation the request names, and so is all it stores.\<close>

definition stored_right :: "'x acceptance_env \<Rightarrow> string \<Rightarrow> ('x, 'z) acceptance_state_scheme \<Rightarrow> bool" where
  "stored_right env op s \<longleftrightarrow>
     ar_operationId (as_record s) = op \<and> lawful_from (store_law env op) [] (as_log s)"

lemma storing_right: "storing env op s t \<Longrightarrow> stored_right env op s \<Longrightarrow> stored_right env op t"
  by (auto simp: storing_def stored_right_def lawful_from_append)

lemma stays_right: "stays (storing env op) m \<Longrightarrow> stored_right env op s \<Longrightarrow> stored_right env op (snd (m s))"
  by (auto simp: stays_def intro: storing_right)

lemma wp_stays_right:
  assumes "stays (storing env op) m" and "stored_right env op s"
  shows "wp m (\<lambda>_. stored_right env op) (\<lambda>_. stored_right env op) s"
  using stays_right [OF assms] by (simp add: wp_always)

lemma caller_lawful: "list_all is_caller k \<Longrightarrow> lawful_from (store_law env op) l k"
  by (induction k arbitrary: l) (auto simp: store_law_def elim: is_caller.elims)

lemma storing_releasing: "stays (storing env op) m \<Longrightarrow> stays (storing env op) (releasing env m)"
  unfolding releasing_def by (intro storing_steps)

lemma start_right:
  fixes s :: "('x, 'z) acceptance_state_scheme"
  assumes "list_all is_caller (as_log s)"
  shows "wp (start_acceptance env q) (\<lambda>se t. stored_right env (aq_operationId q) t) (\<lambda>_ _. True) s"
proof -
  let ?op = "aq_operationId q"
  define fine where "fine t \<longleftrightarrow> lawful_from (store_law env ?op) [] (as_log t)" for t :: "('x, 'z) acceptance_state_scheme"
  have "fine s" by (simp add: fine_def caller_lawful assms)
  have call: "wp (acc_call f c) (\<lambda>_. fine) (\<lambda>_. fine) t"
    if "fine t" "\<And>l r. store_law env ?op l (c r)" for f and t :: "('x, 'z) acceptance_state_scheme" and c :: "string + 'b \<Rightarrow> 'x acceptance_call"
    using that by (simp add: wp_acc_call fine_def lawful_from_append split: sum.split)
  have gate: "wp (releasing env (acc_call (ae_assertCanStart env) AssertCanStart)) (\<lambda>_. fine) (\<lambda>_ _. True) t"
    if "fine t" for t :: "('x, 'z) acceptance_state_scheme"
    unfolding releasing_def wp_handle wp_seq wp_raise release_lease_def
    by (rule wp_weaken [OF call [OF that]])
      (auto simp: store_law_def wp_acc_call split: sum.split)
  let ?create = "\<lambda>token. seq (ask as_record) (\<lambda>r.
     seq (acc_call (\<lambda>l. ae_create env l r) (CreateRecord r)) (\<lambda>_.
     seq (add_evidence env ''entry-gate-passed'') (\<lambda>_.
     releasing env (begin_cash_in env q token))))"
  have create: "wp (?create token) (\<lambda>_. stored_right env ?op) (\<lambda>_ _. True) t"
    if "stored_right env ?op t" for token and t :: "('x, 'z) acceptance_state_scheme"
  proof -
    have rest: "stays (storing env ?op) (seq (add_evidence env ''entry-gate-passed'') (\<lambda>_.
       releasing env (begin_cash_in env q token)))"
      unfolding begin_cash_in_def by (intro storing_steps storing_releasing; simp add: store_law_def)
    have "stored_right env ?op (t\<lparr>as_log := as_log t @ [CreateRecord (as_record t) (ae_create env (as_log t) (as_record t))]\<rparr>)"
      using that by (simp add: stored_right_def lawful_from_append store_law_def)
    from wp_stays_right [OF rest this] show ?thesis
      by (auto simp: wp_seq [of "ask _"] wp_ask wp_seq [of "acc_call _ _"] wp_acc_call
          intro: wp_weaken split: sum.split)
  qed
  have "stored_right env ?op (t\<lparr>as_record := new_record q now, as_snapshot := None\<rparr>)" if "fine t"
    for now and t :: "('x, 'z) acceptance_state_scheme"
    using that by (simp add: stored_right_def fine_def new_record_def)
  note made = create [OF this]
  show ?thesis
    unfolding start_acceptance_def wp_seq [of "throwIfAborted _"] any_commit.wp_throwIfAborted
      wp_seq [of "acc_call _ AcquireLease"] wp_seq [of "releasing _ (acc_call _ AssertCanStart)"]
      wp_seq [of "change _"] wp_change
    using \<open>fine s\<close>
    by (auto intro!: wp_weaken [OF call] wp_weaken [OF gate] made simp: store_law_def)
qed

lemma reachable_right:
  "acceptance_reachable env se s \<Longrightarrow> stored_right env (aq_operationId (an_request se)) s"
proof (induction rule: acceptance_reachable.induct)
  case (begun s q t)
  have "an_request se = q"
    using wp_result [OF any_commit.wp_start [OF caller_quiet [OF begun(1)]] begun(2)] by simp
  then show ?case using wp_result [OF start_right [OF begun(1)] begun(2)] by simp
next
  case (caller s t)
  from caller(2) have "stays pause (\<lambda>u. (Inr (), if u = s then t else u))"
    by (simp add: stays_def pausing.step_refl)
  from stays_right [OF storing_pause [OF this] caller(3)] show ?case by simp
qed (blast intro: stays_right storing_acceptBatch storing_resolveRefusedMedia storing_authorize storing_pause
    storing_commit storing_abort)+

section \<open>The store behind a log\<close>

text \<open>What the log has made of the store; a refused call leaves it as it was.\<close>

fun replay ::
  "(acceptance_record \<Rightarrow> 's \<Rightarrow> string + 's) \<Rightarrow> (acceptance_record \<Rightarrow> 's \<Rightarrow> string + 's) \<Rightarrow> 'x acceptance_log \<Rightarrow> 's \<Rightarrow> 's" where
  "replay create update [] st = st"
| "replay create update (c # l) st =
     replay create update l
       (case c of
          CreateRecord r _ \<Rightarrow> (case create r st of Inl _ \<Rightarrow> st | Inr st' \<Rightarrow> st')
        | UpdateRecord r _ \<Rightarrow> (case update r st of Inl _ \<Rightarrow> st | Inr st' \<Rightarrow> st')
        | _ \<Rightarrow> st)"

lemma replay_append:
  "replay create update (l @ k) st = replay create update k (replay create update l st)"
  by (induction l arbitrary: st) auto

definition answer_of :: "string + 's \<Rightarrow> string + unit" where
  "answer_of x = (case x of Inl e \<Rightarrow> Inl e | Inr _ \<Rightarrow> Inr ())"

text \<open>The session's store is this one.\<close>

definition backed_by ::
  "(acceptance_record \<Rightarrow> 's \<Rightarrow> string + 's) \<Rightarrow> (acceptance_record \<Rightarrow> 's \<Rightarrow> string + 's) \<Rightarrow> 's
     \<Rightarrow> 'x acceptance_env \<Rightarrow> bool" where
  "backed_by create update st env \<longleftrightarrow>
     (\<forall>l r. ae_create env l r = answer_of (create r (replay create update l st)) \<and>
            ae_update env l r = answer_of (update r (replay create update l st)))"

lemma stored_dispatch_dispatches: "stored_dispatch c \<Longrightarrow> dispatches c"
  by (erule stored_dispatch.elims) auto

lemma stored_dispatch_stored: "commit_stored permit l \<Longrightarrow> has stored_dispatch l"
  by (force simp: commit_stored_def has_set)

context acceptance_store
begin

text \<open>The store has a record of the operation once it was created, and one that says the commit was
  dispatched once that was stored.\<close>

definition mirrors :: "string \<Rightarrow> 'x acceptance_log \<Rightarrow> 's \<Rightarrow> bool" where
  "mirrors op l st \<longleftrightarrow>
     sound st \<and> (has created_ok l \<longrightarrow> get op st \<noteq> None) \<and>
     (has stored_dispatch l \<longrightarrow> (\<exists>r. get op st = Some r \<and> ar_physicalCommitDispatched r))"

lemma replay_mirrors:
  assumes "backed_by create update st env" and "sound st"
    and "acceptance_lawful permit l" and "lawful_from (store_law env op) [] l"
  shows "mirrors op l (replay create update l st)"
  using assms(3,4)
proof (induction l rule: rev_induct)
  case (snoc c l)
  let ?st = "replay create update l st"
  have IH: "mirrors op l ?st" and law: "acceptance_law permit l c" and asked: "store_law env op l c"
    using snoc by (auto simp: lawful_from_append)
  have sound: "sound ?st" using IH by (simp add: mirrors_def)
  have dispatched: "has dispatches l" if "has stored_dispatch l"
    using that stored_dispatch_dispatches by (auto simp: has_set)
  show ?case
  proof (cases c)
    case (CreateRecord r x)
    have r: "ar_operationId r = op" "x = answer_of (create r ?st)"
      using asked assms(1) by (simp_all add: CreateRecord store_law_def backed_by_def)
    have none: "\<not> has stored_dispatch l"
      using law dispatched by (auto simp: CreateRecord acceptance_law_def pristine_def)
    show ?thesis
    proof (cases "create r ?st")
      case (Inl e)
      then show ?thesis using IH r none by (simp add: CreateRecord replay_append mirrors_def answer_of_def)
    next
      case (Inr st')
      then show ?thesis
        using create_get [OF sound Inr, of op] r none
        by (simp add: CreateRecord replay_append mirrors_def answer_of_def)
    qed
  next
    case (UpdateRecord r x)
    have r: "ar_operationId r = op" "x = answer_of (update r ?st)"
      using asked assms(1) by (simp_all add: UpdateRecord store_law_def backed_by_def)
    have created: "get op ?st \<noteq> None" and more: "has stored_dispatch l \<longrightarrow> ar_physicalCommitDispatched r"
      using law IH dispatched by (auto simp: UpdateRecord acceptance_law_def mirrors_def)
    show ?thesis
    proof (cases "update r ?st")
      case (Inl e)
      then show ?thesis using IH r by (simp add: UpdateRecord replay_append mirrors_def answer_of_def)
    next
      case (Inr st')
      then show ?thesis
        using update_get [OF sound _ Inr, of op] r created more
        by (auto simp: UpdateRecord replay_append mirrors_def answer_of_def)
    qed
  qed (use IH in \<open>simp_all add: replay_append mirrors_def\<close>)
qed (simp add: mirrors_def assms(2))

lemma committed_is_observed:
  assumes "backed_by create update st env" and "sound st"
    and "acceptance_lawful permit l" and "lawful_from (store_law env op) [] l" and "has is_end l"
    and "inspect (Inr (listed (replay create update l st))) answers = Inr found" and "ob \<in> set found"
    and "ar_operationId (ro_operation ob) = op"
  shows "ro_decision ob = ObserveCommit"
proof -
  note m = replay_mirrors [OF assms(1-4)]
  obtain i c k where l: "l = i @ c # k" "is_end c"
    using assms(5) by (meson has_set split_list)
  then have "acceptance_law permit i c" using assms(3) by (auto intro: lawful_split)
  with l have "has stored_dispatch l"
    by (cases c) (auto simp: acceptance_law_def intro: stored_dispatch_stored)
  then obtain r where r: "get op (replay create update l st) = Some r" "ar_physicalCommitDispatched r"
    using m by (auto simp: mirrors_def)
  have "ro_operation ob \<in> set (listed (replay create update l st))"
      and d: "ro_decision ob = decide (ro_operation ob) (ro_deviceStatus ob)"
    using inspected [OF _ assms(7)] assms(6) by (auto simp: inspect_def)
  then have "get op (replay create update l st) = Some (ro_operation ob)"
    using listed_get m assms(8) by (auto simp: mirrors_def)
  with r d show ?thesis by (simp add: decide_def)
qed

end

end
