(* ===== verification/Acceptance_Properties.thy ===== *)
theory Acceptance_Properties
  imports Acceptance_Recovery
begin

text \<open>
  The properties of cash acceptance: the order of the commands it gives the device, what its
  results rest on, and that a restart never rolls back what was committed. Each is applied to a
  concrete session.
\<close>

text \<open>
  C16. Whatever the device, the store, the lease and the caller answer and whichever methods are
  called, the commands of a session keep their order: notes are taken in, rolled back or committed
  only under the lease, after the gate of the entry and while nothing final has happened; the
  notes are committed at most once, after a record that says so was stored, and never after they
  were rolled back or retracted; nothing is rolled back or retracted after the commit was
  recorded.
\<close>

theorem acceptance_commands_in_order:
  assumes "acceptance_reachable env se s" and "as_log s = before @ c # after"
  shows "acceptance_law unconditionally before c"
proof -
  have "acceptance_lawful unconditionally (as_log s)"
    using rest_underway [OF reachable_rest [OF assms(1)]] by (simp add: underway_def)
  with assms(2) show ?thesis by (auto intro: lawful_split)
qed

text \<open>
  C18. A commit that returns was confirmed by the device. An abort that returns was not a
  commit, and says the notes are with the customer only if the device has rolled them back and
  seen them taken, and in the retract unit only if the device has retracted them. Where the commit may
  have gone through - a record that says it was dispatched was sent to the store, whether or not it was
  stored and whatever the device answered - the abort says so: recovery is required, and where the
  notes are is unknown.
\<close>

theorem acceptance_results_are_backed:
  assumes "acceptance_reachable env se s"
  shows "(\<forall>r t. commit env se (a :: acceptance_authorization) s = (Inr r, t) \<longrightarrow> rs_committed r \<and> backed_result r t) \<and>
    (\<forall>r t. abort_acceptance env se reason s = (Inr r, t) \<longrightarrow>
      \<not> rs_committed r \<and> backed_result r t \<and>
      (has dispatches (as_log s) \<longrightarrow>
        rs_reason r = ReRecoveryRequired \<and> (\<forall>p \<in> set (rs_portions r). np_custody p = WhereUnknown)))"
proof -
  note rest = reachable_rest [OF assms]
  have "rs_committed r \<and> backed_result r t" if "commit env se a s = (Inr r, t)" for r t
    using wp_result [OF any_commit.wp_commit [OF rest] that] by simp
  moreover have "\<not> rs_committed r \<and> backed_result r t" and "has dispatches (as_log s) \<Longrightarrow> undecided r"
    if "abort_acceptance env se reason s = (Inr r, t)" for r t
    using wp_result [OF any_commit.wp_abort [OF rest] that]
      wp_result [OF any_commit.wp_abort_dispatched [OF rest] that]
    by (simp_all add: any_commit.gave_back_def)
  ultimately show ?thesis unfolding undecided_def by blast
qed

text \<open>
  C17. If the process stops after the device was told to commit, whenever that is, then the recovery that
  inspects the SQL store afterwards only observes the operation, and refuses to roll it back, even
  if stores were refused in between.
\<close>

theorem recovery_never_rolls_back_commit:
  assumes "acceptance_reachable env se s" and "as_log s = before @ after" and "has is_end before"
    and "backed_by (sql_create g) (sql_update g) table env" and "keys_ok table"
    and "inspect (Inr (sql_listUnresolved (replay (sql_create g) (sql_update g) before table))) answers = Inr found"
    and "ob \<in> set found" and "ar_operationId (ro_operation ob) = aq_operationId (an_request se)"
  shows "ro_decision ob = ObserveCommit \<and> executeRollback ob rollback \<noteq> Inr ()"
proof -
  have "acceptance_lawful unconditionally before"
    using rest_underway [OF reachable_rest [OF assms(1)]] assms(2) by (simp add: underway_def lawful_from_append)
  moreover have "lawful_from (store_law env (aq_operationId (an_request se))) [] before"
    using reachable_right [OF assms(1)] assms(2) by (simp add: stored_right_def lawful_from_append)
  ultimately have "ro_decision ob = ObserveCommit"
    by (rule sql_records.committed_is_observed [OF assms(4,5) _ _ assms(3,6,7,8)])
  then show ?thesis by (simp add: executeRollback_def guard_res_def rbind_def)
qed

section \<open>An example\<close>

definition ex_acceptance_policy :: acceptance_policy where
  "ex_acceptance_policy =
     \<lparr>ap_inputPosition = 1, ap_outputPosition = 1, ap_startTimeoutMs = 30000, ap_acceptTimeoutMs = 30000,
      ap_takeTimeoutMs = 30000, ap_retractTimeoutMs = 30000, ap_notTakenAction = NotTakenRetract,
      ap_retractArea = None, ap_retractIndex = None, ap_useRecycleUnits = None\<rparr>"

definition ex_acceptance_request :: "'x acceptance_request" where
  "ex_acceptance_request =
     \<lparr>aq_operationId = ''op'', aq_logicalService = ''CIM'', aq_resourceGroup = ''cash'',
      aq_policy = ex_acceptance_policy, aq_aborted = (\<lambda>_. False), aq_abortError = ''aborted''\<rparr>"

text \<open>The device takes two notes in a batch; the store is the SQL store, empty at first.\<close>

definition ex_acceptance_env :: "'x acceptance_env" where
  "ex_acceptance_env =
     \<lparr>ae_now = (\<lambda>_. ''now''), ae_acquire = (\<lambda>_. Inr 7), ae_release = (\<lambda>_. Inr ()),
      ae_assertCanStart = (\<lambda>_. Inr ()),
      ae_create = (\<lambda>l r. answer_of (sql_create ''cash'' r (replay (sql_create ''cash'') (sql_update ''cash'') l []))),
      ae_update = (\<lambda>l r. answer_of (sql_update ''cash'' r (replay (sql_create ''cash'') (sql_update ''cash'') l []))),
      ae_append = (\<lambda>_ _. Inr ()),
      ae_capabilities = (\<lambda>_. Inr \<lparr>ci_maxCashInItems = 100, ci_positions = 1, ci_retractAreas = 1,
        ci_shutterControl = ProviderShutter\<rparr>),
      ae_captureUnits = (\<lambda>_. Inr []), ae_cashInStart = (\<lambda>_. Inr ()),
      ae_openShutter = (\<lambda>_. Inr ()), ae_closeShutter = (\<lambda>_. Inr ()),
      ae_cashIn = (\<lambda>_. Inr \<lparr>ct_status = ''ok'', ct_refusedCount = None,
        ct_notes = Some [\<lparr>nc_noteId = 1, nc_count = 2\<rparr>]\<rparr>),
      ae_cashInEnd = (\<lambda>_. Inr []), ae_cashInRollback = (\<lambda>_. Inr ()), ae_waitTaken = (\<lambda>_. Inr True),
      ae_retract = (\<lambda>_. Inr ())\<rparr>"

definition blank_acceptance :: "unit acceptance_state" where
  "blank_acceptance =
     \<lparr>as_record = new_record (ex_acceptance_request :: unit acceptance_request) '''', as_snapshot = None, as_log = []\<rparr>"

definition ex_acceptance :: "unit acceptance_session" where
  "ex_acceptance = projr (fst (start_acceptance ex_acceptance_env ex_acceptance_request blank_acceptance))"

definition ex_opened :: "unit acceptance_state" where
  "ex_opened = snd (start_acceptance ex_acceptance_env ex_acceptance_request blank_acceptance)"

definition ex_accepted :: "unit acceptance_state" where
  "ex_accepted = snd (acceptBatch ex_acceptance_env ex_acceptance ex_opened)"

definition ex_authorization :: acceptance_authorization where
  "ex_authorization =
     \<lparr>aa_operationId = ''op'', aa_revision = 1, aa_snapshotHash = ''f59a1346f03363a2'', aa_approved = True,
      aa_reason = None\<rparr>"

definition ex_committed :: "unit acceptance_state" where
  "ex_committed = snd (commit ex_acceptance_env ex_acceptance ex_authorization ex_accepted)"

lemma ex_started:
  "start_acceptance ex_acceptance_env ex_acceptance_request blank_acceptance = (Inr ex_acceptance, ex_opened)"
proof -
  have "\<not> isl (fst (start_acceptance ex_acceptance_env ex_acceptance_request blank_acceptance))" by code_simp
  then show ?thesis by (simp add: ex_acceptance_def ex_opened_def prod_eq_iff)
qed

lemma ex_request: "an_request ex_acceptance = ex_acceptance_request"
  using wp_result [OF any_commit.wp_start ex_started] by (simp add: blank_acceptance_def)

lemma ex_accepted_reachable: "acceptance_reachable ex_acceptance_env ex_acceptance ex_accepted"
  unfolding ex_accepted_def
  by (rule acceptance_reachable.accepts, rule acceptance_reachable.begun [OF _ ex_started])
    (simp add: blank_acceptance_def)

lemma ex_committed_reachable: "acceptance_reachable ex_acceptance_env ex_acceptance ex_committed"
  unfolding ex_committed_def by (rule acceptance_reachable.commits [OF ex_accepted_reachable])

lemma ex_committed_end: "has is_end (as_log ex_committed)"
  by code_simp

theorem acceptance_commands_in_order_witness:
  "\<exists>before units after. as_log ex_committed = before @ CashInEnd units # after \<and>
     acceptance_law unconditionally before (CashInEnd units)"
proof -
  obtain c before after where log: "as_log ex_committed = before @ c # after" "is_end c"
    using ex_committed_end by (meson has_set split_list)
  with acceptance_commands_in_order [OF ex_committed_reachable log(1)] show ?thesis by (cases c) auto
qed

definition ex_failing_env :: "'x acceptance_env" where
  "ex_failing_env = ex_acceptance_env\<lparr>ae_cashInEnd := (\<lambda>_. Inl ''device.lost'')\<rparr>"

definition ex_uncertain :: "unit acceptance_state" where
  "ex_uncertain = snd (commit ex_failing_env ex_acceptance ex_authorization ex_accepted)"

lemma ex_failing_started:
  "start_acceptance ex_failing_env ex_acceptance_request blank_acceptance = (Inr ex_acceptance, ex_opened)"
  by (simp add: ex_started [symmetric] ex_failing_env_def start_acceptance_def begin_cash_in_def add_evidence_def
      release_lease_def releasing_def)

lemma ex_uncertain_reachable: "acceptance_reachable ex_failing_env ex_acceptance ex_uncertain"
proof -
  have "acceptance_reachable ex_failing_env ex_acceptance (snd (acceptBatch ex_failing_env ex_acceptance ex_opened))"
    by (rule acceptance_reachable.accepts, rule acceptance_reachable.begun [OF _ ex_failing_started])
      (simp add: blank_acceptance_def)
  moreover have "snd (acceptBatch ex_failing_env ex_acceptance ex_opened) = ex_accepted" by code_simp
  ultimately show ?thesis unfolding ex_uncertain_def by (metis acceptance_reachable.commits)
qed

text \<open>The device does not answer the commit; the abort that follows says that recovery is required.\<close>

theorem acceptance_results_are_backed_witness:
  "rs_committed (projr (fst (commit ex_acceptance_env ex_acceptance ex_authorization ex_accepted))) \<and>
   rs_reason (projr (fst (abort_acceptance ex_failing_env ex_acceptance AbortCancelled ex_uncertain))) = ReRecoveryRequired"
proof
  have "\<not> isl (fst (commit ex_acceptance_env ex_acceptance ex_authorization ex_accepted))" by code_simp
  then have "commit ex_acceptance_env ex_acceptance ex_authorization ex_accepted =
      (Inr (projr (fst (commit ex_acceptance_env ex_acceptance ex_authorization ex_accepted))), ex_committed)"
    by (simp add: ex_committed_def prod_eq_iff)
  with acceptance_results_are_backed [OF ex_accepted_reachable]
  show "rs_committed (projr (fst (commit ex_acceptance_env ex_acceptance ex_authorization ex_accepted)))" by blast
next
  let ?x = "abort_acceptance ex_failing_env ex_acceptance AbortCancelled ex_uncertain"
  have "\<not> isl (fst ?x)" and "has dispatches (as_log ex_uncertain)" by code_simp+
  then have "?x = (Inr (projr (fst ?x)), snd ?x)" by (simp add: prod_eq_iff)
  with acceptance_results_are_backed [OF ex_uncertain_reachable] \<open>has dispatches (as_log ex_uncertain)\<close>
  show "rs_reason (projr (fst ?x)) = ReRecoveryRequired" by blast
qed

text \<open>The process stops right after the device was told to commit.\<close>

definition ex_crash :: "unit acceptance_log" where
  "ex_crash = take 16 (as_log ex_committed)"

definition ex_found :: "recovery_observation list" where
  "ex_found = projr (inspect (Inr (sql_listUnresolved
     (replay (sql_create ''cash'') (sql_update ''cash'') ex_crash []))) [Inr ''active''])"

lemma ex_crash_end: "has is_end ex_crash"
  by code_simp

lemma ex_found_one: "map (\<lambda>ob. ar_operationId (ro_operation ob)) ex_found = [''op'']"
  by code_simp

lemma ex_inspected: "inspect (Inr (sql_listUnresolved
     (replay (sql_create ''cash'') (sql_update ''cash'') ex_crash []))) [Inr ''active''] = Inr ex_found"
proof -
  have "\<not> isl (inspect (Inr (sql_listUnresolved
     (replay (sql_create ''cash'') (sql_update ''cash'') ex_crash []))) [Inr ''active''])" by code_simp
  then show ?thesis by (simp add: ex_found_def)
qed

theorem recovery_never_rolls_back_commit_witness:
  "map ro_decision ex_found = [ObserveCommit]"
proof -
  obtain ob where ob: "ex_found = [ob]" "ar_operationId (ro_operation ob) = ''op''"
    using ex_found_one by (cases ex_found) auto
  have log: "as_log ex_committed = ex_crash @ drop 16 (as_log ex_committed)" by (simp add: ex_crash_def)
  have backed: "backed_by (sql_create ''cash'') (sql_update ''cash'') [] ex_acceptance_env"
    by (simp add: backed_by_def ex_acceptance_env_def)
  have "ar_operationId (ro_operation ob) = aq_operationId (an_request ex_acceptance)"
    by (simp add: ob ex_request ex_acceptance_request_def)
  from recovery_never_rolls_back_commit [OF ex_committed_reachable log ex_crash_end backed _ ex_inspected _ this]
  show ?thesis by (simp add: ob(1) keys_ok_def)
qed

end
