(* ===== verification/Deposit_Contracts.thy ===== *)
theory Deposit_Contracts
  imports Cash_Acceptance Registry
begin

text \<open>
  The data of a cash deposit: \<^verbatim>\<open>packages/deposit-orchestration/src\<close>
  (\<^verbatim>\<open>contracts.ts\<close>), its policies and review gates (\<^verbatim>\<open>policy.ts\<close>), the state
  of one deposit and the outcome that is made of it (\<^verbatim>\<open>outcome.ts\<close>). The cash is accepted by
  the session of \<^theory_text>\<open>Cash_Acceptance\<close>, whose state a deposit's state extends; a call of the
  deposit's own ports is a \<^theory_text>\<open>CallerCall\<close> of that session. Safe metadata is left out.
\<close>

section \<open>Contracts\<close>

datatype deposit_mode = DepositAuthorizationOnly | DepositThenCompletion

record deposit_protocol =
  dp_id :: string
  dp_version :: string
  dp_mode :: deposit_mode

record deposit_policy =
  dy_id :: string
  dy_version :: string
  dy_logicalService :: string
  dy_resourceGroup :: string
  dy_maxBatches :: int
  dy_reviewGateId :: string
  dy_acceptancePolicy :: acceptance_policy
  dy_hostProtocol :: deposit_protocol

datatype deposit_status =
    DepCompleted | DepCancelled | DepTimedOut | DepDeclined | DepFailed | DepIntervention

datatype deposit_reason =
    DrCommitted | DrBarrierBlocked | DrInventoryBeforeFailed | DrInventoryAfterFailed
  | DrCustomerCancelled | DrCustomerTimeout | DrReviewRejected | DrBatchLimitReached
  | DrStartFailed | DrAcceptanceFailed | DrHostDeclined | DrHostUnavailable | DrCommitUnknown
  | DrReturned | DrRetracted | DrReturnedUnresolved | DrRefusedUnresolved | DrUnexpected

datatype deposit_trigger = DepCancel | DepTimeout | DepInterrupt

datatype inventory_boundary = InventoryBefore | InventoryAfter

record deposit_inventory =
  di_id :: string
  di_operationId :: string
  di_logicalService :: string
  di_boundary :: inventory_boundary
  di_revision :: string
  di_capturedAt :: string

record deposit_authorization = acceptance_authorization +
  da_authorizationReference :: "string option"
  da_reasonCode :: "string option"

datatype review_decision = AcceptMore | ReviewConfirm | ReviewCancelled | ReviewTimedOut | ReviewRejected

datatype media_resolution_status = MediaTaken | MediaRetracted | MediaAtOutput | MediaWhereUnknown

record media_resolution =
  mr_status :: media_resolution_status
  mr_reasonCode :: "string option"

datatype host_status = HostNotRequested | HostApproved | HostDeclined | HostUnavailable

record deposit_host_facts =
  dh_protocolId :: string
  dh_protocolVersion :: string
  dh_protocolMode :: deposit_mode
  dh_status :: host_status
  dh_authorizationReference :: "string option"
  dh_reasonCode :: "string option"

record deposit_escrow_facts =
  df_batchCount :: int
  df_revision :: "int option"
  df_snapshotHash :: "string option"
  df_acceptedNoteCount :: int
  df_refusedCount :: int

datatype portion_kind = PortionAccepted | PortionRefused | PortionReturned

record deposit_portion =
  dn_kind :: portion_kind
  dn_portionId :: string
  dn_custody :: note_custody
  dn_noteCount :: int
  dn_notes :: "note_count list option"
  dn_reason :: "string option"

datatype commit_fact = CommitNotRequested | CommitDispatched | CommitCompleted | CommitUnknown

record deposit_physical_facts =
  ph_commit :: commit_fact
  ph_committed :: bool
  ph_resultReason :: "acceptance_reason option"
  ph_reconciliationRequired :: bool

record deposit_inventory_facts =
  dv_beforeSnapshotId :: "string option"
  dv_afterSnapshotId :: "string option"
  dv_beforeRevision :: "string option"
  dv_afterRevision :: "string option"
  dv_afterCaptureFailed :: bool

record deposit_summary =
  dz_acceptedNoteCount :: int
  dz_batchCount :: int
  dz_committed :: bool
  dz_hostStatus :: host_status
  dz_operationId :: string
  dz_physicalCommit :: commit_fact
  dz_policyId :: string
  dz_reason :: deposit_reason
  dz_reconciliationRequired :: bool
  dz_refusedCount :: int
  dz_status :: deposit_status
  dz_trigger :: "deposit_trigger option"

record deposit_outcome =
  do_operationId :: string
  do_policyId :: string
  do_policyVersion :: string
  do_status :: deposit_status
  do_reason :: deposit_reason
  do_trigger :: "deposit_trigger option"
  do_host :: deposit_host_facts
  do_escrow :: deposit_escrow_facts
  do_physical :: deposit_physical_facts
  do_inventory :: deposit_inventory_facts
  do_portions :: "deposit_portion list"
  do_safeSummary :: deposit_summary

datatype barrier_status = BarrierReady | BarrierRecovering | BarrierIntervention

text \<open>The calls of the ports, each with its answer.\<close>

datatype deposit_call =
    RecoverBarrier "string + barrier_status"
  | StartTransaction "string + unit"
  | AppendAudit string "string + unit"
  | CaptureInventory inventory_boundary "string + deposit_inventory"
  | MarkEscrow escrow_snapshot "string + unit"
  | ResolveRefused int "string + media_resolution"
  | EvaluateReview int escrow_snapshot "string + review_decision"
  | AuthorizeHost escrow_snapshot "string + deposit_authorization"
  | MarkAuthorized deposit_authorization "string + unit"
  | RunFinalization deposit_outcome "string + string"

type_synonym deposit_log = "deposit_call acceptance_log"

record deposit_request =
  dq_operationId :: string
  dq_policyId :: string
  dq_aborted :: "deposit_log \<Rightarrow> bool"
  dq_signalReason :: "string option"
  dq_abortError :: string

section \<open>Policies and review gates\<close>

definition safe_positive :: "int \<Rightarrow> bool" where
  "safe_positive n \<longleftrightarrow> \<bar>n\<bar> < 2 ^ 53 \<and> 0 < n"

definition validate_deposit_policy :: "deposit_policy \<Rightarrow> string + unit" where
  "validate_deposit_policy p =
     rbind (guard_res (\<not> blank (dy_id p) \<and> \<not> blank (dy_version p)) ''Deposit policy identity is required'') (\<lambda>_.
     rbind (guard_res (\<not> blank (dy_logicalService p) \<and> \<not> blank (dy_resourceGroup p))
       (''Deposit XFS service and resource group are required: '' @ dy_id p)) (\<lambda>_.
     rbind (guard_res (safe_positive (dy_maxBatches p))
       (''Deposit maxBatches must be a positive integer: '' @ dy_id p)) (\<lambda>_.
     rbind (guard_res (\<not> blank (dy_reviewGateId p)) (''Deposit review gate is required: '' @ dy_id p)) (\<lambda>_.
     guard_res (\<not> blank (dp_id (dy_hostProtocol p)) \<and> \<not> blank (dp_version (dy_hostProtocol p)))
       (''Deposit host protocol identity is required: '' @ dy_id p)))))"

definition register_deposit_policy ::
  "deposit_policy \<Rightarrow> deposit_policy registry \<Rightarrow> string + deposit_policy registry" where
  "register_deposit_policy p r =
     rbind (guard_res (\<not> rg_frozen r) ''Deposit policy registry is frozen'') (\<lambda>_.
     rbind (guard_res (lookup r (dy_id p) = None) (''Duplicate deposit policy: '' @ dy_id p)) (\<lambda>_.
     rbind (validate_deposit_policy p) (\<lambda>_.
     Inr (insert_entry (dy_id p) p r))))"

definition require_deposit_policy :: "deposit_policy registry \<Rightarrow> string \<Rightarrow> string + deposit_policy" where
  "require_deposit_policy r k =
     (case lookup r k of None \<Rightarrow> Inl (''Deposit policy is not registered: '' @ k) | Some p \<Rightarrow> Inr p)"

interpretation deposit_policies: freezable_registry
  register_deposit_policy freeze lookup rg_frozen dy_id "\<lambda>p. validate_deposit_policy p = Inr ()"
  by unfold_locales (auto simp: register_deposit_policy_def res_simps)

record review_gate =
  rv_id :: string
  rv_evaluate :: "deposit_log \<Rightarrow> int \<Rightarrow> escrow_snapshot \<Rightarrow> string + review_decision"

definition register_review_gate ::
  "review_gate \<Rightarrow> review_gate registry \<Rightarrow> string + review_gate registry" where
  "register_review_gate g r =
     rbind (guard_res (\<not> rg_frozen r) ''Deposit review gate registry is frozen'') (\<lambda>_.
     rbind (guard_res (lookup r (rv_id g) = None) (''Duplicate deposit review gate: '' @ rv_id g)) (\<lambda>_.
     Inr (insert_entry (rv_id g) g r)))"

interpretation review_gates: freezable_registry
  register_review_gate freeze lookup rg_frozen rv_id "\<lambda>_. True"
  by unfold_locales (auto simp: register_review_gate_def res_simps)

section \<open>The state of a deposit\<close>

record deposit_state = "deposit_call acceptance_state" +
  ds_host :: deposit_host_facts
  ds_escrow :: deposit_escrow_facts
  ds_physical :: deposit_physical_facts
  ds_inventory :: deposit_inventory_facts
  ds_portions :: "deposit_portion list"

text \<open>The session's fields are set when it is started; the record of the request stands in for them.\<close>

definition acceptance_request_of :: "deposit_request \<Rightarrow> deposit_policy \<Rightarrow> deposit_call acceptance_request" where
  "acceptance_request_of q p =
     \<lparr>aq_operationId = dq_operationId q, aq_logicalService = dy_logicalService p,
      aq_resourceGroup = dy_resourceGroup p, aq_policy = dy_acceptancePolicy p,
      aq_aborted = dq_aborted q, aq_abortError = dq_abortError q\<rparr>"

definition initialDepositState :: "deposit_request \<Rightarrow> deposit_policy \<Rightarrow> deposit_state" where
  "initialDepositState q p =
     \<lparr>as_record = new_record (acceptance_request_of q p) '''', as_snapshot = None, as_log = [],
      ds_host = \<lparr>dh_protocolId = dp_id (dy_hostProtocol p), dh_protocolVersion = dp_version (dy_hostProtocol p),
        dh_protocolMode = dp_mode (dy_hostProtocol p), dh_status = HostNotRequested,
        dh_authorizationReference = None, dh_reasonCode = None\<rparr>,
      ds_escrow = \<lparr>df_batchCount = 0, df_revision = None, df_snapshotHash = None,
        df_acceptedNoteCount = 0, df_refusedCount = 0\<rparr>,
      ds_physical = \<lparr>ph_commit = CommitNotRequested, ph_committed = False, ph_resultReason = None,
        ph_reconciliationRequired = False\<rparr>,
      ds_inventory = \<lparr>dv_beforeSnapshotId = None, dv_afterSnapshotId = None, dv_beforeRevision = None,
        dv_afterRevision = None, dv_afterCaptureFailed = False\<rparr>,
      ds_portions = []\<rparr>"

definition observeEscrow :: "escrow_snapshot \<Rightarrow> deposit_state \<Rightarrow> deposit_state" where
  "observeEscrow x s =
     s\<lparr>ds_escrow := \<lparr>df_batchCount = df_batchCount (ds_escrow s) + 1, df_revision = Some (es_revision x),
        df_snapshotHash = Some (es_hash x), df_acceptedNoteCount = note_total (es_notes x),
        df_refusedCount = es_refusedCount x\<rparr>\<rparr>"

definition new_refused :: "escrow_snapshot \<Rightarrow> deposit_state \<Rightarrow> int" where
  "new_refused x s = max 0 (es_refusedCount x - df_refusedCount (ds_escrow s))"

definition resolutionCustody :: "media_resolution_status \<Rightarrow> note_custody" where
  "resolutionCustody status =
     (case status of
        MediaTaken \<Rightarrow> ByCustomer | MediaRetracted \<Rightarrow> InRetractUnit
      | MediaAtOutput \<Rightarrow> AtOutput | MediaWhereUnknown \<Rightarrow> WhereUnknown)"

definition nat_text :: "nat \<Rightarrow> string" where
  "nat_text n = map (\<lambda>u. char_of (unat u)) (dec_text n)"

text \<open>An empty text is left out, as an undefined one.\<close>

definition non_empty :: "string option \<Rightarrow> string option" where
  "non_empty t = (case t of Some '''' \<Rightarrow> None | _ \<Rightarrow> t)"

definition recordRefusedResolution :: "int \<Rightarrow> media_resolution \<Rightarrow> deposit_state \<Rightarrow> deposit_state" where
  "recordRefusedResolution count resolution s =
     s\<lparr>ds_portions := ds_portions s @
        [\<lparr>dn_kind = PortionRefused,
          dn_portionId = ''refused-'' @ nat_text (length (ds_portions s) + 1),
          dn_custody = resolutionCustody (mr_status resolution), dn_noteCount = count,
          dn_notes = None, dn_reason = non_empty (mr_reasonCode resolution)\<rparr>]\<rparr>"

definition portion_of :: "bool \<Rightarrow> note_portion \<Rightarrow> deposit_portion" where
  "portion_of committed n =
     \<lparr>dn_kind = (if committed then PortionAccepted else PortionReturned),
      dn_portionId = np_portionId n, dn_custody = np_custody n,
      dn_noteCount = note_total (np_notes n), dn_notes = Some (np_notes n),
      dn_reason = non_empty (np_reason n)\<rparr>"

definition applyAcceptanceResult :: "acceptance_result \<Rightarrow> deposit_state \<Rightarrow> deposit_state" where
  "applyAcceptanceResult r s =
     s\<lparr>ds_physical := \<lparr>ph_commit = (if rs_committed r then CommitCompleted else ph_commit (ds_physical s)),
         ph_committed = rs_committed r, ph_resultReason = Some (rs_reason r),
         ph_reconciliationRequired =
           (rs_reason r = ReRecoveryRequired \<or>
            list_ex (\<lambda>n. np_custody n = WhereUnknown \<or> np_custody n = AtOutput) (rs_portions r))\<rparr>,
       ds_portions := ds_portions s @ map (portion_of (rs_committed r)) (rs_portions r)\<rparr>"

definition recordInventory :: "deposit_inventory \<Rightarrow> deposit_state \<Rightarrow> deposit_state" where
  "recordInventory i s =
     s\<lparr>ds_inventory :=
        (if di_boundary i = InventoryBefore
         then (ds_inventory s)\<lparr>dv_beforeRevision := Some (di_revision i), dv_beforeSnapshotId := Some (di_id i)\<rparr>
         else (ds_inventory s)\<lparr>dv_afterRevision := Some (di_revision i), dv_afterSnapshotId := Some (di_id i)\<rparr>)\<rparr>"

definition recordAfterInventoryFailure :: "deposit_state \<Rightarrow> deposit_state" where
  "recordAfterInventoryFailure s =
     s\<lparr>ds_inventory := (ds_inventory s)\<lparr>dv_afterCaptureFailed := True\<rparr>,
       ds_physical := (ds_physical s)\<lparr>ph_reconciliationRequired := True\<rparr>\<rparr>"

section \<open>The outcome\<close>

definition unsafe_custody :: "note_custody \<Rightarrow> bool" where
  "unsafe_custody c \<longleftrightarrow> c \<in> {AtOutput, WhereUnknown, InTransport, InEscrow}"

definition safetyStatus :: "deposit_state \<Rightarrow> deposit_status \<Rightarrow> deposit_status" where
  "safetyStatus s requested =
     (if list_ex (\<lambda>n. unsafe_custody (dn_custody n)) (ds_portions s) \<or>
         ph_commit (ds_physical s) = CommitUnknown \<or> ph_reconciliationRequired (ds_physical s) \<or>
         dv_afterCaptureFailed (ds_inventory s)
      then DepIntervention else requested)"

definition buildDepositOutcome ::
  "deposit_request \<Rightarrow> deposit_policy \<Rightarrow> deposit_state \<Rightarrow> deposit_status \<Rightarrow> deposit_reason
     \<Rightarrow> deposit_trigger option \<Rightarrow> deposit_outcome" where
  "buildDepositOutcome q p s requested reason trigger =
     (let status = safetyStatus s requested in
      \<lparr>do_operationId = dq_operationId q, do_policyId = dy_id p, do_policyVersion = dy_version p,
       do_status = status, do_reason = reason, do_trigger = trigger, do_host = ds_host s,
       do_escrow = ds_escrow s, do_physical = ds_physical s, do_inventory = ds_inventory s,
       do_portions = ds_portions s,
       do_safeSummary =
         \<lparr>dz_acceptedNoteCount = df_acceptedNoteCount (ds_escrow s),
          dz_batchCount = df_batchCount (ds_escrow s), dz_committed = ph_committed (ds_physical s),
          dz_hostStatus = dh_status (ds_host s), dz_operationId = dq_operationId q,
          dz_physicalCommit = ph_commit (ds_physical s), dz_policyId = dy_id p, dz_reason = reason,
          dz_reconciliationRequired = ph_reconciliationRequired (ds_physical s),
          dz_refusedCount = df_refusedCount (ds_escrow s), dz_status = status, dz_trigger = trigger\<rparr>\<rparr>)"

end
