(* ===== verification/Deposit_Workflow.thy ===== *)
theory Deposit_Workflow
  imports Deposit_Contracts
begin

text \<open>
  One cash deposit: \<^verbatim>\<open>packages/deposit-orchestration/src\<close> (\<^verbatim>\<open>orchestrator.ts\<close>,
  \<^verbatim>\<open>workflow.ts\<close>, \<^verbatim>\<open>workflow-decisions.ts\<close>). Batches are accepted and reviewed until
  they are confirmed, the host authorizes the escrow, and it is committed; on every other way out the
  session is aborted. The cash session is the one of \<^theory_text>\<open>Cash_Acceptance\<close>; the host's answer
  reaches it through the authorizer it is handed.
\<close>

record deposit_env =
  de_session :: "deposit_call acceptance_env"
  de_policies :: "deposit_policy registry"
  de_reviewGates :: "review_gate registry"
  de_recover :: "(deposit_log \<Rightarrow> string + barrier_status) option"
  de_startTransaction :: "deposit_log \<Rightarrow> string + unit"
  de_audit :: "deposit_log \<Rightarrow> string \<Rightarrow> string + unit"
  de_inventory :: "deposit_log \<Rightarrow> inventory_boundary \<Rightarrow> string + deposit_inventory"
  de_markEscrow :: "deposit_log \<Rightarrow> escrow_snapshot \<Rightarrow> string + unit"
  de_resolveRefused :: "(deposit_log \<Rightarrow> int \<Rightarrow> string + media_resolution) option"
  de_authorizeHost :: "deposit_log \<Rightarrow> escrow_snapshot \<Rightarrow> string + deposit_authorization"
  de_markAuthorized :: "deposit_log \<Rightarrow> deposit_authorization \<Rightarrow> string + unit"
  de_finalize :: "deposit_log \<Rightarrow> deposit_outcome \<Rightarrow> string + string"

type_synonym 'a deposit_io = "(deposit_state, string, 'a) io"

definition port :: "(deposit_log \<Rightarrow> string + 'a) \<Rightarrow> (string + 'a \<Rightarrow> deposit_call) \<Rightarrow> 'a deposit_io" where
  "port f c = acc_call f (\<lambda>r. CallerCall (c r))"

text \<open>A value if nothing was thrown.\<close>

definition optional :: "'a deposit_io \<Rightarrow> 'a option deposit_io" where
  "optional m = handle (seq m (\<lambda>x. ret (Some x))) (\<lambda>_. ret None)"

section \<open>Decisions\<close>

definition requestTimeout :: "deposit_request \<Rightarrow> bool" where
  "requestTimeout q =
     (case dq_signalReason q of
        None \<Rightarrow> False
      | Some t \<Rightarrow> contains_from (starts (map lower ''timeout'')) (map lower t))"

record review_failure =
  rf_abortReason :: abort_reason
  rf_reason :: deposit_reason
  rf_status :: deposit_status
  rf_trigger :: deposit_trigger

definition reviewFailure :: "review_decision \<Rightarrow> bool \<Rightarrow> review_failure" where
  "reviewFailure decision atLimit =
     (if decision = ReviewTimedOut then
        \<lparr>rf_abortReason = AbortTimeout, rf_reason = DrCustomerTimeout, rf_status = DepTimedOut, rf_trigger = DepTimeout\<rparr>
      else if decision = ReviewCancelled then
        \<lparr>rf_abortReason = AbortCancelled, rf_reason = DrCustomerCancelled, rf_status = DepCancelled, rf_trigger = DepCancel\<rparr>
      else if decision = AcceptMore \<and> atLimit then
        \<lparr>rf_abortReason = AbortCancelled, rf_reason = DrBatchLimitReached, rf_status = DepFailed, rf_trigger = DepInterrupt\<rparr>
      else
        \<lparr>rf_abortReason = AbortCancelled, rf_reason = DrReviewRejected, rf_status = DepFailed, rf_trigger = DepInterrupt\<rparr>)"

section \<open>Parts of the workflow\<close>

definition outcome ::
  "deposit_request \<Rightarrow> deposit_policy \<Rightarrow> deposit_status \<Rightarrow> deposit_reason \<Rightarrow> deposit_trigger option
     \<Rightarrow> deposit_outcome deposit_io" where
  "outcome q p status reason trigger = ask (\<lambda>s. buildDepositOutcome q p s status reason trigger)"

definition interruptedOutcome :: "deposit_request \<Rightarrow> deposit_policy \<Rightarrow> deposit_outcome deposit_io" where
  "interruptedOutcome q p =
     (if requestTimeout q then outcome q p DepTimedOut DrCustomerTimeout (Some DepTimeout)
      else outcome q p DepCancelled DrCustomerCancelled (Some DepCancel))"

definition captureInventory :: "deposit_env \<Rightarrow> inventory_boundary \<Rightarrow> deposit_inventory deposit_io" where
  "captureInventory env boundary = port (\<lambda>l. de_inventory env l boundary) (CaptureInventory boundary)"

definition captureBefore :: "deposit_env \<Rightarrow> bool deposit_io" where
  "captureBefore env =
     seq (optional (captureInventory env InventoryBefore)) (\<lambda>captured.
     case captured of
       None \<Rightarrow> ret False
     | Some i \<Rightarrow> seq (change (recordInventory i)) (\<lambda>_. ret True))"

definition captureAfter :: "deposit_env \<Rightarrow> unit deposit_io" where
  "captureAfter env =
     seq (optional (captureInventory env InventoryAfter)) (\<lambda>captured.
     case captured of
       None \<Rightarrow> change recordAfterInventoryFailure
     | Some i \<Rightarrow> change (recordInventory i))"

definition abort_failed :: "deposit_state \<Rightarrow> deposit_state" where
  "abort_failed s =
     s\<lparr>ds_physical := (ds_physical s)\<lparr>ph_reconciliationRequired := True\<rparr>,
       ds_portions := ds_portions s @
         [\<lparr>dn_kind = PortionReturned, dn_portionId = ''escrow'', dn_custody = WhereUnknown,
           dn_noteCount = df_acceptedNoteCount (ds_escrow s), dn_notes = None,
           dn_reason = Some ''abort-failed''\<rparr>]\<rparr>"

definition abort_session ::
  "deposit_env \<Rightarrow> deposit_call acceptance_session \<Rightarrow> abort_reason \<Rightarrow> acceptance_result option deposit_io" where
  "abort_session env se reason =
     seq (optional (abort_acceptance (de_session env) se reason)) (\<lambda>result.
     case result of
       None \<Rightarrow> seq (change abort_failed) (\<lambda>_. ret None)
     | Some r \<Rightarrow> seq (change (applyAcceptanceResult r)) (\<lambda>_. ret (Some r)))"

definition abort_with ::
  "deposit_env \<Rightarrow> deposit_request \<Rightarrow> deposit_policy \<Rightarrow> deposit_call acceptance_session \<Rightarrow> abort_reason
     \<Rightarrow> deposit_status \<Rightarrow> deposit_reason \<Rightarrow> deposit_trigger option \<Rightarrow> deposit_outcome deposit_io" where
  "abort_with env q p se abort_reason status reason trigger =
     seq (abort_session env se abort_reason) (\<lambda>_.
     seq (captureAfter env) (\<lambda>_.
     outcome q p status reason trigger))"

definition abortUnexpected ::
  "deposit_env \<Rightarrow> deposit_request \<Rightarrow> deposit_policy \<Rightarrow> deposit_call acceptance_session \<Rightarrow> deposit_outcome deposit_io" where
  "abortUnexpected env q p se =
     abort_with env q p se AbortCancelled DepIntervention DrUnexpected (Some DepInterrupt)"

definition startSession ::
  "deposit_env \<Rightarrow> deposit_request \<Rightarrow> deposit_policy \<Rightarrow> deposit_call acceptance_session option deposit_io" where
  "startSession env q p = optional (start_acceptance (de_session env) (acceptance_request_of q p))"

section \<open>Batches and their review\<close>

definition resolve_refused :: "deposit_env \<Rightarrow> int \<Rightarrow> media_resolution deposit_io" where
  "resolve_refused env count =
     (let unknown = \<lparr>mr_status = MediaWhereUnknown, mr_reasonCode = None\<rparr> in
      case de_resolveRefused env of
        None \<Rightarrow> ret unknown
      | Some resolve \<Rightarrow>
          handle (port (\<lambda>l. resolve l count) (ResolveRefused count)) (\<lambda>_. ret unknown))"

definition persistEscrowAndResolveRefused ::
  "deposit_env \<Rightarrow> deposit_request \<Rightarrow> deposit_policy \<Rightarrow> deposit_call acceptance_session \<Rightarrow> escrow_snapshot
     \<Rightarrow> deposit_outcome option deposit_io" where
  "persistEscrowAndResolveRefused env q p se x =
     seq (ask (new_refused x)) (\<lambda>newRefusedCount.
     seq (change (observeEscrow x)) (\<lambda>_.
     seq (optional (port (\<lambda>l. de_markEscrow env l x) (MarkEscrow x))) (\<lambda>marked.
     if marked = None then seq (abortUnexpected env q p se) (\<lambda>out. ret (Some out))
     else if newRefusedCount = 0 then ret None
     else
       seq (resolve_refused env newRefusedCount) (\<lambda>resolution.
       seq (change (recordRefusedResolution newRefusedCount resolution)) (\<lambda>_.
       if mr_status resolution = MediaTaken \<or> mr_status resolution = MediaRetracted then ret None
       else
         seq (abort_with env q p se AbortCancelled DepIntervention DrRefusedUnresolved None)
           (\<lambda>out. ret (Some out)))))))"

definition evaluate_gate ::
  "deposit_env \<Rightarrow> string \<Rightarrow> int \<Rightarrow> escrow_snapshot \<Rightarrow> review_decision deposit_io" where
  "evaluate_gate env gateId batch x =
     (case lookup (de_reviewGates env) gateId of
        None \<Rightarrow> raise (''Deposit review gate is not registered: '' @ gateId)
      | Some g \<Rightarrow> port (\<lambda>l. rv_evaluate g l batch x) (EvaluateReview batch x))"

datatype review_result = ReviewAcceptMore | ReviewEnded deposit_outcome | ReviewPassed

definition evaluateReview ::
  "deposit_env \<Rightarrow> deposit_request \<Rightarrow> deposit_policy \<Rightarrow> deposit_call acceptance_session \<Rightarrow> escrow_snapshot \<Rightarrow> int
     \<Rightarrow> review_result deposit_io" where
  "evaluateReview env q p se x batch =
     seq (optional (evaluate_gate env (dy_reviewGateId p) batch x)) (\<lambda>decision.
     case decision of
       None \<Rightarrow> seq (abortUnexpected env q p se) (\<lambda>out. ret (ReviewEnded out))
     | Some d \<Rightarrow>
         if d = ReviewConfirm then ret ReviewPassed
         else if d = AcceptMore \<and> batch < dy_maxBatches p then ret ReviewAcceptMore
         else
           (let failure = reviewFailure d (batch = dy_maxBatches p) in
            seq (abort_with env q p se (rf_abortReason failure) (rf_status failure) (rf_reason failure)
                  (Some (rf_trigger failure)))
              (\<lambda>out. ret (ReviewEnded out))))"

text \<open>The loop over the batches from \<^theory_text>\<open>batch\<close>, as many as are left.\<close>

fun collect_batches ::
  "deposit_env \<Rightarrow> deposit_request \<Rightarrow> deposit_policy \<Rightarrow> deposit_call acceptance_session \<Rightarrow> int \<Rightarrow> nat
     \<Rightarrow> deposit_outcome option deposit_io" where
  "collect_batches env q p se batch 0 = raise ''Deposit review loop ended without a decision''"
| "collect_batches env q p se batch (Suc left) =
     seq (ask (\<lambda>s. dq_aborted q (as_log s))) (\<lambda>aborted.
     if aborted then
       seq (abort_session env se (if requestTimeout q then AbortTimeout else AbortCancelled)) (\<lambda>_.
       seq (captureAfter env) (\<lambda>_.
       seq (interruptedOutcome q p) (\<lambda>out. ret (Some out))))
     else
       seq (optional (acceptBatch (de_session env) se)) (\<lambda>accepted.
       case accepted of
         None \<Rightarrow>
           seq (abort_with env q p se AbortCancelled DepFailed DrAcceptanceFailed (Some DepInterrupt))
             (\<lambda>out. ret (Some out))
       | Some x \<Rightarrow>
           seq (persistEscrowAndResolveRefused env q p se x) (\<lambda>refused.
           case refused of
             Some out \<Rightarrow> ret (Some out)
           | None \<Rightarrow>
               seq (evaluateReview env q p se x batch) (\<lambda>review.
               case review of
                 ReviewAcceptMore \<Rightarrow> collect_batches env q p se (batch + 1) left
               | ReviewEnded out \<Rightarrow> ret (Some out)
               | ReviewPassed \<Rightarrow> ret None))))"

definition collectAndReview ::
  "deposit_env \<Rightarrow> deposit_request \<Rightarrow> deposit_policy \<Rightarrow> deposit_call acceptance_session
     \<Rightarrow> deposit_outcome option deposit_io" where
  "collectAndReview env q p se = collect_batches env q p se 1 (nat (dy_maxBatches p))"

section \<open>Authorization and commit\<close>

definition host_answered :: "deposit_authorization \<Rightarrow> deposit_state \<Rightarrow> deposit_state" where
  "host_answered a s =
     s\<lparr>ds_host := (ds_host s)\<lparr>dh_status := (if aa_approved a then HostApproved else HostDeclined),
        dh_authorizationReference :=
          (case non_empty (da_authorizationReference a) of
             None \<Rightarrow> dh_authorizationReference (ds_host s) | Some r \<Rightarrow> Some r),
        dh_reasonCode :=
          (case non_empty (da_reasonCode a) of None \<Rightarrow> dh_reasonCode (ds_host s) | Some r \<Rightarrow> Some r)\<rparr>\<rparr>"

definition host_unavailable :: "deposit_state \<Rightarrow> deposit_state" where
  "host_unavailable s = s\<lparr>ds_host := (ds_host s)\<lparr>dh_status := HostUnavailable\<rparr>\<rparr>"

definition authorizeHost :: "deposit_env \<Rightarrow> escrow_snapshot \<Rightarrow> deposit_authorization deposit_io" where
  "authorizeHost env x =
     handle
       (seq (port (\<lambda>l. de_authorizeHost env l x) (AuthorizeHost x)) (\<lambda>a.
        seq (change (host_answered a)) (\<lambda>_. ret a)))
       (\<lambda>e. seq (change host_unavailable) (\<lambda>_. raise e))"

definition commit_lost :: "deposit_state \<Rightarrow> deposit_state" where
  "commit_lost s =
     s\<lparr>ds_physical := (ds_physical s)\<lparr>ph_commit := CommitUnknown, ph_reconciliationRequired := True\<rparr>\<rparr>"

definition commit_deposit ::
  "deposit_env \<Rightarrow> deposit_request \<Rightarrow> deposit_policy \<Rightarrow> deposit_call acceptance_session \<Rightarrow> deposit_authorization
     \<Rightarrow> deposit_outcome deposit_io" where
  "commit_deposit env q p se a =
     seq (change (\<lambda>s. s\<lparr>ds_physical := (ds_physical s)\<lparr>ph_commit := CommitDispatched\<rparr>\<rparr>)) (\<lambda>_.
     seq (optional (commit (de_session env) se a)) (\<lambda>result.
     case result of
       None \<Rightarrow>
         seq (change commit_lost) (\<lambda>_.
         abort_with env q p se AbortCancelled DepIntervention DrCommitUnknown (Some DepInterrupt))
     | Some r \<Rightarrow>
         seq (change (applyAcceptanceResult r)) (\<lambda>_.
         seq (captureAfter env) (\<lambda>_.
         seq (ask (\<lambda>s. dv_afterCaptureFailed (ds_inventory s))) (\<lambda>failed.
         if failed then outcome q p DepIntervention DrInventoryAfterFailed None
         else outcome q p DepCompleted DrCommitted None)))))"

definition abortAfterAuthorizationFailure ::
  "deposit_env \<Rightarrow> deposit_request \<Rightarrow> deposit_policy \<Rightarrow> deposit_call acceptance_session \<Rightarrow> deposit_outcome deposit_io" where
  "abortAfterAuthorizationFailure env q p se =
     seq (ask (\<lambda>s. dh_status (ds_host s) = HostDeclined)) (\<lambda>declined.
     seq (abort_session env se AbortCancelled) (\<lambda>result.
     seq (captureAfter env) (\<lambda>_.
     outcome q p (if declined then DepDeclined else DepFailed)
       (if declined then DrHostDeclined else DrHostUnavailable)
       (case result of None \<Rightarrow> Some DepInterrupt | Some _ \<Rightarrow> None))))"

definition authorizeAndCommit ::
  "deposit_env \<Rightarrow> deposit_request \<Rightarrow> deposit_policy \<Rightarrow> deposit_call acceptance_session \<Rightarrow> deposit_outcome deposit_io" where
  "authorizeAndCommit env q p se =
     seq (optional (authorize (de_session env) se (authorizeHost env))) (\<lambda>authorization.
     case authorization of
       None \<Rightarrow> abortAfterAuthorizationFailure env q p se
     | Some a \<Rightarrow>
         seq (optional
               (seq (port (\<lambda>l. de_markAuthorized env l a) (MarkAuthorized a)) (\<lambda>_.
                port (\<lambda>l. de_audit env l ''deposit.authorized'') (AppendAudit ''deposit.authorized'')))) (\<lambda>marked.
         case marked of
           None \<Rightarrow> abortUnexpected env q p se
         | Some _ \<Rightarrow> commit_deposit env q p se a))"

section \<open>The workflow\<close>

definition with_session ::
  "deposit_env \<Rightarrow> deposit_request \<Rightarrow> deposit_policy \<Rightarrow> deposit_call acceptance_session \<Rightarrow> deposit_outcome deposit_io" where
  "with_session env q p se =
     handle
       (seq (collectAndReview env q p se) (\<lambda>reviewed.
        case reviewed of Some out \<Rightarrow> ret out | None \<Rightarrow> authorizeAndCommit env q p se))
       (\<lambda>_. abortUnexpected env q p se)"

definition runDepositWorkflow :: "deposit_env \<Rightarrow> deposit_request \<Rightarrow> deposit_policy \<Rightarrow> deposit_outcome deposit_io" where
  "runDepositWorkflow env q p =
     seq (captureBefore env) (\<lambda>captured.
     if \<not> captured then outcome q p DepFailed DrInventoryBeforeFailed None
     else
       seq (ask (\<lambda>s. dq_aborted q (as_log s))) (\<lambda>aborted.
       if aborted then seq (captureAfter env) (\<lambda>_. interruptedOutcome q p)
       else
         seq (startSession env q p) (\<lambda>session.
         case session of
           None \<Rightarrow> seq (captureAfter env) (\<lambda>_. outcome q p DepFailed DrStartFailed None)
         | Some se \<Rightarrow> with_session env q p se)))"

section \<open>The orchestrator\<close>

record deposit_result =
  dx_outcome :: deposit_outcome
  dx_finalization :: "string option"

definition run_and_finalize :: "deposit_env \<Rightarrow> deposit_request \<Rightarrow> deposit_policy \<Rightarrow> deposit_result deposit_io" where
  "run_and_finalize env q p =
     seq (port (de_startTransaction env) StartTransaction) (\<lambda>_.
     seq (port (\<lambda>l. de_audit env l ''deposit.started'') (AppendAudit ''deposit.started'')) (\<lambda>_.
     seq (runDepositWorkflow env q p) (\<lambda>out.
     seq (port (\<lambda>l. de_finalize env l out) (RunFinalization out)) (\<lambda>record.
     ret \<lparr>dx_outcome = out, dx_finalization = Some record\<rparr>))))"

definition admitted_run :: "deposit_env \<Rightarrow> deposit_request \<Rightarrow> deposit_policy \<Rightarrow> deposit_result deposit_io" where
  "admitted_run env q p =
     (case de_recover env of
        None \<Rightarrow> run_and_finalize env q p
      | Some barrier \<Rightarrow>
          seq (port barrier RecoverBarrier) (\<lambda>status.
          if status \<noteq> BarrierReady then
            seq (outcome q p DepIntervention DrBarrierBlocked None) (\<lambda>out.
            ret \<lparr>dx_outcome = out, dx_finalization = None\<rparr>)
          else run_and_finalize env q p))"

definition execute_deposit ::
  "deposit_env \<Rightarrow> deposit_request \<Rightarrow> (string + deposit_result) \<times> deposit_log" where
  "execute_deposit env q =
     (case require_deposit_policy (de_policies env) (dq_policyId q) of
        Inl e \<Rightarrow> (Inl e, [])
      | Inr p \<Rightarrow>
          if blank (dq_operationId q) then (Inl ''Deposit operation identity is required'', [])
          else (case admitted_run env q p (initialDepositState q p) of (r, s) \<Rightarrow> (r, as_log s)))"

text \<open>For evaluation.\<close>

lemmas [code] =
  port_def [THEN fun_cong] optional_def [THEN fun_cong] outcome_def [THEN fun_cong]
  interruptedOutcome_def [THEN fun_cong] captureInventory_def [THEN fun_cong]
  captureBefore_def [THEN fun_cong] captureAfter_def [THEN fun_cong]
  abort_session_def [THEN fun_cong] abort_with_def [THEN fun_cong]
  abortUnexpected_def [THEN fun_cong] startSession_def [THEN fun_cong]
  resolve_refused_def [THEN fun_cong] persistEscrowAndResolveRefused_def [THEN fun_cong]
  evaluate_gate_def [THEN fun_cong] evaluateReview_def [THEN fun_cong]
  collectAndReview_def [THEN fun_cong] authorizeHost_def [THEN fun_cong]
  commit_deposit_def [THEN fun_cong] abortAfterAuthorizationFailure_def [THEN fun_cong]
  authorizeAndCommit_def [THEN fun_cong] with_session_def [THEN fun_cong]
  runDepositWorkflow_def [THEN fun_cong] run_and_finalize_def [THEN fun_cong]
  admitted_run_def [THEN fun_cong] collect_batches.simps [THEN fun_cong]

end
