(* ===== verification/Deposit_Laws.thy ===== *)
theory Deposit_Laws
  imports Deposit_Workflow Acceptance_Methods
begin

text \<open>
  What a deposit does with its cash session: it commits only what the host approved and the
  transaction was marked with, and on every other way out it gives the notes back or says that it
  could not.
\<close>

section \<open>What may be committed\<close>

text \<open>The host approved exactly the escrow the stored record is of, and the transaction says so.\<close>

definition deposit_permit :: "deposit_log \<Rightarrow> acceptance_record \<Rightarrow> bool" where
  "deposit_permit l r \<longleftrightarrow>
     (\<exists>x a. CallerCall (AuthorizeHost x (Inr a)) \<in> set l \<and> CallerCall (MarkAuthorized a (Inr ())) \<in> set l \<and>
        aa_approved a \<and> es_revision x = ar_revision r \<and> ar_snapshotHash r = Some (es_hash x))"

interpretation authorized_commit: commit_permit deposit_permit
  by unfold_locales (auto simp: deposit_permit_def)

abbreviation resting :: "deposit_state \<Rightarrow> bool" where
  "resting \<equiv> at_rest deposit_permit"

section \<open>Steps that leave the session alone\<close>

lemma pause_change:
  "(\<And>s. as_log (f s) = as_log s \<and> as_record (f s) = as_record s \<and> as_snapshot (f s) = as_snapshot s) \<Longrightarrow>
   stays pause (change f)"
  by (simp add: pausing.stays_iff wp_change pause_def)

lemma pause_port: "stays pause (port f c)"
  unfolding port_def by (subst pausing.stays_iff) (auto intro!: wp_quiet pausing.step_refl)

lemma pause_optional: "stays pause m \<Longrightarrow> stays pause (optional m)"
  unfolding optional_def by (intro pausing.stays_rules)

lemma pause_option: "stays pause m \<Longrightarrow> (\<And>y. stays pause (f y)) \<Longrightarrow>
    stays pause (case x of None \<Rightarrow> m | Some y \<Rightarrow> f y)"
  by (cases x) simp_all

lemma deposit_fields [simp]:
  "as_log (observeEscrow x s) = as_log s" "as_record (observeEscrow x s) = as_record s"
  "as_snapshot (observeEscrow x s) = as_snapshot s"
  "as_log (recordRefusedResolution n m s) = as_log s" "as_record (recordRefusedResolution n m s) = as_record s"
  "as_snapshot (recordRefusedResolution n m s) = as_snapshot s"
  "as_log (applyAcceptanceResult r s) = as_log s" "as_record (applyAcceptanceResult r s) = as_record s"
  "as_snapshot (applyAcceptanceResult r s) = as_snapshot s"
  "as_log (recordInventory i s) = as_log s" "as_record (recordInventory i s) = as_record s"
  "as_snapshot (recordInventory i s) = as_snapshot s"
  "as_log (recordAfterInventoryFailure s) = as_log s" "as_record (recordAfterInventoryFailure s) = as_record s"
  "as_snapshot (recordAfterInventoryFailure s) = as_snapshot s"
  "as_log (abort_failed s) = as_log s" "as_record (abort_failed s) = as_record s"
  "as_snapshot (abort_failed s) = as_snapshot s"
  "as_log (host_answered a s) = as_log s" "as_record (host_answered a s) = as_record s"
  "as_snapshot (host_answered a s) = as_snapshot s"
  "as_log (host_unavailable s) = as_log s" "as_record (host_unavailable s) = as_record s"
  "as_snapshot (host_unavailable s) = as_snapshot s"
  "as_log (commit_lost s) = as_log s" "as_record (commit_lost s) = as_record s"
  "as_snapshot (commit_lost s) = as_snapshot s"
  by (simp_all add: observeEscrow_def recordRefusedResolution_def applyAcceptanceResult_def recordInventory_def
      recordAfterInventoryFailure_def abort_failed_def host_answered_def host_unavailable_def commit_lost_def)

lemma resting_fields:
  "as_log t = as_log s \<Longrightarrow> as_record t = as_record s \<Longrightarrow> as_snapshot t = as_snapshot s \<Longrightarrow>
   resting t = resting s"
  by (simp add: at_rest_def closing_def clean_def underway_def matched_def)

lemmas pause_rules = pausing.stays_rules pause_change pause_port pause_optional pause_option

lemma pause_captureBefore: "stays pause (captureBefore env)"
  unfolding captureBefore_def captureInventory_def by (intro pause_rules) simp

lemma pause_captureAfter: "stays pause (captureAfter env)"
  unfolding captureAfter_def captureInventory_def by (intro pause_rules) simp_all

lemma pause_outcome: "stays pause (outcome q p st re tr)"
  unfolding outcome_def by (intro pause_rules)

lemma wp_optional:
  assumes "wp m (\<lambda>x. Q (Some x)) (\<lambda>_. Q None) s"
  shows "wp (optional m) Q R s"
  using assms by (simp add: optional_def wp_funs)

lemma wp_pause:
  assumes "stays pause m" and "resting s" and "\<And>x t. resting t \<Longrightarrow> pause s t \<Longrightarrow> Q x t"
    and "\<And>e t. resting t \<Longrightarrow> R e t"
  shows "wp m Q R s"
  by (rule pausing.stays_wp [OF assms(1)]) (auto intro: assms pause_stage(4) [OF _ assms(2)])

lemma wp_optional_pause:
  assumes "stays pause m" and "resting s" and "\<And>x t. resting t \<Longrightarrow> pause s t \<Longrightarrow> Q x t"
  shows "wp (optional m) Q R s"
  by (rule wp_optional, rule pausing.stays_wp [OF assms(1)])
    (auto intro: assms(3) pause_stage(4) [OF _ assms(2)])

section \<open>Ways out\<close>

text \<open>The notes were rolled back and taken, or retracted.\<close>

definition returned :: "deposit_log \<Rightarrow> bool" where
  "returned l \<longleftrightarrow> has rolled_back_ok l \<and> has taken_ok l \<or> has retracted_ok l"

definition unsafe_portions :: "deposit_state \<Rightarrow> bool" where
  "unsafe_portions s \<longleftrightarrow> list_ex (\<lambda>n. unsafe_custody (dn_custody n)) (ds_portions s)"

text \<open>What an outcome of a deposit whose session was started may say.\<close>

definition fair_outcome :: "deposit_outcome \<Rightarrow> deposit_log \<Rightarrow> bool" where
  "fair_outcome out l \<longleftrightarrow>
     (do_status out = DepCompleted \<longrightarrow> has ended_ok l \<and> do_reason out = DrCommitted) \<and>
     (do_status out \<in> {DepCancelled, DepTimedOut, DepDeclined, DepFailed} \<longrightarrow> returned l)"

definition aborted :: "deposit_state \<Rightarrow> bool" where
  "aborted s \<longleftrightarrow> resting s \<and> (unsafe_portions s \<or> returned (as_log s))"

lemma portion_custody: "dn_custody (portion_of b n) = np_custody n"
  by (simp add: portion_of_def)

lemma wp_abort_session:
  assumes "resting s"
  shows "wp (abort_session env se reason) (\<lambda>_. aborted) R s"
proof -
  let ?m = "abort_acceptance (de_session env) se reason"
  have gave: "aborted (applyAcceptanceResult r t)" if r: "authorized_commit.gave_back r t" for r t
  proof -
    from r have closed: "closing deposit_permit t" and backed: "backed_result r t"
        and home: "\<forall>n \<in> set (rs_portions r). np_custody n \<noteq> InCashUnit"
      by (simp_all add: authorized_commit.gave_back_def)
    then obtain n where n: "n \<in> set (rs_portions r)" "backed_custody (as_log t) (np_custody n)"
      by (cases "rs_portions r") (auto simp: backed_result_def)
    then have "unsafe_custody (np_custody n) \<or> returned (as_log t)"
      using home by (cases "np_custody n") (auto simp: backed_custody_def unsafe_custody_def returned_def)
    then have "unsafe_portions (applyAcceptanceResult r t) \<or> returned (as_log t)"
      using n(1) by (force simp: unsafe_portions_def applyAcceptanceResult_def list_ex_iff portion_custody)
    moreover have "resting (applyAcceptanceResult r t)"
      using restI(1) [OF closed] by (subst resting_fields [of _ t]) simp_all
    ultimately show ?thesis by (simp add: aborted_def)
  qed
  have failed: "aborted (abort_failed t)" if "resting t" for t
  proof -
    have "resting (abort_failed t)" using that by (subst resting_fields [of _ t]) simp_all
    then show ?thesis by (simp add: aborted_def unsafe_portions_def abort_failed_def unsafe_custody_def)
  qed
  have "wp ?m (\<lambda>r t. aborted (applyAcceptanceResult r t)) (\<lambda>_ t. aborted (abort_failed t)) s"
    by (rule wp_weaken [OF authorized_commit.wp_abort [OF assms]]) (auto intro: gave failed)
  then show ?thesis unfolding abort_session_def wp_seq
    by (intro wp_optional) (simp add: wp_funs)
qed

lemma aborted_pause:
  assumes "aborted s" and "pause s t" and "unsafe_portions s \<Longrightarrow> unsafe_portions t"
  shows "aborted t"
  using assms pause_stage(4) [OF assms(2)] pause_more [OF assms(2)] by (auto simp: aborted_def returned_def)

lemma wp_captureAfter:
  assumes "aborted s"
  shows "wp (captureAfter env) (\<lambda>_. aborted) R s"
proof -
  have p: "aborted (recordInventory i (s\<lparr>as_log := as_log s @ [CallerCall c]\<rparr>))"
    "aborted (recordAfterInventoryFailure (s\<lparr>as_log := as_log s @ [CallerCall c]\<rparr>))" for i c
    by (rule aborted_pause [OF assms];
        simp add: pause_def unsafe_portions_def recordInventory_def recordAfterInventoryFailure_def)+
  show ?thesis
    unfolding captureAfter_def captureInventory_def wp_seq
    by (rule wp_optional) (simp add: port_def wp_acc_call wp_funs p split: sum.split)
qed

lemma wp_captureAfter_quiet:
  assumes "\<And>t. pause s t \<Longrightarrow> Q () t"
  shows "wp (captureAfter env) Q R s"
proof -
  have "Q () (recordInventory i (s\<lparr>as_log := as_log s @ [CallerCall c]\<rparr>))"
    "Q () (recordAfterInventoryFailure (s\<lparr>as_log := as_log s @ [CallerCall c]\<rparr>))" for i c
    by (rule assms; simp add: pause_def)+
  then show ?thesis
    unfolding captureAfter_def captureInventory_def wp_seq
    by (intro wp_optional) (simp add: port_def wp_acc_call wp_funs split: sum.split)
qed

lemma wp_fair:
  assumes "aborted s" and "st \<noteq> DepCompleted"
  shows "wp (outcome q p st re tr) (\<lambda>out t. resting t \<and> fair_outcome out (as_log t)) R s"
  using assms
  by (auto simp: outcome_def wp_ask aborted_def fair_outcome_def buildDepositOutcome_def Let_def
      safetyStatus_def unsafe_portions_def)

lemma wp_abort_with:
  assumes "resting s" and "st \<noteq> DepCompleted"
  shows "wp (abort_with env q p se ab st re tr) (\<lambda>out t. resting t \<and> fair_outcome out (as_log t)) R s"
  unfolding abort_with_def wp_seq
  by (rule wp_weaken [OF wp_abort_session [OF assms(1)]], erule wp_weaken [OF wp_captureAfter],
      erule wp_fair [OF _ assms(2)], assumption+)

lemma wp_abortUnexpected:
  "resting s \<Longrightarrow> wp (abortUnexpected env q p se) (\<lambda>out t. resting t \<and> fair_outcome out (as_log t)) R s"
  unfolding abortUnexpected_def by (rule wp_abort_with) simp_all


section \<open>Batches\<close>

abbreviation ended_fairly :: "deposit_outcome \<Rightarrow> deposit_state \<Rightarrow> bool" where
  "ended_fairly out s \<equiv> resting s \<and> fair_outcome out (as_log s)"

lemma wp_persist:
  assumes "resting s"
  shows "wp (persistEscrowAndResolveRefused env q p se x)
     (\<lambda>r t. resting t \<and> (\<forall>out. r = Some out \<longrightarrow> ended_fairly out t)) R s"
proof -
  let ?Q = "\<lambda>r t. resting t \<and> (\<forall>out. r = Some out \<longrightarrow> ended_fairly out t)"
  have ended: "wp (seq m (\<lambda>out. ret (Some out))) ?Q R t"
    if "wp m (\<lambda>out t. resting t \<and> fair_outcome out (as_log t)) R t" for m t
    unfolding wp_seq wp_ret by (rule wp_weaken [OF that]) auto
  have refused: "wp (seq (resolve_refused env n) (\<lambda>resolution.
       seq (change (recordRefusedResolution n resolution)) (\<lambda>_.
       if mr_status resolution = MediaTaken \<or> mr_status resolution = MediaRetracted then ret None
       else seq (abort_with env q p se AbortCancelled DepIntervention DrRefusedUnresolved None) (\<lambda>out. ret (Some out)))))
       ?Q R t" if "resting t" for n t
  proof -
    have "stays pause (resolve_refused env n)"
      unfolding resolve_refused_def Let_def by (intro pause_rules)
    moreover have "wp (resolve_refused env n) (\<lambda>_ _. True) (\<lambda>_ _. False) t" for t
      by (simp add: resolve_refused_def Let_def wp_funs wp_option port_def wp_acc_call split: option.split sum.split)
    ultimately have w: "wp (resolve_refused env n) (\<lambda>_ u. True \<and> pause t u) (\<lambda>_ u. False \<and> pause t u) t"
      by (rule stays_conj)
    show ?thesis
      unfolding wp_seq [of "resolve_refused _ _"] wp_seq [of "change _"] wp_change
    proof (rule wp_weaken [OF w], elim conjE)
      fix resolution u assume "pause t u"
      then have "resting (recordRefusedResolution n resolution u)"
        using pause_stage(4) [OF _ that] by (subst resting_fields [of _ u]) simp_all
      then show "wp (if mr_status resolution = MediaTaken \<or> mr_status resolution = MediaRetracted then ret None
          else seq (abort_with env q p se AbortCancelled DepIntervention DrRefusedUnresolved None) (\<lambda>out. ret (Some out)))
          ?Q R (recordRefusedResolution n resolution u)"
        by (auto simp: wp_ret intro!: ended wp_abort_with)
    qed simp
  qed
  have observed: "resting (observeEscrow x s)"
    using assms by (subst resting_fields [of _ s]) simp_all
  show ?thesis
    unfolding persistEscrowAndResolveRefused_def wp_seq [of "ask _"] wp_ask wp_seq [of "change (observeEscrow x)"]
      wp_change wp_seq [of "optional _"]
  proof (rule wp_optional_pause [OF pause_port observed])
    fix marked t assume t: "resting t"
    then show "wp (if marked = None then seq (abortUnexpected env q p se) (\<lambda>out. ret (Some out))
        else if new_refused x s = 0 then ret None
        else seq (resolve_refused env (new_refused x s)) (\<lambda>resolution.
          seq (change (recordRefusedResolution (new_refused x s) resolution)) (\<lambda>_.
          if mr_status resolution = MediaTaken \<or> mr_status resolution = MediaRetracted then ret None
          else seq (abort_with env q p se AbortCancelled DepIntervention DrRefusedUnresolved None)
            (\<lambda>out. ret (Some out))))) ?Q R t"
      by (auto simp: wp_ret intro!: ended wp_abortUnexpected refused)
  qed
qed

lemma wp_evaluateReview:
  assumes "resting s"
  shows "wp (evaluateReview env q p se x batch)
     (\<lambda>r t. resting t \<and> (\<forall>out. r = ReviewEnded out \<longrightarrow> ended_fairly out t)) R s"
proof -
  let ?Q = "\<lambda>r t. resting t \<and> (\<forall>out. r = ReviewEnded out \<longrightarrow> ended_fairly out t)"
  have ended: "wp (seq m (\<lambda>out. ret (ReviewEnded out))) ?Q R t"
    if "wp m (\<lambda>out t. resting t \<and> fair_outcome out (as_log t)) R t" for m t
    unfolding wp_seq wp_ret by (rule wp_weaken [OF that]) auto
  have gate: "stays pause (evaluate_gate env (dy_reviewGateId p) batch x)"
    unfolding evaluate_gate_def by (intro pause_rules)
  have status: "rf_status (reviewFailure d b) \<noteq> DepCompleted" for d b by (simp add: reviewFailure_def)
  show ?thesis
    unfolding evaluateReview_def wp_seq [of "optional _"]
    by (rule wp_optional_pause [OF gate assms])
      (auto simp: wp_ret Let_def split: option.split intro!: ended wp_abortUnexpected wp_abort_with status)
qed

lemma wp_interruptedOutcome:
  "aborted s \<Longrightarrow> wp (interruptedOutcome q p) (\<lambda>out t. resting t \<and> fair_outcome out (as_log t)) R s"
  by (simp add: interruptedOutcome_def wp_fair)

lemma wp_collect_batches:
  "resting s \<Longrightarrow> wp (collect_batches env q p se batch left)
     (\<lambda>r t. resting t \<and> (\<forall>out. r = Some out \<longrightarrow> ended_fairly out t)) (\<lambda>_. resting) s"
proof (induction "left" arbitrary: batch s)
  case 0
  then show ?case by (simp add: wp_raise)
next
  case (Suc left)
  let ?Q = "\<lambda>r t. resting t \<and> (\<forall>out. r = Some out \<longrightarrow> ended_fairly out t)"
  have ended: "wp (seq m (\<lambda>out. ret (Some out))) ?Q (\<lambda>_. resting) t"
    if "wp m (\<lambda>out t. resting t \<and> fair_outcome out (as_log t)) (\<lambda>_. resting) t" for m t
    unfolding wp_seq wp_ret by (rule wp_weaken [OF that]) auto
  have interrupted: "wp (seq (abort_session env se reason) (\<lambda>_. seq (captureAfter env) (\<lambda>_.
      seq (interruptedOutcome q p) (\<lambda>out. ret (Some out))))) ?Q (\<lambda>_. resting) s" for reason
    unfolding wp_seq [of "abort_session _ _ _"] wp_seq [of "captureAfter _"]
    by (rule wp_weaken [OF wp_abort_session [OF Suc.prems]], erule wp_weaken [OF wp_captureAfter],
        rule ended, erule wp_interruptedOutcome) assumption+
  have review: "wp (seq (evaluateReview env q p se x batch) (\<lambda>review.
      case review of ReviewAcceptMore \<Rightarrow> collect_batches env q p se (batch + 1) left
      | ReviewEnded out \<Rightarrow> ret (Some out) | ReviewPassed \<Rightarrow> ret None)) ?Q (\<lambda>_. resting) t"
    if "resting t" for t x
    unfolding wp_seq
    by (rule wp_weaken [OF wp_evaluateReview [OF that, where R = "\<lambda>_. resting"]])
      (auto simp: wp_ret Suc.IH split: review_result.split)
  have batch: "wp (seq (persistEscrowAndResolveRefused env q p se x) (\<lambda>refused.
      case refused of Some out \<Rightarrow> ret (Some out)
      | None \<Rightarrow> seq (evaluateReview env q p se x batch) (\<lambda>review.
          case review of ReviewAcceptMore \<Rightarrow> collect_batches env q p se (batch + 1) left
          | ReviewEnded out \<Rightarrow> ret (Some out) | ReviewPassed \<Rightarrow> ret None))) ?Q (\<lambda>_. resting) t"
    if "resting t" for t x
    unfolding wp_seq [of "persistEscrowAndResolveRefused _ _ _ _ _"]
    by (rule wp_weaken [OF wp_persist [OF that, where R = "\<lambda>_. resting"]])
      (auto simp: wp_ret review split: option.split)
  have "wp (optional (acceptBatch (de_session env) se)) (\<lambda>accepted. wp
      (case accepted of
         None \<Rightarrow> seq (abort_with env q p se AbortCancelled DepFailed DrAcceptanceFailed (Some DepInterrupt))
             (\<lambda>out. ret (Some out))
       | Some x \<Rightarrow> seq (persistEscrowAndResolveRefused env q p se x) (\<lambda>refused.
           case refused of Some out \<Rightarrow> ret (Some out)
           | None \<Rightarrow> seq (evaluateReview env q p se x batch) (\<lambda>review.
               case review of ReviewAcceptMore \<Rightarrow> collect_batches env q p se (batch + 1) left
               | ReviewEnded out \<Rightarrow> ret (Some out) | ReviewPassed \<Rightarrow> ret None))) ?Q (\<lambda>_. resting)) (\<lambda>_. resting) s"
    by (rule wp_optional, rule wp_weaken [OF authorized_commit.wp_acceptBatch [OF Suc.prems]])
      (auto simp: batch intro!: ended wp_abort_with)
  then show ?case
    by (simp add: wp_seq [of "ask _"] wp_ask wp_seq [of "optional _"] interrupted)
qed

section \<open>Authorization and commit\<close>

definition approved_by_host :: "escrow_snapshot \<Rightarrow> deposit_authorization \<Rightarrow> deposit_log \<Rightarrow> bool" where
  "approved_by_host x a l \<longleftrightarrow> CallerCall (AuthorizeHost x (Inr a)) \<in> set l"

lemma wp_authorizeHost:
  "wp (authorizeHost env x) (\<lambda>a u. pause t u \<and> approved_by_host x a (as_log u)) (\<lambda>_. pause t) t"
  by (simp add: authorizeHost_def port_def wp_funs wp_acc_call pause_def approved_by_host_def split: sum.split)

lemma wp_commit_deposit:
  assumes "resting s" and "\<And>r. aa_approved a \<Longrightarrow> ar_revision r = aa_revision a \<Longrightarrow>
      ar_snapshotHash r = Some (aa_snapshotHash a) \<Longrightarrow> deposit_permit (as_log s) r"
  shows "wp (commit_deposit env q p se a) (\<lambda>out t. resting t \<and> fair_outcome out (as_log t)) R s"
proof -
  define t where "t = s\<lparr>ds_physical := (ds_physical s)\<lparr>ph_commit := CommitDispatched\<rparr>\<rparr>"
  have t: "as_log t = as_log s" "as_record t = as_record s" "as_snapshot t = as_snapshot s" by (simp_all add: t_def)
  have rest: "resting t" using assms(1) t by (subst resting_fields [of _ s]) simp_all
  have lost: "wp (abort_with env q p se AbortCancelled DepIntervention DrCommitUnknown (Some DepInterrupt))
      (\<lambda>out t. resting t \<and> fair_outcome out (as_log t)) R (commit_lost u)" if "resting u" for u
  proof (rule wp_abort_with)
    show "resting (commit_lost u)" using that by (subst resting_fields [of _ u]) simp_all
  qed simp
  have finish: "wp (seq (captureAfter env) (\<lambda>_.
         seq (ask (\<lambda>s. dv_afterCaptureFailed (ds_inventory s))) (\<lambda>failed.
         if failed then outcome q p DepIntervention DrInventoryAfterFailed None
         else outcome q p DepCompleted DrCommitted None)))
      (\<lambda>out t. resting t \<and> fair_outcome out (as_log t)) R (applyAcceptanceResult r u)"
    if "closing deposit_permit u" "rs_committed r" "backed_result r u" for r u
  proof (subst wp_seq, rule wp_captureAfter_quiet)
    fix v assume v: "pause (applyAcceptanceResult r u) v"
    have "resting (applyAcceptanceResult r u)"
      using restI(1) [OF that(1)] by (subst resting_fields [of _ u]) simp_all
    then have "resting v" by (rule pause_stage(4) [OF v])
    moreover have "has ended_ok (as_log v)"
      using that(2,3) by (intro pause_more [OF v]) (simp add: backed_result_def)
    ultimately show "wp (seq (ask (\<lambda>s. dv_afterCaptureFailed (ds_inventory s))) (\<lambda>failed.
         if failed then outcome q p DepIntervention DrInventoryAfterFailed None
         else outcome q p DepCompleted DrCommitted None))
      (\<lambda>out t. resting t \<and> fair_outcome out (as_log t)) R v"
      by (simp add: wp_funs outcome_def fair_outcome_def buildDepositOutcome_def Let_def safetyStatus_def)
  qed
  have "wp (optional (commit (de_session env) se a)) (\<lambda>result. wp
      (case result of
         None \<Rightarrow> seq (change commit_lost) (\<lambda>_.
           abort_with env q p se AbortCancelled DepIntervention DrCommitUnknown (Some DepInterrupt))
       | Some r \<Rightarrow> seq (change (applyAcceptanceResult r)) (\<lambda>_. seq (captureAfter env) (\<lambda>_.
           seq (ask (\<lambda>s. dv_afterCaptureFailed (ds_inventory s))) (\<lambda>failed.
           if failed then outcome q p DepIntervention DrInventoryAfterFailed None
           else outcome q p DepCompleted DrCommitted None))))
      (\<lambda>out t. resting t \<and> fair_outcome out (as_log t)) R) R t"
    by (rule wp_optional, rule wp_weaken [OF authorized_commit.wp_commit [OF rest]])
      (auto simp: t assms(2) wp_seq [of "change _"] wp_change intro: finish lost)
  then show ?thesis
    by (simp add: commit_deposit_def wp_seq [of "change _"] wp_change t_def wp_seq [of "optional _"])
qed

lemma wp_authorizeAndCommit:
  assumes "resting s"
  shows "wp (authorizeAndCommit env q p se) (\<lambda>out t. resting t \<and> fair_outcome out (as_log t)) R s"
proof -
  let ?Q = "\<lambda>out t. resting t \<and> fair_outcome out (as_log t)"
  have refused: "wp (abortAfterAuthorizationFailure env q p se) ?Q R t" if "resting t" for t
    unfolding abortAfterAuthorizationFailure_def wp_seq wp_ask
    by (rule wp_weaken [OF wp_abort_session [OF that]], erule wp_weaken [OF wp_captureAfter],
        erule wp_fair, simp, assumption+)
  have granted: "wp (seq (optional
           (seq (port (\<lambda>l. de_markAuthorized env l a) (MarkAuthorized a)) (\<lambda>_.
            port (\<lambda>l. de_audit env l ''deposit.authorized'') (AppendAudit ''deposit.authorized'')))) (\<lambda>marked.
         case marked of None \<Rightarrow> abortUnexpected env q p se | Some _ \<Rightarrow> commit_deposit env q p se a)) ?Q R t"
    if t: "resting t" "approved_by_host x a (as_log t)" "assertExactAuthorization op x a = Inr ()" for a x op t
  proof -
    let ?mark = "port (\<lambda>l. de_markAuthorized env l a) (MarkAuthorized a)"
    let ?audit = "port (\<lambda>l. de_audit env l ''deposit.authorized'') (AppendAudit ''deposit.authorized'')"
    let ?marked = "\<lambda>u. CallerCall (MarkAuthorized a (Inr ())) \<in> set (as_log u)"
    have marks: "wp (seq ?mark (\<lambda>_. ?audit)) (\<lambda>_. ?marked) (\<lambda>_ _. True) t"
      by (simp add: port_def wp_funs wp_acc_call split: sum.split)
    have "stays pause (seq ?mark (\<lambda>_. ?audit))" by (intro pause_rules)
    from stays_conj [OF this marks] have w: "wp (seq ?mark (\<lambda>_. ?audit))
        (\<lambda>_ u. ?marked u \<and> pause t u) (\<lambda>_ u. True \<and> pause t u) t" .
    have commits: "wp (commit_deposit env q p se a) ?Q R u" if u: "?marked u" "pause t u" for u
    proof (rule wp_commit_deposit)
      show "resting u" by (rule pause_stage(4) [OF u(2) t(1)])
    next
      fix r :: acceptance_record
      assume r: "aa_approved a" "ar_revision r = aa_revision a" "ar_snapshotHash r = Some (aa_snapshotHash a)"
      have "CallerCall (AuthorizeHost x (Inr a)) \<in> set (as_log u)"
        using u(2) t(2) by (auto simp: approved_by_host_def pause_def)
      with r u(1) t(3) show "deposit_permit (as_log u) r"
        unfolding deposit_permit_def assertExactAuthorization_def guard_res_def
        by (intro exI [of _ x] exI [of _ a]) (auto split: if_splits)
    qed
    show ?thesis
      unfolding wp_seq [of "optional _"]
      by (rule wp_optional, rule wp_weaken [OF w])
        (auto intro: commits wp_abortUnexpected pause_stage(4) [OF _ t(1)])
  qed
  have grows: "approved_by_host x a (l @ k)" if "approved_by_host x a l" for x a l k
    using that by (simp add: approved_by_host_def)
  show ?thesis
    unfolding authorizeAndCommit_def wp_seq [of "optional (authorize _ _ _)"]
    by (rule wp_optional, rule wp_weaken [OF authorized_commit.wp_authorize [OF assms wp_authorizeHost grows]])
      (auto intro: granted refused)
qed

section \<open>The workflow\<close>

lemma wp_with_session:
  assumes "resting s"
  shows "wp (with_session env q p se) (\<lambda>out t. resting t \<and> fair_outcome out (as_log t)) R s"
  unfolding with_session_def wp_handle collectAndReview_def wp_seq [of "collect_batches _ _ _ _ _ _"]
  by (rule wp_weaken [OF wp_collect_batches [OF assms]])
    (auto simp: wp_ret intro: wp_authorizeAndCommit wp_abortUnexpected split: option.split)

end
