(* ===== verification/Deposit_Properties.thy ===== *)
theory Deposit_Properties
  imports Deposit_Laws Acceptance_Properties
begin

text \<open>
  The properties of a deposit: what it commits and what stands behind its outcome, over the model of
  \<^verbatim>\<open>DepositOrchestrator.execute\<close> together with the cash session it uses, whatever the
  device, the stores, the host and the reviews answer. Each is applied to a concrete deposit.
\<close>

section \<open>The whole deposit\<close>

text \<open>What the log of a deposit and its outcome have in common.\<close>

definition accounted_outcome :: "deposit_outcome \<Rightarrow> deposit_log \<Rightarrow> bool" where
  "accounted_outcome out l \<longleftrightarrow>
     (do_status out = DepCompleted \<longrightarrow> has ended_ok l \<and> do_reason out = DrCommitted) \<and>
     (do_status out \<in> {DepCancelled, DepTimedOut, DepDeclined, DepFailed} \<longrightarrow>
        has started_ok l \<longrightarrow> do_reason out \<noteq> DrStartFailed \<longrightarrow> returned l)"

abbreviation deposit_lawful :: "deposit_log \<Rightarrow> bool" where
  "deposit_lawful \<equiv> acceptance_lawful deposit_permit"

definition quiet_so_far :: "deposit_state \<Rightarrow> bool" where
  "quiet_so_far s \<longleftrightarrow> list_all quiet (as_log s)"

lemma quiet_so_far_pause: "quiet_so_far s \<Longrightarrow> pause s t \<Longrightarrow> quiet_so_far t"
  by (auto simp: quiet_so_far_def pause_def)

lemma quiet_log:
  assumes "list_all quiet l"
  shows "deposit_lawful l" and "\<not> has started_ok l"
proof -
  show "deposit_lawful l" by (rule lawful_quiet [OF assms])
  show "\<not> has started_ok l" by (rule has_not_quiet [OF assms]) (erule quiet.elims; simp)
qed

lemma pause_lawful: "pause s t \<Longrightarrow> deposit_lawful (as_log s) \<Longrightarrow> deposit_lawful (as_log t)"
  by (auto simp: pause_def lawful_from_append lawful_quiet)

lemma wp_not_started:
  assumes "quiet_so_far s" and "st \<noteq> DepCompleted"
  shows "wp (outcome q p st re tr) (\<lambda>out t. deposit_lawful (as_log t) \<and> accounted_outcome out (as_log t)) R s"
  using assms quiet_log [of "as_log s"]
  by (auto simp: outcome_def wp_ask accounted_outcome_def buildDepositOutcome_def Let_def safetyStatus_def
      quiet_so_far_def)

lemma wp_workflow:
  assumes "quiet_so_far s"
  shows "wp (runDepositWorkflow env q p)
     (\<lambda>out t. deposit_lawful (as_log t) \<and> accounted_outcome out (as_log t)) R s"
proof -
  let ?Q = "\<lambda>out t. deposit_lawful (as_log t) \<and> accounted_outcome out (as_log t)"
  have refused: "wp (seq (captureAfter env) (\<lambda>_. outcome q p DepFailed DrStartFailed None)) ?Q R t"
    if "authorized_commit.refused_start t" for t
  proof (subst wp_seq, rule wp_captureAfter_quiet)
    fix u assume "pause t u"
    then have "deposit_lawful (as_log u)"
      using that by (auto simp: authorized_commit.refused_start_def intro: pause_lawful)
    then show "wp (outcome q p DepFailed DrStartFailed None) ?Q R u"
      by (auto simp: outcome_def wp_ask accounted_outcome_def buildDepositOutcome_def Let_def safetyStatus_def)
  qed
  have session: "wp (with_session env q p se) ?Q R t" if "resting t" for se t
    by (rule wp_weaken [OF wp_with_session [OF that]])
      (auto simp: fair_outcome_def accounted_outcome_def dest: rest_underway simp: underway_def)
  have start: "wp (seq (startSession env q p) (\<lambda>session. case session of
      None \<Rightarrow> seq (captureAfter env) (\<lambda>_. outcome q p DepFailed DrStartFailed None)
    | Some se \<Rightarrow> with_session env q p se)) ?Q R t" if "quiet_so_far t" for t
    unfolding startSession_def wp_seq [of "optional (start_acceptance _ _)"]
    by (rule wp_optional, rule wp_weaken [OF authorized_commit.wp_start])
      (use that in \<open>auto simp: quiet_so_far_def session intro: refused\<close>)
  have stopped: "wp (seq (captureAfter env) (\<lambda>_. interruptedOutcome q p)) ?Q R t" if "quiet_so_far t" for t
    unfolding wp_seq
    by (rule wp_captureAfter_quiet)
      (auto simp: interruptedOutcome_def intro: wp_not_started quiet_so_far_pause [OF that])
  have captured: "wp (captureBefore env) (\<lambda>_. quiet_so_far) R s"
  proof -
    have "quiet_so_far (recordInventory i (s\<lparr>as_log := as_log s @ [CallerCall c]\<rparr>))"
      "quiet_so_far (s\<lparr>as_log := as_log s @ [CallerCall c]\<rparr>)" for i c
      using assms by (simp_all add: quiet_so_far_def)
    then show ?thesis
      unfolding captureBefore_def captureInventory_def wp_seq
      by (intro wp_optional) (simp add: port_def wp_acc_call wp_funs split: sum.split)
  qed
  show ?thesis
    unfolding runDepositWorkflow_def wp_seq [of "captureBefore _"]
    by (rule wp_weaken [OF captured]) (auto simp: wp_seq [of "ask _"] wp_ask intro: wp_not_started stopped start)
qed

lemma wp_caller_call:
  assumes "\<And>r. f (as_log s) = Inr r \<Longrightarrow> Q r (s\<lparr>as_log := as_log s @ [CallerCall (c (Inr r))]\<rparr>)"
    and "\<And>e. f (as_log s) = Inl e \<Longrightarrow> R e (s\<lparr>as_log := as_log s @ [CallerCall (c (Inl e))]\<rparr>)"
  shows "wp (port f c) Q R s"
  using assms by (simp add: port_def wp_acc_call split: sum.split)

text \<open>Whatever a deposit returns or throws, its log is lawful, and what it returns is accounted for.\<close>

lemma wp_run_and_finalize:
  assumes "quiet_so_far s"
  shows "wp (run_and_finalize env q p)
     (\<lambda>r t. deposit_lawful (as_log t) \<and> accounted_outcome (dx_outcome r) (as_log t))
     (\<lambda>_ t. deposit_lawful (as_log t)) s"
proof -
  have fin: "wp (seq (port (\<lambda>l. de_finalize env l out) (RunFinalization out)) (\<lambda>record.
      ret \<lparr>dx_outcome = out, dx_finalization = Some record\<rparr>))
      (\<lambda>r t. deposit_lawful (as_log t) \<and> accounted_outcome (dx_outcome r) (as_log t))
      (\<lambda>_ t. deposit_lawful (as_log t)) t"
    if "deposit_lawful (as_log t)" "accounted_outcome out (as_log t)" for out t
  proof (subst wp_seq, rule wp_caller_call)
    fix rec
    have "deposit_lawful (as_log t @ [CallerCall (RunFinalization out (Inr rec))])"
      using that(1) by (simp add: lawful_from_append acceptance_law_def)
    moreover have "accounted_outcome out (as_log t @ [CallerCall (RunFinalization out (Inr rec))])"
      using that(2) by (auto simp: accounted_outcome_def returned_def)
    ultimately show "wp (ret \<lparr>dx_outcome = out, dx_finalization = Some rec\<rparr>)
        (\<lambda>r t. deposit_lawful (as_log t) \<and> accounted_outcome (dx_outcome r) (as_log t))
        (\<lambda>_ t. deposit_lawful (as_log t))
        (t\<lparr>as_log := as_log t @ [CallerCall (RunFinalization out (Inr rec))]\<rparr>)"
      by (simp add: wp_ret)
  qed (use that(1) in \<open>simp add: lawful_from_append acceptance_law_def\<close>)
  show ?thesis
    unfolding run_and_finalize_def wp_seq [of "port _ _"] wp_seq [of "runDepositWorkflow _ _ _"]
    by (intro wp_caller_call, intro wp_weaken [OF wp_workflow, where R = "\<lambda>_ t. deposit_lawful (as_log t)"])
      (use assms in \<open>auto simp: quiet_so_far_def intro: fin [unfolded wp_seq] intro!: quiet_log(1)\<close>)
qed

lemma wp_admitted_run:
  assumes "as_log s = []"
  shows "wp (admitted_run env q p)
     (\<lambda>r t. deposit_lawful (as_log t) \<and> accounted_outcome (dx_outcome r) (as_log t))
     (\<lambda>_ t. deposit_lawful (as_log t)) s"
proof (cases "de_recover env")
  case None
  then show ?thesis
    unfolding admitted_run_def by (simp add: wp_run_and_finalize quiet_so_far_def assms)
next
  case (Some barrier)
  let ?s = "\<lambda>c. s\<lparr>as_log := as_log s @ [CallerCall c]\<rparr>"
  have quiet: "quiet_so_far (?s c)" for c by (simp add: quiet_so_far_def assms)
  have blocked: "wp (seq (outcome q p DepIntervention DrBarrierBlocked None) (\<lambda>out.
      ret \<lparr>dx_outcome = out, dx_finalization = None\<rparr>))
      (\<lambda>r t. deposit_lawful (as_log t) \<and> accounted_outcome (dx_outcome r) (as_log t)) R (?s c)" for c R
    unfolding wp_seq wp_ret by (rule wp_weaken [OF wp_not_started [OF quiet]]) auto
  have thrown: "deposit_lawful (as_log (?s c))" for c
    using quiet [of c] by (intro quiet_log(1)) (simp add: quiet_so_far_def)
  show ?thesis
    unfolding admitted_run_def Some option.case wp_seq [of "port _ _"]
    by (rule wp_caller_call) (use thrown in \<open>auto intro: blocked wp_run_and_finalize quiet\<close>)
qed

lemma executed:
  assumes "execute_deposit env q = (r, l)"
  shows "deposit_lawful l" and "r = Inr x \<Longrightarrow> accounted_outcome (dx_outcome x) l"
proof -
  have "deposit_lawful l \<and> (\<forall>x. r = Inr x \<longrightarrow> accounted_outcome (dx_outcome x) l)"
  proof (cases "require_deposit_policy (de_policies env) (dq_policyId q)")
    case (Inl e)
    then show ?thesis using assms by (auto simp: execute_deposit_def)
  next
    case (Inr p)
    show ?thesis
    proof (cases "blank (dq_operationId q)")
      case True
      then show ?thesis using assms Inr by (auto simp: execute_deposit_def)
    next
      case False
      obtain t where t: "admitted_run env q p (initialDepositState q p) = (r, t)" "l = as_log t"
        using assms Inr False by (auto simp: execute_deposit_def split: prod.splits)
      have "as_log (initialDepositState q p) = []" by (simp add: initialDepositState_def)
      from wp_admitted_run [OF this, of env q p] t show ?thesis by (cases r) (auto simp: wp_def)
    qed
  qed
  then show "deposit_lawful l" and "r = Inr x \<Longrightarrow> accounted_outcome (dx_outcome x) l" by auto
qed

text \<open>After the command to commit there is no other, and nothing is rolled back or retracted.\<close>

lemma after_end:
  "lawful_from (acceptance_law permit) l k \<Longrightarrow> has is_end l \<Longrightarrow>
   \<not> has is_end k \<and> \<not> has is_rollback k \<and> \<not> has is_retract k"
proof (induction k arbitrary: l)
  case (Cons c k)
  then have law: "acceptance_law permit l c" and rest: "lawful_from (acceptance_law permit) (l @ [c]) k" by simp_all
  have "\<not> is_end c \<and> \<not> is_rollback c \<and> \<not> is_retract c"
    using law Cons.prems(2) by (cases c) (auto simp: acceptance_law_def pristine_def)
  with Cons.IH [OF rest] Cons.prems(2) show ?case by simp
qed simp

lemma deposit_ends:
  assumes "execute_deposit env q = (r, before @ CashInEnd units # after)"
  shows "\<not> has is_rollback (before @ CashInEnd units # after) \<and> \<not> has is_retract (before @ CashInEnd units # after)"
proof -
  have lawful: "deposit_lawful (before @ CashInEnd units # after)" by (rule executed(1) [OF assms])
  have "\<not> has is_end after \<and> \<not> has is_rollback after \<and> \<not> has is_retract after"
    using lawful by (intro after_end [of deposit_permit "before @ [CashInEnd units]"]) (simp_all add: lawful_from_append)
  moreover have "acceptance_law deposit_permit before (CashInEnd units)" using lawful by (rule lawful_split)
  ultimately show ?thesis by (simp add: acceptance_law_def)
qed

lemma has_mono: "has P l \<Longrightarrow> (\<And>c. P c \<Longrightarrow> Q c) \<Longrightarrow> has Q l"
  by (auto simp: has_set)

lemma rolled_back_call: "rolled_back_ok c \<Longrightarrow> is_rollback c"
  and retracted_call: "retracted_ok c \<Longrightarrow> is_retract c"
  by (cases c; simp)+

lemma rolled_back_called: "has rolled_back_ok l \<Longrightarrow> has is_rollback l"
  by (erule has_mono) (erule rolled_back_call)

lemma retracted_called: "has retracted_ok l \<Longrightarrow> has is_retract l"
  by (erule has_mono) (erule retracted_call)

lemma commit_permitted:
  assumes "execute_deposit env q = (r, l)" and "has is_end l"
  obtains before units after stored where "l = before @ CashInEnd units # after"
    and "UpdateRecord stored (Inr ()) \<in> set before" and "ar_physicalCommitDispatched stored"
    and "deposit_permit before stored"
proof -
  obtain before units after where l: "l = before @ CashInEnd units # after"
    using assms(2) by (auto simp: has_set elim!: is_end.elims dest!: split_list)
  have "acceptance_law deposit_permit before (CashInEnd units)"
    using executed(1) [OF assms(1)] unfolding l by (rule lawful_split)
  then show ?thesis using that l by (auto simp: acceptance_law_def commit_stored_def)
qed

lemma ended_called: "has ended_ok l \<Longrightarrow> has is_end l"
  by (erule has_mono) (auto elim: ended_ok.elims)

section \<open>Properties\<close>

text \<open>
  C4. The device is told to commit only what the host approved: before the command the host answered
  the snapshot of the escrow with an approval, the transaction was marked with this approval, and a
  record of just this snapshot, by revision and hash, was stored as dispatched. It happens at most
  once, and never after a rollback or a retract.
\<close>

theorem deposit_commits_what_was_authorized:
  assumes "execute_deposit env q = (r, before @ CashInEnd units # after)"
  shows "(\<exists>x a stored. CallerCall (AuthorizeHost x (Inr a)) \<in> set before \<and> aa_approved a \<and>
        CallerCall (MarkAuthorized a (Inr ())) \<in> set before \<and>
        UpdateRecord stored (Inr ()) \<in> set before \<and> ar_physicalCommitDispatched stored \<and>
        ar_revision stored = es_revision x \<and> ar_snapshotHash stored = Some (es_hash x)) \<and>
      \<not> has is_end (before @ after) \<and> \<not> has is_rollback (before @ after) \<and> \<not> has is_retract (before @ after)"
proof -
  have lawful: "deposit_lawful (before @ CashInEnd units # after)" by (rule executed(1) [OF assms])
  then have law: "acceptance_law deposit_permit before (CashInEnd units)" by (rule lawful_split)
  then obtain stored where stored: "UpdateRecord stored (Inr ()) \<in> set before"
      "ar_physicalCommitDispatched stored" "deposit_permit before stored"
    by (auto simp: acceptance_law_def commit_stored_def)
  moreover have "\<not> has is_end after \<and> \<not> has is_rollback after \<and> \<not> has is_retract after"
    using lawful by (intro after_end [of deposit_permit "before @ [CashInEnd units]"]) (simp_all add: lawful_from_append)
  ultimately show ?thesis
    using law by (force simp: deposit_permit_def acceptance_law_def)
qed

text \<open>
  C19. A deposit that is completed was committed by the device.
\<close>

theorem completed_deposit_is_committed:
  assumes "execute_deposit env q = (Inr x, l)" and "do_status (dx_outcome x) = DepCompleted"
  shows "(\<exists>units. CashInEnd (Inr units) \<in> set l) \<and> do_reason (dx_outcome x) = DrCommitted"
proof -
  have "has ended_ok l" and "do_reason (dx_outcome x) = DrCommitted"
    using executed(2) [OF assms(1) refl] assms(2) by (simp_all add: accounted_outcome_def)
  then show ?thesis by (auto simp: has_set elim!: ended_ok.elims)
qed

text \<open>
  C5. A deposit whose cash-in was started and that ends cancelled, timed out, declined or failed
  did not take the notes: the device rolled them back and saw them taken, or retracted them, and was
  never told to commit - unless it is the start itself that failed after the cash-in was started.
\<close>

theorem unfinished_deposit_gives_back:
  assumes "execute_deposit env q = (Inr x, l)"
    and "do_status (dx_outcome x) \<in> {DepCancelled, DepTimedOut, DepDeclined, DepFailed}"
    and "has started_ok l" and "do_reason (dx_outcome x) \<noteq> DrStartFailed"
  shows "returned l \<and> \<not> has is_end l"
proof -
  have back': "returned l"
    using executed(2) [OF assms(1) refl] assms(2-4) by (auto simp: accounted_outcome_def)
  then have "has is_rollback l \<or> has is_retract l"
    by (auto simp: returned_def dest: rolled_back_called retracted_called)
  moreover have "\<not> has is_end l"
  proof
    assume "has is_end l"
    then obtain before units after where l: "l = before @ CashInEnd units # after"
      by (auto simp: has_set elim!: is_end.elims dest!: split_list)
    with assms(1) have "execute_deposit env q = (Inr x, before @ CashInEnd units # after)" by simp
    from deposit_ends [OF this] calculation show False by (simp add: l)
  qed
  ultimately show ?thesis using back' by blast
qed

text \<open>
  C20. A deposit returns an outcome whenever it could be opened: if the policy is registered, the
  operation has an identity, the barrier is ready, the transaction could be started and audited, and the
  finalization does not throw, then no failure of the device, the session's store and lease, the
  inventory, the reviews, the host or the transaction's marks makes it throw.
\<close>

theorem deposit_returns:
  assumes "require_deposit_policy (de_policies env) (dq_policyId q) = Inr p"
    and "\<not> blank (dq_operationId q)"
    and "\<And>barrier. de_recover env = Some barrier \<Longrightarrow> barrier [] = Inr BarrierReady"
    and "\<And>l. de_startTransaction env l = Inr ()" and "\<And>l. de_audit env l ''deposit.started'' = Inr ()"
    and "\<And>l out. \<exists>rec. de_finalize env l out = Inr rec"
  shows "\<exists>x l. execute_deposit env q = (Inr x, l) \<and> dx_finalization x \<noteq> None"
proof -
  let ?Q = "\<lambda>r t. \<exists>y. dx_finalization r = Some y"
  have run: "wp (run_and_finalize env q p) ?Q (\<lambda>_ _. False) s" if "quiet_so_far s" for s
  proof -
    have fin: "wp (seq (port (\<lambda>l. de_finalize env l out) (RunFinalization out)) (\<lambda>rec.
        ret \<lparr>dx_outcome = out, dx_finalization = Some rec\<rparr>)) ?Q (\<lambda>_ _. False) t" for out t
      using assms(6) [of "as_log t" out] by (auto simp: wp_funs port_def wp_acc_call)
    show ?thesis
      unfolding run_and_finalize_def wp_seq [of "port _ _"] wp_seq [of "runDepositWorkflow _ _ _"]
      by (intro wp_caller_call, intro wp_weaken [OF wp_workflow, where R = "\<lambda>_ _. False"])
        (use that in \<open>auto simp: quiet_so_far_def assms(4,5) intro: fin [unfolded wp_seq]\<close>)
  qed
  have log: "as_log (initialDepositState q p) = []" by (simp add: initialDepositState_def)
  have "wp (admitted_run env q p) ?Q (\<lambda>_ _. False) (initialDepositState q p)"
  proof (cases "de_recover env")
    case None
    then show ?thesis by (simp add: admitted_run_def run quiet_so_far_def log)
  next
    case (Some barrier)
    then show ?thesis
      using assms(3) [OF Some] by (simp add: admitted_run_def port_def wp_seq [of "acc_call _ _"] wp_acc_call log run quiet_so_far_def)
  qed
  then show ?thesis
    using assms(1,2) by (auto simp: execute_deposit_def wp_def split: prod.splits sum.splits)
qed

section \<open>An example\<close>

definition ex_deposit_policy :: deposit_policy where
  "ex_deposit_policy =
     \<lparr>dy_id = ''deposit'', dy_version = ''1'', dy_logicalService = ''CIM'', dy_resourceGroup = ''cash'',
      dy_maxBatches = 2, dy_reviewGateId = ''review'', dy_acceptancePolicy = ex_acceptance_policy,
      dy_hostProtocol = \<lparr>dp_id = ''host'', dp_version = ''1'', dp_mode = DepositThenCompletion\<rparr>\<rparr>"

definition ex_deposit_request :: deposit_request where
  "ex_deposit_request =
     \<lparr>dq_operationId = ''op'', dq_policyId = ''deposit'', dq_aborted = (\<lambda>_. False), dq_signalReason = None,
      dq_abortError = ''aborted''\<rparr>"

text \<open>The customer confirms the first batch; the host approves or declines.\<close>

definition ex_deposit_env :: "bool \<Rightarrow> deposit_env" where
  "ex_deposit_env approves =
     \<lparr>de_session = ex_acceptance_env,
      de_policies = insert_entry ''deposit'' ex_deposit_policy new_registry,
      de_reviewGates = insert_entry ''review''
        \<lparr>rv_id = ''review'', rv_evaluate = (\<lambda>_ _ _. Inr ReviewConfirm)\<rparr>
        new_registry,
      de_recover = Some (\<lambda>_. Inr BarrierReady), de_startTransaction = (\<lambda>_. Inr ()), de_audit = (\<lambda>_ _. Inr ()),
      de_inventory = (\<lambda>_ b. Inr \<lparr>di_id = ''inv'', di_operationId = ''op'', di_logicalService = ''CIM'',
        di_boundary = b, di_revision = ''1'', di_capturedAt = ''now''\<rparr>),
      de_markEscrow = (\<lambda>_ _. Inr ()), de_resolveRefused = None,
      de_authorizeHost = (\<lambda>_ x. Inr \<lparr>aa_operationId = ''op'', aa_revision = es_revision x,
        aa_snapshotHash = es_hash x, aa_approved = approves, aa_reason = None,
        da_authorizationReference = Some ''ref'', da_reasonCode = None\<rparr>),
      de_markAuthorized = (\<lambda>_ _. Inr ()), de_finalize = (\<lambda>_ _. Inr ''record'')\<rparr>"

definition ex_deposit :: "bool \<Rightarrow> deposit_result" where
  "ex_deposit approves = projr (fst (execute_deposit (ex_deposit_env approves) ex_deposit_request))"

definition ex_deposit_log :: "bool \<Rightarrow> deposit_log" where
  "ex_deposit_log approves = snd (execute_deposit (ex_deposit_env approves) ex_deposit_request)"

lemma ex_run:
  "case execute_deposit (ex_deposit_env True) ex_deposit_request of (r, l) \<Rightarrow>
     \<not> isl r \<and> has is_end l \<and> do_status (dx_outcome (projr r)) = DepCompleted \<and>
     dh_protocolMode (do_host (dx_outcome (projr r))) = DepositThenCompletion \<and>
     dh_status (do_host (dx_outcome (projr r))) = HostApproved \<and>
     ph_committed (do_physical (dx_outcome (projr r))) \<and>
     ph_commit (do_physical (dx_outcome (projr r))) = CommitCompleted"
  "case execute_deposit (ex_deposit_env False) ex_deposit_request of (r, l) \<Rightarrow>
     \<not> isl r \<and> has started_ok l \<and> do_status (dx_outcome (projr r)) = DepDeclined \<and>
     do_reason (dx_outcome (projr r)) \<noteq> DrStartFailed"
  by code_simp+

lemma ex_executed:
  "execute_deposit (ex_deposit_env b) ex_deposit_request = (Inr (ex_deposit b), ex_deposit_log b)"
  using ex_run by (cases b) (auto simp: ex_deposit_def ex_deposit_log_def prod_eq_iff split: prod.splits)

lemma ex_committed: "has is_end (ex_deposit_log True)"
    "do_status (dx_outcome (ex_deposit True)) = DepCompleted"
    "dh_protocolMode (do_host (dx_outcome (ex_deposit True))) = DepositThenCompletion"
    "dh_status (do_host (dx_outcome (ex_deposit True))) = HostApproved"
    "ph_committed (do_physical (dx_outcome (ex_deposit True)))"
    "ph_commit (do_physical (dx_outcome (ex_deposit True))) = CommitCompleted"
  using ex_run(1) by (simp_all add: ex_executed)

lemma ex_declined: "has started_ok (ex_deposit_log False)"
    "do_status (dx_outcome (ex_deposit False)) = DepDeclined"
    "do_reason (dx_outcome (ex_deposit False)) \<noteq> DrStartFailed"
  using ex_run(2) by (simp_all add: ex_executed)

theorem completed_deposit_is_committed_witness:
  "\<exists>units. CashInEnd (Inr units) \<in> set (ex_deposit_log True)"
  using completed_deposit_is_committed [OF ex_executed ex_committed(2)] by blast

theorem unfinished_deposit_gives_back_witness:
  "returned (ex_deposit_log False) \<and> \<not> has is_end (ex_deposit_log False)"
  using unfinished_deposit_gives_back [OF ex_executed _ ex_declined(1,3)] ex_declined(2) by simp

theorem deposit_commits_what_was_authorized_witness:
  "\<exists>before units after x a. ex_deposit_log True = before @ CashInEnd units # after \<and>
     CallerCall (AuthorizeHost x (Inr a)) \<in> set before \<and> aa_approved a"
proof -
  note ex_committed(1)
  then obtain before c after where l: "ex_deposit_log True = before @ c # after" "is_end c"
    by (meson has_set split_list)
  then obtain units where "c = CashInEnd units" by (cases c) auto
  with l ex_executed [of True] have "execute_deposit (ex_deposit_env True) ex_deposit_request =
      (Inr (ex_deposit True), before @ CashInEnd units # after)" by simp
  from deposit_commits_what_was_authorized [OF this] l \<open>c = CashInEnd units\<close> show ?thesis by blast
qed

theorem deposit_returns_witness:
  "\<exists>x l. execute_deposit (ex_deposit_env False) ex_deposit_request = (Inr x, l) \<and> dx_finalization x \<noteq> None"
proof (rule deposit_returns)
  show "require_deposit_policy (de_policies (ex_deposit_env False)) (dq_policyId ex_deposit_request)
      = Inr ex_deposit_policy"
    by (simp add: ex_deposit_env_def ex_deposit_request_def require_deposit_policy_def)
  show "\<not> blank (dq_operationId ex_deposit_request)" by code_simp
qed (auto simp: ex_deposit_env_def)

text \<open>A start that fails after the cash-in was started releases the lease and leaves the cash-in as it is.\<close>

definition ex_lost_evidence :: deposit_env where
  "ex_lost_evidence = (ex_deposit_env True)\<lparr>de_session := ex_acceptance_env
     \<lparr>ae_append := \<lambda>_ event. if event = ''cash-in-started'' then Inl ''journal'' else Inr ()\<rparr>\<rparr>"

lemma failed_start_leaves_cash_in:
  "case execute_deposit ex_lost_evidence ex_deposit_request of (r, l) \<Rightarrow>
     \<not> isl r \<and> do_status (dx_outcome (projr r)) = DepFailed \<and> do_reason (dx_outcome (projr r)) = DrStartFailed \<and>
     has started_ok l \<and> ReleaseLease (Inr ()) \<in> set l \<and> \<not> has is_rollback l \<and> \<not> has is_retract l \<and> \<not> has is_end l"
  by code_simp
end
