(* ===== verification/Deposit_Closing.thy ===== *)
theory Deposit_Closing
  imports Deposit_Properties Finalization_Properties
begin

text \<open>
  How a deposit is closed: the finalizers of
  \<^verbatim>\<open>packages/deposit-orchestration/src/finalizers.ts\<close> registered with a runner of
  operation finalization, what they do, and the order in which they take effect over any number of runs.
\<close>

section \<open>Finalizers\<close>

text \<open>What an operation hands to its finalization: a deposit's outcome, or the result of another flow.\<close>

datatype deposit_operation_result = DepositResult deposit_outcome | OtherDepositResult

record deposit_event =
  dt_data :: deposit_summary
  dt_eventId :: string
  dt_message :: string
  dt_operationId :: string

record 'w deposit_local_ports =
  dl_finish :: "deposit_outcome \<Rightarrow> ('w, thrown, unit) io"
  dl_append :: "deposit_event \<Rightarrow> ('w, thrown, unit) io"
  dl_reset :: "string \<Rightarrow> string \<Rightarrow> ('w, thrown, unit) io"

record deposit_completion =
  dc_operationId :: string
  dc_authorizationReference :: "string option"
  dc_protocol :: deposit_protocol
  dc_outcome :: deposit_outcome

type_synonym 'w deposit_finalizer = "(deposit_operation_result, 'w) finalizer"

definition requireDepositOutcome ::
  "deposit_operation_result finalization_context \<Rightarrow> ('w, thrown, deposit_outcome) io" where
  "requireDepositOutcome ctx =
     (case fc_result ctx of
        Some (DepositResult out) \<Rightarrow> ret out
      | _ \<Rightarrow> raise (plain_error (''Deposit finalization context is invalid: '' @ fc_operationId ctx)))"

definition deposit_transaction_finalizer :: "'w deposit_local_ports \<Rightarrow> 'w deposit_finalizer" where
  "deposit_transaction_finalizer ports =
     \<lparr>fz_id = ''deposit.transaction.finalize'', fz_version = ''1'', fz_after = None,
      fz_execute = (\<lambda>ctx. seq (requireDepositOutcome ctx) (dl_finish ports))\<rparr>"

definition deposit_audit_finalizer :: "'w deposit_local_ports \<Rightarrow> 'w deposit_finalizer" where
  "deposit_audit_finalizer ports =
     \<lparr>fz_id = ''deposit.audit.finalize'', fz_version = ''1'',
      fz_after = Some [''deposit.transaction.finalize''],
      fz_execute = (\<lambda>ctx. seq (requireDepositOutcome ctx) (\<lambda>out.
        dl_append ports
          \<lparr>dt_data = do_safeSummary out, dt_eventId = ''deposit.terminal'',
           dt_message = ''Deposit reached a terminal application outcome'',
           dt_operationId = do_operationId out\<rparr>))\<rparr>"

definition deposit_scope_finalizer :: "'w deposit_local_ports \<Rightarrow> 'w deposit_finalizer" where
  "deposit_scope_finalizer ports =
     \<lparr>fz_id = ''deposit.scope.reset'', fz_version = ''1'',
      fz_after = Some [''deposit.audit.finalize''],
      fz_execute = (\<lambda>ctx. seq (requireDepositOutcome ctx) (\<lambda>out.
        dl_reset ports (do_operationId out) ''deposit.operation.finalization''))\<rparr>"

definition registerDepositLocalFinalizers ::
  "'w deposit_local_ports \<Rightarrow> 'w deposit_finalizer registry \<Rightarrow> string + 'w deposit_finalizer registry" where
  "registerDepositLocalFinalizers ports r =
     rbind (register_finalizer (deposit_transaction_finalizer ports) r) (\<lambda>r.
     rbind (register_finalizer (deposit_audit_finalizer ports) r) (\<lambda>r.
     register_finalizer (deposit_scope_finalizer ports) r))"

definition deposit_completion_of :: "deposit_outcome \<Rightarrow> deposit_completion" where
  "deposit_completion_of out =
     \<lparr>dc_operationId = do_operationId out,
      dc_authorizationReference = non_empty (dh_authorizationReference (do_host out)),
      dc_protocol = \<lparr>dp_id = dh_protocolId (do_host out), dp_version = dh_protocolVersion (do_host out),
        dp_mode = dh_protocolMode (do_host out)\<rparr>,
      dc_outcome = out\<rparr>"

definition createDepositHostFinancialCompletionFinalizer ::
  "(deposit_completion \<Rightarrow> ('w, thrown, unit) io) option \<Rightarrow> 'w deposit_finalizer" where
  "createDepositHostFinancialCompletionFinalizer complete =
     \<lparr>fz_id = ''project.host.deposit-financial-completion'', fz_version = ''1'',
      fz_after = Some [''deposit.scope.reset''],
      fz_execute = (\<lambda>ctx. seq (requireDepositOutcome ctx) (\<lambda>out.
        if dh_protocolMode (do_host out) \<noteq> DepositThenCompletion then ret ()
        else if dh_status (do_host out) \<noteq> HostApproved then ret ()
        else if \<not> ph_committed (do_physical out) \<or> ph_commit (do_physical out) \<noteq> CommitCompleted then ret ()
        else
          (case complete of
             None \<Rightarrow> raise (plain_error ''Deposit Host Financial Completion port is not configured'')
           | Some send \<Rightarrow> send (deposit_completion_of out))))\<rparr>"

definition deposit_registry ::
  "'w deposit_local_ports \<Rightarrow> (deposit_completion \<Rightarrow> ('w, thrown, unit) io) option \<Rightarrow> 'w deposit_finalizer list
     \<Rightarrow> string + 'w deposit_finalizer registry" where
  "deposit_registry ports complete others =
     rbind (registerDepositLocalFinalizers ports new_registry) (\<lambda>r.
     register_all register_finalizer (createDepositHostFinancialCompletionFinalizer complete # others) r)"

lemma deposit_registry_all:
  "deposit_registry ports complete others =
     register_all register_finalizer
       ([deposit_transaction_finalizer ports, deposit_audit_finalizer ports, deposit_scope_finalizer ports,
         createDepositHostFinancialCompletionFinalizer complete] @ others) new_registry"
  by (simp add: deposit_registry_def registerDepositLocalFinalizers_def rbind_def split: sum.split)

lemma deposit_finalizer_fields [simp]:
  "fz_id (deposit_transaction_finalizer ports) = ''deposit.transaction.finalize''"
  "fz_id (deposit_audit_finalizer ports) = ''deposit.audit.finalize''"
  "fz_id (deposit_scope_finalizer ports) = ''deposit.scope.reset''"
  "fz_id (createDepositHostFinancialCompletionFinalizer complete) = ''project.host.deposit-financial-completion''"
  "dependencies (deposit_transaction_finalizer ports) = []"
  "dependencies (deposit_audit_finalizer ports) = [''deposit.transaction.finalize'']"
  "dependencies (deposit_scope_finalizer ports) = [''deposit.audit.finalize'']"
  "dependencies (createDepositHostFinancialCompletionFinalizer complete) = [''deposit.scope.reset'']"
  by (simp_all add: deposit_transaction_finalizer_def deposit_audit_finalizer_def deposit_scope_finalizer_def
      createDepositHostFinancialCompletionFinalizer_def dependencies_def)

lemma deposit_order:
  assumes "deposit_registry ports complete others = Inr reg"
    and "fst (new_runner reg memory_store now project) = Inr rn" and "reachable_run rn s"
    and "rs_calls s = before @ (op, fz_id (createDepositHostFinancialCompletionFinalizer complete), ok) # after"
  shows "\<forall>f \<in> {deposit_transaction_finalizer ports, deposit_audit_finalizer ports, deposit_scope_finalizer ports}.
    (op, fz_id f, True) \<in> set before"
proof -
  note reg = assms(1) [unfolded deposit_registry_all]
  note b = built_runner [OF reg assms(2)]
  let ?chain = "[createDepositHostFinancialCompletionFinalizer complete, deposit_scope_finalizer ports,
    deposit_audit_finalizer ports, deposit_transaction_finalizer ports]"
  have chain: "linked (rn_plan rn) ?chain" by (simp add: b(3))
  have "orderly (rn_plan rn) (rs_calls s)"
    using memory.reachable_accounted [OF assms(3) b(2,1)] by (simp add: accounted_def accounted_but_def)
  from chain_before [OF this assms(4) chain] show ?thesis by simp
qed

section \<open>A deposit that is committed\<close>

text \<open>Steps that leave the physical facts alone and only add to the log.\<close>

definition apart :: "deposit_state \<Rightarrow> deposit_state \<Rightarrow> bool" where
  "apart s t \<longleftrightarrow> ds_physical t = ds_physical s \<and> (has ended_ok (as_log s) \<longrightarrow> has ended_ok (as_log t))"

interpretation apart: state_frame apart
  by unfold_locales (auto simp: apart_def)

lemma apart_call: "stays apart (acc_call f c)"
  by (simp add: apart.stays_iff wp_acc_call apart_def split: sum.split)

lemma apart_change:
  "(\<And>s. ds_physical (f s) = ds_physical s \<and> as_log (f s) = as_log s) \<Longrightarrow> stays apart (change f)"
  by (simp add: apart.stays_iff wp_change apart_def)

lemma apart_finally: "stays apart m \<Longrightarrow> stays apart n \<Longrightarrow> stays apart (finally_do m n)"
  by (subst apart.stays_iff) (auto simp: wp_finally_do intro!: apart.stays_wp [where m = m] apart.stays_after)

lemma apart_cases:
  "stays apart m \<Longrightarrow> (\<And>y. stays apart (f y)) \<Longrightarrow> stays apart (case x of None \<Rightarrow> m | Some y \<Rightarrow> f y)"
  "stays apart m \<Longrightarrow> stays apart n \<Longrightarrow> stays apart (if b then m else n)"
  "(\<And>y z. stays apart (g y z)) \<Longrightarrow> stays apart (case u of (y, z) \<Rightarrow> g y z)"
  by (simp_all split: option.split prod.split)

lemma apart_result: "stays apart (of_result r)"
  by (cases r) (simp_all add: of_result_def apart.stays_rules)

lemmas apart_rules = apart.stays_rules apart_call apart_finally apart_cases apart_result

lemma apart_steps:
  "stays apart (add_evidence env ev)" "stays apart (update_record env f)" "stays apart (release_lease env)"
  "stays apart (assert_phase ps)" "stays apart requireSnapshot" "stays apart (throwIfAborted q)"
  "stays apart (session_result se reason b custody d)"
  unfolding add_evidence_def update_record_def release_lease_def assert_phase_def requireSnapshot_def
    throwIfAborted_def session_result_def
  by (intro apart_rules apart_change; simp)+

lemma apart_phases: "stays apart (enter_phase env phase event)" "stays apart (fail_with env reason)"
  unfolding enter_phase_def fail_with_def by (intro apart_rules apart_steps)+

lemma apart_start: "stays apart (start_acceptance env q)"
  unfolding start_acceptance_def begin_cash_in_def releasing_def
  by (intro apart_rules apart_steps apart_change; simp)

lemma apart_acceptBatch: "stays apart (acceptBatch env se)"
  unfolding acceptBatch_def take_batch_def when_application_def
  by (intro apart_rules apart_steps apart_phases apart_change; simp)

lemma apart_authorize:
  "(\<And>x. stays apart (authorizer x)) \<Longrightarrow> stays apart (authorize env se authorizer)"
  unfolding authorize_def by (intro apart_rules apart_steps apart_phases)

lemma apart_abort: "stays apart (abort_acceptance env se reason)"
  unfolding abort_acceptance_def roll_back_def by (intro apart_rules apart_steps apart_phases)

lemma apart_commit: "stays apart (commit env se a)"
  unfolding commit_def Let_def by (intro apart_rules apart_steps)

lemma wp_skip: "(\<And>x t. wp (f x) Q (\<lambda>_ _. True) t) \<Longrightarrow> wp (seq m f) Q (\<lambda>_ _. True) s"
  by (simp add: wp_seq wp_def [of m] split: prod.split sum.split)

lemma wp_commit_ended: "wp (commit env se a) (\<lambda>_ t. has ended_ok (as_log t)) (\<lambda>_ _. True) (s :: deposit_state)"
proof -
  let ?rest = "\<lambda>units. seq (acc_call (ae_captureUnits env) CaptureUnits) (\<lambda>inventoryAfter.
     let destination = calculateCashUnitDestinationEvidence (an_inventoryBefore se) inventoryAfter units in
     seq (add_evidence env ''cash-unit-destination-evidence'') (\<lambda>_.
     seq (update_record env (\<lambda>r. r\<lparr>ar_phase := AccCompleted, ar_terminalReason := Some ReCommitted\<rparr>)) (\<lambda>_.
     seq (release_lease env) (\<lambda>_.
     session_result se ReCommitted True InCashUnit (Some destination)))))"
  have rest: "stays apart (?rest units)" for units
    unfolding Let_def by (intro apart_rules apart_steps)
  have "wp (seq (acc_call (ae_cashInEnd env) CashInEnd) ?rest) (\<lambda>_ t. has ended_ok (as_log t)) (\<lambda>_ _. True) t"
      for t :: deposit_state
    unfolding wp_seq [of "acc_call (ae_cashInEnd _) _"] wp_acc_call
    by (auto intro!: apart.stays_wp [OF rest [unfolded Let_def]] simp: apart_def split: sum.split)
  then show ?thesis unfolding commit_def
    by - (rule wp_skip, rule wp_skip, rule wp_skip, rule wp_skip, rule wp_skip, rule wp_skip)
qed

lemma wp_abort_not_committed:
  "wp (abort_acceptance env se reason) (\<lambda>r _. \<not> rs_committed r) (\<lambda>_ _. True) (s :: deposit_state)"
  unfolding abort_acceptance_def roll_back_def session_result_def
  by (intro wp_skip) (auto simp: wp_ask intro!: wp_skip)

text \<open>Every outcome that says the deposit was committed has the device's answer behind it.\<close>

definition honest :: "deposit_state \<Rightarrow> bool" where
  "honest s \<longleftrightarrow> (ph_committed (ds_physical s) \<longrightarrow> has ended_ok (as_log s))"

definition vouched :: "deposit_outcome \<Rightarrow> deposit_state \<Rightarrow> bool" where
  "vouched out s \<longleftrightarrow> (ph_committed (do_physical out) \<longrightarrow> has ended_ok (as_log s))"

text \<open>A computation whose result may hold an outcome.\<close>

definition tells :: "('a \<Rightarrow> deposit_outcome option) \<Rightarrow> 'a deposit_io \<Rightarrow> bool" where
  "tells tale m \<longleftrightarrow>
     (\<forall>s. honest s \<longrightarrow> wp m (\<lambda>x t. honest t \<and> (\<forall>out. tale x = Some out \<longrightarrow> vouched out t)) (\<lambda>_. honest) s)"

abbreviation no_outcome :: "'a \<Rightarrow> deposit_outcome option" where
  "no_outcome \<equiv> \<lambda>_. None"

lemma tells_apart: "stays apart m \<Longrightarrow> (\<And>x. tale x = None) \<Longrightarrow> tells tale m"
  by (auto simp: tells_def honest_def apart_def intro!: apart.stays_wp)

lemma tells_ret: "tale x = None \<Longrightarrow> tells tale (ret x)"
  and tells_raise: "tells tale (raise e)"
  and tells_outcome: "tells Some (outcome q p st re tr)"
  and tells_ask: "tells no_outcome (ask f)"
  by (simp_all add: tells_def wp_simps outcome_def vouched_def honest_def buildDepositOutcome_def Let_def)

lemma tells_seq:
  assumes "tells no_outcome m" and "\<And>x. tells tale (f x)"
  shows "tells tale (seq m f)"
  unfolding tells_def wp_seq
proof (intro allI impI)
  fix s assume "honest s"
  with assms(1) have "wp m (\<lambda>_. honest) (\<lambda>_. honest) s" by (simp add: tells_def)
  then show "wp m (\<lambda>x. wp (f x) (\<lambda>x t. honest t \<and> (\<forall>out. tale x = Some out \<longrightarrow> vouched out t)) (\<lambda>_. honest))
      (\<lambda>_. honest) s"
    by (rule wp_weaken) (use assms(2) in \<open>auto simp: tells_def\<close>)
qed

text \<open>The outcome is passed on, or there is none yet.\<close>

lemma tells_pass:
  assumes "tells tale m" and "\<And>x. tale x = None \<Longrightarrow> tells tale' (f x)"
    and "\<And>x out. tale x = Some out \<Longrightarrow> \<exists>y. f x = ret y \<and> tale' y = Some out"
  shows "tells tale' (seq m f)"
  unfolding tells_def wp_seq
proof (intro allI impI)
  fix s assume "honest s"
  with assms(1) have "wp m (\<lambda>x t. honest t \<and> (\<forall>out. tale x = Some out \<longrightarrow> vouched out t)) (\<lambda>_. honest) s"
    by (simp add: tells_def)
  then show "wp m (\<lambda>x. wp (f x) (\<lambda>x t. honest t \<and> (\<forall>out. tale' x = Some out \<longrightarrow> vouched out t)) (\<lambda>_. honest))
      (\<lambda>_. honest) s"
  proof (rule wp_weaken)
    fix x t assume x: "honest t \<and> (\<forall>out. tale x = Some out \<longrightarrow> vouched out t)"
    show "wp (f x) (\<lambda>x t. honest t \<and> (\<forall>out. tale' x = Some out \<longrightarrow> vouched out t)) (\<lambda>_. honest) t"
    proof (cases "tale x")
      case None
      then show ?thesis using assms(2) [OF None] x by (simp add: tells_def)
    next
      case (Some out)
      then show ?thesis using assms(3) [OF Some] x by (auto simp: wp_ret)
    qed
  qed
qed

lemma tells_wrap: "tells Some m \<Longrightarrow> (\<And>out. tale (g out) = Some out) \<Longrightarrow> tells tale (seq m (\<lambda>out. ret (g out)))"
  by (rule tells_pass) auto

lemma tells_handle:
  assumes "tells tale m" and "\<And>e. tells tale (h e)"
  shows "tells tale (handle m h)"
  unfolding tells_def wp_handle
proof (intro allI impI)
  fix s assume "honest s"
  with assms(1) have "wp m (\<lambda>x t. honest t \<and> (\<forall>out. tale x = Some out \<longrightarrow> vouched out t)) (\<lambda>_. honest) s"
    by (simp add: tells_def)
  then show "wp m (\<lambda>x t. honest t \<and> (\<forall>out. tale x = Some out \<longrightarrow> vouched out t))
      (\<lambda>e. wp (h e) (\<lambda>x t. honest t \<and> (\<forall>out. tale x = Some out \<longrightarrow> vouched out t)) (\<lambda>_. honest)) s"
    by (rule wp_weaken) (use assms(2) in \<open>auto simp: tells_def\<close>)
qed

lemma tells_cases:
  "tells tale m \<Longrightarrow> (\<And>y. tells tale (f y)) \<Longrightarrow> tells tale (case x of None \<Rightarrow> m | Some y \<Rightarrow> f y)"
  "tells tale m \<Longrightarrow> tells tale n \<Longrightarrow> tells tale (if b then m else n)"
  by (simp_all split: option.split)

lemma tells_optional: "stays apart m \<Longrightarrow> tells no_outcome (optional m)"
  unfolding optional_def by (intro tells_apart apart_rules) simp_all

text \<open>Every step of the workflow.\<close>

lemma apart_port: "stays apart (port f c)"
  unfolding port_def by (rule apart_call)

lemma apart_optional: "stays apart m \<Longrightarrow> stays apart (optional m)"
  unfolding optional_def by (intro apart_rules)

lemma tells_change:
  "(\<And>s. honest s \<Longrightarrow> honest (f s)) \<Longrightarrow> (\<And>x. tale x = None) \<Longrightarrow> tells tale (change f)"
  by (simp add: tells_def wp_change)

lemmas tells_rules = tells_ret tells_raise tells_outcome tells_ask tells_seq tells_handle tells_cases
  tells_optional tells_change

lemma honest_physical [simp]:
  "honest (recordInventory i s) = honest s" "honest (recordAfterInventoryFailure s) = honest s"
  "honest (abort_failed s) = honest s" "honest (commit_lost s) = honest s"
  "honest (observeEscrow x s) = honest s" "honest (recordRefusedResolution n m s) = honest s"
  "honest (host_answered a s) = honest s" "honest (host_unavailable s) = honest s"
  by (simp_all add: honest_def recordInventory_def recordAfterInventoryFailure_def abort_failed_def commit_lost_def
      observeEscrow_def recordRefusedResolution_def host_answered_def host_unavailable_def)

lemma tells_capture: "tells no_outcome (captureBefore env)" "tells no_outcome (captureAfter env)"
  unfolding captureBefore_def captureAfter_def captureInventory_def
  by (intro tells_rules apart_port; simp)+

lemma tells_abort_session: "tells no_outcome (abort_session env se reason)"
proof -
  let ?m = "abort_acceptance (de_session env) se reason"
  have "wp ?m (\<lambda>r t. honest (applyAcceptanceResult r t)) (\<lambda>_ t. honest (abort_failed t)) s" if "honest s" for s
    by (rule wp_weaken [OF stays_conj [OF apart_abort wp_abort_not_committed]])
      (use that in \<open>auto simp: honest_def apart_def applyAcceptanceResult_def abort_failed_def\<close>)
  then show ?thesis
    unfolding tells_def abort_session_def wp_seq
    by (intro allI impI wp_optional) (simp add: wp_funs del: honest_physical)
qed

lemma tells_ending:
  "tells Some (abort_with env q p se ab st re tr)" "tells Some (abortUnexpected env q p se)"
  "tells Some (interruptedOutcome q p)" "tells Some (abortAfterAuthorizationFailure env q p se)"
  unfolding abortUnexpected_def abort_with_def interruptedOutcome_def abortAfterAuthorizationFailure_def
  by (intro tells_seq [OF tells_abort_session] tells_seq [OF tells_capture(2)] tells_seq [OF tells_ask] tells_rules)+

lemma tells_commit: "tells Some (commit_deposit env q p se a)"
proof -
  let ?m = "commit (de_session env) se a"
  let ?d = "\<lambda>s :: deposit_state. s\<lparr>ds_physical := (ds_physical s)\<lparr>ph_commit := CommitDispatched\<rparr>\<rparr>"
  let ?Q = "\<lambda>x t. honest t \<and> (\<forall>out. Some x = Some out \<longrightarrow> vouched out t)"
  have lost: "wp (abort_with env q p se AbortCancelled DepIntervention DrCommitUnknown (Some DepInterrupt)) ?Q
      (\<lambda>_. honest) (commit_lost t)" if "honest t" for t
    using tells_ending(1) [of env q p se AbortCancelled DepIntervention DrCommitUnknown "Some DepInterrupt"] that
    by (auto simp: tells_def)
  have "tells Some (seq (captureAfter env) (\<lambda>_.
         seq (ask (\<lambda>s. dv_afterCaptureFailed (ds_inventory s))) (\<lambda>failed.
         if failed then outcome q p DepIntervention DrInventoryAfterFailed None
         else outcome q p DepCompleted DrCommitted None)))"
    by (intro tells_seq [OF tells_capture(2)] tells_seq [OF tells_ask] tells_rules)
  then have finish: "wp (seq (captureAfter env) (\<lambda>_.
         seq (ask (\<lambda>s. dv_afterCaptureFailed (ds_inventory s))) (\<lambda>failed.
         if failed then outcome q p DepIntervention DrInventoryAfterFailed None
         else outcome q p DepCompleted DrCommitted None))) ?Q (\<lambda>_. honest) t" if "honest t" for t
    using that by (simp add: tells_def)
  have "wp (optional ?m) (\<lambda>result. wp
      (case result of
         None \<Rightarrow> seq (change commit_lost) (\<lambda>_.
           abort_with env q p se AbortCancelled DepIntervention DrCommitUnknown (Some DepInterrupt))
       | Some r \<Rightarrow> seq (change (applyAcceptanceResult r)) (\<lambda>_. seq (captureAfter env) (\<lambda>_.
           seq (ask (\<lambda>s. dv_afterCaptureFailed (ds_inventory s))) (\<lambda>failed.
           if failed then outcome q p DepIntervention DrInventoryAfterFailed None
           else outcome q p DepCompleted DrCommitted None)))) ?Q (\<lambda>_. honest)) (\<lambda>_. honest) (?d s)"
    if s: "honest s" for s
  proof (rule wp_optional, rule wp_weaken [OF stays_conj [OF apart_commit wp_commit_ended]])
    fix r t assume "has ended_ok (as_log t) \<and> apart (?d s) t"
    then have "honest (applyAcceptanceResult r t)" by (simp add: honest_def applyAcceptanceResult_def)
    then show "wp (case Some r of
         None \<Rightarrow> seq (change commit_lost) (\<lambda>_.
           abort_with env q p se AbortCancelled DepIntervention DrCommitUnknown (Some DepInterrupt))
       | Some r \<Rightarrow> seq (change (applyAcceptanceResult r)) (\<lambda>_. seq (captureAfter env) (\<lambda>_.
           seq (ask (\<lambda>s. dv_afterCaptureFailed (ds_inventory s))) (\<lambda>failed.
           if failed then outcome q p DepIntervention DrInventoryAfterFailed None
           else outcome q p DepCompleted DrCommitted None)))) ?Q (\<lambda>_. honest) t"
      using finish by (simp add: wp_seq [of "change _"] wp_change)
  next
    fix e t assume "True \<and> apart (?d s) t"
    then have "honest t" using s by (simp add: honest_def apart_def)
    then show "wp (case None of
         None \<Rightarrow> seq (change commit_lost) (\<lambda>_.
           abort_with env q p se AbortCancelled DepIntervention DrCommitUnknown (Some DepInterrupt))
       | Some r \<Rightarrow> seq (change (applyAcceptanceResult r)) (\<lambda>_. seq (captureAfter env) (\<lambda>_.
           seq (ask (\<lambda>s. dv_afterCaptureFailed (ds_inventory s))) (\<lambda>failed.
           if failed then outcome q p DepIntervention DrInventoryAfterFailed None
           else outcome q p DepCompleted DrCommitted None)))) ?Q (\<lambda>_. honest) t"
      using lost by (simp add: wp_seq [of "change _"] wp_change)
  qed
  then show ?thesis
    by (simp add: tells_def commit_deposit_def wp_seq [of "change _"] wp_change wp_seq [of "optional _"])
qed

lemma tells_authorize: "tells no_outcome (optional (authorize (de_session env) se (authorizeHost env)))"
  unfolding authorizeHost_def
  by (intro tells_optional apart_authorize apart_rules apart_port apart_change)
    (simp_all add: host_answered_def host_unavailable_def)

lemma tells_authorizeAndCommit: "tells Some (authorizeAndCommit env q p se)"
  unfolding authorizeAndCommit_def
  by (intro tells_seq [OF tells_authorize] tells_seq [OF tells_optional] tells_cases tells_ending tells_commit
      apart_rules apart_port)

lemma tells_persist: "tells id (persistEscrowAndResolveRefused env q p se x)"
proof -
  have resolve: "tells no_outcome (resolve_refused env n)" for n
    unfolding resolve_refused_def Let_def by (intro tells_apart apart_rules apart_port) simp
  show ?thesis
    unfolding persistEscrowAndResolveRefused_def
    by (intro tells_seq [OF tells_ask] tells_seq [OF tells_change] tells_seq [OF tells_optional] tells_seq [OF resolve]
        tells_cases tells_wrap tells_ending tells_ret apart_port) simp_all
qed

fun ended_review :: "review_result \<Rightarrow> deposit_outcome option" where
  "ended_review (ReviewEnded out) = Some out" | "ended_review _ = None"

lemma tells_review: "tells ended_review (evaluateReview env q p se x batch)"
proof -
  have "stays apart (evaluate_gate env i batch x)" for i
    unfolding evaluate_gate_def by (intro apart_rules apart_port)
  then show ?thesis
    unfolding evaluateReview_def Let_def
    by (intro tells_seq [OF tells_optional] tells_cases tells_wrap tells_ending tells_ret) simp_all
qed

lemma tells_collect: "tells id (collect_batches env q p se batch left)"
proof (induction "left" arbitrary: batch)
  case 0
  then show ?case by (simp add: tells_raise)
next
  case (Suc left)
  have review: "tells id (seq (evaluateReview env q p se x batch) (\<lambda>review. case review of
      ReviewAcceptMore \<Rightarrow> collect_batches env q p se (batch + 1) left
    | ReviewEnded out \<Rightarrow> ret (Some out) | ReviewPassed \<Rightarrow> ret None))" for x
    by (rule tells_pass [OF tells_review])
      (auto simp: Suc.IH tells_ret split: review_result.split elim!: ended_review.elims)
  have batch: "tells id (seq (persistEscrowAndResolveRefused env q p se x) (\<lambda>refused. case refused of
      Some out \<Rightarrow> ret (Some out) | None \<Rightarrow> seq (evaluateReview env q p se x batch) (\<lambda>review. case review of
        ReviewAcceptMore \<Rightarrow> collect_batches env q p se (batch + 1) left
      | ReviewEnded out \<Rightarrow> ret (Some out) | ReviewPassed \<Rightarrow> ret None)))" for x
    by (rule tells_pass [OF tells_persist]) (auto simp: review)
  show ?case
    by (simp only: collect_batches.simps)
      (intro tells_seq [OF tells_ask] tells_seq [OF tells_abort_session] tells_seq [OF tells_capture(2)]
        tells_seq [OF tells_optional] tells_cases tells_wrap tells_ending batch apart_acceptBatch; simp)
qed

lemma tells_with_session: "tells Some (with_session env q p se)"
  unfolding with_session_def collectAndReview_def
  by (intro tells_handle tells_ending tells_pass [OF tells_collect]) (auto simp: tells_authorizeAndCommit)

lemma tells_workflow: "tells Some (runDepositWorkflow env q p)"
  unfolding runDepositWorkflow_def startSession_def
  by (intro tells_seq [OF tells_capture(1)] tells_seq [OF tells_capture(2)] tells_seq [OF tells_ask]
      tells_seq [OF tells_optional] tells_cases tells_outcome tells_ending tells_with_session apart_start)

lemma tells_port: "tells no_outcome (port f c)"
  by (intro tells_apart apart_port) simp

lemma tells_run: "tells (\<lambda>x. Some (dx_outcome x)) (admitted_run env q p)"
proof -
  let ?told = "\<lambda>x. Some (dx_outcome x)"
  have fin: "tells ?told (run_and_finalize env q p)"
  proof -
    have "tells ?told (seq (runDepositWorkflow env q p) (\<lambda>out.
        seq (port (\<lambda>l. de_finalize env l out) (RunFinalization out)) (\<lambda>record.
        ret \<lparr>dx_outcome = out, dx_finalization = Some record\<rparr>)))"
      unfolding tells_def wp_seq [of "runDepositWorkflow _ _ _"]
    proof (intro allI impI)
      fix s assume "honest s"
      then have "wp (runDepositWorkflow env q p) (\<lambda>out t. honest t \<and> vouched out t) (\<lambda>_. honest) s"
        using tells_workflow [of env q p] by (simp add: tells_def)
      then show "wp (runDepositWorkflow env q p) (\<lambda>x. wp (seq (port (\<lambda>l. de_finalize env l x) (RunFinalization x))
          (\<lambda>record. ret \<lparr>dx_outcome = x, dx_finalization = Some record\<rparr>))
          (\<lambda>x t. honest t \<and> (\<forall>out. ?told x = Some out \<longrightarrow> vouched out t)) (\<lambda>_. honest)) (\<lambda>_. honest) s"
        by (rule wp_weaken) (auto simp: wp_seq port_def wp_acc_call wp_ret honest_def vouched_def split: sum.split)
    qed
    then show ?thesis
      unfolding run_and_finalize_def by (intro tells_seq [OF tells_port])
  qed
  have blocked: "tells ?told (seq (outcome q p st re tr) (\<lambda>out. ret \<lparr>dx_outcome = out, dx_finalization = None\<rparr>))"
    for st re tr by (intro tells_wrap tells_outcome) simp
  show ?thesis
    unfolding admitted_run_def
    by (intro tells_cases tells_seq [OF tells_port] fin blocked)
qed

lemma committed_outcome:
  assumes "execute_deposit env q = (Inr x, l)" and "ph_committed (do_physical (dx_outcome x))"
  shows "has ended_ok l"
proof -
  from assms(1) obtain p t where t: "admitted_run env q p (initialDepositState q p) = (Inr x, t)" "l = as_log t"
    by (auto simp: execute_deposit_def split: sum.splits if_splits prod.splits)
  have "honest (initialDepositState q p)" by (simp add: honest_def initialDepositState_def)
  then have "vouched (dx_outcome x) t"
    using tells_run [of env q p] t(1) by (auto simp: tells_def wp_def)
  then show ?thesis using assms(2) t(2) by (simp add: vouched_def)
qed

section \<open>The completion at the host\<close>

text \<open>
  C6. The host is asked to complete a deposit financially only when its device committed the notes
  and the host had approved them: whatever the finalizer of an executed deposit does other than to
  return at once, the deposit's log has the device's answer to the command to commit, and before it
  the host's approval, with which the transaction was marked.
\<close>

theorem deposit_completion_follows_commit:
  assumes "execute_deposit env q = (Inr x, l)"
    and "fc_result ctx = Some (DepositResult (dx_outcome x))"
    and "fz_execute (createDepositHostFinancialCompletionFinalizer complete) ctx w \<noteq> (Inr (), w)"
  shows "\<exists>before units after e a. l = before @ CashInEnd units # after \<and> has ended_ok l \<and>
    CallerCall (AuthorizeHost e (Inr a)) \<in> set before \<and> CallerCall (MarkAuthorized a (Inr ())) \<in> set before \<and>
    aa_approved a \<and> dh_status (do_host (dx_outcome x)) = HostApproved"
proof -
  have sent: "ph_committed (do_physical (dx_outcome x))" "dh_status (do_host (dx_outcome x)) = HostApproved"
    using assms(2,3)
    by (auto simp: createDepositHostFinancialCompletionFinalizer_def requireDepositOutcome_def seq_def ret_def
        split: if_splits)
  have ended: "has ended_ok l" by (rule committed_outcome [OF assms(1) sent(1)])
  obtain before units after stored where "l = before @ CashInEnd units # after" "deposit_permit before stored"
    using commit_permitted [OF assms(1) ended_called [OF ended]] by metis
  with sent(2) ended show ?thesis unfolding deposit_permit_def by blast
qed

section \<open>An example\<close>

text \<open>The world of the finalizers is the list of what they did; the deposit is the approved example.\<close>

definition ex_deposit_complete :: "(deposit_completion \<Rightarrow> (string list, thrown, unit) io) option" where
  "ex_deposit_complete = Some (\<lambda>_ w. (Inr (), w @ [''complete'']))"

definition ex_deposit_context :: "deposit_operation_result finalization_context" where
  "ex_deposit_context =
     \<lparr>fc_operationId = ''op'', fc_flowId = None, fc_result = Some (DepositResult (dx_outcome (ex_deposit True))),
      fc_error = None, fc_metadata = None\<rparr>"

theorem deposit_completion_follows_commit_witness:
  "fz_execute (createDepositHostFinancialCompletionFinalizer ex_deposit_complete) ex_deposit_context []
     = (Inr (), [''complete'']) \<and> has ended_ok (ex_deposit_log True)"
proof -
  have sent: "fz_execute (createDepositHostFinancialCompletionFinalizer ex_deposit_complete) ex_deposit_context []
     = (Inr (), [''complete''])"
    by (simp add: createDepositHostFinancialCompletionFinalizer_def requireDepositOutcome_def ex_deposit_context_def
        ex_deposit_complete_def seq_def ret_def ex_committed deposit_completion_of_def)
  then have "fz_execute (createDepositHostFinancialCompletionFinalizer ex_deposit_complete) ex_deposit_context []
     \<noteq> (Inr (), [])" by simp
  from deposit_completion_follows_commit [OF ex_executed _ this] sent show ?thesis
    by (auto simp: ex_deposit_context_def)
qed

end
