(* ===== verification/Extension_Registry.thy ===== *)
theory Extension_Registry
  imports Registry "HOL-Library.Multiset"
begin

text \<open>
  The registry of extensions: \<^verbatim>\<open>packages/device-core/src/extension-registry.ts\<close>, which
  the flow engine keeps its node executors, effect runners and policies in. One id may have
  several registrations; the one of the highest priority, and of those the earliest, is used.
\<close>

datatype duplicate_policy = DupReject | DupReplace | DupIgnore | DupChain

record 'a extension =
  ex_id :: string
  ex_version :: "string option"
  ex_owner :: "string option"
  ex_priority :: "int option"
  ex_duplicatePolicy :: "duplicate_policy option"
  ex_value :: 'a

type_synonym 'a extensions = "(string \<times> 'a extension list) list"

text \<open>\<^verbatim>\<open>normalizeRegistration\<close>: a priority that is not given is zero.\<close>

definition priority_of :: "'a extension \<Rightarrow> int" where
  "priority_of x = (case ex_priority x of None \<Rightarrow> 0 | Some p \<Rightarrow> p)"

definition normalizeRegistration :: "'a extension \<Rightarrow> 'a extension" where
  "normalizeRegistration x = x\<lparr>ex_priority := Some (priority_of x)\<rparr>"

definition registrations :: "'a extensions \<Rightarrow> string \<Rightarrow> 'a extension list" where
  "registrations r k = (case map_of r k of None \<Rightarrow> [] | Some xs \<Rightarrow> xs)"

definition by_priority :: "'a extension list \<Rightarrow> 'a extension list" where
  "by_priority = sort_key (\<lambda>x. - priority_of x)"

definition register_extension :: "'a extension \<Rightarrow> 'a extensions \<Rightarrow> string + 'a extensions" where
  "register_extension x r =
     (let n = normalizeRegistration x; existing = registrations r (ex_id n);
          chained = Inr (put (ex_id n) (by_priority (existing @ [n])) r) in
      if existing = [] then chained
      else (case ex_duplicatePolicy n of
              None \<Rightarrow> Inl ''extension.duplicate''
            | Some DupReject \<Rightarrow> Inl ''extension.duplicate''
            | Some DupIgnore \<Rightarrow> Inr r
            | Some DupReplace \<Rightarrow> Inr (put (ex_id n) [n] r)
            | Some DupChain \<Rightarrow> chained))"

definition get_extension :: "'a extensions \<Rightarrow> string \<Rightarrow> 'a option" where
  "get_extension r k = (case registrations r k of [] \<Rightarrow> None | x # _ \<Rightarrow> Some (ex_value x))"

definition require_extension :: "'a extensions \<Rightarrow> string \<Rightarrow> string + 'a" where
  "require_extension r k = (case get_extension r k of None \<Rightarrow> Inl ''extension.missing'' | Some v \<Rightarrow> Inr v)"

definition has_extension :: "'a extensions \<Rightarrow> string \<Rightarrow> bool" where
  "has_extension r k \<longleftrightarrow> k \<in> fst ` set r"

definition list_extensions :: "'a extensions \<Rightarrow> 'a extension list" where
  "list_extensions r = concat (map snd r)"

definition listByOwner :: "string \<Rightarrow> 'a extensions \<Rightarrow> 'a extension list" where
  "listByOwner owner r = filter (\<lambda>x. ex_owner x = Some owner) (list_extensions r)"

text \<open>\<^verbatim>\<open>disposeOwner\<close>: the registrations of an owner are disposed and dropped, id by id; an
  exception of a disposal leaves the registrations of its id and of the later ones.\<close>

fun dispose_all :: "('a extension \<Rightarrow> string + unit) \<Rightarrow> 'a extension list \<Rightarrow> string + unit" where
  "dispose_all dispose [] = Inr ()"
| "dispose_all dispose (x # xs) = rbind (dispose x) (\<lambda>_. dispose_all dispose xs)"

fun disposeOwner ::
  "('a extension \<Rightarrow> string + unit) \<Rightarrow> string \<Rightarrow> 'a extensions \<Rightarrow> (string + unit) \<times> 'a extensions" where
  "disposeOwner dispose owner [] = (Inr (), [])"
| "disposeOwner dispose owner ((k, xs) # r) =
     (case dispose_all dispose (filter (\<lambda>x. ex_owner x = Some owner) xs) of
        Inl e \<Rightarrow> (Inl e, (k, xs) # r)
      | Inr _ \<Rightarrow>
          (let kept = filter (\<lambda>x. ex_owner x \<noteq> Some owner) xs in
           case disposeOwner dispose owner r of
             (res, r') \<Rightarrow> (res, if kept = [] then r' else (k, kept) # r')))"

section \<open>The first of the highest priority\<close>

text \<open>JavaScript's sort is stable, and so is \<^const>\<open>sort_key\<close>: sorted by falling priority, a
  list begins with the first of its elements of the highest priority.\<close>

lemma first_best:
  fixes p :: "'a \<Rightarrow> int"
  assumes "sort_key (\<lambda>x. - p x) xs = y # ys"
  shows "\<exists>before after. xs = before @ y # after \<and>
     (\<forall>x \<in> set before. p x < p y) \<and> (\<forall>x \<in> set after. p x \<le> p y)"
proof -
  have "sorted (map (\<lambda>x. - p x) (y # ys))" using sorted_sort_key [of "\<lambda>x. - p x" xs] assms by simp
  moreover have "set xs = set (y # ys)" using set_sort [of "\<lambda>x. - p x" xs] assms by simp
  ultimately have best: "\<forall>x \<in> set xs. p x \<le> p y" by auto
  have "filter (\<lambda>x. - p x = - p y) (y # ys) = filter (\<lambda>x. - p x = - p y) xs"
    using sort_key_stable [of "\<lambda>x. - p x" "- p y" xs] assms by simp
  then have "filter (\<lambda>x. p x = p y) xs = y # filter (\<lambda>x. p x = p y) ys" by simp
  then obtain before after where xs: "xs = before @ y # after" and "\<forall>x \<in> set before. p x \<noteq> p y"
    by (auto simp: filter_eq_Cons_iff)
  with best show ?thesis by (intro exI [of _ before] exI [of _ after]) force
qed

section \<open>What a registry holds\<close>

definition extensions_ok :: "'a extensions \<Rightarrow> bool" where
  "extensions_ok r \<longleftrightarrow>
     distinct (map fst r) \<and>
     (\<forall>(k, xs) \<in> set r. xs \<noteq> [] \<and> sorted_wrt (\<lambda>x y. priority_of y \<le> priority_of x) xs \<and>
        (\<forall>x \<in> set xs. ex_id x = k))"

lemma normalize_simps [simp]:
  "ex_id (normalizeRegistration x) = ex_id x" "ex_value (normalizeRegistration x) = ex_value x"
  "ex_owner (normalizeRegistration x) = ex_owner x"
  "ex_duplicatePolicy (normalizeRegistration x) = ex_duplicatePolicy x"
  "priority_of (normalizeRegistration x) = priority_of x"
  by (simp_all add: normalizeRegistration_def priority_of_def)

lemma by_priority_simps [simp]: "set (by_priority xs) = set xs" "by_priority xs = [] \<longleftrightarrow> xs = []"
  by (simp_all add: by_priority_def) (metis set_empty set_sort)

lemma by_priority_sorted: "sorted_wrt (\<lambda>x y. priority_of y \<le> priority_of x) (by_priority xs)"
proof -
  have "sorted (map (\<lambda>x. - priority_of x) (by_priority xs))" by (simp add: by_priority_def)
  then show ?thesis by (simp add: sorted_wrt_map)
qed

lemma registrations_ok:
  assumes "extensions_ok r"
  shows "\<forall>x \<in> set (registrations r k). ex_id x = k"
    and "sorted_wrt (\<lambda>x y. priority_of y \<le> priority_of x) (registrations r k)"
  using assms by (auto simp: registrations_def extensions_ok_def dest!: map_of_SomeD split: option.splits)

lemma put_extensions_ok:
  assumes "extensions_ok r" and "xs \<noteq> []" and "sorted_wrt (\<lambda>x y. priority_of y \<le> priority_of x) xs"
    and "\<forall>x \<in> set xs. ex_id x = k"
  shows "extensions_ok (put k xs r)"
  using assms by (auto simp: extensions_ok_def distinct_put dest!: set_put [THEN subsetD])

lemma register_extension_ok:
  assumes "extensions_ok r" and "register_extension x r = Inr r'"
  shows "extensions_ok r'"
  using assms registrations_ok(1) [OF assms(1), of "ex_id x"]
  by (auto simp: register_extension_def Let_def by_priority_sorted intro!: put_extensions_ok
      split: if_splits option.splits duplicate_policy.splits)

lemma dispose_none:
  assumes "disposeOwner dispose owner r = (Inr (), r')"
  shows "r' = filter (\<lambda>(k, xs). xs \<noteq> []) (map (\<lambda>(k, xs). (k, filter (\<lambda>x. ex_owner x \<noteq> Some owner) xs)) r)"
  using assms
  by (induction r arbitrary: r') (auto simp: Let_def split: sum.splits prod.splits if_splits)

lemma disposeOwner_keys: "fst ` set (snd (disposeOwner dispose owner r)) \<subseteq> fst ` set r"
proof (induction r)
  case (Cons e r)
  obtain k xs where e: "e = (k, xs)" by (cases e)
  obtain x r' where d: "disposeOwner dispose owner r = (x, r')" by fastforce
  from Cons d show ?case by (auto simp: e Let_def split: sum.split)
qed simp

lemma disposeOwner_ok: "extensions_ok r \<Longrightarrow> extensions_ok (snd (disposeOwner dispose owner r))"
proof (induction r)
  case (Cons e r)
  obtain k xs where e: "e = (k, xs)" by (cases e)
  obtain x r' where d: "disposeOwner dispose owner r = (x, r')" by fastforce
  have "fst ` set r' \<subseteq> fst ` set r" using disposeOwner_keys [of dispose owner r] d by simp
  moreover have "extensions_ok r'" using Cons d by (simp add: extensions_ok_def)
  ultimately show ?case using Cons.prems
    by (auto simp: e d Let_def extensions_ok_def sorted_wrt_filter split: sum.split)
qed simp

section \<open>Registrations in a row\<close>

lemma by_priority_snoc: "by_priority (by_priority xs @ [x]) = by_priority (xs @ [x])"
proof -
  have "sort_key (\<lambda>x. - priority_of x) (by_priority xs @ [x]) = by_priority (xs @ [x])"
  proof (rule properties_for_sort_key)
    show "mset (by_priority (xs @ [x])) = mset (by_priority xs @ [x])" by (simp add: by_priority_def)
    show "filter (\<lambda>y. - priority_of k = - priority_of y) (by_priority (xs @ [x])) =
        filter (\<lambda>y. - priority_of k = - priority_of y) (by_priority xs @ [x])" for k
      using sort_key_stable [of "\<lambda>x. - priority_of x" "- priority_of k" "xs @ [x]"]
        sort_key_stable [of "\<lambda>x. - priority_of x" "- priority_of k" xs]
      by (simp add: by_priority_def eq_commute)
  qed (simp add: by_priority_def)
  then show ?thesis by (simp only: fun_cong [OF by_priority_def, of "by_priority xs @ [x]"])
qed

lemma registrations_put: "registrations (put k xs r) i = (if i = k then xs else registrations r i)"
  by (simp add: registrations_def)

definition chained :: "'a extension \<Rightarrow> bool" where
  "chained x \<longleftrightarrow> ex_duplicatePolicy x = Some DupChain"

lemma register_chained:
  assumes "chained x" and "register_extension x r = Inr r'"
    and "\<And>k. registrations r k = by_priority (filter (\<lambda>x. ex_id x = k) xs)"
  shows "registrations r' k = by_priority (filter (\<lambda>x. ex_id x = k) (xs @ [normalizeRegistration x]))"
  using assms
  by (auto simp: register_extension_def chained_def Let_def registrations_put by_priority_snoc split: if_splits)

lemma register_all_chained:
  assumes "list_all chained xs" and "register_all register_extension xs r = Inr r'"
    and "\<And>k. registrations r k = by_priority (filter (\<lambda>x. ex_id x = k) ys)"
  shows "registrations r' k = by_priority (filter (\<lambda>x. ex_id x = k) (ys @ map normalizeRegistration xs))"
  using assms
proof (induction xs arbitrary: r ys)
  case (Cons x xs)
  then obtain r1 where r1: "register_extension x r = Inr r1" "register_all register_extension xs r1 = Inr r'"
    by (auto simp: res_simps)
  have "registrations r1 k = by_priority (filter (\<lambda>x. ex_id x = k) (ys @ [normalizeRegistration x]))" for k
    using Cons.prems(1) by (intro register_chained [OF _ r1(1) Cons.prems(3)]) simp
  from Cons.IH [OF _ r1(2) this] Cons.prems(1) show ?case by simp
qed simp

end
