(* ===== verification/Flow_Types.thy ===== *)
theory Flow_Types
  imports Extension_Registry Effects
begin

text \<open>
  The data of the flow engine: \<^verbatim>\<open>packages/flow-engine/src\<close> (\<^verbatim>\<open>types.ts\<close>,
  \<^verbatim>\<open>engine-types.ts\<close>), and the state of one instance with the ways the world outside
  reaches it. An instance waits often: for its nodes, hooks, projection and handlers. What they
  answer is a function of the log of the calls made so far, and while each is waited for other
  code may cancel, pause or resume the instance, or record on it. Payload data (the metadata of
  a cancellation, the parameters of a message) is left out, and so is the publication that
  recording feedback starts and nobody waits for.
\<close>

section \<open>Definitions of flows\<close>

datatype feedback_status = FbWaiting | FbInvalid | FbValid | FbTimeout | FbInterrupted

record ui_feedback =
  uf_stateKey :: "string option"
  uf_status :: feedback_status
  uf_reasonCode :: "string option"
  uf_messageKey :: "string option"
  uf_clearInput :: "bool option"
  uf_attempt :: "int option"

record wait_condition =
  wc_topic :: string
  wc_timeoutMs :: "int option"

record 'v effect =
  ef_kind :: string
  ef_payload :: "'v option"

record cancel_reason =
  xr_source :: "string option"
  xr_code :: string

text \<open>\<^verbatim>\<open>Unfinished\<close> is no exception of the program: the computation is still going on
  when the steps the model was given are used up. Nothing handles it.\<close>

datatype flow_error =
    FlowFault string | NodeTimedOut string "int option" | RetryExceeded string string
  | SubflowFailed string | Thrown string | Unfinished

datatype 'v flow_result =
    FrNext string "'v option" | FrBranch string "'v option" | FrWait wait_condition
  | FrEnd "'v option" | FrFail flow_error | FrCancel cancel_reason | FrPause string
  | FrRetry string | FrEffects "'v effect list" | FrStay string ui_feedback | FrReenter string ui_feedback

datatype subflow_mode = SubflowSync | SubflowAsync

record 'v subflow_call =
  sf_flowId :: string
  sf_version :: string
  sf_mode :: subflow_mode
  sf_outputKey :: "string option"

text \<open>What the kind of a node adds to it; the functions among it are ports of its executor.\<close>

datatype 'v node_body =
    ActionBody | DecisionBody | WaitBody wait_condition | TerminalBody "'v option"
  | SubflowBody "'v subflow_call" | OtherBody

record 'v flow_node =
  nd_id :: string
  nd_kind :: string
  nd_timeoutMs :: "int option"
  nd_next :: "string option"
  nd_body :: "'v node_body"

record flow_edge =
  ed_from :: string
  ed_to :: string
  ed_branch :: "string option"

record flow_retry =
  ry_maxAttempts :: int
  ry_backoffMs :: "int option"

record 'v flow_definition =
  fd_id :: string
  fd_version :: string
  fd_startNodeId :: string
  fd_nodes :: "(string \<times> 'v flow_node) list"
  fd_edges :: "flow_edge list option"
  fd_timeoutMs :: "int option"
  fd_retry :: "flow_retry option"

datatype interrupt_action = CancelFlow string | InterruptNext string | InterruptPause string

record interrupt_policy =
  ip_id :: string
  ip_priority :: int
  ip_appliesTo :: "string option"
  ip_action :: interrupt_action

record flow_interrupt =
  in_id :: string
  in_reasonCode :: string

section \<open>The state of an instance\<close>

datatype flow_status = FlowRunning | FlowCompleted | FlowFailed | FlowCancelled | FlowPaused

record trace_event =
  te_type :: string
  te_nodeId :: "string option"
  te_resultType :: "string option"

record 'v snapshot =
  sp_instanceId :: string
  sp_flowId :: string
  sp_flowVersion :: string
  sp_currentNodeId :: "string option"
  sp_status :: flow_status
  sp_path :: "string list"
  sp_result :: "'v flow_result option"
  sp_output :: "'v option"
  sp_trace :: "trace_event list"
  sp_uiFeedback :: "ui_feedback list"

datatype 'v node_outcome = OutResult "'v flow_result" | OutTimeout | OutInterrupt flow_interrupt

text \<open>The calls of an instance, each with its answer. \<^verbatim>\<open>Took\<close> is no call: it notes the
  result a node was left with, as the transition takes it.\<close>

datatype 'v flow_call =
    RanHook nat string "flow_error + unit"
  | Published "'v snapshot" "flow_error + unit"
  | RanNode "'v flow_node" "flow_error + 'v node_outcome"
  | RanEffect "'v effect" "flow_error + 'v flow_result option"
  | Caught flow_error "flow_error + 'v flow_result"
  | RanFinally "flow_error + unit"
  | Validated "'v option" "flow_error + 'v option"
  | BackedOff int
  | AwaitedGate
  | Stored string 'v
  | Took "'v flow_node" "'v flow_result"

type_synonym 'v flow_log = "'v flow_call list"

record 'v flow_state =
  fs_currentNodeId :: "string option"
  fs_status :: flow_status
  fs_path :: "string list"
  fs_trace :: "trace_event list"
  fs_uiFeedback :: "ui_feedback list"
  fs_retries :: "string \<Rightarrow> int option"
  fs_nodeExecutionSequence :: nat
  fs_result :: "'v flow_result option"
  fs_output :: "'v option"
  fs_cancellation :: "cancel_reason option"
  fs_pauseRequested :: "string option"
  fs_resumeGate :: "bool option"
  fs_interruptConsumed :: bool
  fs_completion :: "'v snapshot option"
  fs_log :: "'v flow_log"

section \<open>The world outside\<close>

datatype 'v external =
    XCancel cancel_reason | XPause string | XResume "'v option" | XFeedback ui_feedback
  | XTrace trace_event | XStore string 'v

datatype race = RaceFinished | RaceTimeout | RaceInterrupt flow_interrupt

text \<open>An executor answers with a result or an exception, and records on the way.\<close>

type_synonym 'v executor = "'v flow_log \<Rightarrow> 'v flow_node \<Rightarrow> 'v external list \<times> (flow_error + 'v flow_result)"
type_synonym 'v effect_runner = "'v flow_log \<Rightarrow> 'v effect \<Rightarrow> flow_error + 'v flow_result option"

record 'v flow_env =
  fe_definition :: "'v flow_definition"
  fe_instanceId :: string
  fe_interrupts :: "interrupt_policy list option"
  fe_hooks :: "string list"
  fe_projected :: bool
  fe_stopOnStay :: bool
  fe_stopOnReenter :: bool
  fe_interruptible :: bool
  fe_aborted :: bool
  fe_executors :: "'v executor extensions"
  fe_effectRunners :: "'v effect_runner extensions"
  fe_race :: "'v flow_log \<Rightarrow> race"
  fe_hook :: "'v flow_log \<Rightarrow> nat \<Rightarrow> flow_error + unit"
  fe_publish :: "'v flow_log \<Rightarrow> flow_error + unit"
  fe_catch :: "('v flow_log \<Rightarrow> flow_error \<Rightarrow> flow_error + 'v flow_result) option"
  fe_finally :: "('v flow_log \<Rightarrow> flow_error + unit) option"
  fe_validate :: "('v flow_log \<Rightarrow> 'v option \<Rightarrow> flow_error + 'v option) option"
  fe_external :: "'v flow_log \<Rightarrow> 'v external list"

type_synonym ('v, 'a) flow_io = "('v flow_state, flow_error, 'a) io"

definition snapshot_of :: "'v flow_env \<Rightarrow> 'v flow_state \<Rightarrow> 'v snapshot" where
  "snapshot_of env s =
     \<lparr>sp_instanceId = fe_instanceId env, sp_flowId = fd_id (fe_definition env),
      sp_flowVersion = fd_version (fe_definition env), sp_currentNodeId = fs_currentNodeId s, sp_status = fs_status s, sp_path = fs_path s,
      sp_result = fs_result s, sp_output = fs_output s, sp_trace = fs_trace s,
      sp_uiFeedback = fs_uiFeedback s\<rparr>"

definition active :: "'v flow_state \<Rightarrow> bool" where
  "active s \<longleftrightarrow> fs_status s = FlowRunning \<or> fs_status s = FlowPaused"

definition requestCancellation :: "cancel_reason \<Rightarrow> 'v flow_state \<Rightarrow> 'v flow_state" where
  "requestCancellation reason s =
     (if \<not> active s then s
      else s\<lparr>fs_cancellation := Some reason, fs_resumeGate := map_option (\<lambda>_. True) (fs_resumeGate s)\<rparr>)"

definition request_pause :: "string \<Rightarrow> 'v flow_state \<Rightarrow> 'v flow_state" where
  "request_pause reason s =
     (if fs_status s \<noteq> FlowRunning then s else s\<lparr>fs_pauseRequested := Some reason\<rparr>)"

definition store_key :: "string \<Rightarrow> 'v \<Rightarrow> 'v flow_state \<Rightarrow> 'v flow_state" where
  "store_key k v s = s\<lparr>fs_log := fs_log s @ [Stored k v]\<rparr>"

text \<open>A resume that finds no gate throws to its caller.\<close>

definition request_resume :: "'v option \<Rightarrow> 'v flow_state \<Rightarrow> 'v flow_state" where
  "request_resume v s =
     (if fs_resumeGate s = None then s
      else (case v of None \<Rightarrow> s | Some x \<Rightarrow> store_key ''resumeInput'' x s)
        \<lparr>fs_resumeGate := Some True\<rparr>)"

fun from_outside :: "'v external \<Rightarrow> 'v flow_state \<Rightarrow> 'v flow_state" where
  "from_outside (XCancel r) s = requestCancellation r s"
| "from_outside (XPause r) s = request_pause r s"
| "from_outside (XResume v) s = request_resume v s"
| "from_outside (XFeedback f) s = s\<lparr>fs_uiFeedback := fs_uiFeedback s @ [f]\<rparr>"
| "from_outside (XTrace e) s = s\<lparr>fs_trace := fs_trace s @ [e]\<rparr>"
| "from_outside (XStore k v) s = store_key k v s"

definition waited :: "'v flow_env \<Rightarrow> 'v flow_call \<Rightarrow> 'v flow_state \<Rightarrow> 'v flow_state" where
  "waited env c s =
     (let l = fs_log s @ [c] in fold from_outside (fe_external env l) (s\<lparr>fs_log := l\<rparr>))"

text \<open>No port answers that the computation goes on.\<close>

definition answer :: "flow_error + 'a \<Rightarrow> flow_error + 'a" where
  "answer r =
     (case r of Inl e \<Rightarrow> Inl (if e = Unfinished then Thrown '''' else e) | Inr x \<Rightarrow> Inr x)"

definition flow_call ::
  "'v flow_env \<Rightarrow> ('v flow_log \<Rightarrow> flow_error + 'a) \<Rightarrow> (flow_error + 'a \<Rightarrow> 'v flow_call) \<Rightarrow> ('v, 'a) flow_io" where
  "flow_call env f c s = (let r = answer (f (fs_log s)) in (r, waited env (c r) s))"

text \<open>Handling an exception of the program.\<close>

definition attempt :: "('v, 'a) flow_io \<Rightarrow> (flow_error \<Rightarrow> ('v, 'a) flow_io) \<Rightarrow> ('v, 'a) flow_io" where
  "attempt m h = handle m (\<lambda>e. if e = Unfinished then raise e else h e)"

text \<open>\<^verbatim>\<open>finally\<close>: what is done whether or not the computation throws.\<close>

definition lastly :: "('v, unit) flow_io \<Rightarrow> ('v, unit) flow_io \<Rightarrow> ('v, unit) flow_io" where
  "lastly m n s =
     (if fst (m s) = Inl Unfinished then m s else finally_do m n s)"

end
