(* ===== verification/Flow_Nodes.thy ===== *)
theory Flow_Nodes
  imports Flow_Types
begin

text \<open>
  One execution of a node: \<^verbatim>\<open>packages/flow-engine/src\<close> (\<^verbatim>\<open>hooks.ts\<close>,
  \<^verbatim>\<open>node-runtime.ts\<close>, \<^verbatim>\<open>builtin-nodes.ts\<close>). The executor of the node's kind
  races with the node's timeout and with the interrupt of the flow; the effects it asks for are
  run one after the other, and may end in another result.
\<close>

section \<open>Hooks and traces\<close>

fun run_hooks :: "'v flow_env \<Rightarrow> string \<Rightarrow> nat \<Rightarrow> string list \<Rightarrow> ('v, unit) flow_io" where
  "run_hooks env name i [] = ret ()"
| "run_hooks env name i (h # hs) =
     (if h = name
      then seq (flow_call env (\<lambda>l. fe_hook env l i) (RanHook i name)) (\<lambda>_. run_hooks env name (Suc i) hs)
      else run_hooks env name (Suc i) hs)"

definition runFlowHooks :: "'v flow_env \<Rightarrow> string \<Rightarrow> ('v, unit) flow_io" where
  "runFlowHooks env name = run_hooks env name 0 (fe_hooks env)"

fun result_type :: "'v flow_result \<Rightarrow> string" where
  "result_type (FrNext _ _) = ''next''"
| "result_type (FrBranch _ _) = ''branch''"
| "result_type (FrWait _) = ''wait''"
| "result_type (FrEnd _) = ''end''"
| "result_type (FrFail _) = ''fail''"
| "result_type (FrCancel _) = ''cancel''"
| "result_type (FrPause _) = ''pause''"
| "result_type (FrRetry _) = ''retry''"
| "result_type (FrEffects _) = ''effects''"
| "result_type (FrStay _ _) = ''stay''"
| "result_type (FrReenter _ _) = ''reenter''"

definition traceEvent :: "string \<Rightarrow> string option \<Rightarrow> string option \<Rightarrow> ('v, unit) flow_io" where
  "traceEvent ty node resultType =
     change (\<lambda>s. s\<lparr>fs_trace := fs_trace s @ [\<lparr>te_type = ty, te_nodeId = node, te_resultType = resultType\<rparr>]\<rparr>)"

section \<open>Interrupts\<close>

definition interrupt_applies :: "flow_interrupt \<Rightarrow> 'v flow_node \<Rightarrow> interrupt_policy \<Rightarrow> bool" where
  "interrupt_applies i n p \<longleftrightarrow>
     ip_id p = in_id i \<and>
     (ip_appliesTo p \<in> {None, Some ''''} \<or> ip_appliesTo p = Some (nd_id n) \<or>
      ip_appliesTo p = Some (nd_kind n))"

definition selectInterruptPolicy ::
  "flow_interrupt \<Rightarrow> interrupt_policy list option \<Rightarrow> 'v flow_node \<Rightarrow> interrupt_policy option" where
  "selectInterruptPolicy i ps n =
     (case sort_key (\<lambda>p. - ip_priority p)
             (filter (interrupt_applies i n) (case ps of None \<Rightarrow> [] | Some qs \<Rightarrow> qs)) of
        [] \<Rightarrow> None
      | p # _ \<Rightarrow> Some p)"

definition interruptResult ::
  "flow_interrupt \<Rightarrow> interrupt_policy list option \<Rightarrow> 'v flow_node \<Rightarrow> 'v flow_result" where
  "interruptResult i ps n =
     (case map_option ip_action (selectInterruptPolicy i ps n) of
        Some (InterruptNext k) \<Rightarrow> FrNext k None
      | Some (InterruptPause r) \<Rightarrow> FrPause r
      | Some (CancelFlow r) \<Rightarrow> FrCancel \<lparr>xr_source = Some ''interrupt'', xr_code = r\<rparr>
      | None \<Rightarrow> FrCancel \<lparr>xr_source = Some ''interrupt'', xr_code = in_reasonCode i\<rparr>)"

section \<open>The race of an execution\<close>

text \<open>A timeout wins only over a node that has one, an interrupt only over a flow that can
  still be interrupted. What a lost execution records later comes from outside.\<close>

definition race_outcome ::
  "'v flow_env \<Rightarrow> bool \<Rightarrow> 'v executor \<Rightarrow> 'v flow_node \<Rightarrow> 'v flow_log
     \<Rightarrow> 'v external list \<times> (flow_error + 'v node_outcome)" where
  "race_outcome env consumed ex n l =
     (let finished = (case ex l n of (es, r) \<Rightarrow> (es, map_sum (\<lambda>e. e) OutResult r)) in
      case fe_race env l of
        RaceFinished \<Rightarrow> finished
      | RaceTimeout \<Rightarrow> if nd_timeoutMs n = None then finished else ([], Inr OutTimeout)
      | RaceInterrupt i \<Rightarrow>
          if fe_interruptible env \<and> \<not> consumed then ([], Inr (OutInterrupt i)) else finished)"

definition raceNodeExecution ::
  "'v flow_env \<Rightarrow> 'v executor \<Rightarrow> 'v flow_node \<Rightarrow> ('v, 'v node_outcome) flow_io" where
  "raceNodeExecution env ex n =
     seq (ask (\<lambda>s. race_outcome env (fs_interruptConsumed s) ex n (fs_log s))) (\<lambda>(es, r).
     seq (change (fold from_outside es)) (\<lambda>_.
     flow_call env (\<lambda>_. r) (RanNode n)))"

text \<open>The number bounds how often effects may lead to further effects; the last branch is
  \<^verbatim>\<open>nextOrEnd\<close> without an output.\<close>

fun run_effects ::
  "'v flow_env \<Rightarrow> 'v flow_node \<Rightarrow> ('v flow_result \<Rightarrow> ('v, 'v flow_result) flow_io) \<Rightarrow> 'v effect list
     \<Rightarrow> ('v, 'v flow_result) flow_io" where
  "run_effects env n again [] =
     ret (case nd_next n of Some k \<Rightarrow> if k = '''' then FrEnd None else FrNext k None | None \<Rightarrow> FrEnd None)"
| "run_effects env n again (f # fs) =
     seq (flow_call env
            (\<lambda>l. rbind (map_sum FlowFault (\<lambda>r. r) (require_extension (fe_effectRunners env) (ef_kind f)))
                   (\<lambda>run. run l f)) (RanEffect f)) (\<lambda>next.
     case next of Some r \<Rightarrow> again r | None \<Rightarrow> run_effects env n again fs)"

fun resolveEffects ::
  "'v flow_env \<Rightarrow> nat \<Rightarrow> 'v flow_node \<Rightarrow> 'v flow_result \<Rightarrow> ('v, 'v flow_result) flow_io" where
  "resolveEffects env 0 n r = (case r of FrEffects _ \<Rightarrow> raise Unfinished | _ \<Rightarrow> ret r)"
| "resolveEffects env (Suc k) n r =
     (case r of FrEffects fs \<Rightarrow> run_effects env n (resolveEffects env k n) fs | _ \<Rightarrow> ret r)"

definition node_race ::
  "'v flow_env \<Rightarrow> nat \<Rightarrow> 'v flow_node \<Rightarrow> ('v, bool \<times> 'v flow_result) flow_io" where
  "node_race env k n =
     (case require_extension (fe_executors env) (nd_kind n) of
        Inl e \<Rightarrow> raise (FlowFault e)
      | Inr ex \<Rightarrow>
          seq (raceNodeExecution env ex n) (\<lambda>outcome.
          case outcome of
            OutTimeout \<Rightarrow>
              seq (runFlowHooks env ''onNodeTimeout'') (\<lambda>_. raise (NodeTimedOut (nd_id n) (nd_timeoutMs n)))
          | OutInterrupt i \<Rightarrow>
              seq (runFlowHooks env ''onFlowInterrupt'') (\<lambda>_.
              ret (True, interruptResult i (fe_interrupts env) n))
          | OutResult r \<Rightarrow>
              seq (resolveEffects env k n r) (\<lambda>r'.
              seq (runFlowHooks env ''afterNodeRun'') (\<lambda>_.
              seq (traceEvent ''flow.node.completed'' (Some (nd_id n)) (Some (result_type r'))) (\<lambda>_.
              ret (False, r'))))))"

definition execute_node ::
  "'v flow_env \<Rightarrow> nat \<Rightarrow> 'v flow_node \<Rightarrow> ('v, bool \<times> 'v flow_result) flow_io" where
  "execute_node env k n =
     seq (runFlowHooks env ''beforeNodeRun'') (\<lambda>_.
     seq (traceEvent ''flow.node.started'' (Some (nd_id n)) None) (\<lambda>_.
     attempt (node_race env k n) (\<lambda>e. seq (runFlowHooks env ''onNodeError'') (\<lambda>_. raise e))))"

section \<open>The built-in executors\<close>

definition nextOrEnd :: "'v flow_node \<Rightarrow> 'v option \<Rightarrow> 'v flow_result" where
  "nextOrEnd n v =
     (case nd_next n of Some k \<Rightarrow> if k = '''' then FrEnd v else FrNext k v | None \<Rightarrow> FrEnd v)"

text \<open>What a node's own function returns: a result, or a plain value.\<close>

definition action_executor ::
  "('v flow_log \<Rightarrow> 'v flow_node \<Rightarrow> 'v external list \<times> (flow_error + 'v flow_result + 'v option)) \<Rightarrow> 'v executor" where
  "action_executor run l n =
     (case run l n of (es, r) \<Rightarrow>
        (es, map_sum (\<lambda>e. e) (\<lambda>x. case x of Inl result \<Rightarrow> result | Inr v \<Rightarrow> nextOrEnd n v) r))"

definition decision_executor ::
  "('v flow_log \<Rightarrow> 'v flow_node \<Rightarrow> 'v external list \<times> (flow_error + string)) \<Rightarrow> 'v executor" where
  "decision_executor decide l n =
     (case decide l n of (es, r) \<Rightarrow> (es, map_sum (\<lambda>e. e) (\<lambda>b. FrBranch b None) r))"

definition wait_executor :: "'v executor" where
  "wait_executor l n =
     ([], case nd_body n of WaitBody w \<Rightarrow> Inr (FrWait w) | _ \<Rightarrow> Inr (FrWait \<lparr>wc_topic = '''', wc_timeoutMs = None\<rparr>))"

fun stored_value :: "string \<Rightarrow> 'v flow_call \<Rightarrow> 'v option" where
  "stored_value k (Stored k' v) = (if k' = k then Some v else None)" | "stored_value k _ = None"

definition read_key :: "string \<Rightarrow> 'v flow_log \<Rightarrow> 'v option" where
  "read_key k l = (case filter (\<lambda>c. stored_value k c \<noteq> None) l of [] \<Rightarrow> None | cs \<Rightarrow> stored_value k (last cs))"

text \<open>The port answers for an output that is a function of the context.\<close>

definition terminal_executor ::
  "('v flow_log \<Rightarrow> 'v flow_node \<Rightarrow> (flow_error + 'v option) option) \<Rightarrow> 'v executor" where
  "terminal_executor output l n =
     ([], case output l n of
            Some r \<Rightarrow> map_sum (\<lambda>e. e) FrEnd r
          | None \<Rightarrow>
              Inr (FrEnd (case nd_body n of TerminalBody (Some v) \<Rightarrow> Some v | _ \<Rightarrow> read_key ''lastOutput'' l)))"

text \<open>A subflow: the port starts the child and, for a synchronous one, waits for its snapshot.\<close>

record 'v subflow_ports =
  sf_input :: "'v flow_log \<Rightarrow> 'v flow_node \<Rightarrow> flow_error + 'v option"
  sf_start :: "'v flow_log \<Rightarrow> string \<Rightarrow> string \<Rightarrow> 'v option \<Rightarrow> flow_error + 'v"
  sf_child :: "'v flow_log \<Rightarrow> 'v \<Rightarrow> 'v snapshot"
  sf_accept :: "'v flow_log \<Rightarrow> 'v option \<Rightarrow> flow_error + unit"

definition child_result :: "'v subflow_ports \<Rightarrow> 'v flow_log \<Rightarrow> 'v flow_node \<Rightarrow> 'v subflow_call
     \<Rightarrow> 'v snapshot \<Rightarrow> 'v external list \<times> (flow_error + 'v flow_result)" where
  "child_result ps l n c sp =
     (if sp_status sp = FlowFailed then
        ([], Inr (FrFail (case sp_result sp of Some (FrFail e) \<Rightarrow> e | _ \<Rightarrow> SubflowFailed (sf_flowId c))))
      else if sp_status sp = FlowCancelled then
        ([], Inr (case sp_result sp of
                    Some (FrCancel r) \<Rightarrow> FrCancel r
                  | _ \<Rightarrow> FrCancel \<lparr>xr_source = Some ''system'', xr_code = ''SUBFLOW.CANCELLED''\<rparr>))
      else
        (case (sf_outputKey c, sp_output sp) of
           (Some k, Some v) \<Rightarrow> if k = '''' then [] else [XStore k v]
         | _ \<Rightarrow> [],
         map_sum (\<lambda>e. e) (\<lambda>_. nextOrEnd n (sp_output sp)) (sf_accept ps l (sp_output sp))))"

definition subflow_trace :: "string \<Rightarrow> 'v flow_node \<Rightarrow> 'v external" where
  "subflow_trace ty n = XTrace \<lparr>te_type = ty, te_nodeId = Some (nd_id n), te_resultType = None\<rparr>"

definition subflow_executor :: "'v subflow_ports \<Rightarrow> 'v executor" where
  "subflow_executor ps l n =
     (case nd_body n of
        SubflowBody c \<Rightarrow>
          (case rbind (sf_input ps l n) (sf_start ps l (sf_flowId c) (sf_version c)) of
             Inl e \<Rightarrow> ([], Inl e)
           | Inr child \<Rightarrow>
               (let started = subflow_trace ''flow.subflow.started'' n in
                if sf_mode c = SubflowAsync then ([started], Inr (nextOrEnd n (Some child)))
                else (case child_result ps l n c (sf_child ps l child) of
                        (es, r) \<Rightarrow> (started # subflow_trace ''flow.subflow.completed'' n # es, r))))
      | _ \<Rightarrow> ([], Inl (Thrown ''TypeError'')))"

end
