(* ===== verification/Flow_Instance.thy ===== *)
theory Flow_Instance
  imports Flow_Nodes
begin

text \<open>
  One instance of a flow: \<^verbatim>\<open>packages/flow-engine/src/instance-runtime.ts\<close>. It runs node
  after node, each where the result of the one before leads, until a result ends it; it can be
  paused, and cancelled at any time. A run is given a number of steps; one that uses them up is
  \<^const>\<open>Unfinished\<close>.
\<close>

section \<open>Publishing, tracing, completing\<close>

definition publish :: "'v flow_env \<Rightarrow> ('v, unit) flow_io" where
  "publish env =
     seq (ask (snapshot_of env)) (\<lambda>sp.
     flow_call env (\<lambda>l. if fe_projected env then fe_publish env l else Inr ()) (Published sp))"

definition trace_flow :: "string \<Rightarrow> string option \<Rightarrow> ('v, unit) flow_io" where
  "trace_flow ty resultType = seq (ask fs_currentNodeId) (\<lambda>n. traceEvent ty n resultType)"

fun status_name :: "flow_status \<Rightarrow> string" where
  "status_name FlowRunning = ''running''"
| "status_name FlowCompleted = ''completed''"
| "status_name FlowFailed = ''failed''"
| "status_name FlowCancelled = ''cancelled''"
| "status_name FlowPaused = ''paused''"

definition complete_hook :: "flow_status \<Rightarrow> string" where
  "complete_hook st =
     (if st = FlowCompleted then ''onFlowComplete''
      else if st = FlowCancelled then ''onFlowCancel'' else ''onFlowFail'')"

definition complete :: "'v flow_env \<Rightarrow> flow_status \<Rightarrow> 'v flow_result \<Rightarrow> ('v, unit) flow_io" where
  "complete env st r =
     seq (change (\<lambda>s. s\<lparr>fs_status := st, fs_result := Some r\<rparr>)) (\<lambda>_.
     seq (trace_flow (''flow.'' @ status_name st) (Some (result_type r))) (\<lambda>_.
     seq (runFlowHooks env (complete_hook st)) (\<lambda>_. publish env)))"

definition completeCancellation :: "'v flow_env \<Rightarrow> cancel_reason \<Rightarrow> ('v, unit) flow_io" where
  "completeCancellation env reason = complete env FlowCancelled (FrCancel reason)"

section \<open>Pausing\<close>

fun await_gate :: "'v flow_env \<Rightarrow> nat \<Rightarrow> ('v, unit) flow_io" where
  "await_gate env 0 = raise Unfinished"
| "await_gate env (Suc k) =
     seq (ask fs_resumeGate) (\<lambda>gate.
     if gate = Some True then ret ()
     else seq (flow_call env (\<lambda>_. Inr ()) (\<lambda>_. AwaitedGate)) (\<lambda>_. await_gate env k))"

definition suspend :: "'v flow_env \<Rightarrow> nat \<Rightarrow> 'v flow_result \<Rightarrow> ('v, unit) flow_io" where
  "suspend env k r =
     seq (change (\<lambda>s. s\<lparr>fs_result := Some r, fs_status := FlowPaused, fs_resumeGate := Some False\<rparr>)) (\<lambda>_.
     seq (publish env) (\<lambda>_.
     seq (await_gate env k) (\<lambda>_.
     seq (change (\<lambda>s. s\<lparr>fs_resumeGate := None\<rparr>)) (\<lambda>_.
     seq (ask fs_cancellation) (\<lambda>c.
     if c \<noteq> None then ret ()
     else seq (change (\<lambda>s. s\<lparr>fs_status := FlowRunning\<rparr>)) (\<lambda>_. publish env))))))"

section \<open>Where a result leads\<close>

definition requireCurrentNode :: "'v flow_env \<Rightarrow> ('v, 'v flow_node) flow_io" where
  "requireCurrentNode env =
     seq (ask fs_currentNodeId) (\<lambda>c.
     case (case c of None \<Rightarrow> None
           | Some k \<Rightarrow> if k = '''' then None else map_of (fd_nodes (fe_definition env)) k) of
       None \<Rightarrow> raise (FlowFault ''flow.node.missing'')
     | Some n \<Rightarrow> ret n)"

definition resolveBranch :: "'v flow_definition \<Rightarrow> string \<Rightarrow> string \<Rightarrow> flow_error + string" where
  "resolveBranch d nodeId branch =
     (case find (\<lambda>e. ed_from e = nodeId \<and> ed_branch e = Some branch)
              (case fd_edges d of None \<Rightarrow> [] | Some es \<Rightarrow> es) of
        None \<Rightarrow> Inl (FlowFault ''flow.branch.missing'')
      | Some e \<Rightarrow> if ed_to e = '''' then Inl (FlowFault ''flow.branch.missing'') else Inr (ed_to e))"

definition go_to :: "string \<Rightarrow> ('v, bool) flow_io" where
  "go_to k = seq (change (\<lambda>s. s\<lparr>fs_currentNodeId := Some k\<rparr>)) (\<lambda>_. ret False)"

fun output_of :: "'v flow_result \<Rightarrow> 'v option" where
  "output_of (FrNext _ v) = v"
| "output_of (FrBranch _ v) = v"
| "output_of (FrEnd v) = v"
| "output_of _ = None"

definition storeNodeOutput :: "'v flow_node \<Rightarrow> 'v flow_result \<Rightarrow> ('v, unit) flow_io" where
  "storeNodeOutput n r =
     (case output_of r of
        None \<Rightarrow> ret ()
      | Some v \<Rightarrow>
          seq (change (store_key (''node.'' @ nd_id n @ ''.output'') v)) (\<lambda>_.
          change (store_key ''lastOutput'' v)))"

definition retry_node :: "'v flow_env \<Rightarrow> 'v flow_node \<Rightarrow> string \<Rightarrow> ('v, bool) flow_io" where
  "retry_node env n code =
     seq (ask (\<lambda>s. (case fs_retries s (nd_id n) of None \<Rightarrow> 1 | Some a \<Rightarrow> a) + 1)) (\<lambda>attempts.
     seq (change (\<lambda>s. s\<lparr>fs_retries := (fs_retries s)(nd_id n \<mapsto> attempts)\<rparr>)) (\<lambda>_.
     if (case fd_retry (fe_definition env) of None \<Rightarrow> 1 | Some p \<Rightarrow> ry_maxAttempts p) < attempts
     then seq (complete env FlowFailed (FrFail (RetryExceeded (nd_id n) code))) (\<lambda>_. ret True)
     else
       seq (case fd_retry (fe_definition env) of
              None \<Rightarrow> ret ()
            | Some p \<Rightarrow>
                (case ry_backoffMs p of
                   None \<Rightarrow> ret ()
                 | Some ms \<Rightarrow> if ms = 0 then ret () else flow_call env (\<lambda>_. Inr ()) (\<lambda>_. BackedOff ms))) (\<lambda>_.
       go_to (nd_id n))))"

definition end_flow :: "'v flow_env \<Rightarrow> 'v option \<Rightarrow> ('v, unit) flow_io" where
  "end_flow env v =
     seq (case fe_validate env of
            None \<Rightarrow> ret v
          | Some f \<Rightarrow> flow_call env (\<lambda>l. f l v) (Validated v)) (\<lambda>out.
     seq (change (\<lambda>s. s\<lparr>fs_output := out\<rparr>)) (\<lambda>_. complete env FlowCompleted (FrEnd v)))"

text \<open>The answer says whether the instance stops here.\<close>

definition follow_result :: "'v flow_env \<Rightarrow> nat \<Rightarrow> 'v flow_node \<Rightarrow> 'v flow_result \<Rightarrow> ('v, bool) flow_io" where
  "follow_result env k n r =
     (case r of
       FrNext i _ \<Rightarrow> go_to i
     | FrBranch b _ \<Rightarrow>
         (case resolveBranch (fe_definition env) (nd_id n) b of Inl e \<Rightarrow> raise e | Inr i \<Rightarrow> go_to i)
     | FrStay i _ \<Rightarrow> if fe_stopOnStay env then seq (publish env) (\<lambda>_. ret True) else go_to i
     | FrReenter i _ \<Rightarrow> if fe_stopOnReenter env then seq (publish env) (\<lambda>_. ret True) else go_to i
     | FrRetry code \<Rightarrow> retry_node env n code
     | FrWait _ \<Rightarrow>
         seq (suspend env k r) (\<lambda>_. go_to (case nd_next n of None \<Rightarrow> nd_id n | Some i \<Rightarrow> i))
     | FrPause _ \<Rightarrow> seq (suspend env k r) (\<lambda>_. go_to (nd_id n))
     | FrEnd v \<Rightarrow> seq (end_flow env v) (\<lambda>_. ret True)
     | FrCancel _ \<Rightarrow> seq (complete env FlowCancelled r) (\<lambda>_. ret True)
     | FrFail _ \<Rightarrow> seq (complete env FlowFailed r) (\<lambda>_. ret True)
     | FrEffects _ \<Rightarrow> ret False)"

definition transition :: "'v flow_env \<Rightarrow> nat \<Rightarrow> 'v flow_node \<Rightarrow> 'v flow_result \<Rightarrow> ('v, bool) flow_io" where
  "transition env k n r =
     seq (change (\<lambda>s. s\<lparr>fs_result := Some r, fs_log := fs_log s @ [Took n r]\<rparr>)) (\<lambda>_.
     seq (storeNodeOutput n r) (\<lambda>_. follow_result env k n r))"

section \<open>Running\<close>

text \<open>What a node leaves the flow with: its own result unless the flow was cancelled
  meanwhile; after an exception, what the flow's handler says.\<close>

definition node_result :: "'v flow_env \<Rightarrow> nat \<Rightarrow> 'v flow_node \<Rightarrow> ('v, 'v flow_result) flow_io" where
  "node_result env k n =
     attempt
       (seq (execute_node env k n) (\<lambda>(consumed, r).
        seq (change (\<lambda>s. s\<lparr>fs_interruptConsumed := fs_interruptConsumed s \<or> consumed\<rparr>)) (\<lambda>_.
        seq (ask fs_cancellation) (\<lambda>c.
        ret (case c of Some reason \<Rightarrow> FrCancel reason | None \<Rightarrow> r)))))
       (\<lambda>e. case fe_catch env of
              Some f \<Rightarrow> flow_call env (\<lambda>l. f l e) (Caught e)
            | None \<Rightarrow> ret (FrFail e))"

definition run_node :: "'v flow_env \<Rightarrow> nat \<Rightarrow> ('v, bool) flow_io" where
  "run_node env k =
     seq (requireCurrentNode env) (\<lambda>n.
     seq (change (\<lambda>s. s\<lparr>fs_path := fs_path s @ [nd_id n]\<rparr>)) (\<lambda>_.
     seq (publish env) (\<lambda>_.
     seq (change (\<lambda>s. s\<lparr>fs_nodeExecutionSequence := Suc (fs_nodeExecutionSequence s)\<rparr>)) (\<lambda>_.
     seq (node_result env k n) (transition env k n)))))"

fun runNodes :: "'v flow_env \<Rightarrow> nat \<Rightarrow> ('v, unit) flow_io" where
  "runNodes env 0 = raise Unfinished"
| "runNodes env (Suc k) =
     seq (ask (\<lambda>s. (fs_status s, fs_cancellation s, fs_pauseRequested s))) (\<lambda>(st, c, p).
     if st \<noteq> FlowRunning then ret ()
     else
       (case c of
          Some reason \<Rightarrow> completeCancellation env reason
        | None \<Rightarrow>
            if p \<noteq> None \<and> p \<noteq> Some '''' then
              seq (suspend env k (FrPause (the p))) (\<lambda>_.
              seq (change (\<lambda>s. s\<lparr>fs_pauseRequested := None\<rparr>)) (\<lambda>_. runNodes env k))
            else
              seq (run_node env k) (\<lambda>stopped. if stopped then ret () else runNodes env k)))"

definition flow_body :: "'v flow_env \<Rightarrow> nat \<Rightarrow> ('v, unit) flow_io" where
  "flow_body env k =
     seq (runFlowHooks env ''beforeFlowStart'') (\<lambda>_.
     seq (trace_flow ''flow.started'' None) (\<lambda>_.
     seq (publish env) (\<lambda>_.
     seq (runFlowHooks env ''afterFlowStart'') (\<lambda>_. runNodes env k))))"

text \<open>The end of a run: \<^verbatim>\<open>finally\<close>. The completion is resolved unless the failure of the
  clean-up cannot be recorded either.\<close>

definition clean_up :: "'v flow_env \<Rightarrow> ('v, unit) flow_io" where
  "clean_up env =
     seq (attempt
            (seq (case fe_finally env of None \<Rightarrow> ret () | Some f \<Rightarrow> flow_call env f RanFinally) (\<lambda>_.
             runFlowHooks env ''onFlowFinally''))
            (\<lambda>e. seq (ask active) (\<lambda>a. if a then complete env FlowFailed (FrFail e) else ret ()))) (\<lambda>_.
     change (\<lambda>s. s\<lparr>fs_completion := Some (snapshot_of env s)\<rparr>))"

text \<open>The run of an instance: the exception of a failure that could not be recorded goes on
  after the clean-up, to nobody.\<close>

definition run_flow :: "'v flow_env \<Rightarrow> nat \<Rightarrow> ('v, unit) flow_io" where
  "run_flow env k =
     lastly (attempt (flow_body env k) (\<lambda>e. complete env FlowFailed (FrFail e))) (clean_up env)"

definition new_instance :: "'v flow_env \<Rightarrow> 'v flow_state" where
  "new_instance env =
     \<lparr>fs_currentNodeId = Some (fd_startNodeId (fe_definition env)), fs_status = FlowRunning, fs_path = [],
      fs_trace = [], fs_uiFeedback = [], fs_retries = (\<lambda>_. None), fs_nodeExecutionSequence = 0,
      fs_result = None, fs_output = None, fs_cancellation = None, fs_pauseRequested = None,
      fs_resumeGate = None, fs_interruptConsumed = False, fs_completion = None, fs_log = []\<rparr>"

definition linkExternalCancellation :: "'v flow_env \<Rightarrow> 'v flow_state \<Rightarrow> 'v flow_state" where
  "linkExternalCancellation env s =
     (if fe_aborted env then requestCancellation \<lparr>xr_source = Some ''system'', xr_code = ''FLOW.ABORTED''\<rparr> s else s)"

definition start_flow :: "'v flow_env \<Rightarrow> nat \<Rightarrow> (flow_error + unit) \<times> 'v flow_state" where
  "start_flow env k = run_flow env k (linkExternalCancellation env (new_instance env))"

section \<open>Evaluation\<close>

lemma flow_call_code [code]:
  "flow_call env f c s = (\<lambda>r. (r, waited env (c r) s)) (answer (f (fs_log s)))"
  by (simp add: flow_call_def Let_def)

lemma lastly_code [code]:
  "lastly m n s = (\<lambda>x. if fst x = Inl Unfinished then x else
     (case x of (r, t) \<Rightarrow> (case n t of (Inl e, u) \<Rightarrow> (Inl e, u) | (Inr _, u) \<Rightarrow> (r, u)))) (m s)"
  by (simp add: lastly_def finally_do_def)

lemmas flow_code [code] =
  runFlowHooks_def [THEN fun_cong] traceEvent_def [THEN fun_cong] raceNodeExecution_def [THEN fun_cong]
  node_race_def [THEN fun_cong] execute_node_def [THEN fun_cong] publish_def [THEN fun_cong]
  trace_flow_def [THEN fun_cong] complete_def [THEN fun_cong] completeCancellation_def [THEN fun_cong]
  suspend_def [THEN fun_cong] requireCurrentNode_def [THEN fun_cong] go_to_def [THEN fun_cong]
  storeNodeOutput_def [THEN fun_cong] retry_node_def [THEN fun_cong] end_flow_def [THEN fun_cong]
  follow_result_def [THEN fun_cong] transition_def [THEN fun_cong] node_result_def [THEN fun_cong] run_node_def [THEN fun_cong]
  flow_body_def [THEN fun_cong] clean_up_def [THEN fun_cong] run_flow_def [THEN fun_cong]
  attempt_def [THEN fun_cong]

section \<open>The engine\<close>

text \<open>
  The engine above the instances: \<^verbatim>\<open>packages/flow-engine/src\<close> (\<^verbatim>\<open>engine.ts\<close>,
  \<^verbatim>\<open>dsl.ts\<close>). It keeps the definitions of flows by id and version, the instances that
  run and, up to a number, the snapshots of those that have ended. What an instance shows while
  it runs is its latest snapshot.
\<close>

section \<open>Definitions\<close>

definition defineFlow :: "'v flow_definition \<Rightarrow> string + 'v flow_definition" where
  "defineFlow d =
     rbind (guard_res (map_of (fd_nodes d) (fd_startNodeId d) \<noteq> None) ''flow.startNode.missing'') (\<lambda>_.
     rbind (guard_res (list_all (\<lambda>(_, n). nd_id n \<noteq> '''') (fd_nodes d)) ''flow.node.id.empty'') (\<lambda>_.
     Inr d))"

type_synonym 'v flow_versions = "(string \<times> 'v flow_definition) list"

record 'v flow_engine =
  en_definitions :: "(string \<times> 'v flow_versions) list"
  en_active :: "(string \<times> 'v snapshot) list"
  en_completed :: "(string \<times> 'v snapshot) list"
  en_sequence :: nat

definition new_engine :: "'v flow_engine" where
  "new_engine =
     \<lparr>en_definitions = [], en_active = [], en_completed = [], en_sequence = 1\<rparr>"

definition versions_of :: "string \<Rightarrow> 'v flow_engine \<Rightarrow> 'v flow_versions" where
  "versions_of k e = (case map_of (en_definitions e) k of None \<Rightarrow> [] | Some vs \<Rightarrow> vs)"

definition register_flow :: "'v flow_definition \<Rightarrow> 'v flow_engine \<Rightarrow> string + 'v flow_engine" where
  "register_flow d e =
     (let vs = versions_of (fd_id d) e in
      rbind (guard_res (map_of vs (fd_version d) = None) ''flow.definition.duplicate'') (\<lambda>_.
      Inr (e\<lparr>en_definitions := put (fd_id d) (put (fd_version d) d vs) (en_definitions e)\<rparr>)))"

definition drop_key :: "'k \<Rightarrow> ('k \<times> 'a) list \<Rightarrow> ('k \<times> 'a) list" where
  "drop_key k m = filter (\<lambda>(k', _). k' \<noteq> k) m"

definition unregister_flow :: "string \<Rightarrow> string option \<Rightarrow> 'v flow_engine \<Rightarrow> 'v flow_engine" where
  "unregister_flow k version e =
     (if version \<in> {None, Some ''''} then e\<lparr>en_definitions := drop_key k (en_definitions e)\<rparr>
      else
        (case map_of (en_definitions e) k of
           None \<Rightarrow> e
         | Some vs \<Rightarrow>
             (let kept = drop_key (the version) vs in
              e\<lparr>en_definitions :=
                  if kept = [] then drop_key k (en_definitions e) else put k kept (en_definitions e)\<rparr>)))"

definition requireDefinition :: "string \<Rightarrow> string option \<Rightarrow> 'v flow_engine \<Rightarrow> string + 'v flow_definition" where
  "requireDefinition k version e =
     (let vs = versions_of k e;
          found = (if version \<in> {None, Some ''''} then (if vs = [] then None else Some (snd (last vs)))
                   else map_of vs (the version)) in
      case found of None \<Rightarrow> Inl ''flow.definition.missing'' | Some d \<Rightarrow> Inr d)"

section \<open>Policies\<close>

record ('u, 'r, 't, 'x) flow_policies =
  po_userInputTimeout :: "'u option"
  po_interrupts :: "interrupt_policy list option"
  po_recovery :: "'r option"
  po_trace :: "'t option"
  po_others :: "(string \<times> 'x) list"

definition over_option :: "'a option \<Rightarrow> 'a option \<Rightarrow> 'a option" where
  "over_option a b = (case a of None \<Rightarrow> b | Some _ \<Rightarrow> a)"

definition merge_policy ::
  "('u, 'r, 't, 'x) flow_policies \<Rightarrow> ('u, 'r, 't, 'x) flow_policies \<Rightarrow> ('u, 'r, 't, 'x) flow_policies" where
  "merge_policy merged p =
     \<lparr>po_userInputTimeout = over_option (po_userInputTimeout p) (po_userInputTimeout merged),
      po_interrupts = over_option (po_interrupts p) (po_interrupts merged),
      po_recovery = over_option (po_recovery p) (po_recovery merged),
      po_trace = over_option (po_trace p) (po_trace merged),
      po_others = fold (\<lambda>(k, v). put k v) (po_others p) (po_others merged)\<rparr>"

definition mergePolicies ::
  "('u, 'r, 't, 'x) flow_policies list \<Rightarrow> ('u, 'r, 't, 'x) flow_policies" where
  "mergePolicies ps =
     fold (\<lambda>p merged. merge_policy merged p) ps
       \<lparr>po_userInputTimeout = None, po_interrupts = None, po_recovery = None, po_trace = None, po_others = []\<rparr>"

text \<open>Registered defaults, the engine's, the definition's and the caller's, each over the one before.\<close>

definition resolvePolicies ::
  "('u, 'r, 't, 'x) flow_policies option \<Rightarrow> ('u, 'r, 't, 'x) flow_policies option
     \<Rightarrow> ('u, 'r, 't, 'x) flow_policies option \<Rightarrow> ('u, 'r, 't, 'x) flow_policies option
     \<Rightarrow> ('u, 'r, 't, 'x) flow_policies" where
  "resolvePolicies registered defaults defined given =
     mergePolicies (concat (map (\<lambda>p. case p of None \<Rightarrow> [] | Some q \<Rightarrow> [q])
       [registered, defaults, defined, given]))"

section \<open>Instances\<close>

text \<open>\<^verbatim>\<open>start\<close>: the identifier the caller gives, else the one of the factory, else the
  next of the engine's own; the snapshot is the one the new instance begins with.\<close>

definition instance_id :: "string option \<Rightarrow> string option \<Rightarrow> 'v flow_engine \<Rightarrow> string \<times> 'v flow_engine" where
  "instance_id given made e =
     (case over_option given made of
        Some i \<Rightarrow> (i, e)
      | None \<Rightarrow>
          (''flow-'' @ map (\<lambda>d. char_of (48 + d)) (dec_digits (en_sequence e)),
           e\<lparr>en_sequence := Suc (en_sequence e)\<rparr>))"

definition start_instance ::
  "string \<Rightarrow> string option \<Rightarrow> ('v flow_definition \<Rightarrow> string + unit) \<Rightarrow> string option \<Rightarrow> string option
     \<Rightarrow> ('v flow_definition \<Rightarrow> 'v snapshot) \<Rightarrow> 'v flow_engine \<Rightarrow> (string + string) \<times> 'v flow_engine" where
  "start_instance k version validate given made initial e =
     (case rbind (requireDefinition k version e) (\<lambda>d. rbind (validate d) (\<lambda>_. Inr d)) of
        Inl x \<Rightarrow> (Inl x, e)
      | Inr d \<Rightarrow>
          (case instance_id given made e of
             (i, e') \<Rightarrow>
               if i \<in> fst ` set (en_active e') \<or> i \<in> fst ` set (en_completed e')
               then (Inl ''flow.instance.duplicate'', e')
               else (Inr i, e'\<lparr>en_active := put i (initial d) (en_active e')\<rparr>)))"

definition show_instance :: "string \<Rightarrow> 'v snapshot \<Rightarrow> 'v flow_engine \<Rightarrow> 'v flow_engine" where
  "show_instance i sp e =
     (if i \<in> fst ` set (en_active e) then e\<lparr>en_active := put i sp (en_active e)\<rparr> else e)"

definition trimCompletedInstances :: "int option \<Rightarrow> 'v flow_engine \<Rightarrow> 'v flow_engine" where
  "trimCompletedInstances retention e =
     (let maximum = nat (max 0 (case retention of None \<Rightarrow> 100 | Some n \<Rightarrow> n)) in
      e\<lparr>en_completed := drop (length (en_completed e) - maximum) (en_completed e)\<rparr>)"

text \<open>What follows when the completion of an instance resolves.\<close>

definition instance_completed :: "int option \<Rightarrow> string \<Rightarrow> 'v snapshot \<Rightarrow> 'v flow_engine \<Rightarrow> 'v flow_engine" where
  "instance_completed retention i sp e =
     trimCompletedInstances retention
       (e\<lparr>en_active := drop_key i (en_active e), en_completed := put i sp (en_completed e)\<rparr>)"

definition requireActive :: "string \<Rightarrow> 'v flow_engine \<Rightarrow> string + 'v snapshot" where
  "requireActive i e =
     (case map_of (en_active e) i of None \<Rightarrow> Inl ''flow.instance.notActive'' | Some sp \<Rightarrow> Inr sp)"

definition getInstance :: "string \<Rightarrow> 'v flow_engine \<Rightarrow> 'v snapshot option" where
  "getInstance i e = over_option (map_of (en_active e) i) (map_of (en_completed e) i)"

definition listInstances :: "string option \<Rightarrow> flow_status option \<Rightarrow> 'v flow_engine \<Rightarrow> 'v snapshot list" where
  "listInstances flowId status e =
     map snd (filter
       (\<lambda>(_, sp). (flowId \<in> {None, Some ''''} \<or> flowId = Some (sp_flowId sp)) \<and>
                 (status = None \<or> status = Some (sp_status sp)))
       (en_active e @ en_completed e))"

text \<open>The end of \<^verbatim>\<open>dispose\<close>, once every active instance it cancelled has completed.\<close>

definition dispose_engine :: "'v flow_engine \<Rightarrow> 'v flow_engine" where
  "dispose_engine e = e\<lparr>en_active := [], en_completed := []\<rparr>"

end
