(* ===== verification/Flow_Laws.thy ===== *)
theory Flow_Laws
  imports Flow_Instance
begin

text \<open>
  The rules a run of a flow keeps, whatever its nodes, hooks, handlers and projection answer and
  whoever reaches it from outside: which node may run when, how often a node is retried, and in
  which status the run ends. Calls that neither run a node nor take a result are quiet; they
  leave the position of the flow as it is.
\<close>

section \<open>Where the log leads\<close>

text \<open>The node a result leads to; a result that ends the flow leads nowhere.\<close>

fun leads :: "'v flow_definition \<Rightarrow> 'v flow_node \<Rightarrow> 'v flow_result \<Rightarrow> string option" where
  "leads d n (FrNext i _) = Some i"
| "leads d n (FrBranch b _) = (case resolveBranch d (nd_id n) b of Inl _ \<Rightarrow> None | Inr i \<Rightarrow> Some i)"
| "leads d n (FrStay i _) = Some i"
| "leads d n (FrReenter i _) = Some i"
| "leads d n (FrRetry _) = Some (nd_id n)"
| "leads d n (FrPause _) = Some (nd_id n)"
| "leads d n (FrWait _) = Some (case nd_next n of None \<Rightarrow> nd_id n | Some i \<Rightarrow> i)"
| "leads d n _ = None"

fun is_retry :: "string \<Rightarrow> 'v flow_call \<Rightarrow> bool" where
  "is_retry k (Took n (FrRetry _)) \<longleftrightarrow> nd_id n = k" | "is_retry k _ \<longleftrightarrow> False"

definition retries_of :: "string \<Rightarrow> 'v flow_log \<Rightarrow> int" where
  "retries_of k l = int (length (filter (is_retry k) l))"

definition max_attempts :: "'v flow_definition \<Rightarrow> int" where
  "max_attempts d = (case fd_retry d of None \<Rightarrow> 1 | Some p \<Rightarrow> ry_maxAttempts p)"

text \<open>
  Where the flow goes on after a result, if it goes on: not after a stay or reenter the caller wants
  to stop at, nor after a retry that is one too many.
\<close>

fun destination :: "'v flow_env \<Rightarrow> 'v flow_log \<Rightarrow> 'v flow_node \<Rightarrow> 'v flow_result \<Rightarrow> string option" where
  "destination env l n (FrStay i _) = (if fe_stopOnStay env then None else Some i)"
| "destination env l n (FrReenter i _) = (if fe_stopOnReenter env then None else Some i)"
| "destination env l n (FrRetry _) =
     (if max_attempts (fe_definition env) < 2 + retries_of (nd_id n) l then None else Some (nd_id n))"
| "destination env l n r = leads (fe_definition env) n r"

text \<open>
  The node the flow stands at: where its last result leads, or the first one; none once it has ended.
  Effects without an outcome leave it where it is.
\<close>

fun position_rev :: "'v flow_env \<Rightarrow> 'v flow_log \<Rightarrow> string option" where
  "position_rev env [] = Some (fd_startNodeId (fe_definition env))"
| "position_rev env (Took n r # l) =
     (case r of FrEffects _ \<Rightarrow> position_rev env l | _ \<Rightarrow> destination env (rev l) n r)"
| "position_rev env (_ # l) = position_rev env l"

definition position :: "'v flow_env \<Rightarrow> 'v flow_log \<Rightarrow> string option" where
  "position env l = position_rev env (rev l)"

definition stands_at :: "'v flow_env \<Rightarrow> 'v flow_log \<Rightarrow> 'v flow_node \<Rightarrow> bool" where
  "stands_at env l n \<longleftrightarrow>
     (case position env l of None \<Rightarrow> False | Some k \<Rightarrow> map_of (fd_nodes (fe_definition env)) k = Some n)"

lemma position_simps [simp]:
  "position env [] = Some (fd_startNodeId (fe_definition env))"
  "position env (l @ [Took n r]) = (case r of FrEffects _ \<Rightarrow> position env l | _ \<Rightarrow> destination env l n r)"
  "position env (l @ [RanNode n x]) = position env l"
  by (simp_all add: position_def split: flow_result.split)

fun is_finally :: "'v flow_call \<Rightarrow> bool" where
  "is_finally (RanFinally _) = True" | "is_finally _ = False"

fun flow_law :: "'v flow_env \<Rightarrow> 'v flow_log \<Rightarrow> 'v flow_call \<Rightarrow> bool" where
  "flow_law env l (RanNode n _) \<longleftrightarrow> stands_at env l n \<and> \<not> has is_finally l"
| "flow_law env l (Took n _) \<longleftrightarrow> stands_at env l n \<and> \<not> has is_finally l"
| "flow_law env l (RanFinally _) \<longleftrightarrow> \<not> has is_finally l"
| "flow_law env l _ \<longleftrightarrow> True"

fun loud :: "'v flow_call \<Rightarrow> bool" where
  "loud (RanNode _ _) = True" | "loud (Took _ _) = True" | "loud (RanFinally _) = True" | "loud _ = False"

lemma quiet_calls:
  assumes "\<not> has loud k"
  shows "position env (l @ k) = position env l" "\<not> has is_finally k" "lawful_from (flow_law env) l k"
    "retries_of i (l @ k) = retries_of i l"
proof -
  have one: "position env (l @ [c]) = position env l" "\<not> is_finally c" "flow_law env l c" "\<not> is_retry i c"
    if "\<not> loud c" for c l
    using that by (cases c; simp add: position_def)+
  show "position env (l @ k) = position env l"
    using assms
  proof (induction k rule: rev_induct)
    case (snoc c k)
    then show ?case using one(1) [of c "l @ k"] by (simp add: has_set)
  qed simp
  show "\<not> has is_finally k" using assms one(2) by (auto simp: has_set)
  show "lawful_from (flow_law env) l k"
    using assms by (induction k arbitrary: l) (simp_all add: one(3))
  have "filter (is_retry i) k = []" using assms one(4) by (auto simp: has_set filter_empty_conv)
  then show "retries_of i (l @ k) = retries_of i l" by (simp add: retries_of_def)
qed

text \<open>Where the flow has ended, no node is run any more and no result taken.\<close>

fun runs_on :: "'v flow_call \<Rightarrow> bool" where
  "runs_on (RanNode _ _) = True" | "runs_on (Took _ _) = True" | "runs_on _ = False"

lemma ended_for_good:
  assumes "lawful_from (flow_law env) l k" and "position env l = None"
  shows "\<not> has runs_on k"
  using assms
proof (induction k arbitrary: l)
  case (Cons c k)
  then have "\<not> runs_on c" by (cases c) (simp_all add: stands_at_def)
  moreover from this have "position env (l @ [c]) = None"
    using Cons.prems(2) by (cases c) (simp_all add: position_def)
  ultimately show ?case using Cons.IH [of "l @ [c]"] Cons.prems(1) by simp
qed simp

section \<open>Quiet steps\<close>

text \<open>A steady step may complete or suspend the flow; a quiet one leaves its status too.\<close>

definition steady :: "'v flow_state \<Rightarrow> 'v flow_state \<Rightarrow> bool" where
  "steady s t \<longleftrightarrow>
     (\<exists>k. fs_log t = fs_log s @ k \<and> \<not> has loud k) \<and>
     fs_currentNodeId t = fs_currentNodeId s \<and> fs_retries t = fs_retries s \<and>
     fs_completion t = fs_completion s"

definition quiet :: "'v flow_state \<Rightarrow> 'v flow_state \<Rightarrow> bool" where
  "quiet s t \<longleftrightarrow>
     steady s t \<and> fs_status t = fs_status s \<and> fs_result t = fs_result s \<and>
     (fs_cancellation s \<noteq> None \<longrightarrow> fs_cancellation t \<noteq> None)"

interpretation steadily: state_frame steady
proof
  show "steady s u" if "steady s t" "steady t u" for s t u :: "'v flow_state"
    using that unfolding steady_def by (metis append_assoc has_simps(3))
qed (simp add: steady_def)

interpretation quietly: state_frame quiet
proof
  show "quiet s u" if "quiet s t" "quiet t u" for s t u :: "'v flow_state"
    using that steadily.step_trans unfolding quiet_def by auto
qed (simp add: quiet_def steadily.step_refl)

lemma quiet_steady: "quiet s t \<Longrightarrow> steady s t"
  by (simp add: quiet_def)

lemma from_outside_quiet: "quiet s (from_outside x s)"
  by (cases x)
    (auto simp: quiet_def steady_def requestCancellation_def request_pause_def request_resume_def
      store_key_def split: option.splits)

lemma fold_outside_quiet: "quiet s (fold from_outside xs s)"
proof (induction xs arbitrary: s)
  case (Cons x xs)
  from quietly.step_trans [OF from_outside_quiet Cons.IH] show ?case by simp
qed (simp add: quietly.step_refl)

lemma wp_flow_call:
  "wp (flow_call env f c) Q R s \<longleftrightarrow>
     (case answer (f (fs_log s)) of
        Inl e \<Rightarrow> R e (waited env (c (Inl e)) s)
      | Inr x \<Rightarrow> Q x (waited env (c (Inr x)) s))"
  by (simp add: wp_def flow_call_def Let_def split: sum.splits)

lemma wp_attempt:
  "wp (attempt m h) Q R s \<longleftrightarrow> wp m Q (\<lambda>e t. if e = Unfinished then R e t else wp (h e) Q R t) s"
  unfolding attempt_def wp_handle by (rule arg_cong [of _ _ "\<lambda>R. wp m Q R s"]) (simp add: fun_eq_iff wp_raise)

lemma wp_lastly:
  "wp (lastly m n) Q R s \<longleftrightarrow>
     wp m (\<lambda>x. wp n (\<lambda>_. Q x) R) (\<lambda>e t. if e = Unfinished then R e t else wp n (\<lambda>_. R e) R t) s"
  by (auto simp: wp_def lastly_def finally_do_def split: prod.splits sum.splits)

lemma waited_quiet:
  assumes "\<not> loud c"
  shows "quiet s (waited env c s)"
proof -
  define t where "t = s\<lparr>fs_log := fs_log s @ [c]\<rparr>"
  have "quiet s t" using assms by (simp add: quiet_def steady_def t_def)
  moreover have "quiet t (waited env c s)" by (simp add: waited_def Let_def t_def fold_outside_quiet)
  ultimately show ?thesis by (rule quietly.step_trans)
qed

text \<open>What holds of every quiet call, trace and store holds of everything made of them.\<close>

locale calm_frame = state_frame step
  for step :: "'v flow_state \<Rightarrow> 'v flow_state \<Rightarrow> bool" +
  fixes env :: "'v flow_env"
  assumes calls: "\<not> loud c \<Longrightarrow> step s (waited env c s)"
    and traces: "step s (s\<lparr>fs_trace := tr\<rparr>)"
    and stores: "step s (store_key k v s)"
begin

lemma stays_call: "(\<And>r. \<not> loud (c r)) \<Longrightarrow> stays step (flow_call env f c)"
  by (simp add: stays_iff wp_flow_call calls split: sum.splits)

lemma stays_attempt: "stays step m \<Longrightarrow> (\<And>e. stays step (h e)) \<Longrightarrow> stays step (attempt m h)"
  unfolding attempt_def by (rule stays_handle) (auto simp: stays_raise)

lemma stays_change: "(\<And>s. step s (f s)) \<Longrightarrow> stays step (change f)"
  by (simp add: stays_iff wp_simps)

lemmas calm_rules = stays_rules stays_call stays_attempt stays_change

lemma stays_run_hooks: "stays step (run_hooks env name i hs)"
  by (induction hs arbitrary: i) (auto intro!: calm_rules)

lemma stays_hooks: "stays step (runFlowHooks env name)"
  unfolding runFlowHooks_def by (rule stays_run_hooks)

lemma stays_traceEvent: "stays step (traceEvent ty n rt)"
  unfolding traceEvent_def by (rule stays_change) (rule traces)

lemma stays_publish: "stays step (publish env)"
  unfolding publish_def by (intro calm_rules) simp

lemma stays_trace_flow: "stays step (trace_flow ty rt)"
  unfolding trace_flow_def by (intro calm_rules stays_traceEvent)

lemma stays_run_effects:
  "(\<And>r. stays step (again r)) \<Longrightarrow> stays step (run_effects env n again fs)"
  by (induction fs) (auto intro!: calm_rules split: option.split)

lemma stays_resolveEffects: "stays step (resolveEffects env k n r)"
  by (induction k arbitrary: r) (auto intro!: calm_rules stays_run_effects split: flow_result.split)

lemma stays_await_gate: "stays step (await_gate env k)"
  by (induction k) (auto intro!: calm_rules)

lemma stays_storeNodeOutput: "stays step (storeNodeOutput n r)"
  unfolding storeNodeOutput_def
  by (cases "output_of r") (auto intro!: calm_rules stores)

lemma stays_validate:
  "stays step (case fe_validate env of None \<Rightarrow> ret v | Some f \<Rightarrow> flow_call env (\<lambda>l. f l v) (Validated v))"
  by (auto intro!: calm_rules split: option.split)

lemma stays_catch:
  "stays step (case fe_catch env of Some f \<Rightarrow> flow_call env (\<lambda>l. f l e) (Caught e) | None \<Rightarrow> ret (FrFail e))"
  by (auto intro!: calm_rules split: option.split)

lemma stays_backoff:
  "stays step (case fd_retry (fe_definition env) of None \<Rightarrow> ret ()
      | Some p \<Rightarrow> (case ry_backoffMs p of None \<Rightarrow> ret ()
          | Some ms \<Rightarrow> if ms = 0 then ret () else flow_call env (\<lambda>_. Inr ()) (\<lambda>_. BackedOff ms)))"
  by (auto intro!: calm_rules split: option.split)

lemmas calm_parts = stays_hooks stays_traceEvent stays_publish stays_trace_flow stays_resolveEffects
  stays_await_gate stays_storeNodeOutput stays_validate stays_catch stays_backoff

end

interpretation quietly: calm_frame quiet env for env
proof
  show "quiet s (s\<lparr>fs_trace := tr\<rparr>)" for s :: "'v flow_state" and tr by (simp add: quiet_def steady_def)
  show "quiet s (store_key k v s)" for s :: "'v flow_state" and k v
    by (simp add: quiet_def steady_def store_key_def)
qed (rule waited_quiet)

lemmas quiet_rules = quietly.calm_rules
lemmas quiet_parts = quietly.calm_parts

section \<open>The invariant\<close>

text \<open>Between two nodes the flow stands where its log says, and no node has been retried too
  often; when it ends, one retry more may have been asked for.\<close>

definition core_ok :: "'v flow_env \<Rightarrow> 'v flow_state \<Rightarrow> bool" where
  "core_ok env s \<longleftrightarrow>
     lawful_from (flow_law env) [] (fs_log s) \<and> \<not> has is_finally (fs_log s) \<and>
     fs_completion s = None \<and> (\<forall>k. (case fs_retries s k of None \<Rightarrow> 1 | Some a \<Rightarrow> a) = 1 + retries_of k (fs_log s)) \<and>
     (\<forall>k. retries_of k (fs_log s) < max 1 (max_attempts (fe_definition env)))"

definition at_position :: "'v flow_env \<Rightarrow> 'v flow_state \<Rightarrow> bool" where
  "at_position env s \<longleftrightarrow> fs_currentNodeId s = position env (fs_log s)"

definition ended_ok :: "'v flow_env \<Rightarrow> 'v flow_state \<Rightarrow> bool" where
  "ended_ok env s \<longleftrightarrow>
     lawful_from (flow_law env) [] (fs_log s) \<and> \<not> has is_finally (fs_log s) \<and>
     fs_completion s = None \<and> (\<forall>k. retries_of k (fs_log s) \<le> max 1 (max_attempts (fe_definition env)))"

definition going :: "'v flow_state \<Rightarrow> bool" where
  "going s \<longleftrightarrow> fs_status s = FlowRunning \<or> fs_status s = FlowPaused \<and> fs_cancellation s \<noteq> None"

text \<open>A stay or reenter result that the caller wanted to stop at.\<close>

fun stops :: "'v flow_env \<Rightarrow> 'v flow_result \<Rightarrow> bool" where
  "stops env (FrStay _ _) = fe_stopOnStay env"
| "stops env (FrReenter _ _) = fe_stopOnReenter env"
| "stops env _ = False"

text \<open>How a run may end: in the status of its last result, stopped where the caller wanted it to
  stop, or cancelled while it was paused.\<close>

fun ends_with :: "'v flow_env \<Rightarrow> flow_status \<Rightarrow> 'v flow_result option \<Rightarrow> bool \<Rightarrow> bool" where
  "ends_with env FlowCompleted (Some (FrEnd _)) _ = True"
| "ends_with env FlowCancelled (Some (FrCancel _)) _ = True"
| "ends_with env FlowFailed (Some (FrFail _)) _ = True"
| "ends_with env FlowRunning (Some r) _ = stops env r"
| "ends_with env FlowPaused _ cancelled = cancelled"
| "ends_with env _ _ _ = False"

definition settled :: "'v flow_env \<Rightarrow> 'v flow_state \<Rightarrow> bool" where
  "settled env s \<longleftrightarrow> ends_with env (fs_status s) (fs_result s) (fs_cancellation s \<noteq> None)"

lemma core_steady: "core_ok env s \<Longrightarrow> steady s t \<Longrightarrow> core_ok env t"
  by (auto simp: core_ok_def steady_def lawful_from_append quiet_calls)

lemma ended_steady: "ended_ok env s \<Longrightarrow> steady s t \<Longrightarrow> ended_ok env t"
  by (auto simp: ended_ok_def steady_def lawful_from_append quiet_calls)

lemma core_ended: "core_ok env s \<Longrightarrow> ended_ok env s"
  unfolding core_ok_def ended_ok_def by (meson less_imp_le)

lemma position_steady: "at_position env s \<Longrightarrow> steady s t \<Longrightarrow> at_position env t"
  by (auto simp: at_position_def steady_def quiet_calls)

lemma stands_steady: "steady s t \<Longrightarrow> stands_at d (fs_log t) n = stands_at d (fs_log s) n"
  by (auto simp: stands_at_def steady_def quiet_calls)

lemma position_same: "steady s t \<Longrightarrow> position d (fs_log t) = position d (fs_log s)"
  by (auto simp: steady_def quiet_calls)

lemma core_current: "core_ok env (s\<lparr>fs_currentNodeId := k\<rparr>) = core_ok env s"
  by (simp add: core_ok_def)

section \<open>Ending and suspending\<close>

lemma wp_complete:
  "wp (complete env st r)
     (\<lambda>_ t. steady s t \<and> fs_status t = st \<and> fs_result t = Some r)
     (\<lambda>_ t. steady s t \<and> fs_status t = st \<and> fs_result t = Some r) s"
proof -
  have parts: "stays quiet (seq (trace_flow ty rt) (\<lambda>_. seq (runFlowHooks env name) (\<lambda>_. publish env)))"
    for ty rt name by (intro quiet_rules quiet_parts)
  have "steady s (s\<lparr>fs_status := st, fs_result := Some r\<rparr>)" by (simp add: steady_def)
  then show ?thesis
    unfolding complete_def wp_seq [of "change _"] wp_change
    by (intro quietly.stays_wp [OF parts]) (auto simp: quiet_def intro: steadily.step_trans)
qed

lemma wp_suspend:
  assumes "fs_status s = FlowRunning"
  shows "wp (suspend env k r) (\<lambda>_ t. steady s t \<and> going t) (\<lambda>_. steady s) s"
proof -
  define u where "u = s\<lparr>fs_result := Some r, fs_status := FlowPaused, fs_resumeGate := Some False\<rparr>"
  have "steady s u" by (simp add: steady_def u_def)
  have wait: "stays quiet (seq (publish env) (\<lambda>_. await_gate env k))" by (intro quiet_rules quiet_parts)
  have go: "wp (seq (change (\<lambda>s. s\<lparr>fs_resumeGate := None\<rparr>)) (\<lambda>_.
      seq (ask fs_cancellation) (\<lambda>c.
      if c \<noteq> None then ret ()
      else seq (change (\<lambda>s. s\<lparr>fs_status := FlowRunning\<rparr>)) (\<lambda>_. publish env))))
      (\<lambda>_ t. steady s t \<and> going t) (\<lambda>_. steady s) v" if v: "quiet u v" for v
  proof -
    have "steady s v" using \<open>steady s u\<close> quiet_steady [OF v] by (rule steadily.step_trans)
    then have same: "steady s (v\<lparr>fs_resumeGate := None\<rparr>)" "steady s (v\<lparr>fs_resumeGate := None, fs_status := FlowRunning\<rparr>)"
      by (simp_all add: steady_def)
    have "fs_status v = FlowPaused" using v by (simp add: quiet_def u_def)
    then show ?thesis
      using same
      by (auto simp: wp_simps going_def quiet_def
          intro!: quietly.stays_wp [OF quietly.stays_publish] intro: steadily.step_trans)
  qed
  have "wp (seq (seq (publish env) (\<lambda>_. await_gate env k)) (\<lambda>_.
      seq (change (\<lambda>s. s\<lparr>fs_resumeGate := None\<rparr>)) (\<lambda>_.
      seq (ask fs_cancellation) (\<lambda>c.
      if c \<noteq> None then ret ()
      else seq (change (\<lambda>s. s\<lparr>fs_status := FlowRunning\<rparr>)) (\<lambda>_. publish env)))))
      (\<lambda>_ t. steady s t \<and> going t) (\<lambda>_. steady s) u"
    unfolding wp_seq [of "seq (publish env) _"]
    by (rule quietly.stays_wp [OF wait])
      (use go \<open>steady s u\<close> quiet_steady steadily.step_trans in blast)+
  then show ?thesis by (simp add: suspend_def wp_seq [abs_def] wp_change [abs_def] u_def)
qed

section \<open>Taking a result\<close>

definition onward :: "'v flow_env \<Rightarrow> 'v flow_state \<Rightarrow> bool" where
  "onward env s \<longleftrightarrow> core_ok env s \<and> at_position env s \<and> going s"

definition over :: "'v flow_env \<Rightarrow> 'v flow_state \<Rightarrow> bool" where
  "over env s \<longleftrightarrow> ended_ok env s \<and> settled env s"

definition stopped_or_onward :: "'v flow_env \<Rightarrow> bool \<Rightarrow> 'v flow_state \<Rightarrow> bool" where
  "stopped_or_onward env stopped s \<longleftrightarrow> (if stopped then over env s else onward env s)"

abbreviation takes :: "'v flow_env \<Rightarrow> ('v, bool) flow_io \<Rightarrow> 'v flow_state \<Rightarrow> bool" where
  "takes env m \<equiv> wp m (stopped_or_onward env) (\<lambda>_. ended_ok env)"

lemma takes_complete:
  assumes "ended_ok env s" and "ends_with env st (Some r) False"
  shows "takes env (seq (complete env st r) (\<lambda>_. ret True)) s"
proof -
  have "ends_with env st (Some r) b" for b using assms(2) by (cases st; cases r) simp_all
  then show ?thesis
    unfolding wp_seq wp_ret
    by (intro wp_weaken [OF wp_complete])
      (use assms(1) in \<open>auto simp: stopped_or_onward_def over_def settled_def intro: ended_steady\<close>)
qed

lemma takes_go_to:
  assumes "core_ok env s" and "going s" and "position env (fs_log s) = Some i"
  shows "takes env (go_to i) s"
  using assms
  by (simp add: go_to_def wp_simps stopped_or_onward_def onward_def core_current at_position_def going_def)

lemma takes_suspend:
  assumes "core_ok env s" and "fs_status s = FlowRunning" and "position env (fs_log s) = Some i"
  shows "takes env (seq (suspend env k r) (\<lambda>_. go_to i)) s"
proof -
  have "takes env (go_to i) t" if t: "steady s t" "going t" for t
    by (rule takes_go_to [OF core_steady [OF assms(1) t(1)] t(2)])
      (simp add: position_same [OF t(1)] assms(3))
  then show ?thesis
    unfolding wp_seq
    by (intro wp_weaken [OF wp_suspend [OF assms(2)]])
      (use assms(1) core_ended core_steady in blast)+
qed

lemma takes_publish:
  assumes "core_ok env s" and "fs_status s = FlowRunning" and "fs_result s = Some r" and "stops env r"
  shows "takes env (seq (publish env) (\<lambda>_. ret True)) s"
proof -
  have "ended_ok env t" if "quiet s t" for t
    using core_ended [OF assms(1)] quiet_steady [OF that] by (rule ended_steady)
  then show ?thesis
    unfolding wp_seq wp_ret
    by (intro quietly.stays_wp [OF quietly.stays_publish])
      (use assms(2-4) in \<open>auto simp: stopped_or_onward_def over_def settled_def quiet_def\<close>)
qed

lemma takes_end:
  assumes "core_ok env s"
  shows "takes env (seq (end_flow env v) (\<lambda>_. ret True)) s"
proof -
  have validated: "stays quiet (case fe_validate env of None \<Rightarrow> ret v
      | Some f \<Rightarrow> flow_call env (\<lambda>l. f l v) (Validated v))"
    by (rule quietly.calm_parts)
  have "takes env (seq (complete env FlowCompleted (FrEnd v)) (\<lambda>_. ret True)) (t\<lparr>fs_output := out\<rparr>)"
    if "quiet s t" for t out
  proof (rule takes_complete)
    have "steady s (t\<lparr>fs_output := out\<rparr>)" using quiet_steady [OF that] by (simp add: steady_def)
    then show "ended_ok env (t\<lparr>fs_output := out\<rparr>)" by (rule ended_steady [OF core_ended [OF assms]])
  qed simp
  then show ?thesis
    unfolding end_flow_def wp_seq [abs_def] wp_change [abs_def]
    by (intro quietly.stays_wp [OF validated])
      (use core_ended [OF assms] quiet_steady ended_steady in blast)+
qed

lemma takes_retry:
  assumes s: "core_ok env s" "at_position env s" "fs_status s = FlowRunning"
    and n: "stands_at env (fs_log s) n"
    and t: "t = s\<lparr>fs_result := Some (FrRetry c), fs_log := fs_log s @ [Took n (FrRetry c)]\<rparr>"
  shows "takes env (retry_node env n c) t"
proof -
  let ?d = "fe_definition env"
  define a where "a = 1 + retries_of (nd_id n) (fs_log t)"
  define u where "u = t\<lparr>fs_retries := (fs_retries t)(nd_id n \<mapsto> a)\<rparr>"
  have counts: "retries_of k (fs_log t) = retries_of k (fs_log s) + (if k = nd_id n then 1 else 0)" for k
    by (simp add: t retries_of_def)
  have attempts: "(case fs_retries t (nd_id n) of None \<Rightarrow> 1 | Some a \<Rightarrow> a) + 1 = a"
  proof -
    have "(case fs_retries s (nd_id n) of None \<Rightarrow> 1 | Some a \<Rightarrow> a) = 1 + retries_of (nd_id n) (fs_log s)"
      using s(1) by (simp add: core_ok_def)
    moreover have "fs_retries t = fs_retries s" by (simp add: t)
    ultimately show ?thesis by (simp add: a_def counts)
  qed
  have log: "lawful_from (flow_law env) [] (fs_log t)" "\<not> has is_finally (fs_log t)" "fs_completion t = None"
    using s(1) n by (simp_all add: core_ok_def t lawful_from_append)
  have low: "retries_of k (fs_log s) < max 1 (max_attempts ?d)" for k using s(1) by (simp add: core_ok_def)
  have ended: "ended_ok env u"
    unfolding ended_ok_def
  proof (intro conjI allI)
    show "retries_of k (fs_log u) \<le> max 1 (max_attempts ?d)" for k
      using low [of k] by (auto simp: u_def counts)
  qed (use log in \<open>simp_all add: u_def\<close>)
  have failed: "takes env (seq (complete env FlowFailed (FrFail (RetryExceeded (nd_id n) c))) (\<lambda>_. ret True)) u"
    by (rule takes_complete [OF ended]) simp
  have again: "takes env (seq (case fd_retry ?d of None \<Rightarrow> ret ()
      | Some p \<Rightarrow> (case ry_backoffMs p of None \<Rightarrow> ret ()
          | Some ms \<Rightarrow> if ms = 0 then ret () else flow_call env (\<lambda>_. Inr ()) (\<lambda>_. BackedOff ms)))
      (\<lambda>_. go_to (nd_id n))) u"
    if "a \<le> max_attempts ?d"
  proof -
    have "retries_of k (fs_log u) < max 1 (max_attempts ?d)" for k
      using low [of k] that by (auto simp: u_def a_def counts)
    moreover have "(case fs_retries s k of None \<Rightarrow> 1 | Some a \<Rightarrow> a) = 1 + retries_of k (fs_log s)" for k
      using s(1) by (simp add: core_ok_def)
    moreover have "fs_retries t = fs_retries s" by (simp add: t)
    ultimately have core: "core_ok env u"
      using log by (simp add: core_ok_def u_def a_def counts)
    have backoff: "stays quiet (case fd_retry ?d of None \<Rightarrow> ret ()
      | Some p \<Rightarrow> (case ry_backoffMs p of None \<Rightarrow> ret ()
          | Some ms \<Rightarrow> if ms = 0 then ret () else flow_call env (\<lambda>_. Inr ()) (\<lambda>_. BackedOff ms)))"
      by (rule quietly.calm_parts)
    have pos: "position env (fs_log u) = Some (nd_id n)"
      using that by (simp add: u_def t a_def retries_of_def)
    have "takes env (go_to (nd_id n)) v" if v: "quiet u v" for v
    proof (rule takes_go_to [OF core_steady [OF core quiet_steady [OF v]]])
      show "going v" using v s(3) by (simp add: going_def quiet_def u_def t)
      show "position env (fs_log v) = Some (nd_id n)" using position_same [OF quiet_steady [OF v]] pos by simp
    qed
    then show ?thesis
      unfolding wp_seq
      by (intro quietly.stays_wp [OF backoff]) (use ended quiet_steady ended_steady in blast)+
  qed
  show ?thesis
    unfolding retry_node_def wp_seq [of "ask _"] wp_ask wp_seq [of "change _"] wp_change attempts
    using failed again by (simp add: u_def max_attempts_def)
qed

lemma takes_transition:
  assumes s: "core_ok env s" "at_position env s" "fs_status s = FlowRunning"
    and n: "stands_at env (fs_log s) n"
  shows "takes env (transition env k n r) s"
proof (cases "\<exists>c. r = FrRetry c")
  case True
  then obtain c where r: "r = FrRetry c" by blast
  show ?thesis
    unfolding transition_def wp_seq wp_change r storeNodeOutput_def output_of.simps option.case wp_ret
      follow_result_def flow_result.case
    by (rule takes_retry [OF s n refl])
next
  case False
  let ?d = "fe_definition env"
  define t where "t = s\<lparr>fs_result := Some r, fs_log := fs_log s @ [Took n r]\<rparr>"
  have "\<not> is_retry k (Took n r)" for k using False by (cases r) simp_all
  then have t: "core_ok env t"
    using s(1) n by (simp add: core_ok_def t_def lawful_from_append retries_of_def)
  have next_pos: "position env (fs_log t) = (case r of FrEffects _ \<Rightarrow> position env (fs_log s) | _ \<Rightarrow> destination env (fs_log s) n r)"
    by (simp add: t_def)
  have "takes env (follow_result env k n r) u" if u: "quiet t u" for u
  proof -
    have core: "core_ok env u" using t quiet_steady [OF u] by (rule core_steady)
    have run: "fs_status u = FlowRunning" "fs_result u = Some r" and "going u"
      using u s(3) by (simp_all add: quiet_def t_def going_def)
    have pos: "position env (fs_log u) = (case r of FrEffects _ \<Rightarrow> position env (fs_log s) | _ \<Rightarrow> destination env (fs_log s) n r)"
      using position_same [OF quiet_steady [OF u]] next_pos by simp
    have current: "fs_currentNodeId u = position env (fs_log s)"
      using u s(2) by (simp add: quiet_def steady_def t_def at_position_def)
    show ?thesis
    proof (cases r)
      case (FrBranch b v)
      show ?thesis
        using pos core \<open>going u\<close>
        by (cases "resolveBranch ?d (nd_id n) b")
          (simp_all add: follow_result_def FrBranch wp_raise core_ended takes_go_to)
    next
      case (FrEffects fs)
      then show ?thesis
        using pos core \<open>going u\<close> current
        by (simp add: follow_result_def wp_ret stopped_or_onward_def onward_def at_position_def)
    qed (use False pos core run \<open>going u\<close> in
        \<open>auto simp: follow_result_def intro!: takes_go_to takes_suspend takes_publish takes_end takes_complete core_ended\<close>)
  qed
  then show ?thesis
    unfolding transition_def wp_seq [of "change _"] wp_change t_def [symmetric] wp_seq [of "storeNodeOutput _ _"]
    by (intro quietly.stays_wp [OF quietly.stays_storeNodeOutput])
      (use core_ended [OF t] quiet_steady ended_steady in blast)+
qed

section \<open>Running a node\<close>

definition at_node :: "'v flow_env \<Rightarrow> 'v flow_node \<Rightarrow> 'v flow_state \<Rightarrow> bool" where
  "at_node env n s \<longleftrightarrow>
     core_ok env s \<and> at_position env s \<and> fs_status s = FlowRunning \<and>
     stands_at env (fs_log s) n"

lemma at_node_quiet: "at_node env n s \<Longrightarrow> quiet s t \<Longrightarrow> at_node env n t"
  unfolding at_node_def
  by (auto simp: quiet_def stands_steady intro: core_steady position_steady)

lemma at_node_ran: "at_node env n s \<Longrightarrow> at_node env n (waited env (RanNode n r) s)"
proof -
  assume s: "at_node env n s"
  have "at_node env n (s\<lparr>fs_log := fs_log s @ [RanNode n r]\<rparr>)"
    using s by (simp add: at_node_def core_ok_def at_position_def stands_at_def position_def
        lawful_from_append retries_of_def)
  then show ?thesis
    unfolding waited_def Let_def by (rule at_node_quiet) (rule fold_outside_quiet)
qed

interpretation keeping: state_frame "\<lambda>s t. at_node env n s \<longrightarrow> at_node env n t" for env n
  by unfold_locales blast+

abbreviation keeps_node :: "'v flow_env \<Rightarrow> 'v flow_node \<Rightarrow> ('v, 'a) flow_io \<Rightarrow> bool" where
  "keeps_node env n \<equiv> stays (\<lambda>s t. at_node env n s \<longrightarrow> at_node env n t)"

lemma keeps_quiet: "stays quiet m \<Longrightarrow> keeps_node env n m"
  unfolding stays_def using at_node_quiet by blast

lemma keeps_race: "keeps_node env n (raceNodeExecution env ex n)"
proof -
  have "keeps_node env n (flow_call env (\<lambda>_. r) (RanNode n))" for r
    by (auto simp: keeping.stays_iff wp_flow_call at_node_ran split: sum.splits)
  moreover have "keeps_node env n (change (fold from_outside es))" for es
    by (intro keeps_quiet quietly.stays_change fold_outside_quiet)
  ultimately show ?thesis
    unfolding raceNodeExecution_def
    by (intro keeping.stays_rules) (auto intro!: keeping.stays_seq split: prod.split)
qed

lemma keeps_node_race: "keeps_node env n (node_race env k n)"
  unfolding node_race_def
  by (auto intro!: keeping.stays_rules keeps_race keeps_quiet [OF quietly.stays_hooks] keeps_quiet [OF quietly.stays_resolveEffects]
      keeps_quiet [OF quietly.stays_traceEvent] split: sum.split node_outcome.split)

lemma keeps_node_result: "keeps_node env n (node_result env k n)"
proof -
  have "keeps_node env n (attempt (node_race env k n) (\<lambda>e. seq (runFlowHooks env ''onNodeError'') (\<lambda>_. raise e)))"
    unfolding attempt_def
    by (auto intro!: keeping.stays_rules keeps_node_race keeps_quiet [OF quietly.stays_hooks])
  then have "keeps_node env n (execute_node env k n)"
    unfolding execute_node_def
    by (intro keeping.stays_rules keeps_quiet [OF quietly.stays_hooks] keeps_quiet [OF quietly.stays_traceEvent])
  moreover have "keeps_node env n (change (\<lambda>s. s\<lparr>fs_interruptConsumed := f s\<rparr>))" for f
    by (intro keeps_quiet quietly.stays_change) (simp add: quiet_def steady_def)
  moreover have "keeps_node env n (case fe_catch env of Some f \<Rightarrow> flow_call env (\<lambda>l. f l e) (Caught e) | None \<Rightarrow> ret (FrFail e))" for e
    by (intro keeps_quiet quietly.stays_catch)
  ultimately show ?thesis
    unfolding node_result_def attempt_def
    by (auto intro!: keeping.stays_rules split: prod.split)
qed

lemma takes_run_node:
  assumes s: "core_ok env s" "at_position env s" "fs_status s = FlowRunning"
  shows "takes env (run_node env k) s"
proof -
  let ?d = "fe_definition env"
  have found: "wp (requireCurrentNode env) (\<lambda>n t. t = s \<and> at_node env n s) (\<lambda>_. ended_ok env) s"
    using s core_ended [OF s(1)]
    by (simp add: requireCurrentNode_def wp_simps at_node_def stands_at_def at_position_def split: option.split)
  have node: "takes env (seq (publish env) (\<lambda>_.
      seq (change (\<lambda>s. s\<lparr>fs_nodeExecutionSequence := Suc (fs_nodeExecutionSequence s)\<rparr>)) (\<lambda>_.
      seq (node_result env k n) (transition env k n)))) t" if t: "at_node env n t" for n t
  proof -
    have ended: "ended_ok env u" if "at_node env n u" for u
      using that core_ended by (auto simp: at_node_def)
    have "keeps_node env n (seq (publish env) (\<lambda>_.
      seq (change (\<lambda>s. s\<lparr>fs_nodeExecutionSequence := Suc (fs_nodeExecutionSequence s)\<rparr>)) (\<lambda>_.
      node_result env k n)))"
      by (intro keeping.stays_rules keeps_node_result keeps_quiet [OF quietly.stays_publish] keeps_quiet [OF quietly.stays_change])
        (simp add: quiet_def steady_def)
    then have "wp (seq (publish env) (\<lambda>_.
      seq (change (\<lambda>s. s\<lparr>fs_nodeExecutionSequence := Suc (fs_nodeExecutionSequence s)\<rparr>)) (\<lambda>_.
      node_result env k n))) (\<lambda>r. takes env (transition env k n r)) (\<lambda>_. ended_ok env) t"
      by (rule keeping.stays_wp)
        (use t ended takes_transition in \<open>auto simp: at_node_def\<close>)
    then show ?thesis by (simp add: wp_seq [abs_def])
  qed
  have "at_node env n (s\<lparr>fs_path := p\<rparr>)" if "at_node env n s" for n p
    using that by (rule at_node_quiet) (simp add: quiet_def steady_def)
  then show ?thesis
    unfolding run_node_def wp_seq [of "requireCurrentNode _"]
    by (intro wp_weaken [OF found]) (auto simp: wp_seq [of "change _"] wp_change intro!: node)
qed

lemma wp_runNodes:
  assumes "onward env s"
  shows "wp (runNodes env k) (\<lambda>_. over env) (\<lambda>_. ended_ok env) s"
  using assms
proof (induction k arbitrary: s)
  case 0
  then show ?case by (simp add: wp_raise onward_def core_ended)
next
  case (Suc k)
  from Suc.prems have s: "core_ok env s" "at_position env s" "going s" by (simp_all add: onward_def)
  show ?case
  proof (cases "fs_status s = FlowRunning")
    case False
    with s show ?thesis
      by (auto simp: wp_seq wp_ask wp_ret over_def settled_def going_def core_ended)
  next
    case True
    have cancel: "wp (completeCancellation env reason) (\<lambda>_. over env) (\<lambda>_. ended_ok env) s" for reason
      unfolding completeCancellation_def
      by (intro wp_weaken [OF wp_complete])
        (use core_ended [OF s(1)] ended_steady in \<open>auto simp: over_def settled_def\<close>)
    have "wp (runNodes env k) (\<lambda>_. over env) (\<lambda>_. ended_ok env) (t\<lparr>fs_pauseRequested := None\<rparr>)"
      if "steady s t" "going t" for t
    proof (rule Suc.IH)
      have "steady t (t\<lparr>fs_pauseRequested := None\<rparr>)" by (simp add: steady_def)
      with that s show "onward env (t\<lparr>fs_pauseRequested := None\<rparr>)"
        unfolding onward_def
        by (auto simp: going_def intro: core_steady position_steady)
    qed
    then have pause: "wp (seq (suspend env k r) (\<lambda>_.
        seq (change (\<lambda>s. s\<lparr>fs_pauseRequested := None\<rparr>)) (\<lambda>_. runNodes env k))) (\<lambda>_. over env) (\<lambda>_. ended_ok env) s" for r
      unfolding wp_seq [of "suspend _ _ _"]
      by (intro wp_weaken [OF wp_suspend [OF True]])
        (use core_ended [OF s(1)] ended_steady in \<open>auto simp: wp_seq wp_change\<close>)
    have node: "wp (seq (run_node env k) (\<lambda>stopped. if stopped then ret () else runNodes env k))
        (\<lambda>_. over env) (\<lambda>_. ended_ok env) s"
      unfolding wp_seq
      by (intro wp_weaken [OF takes_run_node [OF s(1,2) True]])
        (auto simp: stopped_or_onward_def wp_ret Suc.IH split: if_splits)
    show ?thesis
      using True cancel pause node
      by (simp add: wp_seq [of "ask _"] wp_ask split: option.split)
  qed
qed

section \<open>A run from start to end\<close>

definition lawful_run :: "'v flow_env \<Rightarrow> 'v flow_state \<Rightarrow> bool" where
  "lawful_run env s \<longleftrightarrow>
     lawful_from (flow_law env) [] (fs_log s) \<and>
     (\<forall>k. retries_of k (fs_log s) \<le> max 1 (max_attempts (fe_definition env)))"

text \<open>A completion is the last snapshot of a run that has ended as it may, its clean-up done.\<close>

definition resolved :: "'v flow_env \<Rightarrow> 'v flow_state \<Rightarrow> bool" where
  "resolved env s \<longleftrightarrow>
     settled env s \<and> (fe_finally env \<noteq> None \<longrightarrow> has is_finally (fs_log s)) \<and>
     (\<exists>sp. fs_completion s = Some sp \<and> sp_status sp = fs_status s \<and> sp_result sp = fs_result s)"

lemma ended_lawful: "ended_ok env s \<Longrightarrow> lawful_run env s"
  by (simp add: ended_ok_def lawful_run_def)

lemma lawful_steady: "lawful_run env s \<Longrightarrow> steady s t \<Longrightarrow> lawful_run env t"
  by (auto simp: lawful_run_def steady_def lawful_from_append quiet_calls)

lemma completion_steady: "steady s t \<Longrightarrow> fs_completion t = fs_completion s"
  by (simp add: steady_def)

lemma finally_steady: "steady s t \<Longrightarrow> has is_finally (fs_log t) = has is_finally (fs_log s)"
  by (auto simp: steady_def quiet_calls)

lemma ends_with_mono: "ends_with env st r b \<Longrightarrow> (b \<longrightarrow> c) \<Longrightarrow> ends_with env st r c"
  by (induction st r b rule: ends_with.induct) auto

lemma settled_quiet: "settled env s \<Longrightarrow> quiet s t \<Longrightarrow> settled env t"
  unfolding settled_def quiet_def by (auto elim: ends_with_mono)

lemma wp_clean_up:
  assumes s: "ended_ok env s" "settled env s"
  shows "wp (clean_up env) (\<lambda>_ t. lawful_run env t \<and> resolved env t)
    (\<lambda>_ t. lawful_run env t \<and> fs_completion t = None) s"
proof -
  define cleaned where "cleaned t \<longleftrightarrow> lawful_run env t \<and> settled env t \<and> fs_completion t = None \<and>
    (fe_finally env \<noteq> None \<longrightarrow> has is_finally (fs_log t))" for t
  have cleaned_quiet: "cleaned u" if "cleaned t" "quiet t u" for t u
    using that unfolding cleaned_def
    by (auto simp: finally_steady [OF quiet_steady] completion_steady [OF quiet_steady] intro: lawful_steady settled_quiet quiet_steady)
  have ran: "cleaned (waited env (RanFinally r) s)" for r
  proof (rule cleaned_quiet)
    show "cleaned (s\<lparr>fs_log := fs_log s @ [RanFinally r]\<rparr>)"
      using s by (simp add: cleaned_def lawful_run_def ended_ok_def lawful_from_append retries_of_def settled_def)
    show "quiet (s\<lparr>fs_log := fs_log s @ [RanFinally r]\<rparr>) (waited env (RanFinally r) s)"
      by (simp add: waited_def Let_def fold_outside_quiet)
  qed
  have first: "wp (case fe_finally env of None \<Rightarrow> ret () | Some f \<Rightarrow> flow_call env f RanFinally)
      (\<lambda>_. cleaned) (\<lambda>_. cleaned) s"
  proof (cases "fe_finally env")
    case None
    with s show ?thesis by (simp add: wp_ret cleaned_def ended_lawful) (simp add: ended_ok_def)
  next
    case (Some f)
    then show ?thesis by (simp add: wp_flow_call ran split: sum.split)
  qed
  have hooks: "wp (runFlowHooks env name) (\<lambda>_. cleaned) (\<lambda>_. cleaned) t" if "cleaned t" for name t
    by (rule quietly.stays_wp [OF quietly.stays_hooks]) (use cleaned_quiet [OF that] in blast)+
  have fail: "wp (complete env FlowFailed (FrFail e)) (\<lambda>_. cleaned) (\<lambda>_. cleaned) t" if t: "cleaned t" for t e
  proof -
    have "cleaned u" if "steady t u" "fs_status u = FlowFailed" "fs_result u = Some (FrFail e)" for u
      using t that unfolding cleaned_def settled_def
      by (auto simp: finally_steady completion_steady intro: lawful_steady)
    then show ?thesis by (simp add: wp_weaken [OF wp_complete])
  qed
  have "wp (attempt (seq (case fe_finally env of None \<Rightarrow> ret () | Some f \<Rightarrow> flow_call env f RanFinally)
        (\<lambda>_. runFlowHooks env ''onFlowFinally''))
      (\<lambda>e. seq (ask active) (\<lambda>a. if a then complete env FlowFailed (FrFail e) else ret ())))
      (\<lambda>_. cleaned) (\<lambda>_. cleaned) s"
    unfolding wp_attempt wp_seq
    by (rule wp_weaken [OF first]) (auto simp: wp_ask wp_ret fail intro!: wp_weaken [OF hooks])
  then show ?thesis
    unfolding clean_up_def wp_seq wp_change
    by (rule wp_weaken)
      (auto simp: cleaned_def resolved_def lawful_run_def settled_def snapshot_of_def)
qed

lemma wp_flow_body:
  assumes "onward env s"
  shows "wp (flow_body env k) (\<lambda>_. over env) (\<lambda>_. ended_ok env) s"
proof -
  have quiet_onward: "onward env u" if "onward env t" "quiet t u" for t u
    using that unfolding onward_def
    by (auto simp: going_def quiet_def intro: core_steady position_steady)
  have ended: "ended_ok env t" if "onward env t" for t
    using that core_ended by (auto simp: onward_def)
  have "stays quiet (seq (runFlowHooks env ''beforeFlowStart'') (\<lambda>_.
     seq (trace_flow ''flow.started'' None) (\<lambda>_.
     seq (publish env) (\<lambda>_. runFlowHooks env ''afterFlowStart''))))"
    by (intro quiet_rules quiet_parts)
  then have "wp (seq (runFlowHooks env ''beforeFlowStart'') (\<lambda>_.
     seq (trace_flow ''flow.started'' None) (\<lambda>_.
     seq (publish env) (\<lambda>_. runFlowHooks env ''afterFlowStart''))))
     (\<lambda>_. wp (runNodes env k) (\<lambda>_. over env) (\<lambda>_. ended_ok env)) (\<lambda>_. ended_ok env) s"
    by (rule quietly.stays_wp) (use quiet_onward [OF assms] ended wp_runNodes in blast)+
  then show ?thesis by (simp add: flow_body_def wp_seq [abs_def])
qed

lemma wp_run_flow:
  assumes "onward env s"
  shows "wp (run_flow env k) (\<lambda>_ t. lawful_run env t \<and> resolved env t)
    (\<lambda>e t. lawful_run env t \<and> (fs_completion t = None \<or> resolved env t)) s"
proof -
  have fail: "wp (complete env FlowFailed (FrFail e)) (\<lambda>_. over env) (\<lambda>_. over env) t" if "ended_ok env t" for e t
    by (rule wp_weaken [OF wp_complete])
      (use ended_steady [OF that] in \<open>auto simp: over_def settled_def\<close>)
  have body: "wp (attempt (flow_body env k) (\<lambda>e. complete env FlowFailed (FrFail e))) (\<lambda>_. over env)
      (\<lambda>e t. ended_ok env t \<and> (e \<noteq> Unfinished \<longrightarrow> over env t)) s"
    unfolding wp_attempt
    by (rule wp_weaken [OF wp_flow_body [OF assms]])
      (auto simp: over_def intro!: wp_weaken [OF fail])
  have clean: "wp (clean_up env) (\<lambda>_ t. lawful_run env t \<and> resolved env t)
      (\<lambda>_ t. lawful_run env t \<and> (fs_completion t = None \<or> resolved env t)) t" if "over env t" for t
    by (rule wp_weaken [OF wp_clean_up]) (use that in \<open>auto simp: over_def\<close>)
  show ?thesis
    unfolding run_flow_def wp_lastly
  proof (rule wp_weaken [OF body])
    fix e t assume "ended_ok env t \<and> (e \<noteq> Unfinished \<longrightarrow> over env t)"
    then show "if e = Unfinished then lawful_run env t \<and> (fs_completion t = None \<or> resolved env t)
        else wp (clean_up env) (\<lambda>_ t. lawful_run env t \<and> (fs_completion t = None \<or> resolved env t))
          (\<lambda>_ t. lawful_run env t \<and> (fs_completion t = None \<or> resolved env t)) t"
      by (auto simp: ended_lawful ended_ok_def intro!: wp_weaken [OF clean])
  qed (rule clean)
qed

lemma started_onward: "onward env (linkExternalCancellation env (new_instance env))"
  by (simp add: linkExternalCancellation_def new_instance_def requestCancellation_def onward_def
      core_ok_def at_position_def going_def position_def retries_of_def active_def)

end
