(* ===== verification/Flow_Ending.thy ===== *)
theory Flow_Ending
  imports Flow_Laws
begin

text \<open>
  A flow whose nodes lead only forward comes to an end: if every result its executors give
  leads to a node of a lower rank, or ends the flow, and nobody pauses it, then as many steps
  as the rank of its first node, and one more, are enough.
\<close>

section \<open>Computations that do not run out of steps\<close>

definition finishes :: "('v, 'a) flow_io \<Rightarrow> bool" where
  "finishes m \<longleftrightarrow> (\<forall>s. wp m (\<lambda>_ _. True) (\<lambda>e _. e \<noteq> Unfinished) s)"

lemma finishesD: "finishes m \<Longrightarrow> wp m (\<lambda>_ _. True) (\<lambda>e _. e \<noteq> Unfinished) s"
  by (simp add: finishes_def)

lemma finishes_ret: "finishes (ret x)"
  and finishes_change: "finishes (change f)"
  and finishes_ask: "finishes (ask g)"
  and finishes_raise: "e \<noteq> Unfinished \<Longrightarrow> finishes (raise e)"
  by (simp_all add: finishes_def wp_simps)

lemma finishes_seq: "finishes m \<Longrightarrow> (\<And>x. finishes (f x)) \<Longrightarrow> finishes (seq m f)"
  unfolding finishes_def wp_seq by (blast intro: wp_weaken)

lemma finishes_attempt: "(\<And>e. e \<noteq> Unfinished \<Longrightarrow> finishes (h e)) \<Longrightarrow> finishes m \<Longrightarrow> finishes (attempt m h)"
  unfolding finishes_def wp_attempt by (auto intro!: wp_weaken [of m])

lemma finishes_call: "finishes (flow_call env f c)"
  by (auto simp: finishes_def wp_flow_call answer_def split: sum.split)

lemmas finishes_rules = finishes_ret finishes_change finishes_ask finishes_seq finishes_call

lemma finishes_run_hooks: "finishes (run_hooks env name i hs)"
  by (induction hs arbitrary: i) (auto intro!: finishes_rules)

lemma finishes_hooks: "finishes (runFlowHooks env name)"
  unfolding runFlowHooks_def by (rule finishes_run_hooks)

lemma finishes_trace: "finishes (traceEvent ty n rt)" "finishes (trace_flow ty rt)"
  unfolding traceEvent_def trace_flow_def by (intro finishes_rules)+

lemma finishes_publish: "finishes (publish env)"
  unfolding publish_def by (intro finishes_rules)

lemma finishes_complete: "finishes (complete env st r)"
  unfolding complete_def by (intro finishes_rules finishes_hooks finishes_trace finishes_publish)

lemma finishes_store: "finishes (storeNodeOutput n r)"
  unfolding storeNodeOutput_def by (auto intro!: finishes_rules split: option.split)

lemma finishes_end: "finishes (end_flow env v)"
  unfolding end_flow_def by (auto intro!: finishes_rules finishes_complete split: option.split)

lemma finishes_clean_up: "finishes (clean_up env)"
  unfolding clean_up_def
  by (auto intro!: finishes_rules finishes_attempt finishes_hooks finishes_complete split: option.split)

section \<open>A flow nobody pauses\<close>

fun is_pause :: "'v external \<Rightarrow> bool" where
  "is_pause (XPause _) = True" | "is_pause _ = False"

definition peaceful :: "'v flow_env \<Rightarrow> bool" where
  "peaceful env \<longleftrightarrow> (\<forall>l. \<forall>x \<in> set (fe_external env l). \<not> is_pause x)"

definition undisturbed :: "'v flow_env \<Rightarrow> 'v flow_state \<Rightarrow> 'v flow_state \<Rightarrow> bool" where
  "undisturbed env s t \<longleftrightarrow>
     (peaceful env \<longrightarrow>
        fs_pauseRequested t = fs_pauseRequested s \<and> fs_status t = fs_status s \<and>
        fs_currentNodeId t = fs_currentNodeId s)"

lemma outside_undisturbed:
  "(\<forall>x \<in> set xs. \<not> is_pause x) \<Longrightarrow> undisturbed env s (fold from_outside xs s)"
proof (induction xs arbitrary: s)
  case (Cons x xs)
  have "undisturbed env s (from_outside x s)"
    using Cons.prems
    by (cases x) (auto simp: undisturbed_def requestCancellation_def request_resume_def store_key_def
        split: option.splits)
  with Cons.IH [of "from_outside x s"] Cons.prems show ?case by (simp add: undisturbed_def)
qed (simp add: undisturbed_def)

interpretation calmly: calm_frame "undisturbed env" env for env
proof
  show "undisturbed env s (waited env c s)" for s c
  proof (cases "peaceful env")
    case True
    then have "undisturbed env t (fold from_outside (fe_external env l) t)" for l t
      by (intro outside_undisturbed) (simp add: peaceful_def)
    from this [of "s\<lparr>fs_log := fs_log s @ [c]\<rparr>"] show ?thesis
      by (simp add: undisturbed_def waited_def Let_def)
  qed (simp add: undisturbed_def)
qed (auto simp: undisturbed_def store_key_def)

section \<open>Nodes that lead forward\<close>

fun suspends :: "'v flow_result \<Rightarrow> bool" where
  "suspends (FrWait _) = True" | "suspends (FrPause _) = True" | "suspends (FrEffects _) = True"
| "suspends _ = False"

definition forward :: "'v flow_definition \<Rightarrow> (string \<Rightarrow> nat) \<Rightarrow> string \<Rightarrow> 'v flow_node \<Rightarrow> 'v flow_result \<Rightarrow> bool" where
  "forward d rank k n r \<longleftrightarrow> \<not> suspends r \<and> (\<forall>j. leads d n r = Some j \<longrightarrow> rank j < rank k)"

definition leads_forward :: "'v flow_env \<Rightarrow> (string \<Rightarrow> nat) \<Rightarrow> bool" where
  "leads_forward env rank \<longleftrightarrow>
     fe_catch env = None \<and> \<not> fe_interruptible env \<and> peaceful env \<and>
     (\<forall>k n ex l es x. map_of (fd_nodes (fe_definition env)) k = Some n \<longrightarrow>
        require_extension (fe_executors env) (nd_kind n) = Inr ex \<longrightarrow> ex l n = (es, x) \<longrightarrow>
        (\<forall>e \<in> set es. \<not> is_pause e) \<and> (\<forall>r. x = Inr r \<longrightarrow> forward (fe_definition env) rank k n r))"

lemma not_suspending: "\<not> suspends r \<Longrightarrow> resolveEffects env j n r = ret r"
  by (cases j; cases r) (simp_all add: fun_eq_iff)

lemma wp_race_forward:
  assumes "leads_forward env rank" and "map_of (fd_nodes (fe_definition env)) k = Some n"
    and "require_extension (fe_executors env) (nd_kind n) = Inr ex"
  shows "wp (raceNodeExecution env ex n)
    (\<lambda>x t. undisturbed env s t \<and> (x = OutTimeout \<or> (\<exists>r. x = OutResult r \<and> forward (fe_definition env) rank k n r)))
    (\<lambda>e t. e \<noteq> Unfinished \<and> undisturbed env s t) s"
proof -
  obtain es x where race: "race_outcome env (fs_interruptConsumed s) ex n (fs_log s) = (es, x)" by fastforce
  obtain fs y where run: "ex (fs_log s) n = (fs, y)" by fastforce
  have forwards: "(\<forall>e \<in> set fs. \<not> is_pause e) \<and> (\<forall>r. y = Inr r \<longrightarrow> forward (fe_definition env) rank k n r)"
    and "\<not> fe_interruptible env" and "peaceful env"
    using assms run unfolding leads_forward_def by blast+
  then have "(es, x) = ([], Inr OutTimeout) \<or> (es, x) = (fs, map_sum (\<lambda>e. e) OutResult y)"
    using race run by (auto simp: race_outcome_def Let_def split: race.splits if_splits)
  then have x: "x = Inr OutTimeout \<or> (\<exists>e. x = Inl e) \<or> (\<exists>r. x = Inr (OutResult r) \<and> forward (fe_definition env) rank k n r)"
    and es: "\<forall>e \<in> set es. \<not> is_pause e"
    using forwards by (cases y; auto)+
  have "undisturbed env s (waited env c (fold from_outside es s))" for c
  proof -
    have "undisturbed env s (fold from_outside es s)" by (rule outside_undisturbed [OF es])
    moreover have "undisturbed env t (waited env c t)" for t
    proof -
      have "undisturbed env (t\<lparr>fs_log := fs_log t @ [c]\<rparr>) (waited env c t)"
        unfolding waited_def Let_def using \<open>peaceful env\<close>
        by (intro outside_undisturbed) (simp add: peaceful_def)
      then show ?thesis by (simp add: undisturbed_def)
    qed
    ultimately show ?thesis by (rule calmly.step_trans)
  qed
  with x show ?thesis
    by (auto simp: raceNodeExecution_def wp_seq wp_ask wp_change wp_flow_call race answer_def split: sum.split)
qed

lemma wp_node_forward:
  assumes env: "leads_forward env rank" and n: "map_of (fd_nodes (fe_definition env)) k = Some n"
  shows "wp (node_result env j n)
    (\<lambda>r t. undisturbed env s t \<and> forward (fe_definition env) rank k n r) (\<lambda>_ _. False) s"
proof -
  let ?d = "fe_definition env"
  have quiet: "wp m (\<lambda>_. undisturbed env s) (\<lambda>e t. e \<noteq> Unfinished \<and> undisturbed env s t) t"
    if "finishes m" "stays (undisturbed env) m" "undisturbed env s t" for m :: "('a, unit) flow_io" and t
  proof -
    have "wp m (\<lambda>_ _. True) (\<lambda>e _. e \<noteq> Unfinished) t" using that(1) by (simp add: finishes_def)
    from stays_conj [OF that(2) this] show ?thesis
      by (rule wp_weaken) (use that(3) calmly.step_trans in blast)+
  qed
  note hooks = quiet [OF finishes_hooks calmly.stays_hooks]
    and trace = quiet [OF finishes_trace(1) calmly.stays_traceEvent]
  have race: "wp (node_race env j n)
      (\<lambda>(_, r) t. undisturbed env s t \<and> forward ?d rank k n r)
      (\<lambda>e t. e \<noteq> Unfinished \<and> undisturbed env s t) t" if t: "undisturbed env s t" for t
  proof (cases "require_extension (fe_executors env) (nd_kind n)")
    case (Inl e)
    with t show ?thesis by (simp add: node_race_def wp_raise)
  next
    case (Inr ex)
    have "wp (raceNodeExecution env ex n)
        (\<lambda>x u. undisturbed env s u \<and> (x = OutTimeout \<or> (\<exists>r. x = OutResult r \<and> forward ?d rank k n r)))
        (\<lambda>e u. e \<noteq> Unfinished \<and> undisturbed env s u) t"
      by (rule wp_weaken [OF wp_race_forward [OF env n Inr]]) (use t calmly.step_trans in blast)+
    then show ?thesis
      unfolding node_race_def Inr sum.case wp_seq
      by (rule wp_weaken)
        (auto simp: wp_raise wp_ret wp_seq forward_def not_suspending intro!: wp_weaken [OF hooks] wp_weaken [OF trace])
  qed
  have executed: "wp (execute_node env j n) (\<lambda>(_, r) t. undisturbed env s t \<and> forward ?d rank k n r)
      (\<lambda>e t. e \<noteq> Unfinished \<and> undisturbed env s t) s"
    unfolding execute_node_def wp_seq wp_attempt
    by (intro wp_weaken [OF hooks] wp_weaken [OF trace] wp_weaken [OF race])
      (auto simp: calmly.step_refl wp_raise intro!: wp_weaken [OF hooks])
  have "undisturbed env s (t\<lparr>fs_interruptConsumed := b\<rparr>) = undisturbed env s t" for b t
    by (simp add: undisturbed_def)
  moreover have "forward ?d rank k n (FrCancel c)" "forward ?d rank k n (FrFail e)" for c e
    by (simp_all add: forward_def)
  ultimately show ?thesis
    using env unfolding node_result_def wp_attempt wp_seq
    by (intro wp_weaken [OF executed])
      (auto simp: leads_forward_def wp_ret wp_seq wp_change wp_ask split: option.split)
qed

definition ready :: "(string \<Rightarrow> nat) \<Rightarrow> nat \<Rightarrow> 'v flow_state \<Rightarrow> bool" where
  "ready rank k s \<longleftrightarrow>
     fs_status s = FlowRunning \<and> fs_pauseRequested s = None \<and> (\<exists>c. fs_currentNodeId s = Some c \<and> rank c < k)"

lemma wp_transition_forward:
  assumes "peaceful env" and "fs_status s = FlowRunning" and "fs_pauseRequested s = None"
    and "forward (fe_definition env) rank c n r"
  shows "wp (transition env j n r) (\<lambda>stopped t. stopped \<or> ready rank (rank c) t) (\<lambda>e _. e \<noteq> Unfinished) s"
proof -
  let ?Q = "\<lambda>stopped t. stopped \<or> ready rank (rank c) t"
  define u where "u = s\<lparr>fs_result := Some r, fs_log := fs_log s @ [Took n r]\<rparr>"
  have goes: "wp (go_to i) ?Q (\<lambda>e _. e \<noteq> Unfinished) t"
    if "fs_status t = FlowRunning" "fs_pauseRequested t = None" "leads (fe_definition env) n r = Some i" for i t
    using that assms(4) by (simp add: go_to_def wp_seq wp_change wp_ret ready_def forward_def)
  have stops: "wp (seq m (\<lambda>_. ret True)) ?Q (\<lambda>e _. e \<noteq> Unfinished) t" if "finishes m" for m :: "('a, unit) flow_io" and t
    using that unfolding finishes_def wp_seq wp_ret by (blast intro: wp_weaken)
  have "wp (follow_result env j n r) ?Q (\<lambda>e _. e \<noteq> Unfinished) t"
    if t: "undisturbed env u t" for t
  proof -
    have run: "fs_status t = FlowRunning" "fs_pauseRequested t = None"
      using t assms(1-3) by (simp_all add: undisturbed_def u_def)
    show ?thesis
    proof (cases r)
      case (FrBranch b v)
      show ?thesis
        using goes run by (cases "resolveBranch (fe_definition env) (nd_id n) b")
          (auto simp: follow_result_def FrBranch wp_raise resolveBranch_def split: option.splits if_splits)
    next
      case (FrRetry code)
      have "finishes (seq (complete env FlowFailed (FrFail x)) (\<lambda>_. ret True))" for x
        by (intro finishes_rules finishes_complete)
      moreover have "wp (seq (case fd_retry (fe_definition env) of None \<Rightarrow> ret ()
          | Some p \<Rightarrow> (case ry_backoffMs p of None \<Rightarrow> ret ()
              | Some ms \<Rightarrow> if ms = 0 then ret () else flow_call env (\<lambda>_. Inr ()) (\<lambda>_. BackedOff ms)))
          (\<lambda>_. go_to (nd_id n))) ?Q (\<lambda>e _. e \<noteq> Unfinished) v"
        if v: "fs_status v = FlowRunning" "fs_pauseRequested v = None" for v
      proof -
        let ?m = "case fd_retry (fe_definition env) of None \<Rightarrow> ret ()
          | Some p \<Rightarrow> (case ry_backoffMs p of None \<Rightarrow> ret ()
              | Some ms \<Rightarrow> if ms = 0 then ret () else flow_call env (\<lambda>_. Inr ()) (\<lambda>_. BackedOff ms))"
        have "finishes ?m" by (auto intro!: finishes_rules split: option.split)
        then have "wp ?m (\<lambda>_ _. True) (\<lambda>e _. e \<noteq> Unfinished) v" by (simp add: finishes_def)
        from stays_conj [OF calmly.stays_backoff this] show ?thesis
          unfolding wp_seq
          by (rule wp_weaken) (use goes v assms(1) in \<open>auto simp: FrRetry undisturbed_def\<close>)
      qed
      ultimately show ?thesis
        using run by (auto simp: follow_result_def FrRetry retry_node_def wp_seq [of "ask _"] wp_ask wp_seq [of "change _"] wp_change
            intro!: stops finishes_complete)
    qed (use assms(4) goes run in
        \<open>auto simp: follow_result_def forward_def intro!: stops finishes_complete finishes_end finishes_publish\<close>)
  qed
  note after = this
  have "wp (storeNodeOutput n r) (\<lambda>_ _. True) (\<lambda>e _. e \<noteq> Unfinished) u"
    by (rule finishesD [OF finishes_store])
  from stays_conj [OF calmly.stays_storeNodeOutput this] show ?thesis
    unfolding transition_def wp_seq [of "change _"] wp_change u_def [symmetric] wp_seq [of "storeNodeOutput _ _"]
    by (rule wp_weaken) (auto intro!: after)
qed

section \<open>The run ends\<close>

lemma wp_run_node_forward:
  assumes env: "leads_forward env rank" and s: "ready rank (Suc k) s"
  shows "wp (run_node env j) (\<lambda>stopped t. stopped \<or> ready rank k t) (\<lambda>e _. e \<noteq> Unfinished) s"
proof -
  let ?R = "\<lambda>e _. e \<noteq> Unfinished"
  from s obtain c where c: "fs_currentNodeId s = Some c" "rank c \<le> k" "fs_status s = FlowRunning"
    "fs_pauseRequested s = None" by (auto simp: ready_def)
  have peace: "peaceful env" using env by (simp add: leads_forward_def)
  have node: "wp (seq (publish env) (\<lambda>_.
      seq (change (\<lambda>s. s\<lparr>fs_nodeExecutionSequence := Suc (fs_nodeExecutionSequence s)\<rparr>)) (\<lambda>_.
      seq (node_result env j n) (transition env j n)))) (\<lambda>stopped t. stopped \<or> ready rank k t) ?R t"
    if n: "map_of (fd_nodes (fe_definition env)) c = Some n" and t: "undisturbed env s t" for n t
  proof -
    have trans: "wp (transition env j n r) (\<lambda>stopped t. stopped \<or> ready rank k t) ?R u"
      if "undisturbed env s u" "forward (fe_definition env) rank c n r" for r u
      by (rule wp_weaken [OF wp_transition_forward])
        (use that peace c in \<open>auto simp: undisturbed_def ready_def\<close>)
    have run: "wp (node_result env j n) (\<lambda>r. wp (transition env j n r) (\<lambda>stopped t. stopped \<or> ready rank k t) ?R) ?R v"
      if "undisturbed env s v" for v
      by (rule wp_weaken [OF wp_node_forward [OF env n]]) (use trans that calmly.step_trans in blast)+
    from stays_conj [OF calmly.stays_publish finishesD [OF finishes_publish]] show ?thesis
      unfolding wp_seq wp_change
    proof (rule wp_weaken)
      fix x u assume "True \<and> undisturbed env t u"
      then have "undisturbed env s (u\<lparr>fs_nodeExecutionSequence := Suc (fs_nodeExecutionSequence u)\<rparr>)"
        using t by (simp add: undisturbed_def)
      then show "wp (node_result env j n) (\<lambda>r. wp (transition env j n r) (\<lambda>stopped t. stopped \<or> ready rank k t) ?R) ?R
          (u\<lparr>fs_nodeExecutionSequence := Suc (fs_nodeExecutionSequence u)\<rparr>)" by (rule run)
    qed simp
  qed
  show ?thesis
    using c(1) by (auto simp: run_node_def requireCurrentNode_def wp_seq [of "seq _ _"] wp_seq [of "ask _"] wp_ask wp_raise
        wp_ret wp_seq [of "change _"] wp_change undisturbed_def split: option.split intro!: node)
qed

lemma runNodes_forward:
  assumes env: "leads_forward env rank" and s: "ready rank k s" and "k \<le> j"
  shows "wp (runNodes env j) (\<lambda>_ _. True) (\<lambda>e _. e \<noteq> Unfinished) s"
  using s \<open>k \<le> j\<close>
proof (induction k arbitrary: j s)
  case 0
  then show ?case by (simp add: ready_def)
next
  case (Suc k)
  then obtain i where j: "j = Suc i" "k \<le> i" by (cases j) auto
  have "wp (completeCancellation env c) (\<lambda>_ _. True) (\<lambda>e _. e \<noteq> Unfinished) s" for c
    unfolding completeCancellation_def by (rule finishesD [OF finishes_complete])
  moreover have "wp (seq (run_node env i) (\<lambda>stopped. if stopped then ret () else runNodes env i))
      (\<lambda>_ _. True) (\<lambda>e _. e \<noteq> Unfinished) s"
    unfolding wp_seq
    by (rule wp_weaken [OF wp_run_node_forward [OF env Suc.prems(1)]])
      (auto simp: wp_ret intro: Suc.IH j(2))
  ultimately show ?case
    using Suc.prems(1) by (auto simp: j(1) wp_seq [of "ask _"] wp_ask ready_def split: option.split)
qed

lemma run_flow_forward:
  assumes env: "leads_forward env rank" and "fs_status s = FlowRunning" and "fs_pauseRequested s = None"
    and "fs_currentNodeId s = Some c" and "rank c < k"
  shows "fst (run_flow env k s) \<noteq> Inl Unfinished"
proof -
  let ?R = "\<lambda>e _. e \<noteq> Unfinished"
  have peace: "peaceful env" using env by (simp add: leads_forward_def)
  have "finishes (seq (runFlowHooks env ''beforeFlowStart'') (\<lambda>_.
     seq (trace_flow ''flow.started'' None) (\<lambda>_.
     seq (publish env) (\<lambda>_. runFlowHooks env ''afterFlowStart''))))"
    by (intro finishes_rules finishes_hooks finishes_trace finishes_publish)
  moreover have "stays (undisturbed env) (seq (runFlowHooks env ''beforeFlowStart'') (\<lambda>_.
     seq (trace_flow ''flow.started'' None) (\<lambda>_.
     seq (publish env) (\<lambda>_. runFlowHooks env ''afterFlowStart''))))"
    by (intro calmly.calm_rules calmly.calm_parts)
  ultimately have "wp (seq (runFlowHooks env ''beforeFlowStart'') (\<lambda>_.
     seq (trace_flow ''flow.started'' None) (\<lambda>_.
     seq (publish env) (\<lambda>_. runFlowHooks env ''afterFlowStart''))))
     (\<lambda>_ t. True \<and> undisturbed env s t) (\<lambda>e t. e \<noteq> Unfinished \<and> undisturbed env s t) s"
    by (intro stays_conj finishesD)
  then have "wp (seq (runFlowHooks env ''beforeFlowStart'') (\<lambda>_.
     seq (trace_flow ''flow.started'' None) (\<lambda>_.
     seq (publish env) (\<lambda>_. runFlowHooks env ''afterFlowStart''))))
     (\<lambda>_. wp (runNodes env k) (\<lambda>_ _. True) ?R) ?R s"
  proof (rule wp_weaken)
    fix x t assume "True \<and> undisturbed env s t"
    then have "ready rank k t" using assms(2-5) peace by (simp add: undisturbed_def ready_def)
    then show "wp (runNodes env k) (\<lambda>_ _. True) ?R t" by (rule runNodes_forward [OF env]) simp
  qed simp
  then have body: "wp (flow_body env k) (\<lambda>_ _. True) ?R s"
    by (simp add: flow_body_def wp_seq [abs_def])
  have clean: "wp (clean_up env) (\<lambda>_ _. True) ?R t" for t
    by (rule finishesD [OF finishes_clean_up])
  have closing: "wp (clean_up env) (\<lambda>_ _. e \<noteq> Unfinished) ?R t" if "e \<noteq> Unfinished" for e t
    by (rule wp_weaken [OF clean]) (use that in simp_all)
  have "wp (complete env FlowFailed (FrFail e)) (\<lambda>_. wp (clean_up env) (\<lambda>_ _. True) ?R)
      (\<lambda>e t. if e = Unfinished then e \<noteq> Unfinished else wp (clean_up env) (\<lambda>_ _. e \<noteq> Unfinished) ?R t) t" for e t
    by (rule wp_weaken [OF finishesD [OF finishes_complete]]) (simp_all add: clean closing)
  then have "wp (run_flow env k) (\<lambda>_ _. True) ?R s"
    unfolding run_flow_def wp_lastly wp_attempt
    by (intro wp_weaken [OF body]) (simp_all add: clean)
  then show ?thesis by (auto simp: wp_def split: prod.splits sum.splits)
qed

end
