(* ===== verification/Flow_Properties.thy ===== *)
theory Flow_Properties
  imports Flow_Ending Flow_Instance
begin

text \<open>
  The properties of the flow engine: how control moves through a flow, how often nodes are
  retried, how and that a flow ends, which interrupt policy and which extension is chosen, and
  what the engine keeps of its instances. Each is applied to a concrete flow.
\<close>

section \<open>A concrete flow\<close>

definition ex_node :: "string \<Rightarrow> string \<Rightarrow> string option \<Rightarrow> nat flow_node" where
  "ex_node i kind nx = \<lparr>nd_id = i, nd_kind = kind, nd_timeoutMs = None, nd_next = nx, nd_body = OtherBody\<rparr>"

definition ex_flow :: "nat flow_definition" where
  "ex_flow =
     \<lparr>fd_id = ''f'', fd_version = ''1'', fd_startNodeId = ''a'',
      fd_nodes = [(''a'', ex_node ''a'' ''step'' (Some ''b'')), (''b'', ex_node ''b'' ''wait'' (Some ''c'')),
                  (''c'', ex_node ''c'' ''done'' None)],
      fd_edges = None, fd_timeoutMs = None, fd_retry = None\<rparr>"

definition ex_executor :: "(nat flow_node \<Rightarrow> nat flow_result) \<Rightarrow> nat executor" where
  "ex_executor f l n = ([], Inr (f n))"

definition ex_extension :: "string \<Rightarrow> 'a \<Rightarrow> string \<times> 'a extension list" where
  "ex_extension k v = (k, [\<lparr>ex_id = k, ex_version = None, ex_owner = None, ex_priority = Some 0,
     ex_duplicatePolicy = None, ex_value = v\<rparr>])"

text \<open>The middle node waits, or ends the flow at once.\<close>

definition ex_flow_env :: "nat flow_result \<Rightarrow> (nat flow_log \<Rightarrow> nat external list) \<Rightarrow> nat flow_env" where
  "ex_flow_env middle outside =
     \<lparr>fe_definition = ex_flow, fe_instanceId = ''i1'', fe_interrupts = None,
      fe_hooks = [''onFlowCancel'', ''onFlowComplete''],
      fe_projected = True, fe_stopOnStay = False, fe_stopOnReenter = False, fe_interruptible = False,
      fe_aborted = False,
      fe_executors = [ex_extension ''step'' (ex_executor (\<lambda>n. nextOrEnd n (Some 1))),
        ex_extension ''wait'' (ex_executor (\<lambda>n. middle)),
        ex_extension ''done'' (ex_executor (\<lambda>n. FrEnd (Some 2)))],
      fe_effectRunners = [], fe_race = (\<lambda>_. RaceFinished), fe_hook = (\<lambda>_ _. Inr ()),
      fe_publish = (\<lambda>_. Inr ()), fe_catch = None, fe_finally = Some (\<lambda>_. Inr ()),
      fe_validate = None, fe_external = outside\<rparr>"

definition a_wait :: "nat flow_result" where
  "a_wait = FrWait \<lparr>wc_topic = ''t'', wc_timeoutMs = None\<rparr>"

fun is_gate :: "'v flow_call \<Rightarrow> bool" where
  "is_gate AwaitedGate = True" | "is_gate _ = False"

text \<open>A flow resumed, and one cancelled, while it waits.\<close>

definition on_gate :: "nat external \<Rightarrow> nat flow_log \<Rightarrow> nat external list" where
  "on_gate x l = (if l \<noteq> [] \<and> is_gate (last l) then [x] else [])"

definition resumed_env :: "nat flow_env" where
  "resumed_env = ex_flow_env a_wait (on_gate (XResume None))"

definition cancelled_env :: "nat flow_env" where
  "cancelled_env = ex_flow_env a_wait (on_gate (XCancel \<lparr>xr_source = None, xr_code = ''STOP''\<rparr>))"

definition straight_env :: "nat flow_env" where
  "straight_env = ex_flow_env (FrNext ''c'' None) (\<lambda>_. [])"

lemma resumed_status: "map_option sp_status (fs_completion (snd (start_flow resumed_env 10))) = Some FlowCompleted"
  by code_simp

lemma cancelled_status: "map_option sp_status (fs_completion (snd (start_flow cancelled_env 10))) = Some FlowPaused"
  by code_simp

section \<open>Control\<close>

lemma start_lawful: "lawful_run env (snd (start_flow env k))"
proof -
  have "wp (run_flow env k) (\<lambda>_. lawful_run env) (\<lambda>_. lawful_run env)
      (linkExternalCancellation env (new_instance env))"
    by (rule wp_weaken [OF wp_run_flow [OF started_onward]]) simp_all
  then show ?thesis by (simp add: wp_always start_flow_def)
qed

text \<open>
  C23. Control moves through a flow as its results say, whatever the nodes, hooks, handlers and
  projections answer and whoever pauses, resumes, cancels or interrupts the instance: a node is
  run, and a result taken for it, only if it is the node that the last result taken leads to, or the
  start node before any; after a result that ends the flow - an end, a failure, a cancellation, an
  unknown branch, a stay or reenter the caller wanted to stop at, a retry beyond the policy - no node
  is run and no result taken; and neither once the flow's clean-up has begun, which happens at most once.
\<close>

theorem control_follows_results:
  assumes "fs_log (snd (start_flow env k)) = i @ c # j"
  shows "flow_law env i c"
proof -
  have "lawful_from (flow_law env) [] (i @ c # j)"
    using start_lawful [of env k] assms by (simp add: lawful_run_def)
  then show ?thesis by (rule lawful_split)
qed

theorem control_follows_results_witness:
  "flow_law resumed_env (take 6 (fs_log (snd (start_flow resumed_env 10)))) (fs_log (snd (start_flow resumed_env 10)) ! 6)"
proof -
  have "6 < length (fs_log (snd (start_flow resumed_env 10)))" by code_simp
  then show ?thesis
    using control_follows_results [OF id_take_nth_drop, of 6 resumed_env 10] by simp
qed

text \<open>
  C25. No node is retried more often than the flow allows: a run takes at most as many retry
  results for one node as it has attempts, and at least one, and after the last of them no node is
  run and no result taken any more.
\<close>

theorem retries_are_bounded:
  assumes "fs_log (snd (start_flow env steps)) = i @ c # j" and "is_retry k c"
  shows "retries_of k (i @ [c]) \<le> max 1 (max_attempts (fe_definition env)) \<and>
    (retries_of k (i @ [c]) = max 1 (max_attempts (fe_definition env)) \<longrightarrow> \<not> has runs_on j)"
proof -
  have law: "lawful_from (flow_law env) [] ((i @ [c]) @ j)"
    and all: "retries_of k ((i @ [c]) @ j) \<le> max 1 (max_attempts (fe_definition env))"
    using start_lawful [of env steps] assms(1) by (simp_all add: lawful_run_def)
  have "retries_of k (i @ [c]) \<le> retries_of k ((i @ [c]) @ j)" by (simp add: retries_of_def)
  moreover have "\<not> has runs_on j" if "retries_of k (i @ [c]) = max 1 (max_attempts (fe_definition env))"
  proof (rule ended_for_good)
    show "lawful_from (flow_law env) (i @ [c]) j" using law by (simp add: lawful_from_append)
    obtain n code where c: "c = Took n (FrRetry code)" "nd_id n = k"
      using assms(2) by (cases "(k, c)" rule: is_retry.cases) auto
    then show "position env (i @ [c]) = None" using that by (simp add: retries_of_def)
  qed
  ultimately show ?thesis using all by linarith
qed

definition retry_env :: "nat flow_env" where
  "retry_env =
     (ex_flow_env (FrRetry ''BUSY'') (\<lambda>_. []))
       \<lparr>fe_definition := ex_flow\<lparr>fd_retry := Some \<lparr>ry_maxAttempts = 2, ry_backoffMs = None\<rparr>\<rparr>\<rparr>"

definition retry_log :: "nat flow_log" where
  "retry_log = fs_log (snd (start_flow retry_env 10))"

text \<open>The second retry result is the last one.\<close>

definition last_retry :: nat where
  "last_retry = last (filter (\<lambda>x. is_retry ''b'' (retry_log ! x)) [0..<length retry_log])"

theorem retries_are_bounded_witness:
  "retries_of ''b'' (take (Suc last_retry) retry_log) = 2 \<and> \<not> has runs_on (drop (Suc last_retry) retry_log)"
proof -
  have at: "last_retry < length retry_log" "is_retry ''b'' (retry_log ! last_retry)"
    and two: "retries_of ''b'' (take (Suc last_retry) retry_log) = 2" by code_simp+
  have log: "fs_log (snd (start_flow retry_env 10)) =
      take last_retry retry_log @ retry_log ! last_retry # drop (Suc last_retry) retry_log"
    using id_take_nth_drop [OF at(1)] by (simp add: retry_log_def)
  have "max 1 (max_attempts (fe_definition retry_env)) = 2"
    by (simp add: retry_env_def max_attempts_def)
  with retries_are_bounded [OF log at(2)] two show ?thesis
    by (simp add: take_Suc_conv_app_nth [OF at(1)])
qed

section \<open>Ending\<close>

text \<open>
  C24. A flow ends in the status of its last result: the snapshot its completion resolves to is
  completed with an end, cancelled with a cancellation, failed with a failure, or running with a
  stay result if the caller wanted to stop at those, or a reenter result if at those - or still
  paused, if it was cancelled while it was suspended. By then the flow's clean-up has been run,
  and a run that ends without an exception has resolved its completion.
\<close>

theorem flow_settles:
  "(fst (start_flow env k) = Inr () \<longrightarrow> fs_completion (snd (start_flow env k)) \<noteq> None) \<and>
   (\<forall>sp. fs_completion (snd (start_flow env k)) = Some sp \<longrightarrow>
      ends_with env (sp_status sp) (sp_result sp) (fs_cancellation (snd (start_flow env k)) \<noteq> None) \<and>
      (fe_finally env \<noteq> None \<longrightarrow> has is_finally (fs_log (snd (start_flow env k)))))"
proof -
  obtain r t where run: "start_flow env k = (r, t)" by fastforce
  have wp: "wp (run_flow env k) (\<lambda>_ t. resolved env t) (\<lambda>e t. fs_completion t = None \<or> resolved env t)
      (linkExternalCancellation env (new_instance env))"
    by (rule wp_weaken [OF wp_run_flow [OF started_onward]]) simp_all
  have "(r = Inr () \<longrightarrow> resolved env t) \<and> (fs_completion t = None \<or> resolved env t)"
    using wp run by (cases r) (auto simp: wp_def start_flow_def)
  then show ?thesis by (auto simp: run resolved_def settled_def)
qed

theorem flow_settles_witness:
  "\<exists>sp. fs_completion (snd (start_flow resumed_env 10)) = Some sp \<and> sp_status sp = FlowCompleted \<and>
     (\<exists>v. sp_result sp = Some (FrEnd v)) \<and> has is_finally (fs_log (snd (start_flow resumed_env 10)))"
proof -
  obtain sp where sp: "fs_completion (snd (start_flow resumed_env 10)) = Some sp" "sp_status sp = FlowCompleted"
    using resumed_status by auto
  have "fe_finally resumed_env \<noteq> None" by (simp add: resumed_env_def ex_flow_env_def)
  with flow_settles [of resumed_env 10] sp
  have "ends_with resumed_env FlowCompleted (sp_result sp) (fs_cancellation (snd (start_flow resumed_env 10)) \<noteq> None)"
    and f: "has is_finally (fs_log (snd (start_flow resumed_env 10)))" by auto
  then have "\<exists>v. sp_result sp = Some (FrEnd v)" by (auto elim!: ends_with.elims)
  with sp f show ?thesis by blast
qed

text \<open>
  C26. A flow whose nodes lead only forward ends: if every result its executors give leads to a node
  of a lower rank or ends the flow, none of them waits, pauses or asks for effects, the flow has no
  catch handler (whose results would be followed as well), and nobody pauses or interrupts it, then
  it is over after as many steps as the rank of its start node, and one more.
\<close>

theorem forward_flow_ends:
  assumes "leads_forward env rank" and "rank (fd_startNodeId (fe_definition env)) < k"
  shows "fst (start_flow env k) \<noteq> Inl Unfinished"
  unfolding start_flow_def
  by (rule run_flow_forward [OF assms(1) _ _ _ assms(2)])
    (simp_all add: linkExternalCancellation_def new_instance_def requestCancellation_def active_def)

lemma ex_lookup: "require_extension (fe_executors straight_env) x = Inr ex \<Longrightarrow>
    x = ''step'' \<and> ex = ex_executor (\<lambda>n. nextOrEnd n (Some 1)) \<or>
    x = ''wait'' \<and> ex = ex_executor (\<lambda>n. FrNext ''c'' None) \<or>
    x = ''done'' \<and> ex = ex_executor (\<lambda>n. FrEnd (Some 2))"
  by (auto simp: straight_env_def ex_flow_env_def require_extension_def get_extension_def registrations_def
      ex_extension_def split: if_splits)

definition ex_rank :: "string \<Rightarrow> nat" where
  "ex_rank x = (if x = ''a'' then 2 else if x = ''b'' then 1 else 0)"

lemma ex_leads_forward: "leads_forward straight_env ex_rank"
proof -
  have "(\<forall>e \<in> set es. \<not> is_pause e) \<and> (\<forall>r. x = Inr r \<longrightarrow> forward ex_flow ex_rank k n r)"
    if n: "map_of (fd_nodes ex_flow) k = Some n" "require_extension (fe_executors straight_env) (nd_kind n) = Inr ex"
      and x: "ex l n = (es, x)" for k n ex l es x
    using n(1) ex_lookup [OF n(2)] x
    by (auto simp: ex_flow_def ex_node_def ex_executor_def forward_def nextOrEnd_def ex_rank_def split: if_splits)
  moreover have "fe_definition straight_env = ex_flow" "fe_catch straight_env = None"
    "\<not> fe_interruptible straight_env" "peaceful straight_env"
    by (simp_all add: straight_env_def ex_flow_env_def peaceful_def)
  ultimately show ?thesis by (simp add: leads_forward_def)
qed

theorem forward_flow_ends_witness: "fst (start_flow straight_env 3) \<noteq> Inl Unfinished"
  by (rule forward_flow_ends [OF ex_leads_forward])
    (simp add: straight_env_def ex_flow_env_def ex_flow_def ex_rank_def)

lemma seq_returned: "m s = (Inr x, t) \<Longrightarrow> seq m f s = f x t"
  by (simp add: seq_def)

lemma seq_change: "seq (change f) g s = g () (f s)"
  by (simp add: seq_def change_def)

lemma seq_assoc: "seq (seq m f) g = seq m (\<lambda>x. seq (f x) g)"
  by (rule ext) (simp add: seq_def split: prod.split sum.split)

text \<open>
  A flow cancelled while it is suspended is never cancelled: when its wait ends with a
  cancellation requested, the flow stays paused and the loop over its nodes stops there, its
  state as it is - no cancellation is completed and no cancellation hook is run.
\<close>

theorem suspended_flow_stays_paused:
  assumes "seq (publish env) (\<lambda>_. await_gate env k)
      (s\<lparr>fs_result := Some r, fs_status := FlowPaused, fs_resumeGate := Some False\<rparr>) = (Inr (), t)"
    and "fs_cancellation t \<noteq> None"
  shows "suspend env k r s = (Inr (), t\<lparr>fs_resumeGate := None\<rparr>) \<and> fs_status t = FlowPaused \<and>
    runNodes env (Suc j) (t\<lparr>fs_resumeGate := None\<rparr>) = (Inr (), t\<lparr>fs_resumeGate := None\<rparr>)"
proof -
  let ?u = "s\<lparr>fs_result := Some r, fs_status := FlowPaused, fs_resumeGate := Some False\<rparr>"
  have "stays quiet (seq (publish env) (\<lambda>_. await_gate env k))" by (intro quiet_rules quiet_parts)
  then have "quiet ?u (snd (seq (publish env) (\<lambda>_. await_gate env k) ?u))"
    unfolding stays_def by (rule spec)
  then have paused: "fs_status t = FlowPaused" unfolding assms(1) by (simp add: quiet_def)
  have "suspend env k r s = seq (seq (publish env) (\<lambda>_. await_gate env k)) (\<lambda>_.
      seq (change (\<lambda>s. s\<lparr>fs_resumeGate := None\<rparr>)) (\<lambda>_.
      seq (ask fs_cancellation) (\<lambda>c.
      if c \<noteq> None then ret ()
      else seq (change (\<lambda>s. s\<lparr>fs_status := FlowRunning\<rparr>)) (\<lambda>_. publish env)))) ?u"
    by (simp only: suspend_def seq_change seq_assoc)
  also have "\<dots> = (Inr (), t\<lparr>fs_resumeGate := None\<rparr>)"
    using assms(2) unfolding seq_returned [of "seq (publish env) (\<lambda>_. await_gate env k)", OF assms(1)] seq_change by (simp add: seq_def ask_def ret_def)
  finally show ?thesis using paused by (simp add: seq_def ask_def ret_def)
qed

definition ex_suspended :: "(flow_error + unit) \<times> nat flow_state" where
  "ex_suspended = seq (publish cancelled_env) (\<lambda>_. await_gate cancelled_env 5)
     ((new_instance cancelled_env)\<lparr>fs_result := Some a_wait, fs_status := FlowPaused, fs_resumeGate := Some False\<rparr>)"

theorem suspended_flow_stays_paused_witness:
  "suspend cancelled_env 5 a_wait (new_instance cancelled_env) =
     (Inr (), (snd ex_suspended)\<lparr>fs_resumeGate := None\<rparr>) \<and>
   fs_status (snd ex_suspended) = FlowPaused"
proof -
  have "fst ex_suspended = Inr ()" and c: "fs_cancellation (snd ex_suspended) \<noteq> None" by code_simp+
  then have "ex_suspended = (Inr (), snd ex_suspended)" by (metis prod.collapse)
  from suspended_flow_stays_paused [OF this [unfolded ex_suspended_def] c [unfolded ex_suspended_def]]
  show ?thesis unfolding ex_suspended_def by blast
qed

section \<open>Interrupt policies and extensions\<close>

text \<open>
  An interrupt is answered by the policy for it, and for the node, of the highest priority,
  and of those by the first one; only an interrupt without any such policy cancels the flow for
  its own reason.
\<close>

theorem interrupt_policy_is_best:
  assumes "selectInterruptPolicy i (Some ps) n = Some p"
  shows "\<exists>before after. filter (interrupt_applies i n) ps = before @ p # after \<and>
     (\<forall>q \<in> set before. ip_priority q < ip_priority p) \<and> (\<forall>q \<in> set after. ip_priority q \<le> ip_priority p)"
  using assms by (auto simp: selectInterruptPolicy_def split: list.splits intro: first_best)

definition ex_policies :: "interrupt_policy list" where
  "ex_policies =
     [\<lparr>ip_id = ''door'', ip_priority = 1, ip_appliesTo = None, ip_action = CancelFlow ''DOOR''\<rparr>,
      \<lparr>ip_id = ''door'', ip_priority = 5, ip_appliesTo = Some ''wait'', ip_action = InterruptPause ''DOOR''\<rparr>]"

theorem interrupt_policy_is_best_witness:
  "\<exists>before after. filter (interrupt_applies \<lparr>in_id = ''door'', in_reasonCode = ''R''\<rparr> (ex_node ''b'' ''wait'' None)) ex_policies =
     before @ ex_policies ! 1 # after \<and> (\<forall>q \<in> set before. ip_priority q < ip_priority (ex_policies ! 1)) \<and>
     (\<forall>q \<in> set after. ip_priority q \<le> ip_priority (ex_policies ! 1))"
  by (rule interrupt_policy_is_best) code_simp

text \<open>
  Of the extensions registered in a row under one id, each chained to the others, the
  registry uses the one of the highest priority, and of those the first - although it sorts
  again with every registration.
\<close>

theorem extension_lookup_is_best:
  assumes "register_all register_extension xs [] = Inr r" and "list_all chained xs"
    and "get_extension r k = Some v"
  shows "\<exists>before x after. filter (\<lambda>x. ex_id x = k) xs = before @ x # after \<and> ex_value x = v \<and>
     (\<forall>y \<in> set before. priority_of y < priority_of x) \<and> (\<forall>y \<in> set after. priority_of y \<le> priority_of x)"
proof -
  have "registrations r k = by_priority (filter (\<lambda>x. ex_id x = k) ([] @ map normalizeRegistration xs))"
    by (rule register_all_chained [OF assms(2,1)]) (simp add: registrations_def by_priority_def)
  also have "\<dots> = by_priority (map normalizeRegistration (filter (\<lambda>x. ex_id x = k) xs))"
    by (simp add: filter_map o_def)
  finally obtain n ns where n: "by_priority (map normalizeRegistration (filter (\<lambda>x. ex_id x = k) xs)) = n # ns"
      "ex_value n = v"
    using assms(3) by (auto simp: get_extension_def split: list.splits)
  from first_best [OF n(1) [unfolded by_priority_def]] obtain before after
    where split: "map normalizeRegistration (filter (\<lambda>x. ex_id x = k) xs) = before @ n # after"
      "\<forall>y \<in> set before. priority_of y < priority_of n" "\<forall>y \<in> set after. priority_of y \<le> priority_of n"
    by blast
  then obtain b x a where "filter (\<lambda>x. ex_id x = k) xs = b @ x # a"
      "before = map normalizeRegistration b" "n = normalizeRegistration x" "after = map normalizeRegistration a"
    by (auto simp: map_eq_append_conv map_eq_Cons_conv)
  with split n(2) show ?thesis by (intro exI [of _ b] exI [of _ x] exI [of _ a]) simp
qed

definition ex_registration :: "int option \<Rightarrow> nat \<Rightarrow> nat extension" where
  "ex_registration p v = \<lparr>ex_id = ''k'', ex_version = None, ex_owner = None, ex_priority = p,
     ex_duplicatePolicy = Some DupChain, ex_value = v\<rparr>"

definition ex_registrations :: "nat extension list" where
  "ex_registrations = [ex_registration None 1, ex_registration (Some 3) 2, ex_registration (Some 3) 3]"

theorem extension_lookup_is_best_witness:
  "\<exists>before x after. filter (\<lambda>x. ex_id x = ''k'') ex_registrations = before @ x # after \<and> ex_value x = 2 \<and>
     (\<forall>y \<in> set before. priority_of y < priority_of x) \<and> (\<forall>y \<in> set after. priority_of y \<le> priority_of x)"
proof (rule extension_lookup_is_best)
  show "list_all chained ex_registrations" by (simp add: ex_registrations_def ex_registration_def chained_def)
  show "register_all register_extension ex_registrations [] =
      Inr (projr (register_all register_extension ex_registrations []))" by code_simp
  show "get_extension (projr (register_all register_extension ex_registrations [])) ''k'' = Some 2" by code_simp
qed

section \<open>The engine\<close>

datatype 'v engine_event =
    EnRegister "'v flow_definition" | EnUnregister string "string option"
  | EnStart string "string option" "'v flow_definition \<Rightarrow> string + unit" "string option" "string option"
      "'v flow_definition \<Rightarrow> 'v snapshot"
  | EnShow string "'v snapshot" | EnCompleted string "'v snapshot" | EnDisposed

fun engine_step :: "int option \<Rightarrow> 'v engine_event \<Rightarrow> 'v flow_engine \<Rightarrow> 'v flow_engine" where
  "engine_step n (EnRegister d) e = (case register_flow d e of Inl _ \<Rightarrow> e | Inr e' \<Rightarrow> e')"
| "engine_step n (EnUnregister k v) e = unregister_flow k v e"
| "engine_step n (EnStart k v validate given made initial) e =
     snd (start_instance k v validate given made initial e)"
| "engine_step n (EnShow i sp) e = show_instance i sp e"
| "engine_step n (EnCompleted i sp) e = instance_completed n i sp e"
| "engine_step n EnDisposed e = dispose_engine e"

definition engine_ok :: "int option \<Rightarrow> 'v flow_engine \<Rightarrow> bool" where
  "engine_ok n e \<longleftrightarrow>
     distinct (map fst (en_active e) @ map fst (en_completed e)) \<and>
     int (length (en_completed e)) \<le> max 0 (case n of None \<Rightarrow> 100 | Some m \<Rightarrow> m)"

lemma keys_drop_key: "fst ` set (drop_key k m) = fst ` set m - {k}"
  by (auto simp: drop_key_def)

lemma distinct_drop_key: "distinct (map fst m) \<Longrightarrow> distinct (map fst (drop_key k m))"
  by (induction m) (auto simp: drop_key_def)

lemma keys_put: "fst ` set (put k v m) = insert k (fst ` set m)"
  by (simp add: dom_update flip: dom_map_of_conv_image_fst)

lemma engine_okI:
  "distinct (map fst a) \<Longrightarrow> distinct (map fst c) \<Longrightarrow> fst ` set a \<inter> fst ` set c = {} \<Longrightarrow>
   int (length c) \<le> max 0 (case n of None \<Rightarrow> 100 | Some m \<Rightarrow> m) \<Longrightarrow>
   engine_ok n (e\<lparr>en_active := a, en_completed := c\<rparr>)"
  by (simp add: engine_ok_def)

lemma start_instance_engine:
  assumes "engine_ok n e"
  shows "engine_ok n (snd (start_instance k v validate given made initial e))"
proof -
  obtain i e' where i: "instance_id given made e = (i, e')" by fastforce
  then have same: "en_active e' = en_active e" "en_completed e' = en_completed e"
    by (auto simp: instance_id_def split: option.splits)
  show ?thesis
    using assms
    by (auto simp: start_instance_def i same engine_ok_def keys_put distinct_update split: sum.split)
qed

lemma completed_ok:
  assumes "engine_ok n e"
  shows "engine_ok n (instance_completed n i sp e)"
proof -
  let ?c = "put i sp (en_completed e)" and ?a = "drop_key i (en_active e)"
  define m where "m = nat (max 0 (case n of None \<Rightarrow> 100 | Some k \<Rightarrow> k))"
  have "fst ` set (drop j ?c) \<subseteq> fst ` set ?c" for j by (meson image_mono set_drop_subset)
  then have "fst ` set ?a \<inter> fst ` set (drop (length ?c - m) ?c) = {}"
    using assms by (auto simp: keys_drop_key keys_put engine_ok_def)
  moreover have "distinct (map fst (drop (length ?c - m) ?c))"
    using assms distinct_update [of "en_completed e" i sp] by (simp add: engine_ok_def flip: drop_map)
  moreover have "int (length (drop (length ?c - m) ?c)) \<le> int m" by simp
  ultimately have "engine_ok n (e\<lparr>en_active := ?a, en_completed := drop (length ?c - m) ?c\<rparr>)"
    using assms by (intro engine_okI) (simp_all add: engine_ok_def distinct_drop_key m_def)
  then show ?thesis
    by (simp add: instance_completed_def trimCompletedInstances_def Let_def m_def)
qed

lemma engine_step_ok: "engine_ok n e \<Longrightarrow> engine_ok n (engine_step n x e)"
proof (cases x)
  case (EnRegister d)
  assume "engine_ok n e"
  then show ?thesis
    by (auto simp: EnRegister register_flow_def engine_ok_def res_simps Let_def rbind_def guard_res_def
        split: sum.split)
next
  case (EnUnregister k v)
  assume "engine_ok n e"
  then show ?thesis by (auto simp: EnUnregister unregister_flow_def engine_ok_def Let_def split: option.split)
next
  case (EnShow i sp)
  assume "engine_ok n e"
  then show ?thesis by (auto simp: EnShow show_instance_def engine_ok_def keys_put distinct_update insert_absorb)
qed (simp_all add: start_instance_engine completed_ok dispose_engine_def, simp add: engine_ok_def)

text \<open>
  Whatever is registered, started, completed and disposed, in whatever order, no two
  instances the engine knows have the same identifier, be they active or completed, and it keeps
  no more completed ones than its retention allows, one hundred by default.
\<close>

theorem engine_instances_are_distinct:
  "distinct (map fst (en_active (fold (engine_step n) xs new_engine)) @
      map fst (en_completed (fold (engine_step n) xs new_engine))) \<and>
   int (length (en_completed (fold (engine_step n) xs new_engine))) \<le> max 0 (case n of None \<Rightarrow> 100 | Some m \<Rightarrow> m)"
proof -
  have "engine_ok n (fold (engine_step n) xs e)" if "engine_ok n e" for e
    using that by (induction xs arbitrary: e) (simp_all add: engine_step_ok)
  moreover have "engine_ok n new_engine" by (simp add: engine_ok_def new_engine_def)
  ultimately show ?thesis unfolding engine_ok_def by blast
qed

end
