(* ===== verification/Spec2Isabelle.thy ===== *)
theory Spec2Isabelle
  imports Host_Properties Withdrawal_Properties Withdrawal_Closing Startup_Properties Service_Availability
    Session_Receiving Delivery_Properties Cash_Properties Card_Properties Acceptance_Properties
    Deposit_Properties Deposit_Closing Flow_Properties
begin

text \<open>
  A verification library for the transaction core of the kiosk framework: what the kiosk says
  to its host, how cash is withdrawn and deposited, what becomes of the cash and of the card,
  what is stored so that nothing is lost, and the flow engine under the screens.

  The parts and how they interact. A withdrawal (\<^verbatim>\<open>packages/withdrawal-orchestration\<close>)
  asks the host for its authorization, has the cash dispensed, returns the card, and presents
  the cash once the gates approve. The host is reached with messages packed by the Host Message
  Service (\<^verbatim>\<open>packages/host-message\<close>), framed and exchanged over a persistent TCP session
  (\<^verbatim>\<open>packages/kiosk-host-native-channel\<close>) or, where an answer may come later, through a
  durable outbox (\<^verbatim>\<open>packages/kiosk-host-delivery\<close>). Cash and card are the business of two
  services of \<^verbatim>\<open>packages/xfs-device-service\<close> that keep evidence of what the devices
  confirmed. A deposit (\<^verbatim>\<open>packages/deposit-orchestration\<close>) has batches of notes accepted
  into escrow by a third such service and reviewed, asks the host to authorize exactly this escrow, and
  has it committed, or else given back. When a withdrawal or a deposit has its outcome, its finalizers run under the operation
  finalization of \<^verbatim>\<open>packages/kiosk-runtime\<close>, which resumes them after a restart before it
  lets a new operation begin; the service availability of the same package suspends the service
  when a gate closes. Flows (\<^verbatim>\<open>packages/flow-engine\<close>) run node after node and get their
  executors from the extension registry of \<^verbatim>\<open>packages/device-core\<close>.

  How the code is rendered. A class is a \<^theory_text>\<open>record\<close> of its fields and one definition per
  method; an enum or a tagged union is a \<^theory_text>\<open>datatype\<close> with the source's cases. An exception
  is a value: a function that cannot be interleaved returns \<^theory_text>\<open>error + 'a\<close>, one that threads
  a state through many calls is a computation of \<^theory_text>\<open>Effects\<close>, which returns or throws and
  leaves the state either way. Code outside the repository and everything that is asked of a port is
  a function of the log: the calls made so far, each with its answer. Nothing is assumed of
  these functions except what a property states, so a property covers every device, host, clock
  and store, and every place where one of them throws. Where several activities overlap (the
  session, the delivery workers, the service availability) the model is a step function over
  inputs, a step lasting from one \<^verbatim>\<open>await\<close> to the next; the inputs may come in any order, so
  more interleavings are admitted than the event loop can produce. Strings are lists of UTF-16
  code units where their bytes matter; bytes are words of 8 bits.
\<close>

section \<open>The theories\<close>

text \<open>
  Shared. \<^verbatim>\<open>Kiosk_Prelude\<close>: fallible computations, slices, objects as association
  lists, numerals, and the collections of rewrite rules. \<^verbatim>\<open>Js_Text\<close>, \<^verbatim>\<open>Js_Utf8\<close>:
  JavaScript strings, byte arrays and the UTF-8 codec of the language's library, and the JSON texts
  that are hashed and stored.
  \<^verbatim>\<open>Effects\<close>: computations with a state and exceptions, their postconditions, the locale of
  frames, and histories in which every call is lawful. \<^verbatim>\<open>Registry\<close>: the interface of the
  registries that are filled and then frozen; every such class of the program interprets it.

  The Host Message Service, one theory per file of \<^verbatim>\<open>packages/host-message/src\<close>:
  \<^verbatim>\<open>Host_Contracts\<close> (\<^verbatim>\<open>contracts.ts\<close>, \<^verbatim>\<open>errors.ts\<close>), \<^verbatim>\<open>Host_Bytes\<close>
  (\<^verbatim>\<open>bytes.ts\<close>), \<^verbatim>\<open>Host_Fields\<close> (\<^verbatim>\<open>field-codecs.ts\<close>), \<^verbatim>\<open>Host_Wire\<close>
  (\<^verbatim>\<open>field-wire.ts\<close>), \<^verbatim>\<open>Host_Fixed\<close> (\<^verbatim>\<open>fixed-field-codec.ts\<close>),
  \<^verbatim>\<open>Host_Iso\<close> (\<^verbatim>\<open>iso8583-codec.ts\<close>), \<^verbatim>\<open>Host_Registries\<close>
  (\<^verbatim>\<open>registries.ts\<close>), \<^verbatim>\<open>Host_Service\<close>
  (\<^verbatim>\<open>service.ts\<close>, \<^verbatim>\<open>safety.ts\<close>). \<^verbatim>\<open>Host_Wire\<close> also has the locale between a message codec and the
  field layer; both codecs are its clients. The \<^verbatim>\<open>_Laws\<close> theories show the shapes of decode results,
  the bitmap as a set of data elements and both round trips for registered profiles;
  the properties are applied to a project with a profile of either kind.

  Framing and session (\<^verbatim>\<open>packages/kiosk-host-native-channel/src\<close>): \<^verbatim>\<open>Frame_Codec\<close>
  (\<^verbatim>\<open>framing.ts\<close>), \<^verbatim>\<open>Host_Session\<close> (\<^verbatim>\<open>persistent-session.ts\<close> and the files
  beside it). \<^verbatim>\<open>Session_Laws\<close>, \<^verbatim>\<open>Session_Sending\<close> and \<^verbatim>\<open>Session_Receiving\<close>
  hold the invariant of every reachable state, what is written, and what is routed.

  Durable delivery (\<^verbatim>\<open>packages/kiosk-host-delivery/src\<close>): \<^verbatim>\<open>Host_Delivery\<close> has the
  tables and every statement on them, \<^verbatim>\<open>Delivery_Worker\<close> the workers, the inquiries and
  the resolutions. \<^verbatim>\<open>Delivery_Attempts\<close> and
  \<^verbatim>\<open>Delivery_Answers\<close> show how often a record is sent and what stands behind a reconciled one.

  Withdrawal (\<^verbatim>\<open>packages/withdrawal-orchestration/src\<close>): \<^verbatim>\<open>Cash_Contracts\<close>,
  \<^verbatim>\<open>Withdrawal_Contracts\<close> (\<^verbatim>\<open>contracts.ts\<close>, \<^verbatim>\<open>policy.ts\<close>),
  \<^verbatim>\<open>Withdrawal_Orchestrator\<close> (\<^verbatim>\<open>orchestrator.ts\<close>), \<^verbatim>\<open>Withdrawal_Investigation\<close>
  (\<^verbatim>\<open>investigation.ts\<close>, \<^verbatim>\<open>finalizers.ts\<close>). \<^verbatim>\<open>Withdrawal_Protocol\<close> is the
  specification: the phases of a withdrawal and the calls each allows, written without
  reference to the orchestrator. \<^verbatim>\<open>Withdrawal_Laws\<close> has the simulation,
  \<^verbatim>\<open>Withdrawal_Properties\<close> first what every history of the protocol has in it,
  \<^verbatim>\<open>Withdrawal_Returns\<close> when \<^verbatim>\<open>execute\<close> returns at all, and
  \<^verbatim>\<open>Withdrawal_Closing\<close> composes the finalizers with the runner below.

  Finalization, start-up and availability (\<^verbatim>\<open>packages/kiosk-runtime/src\<close>):
  \<^verbatim>\<open>Finalization_Plan\<close> and \<^verbatim>\<open>Finalization_Runner\<close> (\<^verbatim>\<open>finalization-*.ts\<close>),
  whose \<^verbatim>\<open>Finalization_Laws\<close> state a store that never fails as a locale interpreted on the
  in-memory store; \<^verbatim>\<open>Finalization_Sql\<close> (\<^verbatim>\<open>finalization-sql-store.ts\<close>), the SQL store on a
  connection that may refuse a statement, do it without answering or throw on a query, and the locale
  of durable stores, interpreted on both; \<^verbatim>\<open>Finalization_Durable\<close>, what runs, restarts and
  failures in any order leave of the order of the finalizers and of their being executed once;
  \<^verbatim>\<open>Transaction_Startup\<close> (\<^verbatim>\<open>transaction-startup.ts\<close>);
  \<^verbatim>\<open>Service_Availability\<close> (\<^verbatim>\<open>service-availability.ts\<close>).

  Cash and card (\<^verbatim>\<open>packages/xfs-device-service/src\<close>): \<^verbatim>\<open>Cash_Device\<close> and
  \<^verbatim>\<open>Cash_Delivery\<close> (\<^verbatim>\<open>cash-delivery.ts\<close> and the files it uses) with the lawful
  commands in \<^verbatim>\<open>Cash_Laws\<close>, the invariant of the session in \<^verbatim>\<open>Cash_Invariant\<close> and its
  preservation by every method in \<^verbatim>\<open>Cash_Methods\<close>; \<^verbatim>\<open>Card_Custody\<close>
  (\<^verbatim>\<open>card-custody.ts\<close>) with \<^verbatim>\<open>Card_Laws\<close>.

  Cash acceptance (the same package): \<^verbatim>\<open>Acceptance_Policy\<close> (the contracts, the escrow
  snapshot and its hash), \<^verbatim>\<open>Cash_Acceptance\<close> (\<^verbatim>\<open>cash-acceptance.ts\<close>),
  \<^verbatim>\<open>Acceptance_Store\<close> (the two stores, one locale interpreted on both, and the recovery).
  \<^verbatim>\<open>Acceptance_Laws\<close> has the lawful commands and the stages of a session,
  \<^verbatim>\<open>Acceptance_Methods\<close> that every method keeps them, whatever its caller permits to be
  committed, \<^verbatim>\<open>Acceptance_Recovery\<close> what the store holds whenever the process stops.

  Deposit (\<^verbatim>\<open>packages/deposit-orchestration/src\<close>): \<^verbatim>\<open>Deposit_Contracts\<close>
  (\<^verbatim>\<open>contracts.ts\<close>, \<^verbatim>\<open>policy.ts\<close>, \<^verbatim>\<open>outcome.ts\<close>),
  \<^verbatim>\<open>Deposit_Workflow\<close> (\<^verbatim>\<open>workflow.ts\<close>, \<^verbatim>\<open>orchestrator.ts\<close>), which runs the
  session of \<^verbatim>\<open>Cash_Acceptance\<close> itself and not an abstraction of it;
  \<^verbatim>\<open>Deposit_Laws\<close> says what the host's approval permits the session to commit, and
  \<^verbatim>\<open>Deposit_Closing\<close> composes the outcome with its finalizers (\<^verbatim>\<open>finalizers.ts\<close>).

  Flows (\<^verbatim>\<open>packages/flow-engine/src\<close>): \<^verbatim>\<open>Extension_Registry\<close>
  (\<^verbatim>\<open>packages/device-core/src/extension-registry.ts\<close>), \<^verbatim>\<open>Flow_Types\<close>
  (\<^verbatim>\<open>types.ts\<close>), \<^verbatim>\<open>Flow_Nodes\<close> (\<^verbatim>\<open>node-runtime.ts\<close>, \<^verbatim>\<open>hooks.ts\<close>,
  \<^verbatim>\<open>builtin-nodes.ts\<close>), \<^verbatim>\<open>Flow_Instance\<close> (\<^verbatim>\<open>instance-runtime.ts\<close>,
  \<^verbatim>\<open>engine.ts\<close>, \<^verbatim>\<open>dsl.ts\<close>). \<^verbatim>\<open>Flow_Laws\<close> has the rules
  a run keeps (where each result leads, and that one which ends the flow leads nowhere),
  \<^verbatim>\<open>Flow_Ending\<close> that flows without a way back end.

  The theories named \<^verbatim>\<open>_Properties\<close> or \<^verbatim>\<open>_Closing\<close>, and the last sections of
  \<^verbatim>\<open>Service_Availability\<close> and \<^verbatim>\<open>Session_Receiving\<close>, hold the properties of their part,
  each with the input it is applied to.
\<close>

section \<open>Bounds and fuel\<close>

text \<open>
  Most loops of the code run over a list and are structural recursion. Four do not.
  \<^verbatim>\<open>waitForTake\<close> polls until the clock passes a deadline: \<^theory_text>\<open>wait_loop\<close> takes a bound on
  the polls, \<^theory_text>\<open>None\<close> stands for a bound that was too small, and \<^theory_text>\<open>take_wait_ends\<close> shows that with
  delays that last as long as asked the polls that fit into the time, and one more, are enough.
  The card's \<^verbatim>\<open>awaitTake\<close> waits once. A deposit's loop over its batches is structural on
  the batches its policy has left.
  The loop over the nodes of a flow has no bound in the code either: \<^theory_text>\<open>run_flow\<close> takes a number of
  steps and says \<^theory_text>\<open>Unfinished\<close> when they are used up; \<^theory_text>\<open>forward_flow_ends\<close>
  shows how many are enough when no result leads back. \<^theory_text>\<open>drainFrames\<close> and the codecs
  recurse on the bytes that are left, with a termination proof. The delivery worker and the session are step functions, so a
  run is as long as its list of inputs.

  Integers are unbounded where the code's numbers stay far below the limit of exact doubles
  (counts, times, amounts in minor units); the length prefix of a frame and the digits of a
  field are kept at their width.
\<close>

section \<open>Not modelled\<close>

text \<open>
  Left out of the modelled parts: listeners and lifecycle subscribers that only read; the safe
  data attached to reasons, gate answers and failures beyond its code; payload metadata of
  cancellations and messages; calls of one cash session that overlap (its callers await each);
  the text form of times (ISO texts of one width are compared as numbers) and of the JSON columns of
  the outbox and of the finalizations (a column holds what its text stands for); two runs of a
  finalization that overlap (the coordinator awaits each, the recovery comes before any); the cipher of the payload vault, which is a parameter.

  Left out as components: the durable recovery of cash (\<^verbatim>\<open>recovery-*.ts\<close>), the supervisor of host sessions, the user input nodes of
  flows, and the coordinator, whose work is composition. The user interface, plug-ins,
  configuration documents, loggers, the native adapter, the scaffolding of projects and the
  example applications are input and output or wiring, and do not carry the rules proved here.
\<close>

end
